(* ===== verification/Ocs2_Prelude.thy ===== *)
theory Ocs2_Prelude
  imports Complex_Main
begin

text \<open>
  What every component of the model shares.

  \<^item> The numbers of the code: \<open>scalar\<close> for \<open>scalar_t\<close> (a C++ \<open>double\<close>, taken as an exact real:
    rounding, NaN and infinities are not part of the model), \<open>nat\<close> for \<open>size_t\<close> and \<open>int\<close>
    for \<open>int\<close>.
  \<^item> The failures of the code: \<open>Runtime_Error\<close> carries the text of a thrown
    \<open>std::runtime_error\<close>; \<open>Assertion_Failed\<close> is a failed \<open>assert\<close>; \<open>Undefined\<close> stands for an
    access outside a container or another call that the C++ standard leaves undefined.
  \<^item> The containers: checked reads and writes of a \<open>std::vector\<close>.
  \<^item> The generic facts that the component theories use.
\<close>

section \<open>Scalars, containers and failures\<close>

type_synonym scalar = real
type_synonym vector_t = "real list"

datatype ocs2_error = Runtime_Error string | Assertion_Failed | Undefined

type_synonym 'a result = "ocs2_error + 'a"

named_theorems result_simps \<open>equations of the result type and of checked container access\<close>
named_theorems lookup_intros \<open>facts about the positions that a lookup returns\<close>

definition bind_result :: "'a result \<Rightarrow> ('a \<Rightarrow> 'b result) \<Rightarrow> 'b result" where
  "bind_result r f = (case r of Inl e \<Rightarrow> Inl e | Inr x \<Rightarrow> f x)"

definition succeeds :: "'a result \<Rightarrow> bool" where
  "succeeds r = (case r of Inl _ \<Rightarrow> False | Inr _ \<Rightarrow> True)"

definition require :: "bool \<Rightarrow> ocs2_error \<Rightarrow> unit result" where
  "require b e = (if b then Inr () else Inl e)"

lemma bind_result_Inl [simp, result_simps]: "bind_result (Inl e) f = Inl e"
  by (simp add: bind_result_def)

lemma bind_result_Inr [simp, result_simps]: "bind_result (Inr x) f = f x"
  by (simp add: bind_result_def)

lemma bind_result_eq_Inr [result_simps]:
  "(bind_result r f = Inr y) = (\<exists>x. r = Inr x \<and> f x = Inr y)"
  by (cases r) auto

lemma bind_result_eq_Inl:
  "(bind_result r f = Inl e) = (r = Inl e \<or> (\<exists>x. r = Inr x \<and> f x = Inl e))"
  by (cases r) auto

lemma succeeds_Inl [simp, result_simps]: "\<not> succeeds (Inl e)"
  by (simp add: succeeds_def)

lemma succeeds_Inr [simp, result_simps]: "succeeds (Inr x)"
  by (simp add: succeeds_def)

lemma succeeds_iff: "succeeds r = (\<exists>x. r = Inr x)"
  by (cases r) auto

lemma require_True [simp, result_simps]: "require True e = Inr ()"
  by (simp add: require_def)

lemma require_False [simp, result_simps]: "require False e = Inl e"
  by (simp add: require_def)

lemma require_eq_Inr [simp, result_simps]: "(require b e = Inr u) = b"
  by (simp add: require_def)

text \<open>Reads and writes of a \<open>std::vector\<close> through \<open>operator[]\<close>, with the bounds written out.\<close>

definition vec_at :: "'a list \<Rightarrow> nat \<Rightarrow> 'a result" where
  "vec_at xs i = (if i < length xs then Inr (xs ! i) else Inl Undefined)"

definition vec_set :: "'a list \<Rightarrow> nat \<Rightarrow> 'a \<Rightarrow> 'a list result" where
  "vec_set xs i x = (if i < length xs then Inr (xs[i := x]) else Inl Undefined)"

definition vec_front :: "'a list \<Rightarrow> 'a result" where
  "vec_front xs = vec_at xs 0"

definition vec_back :: "'a list \<Rightarrow> 'a result" where
  "vec_back xs = (if xs = [] then Inl Undefined else Inr (last xs))"

text \<open>The sub-range \<open>[begin + i, begin + j)\<close> of a vector; the iterators must be ordered and inside.\<close>

definition vec_range :: "'a list \<Rightarrow> nat \<Rightarrow> nat \<Rightarrow> 'a list result" where
  "vec_range xs i j = (if i \<le> j \<and> j \<le> length xs then Inr (take (j - i) (drop i xs)) else Inl Undefined)"

lemma vec_at_in [simp, result_simps]: "i < length xs \<Longrightarrow> vec_at xs i = Inr (xs ! i)"
  by (simp add: vec_at_def)

lemma vec_at_out [simp, result_simps]: "\<not> i < length xs \<Longrightarrow> vec_at xs i = Inl Undefined"
  by (simp add: vec_at_def)

lemma vec_at_eq_Inr [result_simps]: "(vec_at xs i = Inr x) = (i < length xs \<and> xs ! i = x)"
  by (auto simp: vec_at_def)

lemma vec_set_in [simp, result_simps]: "i < length xs \<Longrightarrow> vec_set xs i x = Inr (xs[i := x])"
  by (simp add: vec_set_def)

lemma vec_set_eq_Inr [result_simps]: "(vec_set xs i x = Inr ys) = (i < length xs \<and> ys = xs[i := x])"
  by (auto simp: vec_set_def)

lemma vec_front_Cons [simp, result_simps]: "vec_front (x # xs) = Inr x"
  by (simp add: vec_front_def)

lemma vec_front_Nil [simp, result_simps]: "vec_front [] = Inl Undefined"
  by (simp add: vec_front_def vec_at_def)

lemma vec_front_nonempty: "xs \<noteq> [] \<Longrightarrow> vec_front xs = Inr (hd xs)"
  by (cases xs) auto

lemma vec_back_nonempty [simp, result_simps]: "xs \<noteq> [] \<Longrightarrow> vec_back xs = Inr (last xs)"
  by (simp add: vec_back_def)

lemma vec_back_Nil [simp, result_simps]: "vec_back [] = Inl Undefined"
  by (simp add: vec_back_def)

lemma vec_range_in [simp, result_simps]:
  "i \<le> j \<Longrightarrow> j \<le> length xs \<Longrightarrow> vec_range xs i j = Inr (take (j - i) (drop i xs))"
  by (simp add: vec_range_def)

text \<open>Reads of an Eigen vector: an index or a segment outside it trips an assertion.\<close>

definition eigen_at :: "vector_t \<Rightarrow> nat \<Rightarrow> scalar result" where
  "eigen_at v i = (if i < length v then Inr (v ! i) else Inl Assertion_Failed)"

definition eigen_segment :: "vector_t \<Rightarrow> nat \<Rightarrow> nat \<Rightarrow> vector_t result" where
  "eigen_segment v i n = (if i + n \<le> length v then Inr (take n (drop i v)) else Inl Assertion_Failed)"

text \<open>Loops that may fail: \<open>for (x : xs)\<close> with a state, and a fallible \<open>std::transform\<close>.\<close>

fun fold_result :: "('x \<Rightarrow> 's \<Rightarrow> 's result) \<Rightarrow> 'x list \<Rightarrow> 's \<Rightarrow> 's result" where
  "fold_result f [] s = Inr s"
| "fold_result f (x # xs) s = bind_result (f x s) (fold_result f xs)"

fun map_result :: "('x \<Rightarrow> 'y result) \<Rightarrow> 'x list \<Rightarrow> 'y list result" where
  "map_result f [] = Inr []"
| "map_result f (x # xs) = bind_result (f x) (\<lambda>y. bind_result (map_result f xs) (\<lambda>ys. Inr (y # ys)))"

lemma map_result_Inr: "map_result f xs = Inr ys \<Longrightarrow> length ys = length xs"
  by (induction xs arbitrary: ys) (auto simp: result_simps)

lemma map_result_all: "(\<And>x. x \<in> set xs \<Longrightarrow> f x = Inr (g x)) \<Longrightarrow> map_result f xs = Inr (map g xs)"
  by (induction xs) auto

lemma map_result_succeeds_iff: "succeeds (map_result f xs) = (\<forall>x \<in> set xs. succeeds (f x))"
proof (induction xs)
  case (Cons x xs)
  then show ?case by (cases "f x"; cases "map_result f xs") auto
qed simp

lemma succeeds_bind: "succeeds (bind_result r f) = (\<exists>x. r = Inr x \<and> succeeds (f x))"
  by (cases r) auto

lemma succeeds_bind_indep:
  "(\<And>x. succeeds (f x) = P) \<Longrightarrow> succeeds (bind_result r f) = (succeeds r \<and> P)"
  by (cases r) auto

lemma map_result_map: "map_result f (map g xs) = map_result (\<lambda>x. f (g x)) xs"
  by (induction xs) auto

text \<open>The steps of a loop that all succeed leave an invariant of the loop in its result.\<close>

lemma fold_result_invariant:
  assumes "P s"
    and "\<And>x s. x \<in> set xs \<Longrightarrow> P s \<Longrightarrow> \<exists>s'. f x s = Inr s' \<and> P s'"
  shows "\<exists>s'. fold_result f xs s = Inr s' \<and> P s'"
  using assms
proof (induction xs arbitrary: s)
  case Nil
  then show ?case by simp
next
  case (Cons x xs)
  from Cons.prems(1) Cons.prems(2)[of x s] obtain s1 where s1: "f x s = Inr s1" "P s1" by auto
  have "\<exists>s'. fold_result f xs s1 = Inr s' \<and> P s'"
    by (rule Cons.IH) (use s1 Cons.prems(2) in auto)
  with s1 show ?case by simp
qed

lemma fold_result_append:
  "fold_result f (xs @ ys) s = bind_result (fold_result f xs s) (fold_result f ys)"
proof (induction xs arbitrary: s)
  case Nil
  then show ?case by simp
next
  case (Cons x xs)
  show ?case by (cases "f x s") (simp_all add: Cons.IH)
qed

lemma fold_result_cong:
  "(\<And>x s. x \<in> set xs \<Longrightarrow> f x s = g x s) \<Longrightarrow> fold_result f xs s = fold_result g xs s"
proof (induction xs arbitrary: s)
  case Nil
  then show ?case by simp
next
  case (Cons x xs)
  then show ?case by (cases "f x s") (auto simp: bind_result_def split: sum.splits)
qed

text \<open>The same with the index of the loop in the invariant.\<close>

lemma fold_result_enumerate:
  assumes "P 0 s"
    and "\<And>i s. i < length xs \<Longrightarrow> P i s \<Longrightarrow> \<exists>s'. f (i, xs ! i) s = Inr s' \<and> P (Suc i) s'"
  shows "\<exists>s'. fold_result f (enumerate 0 xs) s = Inr s' \<and> P (length xs) s'"
  using assms
proof (induction xs rule: rev_induct)
  case (snoc x xs)
  have "\<exists>s'. fold_result f (enumerate 0 xs) s = Inr s' \<and> P (length xs) s'"
  proof (rule snoc.IH)
    fix i s assume "i < length xs" "P i s"
    then show "\<exists>s'. f (i, xs ! i) s = Inr s' \<and> P (Suc i) s'" using snoc.prems(2)[of i s] by (simp add: nth_append)
  qed (rule snoc.prems(1))
  then obtain s1 where s1: "fold_result f (enumerate 0 xs) s = Inr s1" "P (length xs) s1" by blast
  from snoc.prems(2)[of "length xs" s1] s1(2) obtain s2 where "f (length xs, x) s1 = Inr s2" "P (Suc (length xs)) s2" by auto
  with s1(1) show ?case by (simp add: enumerate_append_eq fold_result_append)
qed simp

lemma map_result_nth_iff:
  "map_result f xs = Inr ys \<longleftrightarrow> length ys = length xs \<and> (\<forall>i < length xs. f (xs ! i) = Inr (ys ! i))"
proof (induction xs arbitrary: ys)
  case (Cons x xs)
  show ?case
  proof (cases ys)
    case (Cons y zs)
    then show ?thesis using Cons.IH[of zs] by (auto simp: result_simps All_less_Suc2)
  qed (auto simp: result_simps)
qed auto

section \<open>Sorted time arrays\<close>

lemma sorted_last_ge: "sorted (xs :: scalar list) \<Longrightarrow> x \<in> set xs \<Longrightarrow> x \<le> last xs"
proof (induction xs)
  case Nil
  then show ?case by simp
next
  case (Cons y ys)
  then show ?case by (cases ys) (auto intro: order_trans)
qed

lemma sorted_hd_le: "sorted (xs :: scalar list) \<Longrightarrow> x \<in> set xs \<Longrightarrow> hd xs \<le> x"
  by (cases xs) auto

end
