(* ===== verification/Lookup.thy ===== *)
theory Lookup
  imports Ocs2_Prelude
begin

text \<open>
  The numeric comparisons of \<open>core/ocs2_core/include/ocs2_core/misc/Numerics.h\<close> and the searches
  in a sorted time array of \<open>core/ocs2_core/include/ocs2_core/misc/Lookup.h\<close>, over the two
  searches of the C++ standard library that they call. The locale \<open>time_search\<close> is the contract
  of those searches; everything proved from it holds for the partition-point model and for the
  halving loop of the standard library alike.
\<close>

section \<open>Numeric traits and almost equality\<close>

definition weakEpsilon :: scalar where
  "weakEpsilon = 1 / 10 ^ 9"

definition limitEpsilon :: scalar where
  "limitEpsilon = 1 / 10 ^ 6"

text \<open>\<open>std::numeric_limits<double>::epsilon()\<close> and \<open>std::numeric_limits<double>::min()\<close>.\<close>

definition double_epsilon :: scalar where
  "double_epsilon = 1 / 2 ^ 52"

definition double_min :: scalar where
  "double_min = 1 / 2 ^ 1022"

definition almost_eq_prec :: "scalar \<Rightarrow> scalar \<Rightarrow> scalar \<Rightarrow> bool" where
  "almost_eq_prec x y prec =
     (let absDiff = \<bar>x - y\<bar>; magnitude = min \<bar>x\<bar> \<bar>y\<bar>
      in absDiff \<le> prec * magnitude \<or> absDiff < double_min)"

definition almost_eq :: "scalar \<Rightarrow> scalar \<Rightarrow> bool" where
  "almost_eq x y = almost_eq_prec x y double_epsilon"

definition almost_le :: "scalar \<Rightarrow> scalar \<Rightarrow> scalar \<Rightarrow> bool" where
  "almost_le x y prec = (x < y \<or> almost_eq_prec x y prec)"

definition almost_ge :: "scalar \<Rightarrow> scalar \<Rightarrow> scalar \<Rightarrow> bool" where
  "almost_ge x y prec = (x > y \<or> almost_eq_prec x y prec)"

lemma double_min_pos: "0 < double_min"
  by (simp add: double_min_def)

lemma almost_eq_prec_refl: "almost_eq_prec x x prec"
  using double_min_pos by (simp add: almost_eq_prec_def Let_def)

lemma almost_eq_prec_sym: "almost_eq_prec x y prec = almost_eq_prec y x prec"
  by (simp add: almost_eq_prec_def Let_def abs_minus_commute min.commute)

lemma almost_eq_refl [simp]: "almost_eq x x"
  by (simp add: almost_eq_def almost_eq_prec_refl)

lemma almost_eq_sym: "almost_eq x y = almost_eq y x"
  by (simp add: almost_eq_def almost_eq_prec_sym)

lemma almost_le_or_ge: "almost_le x y prec \<or> almost_ge x y prec"
  using almost_eq_prec_refl by (cases x y rule: linorder_cases) (auto simp: almost_le_def almost_ge_def)

lemma almost_le_ge_eq:
  "0 \<le> prec \<Longrightarrow> almost_le x y prec \<Longrightarrow> almost_ge x y prec \<Longrightarrow> almost_eq_prec x y prec"
  by (auto simp: almost_le_def almost_ge_def)

text \<open>Two numbers further apart than the smallest normal double and the scaled precision differ.\<close>

lemma not_almost_eqI:
  "double_min \<le> \<bar>x - y\<bar> \<Longrightarrow> double_epsilon * \<bar>y\<bar> < \<bar>x - y\<bar> \<Longrightarrow> \<not> almost_eq x y"
proof -
  assume 1: "double_min \<le> \<bar>x - y\<bar>" and 2: "double_epsilon * \<bar>y\<bar> < \<bar>x - y\<bar>"
  have "double_epsilon * min \<bar>x\<bar> \<bar>y\<bar> \<le> double_epsilon * \<bar>y\<bar>"
    by (rule mult_left_mono) (auto simp: double_epsilon_def)
  with 1 2 show ?thesis by (simp add: almost_eq_def almost_eq_prec_def Let_def)
qed

section \<open>The searches of the standard library\<close>

text \<open>
  \<open>std::lower_bound\<close> and \<open>std::upper_bound\<close> return the partition point of a sorted range: the
  position of the first element that is not less than the value, respectively greater than it.
\<close>

definition lowerBoundIndex :: "scalar list \<Rightarrow> scalar \<Rightarrow> nat" where
  "lowerBoundIndex xs t = length (takeWhile (\<lambda>x. x < t) xs)"

definition upperBoundIndex :: "scalar list \<Rightarrow> scalar \<Rightarrow> nat" where
  "upperBoundIndex xs t = length (takeWhile (\<lambda>x. x \<le> t) xs)"

text \<open>
  The same position found by halving, as implementations of \<open>std::lower_bound\<close> do: \<open>len\<close>
  elements starting at \<open>first\<close> are still undecided.
\<close>

function bisect_lower :: "scalar list \<Rightarrow> scalar \<Rightarrow> nat \<Rightarrow> nat \<Rightarrow> nat" where
  "bisect_lower xs t first len =
     (if len = 0 then first
      else (let half = len div 2; middle = first + half
            in if xs ! middle < t then bisect_lower xs t (middle + 1) (len - half - 1)
               else bisect_lower xs t first half))"
  by pat_completeness auto
termination
  by (relation "measure (\<lambda>(xs, t, first, len). len)") (auto simp: Let_def)

declare bisect_lower.simps [simp del]

subsection \<open>The contract of a search\<close>

locale time_search =
  fixes before :: "scalar \<Rightarrow> scalar \<Rightarrow> bool"
    and find :: "scalar list \<Rightarrow> scalar \<Rightarrow> nat"
  assumes find_le: "sorted xs \<Longrightarrow> find xs t \<le> length xs"
    and find_before: "sorted xs \<Longrightarrow> i < find xs t \<Longrightarrow> before (xs ! i) t"
    and find_after: "sorted xs \<Longrightarrow> find xs t \<le> i \<Longrightarrow> i < length xs \<Longrightarrow> \<not> before (xs ! i) t"
    and before_down: "before x t \<Longrightarrow> y \<le> x \<Longrightarrow> before y t"
    and before_up: "before x t \<Longrightarrow> t \<le> u \<Longrightarrow> before x u"
begin

lemma find_unique:
  assumes "sorted xs" "k \<le> length xs"
    and "\<And>i. i < k \<Longrightarrow> before (xs ! i) t"
    and "\<And>i. k \<le> i \<Longrightarrow> i < length xs \<Longrightarrow> \<not> before (xs ! i) t"
  shows "find xs t = k"
proof (rule linorder_cases [of "find xs t" k])
  assume less: "find xs t < k"
  with assms(2) have "\<not> before (xs ! find xs t) t" using find_after[OF assms(1)] by simp
  with less assms(3) show ?thesis by blast
next
  assume greater: "k < find xs t"
  with find_le[OF assms(1), of t] have "k < length xs" by simp
  with assms(4)[of k] find_before[OF assms(1) greater] show ?thesis by blast
qed

lemma less_find_iff: "sorted xs \<Longrightarrow> i < length xs \<Longrightarrow> (i < find xs t) = before (xs ! i) t"
  using find_before[of xs i t] find_after[of xs t i] by (cases "i < find xs t") auto

lemma find_mono:
  assumes "sorted xs" "t \<le> u"
  shows "find xs t \<le> find xs u"
proof (rule ccontr)
  assume "\<not> find xs t \<le> find xs u"
  then have lt: "find xs u < find xs t" by simp
  have "before (xs ! find xs u) t" by (rule find_before[OF assms(1) lt])
  then have "before (xs ! find xs u) u" using before_up assms(2) by blast
  moreover have "find xs u < length xs" using lt find_le[OF assms(1), of t] by simp
  ultimately show False using find_after[OF assms(1)] by blast
qed

lemma find_zero_iff: "sorted xs \<Longrightarrow> (find xs t = 0) = (xs = [] \<or> \<not> before (hd xs) t)"
  using find_le[of xs t] find_before[of xs 0 t] find_after[of xs t 0]
  by (cases xs) auto

lemma find_full_iff: "sorted xs \<Longrightarrow> xs \<noteq> [] \<Longrightarrow> (find xs t = length xs) = before (last xs) t"
  using find_le[of xs t] find_before[of xs "length xs - 1" t] find_after[of xs t "length xs - 1"]
  by (fastforce simp: last_conv_nth)

end

lemma partition_point_before:
  "i < length (takeWhile P xs) \<Longrightarrow> P (xs ! i)"
  by (metis nth_mem set_takeWhileD takeWhile_nth)

lemma partition_point_after:
  fixes xs :: "scalar list"
  assumes sorted: "sorted xs" and down: "\<And>x y. P x \<Longrightarrow> y \<le> x \<Longrightarrow> P y"
    and i: "length (takeWhile P xs) \<le> i" "i < length xs"
  shows "\<not> P (xs ! i)"
proof
  let ?k = "length (takeWhile P xs)"
  assume "P (xs ! i)"
  moreover have "xs ! ?k \<le> xs ! i" by (rule sorted_nth_mono[OF sorted i])
  ultimately have "P (xs ! ?k)" by (rule down)
  moreover have "\<not> P (xs ! ?k)" using i by (intro nth_length_takeWhile) simp
  ultimately show False by simp
qed

interpretation lower: time_search "(<)" lowerBoundIndex
proof
  show "sorted xs \<Longrightarrow> lowerBoundIndex xs t \<le> length xs" for xs t
    by (simp add: lowerBoundIndex_def length_takeWhile_le)
  show "sorted xs \<Longrightarrow> i < lowerBoundIndex xs t \<Longrightarrow> xs ! i < t" for xs t i
    unfolding lowerBoundIndex_def by (rule partition_point_before)
  show "sorted xs \<Longrightarrow> lowerBoundIndex xs t \<le> i \<Longrightarrow> i < length xs \<Longrightarrow> \<not> xs ! i < t" for xs t i
    unfolding lowerBoundIndex_def by (rule partition_point_after) auto
qed auto

interpretation upper: time_search "(\<le>)" upperBoundIndex
proof
  show "sorted xs \<Longrightarrow> upperBoundIndex xs t \<le> length xs" for xs t
    by (simp add: upperBoundIndex_def length_takeWhile_le)
  show "sorted xs \<Longrightarrow> i < upperBoundIndex xs t \<Longrightarrow> xs ! i \<le> t" for xs t i
    unfolding upperBoundIndex_def by (rule partition_point_before)
  show "sorted xs \<Longrightarrow> upperBoundIndex xs t \<le> i \<Longrightarrow> i < length xs \<Longrightarrow> \<not> xs ! i \<le> t" for xs t i
    unfolding upperBoundIndex_def by (rule partition_point_after) auto
qed auto

lemmas time_search_facts [lookup_intros] =
  lower.find_le lower.find_before lower.find_after upper.find_le upper.find_before upper.find_after

lemma bisect_lower_partition:
  assumes "sorted xs" "first + len \<le> length xs"
    and "\<And>i. i < first \<Longrightarrow> xs ! i < t"
    and "\<And>i. first + len \<le> i \<Longrightarrow> i < length xs \<Longrightarrow> \<not> xs ! i < t"
  shows "bisect_lower xs t first len = lowerBoundIndex xs t"
  using assms
proof (induction xs t first len rule: bisect_lower.induct)
  case (1 xs t first len)
  let ?half = "len div 2" and ?mid = "first + len div 2"
  show ?case
  proof (cases "len = 0")
    case True
    then have "lowerBoundIndex xs t = first"
      using "1.prems" by (intro lower.find_unique) auto
    with True show ?thesis by (simp add: bisect_lower.simps)
  next
    case False
    then have mid: "?mid < length xs" using "1.prems"(2) by simp
    show ?thesis
    proof (cases "xs ! ?mid < t")
      case True
      have low: "xs ! i < t" if "i < ?mid + 1" for i
        using sorted_nth_mono[OF "1.prems"(1), of i ?mid] that True mid by simp
      have "bisect_lower xs t (?mid + 1) (len - ?half - 1) = lowerBoundIndex xs t"
        by (rule "1.IH"(1)[OF False refl refl True "1.prems"(1)]) (use "1.prems" False low in auto)
      with True False show ?thesis by (simp add: bisect_lower.simps[of xs t first len] Let_def)
    next
      case ge: False
      have high: "\<not> xs ! i < t" if "?mid \<le> i" "i < length xs" for i
        using sorted_nth_mono[OF "1.prems"(1) that] ge by simp
      have "bisect_lower xs t first ?half = lowerBoundIndex xs t"
        by (rule "1.IH"(2)[OF False refl refl ge "1.prems"(1)]) (use "1.prems" False high in auto)
      with ge False show ?thesis by (simp add: bisect_lower.simps[of xs t first len] Let_def)
    qed
  qed
qed

lemma bisect_lower_eq: "sorted xs \<Longrightarrow> bisect_lower xs t 0 (length xs) = lowerBoundIndex xs t"
  by (rule bisect_lower_partition) auto

interpretation halving: time_search "(<)" "\<lambda>xs t. bisect_lower xs t 0 (length xs)"
proof
  show "bisect_lower xs t 0 (length xs) \<le> length xs" if "sorted xs" for xs t
    using lower.find_le[OF that] by (simp add: bisect_lower_eq[OF that])
  show "xs ! i < t" if "sorted xs" "i < bisect_lower xs t 0 (length xs)" for xs t i
    using lower.find_before[OF that(1)] that(2) by (simp add: bisect_lower_eq[OF that(1)])
  show "\<not> xs ! i < t" if "sorted xs" "bisect_lower xs t 0 (length xs) \<le> i" "i < length xs" for xs t i
    using lower.find_after[OF that(1)] that(2,3) by (simp add: bisect_lower_eq[OF that(1)])
qed auto

section \<open>Lookup in time arrays\<close>

definition findFirstIndexWithinTol :: "scalar list \<Rightarrow> scalar \<Rightarrow> scalar \<Rightarrow> nat result" where
  "findFirstIndexWithinTol dataArray value eps =
     (let i = length (takeWhile (\<lambda>d. \<not> \<bar>d - value\<bar> < eps) dataArray)
      in if i < length dataArray then Inr i
         else Inl (Runtime_Error ''[findFirstIndexWithinTol] Value not found within tolerance''))"

definition findIndexInTimeArray :: "scalar list \<Rightarrow> scalar \<Rightarrow> int" where
  "findIndexInTimeArray timeArray time = int (lowerBoundIndex timeArray time)"

definition findIntervalInTimeArray :: "scalar list \<Rightarrow> scalar \<Rightarrow> int" where
  "findIntervalInTimeArray timeArray time =
     (if timeArray \<noteq> [] then findIndexInTimeArray timeArray time - 1 else 0)"

definition findActiveIntervalInTimeArray :: "scalar list \<Rightarrow> scalar \<Rightarrow> int" where
  "findActiveIntervalInTimeArray timeArray time =
     (if timeArray \<noteq> [] \<and> \<not> almost_eq time (hd timeArray)
      then findIntervalInTimeArray timeArray time else 0)"

definition findBoundedActiveIntervalInTimeArray :: "scalar list \<Rightarrow> scalar \<Rightarrow> int result" where
  "findBoundedActiveIntervalInTimeArray timeArray time =
     (let partition = findActiveIntervalInTimeArray timeArray time
      in if timeArray = [] then
           Inl (Runtime_Error ''[findBoundedActiveIntervalInTimeArray] Time array is empty'')
         else if partition < 0 then
           Inl (Runtime_Error ''[findBoundedActiveIntervalInTimeArray] Given time is less than the start time'')
         else if int (length timeArray) - 1 \<le> partition then
           Inl (Runtime_Error ''[findBoundedActiveIntervalInTimeArray] Given time is greater than the final time'')
         else Inr partition)"

lemma findIndexInTimeArray_range:
  "0 \<le> findIndexInTimeArray a t \<and> findIndexInTimeArray a t \<le> int (length a)"
  by (simp add: findIndexInTimeArray_def lowerBoundIndex_def length_takeWhile_le)

lemma findIndexInTimeArray_brackets:
  assumes "sorted a" "i < length a"
  shows "(int i < findIndexInTimeArray a t) = (a ! i < t)"
  using lower.find_before[OF assms(1), of i t] lower.find_after[OF assms(1), of t i] assms(2)
  by (fastforce simp: findIndexInTimeArray_def)

lemma findIntervalInTimeArray_brackets:
  assumes "sorted a" "a \<noteq> []" "findIntervalInTimeArray a t = int k"
  shows "k < length a" "a ! k < t" "k + 1 < length a \<Longrightarrow> t \<le> a ! (k + 1)"
proof -
  have idx: "findIndexInTimeArray a t = int k + 1"
    using assms(2,3) by (simp add: findIntervalInTimeArray_def)
  then show k: "k < length a" using findIndexInTimeArray_range[of a t] by simp
  show "a ! k < t" using findIndexInTimeArray_brackets[OF assms(1) k, of t] idx by simp
  show "t \<le> a ! (k + 1)" if "k + 1 < length a"
    using findIndexInTimeArray_brackets[OF assms(1) that, of t] idx by simp
qed

lemma findIntervalInTimeArray_negative:
  assumes "sorted a" "a \<noteq> []"
  shows "(findIntervalInTimeArray a t < 0) = (t \<le> hd a)"
  using lower.find_zero_iff[OF assms(1), of t] assms(2)
  by (auto simp: findIntervalInTimeArray_def findIndexInTimeArray_def)

lemma findIntervalInTimeArray_last:
  assumes "sorted a" "a \<noteq> []"
  shows "(findIntervalInTimeArray a t = int (length a) - 1) = (last a < t)"
  using lower.find_full_iff[OF assms, of t] assms(2)
  by (auto simp: findIntervalInTimeArray_def findIndexInTimeArray_def)

lemma findFirstIndexWithinTol_Inr:
  assumes "findFirstIndexWithinTol a v eps = Inr i"
  shows "i < length a" "\<bar>a ! i - v\<bar> < eps" "\<And>j. j < i \<Longrightarrow> \<not> \<bar>a ! j - v\<bar> < eps"
proof -
  let ?P = "\<lambda>d. \<not> \<bar>d - v\<bar> < eps"
  have i: "i = length (takeWhile ?P a)" "i < length a"
    using assms by (auto simp: findFirstIndexWithinTol_def Let_def split: if_splits)
  then show "i < length a" by simp
  show "\<bar>a ! i - v\<bar> < eps" using nth_length_takeWhile[of ?P a] i by simp
  show "\<And>j. j < i \<Longrightarrow> \<not> \<bar>a ! j - v\<bar> < eps"
    using partition_point_before[of _ ?P a] i(1) by simp
qed

lemma takeWhile_stops_iff: "(length (takeWhile P xs) < length xs) = (\<exists>x\<in>set xs. \<not> P x)"
  by (induction xs) auto

lemma findFirstIndexWithinTol_succeeds_iff:
  "succeeds (findFirstIndexWithinTol a v eps) = (\<exists>x\<in>set a. \<bar>x - v\<bar> < eps)"
  using takeWhile_stops_iff[of "\<lambda>d. \<not> \<bar>d - v\<bar> < eps" a]
  by (auto simp: findFirstIndexWithinTol_def Let_def)

section \<open>Properties\<close>

lemma findActiveIntervalInTimeArray_cases:
  assumes "sorted a" "a \<noteq> []"
  shows "findActiveIntervalInTimeArray a t < 0 \<longleftrightarrow> \<not> almost_eq t (hd a) \<and> t \<le> hd a"
    and "findActiveIntervalInTimeArray a t < int (length a) - 1 \<longleftrightarrow>
           (if almost_eq t (hd a) then 2 \<le> length a else t \<le> last a)"
proof -
  show "findActiveIntervalInTimeArray a t < 0 \<longleftrightarrow> \<not> almost_eq t (hd a) \<and> t \<le> hd a"
    using findIntervalInTimeArray_negative[OF assms, of t] assms(2)
    by (auto simp: findActiveIntervalInTimeArray_def)
  have "findIntervalInTimeArray a t \<le> int (length a) - 1"
    using findIndexInTimeArray_range[of a t] assms(2) by (simp add: findIntervalInTimeArray_def)
  then show "findActiveIntervalInTimeArray a t < int (length a) - 1 \<longleftrightarrow>
           (if almost_eq t (hd a) then 2 \<le> length a else t \<le> last a)"
    using findIntervalInTimeArray_last[OF assms, of t] assms(2)
    by (auto simp: findActiveIntervalInTimeArray_def)
qed

lemma findBoundedActiveInterval_cases:
  assumes "sorted a"
  shows "succeeds (findBoundedActiveIntervalInTimeArray a t) \<longleftrightarrow>
           2 \<le> length a \<and> (almost_eq t (hd a) \<or> hd a < t \<and> t \<le> last a)"
    and "findBoundedActiveIntervalInTimeArray a t = Inr i \<Longrightarrow>
           0 \<le> i \<and> nat i + 1 < length a \<and>
           (if almost_eq t (hd a) then i = 0 else a ! nat i < t \<and> t \<le> a ! (nat i + 1))"
proof -
  show "succeeds (findBoundedActiveIntervalInTimeArray a t) \<longleftrightarrow>
           2 \<le> length a \<and> (almost_eq t (hd a) \<or> hd a < t \<and> t \<le> last a)"
  proof (cases "a = []")
    case True
    then show ?thesis by (simp add: findBoundedActiveIntervalInTimeArray_def)
  next
    case False
    have one: "last a = hd a" if "length a = 1" using that by (cases a) auto
    show ?thesis
      using findActiveIntervalInTimeArray_cases[OF assms False, of t] False one
      by (cases "length a = 1")
        (auto simp: findBoundedActiveIntervalInTimeArray_def Let_def not_less not_le
          neq_Nil_conv Suc_le_eq split: if_splits)
  qed
next
  assume i: "findBoundedActiveIntervalInTimeArray a t = Inr i"
  then have a: "a \<noteq> []" and r: "0 \<le> i" "i < int (length a) - 1"
    and act: "findActiveIntervalInTimeArray a t = i"
    by (auto simp: findBoundedActiveIntervalInTimeArray_def Let_def split: if_splits)
  show "0 \<le> i \<and> nat i + 1 < length a \<and>
           (if almost_eq t (hd a) then i = 0 else a ! nat i < t \<and> t \<le> a ! (nat i + 1))"
  proof (cases "almost_eq t (hd a)")
    case True
    with act r show ?thesis by (auto simp: findActiveIntervalInTimeArray_def)
  next
    case False
    with act a r have k: "findIntervalInTimeArray a t = int (nat i)"
      by (simp add: findActiveIntervalInTimeArray_def)
    show ?thesis
      using findIntervalInTimeArray_brackets[OF assms a k] r False by auto
  qed
qed

text \<open>
  On a sorted time array, \<open>findBoundedActiveIntervalInTimeArray\<close> returns a partition exactly when
  the array has at least two times and the queried time is (almost) the first time or lies in
  \<open>(front, back]\<close>; the partition it returns has both its ends inside the array and, unless the
  query is almost the first time, brackets the query as \<open>a[i] < t \<le> a[i+1]\<close>. In every other case
  it throws.
\<close>

theorem findBoundedActiveInterval_correct:
  assumes "sorted a"
  shows "(succeeds (findBoundedActiveIntervalInTimeArray a t) \<longleftrightarrow>
            2 \<le> length a \<and> (almost_eq t (hd a) \<or> hd a < t \<and> t \<le> last a)) \<and>
         (\<forall>i. findBoundedActiveIntervalInTimeArray a t = Inr i \<longrightarrow>
            0 \<le> i \<and> nat i + 1 < length a \<and>
            (if almost_eq t (hd a) then i = 0 else a ! nat i < t \<and> t \<le> a ! (nat i + 1)))"
  using findBoundedActiveInterval_cases[OF assms] by blast

theorem findBoundedActiveInterval_correct_witness:
  "findBoundedActiveIntervalInTimeArray [0, 1, 2] 2 = Inr 1 \<and>
   succeeds (findBoundedActiveIntervalInTimeArray [0, 1, 2] 2) \<and>
   [0, 1, 2 :: real] ! nat 1 < 2"
proof -
  have s: "sorted [0, 1, 2 :: scalar]" by simp
  have n: "\<not> almost_eq 2 (hd [0, 1, 2])"
    by (simp add: almost_eq_def almost_eq_prec_def Let_def double_min_def)
  have v: "findBoundedActiveIntervalInTimeArray [0, 1, 2] 2 = Inr 1"
    using n by (simp add: findBoundedActiveIntervalInTimeArray_def findActiveIntervalInTimeArray_def
        findIntervalInTimeArray_def findIndexInTimeArray_def lowerBoundIndex_def)
  show ?thesis
    using v findBoundedActiveInterval_correct[OF s, of 2] n by simp
qed

text \<open>
  The halving search of the standard library and the partition point agree on every sorted
  time array, so the time lookups do not depend on which of the two the library implements.
\<close>

theorem findIndexInTimeArray_bisect:
  "sorted a \<Longrightarrow> findIndexInTimeArray a t = int (bisect_lower a t 0 (length a))"
  by (simp add: findIndexInTimeArray_def bisect_lower_eq)

theorem findIndexInTimeArray_bisect_witness:
  "findIndexInTimeArray [0, 1, 1, 2] 1 = int (bisect_lower [0, 1, 1, 2] 1 0 4) \<and>
   bisect_lower [0, 1, 1, 2] 1 0 4 = 1"
  using findIndexInTimeArray_bisect[of "[0, 1, 1, 2]" 1]
  by (simp add: findIndexInTimeArray_def lowerBoundIndex_def numeral_eq_Suc)

end
