(* ===== verification/Linear_Interpolation.thy ===== *)
theory Linear_Interpolation
  imports Lookup
begin

text \<open>
  \<open>LinearInterpolation\<close> of \<open>core/ocs2_core/include/ocs2_core/misc\<close>: the segment of a time array that
  a query falls into with its interpolation coefficient, and the interpolation of a data array.
  The C++ template is instantiated per data type; here the size test and the affine combination
  of the data type are arguments, with \<open>double\<close> and dynamic vectors as the instances.
\<close>

section \<open>Time segments\<close>

type_synonym index_alpha = "int \<times> scalar"

definition timeSegment :: "scalar \<Rightarrow> scalar list \<Rightarrow> index_alpha result" where
  "timeSegment enquiryTime timeArray =
     (if length timeArray \<le> 1 then Inr (0, 1)
      else
        let index = findIntervalInTimeArray timeArray enquiryTime;
            lastInterval = int (length timeArray) - 1
        in if index \<ge> 0 then
             (if index < lastInterval then
                let lhs = timeArray ! nat index; rhs = timeArray ! nat (index + 1);
                    intervalLength = rhs - lhs; timeTillNext = rhs - enquiryTime;
                    minIntervalTime = 2 * weakEpsilon
                in if \<not> (enquiryTime \<le> rhs \<and> lhs \<le> enquiryTime) then Inl Assertion_Failed
                   else if intervalLength > minIntervalTime then Inr (index, timeTillNext / intervalLength)
                   else if timeTillNext < (1 / 2) * intervalLength then Inr (index, 0)
                   else Inr (index, 1)
              else Inr (max (lastInterval - 1) 0, 0))
           else Inr (0, 1))"

text \<open>An \<open>int\<close> index converted to \<open>size_t\<close>: a negative one is far outside every container.\<close>

definition vec_at_int :: "'a list \<Rightarrow> int \<Rightarrow> 'a result" where
  "vec_at_int xs i = (if 0 \<le> i then vec_at xs (nat i) else Inl Undefined)"

lemma vec_at_int_in [simp, result_simps]:
  "0 \<le> i \<Longrightarrow> nat i < length xs \<Longrightarrow> vec_at_int xs i = Inr (xs ! nat i)"
  by (simp add: vec_at_int_def)

section \<open>Interpolation of a data array\<close>

definition interpolate ::
  "('f \<Rightarrow> 'f \<Rightarrow> bool) \<Rightarrow> (scalar \<Rightarrow> 'f \<Rightarrow> 'f \<Rightarrow> 'f) \<Rightarrow> index_alpha \<Rightarrow> 'd list \<Rightarrow> ('d \<Rightarrow> 'f) \<Rightarrow> 'f result" where
  "interpolate areSameSize combine indexAlpha dataArray accessFun =
     (if length dataArray > 1 then
        let index = fst indexAlpha; alpha = snd indexAlpha
        in bind_result (vec_at_int dataArray index) (\<lambda>l.
           bind_result (vec_at_int dataArray (index + 1)) (\<lambda>r.
             let lhs = accessFun l; rhs = accessFun r
             in if areSameSize rhs lhs then Inr (combine alpha lhs rhs)
                else if alpha > 1 / 2 then Inr lhs else Inr rhs))
      else bind_result (vec_at dataArray 0) (\<lambda>d. Inr (accessFun d)))"

definition interpolate_at ::
  "('f \<Rightarrow> 'f \<Rightarrow> bool) \<Rightarrow> (scalar \<Rightarrow> 'f \<Rightarrow> 'f \<Rightarrow> 'f) \<Rightarrow> scalar \<Rightarrow> scalar list \<Rightarrow> 'd list \<Rightarrow> ('d \<Rightarrow> 'f) \<Rightarrow> 'f result" where
  "interpolate_at areSameSize combine enquiryTime timeArray dataArray accessFun =
     bind_result (timeSegment enquiryTime timeArray)
       (\<lambda>ia. interpolate areSameSize combine ia dataArray accessFun)"

text \<open>The helper \<open>areSameSize\<close> and \<open>alpha * lhs + (1 - alpha) * rhs\<close> for \<open>double\<close> and for \<open>vector_t\<close>.\<close>

definition areSameSize_scalar :: "scalar \<Rightarrow> scalar \<Rightarrow> bool" where
  "areSameSize_scalar lhs rhs = True"

definition areSameSize_vector :: "vector_t \<Rightarrow> vector_t \<Rightarrow> bool" where
  "areSameSize_vector lhs rhs = (length lhs = length rhs)"

definition combine_scalar :: "scalar \<Rightarrow> scalar \<Rightarrow> scalar \<Rightarrow> scalar" where
  "combine_scalar alpha lhs rhs = alpha * lhs + (1 - alpha) * rhs"

definition combine_vector :: "scalar \<Rightarrow> vector_t \<Rightarrow> vector_t \<Rightarrow> vector_t" where
  "combine_vector alpha lhs rhs = map2 (combine_scalar alpha) lhs rhs"

definition interpolate_scalar :: "scalar \<Rightarrow> scalar list \<Rightarrow> scalar list \<Rightarrow> scalar result" where
  "interpolate_scalar t timeArray dataArray =
     interpolate_at areSameSize_scalar combine_scalar t timeArray dataArray (\<lambda>d. d)"

definition interpolate_vector :: "scalar \<Rightarrow> scalar list \<Rightarrow> vector_t list \<Rightarrow> vector_t result" where
  "interpolate_vector t timeArray dataArray =
     interpolate_at areSameSize_vector combine_vector t timeArray dataArray (\<lambda>d. d)"

section \<open>Facts about segments\<close>

lemma weakEpsilon_pos: "0 < weakEpsilon"
  by (simp add: weakEpsilon_def)

lemma timeSegment_short [simp]: "length a \<le> 1 \<Longrightarrow> timeSegment t a = Inr (0, 1)"
  by (simp add: timeSegment_def)

lemma timeSegment_before:
  assumes "sorted a" "2 \<le> length a" "t \<le> hd a"
  shows "timeSegment t a = Inr (0, 1)"
proof -
  have "findIntervalInTimeArray a t < 0"
    using findIntervalInTimeArray_negative[of a t] assms by (cases a) auto
  then show ?thesis using assms(2) by (simp add: timeSegment_def Let_def)
qed

lemma timeSegment_after:
  assumes "sorted a" "2 \<le> length a" "last a < t"
  shows "timeSegment t a = Inr (int (length a) - 2, 0)"
proof -
  have "findIntervalInTimeArray a t = int (length a) - 1"
    using findIntervalInTimeArray_last[of a t] assms by (cases a) auto
  moreover have "a \<noteq> []" using assms(2) by auto
  ultimately show ?thesis using assms(2) by (simp add: timeSegment_def Let_def)
qed

text \<open>Between the first and the last time, the segment is the one whose half-open interval holds the query.\<close>

lemma timeSegment_inside:
  assumes "sorted a" "k + 1 < length a" "a ! k < t" "t \<le> a ! (k + 1)"
  shows "timeSegment t a = Inr (int k,
           if a ! (k + 1) - a ! k > 2 * weakEpsilon then (a ! (k + 1) - t) / (a ! (k + 1) - a ! k)
           else if a ! (k + 1) - t < (1 / 2) * (a ! (k + 1) - a ! k) then 0 else 1)"
proof -
  have low: "a ! i < t" if "i < k + 1" for i
    using sorted_nth_mono[OF assms(1), of i k] that assms(2,3) by simp
  have high: "\<not> a ! i < t" if "k + 1 \<le> i" "i < length a" for i
    using sorted_nth_mono[OF assms(1) that] assms(4) by simp
  have "lowerBoundIndex a t = k + 1"
    by (rule lower.find_unique[OF assms(1) _ low high]) (use assms(2) in auto)
  then have "findIntervalInTimeArray a t = int k"
    using assms(2) by (auto simp: findIntervalInTimeArray_def findIndexInTimeArray_def)
  moreover have "nat (int k + 1) = k + 1" by simp
  ultimately show ?thesis using assms(2,3,4) by (simp add: timeSegment_def Let_def)
qed

lemma segment_cases:
  fixes a :: "scalar list"
  assumes "sorted a" "2 \<le> length a"
  obtains (before) "t \<le> hd a" | (after) "last a < t"
    | (inside) k where "k + 1 < length a" "a ! k < t" "t \<le> a ! (k + 1)"
proof (cases "t \<le> hd a \<or> last a < t")
  case True
  with before after show ?thesis by blast
next
  case False
  have a: "a \<noteq> []" using assms(2) by auto
  let ?k = "lowerBoundIndex a t"
  have "0 < ?k" "?k < length a"
    using False lower.find_zero_iff[OF assms(1), of t] lower.find_full_iff[OF assms(1) a, of t]
      lower.find_le[OF assms(1), of t] a by auto
  then show ?thesis
    using inside[of "?k - 1"] lower.find_before[OF assms(1), of "?k - 1" t]
      lower.find_after[OF assms(1), of t ?k] by simp
qed

lemma timeSegment_range:
  assumes "sorted a"
  shows "\<exists>i alpha. timeSegment t a = Inr (i, alpha) \<and> 0 \<le> i \<and> 0 \<le> alpha \<and> alpha \<le> 1 \<and>
           (2 \<le> length a \<longrightarrow> nat i + 1 < length a)"
proof (cases "2 \<le> length a")
  case False
  then show ?thesis by simp
next
  case True
  consider (before) "t \<le> hd a" | (after) "last a < t"
    | (inside) k where "k + 1 < length a" "a ! k < t" "t \<le> a ! (k + 1)"
    using segment_cases[OF assms True] by blast
  then show ?thesis
  proof cases
    case before
    then show ?thesis using timeSegment_before[OF assms True] True by simp
  next
    case after
    then show ?thesis using timeSegment_after[OF assms True] True by simp
  next
    case (inside k)
    then show ?thesis
      using timeSegment_inside[OF assms inside] weakEpsilon_pos by (auto simp: divide_simps)
  qed
qed

lemma interpolate_defined:
  assumes "0 \<le> i" "length d = 1 \<or> nat i + 1 < length d"
  shows "succeeds (interpolate same comb (i, alpha) d acc)"
proof -
  have "nat (i + 1) = nat i + 1" using assms(1) by simp
  then show ?thesis using assms by (auto simp: interpolate_def Let_def)
qed

lemma interpolate_same_size:
  assumes "0 \<le> i" "nat i + 1 < length d" "same (acc (d ! (nat i + 1))) (acc (d ! nat i))"
  shows "interpolate same comb (i, alpha) d acc =
           Inr (comb alpha (acc (d ! nat i)) (acc (d ! (nat i + 1))))"
proof -
  have "nat (i + 1) = nat i + 1" using assms(1) by simp
  then show ?thesis using assms by (simp add: interpolate_def Let_def)
qed

lemma combine_scalar_bounds:
  assumes "0 \<le> alpha" "alpha \<le> 1"
  shows "min l r \<le> combine_scalar alpha l r" "combine_scalar alpha l r \<le> max l r"
proof -
  have "alpha * min l r + (1 - alpha) * min l r \<le> alpha * l + (1 - alpha) * r"
    using assms by (intro add_mono mult_left_mono) auto
  then show "min l r \<le> combine_scalar alpha l r" by (simp add: combine_scalar_def algebra_simps)
  have "alpha * l + (1 - alpha) * r \<le> alpha * max l r + (1 - alpha) * max l r"
    using assms by (intro add_mono mult_left_mono) auto
  then show "combine_scalar alpha l r \<le> max l r" by (simp add: combine_scalar_def algebra_simps)
qed

lemma combine_vector_ends [simp]:
  "length l = length r \<Longrightarrow> combine_vector 1 l r = l"
  "length l = length r \<Longrightarrow> combine_vector 0 l r = r"
  by (induction l r rule: list_induct2) (auto simp: combine_vector_def combine_scalar_def)

lemma length_combine_vector: "length (combine_vector alpha l r) = min (length l) (length r)"
  by (simp add: combine_vector_def)

section \<open>The contract of an interpolator\<close>

text \<open>
  What the clients of \<open>interpolate\<close> rely on: the size test is reflexive and the combination
  returns its end points at the coefficients 1 and 0.
\<close>

locale interpolator =
  fixes same :: "'f \<Rightarrow> 'f \<Rightarrow> bool" and comb :: "scalar \<Rightarrow> 'f \<Rightarrow> 'f \<Rightarrow> 'f"
  assumes same_refl: "same x x"
    and comb_one: "same r l \<Longrightarrow> comb 1 l r = l"
    and comb_zero: "same r l \<Longrightarrow> comb 0 l r = r"
begin

lemma interpolate_one: "0 \<le> i \<Longrightarrow> nat i + 1 < length d \<Longrightarrow> interpolate same comb (i, 1) d acc = Inr (acc (d ! nat i))"
  by (simp add: interpolate_def Let_def comb_one nat_add_distrib)

lemma interpolate_zero: "0 \<le> i \<Longrightarrow> nat i + 1 < length d \<Longrightarrow> interpolate same comb (i, 0) d acc = Inr (acc (d ! (nat i + 1)))"
  by (simp add: interpolate_def Let_def comb_zero nat_add_distrib)

lemma at_succeeds:
  assumes "sorted a" "length d = length a" "d \<noteq> []"
  shows "succeeds (interpolate_at same comb t a d acc)"
proof -
  obtain i alpha where "timeSegment t a = Inr (i, alpha)" "0 \<le> i" "2 \<le> length a \<longrightarrow> nat i + 1 < length a"
    using timeSegment_range[OF assms(1)] by blast
  moreover have "length d = 1 \<or> nat i + 1 < length d"
    using calculation assms(2,3) by (cases d) (auto simp: Suc_le_eq)
  ultimately show ?thesis
    using interpolate_defined[of i d same comb alpha acc] by (simp add: interpolate_at_def)
qed

lemma at_before:
  assumes "sorted a" "length d = length a" "d \<noteq> []" "t \<le> hd a"
  shows "interpolate_at same comb t a d acc = Inr (acc (hd d))"
proof (cases "2 \<le> length a")
  case True
  then show ?thesis
    using assms timeSegment_before[OF assms(1) True assms(4)] interpolate_one[of 0 d acc]
    by (simp add: interpolate_at_def hd_conv_nth)
next
  case False
  then have "length d = 1" using assms(2,3) by (cases d) auto
  then show ?thesis
    using assms(2) by (cases d) (auto simp: interpolate_at_def interpolate_def vec_at_def)
qed

lemma at_after:
  assumes "sorted a" "length d = length a" "d \<noteq> []" "last a < t"
  shows "interpolate_at same comb t a d acc = Inr (acc (last d))"
proof (cases "2 \<le> length a")
  case True
  have "nat (int (length a) - 2) + 1 = length d - 1" using True assms(2) by simp
  then show ?thesis
    using assms timeSegment_after[OF assms(1) True assms(4)] True
      interpolate_zero[of "int (length a) - 2" d acc]
    by (simp add: interpolate_at_def last_conv_nth)
next
  case False
  then have "length d = 1" using assms(2,3) by (cases d) auto
  then show ?thesis
    using assms(2) by (cases d) (auto simp: interpolate_at_def interpolate_def vec_at_def)
qed

text \<open>At a time of the array that ends an interval of normal length, the data of that time is returned.\<close>

lemma at_knot:
  assumes "sorted a" "length d = length a" "k + 1 < length a" "a ! (k + 1) - a ! k > 2 * weakEpsilon"
  shows "interpolate_at same comb (a ! (k + 1)) a d acc = Inr (acc (d ! (k + 1)))"
proof -
  have "a ! k < a ! (k + 1)" using assms(4) weakEpsilon_pos by linarith
  then have "timeSegment (a ! (k + 1)) a = Inr (int k, 0)"
    using timeSegment_inside[OF assms(1,3), of "a ! (k + 1)"] assms(4) by simp
  then show ?thesis
    using assms(2,3) interpolate_zero[of "int k" d acc] by (simp add: interpolate_at_def)
qed

lemma at_own_time:
  assumes "sorted a" "length d = length a" "k < length a"
    and "\<And>i. i + 1 < length a \<Longrightarrow> a ! (i + 1) - a ! i > 2 * weakEpsilon"
  shows "interpolate_at same comb (a ! k) a d acc = Inr (acc (d ! k))"
proof (cases k)
  case 0
  have "a \<noteq> []" "d \<noteq> []" using assms(2,3) by auto
  with 0 show ?thesis using at_before[OF assms(1,2), of "a ! k" acc] by (simp add: hd_conv_nth)
next
  case (Suc i)
  then show ?thesis using at_knot[OF assms(1,2), of i acc] assms(3) assms(4)[of i] by simp
qed

text \<open>Appending a later array changes nothing up to the last time of the first and after the first of the second.\<close>

lemma at_append_left:
  assumes "sorted (a @ b)" "length d = length a" "length e = length b" "a \<noteq> []" "t \<le> last a"
  shows "interpolate_at same comb t (a @ b) (d @ e) acc = interpolate_at same comb t a d acc"
proof -
  have a: "sorted a" "d \<noteq> []" "length (d @ e) = length (a @ b)" using assms by (auto simp: sorted_append)
  show ?thesis
  proof (cases "t \<le> hd a")
    case True
    then show ?thesis using at_before[OF assms(1) a(3)] at_before[OF a(1) assms(2)] a(2) assms(4) by simp
  next
    case False
    then have "hd a \<noteq> last a" using assms(5) by auto
    then have two: "2 \<le> length a" using assms(4) by (cases a; cases "tl a") (auto simp: Suc_le_eq)
    obtain k where k: "k + 1 < length a" "a ! k < t" "t \<le> a ! (k + 1)"
      using segment_cases[OF a(1) two, of t] False assms(5) by force
    have k': "k + 1 < length (a @ b)" "(a @ b) ! k < t" "t \<le> (a @ b) ! (k + 1)"
      using k by (auto simp: nth_append)
    have kd: "k < length d" "Suc k < length d" using k(1) assms(2) by auto
    have nn: "nat (int k + 1) = Suc k" by simp
    have len: "1 < length d" using two assms(2) by simp
    show ?thesis
      using timeSegment_inside[OF a(1) k] timeSegment_inside[OF assms(1) k'] k(1) kd len
      by (simp add: interpolate_at_def interpolate_def Let_def nth_append nn)
  qed
qed

lemma at_append_right:
  assumes "sorted (a @ b)" "length d = length a" "length e = length b" "b \<noteq> []" "hd b < t"
  shows "interpolate_at same comb t (a @ b) (d @ e) acc = interpolate_at same comb t b e acc"
proof -
  have b: "sorted b" "e \<noteq> []" "length (d @ e) = length (a @ b)" using assms by (auto simp: sorted_append)
  show ?thesis
  proof (cases "last b < t")
    case True
    then show ?thesis using at_after[OF assms(1) b(3)] at_after[OF b(1) assms(3)] b(2) assms(4) by simp
  next
    case False
    then have "hd b \<noteq> last b" using assms(5) by auto
    then have two: "2 \<le> length b" using assms(4) by (cases b; cases "tl b") (auto simp: Suc_le_eq)
    obtain k where k: "k + 1 < length b" "b ! k < t" "t \<le> b ! (k + 1)"
      using segment_cases[OF b(1) two, of t] False assms(5) by force
    have k': "(length a + k) + 1 < length (a @ b)" "(a @ b) ! (length a + k) < t" "t \<le> (a @ b) ! ((length a + k) + 1)"
      using k by (auto simp: nth_append)
    have ke: "k < length e" "Suc k < length e" "1 < length e" using k(1) assms(3) two by auto
    obtain alpha where alpha: "timeSegment t b = Inr (int k, alpha)" "timeSegment t (a @ b) = Inr (int (length a + k), alpha)"
      using timeSegment_inside[OF b(1) k] timeSegment_inside[OF assms(1) k'] by (simp add: nth_append)
    have reads: "vec_at_int (d @ e) (int (length a + k)) = Inr (e ! k)" "vec_at_int (d @ e) (int (length a + k) + 1) = Inr (e ! Suc k)"
      "vec_at_int e (int k) = Inr (e ! k)" "vec_at_int e (int k + 1) = Inr (e ! Suc k)"
      using ke assms(2) by (simp_all add: vec_at_int_def nth_append nat_add_distrib vec_at_def)
    show ?thesis
      unfolding interpolate_at_def alpha bind_result_Inr interpolate_def fst_conv Let_def reads using ke by simp
  qed
qed

end

interpretation scalars: interpolator areSameSize_scalar combine_scalar
  by unfold_locales (auto simp: areSameSize_scalar_def combine_scalar_def)

interpretation vectors: interpolator areSameSize_vector combine_vector
  by unfold_locales (auto simp: areSameSize_vector_def)

section \<open>Properties\<close>

lemma interpolate_scalar_value:
  assumes "sorted a" "length d = length a" "d \<noteq> []"
  shows "\<exists>v. interpolate_scalar t a d = Inr v \<and> Min (set d) \<le> v \<and> v \<le> Max (set d)"
proof (cases "2 \<le> length a")
  case False
  then have "length d = 1" using assms(2,3) by (cases d) auto
  then obtain x where d: "d = [x]" by (cases d) auto
  have "interpolate_scalar t a d = Inr x"
    using d False by (simp add: interpolate_scalar_def interpolate_at_def interpolate_def)
  with d show ?thesis by simp
next
  case True
  obtain i alpha where seg: "timeSegment t a = Inr (i, alpha)" "0 \<le> i" "0 \<le> alpha" "alpha \<le> 1"
    "nat i + 1 < length a"
    using timeSegment_range[OF assms(1), of t] True by blast
  let ?l = "d ! nat i" and ?r = "d ! (nat i + 1)"
  have mem: "?l \<in> set d" "?r \<in> set d" using seg(5) assms(2) by simp_all
  have "interpolate_scalar t a d = Inr (combine_scalar alpha ?l ?r)"
    using seg assms(2) by (simp add: interpolate_scalar_def interpolate_at_def interpolate_same_size areSameSize_scalar_def)
  moreover have "Min (set d) \<le> min ?l ?r" "max ?l ?r \<le> Max (set d)" using mem by simp_all
  ultimately show ?thesis
    using combine_scalar_bounds[OF seg(3,4), of ?l ?r] by (meson order_trans)
qed

text \<open>
  Interpolating scalar data over a sorted time array of the same length always returns a value; it
  stays within the smallest and the largest datum, equals the first datum at and before the first
  time and the last datum after the last time (zero-order extrapolation).
\<close>

theorem interpolate_scalar_bounded:
  assumes "sorted a" "length d = length a" "d \<noteq> []"
  shows "\<exists>v. interpolate_scalar t a d = Inr v \<and> Min (set d) \<le> v \<and> v \<le> Max (set d) \<and>
           (t \<le> hd a \<longrightarrow> v = hd d) \<and> (last a < t \<longrightarrow> v = last d)"
  using interpolate_scalar_value[OF assms, of t] scalars.at_before[OF assms, of t "\<lambda>d. d"]
    scalars.at_after[OF assms, of t "\<lambda>d. d"]
  by (auto simp: interpolate_scalar_def)

theorem interpolate_scalar_bounded_witness:
  "\<exists>v. interpolate_scalar (3 / 2) [0, 1, 2] [10, 20, 40] = Inr v \<and> 10 \<le> v \<and> v \<le> 40"
  using interpolate_scalar_bounded[of "[0, 1, 2]" "[10, 20, 40]" "3 / 2"] by simp

text \<open>
  Inside the time array, vector data of equal dimensions is interpolated linearly: for a query in
  \<open>(a[k], a[k+1]]\<close>, over an interval longer than twice the weak epsilon, every component of the
  result is the convex combination of the components at both ends with coefficient
  \<open>(a[k+1] - t) / (a[k+1] - a[k])\<close>. At the end of the interval this is the datum stored there.
\<close>

theorem interpolate_vector_linear:
  assumes "sorted a" "length d = length a" "k + 1 < length a" "a ! k < t" "t \<le> a ! (k + 1)"
    and "a ! (k + 1) - a ! k > 2 * weakEpsilon" "length (d ! k) = length (d ! (k + 1))"
  shows "interpolate_vector t a d = Inr (map2 (\<lambda>l r. (a ! (k + 1) - t) / (a ! (k + 1) - a ! k) * l
             + (1 - (a ! (k + 1) - t) / (a ! (k + 1) - a ! k)) * r) (d ! k) (d ! (k + 1))) \<and>
         (t = a ! (k + 1) \<longrightarrow> interpolate_vector t a d = Inr (d ! (k + 1)))"
proof -
  have seg: "timeSegment t a = Inr (int k, (a ! (k + 1) - t) / (a ! (k + 1) - a ! k))"
    using timeSegment_inside[OF assms(1,3,4,5)] assms(6) by simp
  show ?thesis
    using seg assms(2,3,7) vectors.at_knot[OF assms(1,2,3,6), of "\<lambda>d. d"]
    by (simp add: interpolate_vector_def interpolate_at_def interpolate_same_size areSameSize_vector_def
        combine_vector_def combine_scalar_def)
qed

theorem interpolate_vector_linear_witness:
  "interpolate_vector (3 / 2) [0, 1, 2] [[0, 0], [10, 20], [20, 0]] = Inr [15, 10]"
  using interpolate_vector_linear[of "[0, 1, 2]" "[[0, 0], [10, 20], [20, 0]]" 1 "3 / 2"]
  by (simp add: weakEpsilon_def)

end
