(* ===== verification/Mode_Schedule.thy ===== *)
theory Mode_Schedule
  imports Linear_Interpolation
begin

text \<open>
  \<open>core/ocs2_core/reference\<close>: the mode schedule (a sequence of \<open>N\<close> modes separated by \<open>N - 1\<close>
  event times) with its queries, and the target trajectories that a solver tracks.
\<close>

section \<open>Mode schedules\<close>

record mode_schedule =
  eventTimes :: "scalar list"
  modeSequence :: "nat list"

definition ModeSchedule :: "scalar list \<Rightarrow> nat list \<Rightarrow> mode_schedule result" where
  "ModeSchedule eventTimesInput modeSequenceInput =
     (if modeSequenceInput = [] then Inl Assertion_Failed
      else if length eventTimesInput + 1 \<noteq> length modeSequenceInput then Inl Assertion_Failed
      else Inr \<lparr>eventTimes = eventTimesInput, modeSequence = modeSequenceInput\<rparr>)"

definition default_ModeSchedule :: mode_schedule where
  "default_ModeSchedule = \<lparr>eventTimes = [], modeSequence = [0]\<rparr>"

definition modeAtTime :: "mode_schedule \<Rightarrow> scalar \<Rightarrow> nat result" where
  "modeAtTime s time = vec_at_int (modeSequence s) (findIndexInTimeArray (eventTimes s) time)"

definition clear_ModeSchedule :: "mode_schedule \<Rightarrow> mode_schedule" where
  "clear_ModeSchedule s = s\<lparr>eventTimes := [], modeSequence := []\<rparr>"

definition swap_ModeSchedule :: "mode_schedule \<Rightarrow> mode_schedule \<Rightarrow> mode_schedule \<times> mode_schedule" where
  "swap_ModeSchedule lh rh =
     (lh\<lparr>eventTimes := eventTimes rh, modeSequence := modeSequence rh\<rparr>,
      rh\<lparr>eventTimes := eventTimes lh, modeSequence := modeSequence lh\<rparr>)"

definition valid_schedule :: "mode_schedule \<Rightarrow> bool" where
  "valid_schedule s = (sorted (eventTimes s) \<and> length (modeSequence s) = length (eventTimes s) + 1)"

subsection \<open>Events before a time\<close>

text \<open>\<open>std::find_if\<close> over the post-event indices; an index 0 makes \<open>postEventInd - 1\<close> wrap around.\<close>

fun find_event :: "scalar list \<Rightarrow> scalar \<Rightarrow> nat list \<Rightarrow> nat \<Rightarrow> nat result" where
  "find_event timeTrajectory eventTime [] n = Inr n"
| "find_event timeTrajectory eventTime (p # ps) n =
     (if p = 0 then Inl Undefined
      else bind_result (vec_at timeTrajectory (p - 1)) (\<lambda>t.
        if almost_eq eventTime t then Inr n else find_event timeTrajectory eventTime ps (Suc n)))"

definition getNumberOfPrecedingEvents :: "scalar list \<Rightarrow> nat list \<Rightarrow> scalar \<Rightarrow> nat result" where
  "getNumberOfPrecedingEvents timeTrajectory postEventIndices eventTime =
     (if timeTrajectory = [] \<or> eventTime \<le> hd timeTrajectory then Inr 0
      else bind_result (find_event timeTrajectory eventTime postEventIndices 0) (\<lambda>n.
        if n = length postEventIndices \<and> eventTime < last timeTrajectory
        then Inl (Runtime_Error ''[getNumberOfPrecedingEvents] The requested time is within the time trajectory but it is not marked as an event!'')
        else Inr n))"

subsection \<open>The extendable interval\<close>

definition findIntersectionToExtendableInterval ::
  "scalar list \<Rightarrow> scalar list \<Rightarrow> scalar \<times> scalar \<Rightarrow> scalar \<times> scalar" where
  "findIntersectionToExtendableInterval timeTrajectory events timePeriod =
     (let emptyInterpolatableInterval = (fst timePeriod, fst timePeriod - 1 / 10 ^ 4)
      in if timeTrajectory = [] \<or> fst timePeriod > snd timePeriod then emptyInterpolatableInterval
         else
           let initialTime = (case List.find (\<lambda>te. te \<le> hd timeTrajectory) (rev events) of
                 Some te \<Rightarrow> max te (fst timePeriod) | None \<Rightarrow> fst timePeriod);
               n = lowerBoundIndex events (last timeTrajectory);
               finalTime = (if n < length events then min (events ! n) (snd timePeriod) else snd timePeriod)
           in if initialTime < finalTime then (initialTime, finalTime) else emptyInterpolatableInterval)"

section \<open>Facts about mode schedules\<close>

lemma ModeSchedule_valid:
  "ModeSchedule e m = Inr s \<Longrightarrow> sorted e \<Longrightarrow> valid_schedule s"
  by (auto simp: ModeSchedule_def valid_schedule_def split: if_splits)

lemma valid_default_ModeSchedule: "valid_schedule default_ModeSchedule"
  by (simp add: default_ModeSchedule_def valid_schedule_def)

lemma modeAtTime_valid:
  assumes "valid_schedule s"
  shows "modeAtTime s t = Inr (modeSequence s ! lowerBoundIndex (eventTimes s) t)"
proof -
  have "lowerBoundIndex (eventTimes s) t < length (modeSequence s)"
    using assms lower.find_le[of "eventTimes s" t] by (simp add: valid_schedule_def)
  then show ?thesis by (simp add: modeAtTime_def findIndexInTimeArray_def)
qed

text \<open>The mode does not change between two times that no event separates.\<close>

lemma lowerBoundIndex_no_event:
  assumes "sorted e" "t \<le> u" "\<And>x. x \<in> set e \<Longrightarrow> \<not> (t \<le> x \<and> x < u)"
  shows "lowerBoundIndex e t = lowerBoundIndex e u"
proof (rule ccontr)
  assume "lowerBoundIndex e t \<noteq> lowerBoundIndex e u"
  then have lt: "lowerBoundIndex e t < lowerBoundIndex e u"
    using lower.find_mono[OF assms(1,2)] by simp
  then have "e ! lowerBoundIndex e t < u" by (rule lower.find_before[OF assms(1)])
  moreover have len: "lowerBoundIndex e t < length e"
    using lt lower.find_le[OF assms(1), of u] by simp
  moreover have "\<not> e ! lowerBoundIndex e t < t" by (rule lower.find_after[OF assms(1) order_refl len])
  ultimately show False using assms(3)[of "e ! lowerBoundIndex e t"] by simp
qed

lemma swap_ModeSchedule_exchanges: "swap_ModeSchedule lh rh = (rh, lh)"
  by (simp add: swap_ModeSchedule_def)

lemma find_event_Inr:
  assumes "find_event a e ps n = Inr m"
  shows "n \<le> m \<and> m \<le> n + length ps \<and>
         (m < n + length ps \<longrightarrow> almost_eq e (a ! (ps ! (m - n) - 1))) \<and>
         (\<forall>i < m - n. \<not> almost_eq e (a ! (ps ! i - 1)))"
  using assms
proof (induction ps arbitrary: n)
  case Nil
  then show ?case by simp
next
  case (Cons p ps)
  show ?case
  proof (cases "almost_eq e (a ! (p - 1))")
    case True
    with Cons.prems show ?thesis by (auto simp: result_simps vec_at_def split: if_splits)
  next
    case False
    with Cons.prems have "find_event a e ps (Suc n) = Inr m"
      by (auto simp: result_simps vec_at_def split: if_splits)
    from Cons.IH[OF this] False show ?thesis
      by (auto simp: nth_Cons Suc_diff_le less_Suc_eq_0_disj split: nat.splits)
  qed
qed

lemma find_event_defined:
  assumes "\<And>p. p \<in> set ps \<Longrightarrow> 0 < p \<and> p \<le> length a"
  shows "succeeds (find_event a e ps n)"
  using assms
proof (induction ps arbitrary: n)
  case Nil
  then show ?case by simp
next
  case (Cons p ps)
  have "0 < p \<and> p \<le> length a" using Cons.prems by simp
  then have "0 < p" "p - 1 < length a" by linarith+
  with Cons show ?case by simp
qed

text \<open>The last event at or before the start of a trajectory, and the first one at or after its end.\<close>

lemma find_rev_Some_le:
  fixes e :: "scalar list"
  assumes "sorted e" "List.find (\<lambda>te. te \<le> t) (rev e) = Some x"
  shows "x \<le> t" "x \<in> set e" "\<And>y. y \<in> set e \<Longrightarrow> x < y \<Longrightarrow> t < y"
proof -
  from assms(2) obtain i where i: "i < length e" "rev e ! i \<le> t" "x = rev e ! i"
    "\<And>j. j < i \<Longrightarrow> \<not> rev e ! j \<le> t"
    by (auto simp: find_Some_iff)
  then show "x \<le> t" "x \<in> set e" using nth_mem[of i "rev e"] by auto
  fix y assume "y \<in> set e" "x < y"
  then obtain j where j: "j < length e" "y = rev e ! j"
    by (metis in_set_conv_nth length_rev set_rev)
  have "j < i"
  proof (rule ccontr)
    assume "\<not> j < i"
    then have "rev e ! j \<le> rev e ! i"
      using sorted_nth_mono[OF assms(1), of "length e - Suc j" "length e - Suc i"] i(1) j(1)
      by (simp add: rev_nth)
    with i(3) j(2) \<open>x < y\<close> show False by simp
  qed
  with i(4)[of j] j(2) show "t < y" by simp
qed

lemma extendable_interval:
  assumes "sorted e" "traj \<noteq> []" "findIntersectionToExtendableInterval traj e (p, q) = (b, f)" "b < f"
  shows "p \<le> b" "f \<le> q" "\<And>x. x \<in> set e \<Longrightarrow> b < x \<Longrightarrow> x < f \<Longrightarrow> hd traj < x \<and> x < last traj"
proof -
  let ?n = "lowerBoundIndex e (last traj)"
  define b0 where "b0 = (case List.find (\<lambda>te. te \<le> hd traj) (rev e) of Some te \<Rightarrow> max te p | None \<Rightarrow> p)"
  define f0 where "f0 = (if ?n < length e then min (e ! ?n) q else q)"
  have bf: "b = b0" "f = f0"
    using assms(2,3,4)
    by (cases "List.find (\<lambda>te. te \<le> hd traj) (rev e)",
        auto simp: findIntersectionToExtendableInterval_def Let_def b0_def f0_def split: if_splits)
  then show "p \<le> b" "f \<le> q" by (auto simp: b0_def f0_def split: option.splits)
  fix x assume x: "x \<in> set e" "b < x" "x < f"
  have "hd traj < x"
  proof (cases "List.find (\<lambda>te. te \<le> hd traj) (rev e)")
    case None
    with x(1) show ?thesis by (auto simp: find_None_iff)
  next
    case (Some y)
    with x(2) bf(1) have "y < x" by (simp add: b0_def)
    with find_rev_Some_le(3)[OF assms(1) Some x(1)] show ?thesis by simp
  qed
  moreover have "x < last traj"
  proof (rule ccontr)
    assume ge: "\<not> x < last traj"
    obtain i where i: "i < length e" "x = e ! i" using x(1) by (auto simp: in_set_conv_nth)
    then have "?n \<le> i" using ge lower.find_before[OF assms(1), of i "last traj"] by fastforce
    then have "e ! ?n \<le> x" "?n < length e" using sorted_nth_mono[OF assms(1)] i by auto
    with x(3) bf(2) show False by (simp add: f0_def)
  qed
  ultimately show "hd traj < x \<and> x < last traj" by simp
qed

section \<open>Properties\<close>

text \<open>
  A mode schedule whose event times are sorted and that has one more mode than events answers every
  query: \<open>modeAtTime\<close> never leaves the mode sequence, the mode it returns is the one whose half-open
  interval \<open>(t[k-1], t[k]]\<close> holds the query, and two queries with no event in \<open>[t, u)\<close> get the same mode.
\<close>

theorem modeAtTime_correct:
  assumes "valid_schedule s"
  shows "\<exists>k. modeAtTime s t = Inr (modeSequence s ! k) \<and> k < length (modeSequence s) \<and>
           (\<forall>i < length (eventTimes s). (eventTimes s ! i < t) = (i < k)) \<and>
           (\<forall>u \<ge> t. (\<forall>x \<in> set (eventTimes s). \<not> (t \<le> x \<and> x < u)) \<longrightarrow> modeAtTime s u = modeAtTime s t)"
proof -
  have s: "sorted (eventTimes s)" "length (modeSequence s) = length (eventTimes s) + 1"
    using assms by (auto simp: valid_schedule_def)
  let ?k = "lowerBoundIndex (eventTimes s) t"
  have "(eventTimes s ! i < t) = (i < ?k)" if "i < length (eventTimes s)" for i
    using lower.find_before[OF s(1), of i t] lower.find_after[OF s(1), of t i] that by (cases "i < ?k") auto
  moreover have "modeAtTime s u = modeAtTime s t"
    if "t \<le> u" "\<forall>x \<in> set (eventTimes s). \<not> (t \<le> x \<and> x < u)" for u
    using lowerBoundIndex_no_event[OF s(1) that(1)] that(2) by (auto simp: modeAtTime_valid[OF assms])
  ultimately show ?thesis
    using lower.find_le[OF s(1), of t] s(2) modeAtTime_valid[OF assms, of t]
    by (intro exI[of _ ?k]) auto
qed

theorem modeAtTime_correct_witness:
  "valid_schedule \<lparr>eventTimes = [1, 2], modeSequence = [7, 8, 9]\<rparr> \<and>
   modeAtTime \<lparr>eventTimes = [1, 2], modeSequence = [7, 8, 9]\<rparr> 2 = Inr 8 \<and>
   (\<exists>k. modeAtTime \<lparr>eventTimes = [1, 2], modeSequence = [7, 8, 9]\<rparr> 2 = Inr ([7, 8, 9] ! k) \<and> k < 3)"
proof -
  let ?s = "\<lparr>eventTimes = [1, 2], modeSequence = [7, 8, 9]\<rparr> :: mode_schedule"
  have v: "valid_schedule ?s" by (simp add: valid_schedule_def)
  have "modeAtTime ?s 2 = Inr 8"
    by (simp add: modeAtTime_valid[OF v] lowerBoundIndex_def)
  with v modeAtTime_correct[OF v, of 2] show ?thesis by auto
qed

text \<open>
  The intersection of a requested period with the extendable interval of a trajectory: a non-empty
  result stays inside the period and holds no event that the trajectory does not cover strictly; an
  empty result is the documented interval of negative length \<open>(first, first - 1e-4)\<close>.
\<close>

theorem extendableInterval_correct:
  assumes "sorted e" "traj \<noteq> []"
  shows "case findIntersectionToExtendableInterval traj e (p, q) of (b, f) \<Rightarrow>
           if b < f then p \<le> b \<and> f \<le> q \<and> (\<forall>x \<in> set e. b < x \<and> x < f \<longrightarrow> hd traj < x \<and> x < last traj)
           else b = p \<and> f = p - 1 / 10 ^ 4"
proof (cases "findIntersectionToExtendableInterval traj e (p, q)")
  case (Pair b f)
  show ?thesis
  proof (cases "b < f")
    case True
    with Pair extendable_interval[OF assms Pair True] show ?thesis by auto
  next
    case False
    with Pair show ?thesis
      by (auto simp: findIntersectionToExtendableInterval_def Let_def split: if_splits)
  qed
qed

theorem extendableInterval_correct_witness:
  "findIntersectionToExtendableInterval [3 / 2, 5 / 2] [1, 2, 3] (2, 5) = (2, 3) \<and>
   (case findIntersectionToExtendableInterval [3 / 2, 5 / 2] [1, 2, 3] (2, 5) of (b, f) \<Rightarrow> 2 \<le> b \<and> f \<le> 5)"
  using extendableInterval_correct[of "[1, 2, 3]" "[3 / 2, 5 / 2]" 2 5]
  by (simp add: findIntersectionToExtendableInterval_def lowerBoundIndex_def)

text \<open>
  \<open>ModeSchedule::clear\<close> leaves the type's invariant (at least one mode): every mode query on a
  cleared schedule reads outside the mode sequence, while the default constructor keeps it.
\<close>

theorem clear_breaks_schedule:
  "\<not> valid_schedule (clear_ModeSchedule s) \<and> modeAtTime (clear_ModeSchedule s) t = Inl Undefined \<and>
   modeAtTime default_ModeSchedule t = Inr 0"
  by (simp add: valid_schedule_def clear_ModeSchedule_def modeAtTime_def findIndexInTimeArray_def
      lowerBoundIndex_def default_ModeSchedule_def vec_at_int_def vec_at_def)

end
