(* ===== verification/Target_Trajectories.thy ===== *)
theory Target_Trajectories
  imports Mode_Schedule
begin

text \<open>
  The target trajectories of \<open>core/ocs2_core/reference/TargetTrajectories\<close>: desired states and,
  optionally, desired inputs over time, read by linear interpolation.
\<close>

record target_trajectories =
  timeTrajectory :: "scalar list"
  stateTrajectory :: "vector_t list"
  inputTrajectory :: "vector_t list"

definition sized_TargetTrajectories :: "nat \<Rightarrow> target_trajectories" where
  "sized_TargetTrajectories n =
     \<lparr>timeTrajectory = replicate n 0, stateTrajectory = replicate n [], inputTrajectory = replicate n []\<rparr>"

definition TargetTrajectories ::
  "scalar list \<Rightarrow> vector_t list \<Rightarrow> vector_t list \<Rightarrow> target_trajectories result" where
  "TargetTrajectories ts states inputs =
     (if length states \<noteq> length ts then Inl Assertion_Failed
      else if inputs \<noteq> [] \<and> length inputs \<noteq> length ts then Inl Assertion_Failed
      else Inr \<lparr>timeTrajectory = ts, stateTrajectory = states, inputTrajectory = inputs\<rparr>)"

definition clear_TargetTrajectories :: "target_trajectories \<Rightarrow> target_trajectories" where
  "clear_TargetTrajectories s = s\<lparr>timeTrajectory := [], stateTrajectory := [], inputTrajectory := []\<rparr>"

definition empty_TargetTrajectories :: "target_trajectories \<Rightarrow> bool" where
  "empty_TargetTrajectories s = (timeTrajectory s = [] \<or> stateTrajectory s = [])"

definition size_TargetTrajectories :: "target_trajectories \<Rightarrow> nat" where
  "size_TargetTrajectories s = length (timeTrajectory s)"

definition equal_TargetTrajectories :: "target_trajectories \<Rightarrow> target_trajectories \<Rightarrow> bool" where
  "equal_TargetTrajectories s t =
     (timeTrajectory s = timeTrajectory t \<and> stateTrajectory s = stateTrajectory t \<and>
      inputTrajectory s = inputTrajectory t)"

definition getDesiredState :: "target_trajectories \<Rightarrow> scalar \<Rightarrow> vector_t result" where
  "getDesiredState s time =
     (if empty_TargetTrajectories s
      then Inl (Runtime_Error ''[TargetTrajectories] TargetTrajectories is empty!'')
      else interpolate_vector time (timeTrajectory s) (stateTrajectory s))"

definition getDesiredInput :: "target_trajectories \<Rightarrow> scalar \<Rightarrow> vector_t result" where
  "getDesiredInput s time =
     (if empty_TargetTrajectories s
      then Inl (Runtime_Error ''[TargetTrajectories] TargetTrajectories is empty!'')
      else if inputTrajectory s = []
      then Inl (Runtime_Error ''[TargetTrajectories] TargetTrajectories does not have inputTrajectory!'')
      else interpolate_vector time (timeTrajectory s) (inputTrajectory s))"

definition swap_TargetTrajectories ::
  "target_trajectories \<Rightarrow> target_trajectories \<Rightarrow> target_trajectories \<times> target_trajectories" where
  "swap_TargetTrajectories lh rh =
     (lh\<lparr>timeTrajectory := timeTrajectory rh, stateTrajectory := stateTrajectory rh,
         inputTrajectory := inputTrajectory rh\<rparr>,
      rh\<lparr>timeTrajectory := timeTrajectory lh, stateTrajectory := stateTrajectory lh,
         inputTrajectory := inputTrajectory lh\<rparr>)"

text \<open>\<open>operator<<\<close>, as the rows that it prints: time, state and input of every index.\<close>

definition print_TargetTrajectories :: "target_trajectories \<Rightarrow> (scalar \<times> vector_t \<times> vector_t) list result" where
  "print_TargetTrajectories s =
     map_result (\<lambda>i. bind_result (vec_at (timeTrajectory s) i) (\<lambda>t.
                     bind_result (vec_at (stateTrajectory s) i) (\<lambda>x.
                     bind_result (vec_at (inputTrajectory s) i) (\<lambda>u. Inr (t, x, u)))))
       [0 ..< size_TargetTrajectories s]"

definition well_formed_targets :: "target_trajectories \<Rightarrow> bool" where
  "well_formed_targets s =
     (sorted (timeTrajectory s) \<and> length (stateTrajectory s) = length (timeTrajectory s) \<and>
      (inputTrajectory s \<noteq> [] \<longrightarrow> length (inputTrajectory s) = length (timeTrajectory s)))"

lemma TargetTrajectories_well_formed:
  "TargetTrajectories t x u = Inr s \<Longrightarrow> sorted t \<Longrightarrow> well_formed_targets s"
  by (auto simp: TargetTrajectories_def well_formed_targets_def split: if_splits)

lemma swap_TargetTrajectories_exchanges: "swap_TargetTrajectories lh rh = (rh, lh)"
  by (simp add: swap_TargetTrajectories_def)

lemma print_TargetTrajectories_full:
  assumes "length (stateTrajectory s) = length (timeTrajectory s)"
    "length (inputTrajectory s) = length (timeTrajectory s)"
  shows "print_TargetTrajectories s = Inr (zip (timeTrajectory s) (zip (stateTrajectory s) (inputTrajectory s)))"
proof -
  have "print_TargetTrajectories s =
      Inr (map (\<lambda>i. (timeTrajectory s ! i, stateTrajectory s ! i, inputTrajectory s ! i)) [0 ..< length (timeTrajectory s)])"
    unfolding print_TargetTrajectories_def size_TargetTrajectories_def
    by (rule map_result_all) (use assms in simp)
  moreover have "map (\<lambda>i. (timeTrajectory s ! i, stateTrajectory s ! i, inputTrajectory s ! i)) [0 ..< length (timeTrajectory s)]
      = zip (timeTrajectory s) (zip (stateTrajectory s) (inputTrajectory s))"
    by (rule nth_equalityI) (use assms in auto)
  ultimately show ?thesis by simp
qed

lemma print_TargetTrajectories_no_inputs:
  assumes "timeTrajectory s \<noteq> []" "inputTrajectory s = []"
  shows "print_TargetTrajectories s = Inl Undefined"
proof -
  obtain n where n: "length (timeTrajectory s) = Suc n" using assms(1) by (cases "timeTrajectory s") auto
  then have u: "[0 ..< length (timeTrajectory s)] = 0 # [1 ..< Suc n]" by (simp add: upt_rec)
  show ?thesis
    unfolding print_TargetTrajectories_def size_TargetTrajectories_def u
    using assms(2) n by (cases "vec_at (stateTrajectory s) 0") (auto simp: vec_at_def split: if_splits)
qed

section \<open>Properties\<close>

text \<open>
  On well-formed targets the queries fail only as documented: \<open>getDesiredState\<close> throws exactly on
  empty targets, \<open>getDesiredInput\<close> exactly when there are no targets or no inputs, and outside the
  time range they return the first and the last desired state.
\<close>

theorem targets_queries_total:
  assumes "well_formed_targets s"
  shows "succeeds (getDesiredState s t) = (timeTrajectory s \<noteq> []) \<and>
         succeeds (getDesiredInput s t) = (timeTrajectory s \<noteq> [] \<and> inputTrajectory s \<noteq> []) \<and>
         (timeTrajectory s \<noteq> [] \<and> t \<le> hd (timeTrajectory s) \<longrightarrow> getDesiredState s t = Inr (hd (stateTrajectory s))) \<and>
         (timeTrajectory s \<noteq> [] \<and> last (timeTrajectory s) < t \<longrightarrow> getDesiredState s t = Inr (last (stateTrajectory s)))"
proof -
  have wf: "sorted (timeTrajectory s)" "length (stateTrajectory s) = length (timeTrajectory s)"
    "inputTrajectory s \<noteq> [] \<longrightarrow> length (inputTrajectory s) = length (timeTrajectory s)"
    using assms by (auto simp: well_formed_targets_def)
  have x: "succeeds (interpolate_vector t (timeTrajectory s) (stateTrajectory s))" if "stateTrajectory s \<noteq> []"
    using vectors.at_succeeds[OF wf(1,2) that] by (simp add: interpolate_vector_def)
  have u: "succeeds (interpolate_vector t (timeTrajectory s) (inputTrajectory s))" if "inputTrajectory s \<noteq> []"
    using vectors.at_succeeds[OF wf(1) wf(3)[rule_format, OF that] that] by (simp add: interpolate_vector_def)
  show ?thesis
    using wf(2) x u vectors.at_before[OF wf(1,2), of t "\<lambda>d. d"] vectors.at_after[OF wf(1,2), of t "\<lambda>d. d"]
    by (auto simp: getDesiredState_def getDesiredInput_def empty_TargetTrajectories_def interpolate_vector_def)
qed

theorem targets_queries_total_witness:
  "succeeds (getDesiredState \<lparr>timeTrajectory = [0, 1], stateTrajectory = [[1], [3]], inputTrajectory = []\<rparr> (1 / 2)) \<and>
   \<not> succeeds (getDesiredInput \<lparr>timeTrajectory = [0, 1], stateTrajectory = [[1], [3]], inputTrajectory = []\<rparr> (1 / 2))"
  using targets_queries_total[of "\<lparr>timeTrajectory = [0, 1], stateTrajectory = [[1], [3]], inputTrajectory = []\<rparr>" "1 / 2"]
  by (simp add: well_formed_targets_def)

text \<open>
  Printing targets: with as many inputs as times, \<open>operator<<\<close> prints every row; for targets
  without inputs (which the constructor accepts and \<open>getDesiredInput\<close> documents) it reads
  \<open>inputTrajectory[0]\<close> of an empty vector.
\<close>

theorem print_targets_out_of_bounds:
  assumes "well_formed_targets s" "timeTrajectory s \<noteq> []"
  shows "succeeds (print_TargetTrajectories s) = (inputTrajectory s \<noteq> []) \<and>
         (inputTrajectory s = [] \<longrightarrow> print_TargetTrajectories s = Inl Undefined)"
  using assms print_TargetTrajectories_full[of s] print_TargetTrajectories_no_inputs[OF assms(2)]
  by (auto simp: well_formed_targets_def)

theorem print_targets_out_of_bounds_witness:
  "TargetTrajectories [0] [[1]] [] = Inr \<lparr>timeTrajectory = [0], stateTrajectory = [[1]], inputTrajectory = []\<rparr> \<and>
   print_TargetTrajectories \<lparr>timeTrajectory = [0], stateTrajectory = [[1]], inputTrajectory = []\<rparr> = Inl Undefined"
  using print_targets_out_of_bounds[of "\<lparr>timeTrajectory = [0], stateTrajectory = [[1]], inputTrajectory = []\<rparr>"]
  by (simp add: well_formed_targets_def TargetTrajectories_def)

end
