(* ===== verification/Time_Discretization.thy ===== *)
theory Time_Discretization
  imports Lookup
begin

text \<open>
  \<open>core/ocs2_oc/oc_data/TimeDiscretization\<close>: the discretization of a horizon into annotated times,
  which must contain the event times, and the conversions of an annotated trajectory.
\<close>

section \<open>Annotated times\<close>

datatype event_type = NoEvent | PreEvent | PostEvent

record annotated_time =
  node_time :: scalar
  node_event :: event_type

definition AnnotatedTime :: "scalar \<Rightarrow> event_type \<Rightarrow> annotated_time" where
  "AnnotatedTime t e = \<lparr>node_time = t, node_event = e\<rparr>"

definition getInterpolationTime :: "annotated_time \<Rightarrow> scalar" where
  "getInterpolationTime a = node_time a + limitEpsilon"

definition getIntervalStart :: "annotated_time \<Rightarrow> scalar" where
  "getIntervalStart start =
     (if node_event start = PostEvent then node_time start + weakEpsilon else node_time start)"

definition getIntervalEnd :: "annotated_time \<Rightarrow> scalar" where
  "getIntervalEnd e = (if node_event e = PreEvent then node_time e - weakEpsilon else node_time e)"

definition getIntervalDuration :: "annotated_time \<Rightarrow> annotated_time \<Rightarrow> scalar" where
  "getIntervalDuration start e = getIntervalEnd e - getIntervalStart start"

section \<open>Discretization of a horizon\<close>

text \<open>
  One pass of the \<open>while\<close> loop: the next node and the next event index, from the last node.
\<close>

definition next_node ::
  "scalar \<Rightarrow> scalar \<Rightarrow> scalar list \<Rightarrow> nat \<Rightarrow> annotated_time \<Rightarrow> annotated_time \<times> nat" where
  "next_node finalTime dt events nextEventIdx nextNode =
     (let node1 = AnnotatedTime (node_time nextNode + dt) NoEvent;
          hit = (nextEventIdx < length events \<and> node_time node1 \<ge> events ! nextEventIdx);
          node2 = (if hit then AnnotatedTime (events ! nextEventIdx) PreEvent else node1);
          idx2 = (if hit then nextEventIdx + 1 else nextEventIdx);
          node3 = (if node_time node2 \<ge> finalTime then AnnotatedTime finalTime NoEvent else node2)
      in (node3, idx2))"

definition push_or_overwrite :: "scalar \<Rightarrow> annotated_time list \<Rightarrow> annotated_time \<Rightarrow> annotated_time list" where
  "push_or_overwrite dt_min xs node =
     (if node_time node > node_time (last xs) + dt_min then xs @ [node] else butlast xs @ [node])"

lemma last_push_or_overwrite [simp]: "last (push_or_overwrite d xs n) = n"
  by (simp add: push_or_overwrite_def)

lemma ceiling_step_less:
  fixes f t d :: real
  assumes "0 < d" "t + d < f"
  shows "nat \<lceil>(f - (t + d)) / d\<rceil> < nat \<lceil>(f - t) / d\<rceil>"
proof -
  have eq: "(f - t) / d = (f - (t + d)) / d + 1"
    using assms(1) by (simp add: field_simps)
  have "0 < \<lceil>(f - (t + d)) / d\<rceil>"
    using assms by (simp add: field_simps)
  then show ?thesis unfolding eq by simp
qed

text \<open>
  The loop itself. The code asserts \<open>dt > 0\<close> before it; the same test in the guard of the model
  makes the recursion well-founded for every argument.
\<close>

function discretize_loop ::
  "scalar \<Rightarrow> scalar \<Rightarrow> scalar \<Rightarrow> scalar list \<Rightarrow> nat \<Rightarrow> annotated_time \<Rightarrow> annotated_time list \<Rightarrow> annotated_time list" where
  "discretize_loop finalTime dt dt_min events nextEventIdx nextNode xs =
     (if 0 < dt \<and> node_time (last xs) < finalTime then
        discretize_loop finalTime dt dt_min events
          (snd (next_node finalTime dt events nextEventIdx nextNode))
          (fst (next_node finalTime dt events nextEventIdx nextNode))
          (push_or_overwrite dt_min xs (fst (next_node finalTime dt events nextEventIdx nextNode)))
      else xs)"
  by pat_completeness auto

termination
proof (relation "measures [\<lambda>(f, dt, dt_min, ev, i, n, xs). length ev - i,
    \<lambda>(f, dt, dt_min, ev, i, n, xs). nat \<lceil>(f - node_time n) / dt\<rceil> + (if node_time (last xs) < f then 1 else 0)]")
  fix f dt dt_min :: scalar and ev :: "scalar list" and i :: nat and n :: annotated_time and xs :: "annotated_time list"
  assume "0 < dt \<and> node_time (last xs) < f"
  then show "((f, dt, dt_min, ev, snd (next_node f dt ev i n), fst (next_node f dt ev i n),
      push_or_overwrite dt_min xs (fst (next_node f dt ev i n))), f, dt, dt_min, ev, i, n, xs)
    \<in> measures [\<lambda>(f, dt, dt_min, ev, i, n, xs). length ev - i,
    \<lambda>(f, dt, dt_min, ev, i, n, xs). nat \<lceil>(f - node_time n) / dt\<rceil> + (if node_time (last xs) < f then 1 else 0)]"
    using ceiling_step_less[of dt "node_time n" f]
    by (auto simp: next_node_def Let_def AnnotatedTime_def)
qed simp

declare discretize_loop.simps [simp del]

definition skip_initial_event :: "annotated_time list \<Rightarrow> annotated_time list" where
  "skip_initial_event xs =
     (case xs of [] \<Rightarrow> []
      | x # rest \<Rightarrow> (if node_event x = PreEvent then x\<lparr>node_event := PostEvent\<rparr> else x) # rest)"

fun double_events :: "annotated_time list \<Rightarrow> annotated_time list" where
  "double_events [] = []"
| "double_events (t # ts) =
     (if node_event t = PreEvent then t # t\<lparr>node_event := PostEvent\<rparr> # double_events ts
      else t # double_events ts)"

definition timeDiscretizationWithEvents ::
  "scalar \<Rightarrow> scalar \<Rightarrow> scalar \<Rightarrow> scalar list \<Rightarrow> scalar \<Rightarrow> annotated_time list result" where
  "timeDiscretizationWithEvents initTime finalTime dt events dt_min =
     (if \<not> (0 < dt) \<or> \<not> (initTime < finalTime) then Inl Assertion_Failed
      else let start = AnnotatedTime initTime NoEvent
           in Inr (double_events (skip_initial_event
                (discretize_loop finalTime dt dt_min events (lowerBoundIndex events initTime) start [start]))))"

section \<open>Conversions of an annotated trajectory\<close>

definition toTime :: "annotated_time list \<Rightarrow> scalar list" where
  "toTime xs = map node_time xs"

definition toInterpolationTime :: "annotated_time list \<Rightarrow> scalar list" where
  "toInterpolationTime xs =
     (if xs = [] then []
      else [node_time (last xs) - limitEpsilon]
           @ map (\<lambda>i. if node_event (xs ! i) = PostEvent then getInterpolationTime (xs ! i) else node_time (xs ! i))
               [1 ..< length xs - 1]
           @ [node_time (last xs) - limitEpsilon])"

definition toPostEventIndices :: "annotated_time list \<Rightarrow> nat list" where
  "toPostEventIndices xs = map Suc (filter (\<lambda>i. node_event (xs ! i) = PreEvent) [0 ..< length xs])"

section \<open>The invariant of the discretization\<close>

definition spaced :: "scalar \<Rightarrow> annotated_time list \<Rightarrow> bool" where
  "spaced dt_min xs = sorted_wrt (\<lambda>a b. node_time a + dt_min < node_time b) xs"

definition node_ok :: "scalar \<Rightarrow> scalar \<Rightarrow> scalar list \<Rightarrow> annotated_time \<Rightarrow> bool" where
  "node_ok initTime finalTime events n =
     (initTime \<le> node_time n \<and> node_time n \<le> finalTime \<and> node_event n \<noteq> PostEvent \<and>
      (node_event n = PreEvent \<longrightarrow> node_time n \<in> set events \<and> node_time n < finalTime))"

definition loop_inv ::
  "scalar \<Rightarrow> scalar \<Rightarrow> scalar \<Rightarrow> scalar list \<Rightarrow> nat \<Rightarrow> annotated_time \<Rightarrow> annotated_time list \<Rightarrow> bool" where
  "loop_inv initTime finalTime dt_min events idx node xs =
     (xs \<noteq> [] \<and> last xs = node \<and> spaced dt_min xs \<and>
      (\<forall>n \<in> set xs. node_ok initTime finalTime events n) \<and>
      (\<forall>j. idx \<le> j \<and> j < length events \<longrightarrow> node_time node \<le> events ! j))"

lemma AnnotatedTime_sel [simp]: "node_time (AnnotatedTime t e) = t" "node_event (AnnotatedTime t e) = e"
  by (simp_all add: AnnotatedTime_def)

lemma spaced_push:
  assumes "spaced d xs" "xs \<noteq> []" "0 \<le> d" "node_time (last xs) \<le> node_time n"
  shows "spaced d (push_or_overwrite d xs n)"
proof -
  let ?r = "\<lambda>a b. node_time a + d < node_time b"
  have split: "sorted_wrt ?r (butlast xs @ [last xs])" using assms(1,2) by (simp add: spaced_def)
  then have "\<forall>a \<in> set (butlast xs). ?r a n" using assms(4) by (auto simp: sorted_wrt_append)
  moreover have "\<forall>a \<in> set xs. ?r a n" if "?r (last xs) n"
  proof
    fix a assume "a \<in> set xs"
    then have "a \<in> set (butlast xs) \<or> a = last xs"
      using assms(2) by (metis append_butlast_last_id in_set_conv_decomp Un_iff empty_iff insert_iff list.set set_append)
    with calculation that show "?r a n" by blast
  qed
  ultimately show ?thesis
    using assms(1) split by (auto simp: push_or_overwrite_def spaced_def sorted_wrt_append)
qed

lemma set_push_or_overwrite: "set (push_or_overwrite d xs n) \<subseteq> insert n (set xs)"
  by (auto simp: push_or_overwrite_def dest: in_set_butlastD)

lemma next_node_cases:
  assumes "loop_inv i f d ev idx node xs" "0 < dt" "node_time node < f" "sorted ev"
    "next_node f dt ev idx node = (n, idx')"
  shows "node_time node \<le> node_time n" "node_ok i f ev n" "idx \<le> idx'"
    "\<forall>j. idx' \<le> j \<and> j < length ev \<longrightarrow> node_time n \<le> ev ! j"
proof -
  have inv: "node \<in> set xs" "node_ok i f ev node"
    "\<And>j. idx \<le> j \<Longrightarrow> j < length ev \<Longrightarrow> node_time node \<le> ev ! j"
    using assms(1) by (auto simp: loop_inv_def)
  have mono: "ev ! idx \<le> ev ! j" if "idx \<le> j" "j < length ev" for j
    using sorted_nth_mono[OF assms(4) that] .
  show "node_time node \<le> node_time n" "idx \<le> idx'"
    using assms(2,3,5) inv(3) by (auto simp: next_node_def Let_def split: if_splits)
  show "node_ok i f ev n"
    using assms(2,3,5) inv(2) inv(3)[of idx] by (auto simp: next_node_def Let_def node_ok_def split: if_splits)
  show "\<forall>j. idx' \<le> j \<and> j < length ev \<longrightarrow> node_time n \<le> ev ! j"
  proof (intro allI impI)
    fix j assume j: "idx' \<le> j \<and> j < length ev"
    then have "idx \<le> j" using assms(5) by (auto simp: next_node_def Let_def split: if_splits)
    with j mono[of j] assms(5) show "node_time n \<le> ev ! j"
      by (auto simp: next_node_def Let_def not_le split: if_splits)
  qed
qed

lemma loop_inv_step:
  assumes "loop_inv i f d ev idx node xs" "0 < dt" "node_time (last xs) < f" "sorted ev" "0 \<le> d"
    "next_node f dt ev idx node = (n, idx')"
  shows "loop_inv i f d ev idx' n (push_or_overwrite d xs n)"
proof -
  have xs: "xs \<noteq> []" "last xs = node" "spaced d xs" "\<forall>n \<in> set xs. node_ok i f ev n"
    using assms(1) by (auto simp: loop_inv_def)
  note step = next_node_cases[OF assms(1,2) _ assms(4,6)]
  have lt: "node_time node < f" using assms(3) xs(2) by simp
  have "push_or_overwrite d xs n \<noteq> []" by (simp add: push_or_overwrite_def)
  then show ?thesis
    using xs step[OF lt] spaced_push[OF xs(3,1) assms(5), of n] set_push_or_overwrite[of d xs n]
    by (auto simp: loop_inv_def)
qed

lemma discretize_loop_inv:
  assumes "loop_inv i f d ev idx node xs" "0 < dt" "sorted ev" "0 \<le> d"
  shows "\<exists>idx' node'. loop_inv i f d ev idx' node' (discretize_loop f dt d ev idx node xs) \<and> node_time node' = f"
  using assms
proof (induction f dt d ev idx node xs rule: discretize_loop.induct)
  case (1 f dt d ev idx node xs)
  show ?case
  proof (cases "node_time (last xs) < f")
    case True
    obtain n idx' where nn: "next_node f dt ev idx node = (n, idx')" by (cases "next_node f dt ev idx node")
    have "loop_inv i f d ev idx' n (push_or_overwrite d xs n)"
      by (rule loop_inv_step[OF "1.prems"(1,2) True "1.prems"(3,4) nn])
    then show ?thesis
      using "1.IH" "1.prems"(2,3,4) True nn
      by (simp add: discretize_loop.simps[of f dt d ev idx node xs])
  next
    case False
    have node: "last xs = node" "node \<in> set xs" "node_ok i f ev node"
      using "1.prems"(1) by (auto simp: loop_inv_def)
    then have "node_time node = f" using False by (auto simp: node_ok_def)
    then show ?thesis
      using False "1.prems"(1) by (auto simp: discretize_loop.simps[of f dt d ev idx node xs])
  qed
qed

lemma loop_inv_start:
  assumes "i < f" "sorted ev"
  shows "loop_inv i f d ev (lowerBoundIndex ev i) (AnnotatedTime i NoEvent) [AnnotatedTime i NoEvent]"
  using assms lower.find_after[OF assms(2), of i]
  by (auto simp: loop_inv_def spaced_def node_ok_def not_less)

section \<open>Post events\<close>

lemma times_double_events: "node_time ` set (double_events zs) = node_time ` set zs"
  by (induction zs) auto

lemma sorted_double_events: "sorted (map node_time zs) \<Longrightarrow> sorted (map node_time (double_events zs))"
proof (induction zs)
  case Nil
  then show ?case by simp
next
  case (Cons z zs)
  have "\<forall>x \<in> node_time ` set (double_events zs). node_time z \<le> x"
    unfolding times_double_events using Cons.prems by auto
  with Cons show ?case by auto
qed

lemma last_double_events:
  "zs \<noteq> [] \<Longrightarrow> node_event (last zs) \<noteq> PreEvent \<Longrightarrow>
     double_events zs \<noteq> [] \<and> last (double_events zs) = last zs"
  by (induction zs) auto

lemma double_events_members:
  "n \<in> set (double_events zs) \<Longrightarrow>
     n \<in> set zs \<or> (\<exists>m \<in> set zs. node_event m = PreEvent \<and> n = m\<lparr>node_event := PostEvent\<rparr>)"
  by (induction zs) (auto split: if_splits)

lemma double_events_post:
  "m \<in> set zs \<Longrightarrow> node_event m = PreEvent \<Longrightarrow> m\<lparr>node_event := PostEvent\<rparr> \<in> set (double_events zs)"
  by (induction zs) auto

lemma double_events_keeps: "m \<in> set zs \<Longrightarrow> m \<in> set (double_events zs)"
  by (induction zs) auto

definition paired :: "annotated_time list \<Rightarrow> bool" where
  "paired r = (\<forall>k < length r. node_event (r ! k) = PreEvent \<longrightarrow>
     k + 1 < length r \<and> r ! (k + 1) = (r ! k)\<lparr>node_event := PostEvent\<rparr>)"

lemma paired_double_events: "paired (double_events zs)"
proof (induction zs)
  case Nil
  then show ?case by (simp add: paired_def)
next
  case (Cons z zs)
  show ?case
  proof (cases "node_event z = PreEvent")
    case False
    with Cons show ?thesis
      by (auto simp: paired_def nth_Cons' less_Suc_eq_0_disj)
  next
    case True
    have "(if k = 0 \<or> k = 1 then True else node_event (double_events zs ! (k - 2)) = PreEvent \<longrightarrow>
        k - 2 + 1 < length (double_events zs) \<and>
        double_events zs ! (k - 2 + 1) = (double_events zs ! (k - 2))\<lparr>node_event := PostEvent\<rparr>)"
      if "k < length (double_events (z # zs))" for k
      using Cons that True by (auto simp: paired_def)
    with True show ?thesis
      by (fastforce simp: paired_def nth_Cons' numeral_2_eq_2 Suc_diff_Suc)
  qed
qed

lemma spaced_double_events:
  "spaced d zs \<Longrightarrow> spaced d (filter (\<lambda>n. node_event n \<noteq> PreEvent) (double_events zs))"
proof (induction zs)
  case Nil
  then show ?case by (simp add: spaced_def)
next
  case (Cons z zs)
  have "\<forall>x \<in> node_time ` set (double_events zs). node_time z + d < x"
    unfolding times_double_events using Cons.prems by (auto simp: spaced_def)
  with Cons show ?case by (auto simp: spaced_def)
qed

lemma spaced_sorted: "spaced d xs \<Longrightarrow> 0 \<le> d \<Longrightarrow> sorted (map node_time xs)"
  by (induction xs) (force simp: spaced_def)+

lemma skip_initial_event_map:
  "map node_time (skip_initial_event xs) = map node_time xs"
  by (auto simp: skip_initial_event_def split: list.splits)

lemma spaced_iff_times: "spaced d xs = sorted_wrt (\<lambda>a b. a + d < b) (map node_time xs)"
  by (simp add: spaced_def sorted_wrt_map)

lemma spaced_skip_initial_event: "spaced d (skip_initial_event xs) = spaced d xs"
  by (simp add: spaced_iff_times skip_initial_event_map)

lemma last_skip_initial_event:
  "xs \<noteq> [] \<Longrightarrow> node_event (last xs) = NoEvent \<Longrightarrow> skip_initial_event xs \<noteq> [] \<and> last (skip_initial_event xs) = last xs"
  by (auto simp: skip_initial_event_def split: list.splits)

lemma skip_initial_event_members:
  "n \<in> set (skip_initial_event xs) \<Longrightarrow>
     n \<in> set xs \<or> (\<exists>m \<in> set xs. node_event m = PreEvent \<and> n = m\<lparr>node_event := PostEvent\<rparr>)"
  by (auto simp: skip_initial_event_def split: list.splits if_splits)

text \<open>An event node of the loop's list shows up as a post event in the final list.\<close>

lemma event_reaches_result:
  assumes "m \<in> set xs" "node_event m = PreEvent"
  shows "m\<lparr>node_event := PostEvent\<rparr> \<in> set (double_events (skip_initial_event xs))"
proof -
  have "m\<lparr>node_event := PostEvent\<rparr> \<in> set (skip_initial_event xs) \<or> m \<in> set (skip_initial_event xs)"
    using assms by (cases xs) (auto simp: skip_initial_event_def)
  then show ?thesis
    using double_events_keeps double_events_post assms(2) by blast
qed

lemma toPostEventIndices_iff:
  "p \<in> set (toPostEventIndices xs) \<longleftrightarrow> 0 < p \<and> p \<le> length xs \<and> node_event (xs ! (p - 1)) = PreEvent"
  by (cases p) (auto simp: toPostEventIndices_def image_iff)

lemma sorted_toPostEventIndices: "sorted_wrt (<) (toPostEventIndices xs)"
proof -
  have "sorted_wrt (<) (filter (\<lambda>i. node_event (xs ! i) = PreEvent) [0 ..< length xs])"
    by (intro sorted_wrt_filter sorted_wrt_upt)
  then show ?thesis by (simp add: toPostEventIndices_def sorted_wrt_map)
qed

text \<open>What the loop leaves behind, for a call that passes the assertions.\<close>

lemma discretization_loop_result:
  assumes "0 < dt" "i < f" "sorted ev" "0 \<le> d"
  obtains ys where "timeDiscretizationWithEvents i f dt ev d = Inr (double_events (skip_initial_event ys))"
    "ys \<noteq> []" "spaced d ys" "\<forall>n \<in> set ys. node_ok i f ev n" "last ys = AnnotatedTime f NoEvent"
proof -
  let ?s = "AnnotatedTime i NoEvent"
  let ?ys = "discretize_loop f dt d ev (lowerBoundIndex ev i) ?s [?s]"
  obtain idx node where inv: "loop_inv i f d ev idx node ?ys" "node_time node = f"
    using discretize_loop_inv[OF loop_inv_start[OF assms(2,3)] assms(1,3,4)] by blast
  then have ok: "last ?ys = node" "?ys \<noteq> []" "\<forall>n \<in> set ?ys. node_ok i f ev n" "spaced d ?ys"
    by (auto simp: loop_inv_def)
  then have "node_ok i f ev node" using last_in_set[of ?ys] by auto
  with inv(2) have "node_event node = NoEvent"
    by (cases "node_event node") (auto simp: node_ok_def)
  with inv(2) have "last ?ys = AnnotatedTime f NoEvent" using ok(1) by (simp add: AnnotatedTime_def)
  moreover have "timeDiscretizationWithEvents i f dt ev d = Inr (double_events (skip_initial_event ?ys))"
    using assms by (simp add: timeDiscretizationWithEvents_def Let_def)
  ultimately show ?thesis using that ok(2,3,4) by blast
qed

section \<open>Coverage of the events\<close>

text \<open>
  Where events keep a distance of more than \<open>dt_min\<close> from each other and from the final time, no
  event node is ever overwritten.
\<close>

definition separated :: "scalar \<Rightarrow> scalar \<Rightarrow> scalar list \<Rightarrow> bool" where
  "separated d f ev = (sorted_wrt (\<lambda>a b. a + d < b) ev \<and> (\<forall>e \<in> set ev. e < f \<longrightarrow> e + d < f))"

definition covered ::
  "scalar \<Rightarrow> scalar \<Rightarrow> scalar list \<Rightarrow> nat \<Rightarrow> nat \<Rightarrow> annotated_time \<Rightarrow> annotated_time list \<Rightarrow> bool" where
  "covered d f ev idx0 idx node xs =
     ((\<forall>j. idx0 \<le> j \<and> j < idx \<and> ev ! j < f \<longrightarrow> AnnotatedTime (ev ! j) PreEvent \<in> set xs) \<and>
      (node_event node = PreEvent \<longrightarrow>
         node_time node + d < f \<and> (\<forall>j. idx \<le> j \<and> j < length ev \<longrightarrow> node_time node + d < ev ! j)))"

lemma covered_step:
  assumes "covered d f ev idx0 idx node xs" "last xs = node" "xs \<noteq> []" "separated d f ev" "d < dt"
    "next_node f dt ev idx node = (n, idx')"
  shows "covered d f ev idx0 idx' n (push_or_overwrite d xs n)"
proof -
  have sep: "ev ! j + d < ev ! k" if "j < k" "k < length ev" for j k
    using assms(4) that by (auto simp: separated_def sorted_wrt_iff_nth_less)
  have kept: "AnnotatedTime t PreEvent \<in> set (push_or_overwrite d xs n)"
    if "AnnotatedTime t PreEvent \<in> set xs" for t
  proof (cases "AnnotatedTime t PreEvent = node")
    case False
    then have "AnnotatedTime t PreEvent \<in> set (butlast xs)"
      using that assms(2,3) by (metis append_butlast_last_id Un_iff empty_iff insert_iff list.set set_append)
    then show ?thesis by (auto simp: push_or_overwrite_def dest: in_set_butlastD)
  next
    case True
    then have "node_event node = PreEvent" by auto
    then have "node_time node + d < node_time n"
      using assms(1,5,6) by (auto simp: covered_def next_node_def Let_def split: if_splits)
    then show ?thesis using that assms(2) by (simp add: push_or_overwrite_def)
  qed
  have n_mem: "n \<in> set (push_or_overwrite d xs n)" by (simp add: push_or_overwrite_def)
  have old: "AnnotatedTime (ev ! j) PreEvent \<in> set (push_or_overwrite d xs n)"
    if "idx0 \<le> j" "j < idx" "ev ! j < f" for j
    using kept assms(1) that by (auto simp: covered_def)
  show ?thesis
  proof (cases "idx < length ev \<and> node_time node + dt \<ge> ev ! idx")
    case True
    then have idx': "idx' = idx + 1"
      and n: "n = (if ev ! idx \<ge> f then AnnotatedTime f NoEvent else AnnotatedTime (ev ! idx) PreEvent)"
      using assms(6) by (auto simp: next_node_def Let_def)
    have "ev ! idx + d < f" if "ev ! idx < f" using assms(4) True that by (auto simp: separated_def)
    then show ?thesis
      using old n_mem sep True unfolding covered_def idx' n
      by (auto simp: less_Suc_eq not_le split: if_splits)
  next
    case False
    then have "idx' = idx" "node_event n = NoEvent"
      using assms(6) by (auto simp: next_node_def Let_def)
    then show ?thesis using old by (auto simp: covered_def)
  qed
qed

lemma discretize_loop_covers:
  assumes "loop_inv i f d ev idx node xs" "covered d f ev idx0 idx node xs"
    and "0 < dt" "sorted ev" "0 \<le> d" "separated d f ev" "d < dt" "idx0 \<le> j" "j < length ev" "ev ! j < f"
  shows "AnnotatedTime (ev ! j) PreEvent \<in> set (discretize_loop f dt d ev idx node xs)"
  using assms
proof (induction f dt d ev idx node xs rule: discretize_loop.induct)
  case (1 f dt d ev idx node xs)
  have xs: "xs \<noteq> []" "last xs = node" using "1.prems"(1) by (auto simp: loop_inv_def)
  show ?case
  proof (cases "node_time (last xs) < f")
    case True
    obtain n idx' where nn: "next_node f dt ev idx node = (n, idx')" by (cases "next_node f dt ev idx node")
    have "loop_inv i f d ev idx' n (push_or_overwrite d xs n)"
      by (rule loop_inv_step[OF "1.prems"(1,3) True "1.prems"(4,5) nn])
    moreover have "covered d f ev idx0 idx' n (push_or_overwrite d xs n)"
      by (rule covered_step[OF "1.prems"(2) xs(2,1) "1.prems"(6,7) nn])
    ultimately show ?thesis
      using "1.IH" "1.prems" True nn by (simp add: discretize_loop.simps[of f dt d ev idx node xs])
  next
    case False
    have "j < idx"
    proof (rule ccontr)
      assume "\<not> j < idx"
      then have "node_time node \<le> ev ! j" using "1.prems"(1,9) by (auto simp: loop_inv_def)
      with False xs(2) "1.prems"(10) show False by simp
    qed
    then show ?thesis
      using "1.prems"(2,8,10) False by (auto simp: discretize_loop.simps[of f dt d ev idx node xs] covered_def)
  qed
qed

text \<open>With a step not above \<open>dt_min\<close> and no event, every node overwrites the one before it.\<close>

lemma discretize_loop_collapses:
  assumes "0 < dt" "dt \<le> d" "xs = [node]" "node_time node < f"
  shows "discretize_loop f dt d [] idx node xs = [AnnotatedTime f NoEvent]"
  using assms
proof (induction f dt d "[] :: scalar list" idx node xs rule: discretize_loop.induct)
  case (1 f dt d idx node xs)
  show ?case
  proof (cases "node_time node + dt \<ge> f")
    case True
    then have "next_node f dt [] idx node = (AnnotatedTime f NoEvent, idx)" by (simp add: next_node_def)
    with True "1.prems" show ?thesis
      by (simp add: discretize_loop.simps[of f dt d "[]" idx node "[node]"] push_or_overwrite_def
          discretize_loop.simps[of f dt d "[]" idx "AnnotatedTime f NoEvent"])
  next
    case False
    then have nn: "next_node f dt [] idx node = (AnnotatedTime (node_time node + dt) NoEvent, idx)"
      by (simp add: next_node_def)
    with False "1.prems" "1.hyps" show ?thesis
      by (simp add: discretize_loop.simps[of f dt d "[]" idx node "[node]"] push_or_overwrite_def)
  qed
qed

section \<open>Properties\<close>

text \<open>
  C2. For a positive step and a non-empty horizon with sorted events the discretization terminates with a
  list of times inside the horizon, in increasing order, that ends exactly at the final time. Apart
  from the pre-event copies its times are more than \<open>dt_min\<close> apart, every pre-event node is
  immediately followed by the post-event node of the same time, and every event node stands at an
  event time.
\<close>

theorem discretization_correct:
  assumes "0 < dt" "i < f" "sorted ev" "0 \<le> d"
  shows "\<exists>r. timeDiscretizationWithEvents i f dt ev d = Inr r \<and> r \<noteq> [] \<and>
           sorted (toTime r) \<and> (\<forall>t \<in> set (toTime r). i \<le> t \<and> t \<le> f) \<and>
           last r = AnnotatedTime f NoEvent \<and>
           spaced d (filter (\<lambda>n. node_event n \<noteq> PreEvent) r) \<and> paired r \<and>
           (\<forall>n \<in> set r. node_event n \<noteq> NoEvent \<longrightarrow> node_time n \<in> set ev)"
proof -
  obtain ys where ys: "timeDiscretizationWithEvents i f dt ev d = Inr (double_events (skip_initial_event ys))"
    "ys \<noteq> []" "spaced d ys" "\<forall>n \<in> set ys. node_ok i f ev n" "last ys = AnnotatedTime f NoEvent"
    using discretization_loop_result[OF assms] by blast
  let ?zs = "skip_initial_event ys" and ?r = "double_events (skip_initial_event ys)"
  have zs: "?zs \<noteq> []" "last ?zs = AnnotatedTime f NoEvent"
    using last_skip_initial_event[OF ys(2)] ys(5) by auto
  have from_ys: "\<exists>m \<in> set ys. node_time n = node_time m \<and> (node_event n \<noteq> NoEvent \<longrightarrow> node_event m = PreEvent)"
    if n: "n \<in> set ?r" for n
  proof -
    have pre: "\<exists>m \<in> set ys. node_time k = node_time m \<and> (node_event k \<noteq> NoEvent \<longrightarrow> node_event m = PreEvent)"
      if "k \<in> set ?zs" for k
      using skip_initial_event_members[OF that] ys(4)
      by (cases "node_event k") (auto simp: node_ok_def)
    show ?thesis using double_events_members[OF n] pre by fastforce
  qed
  have "sorted (map node_time ?zs)"
    using spaced_sorted[OF ys(3) assms(4)] by (simp add: skip_initial_event_map)
  then have "sorted (toTime ?r)" unfolding toTime_def by (rule sorted_double_events)
  moreover have "\<forall>t \<in> set (toTime ?r). i \<le> t \<and> t \<le> f"
    using from_ys ys(4) by (fastforce simp: toTime_def node_ok_def)
  moreover have "?r \<noteq> [] \<and> last ?r = AnnotatedTime f NoEvent"
    using last_double_events[OF zs(1)] zs(2) by simp
  moreover have "spaced d (filter (\<lambda>n. node_event n \<noteq> PreEvent) ?r)"
    by (rule spaced_double_events) (simp add: spaced_skip_initial_event ys(3))
  moreover have "\<forall>n \<in> set ?r. node_event n \<noteq> NoEvent \<longrightarrow> node_time n \<in> set ev"
    using from_ys ys(4) by (fastforce simp: node_ok_def)
  ultimately show ?thesis using ys(1) paired_double_events by blast
qed

theorem discretization_correct_witness:
  "\<exists>r. timeDiscretizationWithEvents 0 1 (1 / 3) [1 / 2] (1 / 10 ^ 5) = Inr r \<and> last r = AnnotatedTime 1 NoEvent \<and>
     paired r \<and> sorted (toTime r)"
  using discretization_correct[of "1 / 3" 0 1 "[1 / 2]" "1 / 10 ^ 5"] by auto

text \<open>
  If the events keep more than \<open>dt_min\<close> from each other and from the final time, and the step is
  larger than \<open>dt_min\<close>, then every event of the horizon is part of the discretization: a post-event
  node stands at exactly its time.
\<close>

theorem discretization_covers_events:
  assumes "0 \<le> d" "d < dt" "i < f" "sorted ev" "separated d f ev" "e \<in> set ev" "i \<le> e" "e < f"
  shows "\<exists>r. timeDiscretizationWithEvents i f dt ev d = Inr r \<and> AnnotatedTime e PostEvent \<in> set r"
proof -
  let ?s = "AnnotatedTime i NoEvent"
  obtain j where j: "j < length ev" "e = ev ! j" using assms(6) by (auto simp: in_set_conv_nth)
  have "lowerBoundIndex ev i \<le> j"
    using lower.find_before[OF assms(4), of j i] j(2) assms(7) by fastforce
  moreover have "covered d f ev (lowerBoundIndex ev i) (lowerBoundIndex ev i) ?s [?s]"
    by (auto simp: covered_def)
  ultimately have "AnnotatedTime e PreEvent \<in> set (discretize_loop f dt d ev (lowerBoundIndex ev i) ?s [?s])"
    using discretize_loop_covers[OF loop_inv_start[OF assms(3,4)]] assms j by auto
  then show ?thesis
    using event_reaches_result assms(1,2,3)
    by (fastforce simp: timeDiscretizationWithEvents_def Let_def AnnotatedTime_def)
qed

theorem discretization_covers_events_witness:
  "\<exists>r. timeDiscretizationWithEvents 0 1 (1 / 3) [1 / 4, 1 / 2] (1 / 10 ^ 5) = Inr r \<and>
     AnnotatedTime (1 / 2) PostEvent \<in> set r"
  using discretization_covers_events[of "1 / 10 ^ 5" "1 / 3" 0 1 "[1 / 4, 1 / 2]" "1 / 2"]
  by (simp add: separated_def)

text \<open>
  Without that distance the documented promise fails in two ways: of two events closer than
  \<open>dt_min\<close> only the later one is kept, and with a step of at most \<open>dt_min\<close> the whole horizon
  collapses to its final time, the initial time included.
\<close>

theorem discretization_merges:
  "(\<forall>dt d i f. 0 < dt \<and> dt \<le> d \<and> i < f \<longrightarrow>
      timeDiscretizationWithEvents i f dt [] d = Inr [AnnotatedTime f NoEvent]) \<and>
   timeDiscretizationWithEvents 0 1 1 [1 / 2, 1 / 2 + 1 / 10 ^ 6] (1 / 10 ^ 5) =
     Inr [AnnotatedTime 0 NoEvent, AnnotatedTime (1 / 2 + 1 / 10 ^ 6) PreEvent,
          AnnotatedTime (1 / 2 + 1 / 10 ^ 6) PostEvent, AnnotatedTime 1 NoEvent]"
proof -
  have "timeDiscretizationWithEvents i f dt [] d = Inr [AnnotatedTime f NoEvent]"
    if "0 < dt" "dt \<le> d" "i < f" for i f dt d
    using that discretize_loop_collapses[OF that(1,2) refl, of "AnnotatedTime i NoEvent" f]
    by (simp add: timeDiscretizationWithEvents_def Let_def skip_initial_event_def)
  moreover have "timeDiscretizationWithEvents 0 1 1 [1 / 2, 1 / 2 + 1 / 10 ^ 6] (1 / 10 ^ 5) =
     Inr [AnnotatedTime 0 NoEvent, AnnotatedTime (1 / 2 + 1 / 10 ^ 6) PreEvent,
          AnnotatedTime (1 / 2 + 1 / 10 ^ 6) PostEvent, AnnotatedTime 1 NoEvent]"
    by (simp add: timeDiscretizationWithEvents_def lowerBoundIndex_def discretize_loop.simps
        next_node_def push_or_overwrite_def AnnotatedTime_def skip_initial_event_def)
  ultimately show ?thesis by blast
qed

theorem discretization_merges_witness:
  "timeDiscretizationWithEvents 0 1 (1 / 4) [] (1 / 2) = Inr [AnnotatedTime 1 NoEvent]"
  using discretization_merges by simp

text \<open>
  \<open>toInterpolationTime\<close> starts with the final time minus the limit epsilon, like its last entry,
  where the first time of the trajectory belongs: for three or more annotated times whose last time
  is more than the limit epsilon after the second one the result is not sorted; for a single
  annotated time it has two entries.
\<close>

theorem toInterpolationTime_first:
  assumes "xs \<noteq> []"
  shows "hd (toInterpolationTime xs) = node_time (last xs) - limitEpsilon \<and>
         length (toInterpolationTime xs) = (if length xs = 1 then 2 else length xs) \<and>
         (3 \<le> length xs \<and> node_time (xs ! 1) + 2 * limitEpsilon < node_time (last xs) \<longrightarrow>
            \<not> sorted (toInterpolationTime xs))"
proof -
  have "\<not> sorted (toInterpolationTime xs)"
    if l: "3 \<le> length xs" "node_time (xs ! 1) + 2 * limitEpsilon < node_time (last xs)"
  proof -
    have "[1 ..< length xs - 1] = 1 # [2 ..< length xs - 1]" using l(1) by (subst upt_rec) (auto simp: numeral_2_eq_2)
    then have "toInterpolationTime xs ! 1 \<le> node_time (xs ! 1) + limitEpsilon"
      using assms by (simp add: toInterpolationTime_def getInterpolationTime_def limitEpsilon_def)
    moreover have "toInterpolationTime xs ! 0 = node_time (last xs) - limitEpsilon"
      using assms by (simp add: toInterpolationTime_def)
    ultimately have "toInterpolationTime xs ! 1 < toInterpolationTime xs ! 0" using l(2) by simp
    moreover have "1 < length (toInterpolationTime xs)" using assms by (simp add: toInterpolationTime_def)
    ultimately show ?thesis using sorted_nth_mono[of "toInterpolationTime xs" 0 1] by auto
  qed
  moreover have "length (toInterpolationTime xs) = (if length xs = 1 then 2 else length xs)"
    using assms by (cases xs) (auto simp: toInterpolationTime_def)
  ultimately show ?thesis using assms by (simp add: toInterpolationTime_def)
qed

theorem toInterpolationTime_first_witness:
  "\<not> sorted (toInterpolationTime [AnnotatedTime 0 NoEvent, AnnotatedTime 1 NoEvent, AnnotatedTime 2 NoEvent])"
  using toInterpolationTime_first[of "[AnnotatedTime 0 NoEvent, AnnotatedTime 1 NoEvent, AnnotatedTime 2 NoEvent]"]
  by (simp add: limitEpsilon_def)

end
