(* ===== verification/Trajectory_Spreading.thy ===== *)
theory Trajectory_Spreading
  imports Mode_Schedule
begin

text \<open>
  \<open>core/ocs2_oc/trajectory_adjustment/TrajectorySpreading\<close>: given the mode schedule of an old
  solution and a new one, the strategy that moves the events of the old trajectories to their new
  times: which samples to erase, which ranges to overwrite and with which sample.
\<close>

section \<open>State\<close>

record trajectory_spreading =
  willTruncate :: bool
  willPerformTrajectorySpreading :: bool
  eraseFromIndex :: nat
  keepEventDataInInterval :: "nat \<times> nat"
  beginIndices :: "nat list"
  endIndices :: "nat list"
  spreadingValueIndices :: "nat list"
  updatedPostEventIndices :: "nat list"
  updatedMatchedEventTimes :: "scalar list"

text \<open>
  The constructor: the vectors are empty and the status is false; \<open>eraseFromIndex_\<close> and
  \<open>keepEventDataInInterval_\<close> have no initial value and are arguments of the model.
\<close>

definition new_TrajectorySpreading :: "nat \<Rightarrow> nat \<times> nat \<Rightarrow> trajectory_spreading" where
  "new_TrajectorySpreading erase keep =
     \<lparr>willTruncate = False, willPerformTrajectorySpreading = False, eraseFromIndex = erase,
      keepEventDataInInterval = keep, beginIndices = [], endIndices = [], spreadingValueIndices = [],
      updatedPostEventIndices = [], updatedMatchedEventTimes = []\<rparr>"

section \<open>Matching the mode sequences\<close>

text \<open>\<open>std::mismatch\<close> on two ranges: the length of their common prefix.\<close>

fun common_prefix :: "nat list \<Rightarrow> nat list \<Rightarrow> nat" where
  "common_prefix (x # xs) (y # ys) = (if x = y then Suc (common_prefix xs ys) else 0)"
| "common_prefix _ _ = 0"

text \<open>
  The search for the first old mode from which the sequences agree. \<open>oldLast\<close> and \<open>newRange\<close> are the
  last active old mode and the active new modes; a range whose begin lies behind its end is not a
  valid argument of \<open>std::mismatch\<close>.
\<close>

function match_window :: "nat list \<Rightarrow> nat \<Rightarrow> nat list \<Rightarrow> nat \<Rightarrow> (nat \<times> nat) result" where
  "match_window oldModes oldLast newRange start =
     (if start < length oldModes then
        bind_result (vec_range oldModes start (oldLast + 1)) (\<lambda>oldRange.
          let w = common_prefix oldRange newRange
          in if w > 0 then Inr (start, w) else match_window oldModes oldLast newRange (start + 1))
      else Inr (start, 0))"
  by pat_completeness auto
termination
  by (relation "measure (\<lambda>(m, l, r, s). length m - s)") auto

declare match_window.simps [simp del]

section \<open>The spreading strategy\<close>

definition findPostEventIndices :: "scalar list \<Rightarrow> scalar list \<Rightarrow> nat list" where
  "findPostEventIndices events ts =
     map (\<lambda>i. if i = length events - 1 \<and> events ! i = last ts then length ts - 1
              else upperBoundIndex ts (events ! i)) [0 ..< length events]"

text \<open>\<open>n - 1\<close> on \<open>size_t\<close>.\<close>

definition size_pred :: "nat \<Rightarrow> nat" where
  "size_pred n = (if n = 0 then 2 ^ 64 - 1 else n - 1)"

definition vec_at_pred :: "'a list \<Rightarrow> nat \<Rightarrow> 'a result" where
  "vec_at_pred xs n = (if n = 0 then Inl Undefined else vec_at xs (n - 1))"

text \<open>One pass of the loop of \<open>computeSpreadingStrategy\<close> over the matched events.\<close>

definition spreading_step ::
  "nat list \<Rightarrow> nat list \<Rightarrow> scalar list \<Rightarrow> nat \<Rightarrow> trajectory_spreading \<Rightarrow> trajectory_spreading result" where
  "spreading_step oldPost newPost newMatched j s =
     (let oldPreEventIndex = size_pred (oldPost ! j);
          record_post = (\<lambda>s. if newPost ! j \<noteq> 0 \<and> newPost ! j < eraseFromIndex s
            then s\<lparr>updatedPostEventIndices := updatedPostEventIndices s @ [newPost ! j],
                   updatedMatchedEventTimes := updatedMatchedEventTimes s @ [newMatched ! j]\<rparr>
            else s);
          spread = (\<lambda>b e v. if b = e then Inl Assertion_Failed
            else Inr (record_post (s\<lparr>beginIndices := beginIndices s @ [b], endIndices := endIndices s @ [e],
                     spreadingValueIndices := spreadingValueIndices s @ [v]\<rparr>)))
      in if newPost ! j < oldPost ! j then
           spread (newPost ! j) (min (oldPost ! j) (eraseFromIndex s)) (oldPost ! j)
         else if newPost ! j > oldPost ! j then
           spread (if j = 0 then oldPost ! j else max (oldPost ! j) (newPost ! (j - 1))) (newPost ! j) oldPreEventIndex
         else Inr (record_post s))"

definition computeSpreadingStrategy ::
  "scalar list \<Rightarrow> scalar list \<Rightarrow> scalar list \<Rightarrow> trajectory_spreading \<Rightarrow> trajectory_spreading result" where
  "computeSpreadingStrategy oldTimeTrajectory oldMatched newMatched s =
     (let s0 = s\<lparr>beginIndices := [], endIndices := [], spreadingValueIndices := [],
                 updatedPostEventIndices := [], updatedMatchedEventTimes := []\<rparr>;
          oldPost = findPostEventIndices oldMatched oldTimeTrajectory;
          newPost = findPostEventIndices newMatched oldTimeTrajectory
      in fold_result (spreading_step oldPost newPost newMatched) [0 ..< length oldPost] s0)"

section \<open>Setting up the strategy\<close>

text \<open>
  The three phases that collect the matched event times; \<open>st\<close> and \<open>nst\<close> are the start indices of
  the matched window in the old and the new mode sequence and \<open>w\<close> is its size.
\<close>

definition matched_events ::
  "mode_schedule \<Rightarrow> mode_schedule \<Rightarrow> scalar \<Rightarrow> scalar \<Rightarrow> nat \<Rightarrow> nat \<Rightarrow> nat \<Rightarrow> nat \<Rightarrow> nat \<Rightarrow> nat
     \<Rightarrow> (scalar list \<times> scalar list) result" where
  "matched_events old new oldInitTime oldFinalTime oldFirst oldLast newLast st nst w =
     bind_result (if w > 0 then
         bind_result (vec_range (eventTimes old) st (st + w - 1)) (\<lambda>o1.
         bind_result (vec_range (eventTimes new) nst (nst + w - 1)) (\<lambda>n1. Inr (o1, n1)))
       else Inr ([], [])) (\<lambda>(o1, n1).
     bind_result (if w > 0 \<and> st > oldFirst then
         bind_result (vec_at (eventTimes old) (st - 1)) (\<lambda>e. Inr (e # o1, (oldInitTime - 1 / 10 ^ 4) # n1))
       else Inr (o1, n1)) (\<lambda>(o2, n2).
     let oldLastMatched = (st + w = oldLast + 1); newLastMatched = (nst + w = newLast + 1)
     in if oldLastMatched then Inr (o2, n2)
        else if newLastMatched then
          bind_result (vec_at_pred (eventTimes old) (st + w)) (\<lambda>e.
            Inr (o2 @ [e], n2 @ [oldFinalTime + 1 / 10 ^ 4]))
        else
          bind_result (vec_at_pred (eventTimes old) (st + w)) (\<lambda>eo.
          bind_result (vec_at_pred (eventTimes new) (nst + w)) (\<lambda>en.
            if eo < en then Inr (o2 @ [eo], n2 @ [en]) else Inr (o2, n2)))))"

definition erase_index :: "mode_schedule \<Rightarrow> scalar list \<Rightarrow> nat \<Rightarrow> nat \<Rightarrow> nat \<Rightarrow> nat result" where
  "erase_index new oldTimeTrajectory newLast nst w =
     (if w = 0 then Inr 0
      else if nst + w \<noteq> newLast + 1 then
        bind_result (vec_at_pred (eventTimes new) (nst + w)) (\<lambda>e. Inr (lowerBoundIndex oldTimeTrajectory e))
      else Inr (length oldTimeTrajectory))"

definition set_spreading ::
  "mode_schedule \<Rightarrow> mode_schedule \<Rightarrow> scalar list \<Rightarrow> trajectory_spreading \<Rightarrow> trajectory_spreading result" where
  "set_spreading old new oldTimeTrajectory s =
     bind_result (vec_front oldTimeTrajectory) (\<lambda>oldInitTime.
     bind_result (vec_back oldTimeTrajectory) (\<lambda>oldFinalTime.
     let oldFirst = upperBoundIndex (eventTimes old) oldInitTime;
         oldLast = upperBoundIndex (eventTimes old) oldFinalTime;
         newFirst = upperBoundIndex (eventTimes new) oldInitTime;
         newLast = upperBoundIndex (eventTimes new) oldFinalTime
     in bind_result (vec_range (modeSequence new) newFirst (newLast + 1)) (\<lambda>newRange.
        bind_result (match_window (modeSequence old) oldLast newRange oldFirst) (\<lambda>(st, w).
        bind_result (matched_events old new oldInitTime oldFinalTime oldFirst oldLast newLast st newFirst w) (\<lambda>(om, nm).
        if length om \<noteq> length nm then Inl Assertion_Failed
        else bind_result (erase_index new oldTimeTrajectory newLast newFirst w) (\<lambda>erase.
          let keep = (if w > 0 then (st - oldFirst, st - oldFirst + w - 1) else (0, 0))
          in bind_result (computeSpreadingStrategy oldTimeTrajectory om nm
               (s\<lparr>eraseFromIndex := erase, keepEventDataInInterval := keep\<rparr>)) (\<lambda>s1.
             Inr (s1\<lparr>willTruncate := erase < length oldTimeTrajectory,
                     willPerformTrajectorySpreading := spreadingValueIndices s1 \<noteq> []\<rparr>))))))))"

section \<open>Applying the strategy\<close>

definition vec_erase_from :: "'a list \<Rightarrow> nat \<Rightarrow> 'a list result" where
  "vec_erase_from xs i = (if i \<le> length xs then Inr (take i xs) else Inl Undefined)"

definition extractEventsArray :: "trajectory_spreading \<Rightarrow> 'a list \<Rightarrow> 'a list result" where
  "extractEventsArray s array =
     vec_range array (fst (keepEventDataInInterval s)) (snd (keepEventDataInInterval s))"

definition spread_range :: "nat \<Rightarrow> nat \<Rightarrow> 'a \<Rightarrow> 'a list \<Rightarrow> 'a list result" where
  "spread_range b e v xs = fold_result (\<lambda>j xs. vec_set xs j v) [b ..< e] xs"

definition adjustTrajectory :: "trajectory_spreading \<Rightarrow> 'a list \<Rightarrow> 'a list result" where
  "adjustTrajectory s trajectory =
     bind_result (vec_erase_from trajectory (eraseFromIndex s)) (\<lambda>kept.
     bind_result (map_result (vec_at kept) (spreadingValueIndices s)) (\<lambda>spreadingValues.
       fold_result (\<lambda>i. spread_range (beginIndices s ! i) (endIndices s ! i) (spreadingValues ! i))
         [0 ..< length (spreadingValueIndices s)] kept))"

definition adjust_time_step :: "trajectory_spreading \<Rightarrow> nat \<Rightarrow> scalar list \<Rightarrow> scalar list result" where
  "adjust_time_step s i ts =
     (let p = updatedPostEventIndices s ! i; e = updatedMatchedEventTimes s ! i
      in if \<not> p < length ts then Inl Assertion_Failed
         else bind_result (vec_set ts (size_pred p) e) (\<lambda>t1.
              bind_result (vec_back t1) (\<lambda>b. vec_set t1 p (min (e + weakEpsilon) b))))"

definition adjustTimeTrajectory :: "trajectory_spreading \<Rightarrow> scalar list \<Rightarrow> scalar list result" where
  "adjustTimeTrajectory s ts =
     bind_result (vec_erase_from ts (eraseFromIndex s))
       (fold_result (adjust_time_step s) [0 ..< length (updatedPostEventIndices s)])"

end
