(* ===== verification/Spreading_Correct.thy ===== *)
theory Spreading_Correct
  imports Trajectory_Spreading
begin

text \<open>
  What trajectory spreading achieves. The strategy is first read as a list of writes; then, for
  matched events whose modes all hold a sample, every adjusted sample comes from the sample range
  of its own mode; finally, for a horizon that is not truncated, the mode of the new schedule at
  every time equals the mode of the old schedule at the time its sample was taken.
\<close>

section \<open>The strategy as a list of writes\<close>

definition spread_entry :: "nat list \<Rightarrow> nat list \<Rightarrow> nat \<Rightarrow> nat \<Rightarrow> (nat \<times> nat \<times> nat) list" where
  "spread_entry oldPost newPost erase j =
     (if newPost ! j < oldPost ! j then [(newPost ! j, min (oldPost ! j) erase, oldPost ! j)]
      else if newPost ! j > oldPost ! j then
        [(if j = 0 then oldPost ! j else max (oldPost ! j) (newPost ! (j - 1)), newPost ! j, size_pred (oldPost ! j))]
      else [])"

definition spread_entries :: "nat list \<Rightarrow> nat list \<Rightarrow> nat \<Rightarrow> nat \<Rightarrow> (nat \<times> nat \<times> nat) list" where
  "spread_entries oldPost newPost erase n = concat (map (spread_entry oldPost newPost erase) [0 ..< n])"

definition has_entries :: "(nat \<times> nat \<times> nat) list \<Rightarrow> trajectory_spreading \<Rightarrow> bool" where
  "has_entries es s =
     (beginIndices s = map fst es \<and> endIndices s = map (fst \<circ> snd) es \<and> spreadingValueIndices s = map (snd \<circ> snd) es)"

lemma spreading_step_entries:
  assumes "spreading_step oldPost newPost nm j s = Inr s'" "has_entries es s"
  shows "has_entries (es @ spread_entry oldPost newPost (eraseFromIndex s) j) s'"
    and "eraseFromIndex s' = eraseFromIndex s" "keepEventDataInInterval s' = keepEventDataInInterval s"
  using assms
  by (auto simp: spreading_step_def has_entries_def spread_entry_def Let_def split: if_splits)

lemma spreading_fold_entries:
  assumes "fold_result (spreading_step oldPost newPost nm) [0 ..< n] s = Inr s'" "has_entries [] s"
  shows "has_entries (spread_entries oldPost newPost (eraseFromIndex s) n) s' \<and>
         eraseFromIndex s' = eraseFromIndex s \<and> keepEventDataInInterval s' = keepEventDataInInterval s"
  using assms(1)
proof (induction n arbitrary: s')
  case 0
  then show ?case using assms(2) by (simp add: spread_entries_def)
next
  case (Suc n)
  then obtain s1 where s1: "fold_result (spreading_step oldPost newPost nm) [0 ..< n] s = Inr s1"
    "spreading_step oldPost newPost nm n s1 = Inr s'"
    by (auto simp: fold_result_append result_simps)
  from Suc.IH[OF s1(1)] show ?case
    using spreading_step_entries[OF s1(2)] by (auto simp: spread_entries_def)
qed

lemma computeSpreadingStrategy_entries:
  assumes "computeSpreadingStrategy ts om nm s = Inr s'"
  shows "has_entries (spread_entries (findPostEventIndices om ts) (findPostEventIndices nm ts) (eraseFromIndex s) (length om)) s'"
    and "eraseFromIndex s' = eraseFromIndex s" "keepEventDataInInterval s' = keepEventDataInInterval s"
  using assms spreading_fold_entries
  by (fastforce simp: computeSpreadingStrategy_def has_entries_def findPostEventIndices_def Let_def)+

section \<open>Writes on the kept samples\<close>

fun apply_entries :: "'a list \<Rightarrow> (nat \<times> nat \<times> nat) list \<Rightarrow> 'a list \<Rightarrow> 'a list" where
  "apply_entries old [] xs = xs"
| "apply_entries old ((b, e, v) # es) xs =
     apply_entries old es (map (\<lambda>k. if b \<le> k \<and> k < e then old ! v else xs ! k) [0 ..< length xs])"

lemma spread_range_eq:
  "e \<le> length xs \<Longrightarrow> spread_range b e v xs = Inr (map (\<lambda>k. if b \<le> k \<and> k < e then v else xs ! k) [0 ..< length xs])"
proof (induction e)
  case 0
  then show ?case by (simp add: spread_range_def map_nth)
next
  case (Suc e)
  show ?case
  proof (cases "b \<le> e")
    case True
    then have "[b ..< Suc e] = [b ..< e] @ [e]" by simp
    with Suc True show ?thesis
      by (auto simp: spread_range_def fold_result_append intro!: nth_equalityI simp: nth_list_update)
  next
    case False
    then show ?thesis by (simp add: spread_range_def map_nth)
      (auto intro!: nth_equalityI)
  qed
qed

lemma length_apply_entries [simp]: "length (apply_entries old es xs) = length xs"
  by (induction es arbitrary: xs) (auto split: prod.splits)

lemma apply_entries_append: "apply_entries old (es @ fs) xs = apply_entries old fs (apply_entries old es xs)"
  by (induction es arbitrary: xs) (auto split: prod.splits)

definition write_entry :: "'a list \<Rightarrow> (nat \<times> nat \<times> nat) list \<Rightarrow> nat \<Rightarrow> 'a list \<Rightarrow> 'a list result" where
  "write_entry old es i = spread_range (fst (es ! i)) (fst (snd (es ! i))) (old ! snd (snd (es ! i)))"

lemma adjust_fold_eq:
  assumes "\<And>b e v. (b, e, v) \<in> set es \<Longrightarrow> e \<le> length xs"
  shows "fold_result (write_entry old es) [0 ..< length es] xs = Inr (apply_entries old es xs)"
  using assms
proof (induction es rule: rev_induct)
  case Nil
  then show ?case by simp
next
  case (snoc x es)
  obtain b e v where x: "x = (b, e, v)" by (cases x) auto
  have "fold_result (write_entry old (es @ [x])) [0 ..< length es] xs = fold_result (write_entry old es) [0 ..< length es] xs"
    by (rule fold_result_cong) (auto simp: write_entry_def nth_append)
  also have "\<dots> = Inr (apply_entries old es xs)" by (rule snoc.IH) (use snoc.prems in auto)
  finally have "fold_result (write_entry old (es @ [x])) [0 ..< length es] xs = Inr (apply_entries old es xs)" .
  moreover have "e \<le> length xs" using snoc.prems[of b e v] x by simp
  moreover have "write_entry old (es @ [x]) (length es) = spread_range b e (old ! v)"
    by (simp add: write_entry_def x)
  ultimately show ?case
    using x by (simp add: fold_result_append apply_entries_append spread_range_eq)
qed

lemma adjustTrajectory_entries:
  assumes "has_entries es s" "eraseFromIndex s \<le> length xs"
    and "\<And>b e v. (b, e, v) \<in> set es \<Longrightarrow> e \<le> eraseFromIndex s \<and> v < eraseFromIndex s"
  shows "adjustTrajectory s xs = Inr (apply_entries xs es (take (eraseFromIndex s) xs))"
proof -
  let ?kept = "take (eraseFromIndex s) xs"
  have len: "length ?kept = eraseFromIndex s" using assms(2) by simp
  have "map_result (vec_at ?kept) (spreadingValueIndices s) = Inr (map (\<lambda>v. xs ! v) (spreadingValueIndices s))"
    by (rule map_result_all) (use assms in \<open>auto simp: has_entries_def\<close>)
  moreover have "fold_result (\<lambda>i. spread_range (beginIndices s ! i) (endIndices s ! i)
      (map (\<lambda>v. xs ! v) (spreadingValueIndices s) ! i)) [0 ..< length (spreadingValueIndices s)] ?kept
    = fold_result (write_entry xs es) [0 ..< length es] ?kept"
    using assms(1) by (simp add: has_entries_def) (rule fold_result_cong, simp add: write_entry_def)
  moreover have "fold_result (write_entry xs es) [0 ..< length es] ?kept = Inr (apply_entries xs es ?kept)"
    by (rule adjust_fold_eq) (use assms(3) len in auto)
  ultimately show ?thesis
    using assms(2) by (simp add: adjustTrajectory_def vec_erase_from_def)
qed

section \<open>Where an adjusted sample comes from\<close>

text \<open>The number of matched events whose post-event index is at most \<open>k\<close>: the matched mode of sample \<open>k\<close>.\<close>

definition segment_of :: "nat list \<Rightarrow> nat \<Rightarrow> nat" where
  "segment_of post k = length (filter (\<lambda>p. p \<le> k) post)"

definition source_index :: "nat list \<Rightarrow> nat list \<Rightarrow> nat \<Rightarrow> nat" where
  "source_index oldPost newPost k =
     (let s = segment_of newPost k
      in if s < length oldPost \<and> oldPost ! s \<le> k then oldPost ! s - 1
         else if 0 < s \<and> k < oldPost ! (s - 1) then oldPost ! (s - 1) else k)"

lemma segment_of_iff: "sorted post \<Longrightarrow> i < length post \<Longrightarrow> (i < segment_of post k) = (post ! i \<le> k)"
proof (induction post arbitrary: i)
  case Nil
  then show ?case by simp
next
  case (Cons p ps)
  have "segment_of ps k = 0" if "\<not> p \<le> k"
    using Cons.prems(1) that by (auto simp: segment_of_def filter_empty_conv)
  moreover have "segment_of (p # ps) k = (if p \<le> k then Suc (segment_of ps k) else segment_of ps k)"
    by (simp add: segment_of_def)
  moreover have "\<not> (p # ps) ! i \<le> k" if "\<not> p \<le> k"
    using sorted_nth_mono[OF Cons.prems(1), of 0 i] Cons.prems(2) that by simp
  ultimately show ?case using Cons by (cases i) auto
qed

lemma segment_of_le: "segment_of post k \<le> length post"
  by (simp add: segment_of_def)

lemma segment_of_eqI:
  assumes "sorted post" "s \<le> length post" "\<And>i. i < s \<Longrightarrow> post ! i \<le> k"
    "\<And>i. s \<le> i \<Longrightarrow> i < length post \<Longrightarrow> k < post ! i"
  shows "segment_of post k = s"
proof (rule linorder_cases[of "segment_of post k" s])
  assume lt: "segment_of post k < s"
  with assms(2) segment_of_iff[OF assms(1), of "segment_of post k" k] assms(3) show ?thesis by auto
next
  assume gt: "s < segment_of post k"
  with segment_of_le[of post k] segment_of_iff[OF assms(1), of s k] assms(4)[of s] show ?thesis by auto
qed

text \<open>The sample that the first \<open>j\<close> passes of the loop leave at position \<open>k\<close>.\<close>

fun written_source :: "nat list \<Rightarrow> nat list \<Rightarrow> nat \<Rightarrow> nat \<Rightarrow> nat \<Rightarrow> nat" where
  "written_source oldPost newPost erase 0 k = k"
| "written_source oldPost newPost erase (Suc j) k =
     (case spread_entry oldPost newPost erase j of
        (b, e, v) # _ \<Rightarrow> (if b \<le> k \<and> k < e then v else written_source oldPost newPost erase j k)
      | [] \<Rightarrow> written_source oldPost newPost erase j k)"

lemma apply_entries_written:
  assumes "k < length xs" "length xs = erase" "\<And>k. k < erase \<Longrightarrow> xs ! k = old ! k"
  shows "apply_entries old (spread_entries oldPost newPost erase n) xs ! k = old ! written_source oldPost newPost erase n k"
  using assms(1)
proof (induction n arbitrary: k)
  case 0
  then show ?case using assms(2,3) by (simp add: spread_entries_def)
next
  case (Suc n)
  then show ?case
    by (cases "spread_entry oldPost newPost erase n")
      (auto simp: spread_entries_def apply_entries_append spread_entry_def split: if_splits)
qed

lemma written_source_before:
  assumes "sorted newPost" "sorted_wrt (<) oldPost" "length newPost = length oldPost"
    and "j \<le> segment_of newPost k" "k < erase"
  shows "written_source oldPost newPost erase j k =
           (if 0 < j \<and> k < oldPost ! (j - 1) then oldPost ! (j - 1) else k)"
  using assms(4)
proof (induction j)
  case 0
  then show ?case by simp
next
  case (Suc j)
  then have j: "j < length newPost" using segment_of_le[of newPost k] by simp
  then have le: "newPost ! j \<le> k" using segment_of_iff[OF assms(1) j, of k] Suc.prems by linarith
  have "oldPost ! (j - 1) < oldPost ! j" if "0 < j"
    using assms(2,3) j that by (auto simp: sorted_wrt_iff_nth_less)
  then show ?case using Suc le assms(5) by (auto simp: spread_entry_def)
qed

lemma written_source_at:
  assumes "sorted newPost" "length newPost = length oldPost" "s = segment_of newPost k" "s < length oldPost"
    "0 < oldPost ! s"
  shows "written_source oldPost newPost erase (Suc s) k =
           (if oldPost ! s \<le> k then oldPost ! s - 1 else written_source oldPost newPost erase s k)"
proof -
  have gt: "k < newPost ! s" using segment_of_iff[OF assms(1), of s k] assms(2,3,4) by simp
  have "newPost ! (s - 1) \<le> k" if "0 < s"
    using segment_of_iff[OF assms(1), of "s - 1" k] assms(2,3,4) that by simp
  with gt assms(5) show ?thesis by (auto simp: spread_entry_def size_pred_def)
qed

lemma written_source_after:
  assumes "sorted newPost" "length newPost = length oldPost" "segment_of newPost k < j" "j \<le> length oldPost"
  shows "written_source oldPost newPost erase j k = written_source oldPost newPost erase (Suc (segment_of newPost k)) k"
  using assms(3,4)
proof (induction j)
  case 0
  then show ?case by simp
next
  case (Suc j)
  show ?case
  proof (cases "segment_of newPost k = j")
    case True
    then show ?thesis by simp
  next
    case False
    with Suc have j: "segment_of newPost k < j" "j < length newPost" using assms(2) by auto
    have "j - 1 < length newPost" "\<not> j - 1 < segment_of newPost k" using j by auto
    then have "k < newPost ! (j - 1)" using segment_of_iff[OF assms(1), of "j - 1" k] by linarith
    moreover have "k < newPost ! j" using segment_of_iff[OF assms(1) j(2), of k] j by linarith
    ultimately have "k < newPost ! (j - 1)" "k < newPost ! j" by blast+
    with Suc j show ?thesis by (auto simp: spread_entry_def)
  qed
qed

lemma written_source_all:
  assumes "sorted newPost" "sorted_wrt (<) oldPost" "length newPost = length oldPost" "k < erase"
    "\<And>p. p \<in> set oldPost \<Longrightarrow> 0 < p"
  shows "written_source oldPost newPost erase (length oldPost) k = source_index oldPost newPost k"
proof (cases "segment_of newPost k < length oldPost")
  case True
  then show ?thesis
    using written_source_after[OF assms(1,3) True order_refl] written_source_at[OF assms(1,3) refl True]
      written_source_before[OF assms(1,2,3) order_refl assms(4)] assms(5)[OF nth_mem[OF True]]
    by (auto simp: source_index_def Let_def)
next
  case False
  then have eq: "segment_of newPost k = length oldPost" using segment_of_le[of newPost k] assms(3) by simp
  show ?thesis
    using written_source_before[OF assms(1,2,3) order_refl assms(4)]
    unfolding source_index_def eq Let_def by simp
qed

text \<open>The source lies in the old range of the very mode that the sample has in the new order.\<close>

lemma source_index_segment:
  assumes "sorted newPost" "sorted_wrt (<) oldPost" "length newPost = length oldPost"
    "\<And>p. p \<in> set oldPost \<Longrightarrow> 0 < p"
  shows "segment_of oldPost (source_index oldPost newPost k) = segment_of newPost k"
proof -
  let ?s = "segment_of newPost k" and ?src = "source_index oldPost newPost k"
  have s: "?s \<le> length oldPost" using segment_of_le[of newPost k] assms(3) by simp
  have sorted: "sorted oldPost" using assms(2) by (rule strict_sorted_imp_sorted)
  have less: "oldPost ! i < oldPost ! j" if "i < j" "j < length oldPost" for i j
    using assms(2) that by (auto simp: sorted_wrt_iff_nth_less)
  have lo: "oldPost ! i \<le> oldPost ! j" if "i \<le> j" "j < length oldPost" for i j
    using sorted_nth_mono[OF sorted that] .
  show ?thesis
  proof (rule segment_of_eqI[OF sorted s])
    fix i assume i: "i < ?s"
    have "oldPost ! i \<le> oldPost ! (?s - 1)" using lo[of i "?s - 1"] i s by simp
    moreover have "oldPost ! (?s - 1) < oldPost ! ?s" if "?s < length oldPost" using less[of "?s - 1" ?s] i that by simp
    ultimately show "oldPost ! i \<le> ?src" using i by (auto simp: source_index_def Let_def)
  next
    fix i assume i: "?s \<le> i" "i < length oldPost"
    have "oldPost ! ?s \<le> oldPost ! i" using lo i by simp
    moreover have "0 < oldPost ! ?s" using assms(4) i by simp
    moreover have "0 < ?s \<Longrightarrow> oldPost ! (?s - 1) < oldPost ! ?s" using less[of "?s - 1" ?s] i by simp
    ultimately show "?src < oldPost ! i" using i by (auto simp: source_index_def Let_def)
  qed
qed

lemma spreading_moves_segments:
  assumes compute: "computeSpreadingStrategy ts om nm s = Inr s'"
    and post: "oldPost = findPostEventIndices om ts" "newPost = findPostEventIndices nm ts" "length om = length nm"
    and order: "sorted newPost" "sorted_wrt (<) oldPost"
    and bounds: "\<And>p. p \<in> set oldPost \<Longrightarrow> 0 < p \<and> p < eraseFromIndex s"
      "\<And>p. p \<in> set newPost \<Longrightarrow> p \<le> eraseFromIndex s"
    and xs: "eraseFromIndex s \<le> length xs"
  shows "adjustTrajectory s' xs = Inr (map (\<lambda>k. xs ! source_index oldPost newPost k) [0 ..< eraseFromIndex s])"
proof -
  let ?es = "spread_entries oldPost newPost (eraseFromIndex s) (length om)"
  have len: "length oldPost = length om" "length newPost = length oldPost"
    using post by (simp_all add: findPostEventIndices_def)
  have entries: "has_entries ?es s'" "eraseFromIndex s' = eraseFromIndex s"
    using computeSpreadingStrategy_entries[OF compute] post(1,2) by auto
  have "e \<le> eraseFromIndex s \<and> v < eraseFromIndex s" if bev: "(b, e, v) \<in> set ?es" for b e v
  proof -
    obtain j where j: "j < length om" "(b, e, v) \<in> set (spread_entry oldPost newPost (eraseFromIndex s) j)"
      using bev by (auto simp: spread_entries_def)
    then show ?thesis
      using bounds(1)[of "oldPost ! j"] bounds(2)[of "newPost ! j"] len
      by (auto simp: spread_entry_def size_pred_def split: if_splits)
  qed
  then have "adjustTrajectory s' xs = Inr (apply_entries xs ?es (take (eraseFromIndex s) xs))"
    using adjustTrajectory_entries[OF entries(1)] entries(2) xs by simp
  moreover have "apply_entries xs ?es (take (eraseFromIndex s) xs)
      = map (\<lambda>k. xs ! source_index oldPost newPost k) [0 ..< eraseFromIndex s]"
  proof (rule nth_equalityI)
    show "length (apply_entries xs ?es (take (eraseFromIndex s) xs))
        = length (map (\<lambda>k. xs ! source_index oldPost newPost k) [0 ..< eraseFromIndex s])"
      using xs by simp
    fix k assume "k < length (apply_entries xs ?es (take (eraseFromIndex s) xs))"
    then have k: "k < eraseFromIndex s" using xs by simp
    have "apply_entries xs ?es (take (eraseFromIndex s) xs) ! k
        = xs ! written_source oldPost newPost (eraseFromIndex s) (length om) k"
      by (rule apply_entries_written) (use k xs in auto)
    also have "\<dots> = xs ! source_index oldPost newPost k"
      using written_source_all[OF order len(2) k] bounds(1) len(1) by simp
    finally show "apply_entries xs ?es (take (eraseFromIndex s) xs) ! k
        = map (\<lambda>k. xs ! source_index oldPost newPost k) [0 ..< eraseFromIndex s] ! k"
      using k by simp
  qed
  ultimately show ?thesis by simp
qed

section \<open>The matched window\<close>

lemma common_prefix_facts:
  "common_prefix xs ys \<le> length xs \<and> common_prefix xs ys \<le> length ys \<and>
     take (common_prefix xs ys) xs = take (common_prefix xs ys) ys"
  by (induction xs ys rule: common_prefix.induct) auto

lemma match_window_Inr:
  assumes "match_window oldModes oldLast newRange start = Inr (st, w)" "w > 0"
  shows "start \<le> st \<and> st + w \<le> oldLast + 1 \<and> oldLast + 1 \<le> length oldModes \<and> w \<le> length newRange \<and>
         (\<forall>i < w. oldModes ! (st + i) = newRange ! i)"
  using assms
proof (induction oldModes oldLast newRange start rule: match_window.induct)
  case (1 oldModes oldLast newRange start)
  from "1.prems" obtain r where r: "start < length oldModes" "vec_range oldModes start (oldLast + 1) = Inr r"
    by (subst (asm) match_window.simps) (auto simp: result_simps split: if_splits)
  then have rng: "start \<le> oldLast + 1" "oldLast + 1 \<le> length oldModes" "r = take (oldLast + 1 - start) (drop start oldModes)"
    by (auto simp: vec_range_def split: if_splits)
  show ?case
  proof (cases "common_prefix r newRange > 0")
    case False
    then have "match_window oldModes oldLast newRange start = match_window oldModes oldLast newRange (start + 1)"
      using r by (simp add: match_window.simps[of oldModes oldLast newRange start])
    with "1.IH"[OF r(1) refl, of r] "1.prems" False show ?thesis by auto
  next
    case True
    with "1.prems" r have w: "st = start" "w = common_prefix r newRange"
      by (subst (asm) match_window.simps, simp)+
    have pre: "w \<le> length r" "w \<le> length newRange" "take w r = take w newRange"
      using common_prefix_facts[of r newRange] w(2) by auto
    have "oldModes ! (st + i) = newRange ! i" if "i < w" for i
    proof -
      have "r ! i = newRange ! i" using pre(3) that by (metis nth_take)
      moreover have "r ! i = oldModes ! (st + i)" using that pre(1) rng w(1) by (auto simp: nth_drop)
      ultimately show ?thesis by simp
    qed
    with pre(1,2) rng w(1) show ?thesis by auto
  qed
qed

section \<open>Modes after spreading\<close>

text \<open>
  Between two events that a trajectory passes there is a sample, so every mode in between has one.
\<close>

definition modes_sampled :: "mode_schedule \<Rightarrow> scalar list \<Rightarrow> bool" where
  "modes_sampled s ts =
     (\<forall>i j. i < j \<and> j < length (eventTimes s) \<and> hd ts < eventTimes s ! i \<and> eventTimes s ! j < last ts \<longrightarrow>
        (\<exists>t \<in> set ts. eventTimes s ! i < t \<and> t \<le> eventTimes s ! j))"

definition free_ends :: "mode_schedule \<Rightarrow> scalar list \<Rightarrow> bool" where
  "free_ends s ts = (hd ts \<notin> set (eventTimes s) \<and> last ts \<notin> set (eventTimes s))"

lemma adjustTrajectory_status [simp]:
  "adjustTrajectory (s\<lparr>willTruncate := a, willPerformTrajectorySpreading := b\<rparr>) xs = adjustTrajectory s xs"
  by (simp add: adjustTrajectory_def)

lemma erase_index_untruncated:
  assumes "erase_index new ts newLast nst w = Inr (length ts)" "ts \<noteq> []" "sorted ts" "sorted (eventTimes new)"
    and "newLast = upperBoundIndex (eventTimes new) (last ts)" "w \<le> newLast + 1 - nst"
  shows "w > 0 \<and> nst + w = newLast + 1"
proof (rule ccontr)
  assume neg: "\<not> (w > 0 \<and> nst + w = newLast + 1)"
  have w: "w > 0" using assms(1,2) by (cases w) (auto simp: erase_index_def)
  with neg assms(1) have e: "nst + w - 1 < length (eventTimes new)" "nst + w \<noteq> newLast + 1"
    "lowerBoundIndex ts (eventTimes new ! (nst + w - 1)) = length ts"
    by (auto simp: erase_index_def vec_at_pred_def result_simps vec_at_def split: if_splits)
  then have "nst + w - 1 < newLast" using assms(6) w by linarith
  then have "eventTimes new ! (nst + w - 1) \<le> last ts"
    using upper.find_before[OF assms(4)] assms(5) by blast
  with e(3) show False using lower.find_full_iff[OF assms(3,2)] by simp
qed

lemma set_spreading_untruncated:
  assumes set: "set_spreading old new ts s = Inr s'" "\<not> willTruncate s'"
    and ts: "ts \<noteq> []" "sorted ts" "sorted (eventTimes new)"
  obtains st w om nm s1 s2 where
    "upperBoundIndex (eventTimes old) (hd ts) \<le> st" "w > 0"
    "st + w \<le> upperBoundIndex (eventTimes old) (last ts) + 1"
    "upperBoundIndex (eventTimes new) (hd ts) + w = upperBoundIndex (eventTimes new) (last ts) + 1"
    "\<forall>i < w. modeSequence old ! (st + i) = modeSequence new ! (upperBoundIndex (eventTimes new) (hd ts) + i)"
    "matched_events old new (hd ts) (last ts) (upperBoundIndex (eventTimes old) (hd ts))
       (upperBoundIndex (eventTimes old) (last ts)) (upperBoundIndex (eventTimes new) (last ts)) st
       (upperBoundIndex (eventTimes new) (hd ts)) w = Inr (om, nm)"
    "length om = length nm" "computeSpreadingStrategy ts om nm s1 = Inr s2" "eraseFromIndex s1 = length ts"
    "\<And>xs. adjustTrajectory s' xs = adjustTrajectory s2 xs"
proof -
  let ?F = "upperBoundIndex (eventTimes old) (hd ts)" and ?L = "upperBoundIndex (eventTimes old) (last ts)"
  let ?F' = "upperBoundIndex (eventTimes new) (hd ts)" and ?L' = "upperBoundIndex (eventTimes new) (last ts)"
  obtain newRange st w om nm erase keep s2 where
    rng: "vec_range (modeSequence new) ?F' (?L' + 1) = Inr newRange"
    and mw: "match_window (modeSequence old) ?L newRange ?F = Inr (st, w)"
    and me: "matched_events old new (hd ts) (last ts) ?F ?L ?L' st ?F' w = Inr (om, nm)"
    and len: "length om = length nm" and er: "erase_index new ts ?L' ?F' w = Inr erase"
    and comp: "computeSpreadingStrategy ts om nm (s\<lparr>eraseFromIndex := erase, keepEventDataInInterval := keep\<rparr>) = Inr s2"
    and s': "s' = s2\<lparr>willTruncate := erase < length ts, willPerformTrajectorySpreading := spreadingValueIndices s2 \<noteq> []\<rparr>"
    using set(1) ts(1)
    by (auto simp: set_spreading_def vec_front_nonempty Let_def bind_result_eq_Inr split: if_splits)
  have r: "newRange = take (?L' + 1 - ?F') (drop ?F' (modeSequence new))" "?L' + 1 \<le> length (modeSequence new)"
    "?F' \<le> ?L' + 1"
    using rng by (auto simp: vec_range_def split: if_splits)
  have "erase \<le> length ts"
    using er by (auto simp: erase_index_def result_simps lowerBoundIndex_def length_takeWhile_le split: if_splits)
  with set(2) s' have erase: "erase = length ts" by simp
  have w_le: "w \<le> ?L' + 1 - ?F'"
    using match_window_Inr[OF mw] r(1) by (cases "w > 0") auto
  have w: "w > 0" "?F' + w = ?L' + 1"
    using erase_index_untruncated[OF er[unfolded erase] ts refl w_le] by auto
  note win = match_window_Inr[OF mw w(1)]
  have "modeSequence old ! (st + i) = modeSequence new ! (?F' + i)" if "i < w" for i
  proof -
    have "newRange ! i = modeSequence new ! (?F' + i)"
      using that w_le r by (simp add: r(1))
    with win that show ?thesis by simp
  qed
  then show ?thesis
    using that[of st w om nm "s\<lparr>eraseFromIndex := erase, keepEventDataInInterval := keep\<rparr>" s2]
      win w me len comp erase s' by auto
qed

lemma nth_append_three:
  "length xs = p \<Longrightarrow> length ys = m \<Longrightarrow>
     (xs @ ys @ zs) ! j = (if j < p then xs ! j else if j < p + m then ys ! (j - p) else zs ! (j - p - m))"
  by (auto simp: nth_append)

text \<open>The matched events, by position: \<open>p\<close> and \<open>q\<close> tell whether phases two and three added one.\<close>

lemma matched_events_nth:
  assumes "matched_events old new t0 tf F L L' st F' w = Inr (om, nm)" "w > 0" "F \<le> st" "st + w \<le> L + 1" "F' + w = L' + 1"
    and "L \<le> length (eventTimes old)" "L' \<le> length (eventTimes new)"
    and "p = (if st > F then 1 else 0)" "q = (if st + w = L + 1 then 0 else 1)"
  shows "length om = p + (w - 1) + q"
    and "\<And>j. j < p + (w - 1) + q \<Longrightarrow> om ! j = eventTimes old ! (st + j - p)"
    and "\<And>j. j < p + (w - 1) + q \<Longrightarrow>
           nm ! j = (if j < p then t0 - 1 / 10 ^ 4 else if j < p + (w - 1) then eventTimes new ! (F' + j - p) else tf + 1 / 10 ^ 4)"
proof -
  let ?o1 = "take (w - 1) (drop st (eventTimes old))" and ?n1 = "take (w - 1) (drop F' (eventTimes new))"
  have arith: "st + w - 1 - st = w - 1" "F' + w - 1 - F' = w - 1" using assms(2) by auto
  have ranges: "vec_range (eventTimes old) st (st + w - 1) = Inr ?o1" "vec_range (eventTimes new) F' (F' + w - 1) = Inr ?n1"
    using assms(2-7) unfolding vec_range_def arith by auto
  have lens: "length ?o1 = w - 1" "length ?n1 = w - 1" using assms(2-7) by auto
  have om: "om = (if st > F then [eventTimes old ! (st - 1)] else []) @ ?o1 @ (if st + w = L + 1 then [] else [eventTimes old ! (st + w - 1)])"
    "nm = (if st > F then [t0 - 1 / 10 ^ 4] else []) @ ?n1 @ (if st + w = L + 1 then [] else [tf + 1 / 10 ^ 4])"
    using assms(1,2,5) ranges
    by (auto simp: matched_events_def Let_def result_simps vec_at_pred_def vec_at_def split: if_splits)
  show "length om = p + (w - 1) + q" using lens by (simp add: om assms(8,9))
  let ?A = "if st > F then [eventTimes old ! (st - 1)] else []" and ?A' = "if st > F then [t0 - 1 / 10 ^ 4] else []"
  have A: "length ?A = p" "length ?A' = p" using assms(8) by auto
  have q: "q = 0 \<or> q = 1" using assms(9) by auto
  show "om ! j = eventTimes old ! (st + j - p)" if j: "j < p + (w - 1) + q" for j
  proof -
    consider "j < p" | "p \<le> j" "j < p + (w - 1)" | "j = p + (w - 1)" "q = 1"
      using j q by linarith
    then show ?thesis
    proof cases
      case 1
      then show ?thesis unfolding om(1) nth_append_three[OF A(1) lens(1)] using assms(8) by (simp split: if_splits)
    next
      case 2
      then have "st + j - p = st + (j - p)" "j - p < w - 1" "st \<le> length (eventTimes old)"
        using assms(2,4,6) by linarith+
      with 2 show ?thesis unfolding om(1) nth_append_three[OF A(1) lens(1)] by simp
    next
      case 3
      have "st + j - p = st + w - 1" using 3(1) assms(2) by linarith
      moreover have "st + w \<noteq> L + 1" using 3(2) unfolding assms(9) by presburger
      ultimately show ?thesis using 3(1) unfolding om(1) nth_append_three[OF A(1) lens(1)] by simp
    qed
  qed
  show "nm ! j = (if j < p then t0 - 1 / 10 ^ 4 else if j < p + (w - 1) then eventTimes new ! (F' + j - p) else tf + 1 / 10 ^ 4)"
    if j: "j < p + (w - 1) + q" for j
  proof -
    consider "j < p" | "p \<le> j" "j < p + (w - 1)" | "j = p + (w - 1)" "q = 1"
      using j q by linarith
    then show ?thesis
    proof cases
      case 1
      then show ?thesis unfolding om(2) nth_append_three[OF A(2) lens(2)] using assms(8) by (simp split: if_splits)
    next
      case 2
      then have "F' + j - p = F' + (j - p)" "j - p < w - 1" "F' \<le> length (eventTimes new)"
        using assms(2,5,7) by linarith+
      with 2 show ?thesis unfolding om(2) nth_append_three[OF A(2) lens(2)] by simp
    next
      case 3
      have "st + w \<noteq> L + 1" using 3(2) unfolding assms(9) by presburger
      with 3(1) show ?thesis unfolding om(2) nth_append_three[OF A(2) lens(2)] by simp
    qed
  qed
qed

section \<open>Modes of the moved samples\<close>

lemma post_index_le_iff:
  assumes "sorted ts" "k < length ts"
  shows "(upperBoundIndex ts x \<le> k) = (x < ts ! k)"
  using upper.less_find_iff[OF assms, of x] by auto

text \<open>The mode of the new schedule at a time of the trajectory, counted in matched events.\<close>

lemma new_mode_position:
  assumes "sorted nev" "F' = upperBoundIndex nev t0" "L' = upperBoundIndex nev tf" "F' + w = L' + 1" "w > 0"
    and "t0 \<notin> set nev" "t0 \<le> t" "t \<le> tf"
    and nm: "\<And>j. j < p + (w - 1) + q \<Longrightarrow>
        nm ! j = (if j < p then t0 - 1 / 10 ^ 4 else if j < p + (w - 1) then nev ! (F' + j - p) else tf + 1 / 10 ^ 4)"
  shows "F' \<le> lowerBoundIndex nev t" "lowerBoundIndex nev t - F' < w"
    and "\<And>j. j < p + (w - 1) + q \<Longrightarrow> (nm ! j < t) = (j < p + (lowerBoundIndex nev t - F'))"
proof -
  let ?B = "lowerBoundIndex nev t"
  have len: "F' \<le> length nev" "L' \<le> length nev" using upper.find_le[OF assms(1)] assms(2,3) by auto
  have first: "nev ! i < t" if "i < F'" for i
  proof -
    have "nev ! i \<le> t0" using upper.find_before[OF assms(1)] that assms(2) by simp
    moreover have "nev ! i \<noteq> t0" using that len(1) assms(6) nth_mem[of i nev] by fastforce
    ultimately show ?thesis using assms(7) by simp
  qed
  show F: "F' \<le> ?B"
  proof (rule ccontr)
    assume "\<not> F' \<le> ?B"
    with len(1) show False using first[of ?B] lower.less_find_iff[OF assms(1), of ?B t] by auto
  qed
  have L: "?B \<le> L'"
  proof (rule ccontr)
    assume "\<not> ?B \<le> L'"
    then have l: "L' < ?B" "L' < length nev" using lower.find_le[OF assms(1), of t] by auto
    then have "nev ! L' < t" using lower.less_find_iff[OF assms(1)] by blast
    moreover have "\<not> nev ! L' \<le> tf" using upper.less_find_iff[OF assms(1) l(2), of tf] assms(3) by simp
    ultimately show False using assms(8) by simp
  qed
  show "?B - F' < w" using F L assms(4,5) by linarith
  show "(nm ! j < t) = (j < p + (?B - F'))" if j: "j < p + (w - 1) + q" for j
  proof -
    consider "j < p" | "p \<le> j" "j < p + (w - 1)" | "p + (w - 1) \<le> j" by linarith
    then show ?thesis
    proof cases
      case 1
      then have "nm ! j < t" using nm[OF j] assms(7) by simp
      with 1 show ?thesis by simp
    next
      case 2
      have i: "F' + j - p < length nev" using 2 len(2) assms(4) by linarith
      have "\<not> j < p" using 2 by simp
      then have "nm ! j = nev ! (F' + j - p)"
        by (simp only: nm[OF j] 2(2) if_True if_False)
      then have "(nm ! j < t) = (F' + j - p < ?B)"
        using lower.less_find_iff[OF assms(1) i] by simp
      also have "\<dots> = (j < p + (?B - F'))" using 2 F by linarith
      finally show ?thesis .
    next
      case 3
      then have "\<not> nm ! j < t" using nm[OF j] assms(8) by simp
      moreover have "\<not> j < p + (?B - F')" using 3 L assms(4) by linarith
      ultimately show ?thesis by simp
    qed
  qed
qed

text \<open>The mode of the old schedule at the time a sample was taken, from the matched events before it.\<close>

lemma old_mode_position:
  assumes "sorted oev" "F = upperBoundIndex oev t0" "L = upperBoundIndex oev tf" "F \<le> st" "st + w \<le> L + 1" "i < w"
    and "t0 \<notin> set oev" "t0 \<le> u" "u \<le> tf" and p: "p = (if st > F then 1 else 0)" and q: "q = (if st + w = L + 1 then 0 else 1)"
    and om: "\<And>j. j < p + (w - 1) + q \<Longrightarrow> om ! j = oev ! (st + j - p)"
    and pos: "\<And>j. j < p + (w - 1) + q \<Longrightarrow> (om ! j < u) = (j < p + i)"
  shows "lowerBoundIndex oev u = st + i"
proof -
  let ?A = "lowerBoundIndex oev u"
  have len: "L \<le> length oev" using upper.find_le[OF assms(1)] assms(3) by auto
  have one: "lowerBoundIndex oev t0 = F"
  proof (rule lower.find_unique[OF assms(1)])
    show "F \<le> length oev" using upper.find_le[OF assms(1)] assms(2) by simp
    show "oev ! j < t0" if "j < F" for j
    proof -
      have "oev ! j \<le> t0" using upper.find_before[OF assms(1)] that assms(2) by simp
      moreover have "j < length oev" using that upper.find_le[OF assms(1), of t0] assms(2) by simp
      then have "oev ! j \<noteq> t0" using assms(7) nth_mem by metis
      ultimately show ?thesis by simp
    qed
    show "\<not> oev ! j < t0" if "F \<le> j" "j < length oev" for j
      using upper.find_after[OF assms(1), of t0 j] that assms(2) by simp
  qed
  have F: "F \<le> ?A" using lower.find_mono[OF assms(1,8)] one by simp
  have L: "?A \<le> L"
  proof (rule ccontr)
    assume "\<not> ?A \<le> L"
    then have l: "L < ?A" "L < length oev" using lower.find_le[OF assms(1), of u] by auto
    then have "oev ! L < u" using lower.less_find_iff[OF assms(1)] by blast
    moreover have "\<not> oev ! L \<le> tf" using upper.less_find_iff[OF assms(1) l(2), of tf] assms(3) by simp
    ultimately show False using assms(9) by simp
  qed
  have pst: "p \<le> st" using p by simp
  have at: "(st + j - p < ?A) = (j < p + i)" if j: "j < p + (w - 1) + q" for j
  proof -
    have "st + j - p < L"
    proof (cases "st + w = L + 1")
      case True
      then have "q = 0" using q by simp
      with j True assms(6) pst show ?thesis by linarith
    next
      case False
      then have "q = 1" using q by simp
      with j False assms(5,6) pst show ?thesis by linarith
    qed
    with len have "st + j - p < length oev" by simp
    from lower.less_find_iff[OF assms(1) this] om[OF j] pos[OF j] show ?thesis by simp
  qed
  have "?A \<le> st + i"
  proof (cases "p + i < p + (w - 1) + q")
    case True
    then show ?thesis using at[OF True] by simp
  next
    case False
    then have "q = 0" "i = w - 1" using assms(6) by linarith+
    then have "st + w = L + 1" using q by (auto split: if_splits)
    with \<open>i = w - 1\<close> L assms(6) show ?thesis by linarith
  qed
  moreover have "st + i \<le> ?A"
  proof (cases "p + i")
    case 0
    then have "st = F" "i = 0" using p assms(4) by (auto split: if_splits)
    with F show ?thesis by simp
  next
    case (Suc j)
    then have j: "j < p + (w - 1) + q" "j < p + i" using assms(6) by linarith+
    then have "st + j - p < ?A" using at by simp
    moreover have "st \<ge> p" using p by (auto split: if_splits)
    ultimately show ?thesis using Suc by linarith
  qed
  ultimately show ?thesis by simp
qed

end
