(* ===== verification/Spreading_Modes.thy ===== *)
theory Spreading_Modes
  imports Spreading_Correct
begin

text \<open>
  The contract of trajectory spreading between two mode schedules, on a horizon that the new
  schedule does not truncate, and the schedules on which \<open>TrajectorySpreading::set\<close> and
  \<open>adjustTrajectory\<close> leave their vectors.
\<close>

section \<open>Post-event indices of the matched events\<close>

lemma findPostEventIndices_upper:
  assumes "\<And>e. e \<in> set ev \<Longrightarrow> e \<noteq> last ts"
  shows "findPostEventIndices ev ts = map (upperBoundIndex ts) ev"
proof -
  have "ev ! i \<noteq> last ts" if "i < length ev" for i using assms nth_mem[OF that] by metis
  then show ?thesis
    unfolding findPostEventIndices_def by (intro nth_equalityI) auto
qed

lemma sampled_post_less:
  assumes "sorted ts" "t \<in> set ts" "a < t" "t \<le> b"
  shows "upperBoundIndex ts a < upperBoundIndex ts b"
proof -
  obtain m where m: "m < length ts" "t = ts ! m" using assms(2) by (auto simp: in_set_conv_nth)
  have "upperBoundIndex ts a \<le> m" using post_index_le_iff[OF assms(1) m(1)] assms(3) m(2) by simp
  moreover have "m < upperBoundIndex ts b" using upper.less_find_iff[OF assms(1) m(1)] assms(4) m(2) by simp
  ultimately show ?thesis by simp
qed

lemma inside_event:
  assumes "sorted ev" "upperBoundIndex ev t0 \<le> i" "i < upperBoundIndex ev tf" "tf \<notin> set ev"
  shows "i < length ev \<and> t0 < ev ! i \<and> ev ! i < tf"
proof -
  have i: "i < length ev" using assms(3) upper.find_le[OF assms(1), of tf] by simp
  have "t0 < ev ! i" using upper.find_after[OF assms(1,2) i] by simp
  moreover have "ev ! i \<le> tf" by (rule upper.find_before[OF assms(1,3)])
  moreover have "ev ! i \<noteq> tf" using nth_mem[OF i] assms(4) by metis
  ultimately show ?thesis using i by simp
qed

text \<open>Facts on the matched events that the strategy needs, for events strictly inside the horizon.\<close>

lemma source_index_less:
  assumes "k < n" "\<And>p. p \<in> set oldPost \<Longrightarrow> p < n" "length newPost = length oldPost"
  shows "source_index oldPost newPost k < n"
proof -
  have le: "segment_of newPost k \<le> length oldPost" using segment_of_le[of newPost k] assms(3) by simp
  show ?thesis
  proof (cases "segment_of newPost k < length oldPost")
    case True
    then have "oldPost ! segment_of newPost k < n" by (rule assms(2)[OF nth_mem])
    moreover have "0 < segment_of newPost k \<Longrightarrow> oldPost ! (segment_of newPost k - 1) < n"
      using True by (intro assms(2)[OF nth_mem]) simp
    ultimately show ?thesis using assms(1) by (auto simp: source_index_def Let_def)
  next
    case False
    then have "0 < segment_of newPost k \<Longrightarrow> oldPost ! (segment_of newPost k - 1) < n"
      using le by (intro assms(2)[OF nth_mem]) simp
    then show ?thesis using assms(1) False by (auto simp: source_index_def Let_def)
  qed
qed

lemma new_matched_sorted:
  fixes nm :: "scalar list"
  assumes len: "length nm = p + m + q"
    and nm: "\<And>j. j < p + m + q \<Longrightarrow>
        nm ! j = (if j < p then t0 - 1 / 10 ^ 4 else if j < p + m then nev ! (F' + j - p) else tf + 1 / 10 ^ 4)"
    and inside: "\<And>i. F' \<le> i \<Longrightarrow> i < F' + m \<Longrightarrow> i < length nev \<and> t0 < nev ! i \<and> nev ! i < tf"
    and "sorted nev" "t0 \<le> tf"
  shows "sorted nm" "tf \<notin> set nm"
proof -
  have mid: "F' + j - p < length nev \<and> t0 < nev ! (F' + j - p) \<and> nev ! (F' + j - p) < tf"
    if "p \<le> j" "j < p + m" for j
    using inside[of "F' + j - p"] that by fastforce
  have val: "(j < p \<and> nm ! j = t0 - 1 / 10 ^ 4) \<or>
      (p \<le> j \<and> j < p + m \<and> nm ! j = nev ! (F' + j - p)) \<or> (p + m \<le> j \<and> nm ! j = tf + 1 / 10 ^ 4)"
    if "j < p + m + q" for j
    unfolding nm[OF that] by auto
  have outer: "t0 - 1 / 10 ^ 4 \<le> nm ! j \<and> nm ! j \<le> tf + 1 / 10 ^ 4" if j: "j < p + m + q" for j
    using val[OF j]
  proof (elim disjE conjE)
    assume "p \<le> j" "j < p + m" "nm ! j = nev ! (F' + j - p)"
    with mid[of j] show ?thesis by simp
  qed (use assms(5) in simp_all)
  have "nm ! i \<le> nm ! j" if ij: "i \<le> j" "j < length nm" for i j
  proof -
    have n: "i < p + m + q" "j < p + m + q" using ij len by auto
    consider "i < p" | "p + m \<le> j" | "p \<le> i" "j < p + m" by linarith
    then show ?thesis
    proof cases
      case 1
      with val[OF n(1)] outer[OF n(2)] show ?thesis by auto
    next
      case 2
      with val[OF n(2)] outer[OF n(1)] show ?thesis by auto
    next
      case 3
      then have "nev ! (F' + i - p) \<le> nev ! (F' + j - p)"
        using mid[of j] ij by (intro sorted_nth_mono[OF assms(4)]) auto
      with 3 ij(1) val[OF n(1)] val[OF n(2)] show ?thesis by auto
    qed
  qed
  then show "sorted nm" by (simp add: sorted_iff_nth_mono)
  show "tf \<notin> set nm"
  proof
    assume "tf \<in> set nm"
    then obtain j where j: "j < length nm" "nm ! j = tf" by (auto simp: in_set_conv_nth)
    then show False using val[of j] mid[of j] len assms(5) by auto
  qed
qed

section \<open>The contract\<close>

lemma matched_window_spreads:
  assumes old: "sorted (eventTimes old)" "free_ends old ts" "modes_sampled old ts"
    and new: "sorted (eventTimes new)" "free_ends new ts" and ts: "sorted ts" "ts \<noteq> []"
    and F: "F = upperBoundIndex (eventTimes old) (hd ts)" "L = upperBoundIndex (eventTimes old) (last ts)"
    and F': "F' = upperBoundIndex (eventTimes new) (hd ts)" "L' = upperBoundIndex (eventTimes new) (last ts)"
    and win: "F \<le> st" "w > 0" "st + w \<le> L + 1" "F' + w = L' + 1"
    and me: "matched_events old new (hd ts) (last ts) F L L' st F' w = Inr (om, nm)"
    and compute: "computeSpreadingStrategy ts om nm s1 = Inr s2" "eraseFromIndex s1 = length ts"
  shows "\<exists>src. (\<forall>xs :: 'x list. length xs = length ts \<longrightarrow>
              adjustTrajectory s2 xs = Inr (map (\<lambda>k. xs ! src k) [0 ..< length ts])) \<and>
           (\<forall>k < length ts. src k < length ts \<and>
              lowerBoundIndex (eventTimes new) (ts ! k) - F' < w \<and> F' \<le> lowerBoundIndex (eventTimes new) (ts ! k) \<and>
              lowerBoundIndex (eventTimes old) (ts ! src k) = st + (lowerBoundIndex (eventTimes new) (ts ! k) - F'))"
proof -
  let ?oev = "eventTimes old" and ?nev = "eventTimes new" and ?t0 = "hd ts" and ?tf = "last ts"
  define p where "p = (if st > F then 1 else 0 :: nat)"
  define q where "q = (if st + w = L + 1 then 0 else 1 :: nat)"
  have ends: "?t0 \<notin> set ?oev" "?tf \<notin> set ?oev" "?t0 \<notin> set ?nev" "?tf \<notin> set ?nev"
    using old(2) new(2) by (auto simp: free_ends_def)
  have le: "L \<le> length ?oev" "L' \<le> length ?nev" using upper.find_le[OF old(1)] upper.find_le[OF new(1)] F(2) F'(2) by auto
  note me' = matched_events_nth[OF me win(2,1,3,4) le p_def q_def]
  have t0f: "?t0 \<le> ?tf" using sorted_last_ge[OF ts(1), of "hd ts"] ts(2) by simp
  have lens: "length om = length nm" "length nm = p + (w - 1) + q"
  proof -
    show "length om = length nm" using me by (auto simp: matched_events_def Let_def result_simps vec_range_def vec_at_pred_def vec_at_def split: if_splits)
    then show "length nm = p + (w - 1) + q" using me'(1) by simp
  qed
  have inL: "F \<le> st + j - p \<and> st + j - p < L" if "j < p + (w - 1) + q" for j
    using that win p_def q_def by (auto split: if_splits)
  have om_in: "st + j - p < length ?oev \<and> ?t0 < om ! j \<and> om ! j < ?tf" if "j < p + (w - 1) + q" for j
    using inside_event[OF old(1), of ?t0 "st + j - p" ?tf] inL[OF that] me'(2)[OF that] ends(2) F by simp
  have newin: "i < length ?nev \<and> ?t0 < ?nev ! i \<and> ?nev ! i < ?tf" if "F' \<le> i" "i < F' + (w - 1)" for i
    using inside_event[OF new(1), of ?t0 i ?tf] that ends(4) F' win(4) by simp
  have nms: "sorted nm" by (rule new_matched_sorted(1)[OF lens(2) me'(3) newin new(1) t0f])
  have nm_tf: "?tf \<notin> set nm" by (rule new_matched_sorted(2)[OF lens(2) me'(3) newin new(1) t0f])
  have posts: "findPostEventIndices om ts = map (upperBoundIndex ts) om" "findPostEventIndices nm ts = map (upperBoundIndex ts) nm"
  proof -
    have "e \<noteq> ?tf" if "e \<in> set om" for e
      using that om_in lens by (force simp: in_set_conv_nth)
    then show "findPostEventIndices om ts = map (upperBoundIndex ts) om" by (rule findPostEventIndices_upper)
    show "findPostEventIndices nm ts = map (upperBoundIndex ts) nm" using nm_tf by (intro findPostEventIndices_upper) auto
  qed
  let ?op = "map (upperBoundIndex ts) om" and ?np = "map (upperBoundIndex ts) nm"
  have np_sorted: "sorted ?np"
    using nms upper.find_mono[OF ts(1)] by (auto simp: sorted_iff_nth_mono)
  have op_less: "upperBoundIndex ts (om ! i) < upperBoundIndex ts (om ! j)" if ij: "i < j" "j < p + (w - 1) + q" for i j
  proof -
    have i: "i < p + (w - 1) + q" using ij by simp
    have "st + i - p < st + j - p" using ij inL p_def win(1) by (auto split: if_splits)
    moreover have "?t0 < ?oev ! (st + i - p)" using om_in[OF i] me'(2)[OF i] by simp
    moreover have "?oev ! (st + j - p) < ?tf" "st + j - p < length ?oev" using om_in[OF ij(2)] me'(2)[OF ij(2)] by auto
    ultimately obtain t where t: "t \<in> set ts" "?oev ! (st + i - p) < t" "t \<le> ?oev ! (st + j - p)"
      using old(3) unfolding modes_sampled_def by blast
    then show ?thesis
      using sampled_post_less[OF ts(1), of t "om ! i" "om ! j"] me'(2)[OF i] me'(2)[OF ij(2)] by simp
  qed
  have op_sorted: "sorted_wrt (<) ?op" using op_less lens by (simp add: sorted_wrt_iff_nth_less)
  have op_bounds: "0 < x \<and> x < length ts" if x: "x \<in> set ?op" for x
  proof -
    obtain j where j: "j < p + (w - 1) + q" "x = upperBoundIndex ts (om ! j)" using x lens by (auto simp: in_set_conv_nth)
    have "x \<noteq> 0" using upper.find_zero_iff[OF ts(1), of "om ! j"] om_in[OF j(1)] ts(2) j(2) by simp
    moreover have "x \<noteq> length ts" using upper.find_full_iff[OF ts, of "om ! j"] om_in[OF j(1)] j(2) by simp
    moreover have "x \<le> length ts" using upper.find_le[OF ts(1)] j(2) by simp
    ultimately show ?thesis by simp
  qed
  have adj: "adjustTrajectory s2 xs = Inr (map (\<lambda>k. xs ! source_index ?op ?np k) [0 ..< length ts])"
    if xs: "length xs = length ts" for xs :: "'x list"
    using spreading_moves_segments[OF compute(1) posts[symmetric] lens(1) np_sorted op_sorted, of xs]
      op_bounds upper.find_le[OF ts(1)] compute(2) xs by auto
  have "source_index ?op ?np k < length ts \<and> lowerBoundIndex ?nev (ts ! k) - F' < w \<and> F' \<le> lowerBoundIndex ?nev (ts ! k) \<and>
      lowerBoundIndex ?oev (ts ! source_index ?op ?np k) = st + (lowerBoundIndex ?nev (ts ! k) - F')"
    if k: "k < length ts" for k
  proof -
    let ?src = "source_index ?op ?np k"
    have src: "?src < length ts" by (rule source_index_less[OF k]) (use op_bounds lens in auto)
    have range: "?t0 \<le> ts ! m" "ts ! m \<le> ?tf" if "m < length ts" for m
      using sorted_hd_le[OF ts(1)] sorted_last_ge[OF ts(1)] nth_mem[OF that] by auto
    have np1: "F' \<le> lowerBoundIndex ?nev (ts ! k)"
      by (rule new_mode_position(1)[OF new(1) F' win(4,2) ends(3) range[OF k] me'(3)])
    have np2: "lowerBoundIndex ?nev (ts ! k) - F' < w"
      by (rule new_mode_position(2)[OF new(1) F' win(4,2) ends(3) range[OF k] me'(3)])
    have np3: "(nm ! j < ts ! k) = (j < p + (lowerBoundIndex ?nev (ts ! k) - F'))" if "j < p + (w - 1) + q" for j
      by (rule new_mode_position(3)[OF new(1) F' win(4,2) ends(3) range[OF k] me'(3) that])
    have seg: "segment_of ?np k = p + (lowerBoundIndex ?nev (ts ! k) - F')"
    proof (rule segment_of_eqI[OF np_sorted])
      show bnd: "p + (lowerBoundIndex ?nev (ts ! k) - F') \<le> length ?np" using np2 lens by simp
      show "?np ! i \<le> k" if "i < p + (lowerBoundIndex ?nev (ts ! k) - F')" for i
        using np3[of i] that bnd lens post_index_le_iff[OF ts(1) k] by simp
      show "k < ?np ! i" if "p + (lowerBoundIndex ?nev (ts ! k) - F') \<le> i" "i < length ?np" for i
        using np3[of i] that lens post_index_le_iff[OF ts(1) k, of "nm ! i"] by simp
    qed
    have seg_src: "segment_of ?op ?src = segment_of ?np k"
      by (rule source_index_segment[OF np_sorted op_sorted]) (use lens op_bounds in auto)
    have "(om ! j < ts ! ?src) = (j < p + (lowerBoundIndex ?nev (ts ! k) - F'))" if j: "j < p + (w - 1) + q" for j
      using segment_of_iff[OF strict_sorted_imp_sorted[OF op_sorted], of j ?src] j lens seg seg_src
        post_index_le_iff[OF ts(1) src, of "om ! j"] by simp
    from old_mode_position[OF old(1) F win(1,3) np2 ends(1) range[OF src] p_def q_def me'(2) this]
    show ?thesis using src np1 np2 by simp
  qed
  with adj show ?thesis by blast
qed

lemma spreading_keeps_modes:
  assumes "valid_schedule old" "valid_schedule new" "sorted ts" "ts \<noteq> []"
    and "free_ends old ts" "free_ends new ts" "modes_sampled old ts"
    and "set_spreading old new ts s = Inr s'" "\<not> willTruncate s'"
  shows "\<exists>src. (\<forall>xs :: 'x list. length xs = length ts \<longrightarrow>
             adjustTrajectory s' xs = Inr (map (\<lambda>k. xs ! src k) [0 ..< length ts])) \<and>
           (\<forall>k < length ts. src k < length ts \<and> modeAtTime new (ts ! k) = modeAtTime old (ts ! src k))"
proof -
  have ev: "sorted (eventTimes old)" "sorted (eventTimes new)" using assms(1,2) by (auto simp: valid_schedule_def)
  obtain st w om nm s1 s2 where win: "upperBoundIndex (eventTimes old) (hd ts) \<le> st" "w > 0"
      "st + w \<le> upperBoundIndex (eventTimes old) (last ts) + 1"
      "upperBoundIndex (eventTimes new) (hd ts) + w = upperBoundIndex (eventTimes new) (last ts) + 1"
    and modes: "\<forall>i < w. modeSequence old ! (st + i) = modeSequence new ! (upperBoundIndex (eventTimes new) (hd ts) + i)"
    and me: "matched_events old new (hd ts) (last ts) (upperBoundIndex (eventTimes old) (hd ts))
       (upperBoundIndex (eventTimes old) (last ts)) (upperBoundIndex (eventTimes new) (last ts)) st
       (upperBoundIndex (eventTimes new) (hd ts)) w = Inr (om, nm)"
    and comp: "computeSpreadingStrategy ts om nm s1 = Inr s2" "eraseFromIndex s1 = length ts"
    and adj: "\<And>xs. adjustTrajectory s' xs = adjustTrajectory s2 (xs :: 'x list)"
    by (rule set_spreading_untruncated[OF assms(8,9,4,3) ev(2)]) (rule that)
  from matched_window_spreads[OF ev(1) assms(5,7) ev(2) assms(6,3,4) refl refl refl refl win me comp, where 'x = 'x]
  obtain src where src: "\<And>xs :: 'x list. length xs = length ts \<Longrightarrow> adjustTrajectory s2 xs = Inr (map (\<lambda>k. xs ! src k) [0 ..< length ts])"
    and pos: "\<And>k. k < length ts \<Longrightarrow> src k < length ts \<and>
              lowerBoundIndex (eventTimes new) (ts ! k) - upperBoundIndex (eventTimes new) (hd ts) < w \<and>
              upperBoundIndex (eventTimes new) (hd ts) \<le> lowerBoundIndex (eventTimes new) (ts ! k) \<and>
              lowerBoundIndex (eventTimes old) (ts ! src k)
                = st + (lowerBoundIndex (eventTimes new) (ts ! k) - upperBoundIndex (eventTimes new) (hd ts))"
    by blast
  have "modeAtTime new (ts ! k) = modeAtTime old (ts ! src k)" if k: "k < length ts" for k
    using pos[OF k] modes[rule_format, of "lowerBoundIndex (eventTimes new) (ts ! k) - upperBoundIndex (eventTimes new) (hd ts)"]
    by (simp add: modeAtTime_valid assms(1,2))
  with src pos adj show ?thesis by (intro exI[of _ src]) auto
qed

text \<open>
  C1. Trajectory spreading keeps modes: let both schedules be valid, let no event coincide with the
  first or the last time of the trajectory and let the trajectory have a sample between any two old
  events it passes. If \<open>set\<close> succeeds and does not truncate the horizon, then \<open>adjustTrajectory\<close> succeeds on
  every trajectory of the same length, keeps its length, and every sample of the result is a sample of
  the input taken at a time whose mode under the old schedule is the mode of the new schedule at the
  time it now stands for.
\<close>

theorem spreading_preserves_modes:
  fixes xs :: "'x list"
  assumes "valid_schedule old" "valid_schedule new" "sorted ts" "ts \<noteq> []"
    and "free_ends old ts" "free_ends new ts" "modes_sampled old ts"
    and "set_spreading old new ts s = Inr s'" "\<not> willTruncate s'" "length xs = length ts"
  shows "\<exists>src. adjustTrajectory s' xs = Inr (map (\<lambda>k. xs ! src k) [0 ..< length ts]) \<and>
           (\<forall>k < length ts. src k < length ts \<and> modeAtTime new (ts ! k) = modeAtTime old (ts ! src k))"
  using spreading_keeps_modes[OF assms(1-9)] assms(10) by blast

section \<open>Evaluating the strategy\<close>

lemmas spreading_eval =
  set_spreading_def new_TrajectorySpreading_def vec_front_nonempty vec_back_nonempty upperBoundIndex_def
  lowerBoundIndex_def vec_range_def match_window.simps matched_events_def vec_at_def vec_at_pred_def
  erase_index_def computeSpreadingStrategy_def findPostEventIndices_def spreading_step_def size_pred_def
  adjustTrajectory_def vec_erase_from_def spread_range_def vec_set_def

theorem spreading_preserves_modes_witness:
  "\<exists>s'. set_spreading \<lparr>eventTimes = [2], modeSequence = [7, 8]\<rparr> \<lparr>eventTimes = [4], modeSequence = [7, 8]\<rparr>
         [0, 1, 3, 5, 6] (new_TrajectorySpreading 0 (0, 0)) = Inr s' \<and> \<not> willTruncate s' \<and>
        (\<exists>src. adjustTrajectory s' [10, 11, 13, 15, 16 :: nat] = Inr (map (\<lambda>k. [10, 11, 13, 15, 16] ! src k) [0 ..< 5]) \<and>
           modeAtTime \<lparr>eventTimes = [4], modeSequence = [7, 8]\<rparr> 3
             = modeAtTime \<lparr>eventTimes = [2], modeSequence = [7, 8]\<rparr> ([0, 1, 3, 5, 6] ! src 2))"
proof -
  let ?old = "\<lparr>eventTimes = [2], modeSequence = [7, 8]\<rparr>" and ?new = "\<lparr>eventTimes = [4], modeSequence = [7, 8]\<rparr>"
  let ?ts = "[0, 1, 3, 5, 6] :: scalar list" and ?s = "new_TrajectorySpreading 0 (0, 0)"
  obtain s' where s': "set_spreading ?old ?new ?ts ?s = Inr s'" "\<not> willTruncate s'"
    by (simp add: spreading_eval)
  have h: "valid_schedule ?old" "valid_schedule ?new" "free_ends ?old ?ts" "free_ends ?new ?ts" "modes_sampled ?old ?ts"
    by (auto simp: valid_schedule_def free_ends_def modes_sampled_def)
  have "\<exists>src. adjustTrajectory s' [10, 11, 13, 15, 16 :: nat] = Inr (map (\<lambda>k. [10, 11, 13, 15, 16] ! src k) [0 ..< length ?ts]) \<and>
      (\<forall>k < length ?ts. src k < length ?ts \<and> modeAtTime ?new (?ts ! k) = modeAtTime ?old (?ts ! src k))"
    by (rule spreading_preserves_modes[OF h(1,2) _ _ h(3-5) s']) simp_all
  then obtain src where src: "adjustTrajectory s' [10, 11, 13, 15, 16 :: nat] = Inr (map (\<lambda>k. [10, 11, 13, 15, 16] ! src k) [0 ..< length ?ts])"
      "\<And>k. k < length ?ts \<Longrightarrow> modeAtTime ?new (?ts ! k) = modeAtTime ?old (?ts ! src k)"
    by blast
  have "modeAtTime ?new 3 = modeAtTime ?old (?ts ! src 2)" using src(2)[of 2] by simp
  moreover have len: "length ?ts = 5" by simp
  ultimately show ?thesis using s' src(1) unfolding len by blast
qed

text \<open>
  Two situations in which trajectory spreading reads outside a vector, each on valid schedules. When
  no active mode of the new schedule starts an agreement with the old one and the old schedule has a
  further event after the horizon, \<open>set\<close> leaves the vector of old event times. When the new
  schedule truncates the horizon, \<open>set\<close> succeeds but \<open>adjustTrajectory\<close> reads a value behind
  the position from which it has just erased.
\<close>

theorem spreading_out_of_bounds:
  "set_spreading \<lparr>eventTimes = [1], modeSequence = [0, 1]\<rparr> \<lparr>eventTimes = [], modeSequence = [2]\<rparr>
     [0, 1 / 2] s = Inl Undefined \<and>
   (\<exists>s'. set_spreading \<lparr>eventTimes = [5], modeSequence = [0, 1]\<rparr> \<lparr>eventTimes = [1, 3], modeSequence = [0, 1, 2]\<rparr>
        [0, 1, 2, 3, 4, 5, 6] s = Inr s' \<and> adjustTrajectory s' [0, 1, 2, 3, 4, 5, 6 :: nat] = Inl Undefined)"
  by (simp add: spreading_eval numeral_eq_Suc)

end
