(* ===== verification/Controllers.thy ===== *)
theory Controllers
  imports Linear_Interpolation
begin

text \<open>
  \<open>core/ocs2_core/control\<close>: the feedforward, the linear and the state based controller, with their
  evaluation, concatenation and the flattening to arrays of \<open>float\<close> for transmission. The conversion
  from \<open>double\<close> to \<open>float\<close> is the argument \<open>fl\<close> of the functions that use it.
\<close>

section \<open>Matrices\<close>

text \<open>A matrix is the list of its rows.\<close>

type_synonym matrix_t = "scalar list list"

definition mat_cols :: "matrix_t \<Rightarrow> nat" where
  "mat_cols m = (case m of [] \<Rightarrow> 0 | r # _ \<Rightarrow> length r)"

definition mat_ok :: "nat \<Rightarrow> nat \<Rightarrow> matrix_t \<Rightarrow> bool" where
  "mat_ok n m a = (length a = n \<and> (\<forall>r \<in> set a. length r = m))"

definition mat_vec :: "matrix_t \<Rightarrow> vector_t \<Rightarrow> vector_t" where
  "mat_vec a x = map (\<lambda>r. sum_list (map2 (*) r x)) a"

definition areSameSize_matrix :: "matrix_t \<Rightarrow> matrix_t \<Rightarrow> bool" where
  "areSameSize_matrix lhs rhs = (map length lhs = map length rhs)"

definition combine_matrix :: "scalar \<Rightarrow> matrix_t \<Rightarrow> matrix_t \<Rightarrow> matrix_t" where
  "combine_matrix alpha lhs rhs = map2 (combine_vector alpha) lhs rhs"

lemma combine_matrix_ends:
  "map length l = map length r \<Longrightarrow> combine_matrix 1 l r = l \<and> combine_matrix 0 l r = r"
proof (induction l arbitrary: r)
  case Nil
  then show ?case by (simp add: combine_matrix_def)
next
  case (Cons x l)
  then obtain y s where r: "r = y # s" "length x = length y" "map length l = map length s"
    by (cases r) auto
  with Cons.IH[of s] show ?case by (simp add: combine_matrix_def)
qed

interpretation matrices: interpolator areSameSize_matrix combine_matrix
  by unfold_locales (auto simp: areSameSize_matrix_def dest: combine_matrix_ends sym)

definition interpolate_matrix :: "scalar \<Rightarrow> scalar list \<Rightarrow> matrix_t list \<Rightarrow> matrix_t result" where
  "interpolate_matrix t timeArray dataArray =
     interpolate_at areSameSize_matrix combine_matrix t timeArray dataArray (\<lambda>d. d)"

section \<open>The feedforward controller\<close>

text \<open>The sub-range \<open>[begin + i, begin + j)\<close> for \<open>int\<close> offsets.\<close>

definition vec_range_int :: "'a list \<Rightarrow> int \<Rightarrow> int \<Rightarrow> 'a list result" where
  "vec_range_int xs i j = (if 0 \<le> i \<and> 0 \<le> j then vec_range xs (nat i) (nat j) else Inl Undefined)"

lemma vec_range_int_eq [result_simps]:
  "(vec_range_int xs i j = Inr ys) =
     (0 \<le> i \<and> i \<le> j \<and> j \<le> int (length xs) \<and> ys = take (nat (j - i)) (drop (nat i) xs))"
  by (auto simp: vec_range_int_def vec_range_def nat_diff_distrib)

record feedforward_controller =
  ff_timeStamp :: "scalar list"
  ff_uffArray :: "vector_t list"

definition FeedforwardController ::
  "(scalar \<Rightarrow> vector_t \<Rightarrow> vector_t result) \<Rightarrow> scalar list \<Rightarrow> vector_t list \<Rightarrow> feedforward_controller result" where
  "FeedforwardController computeInput controllerTime stateTrajectory =
     (if length controllerTime \<noteq> length stateTrajectory then
        Inl (Runtime_Error ''FeedforwardController Constructor: controllerTime and stateTrajectory sizes mismatch.'')
      else bind_result (map_result (\<lambda>(t, x). computeInput t x) (zip controllerTime stateTrajectory))
        (\<lambda>us. Inr \<lparr>ff_timeStamp = controllerTime, ff_uffArray = us\<rparr>))"

definition ff_setController :: "scalar list \<Rightarrow> vector_t list \<Rightarrow> feedforward_controller \<Rightarrow> feedforward_controller" where
  "ff_setController controllerTime controllerFeedforward c =
     c\<lparr>ff_timeStamp := controllerTime, ff_uffArray := controllerFeedforward\<rparr>"

definition ff_computeInput :: "feedforward_controller \<Rightarrow> scalar \<Rightarrow> vector_t \<Rightarrow> vector_t result" where
  "ff_computeInput c t x = interpolate_vector t (ff_timeStamp c) (ff_uffArray c)"

definition ff_flattenSingle :: "(scalar \<Rightarrow> scalar) \<Rightarrow> feedforward_controller \<Rightarrow> scalar \<Rightarrow> scalar list result" where
  "ff_flattenSingle fl c time =
     bind_result (interpolate_vector time (ff_timeStamp c) (ff_uffArray c)) (\<lambda>uff. Inr (map fl uff))"

definition ff_flatten :: "(scalar \<Rightarrow> scalar) \<Rightarrow> feedforward_controller \<Rightarrow> scalar list \<Rightarrow> nat \<Rightarrow> scalar list list result" where
  "ff_flatten fl c timeArray dataSize =
     (if length timeArray \<noteq> dataSize then
        Inl (Runtime_Error ''timeSize and dataSize must be equal in flatten method.'')
      else map_result (ff_flattenSingle fl c) timeArray)"

definition ff_unFlatten :: "scalar list \<Rightarrow> scalar list list \<Rightarrow> feedforward_controller" where
  "ff_unFlatten timeArray flatArray2 = \<lparr>ff_timeStamp = timeArray, ff_uffArray = flatArray2\<rparr>"

definition ff_concatenate ::
  "feedforward_controller \<Rightarrow> feedforward_controller \<Rightarrow> int \<Rightarrow> int \<Rightarrow> feedforward_controller result" where
  "ff_concatenate c n index len =
     bind_result (if ff_timeStamp c \<noteq> [] then
         bind_result (vec_front (ff_timeStamp n)) (\<lambda>f.
           require (\<not> last (ff_timeStamp c) > f)
             (Runtime_Error ''Concatenate requires that the nextController comes later in time.''))
       else Inr ()) (\<lambda>_.
     let last = index + len
     in bind_result (vec_range_int (ff_timeStamp n) index last) (\<lambda>ts.
        bind_result (vec_range_int (ff_uffArray n) index last) (\<lambda>us.
          Inr (c\<lparr>ff_timeStamp := ff_timeStamp c @ ts, ff_uffArray := ff_uffArray c @ us\<rparr>))))"

definition ff_size :: "feedforward_controller \<Rightarrow> int" where
  "ff_size c = int (length (ff_timeStamp c))"

definition ff_clear :: "feedforward_controller \<Rightarrow> feedforward_controller" where
  "ff_clear c = c\<lparr>ff_timeStamp := [], ff_uffArray := []\<rparr>"

definition ff_empty :: "feedforward_controller \<Rightarrow> bool" where
  "ff_empty c = (ff_timeStamp c = [])"

definition ff_swap :: "feedforward_controller \<Rightarrow> feedforward_controller \<Rightarrow> feedforward_controller \<times> feedforward_controller" where
  "ff_swap a b =
     (a\<lparr>ff_timeStamp := ff_timeStamp b, ff_uffArray := ff_uffArray b\<rparr>,
      b\<lparr>ff_timeStamp := ff_timeStamp a, ff_uffArray := ff_uffArray a\<rparr>)"

section \<open>The linear controller\<close>

record linear_controller =
  lc_timeStamp :: "scalar list"
  lc_biasArray :: "vector_t list"
  lc_deltaBiasArray :: "vector_t list"
  lc_gainArray :: "matrix_t list"

definition LinearController :: "scalar list \<Rightarrow> vector_t list \<Rightarrow> matrix_t list \<Rightarrow> linear_controller" where
  "LinearController controllerTime controllerBias controllerGain =
     \<lparr>lc_timeStamp = controllerTime, lc_biasArray = controllerBias, lc_deltaBiasArray = [],
      lc_gainArray = controllerGain\<rparr>"

definition copy_LinearController :: "linear_controller \<Rightarrow> linear_controller" where
  "copy_LinearController other =
     (LinearController (lc_timeStamp other) (lc_biasArray other) (lc_gainArray other))
       \<lparr>lc_deltaBiasArray := lc_deltaBiasArray other\<rparr>"

definition lc_setController ::
  "scalar list \<Rightarrow> vector_t list \<Rightarrow> matrix_t list \<Rightarrow> linear_controller \<Rightarrow> linear_controller" where
  "lc_setController controllerTime controllerBias controllerGain c =
     c\<lparr>lc_timeStamp := controllerTime, lc_biasArray := controllerBias, lc_gainArray := controllerGain\<rparr>"

text \<open>\<open>uff.noalias() += k * x\<close>; Eigen asserts that the dimensions agree.\<close>

definition add_product :: "vector_t \<Rightarrow> matrix_t \<Rightarrow> vector_t \<Rightarrow> vector_t result" where
  "add_product uff k x =
     (if (k \<noteq> [] \<and> mat_cols k \<noteq> length x) \<or> length k \<noteq> length uff then Inl Assertion_Failed
      else Inr (map2 (+) uff (mat_vec k x)))"

definition lc_computeInput :: "linear_controller \<Rightarrow> scalar \<Rightarrow> vector_t \<Rightarrow> vector_t result" where
  "lc_computeInput c t x =
     bind_result (timeSegment t (lc_timeStamp c)) (\<lambda>indexAlpha.
     bind_result (interpolate areSameSize_vector combine_vector indexAlpha (lc_biasArray c) (\<lambda>d. d)) (\<lambda>uff.
     bind_result (interpolate areSameSize_matrix combine_matrix indexAlpha (lc_gainArray c) (\<lambda>d. d)) (\<lambda>k.
       add_product uff k x)))"

text \<open>
  The row-wise layout \<open>uff[0], k[0,:], uff[1], k[1,:], ...\<close>; the array has \<open>uff.size() + k.size()\<close>
  entries, so a longer \<open>uff\<close> leaves zeros at its end and a shorter one trips Eigen's index assertion.
\<close>

definition flat_rows :: "(scalar \<Rightarrow> scalar) \<Rightarrow> vector_t \<Rightarrow> matrix_t \<Rightarrow> scalar list result" where
  "flat_rows fl uff k =
     (if length uff < length k then Inl Assertion_Failed
      else Inr (concat (map2 (\<lambda>u r. fl u # map fl r) (take (length k) uff) k) @ replicate (length uff - length k) 0))"

definition lc_flattenSingle :: "(scalar \<Rightarrow> scalar) \<Rightarrow> linear_controller \<Rightarrow> scalar \<Rightarrow> scalar list result" where
  "lc_flattenSingle fl c time =
     bind_result (timeSegment time (lc_timeStamp c)) (\<lambda>indexAlpha.
     bind_result (interpolate areSameSize_vector combine_vector indexAlpha (lc_biasArray c) (\<lambda>d. d)) (\<lambda>uff.
     bind_result (interpolate areSameSize_matrix combine_matrix indexAlpha (lc_gainArray c) (\<lambda>d. d)) (\<lambda>k.
       flat_rows fl uff k)))"

definition lc_flatten :: "(scalar \<Rightarrow> scalar) \<Rightarrow> linear_controller \<Rightarrow> scalar list \<Rightarrow> nat \<Rightarrow> scalar list list result" where
  "lc_flatten fl c timeArray dataSize =
     (if length timeArray \<noteq> dataSize then
        Inl (Runtime_Error ''timeSize and dataSize must be equal in flatten method.'')
      else map_result (lc_flattenSingle fl c) timeArray)"

definition unflat_row :: "nat \<Rightarrow> scalar list \<Rightarrow> nat \<Rightarrow> scalar \<times> scalar list" where
  "unflat_row stateDim arr i =
     (arr ! (i * (stateDim + 1)), take stateDim (drop (i * (stateDim + 1) + 1) arr))"

definition unflat_single :: "nat list \<Rightarrow> nat list \<Rightarrow> scalar list list \<Rightarrow> nat \<Rightarrow> (vector_t \<times> matrix_t) result" where
  "unflat_single stateDim inputDim flatArray2 k =
     bind_result (vec_at flatArray2 k) (\<lambda>arr.
     bind_result (vec_at inputDim k) (\<lambda>m.
     bind_result (vec_at stateDim k) (\<lambda>n.
       if length arr \<noteq> m + m * n then
         Inl (Runtime_Error ''LinearController::unFlatten received array of wrong length.'')
       else Inr (map (fst \<circ> unflat_row n arr) [0 ..< m], map (snd \<circ> unflat_row n arr) [0 ..< m]))))"

definition lc_unFlatten ::
  "nat list \<Rightarrow> nat list \<Rightarrow> scalar list \<Rightarrow> scalar list list \<Rightarrow> linear_controller result" where
  "lc_unFlatten stateDim inputDim timeArray flatArray2 =
     bind_result (map_result (unflat_single stateDim inputDim flatArray2) [0 ..< length timeArray]) (\<lambda>bg.
       Inr (LinearController timeArray (map fst bg) (map snd bg)))"

definition lc_concatenate :: "linear_controller \<Rightarrow> linear_controller \<Rightarrow> int \<Rightarrow> int \<Rightarrow> linear_controller result" where
  "lc_concatenate c n index len =
     bind_result (if lc_timeStamp c \<noteq> [] then
         bind_result (vec_front (lc_timeStamp n)) (\<lambda>f.
           require (\<not> last (lc_timeStamp c) > f)
             (Runtime_Error ''Concatenate requires that the nextController comes later in time.''))
       else Inr ()) (\<lambda>_.
     let last = index + len
     in bind_result (vec_range_int (lc_timeStamp n) index last) (\<lambda>ts.
        bind_result (vec_range_int (lc_biasArray n) index last) (\<lambda>bs.
        bind_result (vec_range_int (lc_gainArray n) index last) (\<lambda>gs.
        bind_result (if last < int (length (lc_deltaBiasArray n)) then
            bind_result (vec_range_int (lc_deltaBiasArray n) index last) (\<lambda>ds. Inr (lc_deltaBiasArray c @ ds))
          else Inr []) (\<lambda>ds.
          Inr \<lparr>lc_timeStamp = lc_timeStamp c @ ts, lc_biasArray = lc_biasArray c @ bs,
               lc_deltaBiasArray = ds, lc_gainArray = lc_gainArray c @ gs\<rparr>)))))"

definition lc_size :: "linear_controller \<Rightarrow> int" where
  "lc_size c = int (length (lc_timeStamp c))"

definition lc_clear :: "linear_controller \<Rightarrow> linear_controller" where
  "lc_clear c = c\<lparr>lc_timeStamp := [], lc_biasArray := [], lc_deltaBiasArray := [], lc_gainArray := []\<rparr>"

definition lc_empty :: "linear_controller \<Rightarrow> bool" where
  "lc_empty c = (lc_timeStamp c = [])"

definition getFeedbackGain :: "linear_controller \<Rightarrow> scalar \<Rightarrow> matrix_t result" where
  "getFeedbackGain c time = interpolate_matrix time (lc_timeStamp c) (lc_gainArray c)"

definition getBias :: "linear_controller \<Rightarrow> scalar \<Rightarrow> vector_t result" where
  "getBias c time = interpolate_vector time (lc_timeStamp c) (lc_biasArray c)"

definition lc_swap :: "linear_controller \<Rightarrow> linear_controller \<Rightarrow> linear_controller \<times> linear_controller" where
  "lc_swap a b =
     (a\<lparr>lc_timeStamp := lc_timeStamp b, lc_biasArray := lc_biasArray b,
        lc_deltaBiasArray := lc_deltaBiasArray b, lc_gainArray := lc_gainArray b\<rparr>,
      b\<lparr>lc_timeStamp := lc_timeStamp a, lc_biasArray := lc_biasArray a,
        lc_deltaBiasArray := lc_deltaBiasArray a, lc_gainArray := lc_gainArray a\<rparr>)"

text \<open>
  The event times a controller was designed for: places where two time stamps (almost) coincide. The
  list starts with the entry 0, which an event close to the first time stamp overwrites.
\<close>

definition event_times_step :: "scalar list \<Rightarrow> nat \<Rightarrow> scalar list \<times> scalar \<Rightarrow> scalar list \<times> scalar" where
  "event_times_step timeStamp i acc =
     (let evs = fst acc; lastevent = snd acc;
          eventDetected = (timeStamp ! (i + 1) - timeStamp ! i < 2 * weakEpsilon);
          sufficientTimeSinceEvent = (timeStamp ! i - lastevent > 2 * weakEpsilon)
      in if eventDetected \<and> sufficientTimeSinceEvent then (evs @ [timeStamp ! i], timeStamp ! i)
         else if eventDetected then (butlast evs @ [timeStamp ! i], timeStamp ! i)
         else acc)"

definition controllerEventTimes :: "linear_controller \<Rightarrow> scalar list" where
  "controllerEventTimes c =
     (if length (lc_timeStamp c) < 2 then []
      else fst (fold (event_times_step (lc_timeStamp c)) [0 ..< length (lc_timeStamp c) - 1] ([0], hd (lc_timeStamp c))))"

section \<open>Controllers behind a \<open>ControllerBase\<close> pointer\<close>

datatype controller = Feedforward feedforward_controller | Linear linear_controller

datatype controller_type = UNKNOWN | FEEDFORWARD | LINEAR | ONNX | BEHAVIORAL

fun getType :: "controller \<Rightarrow> controller_type" where
  "getType (Feedforward c) = FEEDFORWARD"
| "getType (Linear c) = LINEAR"

fun computeInput :: "controller \<Rightarrow> scalar \<Rightarrow> vector_t \<Rightarrow> vector_t result" where
  "computeInput (Feedforward c) t x = ff_computeInput c t x"
| "computeInput (Linear c) t x = lc_computeInput c t x"

fun concatenate :: "controller \<Rightarrow> controller \<Rightarrow> int \<Rightarrow> int \<Rightarrow> controller result" where
  "concatenate (Feedforward c) (Feedforward n) index len =
     bind_result (ff_concatenate c n index len) (\<lambda>r. Inr (Feedforward r))"
| "concatenate (Linear c) (Linear n) index len =
     bind_result (lc_concatenate c n index len) (\<lambda>r. Inr (Linear r))"
| "concatenate _ _ index len = Inl (Runtime_Error ''Concatenate only works with controllers of the same type.'')"

fun size_controller :: "controller \<Rightarrow> int" where
  "size_controller (Feedforward c) = ff_size c"
| "size_controller (Linear c) = lc_size c"

fun clear_controller :: "controller \<Rightarrow> controller" where
  "clear_controller (Feedforward c) = Feedforward (ff_clear c)"
| "clear_controller (Linear c) = Linear (lc_clear c)"

fun empty_controller :: "controller \<Rightarrow> bool" where
  "empty_controller (Feedforward c) = ff_empty c"
| "empty_controller (Linear c) = lc_empty c"

fun flatten_controller :: "(scalar \<Rightarrow> scalar) \<Rightarrow> controller \<Rightarrow> scalar list \<Rightarrow> nat \<Rightarrow> scalar list list result" where
  "flatten_controller fl (Feedforward c) timeArray dataSize = ff_flatten fl c timeArray dataSize"
| "flatten_controller fl (Linear c) timeArray dataSize = lc_flatten fl c timeArray dataSize"

text \<open>Only the linear controller overrides \<open>controllerEventTimes\<close>; the base class returns no event.\<close>

fun event_times_controller :: "controller \<Rightarrow> scalar list" where
  "event_times_controller (Feedforward c) = []"
| "event_times_controller (Linear c) = controllerEventTimes c"

text \<open>\<open>ControllerBase::concatenate\<close> with the whole of the next controller.\<close>

definition concatenate_all :: "controller \<Rightarrow> controller \<Rightarrow> controller result" where
  "concatenate_all c n = concatenate c n 0 (size_controller n)"

section \<open>The state based controller\<close>

record state_based_controller =
  ctrlPtr :: "controller option"
  ctrlEventTimes :: "scalar list"

definition new_StateBasedLinearController :: state_based_controller where
  "new_StateBasedLinearController = \<lparr>ctrlPtr = None, ctrlEventTimes = [0]\<rparr>"

definition sb_setController :: "controller option \<Rightarrow> state_based_controller \<Rightarrow> state_based_controller result" where
  "sb_setController p c =
     (case p of None \<Rightarrow> Inl (Runtime_Error ''The controller pointer is null!'')
      | Some ctrl \<Rightarrow> Inr (c\<lparr>ctrlPtr := Some ctrl, ctrlEventTimes := event_times_controller ctrl\<rparr>))"

text \<open>\<open>static_cast<size_t>\<close> of a \<open>double\<close>: truncation, undefined when the result is not representable.\<close>

definition size_of_scalar :: "scalar \<Rightarrow> nat result" where
  "size_of_scalar x = (if -1 < x \<and> x < 2 ^ 64 then Inr (nat \<lfloor>x\<rfloor>) else Inl Undefined)"

text \<open>The time at which the wrapped controller is evaluated.\<close>

definition spreading_query :: "scalar list \<Rightarrow> nat \<Rightarrow> scalar \<Rightarrow> scalar" where
  "spreading_query evs currentMode t =
     (let numEvents = length evs;
          nextMode = (currentMode + 1) mod 2 ^ 64;
          tauMinus = (if numEvents > currentMode then evs ! currentMode else last evs);
          tau = (if numEvents > nextMode then evs ! nextMode else last evs);
          pastAllEvents = (currentMode \<ge> numEvents - 1 \<and> t > tauMinus);
          eps = weakEpsilon
      in if pastAllEvents then t
         else if t < tauMinus then tauMinus + 2 * eps
         else if t > tau then tau - eps
         else t)"

definition computeTrajectorySpreadingInput ::
  "(scalar \<Rightarrow> vector_t \<Rightarrow> vector_t result) \<Rightarrow> scalar \<Rightarrow> vector_t \<Rightarrow> scalar list \<Rightarrow> vector_t result" where
  "computeTrajectorySpreadingInput input t x evs =
     (if x = [] then Inl Assertion_Failed
      else bind_result (size_of_scalar (last x)) (\<lambda>currentMode.
        if evs = [] then input t x else input (spreading_query evs currentMode t) x))"

definition sb_computeInput :: "state_based_controller \<Rightarrow> scalar \<Rightarrow> vector_t \<Rightarrow> vector_t result" where
  "sb_computeInput c t x =
     (case ctrlPtr c of None \<Rightarrow> Inl Undefined
      | Some ctrl \<Rightarrow> computeTrajectorySpreadingInput (computeInput ctrl) t x (ctrlEventTimes c))"

definition sb_concatenate :: "state_based_controller \<Rightarrow> controller \<Rightarrow> int \<Rightarrow> int \<Rightarrow> state_based_controller result" where
  "sb_concatenate c n index len =
     (case ctrlPtr c of None \<Rightarrow> Inl Undefined
      | Some ctrl \<Rightarrow> bind_result (concatenate ctrl n index len) (\<lambda>r. Inr (c\<lparr>ctrlPtr := Some r\<rparr>)))"

definition sb_clear :: "state_based_controller \<Rightarrow> state_based_controller result" where
  "sb_clear c =
     (case ctrlPtr c of None \<Rightarrow> Inl Undefined | Some ctrl \<Rightarrow> Inr (c\<lparr>ctrlPtr := Some (clear_controller ctrl)\<rparr>))"

definition sb_size :: "state_based_controller \<Rightarrow> int result" where
  "sb_size c = (case ctrlPtr c of None \<Rightarrow> Inl Undefined | Some ctrl \<Rightarrow> Inr (size_controller ctrl))"

definition sb_getType :: "state_based_controller \<Rightarrow> controller_type result" where
  "sb_getType c = (case ctrlPtr c of None \<Rightarrow> Inl Undefined | Some ctrl \<Rightarrow> Inr (getType ctrl))"

definition sb_empty :: "state_based_controller \<Rightarrow> bool result" where
  "sb_empty c = (case ctrlPtr c of None \<Rightarrow> Inl Undefined | Some ctrl \<Rightarrow> Inr (empty_controller ctrl))"

section \<open>Sizes of the arrays\<close>

fun controller_ok :: "controller \<Rightarrow> bool" where
  "controller_ok (Feedforward c) = (sorted (ff_timeStamp c) \<and> length (ff_uffArray c) = length (ff_timeStamp c))"
| "controller_ok (Linear c) = (sorted (lc_timeStamp c) \<and> length (lc_biasArray c) = length (lc_timeStamp c) \<and>
     length (lc_gainArray c) = length (lc_timeStamp c))"

fun controller_times :: "controller \<Rightarrow> scalar list" where
  "controller_times (Feedforward c) = ff_timeStamp c"
| "controller_times (Linear c) = lc_timeStamp c"

text \<open>What a client of a controller relies on, whatever its type.\<close>

locale controller_like =
  fixes times_of :: "'c \<Rightarrow> scalar list" and ok :: "'c \<Rightarrow> bool" and sz :: "'c \<Rightarrow> int" and emp :: "'c \<Rightarrow> bool"
    and clr :: "'c \<Rightarrow> 'c" and conc :: "'c \<Rightarrow> 'c \<Rightarrow> int \<Rightarrow> int \<Rightarrow> 'c result"
  assumes size_times: "sz c = int (length (times_of c))"
    and empty_times: "emp c = (times_of c = [])"
    and clear_times: "times_of (clr c) = []"
    and clear_ok: "ok (clr c)"
    and ok_sorted: "ok c \<Longrightarrow> sorted (times_of c)"
    and conc_times: "conc c n i l = Inr r \<Longrightarrow> times_of r = times_of c @ take (nat l) (drop (nat i) (times_of n))"
    and conc_later: "conc c n i l = Inr r \<Longrightarrow> times_of c \<noteq> [] \<Longrightarrow> times_of n \<noteq> [] \<and> last (times_of c) \<le> hd (times_of n)"
    and conc_arrays: "ok c \<Longrightarrow> ok n \<Longrightarrow> conc c n i l = Inr r \<Longrightarrow> sorted (times_of r) \<Longrightarrow> ok r"
begin

lemma conc_ok:
  assumes "ok c" "ok n" "conc c n i l = Inr r"
  shows "ok r"
proof (rule conc_arrays[OF assms])
  let ?t = "take (nat l) (drop (nat i) (times_of n))"
  have part: "sorted ?t" using ok_sorted[OF assms(2)] by (simp add: sorted_wrt_take sorted_wrt_drop)
  have "x \<le> y" if "x \<in> set (times_of c)" "y \<in> set ?t" for x y
  proof -
    have c: "times_of c \<noteq> []" using that(1) by auto
    have "x \<le> last (times_of c)" using sorted_last_ge[OF ok_sorted[OF assms(1)] that(1)] .
    also have "\<dots> \<le> hd (times_of n)" using conc_later[OF assms(3) c] by simp
    also have "\<dots> \<le> y"
      using sorted_hd_le[OF ok_sorted[OF assms(2)]] that(2) by (auto dest: in_set_takeD in_set_dropD)
    finally show ?thesis .
  qed
  then show "sorted (times_of r)"
    using ok_sorted[OF assms(1)] part by (simp add: conc_times[OF assms(3)] sorted_append)
qed

lemma conc_size:
  assumes "conc c n 0 (sz n) = Inr r"
  shows "sz r = sz c + sz n"
  using conc_times[OF assms] by (simp add: size_times)

end

text \<open>The facts that a successful concatenation establishes, per type.\<close>

lemma ff_concatenate_Inr:
  assumes "ff_concatenate c n i l = Inr r"
  shows "0 \<le> i \<and> 0 \<le> l \<and> i + l \<le> int (length (ff_timeStamp n)) \<and> i + l \<le> int (length (ff_uffArray n)) \<and>
    ff_timeStamp r = ff_timeStamp c @ take (nat l) (drop (nat i) (ff_timeStamp n)) \<and>
    ff_uffArray r = ff_uffArray c @ take (nat l) (drop (nat i) (ff_uffArray n)) \<and>
    (ff_timeStamp c \<noteq> [] \<longrightarrow> ff_timeStamp n \<noteq> [] \<and> last (ff_timeStamp c) \<le> hd (ff_timeStamp n))"
  using assms
  by (auto simp: ff_concatenate_def Let_def bind_result_eq_Inr vec_range_int_eq vec_front_def vec_at_def hd_conv_nth
      split: if_splits)

lemma lc_concatenate_Inr:
  assumes "lc_concatenate c n i l = Inr r"
  shows "0 \<le> i \<and> 0 \<le> l \<and> i + l \<le> int (length (lc_timeStamp n)) \<and> i + l \<le> int (length (lc_biasArray n)) \<and>
    i + l \<le> int (length (lc_gainArray n)) \<and>
    lc_timeStamp r = lc_timeStamp c @ take (nat l) (drop (nat i) (lc_timeStamp n)) \<and>
    lc_biasArray r = lc_biasArray c @ take (nat l) (drop (nat i) (lc_biasArray n)) \<and>
    lc_gainArray r = lc_gainArray c @ take (nat l) (drop (nat i) (lc_gainArray n)) \<and>
    lc_deltaBiasArray r = (if i + l < int (length (lc_deltaBiasArray n))
      then lc_deltaBiasArray c @ take (nat l) (drop (nat i) (lc_deltaBiasArray n)) else []) \<and>
    (lc_timeStamp c \<noteq> [] \<longrightarrow> lc_timeStamp n \<noteq> [] \<and> last (lc_timeStamp c) \<le> hd (lc_timeStamp n))"
  using assms
  by (auto simp: lc_concatenate_def Let_def bind_result_eq_Inr vec_range_int_eq vec_front_def vec_at_def hd_conv_nth
      split: if_splits)

interpretation any_controller: controller_like controller_times controller_ok size_controller empty_controller
  clear_controller concatenate
proof
  fix c n r :: controller and i l :: int
  show "size_controller c = int (length (controller_times c))" by (cases c) (simp_all add: ff_size_def lc_size_def)
  show "empty_controller c = (controller_times c = [])" by (cases c) (simp_all add: ff_empty_def lc_empty_def)
  show "controller_times (clear_controller c) = []" by (cases c) (simp_all add: ff_clear_def lc_clear_def)
  show "controller_ok (clear_controller c)" by (cases c) (simp_all add: ff_clear_def lc_clear_def)
  show "controller_ok c \<Longrightarrow> sorted (controller_times c)" by (cases c) simp_all
  assume r: "concatenate c n i l = Inr r"
  show "controller_times r = controller_times c @ take (nat l) (drop (nat i) (controller_times n))"
    using r by (cases c; cases n) (auto simp: bind_result_eq_Inr dest!: ff_concatenate_Inr lc_concatenate_Inr)
  show "controller_times c \<noteq> [] \<Longrightarrow> controller_times n \<noteq> [] \<and> last (controller_times c) \<le> hd (controller_times n)"
    using r by (cases c; cases n) (auto simp: bind_result_eq_Inr dest!: ff_concatenate_Inr lc_concatenate_Inr)
  show "controller_ok c \<Longrightarrow> controller_ok n \<Longrightarrow> sorted (controller_times r) \<Longrightarrow> controller_ok r"
    using r by (cases c; cases n) (auto simp: bind_result_eq_Inr dest!: ff_concatenate_Inr lc_concatenate_Inr)
qed

section \<open>Concatenation\<close>

lemma lc_computeInput_eq:
  "lc_computeInput c t x =
     bind_result (interpolate_vector t (lc_timeStamp c) (lc_biasArray c)) (\<lambda>uff.
     bind_result (interpolate_matrix t (lc_timeStamp c) (lc_gainArray c)) (\<lambda>k. add_product uff k x))"
  by (cases "timeSegment t (lc_timeStamp c)")
    (simp_all add: lc_computeInput_def interpolate_vector_def interpolate_matrix_def interpolate_at_def)

lemma computeInput_append_left:
  assumes "controller_ok c" "controller_ok n" "concatenate c n 0 (size_controller n) = Inr r"
    and "controller_times c \<noteq> []" "t \<le> last (controller_times c)"
  shows "computeInput r t x = computeInput c t x"
proof -
  have "controller_ok r" by (rule any_controller.conc_ok[OF assms(1-3)])
  with assms show ?thesis
    by (cases c; cases n)
      (auto simp: bind_result_eq_Inr ff_computeInput_def lc_computeInput_eq interpolate_vector_def interpolate_matrix_def
        ff_size_def lc_size_def vectors.at_append_left matrices.at_append_left dest!: ff_concatenate_Inr lc_concatenate_Inr)
qed

lemma computeInput_append_right:
  assumes "controller_ok c" "controller_ok n" "concatenate c n 0 (size_controller n) = Inr r"
    and "controller_times n \<noteq> []" "hd (controller_times n) < t"
  shows "computeInput r t x = computeInput n t x"
proof -
  have "controller_ok r" by (rule any_controller.conc_ok[OF assms(1-3)])
  with assms show ?thesis
    by (cases c; cases n)
      (auto simp: bind_result_eq_Inr ff_computeInput_def lc_computeInput_eq interpolate_vector_def interpolate_matrix_def
        ff_size_def lc_size_def vectors.at_append_right matrices.at_append_right dest!: ff_concatenate_Inr lc_concatenate_Inr)
qed

lemma concatenate_all_succeeds:
  assumes "controller_ok c" "controller_ok n" "getType c = getType n"
    and "controller_times c = [] \<or> controller_times n \<noteq> [] \<and> last (controller_times c) \<le> hd (controller_times n)"
  shows "succeeds (concatenate_all c n)"
proof (cases c)
  case (Feedforward a)
  with assms(3) obtain b where n: "n = Feedforward b" by (cases n) auto
  show ?thesis
    using assms Feedforward n
    by (auto simp: concatenate_all_def ff_concatenate_def ff_size_def vec_front_nonempty vec_range_int_def Let_def)
next
  case (Linear a)
  with assms(3) obtain b where n: "n = Linear b" by (cases n) auto
  show ?thesis
    using assms Linear n
    by (auto simp: concatenate_all_def lc_concatenate_def lc_size_def vec_front_nonempty vec_range_int_def Let_def)
qed

text \<open>
  C3. Concatenating a whole controller of the same type that starts no earlier than this one ends
  succeeds and gives a controller with consistent, sorted arrays: up to the last time of the first one its
  input is that of the first one, and after the first time of the second one that of the second one.
  A next controller that starts too early and one of another type are refused with an exception.
\<close>

theorem concatenate_controllers:
  assumes "controller_ok c" "controller_ok n"
  shows "if getType c \<noteq> getType n then
           concatenate_all c n = Inl (Runtime_Error ''Concatenate only works with controllers of the same type.'')
         else if controller_times c \<noteq> [] \<and> controller_times n \<noteq> [] \<and> last (controller_times c) > hd (controller_times n) then
           concatenate_all c n = Inl (Runtime_Error ''Concatenate requires that the nextController comes later in time.'')
         else if controller_times c \<noteq> [] \<and> controller_times n = [] then concatenate_all c n = Inl Undefined
         else \<exists>r. concatenate_all c n = Inr r \<and> controller_ok r \<and> getType r = getType c \<and>
           controller_times r = controller_times c @ controller_times n \<and>
           (controller_times c \<noteq> [] \<longrightarrow> (\<forall>t x. t \<le> last (controller_times c) \<longrightarrow> computeInput r t x = computeInput c t x)) \<and>
           (controller_times n \<noteq> [] \<longrightarrow> (\<forall>t x. hd (controller_times n) < t \<longrightarrow> computeInput r t x = computeInput n t x))"
proof (cases "getType c = getType n \<and> (controller_times c = [] \<or> controller_times n \<noteq> [] \<and> last (controller_times c) \<le> hd (controller_times n))")
  case True
  then obtain r where r: "concatenate_all c n = Inr r"
    using concatenate_all_succeeds[OF assms] by (auto simp: succeeds_iff)
  note conc = r[unfolded concatenate_all_def]
  have "getType r = getType c" using conc by (cases c; cases n) (auto simp: bind_result_eq_Inr)
  moreover have "controller_times r = controller_times c @ controller_times n"
    using any_controller.conc_times[OF conc] by (simp add: any_controller.size_times)
  ultimately show ?thesis
    using True r any_controller.conc_ok[OF assms conc] computeInput_append_left[OF assms conc]
      computeInput_append_right[OF assms conc] by auto
next
  case False
  then show ?thesis
    by (cases c; cases n)
      (auto simp: concatenate_all_def ff_concatenate_def lc_concatenate_def vec_front_nonempty require_def)
qed

theorem concatenate_controllers_witness:
  "\<exists>r. concatenate_all (Linear (LinearController [0, 1] [[1], [2]] [[[0]], [[1]]])) (Linear (LinearController [1, 2] [[5], [6]] [[[2]], [[3]]]))
      = Inr r \<and> controller_times r = [0, 1, 1, 2] \<and>
      computeInput r 1 [4] = computeInput (Linear (LinearController [0, 1] [[1], [2]] [[[0]], [[1]]])) 1 [4]"
  using concatenate_controllers[of "Linear (LinearController [0, 1] [[1], [2]] [[[0]], [[1]]])"
      "Linear (LinearController [1, 2] [[5], [6]] [[[2]], [[3]]])"]
  by (auto simp: LinearController_def)

text \<open>
  A linear controller concatenated with a whole one loses its delta biases: the range check of
  \<open>LinearController::concatenate\<close> is strict, so delta biases of the size of the appended controller (the
  consistent case) are not appended but the array that is there is cleared.
\<close>

theorem concatenate_drops_deltaBias:
  assumes "lc_concatenate c n 0 (lc_size n) = Inr r" "length (lc_deltaBiasArray n) = length (lc_timeStamp n)"
  shows "lc_deltaBiasArray r = [] \<and> lc_timeStamp r = lc_timeStamp c @ lc_timeStamp n"
  using lc_concatenate_Inr[OF assms(1)] assms(2) by (simp add: lc_size_def)

theorem concatenate_drops_deltaBias_witness:
  "\<exists>r. lc_concatenate \<lparr>lc_timeStamp = [0], lc_biasArray = [[1]], lc_deltaBiasArray = [[9]], lc_gainArray = [[[1]]]\<rparr>
     \<lparr>lc_timeStamp = [1], lc_biasArray = [[2]], lc_deltaBiasArray = [[8]], lc_gainArray = [[[2]]]\<rparr> 0 1 = Inr r \<and> lc_deltaBiasArray r = []"
proof -
  let ?c = "\<lparr>lc_timeStamp = [0], lc_biasArray = [[1]], lc_deltaBiasArray = [[9]], lc_gainArray = [[[1]]]\<rparr>"
  let ?n = "\<lparr>lc_timeStamp = [1], lc_biasArray = [[2]], lc_deltaBiasArray = [[8]], lc_gainArray = [[[2]]]\<rparr>"
  obtain r where r: "lc_concatenate ?c ?n 0 (lc_size ?n) = Inr r"
    by (simp add: lc_concatenate_def lc_size_def vec_range_int_def)
  with concatenate_drops_deltaBias[OF r] show ?thesis by (auto simp: lc_size_def)
qed

section \<open>Flattening and back\<close>

lemma drop_concat_blocks:
  assumes "\<And>b. b \<in> set bs \<Longrightarrow> length b = w"
  shows "drop (i * w) (concat bs) = concat (drop i bs)"
  using assms
proof (induction bs arbitrary: i)
  case Nil
  then show ?case by simp
next
  case (Cons b bs)
  then show ?case by (cases i) auto
qed

lemma length_concat_blocks: "(\<And>b. b \<in> set bs \<Longrightarrow> length b = w) \<Longrightarrow> length (concat bs) = length bs * w"
  by (induction bs) auto

definition flat_blocks :: "(scalar \<Rightarrow> scalar) \<Rightarrow> vector_t \<Rightarrow> matrix_t \<Rightarrow> scalar list list" where
  "flat_blocks fl uff k = map2 (\<lambda>u r. fl u # map fl r) uff k"

lemma flat_blocks_length:
  assumes "mat_ok m n k" "length uff = m"
  shows "\<And>b. b \<in> set (flat_blocks fl uff k) \<Longrightarrow> length b = n + 1"
  using assms by (auto simp: flat_blocks_def mat_ok_def dest: set_zip_rightD)

lemma flat_rows_square:
  assumes "mat_ok m n k" "length uff = m"
  shows "flat_rows fl uff k = Inr (concat (flat_blocks fl uff k))"
  using assms by (simp add: flat_rows_def flat_blocks_def mat_ok_def)

lemma unflat_row_blocks:
  assumes "mat_ok m n k" "length uff = m" "i < m"
  shows "unflat_row n (concat (flat_blocks fl uff k)) i = (fl (uff ! i), map fl (k ! i))"
proof -
  let ?bs = "flat_blocks fl uff k"
  have len: "length ?bs = m" using assms(1,2) by (simp add: flat_blocks_def mat_ok_def)
  have "drop (i * (n + 1)) (concat ?bs) = concat (drop i ?bs)"
    by (rule drop_concat_blocks) (rule flat_blocks_length[OF assms(1,2)])
  also have "drop i ?bs = (fl (uff ! i) # map fl (k ! i)) # drop (Suc i) ?bs"
    using assms len by (simp add: Cons_nth_drop_Suc[symmetric]) (simp add: flat_blocks_def mat_ok_def)
  finally have d: "drop (i * (n + 1)) (concat ?bs) = fl (uff ! i) # map fl (k ! i) @ concat (drop (Suc i) ?bs)"
    by simp
  have "length (k ! i) = n" using assms(1,3) by (simp add: mat_ok_def)
  moreover have "i * (n + 1) < length (concat ?bs)"
    using d by (metis drop_all list.distinct(1) not_le)
  then have "concat ?bs ! (i * (n + 1)) = fl (uff ! i)"
    using d by (metis hd_drop_conv_nth list.sel(1))
  moreover have "drop (i * (n + 1) + 1) (concat ?bs) = map fl (k ! i) @ concat (drop (Suc i) ?bs)"
    using d by (metis add.commute drop_drop drop_Suc_Cons drop0 One_nat_def)
  ultimately show ?thesis by (simp add: unflat_row_def)
qed

lemma unflat_single_blocks:
  assumes "mat_ok (inputDim ! j) (stateDim ! j) k" "length uff = inputDim ! j"
    and "j < length inputDim" "j < length stateDim" "j < length flats" "flats ! j = concat (flat_blocks fl uff k)"
  shows "unflat_single stateDim inputDim flats j = Inr (map fl uff, map (map fl) k)"
proof -
  let ?m = "inputDim ! j" and ?n = "stateDim ! j"
  have "length (concat (flat_blocks fl uff k)) = length (flat_blocks fl uff k) * (?n + 1)"
    by (rule length_concat_blocks) (rule flat_blocks_length[OF assms(1,2)])
  also have "\<dots> = ?m + ?m * ?n" using assms(1,2) by (simp add: flat_blocks_def mat_ok_def)
  finally have len: "length (concat (flat_blocks fl uff k)) = ?m + ?m * ?n" .
  have rows: "unflat_row ?n (concat (flat_blocks fl uff k)) i = (fl (uff ! i), map fl (k ! i))" if "i < ?m" for i
    by (rule unflat_row_blocks[OF assms(1,2) that])
  have "map (fst \<circ> unflat_row ?n (concat (flat_blocks fl uff k))) [0 ..< ?m] = map fl uff"
    using rows assms(2) by (intro nth_equalityI) auto
  moreover have "map (snd \<circ> unflat_row ?n (concat (flat_blocks fl uff k))) [0 ..< ?m] = map (map fl) k"
    using rows assms(1) by (intro nth_equalityI) (auto simp: mat_ok_def)
  ultimately show ?thesis
    using assms(3-6) len unfolding unflat_single_def by simp
qed

lemma lc_flattenSingle_eq:
  "lc_flattenSingle fl c t =
     bind_result (interpolate_vector t (lc_timeStamp c) (lc_biasArray c)) (\<lambda>uff.
     bind_result (interpolate_matrix t (lc_timeStamp c) (lc_gainArray c)) (\<lambda>k. flat_rows fl uff k))"
  by (cases "timeSegment t (lc_timeStamp c)")
    (simp_all add: lc_flattenSingle_def interpolate_vector_def interpolate_matrix_def interpolate_at_def)

lemma lc_roundtrip:
  assumes "controller_ok (Linear c)"
    and "\<And>i. i + 1 < length (lc_timeStamp c) \<Longrightarrow> lc_timeStamp c ! (i + 1) - lc_timeStamp c ! i > 2 * weakEpsilon"
    and "length stateDim = length (lc_timeStamp c)" "length inputDim = length (lc_timeStamp c)"
    and "\<And>i. i < length (lc_timeStamp c) \<Longrightarrow>
      length (lc_biasArray c ! i) = inputDim ! i \<and> mat_ok (inputDim ! i) (stateDim ! i) (lc_gainArray c ! i)"
  shows "bind_result (lc_flatten fl c (lc_timeStamp c) (length (lc_timeStamp c)))
           (lc_unFlatten stateDim inputDim (lc_timeStamp c)) =
         Inr (LinearController (lc_timeStamp c) (map (map fl) (lc_biasArray c)) (map (map (map fl)) (lc_gainArray c)))"
proof -
  let ?ts = "lc_timeStamp c" and ?N = "length (lc_timeStamp c)"
  let ?flat = "\<lambda>i. concat (flat_blocks fl (lc_biasArray c ! i) (lc_gainArray c ! i))"
  have ok: "sorted ?ts" "length (lc_biasArray c) = ?N" "length (lc_gainArray c) = ?N" using assms(1) by auto
  have single: "lc_flattenSingle fl c (?ts ! i) = Inr (?flat i)" if "i < ?N" for i
    using that vectors.at_own_time[OF ok(1,2) that assms(2)] matrices.at_own_time[OF ok(1,3) that assms(2)]
      flat_rows_square[of "inputDim ! i" "stateDim ! i" "lc_gainArray c ! i" "lc_biasArray c ! i"] assms(5)[OF that]
    by (simp add: lc_flattenSingle_eq interpolate_vector_def interpolate_matrix_def)
  have "map_result (lc_flattenSingle fl c) (map (\<lambda>i. ?ts ! i) [0 ..< ?N]) = Inr (map ?flat [0 ..< ?N])"
    unfolding map_result_map by (rule map_result_all) (use single in simp)
  then have flat: "lc_flatten fl c ?ts ?N = Inr (map ?flat [0 ..< ?N])"
    by (simp add: lc_flatten_def map_nth)
  have "unflat_single stateDim inputDim (map ?flat [0 ..< ?N]) i
      = Inr (map fl (lc_biasArray c ! i), map (map fl) (lc_gainArray c ! i))" if "i < ?N" for i
    by (rule unflat_single_blocks) (use assms(3-5) that in auto)
  then have "map_result (unflat_single stateDim inputDim (map ?flat [0 ..< ?N])) [0 ..< ?N]
      = Inr (map (\<lambda>i. (map fl (lc_biasArray c ! i), map (map fl) (lc_gainArray c ! i))) [0 ..< ?N])"
    by (intro map_result_all) simp
  moreover have "map (\<lambda>i. map fl (lc_biasArray c ! i)) [0 ..< ?N] = map (map fl) (lc_biasArray c)"
    "map (\<lambda>i. map (map fl) (lc_gainArray c ! i)) [0 ..< ?N] = map (map (map fl)) (lc_gainArray c)"
    using ok by (auto intro!: nth_equalityI)
  ultimately show ?thesis by (simp add: flat lc_unFlatten_def comp_def)
qed

text \<open>
  C4. Transmitting a linear controller: flattened at its own time stamps (more than twice the weak epsilon
  apart) and read back with its own dimensions, a linear controller whose dimensions fit keeps its
  times, and its biases and gains are the originals rounded to \<open>float\<close>; only the delta biases are
  lost.
\<close>

theorem linear_controller_roundtrip:
  assumes "controller_ok (Linear c)"
    and "\<And>i. i + 1 < length (lc_timeStamp c) \<Longrightarrow> lc_timeStamp c ! (i + 1) - lc_timeStamp c ! i > 2 * weakEpsilon"
    and "length stateDim = length (lc_timeStamp c)" "length inputDim = length (lc_timeStamp c)"
    and "\<And>i. i < length (lc_timeStamp c) \<Longrightarrow>
      length (lc_biasArray c ! i) = inputDim ! i \<and> mat_ok (inputDim ! i) (stateDim ! i) (lc_gainArray c ! i)"
  shows "bind_result (lc_flatten fl c (lc_timeStamp c) (length (lc_timeStamp c)))
           (lc_unFlatten stateDim inputDim (lc_timeStamp c)) =
         Inr (LinearController (lc_timeStamp c) (map (map fl) (lc_biasArray c)) (map (map (map fl)) (lc_gainArray c)))"
  using assms by (rule lc_roundtrip)

theorem linear_controller_roundtrip_witness:
  "bind_result (lc_flatten (\<lambda>x. x) (LinearController [0, 1] [[1], [2]] [[[3, 4]], [[5, 6]]]) [0, 1] 2)
     (lc_unFlatten [2, 2] [1, 1] [0, 1]) = Inr (LinearController [0, 1] [[1], [2]] [[[3, 4]], [[5, 6]]])"
proof -
  let ?c = "LinearController [0, 1] [[1], [2]] [[[3, 4]], [[5, 6]]]"
  have "bind_result (lc_flatten (\<lambda>x. x) ?c (lc_timeStamp ?c) (length (lc_timeStamp ?c))) (lc_unFlatten [2, 2] [1, 1] (lc_timeStamp ?c))
      = Inr (LinearController (lc_timeStamp ?c) (map (map (\<lambda>x. x)) (lc_biasArray ?c)) (map (map (map (\<lambda>x. x))) (lc_gainArray ?c)))"
    by (rule linear_controller_roundtrip)
      (auto simp: LinearController_def weakEpsilon_def mat_ok_def less_Suc_eq)
  then show ?thesis by (simp add: LinearController_def numeral_2_eq_2)
qed

section \<open>Evaluation around events\<close>

text \<open>
  The state based controller never asks the wrapped controller across an event: with sorted event
  times more than three weak epsilons apart, a query in mode \<open>m\<close> whose interval has both ends among
  the event times goes to the wrapped controller at a time inside that interval, at the queried time
  if that lies inside, two weak epsilons after its start if the event came early and one before
  its end if the event is late. (The comment in the code names one weak epsilon for both.)
\<close>

theorem spreading_query_in_mode:
  assumes "mode + 1 < length evs" "length evs < 2 ^ 64" "evs ! (mode + 1) - evs ! mode > 3 * weakEpsilon"
  shows "evs ! mode \<le> spreading_query evs mode t \<and> spreading_query evs mode t \<le> evs ! (mode + 1) \<and>
         (evs ! mode \<le> t \<and> t \<le> evs ! (mode + 1) \<longrightarrow> spreading_query evs mode t = t) \<and>
         (t < evs ! mode \<longrightarrow> spreading_query evs mode t = evs ! mode + 2 * weakEpsilon) \<and>
         (evs ! (mode + 1) < t \<longrightarrow> spreading_query evs mode t = evs ! (mode + 1) - weakEpsilon)"
proof -
  have "(mode + 1) mod 2 ^ 64 = mode + 1" using assms(1,2) by simp
  moreover have "\<not> length evs - 1 \<le> mode" using assms(1) by linarith
  ultimately show ?thesis
    using assms(1,3) weakEpsilon_pos by (auto simp: spreading_query_def Let_def)
qed

theorem spreading_query_in_mode_witness:
  "spreading_query [0, 1, 2] 1 (1 / 2) = 1 + 2 * weakEpsilon \<and> spreading_query [0, 1, 2] 1 3 = 2 - weakEpsilon"
  using spreading_query_in_mode[of 1 "[0, 1, 2]" "1 / 2"] spreading_query_in_mode[of 1 "[0, 1, 2]" 3]
  by (simp add: weakEpsilon_def)

end
