(* ===== verification/Root_Finder.thy ===== *)
theory Root_Finder
  imports Ocs2_Prelude
begin

text \<open>
  \<open>core/ocs2_oc/rollout/RootFinder\<close>: the bracketing methods (regula falsi and its variants) that the
  state triggered rollout uses to locate the time of an event.
\<close>

datatype root_finder_type = ANDERSON_BJORCK | PEGASUS | ILLINOIS | REGULA_FALSI

record root_finder =
  rootFindingAlgorithm :: root_finder_type
  timeInt :: "scalar \<times> scalar"
  guardInt :: "scalar \<times> scalar"

definition setInitBracket :: "scalar \<times> scalar \<Rightarrow> scalar \<times> scalar \<Rightarrow> root_finder \<Rightarrow> root_finder result" where
  "setInitBracket interval guards r =
     (if fst guards * snd guards > 0 then Inl (Runtime_Error ''Bracket function values should have opposite signs!'')
      else Inr (r\<lparr>timeInt := interval, guardInt := guards\<rparr>))"

definition setInitBracket4 :: "scalar \<Rightarrow> scalar \<Rightarrow> scalar \<Rightarrow> scalar \<Rightarrow> root_finder \<Rightarrow> root_finder result" where
  "setInitBracket4 t0 t1 f0 f1 r = setInitBracket (t0, t1) (f0, f1) r"

text \<open>The factor that scales the stored value of the end point that stays.\<close>

definition gamma :: "root_finder_type \<Rightarrow> scalar \<Rightarrow> scalar \<Rightarrow> scalar" where
  "gamma algorithm guardFirst fQuery =
     (case algorithm of
        ANDERSON_BJORCK \<Rightarrow> (let g = 1 - fQuery / guardFirst in if g < 0 then 1 / 2 else g)
      | PEGASUS \<Rightarrow> guardFirst / (guardFirst + fQuery)
      | ILLINOIS \<Rightarrow> 1 / 2
      | REGULA_FALSI \<Rightarrow> 1)"

definition updateBracket :: "scalar \<Rightarrow> scalar \<Rightarrow> root_finder \<Rightarrow> root_finder" where
  "updateBracket query fQuery r =
     (if fQuery * fst (guardInt r) < 0 then
        r\<lparr>guardInt := (fQuery, fst (guardInt r)), timeInt := (query, fst (timeInt r))\<rparr>
      else
        r\<lparr>guardInt := (fQuery, snd (guardInt r) * gamma (rootFindingAlgorithm r) (fst (guardInt r)) fQuery),
          timeInt := (query, snd (timeInt r))\<rparr>)"

definition getNewQuery :: "root_finder \<Rightarrow> scalar" where
  "getNewQuery r =
     (fst (timeInt r) * snd (guardInt r) - snd (timeInt r) * fst (guardInt r))
       / (snd (guardInt r) - fst (guardInt r))"

section \<open>The bracket encloses a sign change\<close>

text \<open>
  The invariant of a search on the guard function \<open>f\<close>: the first stored value is that of the first
  time, the second one is a non-negative multiple of that of the second time, and \<open>f\<close> does not have
  the same sign at both times.
\<close>

definition bracket_inv :: "(scalar \<Rightarrow> scalar) \<Rightarrow> root_finder \<Rightarrow> bool" where
  "bracket_inv f r =
     (fst (guardInt r) = f (fst (timeInt r)) \<and> f (fst (timeInt r)) \<noteq> 0 \<and>
      (\<exists>c \<ge> 0. snd (guardInt r) = c * f (snd (timeInt r))) \<and>
      f (fst (timeInt r)) * f (snd (timeInt r)) \<le> 0)"

definition in_bracket :: "root_finder \<Rightarrow> scalar \<Rightarrow> bool" where
  "in_bracket r t = (min (fst (timeInt r)) (snd (timeInt r)) \<le> t \<and> t \<le> max (fst (timeInt r)) (snd (timeInt r)))"

lemma gamma_nonneg:
  assumes "g * q > 0"
  shows "0 \<le> gamma a g q"
proof -
  have "(g > 0 \<and> q > 0) \<or> (g < 0 \<and> q < 0)" using assms by (simp add: zero_less_mult_iff)
  then have "0 \<le> g / (g + q)" by (auto simp: divide_nonpos_nonpos)
  then show ?thesis by (auto simp: gamma_def Let_def split: root_finder_type.splits)
qed

lemma weighted_between:
  fixes a b w v :: real
  assumes "0 \<le> w" "0 \<le> v" "0 < w + v"
  shows "min a b \<le> (a * w + b * v) / (w + v)" "(a * w + b * v) / (w + v) \<le> max a b"
proof -
  have "min a b * (w + v) \<le> a * w + b * v"
    unfolding distrib_left by (intro add_mono mult_right_mono) (use assms in auto)
  then show "min a b \<le> (a * w + b * v) / (w + v)" using assms(3) by (simp add: pos_le_divide_eq)
  have "a * w + b * v \<le> max a b * (w + v)"
    unfolding distrib_left by (intro add_mono mult_right_mono) (use assms in auto)
  then show "(a * w + b * v) / (w + v) \<le> max a b" using assms(3) by (simp add: pos_divide_le_eq)
qed

lemma getNewQuery_in_bracket:
  assumes "bracket_inv f r"
  shows "in_bracket r (getNewQuery r)"
proof -
  obtain ta tb where t: "timeInt r = (ta, tb)" by (cases "timeInt r")
  obtain fa fb where g: "guardInt r = (fa, fb)" by (cases "guardInt r")
  obtain c where c: "c \<ge> 0" "fb = c * f tb" and fa: "fa = f ta" "fa \<noteq> 0" "fa * f tb \<le> 0"
    using assms by (auto simp: bracket_inv_def t g)
  have opp: "fa * fb \<le> 0" using c(1) mult_nonneg_nonpos[OF c(1) fa(3)] by (simp add: c(2) ac_simps)
  consider "fa > 0" "fb \<le> 0" | "fa < 0" "fb \<ge> 0" using opp fa(2) by (auto simp: mult_le_0_iff)
  then show ?thesis
  proof cases
    case 1
    have eq: "(ta * fb - tb * fa) / (fb - fa) = (ta * (- fb) + tb * fa) / (- fb + fa)"
      using 1 by (simp add: divide_simps) (simp add: algebra_simps)
    show ?thesis
      unfolding in_bracket_def getNewQuery_def t g fst_conv snd_conv eq
      by (intro conjI weighted_between) (use 1 in auto)
  next
    case 2
    have eq: "(ta * fb - tb * fa) / (fb - fa) = (ta * fb + tb * (- fa)) / (fb + (- fa))" by simp
    show ?thesis
      unfolding in_bracket_def getNewQuery_def t g fst_conv snd_conv eq
      by (intro conjI weighted_between) (use 2 in auto)
  qed
qed

lemma updateBracket_inv:
  assumes "bracket_inv f r" "f q \<noteq> 0" "in_bracket r q"
  shows "bracket_inv f (updateBracket q (f q) r)" "\<And>t. in_bracket (updateBracket q (f q) r) t \<Longrightarrow> in_bracket r t"
proof -
  obtain ta tb where t: "timeInt r = (ta, tb)" by (cases "timeInt r")
  obtain fa fb where g: "guardInt r = (fa, fb)" by (cases "guardInt r")
  obtain c where c: "c \<ge> 0" "fb = c * f tb" and fa: "fa = f ta" "fa \<noteq> 0" "fa * f tb \<le> 0"
    using assms(1) by (auto simp: bracket_inv_def t g)
  show "bracket_inv f (updateBracket q (f q) r)"
  proof (cases "f q * fa < 0")
    case True
    then have "\<exists>c \<ge> 0. fa = c * f ta" using fa(1) by (intro exI[of _ 1]) simp
    with True assms(2) fa(1) show ?thesis by (simp add: updateBracket_def bracket_inv_def t g)
  next
    case False
    then have same: "fa * f q > 0" using fa(2) assms(2) by (simp add: zero_less_mult_iff mult_less_0_iff) linarith
    have "f q * f tb \<le> 0"
      using same fa(3) by (auto simp: zero_less_mult_iff mult_le_0_iff)
    moreover have "0 \<le> c * gamma (rootFindingAlgorithm r) fa (f q)"
      using c(1) gamma_nonneg[OF same] by simp
    then have "\<exists>d \<ge> 0. fb * gamma (rootFindingAlgorithm r) fa (f q) = d * f tb"
      by (intro exI[of _ "c * gamma (rootFindingAlgorithm r) fa (f q)"]) (simp add: c(2))
    ultimately show ?thesis
      using False assms(2) by (simp add: updateBracket_def bracket_inv_def t g)
  qed
  show "in_bracket r s" if "in_bracket (updateBracket q (f q) r) s" for s
    using that assms(3) by (auto simp: updateBracket_def in_bracket_def t g split: if_splits)
qed

text \<open>The refinement as the rollout drives it, until the guard vanishes at the query or the fuel is spent.\<close>

fun refine :: "(scalar \<Rightarrow> scalar) \<Rightarrow> nat \<Rightarrow> root_finder \<Rightarrow> root_finder" where
  "refine f 0 r = r"
| "refine f (Suc n) r =
     (let q = getNewQuery r in if f q = 0 then r else refine f n (updateBracket q (f q) r))"

lemma refine_inv:
  "bracket_inv f r \<Longrightarrow> bracket_inv f (refine f n r) \<and> (\<forall>t. in_bracket (refine f n r) t \<longrightarrow> in_bracket r t)"
proof (induction n arbitrary: r)
  case 0
  then show ?case by simp
next
  case (Suc n)
  note q = getNewQuery_in_bracket[OF Suc.prems]
  show ?case
    using Suc.prems Suc.IH updateBracket_inv[OF Suc.prems _ q] by (auto simp: Let_def)
qed

text \<open>
  C5. The root finder keeps its promise for each of the four algorithms: started on two times at which
  the guard has opposite signs (not zero at the first), after any number of refinements the bracket
  lies inside the initial one, the guard still does not have the same sign at its two ends, so a
  continuous guard has a root between them, and the next query lies inside the bracket.
\<close>

theorem root_finder_encloses:
  assumes "setInitBracket4 t0 t1 (f t0) (f t1) r = Inr r0" "f t0 \<noteq> 0" "continuous_on UNIV f"
  shows "in_bracket r0 (getNewQuery (refine f n r0)) \<and> in_bracket (refine f n r0) (getNewQuery (refine f n r0)) \<and>
         (\<exists>root. in_bracket (refine f n r0) root \<and> f root = 0)"
proof -
  have "bracket_inv f r0"
    using assms(1,2) by (auto simp: setInitBracket4_def setInitBracket_def bracket_inv_def not_less intro!: exI[of _ 1] split: if_splits)
  note inv = refine_inv[OF this, of n]
  let ?r = "refine f n r0" and ?a = "fst (timeInt (refine f n r0))" and ?b = "snd (timeInt (refine f n r0))"
  have sign: "f ?a * f ?b \<le> 0" using inv by (simp add: bracket_inv_def)
  have cont: "continuous_on {min ?a ?b .. max ?a ?b} f" using assms(3) by (rule continuous_on_subset) simp
  have "\<exists>x. min ?a ?b \<le> x \<and> x \<le> max ?a ?b \<and> f x = 0"
  proof (cases "f (min ?a ?b) \<le> 0")
    case True
    then have "0 \<le> f (max ?a ?b) \<or> f (min ?a ?b) = 0"
      using sign by (auto simp: min_def max_def mult_le_0_iff split: if_splits)
    then show ?thesis
      using IVT'[of f "min ?a ?b" 0 "max ?a ?b"] True cont by auto
  next
    case False
    then have "f (max ?a ?b) \<le> 0"
      using sign by (auto simp: min_def max_def mult_le_0_iff split: if_splits)
    then show ?thesis
      using IVT2'[of f "max ?a ?b" 0 "min ?a ?b"] False cont by auto
  qed
  with inv getNewQuery_in_bracket[of f ?r] show ?thesis by (auto simp: in_bracket_def)
qed

theorem root_finder_encloses_witness:
  "\<exists>r0. setInitBracket4 0 2 (- 1) 1 \<lparr>rootFindingAlgorithm = ILLINOIS, timeInt = (0, 0), guardInt = (0, 0)\<rparr> = Inr r0 \<and>
     in_bracket r0 (getNewQuery (refine (\<lambda>x. x - 1) 3 r0))"
proof -
  let ?r = "\<lparr>rootFindingAlgorithm = ILLINOIS, timeInt = (0, 0), guardInt = (0, 0)\<rparr>"
  obtain r0 where r0: "setInitBracket4 0 2 ((\<lambda>x. x - 1) 0) ((\<lambda>x. x - 1) 2) ?r = Inr r0"
    by (simp add: setInitBracket4_def setInitBracket_def)
  have "continuous_on UNIV (\<lambda>x :: real. x - 1)" by (intro continuous_intros)
  with root_finder_encloses[OF r0, of 3] r0 show ?thesis by auto
qed

end
