(* ===== verification/Rollout.thy ===== *)
theory Rollout
  imports Mode_Schedule
begin

text \<open>
  \<open>core/ocs2_oc/rollout\<close>: the forward simulation of a controlled system over the modes of a schedule,
  with the integrator (\<open>TimeTriggeredRollout\<close>) and with the initializer (\<open>InitializerRollout\<close>), and
  \<open>PerformanceIndicesRollout\<close>. The stepping of the ODE solver (boost odeint) is the argument \<open>steps\<close>:
  the points at which \<open>integrateAdaptive\<close> calls its observer. The system's jump map, the controller's
  \<open>computeInput\<close> and the initializer's \<open>compute\<close> are arguments as well.
\<close>

section \<open>Settings and results\<close>

record rollout_settings =
  absTolODE :: scalar
  timeStep :: scalar
  checkNumericalStability_flag :: bool
  reconstructInputTrajectory :: bool
  maxSingleEventIterations :: int
  useTrajectorySpreadingController :: bool

record rollout_data =
  roTime :: "scalar list"
  roPostEvents :: "nat list"
  roState :: "vector_t list"
  roInput :: "vector_t list"

definition empty_rollout :: rollout_data where
  "empty_rollout = \<lparr>roTime = [], roPostEvents = [], roState = [], roInput = []\<rparr>"

section \<open>Time intervals of the active modes\<close>

text \<open>The consecutive pairs of the switching times, each start moved by the weak epsilon.\<close>

fun intervals_of :: "scalar list \<Rightarrow> (scalar \<times> scalar) list" where
  "intervals_of (a # b # rest) = (min (a + weakEpsilon) b, b) # intervals_of (b # rest)"
| "intervals_of _ = []"

definition findActiveModesTimeInterval :: "scalar \<Rightarrow> scalar \<Rightarrow> scalar list \<Rightarrow> (scalar \<times> scalar) list result" where
  "findActiveModesTimeInterval initTime finalTime evs =
     bind_result (vec_range evs (upperBoundIndex evs initTime) (upperBoundIndex evs finalTime)) (\<lambda>active.
       Inr (intervals_of ([initTime] @ active @ [finalTime])))"

section \<open>Numerical stability\<close>

text \<open>
  The trajectories are read entry by entry. Real numbers are finite, so in the model the check fails
  only where it reads outside a trajectory.
\<close>

definition checkNumericalStability :: "rollout_settings \<Rightarrow> rollout_data \<Rightarrow> unit result" where
  "checkNumericalStability cfg d =
     (if \<not> checkNumericalStability_flag cfg then Inr ()
      else bind_result (map_result (\<lambda>i.
             bind_result (vec_at (roState d) i) (\<lambda>_.
               if reconstructInputTrajectory cfg then bind_result (vec_at (roInput d) i) (\<lambda>_. Inr ()) else Inr ()))
           [0 ..< length (roTime d)]) (\<lambda>_. Inr ()))"

section \<open>Time triggered rollout\<close>

type_synonym ode_steps = "scalar \<Rightarrow> vector_t \<Rightarrow> scalar \<Rightarrow> (scalar \<times> vector_t) list result"
type_synonym control_law = "scalar \<Rightarrow> vector_t \<Rightarrow> vector_t result"

text \<open>The inputs of the trajectory points that have none yet.\<close>

definition append_inputs :: "rollout_settings \<Rightarrow> control_law \<Rightarrow> rollout_data \<Rightarrow> rollout_data result" where
  "append_inputs cfg law d =
     (if reconstructInputTrajectory cfg then
        fold_result (\<lambda>k d.
            bind_result (vec_at (roTime d) k) (\<lambda>t. bind_result (vec_at (roState d) k) (\<lambda>x.
            bind_result (law t x) (\<lambda>u. Inr (d\<lparr>roInput := roInput d @ [u]\<rparr>)))))
          [length (roInput d) ..< length (roTime d)] d
      else Inr d)"

fun time_triggered_loop ::
  "rollout_settings \<Rightarrow> ode_steps \<Rightarrow> control_law \<Rightarrow> (scalar \<Rightarrow> vector_t \<Rightarrow> vector_t) \<Rightarrow>
   (scalar \<times> scalar) list \<Rightarrow> vector_t \<Rightarrow> rollout_data \<Rightarrow> rollout_data result" where
  "time_triggered_loop cfg steps law jump [] beginState d = Inr d"
| "time_triggered_loop cfg steps law jump ((b, e) # rest) beginState d =
     bind_result (if b < e then steps b beginState e else Inr [(e, beginState)]) (\<lambda>pts.
     bind_result (append_inputs cfg law (d\<lparr>roTime := roTime d @ map fst pts, roState := roState d @ map snd pts\<rparr>)) (\<lambda>d1.
       if rest = [] then Inr d1
       else bind_result (vec_back (roTime d1)) (\<lambda>t. bind_result (vec_back (roState d1)) (\<lambda>x.
         time_triggered_loop cfg steps law jump rest (jump t x)
           (d1\<lparr>roPostEvents := roPostEvents d1 @ [length (roState d1)]\<rparr>)))))"

definition time_triggered_run ::
  "rollout_settings \<Rightarrow> ode_steps \<Rightarrow> (scalar \<Rightarrow> vector_t \<Rightarrow> vector_t) \<Rightarrow> scalar \<Rightarrow> vector_t \<Rightarrow> scalar \<Rightarrow>
   control_law option \<Rightarrow> mode_schedule \<Rightarrow> (vector_t \<times> rollout_data) result" where
  "time_triggered_run cfg steps jump initTime initState finalTime ctrl schedule =
     (if initTime > finalTime then
        Inl (Runtime_Error ''[TimeTriggeredRollout::run] The initial time should be less-equal to the final time!'')
      else case ctrl of
        None \<Rightarrow> Inl (Runtime_Error ''[TimeTriggeredRollout::run] Controller is not set!'')
      | Some law \<Rightarrow>
          bind_result (findActiveModesTimeInterval initTime finalTime (eventTimes schedule)) (\<lambda>intervals.
          bind_result (time_triggered_loop cfg steps law jump intervals initState empty_rollout) (\<lambda>d.
          bind_result (checkNumericalStability cfg d) (\<lambda>_.
          bind_result (vec_back (roState d)) (\<lambda>x. Inr (x, d))))))"

section \<open>Rollout of an initializer\<close>

text \<open>\<open>compute\<close> maps time, state and next time to the input and the next state.\<close>

type_synonym initializer = "scalar \<Rightarrow> vector_t \<Rightarrow> scalar \<Rightarrow> vector_t \<times> vector_t"

text \<open>A quotient of two \<open>double\<close>s converted to \<open>size_t\<close>: truncation, undefined when not representable.\<close>

definition trunc_quotient :: "scalar \<Rightarrow> scalar \<Rightarrow> nat result" where
  "trunc_quotient x y = (if y \<noteq> 0 \<and> -1 < x / y \<and> x / y < 2 ^ 64 then Inr (nat \<lfloor>x / y\<rfloor>) else Inl Undefined)"

definition initializer_step ::
  "initializer \<Rightarrow> scalar \<Rightarrow> scalar \<Rightarrow> scalar \<Rightarrow> nat \<Rightarrow> nat \<Rightarrow> vector_t \<times> vector_t \<times> rollout_data \<Rightarrow> vector_t \<times> vector_t \<times> rollout_data" where
  "initializer_step compute dt begin remainder numSteps k acc =
     (case acc of (input, state, d) \<Rightarrow>
        let t = begin + real k * dt;
            h = (if k < numSteps then dt else remainder);
            nxt = compute t state (t + h)
        in (fst nxt, snd nxt,
            d\<lparr>roTime := roTime d @ [t], roState := roState d @ [state], roInput := roInput d @ [fst nxt]\<rparr>))"

fun initializer_loop ::
  "rollout_settings \<Rightarrow> initializer \<Rightarrow> (scalar \<times> scalar) list \<Rightarrow> vector_t \<Rightarrow> vector_t \<Rightarrow> rollout_data \<Rightarrow> rollout_data result" where
  "initializer_loop cfg compute [] input state d = Inr d"
| "initializer_loop cfg compute ((b, e) # rest) input state d =
     bind_result (trunc_quotient (e - b) (timeStep cfg)) (\<lambda>numSteps.
       let remainder = e - (b + real numSteps * timeStep cfg);
           acc = fold (initializer_step compute (timeStep cfg) b remainder numSteps) [0 ..< numSteps + 1] (input, state, d);
           input1 = fst acc; state1 = fst (snd acc); d1 = snd (snd acc);
           d2 = (if remainder > 10 * limitEpsilon
                 then d1\<lparr>roTime := roTime d1 @ [e], roState := roState d1 @ [state1], roInput := roInput d1 @ [input1]\<rparr>
                 else d1\<lparr>roTime := butlast (roTime d1) @ [e]\<rparr>);
           d3 = (if rest = [] then d2 else d2\<lparr>roPostEvents := roPostEvents d2 @ [length (roState d2)]\<rparr>)
       in initializer_loop cfg compute rest input1 state1 d3)"

definition initializer_run ::
  "rollout_settings \<Rightarrow> initializer \<Rightarrow> scalar \<Rightarrow> vector_t \<Rightarrow> scalar \<Rightarrow> mode_schedule \<Rightarrow> (vector_t \<times> rollout_data) result" where
  "initializer_run cfg compute initTime initState finalTime schedule =
     (if initTime > finalTime then
        Inl (Runtime_Error ''[InitializerRollout::run] The initial time should be less-equal to the final time!'')
      else
        bind_result (findActiveModesTimeInterval initTime finalTime (eventTimes schedule)) (\<lambda>intervals.
        bind_result (initializer_loop cfg compute intervals [] initState empty_rollout) (\<lambda>d.
        bind_result (vec_back (roState d)) (\<lambda>x. Inr (x, d)))))"

section \<open>Costs along a rollout\<close>

definition trapezoidalIntegration ::
  "scalar list \<Rightarrow> ('v :: real_vector) list \<Rightarrow> 'v \<Rightarrow> 'v result" where
  "trapezoidalIntegration timeTrajectory valueTrajectory initialValue =
     (if length timeTrajectory \<noteq> length valueTrajectory then Inl Assertion_Failed
      else if length timeTrajectory < 2 then Inr initialValue
      else Inr (fold (\<lambda>k acc. acc + scaleR (1 / 2 * (timeTrajectory ! k - timeTrajectory ! (k - 1)))
                                     (valueTrajectory ! (k - 1) + valueTrajectory ! k))
                  [1 ..< length timeTrajectory] initialValue))"

definition rolloutCost ::
  "(scalar \<Rightarrow> vector_t \<Rightarrow> vector_t \<Rightarrow> scalar) \<Rightarrow> scalar list \<Rightarrow> vector_t list \<Rightarrow> vector_t list \<Rightarrow> scalar result" where
  "rolloutCost costWraper ts xs us =
     (if length xs \<noteq> length ts \<or> length us \<noteq> length ts then Inl Assertion_Failed
      else trapezoidalIntegration ts (map (\<lambda>i. costWraper (ts ! i) (xs ! i) (us ! i)) [0 ..< length ts]) 0)"

definition rolloutConstraint ::
  "(scalar \<Rightarrow> vector_t \<Rightarrow> vector_t \<Rightarrow> vector_t) \<Rightarrow> scalar list \<Rightarrow> vector_t list \<Rightarrow> vector_t list \<Rightarrow> scalar result" where
  "rolloutConstraint constraintWraper ts xs us =
     (if length xs \<noteq> length ts \<or> length us \<noteq> length ts then Inl Assertion_Failed
      else trapezoidalIntegration ts
        (map (\<lambda>i. sum_list (map (\<lambda>c. c * c) (constraintWraper (ts ! i) (xs ! i) (us ! i)))) [0 ..< length ts]) 0)"

section \<open>Active intervals\<close>

definition active_events :: "scalar \<Rightarrow> scalar \<Rightarrow> scalar list \<Rightarrow> scalar list" where
  "active_events initTime finalTime evs = filter (\<lambda>e. initTime < e \<and> e \<le> finalTime) evs"

lemma sorted_slice_filter:
  fixes evs :: "scalar list"
  assumes "sorted evs" "p \<le> q"
  shows "take (upperBoundIndex evs q - upperBoundIndex evs p) (drop (upperBoundIndex evs p) evs) = filter (\<lambda>e. p < e \<and> e \<le> q) evs"
  using assms
proof (induction evs)
  case Nil
  then show ?case by simp
next
  case (Cons e evs)
  have later: "x \<ge> e" if "x \<in> set evs" for x using Cons.prems(1) that by simp
  consider "e \<le> p" | "p < e" "e \<le> q" | "q < e" by linarith
  then show ?case
  proof cases
    case 1
    with Cons show ?thesis by (simp add: upperBoundIndex_def)
  next
    case 2
    then have "upperBoundIndex evs p = 0"
      using later[of "hd evs"] by (cases evs) (auto simp: upperBoundIndex_def)
    with 2 Cons show ?thesis by (simp add: upperBoundIndex_def)
  next
    case 3
    then have "filter (\<lambda>e. p < e \<and> e \<le> q) evs = []" using later by (fastforce simp: filter_empty_conv)
    with 3 Cons.prems(2) show ?thesis by (simp add: upperBoundIndex_def)
  qed
qed

lemma findActiveModesTimeInterval_eq:
  assumes "sorted evs" "initTime \<le> finalTime"
  shows "findActiveModesTimeInterval initTime finalTime evs =
           Inr (intervals_of (initTime # active_events initTime finalTime evs @ [finalTime]))"
  using upper.find_mono[OF assms] upper.find_le[OF assms(1), of finalTime] sorted_slice_filter[OF assms]
  by (simp add: findActiveModesTimeInterval_def active_events_def)

lemma active_events_sorted:
  assumes "sorted evs" "initTime \<le> finalTime"
  shows "sorted (initTime # active_events initTime finalTime evs @ [finalTime])"
  using assms by (auto simp: active_events_def sorted_append sorted_filter[of "\<lambda>x. x", simplified])

section \<open>Well-formed rollout data\<close>

definition rollout_ok :: "rollout_settings \<Rightarrow> rollout_data \<Rightarrow> bool" where
  "rollout_ok cfg d =
     (length (roState d) = length (roTime d) \<and>
      (reconstructInputTrajectory cfg \<longrightarrow> length (roInput d) = length (roTime d)) \<and>
      sorted (roTime d) \<and> sorted_wrt (<) (roPostEvents d) \<and>
      (\<forall>p \<in> set (roPostEvents d). 0 < p \<and> p \<le> length (roTime d)))"

lemma append_inputs_Inr:
  assumes "length (roState d) = length (roTime d)" "length (roInput d) \<le> length (roTime d)"
    and "\<And>t x. \<exists>u. law t x = Inr u" "reconstructInputTrajectory cfg"
  shows "\<exists>us. append_inputs cfg law d = Inr (d\<lparr>roInput := us\<rparr>) \<and> length us = length (roTime d)"
proof -
  let ?body = "\<lambda>k d. bind_result (vec_at (roTime d) k) (\<lambda>t. bind_result (vec_at (roState d) k) (\<lambda>x.
            bind_result (law t x) (\<lambda>u. Inr (d\<lparr>roInput := roInput d @ [u]\<rparr>))))"
  have "\<exists>us. fold_result ?body [length (roInput d) ..< n] d = Inr (d\<lparr>roInput := us\<rparr>) \<and> length us = n"
    if "length (roInput d) \<le> n" "n \<le> length (roTime d)" for n
    using that
  proof (induction n)
    case 0
    then show ?case by (intro exI[of _ "roInput d"]) simp
  next
    case (Suc n)
    show ?case
    proof (cases "length (roInput d) = Suc n")
      case True
      then show ?thesis by (intro exI[of _ "roInput d"]) simp
    next
      case False
      with Suc obtain us where us: "fold_result ?body [length (roInput d) ..< n] d = Inr (d\<lparr>roInput := us\<rparr>)" "length us = n"
        by auto
      obtain u where "law (roTime d ! n) (roState d ! n) = Inr u" using assms(3) by blast
      with us Suc.prems False assms(1) show ?thesis
        by (intro exI[of _ "us @ [u]"]) (simp add: fold_result_append)
    qed
  qed
  from this[OF assms(2) order_refl] show ?thesis using assms(4) by (simp add: append_inputs_def)
qed

text \<open>
  What the documentation of an ODE stepper promises: between two times it observes at least one point,
  in order of time, the first at the start and the last at the end.
\<close>

definition steps_ok :: "ode_steps \<Rightarrow> bool" where
  "steps_ok steps =
     (\<forall>b x e. b < e \<longrightarrow> (\<exists>pts. steps b x e = Inr pts \<and> pts \<noteq> [] \<and> sorted (map fst pts) \<and>
        fst (hd pts) = b \<and> fst (last pts) = e))"

definition law_total :: "control_law \<Rightarrow> bool" where
  "law_total law = (\<forall>t x. succeeds (law t x))"

lemma rollout_ok_extend:
  assumes "rollout_ok cfg d" "law_total law" "\<forall>t \<in> set (roTime d). t \<le> b" "pts \<noteq> []" "sorted (map fst pts)"
    and "b \<le> fst (hd pts)"
  obtains d1 where
    "append_inputs cfg law (d\<lparr>roTime := roTime d @ map fst pts, roState := roState d @ map snd pts\<rparr>) = Inr d1"
    "rollout_ok cfg d1" "roTime d1 = roTime d @ map fst pts" "roPostEvents d1 = roPostEvents d"
    "length (roState d1) = length (roTime d1)"
proof -
  let ?d = "d\<lparr>roTime := roTime d @ map fst pts, roState := roState d @ map snd pts\<rparr>"
  have "b \<le> t" if "t \<in> set (map fst pts)" for t
    using sorted_hd_le[OF assms(5) that] assms(4,6) by (cases pts) auto
  moreover have "sorted (roTime d)" using assms(1) by (simp add: rollout_ok_def)
  ultimately have "sorted (roTime d @ map fst pts)"
    unfolding sorted_append using assms(3,5) by (meson order_trans)
  then have ok: "sorted (roTime ?d)" "length (roState ?d) = length (roTime ?d)"
    "\<forall>p \<in> set (roPostEvents d). 0 < p \<and> p \<le> length (roTime ?d)" "sorted_wrt (<) (roPostEvents d)"
    using assms(1) by (simp_all add: rollout_ok_def trans_le_add1)
  show thesis
  proof (cases "reconstructInputTrajectory cfg")
    case True
    then obtain us where us: "append_inputs cfg law ?d = Inr (?d\<lparr>roInput := us\<rparr>)" "length us = length (roTime ?d)"
      using append_inputs_Inr[of ?d law cfg] ok(2) assms(1,2) by (auto simp: rollout_ok_def law_total_def succeeds_iff)
    show ?thesis
      by (rule that[OF us(1)]) (use ok us(2) in \<open>auto simp: rollout_ok_def\<close>)
  next
    case False
    show ?thesis
      by (rule that[of ?d]) (use ok False in \<open>auto simp: rollout_ok_def append_inputs_def\<close>)
  qed
qed

lemma steps_ok_interval:
  assumes "steps_ok steps" "b \<le> e"
  obtains pts where "(if b < e then steps b x e else Inr [(e, x)]) = Inr pts" "pts \<noteq> []"
    "sorted (map fst pts)" "fst (hd pts) = b" "fst (last pts) = e"
proof (cases "b < e")
  case True
  with assms(1) that show ?thesis unfolding steps_ok_def by (metis (full_types))
next
  case False
  with assms(2) that[of "[(e, x)]"] show ?thesis by simp
qed

text \<open>
  What the two loops over the mode intervals share: \<open>fits p b e\<close> says that the parameters \<open>p\<close> can
  simulate from \<open>b\<close> to \<open>e\<close>; then one pass appends a part that covers the interval and, unless it is
  the last one, records the event behind it.
\<close>

definition add_event :: "rollout_data \<Rightarrow> rollout_data" where
  "add_event d = d\<lparr>roPostEvents := roPostEvents d @ [length (roState d)]\<rparr>"

locale rollout_loop =
  fixes fits :: "'p \<Rightarrow> scalar \<Rightarrow> scalar \<Rightarrow> bool" and cfg_of :: "'p \<Rightarrow> rollout_settings"
    and loop :: "'p \<Rightarrow> (scalar \<times> scalar) list \<Rightarrow> 's \<Rightarrow> rollout_data \<Rightarrow> rollout_data result"
  assumes fits_le: "fits p b e \<Longrightarrow> b \<le> e"
    and fits_inner: "fits p s f \<Longrightarrow> s \<le> b \<Longrightarrow> b \<le> e \<Longrightarrow> e \<le> f \<Longrightarrow> fits p b e"
    and chunk: "fits p b e \<Longrightarrow> rollout_ok (cfg_of p) d \<Longrightarrow> \<forall>t \<in> set (roTime d). t \<le> b \<Longrightarrow>
      \<exists>d1 x1 ts. rollout_ok (cfg_of p) d1 \<and> roTime d1 = roTime d @ ts \<and> ts \<noteq> [] \<and> b \<le> hd ts \<and> last ts = e \<and>
        roPostEvents d1 = roPostEvents d \<and> loop p [(b, e)] x d = Inr d1 \<and>
        (\<forall>rest. rest \<noteq> [] \<longrightarrow> loop p ((b, e) # rest) x d = loop p rest x1 (add_event d1))"
begin

text \<open>The loop over the switching times \<open>s, e, rest\<close>, from data that ends at \<open>s\<close> at the latest.\<close>

lemma loop_ok:
  assumes "fits p s (last (e # rest))" "sorted (s # e # rest)" "rollout_ok (cfg_of p) d" "\<forall>t \<in> set (roTime d). t \<le> s"
  shows "\<exists>r ts ps. loop p (intervals_of (s # e # rest)) x d = Inr r \<and> rollout_ok (cfg_of p) r \<and>
    roTime r = roTime d @ ts \<and> ts \<noteq> [] \<and> s \<le> hd ts \<and> last ts = last (e # rest) \<and>
    roPostEvents r = roPostEvents d @ ps \<and> map (\<lambda>p. roTime r ! (p - 1)) ps = butlast (e # rest) \<and>
    (\<forall>p \<in> set ps. length (roTime d) < p \<and> p < length (roTime r))"
  using assms
proof (induction rest arbitrary: s e x d)
  case Nil
  let ?b = "min (s + weakEpsilon) e"
  have sb: "s \<le> ?b" using Nil.prems(2) weakEpsilon_pos by simp
  have fit: "fits p ?b e" using fits_inner[OF Nil.prems(1) sb, of e] by simp
  have "\<forall>t \<in> set (roTime d). t \<le> ?b" using Nil.prems(4) sb by (meson order_trans)
  then obtain d1 x1 ts where d1: "rollout_ok (cfg_of p) d1" "roTime d1 = roTime d @ ts" "ts \<noteq> []" "?b \<le> hd ts"
    "last ts = e" "roPostEvents d1 = roPostEvents d" "loop p [(?b, e)] x d = Inr d1"
    using chunk[OF fit Nil.prems(3), of x] by blast
  moreover have "s \<le> hd ts" using order_trans[OF sb d1(4)] .
  ultimately show ?case
    by (intro exI[of _ d1] exI[of _ ts] exI[of _ "[]"]) simp
next
  case (Cons e2 rest)
  let ?b = "min (s + weakEpsilon) e"
  have sb: "s \<le> ?b" "s \<le> e" "e \<le> last (e2 # rest)"
    using Cons.prems(2) weakEpsilon_pos sorted_last_ge[of "e # e2 # rest" e] by auto
  have fit: "fits p ?b e" "fits p e (last (e2 # rest))"
    using fits_inner[OF Cons.prems(1), of ?b e] fits_inner[OF Cons.prems(1), of e "last (e2 # rest)"] sb by auto
  have "\<forall>t \<in> set (roTime d). t \<le> ?b" using Cons.prems(4) sb by (meson order_trans)
  then obtain d1 x1 ts1 where d1: "rollout_ok (cfg_of p) d1" "roTime d1 = roTime d @ ts1" "ts1 \<noteq> []" "?b \<le> hd ts1"
    "last ts1 = e" "roPostEvents d1 = roPostEvents d"
    "\<And>rest. rest \<noteq> [] \<Longrightarrow> loop p ((?b, e) # rest) x d = loop p rest x1 (add_event d1)"
    using chunk[OF fit(1) Cons.prems(3), of x] by blast
  have ne: "roTime d1 \<noteq> []" using d1(2,3) by simp
  have at_end: "last (roTime d1) = e" using d1(2,3,5) by simp
  have len: "length (roState d1) = length (roTime d1)" using d1(1) by (simp add: rollout_ok_def)
  have "length (roTime d) < length (roTime d1)" using d1(2,3) by simp
  then have "\<forall>p \<in> set (roPostEvents d1). p < length (roTime d1)"
    using Cons.prems(3) unfolding rollout_ok_def d1(6) by (meson le_less_trans)
  then have "sorted_wrt (<) (roPostEvents d1 @ [length (roState d1)])"
    using d1(1) len by (simp add: rollout_ok_def sorted_wrt_append)
  then have ok2: "rollout_ok (cfg_of p) (add_event d1)"
    using d1(1) ne by (simp add: rollout_ok_def add_event_def)
  have upto: "\<forall>t \<in> set (roTime (add_event d1)). t \<le> e"
    using sorted_last_ge[of "roTime d1"] d1(1) at_end by (simp add: rollout_ok_def add_event_def)
  obtain r ts ps where IH:
    "loop p (intervals_of (e # e2 # rest)) x1 (add_event d1) = Inr r"
    "rollout_ok (cfg_of p) r" "roTime r = roTime d1 @ ts" "ts \<noteq> []" "last ts = last (e2 # rest)"
    "roPostEvents r = roPostEvents d1 @ [length (roTime d1)] @ ps" "map (\<lambda>p. roTime r ! (p - 1)) ps = butlast (e2 # rest)"
    "\<forall>p \<in> set ps. length (roTime d1) < p \<and> p < length (roTime r)"
    using Cons.IH[OF fit(2) _ ok2 upto, of x1] Cons.prems(2) len by (auto simp: add_event_def)
  have run: "loop p (intervals_of (s # e # e2 # rest)) x d = Inr r"
    using d1(7)[of "intervals_of (e # e2 # rest)"] IH(1) by simp
  have first: "roTime r ! (length (roTime d1) - 1) = e"
    using IH(3) ne(1) at_end by (simp add: nth_append last_conv_nth)
  show ?case
  proof (intro exI[of _ r] exI[of _ "ts1 @ ts"] exI[of _ "length (roTime d1) # ps"] conjI run IH(2))
    show "roTime r = roTime d @ ts1 @ ts" using IH(3) d1(2) by simp
    show "ts1 @ ts \<noteq> []" using IH(4) by simp
    show "s \<le> hd (ts1 @ ts)" using order_trans[OF sb(1) d1(4)] d1(3) by simp
    show "last (ts1 @ ts) = last (e # e2 # rest)" using IH(4,5) by simp
    show "roPostEvents r = roPostEvents d @ length (roTime d1) # ps" using IH(6) d1(6) by simp
    show "map (\<lambda>p. roTime r ! (p - 1)) (length (roTime d1) # ps) = butlast (e # e2 # rest)" using first IH(7) by simp
    show "\<forall>p \<in> set (length (roTime d1) # ps). length (roTime d) < p \<and> p < length (roTime r)"
      using IH(3,4,8) d1(2,3) by (auto simp: Suc_le_eq)
  qed
qed

text \<open>The whole loop from empty data, over the active events of a horizon.\<close>

lemma loop_from_empty:
  assumes "fits p initTime finalTime" "sorted evs"
  shows "\<exists>r. bind_result (findActiveModesTimeInterval initTime finalTime evs) (\<lambda>is. loop p is x empty_rollout) = Inr r \<and>
    rollout_ok (cfg_of p) r \<and> roTime r \<noteq> [] \<and> initTime \<le> hd (roTime r) \<and> last (roTime r) = finalTime \<and>
    map (\<lambda>p. roTime r ! (p - 1)) (roPostEvents r) = active_events initTime finalTime evs \<and>
    (\<forall>p \<in> set (roPostEvents r). 0 < p \<and> p < length (roTime r))"
proof -
  note le = fits_le[OF assms(1)]
  let ?ev = "active_events initTime finalTime evs"
  obtain e rest where er: "?ev @ [finalTime] = e # rest" by (cases ?ev) auto
  have ends: "last (e # rest) = finalTime" "butlast (e # rest) = ?ev" unfolding er[symmetric] by simp_all
  have sorted: "sorted (initTime # e # rest)" using active_events_sorted[OF assms(2) le] er by simp
  have ok: "rollout_ok (cfg_of p) empty_rollout" by (simp add: rollout_ok_def empty_rollout_def)
  have "fits p initTime (last (e # rest))" using assms(1) ends by simp
  from loop_ok[OF this sorted ok, of x] show ?thesis
    using findActiveModesTimeInterval_eq[OF assms(2) le] er ends by (auto simp: empty_rollout_def)
qed

end

definition time_triggered_fits ::
  "rollout_settings \<times> ode_steps \<times> control_law \<times> (scalar \<Rightarrow> vector_t \<Rightarrow> vector_t) \<Rightarrow> scalar \<Rightarrow> scalar \<Rightarrow> bool" where
  "time_triggered_fits p b e = (case p of (cfg, steps, law, jump) \<Rightarrow> steps_ok steps \<and> law_total law \<and> b \<le> e)"

interpretation time_triggered: rollout_loop time_triggered_fits fst
  "\<lambda>(cfg, steps, law, jump). time_triggered_loop cfg steps law jump"
proof
  show "b \<le> e" if "time_triggered_fits p b e" for p b e using that by (auto simp: time_triggered_fits_def)
  show "time_triggered_fits p b e" if "time_triggered_fits p s f" "b \<le> e" for p s f b e
    using that by (auto simp: time_triggered_fits_def)
  fix p b e d x
  assume fit: "time_triggered_fits p b e" and ok: "rollout_ok (fst p) d" and upto: "\<forall>t \<in> set (roTime d). t \<le> b"
  obtain cfg steps law jump where p: "p = (cfg, steps, law, jump)" by (cases p)
  have p_ok: "steps_ok steps" "law_total law" "b \<le> e" using fit by (auto simp: time_triggered_fits_def p)
  obtain pts where pts: "(if b < e then steps b x e else Inr [(e, x)]) = Inr pts" "pts \<noteq> []"
    "sorted (map fst pts)" "fst (hd pts) = b" "fst (last pts) = e"
    by (rule steps_ok_interval[OF p_ok(1,3), of x])
  have ok': "rollout_ok cfg d" using ok p by simp
  obtain d1 where d1: "append_inputs cfg law (d\<lparr>roTime := roTime d @ map fst pts, roState := roState d @ map snd pts\<rparr>) = Inr d1"
    "rollout_ok cfg d1" "roTime d1 = roTime d @ map fst pts" "roPostEvents d1 = roPostEvents d" "length (roState d1) = length (roTime d1)"
    using rollout_ok_extend[OF ok' p_ok(2) upto pts(2,3)] pts(4) by (metis order_refl)
  have ne: "roTime d1 \<noteq> []" "roState d1 \<noteq> []" using d1(3,5) pts(2) by auto
  show "\<exists>d1 x1 ts. rollout_ok (fst p) d1 \<and> roTime d1 = roTime d @ ts \<and> ts \<noteq> [] \<and> b \<le> hd ts \<and> last ts = e \<and>
      roPostEvents d1 = roPostEvents d \<and> (case p of (cfg, steps, law, jump) \<Rightarrow> time_triggered_loop cfg steps law jump) [(b, e)] x d = Inr d1 \<and>
      (\<forall>rest. rest \<noteq> [] \<longrightarrow> (case p of (cfg, steps, law, jump) \<Rightarrow> time_triggered_loop cfg steps law jump) ((b, e) # rest) x d
        = (case p of (cfg, steps, law, jump) \<Rightarrow> time_triggered_loop cfg steps law jump) rest x1 (add_event d1))"
    using d1 pts ne unfolding p
    by (intro exI[of _ d1] exI[of _ "jump (last (roTime d1)) (last (roState d1))"] exI[of _ "map fst pts"])
      (simp add: add_event_def hd_map last_map)
qed

lemma checkNumericalStability_ok:
  assumes "rollout_ok cfg d"
  shows "checkNumericalStability cfg d = Inr ()"
proof -
  have "map_result (\<lambda>i. bind_result (vec_at (roState d) i) (\<lambda>_.
      if reconstructInputTrajectory cfg then bind_result (vec_at (roInput d) i) (\<lambda>_. Inr ()) else Inr ())) [0 ..< length (roTime d)]
    = Inr (map (\<lambda>_. ()) [0 ..< length (roTime d)])"
    by (rule map_result_all) (use assms in \<open>auto simp: rollout_ok_def\<close>)
  then show ?thesis by (simp add: checkNumericalStability_def)
qed

text \<open>
  A time triggered rollout over sorted events, with an ODE stepper as documented and a controller that
  answers every query, succeeds for every horizon of non-negative length: times, states and (when asked
  for) inputs have the same length, the times are sorted, lie in the horizon and end exactly at its
  end, and the post-event indices are strictly increasing, inside the trajectory, and stand exactly
  behind the event times of the half-open horizon \<open>(initTime, finalTime]\<close>.
\<close>

theorem time_triggered_rollout_correct:
  assumes "steps_ok steps" "law_total law" "sorted (eventTimes schedule)" "initTime \<le> finalTime"
  shows "\<exists>x d. time_triggered_run cfg steps jump initTime initState finalTime (Some law) schedule = Inr (x, d) \<and>
           x = last (roState d) \<and> length (roState d) = length (roTime d) \<and>
           (reconstructInputTrajectory cfg \<longrightarrow> length (roInput d) = length (roTime d)) \<and>
           sorted (roTime d) \<and> roTime d \<noteq> [] \<and> initTime \<le> hd (roTime d) \<and> last (roTime d) = finalTime \<and>
           sorted_wrt (<) (roPostEvents d) \<and> (\<forall>p \<in> set (roPostEvents d). 0 < p \<and> p < length (roTime d)) \<and>
           map (\<lambda>p. roTime d ! (p - 1)) (roPostEvents d) = active_events initTime finalTime (eventTimes schedule)"
proof -
  have "time_triggered_fits (cfg, steps, law, jump) initTime finalTime" using assms by (simp add: time_triggered_fits_def)
  from time_triggered.loop_from_empty[OF this assms(3), of initState]
  obtain r where r: "bind_result (findActiveModesTimeInterval initTime finalTime (eventTimes schedule))
        (\<lambda>is. time_triggered_loop cfg steps law jump is initState empty_rollout) = Inr r"
    and ok: "rollout_ok cfg r" "roTime r \<noteq> []" "initTime \<le> hd (roTime r)" "last (roTime r) = finalTime"
      "map (\<lambda>p. roTime r ! (p - 1)) (roPostEvents r) = active_events initTime finalTime (eventTimes schedule)"
      "\<forall>p \<in> set (roPostEvents r). 0 < p \<and> p < length (roTime r)"
    by auto
  have ne: "roState r \<noteq> []" using ok(1,2) by (auto simp: rollout_ok_def)
  have "time_triggered_run cfg steps jump initTime initState finalTime (Some law) schedule = Inr (last (roState r), r)"
    using assms(4) r checkNumericalStability_ok[OF ok(1)] ne
    by (auto simp: time_triggered_run_def bind_result_eq_Inr)
  then show ?thesis
    using ok unfolding rollout_ok_def by (intro exI[of _ "last (roState r)"] exI[of _ r]) simp
qed

theorem time_triggered_rollout_correct_witness:
  "\<exists>x d. time_triggered_run \<lparr>absTolODE = 1, timeStep = 1, checkNumericalStability_flag = True, reconstructInputTrajectory = True,
        maxSingleEventIterations = 10, useTrajectorySpreadingController = False\<rparr>
      (\<lambda>b x e. Inr [(b, x), (e, x)]) (\<lambda>t x. x) 0 [1] 2 (Some (\<lambda>t x. Inr [0])) \<lparr>eventTimes = [1], modeSequence = [0, 1]\<rparr> = Inr (x, d) \<and>
    last (roTime d) = 2 \<and> length (roInput d) = length (roTime d) \<and> map (\<lambda>p. roTime d ! (p - 1)) (roPostEvents d) = [1]"
proof -
  have "steps_ok (\<lambda>b x e. Inr [(b, x), (e, x)])" "law_total (\<lambda>t x. Inr [0])"
    by (auto simp: steps_ok_def law_total_def)
  from time_triggered_rollout_correct[OF this, of "\<lparr>eventTimes = [1], modeSequence = [0, 1]\<rparr>" 0 2
      "\<lparr>absTolODE = 1, timeStep = 1, checkNumericalStability_flag = True, reconstructInputTrajectory = True,
        maxSingleEventIterations = 10, useTrajectorySpreadingController = False\<rparr>" "\<lambda>t x. x" "[1]"]
  show ?thesis by (auto simp: active_events_def)
qed

section \<open>The initializer rollout\<close>

definition initializer_fits :: "rollout_settings \<times> initializer \<Rightarrow> scalar \<Rightarrow> scalar \<Rightarrow> bool" where
  "initializer_fits p b e = (b \<le> e \<and> 0 < timeStep (fst p) \<and> e - b < 2 ^ 64 * timeStep (fst p))"

lemma initializer_steps:
  obtains u' x' us xs where
    "fold (initializer_step compute dt b r n) [0 ..< m] (u, x, d)
       = (u', x', d\<lparr>roTime := roTime d @ map (\<lambda>k. b + real k * dt) [0 ..< m], roState := roState d @ xs, roInput := roInput d @ us\<rparr>)"
    "length xs = m" "length us = m"
proof (induction m arbitrary: thesis)
  case 0
  show ?case by (rule 0[of u x "[]" "[]"]) simp_all
next
  case (Suc m)
  obtain u' x' us xs where IH:
    "fold (initializer_step compute dt b r n) [0 ..< m] (u, x, d)
       = (u', x', d\<lparr>roTime := roTime d @ map (\<lambda>k. b + real k * dt) [0 ..< m], roState := roState d @ xs, roInput := roInput d @ us\<rparr>)"
    "length xs = m" "length us = m"
    by (rule Suc.IH)
  let ?nxt = "compute (b + real m * dt) x' (b + real m * dt + (if m < n then dt else r))"
  have "fold (initializer_step compute dt b r n) [0 ..< Suc m] (u, x, d)
      = initializer_step compute dt b r n m (fold (initializer_step compute dt b r n) [0 ..< m] (u, x, d))" by simp
  also note IH(1)
  finally show ?case
    by (rule Suc.prems[of "fst ?nxt" "snd ?nxt" "us @ [fst ?nxt]" "xs @ [x']", OF trans])
      (simp_all add: IH initializer_step_def Let_def)
qed

lemma rollout_update_order:
  fixes d :: rollout_data
  shows "d\<lparr>roState := xs, roInput := us, roTime := ts\<rparr> = d\<lparr>roTime := ts, roState := xs, roInput := us\<rparr>"
    and "d\<lparr>roState := xs, roInput := us, roTime := ts, roPostEvents := ps\<rparr>
      = d\<lparr>roTime := ts, roState := xs, roInput := us, roPostEvents := ps\<rparr>"
  by (cases d, simp)+

lemma step_times_sorted:
  assumes "0 < dt" "b + real (m - 1) * dt \<le> e" "m > 0"
  shows "sorted (map (\<lambda>k. b + real k * dt) [0 ..< m] @ [e])"
proof -
  have "b + real k * dt \<le> e" if "k < m" for k
  proof -
    have "real k * dt \<le> real (m - 1) * dt" using that assms(1) by (intro mult_right_mono) auto
    with assms(2) show ?thesis by linarith
  qed
  moreover have "sorted (map (\<lambda>k. b + real k * dt) [0 ..< m])"
    using assms(1) by (simp add: sorted_iff_nth_mono mult_right_mono)
  ultimately show ?thesis by (simp add: sorted_append)
qed

lemma rollout_ok_append:
  assumes "rollout_ok cfg d" "\<forall>t \<in> set (roTime d). t \<le> b" "ts \<noteq> []" "b \<le> hd ts" "sorted ts"
    and "length xs = length ts" "length us = length ts"
  shows "rollout_ok cfg (d\<lparr>roTime := roTime d @ ts, roState := roState d @ xs, roInput := roInput d @ us\<rparr>)"
proof -
  have "b \<le> t" if "t \<in> set ts" for t using sorted_hd_le[OF assms(5) that] assms(4) by simp
  moreover have "sorted (roTime d)" using assms(1) by (simp add: rollout_ok_def)
  ultimately have "sorted (roTime d @ ts)"
    unfolding sorted_append using assms(2,5) by (meson order_trans)
  then show ?thesis using assms(1,6,7) by (simp add: rollout_ok_def trans_le_add1)
qed

text \<open>One interval: the steps it takes, the remainder and the data it appends.\<close>

lemma initializer_chunk:
  assumes "initializer_fits (cfg, compute) b e" "rollout_ok cfg d" "\<forall>t \<in> set (roTime d). t \<le> b"
  obtains d1 ts u1 x1 where
    "rollout_ok cfg d1" "roTime d1 = roTime d @ ts" "ts \<noteq> []" "b \<le> hd ts" "last ts = e" "roPostEvents d1 = roPostEvents d"
    "\<And>rest. initializer_loop cfg compute ((b, e) # rest) u x d
       = initializer_loop cfg compute rest u1 x1 (if rest = [] then d1 else add_event d1)"
proof -
  let ?dt = "timeStep cfg"
  have fit: "b \<le> e" "0 < ?dt" "(e - b) / ?dt < 2 ^ 64"
    using assms(1) by (simp_all add: initializer_fits_def pos_divide_less_eq)
  define n where "n = nat \<lfloor>(e - b) / ?dt\<rfloor>"
  have q: "trunc_quotient (e - b) ?dt = Inr n"
  proof -
    have "0 \<le> (e - b) / ?dt" using fit(1,2) by (intro divide_nonneg_pos) auto
    then have "-1 < (e - b) / ?dt" by linarith
    with fit(2,3) show ?thesis by (simp add: trunc_quotient_def n_def)
  qed
  have "real n \<le> (e - b) / ?dt" using fit(1,2) by (simp add: n_def)
  then have reach: "b + real n * ?dt \<le> e" using fit(2) by (simp add: pos_le_divide_eq)
  define r where "r = e - (b + real n * ?dt)"
  obtain u' x' us xs where steps:
    "fold (initializer_step compute ?dt b r n) [0 ..< n + 1] (u, x, d)
       = (u', x', d\<lparr>roTime := roTime d @ map (\<lambda>k. b + real k * ?dt) [0 ..< n + 1], roState := roState d @ xs, roInput := roInput d @ us\<rparr>)"
    "length xs = n + 1" "length us = n + 1"
    by (rule initializer_steps)
  show thesis
  proof (cases "r > 10 * limitEpsilon")
    case True
    let ?ts = "map (\<lambda>k. b + real k * ?dt) [0 ..< n + 1] @ [e]"
    have s: "sorted ?ts" by (rule step_times_sorted) (use fit(2) reach in auto)
    have h: "hd ?ts = b" by (simp add: upt_conv_Cons del: upt_Suc)
    show ?thesis
      by (rule that[of "d\<lparr>roTime := roTime d @ ?ts, roState := roState d @ xs @ [x'], roInput := roInput d @ us @ [u']\<rparr>" ?ts u' x'])
        (use rollout_ok_append[OF assms(2,3) _ _ s, of "xs @ [x']" "us @ [u']"] h steps True q r_def
          in \<open>simp_all add: Let_def add_event_def del: upt_Suc\<close>)
  next
    case False
    let ?ts = "map (\<lambda>k. b + real k * ?dt) [0 ..< n] @ [e]"
    have s: "sorted ?ts"
    proof (cases "n = 0")
      case False
      have "real (n - 1) * ?dt \<le> real n * ?dt" using fit(2) by (intro mult_right_mono) auto
      with reach have "b + real (n - 1) * ?dt \<le> e" by linarith
      with fit(2) False show ?thesis by (intro step_times_sorted) simp_all
    qed simp
    have h: "b \<le> hd ?ts" using fit(1) by (cases n) (simp_all add: upt_conv_Cons del: upt_Suc)
    have bl: "butlast (roTime d @ map (\<lambda>k. b + real k * ?dt) [0 ..< n + 1]) @ [e] = roTime d @ ?ts"
      by (simp add: butlast_append)
    show ?thesis
      by (rule that[of "d\<lparr>roTime := roTime d @ ?ts, roState := roState d @ xs, roInput := roInput d @ us\<rparr>" ?ts u' x'])
        (use rollout_ok_append[OF assms(2,3) _ h s, of xs us] h steps False q r_def bl
          in \<open>simp_all add: Let_def add_event_def rollout_update_order del: upt_Suc\<close>)
  qed
qed

interpretation initializer: rollout_loop initializer_fits fst
  "\<lambda>(cfg, compute) is ux d. initializer_loop cfg compute is (fst ux) (snd ux) d"
proof
  show "b \<le> e" if "initializer_fits p b e" for p b e using that by (simp add: initializer_fits_def)
  show "initializer_fits p b e" if "initializer_fits p s f" "s \<le> b" "b \<le> e" "e \<le> f" for p s f b e
    using that by (simp add: initializer_fits_def)
  fix p b e d ux
  assume fit: "initializer_fits p b e" and ok: "rollout_ok (fst p) d" and upto: "\<forall>t \<in> set (roTime d). t \<le> b"
  obtain cfg compute where p: "p = (cfg, compute)" by (cases p)
  obtain d1 ts u1 x1 where d1:
    "rollout_ok cfg d1" "roTime d1 = roTime d @ ts" "ts \<noteq> []" "b \<le> hd ts" "last ts = e" "roPostEvents d1 = roPostEvents d"
    "\<And>rest. initializer_loop cfg compute ((b, e) # rest) (fst ux) (snd ux) d
       = initializer_loop cfg compute rest u1 x1 (if rest = [] then d1 else add_event d1)"
    by (rule initializer_chunk[OF fit[unfolded p] _ upto, of "fst ux" "snd ux"]) (use ok p in auto)
  show "\<exists>d1 x1 ts. rollout_ok (fst p) d1 \<and> roTime d1 = roTime d @ ts \<and> ts \<noteq> [] \<and> b \<le> hd ts \<and> last ts = e \<and>
      roPostEvents d1 = roPostEvents d \<and>
      (case p of (cfg, compute) \<Rightarrow> \<lambda>is ux d. initializer_loop cfg compute is (fst ux) (snd ux) d) [(b, e)] ux d = Inr d1 \<and>
      (\<forall>rest. rest \<noteq> [] \<longrightarrow>
        (case p of (cfg, compute) \<Rightarrow> \<lambda>is ux d. initializer_loop cfg compute is (fst ux) (snd ux) d) ((b, e) # rest) ux d =
        (case p of (cfg, compute) \<Rightarrow> \<lambda>is ux d. initializer_loop cfg compute is (fst ux) (snd ux) d) rest x1 (add_event d1))"
    using d1(1-6) p by (intro exI[of _ d1] exI[of _ "(u1, x1)"] exI[of _ ts]) (simp add: d1(7) del: initializer_loop.simps(2))
qed

text \<open>
  An initializer rollout with a positive time step over sorted events succeeds for every horizon of
  non-negative length with fewer than \<open>2^64\<close> steps: states, inputs and times have the same length, the
  times are sorted, lie in the horizon and end exactly at its end, and the post-event indices stand
  exactly behind the event times of \<open>(initTime, finalTime]\<close>.
\<close>

theorem initializer_rollout_correct:
  assumes "0 < timeStep cfg" "finalTime - initTime < 2 ^ 64 * timeStep cfg" "reconstructInputTrajectory cfg"
    and "sorted (eventTimes schedule)" "initTime \<le> finalTime"
  shows "\<exists>x d. initializer_run cfg compute initTime initState finalTime schedule = Inr (x, d) \<and>
           length (roState d) = length (roTime d) \<and> length (roInput d) = length (roTime d) \<and>
           sorted (roTime d) \<and> roTime d \<noteq> [] \<and> initTime \<le> hd (roTime d) \<and> last (roTime d) = finalTime \<and>
           sorted_wrt (<) (roPostEvents d) \<and> (\<forall>p \<in> set (roPostEvents d). 0 < p \<and> p < length (roTime d)) \<and>
           map (\<lambda>p. roTime d ! (p - 1)) (roPostEvents d) = active_events initTime finalTime (eventTimes schedule)"
proof -
  have "initializer_fits (cfg, compute) initTime finalTime" using assms by (simp add: initializer_fits_def)
  from initializer.loop_from_empty[OF this assms(4), of "([], initState)"]
  obtain r where r: "bind_result (findActiveModesTimeInterval initTime finalTime (eventTimes schedule))
        (\<lambda>is. initializer_loop cfg compute is [] initState empty_rollout) = Inr r"
    and ok: "rollout_ok cfg r" "roTime r \<noteq> []" "initTime \<le> hd (roTime r)" "last (roTime r) = finalTime"
      "map (\<lambda>p. roTime r ! (p - 1)) (roPostEvents r) = active_events initTime finalTime (eventTimes schedule)"
      "\<forall>p \<in> set (roPostEvents r). 0 < p \<and> p < length (roTime r)"
    by auto
  have ne: "roState r \<noteq> []" using ok(1,2) by (auto simp: rollout_ok_def)
  have "initializer_run cfg compute initTime initState finalTime schedule = Inr (last (roState r), r)"
    using assms(5) r ne by (auto simp: initializer_run_def bind_result_eq_Inr)
  then show ?thesis
    using ok assms(3) unfolding rollout_ok_def by (intro exI[of _ "last (roState r)"] exI[of _ r]) simp
qed

theorem initializer_rollout_correct_witness:
  "\<exists>x d. initializer_run \<lparr>absTolODE = 1, timeStep = 1 / 2, checkNumericalStability_flag = True, reconstructInputTrajectory = True,
        maxSingleEventIterations = 10, useTrajectorySpreadingController = False\<rparr>
      (\<lambda>t x t'. ([0], x)) 0 [1] 2 \<lparr>eventTimes = [1], modeSequence = [0, 1]\<rparr> = Inr (x, d) \<and>
    last (roTime d) = 2 \<and> length (roInput d) = length (roTime d) \<and> map (\<lambda>p. roTime d ! (p - 1)) (roPostEvents d) = [1]"
  using initializer_rollout_correct[of "\<lparr>absTolODE = 1, timeStep = 1 / 2, checkNumericalStability_flag = True, reconstructInputTrajectory = True,
        maxSingleEventIterations = 10, useTrajectorySpreadingController = False\<rparr>" 2 0 "\<lparr>eventTimes = [1], modeSequence = [0, 1]\<rparr>" "\<lambda>t x t'. ([0], x)" "[1]"]
  by (auto simp: active_events_def)

end
