(* ===== verification/State_Triggered_Rollout.thy ===== *)
theory State_Triggered_Rollout
  imports Rollout Root_Finder Controllers
begin

text \<open>
  \<open>core/ocs2_oc/rollout/StateTriggeredRollout\<close> with the event handlers of
  \<open>core/ocs2_core/integration\<close>: the simulation of a system whose mode changes when a guard surface is
  crossed. The ODE stepper is again an argument, here one that depends on the control law; the guard
  surfaces and the jump map of the system are arguments too.
\<close>

section \<open>Event handlers\<close>

text \<open>\<open>std::numeric_limits<double>::lowest()\<close>.\<close>

definition double_lowest :: scalar where
  "double_lowest = - (2 ^ 1024 - 2 ^ 971)"

record event_handler =
  killIntegration :: bool
  minEventTimeDifference :: scalar
  guardSurfacesValuesPrevious :: vector_t
  lastEventTriggeredTime :: scalar

definition reset_handler :: "event_handler \<Rightarrow> event_handler" where
  "reset_handler h = h\<lparr>killIntegration := False, lastEventTriggeredTime := double_lowest, guardSurfacesValuesPrevious := []\<rparr>"

definition StateTriggeredEventHandler :: "scalar \<Rightarrow> event_handler" where
  "StateTriggeredEventHandler minDiff =
     reset_handler \<lparr>killIntegration = False, minEventTimeDifference = minDiff, guardSurfacesValuesPrevious = [],
                    lastEventTriggeredTime = double_lowest\<rparr>"

definition setLastEvent :: "scalar \<Rightarrow> vector_t \<Rightarrow> event_handler \<Rightarrow> event_handler" where
  "setLastEvent t guards h = h\<lparr>lastEventTriggeredTime := t, guardSurfacesValuesPrevious := guards\<rparr>"

text \<open>The last guard surface that went from positive to non-positive.\<close>

definition crossed_guard :: "vector_t \<Rightarrow> vector_t \<Rightarrow> nat option" where
  "crossed_guard previous current =
     fold (\<lambda>i ev. if current ! i \<le> 0 \<and> previous ! i > 0 then Some i else ev) [0 ..< length previous] None"

definition checkEvent :: "vector_t \<Rightarrow> scalar \<Rightarrow> event_handler \<Rightarrow> (nat option \<times> event_handler) result" where
  "checkEvent current time h =
     (if time - lastEventTriggeredTime h > minEventTimeDifference h then
        (if length current < length (guardSurfacesValuesPrevious h) then Inl Assertion_Failed
         else case crossed_guard (guardSurfacesValuesPrevious h) current of
                Some i \<Rightarrow> Inr (Some i, h)
              | None \<Rightarrow> Inr (None, h\<lparr>guardSurfacesValuesPrevious := current\<rparr>))
      else Inr (None, h\<lparr>guardSurfacesValuesPrevious := current\<rparr>))"

definition handleEvent :: "vector_t \<Rightarrow> scalar \<Rightarrow> event_handler \<Rightarrow> (nat option \<times> event_handler) result" where
  "handleEvent current time h =
     (if killIntegration h then
        Inl (Runtime_Error ''Integration terminated due to an external signal triggered by a program.'')
      else checkEvent current time h)"

text \<open>
  The callback of the integrator, point by point: the observer stores the point, then the handler is
  asked; an event ends the integration (the code throws its index).
\<close>

type_synonym guard_fun = "scalar \<Rightarrow> vector_t \<Rightarrow> vector_t"

fun integrate_points ::
  "guard_fun \<Rightarrow> (scalar \<times> vector_t) list \<Rightarrow> event_handler \<Rightarrow> rollout_data \<Rightarrow> (nat option \<times> event_handler \<times> rollout_data) result" where
  "integrate_points guard [] h d = Inr (None, h, d)"
| "integrate_points guard ((t, x) # pts) h d =
     (let d1 = d\<lparr>roTime := roTime d @ [t], roState := roState d @ [x]\<rparr>
      in bind_result (handleEvent (guard t x) t h) (\<lambda>(ev, h1).
           case ev of Some i \<Rightarrow> Inr (Some i, h1, d1) | None \<Rightarrow> integrate_points guard pts h1 d1))"

section \<open>The loop\<close>

record st_state =
  stData :: rollout_data
  stModes :: mode_schedule
  stHandler :: event_handler
  stFinder :: root_finder
  stT0 :: scalar
  stT1 :: scalar
  stX0 :: vector_t
  stEventID :: nat
  stRefining :: bool
  stSingleIterations :: int
  stTotalIterations :: int

datatype st_outcome = Finished st_state | Running st_state

definition pop_back :: "'a list \<Rightarrow> 'a list result" where
  "pop_back xs = (if xs = [] then Inl Undefined else Inr (butlast xs))"

definition pop_point :: "rollout_data \<Rightarrow> rollout_data result" where
  "pop_point d = bind_result (pop_back (roState d)) (\<lambda>xs. bind_result (pop_back (roTime d)) (\<lambda>ts.
     Inr (d\<lparr>roState := xs, roTime := ts\<rparr>)))"

text \<open>An event is accepted: the next integration starts right behind it from the state after the jump.\<close>

definition accept_event ::
  "guard_fun \<Rightarrow> (scalar \<Rightarrow> vector_t \<Rightarrow> vector_t) \<Rightarrow> scalar \<Rightarrow> scalar \<Rightarrow> vector_t \<Rightarrow> st_state \<Rightarrow> st_state" where
  "accept_event guard jump finalTime queryTime queryState s =
     (let t0 = queryTime + weakEpsilon;
          x0 = jump queryTime queryState
      in s\<lparr>stT0 := t0, stT1 := finalTime, stX0 := x0,
           stData := (stData s)\<lparr>roPostEvents := roPostEvents (stData s) @ [length (roState (stData s))]\<rparr>,
           stModes := (stModes s)\<lparr>eventTimes := eventTimes (stModes s) @ [queryTime],
                                  modeSequence := modeSequence (stModes s) @ [stEventID s]\<rparr>,
           stHandler := setLastEvent t0 (guard t0 x0) (stHandler s),
           stRefining := False, stSingleIterations := 0\<rparr>)"

text \<open>The bracket of the root finder is set up or narrowed and the next query starts from the last point.\<close>

definition refine_event ::
  "guard_fun \<Rightarrow> scalar \<Rightarrow> scalar \<Rightarrow> st_state \<Rightarrow> st_state result" where
  "refine_event guard queryTime queryGuard s =
     (let d = stData s in
      bind_result (if stRefining s then Inr (updateBracket queryTime queryGuard (stFinder s))
        else bind_result (vec_back (roTime d)) (\<lambda>timeBefore. bind_result (vec_back (roState d)) (\<lambda>stateBefore.
             bind_result (eigen_at (guard timeBefore stateBefore) (stEventID s)) (\<lambda>guardBefore.
               setInitBracket4 timeBefore queryTime guardBefore queryGuard (stFinder s))))) (\<lambda>finder.
      bind_result (vec_back (roTime d)) (\<lambda>t0. bind_result (vec_back (roState d)) (\<lambda>x0.
      bind_result (pop_point d) (\<lambda>d1. bind_result (pop_back (roInput d1)) (\<lambda>us.
        Inr (s\<lparr>stFinder := finder, stRefining := True, stT1 := getNewQuery finder, stT0 := t0, stX0 := x0,
               stData := d1\<lparr>roInput := us\<rparr>\<rparr>)))))))"

text \<open>
  The first part of a pass: integrate, evaluate the guard at the last point, drop that point when it
  lies past the guard, and complete the inputs.
\<close>

definition st_integrate ::
  "rollout_settings \<Rightarrow> ode_steps \<Rightarrow> control_law \<Rightarrow> guard_fun \<Rightarrow> st_state \<Rightarrow> (scalar \<times> vector_t \<times> scalar \<times> bool \<times> st_state) result" where
  "st_integrate cfg steps law guard s =
     bind_result (steps (stT0 s) (stX0 s) (stT1 s)) (\<lambda>pts.
     bind_result (integrate_points guard pts (stHandler s) (stData s)) (\<lambda>(ev, h, d).
     let triggered = (ev \<noteq> None); eventID = (case ev of Some i \<Rightarrow> i | None \<Rightarrow> stEventID s) in
     bind_result (vec_back (roTime d)) (\<lambda>queryTime. bind_result (vec_back (roState d)) (\<lambda>queryState.
     bind_result (eigen_at (guard queryTime queryState) eventID) (\<lambda>queryGuard.
     let accuracyCondition = (\<bar>queryGuard\<bar> < absTolODE cfg \<or> \<bar>stT1 s - stT0 s\<bar> < absTolODE cfg) in
     bind_result (if triggered \<and> \<not> accuracyCondition then pop_point d else Inr d) (\<lambda>d1.
     bind_result (append_inputs cfg law d1) (\<lambda>d2.
       Inr (queryTime, queryState, queryGuard, accuracyCondition,
            s\<lparr>stHandler := h, stEventID := eventID, stData := d2\<rparr>))))))))"

definition st_step ::
  "rollout_settings \<Rightarrow> ode_steps \<Rightarrow> control_law \<Rightarrow> guard_fun \<Rightarrow> (scalar \<Rightarrow> vector_t \<Rightarrow> vector_t) \<Rightarrow> scalar \<Rightarrow> st_state \<Rightarrow> st_outcome result" where
  "st_step cfg steps law guard jump finalTime s =
     bind_result (st_integrate cfg steps law guard s) (\<lambda>(queryTime, queryState, queryGuard, accuracyCondition, s1).
     bind_result (vec_back (roTime (stData s1))) (\<lambda>lastTime.
       if almost_eq finalTime lastTime then Inr (Finished s1)
       else bind_result (if accuracyCondition \<or> stSingleIterations s1 \<ge> maxSingleEventIterations cfg
                then Inr (accept_event guard jump finalTime queryTime queryState s1)
                else refine_event guard queryTime queryGuard s1) (\<lambda>s2.
            Inr (Running (s2\<lparr>stSingleIterations := stSingleIterations s2 + 1,
                             stTotalIterations := stTotalIterations s2 + 1\<rparr>)))))"

definition st_start :: "rollout_settings \<Rightarrow> root_finder_type \<Rightarrow> scalar \<Rightarrow> vector_t \<Rightarrow> scalar \<Rightarrow> event_handler \<Rightarrow> st_state" where
  "st_start cfg algorithm initTime initState finalTime h =
     \<lparr>stData = empty_rollout, stModes = \<lparr>eventTimes = [], modeSequence = [0]\<rparr>, stHandler = reset_handler h,
      stFinder = \<lparr>rootFindingAlgorithm = algorithm, timeInt = (0, 0), guardInt = (0, 0)\<rparr>,
      stT0 = initTime, stT1 = finalTime, stX0 = initState, stEventID = 0, stRefining = False,
      stSingleIterations = 0, stTotalIterations = 0\<rparr>"

text \<open>The \<open>while (true)\<close> loop; it has no value when the loop does not end.\<close>

partial_function (option) st_loop :: "(st_state \<Rightarrow> st_outcome result) \<Rightarrow> st_state \<Rightarrow> st_state result option" where
  "st_loop step s =
     (case step s of Inl e \<Rightarrow> Some (Inl e)
      | Inr (Finished s1) \<Rightarrow> Some (Inr s1)
      | Inr (Running s1) \<Rightarrow> st_loop step s1)"

definition state_triggered_run ::
  "rollout_settings \<Rightarrow> root_finder_type \<Rightarrow> (control_law \<Rightarrow> ode_steps) \<Rightarrow> guard_fun \<Rightarrow> (scalar \<Rightarrow> vector_t \<Rightarrow> vector_t) \<Rightarrow>
   scalar \<Rightarrow> vector_t \<Rightarrow> scalar \<Rightarrow> controller option \<Rightarrow> event_handler \<Rightarrow> (vector_t \<times> st_state) result option" where
  "state_triggered_run cfg algorithm steps guard jump initTime initState finalTime ctrl h =
     (if initTime > finalTime then
        Some (Inl (Runtime_Error ''[StateTriggeredRollout::run] The initial time should be less-equal to the final time!''))
      else case ctrl of
        None \<Rightarrow> Some (Inl (Runtime_Error ''[StateTriggeredRollout::run] Controller is not set!''))
      | Some c \<Rightarrow>
          (let law = (if useTrajectorySpreadingController cfg
                      then sb_computeInput \<lparr>ctrlPtr = Some c, ctrlEventTimes = event_times_controller c\<rparr>
                      else computeInput c)
           in case st_loop (st_step cfg (steps law) law guard jump finalTime) (st_start cfg algorithm initTime initState finalTime h) of
                None \<Rightarrow> None
              | Some r \<Rightarrow> Some (bind_result r (\<lambda>s. bind_result (checkNumericalStability cfg (stData s)) (\<lambda>_.
                    bind_result (vec_back (roState (stData s))) (\<lambda>x. Inr (x, s)))))))"

section \<open>Reachable states\<close>

inductive st_reach :: "(st_state \<Rightarrow> st_outcome result) \<Rightarrow> st_state \<Rightarrow> st_state \<Rightarrow> bool"
  for step s0 where
  start: "st_reach step s0 s0"
| pass: "st_reach step s0 s \<Longrightarrow> step s = Inr (Running s') \<Longrightarrow> st_reach step s0 s'"

definition st_bound :: "rollout_settings \<Rightarrow> int" where
  "st_bound cfg = max 1 (maxSingleEventIterations cfg)"

definition data_inv :: "rollout_settings \<Rightarrow> rollout_data \<Rightarrow> bool" where
  "data_inv cfg d =
     (length (roState d) = length (roTime d) \<and>
      (if reconstructInputTrajectory cfg then length (roInput d) = length (roTime d) else roInput d = []))"

definition st_inv :: "rollout_settings \<Rightarrow> st_state \<Rightarrow> bool" where
  "st_inv cfg s =
     (data_inv cfg (stData s) \<and> length (eventTimes (stModes s)) = length (roPostEvents (stData s)) \<and>
      length (modeSequence (stModes s)) = length (eventTimes (stModes s)) + 1 \<and>
      0 \<le> stSingleIterations s \<and> stSingleIterations s \<le> st_bound cfg \<and>
      stTotalIterations s \<le> st_bound cfg * int (length (eventTimes (stModes s))) + stSingleIterations s)"

lemma integrate_points_Inr:
  assumes "integrate_points guard pts h d = Inr (ev, h', d')"
  shows "\<exists>ts xs. d' = d\<lparr>roTime := roTime d @ ts, roState := roState d @ xs\<rparr> \<and> length xs = length ts \<and> (ev \<noteq> None \<longrightarrow> ts \<noteq> [])"
  using assms
proof (induction guard pts h d rule: integrate_points.induct)
  case (1 guard h d)
  then show ?case by (intro exI[of _ "[]"]) simp
next
  case (2 guard t x pts h d)
  obtain ev1 h1 where ev1: "handleEvent (guard t x) t h = Inr (ev1, h1)"
    using "2.prems" by (auto simp: Let_def bind_result_eq_Inr)
  show ?case
  proof (cases ev1)
    case (Some i)
    with "2.prems" ev1 show ?thesis by (intro exI[of _ "[t]"] exI[of _ "[x]"]) (auto simp: Let_def)
  next
    case None
    let ?d = "d\<lparr>roTime := roTime d @ [t], roState := roState d @ [x]\<rparr>"
    have "integrate_points guard pts h1 ?d = Inr (ev, h', d')" using "2.prems" ev1 None by (simp add: Let_def)
    from "2.IH"[OF refl None this] obtain ts xs where
      "d' = ?d\<lparr>roTime := roTime ?d @ ts, roState := roState ?d @ xs\<rparr>" "length xs = length ts" by blast
    then show ?thesis by (intro exI[of _ "t # ts"] exI[of _ "x # xs"]) simp
  qed
qed

lemma append_inputs_inv:
  assumes "append_inputs cfg law d = Inr d'" "length (roState d) = length (roTime d)"
    and "if reconstructInputTrajectory cfg then length (roInput d) \<le> length (roTime d) else roInput d = []"
  shows "data_inv cfg d' \<and> roTime d' = roTime d \<and> roState d' = roState d \<and> roPostEvents d' = roPostEvents d"
proof (cases "reconstructInputTrajectory cfg")
  case False
  with assms show ?thesis by (auto simp: append_inputs_def data_inv_def)
next
  case True
  let ?body = "\<lambda>k d. bind_result (vec_at (roTime d) k) (\<lambda>t. bind_result (vec_at (roState d) k) (\<lambda>x.
            bind_result (law t x) (\<lambda>u. Inr (d\<lparr>roInput := roInput d @ [u]\<rparr>))))"
  have "\<exists>us. r = d\<lparr>roInput := roInput d @ us\<rparr> \<and> length us = length ks" if "fold_result ?body ks d = Inr r" for ks r
    using that
  proof (induction ks arbitrary: r rule: rev_induct)
    case Nil
    then show ?case by (intro exI[of _ "[]"]) simp
  next
    case (snoc k ks)
    then obtain r1 where r1: "fold_result ?body ks d = Inr r1" "?body k r1 = Inr r"
      by (auto simp: fold_result_append bind_result_eq_Inr)
    from snoc.IH[OF r1(1)] obtain us where us: "r1 = d\<lparr>roInput := roInput d @ us\<rparr>" "length us = length ks" by blast
    from r1(2) obtain u where "r = r1\<lparr>roInput := roInput r1 @ [u]\<rparr>" by (auto simp: bind_result_eq_Inr)
    with us show ?case by (intro exI[of _ "us @ [u]"]) simp
  qed
  from this[of "[length (roInput d) ..< length (roTime d)]" d'] True assms show ?thesis
    by (auto simp: append_inputs_def data_inv_def)
qed

lemma pop_point_Inr:
  "pop_point d = Inr d' \<Longrightarrow> roTime d \<noteq> [] \<and> roState d \<noteq> [] \<and> d' = d\<lparr>roState := butlast (roState d), roTime := butlast (roTime d)\<rparr>"
  by (auto simp: pop_point_def pop_back_def bind_result_eq_Inr split: if_splits)

lemma refine_event_inv:
  assumes "refine_event guard q g s = Inr s'" "data_inv cfg (stData s)"
  shows "reconstructInputTrajectory cfg \<and> data_inv cfg (stData s') \<and> stModes s' = stModes s \<and>
    roPostEvents (stData s') = roPostEvents (stData s) \<and> stSingleIterations s' = stSingleIterations s \<and>
    stTotalIterations s' = stTotalIterations s"
proof -
  obtain d1 us f t0 x0 where "pop_point (stData s) = Inr d1" "pop_back (roInput d1) = Inr us"
    "s' = s\<lparr>stFinder := f, stRefining := True, stT1 := getNewQuery f, stT0 := t0, stX0 := x0, stData := d1\<lparr>roInput := us\<rparr>\<rparr>"
    using assms(1) unfolding refine_event_def Let_def bind_result_eq_Inr by blast
  then show ?thesis
    using assms(2) pop_point_Inr[of "stData s" d1] by (auto simp: data_inv_def pop_back_def split: if_splits)
qed

lemma st_integrate_inv:
  assumes "st_integrate cfg steps law guard s = Inr (queryTime, queryState, queryGuard, acc, s1)" "data_inv cfg (stData s)"
  shows "data_inv cfg (stData s1) \<and> roPostEvents (stData s1) = roPostEvents (stData s) \<and> stModes s1 = stModes s \<and>
    stSingleIterations s1 = stSingleIterations s \<and> stTotalIterations s1 = stTotalIterations s"
proof -
  obtain pts ev h d d1 d2 eventID where
    int: "integrate_points guard pts (stHandler s) (stData s) = Inr (ev, h, d)"
    and pop: "(if ev \<noteq> None \<and> \<not> acc then pop_point d else Inr d) = Inr d1"
    and app: "append_inputs cfg law d1 = Inr d2" and s1: "s1 = s\<lparr>stHandler := h, stEventID := eventID, stData := d2\<rparr>"
    using assms(1) unfolding st_integrate_def Let_def by (fastforce simp: bind_result_eq_Inr)
  obtain ts xs where d: "d = (stData s)\<lparr>roTime := roTime (stData s) @ ts, roState := roState (stData s) @ xs\<rparr>"
    "length xs = length ts" "ev \<noteq> None \<longrightarrow> ts \<noteq> []"
    using integrate_points_Inr[OF int] by blast
  have "length (roState d1) = length (roTime d1)" "roPostEvents d1 = roPostEvents (stData s)"
    "if reconstructInputTrajectory cfg then length (roInput d1) \<le> length (roTime d1) else roInput d1 = []"
    using pop d assms(2) pop_point_Inr[of d d1] by (auto simp: data_inv_def butlast_append split: if_splits)
  with append_inputs_inv[OF app this(1,3)] s1 show ?thesis by simp
qed

text \<open>A pass of the loop: the data it has collected and which of the two branches it took.\<close>

lemma st_step_Running:
  assumes "st_step cfg steps law guard jump finalTime s = Inr (Running s')" "st_inv cfg s"
  obtains (accepted) s1 q x where "data_inv cfg (stData s1)" "roPostEvents (stData s1) = roPostEvents (stData s)" "stModes s1 = stModes s"
      "s' = (accept_event guard jump finalTime q x s1)\<lparr>stSingleIterations := 1, stTotalIterations := stTotalIterations s + 1\<rparr>"
    | (refined) s1 s2 q g where "data_inv cfg (stData s1)" "roPostEvents (stData s1) = roPostEvents (stData s)" "stModes s1 = stModes s"
      "stSingleIterations s < maxSingleEventIterations cfg" "refine_event guard q g s1 = Inr s2"
      "s' = s2\<lparr>stSingleIterations := stSingleIterations s + 1, stTotalIterations := stTotalIterations s + 1\<rparr>"
proof -
  obtain queryTime queryState queryGuard acc s1 s2 where
    int: "st_integrate cfg steps law guard s = Inr (queryTime, queryState, queryGuard, acc, s1)"
    and br: "(if acc \<or> stSingleIterations s1 \<ge> maxSingleEventIterations cfg
                then Inr (accept_event guard jump finalTime queryTime queryState s1)
                else refine_event guard queryTime queryGuard s1) = Inr s2"
    and s': "s' = s2\<lparr>stSingleIterations := stSingleIterations s2 + 1, stTotalIterations := stTotalIterations s2 + 1\<rparr>"
    using assms(1) unfolding st_step_def bind_result_eq_Inr by (fastforce simp: bind_result_eq_Inr split: if_splits)
  have inv: "data_inv cfg (stData s)" using assms(2) by (simp add: st_inv_def)
  note s1 = st_integrate_inv[OF int inv]
  show thesis
  proof (cases "acc \<or> stSingleIterations s1 \<ge> maxSingleEventIterations cfg")
    case True
    then have "s2 = accept_event guard jump finalTime queryTime queryState s1" using br by simp
    then show ?thesis
      using accepted[of s1 queryTime queryState] s1 s' by (simp add: accept_event_def Let_def)
  next
    case False
    then have r: "refine_event guard queryTime queryGuard s1 = Inr s2" using br by simp
    have "stSingleIterations s2 = stSingleIterations s" "stTotalIterations s2 = stTotalIterations s"
      using refine_event_inv[OF r, of cfg] s1 by auto
    then show ?thesis using refined[OF _ _ _ _ r] s1 s' False by simp
  qed
qed

lemma st_step_inv:
  assumes "st_step cfg steps law guard jump finalTime s = Inr (Running s')" "st_inv cfg s"
  shows "st_inv cfg s'"
  using assms
proof (cases rule: st_step_Running)
  case (accepted s1 q x)
  have "stTotalIterations s \<le> st_bound cfg * int (length (eventTimes (stModes s))) + st_bound cfg"
    using assms(2) unfolding st_inv_def by linarith
  with accepted assms(2) show ?thesis
    by (simp add: st_inv_def data_inv_def accept_event_def Let_def st_bound_def algebra_simps)
next
  case (refined s1 s2 q g)
  have "stSingleIterations s + 1 \<le> st_bound cfg" using refined(4) by (simp add: st_bound_def)
  with refine_event_inv[OF refined(5,1)] assms(2) refined show ?thesis
    by (auto simp: st_inv_def)
qed

lemma st_start_inv: "st_inv cfg (st_start cfg algorithm initTime initState finalTime h)"
  by (simp add: st_inv_def st_start_def data_inv_def empty_rollout_def st_bound_def)

text \<open>
  C6. Every state that the loop of a state triggered rollout reaches is consistent: as many states as
  times (and, when they are reconstructed, inputs), as many event times as post-event indices and one
  mode more. The loop cannot refine one event for ever: the number of passes is at most the bound on
  the passes per event times the number of recorded events plus one.
\<close>

theorem state_triggered_invariant:
  assumes "st_reach (st_step cfg steps law guard jump finalTime) (st_start cfg algorithm initTime initState finalTime h) s"
  shows "data_inv cfg (stData s) \<and> length (eventTimes (stModes s)) = length (roPostEvents (stData s)) \<and>
         length (modeSequence (stModes s)) = length (eventTimes (stModes s)) + 1 \<and>
         stTotalIterations s \<le> max 1 (maxSingleEventIterations cfg) * (int (length (eventTimes (stModes s))) + 1)"
proof -
  have "st_inv cfg s"
    using assms by induction (auto intro: st_start_inv st_step_inv)
  then show ?thesis by (auto simp: st_inv_def st_bound_def algebra_simps)
qed

text \<open>
  A resting system with the guard \<open>1 - t\<close> over the horizon from 0 to 2, with an integrator that returns the two ends of
  its interval. The first pass sees the guard negative at 2, drops this point and refines: the regula falsi query is 1. The
  second pass hits the guard at 1 and accepts the event.
\<close>

definition st_demo_cfg :: rollout_settings where
  "st_demo_cfg = \<lparr>absTolODE = 1 / 10, timeStep = 1, checkNumericalStability_flag = True, reconstructInputTrajectory = True,
      maxSingleEventIterations = 10, useTrajectorySpreadingController = False\<rparr>"

definition st_demo_pass :: "st_state \<Rightarrow> st_outcome result" where
  "st_demo_pass = st_step st_demo_cfg (\<lambda>t0 x0 t1. Inr [(t0, x0), (t1, x0)]) (\<lambda>t x. Inr [0]) (\<lambda>t x. [1 - t]) (\<lambda>t x. x) 2"

definition st_demo_begin :: st_state where
  "st_demo_begin = st_start st_demo_cfg REGULA_FALSI 0 [7] 2 (StateTriggeredEventHandler 1)"

definition st_demo_refined :: st_state where
  "st_demo_refined = st_demo_begin
     \<lparr>stHandler := (stHandler st_demo_begin)\<lparr>guardSurfacesValuesPrevious := [1]\<rparr>,
      stFinder := \<lparr>rootFindingAlgorithm = REGULA_FALSI, timeInt = (0, 2), guardInt = (1, - 1)\<rparr>,
      stT1 := 1, stRefining := True, stSingleIterations := 1, stTotalIterations := 1\<rparr>"

lemmas st_demo_defs = st_demo_begin_def st_start_def st_demo_cfg_def StateTriggeredEventHandler_def reset_handler_def empty_rollout_def

lemmas st_demo_pass_defs = st_demo_pass_def st_demo_refined_def st_demo_defs st_step_def st_integrate_def handleEvent_def checkEvent_def
  crossed_guard_def double_lowest_def append_inputs_def pop_point_def pop_back_def almost_eq_def almost_eq_prec_def
  double_epsilon_def double_min_def eigen_at_def

lemma st_demo_first_pass: "st_demo_pass st_demo_begin = Inr (Running st_demo_refined)"
  by (simp add: st_demo_pass_defs refine_event_def setInitBracket4_def setInitBracket_def getNewQuery_def)

lemma st_demo_second_pass:
  "\<exists>s. st_demo_pass st_demo_refined = Inr (Running s) \<and>
     stData s = \<lparr>roTime = [0, 1], roPostEvents = [2], roState = [[7], [7]], roInput = [[0], [0]]\<rparr> \<and>
     stModes s = \<lparr>eventTimes = [1], modeSequence = [0, 0]\<rparr> \<and> stTotalIterations s = 2"
  by (simp add: st_demo_pass_defs accept_event_def setLastEvent_def Let_def)

theorem state_triggered_invariant_witness:
  "\<exists>s. st_reach st_demo_pass st_demo_begin s \<and> stRefining st_demo_refined \<and> st_demo_pass st_demo_begin = Inr (Running st_demo_refined) \<and>
     st_demo_pass st_demo_refined = Inr (Running s) \<and> stTotalIterations s = 2 \<and> eventTimes (stModes s) = [1] \<and> data_inv st_demo_cfg (stData s) \<and>
     length (eventTimes (stModes s)) = length (roPostEvents (stData s)) \<and>
     length (modeSequence (stModes s)) = length (eventTimes (stModes s)) + 1 \<and>
     stTotalIterations s \<le> max 1 (maxSingleEventIterations st_demo_cfg) * (int (length (eventTimes (stModes s))) + 1)"
proof -
  obtain s where s: "st_demo_pass st_demo_refined = Inr (Running s)" "stModes s = \<lparr>eventTimes = [1], modeSequence = [0, 0]\<rparr>"
    "stTotalIterations s = 2"
    using st_demo_second_pass by blast
  have "st_reach st_demo_pass st_demo_begin s"
    using st_reach.pass[of st_demo_pass st_demo_begin st_demo_begin] st_reach.start[of st_demo_pass st_demo_begin] st_demo_first_pass
      st_reach.pass[of st_demo_pass st_demo_begin st_demo_refined s] s(1) by blast
  note run = this
  note inv = state_triggered_invariant[OF run[unfolded st_demo_pass_def st_demo_begin_def]]
  have "stRefining st_demo_refined" by (simp add: st_demo_refined_def)
  with run inv s st_demo_first_pass show ?thesis by (intro exI[of _ s]) (simp add: st_demo_cfg_def)
qed

text \<open>
  Refining an event needs reconstructed inputs: in a consistent state of a rollout that does not
  reconstruct the inputs, refining a properly bracketed event calls \<open>pop_back\<close> on the empty input
  trajectory, whatever the guard and the query.
\<close>

theorem refine_pops_missing_input:
  assumes "\<not> reconstructInputTrajectory cfg" "data_inv cfg (stData s)" "roTime (stData s) \<noteq> []"
    and "stEventID s < length (guard (last (roTime (stData s))) (last (roState (stData s))))"
    and "guard (last (roTime (stData s))) (last (roState (stData s))) ! stEventID s * g \<le> 0"
  shows "refine_event guard q g s = Inl Undefined"
proof -
  have "roState (stData s) \<noteq> []" "roInput (stData s) = []" using assms(1-3) by (auto simp: data_inv_def)
  with assms(3-5) show ?thesis
    by (auto simp: refine_event_def Let_def pop_point_def pop_back_def eigen_at_def setInitBracket4_def setInitBracket_def)
qed

theorem refine_pops_missing_input_witness:
  "refine_event (\<lambda>t x. [1 - t]) 2 (- 1)
     ((st_start \<lparr>absTolODE = 1, timeStep = 1, checkNumericalStability_flag = True, reconstructInputTrajectory = False,
      maxSingleEventIterations = 10, useTrajectorySpreadingController = False\<rparr> ILLINOIS 0 [1] 2 (StateTriggeredEventHandler 1))
      \<lparr>stData := \<lparr>roTime = [0], roPostEvents = [], roState = [[1]], roInput = []\<rparr>\<rparr>) = Inl Undefined"
  by (rule refine_pops_missing_input[of "\<lparr>absTolODE = 1, timeStep = 1, checkNumericalStability_flag = True, reconstructInputTrajectory = False,
      maxSingleEventIterations = 10, useTrajectorySpreadingController = False\<rparr>"]) (simp_all add: data_inv_def st_start_def)

end
