(* ===== verification/Model_Data.thy ===== *)
theory Model_Data
  imports Linear_Interpolation
begin

text \<open>
  \<open>core/ocs2_core/model_data/Multiplier\<close> and \<open>Metrics\<close>: the multipliers and metrics of the constraint
  terms at one time, their serialization to vectors and their interpolation along a trajectory.
\<close>

section \<open>Terms with a penalty and a vector\<close>

text \<open>
  \<open>Multiplier\<close> and \<open>LagrangianMetrics\<close> have the same serialization; its two directions take the
  members, respectively the constructor, of the structure as arguments.
\<close>

definition toVector_terms :: "('m \<Rightarrow> scalar) \<Rightarrow> ('m \<Rightarrow> vector_t) \<Rightarrow> 'm list \<Rightarrow> vector_t" where
  "toVector_terms pen vec ms = concat (map (\<lambda>m. pen m # vec m) ms)"

fun toTerms :: "(scalar \<Rightarrow> vector_t \<Rightarrow> 'm) \<Rightarrow> nat \<Rightarrow> nat list \<Rightarrow> vector_t \<Rightarrow> 'm list result" where
  "toTerms mk head [] v = Inr []"
| "toTerms mk head (l # sizes) v =
     bind_result (eigen_at v head) (\<lambda>p. bind_result (eigen_segment v (head + 1) l) (\<lambda>x.
     bind_result (toTerms mk (head + 1 + l) sizes v) (\<lambda>ms. Inr (mk p x # ms))))"

text \<open>The generic \<open>interpolate\<close> with an access function that may leave the container.\<close>

definition interpolate_access ::
  "('f \<Rightarrow> 'f \<Rightarrow> bool) \<Rightarrow> (scalar \<Rightarrow> 'f \<Rightarrow> 'f \<Rightarrow> 'f) \<Rightarrow> index_alpha \<Rightarrow> 'd list \<Rightarrow> ('d \<Rightarrow> 'f result) \<Rightarrow> 'f result" where
  "interpolate_access areSameSize combine indexAlpha dataArray access =
     (if length dataArray > 1 then
        let index = fst indexAlpha; alpha = snd indexAlpha
        in bind_result (bind_result (vec_at_int dataArray index) access) (\<lambda>lhs.
           bind_result (bind_result (vec_at_int dataArray (index + 1)) access) (\<lambda>rhs.
             if areSameSize rhs lhs then Inr (combine alpha lhs rhs)
             else if alpha > 1 / 2 then Inr lhs else Inr rhs))
      else bind_result (vec_at dataArray 0) access)"

definition interpolate_term ::
  "('m \<Rightarrow> scalar) \<Rightarrow> ('m \<Rightarrow> vector_t) \<Rightarrow> (scalar \<Rightarrow> vector_t \<Rightarrow> 'm) \<Rightarrow> index_alpha \<Rightarrow> 'd list \<Rightarrow> ('d \<Rightarrow> 'm result) \<Rightarrow> 'm result" where
  "interpolate_term pen vec mk indexAlpha dataArray access =
     bind_result (interpolate_access areSameSize_scalar combine_scalar indexAlpha dataArray (\<lambda>d. bind_result (access d) (\<lambda>m. Inr (pen m)))) (\<lambda>p.
     bind_result (interpolate_access areSameSize_vector combine_vector indexAlpha dataArray (\<lambda>d. bind_result (access d) (\<lambda>m. Inr (vec m)))) (\<lambda>v.
       Inr (mk p v)))"

text \<open>The terms of one family; their number is that of the nearer end of the segment.\<close>

definition interpolate_family ::
  "('m \<Rightarrow> scalar) \<Rightarrow> ('m \<Rightarrow> vector_t) \<Rightarrow> (scalar \<Rightarrow> vector_t \<Rightarrow> 'm) \<Rightarrow> index_alpha \<Rightarrow> 'd list \<Rightarrow> ('d \<Rightarrow> 'm list) \<Rightarrow> 'd \<Rightarrow> 'm list result" where
  "interpolate_family pen vec mk indexAlpha dataArray family nearer =
     map_result (\<lambda>i. interpolate_term pen vec mk indexAlpha dataArray (\<lambda>d. vec_at (family d) i)) [0 ..< length (family nearer)]"

definition nearer_index :: "index_alpha \<Rightarrow> int" where
  "nearer_index indexAlpha = (if snd indexAlpha > 1 / 2 then fst indexAlpha else fst indexAlpha + 1)"

section \<open>Multipliers\<close>

record multiplier =
  penalty :: scalar
  lagrangian :: vector_t

definition Multiplier :: "scalar \<Rightarrow> vector_t \<Rightarrow> multiplier" where
  "Multiplier p l = \<lparr>penalty = p, lagrangian = l\<rparr>"

record multiplier_collection =
  stateEq :: "multiplier list"
  stateIneq :: "multiplier list"
  stateInputEq :: "multiplier list"
  stateInputIneq :: "multiplier list"

definition clear_MultiplierCollection :: "multiplier_collection \<Rightarrow> multiplier_collection" where
  "clear_MultiplierCollection c = c\<lparr>stateEq := [], stateIneq := [], stateInputEq := [], stateInputIneq := []\<rparr>"

definition swap_MultiplierCollection ::
  "multiplier_collection \<Rightarrow> multiplier_collection \<Rightarrow> multiplier_collection \<times> multiplier_collection" where
  "swap_MultiplierCollection a b =
     (a\<lparr>stateEq := stateEq b, stateIneq := stateIneq b, stateInputEq := stateInputEq b, stateInputIneq := stateInputIneq b\<rparr>,
      b\<lparr>stateEq := stateEq a, stateIneq := stateIneq a, stateInputEq := stateInputEq a, stateInputIneq := stateInputIneq a\<rparr>)"

definition empty_MultiplierCollection :: "multiplier_collection \<Rightarrow> bool" where
  "empty_MultiplierCollection c = (stateEq c = [] \<and> stateIneq c = [] \<and> stateInputEq c = [] \<and> stateInputIneq c = [])"

definition toVector_Multiplier :: "multiplier list \<Rightarrow> vector_t" where
  "toVector_Multiplier = toVector_terms penalty lagrangian"

definition getSizes_Multiplier :: "multiplier list \<Rightarrow> nat list" where
  "getSizes_Multiplier ms = map (\<lambda>m. length (lagrangian m)) ms"

definition toMultipliers :: "nat list \<Rightarrow> vector_t \<Rightarrow> multiplier list result" where
  "toMultipliers termsSize vec = toTerms Multiplier 0 termsSize vec"

definition interpolate_Multiplier :: "index_alpha \<Rightarrow> multiplier list \<Rightarrow> multiplier result" where
  "interpolate_Multiplier indexAlpha dataArray = interpolate_term penalty lagrangian Multiplier indexAlpha dataArray Inr"

definition interpolate_MultiplierCollection :: "index_alpha \<Rightarrow> multiplier_collection list \<Rightarrow> multiplier_collection result" where
  "interpolate_MultiplierCollection indexAlpha dataArray =
     bind_result (vec_at_int dataArray (nearer_index indexAlpha)) (\<lambda>n.
     bind_result (interpolate_family penalty lagrangian Multiplier indexAlpha dataArray stateEq n) (\<lambda>se.
     bind_result (interpolate_family penalty lagrangian Multiplier indexAlpha dataArray stateIneq n) (\<lambda>si.
     bind_result (interpolate_family penalty lagrangian Multiplier indexAlpha dataArray stateInputEq n) (\<lambda>sie.
     bind_result (interpolate_family penalty lagrangian Multiplier indexAlpha dataArray stateInputIneq n) (\<lambda>sii.
       Inr \<lparr>stateEq = se, stateIneq = si, stateInputEq = sie, stateInputIneq = sii\<rparr>)))))"

section \<open>Metrics\<close>

record lagrangian_metrics =
  lm_penalty :: scalar
  lm_constraint :: vector_t

definition LagrangianMetrics :: "scalar \<Rightarrow> vector_t \<Rightarrow> lagrangian_metrics" where
  "LagrangianMetrics p c = \<lparr>lm_penalty = p, lm_constraint = c\<rparr>"

record metrics =
  cost :: scalar
  dynamicsViolation :: vector_t
  stateEqConstraint :: "vector_t list"
  stateInputEqConstraint :: "vector_t list"
  stateIneqConstraint :: "vector_t list"
  stateInputIneqConstraint :: "vector_t list"
  stateEqLagrangian :: "lagrangian_metrics list"
  stateIneqLagrangian :: "lagrangian_metrics list"
  stateInputEqLagrangian :: "lagrangian_metrics list"
  stateInputIneqLagrangian :: "lagrangian_metrics list"

definition clear_Metrics :: "metrics \<Rightarrow> metrics" where
  "clear_Metrics m = m\<lparr>cost := 0, dynamicsViolation := [], stateEqConstraint := [], stateInputEqConstraint := [],
     stateIneqConstraint := [], stateInputIneqConstraint := [], stateEqLagrangian := [], stateIneqLagrangian := [],
     stateInputEqLagrangian := [], stateInputIneqLagrangian := []\<rparr>"

text \<open>Every member is exchanged.\<close>

definition swap_Metrics :: "metrics \<Rightarrow> metrics \<Rightarrow> metrics \<times> metrics" where
  "swap_Metrics a b = (b, a)"

definition sumPenalties :: "lagrangian_metrics list \<Rightarrow> scalar" where
  "sumPenalties ms = fold (\<lambda>m s. s + lm_penalty m) ms 0"

definition squaredNorm :: "vector_t \<Rightarrow> scalar" where
  "squaredNorm v = sum_list (map (\<lambda>x. x * x) v)"

definition constraintsSquaredNorm :: "lagrangian_metrics list \<Rightarrow> scalar" where
  "constraintsSquaredNorm ms = fold (\<lambda>m s. s + squaredNorm (lm_constraint m)) ms 0"

definition getEqConstraintsSSE :: "vector_t \<Rightarrow> scalar" where
  "getEqConstraintsSSE v = (if length v = 0 then 0 else squaredNorm v)"

definition getIneqConstraintsSSE :: "vector_t \<Rightarrow> scalar" where
  "getIneqConstraintsSSE v = (if length v = 0 then 0 else squaredNorm (map (\<lambda>x. min x 0) v))"

definition getEqConstraintsSSE_array :: "vector_t list \<Rightarrow> scalar" where
  "getEqConstraintsSSE_array vs = fold (\<lambda>v s. s + getEqConstraintsSSE v) vs 0"

definition getIneqConstraintsSSE_array :: "vector_t list \<Rightarrow> scalar" where
  "getIneqConstraintsSSE_array vs = fold (\<lambda>v s. s + getIneqConstraintsSSE v) vs 0"

definition toVector_LagrangianMetrics :: "lagrangian_metrics list \<Rightarrow> vector_t" where
  "toVector_LagrangianMetrics = toVector_terms lm_penalty lm_constraint"

definition toVector_constraints :: "vector_t list \<Rightarrow> vector_t" where
  "toVector_constraints constraintArray = concat constraintArray"

definition getSizes_constraints :: "vector_t list \<Rightarrow> nat list" where
  "getSizes_constraints constraintArray = map length constraintArray"

definition getSizes_LagrangianMetrics :: "lagrangian_metrics list \<Rightarrow> nat list" where
  "getSizes_LagrangianMetrics ms = map (\<lambda>m. length (lm_constraint m)) ms"

fun toConstraintArray_from :: "nat \<Rightarrow> nat list \<Rightarrow> vector_t \<Rightarrow> vector_t list result" where
  "toConstraintArray_from head [] v = Inr []"
| "toConstraintArray_from head (l # sizes) v =
     bind_result (eigen_segment v head l) (\<lambda>x.
     bind_result (toConstraintArray_from (head + l) sizes v) (\<lambda>xs. Inr (x # xs)))"

definition toConstraintArray :: "nat list \<Rightarrow> vector_t \<Rightarrow> vector_t list result" where
  "toConstraintArray termsSize vec = toConstraintArray_from 0 termsSize vec"

definition toLagrangianMetrics :: "nat list \<Rightarrow> vector_t \<Rightarrow> lagrangian_metrics list result" where
  "toLagrangianMetrics termsSize vec = toTerms LagrangianMetrics 0 termsSize vec"

text \<open>\<open>isApprox\<close> of Eigen is the argument \<open>vec_isApprox\<close>.\<close>

definition isApprox_Metrics :: "(vector_t \<Rightarrow> vector_t \<Rightarrow> scalar \<Rightarrow> bool) \<Rightarrow> metrics \<Rightarrow> metrics \<Rightarrow> scalar \<Rightarrow> bool" where
  "isApprox_Metrics vec_isApprox a b prec =
     (almost_eq_prec (cost a) (cost b) prec \<and> vec_isApprox (dynamicsViolation a) (dynamicsViolation b) prec \<and>
      (\<forall>f \<in> set [stateEqConstraint, stateInputEqConstraint, stateIneqConstraint, stateInputIneqConstraint].
         vec_isApprox (toVector_constraints (f a)) (toVector_constraints (f b)) prec) \<and>
      (\<forall>f \<in> set [stateEqLagrangian, stateIneqLagrangian, stateInputEqLagrangian, stateInputIneqLagrangian].
         vec_isApprox (toVector_LagrangianMetrics (f a)) (toVector_LagrangianMetrics (f b)) prec))"

definition interpolate_constraints :: "index_alpha \<Rightarrow> metrics list \<Rightarrow> (metrics \<Rightarrow> vector_t list) \<Rightarrow> metrics \<Rightarrow> vector_t list result" where
  "interpolate_constraints indexAlpha dataArray family nearer =
     map_result (\<lambda>i. interpolate_access areSameSize_vector combine_vector indexAlpha dataArray (\<lambda>d. vec_at (family d) i))
       [0 ..< length (family nearer)]"

definition interpolate_LagrangianMetrics :: "index_alpha \<Rightarrow> lagrangian_metrics list \<Rightarrow> lagrangian_metrics result" where
  "interpolate_LagrangianMetrics indexAlpha dataArray =
     interpolate_term lm_penalty lm_constraint LagrangianMetrics indexAlpha dataArray Inr"

definition interpolate_Metrics :: "index_alpha \<Rightarrow> metrics list \<Rightarrow> metrics result" where
  "interpolate_Metrics indexAlpha dataArray =
     bind_result (vec_at_int dataArray (nearer_index indexAlpha)) (\<lambda>n.
     bind_result (interpolate_access areSameSize_scalar combine_scalar indexAlpha dataArray (\<lambda>d. Inr (cost d))) (\<lambda>c.
     bind_result (interpolate_access areSameSize_vector combine_vector indexAlpha dataArray (\<lambda>d. Inr (dynamicsViolation d))) (\<lambda>dv.
     bind_result (interpolate_constraints indexAlpha dataArray stateEqConstraint n) (\<lambda>sec.
     bind_result (interpolate_constraints indexAlpha dataArray stateInputEqConstraint n) (\<lambda>siec.
     bind_result (interpolate_constraints indexAlpha dataArray stateIneqConstraint n) (\<lambda>sic.
     bind_result (interpolate_constraints indexAlpha dataArray stateInputIneqConstraint n) (\<lambda>siic.
     bind_result (interpolate_family lm_penalty lm_constraint LagrangianMetrics indexAlpha dataArray stateEqLagrangian n) (\<lambda>sel.
     bind_result (interpolate_family lm_penalty lm_constraint LagrangianMetrics indexAlpha dataArray stateIneqLagrangian n) (\<lambda>sil.
     bind_result (interpolate_family lm_penalty lm_constraint LagrangianMetrics indexAlpha dataArray stateInputEqLagrangian n) (\<lambda>siel.
     bind_result (interpolate_family lm_penalty lm_constraint LagrangianMetrics indexAlpha dataArray stateInputIneqLagrangian n) (\<lambda>siil.
       Inr \<lparr>cost = c, dynamicsViolation = dv, stateEqConstraint = sec, stateInputEqConstraint = siec,
            stateIneqConstraint = sic, stateInputIneqConstraint = siic, stateEqLagrangian = sel,
            stateIneqLagrangian = sil, stateInputEqLagrangian = siel, stateInputIneqLagrangian = siil\<rparr>)))))))))))"

section \<open>The contract of a term structure\<close>

lemma interpolate_access_succeeds:
  assumes "1 < length data" "0 \<le> i" "nat i + 1 < length data"
  shows "succeeds (interpolate_access same comb (i, a) data access)
           = (succeeds (access (data ! nat i)) \<and> succeeds (access (data ! (nat i + 1))))"
proof -
  have "vec_at_int data i = Inr (data ! nat i)" "vec_at_int data (i + 1) = Inr (data ! (nat i + 1))"
    using assms by (simp_all add: nat_add_distrib)
  then show ?thesis
    using assms(1) by (cases "access (data ! nat i)"; cases "access (data ! (nat i + 1))") (simp_all add: interpolate_access_def)
qed

locale term_structure =
  fixes pen :: "'m \<Rightarrow> scalar" and vec :: "'m \<Rightarrow> vector_t" and mk :: "scalar \<Rightarrow> vector_t \<Rightarrow> 'm"
  assumes mk_parts: "mk (pen m) (vec m) = m"
    and pen_mk: "pen (mk p v) = p"
    and vec_mk: "vec (mk p v) = v"
begin

lemma toTerms_toVector:
  "toTerms mk (length pre) (map (\<lambda>m. length (vec m)) ms) (pre @ toVector_terms pen vec ms) = Inr ms"
proof (induction ms arbitrary: pre)
  case Nil
  then show ?case by simp
next
  case (Cons m ms)
  have eq: "pre @ toVector_terms pen vec (m # ms) = (pre @ pen m # vec m) @ toVector_terms pen vec ms"
    by (simp add: toVector_terms_def)
  have "length pre + 1 + length (vec m) = length (pre @ pen m # vec m)" by simp
  with Cons.IH[of "pre @ pen m # vec m"] show ?case
    unfolding eq by (simp add: eigen_at_def eigen_segment_def nth_append mk_parts)
qed

lemma roundtrip: "toTerms mk 0 (map (\<lambda>m. length (vec m)) ms) (toVector_terms pen vec ms) = Inr ms"
  using toTerms_toVector[of "[]" ms] by simp

text \<open>A term is interpolated when both ends of the segment have it.\<close>

lemma interpolate_term_succeeds:
  assumes "1 < length data" "0 \<le> i" "nat i + 1 < length data"
  shows "succeeds (interpolate_term pen vec mk (i, a) data access)
           = (succeeds (access (data ! nat i)) \<and> succeeds (access (data ! (nat i + 1))))"
  unfolding interpolate_term_def
  by (subst succeeds_bind_indep[OF succeeds_bind_indep[OF succeeds_Inr[THEN eqTrueI]]])
    (auto simp: interpolate_access_succeeds[OF assms] succeeds_bind succeeds_iff[of "access _"])

lemma interpolate_family_succeeds:
  assumes "1 < length data" "0 \<le> i" "nat i + 1 < length data"
  shows "succeeds (interpolate_family pen vec mk (i, a) data family n)
           = (length (family n) \<le> length (family (data ! nat i)) \<and> length (family n) \<le> length (family (data ! (nat i + 1))))"
proof -
  have "succeeds (vec_at xs j) = (j < length xs)" for xs :: "'m list" and j by (simp add: vec_at_def)
  then have "succeeds (interpolate_family pen vec mk (i, a) data family n) =
      (\<forall>j < length (family n). j < length (family (data ! nat i)) \<and> j < length (family (data ! (nat i + 1))))"
    using interpolate_term_succeeds[OF assms] by (auto simp: interpolate_family_def map_result_succeeds_iff)
  also have "\<dots> = (length (family n) \<le> length (family (data ! nat i)) \<and> length (family n) \<le> length (family (data ! (nat i + 1))))"
    using lessThan_subset_iff[of "length (family n)"] by (auto simp: subset_eq)
  finally show ?thesis .
qed

end

interpretation multipliers: term_structure penalty lagrangian Multiplier
  by unfold_locales (simp_all add: Multiplier_def)

interpretation metrics_terms: term_structure lm_penalty lm_constraint LagrangianMetrics
  by unfold_locales (simp_all add: LagrangianMetrics_def)

lemma toConstraintArray_from_concat:
  "toConstraintArray_from (length pre) (map length vs) (pre @ concat vs) = Inr vs"
proof (induction vs arbitrary: pre)
  case Nil
  then show ?case by simp
next
  case (Cons v vs)
  from Cons.IH[of "pre @ v"] show ?case by (simp add: eigen_segment_def)
qed

text \<open>
  C7. Serialization loses nothing: from the vector and the sizes of the terms the deserializers of
  multipliers, of Lagrangian metrics and of constraint arrays return exactly the terms that were
  serialized, for terms of any number and size.
\<close>

theorem model_data_roundtrip:
  "toMultipliers (getSizes_Multiplier ms) (toVector_Multiplier ms) = Inr ms \<and>
   toLagrangianMetrics (getSizes_LagrangianMetrics lms) (toVector_LagrangianMetrics lms) = Inr lms \<and>
   toConstraintArray (getSizes_constraints cs) (toVector_constraints cs) = Inr cs"
  using multipliers.roundtrip[of ms] metrics_terms.roundtrip[of lms] toConstraintArray_from_concat[of "[]" cs]
  by (simp add: toMultipliers_def getSizes_Multiplier_def toVector_Multiplier_def toLagrangianMetrics_def
      getSizes_LagrangianMetrics_def toVector_LagrangianMetrics_def toConstraintArray_def getSizes_constraints_def
      toVector_constraints_def)

definition fewer_terms :: "multiplier_collection \<Rightarrow> multiplier_collection \<Rightarrow> bool" where
  "fewer_terms n m =
     (length (stateEq n) \<le> length (stateEq m) \<and> length (stateIneq n) \<le> length (stateIneq m) \<and>
      length (stateInputEq n) \<le> length (stateInputEq m) \<and> length (stateInputIneq n) \<le> length (stateInputIneq m))"

text \<open>
  Interpolating multiplier collections succeeds exactly when, in each of the four families, the nearer
  end of the segment has no more terms than the other end: the number of terms is taken from the
  nearer end, but every term is read at both ends, so a nearer end with more terms (another mode
  behind an event) makes the code read outside the collection of the other end.
\<close>

theorem interpolate_collection_succeeds:
  assumes "0 \<le> i" "nat i + 1 < length data"
  shows "succeeds (interpolate_MultiplierCollection (i, a) data) =
           (if a > 1 / 2 then fewer_terms (data ! nat i) (data ! (nat i + 1))
            else fewer_terms (data ! (nat i + 1)) (data ! nat i))"
proof -
  have len: "1 < length data" using assms(2) by linarith
  define n where "n = (if a > 1 / 2 then data ! nat i else data ! (nat i + 1))"
  have at: "vec_at_int data (nearer_index (i, a)) = Inr n"
    using assms by (simp add: nearer_index_def n_def nat_add_distrib)
  show ?thesis
    unfolding interpolate_MultiplierCollection_def at bind_result_Inr
    by (subst succeeds_bind_indep[OF succeeds_bind_indep[OF succeeds_bind_indep[OF succeeds_bind_indep[OF succeeds_Inr[THEN eqTrueI]]]]])
      (simp add: multipliers.interpolate_family_succeeds[OF len assms] fewer_terms_def n_def)
qed

theorem interpolate_collection_succeeds_witness:
  "\<not> succeeds (interpolate_MultiplierCollection (0, 1)
     [\<lparr>stateEq = [Multiplier 1 [2]], stateIneq = [], stateInputEq = [], stateInputIneq = []\<rparr>,
      \<lparr>stateEq = [], stateIneq = [], stateInputEq = [], stateInputIneq = []\<rparr>])"
  using interpolate_collection_succeeds[of 0 "[\<lparr>stateEq = [Multiplier 1 [2]], stateIneq = [], stateInputEq = [], stateInputIneq = []\<rparr>,
      \<lparr>stateEq = [], stateIneq = [], stateInputEq = [], stateInputIneq = []\<rparr>]" 1]
  by (simp add: fewer_terms_def)

end
