(* ===== verification/Solutions.thy ===== *)
theory Solutions
  imports Spreading_Modes Controllers Model_Data
begin

text \<open>
  \<open>core/ocs2_oc/oc_data/PrimalSolution\<close> and \<open>DualSolution\<close>, and the functions of
  \<open>TrajectorySpreadingHelperFunctions\<close> that adjust a linear controller, a primal and a dual solution to a
  new mode schedule.
\<close>

section \<open>Primal solution\<close>

record primal_solution =
  ps_timeTrajectory :: "scalar list"
  ps_stateTrajectory :: "vector_t list"
  ps_inputTrajectory :: "vector_t list"
  ps_postEventIndices :: "nat list"
  ps_modeSchedule :: mode_schedule
  ps_controllerPtr :: "controller option"

definition new_PrimalSolution :: primal_solution where
  "new_PrimalSolution =
     \<lparr>ps_timeTrajectory = [], ps_stateTrajectory = [], ps_inputTrajectory = [], ps_postEventIndices = [],
      ps_modeSchedule = default_ModeSchedule, ps_controllerPtr = None\<rparr>"

definition assign_PrimalSolution :: "primal_solution \<Rightarrow> primal_solution \<Rightarrow> primal_solution" where
  "assign_PrimalSolution this other =
     this\<lparr>ps_timeTrajectory := ps_timeTrajectory other, ps_stateTrajectory := ps_stateTrajectory other,
          ps_inputTrajectory := ps_inputTrajectory other, ps_postEventIndices := ps_postEventIndices other,
          ps_modeSchedule := ps_modeSchedule other,
          ps_controllerPtr := (case ps_controllerPtr other of Some c \<Rightarrow> Some c | None \<Rightarrow> None)\<rparr>"

definition swap_PrimalSolution :: "primal_solution \<Rightarrow> primal_solution \<Rightarrow> primal_solution \<times> primal_solution" where
  "swap_PrimalSolution a b =
     (a\<lparr>ps_timeTrajectory := ps_timeTrajectory b, ps_stateTrajectory := ps_stateTrajectory b,
        ps_inputTrajectory := ps_inputTrajectory b, ps_postEventIndices := ps_postEventIndices b,
        ps_modeSchedule := ps_modeSchedule b, ps_controllerPtr := ps_controllerPtr b\<rparr>,
      b\<lparr>ps_timeTrajectory := ps_timeTrajectory a, ps_stateTrajectory := ps_stateTrajectory a,
        ps_inputTrajectory := ps_inputTrajectory a, ps_postEventIndices := ps_postEventIndices a,
        ps_modeSchedule := ps_modeSchedule a, ps_controllerPtr := ps_controllerPtr a\<rparr>)"

definition clear_PrimalSolution :: "primal_solution \<Rightarrow> primal_solution" where
  "clear_PrimalSolution s =
     s\<lparr>ps_timeTrajectory := [], ps_stateTrajectory := [], ps_inputTrajectory := [], ps_postEventIndices := [],
       ps_modeSchedule := clear_ModeSchedule (ps_modeSchedule s),
       ps_controllerPtr := map_option clear_controller (ps_controllerPtr s)\<rparr>"

section \<open>Dual solution\<close>

record dual_solution =
  ds_timeTrajectory :: "scalar list"
  ds_postEventIndices :: "nat list"
  ds_final :: multiplier_collection
  ds_preJumps :: "multiplier_collection list"
  ds_intermediates :: "multiplier_collection list"

definition swap_DualSolution :: "dual_solution \<Rightarrow> dual_solution \<Rightarrow> dual_solution \<times> dual_solution" where
  "swap_DualSolution a b =
     (a\<lparr>ds_timeTrajectory := ds_timeTrajectory b, ds_postEventIndices := ds_postEventIndices b, ds_final := ds_final b,
        ds_preJumps := ds_preJumps b, ds_intermediates := ds_intermediates b\<rparr>,
      b\<lparr>ds_timeTrajectory := ds_timeTrajectory a, ds_postEventIndices := ds_postEventIndices a, ds_final := ds_final a,
        ds_preJumps := ds_preJumps a, ds_intermediates := ds_intermediates a\<rparr>)"

definition clear_DualSolution :: "dual_solution \<Rightarrow> dual_solution" where
  "clear_DualSolution d =
     d\<lparr>ds_timeTrajectory := [], ds_postEventIndices := [], ds_final := clear_MultiplierCollection (ds_final d),
       ds_preJumps := [], ds_intermediates := []\<rparr>"

definition getIntermediateDualSolutionAtTime :: "dual_solution \<Rightarrow> scalar \<Rightarrow> multiplier_collection result" where
  "getIntermediateDualSolutionAtTime d time =
     bind_result (timeSegment time (ds_timeTrajectory d)) (\<lambda>indexAlpha.
       interpolate_MultiplierCollection indexAlpha (ds_intermediates d))"

definition sampleIntermediateDualSolution :: "dual_solution \<Rightarrow> scalar list \<Rightarrow> multiplier_collection list result" where
  "sampleIntermediateDualSolution d timeTrajectory = map_result (getIntermediateDualSolutionAtTime d) timeTrajectory"

section \<open>Adjusting to a new mode schedule\<close>

type_synonym spreading_status = "bool \<times> bool"

definition getStatus :: "trajectory_spreading \<Rightarrow> spreading_status" where
  "getStatus s = (willTruncate s, willPerformTrajectorySpreading s)"

definition getPostEventIndices :: "trajectory_spreading \<Rightarrow> nat list" where
  "getPostEventIndices s = updatedPostEventIndices s"

text \<open>A new strategy; \<open>set\<close> assigns the members without initial value before anything reads them.\<close>

abbreviation fresh_spreading :: trajectory_spreading where
  "fresh_spreading \<equiv> new_TrajectorySpreading 0 (0, 0)"

definition trajectorySpread_controller ::
  "mode_schedule \<Rightarrow> mode_schedule \<Rightarrow> linear_controller \<Rightarrow> (spreading_status \<times> linear_controller) result" where
  "trajectorySpread_controller old new c =
     bind_result (set_spreading old new (lc_timeStamp c) fresh_spreading) (\<lambda>s.
     bind_result (adjustTrajectory s (lc_biasArray c)) (\<lambda>bs.
     bind_result (adjustTrajectory s (lc_gainArray c)) (\<lambda>gs.
     bind_result (adjustTimeTrajectory s (lc_timeStamp c)) (\<lambda>ts.
       Inr (getStatus s, c\<lparr>lc_biasArray := bs, lc_gainArray := gs, lc_timeStamp := ts\<rparr>)))))"

definition trajectorySpread_dual ::
  "mode_schedule \<Rightarrow> mode_schedule \<Rightarrow> dual_solution \<Rightarrow> (spreading_status \<times> dual_solution) result" where
  "trajectorySpread_dual old new d =
     bind_result (set_spreading old new (ds_timeTrajectory d) fresh_spreading) (\<lambda>s.
     bind_result (extractEventsArray s (ds_preJumps d)) (\<lambda>js.
     bind_result (adjustTrajectory s (ds_intermediates d)) (\<lambda>is.
     bind_result (adjustTimeTrajectory s (ds_timeTrajectory d)) (\<lambda>ts.
       Inr (getStatus s, d\<lparr>ds_final := (if willTruncate s then clear_MultiplierCollection (ds_final d) else ds_final d),
              ds_preJumps := js, ds_intermediates := is, ds_timeTrajectory := ts,
              ds_postEventIndices := getPostEventIndices s\<rparr>)))))"

definition trajectorySpread_dual_const ::
  "trajectory_spreading \<Rightarrow> dual_solution \<Rightarrow> dual_solution \<Rightarrow> dual_solution result" where
  "trajectorySpread_dual_const s oldDual newDual =
     (let n = clear_DualSolution newDual in
      bind_result (adjustTimeTrajectory s (ds_timeTrajectory oldDual)) (\<lambda>ts.
      bind_result (extractEventsArray s (ds_preJumps oldDual)) (\<lambda>js.
      bind_result (adjustTrajectory s (ds_intermediates oldDual)) (\<lambda>is.
        Inr (n\<lparr>ds_timeTrajectory := ts, ds_postEventIndices := getPostEventIndices s,
               ds_final := (if \<not> willTruncate s then ds_final oldDual else ds_final n),
               ds_preJumps := js, ds_intermediates := is\<rparr>)))))"

definition trajectorySpread_primal ::
  "mode_schedule \<Rightarrow> mode_schedule \<Rightarrow> primal_solution \<Rightarrow> (spreading_status \<times> primal_solution) result" where
  "trajectorySpread_primal old new p =
     bind_result (set_spreading old new (ps_timeTrajectory p) fresh_spreading) (\<lambda>s.
     bind_result (adjustTrajectory s (ps_stateTrajectory p)) (\<lambda>xs.
     bind_result (adjustTrajectory s (ps_inputTrajectory p)) (\<lambda>us.
     bind_result (adjustTimeTrajectory s (ps_timeTrajectory p)) (\<lambda>ts.
       Inr (getStatus s, p\<lparr>ps_modeSchedule := new, ps_stateTrajectory := xs, ps_inputTrajectory := us,
              ps_timeTrajectory := ts, ps_postEventIndices := getPostEventIndices s\<rparr>)))))"

section \<open>The adjusted time trajectory\<close>

text \<open>Every recorded post-event index lies strictly between 0 and the erase index.\<close>

definition post_indices_ok :: "trajectory_spreading \<Rightarrow> bool" where
  "post_indices_ok s =
     ((\<forall>p \<in> set (updatedPostEventIndices s). 0 < p \<and> p < eraseFromIndex s) \<and>
      length (updatedMatchedEventTimes s) = length (updatedPostEventIndices s))"

lemma spreading_step_posts:
  assumes "spreading_step oldPost newPost nm j s = Inr s'" "post_indices_ok s"
  shows "post_indices_ok s' \<and> eraseFromIndex s' = eraseFromIndex s"
  using assms by (auto simp: spreading_step_def post_indices_ok_def Let_def split: if_splits)

lemma computeSpreadingStrategy_posts:
  assumes "computeSpreadingStrategy ts om nm s = Inr s'"
  shows "post_indices_ok s' \<and> eraseFromIndex s' = eraseFromIndex s"
proof -
  let ?s = "s\<lparr>beginIndices := [], endIndices := [], spreadingValueIndices := [],
                 updatedPostEventIndices := [], updatedMatchedEventTimes := []\<rparr>"
  have "post_indices_ok s1 \<and> eraseFromIndex s1 = eraseFromIndex ?s"
    if "fold_result (spreading_step oldPost newPost nm) js ?s = Inr s1" for oldPost newPost js s1
    using that
  proof (induction js arbitrary: s1 rule: rev_induct)
    case Nil
    then show ?case by (auto simp: post_indices_ok_def)
  next
    case (snoc j js)
    then obtain s2 where "fold_result (spreading_step oldPost newPost nm) js ?s = Inr s2" "spreading_step oldPost newPost nm j s2 = Inr s1"
      by (auto simp: fold_result_append bind_result_eq_Inr)
    with snoc.IH[of s2] spreading_step_posts[of oldPost newPost nm j s2 s1] show ?case by simp
  qed
  from this[of _ _ "[0 ..< length (findPostEventIndices om ts)]" s'] assms show ?thesis
    by (simp add: computeSpreadingStrategy_def Let_def)
qed

lemma set_spreading_posts:
  assumes "set_spreading old new ts s = Inr s'"
  shows "post_indices_ok s' \<and> eraseFromIndex s' \<le> length ts \<and> (willTruncate s' = (eraseFromIndex s' < length ts))"
proof -
  obtain newLast nst w erase keep om nm s1 where e: "erase_index new ts newLast nst w = Inr erase"
    and s1: "computeSpreadingStrategy ts om nm (s\<lparr>eraseFromIndex := erase, keepEventDataInInterval := keep\<rparr>) = Inr s1"
    and s': "s' = s1\<lparr>willTruncate := erase < length ts, willPerformTrajectorySpreading := spreadingValueIndices s1 \<noteq> []\<rparr>"
    using assms by (auto simp: set_spreading_def Let_def bind_result_eq_Inr split: if_splits)
  have "erase \<le> length ts"
    using e by (auto simp: erase_index_def result_simps lowerBoundIndex_def length_takeWhile_le split: if_splits)
  then show ?thesis using computeSpreadingStrategy_posts[OF s1] s' by (auto simp: post_indices_ok_def)
qed

lemma adjustTimeTrajectory_succeeds:
  assumes "set_spreading old new ts s = Inr s'" "ts \<noteq> []"
  shows "\<exists>ts'. adjustTimeTrajectory s' ts = Inr ts' \<and> length ts' = eraseFromIndex s'"
proof -
  let ?n = "eraseFromIndex s'"
  note posts = set_spreading_posts[OF assms(1)]
  have "\<exists>ts'. fold_result (adjust_time_step s') [0 ..< length (updatedPostEventIndices s')] (take ?n ts) = Inr ts' \<and> length ts' = ?n"
  proof (rule fold_result_invariant[where P = "\<lambda>ts. length ts = ?n"])
    show "length (take ?n ts) = ?n" using posts by simp
    fix i and us :: "scalar list"
    assume i: "i \<in> set [0 ..< length (updatedPostEventIndices s')]" and us: "length us = ?n"
    have p: "0 < updatedPostEventIndices s' ! i" "updatedPostEventIndices s' ! i < length us"
      using posts i us nth_mem[of i "updatedPostEventIndices s'"] by (auto simp: post_indices_ok_def)
    then have "us \<noteq> []" by auto
    with p us show "\<exists>us'. adjust_time_step s' i us = Inr us' \<and> length us' = ?n"
      by (simp add: adjust_time_step_def Let_def size_pred_def)
  qed
  then show ?thesis using posts by (simp add: adjustTimeTrajectory_def vec_erase_from_def)
qed

text \<open>
  Adjusting a primal solution to a new mode schedule that does not truncate its horizon: under the
  hypotheses of trajectory spreading the call succeeds, stores the new schedule, keeps the lengths of the
  three trajectories, moves states and inputs together (the same source sample for both), each sample
  to a time of its own mode, and every new post-event index lies strictly inside the trajectory.
\<close>

theorem primal_solution_spread:
  assumes "valid_schedule old" "valid_schedule new" "sorted (ps_timeTrajectory p)" "ps_timeTrajectory p \<noteq> []"
    and "free_ends old (ps_timeTrajectory p)" "free_ends new (ps_timeTrajectory p)" "modes_sampled old (ps_timeTrajectory p)"
    and "set_spreading old new (ps_timeTrajectory p) fresh_spreading = Inr s'" "\<not> willTruncate s'"
    and "length (ps_stateTrajectory p) = length (ps_timeTrajectory p)" "length (ps_inputTrajectory p) = length (ps_timeTrajectory p)"
  shows "\<exists>src r. trajectorySpread_primal old new p = Inr (getStatus s', r) \<and> ps_modeSchedule r = new \<and>
           ps_stateTrajectory r = map (\<lambda>k. ps_stateTrajectory p ! src k) [0 ..< length (ps_timeTrajectory p)] \<and>
           ps_inputTrajectory r = map (\<lambda>k. ps_inputTrajectory p ! src k) [0 ..< length (ps_timeTrajectory p)] \<and>
           (\<forall>k < length (ps_timeTrajectory p). src k < length (ps_timeTrajectory p) \<and>
              modeAtTime new (ps_timeTrajectory p ! k) = modeAtTime old (ps_timeTrajectory p ! src k)) \<and>
           length (ps_timeTrajectory r) = length (ps_timeTrajectory p) \<and>
           (\<forall>i \<in> set (ps_postEventIndices r). 0 < i \<and> i < length (ps_timeTrajectory r))"
proof -
  obtain src where src: "\<And>xs :: vector_t list. length xs = length (ps_timeTrajectory p) \<Longrightarrow>
      adjustTrajectory s' xs = Inr (map (\<lambda>k. xs ! src k) [0 ..< length (ps_timeTrajectory p)])"
    and modes: "\<forall>k < length (ps_timeTrajectory p). src k < length (ps_timeTrajectory p) \<and>
              modeAtTime new (ps_timeTrajectory p ! k) = modeAtTime old (ps_timeTrajectory p ! src k)"
    using spreading_keeps_modes[OF assms(1-9), where 'x = vector_t] by blast
  obtain ts' where ts': "adjustTimeTrajectory s' (ps_timeTrajectory p) = Inr ts'" "length ts' = eraseFromIndex s'"
    using adjustTimeTrajectory_succeeds[OF assms(8,4)] by blast
  have erase: "eraseFromIndex s' = length (ps_timeTrajectory p)" and posts: "post_indices_ok s'"
    using set_spreading_posts[OF assms(8)] assms(9) by auto
  let ?r = "p\<lparr>ps_modeSchedule := new,
      ps_stateTrajectory := map (\<lambda>k. ps_stateTrajectory p ! src k) [0 ..< length (ps_timeTrajectory p)],
      ps_inputTrajectory := map (\<lambda>k. ps_inputTrajectory p ! src k) [0 ..< length (ps_timeTrajectory p)],
      ps_timeTrajectory := ts', ps_postEventIndices := getPostEventIndices s'\<rparr>"
  have "trajectorySpread_primal old new p = Inr (getStatus s', ?r)"
    using src[OF assms(10)] src[OF assms(11)] assms(8) ts'(1) by (simp add: trajectorySpread_primal_def)
  with modes erase posts ts'(2) show ?thesis
    by (intro exI[of _ src] exI[of _ ?r]) (simp add: getPostEventIndices_def post_indices_ok_def)
qed

theorem primal_solution_spread_witness:
  "\<exists>r. trajectorySpread_primal \<lparr>eventTimes = [2], modeSequence = [7, 8]\<rparr> \<lparr>eventTimes = [4], modeSequence = [7, 8]\<rparr>
     \<lparr>ps_timeTrajectory = [0, 1, 3, 5, 6], ps_stateTrajectory = [[0], [1], [2], [3], [4]], ps_inputTrajectory = [[0], [1], [2], [3], [4]],
      ps_postEventIndices = [2], ps_modeSchedule = \<lparr>eventTimes = [2], modeSequence = [7, 8]\<rparr>, ps_controllerPtr = None\<rparr> = Inr r \<and>
     length (ps_timeTrajectory (snd r)) = 5 \<and> ps_modeSchedule (snd r) = \<lparr>eventTimes = [4], modeSequence = [7, 8]\<rparr>"
proof -
  let ?old = "\<lparr>eventTimes = [2], modeSequence = [7, 8]\<rparr>" and ?new = "\<lparr>eventTimes = [4], modeSequence = [7, 8]\<rparr>"
  let ?ts = "[0, 1, 3, 5, 6] :: scalar list"
  let ?p = "\<lparr>ps_timeTrajectory = ?ts, ps_stateTrajectory = [[0], [1], [2], [3], [4]], ps_inputTrajectory = [[0], [1], [2], [3], [4]],
      ps_postEventIndices = [2], ps_modeSchedule = ?old, ps_controllerPtr = None\<rparr>"
  obtain s' where s': "set_spreading ?old ?new ?ts fresh_spreading = Inr s'" "\<not> willTruncate s'"
    by (simp add: spreading_eval)
  have h: "valid_schedule ?old" "valid_schedule ?new" "free_ends ?old ?ts" "free_ends ?new ?ts" "modes_sampled ?old ?ts"
    by (auto simp: valid_schedule_def free_ends_def modes_sampled_def)
  have len: "length ?ts = 5" by simp
  from primal_solution_spread[of ?old ?new ?p s'] h s' show ?thesis by (auto simp: len)
qed

end
