(* ===== verification/Performance_Index.thy ===== *)
theory Performance_Index
  imports Solutions Rollout
begin

text \<open>
  \<open>core/ocs2_oc/oc_data/PerformanceIndex\<close> and \<open>ProblemMetrics\<close>, and the function of
  \<open>mpc/ocs2_ddp/src/DDP_HelperFunctions.cpp\<close> that evaluates the metrics of a rollout,
  \<open>computeRolloutPerformanceIndex\<close>. The arithmetic of the struct makes it a real vector space, so
  that the trapezoidal rule of the library integrates it as it integrates scalars.
\<close>

section \<open>The struct and its arithmetic\<close>

datatype performance_index = PerformanceIndex
  (pi_merit: scalar)
  (pi_cost: scalar)
  (pi_dualFeasibilitiesSSE: scalar)
  (pi_dynamicsViolationSSE: scalar)
  (pi_equalityConstraintsSSE: scalar)
  (pi_inequalityConstraintsSSE: scalar)
  (pi_equalityLagrangian: scalar)
  (pi_inequalityLagrangian: scalar)

definition new_PerformanceIndex :: performance_index where
  "new_PerformanceIndex = PerformanceIndex 0 0 0 0 0 0 0 0"

definition add_PerformanceIndex :: "performance_index \<Rightarrow> performance_index \<Rightarrow> performance_index" where
  "add_PerformanceIndex a b =
     PerformanceIndex (pi_merit a + pi_merit b) (pi_cost a + pi_cost b)
       (pi_dualFeasibilitiesSSE a + pi_dualFeasibilitiesSSE b) (pi_dynamicsViolationSSE a + pi_dynamicsViolationSSE b)
       (pi_equalityConstraintsSSE a + pi_equalityConstraintsSSE b) (pi_inequalityConstraintsSSE a + pi_inequalityConstraintsSSE b)
       (pi_equalityLagrangian a + pi_equalityLagrangian b) (pi_inequalityLagrangian a + pi_inequalityLagrangian b)"

definition multiply_PerformanceIndex :: "performance_index \<Rightarrow> scalar \<Rightarrow> performance_index" where
  "multiply_PerformanceIndex a c =
     PerformanceIndex (pi_merit a * c) (pi_cost a * c) (pi_dualFeasibilitiesSSE a * c) (pi_dynamicsViolationSSE a * c)
       (pi_equalityConstraintsSSE a * c) (pi_inequalityConstraintsSSE a * c) (pi_equalityLagrangian a * c)
       (pi_inequalityLagrangian a * c)"

definition isApprox_PerformanceIndex :: "performance_index \<Rightarrow> performance_index \<Rightarrow> scalar \<Rightarrow> bool" where
  "isApprox_PerformanceIndex a b prec =
     (almost_eq_prec (pi_merit a) (pi_merit b) prec \<and> almost_eq_prec (pi_cost a) (pi_cost b) prec \<and>
      almost_eq_prec (pi_dualFeasibilitiesSSE a) (pi_dualFeasibilitiesSSE b) prec \<and>
      almost_eq_prec (pi_dynamicsViolationSSE a) (pi_dynamicsViolationSSE b) prec \<and>
      almost_eq_prec (pi_equalityConstraintsSSE a) (pi_equalityConstraintsSSE b) prec \<and>
      almost_eq_prec (pi_inequalityConstraintsSSE a) (pi_inequalityConstraintsSSE b) prec \<and>
      almost_eq_prec (pi_equalityLagrangian a) (pi_equalityLagrangian b) prec \<and>
      almost_eq_prec (pi_inequalityLagrangian a) (pi_inequalityLagrangian b) prec)"

definition swap_PerformanceIndex ::
  "performance_index \<Rightarrow> performance_index \<Rightarrow> performance_index \<times> performance_index" where
  "swap_PerformanceIndex lhs rhs = (rhs, lhs)"

definition toPerformanceIndex :: "metrics \<Rightarrow> performance_index" where
  "toPerformanceIndex m =
     PerformanceIndex 0 (cost m) 0 (getEqConstraintsSSE (dynamicsViolation m))
       (getEqConstraintsSSE_array (stateEqConstraint m) + getEqConstraintsSSE_array (stateInputEqConstraint m))
       (getIneqConstraintsSSE_array (stateIneqConstraint m) + getIneqConstraintsSSE_array (stateInputIneqConstraint m))
       (sumPenalties (stateEqLagrangian m) + sumPenalties (stateInputEqLagrangian m))
       (sumPenalties (stateIneqLagrangian m) + sumPenalties (stateInputIneqLagrangian m))"

definition toPerformanceIndex_dt :: "metrics \<Rightarrow> scalar \<Rightarrow> performance_index" where
  "toPerformanceIndex_dt m dt =
     (let p = toPerformanceIndex m
      in PerformanceIndex (pi_merit p) (pi_cost p) (pi_dualFeasibilitiesSSE p * dt) (pi_dynamicsViolationSSE p * dt)
           (pi_equalityConstraintsSSE p * dt) (pi_inequalityConstraintsSSE p * dt)
           (pi_equalityLagrangian p) (pi_inequalityLagrangian p))"

instantiation performance_index :: real_vector
begin

definition zero_performance_index :: performance_index where
  "zero_performance_index = new_PerformanceIndex"

definition plus_performance_index :: "performance_index \<Rightarrow> performance_index \<Rightarrow> performance_index" where
  "plus_performance_index = add_PerformanceIndex"

definition scaleR_performance_index :: "real \<Rightarrow> performance_index \<Rightarrow> performance_index" where
  "scaleR_performance_index c a = multiply_PerformanceIndex a c"

definition uminus_performance_index :: "performance_index \<Rightarrow> performance_index" where
  "uminus_performance_index a = multiply_PerformanceIndex a (- 1)"

definition minus_performance_index :: "performance_index \<Rightarrow> performance_index \<Rightarrow> performance_index" where
  "minus_performance_index a b = a + (- b)"

instance
  by standard
    (simp_all add: zero_performance_index_def plus_performance_index_def scaleR_performance_index_def
      uminus_performance_index_def minus_performance_index_def new_PerformanceIndex_def add_PerformanceIndex_def
      multiply_PerformanceIndex_def algebra_simps)

end

lemmas performance_index_defs = zero_performance_index_def plus_performance_index_def scaleR_performance_index_def
  new_PerformanceIndex_def add_PerformanceIndex_def multiply_PerformanceIndex_def

section \<open>Metrics of a rollout\<close>

record problem_metrics =
  pm_final :: metrics
  pm_preJumps :: "metrics list"
  pm_intermediates :: "metrics list"

definition swap_ProblemMetrics :: "problem_metrics \<Rightarrow> problem_metrics \<Rightarrow> problem_metrics \<times> problem_metrics" where
  "swap_ProblemMetrics a b =
     (a\<lparr>pm_final := pm_final b, pm_preJumps := pm_preJumps b, pm_intermediates := pm_intermediates b\<rparr>,
      b\<lparr>pm_final := pm_final a, pm_preJumps := pm_preJumps a, pm_intermediates := pm_intermediates a\<rparr>)"

definition clear_ProblemMetrics :: "problem_metrics \<Rightarrow> problem_metrics" where
  "clear_ProblemMetrics m = m\<lparr>pm_final := clear_Metrics (pm_final m), pm_preJumps := [], pm_intermediates := []\<rparr>"

definition computeRolloutPerformanceIndex :: "scalar list \<Rightarrow> problem_metrics \<Rightarrow> performance_index result" where
  "computeRolloutPerformanceIndex timeTrajectory pm =
     (if length timeTrajectory \<noteq> length (pm_intermediates pm) then Inl Assertion_Failed
      else trapezoidalIntegration timeTrajectory (map toPerformanceIndex (pm_intermediates pm))
             (fold (\<lambda>m p. p + toPerformanceIndex m) (pm_preJumps pm) (toPerformanceIndex (pm_final pm))))"

section \<open>Sums of squares\<close>

lemma fold_add_eq: "fold (\<lambda>v s. s + g v) vs (a :: 'v :: ab_group_add) = a + sum_list (map g vs)"
  by (induction vs arbitrary: a) (simp_all add: add.assoc)

lemma sum_map_nonneg: "(\<And>x. x \<in> set xs \<Longrightarrow> 0 \<le> g x) \<Longrightarrow> 0 \<le> sum_list (map g xs)" for g :: "'x \<Rightarrow> scalar"
  by (rule sum_list_nonneg) auto

lemma sum_map_zero:
  fixes g :: "'x \<Rightarrow> scalar"
  assumes "\<And>x. x \<in> set xs \<Longrightarrow> 0 \<le> g x"
  shows "(sum_list (map g xs) = 0) = (\<forall>x \<in> set xs. g x = 0)"
  using assms by (subst sum_list_nonneg_eq_0_iff) auto

lemma squaredNorm_nonneg: "0 \<le> squaredNorm v"
  unfolding squaredNorm_def by (rule sum_map_nonneg) simp

lemma squaredNorm_zero: "(squaredNorm v = 0) = (\<forall>x \<in> set v. x = 0)"
  unfolding squaredNorm_def by (subst sum_map_zero) simp_all

lemma getEqConstraintsSSE_eq: "getEqConstraintsSSE v = squaredNorm v"
  by (simp add: getEqConstraintsSSE_def squaredNorm_def)

lemma getEqConstraintsSSE_array_eq: "getEqConstraintsSSE_array vs = sum_list (map squaredNorm vs)"
  by (simp add: getEqConstraintsSSE_array_def fold_add_eq getEqConstraintsSSE_eq)

lemma getEqConstraintsSSE_array_nonneg: "0 \<le> getEqConstraintsSSE_array vs"
  unfolding getEqConstraintsSSE_array_eq by (rule sum_map_nonneg) (rule squaredNorm_nonneg)

lemma getEqConstraintsSSE_array_zero: "(getEqConstraintsSSE_array vs = 0) = (\<forall>v \<in> set vs. \<forall>x \<in> set v. x = 0)"
  unfolding getEqConstraintsSSE_array_eq by (subst sum_map_zero) (simp_all add: squaredNorm_nonneg squaredNorm_zero)

text \<open>The equality constraints of a node are satisfied.\<close>

definition eq_feasible :: "metrics \<Rightarrow> bool" where
  "eq_feasible m = (\<forall>v \<in> set (stateEqConstraint m @ stateInputEqConstraint m). \<forall>x \<in> set v. x = 0)"

lemma eq_sse_nonneg: "0 \<le> pi_equalityConstraintsSSE (toPerformanceIndex m)"
  by (simp add: toPerformanceIndex_def getEqConstraintsSSE_array_nonneg)

lemma eq_sse_zero: "(pi_equalityConstraintsSSE (toPerformanceIndex m) = 0) = eq_feasible m"
proof -
  have "(pi_equalityConstraintsSSE (toPerformanceIndex m) = 0) =
      (getEqConstraintsSSE_array (stateEqConstraint m) = 0 \<and> getEqConstraintsSSE_array (stateInputEqConstraint m) = 0)"
    unfolding toPerformanceIndex_def performance_index.sel
    by (rule add_nonneg_eq_0_iff[OF getEqConstraintsSSE_array_nonneg getEqConstraintsSSE_array_nonneg])
  then show ?thesis by (auto simp: eq_feasible_def getEqConstraintsSSE_array_zero)
qed

section \<open>Integration\<close>

lemma trapezoidalIntegration_sum:
  fixes vs :: "('v :: real_vector) list"
  assumes "length ts = length vs"
  shows "trapezoidalIntegration ts vs v0 =
           Inr (v0 + sum_list (map (\<lambda>k. scaleR ((ts ! k - ts ! (k - 1)) / 2) (vs ! (k - 1) + vs ! k)) [1 ..< length ts]))"
  using assms by (simp add: trapezoidalIntegration_def fold_add_eq)

lemma pi_equalityConstraintsSSE_add: "pi_equalityConstraintsSSE (a + b) = pi_equalityConstraintsSSE a + pi_equalityConstraintsSSE b"
  by (simp add: performance_index_defs)

lemma pi_equalityConstraintsSSE_zero: "pi_equalityConstraintsSSE 0 = 0"
  by (simp add: performance_index_defs)

lemma pi_equalityConstraintsSSE_scaleR: "pi_equalityConstraintsSSE (scaleR c a) = c * pi_equalityConstraintsSSE a"
  by (simp add: performance_index_defs)

lemma pi_equalityConstraintsSSE_sum_list:
  "pi_equalityConstraintsSSE (sum_list (map g xs)) = sum_list (map (\<lambda>x. pi_equalityConstraintsSSE (g x)) xs)"
  by (induction xs) (simp_all add: pi_equalityConstraintsSSE_add pi_equalityConstraintsSSE_zero)

text \<open>
  The equality constraint error of a rollout measures feasibility: for a time trajectory that does
  not go back, \<open>computeRolloutPerformanceIndex\<close> returns an index whose equality SSE is not negative, and it
  is zero exactly when the final node, every pre-jump node and both ends of every step of positive
  length satisfy all their state and state-input equality constraints.
\<close>

theorem rollout_equality_sse:
  assumes "sorted ts" "length ts = length (pm_intermediates pm)"
  shows "\<exists>p. computeRolloutPerformanceIndex ts pm = Inr p \<and> 0 \<le> pi_equalityConstraintsSSE p \<and>
           (pi_equalityConstraintsSSE p = 0) =
             (eq_feasible (pm_final pm) \<and> (\<forall>m \<in> set (pm_preJumps pm). eq_feasible m) \<and>
              (\<forall>k \<in> {1 ..< length ts}. ts ! (k - 1) < ts ! k \<longrightarrow>
                 eq_feasible (pm_intermediates pm ! (k - 1)) \<and> eq_feasible (pm_intermediates pm ! k)))"
proof -
  let ?e = "\<lambda>m. pi_equalityConstraintsSSE (toPerformanceIndex m)"
  let ?ms = "pm_intermediates pm"
  let ?step = "\<lambda>k. (ts ! k - ts ! (k - 1)) / 2 * (?e (?ms ! (k - 1)) + ?e (?ms ! k))"
  define p where "p = toPerformanceIndex (pm_final pm) + sum_list (map toPerformanceIndex (pm_preJumps pm)) +
    sum_list (map (\<lambda>k. scaleR ((ts ! k - ts ! (k - 1)) / 2)
      (map toPerformanceIndex ?ms ! (k - 1) + map toPerformanceIndex ?ms ! k)) [1 ..< length ts])"
  have run: "computeRolloutPerformanceIndex ts pm = Inr p"
    using assms(2) by (simp add: computeRolloutPerformanceIndex_def trapezoidalIntegration_sum fold_add_eq p_def)
  have steps: "map (\<lambda>k. pi_equalityConstraintsSSE (scaleR ((ts ! k - ts ! (k - 1)) / 2)
      (map toPerformanceIndex ?ms ! (k - 1) + map toPerformanceIndex ?ms ! k))) [1 ..< length ts] = map ?step [1 ..< length ts]"
    using assms(2) by (intro map_cong) (auto simp: pi_equalityConstraintsSSE_scaleR pi_equalityConstraintsSSE_add)
  have val: "pi_equalityConstraintsSSE p = ?e (pm_final pm) + sum_list (map ?e (pm_preJumps pm)) + sum_list (map ?step [1 ..< length ts])"
    unfolding p_def pi_equalityConstraintsSSE_add pi_equalityConstraintsSSE_sum_list steps ..
  have le: "ts ! (k - 1) \<le> ts ! k" if "k \<in> {1 ..< length ts}" for k
    using that assms(1) by (intro sorted_nth_mono) auto
  have step_nonneg: "0 \<le> ?step k" if "k \<in> {1 ..< length ts}" for k
    using le[OF that] eq_sse_nonneg by (intro mult_nonneg_nonneg) (auto intro: add_nonneg_nonneg)
  have step_zero: "(?step k = 0) = (ts ! (k - 1) < ts ! k \<longrightarrow> eq_feasible (?ms ! (k - 1)) \<and> eq_feasible (?ms ! k))"
    if "k \<in> {1 ..< length ts}" for k
  proof -
    have "(?e (?ms ! (k - 1)) + ?e (?ms ! k) = 0) = (eq_feasible (?ms ! (k - 1)) \<and> eq_feasible (?ms ! k))"
      by (simp add: add_nonneg_eq_0_iff[OF eq_sse_nonneg eq_sse_nonneg] eq_sse_zero)
    then show ?thesis using le[OF that] by auto
  qed
  have sums: "0 \<le> sum_list (map ?e (pm_preJumps pm))" "0 \<le> sum_list (map ?step [1 ..< length ts])"
    by (rule sum_map_nonneg, rule eq_sse_nonneg) (rule sum_map_nonneg, rule step_nonneg, simp)
  have pre0: "(sum_list (map ?e (pm_preJumps pm)) = 0) = (\<forall>m \<in> set (pm_preJumps pm). eq_feasible m)"
    by (subst sum_map_zero) (simp_all add: eq_sse_nonneg eq_sse_zero)
  have "(sum_list (map ?step [1 ..< length ts]) = 0) = (\<forall>k \<in> set [1 ..< length ts]. ?step k = 0)"
    by (rule sum_map_zero, rule step_nonneg) simp
  also have "\<dots> = (\<forall>k \<in> {1 ..< length ts}. ?step k = 0)" unfolding set_upt ..
  also have "\<dots> = (\<forall>k \<in> {1 ..< length ts}. ts ! (k - 1) < ts ! k \<longrightarrow> eq_feasible (?ms ! (k - 1)) \<and> eq_feasible (?ms ! k))"
    by (rule ball_cong[OF refl]) (rule step_zero)
  finally have steps0: "(sum_list (map ?step [1 ..< length ts]) = 0) =
    (\<forall>k \<in> {1 ..< length ts}. ts ! (k - 1) < ts ! k \<longrightarrow> eq_feasible (?ms ! (k - 1)) \<and> eq_feasible (?ms ! k))" .
  have "(pi_equalityConstraintsSSE p = 0) = (?e (pm_final pm) = 0 \<and> sum_list (map ?e (pm_preJumps pm)) = 0 \<and>
      sum_list (map ?step [1 ..< length ts]) = 0)"
    unfolding val using sums eq_sse_nonneg[of "pm_final pm"] by linarith
  moreover have "0 \<le> pi_equalityConstraintsSSE p"
    unfolding val using sums eq_sse_nonneg[of "pm_final pm"] by linarith
  ultimately show ?thesis unfolding eq_sse_zero pre0 steps0 by (intro exI[of _ p] conjI run)
qed

text \<open>A collection without multipliers, for the witness.\<close>

definition no_multipliers :: multiplier_collection where
  "no_multipliers = \<lparr>stateEq = [], stateIneq = [], stateInputEq = [], stateInputIneq = []\<rparr>"

text \<open>A metrics value in which only a state-input equality constraint may be violated, for the witness.\<close>

definition input_error :: "vector_t \<Rightarrow> metrics" where
  "input_error v =
     \<lparr>cost = 1, dynamicsViolation = [], stateEqConstraint = [], stateInputEqConstraint = [v], stateIneqConstraint = [],
      stateInputIneqConstraint = [], stateEqLagrangian = [], stateIneqLagrangian = [], stateInputEqLagrangian = [],
      stateInputIneqLagrangian = []\<rparr>"

theorem rollout_equality_sse_witness:
  "\<exists>p. computeRolloutPerformanceIndex [0, 1, 1]
     \<lparr>pm_final = input_error [0], pm_preJumps = [], pm_intermediates = [input_error [0], input_error [2], input_error [7]]\<rparr> = Inr p \<and>
     pi_equalityConstraintsSSE p \<noteq> 0"
proof -
  let ?pm = "\<lparr>pm_final = input_error [0], pm_preJumps = [], pm_intermediates = [input_error [0], input_error [2], input_error [7]]\<rparr>"
  have bad: "\<not> eq_feasible (input_error [2])" by (simp add: eq_feasible_def input_error_def)
  obtain p where p: "computeRolloutPerformanceIndex [0, 1, 1] ?pm = Inr p"
    and zero: "(pi_equalityConstraintsSSE p = 0) =
             (eq_feasible (pm_final ?pm) \<and> (\<forall>m \<in> set (pm_preJumps ?pm). eq_feasible m) \<and>
              (\<forall>k \<in> {1 ..< length [0, 1, 1 :: scalar]}. [0, 1, 1 :: scalar] ! (k - 1) < [0, 1, 1] ! k \<longrightarrow>
                 eq_feasible (pm_intermediates ?pm ! (k - 1)) \<and> eq_feasible (pm_intermediates ?pm ! k)))"
    using rollout_equality_sse[of "[0, 1, 1]" ?pm] by auto
  have "pi_equalityConstraintsSSE p \<noteq> 0"
    unfolding zero using bad by (auto intro!: bexI[of _ 1])
  with p show ?thesis by blast
qed

end
