(* ===== verification/Value_Buffer.thy ===== *)
theory Value_Buffer
  imports Ocs2_Prelude
begin

text \<open>
  \<open>core/ocs2_core/thread_support/Synchronized\<close> and \<open>BufferedValue\<close>: a value that one thread reads
  while others leave a new one for it. Every method takes the mutex for its whole effect on the pointer,
  so a method is one step of the model.

  The locale \<open>value_buffer\<close> is the contract of such a cell: what a put and a take do to the active and
  to the pending value. Its lemmas give the active value after any sequence of puts and takes; they
  are proved once and hold for \<open>BufferedValue\<close> here and for the policy buffer of \<open>MRT_BASE\<close>.
\<close>

section \<open>The contract of a buffered cell\<close>

datatype 'v buffer_op = Put 'v | Take

text \<open>
  The specification: \<open>f\<close> is what the cell does to a value on its way into the buffer, \<open>g\<close> on its way
  out of it. The state is the active and the pending value.
\<close>

fun buffer_spec ::
  "('v \<Rightarrow> 'v) \<Rightarrow> ('v \<Rightarrow> 'v) \<Rightarrow> 'v buffer_op list \<Rightarrow> 'v option \<times> 'v option \<Rightarrow> 'v option \<times> 'v option" where
  "buffer_spec f g [] s = s"
| "buffer_spec f g (Put v # ops) (a, p) = buffer_spec f g ops (a, Some (f v))"
| "buffer_spec f g (Take # ops) (a, p) = buffer_spec f g ops (case p of None \<Rightarrow> a | Some v \<Rightarrow> Some (g v), None)"

fun run_buffer ::
  "('v \<Rightarrow> 's \<Rightarrow> 's result) \<Rightarrow> ('s \<Rightarrow> (bool \<times> 's) result) \<Rightarrow> 'v buffer_op list \<Rightarrow> 's \<Rightarrow> 's result" where
  "run_buffer store fetch [] s = Inr s"
| "run_buffer store fetch (Put v # ops) s = bind_result (store v s) (run_buffer store fetch ops)"
| "run_buffer store fetch (Take # ops) s = bind_result (fetch s) (\<lambda>r. run_buffer store fetch ops (snd r))"

lemma buffer_spec_append: "buffer_spec f g (xs @ ys) s = buffer_spec f g ys (buffer_spec f g xs s)"
  by (induction f g xs s rule: buffer_spec.induct) auto

lemma buffer_spec_takes: "buffer_spec f g (replicate n Take) (a, None) = (a, None)"
  by (induction n) auto

text \<open>The value that a sequence of operations leaves active is the last one put before its last effective take.\<close>

lemma buffer_spec_last_put:
  "buffer_spec f g (ops @ [Put v, Take] @ replicate n Take) s = (Some (g (f v)), None)"
  by (cases "buffer_spec f g ops s") (simp add: buffer_spec_append buffer_spec_takes)

lemma buffer_spec_no_put: "(\<And>v. Put v \<notin> set ops) \<Longrightarrow> buffer_spec f g ops (a, None) = (a, None)"
proof (induction ops)
  case (Cons op ops)
  then show ?case by (cases op) auto
qed simp

locale value_buffer =
  fixes inv :: "'s \<Rightarrow> bool"
    and active :: "'s \<Rightarrow> 'v option"
    and pending :: "'s \<Rightarrow> 'v option"
    and store :: "'v \<Rightarrow> 's \<Rightarrow> 's result"
    and fetch :: "'s \<Rightarrow> (bool \<times> 's) result"
    and f :: "'v \<Rightarrow> 'v"
    and g :: "'v \<Rightarrow> 'v"
  assumes put_law: "inv s \<Longrightarrow> \<exists>s'. store v s = Inr s' \<and> inv s' \<and> active s' = active s \<and> pending s' = Some (f v)"
    and take_law: "inv s \<Longrightarrow> \<exists>s'. fetch s = Inr (pending s \<noteq> None, s') \<and> inv s' \<and> pending s' = None \<and>
                     active s' = (case pending s of None \<Rightarrow> active s | Some v \<Rightarrow> Some (g v))"
begin

lemma run_refines:
  assumes "inv s"
  shows "\<exists>s'. run_buffer store fetch ops s = Inr s' \<and> inv s' \<and>
              (active s', pending s') = buffer_spec f g ops (active s, pending s)"
  using assms
proof (induction ops arbitrary: s)
  case Nil
  then show ?case by simp
next
  case (Cons op ops)
  show ?case
  proof (cases op)
    case (Put v)
    with put_law[OF Cons.prems, of v] obtain s1 where
      "store v s = Inr s1" "inv s1" "active s1 = active s" "pending s1 = Some (f v)" by blast
    with Cons.IH[of s1] Put show ?thesis by simp
  next
    case Take
    with take_law[OF Cons.prems] obtain s1 where
      "fetch s = Inr (pending s \<noteq> None, s1)" "inv s1" "pending s1 = None"
      "active s1 = (case pending s of None \<Rightarrow> active s | Some v \<Rightarrow> Some (g v))" by blast
    with Cons.IH[of s1] Take show ?thesis by simp
  qed
qed

lemma run_total: "inv s \<Longrightarrow> succeeds (run_buffer store fetch ops s)"
  using run_refines[of s ops] by auto

lemma take_last_put:
  assumes "inv s" "run_buffer store fetch (ops @ [Put v, Take] @ replicate n Take) s = Inr s'"
  shows "active s' = Some (g (f v)) \<and> pending s' = None"
  using run_refines[OF assms(1), of "ops @ [Put v, Take] @ replicate n Take"] assms(2) buffer_spec_last_put[of f g ops v n]
  by auto

lemma active_without_take:
  assumes "inv s" "pending s = None" "\<And>v. Put v \<notin> set ops" "run_buffer store fetch ops s = Inr s'"
  shows "active s' = active s"
  using run_refines[OF assms(1), of ops] buffer_spec_no_put[OF assms(3), of f g "active s"] assms(2,4) by auto

end

section \<open>Synchronized\<close>

record 'a synchronized =
  syncPtr :: "'a option"

definition new_Synchronized :: "'a option \<Rightarrow> 'a synchronized" where
  "new_Synchronized p = \<lparr>syncPtr = p\<rparr>"

text \<open>The argument of \<open>swap\<close> is a reference: the result is the new cell and the argument's new value.\<close>

definition swap_Synchronized :: "'a synchronized \<Rightarrow> 'a option \<Rightarrow> 'a synchronized \<times> 'a option" where
  "swap_Synchronized s p = (s\<lparr>syncPtr := p\<rparr>, syncPtr s)"

definition reset_Synchronized :: "'a synchronized \<Rightarrow> 'a option \<Rightarrow> 'a synchronized" where
  "reset_Synchronized s p = fst (swap_Synchronized s p)"

text \<open>Move construction empties the source; move assignment exchanges the two cells.\<close>

definition move_Synchronized :: "'a synchronized \<Rightarrow> 'a synchronized \<times> 'a synchronized" where
  "move_Synchronized other = (\<lparr>syncPtr = syncPtr other\<rparr>, other\<lparr>syncPtr := None\<rparr>)"

definition assign_Synchronized :: "'a synchronized \<Rightarrow> 'a synchronized \<Rightarrow> 'a synchronized \<times> 'a synchronized" where
  "assign_Synchronized this other = (this\<lparr>syncPtr := syncPtr other\<rparr>, other\<lparr>syncPtr := syncPtr this\<rparr>)"

section \<open>BufferedValue\<close>

record 'a buffered_value =
  activeValue :: 'a
  buffer :: "'a synchronized"

definition BufferedValue :: "'a \<Rightarrow> 'a buffered_value" where
  "BufferedValue v = \<lparr>activeValue = v, buffer = new_Synchronized None\<rparr>"

definition get_buffered :: "'a buffered_value \<Rightarrow> 'a" where
  "get_buffered b = activeValue b"

definition setBuffer :: "'a \<Rightarrow> 'a buffered_value \<Rightarrow> 'a buffered_value" where
  "setBuffer v b = b\<lparr>buffer := reset_Synchronized (buffer b) (Some v)\<rparr>"

definition updateFromBuffer :: "'a buffered_value \<Rightarrow> bool \<times> 'a buffered_value" where
  "updateFromBuffer b =
     (let (cell, updatedValue) = swap_Synchronized (buffer b) None
      in case updatedValue of
           Some v \<Rightarrow> (True, b\<lparr>buffer := cell, activeValue := v\<rparr>)
         | None \<Rightarrow> (False, b\<lparr>buffer := cell\<rparr>))"

lemmas buffered_value_defs = BufferedValue_def get_buffered_def setBuffer_def updateFromBuffer_def
  swap_Synchronized_def reset_Synchronized_def new_Synchronized_def

interpretation buffered: value_buffer "\<lambda>_. True" "\<lambda>b. Some (get_buffered b)" "\<lambda>b. syncPtr (buffer b)"
    "\<lambda>v b. Inr (setBuffer v b)" "\<lambda>b. Inr (updateFromBuffer b)" "\<lambda>v. v" "\<lambda>v. v"
  by unfold_locales (auto simp: buffered_value_defs split: option.splits)

end
