(* ===== verification/Solver_Base.thy ===== *)
theory Solver_Base
  imports Performance_Index Value_Buffer Target_Trajectories
begin

text \<open>
  \<open>core/ocs2_oc/synchronized_module/ReferenceManager\<close> and \<open>LoopshapingReferenceManager\<close>,
  \<open>core/ocs2_oc/oc_solver/SolverBase\<close>, \<open>mpc/ocs2_mpc/MPC_BASE\<close> with its settings and
  \<open>mpc/ocs2_ddp/GaussNewtonDDP_MPC\<close>. The references that users set are kept in buffers and become
  active at the next solver run; the solver runs its synchronized modules before and after the solution;
  the MPC calls the solver over a receding horizon.

  A concrete solver is the argument \<open>ops\<close>: its virtual methods, as functions on a state \<open>'s\<close> of its own.
  The synchronized modules and the observers of a solver act on a common state \<open>'m\<close>.
\<close>

section \<open>Reference manager\<close>

record reference_manager =
  rm_modeSchedule :: "mode_schedule buffered_value"
  rm_targetTrajectories :: "target_trajectories buffered_value"

definition ReferenceManager :: "target_trajectories \<Rightarrow> mode_schedule \<Rightarrow> reference_manager" where
  "ReferenceManager initialTargetTrajectories initialModeSchedule =
     \<lparr>rm_modeSchedule = BufferedValue initialModeSchedule, rm_targetTrajectories = BufferedValue initialTargetTrajectories\<rparr>"

definition getModeSchedule :: "reference_manager \<Rightarrow> mode_schedule" where
  "getModeSchedule rm = get_buffered (rm_modeSchedule rm)"

definition setModeSchedule :: "mode_schedule \<Rightarrow> reference_manager \<Rightarrow> reference_manager" where
  "setModeSchedule ms rm = rm\<lparr>rm_modeSchedule := setBuffer ms (rm_modeSchedule rm)\<rparr>"

definition getTargetTrajectories :: "reference_manager \<Rightarrow> target_trajectories" where
  "getTargetTrajectories rm = get_buffered (rm_targetTrajectories rm)"

definition setTargetTrajectories :: "target_trajectories \<Rightarrow> reference_manager \<Rightarrow> reference_manager" where
  "setTargetTrajectories tt rm = rm\<lparr>rm_targetTrajectories := setBuffer tt (rm_targetTrajectories rm)\<rparr>"

text \<open>\<open>modifyReferences\<close> is virtual; a manager class overrides it with a function of its own.\<close>

type_synonym modify_references =
  "scalar \<Rightarrow> scalar \<Rightarrow> vector_t \<Rightarrow> target_trajectories \<Rightarrow> mode_schedule \<Rightarrow> target_trajectories \<times> mode_schedule"

definition modifyReferences :: modify_references where
  "modifyReferences initTime finalTime initState tt ms = (tt, ms)"

definition preSolverRun :: "modify_references \<Rightarrow> scalar \<Rightarrow> scalar \<Rightarrow> vector_t \<Rightarrow> reference_manager \<Rightarrow> reference_manager" where
  "preSolverRun modify initTime finalTime initState rm =
     (let targets = snd (updateFromBuffer (rm_targetTrajectories rm));
          modes = snd (updateFromBuffer (rm_modeSchedule rm));
          (tt, ms) = modify initTime finalTime initState (get_buffered targets) (get_buffered modes)
      in rm\<lparr>rm_targetTrajectories := targets\<lparr>activeValue := tt\<rparr>, rm_modeSchedule := modes\<lparr>activeValue := ms\<rparr>\<rparr>)"

text \<open>The decorator for loopshaping passes the system part of the state on.\<close>

definition loopshaping_preSolverRun ::
  "(vector_t \<Rightarrow> vector_t) \<Rightarrow> modify_references \<Rightarrow> scalar \<Rightarrow> scalar \<Rightarrow> vector_t \<Rightarrow> reference_manager \<Rightarrow> reference_manager" where
  "loopshaping_preSolverRun getSystemState modify initTime finalTime initState rm =
     (let systemState = getSystemState initState in preSolverRun modify initTime finalTime systemState rm)"

lemmas reference_defs = getModeSchedule_def setModeSchedule_def getTargetTrajectories_def setTargetTrajectories_def

section \<open>Solver\<close>

record 'm synchronized_module =
  sm_preSolverRun :: "scalar \<Rightarrow> scalar \<Rightarrow> vector_t \<Rightarrow> reference_manager \<Rightarrow> 'm \<Rightarrow> 'm"
  sm_postSolverRun :: "primal_solution \<Rightarrow> 'm \<Rightarrow> 'm"

text \<open>
  The extraction methods of a solver observer, each with the data that the solver hands to it, and the
  virtual methods of a solver.
\<close>

record 'm solver_observer =
  so_extractTermConstraint :: "primal_solution \<Rightarrow> problem_metrics \<Rightarrow> 'm \<Rightarrow> 'm result"
  so_extractTermLagrangianMetrics :: "primal_solution \<Rightarrow> problem_metrics \<Rightarrow> 'm \<Rightarrow> 'm result"
  so_extractTermMultipliers :: "dual_solution \<Rightarrow> 'm \<Rightarrow> 'm result"

record 's solver_ops =
  so_runImpl :: "reference_manager \<Rightarrow> scalar \<Rightarrow> vector_t \<Rightarrow> scalar \<Rightarrow> 's \<Rightarrow> 's result"
  so_reset :: "'s \<Rightarrow> 's"
  so_getFinalTime :: "'s \<Rightarrow> scalar"
  so_getPrimalSolution :: "'s \<Rightarrow> scalar \<Rightarrow> primal_solution \<Rightarrow> primal_solution result"
  so_getPerformanceIndeces :: "'s \<Rightarrow> performance_index"
  so_getDualSolution :: "'s \<Rightarrow> dual_solution option"
  so_getSolutionMetrics :: "'s \<Rightarrow> problem_metrics"

record ('s, 'm) solver =
  sv_state :: 's
  sv_references :: reference_manager
  sv_modify :: modify_references
  sv_modules :: "'m synchronized_module list"
  sv_observers :: "'m solver_observer list"
  sv_world :: 'm

definition setSynchronizedModules :: "'m synchronized_module list \<Rightarrow> ('s, 'm) solver \<Rightarrow> ('s, 'm) solver" where
  "setSynchronizedModules ms sv = sv\<lparr>sv_modules := ms\<rparr>"

definition addSynchronizedModule :: "'m synchronized_module \<Rightarrow> ('s, 'm) solver \<Rightarrow> ('s, 'm) solver" where
  "addSynchronizedModule m sv = sv\<lparr>sv_modules := sv_modules sv @ [m]\<rparr>"

definition addSolverObserver :: "'m solver_observer \<Rightarrow> ('s, 'm) solver \<Rightarrow> ('s, 'm) solver" where
  "addSolverObserver ob sv = sv\<lparr>sv_observers := sv_observers sv @ [ob]\<rparr>"

definition setReferenceManager :: "(reference_manager \<times> modify_references) option \<Rightarrow> ('s, 'm) solver \<Rightarrow> ('s, 'm) solver result" where
  "setReferenceManager p sv =
     (case p of
        None \<Rightarrow> Inl (Runtime_Error ''[SolverBase] ReferenceManager pointer cannot be a nullptr!'')
      | Some (rm, modify) \<Rightarrow> Inr (sv\<lparr>sv_references := rm, sv_modify := modify\<rparr>))"

definition primalSolution :: "'s solver_ops \<Rightarrow> 's \<Rightarrow> scalar \<Rightarrow> primal_solution result" where
  "primalSolution ops s finalTime = so_getPrimalSolution ops s finalTime new_PrimalSolution"

definition preRun :: "scalar \<Rightarrow> vector_t \<Rightarrow> scalar \<Rightarrow> ('s, 'm) solver \<Rightarrow> ('s, 'm) solver" where
  "preRun initTime initState finalTime sv =
     (let rm = preSolverRun (sv_modify sv) initTime finalTime initState (sv_references sv)
      in sv\<lparr>sv_references := rm,
            sv_world := fold (\<lambda>m. sm_preSolverRun m initTime finalTime initState rm) (sv_modules sv) (sv_world sv)\<rparr>)"

definition observe_solution :: "'s solver_ops \<Rightarrow> 's \<Rightarrow> primal_solution \<Rightarrow> 'm solver_observer \<Rightarrow> 'm \<Rightarrow> 'm result" where
  "observe_solution ops s solution ob w =
     bind_result (so_extractTermConstraint ob solution (so_getSolutionMetrics ops s) w) (\<lambda>w.
     bind_result (so_extractTermLagrangianMetrics ob solution (so_getSolutionMetrics ops s) w) (\<lambda>w.
       case so_getDualSolution ops s of
         None \<Rightarrow> Inr w
       | Some d \<Rightarrow> so_extractTermMultipliers ob d w))"

definition postRun :: "'s solver_ops \<Rightarrow> ('s, 'm) solver \<Rightarrow> ('s, 'm) solver result" where
  "postRun ops sv =
     (if sv_modules sv \<noteq> [] \<or> sv_observers sv \<noteq> [] then
        bind_result (primalSolution ops (sv_state sv) (so_getFinalTime ops (sv_state sv))) (\<lambda>solution.
        bind_result (fold_result (observe_solution ops (sv_state sv) solution) (sv_observers sv)
          (fold (\<lambda>m. sm_postSolverRun m solution) (sv_modules sv) (sv_world sv))) (\<lambda>w.
          Inr (sv\<lparr>sv_world := w\<rparr>)))
      else Inr sv)"

definition run_solver :: "'s solver_ops \<Rightarrow> scalar \<Rightarrow> vector_t \<Rightarrow> scalar \<Rightarrow> ('s, 'm) solver \<Rightarrow> ('s, 'm) solver result" where
  "run_solver ops initTime initState finalTime sv =
     (let sv1 = preRun initTime initState finalTime sv
      in bind_result (so_runImpl ops (sv_references sv1) initTime initState finalTime (sv_state sv1)) (\<lambda>s.
           postRun ops (sv1\<lparr>sv_state := s\<rparr>)))"

section \<open>MPC\<close>

record mpc_settings =
  timeHorizon :: scalar
  solutionTimeWindow :: scalar
  debugPrint :: bool
  coldStart :: bool
  mpcDesiredFrequency :: scalar
  mrtDesiredFrequency :: scalar

definition default_mpc_settings :: mpc_settings where
  "default_mpc_settings =
     \<lparr>timeHorizon = 1, solutionTimeWindow = - 1, debugPrint = False, coldStart = False,
      mpcDesiredFrequency = - 1, mrtDesiredFrequency = 100\<rparr>"

record ('s, 'm) mpc =
  initRun :: bool
  mpcSettings :: mpc_settings
  mpcSolver :: "('s, 'm) solver"

definition MPC_BASE :: "mpc_settings \<Rightarrow> ('s, 'm) solver \<Rightarrow> ('s, 'm) mpc" where
  "MPC_BASE settings sv = \<lparr>initRun = True, mpcSettings = settings, mpcSolver = sv\<rparr>"

definition reset_mpc :: "'s solver_ops \<Rightarrow> ('s, 'm) mpc \<Rightarrow> ('s, 'm) mpc" where
  "reset_mpc ops m = m\<lparr>initRun := True, mpcSolver := (mpcSolver m)\<lparr>sv_state := so_reset ops (sv_state (mpcSolver m))\<rparr>\<rparr>"

text \<open>\<open>GaussNewtonDDP_MPC\<close>: the solver is reset before a cold start.\<close>

definition calculateController :: "'s solver_ops \<Rightarrow> scalar \<Rightarrow> vector_t \<Rightarrow> scalar \<Rightarrow> ('s, 'm) mpc \<Rightarrow> ('s, 'm) mpc result" where
  "calculateController ops initTime initState finalTime m =
     (let sv = (if coldStart (mpcSettings m)
                then (mpcSolver m)\<lparr>sv_state := so_reset ops (sv_state (mpcSolver m))\<rparr> else mpcSolver m)
      in bind_result (run_solver ops initTime initState finalTime sv) (\<lambda>sv. Inr (m\<lparr>mpcSolver := sv\<rparr>)))"

definition run_mpc :: "'s solver_ops \<Rightarrow> scalar \<Rightarrow> vector_t \<Rightarrow> ('s, 'm) mpc \<Rightarrow> (bool \<times> ('s, 'm) mpc) result" where
  "run_mpc ops currentTime currentState m =
     (if \<not> initRun m \<and> currentTime \<ge> so_getFinalTime ops (sv_state (mpcSolver m)) then Inr (False, m)
      else bind_result (calculateController ops currentTime currentState (currentTime + timeHorizon (mpcSettings m)) m) (\<lambda>m.
             Inr (True, m\<lparr>initRun := False\<rparr>)))"

section \<open>Active references\<close>

datatype reference_update = Set_Modes mode_schedule | Set_Targets target_trajectories

fun update_references :: "reference_update \<Rightarrow> reference_manager \<Rightarrow> reference_manager" where
  "update_references (Set_Modes ms) rm = setModeSchedule ms rm"
| "update_references (Set_Targets tt) rm = setTargetTrajectories tt rm"

definition modes_of :: "reference_update list \<Rightarrow> mode_schedule list" where
  "modes_of us = concat (map (\<lambda>u. case u of Set_Modes ms \<Rightarrow> [ms] | Set_Targets _ \<Rightarrow> []) us)"

definition targets_of :: "reference_update list \<Rightarrow> target_trajectories list" where
  "targets_of us = concat (map (\<lambda>u. case u of Set_Modes _ \<Rightarrow> [] | Set_Targets tt \<Rightarrow> [tt]) us)"

lemma update_references_parts:
  "rm_modeSchedule (fold update_references us rm) = fold setBuffer (modes_of us) (rm_modeSchedule rm)"
  "rm_targetTrajectories (fold update_references us rm) = fold setBuffer (targets_of us) (rm_targetTrajectories rm)"
proof (induction us arbitrary: rm)
  case (Cons u us)
  { case 1 show ?case by (cases u) (simp_all add: Cons.IH modes_of_def reference_defs) }
  { case 2 show ?case by (cases u) (simp_all add: Cons.IH targets_of_def reference_defs) }
qed (simp_all add: modes_of_def targets_of_def)

lemma run_buffer_puts:
  "run_buffer (\<lambda>v b. Inr (setBuffer v b)) (\<lambda>b. Inr (updateFromBuffer b)) (map Put vs) b = Inr (fold setBuffer vs b)"
  by (induction vs arbitrary: b) simp_all

lemma fold_setBuffer_active: "get_buffered (fold setBuffer vs b) = get_buffered b"
proof -
  have "buffer_spec (\<lambda>v. v) (\<lambda>v. v) (map Put vs) (a, p) = (a, if vs = [] then p else Some (last vs))"
    for a :: "'a option" and p by (induction vs arbitrary: p) auto
  then show ?thesis using buffered.run_refines[where s = b and ops = "map Put vs"] by (auto simp: run_buffer_puts)
qed

text \<open>The value a cell holds for the next update: the last one put, or the one it has.\<close>

definition next_value :: "'a buffered_value \<Rightarrow> 'a list \<Rightarrow> 'a" where
  "next_value b vs = (if vs \<noteq> [] then last vs else case syncPtr (buffer b) of Some v \<Rightarrow> v | None \<Rightarrow> activeValue b)"

lemma update_after_puts:
  "get_buffered (snd (updateFromBuffer (fold setBuffer vs b))) = next_value b vs"
  "syncPtr (buffer (snd (updateFromBuffer (fold setBuffer vs b)))) = None"
proof -
  have spec: "buffer_spec (\<lambda>v. v) (\<lambda>v. v) (map Put vs @ [Take]) (a, p) =
      ((if vs = [] then (case p of None \<Rightarrow> a | Some v \<Rightarrow> Some v) else Some (last vs)), None)"
    for a :: "'a option" and p by (induction vs arbitrary: p) auto
  have run: "run_buffer (\<lambda>v b. Inr (setBuffer v b)) (\<lambda>b. Inr (updateFromBuffer b)) (map Put vs @ [Take]) b =
      Inr (snd (updateFromBuffer (fold setBuffer vs b)))"
    by (induction vs arbitrary: b) simp_all
  show "get_buffered (snd (updateFromBuffer (fold setBuffer vs b))) = next_value b vs"
    "syncPtr (buffer (snd (updateFromBuffer (fold setBuffer vs b)))) = None"
    using buffered.run_refines[where s = b and ops = "map Put vs @ [Take]"]
    by (auto simp: run spec next_value_def get_buffered_def split: option.splits if_splits)
qed

text \<open>
  C8. The references of a solver run: whatever mode schedules and target trajectories are set before a run,
  and in whatever order, the active ones stay as they are until the run begins; \<open>preSolverRun\<close> then
  hands the latest of each (or the active one if none was set) to \<open>modifyReferences\<close>, makes its result
  active and leaves nothing pending.
\<close>

theorem run_uses_latest_references:
  "getModeSchedule (fold update_references us rm) = getModeSchedule rm \<and>
   getTargetTrajectories (fold update_references us rm) = getTargetTrajectories rm \<and>
   (getTargetTrajectories (preSolverRun modify t0 tf x (fold update_references us rm)),
    getModeSchedule (preSolverRun modify t0 tf x (fold update_references us rm))) =
     modify t0 tf x (next_value (rm_targetTrajectories rm) (targets_of us)) (next_value (rm_modeSchedule rm) (modes_of us)) \<and>
   syncPtr (buffer (rm_targetTrajectories (preSolverRun modify t0 tf x (fold update_references us rm)))) = None \<and>
   syncPtr (buffer (rm_modeSchedule (preSolverRun modify t0 tf x (fold update_references us rm)))) = None"
  by (simp add: getModeSchedule_def getTargetTrajectories_def preSolverRun_def update_references_parts fold_setBuffer_active
      update_after_puts Let_def split: prod.splits) (simp add: get_buffered_def)

section \<open>Receding horizon\<close>

fun run_mpc_all ::
  "'s solver_ops \<Rightarrow> (scalar \<times> vector_t) list \<Rightarrow> ('s, 'm) mpc \<Rightarrow> (bool list \<times> ('s, 'm) mpc) result" where
  "run_mpc_all ops [] m = Inr ([], m)"
| "run_mpc_all ops ((t, x) # rest) m =
     bind_result (run_mpc ops t x m) (\<lambda>r. bind_result (run_mpc_all ops rest (snd r)) (\<lambda>rs. Inr (fst r # fst rs, snd rs)))"

text \<open>The specification keeps the time of the last accepted call; \<open>None\<close> before the first.\<close>

fun horizon_accepts :: "scalar \<Rightarrow> scalar option \<Rightarrow> scalar list \<Rightarrow> bool list" where
  "horizon_accepts h a [] = []"
| "horizon_accepts h None (t # ts) = True # horizon_accepts h (Some t) ts"
| "horizon_accepts h (Some a) (t # ts) = (if t < a + h then True # horizon_accepts h (Some t) ts else False # horizon_accepts h (Some a) ts)"

definition sets_final_time :: "'s solver_ops \<Rightarrow> bool" where
  "sets_final_time ops = (\<forall>rm t x tf s s'. so_runImpl ops rm t x tf s = Inr s' \<longrightarrow> so_getFinalTime ops s' = tf)"

lemma postRun_state: "postRun ops sv = Inr sv' \<Longrightarrow> sv_state sv' = sv_state sv"
  by (auto simp: postRun_def result_simps split: if_splits)

lemma run_solver_final_time:
  assumes "sets_final_time ops" "run_solver ops t x tf sv = Inr sv'"
  shows "so_getFinalTime ops (sv_state sv') = tf"
  using assms by (auto simp: run_solver_def sets_final_time_def Let_def result_simps dest!: postRun_state)

lemma run_mpc_result:
  assumes "sets_final_time ops" "run_mpc ops t x m = Inr (b, m')"
  shows "mpcSettings m' = mpcSettings m \<and>
         (if \<not> initRun m \<and> t \<ge> so_getFinalTime ops (sv_state (mpcSolver m)) then \<not> b \<and> m' = m
          else b \<and> \<not> initRun m' \<and> so_getFinalTime ops (sv_state (mpcSolver m')) = t + timeHorizon (mpcSettings m))"
  using assms
  by (auto simp: run_mpc_def calculateController_def Let_def result_simps split: if_splits dest!: run_solver_final_time)

lemma run_mpc_all_accepts:
  assumes "sets_final_time ops" "run_mpc_all ops txs m = Inr (bs, m')"
    and "case a of None \<Rightarrow> initRun m
                 | Some t \<Rightarrow> \<not> initRun m \<and> so_getFinalTime ops (sv_state (mpcSolver m)) = t + timeHorizon (mpcSettings m)"
  shows "bs = horizon_accepts (timeHorizon (mpcSettings m)) a (map fst txs)"
  using assms(2,3)
proof (induction txs arbitrary: m a bs)
  case (Cons tx txs)
  obtain t x where tx: "tx = (t, x)" by (cases tx)
  from Cons.prems(1) obtain b m1 bs' where
    step: "run_mpc ops t x m = Inr (b, m1)" and rest: "run_mpc_all ops txs m1 = Inr (bs', m')" and bs: "bs = b # bs'"
    by (auto simp: tx result_simps)
  note r = run_mpc_result[OF assms(1) step]
  show ?case
  proof (cases a)
    case None
    with r Cons.prems(2) have "b" "case Some t of None \<Rightarrow> initRun m1
        | Some t \<Rightarrow> \<not> initRun m1 \<and> so_getFinalTime ops (sv_state (mpcSolver m1)) = t + timeHorizon (mpcSettings m1)"
      by auto
    with Cons.IH[OF rest this(2)] r bs None tx show ?thesis by simp
  next
    case (Some u)
    show ?thesis
    proof (cases "t < u + timeHorizon (mpcSettings m)")
      case True
      with r Cons.prems(2) Some have "b" "case Some t of None \<Rightarrow> initRun m1
          | Some t \<Rightarrow> \<not> initRun m1 \<and> so_getFinalTime ops (sv_state (mpcSolver m1)) = t + timeHorizon (mpcSettings m1)"
        by auto
      with Cons.IH[OF rest this(2)] r bs Some tx True show ?thesis by simp
    next
      case False
      with r Cons.prems(2) Some have "\<not> b" "m1 = m" by auto
      with Cons.IH[of m bs' a] rest Cons.prems(2) bs Some tx False show ?thesis by simp
    qed
  qed
qed simp

text \<open>
  C9. Which calls an MPC answers: with a solver that ends at the final time it is given, a sequence of
  calls to a fresh MPC computes a policy for the first one and then exactly for those whose time lies less
  than one horizon after the last call it answered. A call that is refused changes nothing, so once a
  call comes a whole horizon late every later one is refused until a reset.
\<close>

theorem mpc_horizon_refines:
  assumes "sets_final_time ops" "run_mpc_all ops txs (MPC_BASE settings sv) = Inr (bs, m')"
  shows "bs = horizon_accepts (timeHorizon settings) None (map fst txs)"
  using run_mpc_all_accepts[OF assms, of None] by (simp add: MPC_BASE_def)

text \<open>A solver whose whole state is its final time, for the witness.\<close>

definition clock_solver :: "scalar solver_ops" where
  "clock_solver =
     \<lparr>so_runImpl = (\<lambda>rm t x tf s. Inr tf), so_reset = (\<lambda>s. 0), so_getFinalTime = (\<lambda>s. s),
      so_getPrimalSolution = (\<lambda>s tf p. Inr p), so_getPerformanceIndeces = (\<lambda>s. 0), so_getDualSolution = (\<lambda>s. None),
      so_getSolutionMetrics = (\<lambda>s. \<lparr>pm_final = input_error [], pm_preJumps = [], pm_intermediates = []\<rparr>)\<rparr>"

definition clock_mpc :: "(scalar, unit) solver" where
  "clock_mpc =
     \<lparr>sv_state = 0, sv_references = ReferenceManager (sized_TargetTrajectories 0) default_ModeSchedule, sv_modify = modifyReferences,
      sv_modules = [], sv_observers = [], sv_world = ()\<rparr>"

theorem mpc_horizon_refines_witness:
  "\<exists>m. run_mpc_all clock_solver [(0, []), (1 / 2, []), (3 / 2, []), (2, [])] (MPC_BASE default_mpc_settings clock_mpc) =
     Inr ([True, True, False, False], m)"
proof -
  have ops: "sets_final_time clock_solver" by (simp add: sets_final_time_def clock_solver_def)
  have run: "\<exists>bs m. run_mpc_all clock_solver [(0, []), (1 / 2, []), (3 / 2, []), (2, [])] (MPC_BASE default_mpc_settings clock_mpc) =
     Inr (bs, m)"
    by (simp add: clock_solver_def clock_mpc_def MPC_BASE_def default_mpc_settings_def run_mpc_def calculateController_def
        run_solver_def postRun_def preRun_def Let_def)
  then obtain bs m where
    r: "run_mpc_all clock_solver [(0, []), (1 / 2, []), (3 / 2, []), (2, [])] (MPC_BASE default_mpc_settings clock_mpc) = Inr (bs, m)"
    by blast
  from mpc_horizon_refines[OF ops r] have "bs = [True, True, False, False]"
    by (simp add: default_mpc_settings_def)
  with r show ?thesis by blast
qed

end
