(* ===== verification/Mrt_Base.thy ===== *)
theory Mrt_Base
  imports Solver_Base
begin

text \<open>
  \<open>mpc/ocs2_mpc\<close>: \<open>SystemObservation\<close>, \<open>CommandData\<close>, \<open>MrtObserver\<close> and \<open>MRT_BASE\<close>, the side of the MPC
  that tracks a policy. One thread puts new policies into a buffer (\<open>moveToBuffer\<close>), another one makes
  the buffered policy active (\<open>updatePolicy\<close>) and evaluates it. \<open>updatePolicy\<close> only tries to take the
  mutex of the buffer; the relation \<open>mrt_step\<close> has the steps of both threads, with a policy thread
  that holds the mutex between the two halves of \<open>moveToBuffer\<close>.
\<close>

section \<open>State\<close>

record system_observation =
  obs_mode :: nat
  obs_time :: scalar
  obs_state :: vector_t
  obs_input :: vector_t

definition swap_SystemObservation ::
  "system_observation \<Rightarrow> system_observation \<Rightarrow> system_observation \<times> system_observation" where
  "swap_SystemObservation a b =
     (a\<lparr>obs_mode := obs_mode b, obs_time := obs_time b, obs_state := obs_state b, obs_input := obs_input b\<rparr>,
      b\<lparr>obs_mode := obs_mode a, obs_time := obs_time a, obs_state := obs_state a, obs_input := obs_input a\<rparr>)"

record command_data =
  mpcInitObservation :: system_observation
  mpcTargetTrajectories :: target_trajectories

text \<open>The two virtual methods of an observer modify the primal solution.\<close>

record mrt_observer =
  ob_modifyActiveSolution :: "command_data \<Rightarrow> primal_solution \<Rightarrow> primal_solution"
  ob_modifyBufferedSolution :: "command_data \<Rightarrow> primal_solution \<Rightarrow> primal_solution"

type_synonym rollout_fun =
  "scalar \<Rightarrow> vector_t \<Rightarrow> scalar \<Rightarrow> controller option \<Rightarrow> mode_schedule \<Rightarrow> rollout_data result"

record mrt =
  policyReceivedEver :: bool
  newPolicyInBuffer :: bool
  activeCommandPtr :: "command_data option"
  bufferCommandPtr :: "command_data option"
  activePrimalSolutionPtr :: "primal_solution option"
  bufferPrimalSolutionPtr :: "primal_solution option"
  activePerformanceIndicesPtr :: "performance_index option"
  bufferPerformanceIndicesPtr :: "performance_index option"
  mrtTrylockWarningCount :: nat
  rolloutPtr :: "rollout_fun option"
  observerPtrArray :: "mrt_observer option list"

definition reset_mrt :: "mrt \<Rightarrow> mrt" where
  "reset_mrt s =
     s\<lparr>policyReceivedEver := False, newPolicyInBuffer := False, mrtTrylockWarningCount := 0,
       activeCommandPtr := None, bufferCommandPtr := None,
       activePrimalSolutionPtr := None, bufferPrimalSolutionPtr := None,
       activePerformanceIndicesPtr := None, bufferPerformanceIndicesPtr := None\<rparr>"

definition MRT_BASE :: mrt where
  "MRT_BASE = reset_mrt
     \<lparr>policyReceivedEver = False, newPolicyInBuffer = False, activeCommandPtr = None, bufferCommandPtr = None,
      activePrimalSolutionPtr = None, bufferPrimalSolutionPtr = None, activePerformanceIndicesPtr = None,
      bufferPerformanceIndicesPtr = None, mrtTrylockWarningCount = 0, rolloutPtr = None, observerPtrArray = []\<rparr>"

definition initialPolicyReceived :: "mrt \<Rightarrow> bool" where
  "initialPolicyReceived s = policyReceivedEver s"

definition initRollout :: "rollout_fun \<Rightarrow> mrt \<Rightarrow> mrt" where
  "initRollout r s = s\<lparr>rolloutPtr := Some r\<rparr>"

definition isRolloutSet :: "mrt \<Rightarrow> bool" where
  "isRolloutSet s = (rolloutPtr s \<noteq> None)"

definition addMrtObserver :: "mrt_observer option \<Rightarrow> mrt \<Rightarrow> mrt" where
  "addMrtObserver ob s = s\<lparr>observerPtrArray := observerPtrArray s @ [ob]\<rparr>"

section \<open>Policy evaluation\<close>

definition getCommand :: "mrt \<Rightarrow> command_data result" where
  "getCommand s =
     (case activeCommandPtr s of
        Some c \<Rightarrow> Inr c
      | None \<Rightarrow> Inl (Runtime_Error ''[MRT_BASE::getCommand] updatePolicy() should be called first!''))"

definition getPolicy :: "mrt \<Rightarrow> primal_solution result" where
  "getPolicy s =
     (case activePrimalSolutionPtr s of
        Some p \<Rightarrow> Inr p
      | None \<Rightarrow> Inl (Runtime_Error ''[MRT_BASE::getPolicy] updatePolicy() should be called first!''))"

definition getPerformanceIndices :: "mrt \<Rightarrow> performance_index result" where
  "getPerformanceIndices s =
     (case activePerformanceIndicesPtr s of
        Some p \<Rightarrow> Inr p
      | None \<Rightarrow> Inl (Runtime_Error ''[MRT_BASE::getPerformanceIndices] updatePolicy() should be called first!''))"

text \<open>The result holds the nominal state, the input and the mode.\<close>

definition evaluatePolicy :: "mrt \<Rightarrow> scalar \<Rightarrow> vector_t \<Rightarrow> (vector_t \<times> vector_t \<times> nat) result" where
  "evaluatePolicy s currentTime currentState =
     (case activePrimalSolutionPtr s of
        None \<Rightarrow> Inl (Runtime_Error ''[MRT_BASE::evaluatePolicy] updatePolicy() should be called first!'')
      | Some p \<Rightarrow>
          bind_result (vec_back (ps_timeTrajectory p)) (\<lambda>_.
          case ps_controllerPtr p of
            None \<Rightarrow> Inl Undefined
          | Some c \<Rightarrow>
              bind_result (computeInput c currentTime currentState) (\<lambda>mpcInput.
              bind_result (interpolate_vector currentTime (ps_timeTrajectory p) (ps_stateTrajectory p)) (\<lambda>mpcState.
              bind_result (modeAtTime (ps_modeSchedule p) currentTime) (\<lambda>mode.
              Inr (mpcState, mpcInput, mode))))))"

definition rolloutPolicy :: "mrt \<Rightarrow> scalar \<Rightarrow> vector_t \<Rightarrow> scalar \<Rightarrow> (vector_t \<times> vector_t \<times> nat) result" where
  "rolloutPolicy s currentTime currentState dt =
     (case rolloutPtr s of
        None \<Rightarrow> Inl (Runtime_Error ''[MRT_BASE::rolloutPolicy] rollout class is not set! Use initRollout() to initialize it!'')
      | Some run \<Rightarrow>
          (case activePrimalSolutionPtr s of
             None \<Rightarrow> Inl (Runtime_Error ''[MRT_BASE::rolloutPolicy] updatePolicy() should be called first!'')
           | Some p \<Rightarrow>
               bind_result (vec_back (ps_timeTrajectory p)) (\<lambda>_.
               let finalTime = currentTime + dt
               in bind_result (run currentTime currentState finalTime (ps_controllerPtr p) (ps_modeSchedule p)) (\<lambda>d.
                  bind_result (vec_back (roState d)) (\<lambda>mpcState.
                  bind_result (vec_back (roInput d)) (\<lambda>mpcInput.
                  bind_result (modeAtTime (ps_modeSchedule p) finalTime) (\<lambda>mode.
                  Inr (mpcState, mpcInput, mode))))))))"

section \<open>Policy updates\<close>

definition modifyActiveSolution :: "mrt_observer option list \<Rightarrow> command_data \<Rightarrow> primal_solution \<Rightarrow> primal_solution" where
  "modifyActiveSolution obs command =
     fold (\<lambda>ob p. case ob of None \<Rightarrow> p | Some ob \<Rightarrow> ob_modifyActiveSolution ob command p) obs"

definition modifyBufferedSolution :: "mrt_observer option list \<Rightarrow> command_data \<Rightarrow> primal_solution \<Rightarrow> primal_solution" where
  "modifyBufferedSolution obs command =
     fold (\<lambda>ob p. case ob of None \<Rightarrow> p | Some ob \<Rightarrow> ob_modifyBufferedSolution ob command p) obs"

text \<open>The argument \<open>owns\<close> is the outcome of \<open>try_to_lock\<close>; the result has the returned flag.\<close>

definition updatePolicy :: "bool \<Rightarrow> mrt \<Rightarrow> (bool \<times> mrt) result" where
  "updatePolicy owns s =
     (if owns then
        (let s = s\<lparr>mrtTrylockWarningCount := 0\<rparr>
         in if newPolicyInBuffer s then
              (let s = s\<lparr>activeCommandPtr := bufferCommandPtr s, bufferCommandPtr := activeCommandPtr s,
                         activePrimalSolutionPtr := bufferPrimalSolutionPtr s, bufferPrimalSolutionPtr := activePrimalSolutionPtr s,
                         activePerformanceIndicesPtr := bufferPerformanceIndicesPtr s,
                         bufferPerformanceIndicesPtr := activePerformanceIndicesPtr s,
                         newPolicyInBuffer := False\<rparr>
               in case (activeCommandPtr s, activePrimalSolutionPtr s) of
                    (Some c, Some p) \<Rightarrow>
                      Inr (True, s\<lparr>activePrimalSolutionPtr := Some (modifyActiveSolution (observerPtrArray s) c p)\<rparr>)
                  | _ \<Rightarrow> Inl Undefined)
            else Inr (False, s))
      else Inr (False, s\<lparr>mrtTrylockWarningCount := mrtTrylockWarningCount s + 1\<rparr>))"

text \<open>
  \<open>moveToBuffer\<close>: the checks before the mutex is taken, and what is done under it.
\<close>

definition check_pointers ::
  "command_data option \<Rightarrow> primal_solution option \<Rightarrow> performance_index option \<Rightarrow>
   (command_data \<times> primal_solution \<times> performance_index) result" where
  "check_pointers commandDataPtr primalSolutionPtr performanceIndicesPtr =
     (case commandDataPtr of
        None \<Rightarrow> Inl (Runtime_Error ''[MRT_BASE::moveToBuffer] commandDataPtr cannot be a null pointer!'')
      | Some c \<Rightarrow>
          (case primalSolutionPtr of
             None \<Rightarrow> Inl (Runtime_Error ''[MRT_BASE::moveToBuffer] primalSolutionPtr cannot be a null pointer!'')
           | Some p \<Rightarrow>
               (case performanceIndicesPtr of
                  None \<Rightarrow> Inl (Runtime_Error ''[MRT_BASE::moveToBuffer] performanceIndicesPtr cannot be a null pointer!'')
                | Some i \<Rightarrow> Inr (c, p, i))))"

definition fill_buffer :: "command_data \<times> primal_solution \<times> performance_index \<Rightarrow> mrt \<Rightarrow> mrt" where
  "fill_buffer cpi s =
     (case cpi of (c, p, i) \<Rightarrow>
        s\<lparr>bufferCommandPtr := Some c,
          bufferPrimalSolutionPtr := Some (modifyBufferedSolution (observerPtrArray s) c p),
          bufferPerformanceIndicesPtr := Some i,
          newPolicyInBuffer := True, policyReceivedEver := True\<rparr>)"

definition moveToBuffer ::
  "command_data option \<Rightarrow> primal_solution option \<Rightarrow> performance_index option \<Rightarrow> mrt \<Rightarrow> mrt result" where
  "moveToBuffer c p i s = bind_result (check_pointers c p i) (\<lambda>cpi. Inr (fill_buffer cpi s))"

section \<open>The policy buffer is a buffered cell\<close>

type_synonym policy = "command_data \<times> primal_solution \<times> performance_index"

definition policy_of :: "command_data option \<Rightarrow> primal_solution option \<Rightarrow> performance_index option \<Rightarrow> policy option" where
  "policy_of c p i =
     (case (c, p, i) of (Some c, Some p, Some i) \<Rightarrow> Some (c, p, i) | _ \<Rightarrow> None)"

definition active_policy :: "mrt \<Rightarrow> policy option" where
  "active_policy s = policy_of (activeCommandPtr s) (activePrimalSolutionPtr s) (activePerformanceIndicesPtr s)"

definition pending_policy :: "mrt \<Rightarrow> policy option" where
  "pending_policy s =
     (if newPolicyInBuffer s
      then policy_of (bufferCommandPtr s) (bufferPrimalSolutionPtr s) (bufferPerformanceIndicesPtr s) else None)"

definition on_buffered :: "mrt_observer option list \<Rightarrow> policy \<Rightarrow> policy" where
  "on_buffered obs v = (case v of (c, p, i) \<Rightarrow> (c, modifyBufferedSolution obs c p, i))"

definition on_active :: "mrt_observer option list \<Rightarrow> policy \<Rightarrow> policy" where
  "on_active obs v = (case v of (c, p, i) \<Rightarrow> (c, modifyActiveSolution obs c p, i))"

text \<open>
  The three active pointers are set together; a flagged buffer has all three parts.
\<close>

definition mrt_inv :: "mrt_observer option list \<Rightarrow> mrt \<Rightarrow> bool" where
  "mrt_inv obs s =
     (observerPtrArray s = obs \<and>
      (active_policy s = None \<longrightarrow>
         activeCommandPtr s = None \<and> activePrimalSolutionPtr s = None \<and> activePerformanceIndicesPtr s = None) \<and>
      (newPolicyInBuffer s \<longrightarrow> policyReceivedEver s \<and> pending_policy s \<noteq> None) \<and>
      (active_policy s \<noteq> None \<longrightarrow> policyReceivedEver s))"

lemmas policy_defs = active_policy_def pending_policy_def policy_of_def on_buffered_def on_active_def

lemma policy_of_Some: "(policy_of c p i = Some v) = (c = Some (fst v) \<and> p = Some (fst (snd v)) \<and> i = Some (snd (snd v)))"
  by (cases v; cases c; cases p; cases i; simp add: policy_of_def)

lemma policy_of_None: "(policy_of c p i = None) = (c = None \<or> p = None \<or> i = None)"
  by (cases c; cases p; cases i; simp add: policy_of_def)

lemma mrt_inv_reset: "mrt_inv (observerPtrArray s) (reset_mrt s)"
  by (simp add: mrt_inv_def reset_mrt_def policy_defs)

lemma fill_buffer_law:
  assumes "mrt_inv obs s"
  shows "mrt_inv obs (fill_buffer v s)" "active_policy (fill_buffer v s) = active_policy s"
    "pending_policy (fill_buffer v s) = Some (on_buffered obs v)" "policyReceivedEver (fill_buffer v s)"
  using assms by (cases v; auto simp: mrt_inv_def fill_buffer_def policy_defs)+

lemma updatePolicy_law:
  assumes "mrt_inv obs s"
  shows "\<exists>s'. updatePolicy True s = Inr (pending_policy s \<noteq> None, s') \<and> mrt_inv obs s' \<and> pending_policy s' = None \<and>
           active_policy s' = (case pending_policy s of None \<Rightarrow> active_policy s | Some v \<Rightarrow> Some (on_active obs v)) \<and>
           policyReceivedEver s' = policyReceivedEver s"
proof (cases "newPolicyInBuffer s")
  case True
  with assms obtain v where "pending_policy s = Some v" by (auto simp: mrt_inv_def)
  with True obtain c p i where
    ptrs: "bufferCommandPtr s = Some c" "bufferPrimalSolutionPtr s = Some p" "bufferPerformanceIndicesPtr s = Some i"
    by (auto simp: pending_policy_def policy_of_Some)
  have obs: "observerPtrArray s = obs" and ever: "policyReceivedEver s" using assms True by (simp_all add: mrt_inv_def)
  define s' where "s' = s\<lparr>mrtTrylockWarningCount := 0, newPolicyInBuffer := False, activeCommandPtr := Some c,
      bufferCommandPtr := activeCommandPtr s, activePrimalSolutionPtr := Some (modifyActiveSolution obs c p),
      bufferPrimalSolutionPtr := activePrimalSolutionPtr s, activePerformanceIndicesPtr := Some i,
      bufferPerformanceIndicesPtr := activePerformanceIndicesPtr s\<rparr>"
  have "updatePolicy True s = Inr (True, s')"
    using True by (simp add: updatePolicy_def Let_def ptrs obs s'_def)
  moreover have "pending_policy s = Some (c, p, i)" using True by (simp add: pending_policy_def policy_of_def ptrs)
  moreover have "pending_policy s' = None" by (simp add: s'_def pending_policy_def)
  moreover have "active_policy s' = Some (on_active obs (c, p, i))"
    by (simp add: s'_def active_policy_def policy_of_def on_active_def)
  moreover have "policyReceivedEver s'" "observerPtrArray s' = obs" "\<not> newPolicyInBuffer s'"
    by (simp_all add: s'_def ever obs)
  ultimately show ?thesis using ever by (simp add: mrt_inv_def)
next
  case False
  let ?s = "s\<lparr>mrtTrylockWarningCount := 0\<rparr>"
  have "updatePolicy True s = Inr (False, ?s)" using False by (simp add: updatePolicy_def Let_def)
  moreover have "pending_policy s = None" "pending_policy ?s = None" "active_policy ?s = active_policy s"
    using False by (simp_all add: pending_policy_def active_policy_def)
  moreover have "mrt_inv obs ?s" using assms False by (simp add: mrt_inv_def pending_policy_def active_policy_def)
  ultimately show ?thesis by simp
qed

lemma updatePolicy_busy: "updatePolicy False s = Inr (False, s\<lparr>mrtTrylockWarningCount := mrtTrylockWarningCount s + 1\<rparr>)"
  by (simp add: updatePolicy_def)

interpretation policy_buffer: value_buffer "mrt_inv obs" active_policy pending_policy
    "\<lambda>v s. Inr (fill_buffer v s)" "updatePolicy True" "on_buffered obs" "on_active obs" for obs
proof
  show "mrt_inv obs s \<Longrightarrow> \<exists>s'. Inr (fill_buffer v s) = Inr s' \<and> mrt_inv obs s' \<and> active_policy s' = active_policy s \<and>
      pending_policy s' = Some (on_buffered obs v)" for s v
    using fill_buffer_law by auto
  show "mrt_inv obs s \<Longrightarrow> \<exists>s'. updatePolicy True s = Inr (pending_policy s \<noteq> None, s') \<and> mrt_inv obs s' \<and>
      pending_policy s' = None \<and>
      active_policy s' = (case pending_policy s of None \<Rightarrow> active_policy s | Some v \<Rightarrow> Some (on_active obs v))" for s
    using updatePolicy_law by blast
qed

section \<open>Two threads\<close>

text \<open>
  A configuration has the object, the policy that the policy thread holds while it is inside
  \<open>moveToBuffer\<close> with the mutex, and two histories: the policies received since the last reset and the
  number of the one that is active.
\<close>

record mrt_config =
  cfgMrt :: mrt
  cfgMoving :: "policy option"
  cfgReceived :: "policy list"
  cfgActive :: "nat option"

definition mrt_start :: "mrt_observer option list \<Rightarrow> mrt_config" where
  "mrt_start obs = \<lparr>cfgMrt = fold addMrtObserver obs MRT_BASE, cfgMoving = None, cfgReceived = [], cfgActive = None\<rparr>"

inductive mrt_step :: "mrt_config \<Rightarrow> mrt_config \<Rightarrow> bool" where
  begin_move: "cfgMoving k = None \<Longrightarrow> check_pointers c p i = Inr v \<Longrightarrow> mrt_step k (k\<lparr>cfgMoving := Some v\<rparr>)"
| end_move: "cfgMoving k = Some v \<Longrightarrow>
    mrt_step k (k\<lparr>cfgMoving := None, cfgMrt := fill_buffer v (cfgMrt k), cfgReceived := cfgReceived k @ [v]\<rparr>)"
| update: "cfgMoving k = None \<Longrightarrow> updatePolicy True (cfgMrt k) = Inr (b, s) \<Longrightarrow>
    mrt_step k (k\<lparr>cfgMrt := s, cfgActive := (if b then Some (length (cfgReceived k) - 1) else cfgActive k)\<rparr>)"
| update_busy: "cfgMoving k = Some v \<Longrightarrow> updatePolicy False (cfgMrt k) = Inr (b, s) \<Longrightarrow> mrt_step k (k\<lparr>cfgMrt := s\<rparr>)"
| reset: "cfgMoving k = None \<Longrightarrow>
    mrt_step k (k\<lparr>cfgMrt := reset_mrt (cfgMrt k), cfgReceived := [], cfgActive := None\<rparr>)"

inductive_cases mrt_stepE: "mrt_step k k'"

inductive mrt_reach :: "mrt_observer option list \<Rightarrow> mrt_config \<Rightarrow> bool" for obs where
  start: "mrt_reach obs (mrt_start obs)"
| step: "mrt_reach obs k \<Longrightarrow> mrt_step k k' \<Longrightarrow> mrt_reach obs k'"

definition config_inv :: "mrt_observer option list \<Rightarrow> mrt_config \<Rightarrow> bool" where
  "config_inv obs k =
     (mrt_inv obs (cfgMrt k) \<and>
      active_policy (cfgMrt k) = map_option (\<lambda>n. on_active obs (on_buffered obs (cfgReceived k ! n))) (cfgActive k) \<and>
      (\<forall>n. cfgActive k = Some n \<longrightarrow> n < length (cfgReceived k)) \<and>
      pending_policy (cfgMrt k) =
        (if cfgReceived k \<noteq> [] \<and> cfgActive k \<noteq> Some (length (cfgReceived k) - 1)
         then Some (on_buffered obs (last (cfgReceived k))) else None) \<and>
      policyReceivedEver (cfgMrt k) = (cfgReceived k \<noteq> []))"

lemma if_Some_None: "((if b then Some x else None) \<noteq> None) = b"
  by simp

lemma config_inv_start: "config_inv obs (mrt_start obs)"
proof -
  have obs: "observerPtrArray (fold addMrtObserver os s) = observerPtrArray s @ os" for os s
    by (induction os arbitrary: s) (simp_all add: addMrtObserver_def)
  have "fold addMrtObserver os s = s\<lparr>observerPtrArray := observerPtrArray s @ os\<rparr>" for os s
    by (induction os arbitrary: s) (simp_all add: addMrtObserver_def)
  then show ?thesis
    by (simp add: config_inv_def mrt_start_def mrt_inv_def MRT_BASE_def reset_mrt_def policy_defs)
qed

lemma config_inv_step:
  assumes "config_inv obs k" "mrt_step k k'"
  shows "config_inv obs k'"
  using assms(2)
proof (cases rule: mrt_step.cases)
  case (begin_move c p i v)
  with assms(1) show ?thesis by (simp add: config_inv_def)
next
  case (end_move v)
  have inv: "mrt_inv obs (cfgMrt k)" using assms(1) by (simp add: config_inv_def)
  have "map_option (\<lambda>n. on_active obs (on_buffered obs ((cfgReceived k @ [v]) ! n))) (cfgActive k)
      = map_option (\<lambda>n. on_active obs (on_buffered obs (cfgReceived k ! n))) (cfgActive k)"
    using assms(1) by (cases "cfgActive k") (simp_all add: config_inv_def nth_append)
  with end_move assms(1) fill_buffer_law[OF inv, of v] show ?thesis
    by (auto simp: config_inv_def)
next
  case (update b s)
  have inv: "mrt_inv obs (cfgMrt k)" using assms(1) by (simp add: config_inv_def)
  from updatePolicy_law[OF inv] update(3) have
    s: "b = (pending_policy (cfgMrt k) \<noteq> None)" "mrt_inv obs s" "pending_policy s = None"
    "active_policy s = (case pending_policy (cfgMrt k) of None \<Rightarrow> active_policy (cfgMrt k) | Some v \<Rightarrow> Some (on_active obs v))"
    "policyReceivedEver s = policyReceivedEver (cfgMrt k)"
    by auto
  show ?thesis
  proof (cases "cfgReceived k \<noteq> [] \<and> cfgActive k \<noteq> Some (length (cfgReceived k) - 1)")
    case True
    then have "pending_policy (cfgMrt k) = Some (on_buffered obs (last (cfgReceived k)))"
      using assms(1) unfolding config_inv_def by simp
    with s(1,4) have b: "b" and act: "active_policy s = Some (on_active obs (on_buffered obs (last (cfgReceived k))))"
      by simp_all
    have k': "k' = k\<lparr>cfgMrt := s, cfgActive := Some (length (cfgReceived k) - 1)\<rparr>" using update(1) b by simp
    have "policyReceivedEver s" using assms(1) s(5) True unfolding config_inv_def by simp
    with True act s(2,3) show ?thesis unfolding config_inv_def k' by (simp add: last_conv_nth)
  next
    case False
    then have none: "pending_policy (cfgMrt k) = None" using assms(1) unfolding config_inv_def by auto
    with s(1,4) have b: "\<not> b" and act: "active_policy s = active_policy (cfgMrt k)" by simp_all
    have k': "k' = k\<lparr>cfgMrt := s\<rparr>" using update(1) b by simp
    from assms(1) show ?thesis unfolding config_inv_def k' using s(2,3,5) act False by simp
  qed
next
  case (update_busy v b s)
  then have s: "s = (cfgMrt k)\<lparr>mrtTrylockWarningCount := mrtTrylockWarningCount (cfgMrt k) + 1\<rparr>"
    by (simp add: updatePolicy_busy)
  have same: "pending_policy s = pending_policy (cfgMrt k)" "active_policy s = active_policy (cfgMrt k)"
    "policyReceivedEver s = policyReceivedEver (cfgMrt k)"
    by (simp_all add: s pending_policy_def active_policy_def)
  moreover have "mrt_inv obs s = mrt_inv obs (cfgMrt k)" unfolding mrt_inv_def same by (simp add: s)
  ultimately show ?thesis using assms(1) update_busy(1) by (simp add: config_inv_def)
next
  case reset
  have "observerPtrArray (cfgMrt k) = obs" using assms(1) by (simp add: config_inv_def mrt_inv_def)
  with mrt_inv_reset[of "cfgMrt k"] have "mrt_inv obs (reset_mrt (cfgMrt k))" by simp
  moreover have "active_policy (reset_mrt s) = None" "pending_policy (reset_mrt s) = None" "\<not> policyReceivedEver (reset_mrt s)" for s
    by (simp_all add: reset_mrt_def policy_defs)
  ultimately show ?thesis using reset(1) by (simp add: config_inv_def)
qed

lemma reach_config_inv: "mrt_reach obs k \<Longrightarrow> config_inv obs k"
  by (induction rule: mrt_reach.induct) (auto intro: config_inv_start config_inv_step)

text \<open>
  C10. The policy buffer under two threads: in every configuration that any interleaving of
  \<open>moveToBuffer\<close>, \<open>updatePolicy\<close> (with the mutex free or taken) and \<open>reset\<close> reaches, \<open>updatePolicy\<close>
  dereferences no null pointer; the active policy is one of the received policies with its own
  command and performance indices, modified exactly once by the buffer methods and then once by the active methods
  of the observers; it is the latest one unless a newer one waits in the buffer; and a step never
  replaces it by an older one.
\<close>

theorem mrt_policy_buffer_safe:
  assumes "mrt_reach obs k"
  shows "succeeds (updatePolicy owns (cfgMrt k)) \<and>
         active_policy (cfgMrt k) = map_option (\<lambda>n. on_active obs (on_buffered obs (cfgReceived k ! n))) (cfgActive k) \<and>
         (\<forall>n. cfgActive k = Some n \<longrightarrow> n < length (cfgReceived k)) \<and>
         (newPolicyInBuffer (cfgMrt k) = (cfgReceived k \<noteq> [] \<and> cfgActive k \<noteq> Some (length (cfgReceived k) - 1))) \<and>
         (initialPolicyReceived (cfgMrt k) = (cfgReceived k \<noteq> [])) \<and>
         (succeeds (getPolicy (cfgMrt k)) = (cfgActive k \<noteq> None)) \<and>
         (\<forall>k' n. mrt_step k k' \<longrightarrow> cfgActive k = Some n \<longrightarrow> cfgReceived k' \<noteq> [] \<longrightarrow>
            (\<exists>n'. cfgActive k' = Some n' \<and> n \<le> n'))"
proof -
  have inv: "config_inv obs k" by (rule reach_config_inv[OF assms])
  then have mrt: "mrt_inv obs (cfgMrt k)" by (simp add: config_inv_def)
  have upd: "succeeds (updatePolicy owns (cfgMrt k))"
    using updatePolicy_law[OF mrt] by (cases owns) (auto simp: updatePolicy_busy)
  have new: "newPolicyInBuffer (cfgMrt k) = (pending_policy (cfgMrt k) \<noteq> None)"
    using mrt by (auto simp: mrt_inv_def pending_policy_def)
  have pol: "succeeds (getPolicy (cfgMrt k)) = (active_policy (cfgMrt k) \<noteq> None)"
  proof (cases "active_policy (cfgMrt k)")
    case None
    with mrt have "activePrimalSolutionPtr (cfgMrt k) = None" by (simp add: mrt_inv_def)
    with None show ?thesis by (simp add: getPolicy_def)
  next
    case (Some v)
    then show ?thesis by (simp add: getPolicy_def active_policy_def policy_of_Some)
  qed
  have mono: "\<exists>n'. cfgActive k' = Some n' \<and> n \<le> n'"
    if "mrt_step k k'" "cfgActive k = Some n" "cfgReceived k' \<noteq> []" for k' n
  proof -
    have "n < length (cfgReceived k)" using inv that(2) by (simp add: config_inv_def)
    with that show ?thesis by (auto elim!: mrt_stepE)
  qed
  have act: "active_policy (cfgMrt k) = map_option (\<lambda>n. on_active obs (on_buffered obs (cfgReceived k ! n))) (cfgActive k)"
    and lt: "\<forall>n. cfgActive k = Some n \<longrightarrow> n < length (cfgReceived k)"
    and ever: "initialPolicyReceived (cfgMrt k) = (cfgReceived k \<noteq> [])"
    and pending: "pending_policy (cfgMrt k) = (if cfgReceived k \<noteq> [] \<and> cfgActive k \<noteq> Some (length (cfgReceived k) - 1)
      then Some (on_buffered obs (last (cfgReceived k))) else None)"
    using inv by (simp_all add: config_inv_def initialPolicyReceived_def)
  have pend: "(pending_policy (cfgMrt k) \<noteq> None) = (cfgReceived k \<noteq> [] \<and> cfgActive k \<noteq> Some (length (cfgReceived k) - 1))"
    unfolding pending by (rule if_Some_None)
  have pol': "succeeds (getPolicy (cfgMrt k)) = (cfgActive k \<noteq> None)" unfolding pol act by simp
  show ?thesis
    using upd act lt new[unfolded pend] ever pol' mono by blast
qed

text \<open>A command for the witnesses.\<close>

definition some_command :: command_data where
  "some_command =
     \<lparr>mpcInitObservation = \<lparr>obs_mode = 0, obs_time = 0, obs_state = [], obs_input = []\<rparr>,
      mpcTargetTrajectories = sized_TargetTrajectories 0\<rparr>"

theorem mrt_policy_buffer_safe_witness:
  "\<exists>k. mrt_reach [None] k \<and> cfgReceived k = [(some_command, new_PrimalSolution, 0), (some_command, new_PrimalSolution\<lparr>ps_timeTrajectory := [1]\<rparr>, 0)] \<and>
     active_policy (cfgMrt k) = Some (some_command, new_PrimalSolution\<lparr>ps_timeTrajectory := [1]\<rparr>, 0)"
proof -
  let ?v1 = "(some_command, new_PrimalSolution, 0 :: performance_index)"
  let ?v2 = "(some_command, new_PrimalSolution\<lparr>ps_timeTrajectory := [1]\<rparr>, 0 :: performance_index)"
  let ?run = "\<lambda>v k. k\<lparr>cfgMoving := None, cfgMrt := fill_buffer v (cfgMrt k), cfgReceived := cfgReceived k @ [v]\<rparr>"
  have move: "mrt_reach [None] (?run v k)" if "mrt_reach [None] k" "cfgMoving k = None" for v k
  proof -
    obtain c p i where v: "v = (c, p, i)" by (cases v)
    have "mrt_step k (k\<lparr>cfgMoving := Some v\<rparr>)"
      by (rule mrt_step.begin_move[of k "Some c" "Some p" "Some i"]) (simp_all add: that v check_pointers_def)
    then have "mrt_reach [None] (k\<lparr>cfgMoving := Some v\<rparr>)" by (rule mrt_reach.step[OF that(1)])
    then have "mrt_reach [None] ((k\<lparr>cfgMoving := Some v\<rparr>)\<lparr>cfgMoving := None, cfgMrt := fill_buffer v (cfgMrt k),
        cfgReceived := cfgReceived k @ [v]\<rparr>)"
      by (rule mrt_reach.step) (use mrt_step.end_move[of "k\<lparr>cfgMoving := Some v\<rparr>" v] in simp)
    then show ?thesis by simp
  qed
  let ?k2 = "?run ?v2 (?run ?v1 (mrt_start [None]))"
  have k2: "mrt_reach [None] ?k2"
    by (rule move[OF move[OF mrt_reach.start]]) (simp_all add: mrt_start_def)
  have "succeeds (updatePolicy True (cfgMrt ?k2))" using mrt_policy_buffer_safe[OF k2, of True] by blast
  then obtain b s where u: "updatePolicy True (cfgMrt ?k2) = Inr (b, s)" by (auto simp: succeeds_iff)
  have "newPolicyInBuffer (cfgMrt ?k2)" by (simp add: fill_buffer_def)
  with u have "b" by (auto simp: updatePolicy_def Let_def split: option.splits)
  let ?k3 = "?k2\<lparr>cfgMrt := s, cfgActive := Some 1\<rparr>"
  have k3: "mrt_reach [None] ?k3"
    by (rule mrt_reach.step[OF k2]) (use mrt_step.update[of ?k2 b s] u \<open>b\<close> in \<open>simp add: mrt_start_def\<close>)
  have "active_policy (cfgMrt ?k3) = Some ?v2"
    using mrt_policy_buffer_safe[OF k3, of True]
    by (simp add: mrt_start_def on_active_def on_buffered_def modifyActiveSolution_def modifyBufferedSolution_def)
  with k3 show ?thesis by (intro exI[of _ ?k3]) (simp add: mrt_start_def)
qed

end
