(* ===== verification/Mpc_Mrt_Interface.thy ===== *)
theory Mpc_Mrt_Interface
  imports Mrt_Base
begin

text \<open>
  \<open>mpc/ocs2_mpc/MPC_MRT_Interface\<close>: an MPC and an MRT in one object. \<open>advanceMpc\<close> runs the MPC on the
  last observation and hands the solution to the policy buffer of \<open>MRT_BASE\<close>. The timer only feeds
  warnings and is left out.
\<close>

record ('s, 'm) mpc_mrt =
  mmMpc :: "('s, 'm) mpc"
  mmMrt :: mrt
  mmObservation :: system_observation

definition resetMpcNode :: "'s solver_ops \<Rightarrow> target_trajectories \<Rightarrow> ('s, 'm) mpc_mrt \<Rightarrow> ('s, 'm) mpc_mrt" where
  "resetMpcNode ops initTargetTrajectories k =
     (let m = reset_mpc ops (mmMpc k);
          sv = mpcSolver m
      in k\<lparr>mmMpc := m\<lparr>mpcSolver := sv\<lparr>sv_references := setTargetTrajectories initTargetTrajectories (sv_references sv)\<rparr>\<rparr>\<rparr>)"

definition setCurrentObservation :: "system_observation \<Rightarrow> ('s, 'm) mpc_mrt \<Rightarrow> ('s, 'm) mpc_mrt" where
  "setCurrentObservation currentObservation k = k\<lparr>mmObservation := currentObservation\<rparr>"

text \<open>The end of the part of the solution that is handed out; a negative window means all of it.\<close>

definition solution_end :: "'s solver_ops \<Rightarrow> ('s, 'm) mpc \<Rightarrow> scalar \<Rightarrow> scalar" where
  "solution_end ops m startTime =
     (if solutionTimeWindow (mpcSettings m) < 0 then so_getFinalTime ops (sv_state (mpcSolver m))
      else startTime + solutionTimeWindow (mpcSettings m))"

definition copyToBuffer :: "'s solver_ops \<Rightarrow> system_observation \<Rightarrow> ('s, 'm) mpc_mrt \<Rightarrow> ('s, 'm) mpc_mrt result" where
  "copyToBuffer ops initObservation k =
     (let m = mmMpc k; s = sv_state (mpcSolver m)
      in bind_result (so_getPrimalSolution ops s (solution_end ops m (obs_time initObservation)) new_PrimalSolution) (\<lambda>p.
         bind_result (moveToBuffer
             (Some \<lparr>mpcInitObservation = initObservation,
                    mpcTargetTrajectories = getTargetTrajectories (sv_references (mpcSolver m))\<rparr>)
             (Some p) (Some (so_getPerformanceIndeces ops s)) (mmMrt k)) (\<lambda>r.
         Inr (k\<lparr>mmMrt := r\<rparr>))))"

definition advanceMpc :: "'s solver_ops \<Rightarrow> ('s, 'm) mpc_mrt \<Rightarrow> ('s, 'm) mpc_mrt result" where
  "advanceMpc ops k =
     (let currentObservation = mmObservation k
      in bind_result (run_mpc ops (obs_time currentObservation) (obs_state currentObservation) (mmMpc k)) (\<lambda>r.
         case r of (controllerIsUpdated, m) \<Rightarrow>
           if \<not> controllerIsUpdated then Inr (k\<lparr>mmMpc := m\<rparr>)
           else copyToBuffer ops currentObservation (k\<lparr>mmMpc := m\<rparr>)))"

definition getLinearFeedbackGain :: "scalar \<Rightarrow> ('s, 'm) mpc_mrt \<Rightarrow> matrix_t result" where
  "getLinearFeedbackGain time k =
     bind_result (getPolicy (mmMrt k)) (\<lambda>p.
     case ps_controllerPtr p of
       Some (Linear c) \<Rightarrow> getFeedbackGain c time
     | _ \<Rightarrow> Inl (Runtime_Error ''[MPC_MRT_Interface::getLinearFeedbackGain] Feedback gains only available with linear controller!''))"

section \<open>What an update installs\<close>

lemma run_mpc_preserves_settings: "run_mpc ops t x m = Inr (b, m') \<Longrightarrow> mpcSettings m' = mpcSettings m"
  by (auto simp: run_mpc_def calculateController_def Let_def result_simps split: if_splits)

lemma moveToBuffer_Some: "moveToBuffer (Some c) (Some p) (Some i) s = Inr (fill_buffer (c, p, i) s)"
  by (simp add: moveToBuffer_def check_pointers_def)

text \<open>
  One turn of the closed loop: when \<open>advanceMpc\<close> returns after the MPC has answered the observation
  and the MRT then updates, the active policy consists of that observation with the targets the solver
  used, the solver's solution up to the end of the solution window, and its performance indices, each
  passed through the observers of the MRT. When the MPC refuses the observation the buffer stays as it was, and an update
  installs at most what was pending before.
\<close>

theorem advance_then_update:
  assumes "mrt_inv obs (mmMrt k)" "advanceMpc ops k = Inr k'"
    and "run_mpc ops (obs_time (mmObservation k)) (obs_state (mmObservation k)) (mmMpc k) = Inr (answered, m)"
  shows "mmMpc k' = m \<and>
    (\<exists>b r. updatePolicy True (mmMrt k') = Inr (b, r) \<and>
      (if answered then
         b \<and> (\<exists>p. so_getPrimalSolution ops (sv_state (mpcSolver m)) (solution_end ops m (obs_time (mmObservation k))) new_PrimalSolution = Inr p \<and>
           active_policy r = Some (on_active obs (on_buffered obs
             (\<lparr>mpcInitObservation = mmObservation k, mpcTargetTrajectories = getTargetTrajectories (sv_references (mpcSolver m))\<rparr>,
              p, so_getPerformanceIndeces ops (sv_state (mpcSolver m))))))
       else mmMrt k' = mmMrt k \<and> b = (pending_policy (mmMrt k) \<noteq> None)))"
proof (cases answered)
  case True
  with assms(2,3) obtain p where
    p: "so_getPrimalSolution ops (sv_state (mpcSolver m)) (solution_end ops m (obs_time (mmObservation k))) new_PrimalSolution = Inr p"
    and k': "k' = k\<lparr>mmMpc := m, mmMrt := fill_buffer (\<lparr>mpcInitObservation = mmObservation k,
        mpcTargetTrajectories = getTargetTrajectories (sv_references (mpcSolver m))\<rparr>, p, so_getPerformanceIndeces ops (sv_state (mpcSolver m)))
        (mmMrt k)\<rparr>"
    by (auto simp: advanceMpc_def copyToBuffer_def Let_def moveToBuffer_Some result_simps)
  let ?v = "(\<lparr>mpcInitObservation = mmObservation k, mpcTargetTrajectories = getTargetTrajectories (sv_references (mpcSolver m))\<rparr>,
     p, so_getPerformanceIndeces ops (sv_state (mpcSolver m)))"
  have run: "run_buffer (\<lambda>v s. Inr (fill_buffer v s)) (updatePolicy True) [Put ?v, Take] (mmMrt k) =
      bind_result (updatePolicy True (mmMrt k')) (\<lambda>r. Inr (snd r))"
    by (simp add: k')
  obtain b r where u: "updatePolicy True (mmMrt k') = Inr (b, r)"
    using policy_buffer.run_total[OF assms(1), of "[Put ?v, Take]"] unfolding run by (auto simp: succeeds_iff result_simps)
  have "active_policy r = Some (on_active obs (on_buffered obs ?v))"
    using policy_buffer.take_last_put[OF assms(1), of "[]" ?v 0 r] run u by simp
  moreover have "b" using u by (auto simp: k' updatePolicy_def fill_buffer_def Let_def split: option.splits)
  ultimately show ?thesis using True p u k' by auto
next
  case False
  with assms(2,3) have k': "k' = k\<lparr>mmMpc := m\<rparr>" by (auto simp: advanceMpc_def Let_def)
  obtain r where "updatePolicy True (mmMrt k) = Inr (pending_policy (mmMrt k) \<noteq> None, r)"
    using updatePolicy_law[OF assms(1)] by blast
  with False k' show ?thesis by simp
qed

definition clock_loop :: "(scalar, unit) mpc_mrt" where
  "clock_loop =
     \<lparr>mmMpc = MPC_BASE default_mpc_settings clock_mpc, mmMrt = MRT_BASE,
      mmObservation = \<lparr>obs_mode = 0, obs_time = 3, obs_state = [1], obs_input = []\<rparr>\<rparr>"

theorem advance_then_update_witness:
  "\<exists>k' r p. advanceMpc clock_solver clock_loop = Inr k' \<and> updatePolicy True (mmMrt k') = Inr (True, r) \<and>
     active_policy r = Some p \<and> obs_time (mpcInitObservation (fst p)) = 3"
proof -
  have inv: "mrt_inv [] (mmMrt clock_loop)"
    by (simp add: clock_loop_def MRT_BASE_def mrt_inv_def reset_mrt_def policy_defs)
  have sim: "\<exists>k' m. advanceMpc clock_solver clock_loop = Inr k' \<and> run_mpc clock_solver (obs_time (mmObservation clock_loop))
      (obs_state (mmObservation clock_loop)) (mmMpc clock_loop) = Inr (True, m)"
    by (simp add: advanceMpc_def copyToBuffer_def clock_loop_def clock_solver_def clock_mpc_def MPC_BASE_def default_mpc_settings_def
        run_mpc_def calculateController_def run_solver_def postRun_def preRun_def moveToBuffer_Some Let_def)
  then obtain k' m where a: "advanceMpc clock_solver clock_loop = Inr k'" and m: "run_mpc clock_solver (obs_time (mmObservation clock_loop))
      (obs_state (mmObservation clock_loop)) (mmMpc clock_loop) = Inr (True, m)" by blast
  from advance_then_update[OF inv a m] a show ?thesis
    by (auto simp: on_active_def on_buffered_def clock_loop_def)
qed

end
