(* ===== verification/Ros_Messages.thy ===== *)
theory Ros_Messages
  imports Mrt_Base "HOL-Library.Word"
begin

text \<open>
  \<open>robotics/ocs2_ros_interfaces/src/common/RosMsgConversions.cpp\<close> and the two functions that carry a
  policy from the MPC to the MRT node: \<open>MPC_ROS_Interface::createMpcPolicyMsg\<close> and
  \<open>MRT_ROS_Interface::readPolicyMsg\<close>. The message types are those of \<open>ocs2_msgs/msg\<close>. A \<open>float64\<close> field is
  exact; a value stored in a \<open>float32\<close> field is rounded by the argument \<open>fl\<close>. Integer fields have
  the width of the message: a mode is an \<open>int8\<close>, a post-event index a \<open>uint16\<close>.
\<close>

section \<open>Integer fields\<close>

type_synonym int8 = "8 word"
type_synonym uint8 = "8 word"
type_synonym uint16 = "16 word"

text \<open>Conversions between \<open>size_t\<close> (64 bits) and the fields: modulo the width, with the sign extended.\<close>

definition int8_of_size :: "nat \<Rightarrow> int8" where
  "int8_of_size m = word_of_nat m"

definition size_of_int8 :: "int8 \<Rightarrow> nat" where
  "size_of_int8 w = nat (sint w mod 2 ^ 64)"

definition uint16_of_size :: "nat \<Rightarrow> uint16" where
  "uint16_of_size i = word_of_nat i"

definition size_of_uint16 :: "uint16 \<Rightarrow> nat" where
  "size_of_uint16 w = unat w"

section \<open>Messages\<close>

record observation_msg =
  om_time :: scalar
  om_state :: "scalar list"
  om_input :: "scalar list"
  om_mode :: int8

record mode_schedule_msg =
  msm_event_times :: "scalar list"
  msm_mode_sequence :: "int8 list"

record performance_indices_msg =
  pim_init_time :: scalar
  pim_merit :: scalar
  pim_cost :: scalar
  pim_dynamics_violation_sse :: scalar
  pim_equality_constraints_sse :: scalar
  pim_equality_lagrangian :: scalar
  pim_inequality_lagrangian :: scalar

record target_trajectories_msg =
  ttm_time_trajectory :: "scalar list"
  ttm_state_trajectory :: "scalar list list"
  ttm_input_trajectory :: "scalar list list"

record policy_msg =
  pom_controller_type :: uint8
  pom_init_observation :: observation_msg
  pom_plan_target_trajectories :: target_trajectories_msg
  pom_state_trajectory :: "scalar list list"
  pom_input_trajectory :: "scalar list list"
  pom_time_trajectory :: "scalar list"
  pom_post_event_indices :: "uint16 list"
  pom_mode_schedule :: mode_schedule_msg
  pom_data :: "scalar list list"
  pom_performance_indices :: performance_indices_msg

definition CONTROLLER_UNKNOWN :: uint8 where
  "CONTROLLER_UNKNOWN = 0"

definition CONTROLLER_FEEDFORWARD :: uint8 where
  "CONTROLLER_FEEDFORWARD = 1"

definition CONTROLLER_LINEAR :: uint8 where
  "CONTROLLER_LINEAR = 2"

section \<open>Conversions\<close>

definition createObservationMsg :: "(scalar \<Rightarrow> scalar) \<Rightarrow> system_observation \<Rightarrow> observation_msg" where
  "createObservationMsg fl ob =
     \<lparr>om_time = obs_time ob, om_state = map fl (obs_state ob), om_input = map fl (obs_input ob),
      om_mode = int8_of_size (obs_mode ob)\<rparr>"

definition readObservationMsg :: "observation_msg \<Rightarrow> system_observation" where
  "readObservationMsg msg =
     \<lparr>obs_mode = size_of_int8 (om_mode msg), obs_time = om_time msg, obs_state = om_state msg, obs_input = om_input msg\<rparr>"

definition createModeScheduleMsg :: "mode_schedule \<Rightarrow> mode_schedule_msg" where
  "createModeScheduleMsg ms =
     \<lparr>msm_event_times = eventTimes ms, msm_mode_sequence = map int8_of_size (modeSequence ms)\<rparr>"

definition readModeScheduleMsg :: "mode_schedule_msg \<Rightarrow> mode_schedule result" where
  "readModeScheduleMsg msg = ModeSchedule (msm_event_times msg) (map size_of_int8 (msm_mode_sequence msg))"

definition createPerformanceIndicesMsg :: "(scalar \<Rightarrow> scalar) \<Rightarrow> scalar \<Rightarrow> performance_index \<Rightarrow> performance_indices_msg" where
  "createPerformanceIndicesMsg fl initTime p =
     \<lparr>pim_init_time = fl initTime, pim_merit = fl (pi_merit p), pim_cost = fl (pi_cost p),
      pim_dynamics_violation_sse = fl (pi_dynamicsViolationSSE p),
      pim_equality_constraints_sse = fl (pi_equalityConstraintsSSE p),
      pim_equality_lagrangian = fl (pi_equalityLagrangian p), pim_inequality_lagrangian = fl (pi_inequalityLagrangian p)\<rparr>"

definition readPerformanceIndicesMsg :: "performance_indices_msg \<Rightarrow> performance_index" where
  "readPerformanceIndicesMsg msg =
     PerformanceIndex (pim_merit msg) (pim_cost msg) 0 (pim_dynamics_violation_sse msg) (pim_equality_constraints_sse msg) 0
       (pim_equality_lagrangian msg) (pim_inequality_lagrangian msg)"

definition createTargetTrajectoriesMsg :: "(scalar \<Rightarrow> scalar) \<Rightarrow> target_trajectories \<Rightarrow> target_trajectories_msg result" where
  "createTargetTrajectoriesMsg fl tt =
     bind_result (map_result (vec_at (timeTrajectory tt)) [0 ..< length (stateTrajectory tt)]) (\<lambda>ts.
       Inr \<lparr>ttm_time_trajectory = ts, ttm_state_trajectory = map (map fl) (stateTrajectory tt),
            ttm_input_trajectory = map (map fl) (inputTrajectory tt)\<rparr>)"

definition readTargetTrajectoriesMsg :: "target_trajectories_msg \<Rightarrow> target_trajectories result" where
  "readTargetTrajectoriesMsg msg =
     (let n = length (ttm_state_trajectory msg)
      in if n = 0 then Inl (Runtime_Error ''An empty target trajectories message is received.'')
         else bind_result (map_result (vec_at (ttm_time_trajectory msg)) [0 ..< n]) (\<lambda>ts.
           TargetTrajectories ts (ttm_state_trajectory msg) (ttm_input_trajectory msg)))"

record constraint_msg =
  com_time :: scalar
  com_value :: "scalar list"

definition createConstraintMsg :: "(scalar \<Rightarrow> scalar) \<Rightarrow> scalar \<Rightarrow> vector_t \<Rightarrow> constraint_msg" where
  "createConstraintMsg fl time v = \<lparr>com_time = fl time, com_value = map fl v\<rparr>"

record lagrangian_metrics_msg =
  lmm_time :: scalar
  lmm_penalty :: scalar
  lmm_constraint :: "scalar list"

definition createLagrangianMetricsMsg :: "(scalar \<Rightarrow> scalar) \<Rightarrow> scalar \<Rightarrow> lagrangian_metrics \<Rightarrow> lagrangian_metrics_msg" where
  "createLagrangianMetricsMsg fl time m =
     \<lparr>lmm_time = fl time, lmm_penalty = fl (lm_penalty m), lmm_constraint = map fl (lm_constraint m)\<rparr>"

record multiplier_msg =
  mum_time :: scalar
  mum_penalty :: scalar
  mum_lagrangian :: "scalar list"

definition createMultiplierMsg :: "(scalar \<Rightarrow> scalar) \<Rightarrow> scalar \<Rightarrow> multiplier \<Rightarrow> multiplier_msg" where
  "createMultiplierMsg fl time m =
     \<lparr>mum_time = fl time, mum_penalty = fl (penalty m), mum_lagrangian = map fl (lagrangian m)\<rparr>"

section \<open>Policies\<close>

definition controllerTypeField :: "controller_type \<Rightarrow> uint8 result" where
  "controllerTypeField t =
     (case t of
        FEEDFORWARD \<Rightarrow> Inr CONTROLLER_FEEDFORWARD
      | LINEAR \<Rightarrow> Inr CONTROLLER_LINEAR
      | _ \<Rightarrow> Inl (Runtime_Error ''MPC_ROS_Interface::createMpcPolicyMsg: Unknown ControllerType''))"

definition createMpcPolicyMsg ::
  "(scalar \<Rightarrow> scalar) \<Rightarrow> primal_solution \<Rightarrow> command_data \<Rightarrow> performance_index \<Rightarrow> policy_msg result" where
  "createMpcPolicyMsg fl p command perf =
     (let n = length (ps_timeTrajectory p)
      in bind_result (createTargetTrajectoriesMsg fl (mpcTargetTrajectories command)) (\<lambda>targets.
         case ps_controllerPtr p of
           None \<Rightarrow> Inl Undefined
         | Some c \<Rightarrow>
             bind_result (controllerTypeField (getType c)) (\<lambda>type.
             bind_result (map_result (\<lambda>k. bind_result (vec_at (ps_stateTrajectory p) k) (\<lambda>x. Inr (map fl x))) [0 ..< n]) (\<lambda>states.
             bind_result (map_result (\<lambda>k. bind_result (vec_at (ps_inputTrajectory p) k) (\<lambda>u. Inr (map fl u))) [0 ..< n]) (\<lambda>inputs.
             bind_result (flatten_controller fl c (ps_timeTrajectory p) n) (\<lambda>data.
             Inr \<lparr>pom_controller_type = type,
                  pom_init_observation = createObservationMsg fl (mpcInitObservation command),
                  pom_plan_target_trajectories = targets,
                  pom_state_trajectory = states, pom_input_trajectory = inputs,
                  pom_time_trajectory = ps_timeTrajectory p,
                  pom_post_event_indices = map uint16_of_size (ps_postEventIndices p),
                  pom_mode_schedule = createModeScheduleMsg (ps_modeSchedule p),
                  pom_data = data,
                  pom_performance_indices =
                    createPerformanceIndicesMsg fl (obs_time (mpcInitObservation command)) perf\<rparr>))))))"

definition unflatten_controller :: "uint8 \<Rightarrow> nat list \<Rightarrow> nat list \<Rightarrow> scalar list \<Rightarrow> scalar list list \<Rightarrow> controller result" where
  "unflatten_controller type stateDim inputDim ts data =
     (if type = CONTROLLER_FEEDFORWARD then Inr (Feedforward (ff_unFlatten ts data))
      else if type = CONTROLLER_LINEAR then
        bind_result (lc_unFlatten stateDim inputDim ts data) (\<lambda>c. Inr (Linear c))
      else Inl (Runtime_Error ''[MRT_ROS_Interface::readPolicyMsg] Unknown controllerType!''))"

definition readPolicyMsg :: "policy_msg \<Rightarrow> (command_data \<times> primal_solution \<times> performance_index) result" where
  "readPolicyMsg msg =
     (let observation = readObservationMsg (pom_init_observation msg)
      in bind_result (readTargetTrajectoriesMsg (pom_plan_target_trajectories msg)) (\<lambda>targets.
         let performanceIndices = readPerformanceIndicesMsg (pom_performance_indices msg);
             n = length (pom_time_trajectory msg)
         in if n = 0 then Inl (Runtime_Error ''[MRT_ROS_Interface::readPolicyMsg] controller message is empty!'')
            else if length (pom_state_trajectory msg) \<noteq> n \<and> length (pom_input_trajectory msg) \<noteq> n then
              Inl (Runtime_Error ''[MRT_ROS_Interface::readPolicyMsg] state and input trajectories must have same length!'')
            else if length (pom_data msg) \<noteq> n then
              Inl (Runtime_Error ''[MRT_ROS_Interface::readPolicyMsg] Data has the wrong length!'')
            else bind_result (readModeScheduleMsg (pom_mode_schedule msg)) (\<lambda>modes.
              bind_result (map_result (\<lambda>i. bind_result (vec_at (pom_state_trajectory msg) i) (\<lambda>x.
                             bind_result (vec_at (pom_input_trajectory msg) i) (\<lambda>u. Inr (x, u)))) [0 ..< n]) (\<lambda>xus.
              bind_result (unflatten_controller (pom_controller_type msg) (map (\<lambda>xu. length (fst xu)) xus)
                             (map (\<lambda>xu. length (snd xu)) xus) (pom_time_trajectory msg) (pom_data msg)) (\<lambda>c.
              Inr (\<lparr>mpcInitObservation = observation, mpcTargetTrajectories = targets\<rparr>,
                   \<lparr>ps_timeTrajectory = pom_time_trajectory msg, ps_stateTrajectory = map fst xus,
                    ps_inputTrajectory = map snd xus,
                    ps_postEventIndices = map size_of_uint16 (pom_post_event_indices msg),
                    ps_modeSchedule = modes, ps_controllerPtr = Some c\<rparr>,
                   performanceIndices))))))"

section \<open>Widths\<close>

lemma sint_int8_of_size: "sint (int8_of_size m) = (int m + 128) mod 256 - 128"
  by (simp add: int8_of_size_def signed_of_nat signed_take_bit_eq_take_bit_shift take_bit_eq_mod)

lemma int8_small: "m < 128 \<Longrightarrow> size_of_int8 (int8_of_size m) = m"
  by (simp add: size_of_int8_def sint_int8_of_size)

lemma uint16_roundtrip: "size_of_uint16 (uint16_of_size i) = i mod 2 ^ 16"
  by (simp add: size_of_uint16_def uint16_of_size_def unat_of_nat)

lemma uint16_small: "i < 2 ^ 16 \<Longrightarrow> size_of_uint16 (uint16_of_size i) = i"
  by (simp add: uint16_roundtrip)

text \<open>
  The \<open>int8\<close> field of the messages: a 64-bit mode comes back as it was sent exactly when it is
  below 128 (or one of the 128 largest values of \<open>size_t\<close>); a mode from 128 to 255 comes back as a
  number of at least \<open>2 ^ 64 - 128\<close>.
\<close>

theorem mode_field_width:
  assumes "m < 2 ^ 64"
  shows "(size_of_int8 (int8_of_size m) = m) = (m < 128 \<or> 2 ^ 64 - 128 \<le> m) \<and>
         (m < 256 \<longrightarrow> \<not> m < 128 \<longrightarrow> size_of_int8 (int8_of_size m) = 2 ^ 64 - 256 + m)"
proof -
  let ?r = "(int m + 128) mod 256"
  have bounds: "0 \<le> ?r" "?r < 256" by simp_all
  have val: "size_of_int8 (int8_of_size m) = (if ?r < 128 then nat (2 ^ 64 - 128 + ?r) else nat (?r - 128))"
  proof (cases "?r < 128")
    case True
    have "(?r - 128) mod 2 ^ 64 = (?r - 128 + 2 ^ 64) mod 2 ^ 64" by (rule mod_add_self2[symmetric])
    also have "\<dots> = ?r - 128 + 2 ^ 64" using True bounds by (intro mod_pos_pos_trivial) auto
    finally show ?thesis using True by (simp add: size_of_int8_def sint_int8_of_size)
  next
    case False
    then have "(?r - 128) mod 2 ^ 64 = ?r - 128" using bounds by (intro mod_pos_pos_trivial) auto
    then show ?thesis using False by (simp add: size_of_int8_def sint_int8_of_size)
  qed
  have big: "?r < 128 \<and> nat (2 ^ 64 - 128 + ?r) = m" if "2 ^ 64 - 128 \<le> m"
  proof -
    define d where "d = m - (2 ^ 64 - 128)"
    have im: "int m = 2 ^ 64 - 128 + int d" using that unfolding d_def by (simp add: of_nat_diff)
    have "int m < 2 ^ 64" using assms by (simp add: nat_less_iff)
    then have "int d < 128" using im by linarith
    moreover have "int m + 128 = int d + 256 * 2 ^ 56" using im by simp
    then have "?r = (int d + 256 * 2 ^ 56) mod 256" by (simp only:)
    then have "?r = int d mod 256" by (simp only: mod_mult_self2)
    ultimately have r: "?r = int d" by simp
    have "nat (2 ^ 64 - 128 + int d) = m" using im by (simp only: nat_int flip: im)
    with r \<open>int d < 128\<close> show ?thesis by simp
  qed
  have "(size_of_int8 (int8_of_size m) = m) = (m < 128 \<or> 2 ^ 64 - 128 \<le> m)"
  proof (cases "m < 128")
    case True
    then show ?thesis using int8_small by simp
  next
    case False
    show ?thesis
    proof (cases "2 ^ 64 - 128 \<le> m")
      case True
      then show ?thesis using big val by simp
    next
      case neither: False
      have "size_of_int8 (int8_of_size m) \<noteq> m"
        unfolding val using bounds False neither by auto
      then show ?thesis using False neither by simp
    qed
  qed
  moreover have "size_of_int8 (int8_of_size m) = 2 ^ 64 - 256 + m" if "m < 256" "\<not> m < 128"
  proof -
    have "int m + 128 = int m - 128 + 256" by simp
    then have "?r = (int m - 128 + 256) mod 256" by (simp only:)
    also have "\<dots> = (int m - 128) mod 256" by (rule mod_add_self2)
    also have "\<dots> = int m - 128" using that by (intro mod_pos_pos_trivial) auto
    finally have r: "?r = int m - 128" .
    then have "?r < 128" using that by simp
    then have "size_of_int8 (int8_of_size m) = nat (2 ^ 64 - 128 + (int m - 128))" unfolding val r by simp
    also have "\<dots> = nat (int (2 ^ 64 - 256 + m))" by simp
    finally show ?thesis by (simp only: nat_int)
  qed
  ultimately show ?thesis by blast
qed

theorem mode_field_width_witness:
  "size_of_int8 (int8_of_size 15) = 15 \<and> size_of_int8 (int8_of_size 200) = 2 ^ 64 - 56"
  using mode_field_width[of 15] mode_field_width[of 200] by simp

section \<open>Transmission of a policy\<close>

fun round_controller :: "(scalar \<Rightarrow> scalar) \<Rightarrow> controller \<Rightarrow> controller" where
  "round_controller fl (Feedforward c) = Feedforward (c\<lparr>ff_uffArray := map (map fl) (ff_uffArray c)\<rparr>)"
| "round_controller fl (Linear c) =
     Linear (LinearController (lc_timeStamp c) (map (map fl) (lc_biasArray c)) (map (map (map fl)) (lc_gainArray c)))"

definition round_primal :: "(scalar \<Rightarrow> scalar) \<Rightarrow> primal_solution \<Rightarrow> primal_solution" where
  "round_primal fl p =
     p\<lparr>ps_stateTrajectory := map (map fl) (ps_stateTrajectory p), ps_inputTrajectory := map (map fl) (ps_inputTrajectory p),
       ps_controllerPtr := map_option (round_controller fl) (ps_controllerPtr p)\<rparr>"

definition round_command :: "(scalar \<Rightarrow> scalar) \<Rightarrow> command_data \<Rightarrow> command_data" where
  "round_command fl c =
     \<lparr>mpcInitObservation = (mpcInitObservation c)
        \<lparr>obs_state := map fl (obs_state (mpcInitObservation c)), obs_input := map fl (obs_input (mpcInitObservation c))\<rparr>,
      mpcTargetTrajectories = (mpcTargetTrajectories c)
        \<lparr>stateTrajectory := map (map fl) (stateTrajectory (mpcTargetTrajectories c)),
         inputTrajectory := map (map fl) (inputTrajectory (mpcTargetTrajectories c))\<rparr>\<rparr>"

definition round_performance :: "(scalar \<Rightarrow> scalar) \<Rightarrow> performance_index \<Rightarrow> performance_index" where
  "round_performance fl p =
     PerformanceIndex (fl (pi_merit p)) (fl (pi_cost p)) 0 (fl (pi_dynamicsViolationSSE p)) (fl (pi_equalityConstraintsSSE p)) 0
       (fl (pi_equalityLagrangian p)) (fl (pi_inequalityLagrangian p))"

text \<open>What a transmitted policy has to satisfy.\<close>

definition transmissible_controller :: "primal_solution \<Rightarrow> controller \<Rightarrow> bool" where
  "transmissible_controller p c =
     (controller_ok c \<and> controller_times c = ps_timeTrajectory p \<and>
      (case c of Feedforward _ \<Rightarrow> True
       | Linear l \<Rightarrow> (\<forall>i < length (ps_timeTrajectory p).
           length (lc_biasArray l ! i) = length (ps_inputTrajectory p ! i) \<and>
           mat_ok (length (ps_inputTrajectory p ! i)) (length (ps_stateTrajectory p ! i)) (lc_gainArray l ! i))))"

definition transmissible_policy :: "primal_solution \<Rightarrow> bool" where
  "transmissible_policy p =
     (ps_timeTrajectory p \<noteq> [] \<and>
      (\<forall>i. i + 1 < length (ps_timeTrajectory p) \<longrightarrow> ps_timeTrajectory p ! (i + 1) - ps_timeTrajectory p ! i > 2 * weakEpsilon) \<and>
      length (ps_stateTrajectory p) = length (ps_timeTrajectory p) \<and> length (ps_inputTrajectory p) = length (ps_timeTrajectory p) \<and>
      (\<forall>i \<in> set (ps_postEventIndices p). i < 2 ^ 16) \<and>
      (\<forall>m \<in> set (modeSequence (ps_modeSchedule p)). m < 128) \<and>
      length (modeSequence (ps_modeSchedule p)) = length (eventTimes (ps_modeSchedule p)) + 1 \<and>
      (case ps_controllerPtr p of None \<Rightarrow> False | Some c \<Rightarrow> transmissible_controller p c))"

definition transmissible_command :: "command_data \<Rightarrow> bool" where
  "transmissible_command c =
     (obs_mode (mpcInitObservation c) < 128 \<and> stateTrajectory (mpcTargetTrajectories c) \<noteq> [] \<and>
      well_formed_targets (mpcTargetTrajectories c))"

lemma map_result_vec_at: "length xs = n \<Longrightarrow> map_result (vec_at xs) [0 ..< n] = Inr xs"
  by (subst map_result_all[where g = "\<lambda>i. xs ! i"]) (auto simp: map_nth)

lemma map_result_vec_at_map:
  "length xs = n \<Longrightarrow> map_result (\<lambda>k. bind_result (vec_at xs k) (\<lambda>x. Inr (f x))) [0 ..< n] = Inr (map f xs)"
  by (subst map_result_all[where g = "\<lambda>i. f (xs ! i)"]) (auto intro: nth_equalityI)

lemma ff_flatten_own_times:
  assumes "sorted (ff_timeStamp c)" "length (ff_uffArray c) = length (ff_timeStamp c)"
    and "\<And>i. i + 1 < length (ff_timeStamp c) \<Longrightarrow> ff_timeStamp c ! (i + 1) - ff_timeStamp c ! i > 2 * weakEpsilon"
  shows "ff_flatten fl c (ff_timeStamp c) (length (ff_timeStamp c)) = Inr (map (map fl) (ff_uffArray c))"
proof -
  let ?ts = "ff_timeStamp c"
  have single: "ff_flattenSingle fl c (?ts ! i) = Inr (map fl (ff_uffArray c ! i))" if "i < length ?ts" for i
    using vectors.at_own_time[OF assms(1,2) that assms(3)] by (simp add: ff_flattenSingle_def interpolate_vector_def)
  have "map_result (ff_flattenSingle fl c) (map (\<lambda>i. ?ts ! i) [0 ..< length ?ts])
      = Inr (map (\<lambda>i. map fl (ff_uffArray c ! i)) [0 ..< length ?ts])"
    unfolding map_result_map by (rule map_result_all) (use single in simp)
  then have "map_result (ff_flattenSingle fl c) ?ts = Inr (map (\<lambda>i. map fl (ff_uffArray c ! i)) [0 ..< length ?ts])"
    by (simp add: map_nth)
  moreover have "map (\<lambda>i. map fl (ff_uffArray c ! i)) [0 ..< length ?ts] = map (map fl) (ff_uffArray c)"
    using assms(2) by (auto intro: nth_equalityI)
  ultimately show ?thesis by (simp add: ff_flatten_def)
qed

lemma controller_roundtrip:
  assumes "transmissible_controller p c"
    and "\<And>i. i + 1 < length (ps_timeTrajectory p) \<Longrightarrow> ps_timeTrajectory p ! (i + 1) - ps_timeTrajectory p ! i > 2 * weakEpsilon"
    and "length (ps_stateTrajectory p) = length (ps_timeTrajectory p)" "length (ps_inputTrajectory p) = length (ps_timeTrajectory p)"
  shows "\<exists>type data. controllerTypeField (getType c) = Inr type \<and>
           flatten_controller fl c (ps_timeTrajectory p) (length (ps_timeTrajectory p)) = Inr data \<and>
           length data = length (ps_timeTrajectory p) \<and>
           unflatten_controller type (map length (ps_stateTrajectory p)) (map length (ps_inputTrajectory p)) (ps_timeTrajectory p) data =
             Inr (round_controller fl c)"
proof (cases c)
  case (Feedforward f)
  with assms show ?thesis
    using ff_flatten_own_times[of f fl]
    by (auto simp: transmissible_controller_def controllerTypeField_def unflatten_controller_def ff_unFlatten_def)
next
  case (Linear l)
  with assms(1) have ok: "controller_ok (Linear l)" and ts: "lc_timeStamp l = ps_timeTrajectory p"
    by (auto simp: transmissible_controller_def)
  have dims: "length (lc_biasArray l ! i) = map length (ps_inputTrajectory p) ! i \<and>
      mat_ok (map length (ps_inputTrajectory p) ! i) (map length (ps_stateTrajectory p) ! i) (lc_gainArray l ! i)"
    if "i < length (lc_timeStamp l)" for i
    using assms(1,3,4) Linear that by (auto simp: transmissible_controller_def)
  from lc_roundtrip[OF ok, of "map length (ps_stateTrajectory p)" "map length (ps_inputTrajectory p)" fl] dims assms(2-4)
  obtain data where data: "lc_flatten fl l (ps_timeTrajectory p) (length (ps_timeTrajectory p)) = Inr data"
    "lc_unFlatten (map length (ps_stateTrajectory p)) (map length (ps_inputTrajectory p)) (ps_timeTrajectory p) data =
       Inr (LinearController (lc_timeStamp l) (map (map fl) (lc_biasArray l)) (map (map (map fl)) (lc_gainArray l)))"
    unfolding ts by (auto simp: bind_result_eq_Inr)
  moreover have "length data = length (ps_timeTrajectory p)"
    using data(1) by (auto simp: lc_flatten_def split: if_splits dest: map_result_Inr)
  moreover have "CONTROLLER_LINEAR \<noteq> CONTROLLER_FEEDFORWARD"
    by (simp add: CONTROLLER_LINEAR_def CONTROLLER_FEEDFORWARD_def)
  ultimately show ?thesis using Linear by (auto simp: controllerTypeField_def unflatten_controller_def)
qed

lemma targets_roundtrip:
  assumes "stateTrajectory tt \<noteq> []" "well_formed_targets tt"
  shows "bind_result (createTargetTrajectoriesMsg fl tt) readTargetTrajectoriesMsg =
    Inr (tt\<lparr>stateTrajectory := map (map fl) (stateTrajectory tt), inputTrajectory := map (map fl) (inputTrajectory tt)\<rparr>)"
  using assms
  by (auto simp: createTargetTrajectoriesMsg_def readTargetTrajectoriesMsg_def well_formed_targets_def map_result_vec_at
      TargetTrajectories_def Let_def)

lemma schedule_roundtrip:
  assumes "\<forall>m \<in> set (modeSequence ms). m < 128" "length (modeSequence ms) = length (eventTimes ms) + 1"
  shows "readModeScheduleMsg (createModeScheduleMsg ms) = Inr ms"
proof -
  have "map size_of_int8 (map int8_of_size (modeSequence ms)) = modeSequence ms"
    using assms(1) by (simp add: map_idI int8_small)
  then show ?thesis using assms(2) by (auto simp: readModeScheduleMsg_def createModeScheduleMsg_def ModeSchedule_def)
qed

text \<open>
  C11. A policy survives its transmission: for a command and a policy that fit the message (modes below
  128, post-event indices below \<open>2 ^ 16\<close>, a controller at the times of the trajectory with fitting
  dimensions, nodes more than twice the weak epsilon apart), what \<open>readPolicyMsg\<close> makes of the message that
  \<open>createMpcPolicyMsg\<close> creates is the command, the primal solution with its controller and the performance
  indices, with states, inputs, gains and performance values rounded to \<open>float\<close>; times, events,
  modes and indices are exact. The dual feasibility and the inequality SSE, which have no field, are 0.
\<close>

theorem policy_message_roundtrip:
  assumes "transmissible_policy p" "transmissible_command command"
  shows "bind_result (createMpcPolicyMsg fl p command perf) readPolicyMsg =
           Inr (round_command fl command, round_primal fl p, round_performance fl perf)"
proof -
  let ?n = "length (ps_timeTrajectory p)"
  from assms(1) obtain c where c: "ps_controllerPtr p = Some c" "transmissible_controller p c"
    by (auto simp: transmissible_policy_def split: option.splits)
  have len: "length (ps_stateTrajectory p) = ?n" "length (ps_inputTrajectory p) = ?n" "?n \<noteq> 0"
    and gap: "\<And>i. i + 1 < ?n \<Longrightarrow> ps_timeTrajectory p ! (i + 1) - ps_timeTrajectory p ! i > 2 * weakEpsilon"
    using assms(1) by (auto simp: transmissible_policy_def)
  obtain type data where d: "controllerTypeField (getType c) = Inr type"
    "flatten_controller fl c (ps_timeTrajectory p) ?n = Inr data" "length data = ?n"
    "unflatten_controller type (map length (ps_stateTrajectory p)) (map length (ps_inputTrajectory p)) (ps_timeTrajectory p) data =
       Inr (round_controller fl c)"
    using controller_roundtrip[OF c(2) gap len(1,2)] by blast
  from assms(2) have "bind_result (createTargetTrajectoriesMsg fl (mpcTargetTrajectories command)) readTargetTrajectoriesMsg =
      Inr (mpcTargetTrajectories (round_command fl command))"
    unfolding round_command_def by (subst targets_roundtrip) (simp_all add: transmissible_command_def)
  then obtain targets where t: "createTargetTrajectoriesMsg fl (mpcTargetTrajectories command) = Inr targets"
    "readTargetTrajectoriesMsg targets = Inr (mpcTargetTrajectories (round_command fl command))"
    by (auto simp: bind_result_eq_Inr)
  have ob: "readObservationMsg (createObservationMsg fl (mpcInitObservation command)) = mpcInitObservation (round_command fl command)"
    using assms(2) by (simp add: readObservationMsg_def createObservationMsg_def round_command_def transmissible_command_def int8_small)
  have post: "map size_of_uint16 (map uint16_of_size (ps_postEventIndices p)) = ps_postEventIndices p"
    using assms(1) by (simp add: map_idI uint16_small transmissible_policy_def)
  have modes: "readModeScheduleMsg (createModeScheduleMsg (ps_modeSchedule p)) = Inr (ps_modeSchedule p)"
    using assms(1) by (intro schedule_roundtrip) (simp_all add: transmissible_policy_def)
  have perf: "readPerformanceIndicesMsg (createPerformanceIndicesMsg fl t0 perf) = round_performance fl perf" for t0
    by (simp add: readPerformanceIndicesMsg_def createPerformanceIndicesMsg_def round_performance_def)
  have reads: "map_result (\<lambda>i. bind_result (vec_at (map (map fl) (ps_stateTrajectory p)) i) (\<lambda>x.
      bind_result (vec_at (map (map fl) (ps_inputTrajectory p)) i) (\<lambda>u. Inr (x, u)))) [0 ..< ?n]
      = Inr (zip (map (map fl) (ps_stateTrajectory p)) (map (map fl) (ps_inputTrajectory p)))"
    using len by (subst map_result_all[where g = "\<lambda>i. (map fl (ps_stateTrajectory p ! i), map fl (ps_inputTrajectory p ! i))"])
      (auto intro!: nth_equalityI)
  have zips: "map (\<lambda>xu. length (fst xu)) (zip (map (map fl) (ps_stateTrajectory p)) (map (map fl) (ps_inputTrajectory p))) = map length (ps_stateTrajectory p)"
    "map (\<lambda>xu. length (snd xu)) (zip (map (map fl) (ps_stateTrajectory p)) (map (map fl) (ps_inputTrajectory p))) = map length (ps_inputTrajectory p)"
    using len by (auto intro!: nth_equalityI)
  show ?thesis
    using len d t c
    by (simp add: createMpcPolicyMsg_def readPolicyMsg_def Let_def map_result_vec_at_map ob post modes perf reads zips round_primal_def)
      (use post in \<open>simp add: round_command_def\<close>)
qed

definition small_policy :: primal_solution where
  "small_policy =
     \<lparr>ps_timeTrajectory = [0, 1], ps_stateTrajectory = [[1, 2], [3, 4]], ps_inputTrajectory = [[5], [6]],
      ps_postEventIndices = [1], ps_modeSchedule = \<lparr>eventTimes = [1], modeSequence = [3, 15]\<rparr>,
      ps_controllerPtr = Some (Linear (LinearController [0, 1] [[1], [2]] [[[3, 4]], [[5, 6]]]))\<rparr>"

definition small_command :: command_data where
  "small_command =
     \<lparr>mpcInitObservation = \<lparr>obs_mode = 3, obs_time = 0, obs_state = [1, 2], obs_input = [5]\<rparr>,
      mpcTargetTrajectories = \<lparr>timeTrajectory = [0], stateTrajectory = [[7, 8]], inputTrajectory = []\<rparr>\<rparr>"

theorem policy_message_roundtrip_witness:
  "bind_result (createMpcPolicyMsg (\<lambda>x. x) small_policy small_command 0) readPolicyMsg = Inr (small_command, small_policy, 0)"
proof -
  have p: "transmissible_policy small_policy"
    by (simp add: transmissible_policy_def transmissible_controller_def small_policy_def LinearController_def weakEpsilon_def mat_ok_def
        less_Suc_eq)
  have c: "transmissible_command small_command"
    by (simp add: transmissible_command_def small_command_def well_formed_targets_def)
  show ?thesis
    unfolding policy_message_roundtrip[OF p c]
    by (simp add: round_command_def round_primal_def round_performance_def small_policy_def small_command_def LinearController_def
        zero_performance_index_def new_PerformanceIndex_def)
qed

text \<open>
  The length check of \<open>readPolicyMsg\<close> asks whether both trajectories have a wrong length: a message
  in which only one of them is shorter than the time trajectory passes it, and the loop then reads outside
  that trajectory.
\<close>

theorem policy_message_short_trajectory:
  assumes "pom_time_trajectory msg \<noteq> []" "length (pom_data msg) = length (pom_time_trajectory msg)"
    and "length (pom_state_trajectory msg) = length (pom_time_trajectory msg)"
    and "length (pom_input_trajectory msg) < length (pom_time_trajectory msg)"
    and "readTargetTrajectoriesMsg (pom_plan_target_trajectories msg) = Inr targets"
    and "readModeScheduleMsg (pom_mode_schedule msg) = Inr modes"
  shows "readPolicyMsg msg = Inl Undefined"
proof -
  have undef: "map_result f xs = Inl Undefined"
    if "\<And>x. x \<in> set xs \<Longrightarrow> f x = Inl Undefined \<or> succeeds (f x)" "x \<in> set xs" "f x = Inl Undefined"
    for f :: "nat \<Rightarrow> (scalar list \<times> scalar list) result" and xs x
    using that
  proof (induction xs)
    case (Cons y ys)
    show ?case
    proof (cases "f y")
      case (Inl e)
      with Cons.prems(1)[of y] show ?thesis by simp
    next
      case (Inr v)
      with Cons.prems(2,3) have "x \<in> set ys" by auto
      with Cons Inr show ?thesis by simp
    qed
  qed simp
  let ?k = "length (pom_input_trajectory msg)"
  have "map_result (\<lambda>i. bind_result (vec_at (pom_state_trajectory msg) i) (\<lambda>x.
      bind_result (vec_at (pom_input_trajectory msg) i) (\<lambda>u. Inr (x, u)))) [0 ..< length (pom_time_trajectory msg)] = Inl Undefined"
    by (rule undef[of _ _ ?k]) (use assms(3,4) in \<open>auto simp: vec_at_def\<close>)
  then show ?thesis using assms by (simp add: readPolicyMsg_def Let_def)
qed

definition short_msg :: policy_msg where
  "short_msg =
     \<lparr>pom_controller_type = CONTROLLER_FEEDFORWARD,
      pom_init_observation = \<lparr>om_time = 0, om_state = [], om_input = [], om_mode = 0\<rparr>,
      pom_plan_target_trajectories = \<lparr>ttm_time_trajectory = [0], ttm_state_trajectory = [[1]], ttm_input_trajectory = []\<rparr>,
      pom_state_trajectory = [[1], [2]], pom_input_trajectory = [[1]], pom_time_trajectory = [0, 1], pom_post_event_indices = [],
      pom_mode_schedule = \<lparr>msm_event_times = [], msm_mode_sequence = [0]\<rparr>, pom_data = [[1], [2]],
      pom_performance_indices = createPerformanceIndicesMsg (\<lambda>x. x) 0 0\<rparr>"

theorem policy_message_short_trajectory_witness: "readPolicyMsg short_msg = Inl Undefined"
  by (rule policy_message_short_trajectory)
    (simp_all add: short_msg_def readTargetTrajectoriesMsg_def TargetTrajectories_def readModeScheduleMsg_def ModeSchedule_def)

end
