(* ===== verification/Mpc_Ros.thy ===== *)
theory Mpc_Ros
  imports Mpc_Mrt_Interface Ros_Messages
begin

text \<open>
  \<open>robotics/ocs2_ros_interfaces/src/mpc/MPC_ROS_Interface.cpp\<close> with its publishing thread. The callbacks
  of the node run on one thread: an observation runs the MPC and copies the solution into the
  buffer, then announces it under the mutex of the publisher. The publisher thread waits for the
  announcement, swaps the buffer with its own slot under the mutex of the buffer, and serialises and publishes while
  it still holds its own mutex. Between these critical sections the threads interleave freely; the
  relation \<open>mpc_ros_step\<close> has one rule per critical section.

  The three \<open>unique_ptr\<close>s of a slot are set by the constructor and only ever swapped with each other,
  so a slot is a record of three objects. The middleware is left out: publishing appends to a list.
\<close>

section \<open>State and operations\<close>

record policy_slot =
  sl_command :: command_data
  sl_primal :: primal_solution
  sl_perf :: performance_index

record ('s, 'm) mpc_ros =
  mrMpc :: "('s, 'm) mpc"
  mrBuffer :: policy_slot
  mrPublisher :: policy_slot
  terminateThread :: bool
  readyToPublish :: bool
  resetRequestedEver :: bool

definition new_CommandData :: command_data where
  "new_CommandData =
     \<lparr>mpcInitObservation = \<lparr>obs_mode = 0, obs_time = 0, obs_state = [], obs_input = []\<rparr>,
      mpcTargetTrajectories = sized_TargetTrajectories 0\<rparr>"

definition new_slot :: policy_slot where
  "new_slot = \<lparr>sl_command = new_CommandData, sl_primal = new_PrimalSolution, sl_perf = new_PerformanceIndex\<rparr>"

definition MPC_ROS_Interface :: "('s, 'm) mpc \<Rightarrow> ('s, 'm) mpc_ros" where
  "MPC_ROS_Interface m =
     \<lparr>mrMpc = m, mrBuffer = new_slot, mrPublisher = new_slot, terminateThread = False, readyToPublish = False,
      resetRequestedEver = False\<rparr>"

definition resetMpcNode_ros :: "'s solver_ops \<Rightarrow> target_trajectories \<Rightarrow> ('s, 'm) mpc_ros \<Rightarrow> ('s, 'm) mpc_ros" where
  "resetMpcNode_ros ops initTargetTrajectories r =
     (let m = reset_mpc ops (mrMpc r);
          sv = mpcSolver m
      in r\<lparr>mrMpc := m\<lparr>mpcSolver := sv\<lparr>sv_references := setTargetTrajectories initTargetTrajectories (sv_references sv)\<rparr>\<rparr>,
           resetRequestedEver := True, terminateThread := False, readyToPublish := False\<rparr>)"

text \<open>The service: the request has a flag and a targets message, the response the flag \<open>done\<close>.\<close>

definition resetMpcCallback ::
  "'s solver_ops \<Rightarrow> bool \<Rightarrow> target_trajectories_msg \<Rightarrow> ('s, 'm) mpc_ros \<Rightarrow> (bool \<times> ('s, 'm) mpc_ros) result" where
  "resetMpcCallback ops req_reset targets r =
     (if req_reset then
        bind_result (readTargetTrajectoriesMsg targets) (\<lambda>tt. Inr (True, resetMpcNode_ros ops tt r))
      else Inr (False, r))"

definition copyToBuffer_ros :: "'s solver_ops \<Rightarrow> system_observation \<Rightarrow> ('s, 'm) mpc_ros \<Rightarrow> ('s, 'm) mpc_ros result" where
  "copyToBuffer_ros ops initObservation r =
     (let m = mrMpc r; s = sv_state (mpcSolver m)
      in bind_result (so_getPrimalSolution ops s (solution_end ops m (obs_time initObservation)) (sl_primal (mrBuffer r))) (\<lambda>p.
         Inr (r\<lparr>mrBuffer := \<lparr>sl_command = \<lparr>mpcInitObservation = initObservation,
                                          mpcTargetTrajectories = getTargetTrajectories (sv_references (mpcSolver m))\<rparr>,
                            sl_primal = p, sl_perf = so_getPerformanceIndeces ops s\<rparr>\<rparr>)))"

text \<open>The observation callback up to the announcement; the flag says whether there is one to make.\<close>

definition mpcObservationCallback ::
  "'s solver_ops \<Rightarrow> observation_msg \<Rightarrow> ('s, 'm) mpc_ros \<Rightarrow> (bool \<times> ('s, 'm) mpc_ros) result" where
  "mpcObservationCallback ops msg r =
     (if \<not> resetRequestedEver r then Inr (False, r)
      else (let currentObservation = readObservationMsg msg
            in bind_result (run_mpc ops (obs_time currentObservation) (obs_state currentObservation) (mrMpc r)) (\<lambda>res.
               case res of (controllerIsUpdated, m) \<Rightarrow>
                 if \<not> controllerIsUpdated then Inr (False, r\<lparr>mrMpc := m\<rparr>)
                 else bind_result (copyToBuffer_ros ops currentObservation (r\<lparr>mrMpc := m\<rparr>)) (\<lambda>r. Inr (True, r)))))"

definition announce_policy :: "('s, 'm) mpc_ros \<Rightarrow> ('s, 'm) mpc_ros" where
  "announce_policy r = r\<lparr>readyToPublish := True\<rparr>"

definition swap_publisher :: "('s, 'm) mpc_ros \<Rightarrow> ('s, 'm) mpc_ros" where
  "swap_publisher r = r\<lparr>mrBuffer := mrPublisher r, mrPublisher := mrBuffer r\<rparr>"

definition publish_slot :: "(scalar \<Rightarrow> scalar) \<Rightarrow> policy_slot \<Rightarrow> policy_msg result" where
  "publish_slot fl s = createMpcPolicyMsg fl (sl_primal s) (sl_command s) (sl_perf s)"

definition shutdownNode :: "('s, 'm) mpc_ros \<Rightarrow> ('s, 'm) mpc_ros" where
  "shutdownNode r = r\<lparr>terminateThread := True\<rparr>"

section \<open>The two threads\<close>

datatype worker_pc = Waiting | Awake | Swapped | Exited | Crashed
datatype callback_pc = Idle | Copied

text \<open>
  A configuration has the object, the place of each thread and the published messages. Its history is the
  list of the MPC runs that produced a policy, each with the observation message, the MPC before the run and
  the MPC after it. The runs are numbered from 1; each slot and each published message carries the
  number of the run it is meant to belong to (0 for a slot that was never filled). The history says nothing
  about what the slots contain.
\<close>

type_synonym ('s, 'm) mpc_run = "observation_msg \<times> ('s, 'm) mpc \<times> ('s, 'm) mpc"

record ('s, 'm) mpc_ros_config =
  mcRos :: "('s, 'm) mpc_ros"
  mcWorker :: worker_pc
  mcCallback :: callback_pc
  mcPublished :: "policy_msg list"
  mcRuns :: "('s, 'm) mpc_run list"
  mcBufferNo :: nat
  mcPublisherNo :: nat
  mcPublishedNos :: "nat list"

definition mpc_ros_start :: "('s, 'm) mpc \<Rightarrow> ('s, 'm) mpc_ros_config" where
  "mpc_ros_start m =
     \<lparr>mcRos = MPC_ROS_Interface m, mcWorker = Waiting, mcCallback = Idle, mcPublished = [], mcRuns = [],
      mcBufferNo = 0, mcPublisherNo = 0, mcPublishedNos = []\<rparr>"

definition publisher_locked :: "('s, 'm) mpc_ros_config \<Rightarrow> bool" where
  "publisher_locked k = (mcWorker k = Awake \<or> mcWorker k = Swapped)"

inductive mpc_ros_step ::
  "'s solver_ops \<Rightarrow> (scalar \<Rightarrow> scalar) \<Rightarrow> ('s, 'm) mpc_ros_config \<Rightarrow> ('s, 'm) mpc_ros_config \<Rightarrow> bool" for ops fl where
  reset: "mcCallback k = Idle \<Longrightarrow> mpc_ros_step ops fl k (k\<lparr>mcRos := resetMpcNode_ros ops tt (mcRos k)\<rparr>)"
| observe: "mcCallback k = Idle \<Longrightarrow> mpcObservationCallback ops msg (mcRos k) = Inr (True, r) \<Longrightarrow>
    mpc_ros_step ops fl k (k\<lparr>mcRos := r, mcCallback := Copied, mcRuns := mcRuns k @ [(msg, mrMpc (mcRos k), mrMpc r)],
                             mcBufferNo := length (mcRuns k) + 1\<rparr>)"
| observe_nothing: "mcCallback k = Idle \<Longrightarrow> mpcObservationCallback ops msg (mcRos k) = Inr (False, r) \<Longrightarrow>
    mpc_ros_step ops fl k (k\<lparr>mcRos := r\<rparr>)"
| announce: "mcCallback k = Copied \<Longrightarrow> \<not> publisher_locked k \<Longrightarrow>
    mpc_ros_step ops fl k (k\<lparr>mcRos := announce_policy (mcRos k), mcCallback := Idle\<rparr>)"
| wake: "mcWorker k = Waiting \<Longrightarrow> \<not> terminateThread (mcRos k) \<Longrightarrow> readyToPublish (mcRos k) \<Longrightarrow>
    mpc_ros_step ops fl k (k\<lparr>mcWorker := Awake\<rparr>)"
| swap: "mcWorker k = Awake \<Longrightarrow>
    mpc_ros_step ops fl k (k\<lparr>mcRos := swap_publisher (mcRos k), mcWorker := Swapped,
                             mcBufferNo := mcPublisherNo k, mcPublisherNo := mcBufferNo k\<rparr>)"
| publish: "mcWorker k = Swapped \<Longrightarrow> publish_slot fl (mrPublisher (mcRos k)) = Inr msg \<Longrightarrow>
    mpc_ros_step ops fl k (k\<lparr>mcRos := (mcRos k)\<lparr>readyToPublish := False\<rparr>, mcWorker := Waiting,
                             mcPublished := mcPublished k @ [msg], mcPublishedNos := mcPublishedNos k @ [mcPublisherNo k]\<rparr>)"
| crash: "mcWorker k = Swapped \<Longrightarrow> publish_slot fl (mrPublisher (mcRos k)) = Inl e \<Longrightarrow>
    mpc_ros_step ops fl k (k\<lparr>mcWorker := Crashed\<rparr>)"
| exit: "mcWorker k = Waiting \<Longrightarrow> terminateThread (mcRos k) \<Longrightarrow> mpc_ros_step ops fl k (k\<lparr>mcWorker := Exited\<rparr>)"
| shutdown: "\<not> publisher_locked k \<Longrightarrow> mpc_ros_step ops fl k (k\<lparr>mcRos := shutdownNode (mcRos k)\<rparr>)"

inductive mpc_ros_steps ::
  "'s solver_ops \<Rightarrow> (scalar \<Rightarrow> scalar) \<Rightarrow> ('s, 'm) mpc_ros_config \<Rightarrow> ('s, 'm) mpc_ros_config \<Rightarrow> bool" for ops fl where
  none: "mpc_ros_steps ops fl k k"
| more: "mpc_ros_steps ops fl k k' \<Longrightarrow> mpc_ros_step ops fl k' k'' \<Longrightarrow> mpc_ros_steps ops fl k k''"

section \<open>What is published\<close>

text \<open>
  A slot holds the policy of one run when all three of its parts come from that run: the observation that started
  it with the references it was solved for, the solution of the solver after it (for what the output argument
  held before), and the performance indices of the solver after it.
\<close>

fun policy_of_run :: "'s solver_ops \<Rightarrow> ('s, 'm) mpc_run \<Rightarrow> policy_slot \<Rightarrow> bool" where
  "policy_of_run ops (msg, before, after) s =
     (run_mpc ops (om_time msg) (om_state msg) before = Inr (True, after) \<and>
      sl_command s = \<lparr>mpcInitObservation = readObservationMsg msg,
                      mpcTargetTrajectories = getTargetTrajectories (sv_references (mpcSolver after))\<rparr> \<and>
      (\<exists>old. so_getPrimalSolution ops (sv_state (mpcSolver after)) (solution_end ops after (om_time msg)) old = Inr (sl_primal s)) \<and>
      sl_perf s = so_getPerformanceIndeces ops (sv_state (mpcSolver after)))"

definition slot_has_no :: "'s solver_ops \<Rightarrow> ('s, 'm) mpc_run list \<Rightarrow> nat \<Rightarrow> policy_slot \<Rightarrow> bool" where
  "slot_has_no ops runs n s = (if n = 0 then s = new_slot else n \<le> length runs \<and> policy_of_run ops (runs ! (n - 1)) s)"

lemma slot_has_no_append: "slot_has_no ops runs n s \<Longrightarrow> slot_has_no ops (runs @ [a]) n s"
  by (auto simp: slot_has_no_def nth_append split: if_splits)

lemma slot_has_no_last: "policy_of_run ops a s \<Longrightarrow> slot_has_no ops (runs @ [a]) (Suc (length runs)) s"
  by (simp add: slot_has_no_def)

definition published_ok :: "'s solver_ops \<Rightarrow> (scalar \<Rightarrow> scalar) \<Rightarrow> ('s, 'm) mpc_run list \<Rightarrow> policy_msg list \<Rightarrow> nat list \<Rightarrow> bool" where
  "published_ok ops fl runs msgs nos =
     (length msgs = length nos \<and>
      (\<forall>i < length msgs. 1 \<le> nos ! i \<and> nos ! i \<le> length runs \<and>
         (\<exists>s. policy_of_run ops (runs ! (nos ! i - 1)) s \<and> publish_slot fl s = Inr (msgs ! i))))"

definition mpc_ros_inv :: "'s solver_ops \<Rightarrow> (scalar \<Rightarrow> scalar) \<Rightarrow> ('s, 'm) mpc_ros_config \<Rightarrow> bool" where
  "mpc_ros_inv ops fl k =
     (slot_has_no ops (mcRuns k) (mcBufferNo k) (mrBuffer (mcRos k)) \<and>
      slot_has_no ops (mcRuns k) (mcPublisherNo k) (mrPublisher (mcRos k)) \<and>
      mcBufferNo k \<le> length (mcRuns k) \<and> mcPublisherNo k \<le> length (mcRuns k) \<and>
      (mcBufferNo k = mcPublisherNo k \<longrightarrow> mcBufferNo k = 0) \<and>
      (mcCallback k = Copied \<longrightarrow> mcRuns k \<noteq> []) \<and>
      (mcCallback k = Copied \<longrightarrow> readyToPublish (mcRos k) \<longrightarrow> mcWorker k = Waiting \<or> mcWorker k = Awake \<longrightarrow>
         mcBufferNo k = length (mcRuns k)) \<and>
      published_ok ops fl (mcRuns k) (mcPublished k) (mcPublishedNos k))"

lemma published_ok_run: "published_ok ops fl runs msgs nos \<Longrightarrow> published_ok ops fl (runs @ [a]) msgs nos"
  by (fastforce simp: published_ok_def nth_append)

lemma published_ok_publish:
  assumes "published_ok ops fl runs msgs nos" "slot_has_no ops runs n s" "n \<noteq> 0" "publish_slot fl s = Inr msg"
  shows "published_ok ops fl runs (msgs @ [msg]) (nos @ [n])"
  using assms by (auto simp: published_ok_def nth_append slot_has_no_def less_Suc_eq)

lemma publish_new_slot: "publish_slot fl new_slot = Inl Undefined"
  by (simp add: publish_slot_def new_slot_def new_CommandData_def new_PrimalSolution_def createMpcPolicyMsg_def Let_def
      createTargetTrajectoriesMsg_def sized_TargetTrajectories_def)

text \<open>What the callback leaves alone.\<close>

lemma callback_frame:
  assumes "mpcObservationCallback ops msg r = Inr (b, r')"
  shows "mrPublisher r' = mrPublisher r" "readyToPublish r' = readyToPublish r" "\<not> b \<Longrightarrow> mrBuffer r' = mrBuffer r"
  using assms by (auto simp: mpcObservationCallback_def copyToBuffer_ros_def Let_def result_simps split: if_splits)

text \<open>A run of the callback that has something to announce leaves the policy of that run in the buffer.\<close>

lemma callback_fills_buffer:
  assumes "mpcObservationCallback ops msg r = Inr (True, r')"
  shows "policy_of_run ops (msg, mrMpc r, mrMpc r') (mrBuffer r')"
  using assms
  by (auto simp: mpcObservationCallback_def copyToBuffer_ros_def Let_def result_simps readObservationMsg_def split: if_splits)

lemma reset_frame:
  "mrPublisher (resetMpcNode_ros ops tt r) = mrPublisher r" "mrBuffer (resetMpcNode_ros ops tt r) = mrBuffer r"
  "\<not> readyToPublish (resetMpcNode_ros ops tt r)"
  by (simp_all add: resetMpcNode_ros_def Let_def)

lemmas mpc_ros_op_simps = announce_policy_def swap_publisher_def shutdownNode_def reset_frame

lemma mpc_ros_inv_step:
  assumes "mpc_ros_inv ops fl k" "mpc_ros_step ops fl k k'"
  shows "mpc_ros_inv ops fl k'"
  using assms(2)
proof (cases rule: mpc_ros_step.cases)
  case (observe msg r)
  note frame = callback_frame(1,2)[OF observe(3)]
  from assms(1) observe(1,2) show ?thesis
    unfolding mpc_ros_inv_def
    by (simp add: frame slot_has_no_append slot_has_no_last[OF callback_fills_buffer[OF observe(3)]] published_ok_run)
next
  case (observe_nothing msg r)
  from assms(1) callback_frame[OF observe_nothing(3)] observe_nothing(1) show ?thesis
    unfolding mpc_ros_inv_def by simp
next
  case swap
  with assms(1) show ?thesis unfolding mpc_ros_inv_def swap_publisher_def by auto
next
  case (publish msg)
  have "mcPublisherNo k \<noteq> 0"
  proof
    assume "mcPublisherNo k = 0"
    then have "mrPublisher (mcRos k) = new_slot" using assms(1) by (simp add: mpc_ros_inv_def slot_has_no_def)
    with publish(3) show False by (simp add: publish_new_slot)
  qed
  with assms(1) publish show ?thesis
    unfolding mpc_ros_inv_def by (auto intro: published_ok_publish)
qed (use assms(1) in \<open>simp_all add: mpc_ros_inv_def mpc_ros_op_simps\<close>)

lemma mpc_ros_inv_start: "mpc_ros_inv ops fl (mpc_ros_start m)"
  by (simp add: mpc_ros_inv_def mpc_ros_start_def MPC_ROS_Interface_def slot_has_no_def published_ok_def)

lemma mpc_ros_inv_steps: "mpc_ros_steps ops fl k k' \<Longrightarrow> mpc_ros_inv ops fl k \<Longrightarrow> mpc_ros_inv ops fl k'"
  by (induction rule: mpc_ros_steps.induct) (auto intro: mpc_ros_inv_step)

lemma mpc_ros_steps_trans:
  "mpc_ros_steps ops fl k' k'' \<Longrightarrow> mpc_ros_steps ops fl k k' \<Longrightarrow> mpc_ros_steps ops fl k k''"
  by (induction rule: mpc_ros_steps.induct) (auto intro: mpc_ros_steps.more)

lemmas one_step = mpc_ros_steps.more[OF mpc_ros_steps.none]

section \<open>A run for the witnesses\<close>

definition demo_policy :: primal_solution where
  "demo_policy =
     \<lparr>ps_timeTrajectory = [0], ps_stateTrajectory = [[1]], ps_inputTrajectory = [[2]], ps_postEventIndices = [],
      ps_modeSchedule = default_ModeSchedule,
      ps_controllerPtr = Some (Feedforward \<lparr>ff_timeStamp = [0], ff_uffArray = [[2]]\<rparr>)\<rparr>"

definition demo_solver :: "scalar solver_ops" where
  "demo_solver = clock_solver\<lparr>so_getPrimalSolution := (\<lambda>s tf p. Inr demo_policy)\<rparr>"

definition demo_observation :: "scalar \<Rightarrow> observation_msg" where
  "demo_observation t = \<lparr>om_time = t, om_state = [1], om_input = [2], om_mode = 0\<rparr>"

definition demo_ros :: "(scalar, unit) mpc_ros" where
  "demo_ros = resetMpcNode_ros demo_solver (sized_TargetTrajectories 0) (MPC_ROS_Interface (MPC_BASE default_mpc_settings clock_mpc))"

lemma demo_publish:
  assumes "mpcTargetTrajectories c = sized_TargetTrajectories 0"
  shows "\<exists>msg. publish_slot (\<lambda>x. x) \<lparr>sl_command = c, sl_primal = demo_policy, sl_perf = i\<rparr> = Inr msg"
proof -
  let ?f = "\<lparr>ff_timeStamp = [0 :: scalar], ff_uffArray = [[2 :: scalar]]\<rparr>"
  have "ff_flatten (\<lambda>x. x) ?f (ff_timeStamp ?f) (length (ff_timeStamp ?f)) = Inr (map (map (\<lambda>x. x)) (ff_uffArray ?f))"
    by (rule ff_flatten_own_times) simp_all
  then have "ff_flatten (\<lambda>x. x) ?f [0] (Suc 0) = Inr [[2]]" by simp
  then show ?thesis
    using assms by (simp add: publish_slot_def createMpcPolicyMsg_def demo_policy_def Let_def createTargetTrajectoriesMsg_def
        sized_TargetTrajectories_def controllerTypeField_def)
qed

lemmas demo_defs = demo_ros_def resetMpcNode_ros_def MPC_ROS_Interface_def MPC_BASE_def reset_mpc_def clock_mpc_def demo_solver_def
  clock_solver_def default_mpc_settings_def demo_observation_def mpcObservationCallback_def readObservationMsg_def run_mpc_def
  calculateController_def run_solver_def preRun_def postRun_def copyToBuffer_ros_def preSolverRun_def modifyReferences_def
  setTargetTrajectories_def ReferenceManager_def getTargetTrajectories_def

text \<open>The callback on a first observation at time 0 and on a second one half a horizon later.\<close>

lemma demo_targets:
  "getTargetTrajectories (sv_references (preRun t x tf (mpcSolver (mrMpc demo_ros)))) = sized_TargetTrajectories 0"
  by (simp add: demo_defs buffered_value_defs Let_def)

lemma demo_first:
  "\<exists>r c i. mpcObservationCallback demo_solver (demo_observation 0) demo_ros = Inr (True, r) \<and>
     mrBuffer r = \<lparr>sl_command = c, sl_primal = demo_policy, sl_perf = i\<rparr> \<and> mpcTargetTrajectories c = sized_TargetTrajectories 0 \<and>
     \<not> terminateThread r \<and> (\<exists>r' c' i'. mpcObservationCallback demo_solver (demo_observation (1 / 2)) (announce_policy r) = Inr (True, r') \<and>
       mrBuffer r' = \<lparr>sl_command = c', sl_primal = demo_policy, sl_perf = i'\<rparr> \<and>
       mpcTargetTrajectories c' = sized_TargetTrajectories 0 \<and> \<not> terminateThread r')"
  by (simp add: demo_defs buffered_value_defs announce_policy_def Let_def)

lemma demo_run:
  "\<exists>k1 k2 :: (scalar, unit) mpc_ros_config.
     mpc_ros_steps demo_solver (\<lambda>x. x) (mpc_ros_start (MPC_BASE default_mpc_settings clock_mpc)) k1 \<and> length (mcPublished k1) = 1 \<and>
     mpc_ros_steps demo_solver (\<lambda>x. x) (mpc_ros_start (MPC_BASE default_mpc_settings clock_mpc)) k2 \<and>
     mcCallback k2 = Copied \<and> mcWorker k2 = Waiting \<and> readyToPublish (mcRos k2) \<and> \<not> terminateThread (mcRos k2) \<and>
     mcPublished k2 = [] \<and> mcPublisherNo k2 = 0 \<and> succeeds (publish_slot (\<lambda>x. x) (mrBuffer (mcRos k2)))"
proof -
  let ?steps = "mpc_ros_steps demo_solver (\<lambda>x. x) (mpc_ros_start (MPC_BASE default_mpc_settings clock_mpc))"
  obtain r c i r' c' i' where
    r: "mpcObservationCallback demo_solver (demo_observation 0) demo_ros = Inr (True, r)"
      "mrBuffer r = \<lparr>sl_command = c, sl_primal = demo_policy, sl_perf = i\<rparr>" "mpcTargetTrajectories c = sized_TargetTrajectories 0"
      "\<not> terminateThread r"
    and r': "mpcObservationCallback demo_solver (demo_observation (1 / 2)) (announce_policy r) = Inr (True, r')"
      "mrBuffer r' = \<lparr>sl_command = c', sl_primal = demo_policy, sl_perf = i'\<rparr>" "mpcTargetTrajectories c' = sized_TargetTrajectories 0"
      "\<not> terminateThread r'"
    using demo_first by blast
  obtain msg where msg: "publish_slot (\<lambda>x. x) (mrBuffer r) = Inr msg" using demo_publish[OF r(3)] r(2) by auto
  define s0 where "s0 = mpc_ros_start (MPC_BASE default_mpc_settings clock_mpc)"
  define s1 where "s1 = s0\<lparr>mcRos := demo_ros\<rparr>"
  define s2 where "s2 = s1\<lparr>mcRos := r, mcCallback := Copied, mcRuns := mcRuns s1 @ [(demo_observation 0, mrMpc (mcRos s1), mrMpc r)], mcBufferNo := length (mcRuns s1) + 1\<rparr>"
  define s3 where "s3 = s2\<lparr>mcRos := announce_policy (mcRos s2), mcCallback := Idle\<rparr>"
  define s4 where "s4 = s3\<lparr>mcRos := r', mcCallback := Copied, mcRuns := mcRuns s3 @ [(demo_observation (1 / 2), mrMpc (mcRos s3), mrMpc r')], mcBufferNo := length (mcRuns s3) + 1\<rparr>"
  define p4 where "p4 = s3\<lparr>mcWorker := Awake\<rparr>"
  define p5 where "p5 = p4\<lparr>mcRos := swap_publisher (mcRos p4), mcWorker := Swapped, mcBufferNo := mcPublisherNo p4, mcPublisherNo := mcBufferNo p4\<rparr>"
  define p6 where "p6 = p5\<lparr>mcRos := (mcRos p5)\<lparr>readyToPublish := False\<rparr>, mcWorker := Waiting, mcPublished := mcPublished p5 @ [msg],
    mcPublishedNos := mcPublishedNos p5 @ [mcPublisherNo p5]\<rparr>"
  note defs = s0_def s1_def s2_def s3_def s4_def p4_def p5_def p6_def mpc_ros_start_def
  have reset: "mpc_ros_step demo_solver (\<lambda>x. x) s0 s1"
    using mpc_ros_step.reset[of s0 demo_solver "\<lambda>x. x" "sized_TargetTrajectories 0"]
    by (simp add: s1_def s0_def mpc_ros_start_def demo_ros_def)
  have observe1: "mpc_ros_step demo_solver (\<lambda>x. x) s1 s2" unfolding s2_def
    by (rule mpc_ros_step.observe[where msg = "demo_observation 0"]) (use r in \<open>simp_all add: s1_def s0_def mpc_ros_start_def\<close>)
  have announce1: "mpc_ros_step demo_solver (\<lambda>x. x) s2 s3" unfolding s3_def
    by (rule mpc_ros_step.announce) (simp_all add: defs publisher_locked_def)
  have observe2: "mpc_ros_step demo_solver (\<lambda>x. x) s3 s4" unfolding s4_def
    by (rule mpc_ros_step.observe[where msg = "demo_observation (1 / 2)"]) (use r' in \<open>simp_all add: s3_def s2_def\<close>)
  have wake: "mpc_ros_step demo_solver (\<lambda>x. x) s3 p4" unfolding p4_def
    by (rule mpc_ros_step.wake) (use r in \<open>simp_all add: defs announce_policy_def\<close>)
  have swap: "mpc_ros_step demo_solver (\<lambda>x. x) p4 p5" unfolding p5_def
    by (rule mpc_ros_step.swap) (simp add: p4_def)
  have publish: "mpc_ros_step demo_solver (\<lambda>x. x) p5 p6" unfolding p6_def
    by (rule mpc_ros_step.publish) (use msg in \<open>simp_all add: defs announce_policy_def swap_publisher_def\<close>)
  have s3: "?steps s3"
    unfolding s0_def[symmetric]
    by (rule mpc_ros_steps.more[OF mpc_ros_steps.more[OF one_step[OF reset] observe1] announce1])
  have "?steps p6" by (rule mpc_ros_steps.more[OF mpc_ros_steps.more[OF mpc_ros_steps.more[OF s3 wake] swap] publish])
  moreover have "?steps s4" by (rule mpc_ros_steps.more[OF s3 observe2])
  moreover have "readyToPublish r'" using callback_frame(2)[OF r'(1)] by (simp add: announce_policy_def)
  moreover obtain msg' where "publish_slot (\<lambda>x. x) (mrBuffer r') = Inr msg'" using demo_publish[OF r'(3)] r'(2) by auto
  ultimately show ?thesis
    using r' by (intro exI[of _ p6] exI[of _ s4]) (simp add: defs)
qed

section \<open>Properties\<close>

text \<open>
  C12. No interleaving of the two threads publishes a torn policy. Every message that the node has published is the message
  of the policy of one run of the MPC: there is one answered run in the history of the node such that the
  message is made of the observation that started this run and the target trajectories that were active in it,
  of a primal solution that the solver returned after it up to the end of its solution window, and of the performance indices
  of the solver after it.
\<close>

theorem published_policies_whole:
  assumes "mpc_ros_steps ops fl (mpc_ros_start m) k"
  shows "length (mcPublished k) = length (mcPublishedNos k) \<and>
         (\<forall>i < length (mcPublished k). 1 \<le> mcPublishedNos k ! i \<and> mcPublishedNos k ! i \<le> length (mcRuns k) \<and>
            (\<exists>s. policy_of_run ops (mcRuns k ! (mcPublishedNos k ! i - 1)) s \<and> publish_slot fl s = Inr (mcPublished k ! i)))"
  using mpc_ros_inv_steps[OF assms mpc_ros_inv_start] by (simp add: mpc_ros_inv_def published_ok_def)

theorem published_policies_whole_witness:
  "\<exists>(k :: (scalar, unit) mpc_ros_config) s. length (mcPublished k) = 1 \<and> mcPublishedNos k ! 0 \<ge> 1 \<and>
     policy_of_run demo_solver (mcRuns k ! (mcPublishedNos k ! 0 - 1)) s \<and> publish_slot (\<lambda>x. x) s = Inr (mcPublished k ! 0)"
proof -
  obtain k :: "(scalar, unit) mpc_ros_config" where
    k: "mpc_ros_steps demo_solver (\<lambda>x. x) (mpc_ros_start (MPC_BASE default_mpc_settings clock_mpc)) k" "length (mcPublished k) = 1"
    using demo_run by blast
  with published_policies_whole[OF k(1)] show ?thesis by (intro exI[of _ k]) auto
qed

text \<open>
  The publisher can go back to an older policy: whenever an observation has been copied while the
  announcement of an earlier one is still waiting for the publisher, the threads can go on such that the new
  policy is published first and the slot that the publisher had before is up next. It holds an older
  policy, or, if nothing was published before, the empty slot of the constructor, whose null controller
  pointer is dereferenced.
\<close>

theorem stale_policy_published_next:
  assumes "mpc_ros_steps ops fl (mpc_ros_start m) k"
    and "mcCallback k = Copied" "mcWorker k = Waiting" "readyToPublish (mcRos k)" "\<not> terminateThread (mcRos k)"
    and "publish_slot fl (mrBuffer (mcRos k)) = Inr msg"
  shows "\<exists>k'. mpc_ros_steps ops fl k k' \<and> mcPublished k' = mcPublished k @ [msg] \<and> mcWorker k' = Swapped \<and>
           last (mcPublishedNos k') = length (mcRuns k') \<and> mcPublisherNo k' < length (mcRuns k') \<and>
           mrPublisher (mcRos k') = mrPublisher (mcRos k) \<and>
           (mcPublished k = [] \<and> mcPublisherNo k = 0 \<longrightarrow> publish_slot fl (mrPublisher (mcRos k')) = Inl Undefined)"
proof -
  have inv: "mpc_ros_inv ops fl k" by (rule mpc_ros_inv_steps[OF assms(1) mpc_ros_inv_start])
  then have no: "mcBufferNo k = length (mcRuns k)" "mcPublisherNo k < length (mcRuns k)"
    using assms(2-4) by (auto simp: mpc_ros_inv_def le_less)
  let ?r = "mcRos k"
  define k1 where "k1 = k\<lparr>mcWorker := Awake\<rparr>"
  define k2 where "k2 = k1\<lparr>mcRos := swap_publisher ?r, mcWorker := Swapped, mcBufferNo := mcPublisherNo k,
    mcPublisherNo := mcBufferNo k\<rparr>"
  define k3 where "k3 = k2\<lparr>mcRos := (swap_publisher ?r)\<lparr>readyToPublish := False\<rparr>, mcWorker := Waiting,
    mcPublished := mcPublished k @ [msg], mcPublishedNos := mcPublishedNos k @ [mcBufferNo k]\<rparr>"
  define k4 where "k4 = k3\<lparr>mcRos := announce_policy (mcRos k3), mcCallback := Idle\<rparr>"
  define k5 where "k5 = k4\<lparr>mcWorker := Awake\<rparr>"
  define k6 where "k6 = k5\<lparr>mcRos := swap_publisher (mcRos k5), mcWorker := Swapped,
    mcBufferNo := mcPublisherNo k5, mcPublisherNo := mcBufferNo k5\<rparr>"
  have s1: "mpc_ros_step ops fl k k1" unfolding k1_def by (rule mpc_ros_step.wake) (use assms in auto)
  have s2: "mpc_ros_step ops fl k1 k2" unfolding k2_def
    using mpc_ros_step.swap[of k1 ops fl] by (simp add: k1_def)
  have s3: "mpc_ros_step ops fl k2 k3" unfolding k3_def
    using mpc_ros_step.publish[of k2 fl msg ops] assms(6) by (simp add: k2_def k1_def swap_publisher_def)
  have s4: "mpc_ros_step ops fl k3 k4" unfolding k4_def
    by (rule mpc_ros_step.announce) (use assms in \<open>simp_all add: k3_def k2_def k1_def publisher_locked_def\<close>)
  have s5: "mpc_ros_step ops fl k4 k5" unfolding k5_def
    by (rule mpc_ros_step.wake) (use assms in \<open>simp_all add: k4_def k3_def announce_policy_def swap_publisher_def\<close>)
  have s6: "mpc_ros_step ops fl k5 k6" unfolding k6_def
    by (rule mpc_ros_step.swap) (simp add: k5_def)
  have "mpc_ros_steps ops fl k k6"
    by (rule mpc_ros_steps.more[OF mpc_ros_steps.more[OF mpc_ros_steps.more[OF mpc_ros_steps.more[OF mpc_ros_steps.more[OF
          one_step[OF s1] s2] s3] s4] s5] s6])
  moreover have "mcPublisherNo k = 0 \<Longrightarrow> mrPublisher ?r = new_slot" using inv by (simp add: mpc_ros_inv_def slot_has_no_def)
  ultimately show ?thesis
    using no by (intro exI[of _ k6])
      (auto simp: k6_def k5_def k4_def k3_def k2_def k1_def announce_policy_def swap_publisher_def publish_new_slot)
qed

theorem stale_policy_published_next_witness:
  "\<exists>k :: (scalar, unit) mpc_ros_config. length (mcPublished k) = 1 \<and> mcWorker k = Swapped \<and>
     publish_slot (\<lambda>x. x) (mrPublisher (mcRos k)) = Inl Undefined"
proof -
  obtain k :: "(scalar, unit) mpc_ros_config" and msg where
    k: "mpc_ros_steps demo_solver (\<lambda>x. x) (mpc_ros_start (MPC_BASE default_mpc_settings clock_mpc)) k"
      "mcCallback k = Copied" "mcWorker k = Waiting" "readyToPublish (mcRos k)" "\<not> terminateThread (mcRos k)"
      "publish_slot (\<lambda>x. x) (mrBuffer (mcRos k)) = Inr msg" "mcPublished k = []" "mcPublisherNo k = 0"
    using demo_run by (auto simp: succeeds_iff)
  from stale_policy_published_next[OF k(1-6)] obtain k' :: "(scalar, unit) mpc_ros_config" where
    k': "mcPublished k' = mcPublished k @ [msg]" "mcWorker k' = Swapped"
      "mcPublished k = [] \<and> mcPublisherNo k = 0 \<longrightarrow> publish_slot (\<lambda>x. x) (mrPublisher (mcRos k')) = Inl Undefined"
    by blast
  show ?thesis by (rule exI[of _ k']) (use k' k(7,8) in simp)
qed

end
