(* ===== verification/Term_Collection.thy ===== *)
theory Term_Collection
  imports Ocs2_Prelude
begin

text \<open>
  \<open>core/ocs2_core/include/ocs2_core/misc/Collection.h\<close>: the terms of a cost, a constraint or a
  Lagrangian in the order they were added, with a map from their names to their positions. The virtual
  \<open>clone\<close> of a term is a parameter of the copy constructor. \<open>collection_of c xs\<close> says that \<open>c\<close> holds
  the named terms \<open>xs\<close>, an association list with distinct names; every operation is described on it.
\<close>

section \<open>Model\<close>

record 't collection =
  col_terms :: "'t list"
  termNameMap :: "string \<rightharpoonup> nat"

definition new_Collection :: "'t collection" where
  "new_Collection = \<lparr>col_terms = [], termNameMap = Map.empty\<rparr>"

definition copy_Collection :: "('t \<Rightarrow> 't) \<Rightarrow> 't collection \<Rightarrow> 't collection" where
  "copy_Collection clone other = \<lparr>col_terms = map clone (col_terms other), termNameMap = termNameMap other\<rparr>"

definition empty_Collection :: "'t collection \<Rightarrow> bool" where
  "empty_Collection c = (col_terms c = [])"

definition clear_Collection :: "'t collection \<Rightarrow> 't collection" where
  "clear_Collection c = c\<lparr>col_terms := [], termNameMap := Map.empty\<rparr>"

text \<open>\<open>emplace\<close> leaves the map as it is when the name is taken, so a failed \<open>add\<close> changes nothing.\<close>

definition add_term :: "string \<Rightarrow> 't \<Rightarrow> 't collection \<Rightarrow> 't collection result" where
  "add_term name term c =
     (let nextIndex = length (col_terms c)
      in case termNameMap c name of
           None \<Rightarrow> Inr (c\<lparr>termNameMap := (termNameMap c)(name \<mapsto> nextIndex), col_terms := col_terms c @ [term]\<rparr>)
         | Some _ \<Rightarrow> Inl (Runtime_Error (''[Collection::add] Term with name \"'' @ name @ ''\" already exists'')))"

definition extract_term :: "string \<Rightarrow> 't collection \<Rightarrow> ('t option \<times> 't collection) result" where
  "extract_term name c =
     (case termNameMap c name of
        None \<Rightarrow> Inr (None, c)
      | Some termInd \<Rightarrow>
          let adjusted = (\<lambda>n. map_option (\<lambda>i. if termInd < i then i - 1 else i) (termNameMap c n));
              erased = adjusted(name := None)
          in bind_result (vec_at (col_terms c) termInd) (\<lambda>term.
             Inr (Some term,
                  c\<lparr>termNameMap := erased, col_terms := take termInd (col_terms c) @ drop (Suc termInd) (col_terms c)\<rparr>)))"

definition erase_term :: "string \<Rightarrow> 't collection \<Rightarrow> (bool \<times> 't collection) result" where
  "erase_term name c = bind_result (extract_term name c) (\<lambda>r. Inr (fst r \<noteq> None, snd r))"

text \<open>\<open>std::unordered_map::at\<close> throws for an unknown name.\<close>

definition get_term :: "string \<Rightarrow> 't collection \<Rightarrow> 't result" where
  "get_term name c =
     (case termNameMap c name of
        None \<Rightarrow> Inl (Runtime_Error ''unordered_map::at'')
      | Some index \<Rightarrow> vec_at (col_terms c) index)"

definition getTermIndex :: "string \<Rightarrow> 't collection \<Rightarrow> bool \<times> nat" where
  "getTermIndex name c =
     (case termNameMap c name of
        Some index \<Rightarrow> (True, index)
      | None \<Rightarrow> (False, card (dom (termNameMap c))))"

definition appendVectorToVectorByMoving :: "'a list \<Rightarrow> 'a list \<Rightarrow> 'a list" where
  "appendVectorToVectorByMoving v1 v2 = v1 @ v2"

section \<open>The association list of a collection\<close>

text \<open>The map of names to positions that a list of names stands for.\<close>

definition index_map :: "string list \<Rightarrow> string \<rightharpoonup> nat" where
  "index_map ns = map_of (zip ns [0 ..< length ns])"

definition collection_of :: "'t collection \<Rightarrow> (string \<times> 't) list \<Rightarrow> bool" where
  "collection_of c xs =
     (distinct (map fst xs) \<and> col_terms c = map snd xs \<and> termNameMap c = index_map (map fst xs))"

lemma index_map_Nil [simp]: "index_map [] = Map.empty"
  by (simp add: index_map_def)

lemma dom_index_map [simp]: "dom (index_map ns) = set ns"
  by (simp add: index_map_def dom_map_of_zip)

lemma index_map_None: "index_map ns n = None \<longleftrightarrow> n \<notin> set ns"
  by (metis dom_index_map domIff)

lemma index_map_Some: "distinct ns \<Longrightarrow> index_map ns n = Some i \<longleftrightarrow> i < length ns \<and> ns ! i = n"
  by (auto simp: index_map_def map_of_zip_nth map_of_eq_Some_iff in_set_zip)

lemma index_map_append:
  assumes "n \<notin> set ns"
  shows "index_map (ns @ [n]) = (index_map ns)(n \<mapsto> length ns)"
proof -
  have "index_map (ns @ [n]) = [n \<mapsto> length ns] ++ index_map ns"
    by (simp add: index_map_def)
  also have "\<dots> = index_map ns ++ [n \<mapsto> length ns]"
    by (rule map_add_comm) (use assms in simp)
  finally show ?thesis by simp
qed

lemma index_map_remove:
  assumes "distinct ns" "k < length ns"
  shows "index_map (take k ns @ drop (Suc k) ns) =
         (\<lambda>n. map_option (\<lambda>i. if k < i then i - 1 else i) (index_map ns n))(ns ! k := None)"
proof
  fix m
  let ?ms = "take k ns @ drop (Suc k) ns"
  have d: "distinct ?ms"
    using assms(1) set_take_disj_set_drop_if_distinct[OF assms(1), of k "Suc k"] by (simp add: disjoint_iff)
  have len: "length ?ms = length ns - 1" using assms(2) by simp
  have nth: "?ms ! i = ns ! (if i < k then i else Suc i)" if "i < length ns - 1" for i
    using that assms(2) by (auto simp: nth_append)
  show "index_map ?ms m = ((\<lambda>n. map_option (\<lambda>i. if k < i then i - 1 else i) (index_map ns n))(ns ! k := None)) m"
  proof (cases "index_map ?ms m")
    case None
    then have "m \<notin> set ?ms" by (simp add: index_map_None)
    then have "m = ns ! k \<or> m \<notin> set ns" using assms(2) by (metis Un_iff id_take_nth_drop set_ConsD set_append)
    then have "m = ns ! k \<or> index_map ns m = None" by (simp add: index_map_None)
    then show ?thesis using None by auto
  next
    case (Some i)
    then have i: "i < length ns - 1" "?ms ! i = m" using index_map_Some[OF d] len by auto
    let ?j = "if i < k then i else Suc i"
    have j: "?j < length ns" "ns ! ?j = m" using i nth[OF i(1)] by auto
    then have "index_map ns m = Some ?j" using index_map_Some[OF assms(1)] by blast
    moreover have "m \<noteq> ns ! k" using nth_eq_iff_index_eq[OF assms(1) j(1) assms(2)] j(2) by auto
    ultimately have "((\<lambda>n. map_option (\<lambda>i. if k < i then i - 1 else i) (index_map ns n))(ns ! k := None)) m =
        Some (if k < ?j then ?j - 1 else ?j)"
      by (simp only: fun_upd_apply if_False option.map)
    moreover have "(if k < ?j then ?j - 1 else ?j) = i" by simp
    ultimately show ?thesis using Some by (simp only:)
  qed
qed

lemma collection_of_new: "collection_of new_Collection []"
  by (simp add: collection_of_def new_Collection_def)

lemma add_term_of:
  assumes "collection_of c xs"
  shows "add_term n t c = (if n \<in> fst ` set xs
           then Inl (Runtime_Error (''[Collection::add] Term with name \"'' @ n @ ''\" already exists''))
           else Inr (c\<lparr>termNameMap := (termNameMap c)(n \<mapsto> length xs), col_terms := col_terms c @ [t]\<rparr>))"
    and "n \<notin> fst ` set xs \<Longrightarrow>
      collection_of (c\<lparr>termNameMap := (termNameMap c)(n \<mapsto> length xs), col_terms := col_terms c @ [t]\<rparr>) (xs @ [(n, t)])"
proof -
  have m: "termNameMap c = index_map (map fst xs)" "length (col_terms c) = length xs"
    using assms by (auto simp: collection_of_def)
  have "termNameMap c n = None \<longleftrightarrow> n \<notin> fst ` set xs" unfolding m(1) index_map_None by simp
  then show "add_term n t c = (if n \<in> fst ` set xs
           then Inl (Runtime_Error (''[Collection::add] Term with name \"'' @ n @ ''\" already exists''))
           else Inr (c\<lparr>termNameMap := (termNameMap c)(n \<mapsto> length xs), col_terms := col_terms c @ [t]\<rparr>))"
    by (auto simp: add_term_def m(2) Let_def split: option.split)
  assume "n \<notin> fst ` set xs"
  then show "collection_of (c\<lparr>termNameMap := (termNameMap c)(n \<mapsto> length xs), col_terms := col_terms c @ [t]\<rparr>) (xs @ [(n, t)])"
    using assms index_map_append[of n "map fst xs"] by (simp add: collection_of_def)
qed

lemma getTermIndex_of:
  assumes "collection_of c xs"
  shows "getTermIndex n c = (True, i) \<longleftrightarrow> i < length xs \<and> fst (xs ! i) = n"
    and "n \<notin> fst ` set xs \<Longrightarrow> getTermIndex n c = (False, length xs)"
proof -
  have d: "distinct (map fst xs)" and m: "termNameMap c = index_map (map fst xs)"
    using assms by (auto simp: collection_of_def)
  show "getTermIndex n c = (True, i) \<longleftrightarrow> i < length xs \<and> fst (xs ! i) = n"
  proof -
    have "getTermIndex n c = (True, i) \<longleftrightarrow> index_map (map fst xs) n = Some i"
      unfolding getTermIndex_def m by (cases "index_map (map fst xs) n") simp_all
    then show ?thesis using index_map_Some[OF d, of n i] by (cases "i < length xs") simp_all
  qed
  show "getTermIndex n c = (False, length xs)" if "n \<notin> fst ` set xs"
  proof -
    have "index_map (map fst xs) n = None" unfolding index_map_None using that by simp
    then show ?thesis using distinct_card[OF d] by (simp add: getTermIndex_def m)
  qed
qed

lemma filter_other_names: "n \<notin> fst ` set xs \<Longrightarrow> filter (\<lambda>x. fst x \<noteq> n) xs = xs"
  by (induction xs) auto

lemma extract_term_of:
  assumes "collection_of c xs"
  shows "n \<notin> fst ` set xs \<Longrightarrow> extract_term n c = Inr (None, c)"
    and "n \<in> fst ` set xs \<Longrightarrow> \<exists>c'. extract_term n c = Inr (map_of xs n, c') \<and> collection_of c' (filter (\<lambda>x. fst x \<noteq> n) xs)"
proof -
  have d: "distinct (map fst xs)" and m: "termNameMap c = index_map (map fst xs)" and t: "col_terms c = map snd xs"
    using assms by (auto simp: collection_of_def)
  show "extract_term n c = Inr (None, c)" if "n \<notin> fst ` set xs"
  proof -
    have "index_map (map fst xs) n = None" unfolding index_map_None using that by simp
    then show ?thesis by (simp add: extract_term_def m)
  qed
  show "\<exists>c'. extract_term n c = Inr (map_of xs n, c') \<and> collection_of c' (filter (\<lambda>x. fst x \<noteq> n) xs)"
    if "n \<in> fst ` set xs"
  proof -
    from that obtain x where x: "x \<in> set xs" "fst x = n" by blast
    then obtain k where k: "k < length xs" "fst (xs ! k) = n" unfolding in_set_conv_nth by blast
    then have idx: "index_map (map fst xs) n = Some k" using index_map_Some[OF d] by simp
    have xs: "xs = take k xs @ xs ! k # drop (Suc k) xs" using k(1) by (rule id_take_nth_drop)
    have dd: "distinct (map fst (take k xs) @ n # map fst (drop (Suc k) xs))"
      using d k(2) xs by (metis list.simps(9) map_append)
    have nn: "n \<notin> fst ` set (take k xs)" "n \<notin> fst ` set (drop (Suc k) xs)" using dd by simp_all
    have "filter (\<lambda>x. fst x \<noteq> n) (take k xs @ xs ! k # drop (Suc k) xs) = take k xs @ drop (Suc k) xs"
      using k(2) by (simp add: filter_other_names[OF nn(1)] filter_other_names[OF nn(2)])
    then have f: "filter (\<lambda>x. fst x \<noteq> n) xs = take k xs @ drop (Suc k) xs" using xs by argo
    let ?c = "c\<lparr>termNameMap := (\<lambda>n. map_option (\<lambda>i. if k < i then i - 1 else i) (index_map (map fst xs) n))(n := None),
      col_terms := take k (col_terms c) @ drop (Suc k) (col_terms c)\<rparr>"
    have "map_of xs n = Some (snd (xs ! k))"
      using d k by (metis map_of_is_SomeI nth_mem prod.collapse)
    then have "extract_term n c = Inr (map_of xs n, ?c)"
      using k(1) by (simp add: extract_term_def m idx t Let_def)
    moreover have "collection_of ?c (filter (\<lambda>x. fst x \<noteq> n) xs)"
      using index_map_remove[OF d, of k] k dd by (simp add: collection_of_def f t take_map drop_map)
    ultimately show ?thesis by blast
  qed
qed

lemma get_term_of:
  assumes "collection_of c xs"
  shows "get_term n c = (case map_of xs n of None \<Rightarrow> Inl (Runtime_Error ''unordered_map::at'') | Some t \<Rightarrow> Inr t)"
proof (cases "map_of xs n")
  case None
  then have "index_map (map fst xs) n = None" unfolding index_map_None by (simp add: map_of_eq_None_iff)
  with None assms show ?thesis by (simp add: get_term_def collection_of_def)
next
  case (Some t)
  then have "(n, t) \<in> set xs" by (rule map_of_SomeD)
  then obtain k where k: "k < length xs" "xs ! k = (n, t)" unfolding in_set_conv_nth by blast
  have d: "distinct (map fst xs)" using assms by (simp add: collection_of_def)
  have "index_map (map fst xs) n = Some k" using index_map_Some[OF d, of n k] k by simp
  with Some k assms show ?thesis by (simp add: get_term_def collection_of_def)
qed

section \<open>Properties\<close>

text \<open>
  C13. A collection implements a list of named terms: adding a fresh name appends the term and adding a
  name that is taken throws and changes nothing; extracting a name returns its term and removes it (the
  positions of the terms behind it included), or returns nothing; a lookup by name finds the position at
  which the terms are evaluated, and a copy holds the clones under the same names.
\<close>

theorem collection_refines:
  assumes "collection_of c xs"
  shows "(if n \<in> fst ` set xs then \<exists>e. add_term n t c = Inl e
          else \<exists>c'. add_term n t c = Inr c' \<and> collection_of c' (xs @ [(n, t)])) \<and>
         (\<exists>c'. extract_term n c = Inr (map_of xs n, c') \<and> collection_of c' (filter (\<lambda>x. fst x \<noteq> n) xs)) \<and>
         (case map_of xs n of
            None \<Rightarrow> getTermIndex n c = (False, length xs) \<and> (\<exists>e. get_term n c = Inl e)
          | Some u \<Rightarrow> get_term n c = Inr u \<and>
              (\<exists>i < length (col_terms c). getTermIndex n c = (True, i) \<and> col_terms c ! i = u)) \<and>
         collection_of (copy_Collection clone c) (map (\<lambda>(m, u). (m, clone u)) xs)"
proof (intro conjI)
  note d = assms[unfolded collection_of_def]
  show "if n \<in> fst ` set xs then \<exists>e. add_term n t c = Inl e
        else \<exists>c'. add_term n t c = Inr c' \<and> collection_of c' (xs @ [(n, t)])"
    using add_term_of[OF assms, of n t] by (cases "n \<in> fst ` set xs") simp_all
  show "\<exists>c'. extract_term n c = Inr (map_of xs n, c') \<and> collection_of c' (filter (\<lambda>x. fst x \<noteq> n) xs)"
  proof (cases "n \<in> fst ` set xs")
    case False
    then have "map_of xs n = None" by (simp add: map_of_eq_None_iff)
    with False assms extract_term_of(1)[OF assms] show ?thesis by (simp add: filter_other_names)
  qed (rule extract_term_of(2)[OF assms])
  show "case map_of xs n of
          None \<Rightarrow> getTermIndex n c = (False, length xs) \<and> (\<exists>e. get_term n c = Inl e)
        | Some u \<Rightarrow> get_term n c = Inr u \<and>
            (\<exists>i < length (col_terms c). getTermIndex n c = (True, i) \<and> col_terms c ! i = u)"
  proof (cases "map_of xs n")
    case None
    then have "n \<notin> fst ` set xs" by (simp add: map_of_eq_None_iff)
    with None getTermIndex_of(2)[OF assms] get_term_of[OF assms, of n] show ?thesis by simp
  next
    case (Some u)
    then obtain k where k: "k < length xs" "xs ! k = (n, u)" by (metis in_set_conv_nth map_of_SomeD)
    then have "getTermIndex n c = (True, k)" using getTermIndex_of(1)[OF assms, of n k] by simp
    with Some k get_term_of[OF assms, of n] d show ?thesis by auto
  qed
  have "map fst (map (\<lambda>(m, u). (m, clone u)) xs) = map fst xs" "map snd (map (\<lambda>(m, u). (m, clone u)) xs) = map clone (map snd xs)"
    by (auto simp: case_prod_unfold)
  with d show "collection_of (copy_Collection clone c) (map (\<lambda>(m, u). (m, clone u)) xs)"
    by (simp only: collection_of_def copy_Collection_def collection.simps)
qed

text \<open>A collection of two numbers.\<close>

definition two_terms :: "nat collection" where
  "two_terms = \<lparr>col_terms = [7, 8], termNameMap = [''a'' \<mapsto> 0, ''b'' \<mapsto> 1]\<rparr>"

theorem collection_refines_witness:
  "collection_of two_terms [(''a'', 7), (''b'', 8)] \<and>
   (\<exists>c'. extract_term ''a'' two_terms = Inr (Some 7, c') \<and> collection_of c' [(''b'', 8)]) \<and>
   (\<exists>c'. add_term ''c'' 9 two_terms = Inr c' \<and> collection_of c' [(''a'', 7), (''b'', 8), (''c'', 9)])"
proof -
  have c: "collection_of two_terms [(''a'', 7), (''b'', 8)]"
    by (simp add: collection_of_def two_terms_def index_map_def upt_rec fun_eq_iff)
  from collection_refines[OF c, of "''a''"] collection_refines[OF c, of "''c''" 9] c show ?thesis by simp
qed

end
