(* ===== verification/Penalties.thy ===== *)
theory Penalties
  imports Ocs2_Prelude
begin

text \<open>
  \<open>core/ocs2_core/include/ocs2_core/penalties\<close>: the scalar penalties of soft constraints
  (\<open>PenaltyBase\<close> and its classes) and of the augmented Lagrangian method (\<open>AugmentedPenaltyBase\<close> and its
  classes), with \<open>PenaltyBaseWrapper\<close> of \<open>MultidimensionalPenalty.cpp\<close>. A class is a constructor with its
  configuration, a virtual method is a function on the datatype. \<open>log\<close> is the natural logarithm; it is only
  taken of positive numbers when the relaxation parameters are positive.
\<close>

section \<open>Penalties\<close>

record barrier_config =
  mu :: scalar
  delta :: scalar

record threshold_config = barrier_config +
  activationThreshold :: scalar

record smooth_config =
  scale :: scalar
  relaxation :: scalar

definition default_RelaxedBarrier_Config :: barrier_config where
  "default_RelaxedBarrier_Config = \<lparr>mu = 1, delta = 1 / 10 ^ 3\<rparr>"

definition default_SquaredHinge_Config :: barrier_config where
  "default_SquaredHinge_Config = \<lparr>mu = 100, delta = 1 / 10\<rparr>"

definition default_ThresholdRelaxedBarrier_Config :: threshold_config where
  "default_ThresholdRelaxedBarrier_Config = \<lparr>mu = 1 / 10 ^ 2, delta = 1 / 10 ^ 3, activationThreshold = 5 / 10 ^ 2\<rparr>"

definition default_SmoothAbsolute_Config :: smooth_config where
  "default_SmoothAbsolute_Config = \<lparr>scale = 100, relaxation = 1 / 10 ^ 2\<rparr>"

datatype penalty =
    Quadratic_Penalty scalar
  | Relaxed_Barrier_Penalty barrier_config
  | Smooth_Absolute_Penalty smooth_config
  | Squared_Hinge_Penalty barrier_config
  | Threshold_Relaxed_Barrier_Penalty threshold_config (baselinePenalty: scalar)
  | Double_Sided_Penalty (lowerBound: scalar) (upperBound: scalar) (penaltyPtr: penalty)

subsection \<open>The relaxed barrier\<close>

definition barrier_value :: "'a barrier_config_scheme \<Rightarrow> scalar \<Rightarrow> scalar" where
  "barrier_value c h =
     (if delta c < h then - mu c * ln h
      else let delta_h = (h - 2 * delta c) / delta c
           in mu c * (- ln (delta c) + 1 / 2 * delta_h * delta_h - 1 / 2))"

definition barrier_derivative :: "'a barrier_config_scheme \<Rightarrow> scalar \<Rightarrow> scalar" where
  "barrier_derivative c h =
     (if delta c < h then - mu c / h else mu c * ((h - 2 * delta c) / (delta c * delta c)))"

definition barrier_second_derivative :: "'a barrier_config_scheme \<Rightarrow> scalar \<Rightarrow> scalar" where
  "barrier_second_derivative c h = (if delta c < h then mu c / (h * h) else mu c / (delta c * delta c))"

definition getRawValue :: "threshold_config \<Rightarrow> scalar \<Rightarrow> scalar" where
  "getRawValue c h = barrier_value c h"

definition getRawDerivative :: "threshold_config \<Rightarrow> scalar \<Rightarrow> scalar" where
  "getRawDerivative c h = barrier_derivative c h"

definition getRawSecondDerivative :: "threshold_config \<Rightarrow> scalar \<Rightarrow> scalar" where
  "getRawSecondDerivative c h = barrier_second_derivative c h"

definition ThresholdRelaxedBarrierPenalty :: "threshold_config \<Rightarrow> penalty" where
  "ThresholdRelaxedBarrierPenalty c = Threshold_Relaxed_Barrier_Penalty c (getRawValue c (activationThreshold c))"

subsection \<open>The virtual methods\<close>

fun getValue :: "penalty \<Rightarrow> scalar \<Rightarrow> scalar \<Rightarrow> scalar" where
  "getValue (Quadratic_Penalty k) t h = 1 / 2 * k * h * h"
| "getValue (Relaxed_Barrier_Penalty c) t h = barrier_value c h"
| "getValue (Smooth_Absolute_Penalty c) t h = scale c * sqrt (h * h + relaxation c * relaxation c)"
| "getValue (Squared_Hinge_Penalty c) t h =
     (if h < delta c then let delta_h = h - delta c in mu c * (1 / 2) * delta_h * delta_h else 0)"
| "getValue (Threshold_Relaxed_Barrier_Penalty c b) t h =
     (if activationThreshold c \<le> h then 0 else getRawValue c h - b)"
| "getValue (Double_Sided_Penalty lo up p) t h = getValue p t (h - lo) + getValue p t (up - h)"

fun getDerivative :: "penalty \<Rightarrow> scalar \<Rightarrow> scalar \<Rightarrow> scalar" where
  "getDerivative (Quadratic_Penalty k) t h = k * h"
| "getDerivative (Relaxed_Barrier_Penalty c) t h = barrier_derivative c h"
| "getDerivative (Smooth_Absolute_Penalty c) t h = scale c * h / sqrt (h * h + relaxation c * relaxation c)"
| "getDerivative (Squared_Hinge_Penalty c) t h = (if h < delta c then mu c * (h - delta c) else 0)"
| "getDerivative (Threshold_Relaxed_Barrier_Penalty c b) t h =
     (if activationThreshold c \<le> h then 0 else getRawDerivative c h)"
| "getDerivative (Double_Sided_Penalty lo up p) t h = getDerivative p t (h - lo) - getDerivative p t (up - h)"

fun getSecondDerivative :: "penalty \<Rightarrow> scalar \<Rightarrow> scalar \<Rightarrow> scalar" where
  "getSecondDerivative (Quadratic_Penalty k) t h = k"
| "getSecondDerivative (Relaxed_Barrier_Penalty c) t h = barrier_second_derivative c h"
| "getSecondDerivative (Smooth_Absolute_Penalty c) t h =
     (let deltaSquare = relaxation c * relaxation c in scale c * deltaSquare / ((h * h + deltaSquare) powr (3 / 2)))"
| "getSecondDerivative (Squared_Hinge_Penalty c) t h = (if h < delta c then mu c else 0)"
| "getSecondDerivative (Threshold_Relaxed_Barrier_Penalty c b) t h =
     (if activationThreshold c \<le> h then 0 else getRawSecondDerivative c h)"
| "getSecondDerivative (Double_Sided_Penalty lo up p) t h =
     getSecondDerivative p t (h - lo) + getSecondDerivative p t (up - h)"

fun penalty_name :: "penalty \<Rightarrow> string" where
  "penalty_name (Quadratic_Penalty k) = ''QuadraticPenalty''"
| "penalty_name (Relaxed_Barrier_Penalty c) = ''RelaxedBarrierPenalty''"
| "penalty_name (Smooth_Absolute_Penalty c) = ''SmoothAbsolutePenalty''"
| "penalty_name (Squared_Hinge_Penalty c) = ''SquaredHingePenalty''"
| "penalty_name (Threshold_Relaxed_Barrier_Penalty c b) = ''ThresholdRelaxedBarrierPenalty''"
| "penalty_name (Double_Sided_Penalty lo up p) = ''DoubleSidedPenalty''"

section \<open>Augmented penalties\<close>

record step_config =
  a_scale :: scalar
  a_stepSize :: scalar

record relaxed_step_config = step_config +
  a_relaxation :: scalar

definition default_augmented_Quadratic_Config :: step_config where
  "default_augmented_Quadratic_Config = \<lparr>a_scale = 100, a_stepSize = 0\<rparr>"

definition default_Slackness_Config :: step_config where
  "default_Slackness_Config = \<lparr>a_scale = 10, a_stepSize = 1\<rparr>"

definition default_augmented_SmoothAbsolute_Config :: relaxed_step_config where
  "default_augmented_SmoothAbsolute_Config = \<lparr>a_scale = 100, a_stepSize = 0, a_relaxation = 1 / 10 ^ 2\<rparr>"

definition default_ModifiedRelaxedBarrier_Config :: relaxed_step_config where
  "default_ModifiedRelaxedBarrier_Config = \<lparr>a_scale = 10, a_stepSize = 1, a_relaxation = 0\<rparr>"

datatype augmented_penalty =
    Augmented_Quadratic_Penalty step_config
  | Augmented_Smooth_Absolute_Penalty relaxed_step_config
  | Slackness_Squared_Hinge_Penalty step_config
  | Modified_Relaxed_Barrier_Penalty relaxed_step_config
  | Penalty_Base_Wrapper penalty

subsection \<open>Auxiliary functions of the modified barrier\<close>

definition wFunc :: "relaxed_step_config \<Rightarrow> scalar \<Rightarrow> scalar" where
  "wFunc c l = l * l / a_scale c"

definition dvdhFunc :: "relaxed_step_config \<Rightarrow> scalar \<Rightarrow> scalar" where
  "dvdhFunc c l = a_scale c / l"

definition vFunc :: "relaxed_step_config \<Rightarrow> scalar \<Rightarrow> scalar \<Rightarrow> scalar" where
  "vFunc c l h = a_scale c * h / l"

text \<open>The coefficients \<open>(c2, c1, c0)\<close> of \<open>QuadCoeff\<close>.\<close>

definition quadCoeff :: "relaxed_step_config \<Rightarrow> scalar \<times> scalar \<times> scalar" where
  "quadCoeff c = (1 / (1 + a_relaxation c) ^ 2, - 1 / (1 + a_relaxation c), - ln (1 + a_relaxation c))"

subsection \<open>The virtual methods\<close>

fun a_getValue :: "augmented_penalty \<Rightarrow> scalar \<Rightarrow> scalar \<Rightarrow> scalar \<Rightarrow> scalar" where
  "a_getValue (Augmented_Quadratic_Penalty c) t l h = - l * h + 1 / 2 * a_scale c * h * h"
| "a_getValue (Augmented_Smooth_Absolute_Penalty c) t l h =
     - l * h + a_scale c * sqrt (h * h + a_relaxation c * a_relaxation c)"
| "a_getValue (Slackness_Squared_Hinge_Penalty c) t l h =
     (if h < l / a_scale c then - l * h + 1 / 2 * a_scale c * h * h else - (1 / 2) * l * l / a_scale c)"
| "a_getValue (Modified_Relaxed_Barrier_Penalty c) t l h =
     (let v = vFunc c l h
      in if a_relaxation c < v then - wFunc c l * ln (1 + v)
         else case quadCoeff c of (c2, c1, c0) \<Rightarrow>
           let vDelta = v - a_relaxation c in wFunc c l * (1 / 2 * c2 * vDelta * vDelta + c1 * vDelta + c0))"
| "a_getValue (Penalty_Base_Wrapper p) t l h = getValue p t h"

fun a_getDerivative :: "augmented_penalty \<Rightarrow> scalar \<Rightarrow> scalar \<Rightarrow> scalar \<Rightarrow> scalar" where
  "a_getDerivative (Augmented_Quadratic_Penalty c) t l h = - l + a_scale c * h"
| "a_getDerivative (Augmented_Smooth_Absolute_Penalty c) t l h =
     - l + a_scale c * h / sqrt (h * h + a_relaxation c * a_relaxation c)"
| "a_getDerivative (Slackness_Squared_Hinge_Penalty c) t l h = (if h < l / a_scale c then - l + a_scale c * h else 0)"
| "a_getDerivative (Modified_Relaxed_Barrier_Penalty c) t l h =
     (let v = vFunc c l h
      in if a_relaxation c < v then - wFunc c l / (1 + v) * dvdhFunc c l
         else case quadCoeff c of (c2, c1, c0) \<Rightarrow> wFunc c l * (c2 * (v - a_relaxation c) + c1) * dvdhFunc c l)"
| "a_getDerivative (Penalty_Base_Wrapper p) t l h = getDerivative p t h"

fun a_getSecondDerivative :: "augmented_penalty \<Rightarrow> scalar \<Rightarrow> scalar \<Rightarrow> scalar \<Rightarrow> scalar" where
  "a_getSecondDerivative (Augmented_Quadratic_Penalty c) t l h = a_scale c"
| "a_getSecondDerivative (Augmented_Smooth_Absolute_Penalty c) t l h =
     (let deltaSquare = a_relaxation c * a_relaxation c
      in a_scale c * deltaSquare / ((h * h + deltaSquare) powr (3 / 2)))"
| "a_getSecondDerivative (Slackness_Squared_Hinge_Penalty c) t l h = (if h < l / a_scale c then a_scale c else 0)"
| "a_getSecondDerivative (Modified_Relaxed_Barrier_Penalty c) t l h =
     (let v = vFunc c l h; dvdh = dvdhFunc c l
      in if a_relaxation c < v then wFunc c l / ((1 + v) * (1 + v)) * dvdh * dvdh
         else case quadCoeff c of (c2, c1, c0) \<Rightarrow> wFunc c l * c2 * dvdh * dvdh)"
| "a_getSecondDerivative (Penalty_Base_Wrapper p) t l h = getSecondDerivative p t h"

definition lambdaMin :: scalar where
  "lambdaMin = 1 / 10 ^ 4"

definition soft_only :: "penalty \<Rightarrow> 'a result" where
  "soft_only p = Inl (Runtime_Error (''['' @ penalty_name p @ ''] This penalty is only applicable to soft constraints!''))"

fun updateMultiplier :: "augmented_penalty \<Rightarrow> scalar \<Rightarrow> scalar \<Rightarrow> scalar \<Rightarrow> scalar result" where
  "updateMultiplier (Augmented_Quadratic_Penalty c) t l h = Inr (l - a_stepSize c * a_scale c * h)"
| "updateMultiplier (Augmented_Smooth_Absolute_Penalty c) t l h = Inr (l - a_stepSize c * a_scale c * h)"
| "updateMultiplier (Slackness_Squared_Hinge_Penalty c) t l h =
     Inr (max 0 (max (l - a_stepSize c * a_scale c * h) ((1 - a_stepSize c) * l)))"
| "updateMultiplier (Modified_Relaxed_Barrier_Penalty c) t l h =
     (let v = vFunc c l h
      in if a_relaxation c < v then Inr (max lambdaMin (wFunc c l * dvdhFunc c l / (1 + v)))
         else case quadCoeff c of (c2, c1, c0) \<Rightarrow>
           Inr (max lambdaMin (a_stepSize c * wFunc c l * (- c2 * (v - a_relaxation c) - c1) * dvdhFunc c l)))"
| "updateMultiplier (Penalty_Base_Wrapper p) t l h = soft_only p"

fun initializeMultiplier :: "augmented_penalty \<Rightarrow> scalar result" where
  "initializeMultiplier (Augmented_Quadratic_Penalty c) = Inr 0"
| "initializeMultiplier (Augmented_Smooth_Absolute_Penalty c) = Inr 0"
| "initializeMultiplier (Slackness_Squared_Hinge_Penalty c) = Inr 0"
| "initializeMultiplier (Modified_Relaxed_Barrier_Penalty c) = Inr 1"
| "initializeMultiplier (Penalty_Base_Wrapper p) = soft_only p"

section \<open>Derivatives of piecewise functions\<close>

lemma eventually_gt_nhds: "a < h \<Longrightarrow> eventually (\<lambda>x. a < x) (nhds (h :: real))"
  using eventually_nhds_in_open[of "{a<..}" h] by simp

lemma eventually_lt_nhds: "h < a \<Longrightarrow> eventually (\<lambda>x. x < a) (nhds (h :: real))"
  using eventually_nhds_in_open[of "{..<a}" h] by simp

lemma DERIV_transform:
  assumes "eventually (\<lambda>x. k x = f x) (nhds h)" "(f has_real_derivative D) (at h)"
  shows "(k has_real_derivative D) (at h)"
  using DERIV_cong_ev[OF refl assms(1) refl] assms(2) by simp

lemma DERIV_glue:
  fixes a :: real
  assumes "\<And>x. a < x \<Longrightarrow> k x = f x" "\<And>x. x < a \<Longrightarrow> k x = g x" "k a = f a" "k a = g a"
    and "(f has_real_derivative D) (at a)" "(g has_real_derivative D) (at a)"
  shows "(k has_real_derivative D) (at a)"
proof -
  have l: "((\<lambda>y. (g y - g a) / (y - a)) \<longlongrightarrow> D) (at_left a)"
    using assms(6) by (simp add: has_field_derivative_iff filterlim_at_split)
  have r: "((\<lambda>y. (f y - f a) / (y - a)) \<longlongrightarrow> D) (at_right a)"
    using assms(5) by (simp add: has_field_derivative_iff filterlim_at_split)
  have "((\<lambda>y. (k y - k a) / (y - a)) \<longlongrightarrow> D) (at_left a)"
    by (rule Lim_transform_eventually[OF l]) (use assms(2,4) in \<open>simp add: eventually_at_filter\<close>)
  moreover have "((\<lambda>y. (k y - k a) / (y - a)) \<longlongrightarrow> D) (at_right a)"
    by (rule Lim_transform_eventually[OF r]) (use assms(1,3) in \<open>simp add: eventually_at_filter\<close>)
  ultimately show ?thesis by (simp add: has_field_derivative_iff filterlim_at_split)
qed

lemma DERIV_piecewise:
  fixes a :: real
  assumes "\<And>x. a < x \<Longrightarrow> k x = f x" "\<And>x. x < a \<Longrightarrow> k x = g x" "k a = f a" "k a = g a"
    and "a \<le> h \<Longrightarrow> (f has_real_derivative D) (at h)" "h \<le> a \<Longrightarrow> (g has_real_derivative D) (at h)"
  shows "(k has_real_derivative D) (at h)"
proof (cases a h rule: linorder_cases)
  case less
  then show ?thesis
    using DERIV_transform[OF eventually_mono[OF eventually_gt_nhds[OF less] assms(1)]] assms(5) by simp
next
  case equal
  have "(k has_real_derivative D) (at a)"
    by (rule DERIV_glue[where f = f and g = g]) (use assms equal in auto)
  then show ?thesis using equal by simp
next
  case greater
  then show ?thesis
    using DERIV_transform[OF eventually_mono[OF eventually_lt_nhds[OF greater] assms(2)]] assms(6) by simp
qed

subsection \<open>The relaxed barrier\<close>

lemma barrier_DERIV:
  assumes "0 < delta c"
  shows "(barrier_value c has_real_derivative barrier_derivative c h) (at h)"
proof (rule DERIV_piecewise[where a = "delta c" and f = "\<lambda>x. - mu c * ln x"
      and g = "\<lambda>x. mu c * (- ln (delta c) + 1 / 2 * ((x - 2 * delta c) / delta c) * ((x - 2 * delta c) / delta c) - 1 / 2)"])
  show "((\<lambda>x. - mu c * ln x) has_real_derivative barrier_derivative c h) (at h)" if "delta c \<le> h"
  proof -
    have h: "0 < h" using that assms by simp
    have "((\<lambda>x. - mu c * ln x) has_real_derivative - mu c * (1 / h)) (at h)"
      by (rule DERIV_cmult) (use h in \<open>simp add: DERIV_ln_divide\<close>)
    moreover have "- mu c * (1 / h) = barrier_derivative c h"
      using that assms by (auto simp: barrier_derivative_def field_simps)
    ultimately show ?thesis by simp
  qed
  show "((\<lambda>x. mu c * (- ln (delta c) + 1 / 2 * ((x - 2 * delta c) / delta c) * ((x - 2 * delta c) / delta c) - 1 / 2))
      has_real_derivative barrier_derivative c h) (at h)" if "h \<le> delta c"
    using that assms by (auto intro!: derivative_eq_intros simp: barrier_derivative_def field_simps)
qed (use assms in \<open>auto simp: barrier_value_def Let_def\<close>)

lemma barrier_DERIV2:
  assumes "0 < delta c"
  shows "(barrier_derivative c has_real_derivative barrier_second_derivative c h) (at h)"
proof (rule DERIV_piecewise[where a = "delta c" and f = "\<lambda>x. - mu c / x"
      and g = "\<lambda>x. mu c * ((x - 2 * delta c) / (delta c * delta c))"])
  show "((\<lambda>x. - mu c / x) has_real_derivative barrier_second_derivative c h) (at h)" if "delta c \<le> h"
    using that assms by (auto intro!: derivative_eq_intros simp: barrier_second_derivative_def field_simps)
  show "((\<lambda>x. mu c * ((x - 2 * delta c) / (delta c * delta c))) has_real_derivative barrier_second_derivative c h) (at h)"
    if "h \<le> delta c"
    using that assms by (auto intro!: derivative_eq_intros simp: barrier_second_derivative_def field_simps)
qed (use assms in \<open>auto simp: barrier_derivative_def\<close>)

text \<open>The quadratic branches of the two hinges, glued to a constant.\<close>

lemma hinge_DERIV:
  fixes a :: real
  assumes "\<And>x. x < a \<Longrightarrow> k x = m * (1 / 2) * (x - a) * (x - a) + b" "\<And>x. a \<le> x \<Longrightarrow> k x = b"
  shows "(k has_real_derivative (if h < a then m * (h - a) else 0)) (at h)"
proof (rule DERIV_piecewise[where a = a and f = "\<lambda>_. b" and g = "\<lambda>x. m * (1 / 2) * (x - a) * (x - a) + b"])
  show "((\<lambda>x. m * (1 / 2) * (x - a) * (x - a) + b) has_real_derivative (if h < a then m * (h - a) else 0)) (at h)" if "h \<le> a"
    using that by (auto intro!: derivative_eq_intros simp: field_simps)
  show "((\<lambda>_. b) has_real_derivative (if h < a then m * (h - a) else 0)) (at h)" if "a \<le> h"
    using that by simp
qed (use assms in auto)

lemma hinge_DERIV2:
  fixes a :: real
  assumes "\<And>x. x < a \<Longrightarrow> k x = m * (x - a)" "\<And>x. a \<le> x \<Longrightarrow> k x = 0" "h \<noteq> a"
  shows "(k has_real_derivative (if h < a then m else 0)) (at h)"
proof (cases "h < a")
  case True
  have "((\<lambda>x. m * (x - a)) has_real_derivative m) (at h)" by (auto intro!: derivative_eq_intros)
  with True show ?thesis
    using DERIV_transform[OF eventually_mono[OF eventually_lt_nhds[OF True] assms(1)]] by simp
next
  case False
  with assms(3) have a: "a < h" by simp
  have "((\<lambda>x. 0) has_real_derivative 0) (at h)" by simp
  with False show ?thesis
    using DERIV_transform[OF eventually_mono[OF eventually_gt_nhds[OF a], of "\<lambda>x. k x = 0"]] assms(2) by simp
qed

text \<open>The smooth absolute value \<open>sqrt (h^2 + r^2)\<close>.\<close>

lemma smooth_pos: "r \<noteq> 0 \<Longrightarrow> 0 < x * x + r * (r :: real)"
  by (metis add_nonneg_pos not_real_square_gt_zero zero_le_square)

lemma smooth_DERIV:
  assumes "r \<noteq> (0 :: real)"
  shows "((\<lambda>x. k * sqrt (x * x + r * r)) has_real_derivative k * h / sqrt (h * h + r * r)) (at h)"
  using smooth_pos[OF assms, of h] by (auto intro!: derivative_eq_intros simp: field_simps)

lemma powr_three_halves: "0 < (x :: real) \<Longrightarrow> x powr (3 / 2) = x * sqrt x"
  using powr_add[of x 1 "1 / 2"] by (simp add: powr_half_sqrt)

lemma smooth_DERIV2:
  assumes "r \<noteq> (0 :: real)"
  shows "((\<lambda>x. k * x / sqrt (x * x + r * r)) has_real_derivative k * (r * r) / ((h * h + r * r) powr (3 / 2))) (at h)"
proof -
  let ?q = "h * h + r * r"
  have q: "0 < ?q" "sqrt ?q * sqrt ?q = ?q" using smooth_pos[OF assms, of h] by simp_all
  have "((\<lambda>x. k * x / sqrt (x * x + r * r)) has_real_derivative
      (k * sqrt ?q - k * h * (h / sqrt ?q)) / (sqrt ?q * sqrt ?q)) (at h)"
    using q(1) smooth_DERIV[OF assms, of 1 h]
    by (auto intro!: derivative_eq_intros simp: field_simps)
  moreover have "(k * sqrt ?q - k * h * (h / sqrt ?q)) / (sqrt ?q * sqrt ?q) = k * (r * r) / (?q powr (3 / 2))"
  proof -
    have ne: "k * s - k * h * (h / s) = (k * (s * s) - k * h * h) / s" if "s \<noteq> 0" for s
      using that by (simp add: field_simps)
    have "k * sqrt ?q - k * h * (h / sqrt ?q) = (k * (sqrt ?q * sqrt ?q) - k * h * h) / sqrt ?q"
      by (rule ne) (use q(1) in auto)
    also have "\<dots> = k * (r * r) / sqrt ?q" unfolding q(2) by (simp add: algebra_simps)
    finally show ?thesis unfolding powr_three_halves[OF q(1)] q(2) using q(1) by (simp add: field_simps)
  qed
  ultimately show ?thesis by simp
qed

section \<open>Derivatives of the penalties\<close>

fun penalty_ok :: "penalty \<Rightarrow> bool" where
  "penalty_ok (Quadratic_Penalty k) = (0 \<le> k)"
| "penalty_ok (Relaxed_Barrier_Penalty c) = (0 \<le> mu c \<and> 0 < delta c)"
| "penalty_ok (Smooth_Absolute_Penalty c) = (0 \<le> scale c \<and> relaxation c \<noteq> 0)"
| "penalty_ok (Squared_Hinge_Penalty c) = (0 \<le> mu c)"
| "penalty_ok (Threshold_Relaxed_Barrier_Penalty c b) = (0 \<le> mu c \<and> 0 < delta c \<and> b = getRawValue c (activationThreshold c))"
| "penalty_ok (Double_Sided_Penalty lo up p) = penalty_ok p"

text \<open>The constraint values at which the penalty has no derivative, and at which its derivative has none.\<close>

fun kinks :: "penalty \<Rightarrow> scalar set" where
  "kinks (Threshold_Relaxed_Barrier_Penalty c b) = {activationThreshold c}"
| "kinks (Double_Sided_Penalty lo up p) = {h. h - lo \<in> kinks p \<or> up - h \<in> kinks p}"
| "kinks p = {}"

fun kinks2 :: "penalty \<Rightarrow> scalar set" where
  "kinks2 (Squared_Hinge_Penalty c) = {delta c}"
| "kinks2 (Threshold_Relaxed_Barrier_Penalty c b) = {activationThreshold c}"
| "kinks2 (Double_Sided_Penalty lo up p) = {h. h - lo \<in> kinks2 p \<or> up - h \<in> kinks2 p}"
| "kinks2 p = {}"

lemma threshold_DERIV:
  assumes "\<And>h. (f has_real_derivative f' h) (at h)" "h \<noteq> a"
  shows "((\<lambda>x. if a \<le> x then 0 else f x - b) has_real_derivative (if a \<le> h then 0 else f' h)) (at h)"
proof (cases "a \<le> h")
  case True
  with assms(2) have a: "a < h" by simp
  have "eventually (\<lambda>x. (if a \<le> x then 0 else f x - b) = 0) (nhds h)"
    by (rule eventually_mono[OF eventually_gt_nhds[OF a]]) simp
  from DERIV_transform[OF this, of 0] show ?thesis using True by simp
next
  case False
  then have a: "h < a" by simp
  have "eventually (\<lambda>x. (if a \<le> x then 0 else f x - b) = f x - b) (nhds h)"
    by (rule eventually_mono[OF eventually_lt_nhds[OF a]]) simp
  from DERIV_transform[OF this, of "f' h"] show ?thesis
    using False DERIV_diff[OF assms(1)[of h] DERIV_const[of b]] by simp
qed

lemma DERIV_shift_reflect:
  assumes "(f has_real_derivative d1) (at (h - lo))" "(f has_real_derivative d2) (at (up - h))"
  shows "((\<lambda>x. f (x - lo) + f (up - x)) has_real_derivative d1 - d2) (at h)"
    and "((\<lambda>x. f (x - lo) - f (up - x)) has_real_derivative d1 + d2) (at h)"
proof -
  have "((\<lambda>x. x - lo) has_real_derivative 1) (at h)" "((\<lambda>x. up - x) has_real_derivative - 1) (at h)"
    by (auto intro!: derivative_eq_intros)
  from DERIV_chain2[OF assms(1) this(1)] DERIV_chain2[OF assms(2) this(2)]
  have a: "((\<lambda>x. f (x - lo)) has_real_derivative d1) (at h)" and b: "((\<lambda>x. f (up - x)) has_real_derivative - d2) (at h)"
    by simp_all
  show "((\<lambda>x. f (x - lo) + f (up - x)) has_real_derivative d1 - d2) (at h)"
    using DERIV_add[OF a b] by simp
  show "((\<lambda>x. f (x - lo) - f (up - x)) has_real_derivative d1 + d2) (at h)"
    using DERIV_diff[OF a b] by simp
qed

lemma getDerivative_DERIV: "penalty_ok p \<Longrightarrow> h \<notin> kinks p \<Longrightarrow> (getValue p t has_real_derivative getDerivative p t h) (at h)"
proof (induction p arbitrary: h)
  case (Quadratic_Penalty k)
  then show ?case by (auto intro!: derivative_eq_intros)
next
  case (Relaxed_Barrier_Penalty c)
  then show ?case using barrier_DERIV[of c h] by simp
next
  case (Smooth_Absolute_Penalty c)
  then show ?case using smooth_DERIV[of "relaxation c" "scale c" h] by simp
next
  case (Squared_Hinge_Penalty c)
  show ?case unfolding getDerivative.simps
    by (rule hinge_DERIV[of "delta c" "getValue (Squared_Hinge_Penalty c) t" "mu c" 0 h]) (simp_all add: Let_def)
next
  case (Threshold_Relaxed_Barrier_Penalty c b)
  have v: "getValue (Threshold_Relaxed_Barrier_Penalty c b) t = (\<lambda>x. if activationThreshold c \<le> x then 0 else barrier_value c x - b)"
    by (rule ext) (simp add: getRawValue_def)
  from Threshold_Relaxed_Barrier_Penalty show ?case unfolding v getDerivative.simps getRawDerivative_def
    by (intro threshold_DERIV barrier_DERIV) simp_all
next
  case (Double_Sided_Penalty lo up p)
  from Double_Sided_Penalty.prems have "h - lo \<notin> kinks p" "up - h \<notin> kinks p" "penalty_ok p" by auto
  from DERIV_shift_reflect(1)[OF Double_Sided_Penalty.IH[OF this(3,1)] Double_Sided_Penalty.IH[OF this(3,2)]]
  show ?case by simp
qed

lemma getSecondDerivative_DERIV:
  "penalty_ok p \<Longrightarrow> h \<notin> kinks2 p \<Longrightarrow> (getDerivative p t has_real_derivative getSecondDerivative p t h) (at h)"
proof (induction p arbitrary: h)
  case (Quadratic_Penalty k)
  then show ?case by (auto intro!: derivative_eq_intros)
next
  case (Relaxed_Barrier_Penalty c)
  then show ?case using barrier_DERIV2[of c h] by simp
next
  case (Smooth_Absolute_Penalty c)
  then show ?case using smooth_DERIV2[of "relaxation c" "scale c" h] by (simp add: Let_def)
next
  case (Squared_Hinge_Penalty c)
  then show ?case unfolding getSecondDerivative.simps
    by (intro hinge_DERIV2[of "delta c" "getDerivative (Squared_Hinge_Penalty c) t" "mu c" h]) simp_all
next
  case (Threshold_Relaxed_Barrier_Penalty c b)
  have v: "getDerivative (Threshold_Relaxed_Barrier_Penalty c b) t = (\<lambda>x. if activationThreshold c \<le> x then 0 else barrier_derivative c x - 0)"
    by (rule ext) (simp add: getRawDerivative_def)
  from Threshold_Relaxed_Barrier_Penalty show ?case unfolding v getSecondDerivative.simps getRawSecondDerivative_def
    by (intro threshold_DERIV barrier_DERIV2) simp_all
next
  case (Double_Sided_Penalty lo up p)
  from Double_Sided_Penalty.prems have "h - lo \<notin> kinks2 p" "up - h \<notin> kinks2 p" "penalty_ok p" by auto
  from DERIV_shift_reflect(2)[OF Double_Sided_Penalty.IH[OF this(3,1)] Double_Sided_Penalty.IH[OF this(3,2)]]
  show ?case by simp
qed

lemma getSecondDerivative_nonneg: "penalty_ok p \<Longrightarrow> 0 \<le> getSecondDerivative p t h"
  by (induction p arbitrary: h)
    (auto simp: Let_def barrier_second_derivative_def getRawSecondDerivative_def)

lemma threshold_no_DERIV:
  assumes "0 < mu c" "0 < delta c" "b = getRawValue c (activationThreshold c)"
  shows "\<not> (getValue (Threshold_Relaxed_Barrier_Penalty c b) t has_real_derivative D) (at (activationThreshold c))"
proof
  let ?a = "activationThreshold c" and ?f = "getValue (Threshold_Relaxed_Barrier_Penalty c b) t"
  assume "(?f has_real_derivative D) (at ?a)"
  then have q: "((\<lambda>y. (?f y - ?f ?a) / (y - ?a)) \<longlongrightarrow> D) (at_left ?a)" "((\<lambda>y. (?f y - ?f ?a) / (y - ?a)) \<longlongrightarrow> D) (at_right ?a)"
    by (simp_all add: has_field_derivative_iff filterlim_at_split)
  have "((\<lambda>y. 0) \<longlongrightarrow> D) (at_right ?a)"
    by (rule Lim_transform_eventually[OF q(2)]) (simp add: eventually_at_filter)
  then have "D = 0" by (simp add: tendsto_const_iff)
  have "((\<lambda>y. (barrier_value c y - barrier_value c ?a) / (y - ?a)) \<longlongrightarrow> D) (at_left ?a)"
    by (rule Lim_transform_eventually[OF q(1)]) (simp add: eventually_at_filter assms(3) getRawValue_def)
  moreover have "((\<lambda>y. (barrier_value c y - barrier_value c ?a) / (y - ?a)) \<longlongrightarrow> barrier_derivative c ?a) (at_left ?a)"
    using barrier_DERIV[OF assms(2), of ?a] by (simp add: has_field_derivative_iff filterlim_at_split)
  ultimately have "barrier_derivative c ?a = 0" using tendsto_unique[OF trivial_limit_at_left_real] \<open>D = 0\<close> by blast
  moreover have "barrier_derivative c ?a < 0"
    using assms(1,2) by (auto simp: barrier_derivative_def mult_pos_neg divide_neg_pos)
  ultimately show False by simp
qed

section \<open>Derivatives of the augmented penalties\<close>

fun aug_ok :: "augmented_penalty \<Rightarrow> scalar \<Rightarrow> bool" where
  "aug_ok (Augmented_Quadratic_Penalty c) l = (0 \<le> a_scale c)"
| "aug_ok (Augmented_Smooth_Absolute_Penalty c) l = (0 \<le> a_scale c \<and> a_relaxation c \<noteq> 0)"
| "aug_ok (Slackness_Squared_Hinge_Penalty c) l = (0 < a_scale c)"
| "aug_ok (Modified_Relaxed_Barrier_Penalty c) l = (0 < a_scale c \<and> - 1 < a_relaxation c \<and> 0 < l)"
| "aug_ok (Penalty_Base_Wrapper p) l = penalty_ok p"

fun a_kinks :: "augmented_penalty \<Rightarrow> scalar set" where
  "a_kinks (Penalty_Base_Wrapper p) = kinks p"
| "a_kinks p = {}"

lemma modified_barrier_DERIV:
  assumes "- 1 < r"
  shows "((\<lambda>v. if r < v then - ln (1 + v) else 1 / 2 * (1 / (1 + r) ^ 2) * (v - r) * (v - r) + (- 1 / (1 + r)) * (v - r) + - ln (1 + r))
      has_real_derivative (if r < v then - 1 / (1 + v) else (1 / (1 + r) ^ 2) * (v - r) + (- 1 / (1 + r)))) (at v)"
proof (rule DERIV_piecewise[where a = r and f = "\<lambda>v. - ln (1 + v)"
      and g = "\<lambda>v. 1 / 2 * (1 / (1 + r) ^ 2) * (v - r) * (v - r) + (- 1 / (1 + r)) * (v - r) + - ln (1 + r)"])
  let ?d = "if r < v then - 1 / (1 + v) else (1 / (1 + r) ^ 2) * (v - r) + (- 1 / (1 + r))"
  show "((\<lambda>v. - ln (1 + v)) has_real_derivative ?d) (at v)" if "r \<le> v"
    using that assms by (auto intro!: derivative_eq_intros simp: field_simps)
  show "((\<lambda>v. 1 / 2 * (1 / (1 + r) ^ 2) * (v - r) * (v - r) + (- 1 / (1 + r)) * (v - r) + - ln (1 + r)) has_real_derivative ?d) (at v)"
    if "v \<le> r"
  proof -
    have q: "((\<lambda>v. 1 / 2 * A * (v - r) * (v - r) + B * (v - r) + C) has_real_derivative A * (v - r) + B) (at v)" for A B C :: real
      by (auto intro!: derivative_eq_intros simp: field_simps)
    show ?thesis using q[of "1 / (1 + r) ^ 2" "- 1 / (1 + r)" "- ln (1 + r)"] that by simp
  qed
qed auto

lemma modified_getValue_DERIV:
  assumes "aug_ok (Modified_Relaxed_Barrier_Penalty c) l"
  shows "(a_getValue (Modified_Relaxed_Barrier_Penalty c) t l has_real_derivative
           a_getDerivative (Modified_Relaxed_Barrier_Penalty c) t l h) (at h)"
proof -
  let ?r = "a_relaxation c"
  let ?psi = "\<lambda>v. if ?r < v then - ln (1 + v) else 1 / 2 * (1 / (1 + ?r) ^ 2) * (v - ?r) * (v - ?r) + (- 1 / (1 + ?r)) * (v - ?r) + - ln (1 + ?r)"
  let ?psi' = "\<lambda>v. if ?r < v then - 1 / (1 + v) else (1 / (1 + ?r) ^ 2) * (v - ?r) + (- 1 / (1 + ?r))"
  have v: "(vFunc c l has_real_derivative dvdhFunc c l) (at h)"
    unfolding vFunc_def[abs_def] dvdhFunc_def using assms by (auto intro!: derivative_eq_intros)
  have "((\<lambda>x. ?psi (vFunc c l x)) has_real_derivative ?psi' (vFunc c l h) * dvdhFunc c l) (at h)"
    by (rule DERIV_chain2[OF modified_barrier_DERIV v]) (use assms in simp)
  from DERIV_cmult[OF this, of "wFunc c l"]
  have "((\<lambda>x. wFunc c l * ?psi (vFunc c l x)) has_real_derivative wFunc c l * (?psi' (vFunc c l h) * dvdhFunc c l)) (at h)" .
  note D = this
  have e: "(\<lambda>x. wFunc c l * ?psi (vFunc c l x)) = a_getValue (Modified_Relaxed_Barrier_Penalty c) t l"
    by (rule ext) (simp add: Let_def quadCoeff_def)
  have e': "wFunc c l * (?psi' (vFunc c l h) * dvdhFunc c l) = a_getDerivative (Modified_Relaxed_Barrier_Penalty c) t l h"
    by (simp add: Let_def quadCoeff_def)
  show ?thesis using D unfolding e e' .
qed

lemma a_getDerivative_DERIV:
  "aug_ok p l \<Longrightarrow> h \<notin> a_kinks p \<Longrightarrow> (a_getValue p t l has_real_derivative a_getDerivative p t l h) (at h)"
proof (cases p)
  case (Augmented_Quadratic_Penalty c)
  then have "a_getValue p t l = (\<lambda>h. - l * h + 1 / 2 * a_scale c * h * h)" by (intro ext) simp
  then show ?thesis by (auto intro!: derivative_eq_intros simp: Augmented_Quadratic_Penalty)
next
  case (Augmented_Smooth_Absolute_Penalty c)
  assume "aug_ok p l"
  moreover have "a_getValue p t l = (\<lambda>h. - l * h + a_scale c * sqrt (h * h + a_relaxation c * a_relaxation c))"
    using Augmented_Smooth_Absolute_Penalty by (intro ext) simp
  ultimately show ?thesis using Augmented_Smooth_Absolute_Penalty
    using DERIV_add[OF DERIV_cmult[OF DERIV_ident, of "- l"] smooth_DERIV[of "a_relaxation c" "a_scale c" h]] by simp
next
  case (Slackness_Squared_Hinge_Penalty c)
  assume "aug_ok p l"
  with Slackness_Squared_Hinge_Penalty have k: "0 < a_scale c" by simp
  have "(a_getValue p t l has_real_derivative (if h < l / a_scale c then a_scale c * (h - l / a_scale c) else 0)) (at h)"
    by (rule hinge_DERIV[where m = "a_scale c" and b = "- (1 / 2) * l * l / a_scale c"])
      (use k in \<open>auto simp: Slackness_Squared_Hinge_Penalty field_simps\<close>)
  moreover have "(if h < l / a_scale c then a_scale c * (h - l / a_scale c) else 0) = a_getDerivative p t l h"
    using k by (auto simp: Slackness_Squared_Hinge_Penalty field_simps)
  ultimately show ?thesis by simp
next
  case (Modified_Relaxed_Barrier_Penalty c)
  assume "aug_ok p l"
  then show ?thesis using modified_getValue_DERIV Modified_Relaxed_Barrier_Penalty by blast
next
  case (Penalty_Base_Wrapper q)
  then have "a_getValue p t l = getValue q t" by (intro ext) simp
  moreover assume "aug_ok p l" "h \<notin> a_kinks p"
  ultimately show ?thesis using Penalty_Base_Wrapper getDerivative_DERIV[of q h t] by simp
qed

lemma a_getSecondDerivative_nonneg: "aug_ok p l \<Longrightarrow> 0 \<le> a_getSecondDerivative p t l h"
  by (cases p) (auto simp: Let_def quadCoeff_def wFunc_def dvdhFunc_def getSecondDerivative_nonneg)

text \<open>Where the first derivative has a kink: at the end of a hinge and where the modified barrier turns quadratic with another curvature.\<close>

fun a_kinks2 :: "augmented_penalty \<Rightarrow> scalar \<Rightarrow> scalar set" where
  "a_kinks2 (Slackness_Squared_Hinge_Penalty c) l = {l / a_scale c}"
| "a_kinks2 (Penalty_Base_Wrapper p) l = kinks2 p"
| "a_kinks2 p l = {}"

lemma modified_barrier_DERIV2:
  assumes "- 1 < r"
  shows "((\<lambda>v. if r < v then - 1 / (1 + v) else (1 / (1 + r) ^ 2) * (v - r) + (- 1 / (1 + r)))
      has_real_derivative (if r < v then 1 / ((1 + v) * (1 + v)) else 1 / (1 + r) ^ 2)) (at v)"
proof (rule DERIV_piecewise[where a = r and f = "\<lambda>v. - 1 / (1 + v)" and g = "\<lambda>v. (1 / (1 + r) ^ 2) * (v - r) + (- 1 / (1 + r))"])
  let ?d = "if r < v then 1 / ((1 + v) * (1 + v)) else 1 / (1 + r) ^ 2"
  show "((\<lambda>v. - 1 / (1 + v)) has_real_derivative ?d) (at v)" if "r \<le> v"
    using that assms by (auto intro!: derivative_eq_intros simp: power2_eq_square)
  show "((\<lambda>v. (1 / (1 + r) ^ 2) * (v - r) + (- 1 / (1 + r))) has_real_derivative ?d) (at v)" if "v \<le> r"
  proof -
    have "((\<lambda>v. A * (v - r) + B) has_real_derivative A) (at v)" for A B :: real by (auto intro!: derivative_eq_intros)
    from this[of "1 / (1 + r) ^ 2" "- 1 / (1 + r)"] that show ?thesis by simp
  qed
qed auto

lemma modified_getDerivative_DERIV:
  assumes "aug_ok (Modified_Relaxed_Barrier_Penalty c) l"
  shows "(a_getDerivative (Modified_Relaxed_Barrier_Penalty c) t l has_real_derivative
           a_getSecondDerivative (Modified_Relaxed_Barrier_Penalty c) t l h) (at h)"
proof -
  let ?r = "a_relaxation c" and ?w = "wFunc c l" and ?b = "dvdhFunc c l"
  let ?psi = "\<lambda>v. if ?r < v then - 1 / (1 + v) else (1 / (1 + ?r) ^ 2) * (v - ?r) + (- 1 / (1 + ?r))"
  let ?psi' = "\<lambda>v. if ?r < v then 1 / ((1 + v) * (1 + v)) else 1 / (1 + ?r) ^ 2"
  have v: "(vFunc c l has_real_derivative ?b) (at h)"
    unfolding vFunc_def[abs_def] dvdhFunc_def using assms by (auto intro!: derivative_eq_intros)
  have "((\<lambda>x. ?psi (vFunc c l x)) has_real_derivative ?psi' (vFunc c l h) * ?b) (at h)"
    by (rule DERIV_chain2[OF modified_barrier_DERIV2 v]) (use assms in simp)
  from DERIV_cmult[OF this, of "?w * ?b"]
  have D: "((\<lambda>x. ?w * ?b * ?psi (vFunc c l x)) has_real_derivative ?w * ?b * (?psi' (vFunc c l h) * ?b)) (at h)" .
  have e: "(\<lambda>x. ?w * ?b * ?psi (vFunc c l x)) = a_getDerivative (Modified_Relaxed_Barrier_Penalty c) t l"
    by (rule ext) (simp add: Let_def quadCoeff_def)
  have e': "?w * ?b * (?psi' (vFunc c l h) * ?b) = a_getSecondDerivative (Modified_Relaxed_Barrier_Penalty c) t l h"
    by (simp add: Let_def quadCoeff_def)
  show ?thesis using D unfolding e e' .
qed

lemma a_getSecondDerivative_DERIV:
  "aug_ok p l \<Longrightarrow> h \<notin> a_kinks2 p l \<Longrightarrow> (a_getDerivative p t l has_real_derivative a_getSecondDerivative p t l h) (at h)"
proof (cases p)
  case (Augmented_Quadratic_Penalty c)
  then have "a_getDerivative p t l = (\<lambda>h. - l + a_scale c * h)" by (intro ext) simp
  then show ?thesis by (auto intro!: derivative_eq_intros simp: Augmented_Quadratic_Penalty)
next
  case (Augmented_Smooth_Absolute_Penalty c)
  assume "aug_ok p l"
  moreover have "a_getDerivative p t l = (\<lambda>h. - l + a_scale c * h / sqrt (h * h + a_relaxation c * a_relaxation c))"
    using Augmented_Smooth_Absolute_Penalty by (intro ext) simp
  ultimately show ?thesis using Augmented_Smooth_Absolute_Penalty
    using DERIV_add[OF DERIV_const[of "- l"] smooth_DERIV2[of "a_relaxation c" "a_scale c" h]] by (simp add: Let_def)
next
  case (Slackness_Squared_Hinge_Penalty c)
  assume p: "aug_ok p l" "h \<notin> a_kinks2 p l"
  have "(a_getDerivative p t l has_real_derivative (if h < l / a_scale c then a_scale c else 0)) (at h)"
    by (rule hinge_DERIV2) (use p in \<open>auto simp: Slackness_Squared_Hinge_Penalty field_simps\<close>)
  then show ?thesis by (simp add: Slackness_Squared_Hinge_Penalty)
next
  case (Modified_Relaxed_Barrier_Penalty c)
  assume "aug_ok p l"
  then show ?thesis using modified_getDerivative_DERIV Modified_Relaxed_Barrier_Penalty by blast
next
  case (Penalty_Base_Wrapper q)
  then have "a_getDerivative p t l = getDerivative q t" by (intro ext) simp
  moreover assume "aug_ok p l" "h \<notin> a_kinks2 p l"
  ultimately show ?thesis using Penalty_Base_Wrapper getSecondDerivative_DERIV[of q h t] by simp
qed

section \<open>Multiplier updates\<close>

text \<open>The multipliers an augmented penalty can hold.\<close>

fun admissible :: "augmented_penalty \<Rightarrow> scalar \<Rightarrow> bool" where
  "admissible (Augmented_Quadratic_Penalty c) l = True"
| "admissible (Augmented_Smooth_Absolute_Penalty c) l = True"
| "admissible (Slackness_Squared_Hinge_Penalty c) l = (0 \<le> l)"
| "admissible (Modified_Relaxed_Barrier_Penalty c) l = (lambdaMin \<le> l)"
| "admissible (Penalty_Base_Wrapper p) l = False"

fun soft :: "augmented_penalty \<Rightarrow> bool" where
  "soft (Penalty_Base_Wrapper p) = True"
| "soft p = False"

lemma initializeMultiplier_admissible: "\<not> soft p \<Longrightarrow> \<exists>l. initializeMultiplier p = Inr l \<and> admissible p l"
  by (cases p) (auto simp: lambdaMin_def)

lemma updateMultiplier_admissible: "\<not> soft p \<Longrightarrow> \<exists>l'. updateMultiplier p t l h = Inr l' \<and> admissible p l'"
  by (cases p) (auto simp: Let_def quadCoeff_def)

text \<open>The step of the method of multipliers: a fraction \<open>a\<close> of the way to the negative derivative.\<close>

definition dual_step :: "scalar \<Rightarrow> augmented_penalty \<Rightarrow> scalar \<Rightarrow> scalar \<Rightarrow> scalar \<Rightarrow> scalar" where
  "dual_step a p t l h = (1 - a) * l + a * (- a_getDerivative p t l h)"

lemma quadratic_dual_step:
  "updateMultiplier (Augmented_Quadratic_Penalty c) t l h = Inr (dual_step (a_stepSize c) (Augmented_Quadratic_Penalty c) t l h)"
  by (simp add: dual_step_def algebra_simps)

lemma slackness_dual_step:
  assumes "0 < a_scale c" "0 \<le> a_stepSize c" "a_stepSize c \<le> 1" "0 \<le> l"
  shows "updateMultiplier (Slackness_Squared_Hinge_Penalty c) t l h =
           Inr (dual_step (a_stepSize c) (Slackness_Squared_Hinge_Penalty c) t l h)"
proof -
  let ?a = "a_stepSize c" and ?k = "a_scale c"
  have nn: "0 \<le> (1 - ?a) * l" using assms by simp
  show ?thesis
  proof (cases "h < l / ?k")
    case True
    then have "?k * h \<le> l" using assms(1) by (simp add: field_simps)
    then have "?a * (?k * h) \<le> ?a * l" using assms(2) by (rule mult_left_mono)
    then have "(1 - ?a) * l \<le> l - ?a * ?k * h" by (simp add: algebra_simps)
    with nn True show ?thesis by (simp add: dual_step_def algebra_simps max_def)
  next
    case False
    then have "l \<le> ?k * h" using assms(1) by (simp add: field_simps)
    then have "?a * l \<le> ?a * (?k * h)" using assms(2) by (rule mult_left_mono)
    then have "l - ?a * ?k * h \<le> (1 - ?a) * l" by (simp add: algebra_simps)
    with nn False show ?thesis by (simp add: dual_step_def max_def)
  qed
qed

lemma modified_update:
  assumes "0 < l" "0 < a_scale c"
  shows "updateMultiplier (Modified_Relaxed_Barrier_Penalty c) t l h =
           Inr (max lambdaMin ((if a_relaxation c < vFunc c l h then 1 else a_stepSize c) *
                  (- a_getDerivative (Modified_Relaxed_Barrier_Penalty c) t l h)))"
  by (simp add: Let_def quadCoeff_def algebra_simps)

section \<open>Properties\<close>

text \<open>
  C14. The derivatives of the penalties: for a penalty of any class with a valid configuration,
  \<open>getDerivative\<close> is the derivative of \<open>getValue\<close> at every constraint value outside \<open>kinks\<close> (empty unless a
  threshold penalty is inside), across the point where the relaxed barrier turns quadratic too; the second
  derivative is the derivative of the first outside \<open>kinks2\<close>, and is never negative (convexity).
\<close>

theorem penalty_derivatives_correct:
  assumes "penalty_ok p"
  shows "(h \<notin> kinks p \<longrightarrow> (getValue p t has_real_derivative getDerivative p t h) (at h)) \<and>
         (h \<notin> kinks2 p \<longrightarrow> (getDerivative p t has_real_derivative getSecondDerivative p t h) (at h)) \<and>
         0 \<le> getSecondDerivative p t h"
  using getDerivative_DERIV[OF assms, of h t] getSecondDerivative_DERIV[OF assms, of h t]
    getSecondDerivative_nonneg[OF assms, of t h] by blast

theorem penalty_derivatives_correct_witness:
  "penalty_ok (Double_Sided_Penalty (- 1) 1 (Relaxed_Barrier_Penalty default_RelaxedBarrier_Config)) \<and>
   (getValue (Double_Sided_Penalty (- 1) 1 (Relaxed_Barrier_Penalty default_RelaxedBarrier_Config)) 0 has_real_derivative
      getDerivative (Double_Sided_Penalty (- 1) 1 (Relaxed_Barrier_Penalty default_RelaxedBarrier_Config)) 0 (1 / 2)) (at (1 / 2)) \<and>
   getDerivative (Double_Sided_Penalty (- 1) 1 (Relaxed_Barrier_Penalty default_RelaxedBarrier_Config)) 0 (1 / 2) = 4 / 3"
proof -
  let ?p = "Double_Sided_Penalty (- 1) 1 (Relaxed_Barrier_Penalty default_RelaxedBarrier_Config)"
  have ok: "penalty_ok ?p" by (simp add: default_RelaxedBarrier_Config_def)
  have "getDerivative ?p 0 (1 / 2) = 4 / 3" by (simp add: default_RelaxedBarrier_Config_def barrier_derivative_def)
  moreover have "(1 / 2 :: scalar) \<notin> kinks ?p" by simp
  from mp[OF conjunct1[OF penalty_derivatives_correct[OF ok, of "1 / 2" 0]] this]
  have "(getValue ?p 0 has_real_derivative getDerivative ?p 0 (1 / 2)) (at (1 / 2))" .
  ultimately show ?thesis using ok by (intro conjI)
qed

text \<open>
  The threshold barrier is not C1 at its activation threshold: with a positive weight and relaxation it
  has no derivative there, whatever \<open>getDerivative\<close> returns, although its value is continuous (0 there).
\<close>

theorem threshold_barrier_not_smooth:
  assumes "0 < mu c" "0 < delta c"
  shows "\<not> (\<exists>D. (getValue (ThresholdRelaxedBarrierPenalty c) t has_real_derivative D) (at (activationThreshold c))) \<and>
         (getValue (ThresholdRelaxedBarrierPenalty c) t \<longlongrightarrow> getValue (ThresholdRelaxedBarrierPenalty c) t (activationThreshold c))
           (at (activationThreshold c))"
proof -
  let ?a = "activationThreshold c" and ?f = "getValue (ThresholdRelaxedBarrierPenalty c) t"
  have "(barrier_value c \<longlongrightarrow> barrier_value c ?a) (at_left ?a)"
    using DERIV_isCont[OF barrier_DERIV[OF assms(2), of ?a]] by (simp add: isCont_def filterlim_at_split)
  from tendsto_diff[OF this tendsto_const[of "barrier_value c ?a"]]
  have l: "((\<lambda>x. barrier_value c x - barrier_value c ?a) \<longlongrightarrow> 0) (at_left ?a)" by simp
  have "(?f \<longlongrightarrow> 0) (at_left ?a)"
    by (rule Lim_transform_eventually[OF l])
      (simp add: eventually_at_filter ThresholdRelaxedBarrierPenalty_def getRawValue_def)
  moreover have "(?f \<longlongrightarrow> 0) (at_right ?a)"
    by (rule Lim_transform_eventually[OF tendsto_const[of 0]])
      (simp add: eventually_at_filter ThresholdRelaxedBarrierPenalty_def)
  ultimately have "(?f \<longlongrightarrow> ?f ?a) (at ?a)" by (simp add: filterlim_at_split ThresholdRelaxedBarrierPenalty_def)
  moreover have "\<not> (?f has_real_derivative D) (at ?a)" for D
    unfolding ThresholdRelaxedBarrierPenalty_def by (rule threshold_no_DERIV) (simp_all add: assms)
  ultimately show ?thesis by blast
qed

theorem threshold_barrier_not_smooth_witness:
  "\<not> (\<exists>D. (getValue (ThresholdRelaxedBarrierPenalty default_ThresholdRelaxedBarrier_Config) 0 has_real_derivative D) (at (5 / 10 ^ 2)))"
  using threshold_barrier_not_smooth[of default_ThresholdRelaxedBarrier_Config 0]
  by (simp add: default_ThresholdRelaxedBarrier_Config_def)

text \<open>
  The multiplier updates are steps of the method of multipliers: for the quadratic and the slackness
  penalty the update goes the fraction \<open>stepSize\<close> of the way from the multiplier to the negative derivative
  of the augmented penalty. The modified barrier uses its step size in the relaxed branch only: outside it
  every step size gives the full step.
\<close>

theorem multiplier_updates:
  assumes "0 < a_scale c" "0 \<le> a_stepSize c" "a_stepSize c \<le> 1" "0 \<le> l" "0 < a_scale d" "0 < m"
  shows "updateMultiplier (Augmented_Quadratic_Penalty c) t l h = Inr (dual_step (a_stepSize c) (Augmented_Quadratic_Penalty c) t l h) \<and>
         updateMultiplier (Slackness_Squared_Hinge_Penalty c) t l h = Inr (dual_step (a_stepSize c) (Slackness_Squared_Hinge_Penalty c) t l h) \<and>
         updateMultiplier (Modified_Relaxed_Barrier_Penalty d) t m h =
           Inr (max lambdaMin ((if a_relaxation d < vFunc d m h then 1 else a_stepSize d) *
                  (- a_getDerivative (Modified_Relaxed_Barrier_Penalty d) t m h)))"
  using quadratic_dual_step slackness_dual_step[OF assms(1-4)] modified_update[OF assms(6,5)] by simp

theorem multiplier_updates_witness:
  "updateMultiplier (Slackness_Squared_Hinge_Penalty \<lparr>a_scale = 10, a_stepSize = 1 / 2\<rparr>) 0 4 (1 / 5) =
     Inr (dual_step (1 / 2) (Slackness_Squared_Hinge_Penalty \<lparr>a_scale = 10, a_stepSize = 1 / 2\<rparr>) 0 4 (1 / 5)) \<and>
   dual_step (1 / 2) (Slackness_Squared_Hinge_Penalty \<lparr>a_scale = 10, a_stepSize = 1 / 2\<rparr>) 0 4 (1 / 5) = 3"
  using multiplier_updates[of "\<lparr>a_scale = 10, a_stepSize = 1 / 2\<rparr>" 4 default_ModifiedRelaxedBarrier_Config 1 0 "1 / 5"]
  by (simp add: default_ModifiedRelaxedBarrier_Config_def dual_step_def)

end
