(* ===== verification/Eigen_Algebra.thy ===== *)
theory Eigen_Algebra
  imports Ocs2_Prelude
begin

text \<open>
  Dynamic matrices and vectors in the style of Eigen: a matrix knows its number of rows and columns (so
  that an empty matrix keeps the other dimension), and every product, sum and dot product asserts that
  the dimensions fit. The pure operations (\<open>mm\<close>, \<open>mv\<close>, \<open>tr\<close>, \<open>dot\<close>, \<dots>) carry the algebra, the checked ones
  (\<open>mat_mult\<close>, \<open>mat_vmult\<close>, \<dots>) are what the models of the code use.
\<close>

section \<open>Matrices\<close>

datatype dmatrix = Mat (m_rows: nat) (m_cols: nat) (m_data: "scalar list list")

definition mk_mat :: "nat \<Rightarrow> nat \<Rightarrow> (nat \<Rightarrow> nat \<Rightarrow> scalar) \<Rightarrow> dmatrix" where
  "mk_mat r c f = Mat r c (map (\<lambda>i. map (f i) [0 ..< c]) [0 ..< r])"

definition m_at :: "dmatrix \<Rightarrow> nat \<Rightarrow> nat \<Rightarrow> scalar" where
  "m_at A i j = m_data A ! i ! j"

definition m_size :: "dmatrix \<Rightarrow> nat" where
  "m_size A = m_rows A * m_cols A"

definition mat_wf :: "dmatrix \<Rightarrow> bool" where
  "mat_wf A = (length (m_data A) = m_rows A \<and> (\<forall>r \<in> set (m_data A). length r = m_cols A))"

definition empty_mat :: dmatrix where
  "empty_mat = Mat 0 0 []"

definition zero_mat :: "nat \<Rightarrow> nat \<Rightarrow> dmatrix" where
  "zero_mat r c = mk_mat r c (\<lambda>_ _. 0)"

definition zero_vec :: "nat \<Rightarrow> vector_t" where
  "zero_vec n = replicate n 0"

definition tr :: "dmatrix \<Rightarrow> dmatrix" where
  "tr A = mk_mat (m_cols A) (m_rows A) (\<lambda>i j. m_at A j i)"

definition mscale :: "scalar \<Rightarrow> dmatrix \<Rightarrow> dmatrix" where
  "mscale c A = mk_mat (m_rows A) (m_cols A) (\<lambda>i j. m_at A i j * c)"

definition madd :: "dmatrix \<Rightarrow> dmatrix \<Rightarrow> dmatrix" where
  "madd A B = mk_mat (m_rows A) (m_cols A) (\<lambda>i j. m_at A i j + m_at B i j)"

definition mm :: "dmatrix \<Rightarrow> dmatrix \<Rightarrow> dmatrix" where
  "mm A B = mk_mat (m_rows A) (m_cols B) (\<lambda>i j. \<Sum>k < m_cols A. m_at A i k * m_at B k j)"

definition mv :: "dmatrix \<Rightarrow> vector_t \<Rightarrow> vector_t" where
  "mv A v = map (\<lambda>i. \<Sum>j < m_cols A. m_at A i j * v ! j) [0 ..< m_rows A]"

text \<open>\<open>d.asDiagonal() * A\<close>.\<close>

definition diag_mm :: "vector_t \<Rightarrow> dmatrix \<Rightarrow> dmatrix" where
  "diag_mm d A = mk_mat (m_rows A) (m_cols A) (\<lambda>i j. d ! i * m_at A i j)"

definition dot :: "vector_t \<Rightarrow> vector_t \<Rightarrow> scalar" where
  "dot u v = (\<Sum>i < length u. u ! i * v ! i)"

definition vadd :: "vector_t \<Rightarrow> vector_t \<Rightarrow> vector_t" where
  "vadd u v = map (\<lambda>i. u ! i + v ! i) [0 ..< length u]"

definition vscale :: "scalar \<Rightarrow> vector_t \<Rightarrow> vector_t" where
  "vscale c v = map (\<lambda>x. x * c) v"

definition vneg :: "vector_t \<Rightarrow> vector_t" where
  "vneg v = map uminus v"

definition mneg :: "dmatrix \<Rightarrow> dmatrix" where
  "mneg A = mk_mat (m_rows A) (m_cols A) (\<lambda>i j. - m_at A i j)"

section \<open>Checked operations\<close>

definition mat_add :: "dmatrix \<Rightarrow> dmatrix \<Rightarrow> dmatrix result" where
  "mat_add A B = (if m_rows A = m_rows B \<and> m_cols A = m_cols B then Inr (madd A B) else Inl Assertion_Failed)"

definition mat_mult :: "dmatrix \<Rightarrow> dmatrix \<Rightarrow> dmatrix result" where
  "mat_mult A B = (if m_cols A = m_rows B then Inr (mm A B) else Inl Assertion_Failed)"

definition mat_vmult :: "dmatrix \<Rightarrow> vector_t \<Rightarrow> vector_t result" where
  "mat_vmult A v = (if m_cols A = length v then Inr (mv A v) else Inl Assertion_Failed)"

definition diag_mult :: "vector_t \<Rightarrow> dmatrix \<Rightarrow> dmatrix result" where
  "diag_mult d A = (if length d = m_rows A then Inr (diag_mm d A) else Inl Assertion_Failed)"

definition vec_add :: "vector_t \<Rightarrow> vector_t \<Rightarrow> vector_t result" where
  "vec_add u v = (if length u = length v then Inr (vadd u v) else Inl Assertion_Failed)"

definition vec_dot :: "vector_t \<Rightarrow> vector_t \<Rightarrow> scalar result" where
  "vec_dot u v = (if length u = length v then Inr (dot u v) else Inl Assertion_Failed)"

section \<open>Dimensions and entries\<close>

named_theorems mat_dims \<open>dimensions of the results of the matrix operations\<close>

lemma mk_mat_dims [simp, mat_dims]: "m_rows (mk_mat r c f) = r" "m_cols (mk_mat r c f) = c"
  by (simp_all add: mk_mat_def)

lemma mk_mat_at [simp]: "i < r \<Longrightarrow> j < c \<Longrightarrow> m_at (mk_mat r c f) i j = f i j"
  by (simp add: mk_mat_def m_at_def)

lemma mat_wf_mk_mat [simp]: "mat_wf (mk_mat r c f)"
  by (simp add: mat_wf_def mk_mat_def)

lemma mat_dims_ops [simp, mat_dims]:
  "m_rows (zero_mat r c) = r" "m_cols (zero_mat r c) = c" "m_rows (tr A) = m_cols A" "m_cols (tr A) = m_rows A"
  "m_rows (mscale k A) = m_rows A" "m_cols (mscale k A) = m_cols A" "m_rows (madd A B) = m_rows A" "m_cols (madd A B) = m_cols A"
  "m_rows (mm A B) = m_rows A" "m_cols (mm A B) = m_cols B" "m_rows (diag_mm d A) = m_rows A" "m_cols (diag_mm d A) = m_cols A"
  "m_rows (mneg A) = m_rows A" "m_cols (mneg A) = m_cols A" "m_rows empty_mat = 0" "m_cols empty_mat = 0"
  by (simp_all add: zero_mat_def tr_def mscale_def madd_def mm_def diag_mm_def mneg_def empty_mat_def)

lemma vec_dims_ops [simp, mat_dims]:
  "length (mv A v) = m_rows A" "length (vadd u v) = length u" "length (vscale k v) = length v" "length (vneg v) = length v"
  "length (zero_vec n) = n"
  by (simp_all add: mv_def vadd_def vscale_def vneg_def zero_vec_def)

lemma mat_wf_ops [simp]:
  "mat_wf (zero_mat r c)" "mat_wf (tr A)" "mat_wf (mscale k A)" "mat_wf (madd A B)" "mat_wf (mm A B)" "mat_wf (diag_mm d A)"
  "mat_wf (mneg A)" "mat_wf empty_mat"
  by (simp_all add: zero_mat_def tr_def mscale_def madd_def mm_def diag_mm_def mneg_def empty_mat_def mat_wf_def[of "Mat 0 0 []"])

lemma mat_eqI:
  assumes "mat_wf A" "mat_wf B" "m_rows A = m_rows B" "m_cols A = m_cols B"
    and "\<And>i j. i < m_rows A \<Longrightarrow> j < m_cols A \<Longrightarrow> m_at A i j = m_at B i j"
  shows "A = B"
proof -
  have "m_data A = m_data B"
    using assms by (intro nth_equalityI) (auto simp: mat_wf_def m_at_def)
  with assms(3,4) show ?thesis by (cases A, cases B) simp
qed

lemma mv_nth [simp]: "i < m_rows A \<Longrightarrow> mv A v ! i = (\<Sum>j < m_cols A. m_at A i j * v ! j)"
  by (simp add: mv_def)

lemma vadd_nth [simp]: "i < length u \<Longrightarrow> vadd u v ! i = u ! i + v ! i"
  by (simp add: vadd_def)

lemma vscale_nth [simp]: "i < length u \<Longrightarrow> vscale k u ! i = u ! i * k"
  by (simp add: vscale_def)

lemma vneg_nth [simp]: "i < length u \<Longrightarrow> vneg u ! i = - u ! i"
  by (simp add: vneg_def)

lemma tr_at [simp]: "i < m_cols A \<Longrightarrow> j < m_rows A \<Longrightarrow> m_at (tr A) i j = m_at A j i"
  by (simp add: tr_def)

lemma mat_checked [result_simps]:
  "m_rows A = m_rows B \<Longrightarrow> m_cols A = m_cols B \<Longrightarrow> mat_add A B = Inr (madd A B)"
  "m_cols A = m_rows B \<Longrightarrow> mat_mult A B = Inr (mm A B)"
  "m_cols A = length v \<Longrightarrow> mat_vmult A v = Inr (mv A v)"
  "length d = m_rows A \<Longrightarrow> diag_mult d A = Inr (diag_mm d A)"
  "length u = length v \<Longrightarrow> vec_add u v = Inr (vadd u v)"
  "length u = length v \<Longrightarrow> vec_dot u v = Inr (dot u v)"
  by (simp_all add: mat_add_def mat_mult_def mat_vmult_def diag_mult_def vec_add_def vec_dot_def)

section \<open>Algebra\<close>

lemma dot_comm: "length u = length v \<Longrightarrow> dot u v = dot v u"
  by (simp add: dot_def mult.commute)

lemma dot_vadd_left: "length u = length v \<Longrightarrow> dot (vadd u v) w = dot u w + dot v w"
  by (simp add: dot_def sum.distrib algebra_simps)

lemma dot_vadd_right: "length u = length v \<Longrightarrow> length u = length w \<Longrightarrow> dot w (vadd u v) = dot w u + dot w v"
  by (simp add: dot_def sum.distrib algebra_simps)

lemma dot_vscale_left: "dot (vscale k u) v = k * dot u v"
  by (simp add: dot_def sum_distrib_left algebra_simps)

lemma dot_vscale_right: "length u = length v \<Longrightarrow> dot u (vscale k v) = k * dot u v"
  by (simp add: dot_def sum_distrib_left algebra_simps)

lemma dot_zero_left: "dot (zero_vec n) v = 0"
  by (simp add: dot_def zero_vec_def)

lemma mv_vadd: "length u = length v \<Longrightarrow> length u = m_cols A \<Longrightarrow> mv A (vadd u v) = vadd (mv A u) (mv A v)"
  by (intro nth_equalityI) (simp_all add: sum.distrib algebra_simps)

lemma mv_vscale: "length v = m_cols A \<Longrightarrow> mv A (vscale k v) = vscale k (mv A v)"
  by (intro nth_equalityI) (simp_all add: sum_distrib_left algebra_simps)

lemma mv_madd: "m_rows A = m_rows B \<Longrightarrow> m_cols A = m_cols B \<Longrightarrow> mv (madd A B) v = vadd (mv A v) (mv B v)"
  by (intro nth_equalityI) (simp_all add: madd_def sum.distrib algebra_simps)

lemma mv_mscale: "mv (mscale k A) v = vscale k (mv A v)"
  by (intro nth_equalityI) (simp_all add: mscale_def sum_distrib_left algebra_simps)

lemma mv_zero_mat: "mv (zero_mat r c) v = zero_vec r"
  by (intro nth_equalityI) (simp_all add: zero_mat_def zero_vec_def)

lemma mv_mm:
  assumes "m_cols A = m_rows B"
  shows "mv (mm A B) v = mv A (mv B v)"
proof (intro nth_equalityI)
  fix i assume "i < length (mv (mm A B) v)"
  then have i: "i < m_rows A" by simp
  have "(\<Sum>j < m_cols B. (\<Sum>k < m_cols A. m_at A i k * m_at B k j) * v ! j) =
        (\<Sum>j < m_cols B. \<Sum>k < m_cols A. m_at A i k * (m_at B k j * v ! j))"
    by (simp add: sum_distrib_right mult.assoc)
  also have "\<dots> = (\<Sum>k < m_cols A. \<Sum>j < m_cols B. m_at A i k * (m_at B k j * v ! j))" by (rule sum.swap)
  also have "\<dots> = (\<Sum>k < m_cols A. m_at A i k * (\<Sum>j < m_cols B. m_at B k j * v ! j))"
    by (simp add: sum_distrib_left)
  finally show "mv (mm A B) v ! i = mv A (mv B v) ! i" using i assms by (simp add: mm_def)
qed simp

lemma dot_mv_tr:
  assumes "length u = m_rows A" "length v = m_cols A"
  shows "dot (mv (tr A) u) v = dot u (mv A v)"
proof -
  have "dot (mv (tr A) u) v = (\<Sum>j < m_cols A. \<Sum>i < m_rows A. m_at A i j * u ! i * v ! j)"
    by (simp add: dot_def sum_distrib_right)
  also have "\<dots> = (\<Sum>i < m_rows A. \<Sum>j < m_cols A. m_at A i j * u ! i * v ! j)" by (rule sum.swap)
  also have "\<dots> = dot u (mv A v)" using assms by (simp add: dot_def sum_distrib_left algebra_simps)
  finally show ?thesis .
qed

lemma dot_tr_left: "length u = m_rows A \<Longrightarrow> length v = m_cols A \<Longrightarrow> dot v (mv (tr A) u) = dot u (mv A v)"
  using dot_mv_tr[of u A v] dot_comm[of v "mv (tr A) u"] by simp

definition symmetric :: "dmatrix \<Rightarrow> bool" where
  "symmetric A = (m_rows A = m_cols A \<and> (\<forall>i < m_rows A. \<forall>j < m_rows A. m_at A i j = m_at A j i))"

lemma symmetric_dot:
  assumes "symmetric A" "length u = m_rows A" "length v = m_rows A"
  shows "dot u (mv A v) = dot v (mv A u)"
proof -
  have "mv (tr A) u = mv A u" using assms by (intro nth_equalityI) (simp_all add: symmetric_def)
  then show ?thesis using dot_tr_left[of u A v] assms by (simp add: symmetric_def)
qed

lemmas dot_algebra = dot_vadd_left dot_vadd_right dot_vscale_left dot_vscale_right mv_vadd mv_vscale mv_madd mv_mscale mv_mm

end
