(* ===== verification/Approximation_Types.thy ===== *)
theory Approximation_Types
  imports Eigen_Algebra
begin

text \<open>
  \<open>core/ocs2_core/src/Types.cpp\<close>: the linear and quadratic approximations of scalar and vector functions,
  and \<open>core/ocs2_oc/src/approximate_model/ChangeOfInputVariables.cpp\<close>. A negative number of inputs means
  "no input" (the default argument -1). Eigen leaves the entries of a resized matrix uninitialised: they
  are the argument \<open>junk\<close>. \<open>quadratic_value\<close> is the number an approximation stands for at a deviation.
\<close>

section \<open>Approximations of scalar functions\<close>

record scalar_linear =
  sl_dfdx :: vector_t
  sl_dfdu :: vector_t
  sl_f :: scalar

record scalar_quadratic =
  dfdxx :: dmatrix
  dfdux :: dmatrix
  dfduu :: dmatrix
  dfdx :: vector_t
  dfdu :: vector_t
  appr_f :: scalar

definition new_ScalarLinear :: scalar_linear where
  "new_ScalarLinear = \<lparr>sl_dfdx = [], sl_dfdu = [], sl_f = 0\<rparr>"

definition resize_ScalarLinear :: "scalar \<Rightarrow> nat \<Rightarrow> int \<Rightarrow> scalar_linear \<Rightarrow> scalar_linear" where
  "resize_ScalarLinear junk nx nu a =
     a\<lparr>sl_dfdx := (if length (sl_dfdx a) = nx then sl_dfdx a else replicate nx junk),
       sl_dfdu := (if 0 \<le> nu then (if int (length (sl_dfdu a)) = nu then sl_dfdu a else replicate (nat nu) junk) else [])\<rparr>"

definition setZero_ScalarLinear :: "nat \<Rightarrow> int \<Rightarrow> scalar_linear \<Rightarrow> scalar_linear" where
  "setZero_ScalarLinear nx nu a =
     a\<lparr>sl_f := 0, sl_dfdx := zero_vec nx, sl_dfdu := (if 0 \<le> nu then zero_vec (nat nu) else [])\<rparr>"

definition add_ScalarLinear :: "scalar_linear \<Rightarrow> scalar_linear \<Rightarrow> scalar_linear result" where
  "add_ScalarLinear a b =
     bind_result (vec_add (sl_dfdx a) (sl_dfdx b)) (\<lambda>x.
     bind_result (vec_add (sl_dfdu a) (sl_dfdu b)) (\<lambda>u.
     Inr (a\<lparr>sl_f := sl_f a + sl_f b, sl_dfdx := x, sl_dfdu := u\<rparr>)))"

definition scale_ScalarLinear :: "scalar_linear \<Rightarrow> scalar \<Rightarrow> scalar_linear" where
  "scale_ScalarLinear a c = a\<lparr>sl_f := sl_f a * c, sl_dfdx := vscale c (sl_dfdx a), sl_dfdu := vscale c (sl_dfdu a)\<rparr>"

definition new_ScalarQuadratic :: scalar_quadratic where
  "new_ScalarQuadratic =
     \<lparr>dfdxx = empty_mat, dfdux = empty_mat, dfduu = empty_mat, dfdx = [], dfdu = [], appr_f = 0\<rparr>"

definition resized_mat :: "scalar \<Rightarrow> nat \<Rightarrow> nat \<Rightarrow> dmatrix \<Rightarrow> dmatrix" where
  "resized_mat junk r c A = (if m_rows A = r \<and> m_cols A = c then A else mk_mat r c (\<lambda>_ _. junk))"

definition resized_vec :: "scalar \<Rightarrow> nat \<Rightarrow> vector_t \<Rightarrow> vector_t" where
  "resized_vec junk n v = (if length v = n then v else replicate n junk)"

definition resize_ScalarQuadratic :: "scalar \<Rightarrow> nat \<Rightarrow> int \<Rightarrow> scalar_quadratic \<Rightarrow> scalar_quadratic" where
  "resize_ScalarQuadratic junk nx nu a =
     (let a = a\<lparr>dfdx := resized_vec junk nx (dfdx a), dfdxx := resized_mat junk nx nx (dfdxx a)\<rparr>
      in if 0 \<le> nu then
           a\<lparr>dfdu := resized_vec junk (nat nu) (dfdu a), dfdux := resized_mat junk (nat nu) nx (dfdux a),
             dfduu := resized_mat junk (nat nu) (nat nu) (dfduu a)\<rparr>
         else a\<lparr>dfdu := [], dfdux := empty_mat, dfduu := empty_mat\<rparr>)"

definition setZero_ScalarQuadratic :: "nat \<Rightarrow> int \<Rightarrow> scalar_quadratic \<Rightarrow> scalar_quadratic" where
  "setZero_ScalarQuadratic nx nu a =
     (let a = a\<lparr>appr_f := 0, dfdx := zero_vec nx, dfdxx := zero_mat nx nx\<rparr>
      in if 0 \<le> nu then
           a\<lparr>dfdu := zero_vec (nat nu), dfdux := zero_mat (nat nu) nx, dfduu := zero_mat (nat nu) (nat nu)\<rparr>
         else a\<lparr>dfdu := [], dfdux := empty_mat, dfduu := empty_mat\<rparr>)"

definition Zero_ScalarQuadratic :: "nat \<Rightarrow> int \<Rightarrow> scalar_quadratic" where
  "Zero_ScalarQuadratic nx nu = setZero_ScalarQuadratic nx nu new_ScalarQuadratic"

definition add_ScalarQuadratic :: "scalar_quadratic \<Rightarrow> scalar_quadratic \<Rightarrow> scalar_quadratic result" where
  "add_ScalarQuadratic a b =
     bind_result (vec_add (dfdx a) (dfdx b)) (\<lambda>x.
     bind_result (vec_add (dfdu a) (dfdu b)) (\<lambda>u.
     bind_result (mat_add (dfdxx a) (dfdxx b)) (\<lambda>xx.
     bind_result (mat_add (dfdux a) (dfdux b)) (\<lambda>ux.
     bind_result (mat_add (dfduu a) (dfduu b)) (\<lambda>uu.
     Inr (a\<lparr>appr_f := appr_f a + appr_f b, dfdx := x, dfdu := u, dfdxx := xx, dfdux := ux, dfduu := uu\<rparr>))))))"

definition scale_ScalarQuadratic :: "scalar_quadratic \<Rightarrow> scalar \<Rightarrow> scalar_quadratic" where
  "scale_ScalarQuadratic a c =
     a\<lparr>appr_f := appr_f a * c, dfdx := vscale c (dfdx a), dfdu := vscale c (dfdu a), dfdxx := mscale c (dfdxx a),
       dfdux := mscale c (dfdux a), dfduu := mscale c (dfduu a)\<rparr>"

text \<open>The addition of the state derivatives only, written out at every use in the code.\<close>

definition add_state_part :: "scalar_quadratic \<Rightarrow> scalar_quadratic \<Rightarrow> scalar_quadratic result" where
  "add_state_part a b =
     bind_result (vec_add (dfdx a) (dfdx b)) (\<lambda>x.
     bind_result (mat_add (dfdxx a) (dfdxx b)) (\<lambda>xx.
     Inr (a\<lparr>appr_f := appr_f a + appr_f b, dfdx := x, dfdxx := xx\<rparr>)))"

section \<open>Approximations of vector functions\<close>

record vector_linear =
  vl_dfdx :: dmatrix
  vl_dfdu :: dmatrix
  vl_f :: vector_t

record vector_quadratic = vector_linear +
  vq_dfdxx :: "dmatrix list"
  vq_dfdux :: "dmatrix list"
  vq_dfduu :: "dmatrix list"

definition setZero_VectorLinear :: "nat \<Rightarrow> nat \<Rightarrow> int \<Rightarrow> vector_linear \<Rightarrow> vector_linear" where
  "setZero_VectorLinear nv nx nu a =
     a\<lparr>vl_f := zero_vec nv, vl_dfdx := zero_mat nv nx, vl_dfdu := (if 0 \<le> nu then zero_mat nv (nat nu) else empty_mat)\<rparr>"

definition Zero_VectorLinear :: "nat \<Rightarrow> nat \<Rightarrow> int \<Rightarrow> vector_linear" where
  "Zero_VectorLinear nv nx nu = setZero_VectorLinear nv nx nu \<lparr>vl_dfdx = empty_mat, vl_dfdu = empty_mat, vl_f = []\<rparr>"

definition resize_VectorLinear :: "scalar \<Rightarrow> nat \<Rightarrow> nat \<Rightarrow> int \<Rightarrow> vector_linear \<Rightarrow> vector_linear" where
  "resize_VectorLinear junk nv nx nu a =
     a\<lparr>vl_f := resized_vec junk nv (vl_f a), vl_dfdx := resized_mat junk nv nx (vl_dfdx a),
       vl_dfdu := (if 0 \<le> nu then resized_mat junk nv (nat nu) (vl_dfdu a) else empty_mat)\<rparr>"

definition setZero_VectorQuadratic :: "nat \<Rightarrow> nat \<Rightarrow> int \<Rightarrow> vector_quadratic \<Rightarrow> vector_quadratic" where
  "setZero_VectorQuadratic nv nx nu a =
     (let a = a\<lparr>vl_f := zero_vec nv, vl_dfdx := zero_mat nv nx, vq_dfdxx := replicate nv (zero_mat nx nx)\<rparr>
      in if 0 \<le> nu then
           a\<lparr>vl_dfdu := zero_mat nv (nat nu), vq_dfdux := replicate nv (zero_mat (nat nu) nx),
             vq_dfduu := replicate nv (zero_mat (nat nu) (nat nu))\<rparr>
         else a\<lparr>vl_dfdu := empty_mat, vq_dfdux := replicate nv empty_mat, vq_dfduu := replicate nv empty_mat\<rparr>)"

definition Zero_VectorQuadratic :: "nat \<Rightarrow> nat \<Rightarrow> int \<Rightarrow> vector_quadratic" where
  "Zero_VectorQuadratic nv nx nu =
     setZero_VectorQuadratic nv nx nu
       \<lparr>vl_dfdx = empty_mat, vl_dfdu = empty_mat, vl_f = [], vq_dfdxx = [], vq_dfdux = [], vq_dfduu = []\<rparr>"

section \<open>Size checks\<close>

fun show_nat :: "nat \<Rightarrow> string" where
  "show_nat n = (if n < 10 then [char_of (48 + n)] else show_nat (n div 10) @ [char_of (48 + n mod 10)])"

definition show_int :: "int \<Rightarrow> string" where
  "show_int i = (if i < 0 then ''-'' @ show_nat (nat (- i)) else show_nat (nat i))"

definition size_error :: "bool \<Rightarrow> string \<Rightarrow> string \<Rightarrow> int \<Rightarrow> string" where
  "size_error differs dataName what required = (if differs then dataName @ what @ '' != '' @ show_int required @ [CHR 0x0A] else [])"

definition checkSize_ScalarLinear :: "int \<Rightarrow> int \<Rightarrow> scalar_linear \<Rightarrow> string \<Rightarrow> string" where
  "checkSize_ScalarLinear stateDim inputDim a dataName =
     size_error (int (length (sl_dfdx a)) \<noteq> stateDim) dataName ''.dfdx.size()'' stateDim @
     size_error (int (length (sl_dfdu a)) \<noteq> inputDim) dataName ''.dfdu.size()'' inputDim"

definition checkSize_ScalarQuadratic :: "int \<Rightarrow> int \<Rightarrow> scalar_quadratic \<Rightarrow> string \<Rightarrow> string" where
  "checkSize_ScalarQuadratic stateDim inputDim a dataName =
     size_error (int (length (dfdx a)) \<noteq> stateDim) dataName ''.dfdx.size()'' stateDim @
     size_error (int (m_rows (dfdxx a)) \<noteq> stateDim) dataName ''.dfdxx.rows()'' stateDim @
     size_error (int (m_cols (dfdxx a)) \<noteq> stateDim) dataName ''.dfdxx.cols()'' stateDim @
     size_error (int (length (dfdu a)) \<noteq> inputDim) dataName ''.dfdu.size()'' inputDim @
     size_error (int (m_rows (dfduu a)) \<noteq> inputDim) dataName ''.dfduu.rows()'' inputDim @
     size_error (int (m_cols (dfduu a)) \<noteq> inputDim) dataName ''.dfduu.cols()'' inputDim @
     size_error (int (m_rows (dfdux a)) \<noteq> inputDim) dataName ''.dfdux.rows()'' inputDim @
     size_error (int (m_cols (dfdux a)) \<noteq> stateDim \<and> 0 < inputDim) dataName ''.dfdux.cols()'' stateDim"

definition checkSize_VectorLinear :: "int \<Rightarrow> int \<Rightarrow> int \<Rightarrow> vector_linear \<Rightarrow> string \<Rightarrow> string" where
  "checkSize_VectorLinear vectorDim stateDim inputDim a dataName =
     size_error (int (length (vl_f a)) \<noteq> vectorDim) dataName ''.f.size()'' vectorDim @
     size_error (0 < vectorDim \<and> int (m_rows (vl_dfdx a)) \<noteq> vectorDim) dataName ''.dfdx.rows()'' vectorDim @
     size_error (0 < vectorDim \<and> int (m_cols (vl_dfdx a)) \<noteq> stateDim) dataName ''.dfdx.cols()'' stateDim @
     size_error (0 < vectorDim \<and> 0 < inputDim \<and> int (m_rows (vl_dfdu a)) \<noteq> vectorDim) dataName ''.dfdu.rows()'' vectorDim @
     size_error (0 < vectorDim \<and> 0 < inputDim \<and> int (m_cols (vl_dfdu a)) \<noteq> inputDim) dataName ''.dfdu.cols()'' inputDim"

section \<open>Change of input variables\<close>

text \<open>
  \<open>u = Pu * v + Px * x + u0\<close>; an empty \<open>Px\<close> or \<open>u0\<close> stands for zero. The terms are updated in the order
  of the code: the state terms before the mixed one, the constant before the input term.
\<close>

definition when_add_mat :: "bool \<Rightarrow> dmatrix result \<Rightarrow> dmatrix \<Rightarrow> dmatrix result" where
  "when_add_mat b B A = (if b then bind_result B (mat_add A) else Inr A)"

definition when_add_vec :: "bool \<Rightarrow> vector_t result \<Rightarrow> vector_t \<Rightarrow> vector_t result" where
  "when_add_vec b v u = (if b then bind_result v (vec_add u) else Inr u)"

definition changeOfInputVariables_quadratic ::
  "scalar_quadratic \<Rightarrow> dmatrix \<Rightarrow> dmatrix \<Rightarrow> vector_t \<Rightarrow> scalar_quadratic result" where
  "changeOfInputVariables_quadratic a Pu Px u0 =
     (let hasPx = 0 < m_size Px; hasu0 = u0 \<noteq> [] in
      bind_result (when_add_mat hasPx (mat_mult (dfduu a) Px) (dfdux a)) (\<lambda>P_plus_R_Px.
      bind_result (when_add_vec hasu0 (mat_vmult (dfduu a) u0) (dfdu a)) (\<lambda>r_plus_R_u0.
      bind_result (when_add_mat hasPx (mat_mult (tr (dfdux a)) Px) (dfdxx a)) (\<lambda>Q1.
      bind_result (when_add_mat hasPx (mat_mult (tr Px) P_plus_R_Px) Q1) (\<lambda>Q.
      bind_result (when_add_vec hasu0 (mat_vmult (tr (dfdux a)) u0) (dfdx a)) (\<lambda>q1.
      bind_result (when_add_vec hasPx (mat_vmult (tr Px) r_plus_R_u0) q1) (\<lambda>q.
      bind_result (if hasu0 then bind_result (vec_add r_plus_R_u0 (dfdu a)) (vec_dot u0) else Inr 0) (\<lambda>d.
      let c = (if hasu0 then appr_f a + 1 / 2 * d else appr_f a) in
      bind_result (mat_mult (tr Pu) P_plus_R_Px) (\<lambda>P.
      bind_result (mat_mult (dfduu a) Pu) (\<lambda>R_Pu.
      bind_result (mat_mult (tr Pu) R_Pu) (\<lambda>R.
      bind_result (mat_vmult (tr Pu) r_plus_R_u0) (\<lambda>r.
      Inr (a\<lparr>dfdxx := Q, dfdx := q, appr_f := c, dfdux := P, dfduu := R, dfdu := r\<rparr>)))))))))))))"

definition changeOfInputVariables_linear :: "vector_linear \<Rightarrow> dmatrix \<Rightarrow> dmatrix \<Rightarrow> vector_t \<Rightarrow> vector_linear result" where
  "changeOfInputVariables_linear a Pu Px u0 =
     bind_result (when_add_mat (0 < m_size Px) (mat_mult (vl_dfdu a) Px) (vl_dfdx a)) (\<lambda>A.
     bind_result (when_add_vec (u0 \<noteq> []) (mat_vmult (vl_dfdu a) u0) (vl_f a)) (\<lambda>b.
     bind_result (mat_mult (vl_dfdu a) Pu) (\<lambda>B.
     Inr (a\<lparr>vl_dfdx := A, vl_f := b, vl_dfdu := B\<rparr>))))"

section \<open>What an approximation stands for\<close>

definition quadratic_value :: "scalar_quadratic \<Rightarrow> vector_t \<Rightarrow> vector_t \<Rightarrow> scalar" where
  "quadratic_value a x u =
     appr_f a + dot (dfdx a) x + dot (dfdu a) u + 1 / 2 * dot x (mv (dfdxx a) x) + dot u (mv (dfdux a) x) +
     1 / 2 * dot u (mv (dfduu a) u)"

definition linear_value :: "vector_linear \<Rightarrow> vector_t \<Rightarrow> vector_t \<Rightarrow> vector_t" where
  "linear_value a x u = vadd (vl_f a) (vadd (mv (vl_dfdx a) x) (mv (vl_dfdu a) u))"

definition quadratic_dims :: "nat \<Rightarrow> nat \<Rightarrow> scalar_quadratic \<Rightarrow> bool" where
  "quadratic_dims nx nu a =
     (length (dfdx a) = nx \<and> length (dfdu a) = nu \<and> m_rows (dfdxx a) = nx \<and> m_cols (dfdxx a) = nx \<and>
      m_rows (dfdux a) = nu \<and> m_cols (dfdux a) = nx \<and> m_rows (dfduu a) = nu \<and> m_cols (dfduu a) = nu)"

definition linear_dims :: "nat \<Rightarrow> nat \<Rightarrow> nat \<Rightarrow> vector_linear \<Rightarrow> bool" where
  "linear_dims nv nx nu a =
     (length (vl_f a) = nv \<and> m_rows (vl_dfdx a) = nv \<and> m_cols (vl_dfdx a) = nx \<and> m_rows (vl_dfdu a) = nv \<and> m_cols (vl_dfdu a) = nu)"

lemma size_error_Nil [simp]: "size_error d n w k = [] \<longleftrightarrow> \<not> d"
  by (simp add: size_error_def)

lemma checkSize_quadratic_dims:
  "checkSize_ScalarQuadratic (int nx) (int nu) a n = [] \<and> (nu = 0 \<longrightarrow> m_cols (dfdux a) = nx) \<longleftrightarrow> quadratic_dims nx nu a"
  by (auto simp: checkSize_ScalarQuadratic_def quadratic_dims_def)

lemma quadratic_value_add:
  assumes "quadratic_dims nx nu a" "quadratic_dims nx nu b"
  shows "\<exists>s. add_ScalarQuadratic a b = Inr s \<and> quadratic_dims nx nu s \<and>
           (\<forall>x u. length x = nx \<longrightarrow> length u = nu \<longrightarrow> quadratic_value s x u = quadratic_value a x u + quadratic_value b x u)"
  using assms by (auto simp: add_ScalarQuadratic_def quadratic_dims_def quadratic_value_def result_simps dot_algebra field_simps)

lemma quadratic_value_scale:
  assumes "quadratic_dims nx nu a"
  shows "quadratic_dims nx nu (scale_ScalarQuadratic a c)"
    and "length x = nx \<Longrightarrow> length u = nu \<Longrightarrow> quadratic_value (scale_ScalarQuadratic a c) x u = c * quadratic_value a x u"
  using assms by (auto simp: scale_ScalarQuadratic_def quadratic_dims_def quadratic_value_def dot_algebra field_simps)

lemma dot_zero_right: "length u = n \<Longrightarrow> dot u (zero_vec n) = 0"
  by (simp add: dot_def zero_vec_def)

lemma quadratic_value_Zero:
  "quadratic_dims nx nu (Zero_ScalarQuadratic nx (int nu))"
  "length x = nx \<Longrightarrow> length u = nu \<Longrightarrow> quadratic_value (Zero_ScalarQuadratic nx (int nu)) x u = 0"
  by (simp_all add: Zero_ScalarQuadratic_def setZero_ScalarQuadratic_def quadratic_dims_def quadratic_value_def
      dot_zero_left dot_zero_right mv_zero_mat)

text \<open>The input that the new variables stand for.\<close>

definition changed_input :: "dmatrix \<Rightarrow> dmatrix \<Rightarrow> vector_t \<Rightarrow> vector_t \<Rightarrow> vector_t \<Rightarrow> vector_t" where
  "changed_input Pu Px u0 x v =
     vadd (mv Pu v) (vadd (if 0 < m_size Px then mv Px x else zero_vec (m_rows Pu)) (if u0 \<noteq> [] then u0 else zero_vec (m_rows Pu)))"

definition change_dims :: "nat \<Rightarrow> nat \<Rightarrow> nat \<Rightarrow> dmatrix \<Rightarrow> dmatrix \<Rightarrow> vector_t \<Rightarrow> bool" where
  "change_dims nx nu nv Pu Px u0 =
     (m_rows Pu = nu \<and> m_cols Pu = nv \<and> (0 < m_size Px \<longrightarrow> m_rows Px = nu \<and> m_cols Px = nx) \<and> (u0 \<noteq> [] \<longrightarrow> length u0 = nu))"

lemma vadd_zero: "length v = n \<Longrightarrow> vadd v (zero_vec n) = v" "length v = n \<Longrightarrow> vadd (zero_vec n) v = v"
  by (auto intro!: nth_equalityI simp: zero_vec_def)

lemma mv_zero_vec: "mv A (zero_vec n) = zero_vec (m_rows A)" if "n = m_cols A"
  using that by (intro nth_equalityI) (simp_all add: zero_vec_def)

lemma change_quadratic:
  assumes a: "quadratic_dims nx nu a" and P: "change_dims nx nu nv Pu Px u0" and R: "symmetric (dfduu a)"
  shows "\<exists>b. changeOfInputVariables_quadratic a Pu Px u0 = Inr b \<and> quadratic_dims nx nv b \<and>
           (\<forall>x v. length x = nx \<longrightarrow> length v = nv \<longrightarrow> quadratic_value b x v = quadratic_value a x (changed_input Pu Px u0 x v))"
proof -
  note dims = a[unfolded quadratic_dims_def] P[unfolded change_dims_def]
  note sym = symmetric_dot[OF R]
  note compute = changeOfInputVariables_quadratic_def Let_def when_add_mat_def when_add_vec_def result_simps
  note expand = quadratic_value_def changed_input_def dot_algebra dot_mv_tr dot_tr_left dot_zero_left dot_zero_right vadd_zero mv_zero_vec
  have comm: "dot (mv (dfdux a) x) w = dot w (mv (dfdux a) x)" "dot (mv (dfduu a) z) w = dot w (mv (dfduu a) z)"
      "dot (dfdu a) w = dot w (dfdu a)" if "length w = nu" for x z w
    using that dims by (simp_all add: dot_comm)
  have pairs: "dot (mv Pu v) (mv (dfduu a) (mv Px x)) = dot (mv Px x) (mv (dfduu a) (mv Pu v))"
    if "m_rows Px = nu" for v x using dims that by (intro sym) simp_all
  have pairs0: "dot (mv Pu v) (mv (dfduu a) u0) = dot u0 (mv (dfduu a) (mv Pu v))"
    if "length u0 = nu" for v using dims that by (intro sym) simp_all
  have pairs1: "dot (mv Px x) (mv (dfduu a) u0) = dot u0 (mv (dfduu a) (mv Px x))"
    if "m_rows Px = nu" "length u0 = nu" for x using dims that by (intro sym) simp_all
  show ?thesis
  proof (cases "0 < m_size Px"; cases "u0 = []")
    assume c: "0 < m_size Px" "u0 = []"
    show ?thesis using dims c pairs by (auto simp: compute quadratic_dims_def expand field_simps comm)
  next
    assume c: "0 < m_size Px" "u0 \<noteq> []"
    show ?thesis using dims c pairs pairs0 pairs1 by (auto simp: compute quadratic_dims_def expand field_simps comm)
  next
    assume c: "\<not> 0 < m_size Px" "u0 = []"
    show ?thesis using dims c by (auto simp: compute quadratic_dims_def expand field_simps comm)
  next
    assume c: "\<not> 0 < m_size Px" "u0 \<noteq> []"
    show ?thesis using dims c pairs0 by (auto simp: compute quadratic_dims_def expand field_simps comm)
  qed
qed

lemma vadd_assoc: "length u = n \<Longrightarrow> length v = n \<Longrightarrow> vadd (vadd u v) w = vadd u (vadd v w)"
  by (auto intro!: nth_equalityI)

lemma vadd_comm: "length u = n \<Longrightarrow> length v = n \<Longrightarrow> vadd u v = vadd v u"
  by (auto intro!: nth_equalityI)

lemma vadd_left_comm: "length u = n \<Longrightarrow> length v = n \<Longrightarrow> vadd u (vadd v w) = vadd v (vadd u w)"
  by (auto intro!: nth_equalityI)

lemma change_linear:
  assumes a: "linear_dims nw nx nu a" and P: "change_dims nx nu nv Pu Px u0"
  shows "\<exists>b. changeOfInputVariables_linear a Pu Px u0 = Inr b \<and> linear_dims nw nx nv b \<and>
           (\<forall>x v. length x = nx \<longrightarrow> length v = nv \<longrightarrow> linear_value b x v = linear_value a x (changed_input Pu Px u0 x v))"
proof -
  note dims = a[unfolded linear_dims_def] P[unfolded change_dims_def]
  note compute = changeOfInputVariables_linear_def when_add_mat_def when_add_vec_def result_simps
  note expand = linear_value_def changed_input_def mv_vadd mv_madd mv_mm vadd_zero mv_zero_vec
    vadd_assoc[where n = nw] vadd_comm[where n = nw] vadd_left_comm[where n = nw]
  show ?thesis
  proof (cases "0 < m_size Px"; cases "u0 = []")
    assume c: "0 < m_size Px" "u0 = []"
    show ?thesis using dims c by (simp add: compute linear_dims_def expand)
  next
    assume c: "0 < m_size Px" "u0 \<noteq> []"
    show ?thesis using dims c by (simp add: compute linear_dims_def expand)
  next
    assume c: "\<not> 0 < m_size Px" "u0 = []"
    show ?thesis using dims c by (simp add: compute linear_dims_def expand)
  next
    assume c: "\<not> 0 < m_size Px" "u0 \<noteq> []"
    show ?thesis using dims c by (simp add: compute linear_dims_def expand)
  qed
qed

section \<open>Properties\<close>

text \<open>
  C15. The change of input variables is exact: the new approximations have the dimensions of the new
  variables and, at every state \<open>x\<close> and new input \<open>v\<close>, the value of the old ones at \<open>x\<close> and
  \<open>Pu * v + Px * x + u0\<close> (where an empty \<open>Px\<close> or \<open>u0\<close> counts as zero), provided the second derivative with
  respect to the input is symmetric.
\<close>

theorem change_of_input_variables:
  assumes "quadratic_dims nx nu q" "linear_dims nw nx nu a" "change_dims nx nu nv Pu Px u0" "symmetric (dfduu q)"
  shows "\<exists>q' a'. changeOfInputVariables_quadratic q Pu Px u0 = Inr q' \<and> changeOfInputVariables_linear a Pu Px u0 = Inr a' \<and>
           quadratic_dims nx nv q' \<and> linear_dims nw nx nv a' \<and>
           (\<forall>x v. length x = nx \<longrightarrow> length v = nv \<longrightarrow>
              quadratic_value q' x v = quadratic_value q x (changed_input Pu Px u0 x v) \<and>
              linear_value a' x v = linear_value a x (changed_input Pu Px u0 x v))"
proof -
  from change_quadratic[OF assms(1,3,4)] obtain q' where q: "changeOfInputVariables_quadratic q Pu Px u0 = Inr q'"
    "quadratic_dims nx nv q'" "\<And>x v. length x = nx \<Longrightarrow> length v = nv \<Longrightarrow> quadratic_value q' x v = quadratic_value q x (changed_input Pu Px u0 x v)"
    by blast
  from change_linear[OF assms(2,3)] obtain a' where a: "changeOfInputVariables_linear a Pu Px u0 = Inr a'"
    "linear_dims nw nx nv a'" "\<And>x v. length x = nx \<Longrightarrow> length v = nv \<Longrightarrow> linear_value a' x v = linear_value a x (changed_input Pu Px u0 x v)"
    by blast
  from q a show ?thesis by (intro exI[of _ q'] exI[of _ a'] conjI allI impI) simp_all
qed

text \<open>One state, one input \<open>u = 2 v + 3 x + 1\<close>.\<close>

definition unit_quadratic :: scalar_quadratic where
  "unit_quadratic = \<lparr>dfdxx = Mat 1 1 [[2]], dfdux = Mat 1 1 [[1]], dfduu = Mat 1 1 [[4]], dfdx = [1], dfdu = [1], appr_f = 5\<rparr>"

definition unit_linear :: vector_linear where
  "unit_linear = \<lparr>vl_dfdx = Mat 1 1 [[1]], vl_dfdu = Mat 1 1 [[1]], vl_f = [0]\<rparr>"

theorem change_of_input_variables_witness:
  "quadratic_dims 1 1 unit_quadratic \<and> symmetric (dfduu unit_quadratic) \<and>
   (\<exists>q'. changeOfInputVariables_quadratic unit_quadratic (Mat 1 1 [[2]]) (Mat 1 1 [[3]]) [1] = Inr q' \<and>
         quadratic_value q' [1] [2] = 151)"
proof -
  have d: "quadratic_dims 1 1 unit_quadratic" "linear_dims 1 1 1 unit_linear"
    "change_dims 1 1 1 (Mat 1 1 [[2]]) (Mat 1 1 [[3]]) [1]" "symmetric (dfduu unit_quadratic)"
    by (simp_all add: quadratic_dims_def linear_dims_def change_dims_def symmetric_def unit_quadratic_def unit_linear_def)
  have "quadratic_value unit_quadratic [1] (changed_input (Mat 1 1 [[2]]) (Mat 1 1 [[3]]) [1] [1] [2]) = 151"
    by (simp add: quadratic_value_def changed_input_def unit_quadratic_def m_size_def mv_def vadd_def dot_def m_at_def)
  with change_of_input_variables[OF d] d show ?thesis by force
qed

end
