(* ===== verification/Multidimensional_Penalty.thy ===== *)
theory Multidimensional_Penalty
  imports Penalties Approximation_Types
begin

text \<open>
  \<open>core/ocs2_core/src/penalties/MultidimensionalPenalty.cpp\<close>: the sum of scalar penalties over the
  components of a constraint, with its quadratic approximation by the chain rule. A penalty is the array of
  its terms; an array of one term applies to every component. The multipliers are an optional pointer.
\<close>

section \<open>Model\<close>

type_synonym multi_penalty = "augmented_penalty list"

definition empty_penalty_error :: ocs2_error where
  "empty_penalty_error = Runtime_Error ''[MultidimensionalPenalty::MultidimensionalPenalty] The penalty array cannot be empty!''"

definition MultidimensionalPenalty_augmented :: "augmented_penalty list \<Rightarrow> multi_penalty result" where
  "MultidimensionalPenalty_augmented penaltyPtrArray =
     (if penaltyPtrArray = [] then Inl empty_penalty_error else Inr penaltyPtrArray)"

definition MultidimensionalPenalty_soft :: "penalty list \<Rightarrow> multi_penalty result" where
  "MultidimensionalPenalty_soft penaltyPtrArray =
     (let wrapped = map Penalty_Base_Wrapper penaltyPtrArray
      in if wrapped = [] then Inl empty_penalty_error else Inr wrapped)"

definition MultidimensionalPenalty_single :: "augmented_penalty \<Rightarrow> multi_penalty" where
  "MultidimensionalPenalty_single p = [p]"

definition MultidimensionalPenalty_single_soft :: "penalty \<Rightarrow> multi_penalty" where
  "MultidimensionalPenalty_single_soft p = [Penalty_Base_Wrapper p]"

definition getMultiplier :: "vector_t option \<Rightarrow> nat \<Rightarrow> scalar result" where
  "getMultiplier l ind = (case l of None \<Rightarrow> Inr 0 | Some l \<Rightarrow> eigen_at l ind)"

definition sizes_fit :: "multi_penalty \<Rightarrow> nat \<Rightarrow> bool" where
  "sizes_fit ps numConstraints = (length ps = 1 \<or> length ps = numConstraints)"

definition penaltyTerm :: "multi_penalty \<Rightarrow> nat \<Rightarrow> augmented_penalty" where
  "penaltyTerm ps i = (if length ps = 1 then ps ! 0 else ps ! i)"

definition multi_getValue :: "multi_penalty \<Rightarrow> scalar \<Rightarrow> vector_t \<Rightarrow> vector_t option \<Rightarrow> scalar result" where
  "multi_getValue ps t h l =
     bind_result (require (sizes_fit ps (length h)) Assertion_Failed) (\<lambda>_.
     fold_result (\<lambda>i p. bind_result (getMultiplier l i) (\<lambda>m. Inr (p + a_getValue (penaltyTerm ps i) t m (h ! i))))
       [0 ..< length h] 0)"

definition getPenaltyValue1stDev2ndDev ::
  "multi_penalty \<Rightarrow> scalar \<Rightarrow> vector_t \<Rightarrow> vector_t option \<Rightarrow> (scalar \<times> vector_t \<times> vector_t) result" where
  "getPenaltyValue1stDev2ndDev ps t h l =
     bind_result (require (sizes_fit ps (length h)) Assertion_Failed) (\<lambda>_.
     fold_result (\<lambda>i (v, d1, d2). bind_result (getMultiplier l i) (\<lambda>m.
         Inr (v + a_getValue (penaltyTerm ps i) t m (h ! i), d1 @ [a_getDerivative (penaltyTerm ps i) t m (h ! i)],
              d2 @ [a_getSecondDerivative (penaltyTerm ps i) t m (h ! i)])))
       [0 ..< length h] (0, [], []))"

text \<open>The products of the chain rule, common to the two approximations.\<close>

definition chain_rule :: "scalar \<Rightarrow> vector_t \<Rightarrow> vector_t \<Rightarrow> 'a vector_linear_scheme \<Rightarrow> scalar_quadratic result" where
  "chain_rule v d1 d2 h =
     (let stateDim = m_cols (vl_dfdx h); inputDim = m_cols (vl_dfdu h) in
      bind_result (diag_mult d2 (vl_dfdx h)) (\<lambda>d2_dhdx.
      bind_result (mat_vmult (tr (vl_dfdx h)) d1) (\<lambda>x.
      bind_result (mat_mult (tr (vl_dfdx h)) d2_dhdx) (\<lambda>xx.
      let a = (resize_ScalarQuadratic 0 stateDim (int inputDim) new_ScalarQuadratic)\<lparr>appr_f := v, dfdx := x, dfdxx := xx\<rparr> in
      if 0 < inputDim then
        bind_result (mat_vmult (tr (vl_dfdu h)) d1) (\<lambda>u.
        bind_result (mat_mult (tr (vl_dfdu h)) d2_dhdx) (\<lambda>ux.
        bind_result (diag_mult d2 (vl_dfdu h)) (\<lambda>d2_dhdu.
        bind_result (mat_mult (tr (vl_dfdu h)) d2_dhdu) (\<lambda>uu.
        Inr (a\<lparr>dfdu := u, dfdux := ux, dfduu := uu\<rparr>)))))
      else Inr a))))"

definition approx_linear :: "multi_penalty \<Rightarrow> scalar \<Rightarrow> vector_linear \<Rightarrow> vector_t option \<Rightarrow> scalar_quadratic result" where
  "approx_linear ps t h l =
     bind_result (getPenaltyValue1stDev2ndDev ps t (vl_f h) l) (\<lambda>(v, d1, d2). chain_rule v d1 d2 h)"

definition add_weighted :: "vector_t \<Rightarrow> dmatrix list \<Rightarrow> nat \<Rightarrow> dmatrix \<Rightarrow> dmatrix result" where
  "add_weighted w Ms i A = bind_result (vec_at Ms i) (\<lambda>M. mat_add A (mscale (w ! i) M))"

definition approx_quadratic :: "multi_penalty \<Rightarrow> scalar \<Rightarrow> vector_quadratic \<Rightarrow> vector_t option \<Rightarrow> scalar_quadratic result" where
  "approx_quadratic ps t h l =
     bind_result (getPenaltyValue1stDev2ndDev ps t (vl_f h) l) (\<lambda>(v, d1, d2).
     bind_result (chain_rule v d1 d2 h) (\<lambda>a.
     bind_result (fold_result (add_weighted d1 (vq_dfdxx h)) [0 ..< length (vl_f h)] (dfdxx a)) (\<lambda>xx.
     if 0 < m_cols (vl_dfdu h) then
       bind_result (fold_result (add_weighted d1 (vq_dfduu h)) [0 ..< length (vl_f h)] (dfduu a)) (\<lambda>uu.
       bind_result (fold_result (add_weighted d1 (vq_dfdux h)) [0 ..< length (vl_f h)] (dfdux a)) (\<lambda>ux.
       Inr (a\<lparr>dfdxx := xx, dfduu := uu, dfdux := ux\<rparr>)))
     else Inr (a\<lparr>dfdxx := xx\<rparr>))))"

definition updateMultipliers :: "multi_penalty \<Rightarrow> scalar \<Rightarrow> vector_t \<Rightarrow> vector_t \<Rightarrow> vector_t result" where
  "updateMultipliers ps t h l =
     bind_result (require (length l = length h \<and> sizes_fit ps (length h)) Assertion_Failed) (\<lambda>_.
     map_result (\<lambda>i. updateMultiplier (penaltyTerm ps i) t (l ! i) (h ! i)) [0 ..< length h])"

definition initializeMultipliers :: "multi_penalty \<Rightarrow> nat \<Rightarrow> vector_t result" where
  "initializeMultipliers ps numConstraints =
     bind_result (require (sizes_fit ps numConstraints) Assertion_Failed) (\<lambda>_.
     map_result (\<lambda>i. initializeMultiplier (penaltyTerm ps i)) [0 ..< numConstraints])"

section \<open>Values and derivatives\<close>

definition multiplier_of :: "vector_t option \<Rightarrow> nat \<Rightarrow> scalar" where
  "multiplier_of l i = (case l of None \<Rightarrow> 0 | Some l \<Rightarrow> l ! i)"

definition multipliers_fit :: "vector_t option \<Rightarrow> nat \<Rightarrow> bool" where
  "multipliers_fit l n = (case l of None \<Rightarrow> True | Some l \<Rightarrow> length l = n)"

lemma getMultiplier_ok: "multipliers_fit l n \<Longrightarrow> i < n \<Longrightarrow> getMultiplier l i = Inr (multiplier_of l i)"
  by (cases l) (simp_all add: getMultiplier_def multipliers_fit_def multiplier_of_def eigen_at_def)

lemma multi_getValue_sum:
  assumes "sizes_fit ps (length h)" "multipliers_fit l (length h)"
  shows "multi_getValue ps t h l = Inr (\<Sum>i < length h. a_getValue (penaltyTerm ps i) t (multiplier_of l i) (h ! i))"
proof -
  have "fold_result (\<lambda>i p. bind_result (getMultiplier l i) (\<lambda>m. Inr (p + a_getValue (penaltyTerm ps i) t m (h ! i)))) [0 ..< n] 0
      = Inr (\<Sum>i < n. a_getValue (penaltyTerm ps i) t (multiplier_of l i) (h ! i))" if "n \<le> length h" for n
    using that by (induction n) (simp_all add: fold_result_append getMultiplier_ok[OF assms(2)])
  with assms(1) show ?thesis by (simp add: multi_getValue_def require_def)
qed

lemma getPenalty_lists:
  assumes "sizes_fit ps (length h)" "multipliers_fit l (length h)"
  shows "getPenaltyValue1stDev2ndDev ps t h l =
     Inr (\<Sum>i < length h. a_getValue (penaltyTerm ps i) t (multiplier_of l i) (h ! i),
          map (\<lambda>i. a_getDerivative (penaltyTerm ps i) t (multiplier_of l i) (h ! i)) [0 ..< length h],
          map (\<lambda>i. a_getSecondDerivative (penaltyTerm ps i) t (multiplier_of l i) (h ! i)) [0 ..< length h])"
proof -
  have "fold_result (\<lambda>i (v, d1, d2). bind_result (getMultiplier l i) (\<lambda>m.
         Inr (v + a_getValue (penaltyTerm ps i) t m (h ! i), d1 @ [a_getDerivative (penaltyTerm ps i) t m (h ! i)],
              d2 @ [a_getSecondDerivative (penaltyTerm ps i) t m (h ! i)]))) [0 ..< n] (0, [], []) =
      Inr (\<Sum>i < n. a_getValue (penaltyTerm ps i) t (multiplier_of l i) (h ! i),
          map (\<lambda>i. a_getDerivative (penaltyTerm ps i) t (multiplier_of l i) (h ! i)) [0 ..< n],
          map (\<lambda>i. a_getSecondDerivative (penaltyTerm ps i) t (multiplier_of l i) (h ! i)) [0 ..< n])" if "n \<le> length h" for n
    using that by (induction n) (simp_all add: fold_result_append getMultiplier_ok[OF assms(2)])
  with assms(1) show ?thesis by (simp add: getPenaltyValue1stDev2ndDev_def require_def)
qed

definition vmul :: "vector_t \<Rightarrow> vector_t \<Rightarrow> vector_t" where
  "vmul d v = map (\<lambda>i. d ! i * v ! i) [0 ..< length v]"

lemma length_vmul [simp]: "length (vmul d v) = length v"
  by (simp add: vmul_def)

lemma mv_diag_mm: "mv (diag_mm d A) v = vmul d (mv A v)"
  by (intro nth_equalityI) (simp_all add: vmul_def diag_mm_def sum_distrib_left mult.assoc)

lemma vmul_vadd: "length u = length v \<Longrightarrow> vmul d (vadd u v) = vadd (vmul d u) (vmul d v)"
  by (intro nth_equalityI) (simp_all add: vmul_def algebra_simps)

lemma dot_vmul_comm: "length u = length v \<Longrightarrow> dot u (vmul d v) = dot v (vmul d u)"
  by (simp add: dot_def vmul_def ac_simps)

lemma dot_vmul_left: "length u = length v \<Longrightarrow> dot (vmul d u) v = dot u (vmul d v)"
  by (simp add: dot_def vmul_def ac_simps)

text \<open>The deviation of the linearised constraint.\<close>

definition constraint_deviation :: "'a vector_linear_scheme \<Rightarrow> vector_t \<Rightarrow> vector_t \<Rightarrow> vector_t" where
  "constraint_deviation h x u = vadd (mv (vl_dfdx h) x) (mv (vl_dfdu h) u)"

definition linear_fits :: "nat \<Rightarrow> nat \<Rightarrow> nat \<Rightarrow> 'a vector_linear_scheme \<Rightarrow> bool" where
  "linear_fits nv nx nu h =
     (length (vl_f h) = nv \<and> m_rows (vl_dfdx h) = nv \<and> m_cols (vl_dfdx h) = nx \<and> m_rows (vl_dfdu h) = nv \<and> m_cols (vl_dfdu h) = nu)"

lemma chain_rule_value:
  assumes h: "linear_fits nv nx nu h" and d: "length d1 = nv" "length d2 = nv"
  shows "\<exists>a. chain_rule v d1 d2 h = Inr a \<and> quadratic_dims nx nu a \<and> appr_f a = v \<and>
           (\<forall>x u. length x = nx \<longrightarrow> length u = nu \<longrightarrow>
              dot (dfdx a) x + dot (dfdu a) u = dot d1 (constraint_deviation h x u) \<and>
              quadratic_value a x u = v + dot d1 (constraint_deviation h x u) +
                1 / 2 * dot (constraint_deviation h x u) (vmul d2 (constraint_deviation h x u)))"
proof -
  note dims = h[unfolded linear_fits_def] d
  have zero: "mv (vl_dfdu h) u = zero_vec nv" if "nu = 0" for u
    using dims that by (intro nth_equalityI) (simp_all add: zero_vec_def)
  have vz: "vmul d2 (zero_vec nv) = zero_vec nv" by (intro nth_equalityI) (simp_all add: vmul_def zero_vec_def)
  have swap: "dot (mv (vl_dfdx h) x) (vmul d2 (mv (vl_dfdu h) u)) = dot (mv (vl_dfdu h) u) (vmul d2 (mv (vl_dfdx h) x))" for x u
    using dims by (intro dot_vmul_comm) simp
  have nil: "dot [] v = 0" for v by (simp add: dot_def)
  note compute = chain_rule_def Let_def result_simps resize_ScalarQuadratic_def resized_mat_def resized_vec_def new_ScalarQuadratic_def
  note expand = quadratic_value_def constraint_deviation_def quadratic_dims_def dot_algebra dot_mv_tr dot_tr_left mv_diag_mm vmul_vadd dot_vmul_left
  show ?thesis
  proof (cases "nu = 0")
    case True
    with dims show ?thesis
      by (auto simp: compute expand zero vz dot_zero_left dot_zero_right vadd_zero nil)
  next
    case False
    with dims show ?thesis
      by (auto simp: compute expand swap field_simps)
  qed
qed

lemma a_getValue_sum_DERIV:
  assumes "\<And>i. i < n \<Longrightarrow> aug_ok (ps i) (m i) \<and> f i \<notin> a_kinks (ps i)"
  shows "((\<lambda>s. \<Sum>i < n. a_getValue (ps i) t (m i) (f i + s * c i)) has_real_derivative
           (\<Sum>i < n. a_getDerivative (ps i) t (m i) (f i) * c i)) (at 0)"
proof (rule DERIV_sum)
  fix i assume "i \<in> {..<n}"
  then have i: "aug_ok (ps i) (m i)" "f i \<notin> a_kinks (ps i)" using assms by simp_all
  have "((\<lambda>s. f i + s * c i) has_real_derivative c i) (at 0)" by (auto intro!: derivative_eq_intros)
  from DERIV_chain2[OF _ this, of "a_getValue (ps i) t (m i)" "a_getDerivative (ps i) t (m i) (f i)"]
  show "((\<lambda>s. a_getValue (ps i) t (m i) (f i + s * c i)) has_real_derivative a_getDerivative (ps i) t (m i) (f i) * c i) (at 0)"
    using a_getDerivative_DERIV[OF i] by simp
qed

section \<open>Properties\<close>

lemma dot_vmul_self:
  assumes "length w = n"
  shows "dot w (vmul (map g [0 ..< n]) w) = (\<Sum>i < n. g i * (w ! i)\<^sup>2)"
  using assms by (auto simp: dot_def vmul_def power2_eq_square ac_simps intro!: sum.cong)

lemma dot_map_upt: "dot (map g [0 ..< n]) w = (\<Sum>i < n. g i * w ! i)"
  by (simp add: dot_def)

text \<open>
  C16. The quadratic approximation of a penalised constraint is its second order Taylor polynomial along the
  linearised constraint. With fitting dimensions, a valid configuration and no kink at the constraint
  value, its constant is \<open>getValue\<close> and its linear part is the directional derivative of \<open>getValue\<close> along the
  linearised constraint in every direction of states and inputs. In every direction its value is the constant, plus
  the first derivatives of the scalar penalties at the constraint values and their multipliers times the change of the
  constraint, plus half their second derivatives times the square of the change (the Gauss-Newton Hessian). The
  first are the derivatives of the values, the second the derivatives of the first away from the kinks of the first, and
  the second are never negative.
\<close>

theorem penalty_approximation_correct:
  assumes h: "linear_fits nv nx nu (h :: vector_linear)" and ps: "sizes_fit ps nv" "multipliers_fit l nv"
    and ok: "\<And>i. i < nv \<Longrightarrow> aug_ok (penaltyTerm ps i) (multiplier_of l i) \<and> vl_f h ! i \<notin> a_kinks (penaltyTerm ps i)"
  shows "\<exists>a d1 d2. approx_linear ps t h l = Inr a \<and> quadratic_dims nx nu a \<and> multi_getValue ps t (vl_f h) l = Inr (appr_f a) \<and>
           (\<forall>i < nv. (a_getValue (penaltyTerm ps i) t (multiplier_of l i) has_real_derivative d1 i) (at (vl_f h ! i)) \<and>
              d2 i = a_getSecondDerivative (penaltyTerm ps i) t (multiplier_of l i) (vl_f h ! i) \<and> 0 \<le> d2 i \<and>
              (vl_f h ! i \<notin> a_kinks2 (penaltyTerm ps i) (multiplier_of l i) \<longrightarrow>
                 (a_getDerivative (penaltyTerm ps i) t (multiplier_of l i) has_real_derivative d2 i) (at (vl_f h ! i)))) \<and>
           (\<forall>x u. length x = nx \<longrightarrow> length u = nu \<longrightarrow>
              (\<exists>F. (\<forall>s. multi_getValue ps t (vadd (vl_f h) (vscale s (constraint_deviation h x u))) l = Inr (F s)) \<and>
                   (F has_real_derivative (dot (dfdx a) x + dot (dfdu a) u)) (at 0)) \<and>
              quadratic_value a x u = appr_f a + (\<Sum>i < nv. d1 i * constraint_deviation h x u ! i) +
                1 / 2 * (\<Sum>i < nv. d2 i * (constraint_deviation h x u ! i)\<^sup>2))"
proof -
  have nv: "nv = length (vl_f h)" using h by (simp add: linear_fits_def)
  note fit = ps[unfolded nv]
  let ?p = "\<lambda>i. penaltyTerm ps i" and ?m = "multiplier_of l" and ?f = "vl_f h"
  let ?g1 = "\<lambda>i. a_getDerivative (?p i) t (?m i) (?f ! i)" and ?g2 = "\<lambda>i. a_getSecondDerivative (?p i) t (?m i) (?f ! i)"
  define v where "v = (\<Sum>i < nv. a_getValue (?p i) t (?m i) (?f ! i))"
  have lists: "getPenaltyValue1stDev2ndDev ps t ?f l = Inr (v, map ?g1 [0 ..< nv], map ?g2 [0 ..< nv])"
    using getPenalty_lists[OF fit] by (simp add: v_def nv)
  from chain_rule_value[OF h, of "map ?g1 [0 ..< nv]" "map ?g2 [0 ..< nv]" v] obtain a where
    a: "chain_rule v (map ?g1 [0 ..< nv]) (map ?g2 [0 ..< nv]) h = Inr a" "quadratic_dims nx nu a" "appr_f a = v"
    and lin: "\<And>x u. length x = nx \<Longrightarrow> length u = nu \<Longrightarrow>
        dot (dfdx a) x + dot (dfdu a) u = dot (map ?g1 [0 ..< nv]) (constraint_deviation h x u)"
    and val: "\<And>x u. length x = nx \<Longrightarrow> length u = nu \<Longrightarrow> quadratic_value a x u = v + dot (map ?g1 [0 ..< nv]) (constraint_deviation h x u) +
        1 / 2 * dot (constraint_deviation h x u) (vmul (map ?g2 [0 ..< nv]) (constraint_deviation h x u))"
    by auto
  have c: "length (constraint_deviation h x u) = nv" for x u using h by (simp add: constraint_deviation_def linear_fits_def)
  have deriv: "\<exists>F. (\<forall>s. multi_getValue ps t (vadd ?f (vscale s (constraint_deviation h x u))) l = Inr (F s)) \<and>
      (F has_real_derivative (dot (dfdx a) x + dot (dfdu a) u)) (at 0)" if "length x = nx" "length u = nu" for x u
  proof (intro exI conjI allI)
    let ?c = "constraint_deviation h x u"
    let ?F = "\<lambda>s. \<Sum>i < nv. a_getValue (?p i) t (?m i) (?f ! i + s * ?c ! i)"
    show "multi_getValue ps t (vadd ?f (vscale s ?c)) l = Inr (?F s)" for s
      using multi_getValue_sum[of ps "vadd ?f (vscale s ?c)" l t] fit c nv by (simp add: mult.commute)
    from a_getValue_sum_DERIV[of nv ?p ?m "\<lambda>i. ?f ! i" t "\<lambda>i. ?c ! i", OF ok] lin[OF that]
    show "(?F has_real_derivative (dot (dfdx a) x + dot (dfdu a) u)) (at 0)" by (simp add: dot_map_upt)
  qed
  have "approx_linear ps t h l = Inr a" by (simp add: approx_linear_def lists a(1))
  moreover have "multi_getValue ps t ?f l = Inr (appr_f a)" using multi_getValue_sum[OF fit] a(3) by (simp add: v_def nv)
  moreover have "quadratic_value a x u = appr_f a + (\<Sum>i < nv. ?g1 i * constraint_deviation h x u ! i) +
      1 / 2 * (\<Sum>i < nv. ?g2 i * (constraint_deviation h x u ! i)\<^sup>2)" if "length x = nx" "length u = nu" for x u
    using val[OF that] a(3) by (simp only: dot_vmul_self[OF c] dot_map_upt)
  ultimately show ?thesis
    using a(2) deriv ok by (intro exI[of _ a] exI[of _ ?g1] exI[of _ ?g2])
      (auto simp: a_getDerivative_DERIV a_getSecondDerivative_DERIV a_getSecondDerivative_nonneg)
qed

text \<open>One constraint \<open>1 + 2 x + 3 u\<close> with a quadratic penalty of scale 10 and the multiplier 4.\<close>

definition unit_constraint :: vector_linear where
  "unit_constraint = \<lparr>vl_dfdx = Mat 1 1 [[2]], vl_dfdu = Mat 1 1 [[3]], vl_f = [1]\<rparr>"

theorem penalty_approximation_correct_witness:
  "\<exists>a. approx_linear [Augmented_Quadratic_Penalty \<lparr>a_scale = 10, a_stepSize = 1\<rparr>] 0 unit_constraint (Some [4]) = Inr a \<and>
       quadratic_dims 1 1 a \<and> appr_f a = 1 \<and> quadratic_value a [1] [1] = 1 + 6 * 5 + 1 / 2 * 10 * 5\<^sup>2"
proof -
  let ?p = "Augmented_Quadratic_Penalty \<lparr>a_scale = 10, a_stepSize = 1\<rparr>"
  have fits: "linear_fits 1 1 1 unit_constraint" "sizes_fit [?p] 1" "multipliers_fit (Some [4]) 1"
    by (simp_all add: linear_fits_def unit_constraint_def sizes_fit_def multipliers_fit_def)
  have "aug_ok (penaltyTerm [?p] i) (multiplier_of (Some [4]) i) \<and> vl_f unit_constraint ! i \<notin> a_kinks (penaltyTerm [?p] i)" for i
    by (simp add: penaltyTerm_def)
  from penalty_approximation_correct[OF fits this, of 0] obtain a d1 d2 where
    a: "approx_linear [?p] 0 unit_constraint (Some [4]) = Inr a" "quadratic_dims 1 1 a"
      "multi_getValue [?p] 0 (vl_f unit_constraint) (Some [4]) = Inr (appr_f a)"
    and deriv: "\<forall>i < 1. (a_getValue (penaltyTerm [?p] i) 0 (multiplier_of (Some [4]) i) has_real_derivative d1 i) (at (vl_f unit_constraint ! i)) \<and>
      d2 i = a_getSecondDerivative (penaltyTerm [?p] i) 0 (multiplier_of (Some [4]) i) (vl_f unit_constraint ! i) \<and> 0 \<le> d2 i \<and>
      (vl_f unit_constraint ! i \<notin> a_kinks2 (penaltyTerm [?p] i) (multiplier_of (Some [4]) i) \<longrightarrow>
        (a_getDerivative (penaltyTerm [?p] i) 0 (multiplier_of (Some [4]) i) has_real_derivative d2 i) (at (vl_f unit_constraint ! i)))"
    and taylor: "\<forall>x u. length x = 1 \<longrightarrow> length u = 1 \<longrightarrow>
      (\<exists>F. (\<forall>s. multi_getValue [?p] 0 (vadd (vl_f unit_constraint) (vscale s (constraint_deviation unit_constraint x u))) (Some [4]) = Inr (F s)) \<and>
         (F has_real_derivative (dot (dfdx a) x + dot (dfdu a) u)) (at 0)) \<and>
      quadratic_value a x u = appr_f a + (\<Sum>i < 1. d1 i * constraint_deviation unit_constraint x u ! i) +
        1 / 2 * (\<Sum>i < 1. d2 i * (constraint_deviation unit_constraint x u ! i)\<^sup>2)"
    by (elim exE conjE) (rule that)
  have d: "(a_getValue ?p 0 4 has_real_derivative d1 0) (at 1)" "d2 0 = 10"
    using deriv by (simp_all add: penaltyTerm_def multiplier_of_def unit_constraint_def)
  have "constraint_deviation unit_constraint [1] [1] = [5]"
    by (simp add: constraint_deviation_def unit_constraint_def mv_def vadd_def dot_def m_at_def)
  then have q: "quadratic_value a [1] [1] = appr_f a + d1 0 * 5 + 1 / 2 * (d2 0 * 5\<^sup>2)" using taylor[rule_format, of "[1]" "[1]"] by simp
  have "d1 0 = a_getDerivative ?p 0 4 1" using DERIV_unique[OF d(1) a_getDerivative_DERIV[of ?p 4 1 0]] by simp
  moreover have "appr_f a = 1"
    using a(3) by (simp add: multi_getValue_def sizes_fit_def unit_constraint_def getMultiplier_def eigen_at_def penaltyTerm_def)
  ultimately show ?thesis using a q d(2) by auto
qed

end
