(* ===== verification/Constraint_Terms.thy ===== *)
theory Constraint_Terms
  imports Approximation_Types Term_Collection
begin

text \<open>
  Constraints of \<open>core/ocs2_core\<close>: the interfaces \<open>StateConstraint\<close> and \<open>StateInputConstraint\<close>, the linear
  constraints, and the collections that stack the active terms. A constraint is the record of its virtual
  methods over a point \<open>'x\<close>: the state, or the state and the input. The pre-computation object that the
  code passes along is part of those methods.
\<close>

section \<open>Constraints\<close>

datatype constraint_order = Linear_Order | Quadratic_Order

record 'x constraint =
  c_getOrder :: constraint_order
  c_isActive :: "scalar \<Rightarrow> bool"
  c_getNumConstraints :: "scalar \<Rightarrow> nat"
  c_getValue :: "scalar \<Rightarrow> 'x \<Rightarrow> vector_t result"
  c_getLinearApproximation :: "scalar \<Rightarrow> 'x \<Rightarrow> vector_linear result"
  c_getQuadraticApproximation :: "scalar \<Rightarrow> 'x \<Rightarrow> vector_quadratic result"

type_synonym state_constraint = "vector_t constraint"
type_synonym state_input_constraint = "(vector_t \<times> vector_t) constraint"

text \<open>The approximations of the base classes, which only throw.\<close>

definition StateInputConstraint_linear :: "constraint_order \<Rightarrow> vector_linear result" where
  "StateInputConstraint_linear order =
     (case order of
        Linear_Order \<Rightarrow> Inl (Runtime_Error ''[StateInputConstraint] Linear approximation not implemented!'')
      | Quadratic_Order \<Rightarrow> Inl (Runtime_Error ''[StateInputConstraint] The class only provides Quadratic approximation! call getQuadraticApproximation()''))"

definition StateInputConstraint_quadratic :: "constraint_order \<Rightarrow> vector_quadratic result" where
  "StateInputConstraint_quadratic order =
     (case order of
        Quadratic_Order \<Rightarrow> Inl (Runtime_Error ''[StateConstraint] Quadratic approximation not implemented!'')
      | Linear_Order \<Rightarrow> Inl (Runtime_Error ''[StateConstraint] The class only provides Linear approximation! call getLinearApproximation()''))"

definition LinearStateInputConstraint :: "vector_t \<Rightarrow> dmatrix \<Rightarrow> dmatrix \<Rightarrow> state_input_constraint" where
  "LinearStateInputConstraint e C D =
     (let value_at = (\<lambda>(x, u). bind_result (bind_result (mat_vmult C x) (vec_add e)) (\<lambda>g.
                               bind_result (mat_vmult D u) (vec_add g)))
      in \<lparr>c_getOrder = Linear_Order, c_isActive = (\<lambda>_. True), c_getNumConstraints = (\<lambda>_. length e),
          c_getValue = (\<lambda>_. value_at),
          c_getLinearApproximation = (\<lambda>_ p. bind_result (value_at p) (\<lambda>g. Inr \<lparr>vl_dfdx = C, vl_dfdu = D, vl_f = g\<rparr>)),
          c_getQuadraticApproximation = (\<lambda>_ _. StateInputConstraint_quadratic Linear_Order)\<rparr>)"

definition LinearStateConstraint :: "vector_t \<Rightarrow> dmatrix \<Rightarrow> state_constraint" where
  "LinearStateConstraint h F =
     (let value_at = (\<lambda>x. bind_result (mat_vmult F x) (vec_add h))
      in \<lparr>c_getOrder = Linear_Order, c_isActive = (\<lambda>_. True), c_getNumConstraints = (\<lambda>_. length h),
          c_getValue = (\<lambda>_. value_at),
          c_getLinearApproximation = (\<lambda>_ x. bind_result (value_at x) (\<lambda>g. Inr \<lparr>vl_dfdx = F, vl_dfdu = empty_mat, vl_f = g\<rparr>)),
          c_getQuadraticApproximation = (\<lambda>_ _. StateInputConstraint_quadratic Linear_Order)\<rparr>)"

section \<open>Collections\<close>

definition collection_num :: "'x constraint collection \<Rightarrow> scalar \<Rightarrow> nat" where
  "collection_num c time =
     sum_list (map (\<lambda>k. c_getNumConstraints k time) (filter (\<lambda>k. c_isActive k time) (col_terms c)))"

definition collection_termsSize :: "'x constraint collection \<Rightarrow> scalar \<Rightarrow> nat list" where
  "collection_termsSize c time = map (\<lambda>k. if c_isActive k time then c_getNumConstraints k time else 0) (col_terms c)"

definition collection_value :: "'x constraint collection \<Rightarrow> scalar \<Rightarrow> 'x \<Rightarrow> vector_t list result" where
  "collection_value c time p = map_result (\<lambda>k. if c_isActive k time then c_getValue k time p else Inr []) (col_terms c)"

definition StateConstraintCollection_getNumConstraints :: "state_constraint collection \<Rightarrow> scalar \<Rightarrow> nat" where
  "StateConstraintCollection_getNumConstraints = collection_num"

definition StateConstraintCollection_getTermsSize :: "state_constraint collection \<Rightarrow> scalar \<Rightarrow> nat list" where
  "StateConstraintCollection_getTermsSize = collection_termsSize"

definition StateConstraintCollection_getValue :: "state_constraint collection \<Rightarrow> scalar \<Rightarrow> vector_t \<Rightarrow> vector_t list result" where
  "StateConstraintCollection_getValue = collection_value"

text \<open>\<open>v.segment(i, n) = w\<close> and \<open>A.middleRows(i, n) = B\<close>.\<close>

definition set_segment :: "vector_t \<Rightarrow> nat \<Rightarrow> vector_t \<Rightarrow> vector_t result" where
  "set_segment v i w =
     (if i + length w \<le> length v then Inr (take i v @ w @ drop (i + length w) v) else Inl Assertion_Failed)"

definition set_middleRows :: "dmatrix \<Rightarrow> nat \<Rightarrow> nat \<Rightarrow> dmatrix \<Rightarrow> dmatrix result" where
  "set_middleRows A i n B =
     (if i + n \<le> m_rows A \<and> m_rows B = n \<and> m_cols B = m_cols A then
        Inr (Mat (m_rows A) (m_cols A) (take i (m_data A) @ m_data B @ drop (i + n) (m_data A)))
      else Inl Assertion_Failed)"

definition stack_linear :: "bool \<Rightarrow> vector_linear \<Rightarrow> vector_linear \<times> nat \<Rightarrow> (vector_linear \<times> nat) result" where
  "stack_linear withInput b s =
     (case s of (a, i) \<Rightarrow>
        let nc = length (vl_f b) in
        bind_result (set_segment (vl_f a) i (vl_f b)) (\<lambda>f.
        bind_result (set_middleRows (vl_dfdx a) i nc (vl_dfdx b)) (\<lambda>x.
        bind_result (if withInput then set_middleRows (vl_dfdu a) i nc (vl_dfdu b) else Inr (vl_dfdu a)) (\<lambda>u.
        Inr (a\<lparr>vl_f := f, vl_dfdx := x, vl_dfdu := u\<rparr>, i + nc)))))"

definition collection_linear ::
  "scalar \<Rightarrow> bool \<Rightarrow> nat \<Rightarrow> int \<Rightarrow> 'x constraint collection \<Rightarrow> scalar \<Rightarrow> 'x \<Rightarrow> vector_linear result" where
  "collection_linear junk withInput nx nu c time p =
     (let start = resize_VectorLinear junk (collection_num c time) nx nu \<lparr>vl_dfdx = empty_mat, vl_dfdu = empty_mat, vl_f = []\<rparr> in
      bind_result (fold_result (\<lambda>k s. if c_isActive k time
           then bind_result (c_getLinearApproximation k time p) (\<lambda>b. stack_linear withInput b s) else Inr s)
         (col_terms c) (start, 0)) (\<lambda>s. Inr (fst s)))"

definition StateConstraintCollection_getLinearApproximation ::
  "scalar \<Rightarrow> state_constraint collection \<Rightarrow> scalar \<Rightarrow> vector_t \<Rightarrow> vector_linear result" where
  "StateConstraintCollection_getLinearApproximation junk c time state =
     collection_linear junk False (length state) (- 1) c time state"

definition StateInputConstraintCollection_getLinearApproximation ::
  "scalar \<Rightarrow> state_input_constraint collection \<Rightarrow> scalar \<Rightarrow> vector_t \<Rightarrow> vector_t \<Rightarrow> vector_linear result" where
  "StateInputConstraintCollection_getLinearApproximation junk c time state input =
     collection_linear junk True (length state) (int (length input)) c time (state, input)"

text \<open>The second derivatives are appended, with or without the ones of the input.\<close>

definition stack_quadratic :: "bool \<Rightarrow> vector_quadratic \<Rightarrow> vector_quadratic \<times> nat \<Rightarrow> (vector_quadratic \<times> nat) result" where
  "stack_quadratic withInput b s =
     (case s of (a, i) \<Rightarrow>
        let nc = length (vl_f b) in
        bind_result (set_segment (vl_f a) i (vl_f b)) (\<lambda>f.
        bind_result (set_middleRows (vl_dfdx a) i nc (vl_dfdx b)) (\<lambda>x.
        bind_result (if withInput then set_middleRows (vl_dfdu a) i nc (vl_dfdu b) else Inr (vl_dfdu a)) (\<lambda>u.
        Inr (a\<lparr>vl_f := f, vl_dfdx := x, vl_dfdu := u,
               vq_dfdxx := appendVectorToVectorByMoving (vq_dfdxx a) (vq_dfdxx b),
               vq_dfdux := (if withInput then appendVectorToVectorByMoving (vq_dfdux a) (vq_dfdux b) else vq_dfdux a),
               vq_dfduu := (if withInput then appendVectorToVectorByMoving (vq_dfduu a) (vq_dfduu b) else vq_dfduu a)\<rparr>,
             i + nc)))))"

definition collection_quadratic ::
  "scalar \<Rightarrow> bool \<Rightarrow> nat \<Rightarrow> nat \<Rightarrow> 'x constraint collection \<Rightarrow> scalar \<Rightarrow> 'x \<Rightarrow> vector_quadratic result" where
  "collection_quadratic junk withInput nx nu c time p =
     (let n = collection_num c time;
          start = \<lparr>vl_dfdx = mk_mat n nx (\<lambda>_ _. junk), vl_dfdu = (if withInput then mk_mat n nu (\<lambda>_ _. junk) else empty_mat),
                   vl_f = replicate n junk, vq_dfdxx = [], vq_dfdux = [], vq_dfduu = []\<rparr> in
      bind_result (fold_result (\<lambda>k s. if c_isActive k time
           then bind_result (c_getQuadraticApproximation k time p) (\<lambda>b. stack_quadratic withInput b s) else Inr s)
         (col_terms c) (start, 0)) (\<lambda>s. Inr (fst s)))"

definition StateConstraintCollection_getQuadraticApproximation ::
  "scalar \<Rightarrow> state_constraint collection \<Rightarrow> scalar \<Rightarrow> vector_t \<Rightarrow> vector_quadratic result" where
  "StateConstraintCollection_getQuadraticApproximation junk c time state =
     collection_quadratic junk False (length state) 0 c time state"

definition StateInputConstraintCollection_getQuadraticApproximation ::
  "scalar \<Rightarrow> state_input_constraint collection \<Rightarrow> scalar \<Rightarrow> vector_t \<Rightarrow> vector_t \<Rightarrow> vector_quadratic result" where
  "StateInputConstraintCollection_getQuadraticApproximation junk c time state input =
     collection_quadratic junk True (length state) (length input) c time (state, input)"

section \<open>Stacked approximations\<close>

definition row_dot :: "nat \<Rightarrow> vector_t \<Rightarrow> vector_t \<Rightarrow> scalar" where
  "row_dot n r x = (\<Sum>j < n. r ! j * x ! j)"

lemma mv_rows: "mat_wf A \<Longrightarrow> mv A x = map (\<lambda>r. row_dot (m_cols A) r x) (m_data A)"
  by (intro nth_equalityI) (simp_all add: mat_wf_def row_dot_def m_at_def)

definition stackable :: "nat \<Rightarrow> nat \<Rightarrow> vector_linear \<Rightarrow> bool" where
  "stackable nx nu b =
     (mat_wf (vl_dfdx b) \<and> mat_wf (vl_dfdu b) \<and> m_rows (vl_dfdx b) = length (vl_f b) \<and> m_cols (vl_dfdx b) = nx \<and>
      m_rows (vl_dfdu b) = length (vl_f b) \<and> m_cols (vl_dfdu b) = nu)"

text \<open>The approximation after the terms with the approximations \<open>bs\<close>, \<open>N\<close> rows in all.\<close>

definition partial_stack :: "scalar \<Rightarrow> nat \<Rightarrow> nat \<Rightarrow> nat \<Rightarrow> vector_linear list \<Rightarrow> vector_linear" where
  "partial_stack junk N nx nu bs =
     (let k = sum_list (map (\<lambda>b. length (vl_f b)) bs) in
      \<lparr>vl_dfdx = Mat N nx (concat (map (\<lambda>b. m_data (vl_dfdx b)) bs) @ replicate (N - k) (replicate nx junk)),
       vl_dfdu = Mat N nu (concat (map (\<lambda>b. m_data (vl_dfdu b)) bs) @ replicate (N - k) (replicate nu junk)),
       vl_f = concat (map vl_f bs) @ replicate (N - k) junk\<rparr>)"

lemma mk_mat_const: "mk_mat r c (\<lambda>_ _. k) = Mat r c (replicate r (replicate c k))"
  by (simp add: mk_mat_def map_replicate_const)

lemma stackable_lengths:
  assumes "\<And>b. b \<in> set bs \<Longrightarrow> stackable nx nu b"
  shows "length (concat (map (\<lambda>b. m_data (vl_dfdx b)) bs)) = sum_list (map (\<lambda>b. length (vl_f b)) bs)"
    and "length (concat (map (\<lambda>b. m_data (vl_dfdu b)) bs)) = sum_list (map (\<lambda>b. length (vl_f b)) bs)"
proof -
  have "length (m_data (vl_dfdx b)) = length (vl_f b)" "length (m_data (vl_dfdu b)) = length (vl_f b)" if "b \<in> set bs" for b
    using assms[OF that] by (simp_all add: stackable_def mat_wf_def)
  then have "map (\<lambda>b. length (m_data (vl_dfdx b))) bs = map (\<lambda>b. length (vl_f b)) bs"
    "map (\<lambda>b. length (m_data (vl_dfdu b))) bs = map (\<lambda>b. length (vl_f b)) bs" by simp_all
  then show "length (concat (map (\<lambda>b. m_data (vl_dfdx b)) bs)) = sum_list (map (\<lambda>b. length (vl_f b)) bs)"
    and "length (concat (map (\<lambda>b. m_data (vl_dfdu b)) bs)) = sum_list (map (\<lambda>b. length (vl_f b)) bs)"
    unfolding length_concat map_map o_def by (simp_all only:)
qed

lemma stack_linear_step:
  assumes bs: "\<And>b. b \<in> set bs \<Longrightarrow> stackable nx nu b" and b: "stackable nx nu b"
    and N: "sum_list (map (\<lambda>b. length (vl_f b)) (bs @ [b])) \<le> N"
  shows "stack_linear True b (partial_stack junk N nx nu bs, sum_list (map (\<lambda>b. length (vl_f b)) bs)) =
           Inr (partial_stack junk N nx nu (bs @ [b]), sum_list (map (\<lambda>b. length (vl_f b)) (bs @ [b])))"
proof -
  let ?k = "sum_list (map (\<lambda>b. length (vl_f b)) bs)"
  have lf: "length (concat (map vl_f bs)) = ?k" by (simp add: length_concat o_def)
  have lx: "length (concat (map (\<lambda>b. m_data (vl_dfdx b)) bs)) = ?k" "length (concat (map (\<lambda>b. m_data (vl_dfdu b)) bs)) = ?k"
    using stackable_lengths[OF bs] by simp_all
  have "length (m_data (vl_dfdx b)) = length (vl_f b)" "length (m_data (vl_dfdu b)) = length (vl_f b)"
    using b by (simp_all add: stackable_def mat_wf_def)
  with lf lx b N show ?thesis
    by (simp add: stack_linear_def partial_stack_def Let_def set_segment_def set_middleRows_def stackable_def diff_diff_eq)
qed

lemma stack_linear_fold:
  assumes "\<And>k. k \<in> set ks \<Longrightarrow> c_isActive k time \<Longrightarrow> c_getLinearApproximation k time p = Inr (lin k) \<and> stackable nx nu (lin k)"
    and "sum_list (map (\<lambda>k. length (vl_f (lin k))) (filter (\<lambda>k. c_isActive k time) ks)) \<le> N"
  shows "fold_result (\<lambda>k s. if c_isActive k time
           then bind_result (c_getLinearApproximation k time p) (\<lambda>b. stack_linear True b s) else Inr s) ks (partial_stack junk N nx nu [], 0) =
         Inr (partial_stack junk N nx nu (map lin (filter (\<lambda>k. c_isActive k time) ks)),
              sum_list (map (\<lambda>k. length (vl_f (lin k))) (filter (\<lambda>k. c_isActive k time) ks)))"
  using assms
proof (induction ks rule: rev_induct)
  case (snoc k ks)
  let ?act = "filter (\<lambda>k. c_isActive k time) ks"
  have IH: "fold_result (\<lambda>k s. if c_isActive k time
           then bind_result (c_getLinearApproximation k time p) (\<lambda>b. stack_linear True b s) else Inr s) ks (partial_stack junk N nx nu [], 0) =
         Inr (partial_stack junk N nx nu (map lin ?act), sum_list (map (\<lambda>k. length (vl_f (lin k))) ?act))"
    using snoc by auto
  show ?case
  proof (cases "c_isActive k time")
    case True
    have "stack_linear True (lin k) (partial_stack junk N nx nu (map lin ?act), sum_list (map (\<lambda>b. length (vl_f b)) (map lin ?act))) =
        Inr (partial_stack junk N nx nu (map lin ?act @ [lin k]), sum_list (map (\<lambda>b. length (vl_f b)) (map lin ?act @ [lin k])))"
      by (rule stack_linear_step) (use snoc.prems True in \<open>auto simp: o_def\<close>)
    with True snoc.prems(1)[of k] IH show ?thesis by (simp add: fold_result_append o_def)
  next
    case False
    with IH show ?thesis by (simp add: fold_result_append)
  qed
qed simp

lemma partial_stack_full:
  assumes "\<And>b. b \<in> set bs \<Longrightarrow> stackable nx nu b"
  shows "vl_f (partial_stack junk (sum_list (map (\<lambda>b. length (vl_f b)) bs)) nx nu bs) = concat (map vl_f bs)"
    and "mv (vl_dfdx (partial_stack junk (sum_list (map (\<lambda>b. length (vl_f b)) bs)) nx nu bs)) x = concat (map (\<lambda>b. mv (vl_dfdx b) x) bs)"
    and "mv (vl_dfdu (partial_stack junk (sum_list (map (\<lambda>b. length (vl_f b)) bs)) nx nu bs)) u = concat (map (\<lambda>b. mv (vl_dfdu b) u) bs)"
proof -
  let ?N = "sum_list (map (\<lambda>b. length (vl_f b)) bs)" and ?a = "partial_stack junk (sum_list (map (\<lambda>b. length (vl_f b)) bs)) nx nu bs"
  have data: "m_data (vl_dfdx ?a) = concat (map (\<lambda>b. m_data (vl_dfdx b)) bs)" "m_data (vl_dfdu ?a) = concat (map (\<lambda>b. m_data (vl_dfdu b)) bs)"
    "m_cols (vl_dfdx ?a) = nx" "m_cols (vl_dfdu ?a) = nu" "m_rows (vl_dfdx ?a) = ?N" "m_rows (vl_dfdu ?a) = ?N"
    by (simp_all add: partial_stack_def Let_def)
  have len: "length (concat (map (\<lambda>b. m_data (vl_dfdx b)) bs)) = ?N" "length (concat (map (\<lambda>b. m_data (vl_dfdu b)) bs)) = ?N"
    using stackable_lengths[OF assms] by simp_all
  have wf: "mat_wf (vl_dfdx ?a)" "mat_wf (vl_dfdu ?a)"
    using data len assms by (auto simp: mat_wf_def stackable_def)
  have part: "mv (vl_dfdx b) x = map (\<lambda>r. row_dot nx r x) (m_data (vl_dfdx b))" "mv (vl_dfdu b) u = map (\<lambda>r. row_dot nu r u) (m_data (vl_dfdu b))"
    if "b \<in> set bs" for b using assms[OF that] mv_rows[of "vl_dfdx b" x] mv_rows[of "vl_dfdu b" u] by (simp_all add: stackable_def)
  show "vl_f ?a = concat (map vl_f bs)" by (simp add: partial_stack_def Let_def)
  show "mv (vl_dfdx ?a) x = concat (map (\<lambda>b. mv (vl_dfdx b) x) bs)"
    using part by (simp add: mv_rows[OF wf(1)] data map_concat o_def cong: map_cong)
  show "mv (vl_dfdu ?a) u = concat (map (\<lambda>b. mv (vl_dfdu b) u) bs)"
    using part by (simp add: mv_rows[OF wf(2)] data map_concat o_def cong: map_cong)
qed

text \<open>
  The stacked linear approximation of a state-input constraint collection: when every active term returns a
  well-formed approximation with as many rows as \<open>getNumConstraints\<close> says, the collection's approximation
  is the concatenation of the active ones in their order, for the constant and for both products with a
  deviation; no uninitialised entry of the resized matrices is left in it.
\<close>

theorem constraint_stack_correct:
  assumes terms: "\<And>k. k \<in> set (col_terms c) \<Longrightarrow> c_isActive k time \<Longrightarrow>
      c_getLinearApproximation k time (state, input) = Inr (lin k) \<and> stackable (length state) (length input) (lin k) \<and>
      c_getNumConstraints k time = length (vl_f (lin k))"
  shows "\<exists>a. (\<forall>junk. StateInputConstraintCollection_getLinearApproximation junk c time state input = Inr a) \<and>
           vl_f a = concat (map (\<lambda>k. vl_f (lin k)) (filter (\<lambda>k. c_isActive k time) (col_terms c))) \<and>
           (\<forall>x. mv (vl_dfdx a) x = concat (map (\<lambda>k. mv (vl_dfdx (lin k)) x) (filter (\<lambda>k. c_isActive k time) (col_terms c)))) \<and>
           (\<forall>u. mv (vl_dfdu a) u = concat (map (\<lambda>k. mv (vl_dfdu (lin k)) u) (filter (\<lambda>k. c_isActive k time) (col_terms c))))"
proof -
  let ?act = "filter (\<lambda>k. c_isActive k time) (col_terms c)" and ?nx = "length state" and ?nu = "length input"
  define N where "N = sum_list (map (\<lambda>k. length (vl_f (lin k))) ?act)"
  have N_eq: "sum_list (map (\<lambda>b. length (vl_f b)) (map lin ?act)) = N" by (simp add: N_def o_def)
  have stack: "stackable ?nx ?nu b" if "b \<in> set (map lin ?act)" for b using that terms by auto
  have "map (\<lambda>k. c_getNumConstraints k time) ?act = map (\<lambda>k. length (vl_f (lin k))) ?act" using terms by simp
  then have N: "collection_num c time = N" unfolding collection_num_def N_def by (simp only:)
  have start: "resize_VectorLinear junk N ?nx (int ?nu) \<lparr>vl_dfdx = empty_mat, vl_dfdu = empty_mat, vl_f = []\<rparr> = partial_stack junk N ?nx ?nu []" for junk
    by (auto simp: resize_VectorLinear_def partial_stack_def resized_mat_def resized_vec_def mk_mat_const empty_mat_def)
  have lin: "StateInputConstraintCollection_getLinearApproximation junk c time state input = Inr (partial_stack junk N ?nx ?nu (map lin ?act))" for junk
  proof -
    have "c_getLinearApproximation k time (state, input) = Inr (lin k) \<and> stackable ?nx ?nu (lin k)" if "k \<in> set (col_terms c)" "c_isActive k time" for k
      using terms[OF that] by blast
    moreover have "sum_list (map (\<lambda>k. length (vl_f (lin k))) ?act) \<le> N" by (simp add: N_def)
    ultimately have "fold_result (\<lambda>k s. if c_isActive k time
         then bind_result (c_getLinearApproximation k time (state, input)) (\<lambda>b. stack_linear True b s) else Inr s) (col_terms c) (partial_stack junk N ?nx ?nu [], 0) =
       Inr (partial_stack junk N ?nx ?nu (map lin ?act), sum_list (map (\<lambda>k. length (vl_f (lin k))) ?act))"
      by (intro stack_linear_fold)
    then show ?thesis
      unfolding StateInputConstraintCollection_getLinearApproximation_def collection_linear_def N start Let_def by simp
  qed
  have indep: "partial_stack junk N ?nx ?nu (map lin ?act) = partial_stack 0 N ?nx ?nu (map lin ?act)" for junk
    unfolding partial_stack_def N_eq by simp
  note full = partial_stack_full[of "map lin ?act" ?nx ?nu 0, unfolded N_eq, OF stack]
  let ?a = "partial_stack 0 N ?nx ?nu (map lin ?act)"
  have "StateInputConstraintCollection_getLinearApproximation junk c time state input = Inr ?a" for junk
    using lin[of junk] indep[of junk] by simp
  moreover have "vl_f ?a = concat (map (\<lambda>k. vl_f (lin k)) ?act)" using full(1) by (simp only: map_map o_def)
  moreover have "mv (vl_dfdx ?a) x = concat (map (\<lambda>k. mv (vl_dfdx (lin k)) x) ?act)" for x using full(2)[of x] by (simp only: map_map o_def)
  moreover have "mv (vl_dfdu ?a) u = concat (map (\<lambda>k. mv (vl_dfdu (lin k)) u) ?act)" for u using full(3)[of u] by (simp only: map_map o_def)
  ultimately show ?thesis by blast
qed

text \<open>Two linear constraints on one state and one input.\<close>

definition two_constraints :: "state_input_constraint collection" where
  "two_constraints =
     \<lparr>col_terms = [LinearStateInputConstraint [1] (Mat 1 1 [[2]]) (Mat 1 1 [[3]]),
        LinearStateInputConstraint [4, 5] (Mat 2 1 [[6], [7]]) (Mat 2 1 [[8], [9]])], termNameMap = [''a'' \<mapsto> 0, ''b'' \<mapsto> 1]\<rparr>"

theorem constraint_stack_correct_witness:
  "\<exists>a. StateInputConstraintCollection_getLinearApproximation 99 two_constraints 0 [1] [1] = Inr a \<and> vl_f a = [6, 18, 21]"
proof -
  let ?lin = "\<lambda>k. if c_getNumConstraints k (0 :: scalar) = 1 then \<lparr>vl_dfdx = Mat 1 1 [[2]], vl_dfdu = Mat 1 1 [[3]], vl_f = [6 :: scalar]\<rparr>
      else \<lparr>vl_dfdx = Mat 2 1 [[6], [7]], vl_dfdu = Mat 2 1 [[8], [9]], vl_f = [18, 21]\<rparr>"
  have "c_getLinearApproximation k 0 ([1], [1]) = Inr (?lin k) \<and> stackable (length [1 :: scalar]) (length [1 :: scalar]) (?lin k) \<and>
      c_getNumConstraints k 0 = length (vl_f (?lin k))" if "k \<in> set (col_terms two_constraints)" "c_isActive k 0" for k
    using that by (auto simp: two_constraints_def LinearStateInputConstraint_def Let_def stackable_def mat_wf_def mat_vmult_def vec_add_def
        mv_def vadd_def m_at_def upt_rec)
  from constraint_stack_correct[of two_constraints 0 "[1]" "[1]" ?lin, OF this] show ?thesis
    by (auto simp: two_constraints_def LinearStateInputConstraint_def Let_def)
qed

end
