(* ===== verification/Augmented_Lagrangian.thy ===== *)
theory Augmented_Lagrangian
  imports Multidimensional_Penalty Constraint_Terms Model_Data
begin

text \<open>
  \<open>core/ocs2_core/src/augmented_lagrangian\<close>: a constraint together with its multidimensional penalty, and
  the collections of such terms. The state and the state-input classes are the same code over a point
  \<open>'x\<close>; their definitions below are the instances, which differ where the code does: the collection over
  states adds and keeps the state derivatives only.
\<close>

section \<open>A term\<close>

record 'x augmented_lagrangian =
  al_constraint :: "'x constraint"
  al_penalty :: multi_penalty

type_synonym state_augmented_lagrangian = "vector_t augmented_lagrangian"
type_synonym state_input_augmented_lagrangian = "(vector_t \<times> vector_t) augmented_lagrangian"

definition AugmentedLagrangian_array :: "'x constraint \<Rightarrow> augmented_penalty list \<Rightarrow> 'x augmented_lagrangian result" where
  "AugmentedLagrangian_array constraintPtr penaltyPtrArray =
     bind_result (MultidimensionalPenalty_augmented penaltyPtrArray) (\<lambda>p.
     Inr \<lparr>al_constraint = constraintPtr, al_penalty = p\<rparr>)"

definition AugmentedLagrangian_single :: "'x constraint \<Rightarrow> augmented_penalty \<Rightarrow> 'x augmented_lagrangian" where
  "AugmentedLagrangian_single constraintPtr penaltyFunction =
     \<lparr>al_constraint = constraintPtr, al_penalty = MultidimensionalPenalty_single penaltyFunction\<rparr>"

definition al_isActive :: "'x augmented_lagrangian \<Rightarrow> scalar \<Rightarrow> bool" where
  "al_isActive al time = c_isActive (al_constraint al) time"

definition al_getNumConstraints :: "'x augmented_lagrangian \<Rightarrow> scalar \<Rightarrow> nat" where
  "al_getNumConstraints al time = c_getNumConstraints (al_constraint al) time"

definition al_getValue :: "'x augmented_lagrangian \<Rightarrow> scalar \<Rightarrow> 'x \<Rightarrow> multiplier \<Rightarrow> lagrangian_metrics result" where
  "al_getValue al time p m =
     bind_result (c_getValue (al_constraint al) time p) (\<lambda>h.
     bind_result (multi_getValue (al_penalty al) time h (Some (lagrangian m))) (\<lambda>v.
     Inr (LagrangianMetrics (multiplier.penalty m * v) h)))"

definition al_getQuadraticApproximation ::
  "'x augmented_lagrangian \<Rightarrow> scalar \<Rightarrow> 'x \<Rightarrow> multiplier \<Rightarrow> scalar_quadratic result" where
  "al_getQuadraticApproximation al time p m =
     (case c_getOrder (al_constraint al) of
        Linear_Order \<Rightarrow>
          bind_result (c_getLinearApproximation (al_constraint al) time p) (\<lambda>h.
          bind_result (approx_linear (al_penalty al) time h (Some (lagrangian m))) (\<lambda>a.
          Inr (scale_ScalarQuadratic a (multiplier.penalty m))))
      | Quadratic_Order \<Rightarrow>
          bind_result (c_getQuadraticApproximation (al_constraint al) time p) (\<lambda>h.
          bind_result (approx_quadratic (al_penalty al) time h (Some (lagrangian m))) (\<lambda>a.
          Inr (scale_ScalarQuadratic a (multiplier.penalty m)))))"

definition al_updateLagrangian ::
  "'x augmented_lagrangian \<Rightarrow> scalar \<Rightarrow> vector_t \<Rightarrow> multiplier \<Rightarrow> (multiplier \<times> scalar) result" where
  "al_updateLagrangian al time constraint m =
     bind_result (updateMultipliers (al_penalty al) time constraint (lagrangian m)) (\<lambda>l.
     let updated = Multiplier (multiplier.penalty m) l in
     bind_result (multi_getValue (al_penalty al) time constraint (Some (lagrangian updated))) (\<lambda>v.
     Inr (updated, multiplier.penalty updated * v)))"

definition al_initializeLagrangian :: "'x augmented_lagrangian \<Rightarrow> scalar \<Rightarrow> multiplier result" where
  "al_initializeLagrangian al time =
     bind_result (initializeMultipliers (al_penalty al) (al_getNumConstraints al time)) (\<lambda>l. Inr (Multiplier 1 l))"

subsection \<open>The two classes\<close>

definition StateAugmentedLagrangian_create :: "state_constraint \<Rightarrow> augmented_penalty list \<Rightarrow> state_augmented_lagrangian result" where
  "StateAugmentedLagrangian_create = AugmentedLagrangian_array"

definition StateAugmentedLagrangian_create_single :: "state_constraint \<Rightarrow> augmented_penalty \<Rightarrow> state_augmented_lagrangian" where
  "StateAugmentedLagrangian_create_single = AugmentedLagrangian_single"

definition StateInputAugmentedLagrangian_create ::
  "state_input_constraint \<Rightarrow> augmented_penalty list \<Rightarrow> state_input_augmented_lagrangian result" where
  "StateInputAugmentedLagrangian_create = AugmentedLagrangian_array"

definition StateInputAugmentedLagrangian_create_single ::
  "state_input_constraint \<Rightarrow> augmented_penalty \<Rightarrow> state_input_augmented_lagrangian" where
  "StateInputAugmentedLagrangian_create_single = AugmentedLagrangian_single"

definition StateAugmentedLagrangian_getValue ::
  "state_augmented_lagrangian \<Rightarrow> scalar \<Rightarrow> vector_t \<Rightarrow> multiplier \<Rightarrow> lagrangian_metrics result" where
  "StateAugmentedLagrangian_getValue al time state m = al_getValue al time state m"

definition StateAugmentedLagrangian_getQuadraticApproximation ::
  "state_augmented_lagrangian \<Rightarrow> scalar \<Rightarrow> vector_t \<Rightarrow> multiplier \<Rightarrow> scalar_quadratic result" where
  "StateAugmentedLagrangian_getQuadraticApproximation al time state m = al_getQuadraticApproximation al time state m"

definition StateAugmentedLagrangian_updateLagrangian ::
  "state_augmented_lagrangian \<Rightarrow> scalar \<Rightarrow> vector_t \<Rightarrow> vector_t \<Rightarrow> multiplier \<Rightarrow> (multiplier \<times> scalar) result" where
  "StateAugmentedLagrangian_updateLagrangian al time state constraint m = al_updateLagrangian al time constraint m"

definition StateInputAugmentedLagrangian_updateLagrangian ::
  "state_input_augmented_lagrangian \<Rightarrow> scalar \<Rightarrow> vector_t \<Rightarrow> vector_t \<Rightarrow> vector_t \<Rightarrow> multiplier \<Rightarrow> (multiplier \<times> scalar) result" where
  "StateInputAugmentedLagrangian_updateLagrangian al time state input constraint m = al_updateLagrangian al time constraint m"

section \<open>Collections\<close>

definition getNumberOfActiveConstraints :: "'x augmented_lagrangian collection \<Rightarrow> scalar \<Rightarrow> nat" where
  "getNumberOfActiveConstraints c time =
     fold (\<lambda>al n. if al_isActive al time then n + al_getNumConstraints al time else n) (col_terms c) 0"

definition alc_getValue ::
  "'x augmented_lagrangian collection \<Rightarrow> scalar \<Rightarrow> 'x \<Rightarrow> multiplier list \<Rightarrow> lagrangian_metrics list result" where
  "alc_getValue c time p ms =
     map_result (\<lambda>(i, al). if al_isActive al time then bind_result (vec_at ms i) (\<lambda>m. al_getValue al time p m)
                           else Inr (LagrangianMetrics 0 []))
       (enumerate 0 (col_terms c))"

text \<open>The first active term and the accumulation of the active ones after it with \<open>combine\<close>.\<close>

definition first_active :: "('t \<Rightarrow> bool) \<Rightarrow> 't list \<Rightarrow> nat" where
  "first_active act ts = length (takeWhile (\<lambda>t. \<not> act t) ts)"

definition accumulate_active ::
  "(scalar_quadratic \<Rightarrow> scalar_quadratic \<Rightarrow> scalar_quadratic result) \<Rightarrow> ('t \<Rightarrow> bool) \<Rightarrow> (nat \<Rightarrow> 't \<Rightarrow> scalar_quadratic result) \<Rightarrow>
   't list \<Rightarrow> scalar_quadratic \<Rightarrow> scalar_quadratic result" where
  "accumulate_active combine act approx ts zero =
     (let first = first_active act ts in
      if first = length ts then Inr zero
      else bind_result (approx first (ts ! first)) (\<lambda>a.
           fold_result (\<lambda>i a. if act (ts ! i) then bind_result (approx i (ts ! i)) (combine a) else Inr a)
             [Suc first ..< length ts] a))"

definition StateInputAugmentedLagrangianCollection_getQuadraticApproximation ::
  "state_input_augmented_lagrangian collection \<Rightarrow> scalar \<Rightarrow> vector_t \<Rightarrow> vector_t \<Rightarrow> multiplier list \<Rightarrow> scalar_quadratic result" where
  "StateInputAugmentedLagrangianCollection_getQuadraticApproximation c time state input ms =
     accumulate_active add_ScalarQuadratic (\<lambda>al. al_isActive al time)
       (\<lambda>i al. bind_result (vec_at ms i) (\<lambda>m. al_getQuadraticApproximation al time (state, input) m))
       (col_terms c) (Zero_ScalarQuadratic (length state) (int (length input)))"

text \<open>Without an active term the zero approximation is returned at once.\<close>

definition StateAugmentedLagrangianCollection_getQuadraticApproximation ::
  "state_augmented_lagrangian collection \<Rightarrow> scalar \<Rightarrow> vector_t \<Rightarrow> multiplier list \<Rightarrow> scalar_quadratic result" where
  "StateAugmentedLagrangianCollection_getQuadraticApproximation c time state ms =
     (let act = (\<lambda>al. al_isActive al time); zero = Zero_ScalarQuadratic (length state) (- 1) in
      if first_active act (col_terms c) = length (col_terms c) then Inr zero
      else bind_result (accumulate_active add_state_part act
             (\<lambda>i al. bind_result (vec_at ms i) (\<lambda>m. StateAugmentedLagrangian_getQuadraticApproximation al time state m))
             (col_terms c) zero) (\<lambda>a. Inr (a\<lparr>dfdu := [], dfduu := empty_mat, dfdux := empty_mat\<rparr>)))"

definition alc_update_term ::
  "scalar \<Rightarrow> nat \<times> 'x augmented_lagrangian \<Rightarrow> lagrangian_metrics list \<times> multiplier list \<Rightarrow>
   (lagrangian_metrics list \<times> multiplier list) result" where
  "alc_update_term time t s =
     (case t of (i, al) \<Rightarrow> case s of (metrics, ms) \<Rightarrow>
        if al_isActive al time then
          bind_result (vec_at metrics i) (\<lambda>m.
          bind_result (vec_at ms i) (\<lambda>k.
          bind_result (al_updateLagrangian al time (lm_constraint m) k) (\<lambda>(k', p).
          Inr (metrics[i := m\<lparr>lm_penalty := p\<rparr>], ms[i := k']))))
        else Inr (metrics, ms))"

definition alc_updateLagrangian ::
  "'x augmented_lagrangian collection \<Rightarrow> scalar \<Rightarrow> lagrangian_metrics list \<Rightarrow> multiplier list \<Rightarrow>
   (lagrangian_metrics list \<times> multiplier list) result" where
  "alc_updateLagrangian c time metrics ms =
     bind_result (require (length metrics = length ms) Assertion_Failed) (\<lambda>_.
     fold_result (alc_update_term time) (enumerate 0 (col_terms c)) (metrics, ms))"

definition alc_initializeLagrangian :: "'x augmented_lagrangian collection \<Rightarrow> scalar \<Rightarrow> multiplier list result" where
  "alc_initializeLagrangian c time =
     map_result (\<lambda>al. if al_isActive al time then al_initializeLagrangian al time else Inr (Multiplier 0 [])) (col_terms c)"

subsection \<open>The collection over states\<close>

definition StateAugmentedLagrangianCollection_getNumberOfActiveConstraints ::
  "state_augmented_lagrangian collection \<Rightarrow> scalar \<Rightarrow> nat" where
  "StateAugmentedLagrangianCollection_getNumberOfActiveConstraints c time = getNumberOfActiveConstraints c time"

definition StateAugmentedLagrangianCollection_getValue ::
  "state_augmented_lagrangian collection \<Rightarrow> scalar \<Rightarrow> vector_t \<Rightarrow> multiplier list \<Rightarrow> lagrangian_metrics list result" where
  "StateAugmentedLagrangianCollection_getValue c time state ms = alc_getValue c time state ms"

definition StateAugmentedLagrangianCollection_updateLagrangian ::
  "state_augmented_lagrangian collection \<Rightarrow> scalar \<Rightarrow> vector_t \<Rightarrow> lagrangian_metrics list \<Rightarrow> multiplier list \<Rightarrow>
   (lagrangian_metrics list \<times> multiplier list) result" where
  "StateAugmentedLagrangianCollection_updateLagrangian c time state metrics ms = alc_updateLagrangian c time metrics ms"

definition StateAugmentedLagrangianCollection_initializeLagrangian ::
  "state_augmented_lagrangian collection \<Rightarrow> scalar \<Rightarrow> multiplier list result" where
  "StateAugmentedLagrangianCollection_initializeLagrangian c time = alc_initializeLagrangian c time"

section \<open>Updates at one time\<close>

definition al_ok :: "scalar \<Rightarrow> 'x augmented_lagrangian \<Rightarrow> bool" where
  "al_ok t al =
     (sizes_fit (al_penalty al) (al_getNumConstraints al t) \<and> (\<forall>i < al_getNumConstraints al t. \<not> soft (penaltyTerm (al_penalty al) i)) \<and>
      (\<forall>p. \<exists>h. c_getValue (al_constraint al) t p = Inr h \<and> length h = al_getNumConstraints al t))"

definition al_multiplier_ok :: "scalar \<Rightarrow> 'x augmented_lagrangian \<Rightarrow> multiplier \<Rightarrow> bool" where
  "al_multiplier_ok t al m =
     (if al_isActive al t then
        multiplier.penalty m = 1 \<and> length (lagrangian m) = al_getNumConstraints al t \<and>
        (\<forall>i < al_getNumConstraints al t. admissible (penaltyTerm (al_penalty al) i) (lagrangian m ! i))
      else m = Multiplier 0 [])"

definition multipliers_ok :: "scalar \<Rightarrow> 'x augmented_lagrangian collection \<Rightarrow> multiplier list \<Rightarrow> bool" where
  "multipliers_ok t c ms =
     (length ms = length (col_terms c) \<and> (\<forall>i < length ms. al_multiplier_ok t (col_terms c ! i) (ms ! i)))"

lemma map_result_admissible:
  assumes "\<And>i. i < n \<Longrightarrow> \<exists>l. f i = Inr l \<and> P i l"
  shows "\<exists>ls. map_result f [0 ..< n] = Inr ls \<and> length ls = n \<and> (\<forall>i < n. P i (ls ! i))"
proof -
  obtain g where g: "\<And>i. i < n \<Longrightarrow> f i = Inr (g i) \<and> P i (g i)" using assms by metis
  then have "map_result f [0 ..< n] = Inr (map g [0 ..< n])" by (intro map_result_all) simp
  with g show ?thesis by auto
qed

lemma initialize_ok:
  assumes "al_ok t al"
  shows "\<exists>m. (if al_isActive al t then al_initializeLagrangian al t else Inr (Multiplier 0 [])) = Inr m \<and> al_multiplier_ok t al m"
proof -
  let ?n = "al_getNumConstraints al t"
  have "\<exists>ls. map_result (\<lambda>i. initializeMultiplier (penaltyTerm (al_penalty al) i)) [0 ..< ?n] = Inr ls \<and> length ls = ?n \<and>
      (\<forall>i < ?n. admissible (penaltyTerm (al_penalty al) i) (ls ! i))"
    using assms by (intro map_result_admissible initializeMultiplier_admissible) (simp add: al_ok_def)
  with assms show ?thesis
    by (auto simp: al_ok_def al_multiplier_ok_def al_initializeLagrangian_def initializeMultipliers_def require_def Multiplier_def)
qed

lemma getValue_ok:
  assumes "al_ok t al" "al_isActive al t" "al_multiplier_ok t al m"
  shows "\<exists>h v. c_getValue (al_constraint al) t p = Inr h \<and> length h = al_getNumConstraints al t \<and>
           multi_getValue (al_penalty al) t h (Some (lagrangian m)) = Inr v \<and> al_getValue al t p m = Inr (LagrangianMetrics v h)"
proof -
  from assms(1) obtain h where h: "c_getValue (al_constraint al) t p = Inr h" "length h = al_getNumConstraints al t"
    by (auto simp: al_ok_def)
  with assms have "sizes_fit (al_penalty al) (length h)" "multipliers_fit (Some (lagrangian m)) (length h)"
    by (simp_all add: al_ok_def al_multiplier_ok_def multipliers_fit_def)
  from multi_getValue_sum[OF this, of t] h assms show ?thesis
    by (simp add: al_getValue_def al_multiplier_ok_def)
qed

lemma update_ok:
  assumes "al_ok t al" "al_isActive al t" "al_multiplier_ok t al m" "al_getValue al t p m = Inr x"
  shows "\<exists>m' v. al_updateLagrangian al t (lm_constraint x) m = Inr (m', v) \<and> al_multiplier_ok t al m' \<and>
           al_getValue al t p m' = Inr (x\<lparr>lm_penalty := v\<rparr>)"
proof -
  let ?n = "al_getNumConstraints al t"
  from getValue_ok[OF assms(1-3), of p] assms(4) obtain h where
    h: "c_getValue (al_constraint al) t p = Inr h" "length h = ?n" "lm_constraint x = h" by (auto simp: LagrangianMetrics_def)
  have "\<exists>ls. map_result (\<lambda>i. updateMultiplier (penaltyTerm (al_penalty al) i) t (lagrangian m ! i) (h ! i)) [0 ..< ?n] = Inr ls \<and> length ls = ?n \<and>
      (\<forall>i < ?n. admissible (penaltyTerm (al_penalty al) i) (ls ! i))"
    using assms(1) by (intro map_result_admissible updateMultiplier_admissible) (simp add: al_ok_def)
  then obtain ls where ls: "updateMultipliers (al_penalty al) t h (lagrangian m) = Inr ls" "length ls = ?n"
    "\<forall>i < ?n. admissible (penaltyTerm (al_penalty al) i) (ls ! i)"
    using assms h by (auto simp: updateMultipliers_def require_def al_ok_def al_multiplier_ok_def)
  let ?m = "Multiplier 1 ls"
  have m: "al_multiplier_ok t al ?m" using ls assms(2) by (simp add: al_multiplier_ok_def Multiplier_def)
  from getValue_ok[OF assms(1,2) m, of p] h ls(1) assms obtain v where
    "multi_getValue (al_penalty al) t h (Some ls) = Inr v" "al_getValue al t p ?m = Inr (LagrangianMetrics v h)"
    by (auto simp: Multiplier_def)
  with ls(1) h(3) m assms(2,3) show ?thesis
    by (intro exI[of _ ?m] exI[of _ v]) (cases x, simp add: al_updateLagrangian_def al_multiplier_ok_def Multiplier_def LagrangianMetrics_def)
qed

lemma collection_initialize_ok:
  assumes "\<And>al. al \<in> set (col_terms c) \<Longrightarrow> al_ok t al"
  shows "\<exists>ms. alc_initializeLagrangian c t = Inr ms \<and> multipliers_ok t c ms"
proof -
  let ?f = "\<lambda>al. if al_isActive al t then al_initializeLagrangian al t else Inr (Multiplier 0 [])"
  have "\<forall>al \<in> set (col_terms c). \<exists>m. ?f al = Inr m \<and> al_multiplier_ok t al m"
    using initialize_ok assms by blast
  then obtain g where g: "\<forall>al \<in> set (col_terms c). ?f al = Inr (g al) \<and> al_multiplier_ok t al (g al)" by metis
  then have "map_result ?f (col_terms c) = Inr (map g (col_terms c))" by (intro map_result_all) blast
  with g show ?thesis by (auto simp: alc_initializeLagrangian_def multipliers_ok_def)
qed

lemma alc_getValue_iff:
  "alc_getValue c t p ms = Inr xs \<longleftrightarrow> length xs = length (col_terms c) \<and>
     (\<forall>i < length (col_terms c). (if al_isActive (col_terms c ! i) t then bind_result (vec_at ms i) (al_getValue (col_terms c ! i) t p)
        else Inr (LagrangianMetrics 0 [])) = Inr (xs ! i))"
  by (simp add: alc_getValue_def map_result_nth_iff nth_enumerate_eq)

lemma collection_getValue_ok:
  assumes "\<And>al. al \<in> set (col_terms c) \<Longrightarrow> al_ok t al" "multipliers_ok t c ms"
  shows "\<exists>xs. alc_getValue c t p ms = Inr xs"
proof -
  let ?P = "\<lambda>i x. (if al_isActive (col_terms c ! i) t then bind_result (vec_at ms i) (al_getValue (col_terms c ! i) t p)
        else Inr (LagrangianMetrics 0 [])) = Inr x"
  have "\<exists>x. ?P i x" if "i < length (col_terms c)" for i
  proof (cases "al_isActive (col_terms c ! i) t")
    case True
    have "al_ok t (col_terms c ! i)" "al_multiplier_ok t (col_terms c ! i) (ms ! i)" "i < length ms"
      using assms(1)[OF nth_mem[OF that]] assms(2) that by (simp_all add: multipliers_ok_def)
    from getValue_ok[OF this(1) True this(2), of p] this(3) True show ?thesis by auto
  qed simp
  then obtain g where "\<And>i. i < length (col_terms c) \<Longrightarrow> ?P i (g i)" by metis
  then show ?thesis by (intro exI[of _ "map g [0 ..< length (col_terms c)]"]) (simp add: alc_getValue_iff)
qed

text \<open>The update of the terms before \<open>k\<close>: their multipliers are admissible and their metrics are those of the new multipliers.\<close>

definition updated_until ::
  "scalar \<Rightarrow> 'x augmented_lagrangian collection \<Rightarrow> 'x \<Rightarrow> lagrangian_metrics list \<Rightarrow> multiplier list \<Rightarrow> nat \<Rightarrow>
   lagrangian_metrics list \<times> multiplier list \<Rightarrow> bool" where
  "updated_until t c p xs ms k s =
     (case s of (xs', ms') \<Rightarrow>
        length xs' = length (col_terms c) \<and> multipliers_ok t c ms' \<and> alc_getValue c t p ms' = Inr xs' \<and>
        (\<forall>i < length (col_terms c). k \<le> i \<longrightarrow> xs' ! i = xs ! i \<and> ms' ! i = ms ! i) \<and>
        (\<forall>i < length (col_terms c). lm_constraint (xs' ! i) = lm_constraint (xs ! i)))"

lemma update_term_ok:
  assumes "\<And>al. al \<in> set (col_terms c) \<Longrightarrow> al_ok t al" "k < length (col_terms c)" "updated_until t c p xs ms k s"
  shows "\<exists>s'. alc_update_term t (k, col_terms c ! k) s = Inr s' \<and> updated_until t c p xs ms (Suc k) s'"
proof -
  obtain xs' ms' where s: "s = (xs', ms')" by force
  let ?al = "col_terms c ! k"
  note old = assms(3)[unfolded updated_until_def s prod.case]
  have ok: "\<And>i. i < length ms' \<Longrightarrow> al_multiplier_ok t (col_terms c ! i) (ms' ! i)" "length ms' = length (col_terms c)"
    using conjunct1[OF conjunct2[OF old]] by (simp_all add: multipliers_ok_def)
  have len: "k < length xs'" "k < length ms'" using old assms(2) by (simp_all add: multipliers_ok_def)
  show ?thesis
  proof (cases "al_isActive ?al t")
    case True
    have old_value: "\<forall>i < length (col_terms c). (if al_isActive (col_terms c ! i) t then bind_result (vec_at ms' i) (al_getValue (col_terms c ! i) t p)
        else Inr (LagrangianMetrics 0 [])) = Inr (xs' ! i)"
      using old by (simp add: alc_getValue_iff)
    then have "al_getValue ?al t p (ms' ! k) = Inr (xs' ! k)"
      using True assms(2) len by (metis bind_result_Inr vec_at_in)
    moreover have "al_multiplier_ok t ?al (ms' ! k)" by (rule ok(1)[OF len(2)])
    ultimately have "\<exists>m' v. al_updateLagrangian ?al t (lm_constraint (xs' ! k)) (ms' ! k) = Inr (m', v) \<and> al_multiplier_ok t ?al m' \<and>
        al_getValue ?al t p m' = Inr ((xs' ! k)\<lparr>lm_penalty := v\<rparr>)"
      using update_ok[OF assms(1)[OF nth_mem[OF assms(2)]] True] by blast
    then obtain m' v where
      up: "al_updateLagrangian ?al t (lm_constraint (xs' ! k)) (ms' ! k) = Inr (m', v)" "al_multiplier_ok t ?al m'"
          "al_getValue ?al t p m' = Inr ((xs' ! k)\<lparr>lm_penalty := v\<rparr>)" by blast
    let ?s = "(xs'[k := (xs' ! k)\<lparr>lm_penalty := v\<rparr>], ms'[k := m'])"
    have "alc_update_term t (k, ?al) s = Inr ?s" using up(1) len True by (simp add: alc_update_term_def s)
    moreover have "updated_until t c p xs ms (Suc k) ?s"
    proof -
      have "multipliers_ok t c (ms'[k := m'])" using ok up(2) len by (auto simp: multipliers_ok_def nth_list_update)
      moreover have "alc_getValue c t p (ms'[k := m']) = Inr (fst ?s)"
        unfolding alc_getValue_iff
      proof (intro conjI allI impI)
        fix i assume i: "i < length (col_terms c)"
        show "(if al_isActive (col_terms c ! i) t then bind_result (vec_at (ms'[k := m']) i) (al_getValue (col_terms c ! i) t p)
            else Inr (LagrangianMetrics 0 [])) = Inr (fst ?s ! i)"
        proof (cases "i = k")
          case False
          then have "vec_at (ms'[k := m']) i = vec_at ms' i" "fst ?s ! i = xs' ! i" by (simp_all add: vec_at_def)
          with old_value[rule_format, OF i] show ?thesis by (simp only:)
        qed (use up(3) len True in simp)
      qed (use old in simp)
      ultimately show ?thesis using old len by (simp add: updated_until_def nth_list_update)
    qed
    ultimately show ?thesis by blast
  next
    case False
    with old show ?thesis by (simp add: alc_update_term_def s updated_until_def)
  qed
qed

lemma collection_update_ok:
  assumes "\<And>al. al \<in> set (col_terms c) \<Longrightarrow> al_ok t al" "multipliers_ok t c ms" "alc_getValue c t p ms = Inr xs"
  shows "\<exists>xs' ms'. alc_updateLagrangian c t xs ms = Inr (xs', ms') \<and> multipliers_ok t c ms' \<and> alc_getValue c t p ms' = Inr xs' \<and>
           map lm_constraint xs' = map lm_constraint xs"
proof -
  have len: "length xs = length (col_terms c)" "length ms = length (col_terms c)"
    using assms(2,3) by (simp_all add: alc_getValue_iff multipliers_ok_def)
  have "updated_until t c p xs ms 0 (xs, ms)" using assms(2,3) len by (simp add: updated_until_def)
  then have "\<exists>s. fold_result (alc_update_term t) (enumerate 0 (col_terms c)) (xs, ms) = Inr s \<and> updated_until t c p xs ms (length (col_terms c)) s"
    by (intro fold_result_enumerate update_term_ok assms(1))
  then obtain s where
    s: "fold_result (alc_update_term t) (enumerate 0 (col_terms c)) (xs, ms) = Inr s" "updated_until t c p xs ms (length (col_terms c)) s"
    by blast
  obtain xs' ms' where p: "s = (xs', ms')" by force
  have "map lm_constraint xs' = map lm_constraint xs"
    using s(2) len by (intro nth_equalityI) (simp_all add: updated_until_def p)
  with s len show ?thesis by (auto simp: alc_updateLagrangian_def require_def updated_until_def p)
qed

text \<open>Rounds of the method of multipliers at one time: the constraints are evaluated at a point, then the multipliers are updated.\<close>

definition al_rounds :: "'x augmented_lagrangian collection \<Rightarrow> scalar \<Rightarrow> 'x list \<Rightarrow> multiplier list result" where
  "al_rounds c t ps =
     bind_result (alc_initializeLagrangian c t) (fold_result (\<lambda>p ms.
       bind_result (alc_getValue c t p ms) (\<lambda>xs. bind_result (alc_updateLagrangian c t xs ms) (\<lambda>r. Inr (snd r)))) ps)"

section \<open>Properties\<close>

text \<open>
  C17. The multipliers of a collection: when the penalties fit the constraints and none is for soft constraints
  only, initialising the multipliers and any number of updates at the same time never fails; every multiplier
  has the size of its constraint and stays admissible (never negative for the slackness penalty, at least the
  lower limit for the barrier), and a further update leaves metrics that agree with evaluating the terms under
  the new multipliers, with the constraint values unchanged.
\<close>

theorem multipliers_stay_admissible:
  assumes "\<And>al. al \<in> set (col_terms c) \<Longrightarrow> al_ok t al"
  shows "\<exists>ms. al_rounds c t ps = Inr ms \<and> multipliers_ok t c ms \<and>
           (\<forall>p. \<exists>xs xs' ms'. alc_getValue c t p ms = Inr xs \<and> alc_updateLagrangian c t xs ms = Inr (xs', ms') \<and>
              multipliers_ok t c ms' \<and> alc_getValue c t p ms' = Inr xs' \<and> map lm_constraint xs' = map lm_constraint xs)"
proof -
  have further: "\<exists>xs xs' ms'. alc_getValue c t p ms = Inr xs \<and> alc_updateLagrangian c t xs ms = Inr (xs', ms') \<and>
      multipliers_ok t c ms' \<and> alc_getValue c t p ms' = Inr xs' \<and> map lm_constraint xs' = map lm_constraint xs"
    if "multipliers_ok t c ms" for ms p
    using collection_getValue_ok[OF assms that, of p] collection_update_ok[OF assms that] by blast
  from collection_initialize_ok[OF assms] obtain ms0 where ms0: "alc_initializeLagrangian c t = Inr ms0" "multipliers_ok t c ms0" by blast
  have "\<exists>ms. fold_result (\<lambda>p ms. bind_result (alc_getValue c t p ms) (\<lambda>xs. bind_result (alc_updateLagrangian c t xs ms) (\<lambda>r. Inr (snd r)))) ps ms0
      = Inr ms \<and> multipliers_ok t c ms"
  proof (rule fold_result_invariant[where P = "multipliers_ok t c"])
    show "multipliers_ok t c ms0" by (rule ms0(2))
  next
    fix p ms assume "multipliers_ok t c ms"
    from further[OF this, of p] show "\<exists>ms'. bind_result (alc_getValue c t p ms) (\<lambda>xs. bind_result (alc_updateLagrangian c t xs ms) (\<lambda>r. Inr (snd r)))
        = Inr ms' \<and> multipliers_ok t c ms'" by auto
  qed
  with ms0 further show ?thesis by (auto simp: al_rounds_def)
qed

text \<open>The constraint \<open>x - 1\<close> under a slackness penalty.\<close>

definition slack_collection :: "vector_t augmented_lagrangian collection" where
  "slack_collection =
     \<lparr>col_terms = [\<lparr>al_constraint = \<lparr>c_getOrder = Linear_Order, c_isActive = (\<lambda>_. True), c_getNumConstraints = (\<lambda>_. 1),
        c_getValue = (\<lambda>_ x. Inr [x ! 0 - 1]), c_getLinearApproximation = (\<lambda>_ _. Inl Undefined), c_getQuadraticApproximation = (\<lambda>_ _. Inl Undefined)\<rparr>,
        al_penalty = [Slackness_Squared_Hinge_Penalty \<lparr>a_scale = 2, a_stepSize = 1\<rparr>]\<rparr>], termNameMap = [''slack'' \<mapsto> 0]\<rparr>"

theorem multipliers_stay_admissible_witness:
  "\<exists>ms. al_rounds slack_collection 0 [[0], [3], [1]] = Inr ms \<and> multipliers_ok 0 slack_collection ms"
proof -
  have "al_ok 0 al" if "al \<in> set (col_terms slack_collection)" for al
    using that by (simp add: slack_collection_def al_ok_def al_getNumConstraints_def sizes_fit_def penaltyTerm_def)
  from multipliers_stay_admissible[of slack_collection 0 "[[0], [3], [1]]", OF this] show ?thesis by blast
qed

end
