(* ===== verification/Cost_Terms.thy ===== *)
theory Cost_Terms
  imports Augmented_Lagrangian Target_Trajectories "HOL-Library.Multiset"
begin

text \<open>
  Costs of \<open>core/ocs2_core\<close>: quadratic costs, soft constraints, the soft box constraints, and the collections
  that add the active terms. A cost is the record of its virtual methods over a point \<open>'x\<close>.
\<close>

section \<open>Cost terms\<close>

record 'x cost_term =
  k_isActive :: "scalar \<Rightarrow> bool"
  k_getValue :: "scalar \<Rightarrow> 'x \<Rightarrow> target_trajectories \<Rightarrow> scalar result"
  k_getQuadraticApproximation :: "scalar \<Rightarrow> 'x \<Rightarrow> target_trajectories \<Rightarrow> scalar_quadratic result"

type_synonym state_cost = "vector_t cost_term"
type_synonym state_input_cost = "(vector_t \<times> vector_t) cost_term"

definition vec_sub :: "vector_t \<Rightarrow> vector_t \<Rightarrow> vector_t result" where
  "vec_sub u v = vec_add u (vneg v)"

subsection \<open>Quadratic costs\<close>

definition getStateDeviation :: "scalar \<Rightarrow> vector_t \<Rightarrow> target_trajectories \<Rightarrow> vector_t result" where
  "getStateDeviation time state targets = bind_result (getDesiredState targets time) (vec_sub state)"

definition QuadraticStateCost_getValue :: "dmatrix \<Rightarrow> scalar \<Rightarrow> vector_t \<Rightarrow> target_trajectories \<Rightarrow> scalar result" where
  "QuadraticStateCost_getValue Q time state targets =
     bind_result (getStateDeviation time state targets) (\<lambda>x.
     bind_result (mat_vmult Q x) (\<lambda>Qx. bind_result (vec_dot x Qx) (\<lambda>d. Inr (1 / 2 * d))))"

definition QuadraticStateCost_getQuadraticApproximation ::
  "dmatrix \<Rightarrow> scalar \<Rightarrow> vector_t \<Rightarrow> target_trajectories \<Rightarrow> scalar_quadratic result" where
  "QuadraticStateCost_getQuadraticApproximation Q time state targets =
     bind_result (getStateDeviation time state targets) (\<lambda>x.
     bind_result (mat_vmult Q x) (\<lambda>Qx.
     bind_result (vec_dot x Qx) (\<lambda>d.
     Inr (new_ScalarQuadratic\<lparr>dfdxx := Q, dfdx := Qx, appr_f := 1 / 2 * d\<rparr>))))"

definition QuadraticStateCost :: "dmatrix \<Rightarrow> state_cost" where
  "QuadraticStateCost Q =
     \<lparr>k_isActive = (\<lambda>_. True), k_getValue = QuadraticStateCost_getValue Q,
      k_getQuadraticApproximation = QuadraticStateCost_getQuadraticApproximation Q\<rparr>"

definition getStateInputDeviation ::
  "scalar \<Rightarrow> vector_t \<times> vector_t \<Rightarrow> target_trajectories \<Rightarrow> (vector_t \<times> vector_t) result" where
  "getStateInputDeviation time p targets =
     bind_result (getDesiredState targets time) (\<lambda>xd. bind_result (vec_sub (fst p) xd) (\<lambda>x.
     bind_result (getDesiredInput targets time) (\<lambda>ud. bind_result (vec_sub (snd p) ud) (\<lambda>u. Inr (x, u)))))"

definition QuadraticStateInputCost_getValue ::
  "dmatrix \<Rightarrow> dmatrix \<Rightarrow> dmatrix \<Rightarrow> scalar \<Rightarrow> vector_t \<times> vector_t \<Rightarrow> target_trajectories \<Rightarrow> scalar result" where
  "QuadraticStateInputCost_getValue Q R P time p targets =
     bind_result (getStateInputDeviation time p targets) (\<lambda>(x, u).
     bind_result (mat_vmult Q x) (\<lambda>Qx. bind_result (vec_dot x Qx) (\<lambda>xQx.
     bind_result (mat_vmult R u) (\<lambda>Ru. bind_result (vec_dot u Ru) (\<lambda>uRu.
     if m_size P = 0 then Inr (1 / 2 * xQx + 1 / 2 * uRu)
     else bind_result (mat_vmult P x) (\<lambda>Px. bind_result (vec_dot u Px) (\<lambda>uPx.
          Inr (1 / 2 * xQx + 1 / 2 * uRu + uPx))))))))"

definition QuadraticStateInputCost_getQuadraticApproximation ::
  "dmatrix \<Rightarrow> dmatrix \<Rightarrow> dmatrix \<Rightarrow> scalar \<Rightarrow> vector_t \<times> vector_t \<Rightarrow> target_trajectories \<Rightarrow> scalar_quadratic result" where
  "QuadraticStateInputCost_getQuadraticApproximation Q R P time p targets =
     bind_result (getStateInputDeviation time p targets) (\<lambda>(x, u).
     bind_result (mat_vmult Q x) (\<lambda>Qx. bind_result (mat_vmult R u) (\<lambda>Ru.
     bind_result (vec_dot x Qx) (\<lambda>xQx. bind_result (vec_dot u Ru) (\<lambda>uRu.
     let L = \<lparr>dfdxx = Q, dfdux = empty_mat, dfduu = R, dfdx = Qx, dfdu = Ru, appr_f = 1 / 2 * xQx + 1 / 2 * uRu\<rparr> in
     if m_size P = 0 then Inr (L\<lparr>dfdux := zero_mat (length (snd p)) (length (fst p))\<rparr>)
     else bind_result (mat_vmult P x) (\<lambda>Px. bind_result (vec_dot u Px) (\<lambda>uPx. bind_result (vec_add Ru Px) (\<lambda>du.
          bind_result (mat_vmult (tr P) u) (\<lambda>Pu. bind_result (vec_add Qx Pu) (\<lambda>dx.
          Inr (L\<lparr>appr_f := appr_f L + uPx, dfdu := du, dfdx := dx, dfdux := P\<rparr>)))))))))))"

definition QuadraticStateInputCost :: "dmatrix \<Rightarrow> dmatrix \<Rightarrow> dmatrix \<Rightarrow> state_input_cost result" where
  "QuadraticStateInputCost Q R P =
     bind_result (require (m_size P > 0 \<longrightarrow> m_rows P = m_rows R \<and> m_cols P = m_rows Q) Assertion_Failed) (\<lambda>_.
     Inr \<lparr>k_isActive = (\<lambda>_. True), k_getValue = QuadraticStateInputCost_getValue Q R P,
          k_getQuadraticApproximation = QuadraticStateInputCost_getQuadraticApproximation Q R P\<rparr>)"

subsection \<open>Soft constraints\<close>

definition soft_getValue :: "'x constraint \<Rightarrow> multi_penalty \<Rightarrow> scalar \<Rightarrow> 'x \<Rightarrow> target_trajectories \<Rightarrow> scalar result" where
  "soft_getValue c ps time p targets = bind_result (c_getValue c time p) (\<lambda>h. multi_getValue ps time h None)"

definition soft_getQuadraticApproximation ::
  "'x constraint \<Rightarrow> multi_penalty \<Rightarrow> scalar \<Rightarrow> 'x \<Rightarrow> target_trajectories \<Rightarrow> scalar_quadratic result" where
  "soft_getQuadraticApproximation c ps time p targets =
     (case c_getOrder c of
        Linear_Order \<Rightarrow> bind_result (c_getLinearApproximation c time p) (\<lambda>h. approx_linear ps time h None)
      | Quadratic_Order \<Rightarrow> bind_result (c_getQuadraticApproximation c time p) (\<lambda>h. approx_quadratic ps time h None))"

definition soft_constraint :: "'x constraint \<Rightarrow> multi_penalty \<Rightarrow> 'x cost_term" where
  "soft_constraint c ps =
     \<lparr>k_isActive = c_isActive c, k_getValue = soft_getValue c ps,
      k_getQuadraticApproximation = soft_getQuadraticApproximation c ps\<rparr>"

definition StateSoftConstraint :: "state_constraint \<Rightarrow> penalty list \<Rightarrow> state_cost result" where
  "StateSoftConstraint c ps = bind_result (MultidimensionalPenalty_soft ps) (\<lambda>ps. Inr (soft_constraint c ps))"

definition StateSoftConstraint_single :: "state_constraint \<Rightarrow> penalty \<Rightarrow> state_cost" where
  "StateSoftConstraint_single c p = soft_constraint c (MultidimensionalPenalty_single_soft p)"

definition StateInputSoftConstraint :: "state_input_constraint \<Rightarrow> penalty list \<Rightarrow> state_input_cost result" where
  "StateInputSoftConstraint c ps = bind_result (MultidimensionalPenalty_soft ps) (\<lambda>ps. Inr (soft_constraint c ps))"

definition StateInputSoftConstraint_single :: "state_input_constraint \<Rightarrow> penalty \<Rightarrow> state_input_cost" where
  "StateInputSoftConstraint_single c p = soft_constraint c (MultidimensionalPenalty_single_soft p)"

subsection \<open>Box constraints\<close>

record box_constraint =
  box_index :: nat
  box_lower :: scalar
  box_upper :: scalar
  box_penalty :: penalty

record soft_box =
  stateBoxConstraints :: "box_constraint list"
  inputBoxConstraints :: "box_constraint list"
  box_offset :: scalar

text \<open>\<open>std::sort\<close> is one of the sorting functions; the order of equal indices is not relied on.\<close>

definition sortByIndex :: "box_constraint list \<Rightarrow> box_constraint list" where
  "sortByIndex bs = sort_key box_index bs"

definition StateInputSoftBoxConstraint :: "box_constraint list \<Rightarrow> box_constraint list \<Rightarrow> soft_box" where
  "StateInputSoftBoxConstraint xs us =
     \<lparr>stateBoxConstraints = sortByIndex xs, inputBoxConstraints = sortByIndex us, box_offset = 0\<rparr>"

definition box_getValue :: "scalar \<Rightarrow> vector_t \<Rightarrow> box_constraint list \<Rightarrow> scalar result" where
  "box_getValue t h bs =
     fold_result (\<lambda>b f. bind_result (eigen_at h (box_index b)) (\<lambda>hi.
         Inr (f + (getValue (box_penalty b) t (hi - box_lower b) + getValue (box_penalty b) t (box_upper b - hi))))) bs 0"

definition fillQuadraticApproximation ::
  "scalar \<Rightarrow> vector_t \<Rightarrow> box_constraint list \<Rightarrow> scalar \<times> vector_t \<times> dmatrix \<Rightarrow> (scalar \<times> vector_t \<times> dmatrix) result" where
  "fillQuadraticApproximation t h bs =
     fold_result (\<lambda>b (v, d1, d2). bind_result (eigen_at h (box_index b)) (\<lambda>hi.
         let p = box_penalty b; lower = hi - box_lower b; upper = box_upper b - hi; i = box_index b in
         Inr (v + (getValue p t lower + getValue p t upper),
              d1[i := d1 ! i + (getDerivative p t lower - getDerivative p t upper)],
              Mat (m_rows d2) (m_cols d2) ((m_data d2)[i := (m_data d2 ! i)[i := m_at d2 i i +
                (getSecondDerivative p t lower + getSecondDerivative p t upper)]])))) bs"

definition soft_box_getValue :: "soft_box \<Rightarrow> scalar \<Rightarrow> vector_t \<times> vector_t \<Rightarrow> scalar result" where
  "soft_box_getValue b time p =
     bind_result (box_getValue time (fst p) (stateBoxConstraints b)) (\<lambda>x.
     bind_result (box_getValue time (snd p) (inputBoxConstraints b)) (\<lambda>u. Inr (x + u + box_offset b)))"

definition initializeOffset :: "soft_box \<Rightarrow> scalar \<Rightarrow> vector_t \<times> vector_t \<Rightarrow> soft_box result" where
  "initializeOffset b time p =
     bind_result (box_getValue time (fst p) (stateBoxConstraints b)) (\<lambda>x.
     bind_result (box_getValue time (snd p) (inputBoxConstraints b)) (\<lambda>u. Inr (b\<lparr>box_offset := - x - u\<rparr>)))"

definition soft_box_getQuadraticApproximation :: "soft_box \<Rightarrow> scalar \<Rightarrow> vector_t \<times> vector_t \<Rightarrow> scalar_quadratic result" where
  "soft_box_getQuadraticApproximation b time p =
     (let z = Zero_ScalarQuadratic (length (fst p)) (int (length (snd p))) in
      bind_result (fillQuadraticApproximation time (fst p) (stateBoxConstraints b) (appr_f z, dfdx z, dfdxx z)) (\<lambda>(f, dx, dxx).
      bind_result (fillQuadraticApproximation time (snd p) (inputBoxConstraints b) (f, dfdu z, dfduu z)) (\<lambda>(f, du, duu).
      Inr (z\<lparr>appr_f := f + box_offset b, dfdx := dx, dfdxx := dxx, dfdu := du, dfduu := duu\<rparr>))))"

definition soft_box_cost :: "soft_box \<Rightarrow> state_input_cost" where
  "soft_box_cost b =
     \<lparr>k_isActive = (\<lambda>_. True), k_getValue = (\<lambda>time p _. soft_box_getValue b time p),
      k_getQuadraticApproximation = (\<lambda>time p _. soft_box_getQuadraticApproximation b time p)\<rparr>"

section \<open>Collections\<close>

definition cost_collection_value :: "'x cost_term collection \<Rightarrow> scalar \<Rightarrow> 'x \<Rightarrow> target_trajectories \<Rightarrow> scalar result" where
  "cost_collection_value c time p targets =
     fold_result (\<lambda>k v. if k_isActive k time then bind_result (k_getValue k time p targets) (\<lambda>x. Inr (v + x)) else Inr v)
       (col_terms c) 0"

definition StateCostCollection_getValue :: "state_cost collection \<Rightarrow> scalar \<Rightarrow> vector_t \<Rightarrow> target_trajectories \<Rightarrow> scalar result" where
  "StateCostCollection_getValue c time state targets = cost_collection_value c time state targets"

definition StateInputCostCollection_getValue ::
  "state_input_cost collection \<Rightarrow> scalar \<Rightarrow> vector_t \<Rightarrow> vector_t \<Rightarrow> target_trajectories \<Rightarrow> scalar result" where
  "StateInputCostCollection_getValue c time state input targets = cost_collection_value c time (state, input) targets"

definition StateInputCostCollection_getQuadraticApproximation ::
  "state_input_cost collection \<Rightarrow> scalar \<Rightarrow> vector_t \<Rightarrow> vector_t \<Rightarrow> target_trajectories \<Rightarrow> scalar_quadratic result" where
  "StateInputCostCollection_getQuadraticApproximation c time state input targets =
     accumulate_active add_ScalarQuadratic (\<lambda>k. k_isActive k time)
       (\<lambda>_ k. k_getQuadraticApproximation k time (state, input) targets)
       (col_terms c) (Zero_ScalarQuadratic (length state) (int (length input)))"

definition StateCostCollection_getQuadraticApproximation ::
  "state_cost collection \<Rightarrow> scalar \<Rightarrow> vector_t \<Rightarrow> target_trajectories \<Rightarrow> scalar_quadratic result" where
  "StateCostCollection_getQuadraticApproximation c time state targets =
     (let act = (\<lambda>k. k_isActive k time); zero = Zero_ScalarQuadratic (length state) (- 1) in
      if first_active act (col_terms c) = length (col_terms c) then Inr zero
      else bind_result (accumulate_active add_state_part act
             (\<lambda>_ k. k_getQuadraticApproximation k time state targets)
             (col_terms c) zero) (\<lambda>a. Inr (a\<lparr>dfdu := [], dfduu := empty_mat, dfdux := empty_mat\<rparr>)))"

section \<open>The sum of the active terms\<close>

lemma first_active_le: "first_active act ts \<le> length ts"
  by (simp add: first_active_def length_takeWhile_le)

lemma first_active_nth: "first_active act ts < length ts \<Longrightarrow> act (ts ! first_active act ts)"
  using nth_length_takeWhile[of "\<lambda>t. \<not> act t" ts] by (simp add: first_active_def)

lemma before_first_active: "i < first_active act ts \<Longrightarrow> \<not> act (ts ! i)"
  unfolding first_active_def using nth_mem set_takeWhileD takeWhile_nth by metis

text \<open>Any measure \<open>\<mu>\<close> of approximations that \<open>combine\<close> adds up is the sum over the active terms.\<close>

lemma accumulate_active_sum:
  fixes \<mu> :: "scalar_quadratic \<Rightarrow> 'p \<Rightarrow> scalar"
  assumes zero: "ok zero" "\<And>p. \<mu> zero p = 0"
    and combine: "\<And>a b. ok a \<Longrightarrow> ok b \<Longrightarrow> \<exists>s. combine a b = Inr s \<and> ok s \<and> (\<forall>p. \<mu> s p = \<mu> a p + \<mu> b p)"
    and terms: "\<And>i. i < length ts \<Longrightarrow> act (ts ! i) \<Longrightarrow> approx i (ts ! i) = Inr (A i) \<and> ok (A i)"
  shows "\<exists>s. accumulate_active combine act approx ts zero = Inr s \<and> ok s \<and>
           (\<forall>p. \<mu> s p = (\<Sum>i \<in> {i. i < length ts \<and> act (ts ! i)}. \<mu> (A i) p))"
proof (cases "first_active act ts = length ts")
  case True
  then have none: "{i. i < length ts \<and> act (ts ! i)} = {}" using before_first_active[of _ act ts] by auto
  show ?thesis unfolding none using True zero by (simp add: accumulate_active_def)
next
  case False
  let ?k = "first_active act ts"
  have k: "?k < length ts" using False first_active_le[of act ts] by simp
  let ?f = "\<lambda>i a. if act (ts ! i) then bind_result (approx i (ts ! i)) (combine a) else Inr a"
  let ?S = "\<lambda>n. {i. i < n \<and> act (ts ! i)}"
  have "\<exists>s. fold_result ?f [Suc ?k ..< n] (A ?k) = Inr s \<and> ok s \<and> (\<forall>p. \<mu> s p = (\<Sum>i \<in> ?S n. \<mu> (A i) p))"
    if "Suc ?k \<le> n" "n \<le> length ts" for n
    using that
  proof (induction n rule: dec_induct)
    case base
    have "?S (Suc ?k) = {?k}" using before_first_active[of _ act ts] first_active_nth[OF k] by (auto simp: less_Suc_eq)
    then show ?case using terms[OF k first_active_nth[OF k]] by simp
  next
    case (step n)
    then obtain s where s: "fold_result ?f [Suc ?k ..< n] (A ?k) = Inr s" "ok s" "\<forall>p. \<mu> s p = (\<Sum>i \<in> ?S n. \<mu> (A i) p)" by auto
    have up: "[Suc ?k ..< Suc n] = [Suc ?k ..< n] @ [n]" using step.hyps(1) by simp
    show ?case
    proof (cases "act (ts ! n)")
      case True
      have t: "approx n (ts ! n) = Inr (A n)" "ok (A n)" using terms[of n] step.prems True by simp_all
      from combine[OF s(2) t(2)] obtain r where r: "combine s (A n) = Inr r" "ok r" "\<forall>p. \<mu> r p = \<mu> s p + \<mu> (A n) p" by blast
      have "?S (Suc n) = insert n (?S n)" using True by (auto simp: less_Suc_eq)
      with s(3) r(3) have "\<forall>p. \<mu> r p = (\<Sum>i \<in> ?S (Suc n). \<mu> (A i) p)" by simp
      with s(1) t(1) r(1,2) True show ?thesis unfolding up by (simp add: fold_result_append)
    next
      case False
      then have "?S (Suc n) = ?S n" by (auto simp: less_Suc_eq)
      with s False show ?thesis unfolding up by (simp add: fold_result_append)
    qed
  qed
  from this[of "length ts"] k show ?thesis
    using terms[OF k first_active_nth[OF k]] False by (simp add: accumulate_active_def Let_def Suc_leI)
qed

lemma cost_collection_value_sum:
  assumes "\<And>i. i < length (col_terms c) \<Longrightarrow> k_isActive (col_terms c ! i) time \<Longrightarrow> k_getValue (col_terms c ! i) time p targets = Inr (v i)"
  shows "cost_collection_value c time p targets = Inr (\<Sum>i \<in> {i. i < length (col_terms c) \<and> k_isActive (col_terms c ! i) time}. v i)"
proof -
  let ?f = "\<lambda>k v. if k_isActive k time then bind_result (k_getValue k time p targets) (\<lambda>x. Inr (v + x)) else Inr v"
  let ?S = "\<lambda>n. {i. i < n \<and> k_isActive (col_terms c ! i) time}"
  have "fold_result ?f (take n (col_terms c)) 0 = Inr (\<Sum>i \<in> ?S n. v i)" if "n \<le> length (col_terms c)" for n
    using that
  proof (induction n)
    case (Suc n)
    have up: "take (Suc n) (col_terms c) = take n (col_terms c) @ [col_terms c ! n]" using Suc.prems by (simp add: take_Suc_conv_app_nth)
    have IH: "fold_result ?f (take n (col_terms c)) 0 = Inr (\<Sum>i \<in> ?S n. v i)" using Suc by simp
    show ?case
    proof (cases "k_isActive (col_terms c ! n) time")
      case True
      then have "?S (Suc n) = insert n (?S n)" by (auto simp: less_Suc_eq)
      with IH True assms[of n] Suc.prems show ?thesis unfolding up by (simp add: fold_result_append add.commute)
    next
      case False
      then have "?S (Suc n) = ?S n" by (auto simp: less_Suc_eq)
      with IH False show ?thesis unfolding up by (simp add: fold_result_append)
    qed
  qed simp
  from this[of "length (col_terms c)"] show ?thesis by (simp add: cost_collection_value_def)
qed

definition value_at :: "nat \<Rightarrow> nat \<Rightarrow> scalar_quadratic \<Rightarrow> vector_t \<times> vector_t \<Rightarrow> scalar" where
  "value_at nx nu a p = (if length (fst p) = nx \<and> length (snd p) = nu then quadratic_value a (fst p) (snd p) else 0)"

lemma value_at_add:
  "quadratic_dims nx nu a \<Longrightarrow> quadratic_dims nx nu b \<Longrightarrow>
     \<exists>s. add_ScalarQuadratic a b = Inr s \<and> quadratic_dims nx nu s \<and> (\<forall>p. value_at nx nu s p = value_at nx nu a p + value_at nx nu b p)"
  using quadratic_value_add[of nx nu a b] by (auto simp: value_at_def)

lemma value_at_zero: "value_at nx nu (Zero_ScalarQuadratic nx (int nu)) p = 0"
  by (simp add: value_at_def quadratic_value_Zero)

text \<open>The value over states only, whose derivatives with respect to the input are empty.\<close>

definition state_value :: "scalar_quadratic \<Rightarrow> vector_t \<Rightarrow> scalar" where
  "state_value a x = appr_f a + dot (dfdx a) x + 1 / 2 * dot x (mv (dfdxx a) x)"

definition state_dims :: "nat \<Rightarrow> scalar_quadratic \<Rightarrow> bool" where
  "state_dims nx a = (length (dfdx a) = nx \<and> m_rows (dfdxx a) = nx \<and> m_cols (dfdxx a) = nx)"

definition state_value_at :: "nat \<Rightarrow> scalar_quadratic \<Rightarrow> vector_t \<Rightarrow> scalar" where
  "state_value_at nx a x = (if length x = nx then state_value a x else 0)"

lemma state_value_at_add:
  "state_dims nx a \<Longrightarrow> state_dims nx b \<Longrightarrow>
     \<exists>s. add_state_part a b = Inr s \<and> state_dims nx s \<and> (\<forall>x. state_value_at nx s x = state_value_at nx a x + state_value_at nx b x)"
  by (auto simp: add_state_part_def state_dims_def state_value_at_def state_value_def result_simps dot_algebra field_simps)

lemma state_value_at_zero: "state_dims nx (Zero_ScalarQuadratic nx (- 1))" "state_value_at nx (Zero_ScalarQuadratic nx (- 1)) x = 0"
  by (simp_all add: state_dims_def state_value_at_def state_value_def Zero_ScalarQuadratic_def setZero_ScalarQuadratic_def
      dot_zero_left dot_zero_right mv_zero_mat)

lemma StateCostCollection_sum:
  assumes terms: "\<And>i. i < length (col_terms c) \<Longrightarrow> k_isActive (col_terms c ! i) time \<Longrightarrow>
      k_getQuadraticApproximation (col_terms c ! i) time state targets = Inr (A i) \<and> state_dims (length state) (A i)"
  shows "\<exists>a. StateCostCollection_getQuadraticApproximation c time state targets = Inr a \<and> state_dims (length state) a \<and>
           dfdu a = [] \<and> dfduu a = empty_mat \<and> dfdux a = empty_mat \<and>
           (\<forall>x. length x = length state \<longrightarrow>
              state_value a x = (\<Sum>i \<in> {i. i < length (col_terms c) \<and> k_isActive (col_terms c ! i) time}. state_value (A i) x))"
proof -
  let ?nx = "length state" and ?act = "\<lambda>k. k_isActive k time" and ?z = "Zero_ScalarQuadratic (length state) (- 1)"
  have "\<exists>s. accumulate_active add_state_part ?act (\<lambda>_ k. k_getQuadraticApproximation k time state targets) (col_terms c) ?z = Inr s \<and>
      state_dims ?nx s \<and> (\<forall>x. state_value_at ?nx s x = (\<Sum>i \<in> {i. i < length (col_terms c) \<and> ?act (col_terms c ! i)}. state_value_at ?nx (A i) x))"
    by (rule accumulate_active_sum[where ok = "state_dims ?nx"])
       (use state_value_at_zero state_value_at_add terms in \<open>blast+\<close>)
  then obtain s where s: "accumulate_active add_state_part ?act (\<lambda>_ k. k_getQuadraticApproximation k time state targets) (col_terms c) ?z = Inr s"
    "state_dims ?nx s" "\<And>x. state_value_at ?nx s x = (\<Sum>i \<in> {i. i < length (col_terms c) \<and> ?act (col_terms c ! i)}. state_value_at ?nx (A i) x)"
    by blast
  have val: "state_value s x = (\<Sum>i \<in> {i. i < length (col_terms c) \<and> ?act (col_terms c ! i)}. state_value (A i) x)" if "length x = ?nx" for x
    using s(3)[of x] that by (simp add: state_value_at_def)
  show ?thesis
  proof (cases "first_active ?act (col_terms c) = length (col_terms c)")
    case True
    with s(1) have "s = ?z" by (simp add: accumulate_active_def)
    with True s(2) val show ?thesis
      by (simp add: StateCostCollection_getQuadraticApproximation_def Zero_ScalarQuadratic_def setZero_ScalarQuadratic_def)
  next
    case False
    let ?a = "s\<lparr>dfdu := [], dfduu := empty_mat, dfdux := empty_mat\<rparr>"
    have "state_value ?a x = state_value s x" for x by (simp add: state_value_def)
    with False s(1,2) val show ?thesis
      by (intro exI[of _ ?a]) (simp add: StateCostCollection_getQuadraticApproximation_def state_dims_def)
  qed
qed

text \<open>
  The state-input cost collection is the sum of its active terms: when the approximation of each active
  term has the dimensions of the state and the input, and its constant is the value of the term, the
  collection's approximation is well dimensioned, stands for the sum of the active approximations at every
  deviation, and its constant is the collection's \<open>getValue\<close>; the order and the inactive terms play no role.
\<close>

theorem cost_collection_sums_active_terms:
  assumes terms: "\<And>i. i < length (col_terms c) \<Longrightarrow> k_isActive (col_terms c ! i) time \<Longrightarrow>
      k_getQuadraticApproximation (col_terms c ! i) time (state, input) targets = Inr (A i) \<and>
      quadratic_dims (length state) (length input) (A i) \<and>
      k_getValue (col_terms c ! i) time (state, input) targets = Inr (appr_f (A i))"
  shows "\<exists>a. StateInputCostCollection_getQuadraticApproximation c time state input targets = Inr a \<and>
           quadratic_dims (length state) (length input) a \<and>
           StateInputCostCollection_getValue c time state input targets = Inr (appr_f a) \<and>
           (\<forall>x u. length x = length state \<longrightarrow> length u = length input \<longrightarrow>
              quadratic_value a x u = (\<Sum>i \<in> {i. i < length (col_terms c) \<and> k_isActive (col_terms c ! i) time}. quadratic_value (A i) x u))"
proof -
  let ?nx = "length state" and ?nu = "length input" and ?S = "{i. i < length (col_terms c) \<and> k_isActive (col_terms c ! i) time}"
  have "\<exists>s. accumulate_active add_ScalarQuadratic (\<lambda>k. k_isActive k time) (\<lambda>_ k. k_getQuadraticApproximation k time (state, input) targets)
      (col_terms c) (Zero_ScalarQuadratic ?nx (int ?nu)) = Inr s \<and> quadratic_dims ?nx ?nu s \<and>
      (\<forall>p. value_at ?nx ?nu s p = (\<Sum>i \<in> ?S. value_at ?nx ?nu (A i) p))"
    by (rule accumulate_active_sum[where ok = "quadratic_dims ?nx ?nu"])
       (use quadratic_value_Zero(1) value_at_zero value_at_add terms in \<open>blast+\<close>)
  then obtain s where s: "StateInputCostCollection_getQuadraticApproximation c time state input targets = Inr s" "quadratic_dims ?nx ?nu s"
    "\<And>p. value_at ?nx ?nu s p = (\<Sum>i \<in> ?S. value_at ?nx ?nu (A i) p)"
    by (auto simp: StateInputCostCollection_getQuadraticApproximation_def)
  have val: "quadratic_value s x u = (\<Sum>i \<in> ?S. quadratic_value (A i) x u)" if "length x = ?nx" "length u = ?nu" for x u
    using s(3)[of "(x, u)"] that by (simp add: value_at_def)
  have at_zero: "quadratic_value a (zero_vec ?nx) (zero_vec ?nu) = appr_f a" if "quadratic_dims ?nx ?nu a" for a
    using that by (simp add: quadratic_value_def quadratic_dims_def dot_zero_left dot_zero_right)
  have "appr_f s = (\<Sum>i \<in> ?S. appr_f (A i))"
    using val[of "zero_vec ?nx" "zero_vec ?nu"] at_zero[OF s(2)] terms at_zero by simp
  with cost_collection_value_sum[of c time "(state, input)" targets "\<lambda>i. appr_f (A i)"] terms s(1,2) val show ?thesis
    by (simp add: StateInputCostCollection_getValue_def)
qed

text \<open>An inactive cost before two active ones.\<close>

definition constant_cost :: "bool \<Rightarrow> scalar \<Rightarrow> state_input_cost" where
  "constant_cost active v =
     \<lparr>k_isActive = (\<lambda>_. active), k_getValue = (\<lambda>_ _ _. Inr v),
      k_getQuadraticApproximation = (\<lambda>_ p _. Inr ((Zero_ScalarQuadratic (length (fst p)) (int (length (snd p))))\<lparr>appr_f := v\<rparr>))\<rparr>"

definition three_costs :: "state_input_cost collection" where
  "three_costs = \<lparr>col_terms = [constant_cost False 7, constant_cost True 1, constant_cost True 2], termNameMap = Map.empty\<rparr>"

definition no_targets :: target_trajectories where
  "no_targets = \<lparr>timeTrajectory = [], stateTrajectory = [], inputTrajectory = []\<rparr>"

theorem cost_collection_sums_active_terms_witness:
  "\<exists>a. StateInputCostCollection_getQuadraticApproximation three_costs 0 [5] [6] no_targets = Inr a \<and>
       StateInputCostCollection_getValue three_costs 0 [5] [6] no_targets = Inr (appr_f a) \<and> quadratic_dims 1 1 a"
proof -
  let ?A = "\<lambda>i. (Zero_ScalarQuadratic 1 1)\<lparr>appr_f := if i = 0 then 7 else if i = 1 then 1 else (2 :: scalar)\<rparr>"
  have dims: "quadratic_dims (length [5 :: scalar]) (length [6 :: scalar]) (?A i)" for i :: nat
    by (simp add: quadratic_dims_def Zero_ScalarQuadratic_def setZero_ScalarQuadratic_def)
  have "k_getQuadraticApproximation (col_terms three_costs ! i) 0 ([5], [6]) no_targets = Inr (?A i) \<and>
      quadratic_dims (length [5 :: scalar]) (length [6 :: scalar]) (?A i) \<and>
      k_getValue (col_terms three_costs ! i) 0 ([5], [6]) no_targets = Inr (appr_f (?A i))"
    if "i < length (col_terms three_costs)" "k_isActive (col_terms three_costs ! i) 0" for i
    using that dims by (auto simp: three_costs_def constant_cost_def less_Suc_eq numeral_3_eq_3)
  from cost_collection_sums_active_terms[of three_costs 0 "[5]" "[6]" no_targets ?A, OF this] show ?thesis by auto
qed

section \<open>The quadratic cost is its own expansion\<close>

text \<open>
  \<open>QuadraticStateInputCost\<close> with symmetric \<open>Q\<close> and \<open>R\<close>: its quadratic approximation at a point has the
  dimensions of the state and the input and stands exactly for \<open>getValue\<close> at every other point, with and without
  the cross term. For a \<open>Q\<close> that is not symmetric this fails, because the gradient is computed as \<open>Q x\<close>.
\<close>

theorem quadratic_cost_exact:
  assumes sym: "symmetric Q" "symmetric R" "m_rows Q = nx" "m_rows R = nu"
    and P: "m_size P = 0 \<or> m_rows P = nu \<and> m_cols P = nx"
    and targets: "getDesiredState targets t = Inr xd" "length xd = nx" "getDesiredInput targets t = Inr ud" "length ud = nu"
    and point: "length x = nx" "length u = nu"
  shows "\<exists>a. QuadraticStateInputCost_getQuadraticApproximation Q R P t (x, u) targets = Inr a \<and> quadratic_dims nx nu a \<and>
           (\<forall>dx du. length dx = nx \<longrightarrow> length du = nu \<longrightarrow>
              QuadraticStateInputCost_getValue Q R P t (vadd x dx, vadd u du) targets = Inr (quadratic_value a dx du))"
proof -
  define y where "y = vadd x (vneg xd)"
  define v where "v = vadd u (vneg ud)"
  have len: "length y = nx" "length v = nu" using point by (simp_all add: y_def v_def)
  have cols: "m_cols Q = nx" "m_cols R = nu" using sym by (simp_all add: symmetric_def)
  have at: "getStateInputDeviation t (x, u) targets = Inr (y, v)"
    using targets point by (simp add: getStateInputDeviation_def vec_sub_def vec_add_def y_def v_def)
  have shift: "getStateInputDeviation t (vadd x dx, vadd u du) targets = Inr (vadd y dx, vadd v du)"
    if "length dx = nx" "length du = nu" for dx du
  proof -
    have "vadd (vadd x dx) (vneg xd) = vadd y dx" "vadd (vadd u du) (vneg ud) = vadd v du"
      using that targets point by (auto intro!: nth_equalityI simp: vneg_def y_def v_def)
    then show ?thesis using that targets point by (simp add: getStateInputDeviation_def vec_sub_def vec_add_def)
  qed
  have swap: "dot d (mv Q y) = dot y (mv Q d)" "dot (mv Q y) d = dot y (mv Q d)" if "length d = nx" for d
    using symmetric_dot[OF sym(1), of d y] dot_comm[of "mv Q y" d] that sym len by simp_all
  have swap_u: "dot d (mv R v) = dot v (mv R d)" "dot (mv R v) d = dot v (mv R d)" if "length d = nu" for d
    using symmetric_dot[OF sym(2), of d v] dot_comm[of "mv R v" d] that sym len by simp_all
  note compute = QuadraticStateInputCost_getQuadraticApproximation_def QuadraticStateInputCost_getValue_def at shift Let_def
    result_simps quadratic_dims_def quadratic_value_def dot_algebra mv_zero_mat dot_zero_right
  show ?thesis
  proof (cases "m_size P = 0")
    case True
    let ?a = "\<lparr>dfdxx = Q, dfdux = zero_mat nu nx, dfduu = R, dfdx = mv Q y, dfdu = mv R v, appr_f = 1 / 2 * dot y (mv Q y) + 1 / 2 * dot v (mv R v)\<rparr>"
    have "QuadraticStateInputCost_getValue Q R P t (vadd x dx, vadd u du) targets = Inr (quadratic_value ?a dx du)"
      if d: "length dx = nx" "length du = nu" for dx du
      using True cols sym len d by (simp add: compute swap[OF d(1)] swap_u[OF d(2)]) (simp add: field_simps)
    moreover have "QuadraticStateInputCost_getQuadraticApproximation Q R P t (x, u) targets = Inr ?a" "quadratic_dims nx nu ?a"
      using True cols sym len point by (simp_all add: compute)
    ultimately show ?thesis by blast
  next
    case False
    with P have dims: "m_rows P = nu" "m_cols P = nx" by simp_all
    have cross: "dot (mv (tr P) v) d = dot v (mv P d)" if "length d = nx" for d
      using dot_tr_left[of v P d] dot_comm[of "mv (tr P) v" d] that dims len by simp
    have cross_u: "dot (mv P y) d = dot d (mv P y)" if "length d = nu" for d using that dims by (intro dot_comm) simp
    let ?a = "\<lparr>dfdxx = Q, dfdux = P, dfduu = R, dfdx = vadd (mv Q y) (mv (tr P) v), dfdu = vadd (mv R v) (mv P y),
      appr_f = 1 / 2 * dot y (mv Q y) + 1 / 2 * dot v (mv R v) + dot v (mv P y)\<rparr>"
    have "QuadraticStateInputCost_getValue Q R P t (vadd x dx, vadd u du) targets = Inr (quadratic_value ?a dx du)"
      if d: "length dx = nx" "length du = nu" for dx du
      using False cols dims sym len d
      by (simp add: compute swap[OF d(1)] swap_u[OF d(2)] cross[OF d(1)] cross_u[OF d(2)]) (simp add: field_simps)
    moreover have "QuadraticStateInputCost_getQuadraticApproximation Q R P t (x, u) targets = Inr ?a" "quadratic_dims nx nu ?a"
      using False cols dims sym len point by (simp_all add: compute)
    ultimately show ?thesis by blast
  qed
qed

text \<open>The target is the origin for the state and the input.\<close>

definition origin_targets :: target_trajectories where
  "origin_targets = \<lparr>timeTrajectory = [0], stateTrajectory = [[0]], inputTrajectory = [[0]]\<rparr>"

lemma origin_desired: "getDesiredState origin_targets 0 = Inr [0]" "getDesiredInput origin_targets 0 = Inr [0]"
  by (simp_all add: origin_targets_def getDesiredState_def getDesiredInput_def interpolate_vector_def empty_TargetTrajectories_def
      interpolate_at_def timeSegment_def interpolate_def result_simps)

theorem quadratic_cost_exact_witness:
  "\<exists>a. QuadraticStateInputCost_getQuadraticApproximation (Mat 1 1 [[4]]) (Mat 1 1 [[2]]) (Mat 1 1 [[1]]) 0 ([3], [5]) origin_targets = Inr a \<and>
       QuadraticStateInputCost_getValue (Mat 1 1 [[4]]) (Mat 1 1 [[2]]) (Mat 1 1 [[1]]) 0 (vadd [3] [1], vadd [5] [2]) origin_targets =
         Inr (quadratic_value a [1] [2])"
  using quadratic_cost_exact[of "Mat 1 1 [[4]]" "Mat 1 1 [[2]]" 1 1 "Mat 1 1 [[1]]" origin_targets 0 "[0]" "[0]" "[3]" "[5]"]
  by (auto simp: symmetric_def origin_desired)

text \<open>Without symmetry the gradient is wrong: for the cost \<open>x y\<close>, written with the matrix that has a single entry.\<close>

lemma quadratic_cost_nonsymmetric:
  "QuadraticStateCost_getValue (Mat 2 2 [[0, 2], [0, 0]]) 0 [x, y] \<lparr>timeTrajectory = [0], stateTrajectory = [[0, 0]], inputTrajectory = []\<rparr> = Inr (x * y)"
  "\<exists>a. QuadraticStateCost_getQuadraticApproximation (Mat 2 2 [[0, 2], [0, 0]]) 0 [1, 1]
      \<lparr>timeTrajectory = [0], stateTrajectory = [[0, 0]], inputTrajectory = []\<rparr> = Inr a \<and> dfdx a = [2, 0]"
  by (simp_all add: QuadraticStateCost_getValue_def QuadraticStateCost_getQuadraticApproximation_def getStateDeviation_def getDesiredState_def
      interpolate_vector_def empty_TargetTrajectories_def interpolate_at_def timeSegment_def interpolate_def result_simps vec_sub_def vec_add_def vadd_def
      vneg_def mat_vmult_def mv_def m_at_def vec_dot_def dot_def upt_rec lessThan_Suc numeral_2_eq_2)

section \<open>Box constraints\<close>

definition box_fits :: "vector_t \<Rightarrow> box_constraint list \<Rightarrow> bool" where
  "box_fits h bs = (\<forall>b \<in> set bs. box_index b < length h)"

definition box_term :: "scalar \<Rightarrow> vector_t \<Rightarrow> box_constraint \<Rightarrow> scalar" where
  "box_term t h b = getValue (box_penalty b) t (h ! box_index b - box_lower b) + getValue (box_penalty b) t (box_upper b - h ! box_index b)"

definition box_slope :: "scalar \<Rightarrow> vector_t \<Rightarrow> box_constraint \<Rightarrow> scalar" where
  "box_slope t h b =
     getDerivative (box_penalty b) t (h ! box_index b - box_lower b) - getDerivative (box_penalty b) t (box_upper b - h ! box_index b)"

definition box_smooth :: "vector_t \<Rightarrow> box_constraint \<Rightarrow> bool" where
  "box_smooth h b = (penalty_ok (box_penalty b) \<and> h ! box_index b - box_lower b \<notin> kinks (box_penalty b) \<and> box_upper b - h ! box_index b \<notin> kinks (box_penalty b))"

lemma box_fits_Cons [simp]: "box_fits h (b # bs) = (box_index b < length h \<and> box_fits h bs)"
  by (simp add: box_fits_def)

lemma box_getValue_from:
  assumes "box_fits h bs"
  shows "fold_result (\<lambda>b f. bind_result (eigen_at h (box_index b)) (\<lambda>hi.
         Inr (f + (getValue (box_penalty b) t (hi - box_lower b) + getValue (box_penalty b) t (box_upper b - hi))))) bs f =
       Inr (f + sum_list (map (box_term t h) bs))"
  using assms by (induction bs arbitrary: f) (simp_all add: eigen_at_def box_term_def)

lemma box_getValue_sum: "box_fits h bs \<Longrightarrow> box_getValue t h bs = Inr (sum_list (map (box_term t h) bs))"
  using box_getValue_from[of h bs t 0] by (simp add: box_getValue_def)

lemma box_sorted: "box_fits h (sortByIndex bs) = box_fits h bs" "sum_list (map f (sortByIndex bs)) = (sum_list (map f bs) :: scalar)"
proof -
  have m: "mset (sortByIndex bs) = mset bs" by (simp add: sortByIndex_def)
  then have "image_mset f (mset (sortByIndex bs)) = image_mset f (mset bs)" by simp
  then have "mset (map f (sortByIndex bs)) = mset (map f bs)" by simp
  then show "sum_list (map f (sortByIndex bs)) = sum_list (map f bs)" by (metis sum_mset_sum_list)
  show "box_fits h (sortByIndex bs) = box_fits h bs" by (simp add: box_fits_def sortByIndex_def)
qed

lemma dot_list_update:
  assumes "i < length d" shows "dot (d[i := d ! i + g]) e = dot d e + g * e ! i"
proof -
  have "dot (d[i := d ! i + g]) e = (\<Sum>j < length d. d ! j * e ! j + (if j = i then g * e ! i else 0))"
    using assms by (auto simp: dot_def nth_list_update algebra_simps intro!: sum.cong)
  also have "\<dots> = dot d e + g * e ! i" using assms by (simp add: sum.distrib dot_def)
  finally show ?thesis .
qed

lemma fill_sum:
  assumes "box_fits h bs" "length d1 = length h"
  shows "\<exists>d1' d2'. fillQuadraticApproximation t h bs (v, d1, d2) = Inr (v + sum_list (map (box_term t h) bs), d1', d2') \<and> length d1' = length h \<and>
           m_rows d2' = m_rows d2 \<and> m_cols d2' = m_cols d2 \<and>
           (\<forall>e. dot d1' e = dot d1 e + sum_list (map (\<lambda>b. box_slope t h b * e ! box_index b) bs))"
  using assms
proof (induction bs arbitrary: v d1 d2)
  case (Cons b bs)
  let ?i = "box_index b" and ?p = "box_penalty b"
  let ?d1 = "d1[?i := d1 ! ?i + box_slope t h b]"
  let ?d2 = "Mat (m_rows d2) (m_cols d2) ((m_data d2)[?i := (m_data d2 ! ?i)[?i := m_at d2 ?i ?i +
      (getSecondDerivative ?p t (h ! ?i - box_lower b) + getSecondDerivative ?p t (box_upper b - h ! ?i))]])"
  have step: "fillQuadraticApproximation t h (b # bs) (v, d1, d2) = fillQuadraticApproximation t h bs (v + box_term t h b, ?d1, ?d2)"
    using Cons.prems by (simp add: fillQuadraticApproximation_def eigen_at_def box_term_def box_slope_def Let_def)
  have "length ?d1 = length h" "box_fits h bs" using Cons.prems by simp_all
  from Cons.IH[OF this(2,1), of "v + box_term t h b" ?d2] obtain d1' d2' where
    "fillQuadraticApproximation t h bs (v + box_term t h b, ?d1, ?d2) = Inr (v + box_term t h b + sum_list (map (box_term t h) bs), d1', d2')"
    "length d1' = length h" "m_rows d2' = m_rows d2" "m_cols d2' = m_cols d2"
    "\<forall>e. dot d1' e = dot ?d1 e + sum_list (map (\<lambda>b. box_slope t h b * e ! box_index b) bs)" by auto
  with step Cons.prems dot_list_update[of ?i d1] show ?case by (simp add: add.assoc)
qed (simp add: fillQuadraticApproximation_def)

lemma box_term_DERIV:
  assumes "box_fits h bs" "length e = length h" "\<And>b. b \<in> set bs \<Longrightarrow> box_smooth h b"
  shows "((\<lambda>s. sum_list (map (box_term t (vadd h (vscale s e))) bs)) has_real_derivative
           sum_list (map (\<lambda>b. box_slope t h b * e ! box_index b) bs)) (at 0)"
  using assms
proof (induction bs)
  case (Cons b bs)
  let ?i = "box_index b" and ?p = "box_penalty b"
  have i: "?i < length h" "?i < length e" using Cons.prems by simp_all
  have ok: "penalty_ok ?p" "h ! ?i - box_lower b \<notin> kinks ?p" "box_upper b - h ! ?i \<notin> kinks ?p"
    using Cons.prems(3)[of b] by (simp_all add: box_smooth_def)
  have lower: "((\<lambda>s. h ! ?i + e ! ?i * s - box_lower b) has_real_derivative e ! ?i) (at 0)" by (auto intro!: derivative_eq_intros)
  have upper: "((\<lambda>s. box_upper b - (h ! ?i + e ! ?i * s)) has_real_derivative - e ! ?i) (at 0)" by (auto intro!: derivative_eq_intros)
  have "((\<lambda>s. getValue ?p t (h ! ?i + e ! ?i * s - box_lower b)) has_real_derivative getDerivative ?p t (h ! ?i - box_lower b) * e ! ?i) (at 0)"
    using DERIV_chain2[OF _ lower, of "getValue ?p t" "getDerivative ?p t (h ! ?i - box_lower b)"] getDerivative_DERIV[OF ok(1,2), of t] by simp
  moreover have "((\<lambda>s. getValue ?p t (box_upper b - (h ! ?i + e ! ?i * s))) has_real_derivative getDerivative ?p t (box_upper b - h ! ?i) * (- e ! ?i)) (at 0)"
    using DERIV_chain2[OF _ upper, of "getValue ?p t" "getDerivative ?p t (box_upper b - h ! ?i)"] getDerivative_DERIV[OF ok(1,3), of t] by simp
  ultimately have one: "((\<lambda>s. getValue ?p t (h ! ?i + e ! ?i * s - box_lower b) + getValue ?p t (box_upper b - (h ! ?i + e ! ?i * s)))
      has_real_derivative getDerivative ?p t (h ! ?i - box_lower b) * e ! ?i + getDerivative ?p t (box_upper b - h ! ?i) * (- e ! ?i)) (at 0)"
    by (rule DERIV_add)
  have "(\<lambda>s. box_term t (vadd h (vscale s e)) b) =
      (\<lambda>s. getValue ?p t (h ! ?i + e ! ?i * s - box_lower b) + getValue ?p t (box_upper b - (h ! ?i + e ! ?i * s)))"
    using i by (intro ext) (simp add: box_term_def)
  moreover have "getDerivative ?p t (h ! ?i - box_lower b) * e ! ?i + getDerivative ?p t (box_upper b - h ! ?i) * (- e ! ?i) = box_slope t h b * e ! ?i"
    by (simp add: box_slope_def algebra_simps)
  ultimately have b: "((\<lambda>s. box_term t (vadd h (vscale s e)) b) has_real_derivative box_slope t h b * e ! ?i) (at 0)" using one by simp
  have "((\<lambda>s. sum_list (map (box_term t (vadd h (vscale s e))) bs)) has_real_derivative sum_list (map (\<lambda>b. box_slope t h b * e ! box_index b) bs)) (at 0)"
    using Cons by simp
  from DERIV_add[OF b this] show ?case by simp
qed simp

lemma soft_box_value:
  assumes "box_fits (fst p) xs" "box_fits (snd p) us" "b = StateInputSoftBoxConstraint xs us\<lparr>box_offset := off\<rparr>"
  shows "soft_box_getValue b t p = Inr (sum_list (map (box_term t (fst p)) xs) + sum_list (map (box_term t (snd p)) us) + off)"
  using assms by (simp add: soft_box_getValue_def StateInputSoftBoxConstraint_def box_getValue_sum box_sorted)

lemma soft_box_gradient:
  assumes fit: "box_fits x xs" "box_fits u us" and b: "b = StateInputSoftBoxConstraint xs us\<lparr>box_offset := off\<rparr>"
  shows "\<exists>a. soft_box_getQuadraticApproximation b t (x, u) = Inr a \<and> quadratic_dims (length x) (length u) a \<and>
           soft_box_getValue b t (x, u) = Inr (appr_f a) \<and>
           (\<forall>dx du. dot (dfdx a) dx + dot (dfdu a) du =
              sum_list (map (\<lambda>b. box_slope t x b * dx ! box_index b) xs) + sum_list (map (\<lambda>b. box_slope t u b * du ! box_index b) us))"
proof -
  let ?z = "Zero_ScalarQuadratic (length x) (int (length u))"
  have z: "length (dfdx ?z) = length x" "length (dfdu ?z) = length u" "appr_f ?z = 0" "dot (dfdx ?z) e = 0" "dot (dfdu ?z) e = 0"
    "m_rows (dfdxx ?z) = length x" "m_cols (dfdxx ?z) = length x" "m_rows (dfduu ?z) = length u" "m_cols (dfduu ?z) = length u"
    "m_rows (dfdux ?z) = length u" "m_cols (dfdux ?z) = length x" for e
    by (simp_all add: Zero_ScalarQuadratic_def setZero_ScalarQuadratic_def dot_zero_left)
  have "box_fits x (sortByIndex xs)" "box_fits u (sortByIndex us)" using fit by (simp_all add: box_sorted)
  from fill_sum[OF this(1) z(1), of t "appr_f ?z" "dfdxx ?z"] fill_sum[OF this(2) z(2), of t "sum_list (map (box_term t x) xs)" "dfduu ?z"]
  obtain dx dxx du duu where
    "fillQuadraticApproximation t x (sortByIndex xs) (appr_f ?z, dfdx ?z, dfdxx ?z) = Inr (sum_list (map (box_term t x) xs), dx, dxx)"
    "length dx = length x" "m_rows dxx = length x" "m_cols dxx = length x"
    "\<forall>e. dot dx e = sum_list (map (\<lambda>b. box_slope t x b * e ! box_index b) xs)"
    "fillQuadraticApproximation t u (sortByIndex us) (sum_list (map (box_term t x) xs), dfdu ?z, dfduu ?z) =
       Inr (sum_list (map (box_term t x) xs) + sum_list (map (box_term t u) us), du, duu)"
    "length du = length u" "m_rows duu = length u" "m_cols duu = length u"
    "\<forall>e. dot du e = sum_list (map (\<lambda>b. box_slope t u b * e ! box_index b) us)"
    by (auto simp: z box_sorted)
  with soft_box_value[of "(x, u)" xs us b off t] fit b z show ?thesis
    by (simp add: soft_box_getQuadraticApproximation_def StateInputSoftBoxConstraint_def quadratic_dims_def Let_def)
qed

text \<open>
  The soft box constraints: with indices in range, initialising the offset makes the cost zero at the chosen
  point; the cost does not depend on the order in which the boxes were given; and where the penalties are
  smooth, the approximation has the right dimensions, its constant is \<open>getValue\<close> and its gradient is the
  derivative of \<open>getValue\<close> in every direction, several boxes on one index included.
\<close>

theorem soft_box_correct:
  assumes fit: "box_fits x0 xs" "box_fits u0 us" "length x = length x0" "length u = length u0"
    and smooth: "\<And>b. b \<in> set xs \<Longrightarrow> box_smooth x b" "\<And>b. b \<in> set us \<Longrightarrow> box_smooth u b"
    and order: "mset xs' = mset xs" "mset us' = mset us"
  shows "\<exists>b a b'. initializeOffset (StateInputSoftBoxConstraint xs us) t (x0, u0) = Inr b \<and> soft_box_getValue b t (x0, u0) = Inr 0 \<and>
           initializeOffset (StateInputSoftBoxConstraint xs' us') t (x0, u0) = Inr b' \<and>
           soft_box_getValue b' t (x, u) = soft_box_getValue b t (x, u) \<and>
           soft_box_getQuadraticApproximation b t (x, u) = Inr a \<and> quadratic_dims (length x) (length u) a \<and>
           soft_box_getValue b t (x, u) = Inr (appr_f a) \<and>
           (\<forall>dx du. length dx = length x \<longrightarrow> length du = length u \<longrightarrow>
              (\<exists>F. (\<forall>s. soft_box_getValue b t (vadd x (vscale s dx), vadd u (vscale s du)) = Inr (F s)) \<and>
                   (F has_real_derivative (dot (dfdx a) dx + dot (dfdu a) du)) (at 0)))"
proof -
  define off where "off = - sum_list (map (box_term t x0) xs) - sum_list (map (box_term t u0) us)"
  let ?b = "StateInputSoftBoxConstraint xs us\<lparr>box_offset := off\<rparr>" and ?b' = "StateInputSoftBoxConstraint xs' us'\<lparr>box_offset := off\<rparr>"
  have same: "sum_list (map f xs') = sum_list (map f xs)" "sum_list (map f us') = sum_list (map f us)" for f :: "box_constraint \<Rightarrow> scalar"
    using order by (metis mset_map sum_mset_sum_list)+
  have sets: "set xs' = set xs" "set us' = set us" using order mset_eq_setD by blast+
  have fit': "box_fits x0 xs'" "box_fits u0 us'" using fit sets by (simp_all add: box_fits_def)
  have init: "initializeOffset (StateInputSoftBoxConstraint ys vs) t (x0, u0) = Inr (StateInputSoftBoxConstraint ys vs\<lparr>box_offset :=
      - sum_list (map (box_term t x0) ys) - sum_list (map (box_term t u0) vs)\<rparr>)" if "box_fits x0 ys" "box_fits u0 vs" for ys vs
    using that by (simp add: initializeOffset_def StateInputSoftBoxConstraint_def box_getValue_sum box_sorted)
  have bs: "initializeOffset (StateInputSoftBoxConstraint xs us) t (x0, u0) = Inr ?b" "initializeOffset (StateInputSoftBoxConstraint xs' us') t (x0, u0) = Inr ?b'"
    using init[OF fit(1,2)] init[OF fit'] same by (simp_all add: off_def)
  have xfit: "box_fits x xs" "box_fits u us" "box_fits x xs'" "box_fits u us'" using fit fit' by (simp_all add: box_fits_def)
  have zero: "soft_box_getValue ?b t (x0, u0) = Inr 0" using soft_box_value[of "(x0, u0)" xs us ?b off t] fit by (simp add: off_def)
  have perm: "soft_box_getValue ?b' t (x, u) = soft_box_getValue ?b t (x, u)"
    using soft_box_value[of "(x, u)" xs us ?b off t] soft_box_value[of "(x, u)" xs' us' ?b' off t] xfit same by simp
  from soft_box_gradient[OF xfit(1,2), of ?b off t] obtain a where
    a: "soft_box_getQuadraticApproximation ?b t (x, u) = Inr a" "quadratic_dims (length x) (length u) a"
       "soft_box_getValue ?b t (x, u) = Inr (appr_f a)"
       "\<And>dx du. dot (dfdx a) dx + dot (dfdu a) du =
          sum_list (map (\<lambda>b. box_slope t x b * dx ! box_index b) xs) + sum_list (map (\<lambda>b. box_slope t u b * du ! box_index b) us)" by auto
  have deriv: "\<exists>F. (\<forall>s. soft_box_getValue ?b t (vadd x (vscale s dx), vadd u (vscale s du)) = Inr (F s)) \<and>
      (F has_real_derivative (dot (dfdx a) dx + dot (dfdu a) du)) (at 0)" if d: "length dx = length x" "length du = length u" for dx du
  proof (intro exI conjI allI)
    let ?F = "\<lambda>s. sum_list (map (box_term t (vadd x (vscale s dx))) xs) + sum_list (map (box_term t (vadd u (vscale s du))) us) + off"
    show "soft_box_getValue ?b t (vadd x (vscale s dx), vadd u (vscale s du)) = Inr (?F s)" for s
      using soft_box_value[of "(vadd x (vscale s dx), vadd u (vscale s du))" xs us ?b off t] xfit by (simp add: box_fits_def)
    from DERIV_add[OF DERIV_add[OF box_term_DERIV[OF xfit(1) d(1) smooth(1)] box_term_DERIV[OF xfit(2) d(2) smooth(2)]] DERIV_const, of t t off]
    show "(?F has_real_derivative (dot (dfdx a) dx + dot (dfdu a) du)) (at 0)" by (simp add: a(4))
  qed
  show ?thesis using bs zero perm a(1-3) deriv by blast
qed

text \<open>Two boxes on the same input.\<close>

definition input_boxes :: "box_constraint list" where
  "input_boxes =
     [\<lparr>box_index = 0, box_lower = - 1, box_upper = 1, box_penalty = Quadratic_Penalty 2\<rparr>,
      \<lparr>box_index = 0, box_lower = 0, box_upper = 3, box_penalty = Quadratic_Penalty 4\<rparr>]"

theorem soft_box_correct_witness:
  "\<exists>b. initializeOffset (StateInputSoftBoxConstraint [] input_boxes) 0 ([], [1]) = Inr b \<and> soft_box_getValue b 0 ([], [1]) = Inr 0 \<and>
       (\<exists>a. soft_box_getQuadraticApproximation b 0 ([], [2]) = Inr a)"
proof -
  have "box_fits [] []" "box_fits [1] input_boxes" "\<And>b. b \<in> set input_boxes \<Longrightarrow> box_smooth [2] b"
    by (auto simp: box_fits_def input_boxes_def box_smooth_def)
  from soft_box_correct[of "[]" "[]" "[1]" input_boxes "[]" "[2]" "[]" "rev input_boxes" 0, OF this(1,2) _ _ _ this(3)] show ?thesis by auto
qed

end
