(* ===== verification/Optimal_Control_Problem.thy ===== *)
theory Optimal_Control_Problem
  imports Cost_Terms Performance_Index
begin

text \<open>
  \<open>core/ocs2_oc/oc_problem/OptimalControlProblem\<close> and
  \<open>core/ocs2_oc/src/approximate_model/LinearQuadraticApproximator.cpp\<close>: the problem as a collection of terms, its
  linear-quadratic approximation at a node and its metrics. The dynamics are a record of their methods. The
  pre-computation caches what the terms need; the terms of the model take the point itself.
\<close>

section \<open>The problem\<close>

record dynamics_ops =
  dynamicsCovariance :: "scalar \<Rightarrow> vector_t \<Rightarrow> vector_t \<Rightarrow> dmatrix result"
  dyn_linearApproximation :: "scalar \<Rightarrow> vector_t \<Rightarrow> vector_t \<Rightarrow> vector_linear result"
  jumpMapLinearApproximation :: "scalar \<Rightarrow> vector_t \<Rightarrow> vector_linear result"

record optimal_control_problem =
  costPtr :: "state_input_cost collection"
  stateCostPtr :: "state_cost collection"
  preJumpCostPtr :: "state_cost collection"
  finalCostPtr :: "state_cost collection"
  softConstraintPtr :: "state_input_cost collection"
  stateSoftConstraintPtr :: "state_cost collection"
  preJumpSoftConstraintPtr :: "state_cost collection"
  finalSoftConstraintPtr :: "state_cost collection"
  equalityConstraintPtr :: "state_input_constraint collection"
  stateEqualityConstraintPtr :: "state_constraint collection"
  preJumpEqualityConstraintPtr :: "state_constraint collection"
  finalEqualityConstraintPtr :: "state_constraint collection"
  inequalityConstraintPtr :: "state_input_constraint collection"
  stateInequalityConstraintPtr :: "state_constraint collection"
  preJumpInequalityConstraintPtr :: "state_constraint collection"
  finalInequalityConstraintPtr :: "state_constraint collection"
  equalityLagrangianPtr :: "state_input_augmented_lagrangian collection"
  stateEqualityLagrangianPtr :: "state_augmented_lagrangian collection"
  inequalityLagrangianPtr :: "state_input_augmented_lagrangian collection"
  stateInequalityLagrangianPtr :: "state_augmented_lagrangian collection"
  preJumpEqualityLagrangianPtr :: "state_augmented_lagrangian collection"
  preJumpInequalityLagrangianPtr :: "state_augmented_lagrangian collection"
  finalEqualityLagrangianPtr :: "state_augmented_lagrangian collection"
  finalInequalityLagrangianPtr :: "state_augmented_lagrangian collection"
  dynamicsPtr :: "dynamics_ops option"
  targetTrajectoriesPtr :: "target_trajectories option"

definition new_OptimalControlProblem :: optimal_control_problem where
  "new_OptimalControlProblem =
     \<lparr>costPtr = new_Collection, stateCostPtr = new_Collection, preJumpCostPtr = new_Collection, finalCostPtr = new_Collection,
      softConstraintPtr = new_Collection, stateSoftConstraintPtr = new_Collection, preJumpSoftConstraintPtr = new_Collection, finalSoftConstraintPtr = new_Collection,
      equalityConstraintPtr = new_Collection, stateEqualityConstraintPtr = new_Collection, preJumpEqualityConstraintPtr = new_Collection, finalEqualityConstraintPtr = new_Collection,
      inequalityConstraintPtr = new_Collection, stateInequalityConstraintPtr = new_Collection, preJumpInequalityConstraintPtr = new_Collection, finalInequalityConstraintPtr = new_Collection,
      equalityLagrangianPtr = new_Collection, stateEqualityLagrangianPtr = new_Collection, inequalityLagrangianPtr = new_Collection, stateInequalityLagrangianPtr = new_Collection,
      preJumpEqualityLagrangianPtr = new_Collection, preJumpInequalityLagrangianPtr = new_Collection, finalEqualityLagrangianPtr = new_Collection, finalInequalityLagrangianPtr = new_Collection,
      dynamicsPtr = None, targetTrajectoriesPtr = None\<rparr>"

text \<open>The copy clones every collection; terms are values of the model, so the clone of a term is the term.\<close>

definition copy_OptimalControlProblem :: "optimal_control_problem \<Rightarrow> optimal_control_problem" where
  "copy_OptimalControlProblem other =
     \<lparr>costPtr = copy_Collection id (costPtr other), stateCostPtr = copy_Collection id (stateCostPtr other),
      preJumpCostPtr = copy_Collection id (preJumpCostPtr other), finalCostPtr = copy_Collection id (finalCostPtr other),
      softConstraintPtr = copy_Collection id (softConstraintPtr other), stateSoftConstraintPtr = copy_Collection id (stateSoftConstraintPtr other),
      preJumpSoftConstraintPtr = copy_Collection id (preJumpSoftConstraintPtr other), finalSoftConstraintPtr = copy_Collection id (finalSoftConstraintPtr other),
      equalityConstraintPtr = copy_Collection id (equalityConstraintPtr other), stateEqualityConstraintPtr = copy_Collection id (stateEqualityConstraintPtr other),
      preJumpEqualityConstraintPtr = copy_Collection id (preJumpEqualityConstraintPtr other), finalEqualityConstraintPtr = copy_Collection id (finalEqualityConstraintPtr other),
      inequalityConstraintPtr = copy_Collection id (inequalityConstraintPtr other), stateInequalityConstraintPtr = copy_Collection id (stateInequalityConstraintPtr other),
      preJumpInequalityConstraintPtr = copy_Collection id (preJumpInequalityConstraintPtr other), finalInequalityConstraintPtr = copy_Collection id (finalInequalityConstraintPtr other),
      equalityLagrangianPtr = copy_Collection id (equalityLagrangianPtr other), stateEqualityLagrangianPtr = copy_Collection id (stateEqualityLagrangianPtr other),
      inequalityLagrangianPtr = copy_Collection id (inequalityLagrangianPtr other), stateInequalityLagrangianPtr = copy_Collection id (stateInequalityLagrangianPtr other),
      preJumpEqualityLagrangianPtr = copy_Collection id (preJumpEqualityLagrangianPtr other), preJumpInequalityLagrangianPtr = copy_Collection id (preJumpInequalityLagrangianPtr other),
      finalEqualityLagrangianPtr = copy_Collection id (finalEqualityLagrangianPtr other), finalInequalityLagrangianPtr = copy_Collection id (finalInequalityLagrangianPtr other),
      dynamicsPtr = dynamicsPtr other, targetTrajectoriesPtr = targetTrajectoriesPtr other\<rparr>"

definition swap_OptimalControlProblem ::
  "optimal_control_problem \<Rightarrow> optimal_control_problem \<Rightarrow> optimal_control_problem \<times> optimal_control_problem" where
  "swap_OptimalControlProblem a b =
     (a\<lparr>costPtr := costPtr b, stateCostPtr := stateCostPtr b, preJumpCostPtr := preJumpCostPtr b,
         finalCostPtr := finalCostPtr b, softConstraintPtr := softConstraintPtr b, stateSoftConstraintPtr := stateSoftConstraintPtr b,
         preJumpSoftConstraintPtr := preJumpSoftConstraintPtr b, finalSoftConstraintPtr := finalSoftConstraintPtr b, equalityConstraintPtr := equalityConstraintPtr b,
         stateEqualityConstraintPtr := stateEqualityConstraintPtr b, preJumpEqualityConstraintPtr := preJumpEqualityConstraintPtr b, finalEqualityConstraintPtr := finalEqualityConstraintPtr b,
         inequalityConstraintPtr := inequalityConstraintPtr b, stateInequalityConstraintPtr := stateInequalityConstraintPtr b, preJumpInequalityConstraintPtr := preJumpInequalityConstraintPtr b,
         finalInequalityConstraintPtr := finalInequalityConstraintPtr b, equalityLagrangianPtr := equalityLagrangianPtr b, stateEqualityLagrangianPtr := stateEqualityLagrangianPtr b,
         inequalityLagrangianPtr := inequalityLagrangianPtr b, stateInequalityLagrangianPtr := stateInequalityLagrangianPtr b, preJumpEqualityLagrangianPtr := preJumpEqualityLagrangianPtr b,
         preJumpInequalityLagrangianPtr := preJumpInequalityLagrangianPtr b, finalEqualityLagrangianPtr := finalEqualityLagrangianPtr b, finalInequalityLagrangianPtr := finalInequalityLagrangianPtr b,
         dynamicsPtr := dynamicsPtr b, targetTrajectoriesPtr := targetTrajectoriesPtr b\<rparr>,
      b\<lparr>costPtr := costPtr a, stateCostPtr := stateCostPtr a, preJumpCostPtr := preJumpCostPtr a,
         finalCostPtr := finalCostPtr a, softConstraintPtr := softConstraintPtr a, stateSoftConstraintPtr := stateSoftConstraintPtr a,
         preJumpSoftConstraintPtr := preJumpSoftConstraintPtr a, finalSoftConstraintPtr := finalSoftConstraintPtr a, equalityConstraintPtr := equalityConstraintPtr a,
         stateEqualityConstraintPtr := stateEqualityConstraintPtr a, preJumpEqualityConstraintPtr := preJumpEqualityConstraintPtr a, finalEqualityConstraintPtr := finalEqualityConstraintPtr a,
         inequalityConstraintPtr := inequalityConstraintPtr a, stateInequalityConstraintPtr := stateInequalityConstraintPtr a, preJumpInequalityConstraintPtr := preJumpInequalityConstraintPtr a,
         finalInequalityConstraintPtr := finalInequalityConstraintPtr a, equalityLagrangianPtr := equalityLagrangianPtr a, stateEqualityLagrangianPtr := stateEqualityLagrangianPtr a,
         inequalityLagrangianPtr := inequalityLagrangianPtr a, stateInequalityLagrangianPtr := stateInequalityLagrangianPtr a, preJumpEqualityLagrangianPtr := preJumpEqualityLagrangianPtr a,
         preJumpInequalityLagrangianPtr := preJumpInequalityLagrangianPtr a, finalEqualityLagrangianPtr := finalEqualityLagrangianPtr a, finalInequalityLagrangianPtr := finalInequalityLagrangianPtr a,
         dynamicsPtr := dynamicsPtr a, targetTrajectoriesPtr := targetTrajectoriesPtr a\<rparr>)"

definition assign_OptimalControlProblem :: "optimal_control_problem \<Rightarrow> optimal_control_problem \<Rightarrow> optimal_control_problem" where
  "assign_OptimalControlProblem this rhs =
     (let tmp = copy_OptimalControlProblem rhs in fst (swap_OptimalControlProblem this tmp))"

definition targets_of_problem :: "optimal_control_problem \<Rightarrow> target_trajectories result" where
  "targets_of_problem p = (case targetTrajectoriesPtr p of None \<Rightarrow> Inl Undefined | Some t \<Rightarrow> Inr t)"

definition dynamics_of_problem :: "optimal_control_problem \<Rightarrow> dynamics_ops result" where
  "dynamics_of_problem p = (case dynamicsPtr p of None \<Rightarrow> Inl Undefined | Some d \<Rightarrow> Inr d)"

section \<open>Costs\<close>

definition computeCost :: "optimal_control_problem \<Rightarrow> scalar \<Rightarrow> vector_t \<Rightarrow> vector_t \<Rightarrow> scalar result" where
  "computeCost p time state input =
     bind_result (targets_of_problem p) (\<lambda>targets.
     bind_result (StateInputCostCollection_getValue (costPtr p) time state input targets) (\<lambda>c1.
     bind_result (StateInputCostCollection_getValue (softConstraintPtr p) time state input targets) (\<lambda>c2.
     bind_result (StateCostCollection_getValue (stateCostPtr p) time state targets) (\<lambda>c3.
     bind_result (StateCostCollection_getValue (stateSoftConstraintPtr p) time state targets) (\<lambda>c4.
     Inr (c1 + c2 + c3 + c4))))))"

text \<open>A collection that is not empty adds its approximation.\<close>

definition add_unless_empty ::
  "bool \<Rightarrow> (scalar_quadratic \<Rightarrow> scalar_quadratic \<Rightarrow> scalar_quadratic result) \<Rightarrow> scalar_quadratic result \<Rightarrow> scalar_quadratic \<Rightarrow> scalar_quadratic result" where
  "add_unless_empty is_empty combine approx acc = (if is_empty then Inr acc else bind_result approx (combine acc))"

definition approximateCost :: "optimal_control_problem \<Rightarrow> scalar \<Rightarrow> vector_t \<Rightarrow> vector_t \<Rightarrow> scalar_quadratic result" where
  "approximateCost p time state input =
     bind_result (targets_of_problem p) (\<lambda>targets.
     bind_result (StateInputCostCollection_getQuadraticApproximation (costPtr p) time state input targets) (\<lambda>c.
     bind_result (add_unless_empty (empty_Collection (softConstraintPtr p)) add_ScalarQuadratic
       (StateInputCostCollection_getQuadraticApproximation (softConstraintPtr p) time state input targets) c) (\<lambda>c.
     bind_result (add_unless_empty (empty_Collection (stateCostPtr p)) add_state_part
       (StateCostCollection_getQuadraticApproximation (stateCostPtr p) time state targets) c) (\<lambda>c.
     add_unless_empty (empty_Collection (stateSoftConstraintPtr p)) add_state_part
       (StateCostCollection_getQuadraticApproximation (stateSoftConstraintPtr p) time state targets) c))))"

definition computeEventCost :: "optimal_control_problem \<Rightarrow> scalar \<Rightarrow> vector_t \<Rightarrow> scalar result" where
  "computeEventCost p time state =
     bind_result (targets_of_problem p) (\<lambda>targets.
     bind_result (StateCostCollection_getValue (preJumpCostPtr p) time state targets) (\<lambda>c1.
     bind_result (StateCostCollection_getValue (preJumpSoftConstraintPtr p) time state targets) (\<lambda>c2. Inr (c1 + c2))))"

definition approximateEventCost :: "optimal_control_problem \<Rightarrow> scalar \<Rightarrow> vector_t \<Rightarrow> scalar_quadratic result" where
  "approximateEventCost p time state =
     bind_result (targets_of_problem p) (\<lambda>targets.
     bind_result (StateCostCollection_getQuadraticApproximation (preJumpCostPtr p) time state targets) (\<lambda>c.
     add_unless_empty (empty_Collection (preJumpSoftConstraintPtr p)) add_ScalarQuadratic
       (StateCostCollection_getQuadraticApproximation (preJumpSoftConstraintPtr p) time state targets) c))"

definition computeFinalCost :: "optimal_control_problem \<Rightarrow> scalar \<Rightarrow> vector_t \<Rightarrow> scalar result" where
  "computeFinalCost p time state =
     bind_result (targets_of_problem p) (\<lambda>targets.
     bind_result (StateCostCollection_getValue (finalCostPtr p) time state targets) (\<lambda>c1.
     bind_result (StateCostCollection_getValue (finalSoftConstraintPtr p) time state targets) (\<lambda>c2. Inr (c1 + c2))))"

definition approximateFinalCost :: "optimal_control_problem \<Rightarrow> scalar \<Rightarrow> vector_t \<Rightarrow> scalar_quadratic result" where
  "approximateFinalCost p time state =
     bind_result (targets_of_problem p) (\<lambda>targets.
     bind_result (StateCostCollection_getQuadraticApproximation (finalCostPtr p) time state targets) (\<lambda>c.
     add_unless_empty (empty_Collection (finalSoftConstraintPtr p)) add_ScalarQuadratic
       (StateCostCollection_getQuadraticApproximation (finalSoftConstraintPtr p) time state targets) c))"

section \<open>The linear-quadratic approximation\<close>

record model_data =
  md_stateDim :: int
  md_inputDim :: int
  md_time :: scalar
  md_dynamicsBias :: vector_t
  md_dynamicsCovariance :: dmatrix
  md_dynamics :: vector_linear
  md_cost :: scalar_quadratic
  md_stateEqConstraint :: vector_linear
  md_stateInputEqConstraint :: vector_linear

definition new_VectorLinear :: vector_linear where
  "new_VectorLinear = \<lparr>vl_dfdx = empty_mat, vl_dfdu = empty_mat, vl_f = []\<rparr>"

definition new_ModelData :: model_data where
  "new_ModelData =
     \<lparr>md_stateDim = 0, md_inputDim = 0, md_time = 0, md_dynamicsBias = [], md_dynamicsCovariance = empty_mat,
      md_dynamics = new_VectorLinear, md_cost = new_ScalarQuadratic, md_stateEqConstraint = new_VectorLinear,
      md_stateInputEqConstraint = new_VectorLinear\<rparr>"

definition checkSize_ModelData :: "model_data \<Rightarrow> int \<Rightarrow> int \<Rightarrow> string" where
  "checkSize_ModelData data stateDim inputDim =
     (if md_stateDim data \<noteq> stateDim then ''data.stateDim != '' @ show_int stateDim @ [CHR 0x0A] else []) @
     (if md_inputDim data \<noteq> inputDim then ''data.inputDim != '' @ show_int inputDim @ [CHR 0x0A] else []) @
     (if 0 < length (vl_f (md_dynamics data)) then
        checkSize_VectorLinear stateDim stateDim inputDim (md_dynamics data) ''dynamics'' @
        (if int (length (md_dynamicsBias data)) \<noteq> stateDim then ''dynamicsBias.size() != '' @ show_int stateDim @ [CHR 0x0A] else [])
      else []) @
     checkSize_ScalarQuadratic stateDim inputDim (md_cost data) ''cost'' @
     checkSize_VectorLinear (int (length (vl_f (md_stateEqConstraint data)))) stateDim 0 (md_stateEqConstraint data) ''stateEqConstraint'' @
     checkSize_VectorLinear (int (length (vl_f (md_stateInputEqConstraint data)))) stateDim inputDim (md_stateInputEqConstraint data)
       ''stateInputEqConstraint''"

definition add_state_lagrangian ::
  "state_augmented_lagrangian collection \<Rightarrow> scalar \<Rightarrow> vector_t \<Rightarrow> multiplier list \<Rightarrow> scalar_quadratic \<Rightarrow> scalar_quadratic result" where
  "add_state_lagrangian c time state ms acc =
     add_unless_empty (empty_Collection c) add_state_part
       (StateAugmentedLagrangianCollection_getQuadraticApproximation c time state ms) acc"

definition add_input_lagrangian ::
  "state_input_augmented_lagrangian collection \<Rightarrow> scalar \<Rightarrow> vector_t \<Rightarrow> vector_t \<Rightarrow> multiplier list \<Rightarrow> scalar_quadratic \<Rightarrow> scalar_quadratic result" where
  "add_input_lagrangian c time state input ms acc =
     add_unless_empty (empty_Collection c) add_ScalarQuadratic
       (StateInputAugmentedLagrangianCollection_getQuadraticApproximation c time state input ms) acc"

definition approximateIntermediateLQ ::
  "scalar \<Rightarrow> optimal_control_problem \<Rightarrow> scalar \<Rightarrow> vector_t \<Rightarrow> vector_t \<Rightarrow> multiplier_collection \<Rightarrow> model_data \<Rightarrow> model_data result" where
  "approximateIntermediateLQ junk p time state input ms data =
     bind_result (dynamics_of_problem p) (\<lambda>d.
     bind_result (dynamicsCovariance d time state input) (\<lambda>cov.
     bind_result (dyn_linearApproximation d time state input) (\<lambda>dyn.
     bind_result (approximateCost p time state input) (\<lambda>c.
     bind_result (StateConstraintCollection_getLinearApproximation junk (stateEqualityConstraintPtr p) time state) (\<lambda>xeq.
     bind_result (StateInputConstraintCollection_getLinearApproximation junk (equalityConstraintPtr p) time state input) (\<lambda>xueq.
     bind_result (add_state_lagrangian (stateEqualityLagrangianPtr p) time state (stateEq ms) c) (\<lambda>c.
     bind_result (add_state_lagrangian (stateInequalityLagrangianPtr p) time state (stateIneq ms) c) (\<lambda>c.
     bind_result (add_input_lagrangian (equalityLagrangianPtr p) time state input (stateInputEq ms) c) (\<lambda>c.
     bind_result (add_input_lagrangian (inequalityLagrangianPtr p) time state input (stateInputIneq ms) c) (\<lambda>c.
     Inr (data\<lparr>md_time := time, md_stateDim := int (length state), md_inputDim := int (length input),
               md_dynamicsCovariance := cov, md_dynamics := dyn, md_dynamicsBias := zero_vec (m_rows (vl_dfdx dyn)),
               md_cost := c, md_stateEqConstraint := xeq, md_stateInputEqConstraint := xueq\<rparr>)))))))))))"

definition approximatePreJumpLQ ::
  "scalar \<Rightarrow> optimal_control_problem \<Rightarrow> scalar \<Rightarrow> vector_t \<Rightarrow> multiplier_collection \<Rightarrow> model_data \<Rightarrow> model_data result" where
  "approximatePreJumpLQ junk p time state ms data =
     bind_result (dynamics_of_problem p) (\<lambda>d.
     bind_result (jumpMapLinearApproximation d time state) (\<lambda>dyn.
     bind_result (approximateEventCost p time state) (\<lambda>c.
     bind_result (StateConstraintCollection_getLinearApproximation junk (preJumpEqualityConstraintPtr p) time state) (\<lambda>xeq.
     bind_result (add_state_lagrangian (preJumpEqualityLagrangianPtr p) time state (stateEq ms) c) (\<lambda>c.
     bind_result (add_state_lagrangian (preJumpInequalityLagrangianPtr p) time state (stateIneq ms) c) (\<lambda>c.
     Inr (data\<lparr>md_time := time, md_stateDim := int (length state), md_inputDim := 0, md_dynamics := dyn,
               md_dynamicsBias := zero_vec (m_rows (vl_dfdx dyn)), md_cost := c, md_stateEqConstraint := xeq\<rparr>)))))))"

definition approximateFinalLQ ::
  "scalar \<Rightarrow> optimal_control_problem \<Rightarrow> scalar \<Rightarrow> vector_t \<Rightarrow> multiplier_collection \<Rightarrow> model_data \<Rightarrow> model_data result" where
  "approximateFinalLQ junk p time state ms data =
     bind_result (StateConstraintCollection_getLinearApproximation junk (finalEqualityConstraintPtr p) time state) (\<lambda>xeq.
     bind_result (approximateFinalCost p time state) (\<lambda>c.
     bind_result (add_state_lagrangian (finalEqualityLagrangianPtr p) time state (stateEq ms) c) (\<lambda>c.
     bind_result (add_state_lagrangian (finalInequalityLagrangianPtr p) time state (stateIneq ms) c) (\<lambda>c.
     Inr (data\<lparr>md_time := time, md_stateDim := int (length state), md_inputDim := 0, md_dynamicsBias := [],
               md_dynamics := new_VectorLinear, md_stateEqConstraint := xeq, md_cost := c\<rparr>)))))"

section \<open>Metrics\<close>

definition new_Metrics :: metrics where
  "new_Metrics =
     \<lparr>cost = 0, dynamicsViolation = [], stateEqConstraint = [], stateInputEqConstraint = [], stateIneqConstraint = [],
      stateInputIneqConstraint = [], stateEqLagrangian = [], stateIneqLagrangian = [], stateInputEqLagrangian = [],
      stateInputIneqLagrangian = []\<rparr>"

text \<open>The values of a collection that is not empty; \<open>Metrics\<close> starts with empty arrays.\<close>

definition values_unless_empty :: "'x constraint collection \<Rightarrow> scalar \<Rightarrow> 'x \<Rightarrow> vector_t list result" where
  "values_unless_empty c time p = (if empty_Collection c then Inr [] else collection_value c time p)"

definition ocp_IntermediateMetrics ::
  "optimal_control_problem \<Rightarrow> scalar \<Rightarrow> vector_t \<Rightarrow> vector_t \<Rightarrow> vector_t \<Rightarrow> metrics result" where
  "ocp_IntermediateMetrics p time state input violation =
     bind_result (computeCost p time state input) (\<lambda>c.
     bind_result (values_unless_empty (stateEqualityConstraintPtr p) time state) (\<lambda>xeq.
     bind_result (values_unless_empty (equalityConstraintPtr p) time (state, input)) (\<lambda>xueq.
     bind_result (values_unless_empty (stateInequalityConstraintPtr p) time state) (\<lambda>xineq.
     bind_result (values_unless_empty (inequalityConstraintPtr p) time (state, input)) (\<lambda>xuineq.
     Inr (new_Metrics\<lparr>cost := c, dynamicsViolation := violation, stateEqConstraint := xeq, stateInputEqConstraint := xueq,
            stateIneqConstraint := xineq, stateInputIneqConstraint := xuineq\<rparr>))))))"

definition ocp_computeIntermediateMetrics ::
  "optimal_control_problem \<Rightarrow> scalar \<Rightarrow> vector_t \<Rightarrow> vector_t \<Rightarrow> multiplier_collection \<Rightarrow> vector_t \<Rightarrow> metrics result" where
  "ocp_computeIntermediateMetrics p time state input ms violation =
     bind_result (ocp_IntermediateMetrics p time state input violation) (\<lambda>m.
     bind_result (alc_getValue (stateEqualityLagrangianPtr p) time state (stateEq ms)) (\<lambda>xeq.
     bind_result (alc_getValue (equalityLagrangianPtr p) time (state, input) (stateInputEq ms)) (\<lambda>xueq.
     bind_result (alc_getValue (stateInequalityLagrangianPtr p) time state (stateIneq ms)) (\<lambda>xineq.
     bind_result (alc_getValue (inequalityLagrangianPtr p) time (state, input) (stateInputIneq ms)) (\<lambda>xuineq.
     Inr (m\<lparr>stateEqLagrangian := xeq, stateInputEqLagrangian := xueq, stateIneqLagrangian := xineq,
            stateInputIneqLagrangian := xuineq\<rparr>))))))"

definition ocp_PreJumpMetrics :: "optimal_control_problem \<Rightarrow> scalar \<Rightarrow> vector_t \<Rightarrow> vector_t \<Rightarrow> metrics result" where
  "ocp_PreJumpMetrics p time state violation =
     bind_result (computeEventCost p time state) (\<lambda>c.
     bind_result (values_unless_empty (preJumpEqualityConstraintPtr p) time state) (\<lambda>xeq.
     bind_result (values_unless_empty (preJumpInequalityConstraintPtr p) time state) (\<lambda>xineq.
     Inr (new_Metrics\<lparr>cost := c, dynamicsViolation := violation, stateEqConstraint := xeq, stateIneqConstraint := xineq\<rparr>))))"

definition ocp_computePreJumpMetrics ::
  "optimal_control_problem \<Rightarrow> scalar \<Rightarrow> vector_t \<Rightarrow> multiplier_collection \<Rightarrow> vector_t \<Rightarrow> metrics result" where
  "ocp_computePreJumpMetrics p time state ms violation =
     bind_result (ocp_PreJumpMetrics p time state violation) (\<lambda>m.
     bind_result (alc_getValue (preJumpEqualityLagrangianPtr p) time state (stateEq ms)) (\<lambda>xeq.
     bind_result (alc_getValue (preJumpInequalityLagrangianPtr p) time state (stateIneq ms)) (\<lambda>xineq.
     Inr (m\<lparr>stateEqLagrangian := xeq, stateIneqLagrangian := xineq\<rparr>))))"

definition ocp_FinalMetrics :: "optimal_control_problem \<Rightarrow> scalar \<Rightarrow> vector_t \<Rightarrow> metrics result" where
  "ocp_FinalMetrics p time state =
     bind_result (computeFinalCost p time state) (\<lambda>c.
     bind_result (values_unless_empty (finalEqualityConstraintPtr p) time state) (\<lambda>xeq.
     bind_result (values_unless_empty (finalInequalityConstraintPtr p) time state) (\<lambda>xineq.
     Inr (new_Metrics\<lparr>cost := c, stateEqConstraint := xeq, stateIneqConstraint := xineq\<rparr>))))"

definition ocp_computeFinalMetrics ::
  "optimal_control_problem \<Rightarrow> scalar \<Rightarrow> vector_t \<Rightarrow> multiplier_collection \<Rightarrow> metrics result" where
  "ocp_computeFinalMetrics p time state ms =
     bind_result (ocp_FinalMetrics p time state) (\<lambda>m.
     bind_result (alc_getValue (finalEqualityLagrangianPtr p) time state (stateEq ms)) (\<lambda>xeq.
     bind_result (alc_getValue (finalInequalityLagrangianPtr p) time state (stateIneq ms)) (\<lambda>xineq.
     Inr (m\<lparr>stateEqLagrangian := xeq, stateIneqLagrangian := xineq\<rparr>))))"

section \<open>Copies\<close>

lemma swap_OptimalControlProblem_exchanges: "swap_OptimalControlProblem a b = (b, a)"
  by (simp add: swap_OptimalControlProblem_def)

lemma copy_collection_id: "copy_Collection id c = c"
  by (cases c) (simp add: copy_Collection_def)

lemma assign_copies_every_member: "assign_OptimalControlProblem this rhs = rhs"
  by (simp add: assign_OptimalControlProblem_def swap_OptimalControlProblem_exchanges copy_OptimalControlProblem_def copy_collection_id)

section \<open>Approximation and metrics agree\<close>

text \<open>A cost or a Lagrangian whose approximation has fitting dimensions and its value as constant.\<close>

definition cost_terms_ok :: "(scalar_quadratic \<Rightarrow> bool) \<Rightarrow> 'x cost_term collection \<Rightarrow> scalar \<Rightarrow> 'x \<Rightarrow> target_trajectories \<Rightarrow> bool" where
  "cost_terms_ok ok c time p targets =
     (\<forall>i < length (col_terms c). k_isActive (col_terms c ! i) time \<longrightarrow>
        (\<exists>a. k_getQuadraticApproximation (col_terms c ! i) time p targets = Inr a \<and> ok a \<and>
             k_getValue (col_terms c ! i) time p targets = Inr (appr_f a)))"

definition al_terms_ok :: "(scalar_quadratic \<Rightarrow> bool) \<Rightarrow> 'x augmented_lagrangian collection \<Rightarrow> scalar \<Rightarrow> 'x \<Rightarrow> multiplier list \<Rightarrow> bool" where
  "al_terms_ok ok c time p ms =
     (length ms = length (col_terms c) \<and> (\<forall>i < length ms. al_isActive (col_terms c ! i) time \<longrightarrow>
        (\<exists>a h. al_getQuadraticApproximation (col_terms c ! i) time p (ms ! i) = Inr a \<and> ok a \<and>
               al_getValue (col_terms c ! i) time p (ms ! i) = Inr (LagrangianMetrics (appr_f a) h))))"

lemma accumulate_constants:
  assumes "ok zero" "appr_f zero = 0"
    and "\<And>a b. ok a \<Longrightarrow> ok b \<Longrightarrow> \<exists>s. combine a b = Inr s \<and> ok s \<and> appr_f s = appr_f a + appr_f b"
    and "\<And>i. i < length ts \<Longrightarrow> act (ts ! i) \<Longrightarrow> approx i (ts ! i) = Inr (A i) \<and> ok (A i)"
  shows "\<exists>s. accumulate_active combine act approx ts zero = Inr s \<and> ok s \<and>
           appr_f s = (\<Sum>i \<in> {i. i < length ts \<and> act (ts ! i)}. appr_f (A i))"
  using accumulate_active_sum[of ok zero "\<lambda>a (_ :: unit). appr_f a" combine ts act approx A] assms by simp

lemma add_ok:
  "quadratic_dims nx nu a \<Longrightarrow> quadratic_dims nx nu b \<Longrightarrow>
     \<exists>s. add_ScalarQuadratic a b = Inr s \<and> quadratic_dims nx nu s \<and> appr_f s = appr_f a + appr_f b"
  by (simp add: add_ScalarQuadratic_def quadratic_dims_def result_simps)

lemma add_state_ok:
  "state_dims nx a \<Longrightarrow> state_dims nx b \<Longrightarrow> \<exists>s. add_state_part a b = Inr s \<and> state_dims nx s \<and> appr_f s = appr_f a + appr_f b"
  by (simp add: add_state_part_def state_dims_def result_simps)

lemma add_state_to_ok:
  "quadratic_dims nx nu a \<Longrightarrow> state_dims nx b \<Longrightarrow>
     \<exists>s. add_state_part a b = Inr s \<and> quadratic_dims nx nu s \<and> appr_f s = appr_f a + appr_f b"
  by (simp add: add_state_part_def state_dims_def quadratic_dims_def result_simps)

lemma zero_ok:
  "quadratic_dims nx nu (Zero_ScalarQuadratic nx (int nu))" "appr_f (Zero_ScalarQuadratic nx n) = 0" "state_dims nx (Zero_ScalarQuadratic nx (- 1))"
  by (simp_all add: quadratic_value_Zero(1) state_value_at_zero(1)) (simp add: Zero_ScalarQuadratic_def setZero_ScalarQuadratic_def Let_def)

lemma input_cost_ok:
  assumes "cost_terms_ok (quadratic_dims (length x) (length u)) c time (x, u) targets"
  shows "\<exists>a. StateInputCostCollection_getQuadraticApproximation c time x u targets = Inr a \<and> quadratic_dims (length x) (length u) a \<and>
           StateInputCostCollection_getValue c time x u targets = Inr (appr_f a) \<and> (empty_Collection c \<longrightarrow> appr_f a = 0)"
proof -
  obtain A where A: "\<And>i. i < length (col_terms c) \<Longrightarrow> k_isActive (col_terms c ! i) time \<Longrightarrow>
      k_getQuadraticApproximation (col_terms c ! i) time (x, u) targets = Inr (A i) \<and> quadratic_dims (length x) (length u) (A i) \<and>
      k_getValue (col_terms c ! i) time (x, u) targets = Inr (appr_f (A i))"
    using assms unfolding cost_terms_ok_def by metis
  let ?S = "{i. i < length (col_terms c) \<and> k_isActive (col_terms c ! i) time}"
  have "\<exists>s. accumulate_active add_ScalarQuadratic (\<lambda>k. k_isActive k time) (\<lambda>_ k. k_getQuadraticApproximation k time (x, u) targets)
      (col_terms c) (Zero_ScalarQuadratic (length x) (int (length u))) = Inr s \<and> quadratic_dims (length x) (length u) s \<and>
      appr_f s = (\<Sum>i \<in> ?S. appr_f (A i))"
    by (rule accumulate_constants[OF zero_ok(1,2) add_ok]) (use A in simp_all)
  with cost_collection_value_sum[of c time "(x, u)" targets "\<lambda>i. appr_f (A i)"] A show ?thesis
    by (auto simp: StateInputCostCollection_getQuadraticApproximation_def StateInputCostCollection_getValue_def empty_Collection_def)
qed

lemma state_cost_ok:
  assumes "cost_terms_ok (state_dims (length x)) c time x targets"
  shows "\<exists>a. StateCostCollection_getQuadraticApproximation c time x targets = Inr a \<and> state_dims (length x) a \<and>
           StateCostCollection_getValue c time x targets = Inr (appr_f a) \<and> (empty_Collection c \<longrightarrow> appr_f a = 0)"
proof -
  obtain A where A: "\<And>i. i < length (col_terms c) \<Longrightarrow> k_isActive (col_terms c ! i) time \<Longrightarrow>
      k_getQuadraticApproximation (col_terms c ! i) time x targets = Inr (A i) \<and> state_dims (length x) (A i) \<and>
      k_getValue (col_terms c ! i) time x targets = Inr (appr_f (A i))"
    using assms unfolding cost_terms_ok_def by metis
  let ?S = "{i. i < length (col_terms c) \<and> k_isActive (col_terms c ! i) time}"
  have "\<exists>s. accumulate_active add_state_part (\<lambda>k. k_isActive k time) (\<lambda>_ k. k_getQuadraticApproximation k time x targets)
      (col_terms c) (Zero_ScalarQuadratic (length x) (- 1)) = Inr s \<and> state_dims (length x) s \<and> appr_f s = (\<Sum>i \<in> ?S. appr_f (A i))"
    by (rule accumulate_constants[OF zero_ok(3,2) add_state_ok]) (use A in simp_all)
  with cost_collection_value_sum[of c time x targets "\<lambda>i. appr_f (A i)"] A show ?thesis
    by (auto simp: StateCostCollection_getQuadraticApproximation_def StateCostCollection_getValue_def empty_Collection_def Let_def state_dims_def
        accumulate_active_def split: if_splits)
qed

lemma sumPenalties_sum: "sumPenalties xs = (\<Sum>i < length xs. lm_penalty (xs ! i))"
  by (simp add: sumPenalties_def fold_add_eq sum_list_sum_nth atLeast0LessThan)

lemma al_values_sum:
  assumes ms: "length ms = length (col_terms c)" and A: "\<And>i. i < length ms \<Longrightarrow> al_isActive (col_terms c ! i) time \<Longrightarrow>
      al_getValue (col_terms c ! i) time p (ms ! i) = Inr (LagrangianMetrics (v i) (h i))"
  shows "\<exists>xs. alc_getValue c time p ms = Inr xs \<and> sumPenalties xs = (\<Sum>i \<in> {i. i < length (col_terms c) \<and> al_isActive (col_terms c ! i) time}. v i)"
proof -
  let ?act = "\<lambda>i. al_isActive (col_terms c ! i) time"
  let ?xs = "map (\<lambda>i. if ?act i then LagrangianMetrics (v i) (h i) else LagrangianMetrics 0 []) [0 ..< length ms]"
  have "alc_getValue c time p ms = Inr ?xs" using A ms by (simp add: alc_getValue_iff)
  moreover have "sumPenalties ?xs = (\<Sum>i < length ms. if ?act i then v i else 0)"
    unfolding sumPenalties_sum by (rule sum.cong) (simp_all add: LagrangianMetrics_def)
  moreover have "\<dots> = (\<Sum>i \<in> {i. i < length (col_terms c) \<and> ?act i}. v i)"
    using ms by (simp add: sum.If_cases Int_def)
  ultimately show ?thesis by auto
qed

lemma input_al_ok:
  assumes "al_terms_ok (quadratic_dims (length x) (length u)) c time (x, u) ms"
  shows "\<exists>a xs. StateInputAugmentedLagrangianCollection_getQuadraticApproximation c time x u ms = Inr a \<and>
           quadratic_dims (length x) (length u) a \<and> alc_getValue c time (x, u) ms = Inr xs \<and> sumPenalties xs = appr_f a \<and>
           (empty_Collection c \<longrightarrow> appr_f a = 0)"
proof -
  let ?act = "\<lambda>al. al_isActive al time"
  obtain A h where A: "\<And>i. i < length ms \<Longrightarrow> ?act (col_terms c ! i) \<Longrightarrow>
      al_getQuadraticApproximation (col_terms c ! i) time (x, u) (ms ! i) = Inr (A i) \<and> quadratic_dims (length x) (length u) (A i) \<and>
      al_getValue (col_terms c ! i) time (x, u) (ms ! i) = Inr (LagrangianMetrics (appr_f (A i)) (h i))"
    using assms unfolding al_terms_ok_def by metis
  have len: "length ms = length (col_terms c)" using assms by (simp add: al_terms_ok_def)
  have "\<exists>s. accumulate_active add_ScalarQuadratic ?act (\<lambda>i al. bind_result (vec_at ms i) (\<lambda>m. al_getQuadraticApproximation al time (x, u) m))
      (col_terms c) (Zero_ScalarQuadratic (length x) (int (length u))) = Inr s \<and> quadratic_dims (length x) (length u) s \<and>
      appr_f s = (\<Sum>i \<in> {i. i < length (col_terms c) \<and> ?act (col_terms c ! i)}. appr_f (A i))"
    by (rule accumulate_constants[OF zero_ok(1,2) add_ok]) (use A len in simp_all)
  with al_values_sum[OF len, of time "(x, u)" "\<lambda>i. appr_f (A i)" h] A show ?thesis
    by (auto simp: StateInputAugmentedLagrangianCollection_getQuadraticApproximation_def empty_Collection_def)
qed

lemma state_al_ok:
  assumes "al_terms_ok (state_dims (length x)) c time x ms"
  shows "\<exists>a xs. StateAugmentedLagrangianCollection_getQuadraticApproximation c time x ms = Inr a \<and>
           state_dims (length x) a \<and> alc_getValue c time x ms = Inr xs \<and> sumPenalties xs = appr_f a \<and>
           (empty_Collection c \<longrightarrow> appr_f a = 0)"
proof -
  let ?act = "\<lambda>al. al_isActive al time"
  obtain A h where A: "\<And>i. i < length ms \<Longrightarrow> ?act (col_terms c ! i) \<Longrightarrow>
      al_getQuadraticApproximation (col_terms c ! i) time x (ms ! i) = Inr (A i) \<and> state_dims (length x) (A i) \<and>
      al_getValue (col_terms c ! i) time x (ms ! i) = Inr (LagrangianMetrics (appr_f (A i)) (h i))"
    using assms unfolding al_terms_ok_def by metis
  have len: "length ms = length (col_terms c)" using assms by (simp add: al_terms_ok_def)
  have "\<exists>s. accumulate_active add_state_part ?act
      (\<lambda>i al. bind_result (vec_at ms i) (\<lambda>m. StateAugmentedLagrangian_getQuadraticApproximation al time x m))
      (col_terms c) (Zero_ScalarQuadratic (length x) (- 1)) = Inr s \<and> state_dims (length x) s \<and>
      appr_f s = (\<Sum>i \<in> {i. i < length (col_terms c) \<and> ?act (col_terms c ! i)}. appr_f (A i))"
    by (rule accumulate_constants[OF zero_ok(3,2) add_state_ok]) (use A len in \<open>simp_all add: StateAugmentedLagrangian_getQuadraticApproximation_def\<close>)
  with al_values_sum[OF len, of time x "\<lambda>i. appr_f (A i)" h] A show ?thesis
    by (auto simp: StateAugmentedLagrangianCollection_getQuadraticApproximation_def empty_Collection_def Let_def state_dims_def
        accumulate_active_def split: if_splits)
qed

lemma add_unless_empty_ok:
  assumes "quadratic_dims nx nu c" "approx = Inr a" "quadratic_dims nx nu a" "is_empty \<longrightarrow> appr_f a = 0"
  shows "\<exists>s. add_unless_empty is_empty add_ScalarQuadratic approx c = Inr s \<and> quadratic_dims nx nu s \<and> appr_f s = appr_f c + appr_f a"
  using add_ok[OF assms(1,3)] assms by (cases is_empty) (auto simp: add_unless_empty_def)

lemma add_state_unless_empty_ok:
  assumes "quadratic_dims nx nu c" "approx = Inr a" "state_dims nx a" "is_empty \<longrightarrow> appr_f a = 0"
  shows "\<exists>s. add_unless_empty is_empty add_state_part approx c = Inr s \<and> quadratic_dims nx nu s \<and> appr_f s = appr_f c + appr_f a"
  using add_state_to_ok[OF assms(1,3)] assms by (cases is_empty) (auto simp: add_unless_empty_def)

text \<open>The terms of the problem at an intermediate node are consistent, and what is not a cost succeeds.\<close>

definition intermediate_ok :: "scalar \<Rightarrow> optimal_control_problem \<Rightarrow> scalar \<Rightarrow> vector_t \<Rightarrow> vector_t \<Rightarrow> multiplier_collection \<Rightarrow> bool" where
  "intermediate_ok junk p time x u ms =
     (\<exists>targets d. targetTrajectoriesPtr p = Some targets \<and> dynamicsPtr p = Some d \<and>
        succeeds (dynamicsCovariance d time x u) \<and> succeeds (dyn_linearApproximation d time x u) \<and>
        succeeds (StateConstraintCollection_getLinearApproximation junk (stateEqualityConstraintPtr p) time x) \<and>
        succeeds (StateInputConstraintCollection_getLinearApproximation junk (equalityConstraintPtr p) time x u) \<and>
        succeeds (values_unless_empty (stateEqualityConstraintPtr p) time x) \<and> succeeds (values_unless_empty (equalityConstraintPtr p) time (x, u)) \<and>
        succeeds (values_unless_empty (stateInequalityConstraintPtr p) time x) \<and> succeeds (values_unless_empty (inequalityConstraintPtr p) time (x, u)) \<and>
        cost_terms_ok (quadratic_dims (length x) (length u)) (costPtr p) time (x, u) targets \<and>
        cost_terms_ok (quadratic_dims (length x) (length u)) (softConstraintPtr p) time (x, u) targets \<and>
        cost_terms_ok (state_dims (length x)) (stateCostPtr p) time x targets \<and>
        cost_terms_ok (state_dims (length x)) (stateSoftConstraintPtr p) time x targets \<and>
        al_terms_ok (state_dims (length x)) (stateEqualityLagrangianPtr p) time x (stateEq ms) \<and>
        al_terms_ok (state_dims (length x)) (stateInequalityLagrangianPtr p) time x (stateIneq ms) \<and>
        al_terms_ok (quadratic_dims (length x) (length u)) (equalityLagrangianPtr p) time (x, u) (stateInputEq ms) \<and>
        al_terms_ok (quadratic_dims (length x) (length u)) (inequalityLagrangianPtr p) time (x, u) (stateInputIneq ms))"

lemma approximateCost_ok:
  assumes "targetTrajectoriesPtr p = Some targets"
    and "cost_terms_ok (quadratic_dims (length x) (length u)) (costPtr p) time (x, u) targets"
    and "cost_terms_ok (quadratic_dims (length x) (length u)) (softConstraintPtr p) time (x, u) targets"
    and "cost_terms_ok (state_dims (length x)) (stateCostPtr p) time x targets"
    and "cost_terms_ok (state_dims (length x)) (stateSoftConstraintPtr p) time x targets"
  shows "\<exists>c. approximateCost p time x u = Inr c \<and> quadratic_dims (length x) (length u) c \<and> computeCost p time x u = Inr (appr_f c)"
proof -
  let ?nx = "length x" and ?nu = "length u"
  from input_cost_ok[OF assms(2)] input_cost_ok[OF assms(3)] state_cost_ok[OF assms(4)] state_cost_ok[OF assms(5)] obtain a b c d where
    a: "StateInputCostCollection_getQuadraticApproximation (costPtr p) time x u targets = Inr a" "quadratic_dims ?nx ?nu a"
       "StateInputCostCollection_getValue (costPtr p) time x u targets = Inr (appr_f a)" and
    b: "StateInputCostCollection_getQuadraticApproximation (softConstraintPtr p) time x u targets = Inr b" "quadratic_dims ?nx ?nu b"
       "empty_Collection (softConstraintPtr p) \<longrightarrow> appr_f b = 0"
       "StateInputCostCollection_getValue (softConstraintPtr p) time x u targets = Inr (appr_f b)" and
    c: "StateCostCollection_getQuadraticApproximation (stateCostPtr p) time x targets = Inr c" "state_dims ?nx c"
       "empty_Collection (stateCostPtr p) \<longrightarrow> appr_f c = 0" "StateCostCollection_getValue (stateCostPtr p) time x targets = Inr (appr_f c)" and
    d: "StateCostCollection_getQuadraticApproximation (stateSoftConstraintPtr p) time x targets = Inr d" "state_dims ?nx d"
       "empty_Collection (stateSoftConstraintPtr p) \<longrightarrow> appr_f d = 0"
       "StateCostCollection_getValue (stateSoftConstraintPtr p) time x targets = Inr (appr_f d)" by blast
  from add_unless_empty_ok[OF a(2) b(1-3)] obtain r where
    r: "add_unless_empty (empty_Collection (softConstraintPtr p)) add_ScalarQuadratic
       (StateInputCostCollection_getQuadraticApproximation (softConstraintPtr p) time x u targets) a = Inr r"
       "quadratic_dims ?nx ?nu r" "appr_f r = appr_f a + appr_f b" by blast
  from add_state_unless_empty_ok[OF r(2) c(1-3)] obtain s where
    s: "add_unless_empty (empty_Collection (stateCostPtr p)) add_state_part
       (StateCostCollection_getQuadraticApproximation (stateCostPtr p) time x targets) r = Inr s"
       "quadratic_dims ?nx ?nu s" "appr_f s = appr_f r + appr_f c" by blast
  from add_state_unless_empty_ok[OF s(2) d(1-3)] obtain t where
    t: "add_unless_empty (empty_Collection (stateSoftConstraintPtr p)) add_state_part
       (StateCostCollection_getQuadraticApproximation (stateSoftConstraintPtr p) time x targets) s = Inr t"
       "quadratic_dims ?nx ?nu t" "appr_f t = appr_f s + appr_f d" by blast
  have "approximateCost p time x u = Inr t"
    by (simp add: approximateCost_def targets_of_problem_def assms(1) a(1) r(1) s(1) t(1))
  moreover have "computeCost p time x u = Inr (appr_f t)"
    by (simp add: computeCost_def targets_of_problem_def assms(1) a(3) b(4) c(4) d(4) r(3) s(3) t(3))
  ultimately show ?thesis using t(2) by blast
qed

lemma add_state_lagrangian_ok:
  assumes "quadratic_dims (length x) nu c" "al_terms_ok (state_dims (length x)) l time x ms"
  shows "\<exists>s xs. add_state_lagrangian l time x ms c = Inr s \<and> quadratic_dims (length x) nu s \<and> alc_getValue l time x ms = Inr xs \<and>
           appr_f s = appr_f c + sumPenalties xs"
proof -
  from state_al_ok[OF assms(2)] obtain a xs where
    a: "StateAugmentedLagrangianCollection_getQuadraticApproximation l time x ms = Inr a" "state_dims (length x) a"
       "empty_Collection l \<longrightarrow> appr_f a = 0" "alc_getValue l time x ms = Inr xs" "sumPenalties xs = appr_f a" by blast
  from add_state_unless_empty_ok[OF assms(1) a(1-3)] a(4,5) show ?thesis by (auto simp: add_state_lagrangian_def)
qed

lemma add_input_lagrangian_ok:
  assumes "quadratic_dims (length x) (length u) c" "al_terms_ok (quadratic_dims (length x) (length u)) l time (x, u) ms"
  shows "\<exists>s xs. add_input_lagrangian l time x u ms c = Inr s \<and> quadratic_dims (length x) (length u) s \<and> alc_getValue l time (x, u) ms = Inr xs \<and>
           appr_f s = appr_f c + sumPenalties xs"
proof -
  from input_al_ok[OF assms(2)] obtain a xs where
    a: "StateInputAugmentedLagrangianCollection_getQuadraticApproximation l time x u ms = Inr a" "quadratic_dims (length x) (length u) a"
       "empty_Collection l \<longrightarrow> appr_f a = 0" "alc_getValue l time (x, u) ms = Inr xs" "sumPenalties xs = appr_f a" by blast
  from add_unless_empty_ok[OF assms(1) a(1-3)] a(4,5) show ?thesis by (auto simp: add_input_lagrangian_def)
qed

section \<open>Properties\<close>

text \<open>
  C18. The linear-quadratic approximation of an intermediate node agrees with the metrics of the node: when every
  active cost and Lagrangian returns its value as the constant of a well dimensioned approximation, the cost of
  the approximated problem is well dimensioned, and its constant is the cost plus all the Lagrangian
  penalties that the performance index of the node reports; empty collections, which both skip, included.
\<close>

theorem lq_agrees_with_metrics:
  assumes "intermediate_ok junk p time x u ms"
  shows "\<exists>data' m. approximateIntermediateLQ junk p time x u ms data = Inr data' \<and> ocp_computeIntermediateMetrics p time x u ms violation = Inr m \<and>
           quadratic_dims (length x) (length u) (md_cost data') \<and>
           appr_f (md_cost data') = pi_cost (toPerformanceIndex m) + pi_equalityLagrangian (toPerformanceIndex m) + pi_inequalityLagrangian (toPerformanceIndex m) \<and>
           md_time data' = time \<and> md_stateDim data' = int (length x) \<and> md_inputDim data' = int (length u)"
proof -
  from assms obtain targets d where ok: "targetTrajectoriesPtr p = Some targets" "dynamicsPtr p = Some d"
    "cost_terms_ok (quadratic_dims (length x) (length u)) (costPtr p) time (x, u) targets"
    "cost_terms_ok (quadratic_dims (length x) (length u)) (softConstraintPtr p) time (x, u) targets"
    "cost_terms_ok (state_dims (length x)) (stateCostPtr p) time x targets"
    "cost_terms_ok (state_dims (length x)) (stateSoftConstraintPtr p) time x targets"
    and al: "al_terms_ok (state_dims (length x)) (stateEqualityLagrangianPtr p) time x (stateEq ms)"
      "al_terms_ok (state_dims (length x)) (stateInequalityLagrangianPtr p) time x (stateIneq ms)"
      "al_terms_ok (quadratic_dims (length x) (length u)) (equalityLagrangianPtr p) time (x, u) (stateInputEq ms)"
      "al_terms_ok (quadratic_dims (length x) (length u)) (inequalityLagrangianPtr p) time (x, u) (stateInputIneq ms)"
    and rest: "succeeds (dynamicsCovariance d time x u)" "succeeds (dyn_linearApproximation d time x u)"
      "succeeds (StateConstraintCollection_getLinearApproximation junk (stateEqualityConstraintPtr p) time x)"
      "succeeds (StateInputConstraintCollection_getLinearApproximation junk (equalityConstraintPtr p) time x u)"
      "succeeds (values_unless_empty (stateEqualityConstraintPtr p) time x)" "succeeds (values_unless_empty (equalityConstraintPtr p) time (x, u))"
      "succeeds (values_unless_empty (stateInequalityConstraintPtr p) time x)" "succeeds (values_unless_empty (inequalityConstraintPtr p) time (x, u))"
    unfolding intermediate_ok_def by blast
  from approximateCost_ok[OF ok(1,3-6)] obtain c where c: "approximateCost p time x u = Inr c" "quadratic_dims (length x) (length u) c"
    "computeCost p time x u = Inr (appr_f c)" by blast
  from add_state_lagrangian_ok[OF c(2) al(1)] obtain c1 l1 where l1: "add_state_lagrangian (stateEqualityLagrangianPtr p) time x (stateEq ms) c = Inr c1"
    "quadratic_dims (length x) (length u) c1" "alc_getValue (stateEqualityLagrangianPtr p) time x (stateEq ms) = Inr l1" "appr_f c1 = appr_f c + sumPenalties l1" by blast
  from add_state_lagrangian_ok[OF l1(2) al(2)] obtain c2 l2 where l2: "add_state_lagrangian (stateInequalityLagrangianPtr p) time x (stateIneq ms) c1 = Inr c2"
    "quadratic_dims (length x) (length u) c2" "alc_getValue (stateInequalityLagrangianPtr p) time x (stateIneq ms) = Inr l2" "appr_f c2 = appr_f c1 + sumPenalties l2" by blast
  from add_input_lagrangian_ok[OF l2(2) al(3)] obtain c3 l3 where l3: "add_input_lagrangian (equalityLagrangianPtr p) time x u (stateInputEq ms) c2 = Inr c3"
    "quadratic_dims (length x) (length u) c3" "alc_getValue (equalityLagrangianPtr p) time (x, u) (stateInputEq ms) = Inr l3" "appr_f c3 = appr_f c2 + sumPenalties l3" by blast
  from add_input_lagrangian_ok[OF l3(2) al(4)] obtain c4 l4 where l4: "add_input_lagrangian (inequalityLagrangianPtr p) time x u (stateInputIneq ms) c3 = Inr c4"
    "quadratic_dims (length x) (length u) c4" "alc_getValue (inequalityLagrangianPtr p) time (x, u) (stateInputIneq ms) = Inr l4" "appr_f c4 = appr_f c3 + sumPenalties l4" by blast
  show ?thesis
    using rest unfolding succeeds_iff
    by (auto simp: approximateIntermediateLQ_def dynamics_of_problem_def ok(2) c(1,3) l1(1,3,4) l2(1,3,4) l3(1,3,4) l4 ocp_computeIntermediateMetrics_def
        ocp_IntermediateMetrics_def toPerformanceIndex_def new_Metrics_def)
qed

text \<open>One state and one input, the three costs and no other term.\<close>

definition small_problem :: optimal_control_problem where
  "small_problem = new_OptimalControlProblem\<lparr>costPtr := three_costs,
     dynamicsPtr := Some \<lparr>dynamicsCovariance = (\<lambda>_ _ _. Inr (Mat 1 1 [[0]])),
       dyn_linearApproximation = (\<lambda>_ x u. Inr \<lparr>vl_dfdx = Mat 1 1 [[1]], vl_dfdu = Mat 1 1 [[1]], vl_f = [x ! 0 + u ! 0]\<rparr>),
       jumpMapLinearApproximation = (\<lambda>_ x. Inr \<lparr>vl_dfdx = Mat 1 1 [[1]], vl_dfdu = Mat 1 0 [[]], vl_f = x\<rparr>)\<rparr>,
     targetTrajectoriesPtr := Some origin_targets\<rparr>"

lemma small_problem_ok: "intermediate_ok 0 small_problem 0 [1] [2] no_multipliers"
  by (auto simp: intermediate_ok_def small_problem_def new_OptimalControlProblem_def new_Collection_def three_costs_def constant_cost_def
      cost_terms_ok_def al_terms_ok_def no_multipliers_def values_unless_empty_def empty_Collection_def quadratic_dims_def zero_ok less_Suc_eq numeral_3_eq_3
      Zero_ScalarQuadratic_def setZero_ScalarQuadratic_def StateConstraintCollection_getLinearApproximation_def
      StateInputConstraintCollection_getLinearApproximation_def collection_linear_def Let_def succeeds_iff)

theorem lq_agrees_with_metrics_witness:
  "\<exists>data' m. approximateIntermediateLQ 0 small_problem 0 [1] [2] no_multipliers new_ModelData = Inr data' \<and>
     ocp_computeIntermediateMetrics small_problem 0 [1] [2] no_multipliers [] = Inr m \<and>
     appr_f (md_cost data') = pi_cost (toPerformanceIndex m) + pi_equalityLagrangian (toPerformanceIndex m) + pi_inequalityLagrangian (toPerformanceIndex m)"
  using lq_agrees_with_metrics[OF small_problem_ok] by blast

end
