(* ===== verification/Ocp_Helpers.thy ===== *)
theory Ocp_Helpers
  imports Optimal_Control_Problem
begin

text \<open>
  \<open>core/ocs2_oc/src/oc_problem/OptimalControlProblemHelperFunction.cpp\<close>: the multipliers of a problem along a
  primal solution (cold and warm start, update) and the extraction of one term by its name.
\<close>

section \<open>Multipliers along a solution\<close>

definition initializeFinalMultiplierCollection ::
  "optimal_control_problem \<Rightarrow> scalar \<Rightarrow> multiplier_collection \<Rightarrow> multiplier_collection result" where
  "initializeFinalMultiplierCollection ocp time m =
     bind_result (alc_initializeLagrangian (finalEqualityLagrangianPtr ocp) time) (\<lambda>e.
     bind_result (alc_initializeLagrangian (finalInequalityLagrangianPtr ocp) time) (\<lambda>i.
     Inr (m\<lparr>stateEq := e, stateIneq := i\<rparr>)))"

definition initializePreJumpMultiplierCollection ::
  "optimal_control_problem \<Rightarrow> scalar \<Rightarrow> multiplier_collection \<Rightarrow> multiplier_collection result" where
  "initializePreJumpMultiplierCollection ocp time m =
     bind_result (alc_initializeLagrangian (preJumpEqualityLagrangianPtr ocp) time) (\<lambda>e.
     bind_result (alc_initializeLagrangian (preJumpInequalityLagrangianPtr ocp) time) (\<lambda>i.
     Inr (m\<lparr>stateEq := e, stateIneq := i\<rparr>)))"

definition initializeIntermediateMultiplierCollection ::
  "optimal_control_problem \<Rightarrow> scalar \<Rightarrow> multiplier_collection \<Rightarrow> multiplier_collection result" where
  "initializeIntermediateMultiplierCollection ocp time m =
     bind_result (alc_initializeLagrangian (stateEqualityLagrangianPtr ocp) time) (\<lambda>e.
     bind_result (alc_initializeLagrangian (stateInequalityLagrangianPtr ocp) time) (\<lambda>i.
     bind_result (alc_initializeLagrangian (equalityLagrangianPtr ocp) time) (\<lambda>ue.
     bind_result (alc_initializeLagrangian (inequalityLagrangianPtr ocp) time) (\<lambda>ui.
     Inr (m\<lparr>stateEq := e, stateIneq := i, stateInputEq := ue, stateInputIneq := ui\<rparr>)))))"

definition updateFinalMultiplierCollection ::
  "optimal_control_problem \<Rightarrow> scalar \<Rightarrow> vector_t \<Rightarrow> metrics \<Rightarrow> multiplier_collection \<Rightarrow> (metrics \<times> multiplier_collection) result" where
  "updateFinalMultiplierCollection ocp time state m ms =
     bind_result (StateAugmentedLagrangianCollection_updateLagrangian (finalEqualityLagrangianPtr ocp) time state (stateEqLagrangian m) (stateEq ms)) (\<lambda>(eqm, eqs).
     bind_result (StateAugmentedLagrangianCollection_updateLagrangian (finalInequalityLagrangianPtr ocp) time state (stateIneqLagrangian m) (stateIneq ms)) (\<lambda>(inm, ins).
     Inr (m\<lparr>stateEqLagrangian := eqm, stateIneqLagrangian := inm\<rparr>, ms\<lparr>stateEq := eqs, stateIneq := ins\<rparr>)))"

definition updatePreJumpMultiplierCollection ::
  "optimal_control_problem \<Rightarrow> scalar \<Rightarrow> vector_t \<Rightarrow> metrics \<Rightarrow> multiplier_collection \<Rightarrow> (metrics \<times> multiplier_collection) result" where
  "updatePreJumpMultiplierCollection ocp time state m ms =
     bind_result (StateAugmentedLagrangianCollection_updateLagrangian (preJumpEqualityLagrangianPtr ocp) time state (stateEqLagrangian m) (stateEq ms)) (\<lambda>(eqm, eqs).
     bind_result (StateAugmentedLagrangianCollection_updateLagrangian (preJumpInequalityLagrangianPtr ocp) time state (stateIneqLagrangian m) (stateIneq ms)) (\<lambda>(inm, ins).
     Inr (m\<lparr>stateEqLagrangian := eqm, stateIneqLagrangian := inm\<rparr>, ms\<lparr>stateEq := eqs, stateIneq := ins\<rparr>)))"

definition updateIntermediateMultiplierCollection ::
  "optimal_control_problem \<Rightarrow> scalar \<Rightarrow> vector_t \<Rightarrow> vector_t \<Rightarrow> metrics \<Rightarrow> multiplier_collection \<Rightarrow> (metrics \<times> multiplier_collection) result" where
  "updateIntermediateMultiplierCollection ocp time state input m ms =
     bind_result (StateAugmentedLagrangianCollection_updateLagrangian (stateEqualityLagrangianPtr ocp) time state (stateEqLagrangian m) (stateEq ms)) (\<lambda>(eqm, eqs).
     bind_result (StateAugmentedLagrangianCollection_updateLagrangian (stateInequalityLagrangianPtr ocp) time state (stateIneqLagrangian m) (stateIneq ms)) (\<lambda>(inm, ins).
     bind_result (alc_updateLagrangian (equalityLagrangianPtr ocp) time (stateInputEqLagrangian m) (stateInputEq ms)) (\<lambda>(ueqm, ueqs).
     bind_result (alc_updateLagrangian (inequalityLagrangianPtr ocp) time (stateInputIneqLagrangian m) (stateInputIneq ms)) (\<lambda>(uinm, uins).
     Inr (m\<lparr>stateEqLagrangian := eqm, stateIneqLagrangian := inm, stateInputEqLagrangian := ueqm, stateInputIneqLagrangian := uinm\<rparr>,
          ms\<lparr>stateEq := eqs, stateIneq := ins, stateInputEq := ueqs, stateInputIneq := uins\<rparr>)))))"

definition default_MultiplierCollection :: multiplier_collection where
  "default_MultiplierCollection = \<lparr>stateEq = [], stateIneq = [], stateInputEq = [], stateInputIneq = []\<rparr>"

text \<open>The three parts of \<open>initializeDualSolution\<close>: the final time, the events and the intermediate times.\<close>

definition dual_final :: "optimal_control_problem \<Rightarrow> dual_solution \<Rightarrow> bool \<Rightarrow> scalar \<Rightarrow> multiplier_collection \<Rightarrow> multiplier_collection result" where
  "dual_final ocp cached tillFinal tf m =
     (if tillFinal \<and> \<not> empty_MultiplierCollection (ds_final cached) then Inr (ds_final cached)
      else initializeFinalMultiplierCollection ocp tf m)"

definition dual_preJumps :: "optimal_control_problem \<Rightarrow> primal_solution \<Rightarrow> dual_solution \<Rightarrow> multiplier_collection list result" where
  "dual_preJumps ocp ps cached =
     (case ps_postEventIndices ps of [] \<Rightarrow> Inr []
      | p # _ \<Rightarrow>
        if p = 0 then Inl Undefined
        else bind_result (vec_at (ps_timeTrajectory ps) (p - 1)) (\<lambda>firstEventTime.
          bind_result (getNumberOfPrecedingEvents (ds_timeTrajectory cached) (ds_postEventIndices cached) firstEventTime) (\<lambda>bias.
          map_result (\<lambda>i. bind_result (vec_at (ps_timeTrajectory ps) i) (\<lambda>time.
              if bias + i < length (ds_preJumps cached) then Inr (ds_preJumps cached ! (bias + i))
              else initializePreJumpMultiplierCollection ocp time default_MultiplierCollection))
            [0 ..< length (ps_postEventIndices ps)])))"

definition dual_intermediates ::
  "optimal_control_problem \<Rightarrow> primal_solution \<Rightarrow> dual_solution \<Rightarrow> scalar \<times> scalar \<Rightarrow> multiplier_collection list result" where
  "dual_intermediates ocp ps cached period =
     map_result (\<lambda>time.
         if fst period \<le> time \<and> time \<le> snd period then getIntermediateDualSolutionAtTime cached time
         else initializeIntermediateMultiplierCollection ocp time default_MultiplierCollection)
       (ps_timeTrajectory ps)"

definition initializeDualSolution ::
  "optimal_control_problem \<Rightarrow> primal_solution \<Rightarrow> dual_solution \<Rightarrow> dual_solution \<Rightarrow> dual_solution result" where
  "initializeDualSolution ocp ps cached ds =
     bind_result (vec_front (ps_timeTrajectory ps)) (\<lambda>t0.
     bind_result (vec_back (ps_timeTrajectory ps)) (\<lambda>tf.
     let period = findIntersectionToExtendableInterval (ds_timeTrajectory cached) (eventTimes (ps_modeSchedule ps)) (t0, tf);
         tillFinal = almost_eq (snd period) tf;
         ds = (clear_DualSolution ds)\<lparr>ds_timeTrajectory := ps_timeTrajectory ps, ds_postEventIndices := ps_postEventIndices ps\<rparr> in
     bind_result (dual_final ocp cached tillFinal tf (ds_final ds)) (\<lambda>final.
     bind_result (dual_preJumps ocp ps cached) (\<lambda>preJumps.
     bind_result (dual_intermediates ocp ps cached period) (\<lambda>intermediates.
     Inr (ds\<lparr>ds_final := final, ds_preJumps := preJumps, ds_intermediates := intermediates\<rparr>))))))"

subsection \<open>Update\<close>

definition update_final :: "optimal_control_problem \<Rightarrow> primal_solution \<Rightarrow> problem_metrics \<times> dual_solution \<Rightarrow> (problem_metrics \<times> dual_solution) result" where
  "update_final ocp ps s =
     (if ps_timeTrajectory ps = [] then Inr s
      else bind_result (vec_back (ps_stateTrajectory ps)) (\<lambda>x.
           bind_result (updateFinalMultiplierCollection ocp (last (ps_timeTrajectory ps)) x (pm_final (fst s)) (ds_final (snd s))) (\<lambda>(m, k).
           Inr ((fst s)\<lparr>pm_final := m\<rparr>, (snd s)\<lparr>ds_final := k\<rparr>))))"

definition update_preJump ::
  "optimal_control_problem \<Rightarrow> primal_solution \<Rightarrow> nat \<Rightarrow> problem_metrics \<times> dual_solution \<Rightarrow> (problem_metrics \<times> dual_solution) result" where
  "update_preJump ocp ps i s =
     bind_result (vec_at (ps_postEventIndices ps) i) (\<lambda>p.
     if p = 0 then Inl Undefined
     else bind_result (vec_at (ps_timeTrajectory ps) (p - 1)) (\<lambda>t.
       bind_result (vec_at (ps_stateTrajectory ps) (p - 1)) (\<lambda>x.
       bind_result (vec_at (pm_preJumps (fst s)) i) (\<lambda>m.
       bind_result (vec_at (ds_preJumps (snd s)) i) (\<lambda>k.
       bind_result (updatePreJumpMultiplierCollection ocp t x m k) (\<lambda>(m, k).
       Inr ((fst s)\<lparr>pm_preJumps := (pm_preJumps (fst s))[i := m]\<rparr>, (snd s)\<lparr>ds_preJumps := (ds_preJumps (snd s))[i := k]\<rparr>)))))))"

definition update_intermediate ::
  "optimal_control_problem \<Rightarrow> primal_solution \<Rightarrow> nat \<Rightarrow> problem_metrics \<times> dual_solution \<Rightarrow> (problem_metrics \<times> dual_solution) result" where
  "update_intermediate ocp ps i s =
     bind_result (vec_at (ps_timeTrajectory ps) i) (\<lambda>t.
     bind_result (vec_at (ps_stateTrajectory ps) i) (\<lambda>x.
     bind_result (vec_at (ps_inputTrajectory ps) i) (\<lambda>u.
     bind_result (vec_at (pm_intermediates (fst s)) i) (\<lambda>m.
     bind_result (vec_at (ds_intermediates (snd s)) i) (\<lambda>k.
     bind_result (updateIntermediateMultiplierCollection ocp t x u m k) (\<lambda>(m, k).
     Inr ((fst s)\<lparr>pm_intermediates := (pm_intermediates (fst s))[i := m]\<rparr>,
          (snd s)\<lparr>ds_intermediates := (ds_intermediates (snd s))[i := k]\<rparr>)))))))"

definition updateDualSolution ::
  "optimal_control_problem \<Rightarrow> primal_solution \<Rightarrow> problem_metrics \<Rightarrow> dual_solution \<Rightarrow> (problem_metrics \<times> dual_solution) result" where
  "updateDualSolution ocp ps pm ds =
     bind_result (update_final ocp ps (pm, ds)) (\<lambda>s.
     bind_result (require (length (ds_preJumps (snd s)) = length (ps_postEventIndices ps) \<and>
        length (pm_preJumps (fst s)) = length (ps_postEventIndices ps)) Assertion_Failed) (\<lambda>_.
     bind_result (fold_result (update_preJump ocp ps) [0 ..< length (ps_postEventIndices ps)] s) (\<lambda>s.
     bind_result (require (length (ds_intermediates (snd s)) = length (ps_timeTrajectory ps) \<and>
        length (pm_intermediates (fst s)) = length (ps_timeTrajectory ps)) Assertion_Failed) (\<lambda>_.
     fold_result (update_intermediate ocp ps) [0 ..< length (ps_timeTrajectory ps)] s))))"

section \<open>Extraction of a term\<close>

text \<open>A term found in a collection is read from the array of that collection at its index, at every node.\<close>

definition term_of :: "string \<Rightarrow> 't collection \<Rightarrow> ('m \<Rightarrow> 'v list) \<Rightarrow> 'm \<Rightarrow> 'v option result \<Rightarrow> 'v option result" where
  "term_of name c values m otherwise =
     (case getTermIndex name c of (found, index) \<Rightarrow>
        if found then bind_result (vec_at (values m) index) (\<lambda>v. Inr (Some v)) else otherwise)"

definition terms_of :: "string \<Rightarrow> 't collection \<Rightarrow> ('m \<Rightarrow> 'v list) \<Rightarrow> 'm list \<Rightarrow> (bool \<times> 'v list) result \<Rightarrow> (bool \<times> 'v list) result" where
  "terms_of name c values ms otherwise =
     (case getTermIndex name c of (found, index) \<Rightarrow>
        if found then bind_result (map_result (\<lambda>m. vec_at (values m) index) ms) (\<lambda>vs. Inr (True, vs)) else otherwise)"

definition extractFinalTermConstraint :: "optimal_control_problem \<Rightarrow> string \<Rightarrow> metrics \<Rightarrow> vector_t option result" where
  "extractFinalTermConstraint ocp name m =
     term_of name (finalEqualityConstraintPtr ocp) stateEqConstraint m
    (term_of name (finalInequalityConstraintPtr ocp) stateIneqConstraint m (Inr None))"

definition extractFinalTermLagrangianMetrics :: "optimal_control_problem \<Rightarrow> string \<Rightarrow> metrics \<Rightarrow> lagrangian_metrics option result" where
  "extractFinalTermLagrangianMetrics ocp name m =
     term_of name (finalEqualityLagrangianPtr ocp) stateEqLagrangian m
    (term_of name (finalInequalityLagrangianPtr ocp) stateIneqLagrangian m (Inr None))"

definition extractPreJumpTermConstraint :: "optimal_control_problem \<Rightarrow> string \<Rightarrow> metrics list \<Rightarrow> (bool \<times> vector_t list) result" where
  "extractPreJumpTermConstraint ocp name ms =
     terms_of name (preJumpEqualityConstraintPtr ocp) stateEqConstraint ms
    (terms_of name (preJumpInequalityConstraintPtr ocp) stateIneqConstraint ms (Inr (False, [])))"

definition extractPreJumpTermLagrangianMetrics ::
  "optimal_control_problem \<Rightarrow> string \<Rightarrow> metrics list \<Rightarrow> (bool \<times> lagrangian_metrics list) result" where
  "extractPreJumpTermLagrangianMetrics ocp name ms =
     terms_of name (preJumpEqualityLagrangianPtr ocp) stateEqLagrangian ms
    (terms_of name (preJumpInequalityLagrangianPtr ocp) stateIneqLagrangian ms (Inr (False, [])))"

definition extractIntermediateTermConstraint :: "optimal_control_problem \<Rightarrow> string \<Rightarrow> metrics list \<Rightarrow> (bool \<times> vector_t list) result" where
  "extractIntermediateTermConstraint ocp name ms =
     terms_of name (equalityConstraintPtr ocp) stateInputEqConstraint ms
    (terms_of name (stateEqualityConstraintPtr ocp) stateEqConstraint ms
    (terms_of name (inequalityConstraintPtr ocp) stateInputIneqConstraint ms
    (terms_of name (stateInequalityConstraintPtr ocp) stateIneqConstraint ms (Inr (False, [])))))"

definition extractIntermediateTermLagrangianMetrics ::
  "optimal_control_problem \<Rightarrow> string \<Rightarrow> metrics list \<Rightarrow> (bool \<times> lagrangian_metrics list) result" where
  "extractIntermediateTermLagrangianMetrics ocp name ms =
     terms_of name (equalityLagrangianPtr ocp) stateInputEqLagrangian ms
    (terms_of name (stateEqualityLagrangianPtr ocp) stateEqLagrangian ms
    (terms_of name (inequalityLagrangianPtr ocp) stateInputIneqLagrangian ms
    (terms_of name (stateInequalityLagrangianPtr ocp) stateIneqLagrangian ms (Inr (False, [])))))"

definition extractFinalTermMultiplier :: "optimal_control_problem \<Rightarrow> string \<Rightarrow> multiplier_collection \<Rightarrow> multiplier option result" where
  "extractFinalTermMultiplier ocp name m =
     term_of name (finalEqualityLagrangianPtr ocp) stateEq m
    (term_of name (finalInequalityLagrangianPtr ocp) stateIneq m (Inr None))"

definition extractPreJumpTermMultiplier ::
  "optimal_control_problem \<Rightarrow> string \<Rightarrow> multiplier_collection list \<Rightarrow> (bool \<times> multiplier list) result" where
  "extractPreJumpTermMultiplier ocp name ms =
     terms_of name (preJumpEqualityLagrangianPtr ocp) stateEq ms
    (terms_of name (preJumpInequalityLagrangianPtr ocp) stateIneq ms (Inr (False, [])))"

definition extractIntermediateTermMultiplier ::
  "optimal_control_problem \<Rightarrow> string \<Rightarrow> multiplier_collection list \<Rightarrow> (bool \<times> multiplier list) result" where
  "extractIntermediateTermMultiplier ocp name ms =
     terms_of name (equalityLagrangianPtr ocp) stateInputEq ms
    (terms_of name (stateEqualityLagrangianPtr ocp) stateEq ms
    (terms_of name (inequalityLagrangianPtr ocp) stateInputIneq ms
    (terms_of name (stateInequalityLagrangianPtr ocp) stateIneq ms (Inr (False, [])))))"

section \<open>Multipliers and metrics that belong together\<close>

definition terms_ok :: "'x augmented_lagrangian collection \<Rightarrow> bool" where
  "terms_ok c = (\<forall>t. \<forall>al \<in> set (col_terms c). al_ok t al)"

definition problem_al_ok :: "optimal_control_problem \<Rightarrow> bool" where
  "problem_al_ok p =
     (terms_ok (finalEqualityLagrangianPtr p) \<and> terms_ok (finalInequalityLagrangianPtr p) \<and>
      terms_ok (preJumpEqualityLagrangianPtr p) \<and> terms_ok (preJumpInequalityLagrangianPtr p) \<and>
      terms_ok (stateEqualityLagrangianPtr p) \<and> terms_ok (stateInequalityLagrangianPtr p) \<and>
      terms_ok (equalityLagrangianPtr p) \<and> terms_ok (inequalityLagrangianPtr p))"

text \<open>The multipliers fit the collection at the time and the metrics are those of the terms at the point.\<close>

definition matches :: "'x augmented_lagrangian collection \<Rightarrow> scalar \<Rightarrow> 'x \<Rightarrow> multiplier list \<Rightarrow> lagrangian_metrics list \<Rightarrow> bool" where
  "matches c t p ks xs = (multipliers_ok t c ks \<and> alc_getValue c t p ks = Inr xs)"

lemma update_matches:
  assumes "terms_ok c" "matches c t p ks xs"
  shows "\<exists>xs' ks'. alc_updateLagrangian c t xs ks = Inr (xs', ks') \<and> matches c t p ks' xs'"
  using collection_update_ok[of c t ks p xs] assms by (auto simp: terms_ok_def matches_def)

lemma initialize_matches: "terms_ok c \<Longrightarrow> \<exists>ks. alc_initializeLagrangian c t = Inr ks \<and> multipliers_ok t c ks"
  by (rule collection_initialize_ok) (simp add: terms_ok_def)

definition final_matches :: "optimal_control_problem \<Rightarrow> scalar \<Rightarrow> vector_t \<Rightarrow> multiplier_collection \<Rightarrow> metrics \<Rightarrow> bool" where
  "final_matches p t x k m =
     (matches (finalEqualityLagrangianPtr p) t x (stateEq k) (stateEqLagrangian m) \<and>
      matches (finalInequalityLagrangianPtr p) t x (stateIneq k) (stateIneqLagrangian m))"

definition preJump_matches :: "optimal_control_problem \<Rightarrow> scalar \<Rightarrow> vector_t \<Rightarrow> multiplier_collection \<Rightarrow> metrics \<Rightarrow> bool" where
  "preJump_matches p t x k m =
     (matches (preJumpEqualityLagrangianPtr p) t x (stateEq k) (stateEqLagrangian m) \<and>
      matches (preJumpInequalityLagrangianPtr p) t x (stateIneq k) (stateIneqLagrangian m))"

definition intermediate_matches ::
  "optimal_control_problem \<Rightarrow> scalar \<Rightarrow> vector_t \<Rightarrow> vector_t \<Rightarrow> multiplier_collection \<Rightarrow> metrics \<Rightarrow> bool" where
  "intermediate_matches p t x u k m =
     (matches (stateEqualityLagrangianPtr p) t x (stateEq k) (stateEqLagrangian m) \<and>
      matches (stateInequalityLagrangianPtr p) t x (stateIneq k) (stateIneqLagrangian m) \<and>
      matches (equalityLagrangianPtr p) t (x, u) (stateInputEq k) (stateInputEqLagrangian m) \<and>
      matches (inequalityLagrangianPtr p) t (x, u) (stateInputIneq k) (stateInputIneqLagrangian m))"

lemma update_final_matches:
  assumes ok: "problem_al_ok p" and m: "final_matches p t x k m"
  shows "\<exists>m' k'. updateFinalMultiplierCollection p t x m k = Inr (m', k') \<and> final_matches p t x k' m'"
proof -
  from update_matches[of "finalEqualityLagrangianPtr p" t x "stateEq k" "stateEqLagrangian m"] ok m obtain em ek where
    e: "alc_updateLagrangian (finalEqualityLagrangianPtr p) t (stateEqLagrangian m) (stateEq k) = Inr (em, ek)"
       "matches (finalEqualityLagrangianPtr p) t x ek em" by (auto simp: problem_al_ok_def final_matches_def)
  from update_matches[of "finalInequalityLagrangianPtr p" t x "stateIneq k" "stateIneqLagrangian m"] ok m obtain im ik where
    i: "alc_updateLagrangian (finalInequalityLagrangianPtr p) t (stateIneqLagrangian m) (stateIneq k) = Inr (im, ik)"
       "matches (finalInequalityLagrangianPtr p) t x ik im" by (auto simp: problem_al_ok_def final_matches_def)
  from e i show ?thesis
    by (simp add: updateFinalMultiplierCollection_def StateAugmentedLagrangianCollection_updateLagrangian_def final_matches_def)
qed

lemma update_preJump_matches:
  assumes ok: "problem_al_ok p" and m: "preJump_matches p t x k m"
  shows "\<exists>m' k'. updatePreJumpMultiplierCollection p t x m k = Inr (m', k') \<and> preJump_matches p t x k' m'"
proof -
  from update_matches[of "preJumpEqualityLagrangianPtr p" t x "stateEq k" "stateEqLagrangian m"] ok m obtain em ek where
    e: "alc_updateLagrangian (preJumpEqualityLagrangianPtr p) t (stateEqLagrangian m) (stateEq k) = Inr (em, ek)"
       "matches (preJumpEqualityLagrangianPtr p) t x ek em" by (auto simp: problem_al_ok_def preJump_matches_def)
  from update_matches[of "preJumpInequalityLagrangianPtr p" t x "stateIneq k" "stateIneqLagrangian m"] ok m obtain im ik where
    i: "alc_updateLagrangian (preJumpInequalityLagrangianPtr p) t (stateIneqLagrangian m) (stateIneq k) = Inr (im, ik)"
       "matches (preJumpInequalityLagrangianPtr p) t x ik im" by (auto simp: problem_al_ok_def preJump_matches_def)
  from e i show ?thesis
    by (simp add: updatePreJumpMultiplierCollection_def StateAugmentedLagrangianCollection_updateLagrangian_def preJump_matches_def)
qed

lemma update_intermediate_matches:
  assumes ok: "problem_al_ok p" and m: "intermediate_matches p t x u k m"
  shows "\<exists>m' k'. updateIntermediateMultiplierCollection p t x u m k = Inr (m', k') \<and> intermediate_matches p t x u k' m'"
proof -
  from update_matches[of "stateEqualityLagrangianPtr p" t x "stateEq k" "stateEqLagrangian m"] ok m obtain em ek where
    e: "alc_updateLagrangian (stateEqualityLagrangianPtr p) t (stateEqLagrangian m) (stateEq k) = Inr (em, ek)"
       "matches (stateEqualityLagrangianPtr p) t x ek em" by (auto simp: problem_al_ok_def intermediate_matches_def)
  from update_matches[of "stateInequalityLagrangianPtr p" t x "stateIneq k" "stateIneqLagrangian m"] ok m obtain im ik where
    i: "alc_updateLagrangian (stateInequalityLagrangianPtr p) t (stateIneqLagrangian m) (stateIneq k) = Inr (im, ik)"
       "matches (stateInequalityLagrangianPtr p) t x ik im" by (auto simp: problem_al_ok_def intermediate_matches_def)
  from update_matches[of "equalityLagrangianPtr p" t "(x, u)" "stateInputEq k" "stateInputEqLagrangian m"] ok m obtain uem uek where
    ue: "alc_updateLagrangian (equalityLagrangianPtr p) t (stateInputEqLagrangian m) (stateInputEq k) = Inr (uem, uek)"
       "matches (equalityLagrangianPtr p) t (x, u) uek uem" by (auto simp: problem_al_ok_def intermediate_matches_def)
  from update_matches[of "inequalityLagrangianPtr p" t "(x, u)" "stateInputIneq k" "stateInputIneqLagrangian m"] ok m obtain uim uik where
    ui: "alc_updateLagrangian (inequalityLagrangianPtr p) t (stateInputIneqLagrangian m) (stateInputIneq k) = Inr (uim, uik)"
       "matches (inequalityLagrangianPtr p) t (x, u) uik uim" by (auto simp: problem_al_ok_def intermediate_matches_def)
  from e i ue ui show ?thesis
    by (simp add: updateIntermediateMultiplierCollection_def StateAugmentedLagrangianCollection_updateLagrangian_def intermediate_matches_def)
qed

text \<open>The primal solution has a state and an input per time and its events are inside; the multipliers and metrics match at every node.\<close>

definition primal_shape :: "primal_solution \<Rightarrow> bool" where
  "primal_shape ps =
     (length (ps_stateTrajectory ps) = length (ps_timeTrajectory ps) \<and> length (ps_inputTrajectory ps) = length (ps_timeTrajectory ps) \<and>
      (\<forall>p \<in> set (ps_postEventIndices ps). 0 < p \<and> p \<le> length (ps_timeTrajectory ps)))"

definition final_part :: "optimal_control_problem \<Rightarrow> primal_solution \<Rightarrow> problem_metrics \<times> dual_solution \<Rightarrow> bool" where
  "final_part p ps s =
     (ps_timeTrajectory ps \<noteq> [] \<longrightarrow>
        final_matches p (last (ps_timeTrajectory ps)) (last (ps_stateTrajectory ps)) (ds_final (snd s)) (pm_final (fst s)))"

definition preJump_part :: "optimal_control_problem \<Rightarrow> primal_solution \<Rightarrow> problem_metrics \<times> dual_solution \<Rightarrow> bool" where
  "preJump_part p ps s =
     (length (ds_preJumps (snd s)) = length (ps_postEventIndices ps) \<and> length (pm_preJumps (fst s)) = length (ps_postEventIndices ps) \<and>
      (\<forall>i < length (ps_postEventIndices ps). let n = ps_postEventIndices ps ! i - 1 in
         preJump_matches p (ps_timeTrajectory ps ! n) (ps_stateTrajectory ps ! n) (ds_preJumps (snd s) ! i) (pm_preJumps (fst s) ! i)))"

definition intermediate_part :: "optimal_control_problem \<Rightarrow> primal_solution \<Rightarrow> problem_metrics \<times> dual_solution \<Rightarrow> bool" where
  "intermediate_part p ps s =
     (length (ds_intermediates (snd s)) = length (ps_timeTrajectory ps) \<and> length (pm_intermediates (fst s)) = length (ps_timeTrajectory ps) \<and>
      (\<forall>i < length (ps_timeTrajectory ps).
         intermediate_matches p (ps_timeTrajectory ps ! i) (ps_stateTrajectory ps ! i) (ps_inputTrajectory ps ! i)
           (ds_intermediates (snd s) ! i) (pm_intermediates (fst s) ! i)))"

definition dual_matches :: "optimal_control_problem \<Rightarrow> primal_solution \<Rightarrow> problem_metrics \<times> dual_solution \<Rightarrow> bool" where
  "dual_matches p ps s = (final_part p ps s \<and> preJump_part p ps s \<and> intermediate_part p ps s)"

lemma update_final_step:
  assumes "problem_al_ok p" "primal_shape ps" "dual_matches p ps s"
  shows "\<exists>s'. update_final p ps s = Inr s' \<and> dual_matches p ps s'"
proof (cases "ps_timeTrajectory ps = []")
  case False
  then have x: "ps_stateTrajectory ps \<noteq> []" using assms(2) by (auto simp: primal_shape_def)
  from False assms(3) have "final_matches p (last (ps_timeTrajectory ps)) (last (ps_stateTrajectory ps)) (ds_final (snd s)) (pm_final (fst s))"
    by (simp add: dual_matches_def final_part_def)
  from update_final_matches[OF assms(1) this] obtain m k where
    "updateFinalMultiplierCollection p (last (ps_timeTrajectory ps)) (last (ps_stateTrajectory ps)) (pm_final (fst s)) (ds_final (snd s)) = Inr (m, k)"
    "final_matches p (last (ps_timeTrajectory ps)) (last (ps_stateTrajectory ps)) k m" by blast
  with False x assms(3) show ?thesis
    by (simp add: update_final_def dual_matches_def final_part_def preJump_part_def intermediate_part_def Let_def)
qed (use assms(3) in \<open>simp add: update_final_def\<close>)

lemma update_preJump_step:
  assumes "problem_al_ok p" "primal_shape ps" "i < length (ps_postEventIndices ps)" "dual_matches p ps s"
  shows "\<exists>s'. update_preJump p ps i s = Inr s' \<and> dual_matches p ps s'"
proof -
  let ?n = "ps_postEventIndices ps ! i - 1"
  have n: "0 < ps_postEventIndices ps ! i" "?n < length (ps_timeTrajectory ps)" "?n < length (ps_stateTrajectory ps)"
    using assms(2) nth_mem[OF assms(3)] by (auto simp: primal_shape_def)
  have len: "i < length (ds_preJumps (snd s))" "i < length (pm_preJumps (fst s))"
    and pre: "preJump_matches p (ps_timeTrajectory ps ! ?n) (ps_stateTrajectory ps ! ?n) (ds_preJumps (snd s) ! i) (pm_preJumps (fst s) ! i)"
    using assms(3,4) by (simp_all add: dual_matches_def preJump_part_def Let_def)
  from update_preJump_matches[OF assms(1) pre] obtain m k where
    up: "updatePreJumpMultiplierCollection p (ps_timeTrajectory ps ! ?n) (ps_stateTrajectory ps ! ?n) (pm_preJumps (fst s) ! i) (ds_preJumps (snd s) ! i) = Inr (m, k)"
    "preJump_matches p (ps_timeTrajectory ps ! ?n) (ps_stateTrajectory ps ! ?n) k m" by blast
  let ?s = "((fst s)\<lparr>pm_preJumps := (pm_preJumps (fst s))[i := m]\<rparr>, (snd s)\<lparr>ds_preJumps := (ds_preJumps (snd s))[i := k]\<rparr>)"
  have "update_preJump p ps i s = Inr ?s" using n len up(1) assms(3) by (simp add: update_preJump_def)
  moreover have "preJump_part p ps ?s"
    using assms(4) up(2) len by (auto simp: dual_matches_def preJump_part_def Let_def nth_list_update)
  moreover have "final_part p ps ?s" "intermediate_part p ps ?s"
    using assms(4) by (simp_all add: dual_matches_def final_part_def intermediate_part_def)
  ultimately show ?thesis by (simp add: dual_matches_def)
qed

lemma update_intermediate_step:
  assumes "problem_al_ok p" "primal_shape ps" "i < length (ps_timeTrajectory ps)" "dual_matches p ps s"
  shows "\<exists>s'. update_intermediate p ps i s = Inr s' \<and> dual_matches p ps s'"
proof -
  let ?t = "ps_timeTrajectory ps ! i" and ?x = "ps_stateTrajectory ps ! i" and ?u = "ps_inputTrajectory ps ! i"
  have n: "i < length (ps_stateTrajectory ps)" "i < length (ps_inputTrajectory ps)" using assms(2,3) by (simp_all add: primal_shape_def)
  have len: "i < length (ds_intermediates (snd s))" "i < length (pm_intermediates (fst s))"
    and pre: "intermediate_matches p ?t ?x ?u (ds_intermediates (snd s) ! i) (pm_intermediates (fst s) ! i)"
    using assms(3,4) by (simp_all add: dual_matches_def intermediate_part_def)
  from update_intermediate_matches[OF assms(1) pre] obtain m k where
    up: "updateIntermediateMultiplierCollection p ?t ?x ?u (pm_intermediates (fst s) ! i) (ds_intermediates (snd s) ! i) = Inr (m, k)"
    "intermediate_matches p ?t ?x ?u k m" by blast
  let ?s = "((fst s)\<lparr>pm_intermediates := (pm_intermediates (fst s))[i := m]\<rparr>, (snd s)\<lparr>ds_intermediates := (ds_intermediates (snd s))[i := k]\<rparr>)"
  have "update_intermediate p ps i s = Inr ?s" using n len up(1) assms(3) by (simp add: update_intermediate_def)
  moreover have "intermediate_part p ps ?s"
    using assms(4) up(2) len by (auto simp: dual_matches_def intermediate_part_def nth_list_update)
  moreover have "final_part p ps ?s" "preJump_part p ps ?s"
    using assms(4) by (simp_all add: dual_matches_def final_part_def preJump_part_def Let_def)
  ultimately show ?thesis by (simp add: dual_matches_def)
qed

section \<open>Properties\<close>

text \<open>
  C19. The update of a dual solution: when the multipliers fit the terms and the metrics are those of the terms
  at every node of a primal solution (final time, events and intermediate times), \<open>updateDualSolution\<close>
  never fails, and afterwards the multipliers still fit and are admissible, and the metrics it leaves are
  again exactly those of the terms under the new multipliers; so it can be repeated without evaluating the metrics anew.
\<close>

theorem updateDualSolution_keeps_matches:
  assumes ok: "problem_al_ok p" "primal_shape ps" and m: "dual_matches p ps (pm, ds)"
  shows "\<exists>pm' ds'. updateDualSolution p ps pm ds = Inr (pm', ds') \<and> dual_matches p ps (pm', ds')"
proof -
  from update_final_step[OF ok m] obtain s1 where s1: "update_final p ps (pm, ds) = Inr s1" "dual_matches p ps s1" by blast
  have "\<exists>s. fold_result (update_preJump p ps) [0 ..< length (ps_postEventIndices ps)] s1 = Inr s \<and> dual_matches p ps s"
    by (rule fold_result_invariant[where P = "dual_matches p ps"]) (use s1 update_preJump_step[OF ok] in simp_all)
  then obtain s2 where s2: "fold_result (update_preJump p ps) [0 ..< length (ps_postEventIndices ps)] s1 = Inr s2" "dual_matches p ps s2" by blast
  have "\<exists>s. fold_result (update_intermediate p ps) [0 ..< length (ps_timeTrajectory ps)] s2 = Inr s \<and> dual_matches p ps s"
    by (rule fold_result_invariant[where P = "dual_matches p ps"]) (use s2 update_intermediate_step[OF ok] in simp_all)
  then obtain s3 where s3: "fold_result (update_intermediate p ps) [0 ..< length (ps_timeTrajectory ps)] s2 = Inr s3" "dual_matches p ps s3" by blast
  have req: "length (ds_preJumps (snd s1)) = length (ps_postEventIndices ps)" "length (pm_preJumps (fst s1)) = length (ps_postEventIndices ps)"
    "length (ds_intermediates (snd s2)) = length (ps_timeTrajectory ps)" "length (pm_intermediates (fst s2)) = length (ps_timeTrajectory ps)"
    using s1(2) s2(2) by (simp_all add: dual_matches_def preJump_part_def intermediate_part_def)
  have "updateDualSolution p ps pm ds = Inr s3" using s1(1) s2(1) s3(1) req by (simp add: updateDualSolution_def)
  with s3(2) show ?thesis by (cases s3) blast
qed

text \<open>A final slackness constraint on one state, one node and no event.\<close>

definition slack_problem :: optimal_control_problem where
  "slack_problem = new_OptimalControlProblem\<lparr>finalInequalityLagrangianPtr := slack_collection\<rparr>"

definition one_node :: primal_solution where
  "one_node = new_PrimalSolution\<lparr>ps_timeTrajectory := [0], ps_stateTrajectory := [[3]], ps_inputTrajectory := [[0]]\<rparr>"

definition slack_dual :: dual_solution where
  "slack_dual = \<lparr>ds_timeTrajectory = [0], ds_postEventIndices = [],
     ds_final = default_MultiplierCollection\<lparr>stateIneq := [Multiplier 1 [0]]\<rparr>, ds_preJumps = [], ds_intermediates = [default_MultiplierCollection]\<rparr>"

definition slack_metrics :: problem_metrics where
  "slack_metrics = \<lparr>pm_final = new_Metrics\<lparr>stateIneqLagrangian := [LagrangianMetrics 0 [2]]\<rparr>, pm_preJumps = [], pm_intermediates = [new_Metrics]\<rparr>"

lemma slack_ok: "problem_al_ok slack_problem" "primal_shape one_node" "dual_matches slack_problem one_node (slack_metrics, slack_dual)"
proof -
  have "al_ok t al" if "al \<in> set (col_terms slack_collection)" for t al
    using that by (simp add: slack_collection_def al_ok_def al_getNumConstraints_def sizes_fit_def penaltyTerm_def)
  then show "problem_al_ok slack_problem"
    by (simp add: problem_al_ok_def terms_ok_def slack_problem_def new_OptimalControlProblem_def new_Collection_def)
  show "primal_shape one_node" by (simp add: primal_shape_def one_node_def new_PrimalSolution_def)
  show "dual_matches slack_problem one_node (slack_metrics, slack_dual)"
    by (simp add: dual_matches_def final_part_def preJump_part_def intermediate_part_def final_matches_def intermediate_matches_def matches_def
        multipliers_ok_def alc_getValue_iff slack_problem_def new_OptimalControlProblem_def new_Collection_def one_node_def new_PrimalSolution_def
        slack_metrics_def slack_dual_def default_MultiplierCollection_def new_Metrics_def slack_collection_def al_multiplier_ok_def al_isActive_def
        al_getNumConstraints_def penaltyTerm_def Multiplier_def al_getValue_def multi_getValue_def sizes_fit_def getMultiplier_def eigen_at_def
        LagrangianMetrics_def)
qed

theorem updateDualSolution_keeps_matches_witness:
  "\<exists>pm' ds'. updateDualSolution slack_problem one_node slack_metrics slack_dual = Inr (pm', ds') \<and> dual_matches slack_problem one_node (pm', ds')"
  by (rule updateDualSolution_keeps_matches[OF slack_ok])

section \<open>Cold start\<close>

definition cold_dual :: dual_solution where
  "cold_dual = \<lparr>ds_timeTrajectory = [], ds_postEventIndices = [], ds_final = default_MultiplierCollection, ds_preJumps = [], ds_intermediates = []\<rparr>"

lemma initialize_final_ok:
  assumes "problem_al_ok p"
  shows "\<exists>k. initializeFinalMultiplierCollection p t m = Inr k \<and>
    multipliers_ok t (finalEqualityLagrangianPtr p) (stateEq k) \<and> multipliers_ok t (finalInequalityLagrangianPtr p) (stateIneq k)"
  using initialize_matches[of "finalEqualityLagrangianPtr p" t] initialize_matches[of "finalInequalityLagrangianPtr p" t] assms
  by (auto simp: initializeFinalMultiplierCollection_def problem_al_ok_def)

lemma initialize_preJump_ok:
  assumes "problem_al_ok p"
  shows "\<exists>k. initializePreJumpMultiplierCollection p t m = Inr k \<and>
    multipliers_ok t (preJumpEqualityLagrangianPtr p) (stateEq k) \<and> multipliers_ok t (preJumpInequalityLagrangianPtr p) (stateIneq k)"
  using initialize_matches[of "preJumpEqualityLagrangianPtr p" t] initialize_matches[of "preJumpInequalityLagrangianPtr p" t] assms
  by (auto simp: initializePreJumpMultiplierCollection_def problem_al_ok_def)

lemma initialize_intermediate_ok:
  assumes "problem_al_ok p"
  shows "\<exists>k. initializeIntermediateMultiplierCollection p t m = Inr k \<and>
    multipliers_ok t (stateEqualityLagrangianPtr p) (stateEq k) \<and> multipliers_ok t (stateInequalityLagrangianPtr p) (stateIneq k) \<and>
    multipliers_ok t (equalityLagrangianPtr p) (stateInputEq k) \<and> multipliers_ok t (inequalityLagrangianPtr p) (stateInputIneq k)"
  using initialize_matches[of "stateEqualityLagrangianPtr p" t] initialize_matches[of "stateInequalityLagrangianPtr p" t]
    initialize_matches[of "equalityLagrangianPtr p" t] initialize_matches[of "inequalityLagrangianPtr p" t] assms
  by (auto simp: initializeIntermediateMultiplierCollection_def problem_al_ok_def)

lemma map_result_choice:
  assumes "\<And>i. i < length xs \<Longrightarrow> \<exists>y. f (xs ! i) = Inr y \<and> P i y"
  shows "\<exists>ys. map_result f xs = Inr ys \<and> length ys = length xs \<and> (\<forall>i < length xs. P i (ys ! i))"
proof -
  obtain g where g: "\<And>i. i < length xs \<Longrightarrow> f (xs ! i) = Inr (g i) \<and> P i (g i)" using assms by metis
  then have "map_result f xs = Inr (map g [0 ..< length xs])" by (simp add: map_result_nth_iff)
  with g show ?thesis by auto
qed

text \<open>
  The cold start of a dual solution: on a non-empty primal solution with its events inside,
  \<open>initializeDualSolution\<close> from an empty cache never fails and gives every node admissible multipliers of the
  size of its constraints, at the final time and at every intermediate time. The multipliers of event \<open>i\<close> are
  those of the \<open>i\<close>-th time of the trajectory, which is not the time of the event.
\<close>

theorem cold_start_fits_nodes:
  assumes ok: "problem_al_ok p" "primal_shape ps" "ps_timeTrajectory ps \<noteq> []"
    and events: "length (ps_postEventIndices ps) \<le> length (ps_timeTrajectory ps)"
  shows "\<exists>ds. initializeDualSolution p ps cold_dual old = Inr ds \<and> ds_timeTrajectory ds = ps_timeTrajectory ps \<and>
           ds_postEventIndices ds = ps_postEventIndices ps \<and> length (ds_preJumps ds) = length (ps_postEventIndices ps) \<and>
           length (ds_intermediates ds) = length (ps_timeTrajectory ps) \<and>
           multipliers_ok (last (ps_timeTrajectory ps)) (finalEqualityLagrangianPtr p) (stateEq (ds_final ds)) \<and>
           multipliers_ok (last (ps_timeTrajectory ps)) (finalInequalityLagrangianPtr p) (stateIneq (ds_final ds)) \<and>
           (\<forall>i < length (ps_postEventIndices ps). multipliers_ok (ps_timeTrajectory ps ! i) (preJumpEqualityLagrangianPtr p) (stateEq (ds_preJumps ds ! i)) \<and>
              multipliers_ok (ps_timeTrajectory ps ! i) (preJumpInequalityLagrangianPtr p) (stateIneq (ds_preJumps ds ! i))) \<and>
           (\<forall>i < length (ps_timeTrajectory ps).
              multipliers_ok (ps_timeTrajectory ps ! i) (stateEqualityLagrangianPtr p) (stateEq (ds_intermediates ds ! i)) \<and>
              multipliers_ok (ps_timeTrajectory ps ! i) (stateInequalityLagrangianPtr p) (stateIneq (ds_intermediates ds ! i)) \<and>
              multipliers_ok (ps_timeTrajectory ps ! i) (equalityLagrangianPtr p) (stateInputEq (ds_intermediates ds ! i)) \<and>
              multipliers_ok (ps_timeTrajectory ps ! i) (inequalityLagrangianPtr p) (stateInputIneq (ds_intermediates ds ! i)))"
proof -
  let ?t = "ps_timeTrajectory ps" and ?post = "ps_postEventIndices ps"
  let ?period = "findIntersectionToExtendableInterval [] (eventTimes (ps_modeSchedule ps)) (hd ?t, last ?t)"
  have period: "?period = (hd ?t, hd ?t - 1 / 10 ^ 4)" by (simp add: findIntersectionToExtendableInterval_def)
  then have outside: "\<not> (fst ?period \<le> time \<and> time \<le> snd ?period)" for time by auto
  let ?m0 = "ds_final ((clear_DualSolution old)\<lparr>ds_timeTrajectory := ?t, ds_postEventIndices := ?post\<rparr>)"
  obtain kf where kf: "initializeFinalMultiplierCollection p (last ?t) ?m0 = Inr kf"
    "multipliers_ok (last ?t) (finalEqualityLagrangianPtr p) (stateEq kf)" "multipliers_ok (last ?t) (finalInequalityLagrangianPtr p) (stateIneq kf)"
    using initialize_final_ok[OF ok(1)] by blast
  have final: "dual_final p cold_dual b (last ?t) ?m0 = Inr kf" for b
    using kf(1) by (simp add: dual_final_def cold_dual_def default_MultiplierCollection_def empty_MultiplierCollection_def)
  have "\<exists>ks. dual_preJumps p ps cold_dual = Inr ks \<and> length ks = length ?post \<and>
      (\<forall>i < length ?post. multipliers_ok (?t ! i) (preJumpEqualityLagrangianPtr p) (stateEq (ks ! i)) \<and>
         multipliers_ok (?t ! i) (preJumpInequalityLagrangianPtr p) (stateIneq (ks ! i)))"
  proof (cases ?post)
    case (Cons q qs)
    have q: "0 < q" "q - 1 < length ?t" using ok(2) Cons by (auto simp: primal_shape_def)
    have "\<exists>ks. map_result (\<lambda>i. bind_result (vec_at ?t i) (\<lambda>time. initializePreJumpMultiplierCollection p time default_MultiplierCollection)) [0 ..< length ?post] = Inr ks \<and>
        length ks = length [0 ..< length ?post] \<and> (\<forall>i < length [0 ..< length ?post].
          multipliers_ok (?t ! i) (preJumpEqualityLagrangianPtr p) (stateEq (ks ! i)) \<and>
          multipliers_ok (?t ! i) (preJumpInequalityLagrangianPtr p) (stateIneq (ks ! i)))"
      by (rule map_result_choice) (use events initialize_preJump_ok[OF ok(1)] in simp)
    then obtain ks where "map_result (\<lambda>i. bind_result (vec_at ?t i) (\<lambda>time. initializePreJumpMultiplierCollection p time default_MultiplierCollection)) [0 ..< length ?post] = Inr ks"
      "length ks = length ?post" "\<forall>i < length ?post. multipliers_ok (?t ! i) (preJumpEqualityLagrangianPtr p) (stateEq (ks ! i)) \<and>
          multipliers_ok (?t ! i) (preJumpInequalityLagrangianPtr p) (stateIneq (ks ! i))" by auto
    then show ?thesis
      unfolding dual_preJumps_def Cons list.case using q by (simp add: cold_dual_def getNumberOfPrecedingEvents_def)
  qed (simp add: dual_preJumps_def)
  then obtain ks where ks: "dual_preJumps p ps cold_dual = Inr ks" "length ks = length ?post"
    "\<forall>i < length ?post. multipliers_ok (?t ! i) (preJumpEqualityLagrangianPtr p) (stateEq (ks ! i)) \<and>
       multipliers_ok (?t ! i) (preJumpInequalityLagrangianPtr p) (stateIneq (ks ! i))" by blast
  let ?ok = "\<lambda>i k. multipliers_ok (?t ! i) (stateEqualityLagrangianPtr p) (stateEq k) \<and> multipliers_ok (?t ! i) (stateInequalityLagrangianPtr p) (stateIneq k) \<and>
     multipliers_ok (?t ! i) (equalityLagrangianPtr p) (stateInputEq k) \<and> multipliers_ok (?t ! i) (inequalityLagrangianPtr p) (stateInputIneq k)"
  have "\<exists>js. map_result (\<lambda>time. if fst ?period \<le> time \<and> time \<le> snd ?period then getIntermediateDualSolutionAtTime cold_dual time
         else initializeIntermediateMultiplierCollection p time default_MultiplierCollection) ?t = Inr js \<and> length js = length ?t \<and> (\<forall>i < length ?t. ?ok i (js ! i))"
    by (rule map_result_choice) (use initialize_intermediate_ok[OF ok(1)] in \<open>simp add: outside\<close>)
  then obtain js where js: "dual_intermediates p ps cold_dual ?period = Inr js" "length js = length ?t" "\<forall>i < length ?t. ?ok i (js ! i)"
    unfolding dual_intermediates_def by blast
  have "ds_timeTrajectory cold_dual = []" by (simp add: cold_dual_def)
  with ok(3) final ks(1) js(1) kf ks(2,3) js(2,3) show ?thesis
    by (simp add: initializeDualSolution_def vec_front_nonempty Let_def)
qed

theorem cold_start_fits_nodes_witness:
  "\<exists>ds. initializeDualSolution slack_problem one_node cold_dual cold_dual = Inr ds \<and> length (ds_intermediates ds) = 1"
  using cold_start_fits_nodes[OF slack_ok(1,2), of cold_dual] by (auto simp: one_node_def new_PrimalSolution_def)

section \<open>The time of the pre-jump multipliers\<close>

text \<open>A constraint before jumps that is active from time 1 on, on a trajectory whose event is at time 1.\<close>

definition late_constraint :: "vector_t augmented_lagrangian" where
  "late_constraint =
     \<lparr>al_constraint = \<lparr>c_getOrder = Linear_Order, c_isActive = (\<lambda>t. 1 \<le> t), c_getNumConstraints = (\<lambda>_. 1),
        c_getValue = (\<lambda>_ x. Inr [x ! 0]), c_getLinearApproximation = (\<lambda>_ _. Inl Undefined), c_getQuadraticApproximation = (\<lambda>_ _. Inl Undefined)\<rparr>,
      al_penalty = [Augmented_Quadratic_Penalty \<lparr>a_scale = 2, a_stepSize = 1\<rparr>]\<rparr>"

definition late_problem :: optimal_control_problem where
  "late_problem = new_OptimalControlProblem\<lparr>preJumpEqualityLagrangianPtr := \<lparr>col_terms = [late_constraint], termNameMap = [''late'' \<mapsto> 0]\<rparr>,
     targetTrajectoriesPtr := Some origin_targets\<rparr>"

definition one_event :: primal_solution where
  "one_event = new_PrimalSolution\<lparr>ps_timeTrajectory := [0, 1, 1, 2], ps_stateTrajectory := [[0], [0], [0], [0]],
     ps_inputTrajectory := [[0], [0], [0], [0]], ps_postEventIndices := [2], ps_modeSchedule := \<lparr>eventTimes = [1], modeSequence = [0, 1]\<rparr>\<rparr>"

text \<open>
  The pre-jump multipliers are initialised at the wrong time: for a trajectory with times 0, 1, 1, 2 and its
  only event at time 1, a constraint that is active at the event but not at time 0 gets the empty multiplier of
  an inactive term, which does not fit the event, and evaluating the pre-jump metrics with it runs out of its bounds.
\<close>

theorem preJump_initialised_at_wrong_time:
  "problem_al_ok late_problem \<and> primal_shape one_event \<and>
   (\<exists>ds. initializeDualSolution late_problem one_event cold_dual cold_dual = Inr ds \<and>
      stateEq (ds_preJumps ds ! 0) = [Multiplier 0 []] \<and>
      \<not> multipliers_ok 1 (preJumpEqualityLagrangianPtr late_problem) (stateEq (ds_preJumps ds ! 0)) \<and>
      ocp_computePreJumpMetrics late_problem 1 [0] (ds_preJumps ds ! 0) [] = Inl Assertion_Failed)"
proof (intro conjI)
  show ok: "problem_al_ok late_problem"
    by (auto simp: problem_al_ok_def terms_ok_def late_problem_def new_OptimalControlProblem_def new_Collection_def late_constraint_def
        al_ok_def al_getNumConstraints_def sizes_fit_def penaltyTerm_def)
  show shape: "primal_shape one_event" by (simp add: primal_shape_def one_event_def new_PrimalSolution_def)
  have init: "alc_initializeLagrangian (preJumpEqualityLagrangianPtr late_problem) 0 = Inr [Multiplier 0 []]"
    by (simp add: alc_initializeLagrangian_def late_problem_def new_OptimalControlProblem_def late_constraint_def al_isActive_def)
  have none: "alc_initializeLagrangian (c :: 'x augmented_lagrangian collection) t = Inr []" if "c = new_Collection" for c t
    using that by (simp add: alc_initializeLagrangian_def new_Collection_def)
  let ?m = "default_MultiplierCollection\<lparr>stateEq := [Multiplier 0 []]\<rparr>"
  let ?period = "findIntersectionToExtendableInterval [] [1] (0, 2)"
  have period: "\<not> (fst ?period \<le> time \<and> time \<le> snd ?period)" for time by (simp add: findIntersectionToExtendableInterval_def)
  have pre: "dual_preJumps late_problem one_event cold_dual = Inr [?m]"
    using init by (simp add: dual_preJumps_def one_event_def new_PrimalSolution_def cold_dual_def getNumberOfPrecedingEvents_def
        initializePreJumpMultiplierCollection_def late_problem_def new_OptimalControlProblem_def alc_initializeLagrangian_def new_Collection_def
        default_MultiplierCollection_def)
  have inter: "\<exists>js. dual_intermediates late_problem one_event cold_dual ?period = Inr js"
    unfolding dual_intermediates_def if_not_P[OF period]
    by (simp add: one_event_def new_PrimalSolution_def initializeIntermediateMultiplierCollection_def late_problem_def new_OptimalControlProblem_def none)
  have final: "\<exists>k. dual_final late_problem cold_dual b 2 m = Inr k" for b m
    by (simp add: dual_final_def cold_dual_def default_MultiplierCollection_def empty_MultiplierCollection_def initializeFinalMultiplierCollection_def
        late_problem_def new_OptimalControlProblem_def none)
  have "\<exists>ds. initializeDualSolution late_problem one_event cold_dual cold_dual = Inr ds \<and> ds_preJumps ds = [?m]"
  proof -
    obtain js where js: "dual_intermediates late_problem one_event cold_dual ?period = Inr js" using inter by blast
    obtain k where k: "dual_final late_problem cold_dual (almost_eq (snd ?period) 2) 2
        (ds_final (clear_DualSolution cold_dual)) = Inr k" using final by blast
    have t: "ps_timeTrajectory one_event = [0, 1, 1, 2]" "ps_postEventIndices one_event = [2]" "eventTimes (ps_modeSchedule one_event) = [1]"
      "ds_timeTrajectory cold_dual = []" by (simp_all add: one_event_def new_PrimalSolution_def cold_dual_def)
    show ?thesis by (simp add: initializeDualSolution_def t Let_def k js pre)
  qed
  then obtain ds where ds: "initializeDualSolution late_problem one_event cold_dual cold_dual = Inr ds" "ds_preJumps ds = [?m]" by blast
  have "\<not> multipliers_ok 1 (preJumpEqualityLagrangianPtr late_problem) [Multiplier 0 []]"
    by (simp add: multipliers_ok_def late_problem_def new_OptimalControlProblem_def late_constraint_def al_multiplier_ok_def al_isActive_def
        al_getNumConstraints_def Multiplier_def)
  moreover have "ocp_computePreJumpMetrics late_problem 1 [0] ?m [] = Inl Assertion_Failed"
    by (simp add: ocp_computePreJumpMetrics_def ocp_PreJumpMetrics_def computeEventCost_def targets_of_problem_def late_problem_def new_OptimalControlProblem_def
        StateCostCollection_getValue_def cost_collection_value_def new_Collection_def values_unless_empty_def empty_Collection_def alc_getValue_def
        late_constraint_def al_isActive_def al_getValue_def Multiplier_def multi_getValue_def sizes_fit_def getMultiplier_def eigen_at_def)
  ultimately show "\<exists>ds. initializeDualSolution late_problem one_event cold_dual cold_dual = Inr ds \<and>
      stateEq (ds_preJumps ds ! 0) = [Multiplier 0 []] \<and>
      \<not> multipliers_ok 1 (preJumpEqualityLagrangianPtr late_problem) (stateEq (ds_preJumps ds ! 0)) \<and>
      ocp_computePreJumpMetrics late_problem 1 [0] (ds_preJumps ds ! 0) [] = Inl Assertion_Failed"
    using ds by (intro exI[of _ ds]) simp
qed

end
