(* ===== verification/DDP_Helpers.thy ===== *)
theory DDP_Helpers
  imports Ocp_Helpers Performance_Index
begin

text \<open>
  \<open>mpc/ocs2_ddp/src/DDP_HelperFunctions.cpp\<close>: the metrics of a rollout, the projection of a linear-quadratic
  model onto its input constraints, the extraction of a part of a primal solution, the controller increment of
  a search step, and the division of a trajectory into partitions. The properties: a rollout is evaluated
  completely, the projected model stands for the original one on the constraint manifold, the partitions
  cover the trajectory, and a partition seen backwards in time keeps its events.
\<close>

section \<open>Metrics of a rollout\<close>

text \<open>One pass of the loop at node \<open>k\<close>; \<open>j\<close> is the position of the next post-event index.\<close>

definition metrics_step ::
  "optimal_control_problem \<Rightarrow> primal_solution \<Rightarrow> dual_solution \<Rightarrow> nat \<Rightarrow> problem_metrics \<times> nat \<Rightarrow> (problem_metrics \<times> nat) result" where
  "metrics_step problem ps ds k s =
     (case s of (pm, j) \<Rightarrow>
        bind_result (vec_at (ps_timeTrajectory ps) k) (\<lambda>t.
        bind_result (vec_at (ps_stateTrajectory ps) k) (\<lambda>x.
        bind_result (vec_at (ps_inputTrajectory ps) k) (\<lambda>u.
        bind_result (vec_at (ds_intermediates ds) k) (\<lambda>mk.
        bind_result (ocp_computeIntermediateMetrics problem t x u mk []) (\<lambda>m.
          let pm1 = pm\<lparr>pm_intermediates := pm_intermediates pm @ [m]\<rparr>
          in if j < length (ps_postEventIndices ps) \<and> k + 1 = ps_postEventIndices ps ! j
             then bind_result (vec_at (ds_preJumps ds) j) (\<lambda>mj.
                  bind_result (ocp_computePreJumpMetrics problem t x mj []) (\<lambda>m.
                    Inr (pm1\<lparr>pm_preJumps := pm_preJumps pm1 @ [m]\<rparr>, j + 1)))
             else Inr (pm1, j)))))))"

definition computeRolloutMetrics ::
  "optimal_control_problem \<Rightarrow> primal_solution \<Rightarrow> dual_solution \<Rightarrow> problem_metrics \<Rightarrow> problem_metrics result" where
  "computeRolloutMetrics problem ps ds pm =
     bind_result (fold_result (metrics_step problem ps ds) [0 ..< length (ps_timeTrajectory ps)] (clear_ProblemMetrics pm, 0)) (\<lambda>s.
       if ps_timeTrajectory ps = [] then Inr (fst s)
       else bind_result (vec_back (ps_stateTrajectory ps)) (\<lambda>x.
            bind_result (ocp_computeFinalMetrics problem (last (ps_timeTrajectory ps)) x (ds_final ds)) (\<lambda>m.
         Inr ((fst s)\<lparr>pm_final := m\<rparr>))))"

section \<open>Rollout with the controller of a solution\<close>

text \<open>
  \<open>RolloutBase::run\<close> is virtual: a rollout is a function that returns the final state, the trajectories and
  the mode schedule, which a state triggered rollout rewrites. The numbers of the model are finite, so the check
  \<open>allFinite\<close> passes. A rollout without a node would make the average time step the quotient by zero.
\<close>

type_synonym rollout_fun =
  "scalar \<Rightarrow> vector_t \<Rightarrow> scalar \<Rightarrow> controller option \<Rightarrow> mode_schedule \<Rightarrow> (vector_t \<times> rollout_data \<times> mode_schedule) result"

definition rolloutTrajectory ::
  "rollout_fun \<Rightarrow> scalar \<Rightarrow> vector_t \<Rightarrow> scalar \<Rightarrow> primal_solution \<Rightarrow> (scalar \<times> primal_solution) result" where
  "rolloutTrajectory rollout initTime initState finalTime ps =
     bind_result (rollout initTime initState finalTime (ps_controllerPtr ps) (ps_modeSchedule ps)) (\<lambda>(xCurrent, d, schedule).
       if roTime d = [] then Inl Undefined
       else Inr ((finalTime - initTime) / real (length (roTime d)),
                 ps\<lparr>ps_modeSchedule := schedule, ps_timeTrajectory := roTime d, ps_postEventIndices := roPostEvents d,
                    ps_stateTrajectory := roState d, ps_inputTrajectory := roInput d\<rparr>))"

definition getLinearController :: "primal_solution \<Rightarrow> linear_controller result" where
  "getLinearController ps =
     (case ps_controllerPtr ps of Some (Linear c) \<Rightarrow> Inr c | _ \<Rightarrow> Inl Assertion_Failed)"

section \<open>Projection of the linear-quadratic model\<close>

definition projectLQ :: "model_data \<Rightarrow> dmatrix \<Rightarrow> dmatrix \<Rightarrow> model_data \<Rightarrow> model_data result" where
  "projectLQ md rangeP nullP pd =
     (let nc = length (vl_f (md_stateInputEqConstraint md));
          nv = md_inputDim md - int nc;
          pd = pd\<lparr>md_time := md_time md, md_stateDim := md_stateDim md, md_inputDim := nv,
                  md_stateEqConstraint := (md_stateEqConstraint pd)\<lparr>vl_f := []\<rparr>\<rparr> in
      if nc = 0 then
        bind_result (require (0 \<le> nv \<and> 0 \<le> md_stateDim md) Assertion_Failed) (\<lambda>_.
        bind_result (changeOfInputVariables_linear (md_dynamics md) nullP empty_mat []) (\<lambda>dyn.
        bind_result (changeOfInputVariables_quadratic (md_cost md) nullP empty_mat []) (\<lambda>c.
        Inr (pd\<lparr>md_stateInputEqConstraint := \<lparr>vl_dfdx = zero_mat (nat nv) (nat (md_stateDim md)),
                    vl_dfdu = zero_mat (nat (md_inputDim md)) (nat (md_inputDim md)), vl_f = zero_vec (nat nv)\<rparr>,
                md_dynamics := dyn, md_dynamicsBias := md_dynamicsBias md, md_cost := c\<rparr>))))
      else
        bind_result (mat_vmult rangeP (vl_f (md_stateInputEqConstraint md))) (\<lambda>e.
        bind_result (mat_mult rangeP (vl_dfdx (md_stateInputEqConstraint md))) (\<lambda>C.
        bind_result (mat_mult rangeP (vl_dfdu (md_stateInputEqConstraint md))) (\<lambda>D.
        let Px = mneg C; u0 = vneg e in
        bind_result (changeOfInputVariables_linear (md_dynamics md) nullP Px u0) (\<lambda>dyn.
        bind_result (bind_result (mat_vmult (vl_dfdu (md_dynamics md)) u0) (vec_add (md_dynamicsBias md))) (\<lambda>bias.
        bind_result (changeOfInputVariables_quadratic (md_cost md) nullP Px u0) (\<lambda>c.
        Inr (pd\<lparr>md_stateInputEqConstraint := \<lparr>vl_dfdx = C, vl_dfdu = D, vl_f = e\<rparr>,
                md_dynamics := dyn, md_dynamicsBias := bias, md_cost := c\<rparr>))))))))"

section \<open>Extraction of a part of a solution\<close>

text \<open>\<open>resize\<close> with a negative size asks for more elements than a vector can have.\<close>

definition copySegment ::
  "('f \<Rightarrow> 'f \<Rightarrow> bool) \<Rightarrow> (scalar \<Rightarrow> 'f \<Rightarrow> 'f \<Rightarrow> 'f) \<Rightarrow> index_alpha \<Rightarrow> index_alpha \<Rightarrow> 'f list \<Rightarrow> 'f list result" where
  "copySegment areSameSize combine ia0 ia1 input =
     (let n = 2 + fst ia1 - fst ia0 in
      if n < 0 then Inl (Runtime_Error ''vector::_M_default_append'')
      else if n = 0 then Inr []
      else bind_result (interpolate areSameSize combine ia0 input (\<lambda>d. d)) (\<lambda>front.
           bind_result (if fst ia0 \<le> fst ia1 then vec_range_int input (fst ia0 + 1) (fst ia1 + 1) else Inr []) (\<lambda>mid.
           bind_result (interpolate areSameSize combine ia1 input (\<lambda>d. d)) (\<lambda>back.
           Inr (if n = 1 then [back] else front # mid @ [back])))))"

definition upper_index_alpha :: "scalar \<Rightarrow> primal_solution \<Rightarrow> index_alpha result" where
  "upper_index_alpha t ps =
     bind_result (timeSegment t (ps_timeTrajectory ps)) (\<lambda>lower.
       let upper = (if almost_eq (snd lower) 0 then (fst lower + 1, 1) else lower)
       in Inr (if nat (fst upper + 1) \<in> set (ps_postEventIndices ps) then (fst upper + 1, 1) else upper))"

fun kept_events :: "index_alpha \<Rightarrow> scalar \<Rightarrow> scalar list \<Rightarrow> nat list \<Rightarrow> nat list result" where
  "kept_events ia0 finalTime ts [] = Inr []"
| "kept_events ia0 finalTime ts (p # ps) =
     bind_result (if nat (fst ia0) < p then bind_result (vec_at ts (p - 1)) (\<lambda>t. Inr (t \<le> finalTime)) else Inr False) (\<lambda>keep.
     bind_result (kept_events ia0 finalTime ts ps) (\<lambda>rest.
     Inr (if keep then (p - nat (fst ia0)) # rest else rest)))"

text \<open>An event at the final time gets back the node that the copied segment ends before.\<close>

definition append_final_event :: "scalar \<Rightarrow> primal_solution \<Rightarrow> primal_solution \<Rightarrow> primal_solution result" where
  "append_final_event finalTime inputSol out =
     (if ps_postEventIndices out \<noteq> [] \<and> last (ps_postEventIndices out) = length (ps_timeTrajectory out) then
        bind_result (timeSegment (finalTime + weakEpsilon) (ps_timeTrajectory inputSol)) (\<lambda>ia2.
        bind_result (interpolate areSameSize_vector combine_vector ia2 (ps_stateTrajectory inputSol) (\<lambda>d. d)) (\<lambda>x.
        bind_result (interpolate areSameSize_vector combine_vector ia2 (ps_inputTrajectory inputSol) (\<lambda>d. d)) (\<lambda>u.
        Inr (out\<lparr>ps_timeTrajectory := ps_timeTrajectory out @ [min (finalTime + weakEpsilon) finalTime],
                 ps_stateTrajectory := ps_stateTrajectory out @ [x], ps_inputTrajectory := ps_inputTrajectory out @ [u]\<rparr>))))
      else Inr out)"

definition extractPrimalSolution :: "scalar \<times> scalar \<Rightarrow> primal_solution \<Rightarrow> primal_solution \<Rightarrow> primal_solution result" where
  "extractPrimalSolution period inputSol out =
     bind_result (upper_index_alpha (fst period) inputSol) (\<lambda>ia0.
     bind_result (timeSegment (snd period) (ps_timeTrajectory inputSol)) (\<lambda>ia1.
     bind_result (copySegment areSameSize_scalar combine_scalar ia0 ia1 (ps_timeTrajectory inputSol)) (\<lambda>ts.
     bind_result (copySegment areSameSize_vector combine_vector ia0 ia1 (ps_stateTrajectory inputSol)) (\<lambda>xs.
     bind_result (copySegment areSameSize_vector combine_vector ia0 ia1 (ps_inputTrajectory inputSol)) (\<lambda>us.
     bind_result (kept_events ia0 (snd period) (ps_timeTrajectory inputSol) (ps_postEventIndices inputSol)) (\<lambda>evs.
     append_final_event (snd period) inputSol
       (out\<lparr>ps_controllerPtr := map_option clear_controller (ps_controllerPtr out), ps_modeSchedule := ps_modeSchedule inputSol,
            ps_timeTrajectory := ts, ps_stateTrajectory := xs, ps_inputTrajectory := us, ps_postEventIndices := evs\<rparr>)))))))"

section \<open>Controller increment\<close>

definition maxControllerUpdateNorm :: "linear_controller \<Rightarrow> scalar" where
  "maxControllerUpdateNorm c = fold (\<lambda>b m. max m (sqrt (squaredNorm b))) (lc_deltaBiasArray c) 0"

definition computeControllerUpdateIS :: "linear_controller \<Rightarrow> scalar result" where
  "computeControllerUpdateIS c =
     (let n = length (lc_timeStamp c); ds = lc_deltaBiasArray c in
      if n < length ds then Inl Undefined
      else trapezoidalIntegration (lc_timeStamp c) (map squaredNorm ds @ replicate (n - length ds) 0) 0)"

definition incrementController :: "scalar \<Rightarrow> linear_controller \<Rightarrow> linear_controller \<Rightarrow> linear_controller result" where
  "incrementController stepLength unoptimized c =
     bind_result (map_result (\<lambda>k.
         bind_result (vec_at (lc_biasArray unoptimized) k) (\<lambda>b.
         bind_result (vec_at (lc_deltaBiasArray unoptimized) k) (\<lambda>d. vec_add b (vscale stepLength d))))
       [0 ..< nat (lc_size unoptimized)]) (\<lambda>bias.
     Inr ((lc_clear c)\<lparr>lc_timeStamp := lc_timeStamp unoptimized, lc_gainArray := lc_gainArray unoptimized, lc_biasArray := bias\<rparr>))"

section \<open>Partitions\<close>

definition upper_bound_nat :: "nat list \<Rightarrow> nat \<Rightarrow> nat" where
  "upper_bound_nat xs v = length (takeWhile (\<lambda>x. x \<le> v) xs)"

text \<open>The subtraction of the \<open>size_t\<close> index wraps around.\<close>

definition retrieveActiveNormalizedTime :: "int \<times> int \<Rightarrow> scalar list \<Rightarrow> nat list \<Rightarrow> (scalar list \<times> nat list) result" where
  "retrieveActiveNormalizedTime interval ts events =
     (let N = snd interval - fst interval + 1 in
      if N < 0 then Inl (Runtime_Error ''vector::_M_default_append'')
      else bind_result (vec_range_int ts (fst interval) (snd interval + 1)) (\<lambda>tr.
        let first = upper_bound_nat events (nat (fst interval)); lst = upper_bound_nat events (nat (snd interval))
        in if lst < first then Inl (Runtime_Error ''vector::_M_default_append'')
           else Inr (rev (map uminus tr),
                     rev (map (\<lambda>i. nat ((N - int i + fst interval) mod 2 ^ 64)) (take (lst - first) (drop first events))))))"

fun desired_points :: "scalar \<Rightarrow> scalar \<Rightarrow> nat \<Rightarrow> scalar list" where
  "desired_points p increment 0 = []"
| "desired_points p increment (Suc n) = (p + increment) # desired_points (p + increment) increment n"

definition partition_step :: "scalar list \<Rightarrow> scalar \<Rightarrow> (nat \<times> nat) list \<times> nat \<Rightarrow> (nat \<times> nat) list \<times> nat" where
  "partition_step ts point s =
     (let itr = upperBoundIndex ts point;
          endPos = (if itr \<noteq> length ts then itr else length ts - 1)
      in if endPos \<noteq> snd s then (fst s @ [(snd s, endPos)], endPos) else s)"

text \<open>With no worker there is only one desired point and no interval.\<close>

definition computePartitionIntervals :: "scalar list \<Rightarrow> int \<Rightarrow> (nat \<times> nat) list result" where
  "computePartitionIntervals ts numWorkers =
     bind_result (vec_back ts) (\<lambda>back.
     bind_result (vec_front ts) (\<lambda>front.
       if numWorkers < - 1 then Inl (Runtime_Error ''cannot create std::vector larger than max_size()'')
       else if numWorkers = - 1 then Inl Undefined
       else if numWorkers = 0 then Inr []
       else let increment = (back - front) / real_of_int numWorkers
            in Inr (fst (fold (partition_step ts) (desired_points front increment (nat numWorkers - 1) @ [back]) ([], 0)))))"

section \<open>The nodes of a rollout that are evaluated\<close>

text \<open>The post-event indices are those of events inside a trajectory of \<open>n\<close> nodes, in order.\<close>

definition post_events_ok :: "nat list \<Rightarrow> nat \<Rightarrow> bool" where
  "post_events_ok ps n = (sorted_wrt (<) ps \<and> (\<forall>i \<in> set ps. 1 \<le> i \<and> i \<le> n))"

definition node_metrics :: "optimal_control_problem \<Rightarrow> primal_solution \<Rightarrow> dual_solution \<Rightarrow> nat \<Rightarrow> metrics result" where
  "node_metrics problem ps ds k =
     ocp_computeIntermediateMetrics problem (ps_timeTrajectory ps ! k) (ps_stateTrajectory ps ! k) (ps_inputTrajectory ps ! k)
       (ds_intermediates ds ! k) []"

definition event_metrics :: "optimal_control_problem \<Rightarrow> primal_solution \<Rightarrow> dual_solution \<Rightarrow> nat \<Rightarrow> metrics result" where
  "event_metrics problem ps ds j =
     ocp_computePreJumpMetrics problem (ps_timeTrajectory ps ! (ps_postEventIndices ps ! j - 1))
       (ps_stateTrajectory ps ! (ps_postEventIndices ps ! j - 1)) (ds_preJumps ds ! j) []"

lemma metrics_loop:
  fixes im jm :: "nat \<Rightarrow> metrics"
  assumes "post_events_ok (ps_postEventIndices ps) (length (ps_timeTrajectory ps))"
    and "length (ps_stateTrajectory ps) = length (ps_timeTrajectory ps)" "length (ps_inputTrajectory ps) = length (ps_timeTrajectory ps)"
    and "length (ds_intermediates ds) = length (ps_timeTrajectory ps)" "length (ds_preJumps ds) = length (ps_postEventIndices ps)"
    and nodes: "\<forall>k < length (ps_timeTrajectory ps). node_metrics problem ps ds k = Inr (im k)"
    and events: "\<forall>j < length (ps_postEventIndices ps). event_metrics problem ps ds j = Inr (jm j)"
    and "pm_intermediates pm0 = []" "pm_preJumps pm0 = []" "n \<le> length (ps_timeTrajectory ps)"
  shows "\<exists>j. fold_result (metrics_step problem ps ds) [0 ..< n] (pm0, 0) =
           Inr (pm0\<lparr>pm_intermediates := map im [0 ..< n], pm_preJumps := map jm [0 ..< j]\<rparr>, j) \<and>
         j \<le> length (ps_postEventIndices ps) \<and> (\<forall>i < j. ps_postEventIndices ps ! i \<le> n) \<and>
         (\<forall>i < length (ps_postEventIndices ps). j \<le> i \<longrightarrow> n < ps_postEventIndices ps ! i)"
  using assms(10)
proof (induction n)
  case 0
  have "\<forall>i < length (ps_postEventIndices ps). 0 < ps_postEventIndices ps ! i"
    using assms(1) by (auto simp: post_events_ok_def Suc_le_eq dest: nth_mem)
  then show ?case using assms(8,9) by (intro exI[of _ 0]) simp
next
  case (Suc n)
  let ?P = "ps_postEventIndices ps"
  from Suc obtain j where j: "fold_result (metrics_step problem ps ds) [0 ..< n] (pm0, 0) =
      Inr (pm0\<lparr>pm_intermediates := map im [0 ..< n], pm_preJumps := map jm [0 ..< j]\<rparr>, j)"
    "j \<le> length ?P" "\<And>i. i < j \<Longrightarrow> ?P ! i \<le> n" "\<And>i. i < length ?P \<Longrightarrow> j \<le> i \<Longrightarrow> n < ?P ! i"
    by auto
  have lt: "?P ! a < ?P ! b" if "a < b" "b < length ?P" for a b
    using assms(1) that by (simp add: post_events_ok_def sorted_wrt_nth_less)
  have im: "ocp_computeIntermediateMetrics problem (ps_timeTrajectory ps ! n) (ps_stateTrajectory ps ! n)
      (ps_inputTrajectory ps ! n) (ds_intermediates ds ! n) [] = Inr (im n)"
    using nodes Suc.prems by (simp add: node_metrics_def)
  show ?case
  proof (cases "j < length ?P \<and> ?P ! j = Suc n")
    case True
    then have jm: "ocp_computePreJumpMetrics problem (ps_timeTrajectory ps ! n) (ps_stateTrajectory ps ! n) (ds_preJumps ds ! j) [] = Inr (jm j)"
      using events by (auto simp: event_metrics_def)
    have "metrics_step problem ps ds n (pm0\<lparr>pm_intermediates := map im [0 ..< n], pm_preJumps := map jm [0 ..< j]\<rparr>, j)
        = Inr (pm0\<lparr>pm_intermediates := map im [0 ..< Suc n], pm_preJumps := map jm [0 ..< Suc j]\<rparr>, Suc j)"
      using Suc.prems True assms(2-5) im jm by (simp add: metrics_step_def Let_def)
    moreover have "\<forall>i < Suc j. ?P ! i \<le> Suc n" using j(3) True by (auto simp: less_Suc_eq le_Suc_eq)
    moreover have "\<forall>i < length ?P. Suc j \<le> i \<longrightarrow> Suc n < ?P ! i" using True by (metis lt Suc_le_eq)
    ultimately show ?thesis using j(1) True by (intro exI[of _ "Suc j"]) (simp add: fold_result_append)
  next
    case False
    have "metrics_step problem ps ds n (pm0\<lparr>pm_intermediates := map im [0 ..< n], pm_preJumps := map jm [0 ..< j]\<rparr>, j)
        = Inr (pm0\<lparr>pm_intermediates := map im [0 ..< Suc n], pm_preJumps := map jm [0 ..< j]\<rparr>, j)"
      using Suc.prems False assms(2-5) im by (auto simp: metrics_step_def Let_def)
    moreover have "\<forall>i < length ?P. j \<le> i \<longrightarrow> Suc n < ?P ! i"
    proof (intro allI impI)
      fix i assume i: "i < length ?P" "j \<le> i"
      then have "n < ?P ! j" "?P ! j \<noteq> Suc n" using j(4)[of j] False by auto
      moreover have "?P ! j \<le> ?P ! i" using lt[of j i] i by (cases "j = i") auto
      ultimately show "Suc n < ?P ! i" by linarith
    qed
    ultimately show ?thesis using j by (intro exI[of _ j]) (auto simp: fold_result_append le_Suc_eq)
  qed
qed

text \<open>
  \<open>computeRolloutMetrics\<close> evaluates what the rollout contains: for a primal and a dual solution of
  consistent sizes whose post-event indices lie in order inside the trajectory, it returns one
  intermediate metrics per node with the multipliers of that node, one pre-jump metrics per event, taken at
  the node before its post-event index with the multipliers of that event, and the final metrics at the
  last node; nothing of the metrics it was given remains.
\<close>

theorem rollout_metrics_complete:
  assumes "ps_timeTrajectory ps \<noteq> []" "post_events_ok (ps_postEventIndices ps) (length (ps_timeTrajectory ps))"
    and "length (ps_stateTrajectory ps) = length (ps_timeTrajectory ps)" "length (ps_inputTrajectory ps) = length (ps_timeTrajectory ps)"
    and "length (ds_intermediates ds) = length (ps_timeTrajectory ps)" "length (ds_preJumps ds) = length (ps_postEventIndices ps)"
    and "\<forall>k < length (ps_timeTrajectory ps). node_metrics problem ps ds k = Inr (im k)"
    and "\<forall>j < length (ps_postEventIndices ps). event_metrics problem ps ds j = Inr (jm j)"
    and "ocp_computeFinalMetrics problem (last (ps_timeTrajectory ps)) (last (ps_stateTrajectory ps)) (ds_final ds) = Inr fm"
  shows "computeRolloutMetrics problem ps ds pm =
    Inr \<lparr>pm_final = fm, pm_preJumps = map jm [0 ..< length (ps_postEventIndices ps)],
         pm_intermediates = map im [0 ..< length (ps_timeTrajectory ps)]\<rparr>"
proof -
  let ?P = "ps_postEventIndices ps" and ?N = "length (ps_timeTrajectory ps)"
  have "pm_intermediates (clear_ProblemMetrics pm) = []" "pm_preJumps (clear_ProblemMetrics pm) = []"
    by (simp_all add: clear_ProblemMetrics_def)
  from metrics_loop[OF assms(2-8) this order_refl] obtain j where
    run: "fold_result (metrics_step problem ps ds) [0 ..< ?N] (clear_ProblemMetrics pm, 0) =
      Inr ((clear_ProblemMetrics pm)\<lparr>pm_intermediates := map im [0 ..< ?N], pm_preJumps := map jm [0 ..< j]\<rparr>, j)"
    and j: "j \<le> length ?P" "\<forall>i < length ?P. j \<le> i \<longrightarrow> ?N < ?P ! i"
    by blast
  have "j = length ?P"
  proof (rule ccontr)
    assume "j \<noteq> length ?P"
    with j have "j < length ?P" "?N < ?P ! j" by auto
    moreover have "?P ! j \<le> ?N" using \<open>j < length ?P\<close> assms(2) by (simp add: post_events_ok_def)
    ultimately show False by simp
  qed
  moreover have "ps_stateTrajectory ps \<noteq> []" using assms(1,3) by auto
  ultimately show ?thesis using assms(1,9) by (simp add: computeRolloutMetrics_def run)
qed

text \<open>A trajectory with an event after its second node, and a problem without any term: every metrics is empty.\<close>

definition empty_terms_problem :: optimal_control_problem where
  "empty_terms_problem = new_OptimalControlProblem\<lparr>targetTrajectoriesPtr := Some origin_targets\<rparr>"

definition event_dual :: dual_solution where
  "event_dual = \<lparr>ds_timeTrajectory = [0, 1, 1, 2], ds_postEventIndices = [2], ds_final = no_multipliers, ds_preJumps = [no_multipliers],
     ds_intermediates = [no_multipliers, no_multipliers, no_multipliers, no_multipliers]\<rparr>"

lemma empty_terms_metrics:
  "ocp_computeIntermediateMetrics empty_terms_problem t x u no_multipliers [] = Inr new_Metrics"
  "ocp_computePreJumpMetrics empty_terms_problem t x no_multipliers [] = Inr new_Metrics"
  "ocp_computeFinalMetrics empty_terms_problem t x no_multipliers = Inr new_Metrics"
  by (simp_all add: empty_terms_problem_def new_OptimalControlProblem_def new_Collection_def empty_Collection_def no_multipliers_def
      ocp_computeIntermediateMetrics_def ocp_IntermediateMetrics_def ocp_computePreJumpMetrics_def ocp_PreJumpMetrics_def
      ocp_computeFinalMetrics_def ocp_FinalMetrics_def computeCost_def computeEventCost_def computeFinalCost_def targets_of_problem_def
      values_unless_empty_def new_Metrics_def alc_getValue_def StateCostCollection_getValue_def StateInputCostCollection_getValue_def
      cost_collection_value_def)

theorem rollout_metrics_complete_witness:
  "computeRolloutMetrics empty_terms_problem one_event event_dual
     \<lparr>pm_final = input_error [9], pm_preJumps = [input_error []], pm_intermediates = []\<rparr> =
   Inr \<lparr>pm_final = new_Metrics, pm_preJumps = [new_Metrics], pm_intermediates = [new_Metrics, new_Metrics, new_Metrics, new_Metrics]\<rparr>"
proof -
  have i: "\<forall>k < length (ps_timeTrajectory one_event). node_metrics empty_terms_problem one_event event_dual k = Inr new_Metrics"
    by (simp add: node_metrics_def one_event_def new_PrimalSolution_def event_dual_def less_Suc_eq empty_terms_metrics eval_nat_numeral all_conj_distrib)
  have e: "\<forall>j < length (ps_postEventIndices one_event). event_metrics empty_terms_problem one_event event_dual j = Inr new_Metrics"
    by (simp add: event_metrics_def one_event_def new_PrimalSolution_def event_dual_def empty_terms_metrics)
  have f: "ocp_computeFinalMetrics empty_terms_problem t x (ds_final event_dual) = Inr new_Metrics" for t x
    by (simp add: event_dual_def empty_terms_metrics)
  from rollout_metrics_complete[OF _ _ _ _ _ _ i e f] show ?thesis
    by (simp add: one_event_def new_PrimalSolution_def event_dual_def post_events_ok_def eval_nat_numeral)
qed

section \<open>The projected model\<close>

text \<open>What the two projectors are for: the input constraint matrix undoes the range projector and kills the null projector.\<close>

definition projectors_ok :: "nat \<Rightarrow> nat \<Rightarrow> dmatrix \<Rightarrow> dmatrix \<Rightarrow> dmatrix \<Rightarrow> bool" where
  "projectors_ok nc nu D rangeP nullP =
     (m_rows rangeP = nu \<and> m_cols rangeP = nc \<and> m_rows nullP = nu \<and> m_cols nullP = nu - nc \<and> nc \<le> nu \<and>
      (\<forall>w. length w = nc \<longrightarrow> mv D (mv rangeP w) = w) \<and> (\<forall>v. length v = nu - nc \<longrightarrow> mv D (mv nullP v) = zero_vec nc))"

text \<open>The input that a projected input stands for.\<close>

definition projected_input :: "model_data \<Rightarrow> dmatrix \<Rightarrow> dmatrix \<Rightarrow> vector_t \<Rightarrow> vector_t \<Rightarrow> vector_t" where
  "projected_input md rangeP nullP x v =
     (if vl_f (md_stateInputEqConstraint md) = [] then changed_input nullP empty_mat [] x v
      else changed_input nullP (mneg (mm rangeP (vl_dfdx (md_stateInputEqConstraint md))))
             (vneg (mv rangeP (vl_f (md_stateInputEqConstraint md)))) x v)"

lemma mv_vneg: "length v = m_cols A \<Longrightarrow> mv A (vneg v) = vneg (mv A v)"
  by (intro nth_equalityI) (simp_all add: sum_negf)

lemma mv_mneg: "mv (mneg A) v = vneg (mv A v)"
  by (intro nth_equalityI) (simp_all add: mneg_def sum_negf)

lemma m_size_empty: "m_size empty_mat = 0"
  by (simp add: empty_mat_def m_size_def)

lemma constraint_solved:
  assumes c: "linear_dims nc nx nu c" and P: "projectors_ok nc nu (vl_dfdu c) rangeP nullP"
    and "length x = nx" "length v = nu - nc" "0 < nc"
  shows "linear_value c x (changed_input nullP (mneg (mm rangeP (vl_dfdx c))) (vneg (mv rangeP (vl_f c))) x v) = zero_vec nc"
proof -
  note dims = c[unfolded linear_dims_def] P[unfolded projectors_ok_def] assms(3-5)
  let ?px = "if 0 < m_size (mneg (mm rangeP (vl_dfdx c))) then mv (mneg (mm rangeP (vl_dfdx c))) x else zero_vec nu"
  have px: "?px = vneg (mv rangeP (mv (vl_dfdx c) x))"
  proof (cases "0 < m_size (mneg (mm rangeP (vl_dfdx c)))")
    case False
    then have "nx = 0" using dims by (auto simp: m_size_def)
    then show ?thesis using False dims by (intro nth_equalityI) (simp_all add: zero_vec_def)
  qed (use dims in \<open>simp add: mv_mneg mv_mm\<close>)
  have u0: "vneg (mv rangeP (vl_f c)) \<noteq> []" using dims by (auto simp: list_eq_iff_nth_eq)
  have "changed_input nullP (mneg (mm rangeP (vl_dfdx c))) (vneg (mv rangeP (vl_f c))) x v = vadd (mv nullP v) (vadd ?px (vneg (mv rangeP (vl_f c))))"
    using dims u0 by (simp add: changed_input_def)
  then have "mv (vl_dfdu c) (changed_input nullP (mneg (mm rangeP (vl_dfdx c))) (vneg (mv rangeP (vl_f c))) x v) =
        vadd (zero_vec nc) (vadd (vneg (mv (vl_dfdx c) x)) (vneg (vl_f c)))"
    unfolding px using dims by (simp add: mv_vadd mv_vneg)
  then show ?thesis using dims by (intro nth_equalityI) (simp_all add: linear_value_def zero_vec_def)
qed

text \<open>
  The projection of a linear-quadratic model onto its state-input equality constraints is exact. With
  projectors that satisfy their contract, \<open>projectLQ\<close> succeeds; at every state and projected input the cost and
  the dynamics of the projected model are those of the model at the input that the projected one stands for, that
  input satisfies the constraint whatever the projected input is, the new input has one dimension less per
  constraint, and the dynamics bias is shifted by the constant part of the input.
\<close>

theorem projectLQ_exact:
  assumes "quadratic_dims nx nu (md_cost md)" "symmetric (dfduu (md_cost md))" "linear_dims nx nx nu (md_dynamics md)"
    and "linear_dims nc nx nu (md_stateInputEqConstraint md)" "length (md_dynamicsBias md) = nx"
    and "md_stateDim md = int nx" "md_inputDim md = int nu"
    and P: "projectors_ok nc nu (vl_dfdu (md_stateInputEqConstraint md)) rangeP nullP"
  shows "\<exists>r. projectLQ md rangeP nullP pd = Inr r \<and> md_inputDim r = int (nu - nc) \<and> md_time r = md_time md \<and>
    quadratic_dims nx (nu - nc) (md_cost r) \<and> linear_dims nx nx (nu - nc) (md_dynamics r) \<and>
    (\<forall>x v. length x = nx \<longrightarrow> length v = nu - nc \<longrightarrow>
       quadratic_value (md_cost r) x v = quadratic_value (md_cost md) x (projected_input md rangeP nullP x v) \<and>
       linear_value (md_dynamics r) x v = linear_value (md_dynamics md) x (projected_input md rangeP nullP x v) \<and>
       linear_value (md_stateInputEqConstraint md) x (projected_input md rangeP nullP x v) = zero_vec nc) \<and>
    md_dynamicsBias r = (if nc = 0 then md_dynamicsBias md
      else vadd (md_dynamicsBias md) (mv (vl_dfdu (md_dynamics md)) (vneg (mv rangeP (vl_f (md_stateInputEqConstraint md))))))"
proof (cases "nc = 0")
  case True
  note dims = assms(3,4)[unfolded linear_dims_def] P[unfolded projectors_ok_def]
  have cd: "change_dims nx nu (nu - nc) nullP empty_mat []"
    using dims by (simp add: change_dims_def m_size_empty)
  from change_quadratic[OF assms(1) cd assms(2)] change_linear[OF assms(3) cd]
  obtain q a where q: "changeOfInputVariables_quadratic (md_cost md) nullP empty_mat [] = Inr q" "quadratic_dims nx (nu - nc) q"
      "\<And>x v. length x = nx \<Longrightarrow> length v = nu - nc \<Longrightarrow> quadratic_value q x v = quadratic_value (md_cost md) x (changed_input nullP empty_mat [] x v)"
    and a: "changeOfInputVariables_linear (md_dynamics md) nullP empty_mat [] = Inr a" "linear_dims nx nx (nu - nc) a"
      "\<And>x v. length x = nx \<Longrightarrow> length v = nu - nc \<Longrightarrow> linear_value a x v = linear_value (md_dynamics md) x (changed_input nullP empty_mat [] x v)"
    by blast
  have "linear_value (md_stateInputEqConstraint md) x u = zero_vec nc" for x u
    using dims True by (simp add: linear_value_def vadd_def zero_vec_def)
  then show ?thesis using q a dims True assms(6,7) by (auto simp: projectLQ_def Let_def projected_input_def)
next
  case False
  let ?c = "md_stateInputEqConstraint md"
  let ?C = "mm rangeP (vl_dfdx ?c)" and ?e = "mv rangeP (vl_f ?c)"
  note dims = assms(3,4)[unfolded linear_dims_def] P[unfolded projectors_ok_def]
  have cd: "change_dims nx nu (nu - nc) nullP (mneg ?C) (vneg ?e)"
    using dims by (simp add: change_dims_def)
  from change_quadratic[OF assms(1) cd assms(2)] change_linear[OF assms(3) cd]
  obtain q a where q: "changeOfInputVariables_quadratic (md_cost md) nullP (mneg ?C) (vneg ?e) = Inr q" "quadratic_dims nx (nu - nc) q"
      "\<And>x v. length x = nx \<Longrightarrow> length v = nu - nc \<Longrightarrow> quadratic_value q x v = quadratic_value (md_cost md) x (changed_input nullP (mneg ?C) (vneg ?e) x v)"
    and a: "changeOfInputVariables_linear (md_dynamics md) nullP (mneg ?C) (vneg ?e) = Inr a" "linear_dims nx nx (nu - nc) a"
      "\<And>x v. length x = nx \<Longrightarrow> length v = nu - nc \<Longrightarrow> linear_value a x v = linear_value (md_dynamics md) x (changed_input nullP (mneg ?C) (vneg ?e) x v)"
    by blast
  have solved: "linear_value ?c x (changed_input nullP (mneg ?C) (vneg ?e) x v) = zero_vec nc" if "length x = nx" "length v = nu - nc" for x v
    using constraint_solved[OF assms(4) P that] False by simp
  have "vl_f ?c \<noteq> []" using dims False by auto
  then show ?thesis
    using q a solved dims False assms(5-7) by (auto simp: projectLQ_def Let_def projected_input_def result_simps)
qed

text \<open>One state, two inputs, and the constraint \<open>u0 + x + 3 = 0\<close>.\<close>

definition constrained_model :: model_data where
  "constrained_model = new_ModelData\<lparr>md_stateDim := 1, md_inputDim := 2, md_dynamicsBias := [0],
     md_dynamics := \<lparr>vl_dfdx = Mat 1 1 [[1]], vl_dfdu = Mat 1 2 [[1, 1]], vl_f = [0]\<rparr>,
     md_cost := \<lparr>dfdxx = Mat 1 1 [[2]], dfdux = Mat 2 1 [[0], [1]], dfduu = Mat 2 2 [[2, 0], [0, 2]], dfdx = [1], dfdu = [1, 0], appr_f = 5\<rparr>,
     md_stateInputEqConstraint := \<lparr>vl_dfdx = Mat 1 1 [[1]], vl_dfdu = Mat 1 2 [[1, 0]], vl_f = [3]\<rparr>\<rparr>"

theorem projectLQ_exact_witness:
  "\<exists>r. projectLQ constrained_model (Mat 2 1 [[1], [0]]) (Mat 2 1 [[0], [1]]) new_ModelData = Inr r \<and> md_inputDim r = 1 \<and>
     quadratic_value (md_cost r) [4] [6] =
       quadratic_value (md_cost constrained_model) [4] (projected_input constrained_model (Mat 2 1 [[1], [0]]) (Mat 2 1 [[0], [1]]) [4] [6])"
proof -
  have dims: "quadratic_dims 1 2 (md_cost constrained_model)" "linear_dims 1 1 2 (md_dynamics constrained_model)"
    "linear_dims 1 1 2 (md_stateInputEqConstraint constrained_model)" "length (md_dynamicsBias constrained_model) = 1"
    "md_stateDim constrained_model = int 1" "md_inputDim constrained_model = int 2"
    by (simp_all add: constrained_model_def quadratic_dims_def linear_dims_def)
  have sym: "symmetric (dfduu (md_cost constrained_model))"
    by (auto simp: symmetric_def constrained_model_def m_at_def less_Suc_eq eval_nat_numeral)
  have P: "projectors_ok 1 2 (vl_dfdu (md_stateInputEqConstraint constrained_model)) (Mat 2 1 [[1], [0]]) (Mat 2 1 [[0], [1]])"
    by (auto simp: projectors_ok_def constrained_model_def length_Suc_conv mv_def m_at_def zero_vec_def eval_nat_numeral)
  from projectLQ_exact[OF dims(1) sym dims(2-6) P, of new_ModelData] show ?thesis by fastforce
qed

section \<open>Partitions cover the trajectory\<close>

text \<open>Nonempty intervals, each starting where the one before it ends, from \<open>a\<close> to \<open>b\<close>.\<close>

fun chain :: "nat \<Rightarrow> (nat \<times> nat) list \<Rightarrow> nat \<Rightarrow> bool" where
  "chain a [] b = (a = b)"
| "chain a (iv # ivs) b = (fst iv = a \<and> a < snd iv \<and> chain (snd iv) ivs b)"

lemma chain_le: "chain a ivs b \<Longrightarrow> a \<le> b"
  by (induction ivs arbitrary: a) force+

lemma chain_snoc: "chain a ivs b \<Longrightarrow> b < c \<Longrightarrow> chain a (ivs @ [(b, c)]) c"
  by (induction ivs arbitrary: a) auto

lemma chain_inside: "chain a ivs b \<Longrightarrow> iv \<in> set ivs \<Longrightarrow> a \<le> fst iv \<and> fst iv < snd iv \<and> snd iv \<le> b"
proof (induction ivs arbitrary: a)
  case (Cons x xs)
  then have c: "fst x = a" "a < snd x" "chain (snd x) xs b" by auto
  show ?case
  proof (cases "iv = x")
    case True
    then show ?thesis using c chain_le by auto
  next
    case False
    then have "snd x \<le> fst iv \<and> fst iv < snd iv \<and> snd iv \<le> b" using Cons c(3) by simp
    then show ?thesis using c by simp
  qed
qed simp

lemma chain_partitions: "chain a ivs b \<Longrightarrow> a \<le> k \<Longrightarrow> k < b \<Longrightarrow> \<exists>!iv. iv \<in> set ivs \<and> fst iv \<le> k \<and> k < snd iv"
proof (induction ivs arbitrary: a)
  case (Cons x xs)
  show ?case
  proof (cases "k < snd x")
    case True
    have "\<not> fst iv \<le> k" if "iv \<in> set xs" for iv
      using chain_inside[of "snd x" xs b iv] Cons.prems(1) that True by auto
    then show ?thesis using Cons.prems True by (intro ex1I[of _ x]) auto
  next
    case False
    then show ?thesis using Cons.IH[of "snd x"] Cons.prems by auto
  qed
qed simp

definition partition_pos :: "scalar list \<Rightarrow> scalar \<Rightarrow> nat" where
  "partition_pos ts p = (if upperBoundIndex ts p \<noteq> length ts then upperBoundIndex ts p else length ts - 1)"

lemma partition_pos_mono:
  assumes "sorted ts" "ts \<noteq> []" "p \<le> q"
  shows "partition_pos ts p \<le> partition_pos ts q"
proof -
  have "upperBoundIndex ts p \<le> upperBoundIndex ts q"
  proof (rule ccontr)
    assume "\<not> ?thesis"
    then have "ts ! upperBoundIndex ts q \<le> p" "\<not> ts ! upperBoundIndex ts q \<le> q"
      using upper.find_before[OF assms(1), of "upperBoundIndex ts q" p] upper.find_after[OF assms(1), of q "upperBoundIndex ts q"]
        upper.find_le[OF assms(1), of p] by auto
    with assms(3) show False by simp
  qed
  moreover have "upperBoundIndex ts p \<le> length ts" "upperBoundIndex ts q \<le> length ts"
    using upper.find_le[OF assms(1)] by auto
  ultimately show ?thesis by (auto simp: partition_pos_def)
qed

lemma partition_loop:
  assumes ts: "sorted ts" "ts \<noteq> []" and "sorted ps" "\<forall>p \<in> set ps. s \<le> partition_pos ts p" "chain 0 ivs s"
  shows "\<exists>new e. fold (partition_step ts) ps (ivs, s) = (ivs @ new, e) \<and> chain 0 (ivs @ new) e \<and> length new \<le> length ps \<and>
           e = (if ps = [] then s else partition_pos ts (last ps))"
  using assms(3-5)
proof (induction ps arbitrary: ivs s)
  case (Cons p ps)
  let ?e = "partition_pos ts p"
  let ?ivs = "if ?e \<noteq> s then ivs @ [(s, ?e)] else ivs"
  have step: "partition_step ts p (ivs, s) = (?ivs, ?e)"
    by (simp add: partition_step_def partition_pos_def Let_def)
  have ch: "chain 0 ?ivs ?e" using Cons.prems(2,3) by (auto intro: chain_snoc)
  have "\<forall>q \<in> set ps. ?e \<le> partition_pos ts q"
    using Cons.prems(1) partition_pos_mono[OF ts] by auto
  with Cons.IH[of ?e ?ivs] ch Cons.prems(1) obtain new where
    "fold (partition_step ts) ps (?ivs, ?e) = (?ivs @ new, if ps = [] then ?e else partition_pos ts (last ps))"
    "chain 0 (?ivs @ new) (if ps = [] then ?e else partition_pos ts (last ps))" "length new \<le> length ps" by auto
  then show ?case
    by (intro exI[of _ "(if ?e \<noteq> s then [(s, ?e)] else []) @ new"] exI[of _ "if ps = [] then ?e else partition_pos ts (last ps)"])
      (auto simp: step)
qed simp

lemma desired_points_eq: "desired_points p d n = map (\<lambda>i. p + real i * d) [1 ..< Suc n]"
proof (induction n arbitrary: p)
  case (Suc n)
  have "map (\<lambda>i. p + real i * d) [1 ..< Suc (Suc n)] = (p + d) # map (\<lambda>i. p + real i * d) [Suc 1 ..< Suc (Suc n)]"
    by (simp add: upt_rec)
  also have "map (\<lambda>i. p + real i * d) [Suc 1 ..< Suc (Suc n)] = map (\<lambda>i. (p + d) + real i * d) [1 ..< Suc n]"
    unfolding map_Suc_upt[symmetric] by (simp add: algebra_simps del: upt_Suc)
  finally show ?case using Suc.IH[of "p + d"] by simp
qed simp

lemma desired_points_sorted:
  assumes "0 \<le> d" "p + real (Suc n) * d \<le> b"
  shows "sorted (desired_points p d n @ [b])"
proof -
  have "p + real i * d \<le> b" if "i \<le> n" for i
  proof -
    have "real i * d \<le> real (Suc n) * d" using that assms(1) by (intro mult_right_mono) auto
    with assms(2) show ?thesis by simp
  qed
  moreover have "sorted_wrt (\<lambda>i j. p + real i * d \<le> p + real j * d) [1 ..< Suc n]"
    by (rule sorted_wrt_mono_rel[OF _ sorted_upt]) (use assms(1) in \<open>auto intro: mult_right_mono\<close>)
  ultimately show ?thesis unfolding desired_points_eq by (auto simp: sorted_append sorted_wrt_map simp del: upt_Suc)
qed

text \<open>The partitions of a trajectory with sorted times cover it: at most one per worker, each from where the one before it ends.\<close>

lemma partitions_cover:
  assumes "sorted ts" "ts \<noteq> []" "0 < numWorkers"
  shows "\<exists>ivs. computePartitionIntervals ts numWorkers = Inr ivs \<and> int (length ivs) \<le> numWorkers \<and>
           chain 0 ivs (length ts - 1) \<and>
           (\<forall>k < length ts - 1. \<exists>!iv. iv \<in> set ivs \<and> fst iv \<le> k \<and> k < snd iv)"
proof -
  let ?n = "nat numWorkers - 1" and ?d = "(last ts - hd ts) / real_of_int numWorkers"
  let ?ps = "desired_points (hd ts) ?d ?n @ [last ts]"
  have hl: "hd ts \<le> last ts" using assms(1,2) by (cases ts) auto
  have "real (Suc ?n) * ?d = last ts - hd ts" using assms(3) by (simp add: field_simps)
  then have "sorted ?ps" using hl assms(3) by (intro desired_points_sorted) simp_all
  from partition_loop[OF assms(1,2) this, of 0 "[]"] obtain ivs where
    ivs: "fold (partition_step ts) ?ps ([], 0) = (ivs, partition_pos ts (last ts))"
    "chain 0 ivs (partition_pos ts (last ts))" "length ivs \<le> length ?ps" by auto
  have "takeWhile (\<lambda>x. x \<le> last ts) ts = ts"
    using sorted_last_ge[OF assms(1)] by (simp add: takeWhile_eq_all_conv)
  then have "upperBoundIndex ts (last ts) = length ts" by (simp only: upperBoundIndex_def)
  then have p: "partition_pos ts (last ts) = length ts - 1" by (simp add: partition_pos_def)
  have "length ?ps = nat numWorkers" using assms(3) by (simp add: desired_points_eq del: upt_Suc)
  then have "computePartitionIntervals ts numWorkers = Inr ivs" "int (length ivs) \<le> numWorkers"
    using assms ivs(1,3) by (auto simp: computePartitionIntervals_def vec_front_nonempty Let_def)
  then show ?thesis using ivs(2) chain_partitions[of 0 ivs "length ts - 1"] by (auto simp: p)
qed

section \<open>A partition backwards in time\<close>

lemma upper_bound_nat_take_drop:
  assumes "sorted_wrt (<) evs" "a \<le> b"
  shows "upper_bound_nat evs a \<le> upper_bound_nat evs b"
    "take (upper_bound_nat evs b - upper_bound_nat evs a) (drop (upper_bound_nat evs a) evs) = filter (\<lambda>p. a < p \<and> p \<le> b) evs"
proof -
  have "upper_bound_nat evs a \<le> upper_bound_nat evs b \<and>
    take (upper_bound_nat evs b - upper_bound_nat evs a) (drop (upper_bound_nat evs a) evs) = filter (\<lambda>p. a < p \<and> p \<le> b) evs"
    using assms(1)
  proof (induction evs)
    case (Cons e evs)
    show ?case
    proof (cases "e \<le> a")
      case True
      then show ?thesis using Cons assms(2) by (simp add: upper_bound_nat_def)
    next
      case False
      have "takeWhile (\<lambda>x. x \<le> b) evs = filter (\<lambda>p. a < p \<and> p \<le> b) evs"
        using Cons.prems False
      proof (induction evs)
        case (Cons f fs)
        then have "filter (\<lambda>p. a < p \<and> p \<le> b) fs = []" if "\<not> f \<le> b" using that by (auto simp: filter_empty_conv)
        with Cons show ?case by auto
      qed simp
      moreover have "filter (\<lambda>p. a < p \<and> p \<le> b) evs = []" if "\<not> e \<le> b"
        using Cons.prems that by (auto simp: filter_empty_conv)
      moreover have "take (length (takeWhile (\<lambda>x. x \<le> b) evs)) evs = takeWhile (\<lambda>x. x \<le> b) evs"
        by (metis takeWhile_eq_take)
      ultimately show ?thesis using False by (simp add: upper_bound_nat_def)
    qed
  qed (simp add: upper_bound_nat_def)
  then show "upper_bound_nat evs a \<le> upper_bound_nat evs b"
    "take (upper_bound_nat evs b - upper_bound_nat evs a) (drop (upper_bound_nat evs a) evs) = filter (\<lambda>p. a < p \<and> p \<le> b) evs"
    by auto
qed

text \<open>
  \<open>retrieveActiveNormalizedTime\<close> turns the part of a trajectory from node \<open>a\<close> to node \<open>b\<close> around: the
  normalized times are the negated times in reverse order, and every event inside the part, and no other, is kept
  at the position where its two nodes are found swapped: the node after the event in normalized time is the one
  before it in the original.
\<close>

theorem normalized_time_mirrors:
  assumes "sorted ts" "sorted_wrt (<) evs" "a \<le> b" "b < length ts" "length ts < 2 ^ 64"
  shows "\<exists>ns nevs. retrieveActiveNormalizedTime (int a, int b) ts evs = Inr (ns, nevs) \<and>
           length ns = b - a + 1 \<and> sorted ns \<and> (\<forall>k \<le> b - a. ns ! k = - ts ! (b - k)) \<and>
           sorted_wrt (<) nevs \<and> set nevs = (\<lambda>p. b + 1 - p) ` {p \<in> set evs. a < p \<and> p \<le> b} \<and>
           (\<forall>p \<in> set evs. a < p \<and> p \<le> b \<longrightarrow> ns ! (b + 1 - p - 1) = - ts ! p \<and> ns ! (b + 1 - p) = - ts ! (p - 1))"
proof -
  let ?tr = "take (b + 1 - a) (drop a ts)" and ?kept = "filter (\<lambda>p. a < p \<and> p \<le> b) evs"
  let ?ns = "rev (map uminus ?tr)" and ?nevs = "rev (map (\<lambda>p. b + 1 - p) ?kept)"
  have nsb: "nat (int b + 1) = b + 1" by simp
  have "vec_range_int ts (int a) (int b + 1) = Inr ?tr"
    using assms(3,4) by (simp add: vec_range_int_def nsb)
  moreover have "map (\<lambda>i. nat ((int b - int a + 1 - int i + int a) mod 2 ^ 64)) ?kept = map (\<lambda>p. b + 1 - p) ?kept"
  proof (rule map_cong[OF refl])
    fix i assume "i \<in> set ?kept"
    then have i: "i \<le> b" by simp
    then have "int b - int a + 1 - int i + int a = int (b + 1 - i)" by simp
    moreover have "int (b + 1 - i) mod 2 ^ 64 = int (b + 1 - i)" using assms(4,5) by (intro mod_pos_pos_trivial) auto
    ultimately show "nat ((int b - int a + 1 - int i + int a) mod 2 ^ 64) = b + 1 - i" by (metis nat_int)
  qed
  ultimately have run: "retrieveActiveNormalizedTime (int a, int b) ts evs = Inr (?ns, ?nevs)"
    using assms(3) upper_bound_nat_take_drop[OF assms(2,3)] by (simp add: retrieveActiveNormalizedTime_def Let_def)
  have len: "length ?tr = b - a + 1" using assms(3,4) by simp
  have nth: "?ns ! k = - ts ! (b - k)" if "k \<le> b - a" for k
  proof -
    have "b - a - k < length ?tr" "a + (b - a - k) = b - k" using that assms(3) len by auto
    moreover have "?ns ! k = - ?tr ! (b - a - k)" using that len by (simp add: rev_nth)
    ultimately show ?thesis using assms(4) by (simp only: nth_take) simp
  qed
  have "sorted (rev (map uminus ?tr))"
    using assms(1) by (auto simp: sorted_wrt_rev sorted_wrt_map sorted_wrt_take sorted_wrt_drop)
  moreover have "sorted_wrt (<) ?nevs"
  proof -
    have "sorted_wrt (<) ?kept" using assms(2) by (simp add: sorted_wrt_filter)
    then have "sorted_wrt (\<lambda>x y. b + 1 - y < b + 1 - x) ?kept"
      by (rule sorted_wrt_mono_rel[rotated]) auto
    then show ?thesis by (simp add: sorted_wrt_rev sorted_wrt_map)
  qed
  moreover have "?ns ! (b + 1 - p - 1) = - ts ! p \<and> ?ns ! (b + 1 - p) = - ts ! (p - 1)" if "a < p" "p \<le> b" for p
  proof -
    have "b - (b + 1 - p - 1) = p" "b - (b + 1 - p) = p - 1" "b + 1 - p - 1 \<le> b - a" "b + 1 - p \<le> b - a" using that by auto
    with nth[of "b + 1 - p - 1"] nth[of "b + 1 - p"] show ?thesis by (metis (no_types))
  qed
  ultimately show ?thesis using len nth by (intro exI[of _ ?ns] exI[of _ ?nevs]) (auto simp: run)
qed

theorem normalized_time_mirrors_witness:
  "\<exists>ns nevs. retrieveActiveNormalizedTime (1, 4) [0, 1, 1, 2, 5, 6] [2, 4] = Inr (ns, nevs) \<and> length ns = 4 \<and>
     ns ! 2 = - 1 \<and> set nevs = {1, 3}"
proof -
  have "\<exists>ns nevs. retrieveActiveNormalizedTime (int 1, int 4) [0, 1, 1, 2, 5, 6] [2, 4] = Inr (ns, nevs) \<and>
      length ns = 4 - 1 + 1 \<and> (\<forall>k \<le> 4 - 1. ns ! k = - [0, 1, 1, 2, 5, 6] ! (4 - k)) \<and>
      set nevs = (\<lambda>p. 4 + 1 - p) ` {p \<in> set [2, 4]. 1 < p \<and> p \<le> 4}"
    using normalized_time_mirrors[of "[0, 1, 1, 2, 5, 6]" "[2, 4]" 1 4] by fastforce
  then obtain ns nevs where r: "retrieveActiveNormalizedTime (int 1, int 4) [0, 1, 1, 2, 5, 6] [2, 4] = Inr (ns, nevs)"
    "length ns = 4 - 1 + 1" "\<forall>k \<le> 4 - 1. ns ! k = - [0, 1, 1, 2, 5, 6] ! (4 - k)"
    "set nevs = (\<lambda>p. 4 + 1 - p) ` {p \<in> set [2, 4]. 1 < p \<and> p \<le> 4}" by blast
  have "{p \<in> set [2, 4]. 1 < p \<and> p \<le> (4 :: nat)} = {2, 4}" by auto
  with r show ?thesis by (intro exI[of _ ns] exI[of _ nevs]) (simp add: insert_commute)
qed

end
