(* ===== verification/Search_Strategy.thy ===== *)
theory Search_Strategy
  imports DDP_Helpers
begin

text \<open>
  What the search strategies of \<open>mpc/ocs2_ddp\<close> share: the solution they exchange
  (\<open>search_strategy/SearchStrategyBase.h\<close>), their settings (\<open>StrategySettings.h\<close>), and the evaluation of one
  step length: increment the controller, roll it out, adjust the dual solution to the new mode schedule, and
  compute the metrics, the performance index and the merit. The evaluation does not depend on what the solution
  object held before.
\<close>

section \<open>Settings\<close>

datatype search_type = LINE_SEARCH | LEVENBERG_MARQUARDT

fun toString_search :: "search_type \<Rightarrow> string" where
  "toString_search LINE_SEARCH = ''LINE_SEARCH''"
| "toString_search LEVENBERG_MARQUARDT = ''LEVENBERG_MARQUARDT''"

definition toupper :: "char \<Rightarrow> char" where
  "toupper c = (let n = of_char c :: nat in if 97 \<le> n \<and> n \<le> 122 then char_of (n - 32) else c)"

text \<open>\<open>unordered_map::at\<close> throws for a name that is not in the map.\<close>

definition fromString_search :: "string \<Rightarrow> search_type result" where
  "fromString_search name =
     (let up = map toupper name in
      if up = ''LINE_SEARCH'' then Inr LINE_SEARCH
      else if up = ''LEVENBERG_MARQUARDT'' then Inr LEVENBERG_MARQUARDT
      else Inl (Runtime_Error ''unordered_map::at''))"

record search_settings =
  displayInfo :: bool
  debugPrintRollout :: bool
  minRelCost :: scalar
  constraintTolerance :: scalar

definition default_search_settings :: search_settings where
  "default_search_settings =
     \<lparr>displayInfo = False, debugPrintRollout = False, minRelCost = 1 / 10 ^ 3, constraintTolerance = 1 / 10 ^ 3\<rparr>"

section \<open>Solutions\<close>

record search_solution =
  sol_avgTimeStep :: scalar
  sol_dualSolution :: dual_solution
  sol_primalSolution :: primal_solution
  sol_problemMetrics :: problem_metrics
  sol_performanceIndex :: performance_index

definition swap_SolutionRef :: "search_solution \<Rightarrow> search_solution \<Rightarrow> search_solution \<times> search_solution" where
  "swap_SolutionRef l r =
     (let (dl, dr) = swap_DualSolution (sol_dualSolution l) (sol_dualSolution r);
          (pl, pr) = swap_PrimalSolution (sol_primalSolution l) (sol_primalSolution r);
          (ml, mr) = swap_ProblemMetrics (sol_problemMetrics l) (sol_problemMetrics r);
          (il, ir) = swap_PerformanceIndex (sol_performanceIndex l) (sol_performanceIndex r)
      in (l\<lparr>sol_avgTimeStep := sol_avgTimeStep r, sol_dualSolution := dl, sol_primalSolution := pl, sol_problemMetrics := ml,
            sol_performanceIndex := il\<rparr>,
          r\<lparr>sol_avgTimeStep := sol_avgTimeStep l, sol_dualSolution := dr, sol_primalSolution := pr, sol_problemMetrics := mr,
            sol_performanceIndex := ir\<rparr>))"

definition set_merit :: "scalar \<Rightarrow> performance_index \<Rightarrow> performance_index" where
  "set_merit m p =
     PerformanceIndex m (pi_cost p) (pi_dualFeasibilitiesSSE p) (pi_dynamicsViolationSSE p) (pi_equalityConstraintsSSE p)
       (pi_inequalityConstraintsSSE p) (pi_equalityLagrangian p) (pi_inequalityLagrangian p)"

definition set_cost :: "scalar \<Rightarrow> performance_index \<Rightarrow> performance_index" where
  "set_cost c p =
     PerformanceIndex (pi_merit p) c (pi_dualFeasibilitiesSSE p) (pi_dynamicsViolationSSE p) (pi_equalityConstraintsSSE p)
       (pi_inequalityConstraintsSSE p) (pi_equalityLagrangian p) (pi_inequalityLagrangian p)"

text \<open>The largest \<open>double\<close>, which stands for the merit and the cost of an evaluation that threw.\<close>

definition double_max :: scalar where
  "double_max = (2 - 1 / 2 ^ 52) * 2 ^ 1023"

definition failed_solution :: "search_solution \<Rightarrow> search_solution" where
  "failed_solution s = s\<lparr>sol_performanceIndex := set_cost double_max (set_merit double_max (sol_performanceIndex s))\<rparr>"

section \<open>Evaluation of a step length\<close>

record search_input =
  si_timePeriod :: "scalar \<times> scalar"
  si_initState :: vector_t
  si_controller :: linear_controller
  si_dualSolution :: dual_solution
  si_modeSchedule :: mode_schedule

text \<open>
  The dual solution is adjusted only when the mode schedule of the rollout differs. The scratch dual solution
  is cleared before it is written, so the model starts from an empty one.
\<close>

definition scratch_dual :: dual_solution where
  "scratch_dual = \<lparr>ds_timeTrajectory = [], ds_postEventIndices = [], ds_final = default_MultiplierCollection, ds_preJumps = [],
     ds_intermediates = []\<rparr>"

definition adjusted_dual :: "mode_schedule \<Rightarrow> mode_schedule \<Rightarrow> dual_solution \<Rightarrow> dual_solution result" where
  "adjusted_dual old new ds =
     (if ds_timeTrajectory ds = [] then Inr ds
      else bind_result (set_spreading old new (ds_timeTrajectory ds) fresh_spreading) (\<lambda>s.
        if willTruncate s \<or> willPerformTrajectorySpreading s then trajectorySpread_dual_const s ds scratch_dual
        else Inr ds))"

definition computeSolution ::
  "rollout_fun \<Rightarrow> optimal_control_problem \<Rightarrow> (performance_index \<Rightarrow> scalar) \<Rightarrow> search_input \<Rightarrow> scalar \<Rightarrow> search_solution \<Rightarrow> search_solution result" where
  "computeSolution rollout problem meritFunc inp stepLength sol =
     (let ps = (sol_primalSolution sol)\<lparr>ps_modeSchedule := si_modeSchedule inp\<rparr> in
      bind_result (getLinearController ps) (\<lambda>c.
      bind_result (incrementController stepLength (si_controller inp) c) (\<lambda>c.
      bind_result (rolloutTrajectory rollout (fst (si_timePeriod inp)) (si_initState inp) (snd (si_timePeriod inp))
                     (ps\<lparr>ps_controllerPtr := Some (Linear c)\<rparr>)) (\<lambda>(avg, ps).
      bind_result (adjusted_dual (si_modeSchedule inp) (ps_modeSchedule ps) (si_dualSolution inp)) (\<lambda>adjusted.
      bind_result (initializeDualSolution problem ps adjusted (sol_dualSolution sol)) (\<lambda>ds.
      bind_result (computeRolloutMetrics problem ps ds (sol_problemMetrics sol)) (\<lambda>pm.
      bind_result (computeRolloutPerformanceIndex (ps_timeTrajectory ps) pm) (\<lambda>perf.
      Inr (sol\<lparr>sol_avgTimeStep := avg, sol_dualSolution := ds, sol_primalSolution := ps, sol_problemMetrics := pm,
               sol_performanceIndex := set_merit (meritFunc perf) perf\<rparr>)))))))))"

section \<open>Convergence\<close>

definition total_cost :: "performance_index \<Rightarrow> scalar" where
  "total_cost p = pi_cost p + pi_equalityLagrangian p + pi_inequalityLagrangian p"

section \<open>Facts\<close>

lemma toupper_id: "c \<in> set ''ABCDEFGHIJKLMNOPQRSTUVWXYZ_'' \<Longrightarrow> toupper c = c"
  by (auto simp: toupper_def)

lemma fromString_toString_search: "fromString_search (toString_search t) = Inr t"
  by (cases t) (simp_all add: fromString_search_def toupper_id)

lemma swap_SolutionRef_eq: "swap_SolutionRef l r = (r, l)" for l r :: search_solution
  by (simp add: swap_SolutionRef_def swap_DualSolution_def swap_PrimalSolution_def swap_ProblemMetrics_def swap_PerformanceIndex_def)

lemma set_merit_sel [simp]: "pi_merit (set_merit m p) = m" "pi_merit (set_cost c p) = pi_merit p" "pi_cost (set_cost c p) = c"
  by (simp_all add: set_merit_def set_cost_def)

lemma failed_solution_merit [simp]: "pi_merit (sol_performanceIndex (failed_solution s)) = double_max"
  by (simp add: failed_solution_def)

text \<open>A solution is usable when its controller is the linear one that the strategies construct it with.\<close>

definition usable :: "search_solution \<Rightarrow> bool" where
  "usable s = (\<exists>c. ps_controllerPtr (sol_primalSolution s) = Some (Linear c))"

lemma usable_failed [simp]: "usable (failed_solution s) = usable s"
  by (simp add: usable_def failed_solution_def)

lemma clear_DualSolution_const: "clear_DualSolution d = clear_DualSolution d'" for d d' :: dual_solution
  by (simp add: clear_DualSolution_def clear_MultiplierCollection_def)

lemma clear_ProblemMetrics_const: "clear_ProblemMetrics m = clear_ProblemMetrics m'" for m m' :: problem_metrics
  by (simp add: clear_ProblemMetrics_def clear_Metrics_def)

lemma incrementController_const: "incrementController a u c = incrementController a u c'" for c c' :: linear_controller
proof -
  have "(lc_clear c)\<lparr>lc_timeStamp := t, lc_gainArray := g, lc_biasArray := b\<rparr> = (lc_clear c')\<lparr>lc_timeStamp := t, lc_gainArray := g, lc_biasArray := b\<rparr>"
    for t g b by (cases c; cases c') (simp add: lc_clear_def)
  then show ?thesis by (simp only: incrementController_def)
qed

lemma initializeDualSolution_const: "initializeDualSolution p ps adj d = initializeDualSolution p ps adj d'" for d d' :: dual_solution
  unfolding initializeDualSolution_def by (simp add: clear_DualSolution_const[of d d'])

lemma computeRolloutMetrics_const: "computeRolloutMetrics p ps ds m = computeRolloutMetrics p ps ds m'" for m m' :: problem_metrics
  unfolding computeRolloutMetrics_def by (simp add: clear_ProblemMetrics_const[of m m'])

lemma rolloutTrajectory_keeps:
  "rolloutTrajectory rollout t x tf ps = Inr (avg, ps') \<Longrightarrow> ps_controllerPtr ps' = ps_controllerPtr ps"
  by (auto simp: rolloutTrajectory_def result_simps split: prod.splits if_splits)

lemma rolloutTrajectory_const:
  fixes ps ps' :: primal_solution
  assumes "ps_controllerPtr ps = ps_controllerPtr ps'" "ps_modeSchedule ps = ps_modeSchedule ps'"
  shows "rolloutTrajectory rollout t x tf ps = rolloutTrajectory rollout t x tf ps'"
proof -
  have "ps\<lparr>ps_modeSchedule := m, ps_timeTrajectory := ts, ps_postEventIndices := es, ps_stateTrajectory := xs, ps_inputTrajectory := us\<rparr> =
      ps'\<lparr>ps_modeSchedule := m, ps_timeTrajectory := ts, ps_postEventIndices := es, ps_stateTrajectory := xs, ps_inputTrajectory := us\<rparr>"
    for m ts es xs us using assms(1) by (cases ps; cases ps') simp
  then show ?thesis by (simp only: rolloutTrajectory_def assms)
qed

lemma getLinearController_usable: "usable s \<Longrightarrow> \<exists>c. getLinearController ((sol_primalSolution s)\<lparr>ps_modeSchedule := m\<rparr>) = Inr c"
  by (auto simp: usable_def getLinearController_def)

lemma computeSolution_const:
  fixes s s' :: search_solution
  assumes "usable s" "usable s'"
  shows "computeSolution rollout p f inp a s = computeSolution rollout p f inp a s'"
proof -
  let ?ps = "\<lambda>s :: search_solution. (sol_primalSolution s)\<lparr>ps_modeSchedule := si_modeSchedule inp\<rparr>"
  from getLinearController_usable[OF assms(1)] getLinearController_usable[OF assms(2)]
  obtain c c' where c: "getLinearController (?ps s) = Inr c" "getLinearController (?ps s') = Inr c'" by blast
  have i: "incrementController a (si_controller inp) c = incrementController a (si_controller inp) c'"
    by (rule incrementController_const)
  have r: "rolloutTrajectory rollout t x tf ((?ps s)\<lparr>ps_controllerPtr := q\<rparr>) = rolloutTrajectory rollout t x tf ((?ps s')\<lparr>ps_controllerPtr := q\<rparr>)"
    for t x tf q by (rule rolloutTrajectory_const) simp_all
  have d: "initializeDualSolution p ps adj (sol_dualSolution s) = initializeDualSolution p ps adj (sol_dualSolution s')" for ps adj
    by (rule initializeDualSolution_const)
  have m: "computeRolloutMetrics p ps ds (sol_problemMetrics s) = computeRolloutMetrics p ps ds (sol_problemMetrics s')" for ps ds
    by (rule computeRolloutMetrics_const)
  have e: "s\<lparr>sol_avgTimeStep := avg, sol_dualSolution := ds, sol_primalSolution := ps, sol_problemMetrics := pm, sol_performanceIndex := pi\<rparr> =
      s'\<lparr>sol_avgTimeStep := avg, sol_dualSolution := ds, sol_primalSolution := ps, sol_problemMetrics := pm, sol_performanceIndex := pi\<rparr>"
    for avg ds ps pm pi by (cases s; cases s') simp
  show ?thesis unfolding computeSolution_def Let_def c i bind_result_Inr r d m e ..
qed

lemma computeSolution_usable: "computeSolution rollout p f inp a s = Inr r \<Longrightarrow> usable r"
  by (auto simp: computeSolution_def result_simps Let_def usable_def split: prod.splits dest!: rolloutTrajectory_keeps)

end
