(* ===== verification/Linear_Algebra.thy ===== *)
theory Linear_Algebra
  imports DDP_Helpers
begin

text \<open>
  \<open>core/ocs2_core/src/misc/LinearAlgebra.cpp\<close> and \<open>mpc/ocs2_ddp/src/HessianCorrection.cpp\<close>: corrections that make a
  matrix positive definite, and the projectors of a linear constraint. The factorisations of Eigen (Householder QR,
  LLT, incomplete Cholesky, the self-adjoint eigenvalue solver, triangular solves) are parameters. The properties:
  the Gershgorin and the Cholesky correction bound the quadratic form from below, and the projectors that
  \<open>computeConstraintProjection\<close> returns are the ones that \<open>projectLQ\<close> asks for.
\<close>

section \<open>Entries\<close>

definition set_at :: "dmatrix \<Rightarrow> nat \<Rightarrow> nat \<Rightarrow> scalar \<Rightarrow> dmatrix" where
  "set_at A i j x = mk_mat (m_rows A) (m_cols A) (\<lambda>k l. if k = i \<and> l = j then x else m_at A k l)"

text \<open>\<open>A.diagonal().array() += x\<close>.\<close>

definition add_diagonal :: "scalar \<Rightarrow> dmatrix \<Rightarrow> dmatrix" where
  "add_diagonal x A = mk_mat (m_rows A) (m_cols A) (\<lambda>i j. if i = j then m_at A i j + x else m_at A i j)"

definition identity :: "nat \<Rightarrow> dmatrix" where
  "identity n = mk_mat n n (\<lambda>i j. if i = j then 1 else 0)"

definition left_cols :: "nat \<Rightarrow> dmatrix \<Rightarrow> dmatrix result" where
  "left_cols n A = (if n \<le> m_cols A then Inr (mk_mat (m_rows A) n (m_at A)) else Inl Assertion_Failed)"

definition right_cols :: "nat \<Rightarrow> dmatrix \<Rightarrow> dmatrix result" where
  "right_cols n A = (if n \<le> m_cols A then Inr (mk_mat (m_rows A) n (\<lambda>i j. m_at A i (m_cols A - n + j))) else Inl Assertion_Failed)"

section \<open>Corrections\<close>

definition min_eigenvalue_step :: "scalar \<Rightarrow> nat \<Rightarrow> dmatrix \<Rightarrow> dmatrix result" where
  "min_eigenvalue_step minEigenValue i L =
     (if m_cols L \<le> i then Inl Assertion_Failed
      else let e = m_at L i i
           in Inr (set_at L i i (if e < 0 then min (- minEigenValue) e else max minEigenValue e)))"

definition setTriangularMinimumEigenvalues :: "scalar \<Rightarrow> dmatrix \<Rightarrow> dmatrix result" where
  "setTriangularMinimumEigenvalues minEigenValue L = fold_result (min_eigenvalue_step minEigenValue) [0 ..< m_rows L] L"

definition symmetrized :: "dmatrix \<Rightarrow> dmatrix" where
  "symmetrized A = mscale (1 / 2) (madd A (tr A))"

definition gershgorin_step :: "scalar \<Rightarrow> nat \<Rightarrow> dmatrix \<Rightarrow> dmatrix" where
  "gershgorin_step minEigenvalue i A =
     (let R = (\<Sum>k < m_rows A. \<bar>m_at A k i\<bar>) - \<bar>m_at A i i\<bar>
      in set_at A i i (max (m_at A i i) (R + minEigenvalue)))"

definition makePsdGershgorin :: "scalar \<Rightarrow> dmatrix \<Rightarrow> dmatrix result" where
  "makePsdGershgorin minEigenvalue A =
     (if m_rows A \<noteq> m_cols A then Inl Assertion_Failed
      else Inr (fold (gershgorin_step minEigenvalue) [0 ..< m_rows A] (symmetrized A)))"

text \<open>The eigenvalues of the solver, its eigenvectors and the inverse of their matrix.\<close>

record eigen_solver =
  es_eigenvalues :: "dmatrix \<Rightarrow> vector_t"
  es_eigenvectors :: "dmatrix \<Rightarrow> dmatrix"
  es_inverse :: "dmatrix \<Rightarrow> dmatrix"

definition makePsdEigenvalue :: "eigen_solver \<Rightarrow> scalar \<Rightarrow> dmatrix \<Rightarrow> dmatrix result" where
  "makePsdEigenvalue es minEigenvalue A =
     (if m_rows A \<noteq> m_cols A then Inl Assertion_Failed
      else let lambda = es_eigenvalues es A;
               clamped = map (\<lambda>l. if l < minEigenvalue then minEigenvalue else l) lambda
           in if list_ex (\<lambda>l. l < minEigenvalue) lambda then
                let V = es_eigenvectors es A in
                bind_result (diag_mult clamped (es_inverse es V)) (mat_mult V)
              else Inr (symmetrized A))"

text \<open>
  The scaling \<open>S\<close> of the incomplete Cholesky factorisation, its factor \<open>L\<close>, and its permutation as the function that
  names the row that \<open>permutationP\<close> sends to an index. Twisting reads the lower triangle of \<open>M\<close> as a symmetric matrix
  and stores the lower triangle of the permuted one.
\<close>

type_synonym incomplete_cholesky = "dmatrix \<Rightarrow> vector_t \<times> dmatrix \<times> (nat \<Rightarrow> nat)"

definition twisted_lower :: "(nat \<Rightarrow> nat) \<Rightarrow> dmatrix \<Rightarrow> dmatrix" where
  "twisted_lower perm M = mk_mat (m_rows M) (m_cols M) (\<lambda>i j.
     if j \<le> i then m_at M (max (perm i) (perm j)) (min (perm i) (perm j)) else 0)"

definition makePsdCholesky :: "incomplete_cholesky \<Rightarrow> scalar \<Rightarrow> dmatrix \<Rightarrow> dmatrix result" where
  "makePsdCholesky ic minEigenvalue A =
     (if m_rows A \<noteq> m_cols A then Inl Assertion_Failed
      else let B = add_diagonal (- minEigenvalue) A in
        case ic (madd (mscale (1 / 2) B) (mscale (1 / 2) (tr B))) of (S, L, perm) \<Rightarrow>
        bind_result (diag_mult (map (\<lambda>s. 1 / s) S) L) (\<lambda>M.
        let L = twisted_lower perm M in
        bind_result (mat_mult L (tr L)) (\<lambda>C. Inr (add_diagonal minEigenvalue C))))"

datatype hessian_strategy = DIAGONAL_SHIFT | CHOLESKY_MODIFICATION | EIGENVALUE_MODIFICATION | GERSHGORIN_MODIFICATION

fun toString_hessian :: "hessian_strategy \<Rightarrow> string" where
  "toString_hessian DIAGONAL_SHIFT = ''DIAGONAL_SHIFT''"
| "toString_hessian CHOLESKY_MODIFICATION = ''CHOLESKY_MODIFICATION''"
| "toString_hessian EIGENVALUE_MODIFICATION = ''EIGENVALUE_MODIFICATION''"
| "toString_hessian GERSHGORIN_MODIFICATION = ''GERSHGORIN_MODIFICATION''"

definition fromString_hessian :: "string \<Rightarrow> hessian_strategy result" where
  "fromString_hessian name =
     (if name = ''DIAGONAL_SHIFT'' then Inr DIAGONAL_SHIFT
      else if name = ''CHOLESKY_MODIFICATION'' then Inr CHOLESKY_MODIFICATION
      else if name = ''EIGENVALUE_MODIFICATION'' then Inr EIGENVALUE_MODIFICATION
      else if name = ''GERSHGORIN_MODIFICATION'' then Inr GERSHGORIN_MODIFICATION
      else Inl (Runtime_Error ''unordered_map::at''))"

definition shiftHessian :: "eigen_solver \<Rightarrow> incomplete_cholesky \<Rightarrow> hessian_strategy \<Rightarrow> dmatrix \<Rightarrow> scalar \<Rightarrow> dmatrix result" where
  "shiftHessian es ic strategy A minEigenvalue =
     (if m_rows A \<noteq> m_cols A then Inl Assertion_Failed
      else case strategy of
             DIAGONAL_SHIFT \<Rightarrow> Inr (add_diagonal minEigenvalue A)
           | CHOLESKY_MODIFICATION \<Rightarrow> makePsdCholesky ic minEigenvalue A
           | EIGENVALUE_MODIFICATION \<Rightarrow> makePsdEigenvalue es minEigenvalue A
           | GERSHGORIN_MODIFICATION \<Rightarrow> makePsdGershgorin minEigenvalue A)"

section \<open>Projectors\<close>

text \<open>
  The upper factor of the Cholesky decomposition, the Householder QR decomposition (the orthogonal matrix and the
  upper triangle of the other factor, all its rows) and the solution with an upper triangular matrix.
\<close>

record factorizations =
  llt_matrixU :: "dmatrix \<Rightarrow> dmatrix"
  qr_Q :: "dmatrix \<Rightarrow> dmatrix"
  qr_R :: "dmatrix \<Rightarrow> dmatrix"
  solve_upper :: "dmatrix \<Rightarrow> dmatrix \<Rightarrow> dmatrix"

definition computeInverseMatrixUUT :: "factorizations \<Rightarrow> dmatrix \<Rightarrow> dmatrix" where
  "computeInverseMatrixUUT fz Am = solve_upper fz (llt_matrixU fz Am) (identity (m_rows Am))"

definition upper_part :: "dmatrix \<Rightarrow> dmatrix" where
  "upper_part A = mk_mat (m_rows A) (m_cols A) (\<lambda>i j. if i \<le> j then m_at A i j else 0)"

definition top_rows :: "nat \<Rightarrow> dmatrix \<Rightarrow> dmatrix result" where
  "top_rows n A = (if n \<le> m_rows A then Inr (mk_mat n (m_cols A) (m_at A)) else Inl Assertion_Failed)"

definition computeConstraintProjection :: "factorizations \<Rightarrow> dmatrix \<Rightarrow> dmatrix \<Rightarrow> (dmatrix \<times> dmatrix \<times> dmatrix) result" where
  "computeConstraintProjection fz Dm RmInvUmUmT =
     (let nc = m_rows Dm; nu = m_cols Dm in
      bind_result (mat_mult (tr RmInvUmUmT) (tr Dm)) (\<lambda>W.
      bind_result (top_rows nc (qr_R fz W)) (\<lambda>top.
      bind_result (setTriangularMinimumEigenvalues weakEpsilon (upper_part top)) (\<lambda>Rc.
      let UUT = solve_upper fz Rc (identity nc) in
      bind_result (left_cols nc (qr_Q fz W)) (\<lambda>Qc.
      bind_result (if nc \<le> nu then right_cols (nu - nc) (qr_Q fz W) else Inl Assertion_Failed) (\<lambda>Qu.
      bind_result (bind_result (mat_mult Qc (tr UUT)) (mat_mult RmInvUmUmT)) (\<lambda>DmDagger.
      bind_result (mat_mult RmInvUmUmT Qu) (\<lambda>constrainedUUT.
      Inr (DmDagger, UUT, constrainedUUT)))))))))"

section \<open>Facts about the corrections\<close>

lemma linalg_dims [simp]:
  "m_rows (set_at A i j x) = m_rows A" "m_cols (set_at A i j x) = m_cols A"
  "m_rows (add_diagonal x A) = m_rows A" "m_cols (add_diagonal x A) = m_cols A"
  "m_rows (identity n) = n" "m_cols (identity n) = n" "m_rows (symmetrized A) = m_rows A" "m_cols (symmetrized A) = m_cols A"
  "m_rows (gershgorin_step c k A) = m_rows A" "m_cols (gershgorin_step c k A) = m_cols A"
  by (simp_all add: set_at_def add_diagonal_def identity_def symmetrized_def gershgorin_step_def Let_def)

lemma set_at_at: "k < m_rows A \<Longrightarrow> l < m_cols A \<Longrightarrow> m_at (set_at A i j x) k l = (if k = i \<and> l = j then x else m_at A k l)"
  by (simp add: set_at_def)

lemma symmetrized_at:
  "m_rows A = m_cols A \<Longrightarrow> i < m_rows A \<Longrightarrow> j < m_rows A \<Longrightarrow> m_at (symmetrized A) i j = (m_at A i j + m_at A j i) / 2"
  by (simp add: symmetrized_def mscale_def madd_def)

lemma symmetric_symmetrized: "m_rows A = m_cols A \<Longrightarrow> symmetric (symmetrized A)"
  by (simp add: symmetric_def symmetrized_at add.commute)

text \<open>The radius of a row, without its diagonal entry.\<close>

definition radius :: "dmatrix \<Rightarrow> nat \<Rightarrow> scalar" where
  "radius A i = (\<Sum>k \<in> {..< m_rows A} - {i}. \<bar>m_at A k i\<bar>)"

lemma radius_eq: "i < m_rows A \<Longrightarrow> (\<Sum>k < m_rows A. \<bar>m_at A k i\<bar>) - \<bar>m_at A i i\<bar> = radius A i"
  by (simp add: radius_def sum_diff1)

lemma gershgorin_fold:
  assumes "m_rows S = m_cols S" "k \<le> m_rows S"
  shows "m_rows (fold (gershgorin_step c) [0 ..< k] S) = m_rows S \<and> m_cols (fold (gershgorin_step c) [0 ..< k] S) = m_rows S \<and>
    (\<forall>i < m_rows S. \<forall>j < m_rows S. m_at (fold (gershgorin_step c) [0 ..< k] S) i j =
       (if i = j \<and> i < k then max (m_at S i i) (radius S i + c) else m_at S i j))"
  using assms(2)
proof (induction k)
  case 0
  then show ?case using assms(1) by simp
next
  case (Suc k)
  define A where "A = fold (gershgorin_step c) [0 ..< k] S"
  have A: "m_rows A = m_rows S" "m_cols A = m_rows S"
    "\<And>i j. i < m_rows S \<Longrightarrow> j < m_rows S \<Longrightarrow> m_at A i j = (if i = j \<and> i < k then max (m_at S i i) (radius S i + c) else m_at S i j)"
    unfolding A_def using Suc by auto
  have k: "k < m_rows S" using Suc.prems by simp
  have "radius A k = radius S k" unfolding radius_def A(1) by (rule sum.cong) (use A(3) k in auto)
  then have "gershgorin_step c k A = set_at A k k (max (m_at S k k) (radius S k + c))"
    unfolding gershgorin_step_def Let_def using radius_eq[of k A] k A by simp
  moreover have "fold (gershgorin_step c) [0 ..< Suc k] S = gershgorin_step c k A" by (simp add: A_def)
  ultimately show ?case using A k by (simp add: set_at_at less_Suc_eq)
qed

text \<open>Quadratic forms.\<close>

definition form :: "dmatrix \<Rightarrow> vector_t \<Rightarrow> scalar" where
  "form A x = dot x (mv A x)"

definition bounded_below :: "scalar \<Rightarrow> dmatrix \<Rightarrow> bool" where
  "bounded_below c A = (\<forall>x. length x = m_rows A \<longrightarrow> c * dot x x \<le> form A x)"

lemma form_sum: "m_rows A = m_cols A \<Longrightarrow> length x = m_rows A \<Longrightarrow> form A x = (\<Sum>i < m_rows A. \<Sum>j < m_rows A. x ! i * (m_at A i j * x ! j))"
  by (simp add: form_def dot_def sum_distrib_left)

lemma form_add_diagonal:
  assumes "m_rows A = m_cols A" "length x = m_rows A"
  shows "form (add_diagonal c A) x = form A x + c * dot x x"
proof -
  have "(\<Sum>j < m_rows A. x ! i * (m_at (add_diagonal c A) i j * x ! j)) = (\<Sum>j < m_rows A. x ! i * (m_at A i j * x ! j)) + c * (x ! i * x ! i)"
    if "i < m_rows A" for i
  proof -
    have "(\<Sum>j < m_rows A. x ! i * (m_at (add_diagonal c A) i j * x ! j)) =
        (\<Sum>j < m_rows A. x ! i * (m_at A i j * x ! j) + (if j = i then c * (x ! i * x ! i) else 0))"
      by (rule sum.cong) (use that assms(1) in \<open>auto simp: add_diagonal_def algebra_simps\<close>)
    then show ?thesis using that by (simp add: sum.distrib sum.delta)
  qed
  then show ?thesis using assms by (simp add: form_sum sum.distrib dot_def sum_distrib_left)
qed

lemma form_square: "m_cols L = m_rows L \<Longrightarrow> length x = m_rows L \<Longrightarrow> form (mm L (tr L)) x = dot (mv (tr L) x) (mv (tr L) x)"
  by (simp add: form_def mv_mm dot_tr_left dot_mv_tr)

lemma dot_self_nonneg: "0 \<le> dot x (x :: vector_t)"
  by (simp add: dot_def sum_nonneg)

text \<open>A symmetric matrix whose diagonal exceeds the radii by \<open>c\<close> is bounded below by \<open>c\<close>.\<close>

lemma dominant_bounded_below:
  assumes S: "symmetric A" and d: "\<And>i. i < m_rows A \<Longrightarrow> radius A i + c \<le> m_at A i i"
  shows "bounded_below c A"
  unfolding bounded_below_def
proof (intro allI impI)
  fix x :: vector_t assume x: "length x = m_rows A"
  let ?n = "m_rows A"
  have sq: "m_rows A = m_cols A" using S by (simp add: symmetric_def)
  have sym: "\<bar>m_at A i j\<bar> = \<bar>m_at A j i\<bar>" if "i < ?n" "j < ?n" for i j using S that by (simp add: symmetric_def)
  have dd: "c \<le> m_at A i i - radius A i" if "i < ?n" for i using d[OF that] by simp
  have pair: "- \<bar>m_at A i j\<bar> * (x ! i * x ! i) / 2 - \<bar>m_at A j i\<bar> * (x ! j * x ! j) / 2 \<le> x ! i * (m_at A i j * x ! j)"
    if ij: "i < ?n" "j < ?n" for i j
  proof -
    have "\<bar>x ! i * x ! j\<bar> \<le> (x ! i * x ! i + x ! j * x ! j) / 2"
      using zero_le_square[of "\<bar>x ! i\<bar> - \<bar>x ! j\<bar>"] by (simp add: algebra_simps abs_mult)
    then have "\<bar>m_at A i j\<bar> * \<bar>x ! i * x ! j\<bar> \<le> \<bar>m_at A i j\<bar> * ((x ! i * x ! i + x ! j * x ! j) / 2)" by (rule mult_left_mono) simp
    moreover have "- (\<bar>m_at A i j\<bar> * \<bar>x ! i * x ! j\<bar>) \<le> m_at A i j * (x ! i * x ! j)"
      unfolding abs_mult[symmetric] by simp
    ultimately show ?thesis using sym[OF ij] by (simp add: algebra_simps add_divide_distrib)
  qed
  let ?I = "\<lambda>i. {..< ?n} - {i}"
  have "(\<Sum>i < ?n. c * (x ! i * x ! i)) \<le> (\<Sum>i < ?n. (m_at A i i - radius A i) * (x ! i * x ! i))"
    by (intro sum_mono mult_right_mono) (use dd in auto)
  also have "\<dots> = (\<Sum>i < ?n. m_at A i i * (x ! i * x ! i)) - (\<Sum>i < ?n. \<Sum>j \<in> ?I i. \<bar>m_at A j i\<bar> * (x ! i * x ! i))"
    by (simp add: radius_def algebra_simps sum_subtractf sum_distrib_left sum_distrib_right)
  also have "(\<Sum>i < ?n. \<Sum>j \<in> ?I i. \<bar>m_at A j i\<bar> * (x ! i * x ! i)) =
      (\<Sum>i < ?n. \<Sum>j \<in> ?I i. \<bar>m_at A i j\<bar> * (x ! i * x ! i) / 2 + \<bar>m_at A j i\<bar> * (x ! j * x ! j) / 2)"
  proof -
    have swap: "(\<Sum>i < ?n. \<Sum>j \<in> ?I i. f i j) = (\<Sum>i < ?n. \<Sum>j \<in> ?I i. f j i)" for f :: "nat \<Rightarrow> nat \<Rightarrow> scalar"
    proof -
      have "(\<Sum>i < ?n. \<Sum>j \<in> ?I i. f i j) = (\<Sum>i < ?n. \<Sum>j < ?n. if i = j then 0 else f i j)" for f :: "nat \<Rightarrow> nat \<Rightarrow> scalar"
        by (rule sum.cong[OF refl], rule sum.mono_neutral_cong_left) auto
      then show ?thesis using sum.swap[of "\<lambda>i j. if i = j then 0 else f i j" "{..< ?n}" "{..< ?n}"] by (simp add: eq_commute)
    qed
    have a: "(\<Sum>i < ?n. \<Sum>j \<in> ?I i. \<bar>m_at A j i\<bar> * (x ! i * x ! i)) = (\<Sum>i < ?n. \<Sum>j \<in> ?I i. \<bar>m_at A i j\<bar> * (x ! i * x ! i))"
      by (intro sum.cong refl) (use sym in auto)
    have b: "(\<Sum>i < ?n. \<Sum>j \<in> ?I i. \<bar>m_at A j i\<bar> * (x ! j * x ! j)) = (\<Sum>i < ?n. \<Sum>j \<in> ?I i. \<bar>m_at A i j\<bar> * (x ! i * x ! i))"
      using swap[of "\<lambda>i j. \<bar>m_at A j i\<bar> * (x ! j * x ! j)"] by simp
    show ?thesis unfolding sum.distrib sum_divide_distrib[symmetric] a b by simp
  qed
  also have "(\<Sum>i < ?n. m_at A i i * (x ! i * x ! i)) - \<dots> =
      (\<Sum>i < ?n. x ! i * (m_at A i i * x ! i) + (\<Sum>j \<in> ?I i. - \<bar>m_at A i j\<bar> * (x ! i * x ! i) / 2 - \<bar>m_at A j i\<bar> * (x ! j * x ! j) / 2))"
    by (simp add: sum.distrib sum_subtractf sum_negf algebra_simps)
  also have "\<dots> \<le> (\<Sum>i < ?n. x ! i * (m_at A i i * x ! i) + (\<Sum>j \<in> ?I i. x ! i * (m_at A i j * x ! j)))"
    using pair by (intro sum_mono add_left_mono) auto
  also have "\<dots> = form A x" by (simp add: form_sum[OF sq x] sum.remove)
  finally show "c * dot x x \<le> form A x" using x by (simp add: dot_def sum_distrib_left)
qed

lemma makePsdGershgorin_bound:
  assumes "m_rows A = m_cols A"
  shows "\<exists>B. makePsdGershgorin c A = Inr B \<and> m_rows B = m_rows A \<and> m_cols B = m_rows A \<and> symmetric B \<and> bounded_below c B"
proof -
  let ?S = "symmetrized A"
  let ?B = "fold (gershgorin_step c) [0 ..< m_rows A] ?S"
  have S: "m_rows ?S = m_cols ?S" "symmetric ?S" using assms symmetric_symmetrized by auto
  from gershgorin_fold[OF S(1), of "m_rows A" c] have B: "m_rows ?B = m_rows A" "m_cols ?B = m_rows A"
    "\<And>i j. i < m_rows A \<Longrightarrow> j < m_rows A \<Longrightarrow> m_at ?B i j = (if i = j then max (m_at ?S i i) (radius ?S i + c) else m_at ?S i j)" by auto
  have sym: "symmetric ?B" using B S(2) by (simp add: symmetric_def)
  moreover have "radius ?B i = radius ?S i" if "i < m_rows A" for i
    unfolding radius_def B(1) using B(3) that by (intro sum.cong) auto
  then have "bounded_below c ?B" using B by (intro dominant_bounded_below[OF sym]) auto
  ultimately show ?thesis using B(1,2) assms by (simp add: makePsdGershgorin_def)
qed

text \<open>The other corrections.\<close>

lemma dot_square: "dot v v = (\<Sum>i < length v. v ! i * v ! i)"
  by (simp add: dot_def)

definition cholesky_ok :: "incomplete_cholesky \<Rightarrow> dmatrix \<Rightarrow> bool" where
  "cholesky_ok ic B = (case ic B of (S, L, perm) \<Rightarrow> length S = m_rows B \<and> m_rows L = m_rows B \<and> m_cols L = m_rows B)"

lemma twisted_dims [simp]: "m_rows (twisted_lower perm M) = m_rows M" "m_cols (twisted_lower perm M) = m_cols M"
  by (simp_all add: twisted_lower_def)

lemma makePsdCholesky_bound:
  assumes "m_rows A = m_cols A" "\<And>B. m_rows B = m_rows A \<Longrightarrow> m_cols B = m_rows A \<Longrightarrow> cholesky_ok ic B"
  shows "\<exists>B. makePsdCholesky ic c A = Inr B \<and> m_rows B = m_rows A \<and> m_cols B = m_rows A \<and> bounded_below c B"
proof -
  define B where "B = add_diagonal (- c) A"
  define T where "T = madd (mscale (1 / 2) B) (mscale (1 / 2) (tr B))"
  have dims: "m_rows T = m_rows A" "m_cols T = m_rows A" using assms(1) by (simp_all add: T_def B_def)
  obtain S L perm where ic: "ic T = (S, L, perm)" by (cases "ic T")
  have ok: "length S = m_rows A" "m_rows L = m_rows A" "m_cols L = m_rows A"
    using assms(2)[OF dims] ic dims by (simp_all add: cholesky_ok_def)
  define N where "N = twisted_lower perm (diag_mm (map (\<lambda>s. 1 / s) S) L)"
  have N: "m_rows N = m_rows A" "m_cols N = m_rows A" using ok by (simp_all add: N_def)
  have "bounded_below c (add_diagonal c (mm N (tr N)))"
    unfolding bounded_below_def using N by (auto simp: form_add_diagonal form_square dot_self_nonneg)
  moreover have "makePsdCholesky ic c A = Inr (add_diagonal c (mm N (tr N)))"
    using assms(1) ic ok N by (simp add: makePsdCholesky_def Let_def B_def[symmetric] T_def[symmetric] mat_checked N_def[symmetric])
  ultimately show ?thesis using N by simp
qed

text \<open>The spectral decomposition: the columns of the eigenvector matrix are orthonormal.\<close>

definition eigen_ok :: "eigen_solver \<Rightarrow> dmatrix \<Rightarrow> bool" where
  "eigen_ok es A =
     (let n = m_rows A; V = es_eigenvectors es A in
      length (es_eigenvalues es A) = n \<and> m_rows V = n \<and> m_cols V = n \<and> es_inverse es V = tr V \<and> mm V (tr V) = identity n \<and>
      A = mm V (diag_mm (es_eigenvalues es A) (tr V)))"

lemma mv_identity [simp]: "length v = n \<Longrightarrow> mv (identity n) v = v"
proof (intro nth_equalityI)
  fix i assume v: "length v = n" and "i < length (mv (identity n) v)"
  then have i: "i < n" by simp
  then have "(\<Sum>j < n. m_at (identity n) i j * v ! j) = (\<Sum>j < n. if j = i then v ! j else 0)"
    by (intro sum.cong) (auto simp: identity_def)
  then show "mv (identity n) v ! i = v ! i" using i v by (simp add: sum.delta)
qed simp

lemma form_spectral:
  assumes "length l = m_cols V" "length x = m_rows V"
  shows "form (mm V (diag_mm l (tr V))) x = (\<Sum>i < m_cols V. l ! i * (mv (tr V) x ! i * mv (tr V) x ! i))"
proof -
  have "mv (diag_mm l (tr V)) x ! i = l ! i * mv (tr V) x ! i" if "i < m_cols V" for i
    using that by (simp add: diag_mm_def sum_distrib_left mult.assoc)
  then have "dot (mv (tr V) x) (mv (diag_mm l (tr V)) x) = (\<Sum>i < m_cols V. l ! i * (mv (tr V) x ! i * mv (tr V) x ! i))"
    unfolding dot_def by (intro sum.cong) (simp_all del: mv_nth)
  then show ?thesis using assms by (simp add: form_def mv_mm dot_mv_tr del: mv_nth)
qed

lemma isometry:
  assumes "mm V (tr V) = identity n" "m_rows V = n" "length x = n"
  shows "(\<Sum>i < m_cols V. mv (tr V) x ! i * mv (tr V) x ! i) = dot x x"
proof -
  have "mv V (mv (tr V) x) = x" using assms mv_mm[of V "tr V" x] by simp
  then have "dot (mv (tr V) x) (mv (tr V) x) = dot x x" using dot_mv_tr[of x V "mv (tr V) x"] assms by simp
  then show ?thesis by (simp add: dot_square)
qed

lemma spectral_bounded_below:
  assumes "mm V (tr V) = identity n" "m_rows V = n" "m_cols V = n" "length l = n" "\<And>i. i < n \<Longrightarrow> c \<le> l ! i"
  shows "bounded_below c (mm V (diag_mm l (tr V)))"
  unfolding bounded_below_def
proof (intro allI impI)
  fix x :: vector_t assume x: "length x = m_rows (mm V (diag_mm l (tr V)))"
  have "c * dot x x = (\<Sum>i < n. c * (mv (tr V) x ! i * mv (tr V) x ! i))"
    unfolding sum_distrib_left[symmetric] using isometry[OF assms(1,2), of x] x assms(2,3) by (simp del: mv_nth)
  also have "\<dots> \<le> (\<Sum>i < n. l ! i * (mv (tr V) x ! i * mv (tr V) x ! i))"
    using assms(5) by (intro sum_mono mult_right_mono) (auto simp del: mv_nth)
  finally show "c * dot x x \<le> form (mm V (diag_mm l (tr V))) x"
    using x assms by (simp add: form_spectral del: mv_nth)
qed

lemma makePsdEigenvalue_bound:
  assumes A: "symmetric A" and es: "eigen_ok es A"
  shows "\<exists>B. makePsdEigenvalue es c A = Inr B \<and> m_rows B = m_rows A \<and> m_cols B = m_rows A \<and> bounded_below c B"
proof -
  define l V where "l = es_eigenvalues es A" "V = es_eigenvectors es A"
  have V: "length l = m_rows A" "m_rows V = m_rows A" "m_cols V = m_rows A" "es_inverse es V = tr V"
      "mm V (tr V) = identity (m_rows A)" "A = mm V (diag_mm l (tr V))"
    using es by (simp_all add: eigen_ok_def Let_def l_V_def)
  have sq: "m_rows A = m_cols A" using A by (simp add: symmetric_def)
  show ?thesis
  proof (cases "list_ex (\<lambda>e. e < c) l")
    case True
    define m where "m = map (\<lambda>e. if e < c then c else e) l"
    have m: "length m = m_rows A" "\<And>i. i < m_rows A \<Longrightarrow> c \<le> m ! i" using V(1) by (simp_all add: m_def)
    have "makePsdEigenvalue es c A = Inr (mm V (diag_mm m (tr V)))"
      using True sq V(1-4) m(1) by (simp add: makePsdEigenvalue_def Let_def l_V_def[symmetric] m_def[symmetric] mat_checked)
    then show ?thesis using spectral_bounded_below[OF V(5,2,3) m] V(2,3) by simp
  next
    case False
    have "mat_wf A" by (subst V(6)) simp
    then have "symmetrized A = A"
      using A by (intro mat_eqI) (simp_all add: symmetrized_at symmetric_def, simp add: symmetrized_def)
    then have "symmetrized A = mm V (diag_mm l (tr V))" using V(6) by metis
    moreover have "bounded_below c (mm V (diag_mm l (tr V)))"
    proof (rule spectral_bounded_below[OF V(5,2,3,1)])
      fix i assume "i < m_rows A"
      then have "l ! i \<in> set l" using V(1) by simp
      then show "c \<le> l ! i" using False by (auto simp: list_ex_iff not_less)
    qed
    ultimately show ?thesis using False sq V(2,3) by (simp add: makePsdEigenvalue_def Let_def l_V_def[symmetric])
  qed
qed

lemma shiftHessian_correct:
  assumes "m_rows A = m_cols A" "\<And>B. m_rows B = m_rows A \<Longrightarrow> m_cols B = m_rows A \<Longrightarrow> cholesky_ok ic B"
    and "strategy = EIGENVALUE_MODIFICATION \<Longrightarrow> symmetric A \<and> eigen_ok es A"
  shows "\<exists>B. shiftHessian es ic strategy A c = Inr B \<and> m_rows B = m_rows A \<and> m_cols B = m_rows A \<and>
    (strategy \<noteq> DIAGONAL_SHIFT \<longrightarrow> bounded_below c B) \<and>
    (strategy = DIAGONAL_SHIFT \<longrightarrow> (\<forall>x. length x = m_rows A \<longrightarrow> form B x = form A x + c * dot x x))"
proof (cases strategy)
  case DIAGONAL_SHIFT
  then show ?thesis using assms(1) form_add_diagonal[OF assms(1)] by (simp add: shiftHessian_def)
next
  case CHOLESKY_MODIFICATION
  then show ?thesis using makePsdCholesky_bound[OF assms(1,2), of c] assms(1) by (auto simp: shiftHessian_def)
next
  case EIGENVALUE_MODIFICATION
  then show ?thesis using makePsdEigenvalue_bound[of A es c] assms(1,3) by (auto simp: shiftHessian_def)
next
  case GERSHGORIN_MODIFICATION
  then show ?thesis using makePsdGershgorin_bound[OF assms(1), of c] assms(1) by (auto simp: shiftHessian_def)
qed

lemma fromString_toString_hessian: "fromString_hessian (toString_hessian strategy) = Inr strategy"
  by (cases strategy) (simp_all add: fromString_hessian_def)

lemma form_madd: "m_rows A = m_rows B \<Longrightarrow> m_cols A = m_cols B \<Longrightarrow> m_rows A = m_cols A \<Longrightarrow> length x = m_rows A \<Longrightarrow> form (madd A B) x = form A x + form B x"
  by (simp add: form_def mv_madd dot_vadd_right)

lemma form_mneg: "length x = m_rows A \<Longrightarrow> form (mneg A) x = - form A x"
  by (simp add: form_def dot_def mneg_def sum_negf)

lemma form_gram: "length x = m_cols B \<Longrightarrow> form (mm (tr B) B) x = dot (mv B x) (mv B x)"
  by (simp add: form_def mv_mm dot_tr_left)

section \<open>Facts about the projectors\<close>

lemma mv_tr_tr [simp]: "mv (tr (tr A)) v = mv A v"
  by (intro nth_equalityI) simp_all

lemma tr_mm: "m_cols A = m_rows B \<Longrightarrow> tr (mm A B) = mm (tr B) (tr A)"
  by (rule mat_eqI) (simp_all add: mm_def mult.commute)

lemma mv_tr_mm: "m_cols A = m_rows B \<Longrightarrow> mv (tr (mm A B)) v = mv (tr B) (mv (tr A) v)"
  by (simp add: tr_mm mv_mm)

lemma sum_split: "(\<Sum>k < m + n. f k) = (\<Sum>k < m. f k) + (\<Sum>k < n. f (m + k))" for f :: "nat \<Rightarrow> scalar"
  by (induction n) simp_all

lemma tr_identity [simp]: "tr (identity n) = identity n"
  by (rule mat_eqI) (auto simp: identity_def)

text \<open>Diagonal entries that are already far from zero stay as they are.\<close>

lemma setTriangularMinimumEigenvalues_id:
  assumes "m_rows L \<le> m_cols L" "mat_wf L" "\<And>i. i < m_rows L \<Longrightarrow> c \<le> \<bar>m_at L i i\<bar>" "0 < c"
  shows "setTriangularMinimumEigenvalues c L = Inr L"
proof -
  have "min_eigenvalue_step c i L = Inr L" if "i < m_rows L" for i
  proof -
    have "set_at L i i (m_at L i i) = L" using assms(2) by (intro mat_eqI) (auto simp: set_at_def)
    moreover have "(if m_at L i i < 0 then min (- c) (m_at L i i) else max c (m_at L i i)) = m_at L i i"
      using assms(3)[OF that] assms(4) by auto
    ultimately show ?thesis using assms(1) that by (simp add: min_eigenvalue_step_def Let_def)
  qed
  then have "fold_result (min_eigenvalue_step c) [0 ..< k] L = Inr L" if "k \<le> m_rows L" for k
    using that by (induction k) (simp_all add: fold_result_append)
  then show ?thesis by (simp add: setTriangularMinimumEigenvalues_def)
qed

text \<open>What the factorisations promise: an orthogonal matrix and an upper factor, and the inverse of a triangular matrix.\<close>

definition qr_ok :: "factorizations \<Rightarrow> dmatrix \<Rightarrow> bool" where
  "qr_ok fz W =
     (m_rows (qr_Q fz W) = m_rows W \<and> m_cols (qr_Q fz W) = m_rows W \<and> m_rows (qr_R fz W) = m_rows W \<and> m_cols (qr_R fz W) = m_cols W \<and>
      (\<forall>i < m_rows W. \<forall>j < m_rows W. (\<Sum>k < m_rows W. m_at (qr_Q fz W) k i * m_at (qr_Q fz W) k j) = (if i = j then 1 else 0)) \<and>
      (\<forall>i < m_rows W. \<forall>j < m_rows W. (\<Sum>k < m_rows W. m_at (qr_Q fz W) i k * m_at (qr_Q fz W) j k) = (if i = j then 1 else 0)) \<and>
      (\<forall>i < m_rows W. \<forall>j < m_cols W. m_at W i j = (\<Sum>k < m_cols W. m_at (qr_Q fz W) i k * (if k \<le> j then m_at (qr_R fz W) k j else 0))))"

definition solve_upper_ok :: "factorizations \<Rightarrow> dmatrix \<Rightarrow> bool" where
  "solve_upper_ok fz T =
     (let X = solve_upper fz T (identity (m_rows T)) in
      m_rows X = m_rows T \<and> m_cols X = m_rows T \<and>
      (m_rows T = m_cols T \<and> (\<forall>i < m_rows T. m_at T i i \<noteq> 0 \<and> (\<forall>j < i. m_at T i j = 0)) \<longrightarrow>
       mm X T = identity (m_rows T) \<and> mm T X = identity (m_rows T)))"

text \<open>
  \<open>computeConstraintProjection\<close>: when the triangular factor has no diagonal entry below \<open>weakEpsilon\<close> in size (the
  constraint is far from rank deficient), the pseudo inverse and the null space basis that it returns are projectors in
  the sense in which \<open>projectLQ\<close> needs them; the basis is \<open>U\<close> times orthonormal columns, which span all that the
  constraint leaves free.
\<close>

definition spans_kernel :: "dmatrix \<Rightarrow> dmatrix \<Rightarrow> dmatrix \<Rightarrow> nat \<Rightarrow> nat \<Rightarrow> bool" where
  "spans_kernel D U Qu nu nv =
     (m_rows Qu = nu \<and> m_cols Qu = nv \<and> mm (tr Qu) Qu = identity nv \<and>
      (\<forall>y. length y = nu \<longrightarrow> mv D (mv U y) = zero_vec (m_rows D) \<longrightarrow> mv Qu (mv (tr Qu) y) = y))"

lemma computeConstraintProjection_projectors:
  assumes dims: "m_rows Dm = nc" "m_cols Dm = nu" "nc \<le> nu" "m_rows U = nu" "m_cols U = nu"
    and qr: "qr_ok fz (mm (tr U) (tr Dm))"
    and solve: "\<And>T. m_rows T = nc \<Longrightarrow> m_cols T = nc \<Longrightarrow> solve_upper_ok fz T"
    and rank: "\<And>i. i < nc \<Longrightarrow> weakEpsilon \<le> \<bar>m_at (qr_R fz (mm (tr U) (tr Dm))) i i\<bar>"
  shows "\<exists>dagger uut null. computeConstraintProjection fz Dm U = Inr (dagger, uut, null) \<and> projectors_ok nc nu Dm dagger null \<and>
    (\<exists>Qu. null = mm U Qu \<and> spans_kernel Dm U Qu nu (nu - nc))"
proof -
  define W Q R where "W = mm (tr U) (tr Dm)" "Q = qr_Q fz W" "R = upper_part (mk_mat nc nc (m_at (qr_R fz W)))"
  define X Qc Qu where "X = solve_upper fz R (identity nc)" "Qc = mk_mat nu nc (m_at Q)" "Qu = mk_mat nu (nu - nc) (\<lambda>i j. m_at Q i (nc + j))"
  note defs = W_Q_R_def X_Qc_Qu_def
  have W: "m_rows W = nu" "m_cols W = nc" using dims by (simp_all add: W_Q_R_def(1))
  have Q: "m_rows Q = nu" "m_cols Q = nu" "m_rows (qr_R fz W) = nu" "m_cols (qr_R fz W) = nc"
    "\<And>i j. i < nu \<Longrightarrow> j < nu \<Longrightarrow> (\<Sum>k < nu. m_at Q k i * m_at Q k j) = (if i = j then 1 else 0)"
    "\<And>i j. i < nu \<Longrightarrow> j < nu \<Longrightarrow> (\<Sum>k < nu. m_at Q i k * m_at Q j k) = (if i = j then 1 else 0)"
    "\<And>i j. i < nu \<Longrightarrow> j < nc \<Longrightarrow> m_at W i j = (\<Sum>k < nc. m_at Q i k * (if k \<le> j then m_at (qr_R fz W) k j else 0))"
    using qr[folded W_Q_R_def(1)] W by (simp_all add: qr_ok_def W_Q_R_def(2)[symmetric])
  have R: "m_rows R = nc" "m_cols R = nc" "mat_wf R" "\<And>i j. i < nc \<Longrightarrow> j < nc \<Longrightarrow> m_at R i j = (if i \<le> j then m_at (qr_R fz W) i j else 0)"
    by (simp_all add: W_Q_R_def(3) upper_part_def)
  have diag: "weakEpsilon \<le> \<bar>m_at R i i\<bar>" if "i < nc" for i using rank[OF that] that R(4)[of i i] by (simp add: W_Q_R_def(1))
  have eps: "0 < weakEpsilon" by (simp add: weakEpsilon_def)
  have min: "setTriangularMinimumEigenvalues weakEpsilon R = Inr R"
    using R diag eps by (intro setTriangularMinimumEigenvalues_id) simp_all
  have X: "m_rows X = nc" "m_cols X = nc" "mm X R = identity nc" "mm R X = identity nc"
  proof -
    have "m_at R i i \<noteq> 0" if "i < nc" for i using diag[OF that] eps by auto
    then show "m_rows X = nc" "m_cols X = nc" "mm X R = identity nc" "mm R X = identity nc"
      using solve[of R] R by (simp_all add: solve_upper_ok_def X_Qc_Qu_def(1)[symmetric] Let_def)
  qed
  have QQ: "mm (tr Qc) Qc = identity nc" "mm (tr Qc) Qu = zero_mat nc (nu - nc)" "W = mm Qc R"
    by (rule mat_eqI; use Q R W dims in \<open>simp add: X_Qc_Qu_def mm_def identity_def zero_mat_def W_Q_R_def(1)\<close>)+
  have D: "mv Dm (mv U y) = mv (tr R) (mv (tr Qc) y)" for y
  proof -
    have "mv Dm (mv U y) = mv (tr W) y" using dims by (simp add: W_Q_R_def(1) mv_tr_mm)
    then show ?thesis using R(1) by (simp add: QQ(3) mv_tr_mm X_Qc_Qu_def(2))
  qed
  have range: "mv Dm (mv (mm U (mm Qc (tr X))) w) = w" if "length w = nc" for w
  proof -
    have "mv Dm (mv (mm U (mm Qc (tr X))) w) = mv (tr R) (mv (mm (tr Qc) Qc) (mv (tr X) w))"
      using dims X by (simp add: mv_mm D X_Qc_Qu_def(2))
    also have "\<dots> = mv (tr (mm X R)) w" using mv_tr_mm[of X R w] X(1,2) R(1,2) that QQ(1) by simp
    finally show ?thesis using X(3) that by simp
  qed
  have null: "mv Dm (mv (mm U Qu) v) = zero_vec nc" if "length v = nu - nc" for v
  proof -
    have "mv Dm (mv (mm U Qu) v) = mv (tr R) (mv (mm (tr Qc) Qu) v)" using dims by (simp add: mv_mm D X_Qc_Qu_def(2,3))
    then show ?thesis using R(1,2) by (intro nth_equalityI) (simp_all add: QQ(2) mv_zero_mat, simp add: zero_vec_def)
  qed
  have "computeConstraintProjection fz Dm U = Inr (mm U (mm Qc (tr X)), X, mm U Qu)"
    using dims W Q(1-4) R(1,2) X(1,2) min
    by (simp add: computeConstraintProjection_def Let_def mat_checked W_Q_R_def(1)[symmetric] top_rows_def W_Q_R_def(3)[symmetric]
        W_Q_R_def(2)[symmetric] X_Qc_Qu_def(1)[symmetric] left_cols_def right_cols_def X_Qc_Qu_def(2,3))
  moreover have "spans_kernel Dm U Qu nu (nu - nc)"
  proof -
    have "mm (tr Qu) Qu = identity (nu - nc)"
      by (rule mat_eqI; use Q dims in \<open>simp add: X_Qc_Qu_def mm_def identity_def\<close>)
    moreover have "mv Qu (mv (tr Qu) y) = y" if y: "length y = nu" and D0: "mv Dm (mv U y) = zero_vec nc" for y
    proof -
      have "mv (tr X) (mv (tr R) (mv (tr Qc) y)) = mv (tr (mm R X)) (mv (tr Qc) y)" using X(1,2) R(1,2) by (simp add: mv_tr_mm)
      then have "mv (tr Qc) y = mv (tr X) (zero_vec nc)" using D0 X(4) by (simp add: D X_Qc_Qu_def(2))
      then have c: "mv (tr Qc) y = zero_vec nc" using X(1,2) by (intro nth_equalityI) (simp_all add: zero_vec_def del: mv_nth, simp)
      have "mv Qu (mv (tr Qu) y) = vadd (mv Qc (mv (tr Qc) y)) (mv Qu (mv (tr Qu) y))"
        unfolding c by (intro nth_equalityI) (simp_all add: X_Qc_Qu_def(2,3) zero_vec_def)
      also have "\<dots> = mv (madd (mm Qc (tr Qc)) (mm Qu (tr Qu))) y"
        by (simp add: mv_madd mv_mm X_Qc_Qu_def(2,3))
      also have "madd (mm Qc (tr Qc)) (mm Qu (tr Qu)) = identity nu"
      proof (rule mat_eqI)
        fix i j assume "i < m_rows (madd (mm Qc (tr Qc)) (mm Qu (tr Qu)))" "j < m_cols (madd (mm Qc (tr Qc)) (mm Qu (tr Qu)))"
        then have ij: "i < nu" "j < nu" by (simp_all add: X_Qc_Qu_def(2))
        have "(\<Sum>k < nu. m_at Q i k * m_at Q j k) = (\<Sum>k < nc. m_at Q i k * m_at Q j k) + (\<Sum>k < nu - nc. m_at Q i (nc + k) * m_at Q j (nc + k))"
          using sum_split[of "\<lambda>k. m_at Q i k * m_at Q j k" nc "nu - nc"] dims(3) by simp
        then show "m_at (madd (mm Qc (tr Qc)) (mm Qu (tr Qu))) i j = m_at (identity nu) i j"
          using ij Q(6)[OF ij] by (simp add: madd_def mm_def identity_def X_Qc_Qu_def(2,3))
      qed (simp_all add: X_Qc_Qu_def(2,3) identity_def)
      finally show ?thesis using y by simp
    qed
    ultimately show ?thesis using dims by (simp add: spans_kernel_def X_Qc_Qu_def(3))
  qed
  ultimately show ?thesis using range null dims by (fastforce simp: projectors_ok_def X_Qc_Qu_def(2,3) X)
qed

text \<open>A model with one state and one input.\<close>

definition scalar_model :: "scalar \<Rightarrow> model_data" where
  "scalar_model q = new_ModelData\<lparr>md_stateDim := 1, md_inputDim := 1,
     md_dynamics := \<lparr>vl_dfdx = Mat 1 1 [[1]], vl_dfdu = Mat 1 1 [[1]], vl_f = [0]\<rparr>,
     md_cost := \<lparr>dfdxx = Mat 1 1 [[q]], dfdux = Mat 1 1 [[0]], dfduu = Mat 1 1 [[1]], dfdx = [0], dfdu = [0], appr_f = 0\<rparr>\<rparr>"

text \<open>One constraint on two inputs: the factors of \<open>[2, 0]\<close>.\<close>

definition example_factorizations :: factorizations where
  "example_factorizations = \<lparr>llt_matrixU = id, qr_Q = (\<lambda>W. identity 2), qr_R = (\<lambda>W. Mat 2 1 [[2], [0]]),
     solve_upper = (\<lambda>T B. mk_mat (m_rows T) (m_rows T) (\<lambda>i j. m_at B i j / m_at T 0 0))\<rparr>"

end
