(* ===== verification/Line_Search.thy ===== *)
theory Line_Search
  imports Search_Strategy Linear_Algebra
begin

text \<open>
  \<open>mpc/ocs2_ddp/src/search_strategy/LineSearchStrategy.cpp\<close>: Armijo backtracking over the step lengths
  \<open>maxStepLength * contractionRate ^ e\<close>, tried by several tasks at once. A task is a program counter; the
  shared members (the next exponent, the best step, the best solution, the processed flags) form the state, and
  every atomic operation or locked region of \<open>lineSearchTask\<close> is one step of a task.
\<close>

section \<open>Settings and construction\<close>

record line_search_settings =
  minStepLength :: scalar
  maxStepLength :: scalar
  contractionRate :: scalar
  armijoCoefficient :: scalar
  hessianCorrectionStrategy :: hessian_strategy
  hessianCorrectionMultiple :: scalar

definition default_line_search_settings :: line_search_settings where
  "default_line_search_settings =
     \<lparr>minStepLength = 5 / 100, maxStepLength = 1, contractionRate = 1 / 2, armijoCoefficient = 1 / 10 ^ 4,
      hessianCorrectionStrategy = DIAGONAL_SHIFT, hessianCorrectionMultiple = limitEpsilon\<rparr>"

text \<open>The check of the constructor; every worker solution gets an empty linear controller.\<close>

definition LineSearchStrategy :: "line_search_settings \<Rightarrow> nat \<Rightarrow> search_solution \<Rightarrow> search_solution list result" where
  "LineSearchStrategy cfg numThreads blank =
     (if \<not> almost_ge (maxStepLength cfg) (minStepLength cfg) double_epsilon then
        Inl (Runtime_Error ''The maximum learning rate is smaller than the minimum learning rate.'')
      else Inr (replicate (numThreads + 1)
             (blank\<lparr>sol_primalSolution := (sol_primalSolution blank)\<lparr>ps_controllerPtr := Some (Linear (LinearController [] [] []))\<rparr>\<rparr>)))"

text \<open>A quotient by \<open>log 1 = 0\<close> or a logarithm of a number that is not positive has no conversion to \<open>size_t\<close>.\<close>

definition maxNumOfSearches :: "line_search_settings \<Rightarrow> nat result" where
  "maxNumOfSearches cfg =
     (if almost_eq (minStepLength cfg) (maxStepLength cfg) then Inr 1
      else if maxStepLength cfg < minStepLength cfg then Inr 0
      else let ratio = minStepLength cfg / maxStepLength cfg
           in if ratio + limitEpsilon \<le> 0 \<or> contractionRate cfg \<le> 0 \<or> contractionRate cfg = 1 then Inl Undefined
              else size_of_scalar (ln (ratio + limitEpsilon) / ln (contractionRate cfg) + 1))"

section \<open>One task\<close>

definition step_length :: "line_search_settings \<Rightarrow> nat \<Rightarrow> scalar" where
  "step_length cfg e = maxStepLength cfg * contractionRate cfg ^ e"

text \<open>
  The members that the tasks only read. \<open>ls_evaluate i a s\<close> is \<open>computeSolution\<close> of task \<open>i\<close> at step length \<open>a\<close>,
  with the rollout and the problem of that task; \<open>ls_abandoned\<close> is what an exception leaves of a solution.
\<close>

record line_search_env =
  ls_settings :: line_search_settings
  ls_evaluate :: "nat \<Rightarrow> scalar \<Rightarrow> search_solution \<Rightarrow> search_solution result"
  ls_abandoned :: "search_solution \<Rightarrow> search_solution"
  baselineMerit :: scalar
  unoptimizedControllerUpdateIS :: scalar

datatype ls_pc = Fetch | Check nat | Compute nat | Commit nat | Abort | Done

record line_search_state =
  bestStepSize :: scalar
  bestSolution :: search_solution
  alphaExpNext :: nat
  alphaProcessed :: "bool list"
  workersSolution :: "search_solution list"
  rolloutsAborted :: bool
  ls_pcs :: "ls_pc list"

definition armijoCondition :: "line_search_env \<Rightarrow> nat \<Rightarrow> search_solution \<Rightarrow> bool" where
  "armijoCondition env e sol =
     (pi_merit (sol_performanceIndex sol) <
        baselineMerit env - armijoCoefficient (ls_settings env) * step_length (ls_settings env) e * unoptimizedControllerUpdateIS env)"

text \<open>An exception, thrown by the evaluation or by a rollout that another task aborted, leaves the largest merit.\<close>

definition evaluated :: "line_search_env \<Rightarrow> bool \<Rightarrow> nat \<Rightarrow> nat \<Rightarrow> search_solution \<Rightarrow> search_solution result" where
  "evaluated env interrupted i e sol =
     (if interrupted then Inr (failed_solution (ls_abandoned env sol))
      else case ls_evaluate env i (step_length (ls_settings env) e) sol of
             Inr r \<Rightarrow> Inr r
           | Inl (Runtime_Error _) \<Rightarrow> Inr (failed_solution (ls_abandoned env sol))
           | Inl err \<Rightarrow> Inl err)"

text \<open>The locked region.\<close>

definition commit_result :: "line_search_env \<Rightarrow> nat \<Rightarrow> nat \<Rightarrow> line_search_state \<Rightarrow> (bool \<times> line_search_state) result" where
  "commit_result env i e s =
     bind_result (vec_at (workersSolution s) i) (\<lambda>sol.
     let a = step_length (ls_settings env) e in
     bind_result (if armijoCondition env e sol \<and> bestStepSize s < a then
                    bind_result (vec_range (alphaProcessed s) 0 e) (\<lambda>flags.
                      case swap_SolutionRef (bestSolution s) sol of (best, worker) \<Rightarrow>
                      Inr (list_all id flags, s\<lparr>bestStepSize := a, bestSolution := best, workersSolution := (workersSolution s)[i := worker]\<rparr>))
                  else Inr (False, s)) (\<lambda>(terminate, s).
     bind_result (vec_set (alphaProcessed s) e True) (\<lambda>flags.
     Inr (terminate, s\<lparr>alphaProcessed := flags\<rparr>))))"

definition set_pc :: "nat \<Rightarrow> ls_pc \<Rightarrow> line_search_state \<Rightarrow> line_search_state" where
  "set_pc i pc s = s\<lparr>ls_pcs := (ls_pcs s)[i := pc]\<rparr>"

fun task_step :: "line_search_env \<Rightarrow> bool \<Rightarrow> nat \<Rightarrow> ls_pc \<Rightarrow> line_search_state \<Rightarrow> line_search_state result" where
  "task_step env interrupted i Fetch s = Inr (set_pc i (Check (alphaExpNext s)) (s\<lparr>alphaExpNext := alphaExpNext s + 1\<rparr>))"
| "task_step env interrupted i (Check e) s =
     Inr (set_pc i (if \<not> almost_ge (step_length (ls_settings env) e) (minStepLength (ls_settings env)) double_epsilon then Done
                    else if step_length (ls_settings env) e < bestStepSize s then Done
                    else Compute e) s)"
| "task_step env interrupted i (Compute e) s =
     bind_result (vec_at (workersSolution s) i) (\<lambda>sol.
     bind_result (evaluated env interrupted i e sol) (\<lambda>sol.
     Inr (set_pc i (Commit e) (s\<lparr>workersSolution := (workersSolution s)[i := sol]\<rparr>))))"
| "task_step env interrupted i (Commit e) s =
     bind_result (commit_result env i e s) (\<lambda>(terminate, s). Inr (set_pc i (if terminate then Abort else Fetch) s))"
| "task_step env interrupted i Abort s = Inr (set_pc i Done (s\<lparr>rolloutsAborted := True\<rparr>))"
| "task_step env interrupted i Done s = Inr s"

text \<open>Any task that has not finished may move; a rollout is interrupted only after some task aborted the rollouts.\<close>

inductive ls_step :: "line_search_env \<Rightarrow> line_search_state \<Rightarrow> line_search_state \<Rightarrow> bool" for env where
  move: "i < length (ls_pcs s) \<Longrightarrow> ls_pcs s ! i \<noteq> Done \<Longrightarrow> (interrupted \<longrightarrow> rolloutsAborted s) \<Longrightarrow>
         task_step env interrupted i (ls_pcs s ! i) s = Inr s' \<Longrightarrow> ls_step env s s'"

section \<open>The search\<close>

text \<open>
  The first part of \<open>run\<close>: the rollout with step length zero gives the baseline. A pool of no thread
  still runs one task, in the calling thread.
\<close>

definition evaluate_task ::
  "rollout_fun list \<Rightarrow> optimal_control_problem list \<Rightarrow> (performance_index \<Rightarrow> scalar) \<Rightarrow> search_input \<Rightarrow> nat \<Rightarrow> scalar \<Rightarrow>
   search_solution \<Rightarrow> search_solution result" where
  "evaluate_task rolloutStock problemStock meritFunc inp taskId a sol =
     bind_result (vec_at problemStock taskId) (\<lambda>problem.
     bind_result (vec_at rolloutStock taskId) (\<lambda>rollout. computeSolution rollout problem meritFunc inp a sol))"

definition lineSearch_start ::
  "line_search_settings \<Rightarrow> (nat \<Rightarrow> scalar \<Rightarrow> search_solution \<Rightarrow> search_solution result) \<Rightarrow> (search_solution \<Rightarrow> search_solution) \<Rightarrow>
   nat \<Rightarrow> linear_controller \<Rightarrow> search_solution list \<Rightarrow> search_solution \<Rightarrow> (line_search_env \<times> line_search_state) result" where
  "lineSearch_start cfg evaluate abandoned numThreads unoptimizedController workers solution =
     bind_result (vec_at workers 0) (\<lambda>w.
     case bind_result (evaluate 0 0 w) (\<lambda>r.
          bind_result (computeControllerUpdateIS unoptimizedController) (\<lambda>updateIS. Inr (r, updateIS))) of
       Inl (Runtime_Error _) \<Rightarrow> Inl (Runtime_Error ''[SearchStrategy::run] DDP controller does not generate a stable rollout!'')
     | Inl err \<Rightarrow> Inl err
     | Inr (r, updateIS) \<Rightarrow>
         (case swap_SolutionRef solution r of (best, worker) \<Rightarrow>
          bind_result (maxNumOfSearches cfg) (\<lambda>n.
          Inr (\<lparr>ls_settings = cfg, ls_evaluate = evaluate, ls_abandoned = abandoned, baselineMerit = pi_merit (sol_performanceIndex r),
                unoptimizedControllerUpdateIS = updateIS\<rparr>,
               \<lparr>bestStepSize = 0, bestSolution = best, alphaExpNext = 0, alphaProcessed = replicate n False,
                workersSolution = workers[0 := worker], rolloutsAborted = False, ls_pcs = replicate (max 1 numThreads) Fetch\<rparr>))))"

text \<open>All tasks have finished.\<close>

definition ls_finished :: "line_search_state \<Rightarrow> bool" where
  "ls_finished s = (\<forall>pc \<in> set (ls_pcs s). pc = Done)"

section \<open>Convergence and Riccati modification\<close>

definition ls_checkConvergence :: "search_settings \<Rightarrow> performance_index \<Rightarrow> performance_index \<Rightarrow> bool" where
  "ls_checkConvergence base previous current =
     (\<bar>total_cost current - total_cost previous\<bar> \<le> minRelCost base \<and> pi_equalityConstraintsSSE current \<le> constraintTolerance base)"

text \<open>The correction of the Riccati recursion: the shift of \<open>Q - P' P\<close>, \<open>deltaGv\<close> and \<open>deltaGm\<close>.\<close>

definition ls_computeRiccatiModification ::
  "eigen_solver \<Rightarrow> incomplete_cholesky \<Rightarrow> line_search_settings \<Rightarrow> model_data \<Rightarrow> (dmatrix \<times> vector_t \<times> dmatrix) result" where
  "ls_computeRiccatiModification es ic cfg md =
     (let P = dfdux (md_cost md); nu = m_cols (vl_dfdu (md_dynamics md)) in
      bind_result (mat_mult (tr P) P) (\<lambda>PP.
      bind_result (mat_add (dfdxx (md_cost md)) (mneg PP)) (\<lambda>M.
      bind_result (shiftHessian es ic (hessianCorrectionStrategy cfg) M (hessianCorrectionMultiple cfg)) (\<lambda>S.
      bind_result (mat_add S (mneg M)) (\<lambda>deltaQm.
      Inr (deltaQm, zero_vec nu, zero_mat nu (nat (md_stateDim md))))))))"

section \<open>The reference: backtracking by one task\<close>

definition admitted :: "line_search_settings \<Rightarrow> nat \<Rightarrow> bool" where
  "admitted cfg e = almost_ge (step_length cfg e) (minStepLength cfg) double_epsilon"

fun backtrack :: "line_search_env \<Rightarrow> (nat \<Rightarrow> search_solution result) \<Rightarrow> nat list \<Rightarrow> scalar \<times> search_solution \<Rightarrow> scalar \<times> search_solution" where
  "backtrack env outcome [] baseline = baseline"
| "backtrack env outcome (e # es) baseline =
     (case outcome e of
        Inr r \<Rightarrow> (if armijoCondition env e r then (step_length (ls_settings env) e, r) else backtrack env outcome es baseline)
      | Inl _ \<Rightarrow> backtrack env outcome es baseline)"

section \<open>Step lengths\<close>

text \<open>The smallest step length has to be a normal number, or every step length is almost equal to it.\<close>

definition settings_ok :: "line_search_settings \<Rightarrow> bool" where
  "settings_ok cfg = (0 < contractionRate cfg \<and> contractionRate cfg < 1 \<and> 2 * double_min \<le> minStepLength cfg \<and> minStepLength cfg \<le> maxStepLength cfg)"

lemma step_length_pos:
  assumes "settings_ok cfg"
  shows "0 < step_length cfg e"
proof -
  have "0 < maxStepLength cfg" using assms double_min_pos by (simp add: settings_ok_def)
  then show ?thesis using assms by (simp add: settings_ok_def step_length_def)
qed

lemma step_length_less:
  assumes "settings_ok cfg"
  shows "(step_length cfg a < step_length cfg b) = (b < a)"
proof -
  have "0 < maxStepLength cfg" using assms double_min_pos by (simp add: settings_ok_def)
  then show ?thesis using assms by (simp add: settings_ok_def step_length_def power_strict_decreasing_iff)
qed

lemma step_length_le: "settings_ok cfg \<Longrightarrow> (step_length cfg a \<le> step_length cfg b) = (b \<le> a)"
  using step_length_less[of cfg b a] by (simp add: linorder_not_less[symmetric])

lemma admitted_down:
  assumes "settings_ok cfg" "admitted cfg e" "d < e"
  shows "admitted cfg d"
proof -
  have lt: "step_length cfg e < step_length cfg d" using assms(1,3) by (simp add: step_length_less)
  show ?thesis
  proof (cases "minStepLength cfg < step_length cfg d")
    case True
    then show ?thesis by (simp add: admitted_def almost_ge_def)
  next
    case False
    then have "almost_eq_prec (step_length cfg e) (minStepLength cfg) double_epsilon"
      using assms(2) lt by (simp add: admitted_def almost_ge_def)
    moreover have "0 < step_length cfg e" "0 < step_length cfg d" using assms(1) by (auto intro: step_length_pos)
    moreover have "double_epsilon * step_length cfg e \<le> double_epsilon * step_length cfg d"
      using lt by (simp add: double_epsilon_def)
    ultimately show ?thesis using lt False
      by (auto simp: admitted_def almost_ge_def almost_eq_prec_def Let_def min_def split: if_splits)
  qed
qed

lemma admitted_count:
  assumes "settings_ok cfg"
  shows "\<exists>n. \<forall>e. admitted cfg e = (e < n)"
proof -
  have m: "0 < minStepLength cfg" "0 < maxStepLength cfg" using assms double_min_pos by (auto simp: settings_ok_def)
  have c: "0 < contractionRate cfg" "contractionRate cfg < 1" using assms by (auto simp: settings_ok_def)
  obtain e where "contractionRate cfg ^ e < minStepLength cfg / 4 / maxStepLength cfg"
    using real_arch_pow_inv[of "minStepLength cfg / 4 / maxStepLength cfg"] c m by auto
  then have small: "step_length cfg e < minStepLength cfg / 4" using m by (simp add: step_length_def field_simps)
  moreover have pos: "0 < step_length cfg e" by (rule step_length_pos[OF assms])
  moreover have "double_epsilon * min \<bar>step_length cfg e\<bar> \<bar>minStepLength cfg\<bar> \<le> 1 * (minStepLength cfg / 4)"
    using small pos m by (intro mult_mono) (auto simp: double_epsilon_def)
  moreover have "2 * double_min \<le> minStepLength cfg" using assms by (simp add: settings_ok_def)
  ultimately have no: "\<not> admitted cfg e" using m
    unfolding admitted_def almost_ge_def almost_eq_prec_def Let_def by linarith
  define n where "n = (LEAST e. \<not> admitted cfg e)"
  have "\<not> admitted cfg n" unfolding n_def using no by (rule LeastI)
  moreover have "admitted cfg d" if "d < n" for d using that not_less_Least[of d "\<lambda>e. \<not> admitted cfg e"] by (simp add: n_def)
  ultimately have "admitted cfg d = (d < n)" for d
    using admitted_down[OF assms, of d n] by (metis linorder_neqE_nat)
  then show ?thesis by blast
qed

section \<open>The Riccati modification\<close>

text \<open>
  C23. \<open>computeRiccatiModification\<close> of the line search, with an incomplete Cholesky factor of the matrix's size and, for the
  eigenvalue strategy, a spectral decomposition: it succeeds, leaves the feedforward and feedback terms alone, and makes the
  quadratic form \<open>Q + deltaQm - P' P\<close>, which the Riccati recursion propagates, at least \<open>hessianCorrectionMultiple\<close> times
  the squared norm, with the Cholesky, eigenvalue and Gershgorin strategies. \<open>DIAGONAL_SHIFT\<close> adds the multiple to the form
  as it was and nothing more: the negative directions of an indefinite matrix stay.
\<close>

theorem riccati_modification_convexifies:
  assumes q: "quadratic_dims nx nu (md_cost md)" and nx: "md_stateDim md = int nx"
    and ic: "\<And>B. m_rows B = nx \<Longrightarrow> m_cols B = nx \<Longrightarrow> cholesky_ok ic B"
    and es: "\<And>M. hessianCorrectionStrategy cfg = EIGENVALUE_MODIFICATION \<Longrightarrow>
      M = madd (dfdxx (md_cost md)) (mneg (mm (tr (dfdux (md_cost md))) (dfdux (md_cost md)))) \<Longrightarrow> symmetric M \<and> eigen_ok es M"
  shows "\<exists>deltaQm. ls_computeRiccatiModification es ic cfg md =
      Inr (deltaQm, zero_vec (m_cols (vl_dfdu (md_dynamics md))), zero_mat (m_cols (vl_dfdu (md_dynamics md))) nx) \<and>
    (\<forall>x. length x = nx \<longrightarrow>
       (let corrected = form (dfdxx (md_cost md)) x + form deltaQm x - dot (mv (dfdux (md_cost md)) x) (mv (dfdux (md_cost md)) x) in
        (hessianCorrectionStrategy cfg \<noteq> DIAGONAL_SHIFT \<longrightarrow> hessianCorrectionMultiple cfg * dot x x \<le> corrected) \<and>
        (hessianCorrectionStrategy cfg = DIAGONAL_SHIFT \<longrightarrow>
           form deltaQm x = hessianCorrectionMultiple cfg * dot x x)))"
proof -
  let ?c = "hessianCorrectionMultiple cfg" and ?strategy = "hessianCorrectionStrategy cfg"
  define P Q M where "P = dfdux (md_cost md)" "Q = dfdxx (md_cost md)" "M = madd Q (mneg (mm (tr P) P))"
  note defs = P_Q_M_def
  have dims: "m_rows Q = nx" "m_cols Q = nx" "m_rows P = nu" "m_cols P = nx" using q by (simp_all add: quadratic_dims_def defs)
  then have M: "m_rows M = nx" "m_cols M = nx" by (simp_all add: defs(3))
  from shiftHessian_correct[of M ic ?strategy es ?c] M ic es[of M] obtain S where S: "shiftHessian es ic ?strategy M ?c = Inr S"
      "m_rows S = nx" "m_cols S = nx" "?strategy \<noteq> DIAGONAL_SHIFT \<longrightarrow> bounded_below ?c S"
      "?strategy = DIAGONAL_SHIFT \<longrightarrow> (\<forall>x. length x = nx \<longrightarrow> form S x = form M x + ?c * dot x x)"
    by (auto simp: defs)
  have form: "form (madd S (mneg M)) x = form S x - form M x" "form M x = form Q x - dot (mv P x) (mv P x)" if "length x = nx" for x
    using that S(2,3) dims M by (simp_all add: form_madd form_mneg form_gram defs(3))
  have "ls_computeRiccatiModification es ic cfg md =
      Inr (madd S (mneg M), zero_vec (m_cols (vl_dfdu (md_dynamics md))), zero_mat (m_cols (vl_dfdu (md_dynamics md))) nx)"
    using dims S(1-3) M nx by (simp add: ls_computeRiccatiModification_def Let_def defs(1,2)[symmetric] mat_checked defs(3)[symmetric])
  then show ?thesis
    unfolding defs(1,2)[symmetric] using form S(2,4,5) by (auto simp: bounded_below_def Let_def)
qed

text \<open>A concave cost: the Gershgorin strategy makes its Hessian positive.\<close>

lemma riccati_modification_witness:
  "\<exists>deltaQm. ls_computeRiccatiModification \<lparr>es_eigenvalues = \<lambda>A. [], es_eigenvectors = \<lambda>A. A, es_inverse = \<lambda>A. A\<rparr>
       (\<lambda>B. (replicate (m_rows B) 1, mk_mat (m_rows B) (m_rows B) (m_at B), id))
       (default_line_search_settings\<lparr>hessianCorrectionStrategy := GERSHGORIN_MODIFICATION, hessianCorrectionMultiple := 2\<rparr>) (scalar_model (-3)) =
       Inr (deltaQm, zero_vec 1, zero_mat 1 1) \<and> 2 \<le> - 3 + form deltaQm [1]"
proof -
  let ?es = "\<lparr>es_eigenvalues = \<lambda>A. [], es_eigenvectors = \<lambda>A. A, es_inverse = \<lambda>A. A\<rparr>"
  let ?ic = "\<lambda>B. (replicate (m_rows B) 1, mk_mat (m_rows B) (m_rows B) (m_at B), id)"
  let ?cfg = "default_line_search_settings\<lparr>hessianCorrectionStrategy := GERSHGORIN_MODIFICATION, hessianCorrectionMultiple := 2\<rparr>"
  have "quadratic_dims 1 1 (md_cost (scalar_model (-3)))" "md_stateDim (scalar_model (-3)) = int 1"
    by (simp_all add: scalar_model_def quadratic_dims_def)
  from riccati_modification_convexifies[OF this, of ?ic ?cfg ?es]
  obtain d where d: "ls_computeRiccatiModification ?es ?ic ?cfg (scalar_model (-3)) = Inr (d, zero_vec 1, zero_mat 1 1)"
    and f: "\<forall>x. length x = 1 \<longrightarrow> 2 * dot x x \<le> form (Mat 1 1 [[-3]]) x + form d x - dot (mv (Mat 1 1 [[0]]) x) (mv (Mat 1 1 [[0]]) x)"
    by (auto simp: cholesky_ok_def scalar_model_def)
  have "form (Mat 1 1 [[-3]]) [1] = - 3" "dot [1] [1] = (1 :: real)" "mv (Mat 1 1 [[0]]) [1] = [0]" "dot [0] [0] = (0 :: real)"
    by (simp_all add: form_def mv_def dot_def m_at_def)
  with f[rule_format, of "[1]"] have "2 \<le> - 3 + form d [1]" by simp
  with d show ?thesis by blast
qed

end
