(* ===== verification/Line_Search_Correct.thy ===== *)
theory Line_Search_Correct
  imports Line_Search
begin

text \<open>
  The parallel line search of \<open>Line_Search\<close> is one-core backtracking: whatever the interleaving of its tasks, it
  ends, and then the best step length is the largest admitted one whose merit satisfies the Armijo condition,
  with the solution evaluated there. The invariant counts who holds which exponent, as a ticket lock does.
\<close>

section \<open>The evaluation as an interface\<close>

text \<open>
  What the search needs of the evaluation of a step length: it does not depend on the leftovers in the solution
  object, and it leaves an object that can be evaluated into again.
\<close>

locale step_evaluator =
  fixes evaluate :: "scalar \<Rightarrow> search_solution \<Rightarrow> search_solution result"
    and ok :: "search_solution \<Rightarrow> bool"
  assumes same: "ok s \<Longrightarrow> ok s' \<Longrightarrow> evaluate a s = evaluate a s'"
    and result_ok: "evaluate a s = Inr r \<Longrightarrow> ok r"
begin

lemma again: "ok s \<Longrightarrow> evaluate a s = Inr r \<Longrightarrow> evaluate b r = evaluate b s"
  using result_ok same by blast

end

interpretation computed: step_evaluator "computeSolution rollout problem meritFunc inp" usable for rollout problem meritFunc inp
  by unfold_locales (auto intro: computeSolution_const computeSolution_usable)

lemma evaluate_task_clones:
  assumes "i < k" "usable s" "usable s'"
  shows "evaluate_task (replicate k rollout) (replicate k problem) f inp i a s = computeSolution rollout problem f inp a s'"
  using assms computed.same[OF assms(2,3)] by (simp add: evaluate_task_def)

section \<open>The invariant\<close>

text \<open>
  The members that the tasks read, for \<open>T\<close> tasks and \<open>n\<close> admitted exponents: \<open>outcome e\<close> is what every task
  computes at exponent \<open>e\<close>.
\<close>

definition env_ok :: "line_search_env \<Rightarrow> (nat \<Rightarrow> search_solution result) \<Rightarrow> nat \<Rightarrow> nat \<Rightarrow> bool" where
  "env_ok env outcome T n =
     (settings_ok (ls_settings env) \<and> (\<forall>e. admitted (ls_settings env) e = (e < n)) \<and>
      (\<forall>i < T. \<forall>e < n. \<forall>s. usable s \<longrightarrow> ls_evaluate env i (step_length (ls_settings env) e) s = outcome e) \<and>
      (\<forall>e < n. \<forall>r. outcome e = Inr r \<longrightarrow> usable r) \<and>
      (\<forall>s. usable s \<longrightarrow> usable (ls_abandoned env s)) \<and>
      (\<forall>e < n. \<forall>err. outcome e = Inl err \<longrightarrow> (\<exists>m. err = Runtime_Error m)) \<and>
      (\<forall>e < n. baselineMerit env - armijoCoefficient (ls_settings env) * step_length (ls_settings env) e * unoptimizedControllerUpdateIS env \<le> double_max))"

definition accepted :: "line_search_env \<Rightarrow> (nat \<Rightarrow> search_solution result) \<Rightarrow> nat \<Rightarrow> bool" where
  "accepted env outcome e = (\<exists>r. outcome e = Inr r \<and> armijoCondition env e r)"

fun holds :: "ls_pc \<Rightarrow> nat \<Rightarrow> bool" where
  "holds (Check d) e = (d = e)"
| "holds (Compute d) e = (d = e)"
| "holds (Commit d) e = (d = e)"
| "holds pc e = False"

definition processed :: "line_search_state \<Rightarrow> nat \<Rightarrow> bool" where
  "processed s e = (e < length (alphaProcessed s) \<and> alphaProcessed s ! e)"

abbreviation slen :: "line_search_env \<Rightarrow> nat \<Rightarrow> scalar" where
  "slen env e \<equiv> step_length (ls_settings env) e"

text \<open>The sizes; the tickets; the best step; the task that is about to commit; the end.\<close>

definition sizes_inv :: "nat \<Rightarrow> nat \<Rightarrow> line_search_state \<Rightarrow> bool" where
  "sizes_inv T n s =
     (length (ls_pcs s) = T \<and> T \<le> length (workersSolution s) \<and> n \<le> length (alphaProcessed s) \<and>
      (\<forall>i < length (workersSolution s). usable (workersSolution s ! i)) \<and> usable (bestSolution s))"

definition tickets_inv :: "line_search_env \<Rightarrow> nat \<Rightarrow> nat \<Rightarrow> line_search_state \<Rightarrow> bool" where
  "tickets_inv env T n s =
     ((\<forall>i < T. \<forall>e. holds (ls_pcs s ! i) e \<longrightarrow> e < alphaExpNext s \<and> \<not> processed s e) \<and>
      (\<forall>i < T. \<forall>j < T. \<forall>e. i \<noteq> j \<longrightarrow> holds (ls_pcs s ! i) e \<longrightarrow> \<not> holds (ls_pcs s ! j) e) \<and>
      (\<forall>e < n. e < alphaExpNext s \<longrightarrow> processed s e \<or> (\<exists>i < T. holds (ls_pcs s ! i) e) \<or> slen env e < bestStepSize s) \<and>
      (\<forall>i < T. \<forall>e. ls_pcs s ! i = Compute e \<or> ls_pcs s ! i = Commit e \<longrightarrow> e < n))"

definition best_inv :: "line_search_env \<Rightarrow> (nat \<Rightarrow> search_solution result) \<Rightarrow> nat \<Rightarrow> search_solution \<Rightarrow> line_search_state \<Rightarrow> bool" where
  "best_inv env outcome n baseline s =
     ((\<forall>e. processed s e \<longrightarrow> e < n \<and> e < alphaExpNext s \<and> (accepted env outcome e \<longrightarrow> slen env e \<le> bestStepSize s)) \<and>
      (bestStepSize s = 0 \<and> bestSolution s = baseline \<or>
       (\<exists>e. processed s e \<and> accepted env outcome e \<and> bestStepSize s = slen env e \<and> outcome e = Inr (bestSolution s))))"

definition commit_inv :: "line_search_env \<Rightarrow> (nat \<Rightarrow> search_solution result) \<Rightarrow> nat \<Rightarrow> line_search_state \<Rightarrow> bool" where
  "commit_inv env outcome T s =
     (\<forall>i < T. \<forall>e. ls_pcs s ! i = Commit e \<longrightarrow>
        outcome e = Inr (workersSolution s ! i) \<or>
        \<not> armijoCondition env e (workersSolution s ! i) \<and> (accepted env outcome e \<longrightarrow> slen env e < bestStepSize s))"

definition end_inv :: "line_search_env \<Rightarrow> nat \<Rightarrow> nat \<Rightarrow> line_search_state \<Rightarrow> bool" where
  "end_inv env T n s =
     ((rolloutsAborted s \<or> (\<exists>i < T. ls_pcs s ! i = Abort) \<longrightarrow> (\<exists>e. bestStepSize s = slen env e \<and> (\<forall>d < e. processed s d))) \<and>
      (\<forall>i < T. ls_pcs s ! i = Done \<longrightarrow> n \<le> alphaExpNext s \<or> 0 < bestStepSize s))"

definition ls_inv :: "line_search_env \<Rightarrow> (nat \<Rightarrow> search_solution result) \<Rightarrow> nat \<Rightarrow> nat \<Rightarrow> search_solution \<Rightarrow> line_search_state \<Rightarrow> bool" where
  "ls_inv env outcome T n baseline s =
     (sizes_inv T n s \<and> tickets_inv env T n s \<and> best_inv env outcome n baseline s \<and> commit_inv env outcome T s \<and> end_inv env T n s)"

lemmas ls_inv_defs = ls_inv_def sizes_inv_def tickets_inv_def best_inv_def commit_inv_def end_inv_def

lemma best_nonneg:
  assumes "env_ok env outcome T n" "best_inv env outcome n baseline s"
  shows "0 \<le> bestStepSize s"
  using assms step_length_pos[of "ls_settings env"] by (auto simp: env_ok_def best_inv_def intro: less_imp_le)

lemma best_cases:
  assumes "best_inv env outcome n baseline s"
  shows "bestStepSize s = 0 \<or> (\<exists>e. processed s e \<and> bestStepSize s = slen env e)"
  using assms unfolding best_inv_def by blast

lemma slen_inj: "env_ok env outcome T n \<Longrightarrow> slen env a = slen env b \<Longrightarrow> a = b"
  using step_length_less[of "ls_settings env" a b] step_length_less[of "ls_settings env" b a]
  by (auto simp: env_ok_def dest: linorder_neqE_nat)

lemma slen_pos: "env_ok env outcome T n \<Longrightarrow> 0 < slen env e"
  by (simp add: env_ok_def step_length_pos)

lemma slen_less: "env_ok env outcome T n \<Longrightarrow> (slen env a < slen env b) = (b < a)"
  by (simp add: env_ok_def step_length_less)

section \<open>Every step keeps the invariant\<close>

lemma set_pc_sel [simp]:
  "bestStepSize (set_pc i pc s) = bestStepSize s" "bestSolution (set_pc i pc s) = bestSolution s"
  "alphaExpNext (set_pc i pc s) = alphaExpNext s" "alphaProcessed (set_pc i pc s) = alphaProcessed s"
  "workersSolution (set_pc i pc s) = workersSolution s" "rolloutsAborted (set_pc i pc s) = rolloutsAborted s"
  "ls_pcs (set_pc i pc s) = (ls_pcs s)[i := pc]" "processed (set_pc i pc s) e = processed s e"
  by (simp_all add: set_pc_def processed_def)

lemma processed_upd [simp]:
  "processed (s\<lparr>alphaExpNext := k\<rparr>) e = processed s e" "processed (s\<lparr>workersSolution := w\<rparr>) e = processed s e"
  "processed (s\<lparr>rolloutsAborted := b\<rparr>) e = processed s e"
  by (simp_all add: processed_def)

lemma ticketsI:
  assumes "\<And>i e. i < T \<Longrightarrow> holds (ls_pcs s ! i) e \<Longrightarrow> e < alphaExpNext s"
    and "\<And>i e. i < T \<Longrightarrow> holds (ls_pcs s ! i) e \<Longrightarrow> \<not> processed s e"
    and "\<And>i j e. i < T \<Longrightarrow> j < T \<Longrightarrow> holds (ls_pcs s ! i) e \<Longrightarrow> holds (ls_pcs s ! j) e \<Longrightarrow> i = j"
    and "\<And>e. e < n \<Longrightarrow> e < alphaExpNext s \<Longrightarrow> \<not> processed s e \<Longrightarrow> \<not> slen env e < bestStepSize s \<Longrightarrow> \<exists>i < T. holds (ls_pcs s ! i) e"
    and "\<And>i e. i < T \<Longrightarrow> ls_pcs s ! i = Compute e \<or> ls_pcs s ! i = Commit e \<Longrightarrow> e < n"
  shows "tickets_inv env T n s"
  unfolding tickets_inv_def using assms by blast

lemma ticketsD:
  assumes "tickets_inv env T n s"
  shows "i < T \<Longrightarrow> holds (ls_pcs s ! i) e \<Longrightarrow> e < alphaExpNext s"
    and "i < T \<Longrightarrow> holds (ls_pcs s ! i) e \<Longrightarrow> \<not> processed s e"
    and "i < T \<Longrightarrow> j < T \<Longrightarrow> holds (ls_pcs s ! i) e \<Longrightarrow> holds (ls_pcs s ! j) e \<Longrightarrow> i = j"
    and "e < n \<Longrightarrow> e < alphaExpNext s \<Longrightarrow> \<not> processed s e \<Longrightarrow> \<not> slen env e < bestStepSize s \<Longrightarrow> \<exists>i < T. holds (ls_pcs s ! i) e"
    and "i < T \<Longrightarrow> ls_pcs s ! i = Compute e \<or> ls_pcs s ! i = Commit e \<Longrightarrow> e < n"
  using assms unfolding tickets_inv_def by blast+

text \<open>One task changes its program counter from \<open>pc\<close> to \<open>pc'\<close> and gives its exponent up only when it is accounted for.\<close>

lemma tickets_move:
  assumes I: "tickets_inv env T n s" and i: "i < T" "length (ls_pcs s) = T" and pcs: "ls_pcs s' = (ls_pcs s)[i := pc']"
    and nxt: "alphaExpNext s' = alphaExpNext s" and best: "bestStepSize s \<le> bestStepSize s'"
    and less: "\<And>e. holds pc' e \<Longrightarrow> holds (ls_pcs s ! i) e"
    and given: "\<And>e. holds (ls_pcs s ! i) e \<Longrightarrow> e < n \<Longrightarrow> \<not> holds pc' e \<Longrightarrow> processed s' e \<or> slen env e < bestStepSize s'"
    and kept: "\<And>e. processed s e \<Longrightarrow> processed s' e"
    and marked: "\<And>e. processed s' e \<Longrightarrow> processed s e \<or> holds (ls_pcs s ! i) e \<and> \<not> holds pc' e"
    and bound: "\<And>e. pc' = Compute e \<or> pc' = Commit e \<Longrightarrow> e < n"
  shows "tickets_inv env T n s'"
proof -
  have new: "ls_pcs s' ! j = (if j = i then pc' else ls_pcs s ! j)" if "j < T" for j
    using that i(2) by (simp add: pcs)
  have old: "holds (ls_pcs s ! j) e" if "j < T" "holds (ls_pcs s' ! j) e" for j e
    using that new[OF that(1)] less by (auto split: if_splits)
  show ?thesis
  proof (rule ticketsI)
    fix j e assume j: "j < T" "holds (ls_pcs s' ! j) e"
    show "e < alphaExpNext s'" using ticketsD(1)[OF I j(1) old[OF j]] nxt by simp
    show "\<not> processed s' e"
    proof
      assume "processed s' e"
      with marked ticketsD(2)[OF I j(1) old[OF j]] have h: "holds (ls_pcs s ! i) e" "\<not> holds pc' e" by auto
      with ticketsD(3)[OF I j(1) i(1) old[OF j]] have "j = i" by simp
      with h(2) j new[OF j(1)] show False by simp
    qed
  next
    fix j k e assume "j < T" "k < T" "holds (ls_pcs s' ! j) e" "holds (ls_pcs s' ! k) e"
    then show "j = k" using ticketsD(3)[OF I] old by blast
  next
    fix e assume e: "e < n" "e < alphaExpNext s'" "\<not> processed s' e" "\<not> slen env e < bestStepSize s'"
    have "\<exists>j < T. holds (ls_pcs s ! j) e" using ticketsD(4)[OF I e(1)] e nxt kept best by force
    then obtain j where j: "j < T" "holds (ls_pcs s ! j) e" by blast
    show "\<exists>j < T. holds (ls_pcs s' ! j) e"
    proof (cases "j = i")
      case True
      then have "holds pc' e" using given[of e] e j by blast
      then show ?thesis using i(1) new by auto
    next
      case False
      then show ?thesis using j new by auto
    qed
  next
    fix j e assume "j < T" "ls_pcs s' ! j = Compute e \<or> ls_pcs s' ! j = Commit e"
    then show "e < n" using bound ticketsD(5)[OF I, of j e] new[of j] by (auto split: if_splits)
  qed
qed

lemma inv_fetch:
  assumes I: "ls_inv env outcome T n baseline s" and i: "i < T" "ls_pcs s ! i = Fetch"
  shows "ls_inv env outcome T n baseline (set_pc i (Check (alphaExpNext s)) (s\<lparr>alphaExpNext := alphaExpNext s + 1\<rparr>))"
proof -
  let ?s = "set_pc i (Check (alphaExpNext s)) (s\<lparr>alphaExpNext := alphaExpNext s + 1\<rparr>)" and ?a = "alphaExpNext s"
  have len: "length (ls_pcs s) = T" and tk: "tickets_inv env T n s" and bi: "best_inv env outcome n baseline s"
    using I by (simp_all add: ls_inv_def sizes_inv_def)
  have pr: "processed ?s e = processed s e" for e by (simp add: processed_def)
  have new: "\<not> processed s ?a" "\<And>j. j < T \<Longrightarrow> \<not> holds (ls_pcs s ! j) ?a"
    using bi ticketsD(1)[OF tk] by (auto simp: best_inv_def)
  have pcs: "ls_pcs ?s ! j = (if j = i then Check ?a else ls_pcs s ! j)" if "j < T" for j
    using that len by simp
  have "tickets_inv env T n ?s"
  proof (rule ticketsI)
    fix j e assume j: "j < T" "holds (ls_pcs ?s ! j) e"
    show "e < alphaExpNext ?s" using j pcs[OF j(1)] ticketsD(1)[OF tk j(1), of e] by (auto split: if_splits)
    show "\<not> processed ?s e" using j pcs[OF j(1)] ticketsD(2)[OF tk j(1), of e] new(1) by (auto simp: pr split: if_splits)
  next
    fix j k e assume jk: "j < T" "k < T" "holds (ls_pcs ?s ! j) e" "holds (ls_pcs ?s ! k) e"
    then show "j = k" using pcs[of j] pcs[of k] new(2) ticketsD(3)[OF tk jk(1,2), of e] by (auto split: if_splits)
  next
    fix e assume e: "e < n" "e < alphaExpNext ?s" "\<not> processed ?s e" "\<not> slen env e < bestStepSize ?s"
    show "\<exists>j < T. holds (ls_pcs ?s ! j) e"
    proof (cases "e = ?a")
      case True
      then show ?thesis using i(1) pcs[OF i(1)] by (intro exI[of _ i]) simp
    next
      case False
      then obtain j where j: "j < T" "holds (ls_pcs s ! j) e" using ticketsD(4)[OF tk e(1)] e by (auto simp: pr)
      then have "j \<noteq> i" using i(2) by auto
      then show ?thesis using j pcs[OF j(1)] by (intro exI[of _ j]) simp
    qed
  next
    fix j e assume j: "j < T" "ls_pcs ?s ! j = Compute e \<or> ls_pcs ?s ! j = Commit e"
    then show "e < n" using ticketsD(5)[OF tk j(1), of e] pcs[OF j(1)] by (auto split: if_splits)
  qed
  moreover have "sizes_inv T n ?s" using I by (simp add: ls_inv_def sizes_inv_def)
  moreover have "best_inv env outcome n baseline ?s" using bi unfolding best_inv_def pr by (auto simp: less_Suc_eq)
  moreover have "commit_inv env outcome T ?s" using I pcs by (auto simp: ls_inv_def commit_inv_def)
  moreover have "end_inv env T n ?s" using I pcs unfolding ls_inv_def end_inv_def pr by (fastforce split: if_splits)
  ultimately show ?thesis by (simp add: ls_inv_def)
qed

lemma all_nth_update: "\<forall>i < length ws. P (ws ! i) \<Longrightarrow> P x \<Longrightarrow> \<forall>i < length (ws[k := x]). P (ws[k := x] ! i)"
proof (intro allI impI)
  fix i assume "\<forall>i < length ws. P (ws ! i)" "P x" "i < length (ws[k := x])"
  then show "P (ws[k := x] ! i)" by (cases "k = i") simp_all
qed

lemma nth_pc:
  assumes "length (ls_pcs s) = T" "j < T"
  shows "(ls_pcs s)[i := pc] ! j = (if j = i then pc else ls_pcs s ! j)"
  using assms by (simp add: nth_list_update)

lemma inv_check:
  assumes E: "env_ok env outcome T n" and I: "ls_inv env outcome T n baseline s" and i: "i < T" "ls_pcs s ! i = Check e"
    and pc: "pc = (if \<not> admitted (ls_settings env) e then Done else if slen env e < bestStepSize s then Done else Compute e)"
  shows "ls_inv env outcome T n baseline (set_pc i pc s)"
proof -
  have len: "length (ls_pcs s) = T" and tk: "tickets_inv env T n s" and bi: "best_inv env outcome n baseline s"
    using I by (simp_all add: ls_inv_def sizes_inv_def)
  have adm: "admitted (ls_settings env) e = (e < n)" using E by (simp add: env_ok_def)
  have "tickets_inv env T n (set_pc i pc s)"
    by (rule tickets_move[OF tk i(1) len, where pc' = pc]) (auto simp: pc adm i(2) split: if_splits)
  moreover have "sizes_inv T n (set_pc i pc s)" using I by (simp add: ls_inv_def sizes_inv_def)
  moreover have "best_inv env outcome n baseline (set_pc i pc s)" using bi by (simp add: best_inv_def)
  moreover have "commit_inv env outcome T (set_pc i pc s)"
    using I nth_pc[OF len] by (auto simp: ls_inv_def commit_inv_def pc)
  moreover have "end_inv env T n (set_pc i pc s)"
  proof -
    have "n \<le> alphaExpNext s \<or> 0 < bestStepSize s" if "pc = Done"
      using that ticketsD(1)[OF tk i(1), of e] i(2) adm E step_length_pos[of "ls_settings env" e]
      by (auto simp: pc env_ok_def split: if_splits)
    moreover have "pc \<noteq> Abort" by (simp add: pc)
    ultimately show ?thesis using I nth_pc[OF len] unfolding ls_inv_def end_inv_def by (auto split: if_splits)
  qed
  ultimately show ?thesis by (simp add: ls_inv_def)
qed

lemma inv_compute:
  assumes E: "env_ok env outcome T n" and I: "ls_inv env outcome T n baseline s" and i: "i < T" "ls_pcs s ! i = Compute e"
    and intr: "interrupted \<longrightarrow> rolloutsAborted s" and ev: "evaluated env interrupted i e (workersSolution s ! i) = Inr sol"
  shows "ls_inv env outcome T n baseline (set_pc i (Commit e) (s\<lparr>workersSolution := (workersSolution s)[i := sol]\<rparr>))"
proof -
  let ?s = "set_pc i (Commit e) (s\<lparr>workersSolution := (workersSolution s)[i := sol]\<rparr>)"
  have len: "length (ls_pcs s) = T" and tk: "tickets_inv env T n s" and bi: "best_inv env outcome n baseline s"
    and wl: "i < length (workersSolution s)" using I i(1) by (simp_all add: ls_inv_def sizes_inv_def)
  have en: "e < n" and ep: "\<not> processed s e" using ticketsD(5)[OF tk i(1), of e] ticketsD(2)[OF tk i(1), of e] i(2) by auto
  have us: "usable (workersSolution s ! i)" using I wl by (simp add: ls_inv_def sizes_inv_def)
  have out: "ls_evaluate env i (slen env e) (workersSolution s ! i) = outcome e" using E us i(1) en by (simp add: env_ok_def)
  have failed: "usable (failed_solution (ls_abandoned env (workersSolution s ! i)))" using E us by (simp add: env_ok_def)
  have rejected: "\<not> armijoCondition env e (failed_solution x)" for x
    using E en by (simp add: env_ok_def armijoCondition_def linorder_not_less)
  have usol: "usable sol"
    using ev failed E en out by (auto simp: evaluated_def env_ok_def split: if_splits sum.splits ocs2_error.splits)
  have commit: "outcome e = Inr sol \<or> \<not> armijoCondition env e sol \<and> (accepted env outcome e \<longrightarrow> slen env e < bestStepSize s)"
  proof (cases interrupted)
    case True
    with intr I obtain d where d: "bestStepSize s = slen env d" "\<forall>k < d. processed s k" unfolding ls_inv_def end_inv_def by blast
    have "d \<noteq> e"
    proof
      assume de: "d = e"
      have "bestStepSize s \<noteq> 0" using slen_pos[OF E, of d] d(1) by simp
      with best_cases[OF bi] obtain k where k: "processed s k" "bestStepSize s = slen env k" by blast
      with slen_inj[OF E, of d k] d(1) de have "k = e" by simp
      with k(1) ep show False by simp
    qed
    moreover have "\<not> e < d" using d(2) ep by blast
    ultimately have "slen env e < bestStepSize s" using d(1) slen_less[OF E] by simp
    then show ?thesis using True ev rejected by (auto simp: evaluated_def)
  next
    case False
    show ?thesis
    proof (cases "outcome e")
      case (Inr r)
      then show ?thesis using ev out False by (simp add: evaluated_def)
    next
      case (Inl err)
      then obtain m where "err = Runtime_Error m" using E en unfolding env_ok_def by blast
      then show ?thesis using ev out False Inl rejected by (auto simp: evaluated_def accepted_def)
    qed
  qed
  have pcs: "ls_pcs ?s ! j = (if j = i then Commit e else ls_pcs s ! j)" if "j < T" for j
    using nth_pc[OF len that] by simp
  have "tickets_inv env T n ?s"
    by (rule tickets_move[OF tk i(1) len, where pc' = "Commit e"]) (use i(2) en in \<open>auto simp: processed_def\<close>)
  moreover have "sizes_inv T n ?s"
    using I all_nth_update[where P = usable, of "workersSolution s" sol i] usol by (simp add: ls_inv_def sizes_inv_def)
  moreover have "best_inv env outcome n baseline ?s" using bi by (simp add: best_inv_def)
  moreover have "commit_inv env outcome T ?s"
    using I commit pcs wl unfolding ls_inv_def commit_inv_def by (auto simp: nth_list_update)
  moreover have "end_inv env T n ?s" using I pcs unfolding ls_inv_def end_inv_def by (auto split: if_splits)
  ultimately show ?thesis by (simp add: ls_inv_def)
qed

lemma inv_abort:
  assumes E: "env_ok env outcome T n" and I: "ls_inv env outcome T n baseline s" and i: "i < T" "ls_pcs s ! i = Abort"
  shows "ls_inv env outcome T n baseline (set_pc i Done (s\<lparr>rolloutsAborted := True\<rparr>))"
proof -
  let ?s = "set_pc i Done (s\<lparr>rolloutsAborted := True\<rparr>)"
  have len: "length (ls_pcs s) = T" and tk: "tickets_inv env T n s" and bi: "best_inv env outcome n baseline s"
    using I by (simp_all add: ls_inv_def sizes_inv_def)
  have pcs: "ls_pcs ?s ! j = (if j = i then Done else ls_pcs s ! j)" if "j < T" for j
    using nth_pc[OF len that] by simp
  have settled: "\<exists>e. bestStepSize s = slen env e \<and> (\<forall>d < e. processed s d)" using I i unfolding ls_inv_def end_inv_def by blast
  have "tickets_inv env T n ?s"
    by (rule tickets_move[OF tk i(1) len, where pc' = Done]) (use i(2) in auto)
  moreover have "sizes_inv T n ?s" using I by (simp add: ls_inv_def sizes_inv_def)
  moreover have "best_inv env outcome n baseline ?s" using bi by (simp add: best_inv_def)
  moreover have "commit_inv env outcome T ?s" using I pcs by (auto simp: ls_inv_def commit_inv_def)
  moreover have "end_inv env T n ?s" using I pcs settled slen_pos[OF E] unfolding ls_inv_def end_inv_def by (auto split: if_splits)
  ultimately show ?thesis by (simp add: ls_inv_def)
qed

lemma commit_result_eq:
  assumes "i < length (workersSolution s)" "e < length (alphaProcessed s)"
  shows "commit_result env i e s =
    (if armijoCondition env e (workersSolution s ! i) \<and> bestStepSize s < slen env e then
       Inr (list_all id (take e (alphaProcessed s)),
            s\<lparr>bestStepSize := slen env e, bestSolution := workersSolution s ! i,
              workersSolution := (workersSolution s)[i := bestSolution s], alphaProcessed := (alphaProcessed s)[e := True]\<rparr>)
     else Inr (False, s\<lparr>alphaProcessed := (alphaProcessed s)[e := True]\<rparr>))"
  using assms by (simp add: commit_result_def Let_def swap_SolutionRef_eq vec_range_def)

lemma inv_commit:
  assumes E: "env_ok env outcome T n" and I: "ls_inv env outcome T n baseline s" and i: "i < T" "ls_pcs s ! i = Commit e"
    and run: "commit_result env i e s = Inr (t, s1)"
  shows "ls_inv env outcome T n baseline (set_pc i (if t then Abort else Fetch) s1)"
proof -
  define r where "r = set_pc i (if t then Abort else Fetch) s1"
  let ?w = "workersSolution s ! i"
  have len: "length (ls_pcs s) = T" and tk: "tickets_inv env T n s" and bi: "best_inv env outcome n baseline s"
    and wl: "i < length (workersSolution s)" using I i(1) by (simp_all add: ls_inv_def sizes_inv_def)
  have en: "e < n" and ep: "\<not> processed s e" and ea: "e < alphaExpNext s"
    using ticketsD(5)[OF tk i(1), of e] ticketsD(2)[OF tk i(1), of e] ticketsD(1)[OF tk i(1), of e] i(2) by auto
  have el: "e < length (alphaProcessed s)" using I en by (simp add: ls_inv_def sizes_inv_def)
  have us: "usable ?w" "usable (bestSolution s)" using I wl by (simp_all add: ls_inv_def sizes_inv_def)
  have wcase: "outcome e = Inr ?w \<or> \<not> armijoCondition env e ?w \<and> (accepted env outcome e \<longrightarrow> slen env e < bestStepSize s)"
    using I i unfolding ls_inv_def commit_inv_def by blast
  have bp: "d < n \<and> d < alphaExpNext s" "accepted env outcome d \<Longrightarrow> slen env d \<le> bestStepSize s" if "processed s d" for d
    using bi that unfolding best_inv_def by blast+
  let ?win = "armijoCondition env e ?w \<and> bestStepSize s < slen env e"
  note eq = commit_result_eq[OF wl el, of env]
  have pr: "processed r d = (processed s d \<or> d = e)" for d
    using run el unfolding eq r_def by (auto simp: processed_def nth_list_update split: if_splits)
  have pcs: "ls_pcs r = (ls_pcs s)[i := if t then Abort else Fetch]" and nxt: "alphaExpNext r = alphaExpNext s"
    and ab: "rolloutsAborted r = rolloutsAborted s"
    using run unfolding eq r_def by (auto split: if_splits)
  have best: "bestStepSize r = (if ?win then slen env e else bestStepSize s)"
    and bsol: "bestSolution r = (if ?win then ?w else bestSolution s)"
    and ws: "workersSolution r = (if ?win then (workersSolution s)[i := bestSolution s] else workersSolution s)"
    using run unfolding eq r_def by (auto split: if_splits)
  have lenf: "length (alphaProcessed r) = length (alphaProcessed s)"
    using run unfolding eq r_def by (auto split: if_splits)
  have tm: "t \<Longrightarrow> ?win \<and> (\<forall>d < e. processed s d)"
    using run el unfolding eq r_def by (auto simp: processed_def list_all_length split: if_splits)
  have bestle: "bestStepSize s \<le> bestStepSize r" using best by auto
  have win: "outcome e = Inr ?w \<and> accepted env outcome e" if ?win using wcase that by (auto simp: accepted_def)
  have new: "ls_pcs r ! j = (if j = i then if t then Abort else Fetch else ls_pcs s ! j)" if "j < T" for j
    unfolding pcs by (rule nth_pc[OF len that])
  have "tickets_inv env T n r"
    by (rule tickets_move[OF tk i(1) len pcs nxt bestle]) (use pr i(2) in \<open>auto split: if_splits\<close>)
  moreover have "sizes_inv T n r"
  proof -
    have "sizes_inv T n s" using I by (simp add: ls_inv_def)
    then show ?thesis using all_nth_update[where P = usable, of "workersSolution s" "bestSolution s" i] us
      unfolding sizes_inv_def pcs lenf ws bsol by simp
  qed
  moreover have "best_inv env outcome n baseline r"
    unfolding best_inv_def
  proof (intro conjI allI impI)
    fix d assume d: "processed r d"
    show "d < n" "d < alphaExpNext r" using d bp(1) en ea by (auto simp: pr nxt)
    assume acc: "accepted env outcome d"
    show "slen env d \<le> bestStepSize r"
    proof (cases "d = e")
      case True
      then show ?thesis using acc wcase best by (auto simp: accepted_def split: if_splits)
    next
      case False
      then show ?thesis using d acc bp(2)[of d] bestle by (simp add: pr)
    qed
  next
    show "bestStepSize r = 0 \<and> bestSolution r = baseline \<or>
      (\<exists>d. processed r d \<and> accepted env outcome d \<and> bestStepSize r = slen env d \<and> outcome d = Inr (bestSolution r))"
    proof (cases ?win)
      case True
      then show ?thesis using win best bsol pr by (intro disjI2 exI[of _ e]) simp
    next
      case False
      then have "bestStepSize r = bestStepSize s" "bestSolution r = bestSolution s" using best bsol by auto
      then show ?thesis using bi pr unfolding best_inv_def by metis
    qed
  qed
  moreover have "commit_inv env outcome T r"
    unfolding commit_inv_def
  proof (intro allI impI)
    fix j d assume j: "j < T" "ls_pcs r ! j = Commit d"
    then have ji: "j \<noteq> i" "ls_pcs s ! j = Commit d" using new[OF j(1)] by (auto split: if_splits)
    then have "outcome d = Inr (workersSolution s ! j) \<or>
      \<not> armijoCondition env d (workersSolution s ! j) \<and> (accepted env outcome d \<longrightarrow> slen env d < bestStepSize s)"
      using I j(1) unfolding ls_inv_def commit_inv_def by blast
    moreover have "workersSolution r ! j = workersSolution s ! j" using ws ji(1) by simp
    ultimately show "outcome d = Inr (workersSolution r ! j) \<or>
      \<not> armijoCondition env d (workersSolution r ! j) \<and> (accepted env outcome d \<longrightarrow> slen env d < bestStepSize r)"
      using bestle by auto
  qed
  moreover have "end_inv env T n r"
    unfolding end_inv_def
  proof (intro conjI allI impI)
    assume a: "rolloutsAborted r \<or> (\<exists>j < T. ls_pcs r ! j = Abort)"
    show "\<exists>d. bestStepSize r = slen env d \<and> (\<forall>k < d. processed r k)"
    proof (cases t)
      case True
      then show ?thesis using tm best pr by (intro exI[of _ e]) auto
    next
      case False
      with a have "rolloutsAborted s \<or> (\<exists>j < T. ls_pcs s ! j = Abort)" using ab new by (auto split: if_splits)
      then obtain d where d: "bestStepSize s = slen env d" "\<forall>k < d. processed s k" using I unfolding ls_inv_def end_inv_def by blast
      have "\<not> ?win"
      proof
        assume ?win
        then have "e < d" using d(1) slen_less[OF E, of d e] by simp
        with d(2) ep show False by blast
      qed
      then show ?thesis using best d pr by auto
    qed
  next
    fix j assume "j < T" "ls_pcs r ! j = Done"
    then have "n \<le> alphaExpNext s \<or> 0 < bestStepSize s"
      using I new[of j] unfolding ls_inv_def end_inv_def by (auto split: if_splits)
    then show "n \<le> alphaExpNext r \<or> 0 < bestStepSize r" using bestle nxt by auto
  qed
  ultimately have "ls_inv env outcome T n baseline r" by (simp add: ls_inv_def)
  then show ?thesis by (simp add: r_def)
qed

lemma inv_step:
  assumes E: "env_ok env outcome T n" and I: "ls_inv env outcome T n baseline s" and st: "ls_step env s s'"
  shows "ls_inv env outcome T n baseline s'"
  using st
proof (cases rule: ls_step.cases)
  case (move i interrupted)
  have iT: "i < T" using move(1) I by (simp add: ls_inv_def sizes_inv_def)
  show ?thesis
  proof (cases "ls_pcs s ! i")
    case Fetch
    then show ?thesis using inv_fetch[OF I iT] move(4) by simp
  next
    case (Check e)
    then show ?thesis using inv_check[OF E I iT Check refl] move(4) by (simp add: admitted_def)
  next
    case (Compute e)
    then show ?thesis using inv_compute[OF E I iT Compute] move(3,4) by (auto simp: result_simps)
  next
    case (Commit e)
    then show ?thesis using inv_commit[OF E I iT Commit] move(4) by (auto simp: result_simps)
  next
    case Abort
    then show ?thesis using inv_abort[OF E I iT] move(4) by simp
  next
    case Done
    then show ?thesis using move(2) by simp
  qed
qed

lemma inv_reachable:
  assumes "env_ok env outcome T n" "ls_inv env outcome T n baseline s" "(ls_step env)\<^sup>*\<^sup>* s s'"
  shows "ls_inv env outcome T n baseline s'"
  using assms(3,2) by (induction rule: rtranclp_induct) (auto intro: inv_step[OF assms(1)])

section \<open>The result of a finished search\<close>

lemma backtrack_none:
  "(\<And>e. e \<in> set es \<Longrightarrow> \<not> accepted env outcome e) \<Longrightarrow> backtrack env outcome es b = b"
  by (induction es) (auto simp: accepted_def split: sum.splits)

lemma backtrack_append_none:
  "(\<And>e. e \<in> set es \<Longrightarrow> \<not> accepted env outcome e) \<Longrightarrow> backtrack env outcome (es @ fs) b = backtrack env outcome fs b"
  by (induction es) (auto simp: accepted_def split: sum.splits)

lemma backtrack_first:
  assumes "k < n" "accepted env outcome k" "outcome k = Inr r" "\<And>e. e < k \<Longrightarrow> \<not> accepted env outcome e"
  shows "backtrack env outcome [0 ..< n] b = (slen env k, r)"
proof -
  have "[0 ..< n] = [0 ..< k] @ k # [Suc k ..< n]"
    using assms(1) upt_add_eq_append[of 0 k "n - k"] by (simp add: upt_conv_Cons)
  moreover have "backtrack env outcome ([0 ..< k] @ k # [Suc k ..< n]) b = backtrack env outcome (k # [Suc k ..< n]) b"
    by (rule backtrack_append_none) (use assms(4) in simp)
  ultimately show ?thesis using assms(2,3) by (simp add: accepted_def)
qed

lemma finished_result:
  assumes E: "env_ok env outcome T n" and I: "ls_inv env outcome T n baseline s" and T: "0 < T" and fin: "ls_finished s"
  shows "(bestStepSize s, bestSolution s) = backtrack env outcome [0 ..< n] (0, baseline)"
proof -
  have tk: "tickets_inv env T n s" and bi: "best_inv env outcome n baseline s" and len: "length (ls_pcs s) = T"
    using I by (simp_all add: ls_inv_def sizes_inv_def)
  have fin_pc: "ls_pcs s ! i = Done" if "i < T" for i using fin that len by (auto simp: ls_finished_def)
  have settled: "processed s e" if "e < n" "e < alphaExpNext s" "\<not> slen env e < bestStepSize s" for e
  proof (rule ccontr)
    assume "\<not> processed s e"
    with ticketsD(4)[OF tk that(1,2)] that(3) obtain i where i: "i < T" "holds (ls_pcs s ! i) e" by blast
    then show False using fin_pc[OF i(1)] by simp
  qed
  have ex: "n \<le> alphaExpNext s \<or> 0 < bestStepSize s" using I T fin_pc[OF T] unfolding ls_inv_def end_inv_def by blast
  from bi consider (none) "bestStepSize s = 0" "bestSolution s = baseline"
    | (some) k where "processed s k" "accepted env outcome k" "bestStepSize s = slen env k" "outcome k = Inr (bestSolution s)"
    unfolding best_inv_def by blast
  then show ?thesis
  proof cases
    case none
    have "\<not> accepted env outcome e" if "e < n" for e
    proof
      assume acc: "accepted env outcome e"
      have "\<not> slen env e < bestStepSize s" using none(1) slen_pos[OF E, of e] by simp
      then have "processed s e" using settled[OF that] ex none(1) that by simp
      then have "slen env e \<le> 0" using bi acc none(1) unfolding best_inv_def by auto
      then show False using slen_pos[OF E, of e] by simp
    qed
    then show ?thesis using none by (subst backtrack_none[where outcome = outcome]) auto
  next
    case (some k)
    have k: "k < n" "k < alphaExpNext s" using bi some(1) unfolding best_inv_def by blast+
    have "\<not> accepted env outcome e" if "e < k" for e
    proof
      assume acc: "accepted env outcome e"
      have lt: "slen env k < slen env e" using that slen_less[OF E] by simp
      then have "processed s e" using settled[of e] that k some(3) by simp
      then have "slen env e \<le> slen env k" using bi acc some(3) unfolding best_inv_def by auto
      with lt show False by simp
    qed
    then show ?thesis using backtrack_first[OF k(1) some(2,4)] some(3) by simp
  qed
qed

section \<open>Termination\<close>

fun pc_weight :: "nat \<Rightarrow> ls_pc \<Rightarrow> nat" where
  "pc_weight n Fetch = 2"
| "pc_weight n (Check e) = (if e < n then 5 else 1)"
| "pc_weight n (Compute e) = 4"
| "pc_weight n (Commit e) = 3"
| "pc_weight n Abort = 1"
| "pc_weight n Done = 0"

definition ls_measure :: "nat \<Rightarrow> line_search_state \<Rightarrow> nat" where
  "ls_measure n s = sum_list (map (pc_weight n) (ls_pcs s)) + 4 * (n - alphaExpNext s)"

lemma sum_list_update_weight:
  "i < length pcs \<Longrightarrow> sum_list (map f (pcs[i := pc])) + f (pcs ! i) = sum_list (map f pcs) + (f pc :: nat)"
  by (induction pcs arbitrary: i) (auto split: nat.splits simp: less_Suc_eq_0_disj)

lemma measure_move:
  assumes "i < length (ls_pcs s)" "ls_pcs s' = (ls_pcs s)[i := pc]"
    and "pc_weight n pc + 4 * (n - alphaExpNext s') < pc_weight n (ls_pcs s ! i) + 4 * (n - alphaExpNext s)"
  shows "ls_measure n s' < ls_measure n s"
  using assms(3) sum_list_update_weight[OF assms(1), of "pc_weight n" pc] by (simp add: ls_measure_def assms(2))

lemma commit_result_keeps:
  "commit_result env i e s = Inr (t, s') \<Longrightarrow> ls_pcs s' = ls_pcs s \<and> alphaExpNext s' = alphaExpNext s"
  by (auto simp: commit_result_def Let_def result_simps swap_SolutionRef_eq split: if_splits)

lemma step_decreases:
  assumes E: "env_ok env outcome T n" and st: "ls_step env s s'"
  shows "ls_measure n s' < ls_measure n s"
  using st
proof (cases rule: ls_step.cases)
  case (move i interrupted)
  show ?thesis
  proof (cases "ls_pcs s ! i")
    case Fetch
    then show ?thesis using move by (intro measure_move[OF move(1), where pc = "Check (alphaExpNext s)"]) auto
  next
    case (Check e)
    have "admitted (ls_settings env) e = (e < n)" using E by (simp add: env_ok_def)
    then show ?thesis using move Check
      by (intro measure_move[OF move(1), where pc = "if \<not> admitted (ls_settings env) e then Done else if slen env e < bestStepSize s then Done else Compute e"])
        (auto simp: admitted_def)
  next
    case (Compute e)
    then show ?thesis using move by (intro measure_move[OF move(1), where pc = "Commit e"]) (auto simp: result_simps)
  next
    case (Commit e)
    then obtain t s1 where c: "commit_result env i e s = Inr (t, s1)" "s' = set_pc i (if t then Abort else Fetch) s1"
      using move(4) by (auto simp: result_simps)
    then show ?thesis using commit_result_keeps[OF c(1)] Commit
      by (intro measure_move[OF move(1), where pc = "if t then Abort else Fetch"]) auto
  next
    case Abort
    then show ?thesis using move by (intro measure_move[OF move(1), where pc = Done]) auto
  next
    case Done
    then show ?thesis using move(2) by simp
  qed
qed

lemma steps_bounded: "env_ok env outcome T n \<Longrightarrow> (ls_step env ^^ k) s s' \<Longrightarrow> k + ls_measure n s' \<le> ls_measure n s"
proof (induction k arbitrary: s')
  case (Suc k)
  then obtain m where m: "(ls_step env ^^ k) s m" "ls_step env m s'" by auto
  with Suc.IH[OF Suc.prems(1) m(1)] step_decreases[OF Suc.prems(1) m(2)] show ?case by linarith
qed simp

lemma step_possible:
  assumes E: "env_ok env outcome T n" and I: "ls_inv env outcome T n baseline s" and nf: "\<not> ls_finished s"
  shows "\<exists>s'. ls_step env s s'"
proof -
  have len: "length (ls_pcs s) = T" and tk: "tickets_inv env T n s" using I by (simp_all add: ls_inv_def sizes_inv_def)
  from nf obtain i where i: "i < length (ls_pcs s)" "ls_pcs s ! i \<noteq> Done" by (auto simp: ls_finished_def in_set_conv_nth)
  then have wl: "i < length (workersSolution s)" and us: "usable (workersSolution s ! i)"
    using I by (auto simp: ls_inv_def sizes_inv_def)
  have iT: "i < T" using i(1) len by simp
  have "\<exists>s'. task_step env False i (ls_pcs s ! i) s = Inr s'"
  proof (cases "ls_pcs s ! i")
    case (Compute e)
    have en: "e < n" using ticketsD(5)[OF tk iT, of e] Compute by simp
    have out: "ls_evaluate env i (slen env e) (workersSolution s ! i) = outcome e" using E us iT en by (simp add: env_ok_def)
    have "\<exists>r. evaluated env False i e (workersSolution s ! i) = Inr r"
    proof (cases "outcome e")
      case (Inl err)
      then obtain m where "err = Runtime_Error m" using E en unfolding env_ok_def by blast
      then show ?thesis using Inl out by (simp add: evaluated_def)
    qed (use out in \<open>simp add: evaluated_def\<close>)
    then show ?thesis using Compute wl by auto
  next
    case (Commit e)
    have "e < n" using ticketsD(5)[OF tk iT, of e] Commit by simp
    then have "e < length (alphaProcessed s)" using I by (simp add: ls_inv_def sizes_inv_def)
    then show ?thesis using Commit commit_result_eq[OF wl, of e env] by auto
  qed auto
  then show ?thesis using ls_step.move[OF i, of False] by blast
qed

section \<open>Properties\<close>

text \<open>
  A search over \<open>n\<close> admitted step lengths by \<open>numThreads\<close> threads. Every task has a clone of the same rollout and
  of the same problem; \<open>n\<close> is at most the number of flags that \<open>maxNumOfSearches\<close> allots; an evaluation may throw
  but trips no assertion; the merit to beat is below the merit of a failed evaluation.
\<close>

definition tried :: "rollout_fun \<Rightarrow> optimal_control_problem \<Rightarrow> (performance_index \<Rightarrow> scalar) \<Rightarrow> search_input \<Rightarrow> line_search_settings \<Rightarrow> search_solution \<Rightarrow> nat \<Rightarrow> search_solution result" where
  "tried rollout problem f inp cfg sol e = computeSolution rollout problem f inp (step_length cfg e) sol"

definition search_fits ::
  "line_search_settings \<Rightarrow> nat \<Rightarrow> nat \<Rightarrow> nat \<Rightarrow> rollout_fun \<Rightarrow> optimal_control_problem \<Rightarrow> (performance_index \<Rightarrow> scalar) \<Rightarrow> search_input \<Rightarrow>
   (search_solution \<Rightarrow> search_solution) \<Rightarrow> search_solution list \<Rightarrow> search_solution \<Rightarrow> line_search_env \<Rightarrow> line_search_state \<Rightarrow> bool" where
  "search_fits cfg n k numThreads rollout problem f inp abandoned workers sol env s0 =
     (settings_ok cfg \<and> (\<forall>e. admitted cfg e = (e < n)) \<and> (\<exists>m. maxNumOfSearches cfg = Inr m \<and> n \<le> m) \<and>
      max 1 numThreads \<le> k \<and> max 1 numThreads \<le> length workers \<and>
      (\<forall>i < length workers. usable (workers ! i)) \<and> usable sol \<and> (\<forall>s. usable s \<longrightarrow> usable (abandoned s)) \<and>
      (\<forall>e < n. \<forall>err. tried rollout problem f inp cfg sol e = Inl err \<longrightarrow> (\<exists>m. err = Runtime_Error m)) \<and>
      (\<forall>e < n. baselineMerit env - armijoCoefficient cfg * step_length cfg e * unoptimizedControllerUpdateIS env \<le> double_max) \<and>
      lineSearch_start cfg (evaluate_task (replicate k rollout) (replicate k problem) f inp) abandoned numThreads (si_controller inp) workers sol
        = Inr (env, s0))"

lemma search_start:
  assumes "search_fits cfg n k numThreads rollout problem f inp abandoned workers sol env s0"
  shows "\<exists>baseline. computeSolution rollout problem f inp 0 sol = Inr baseline \<and> baselineMerit env = pi_merit (sol_performanceIndex baseline) \<and>
     bestSolution s0 = baseline \<and> bestStepSize s0 = 0 \<and> ls_settings env = cfg \<and>
     env_ok env (tried rollout problem f inp cfg sol) (max 1 numThreads) n \<and>
     ls_inv env (tried rollout problem f inp cfg sol) (max 1 numThreads) n baseline s0 \<and> ls_measure n s0 = 2 * max 1 numThreads + 4 * n"
proof -
  note F = assms[unfolded search_fits_def]
  let ?ev = "evaluate_task (replicate k rollout) (replicate k problem) f inp" and ?T = "max 1 numThreads"
  let ?out = "tried rollout problem f inp cfg sol"
  have w0: "0 < length workers" using F by linarith
  have us: "usable sol" "usable (workers ! 0)" using F w0 by auto
  have ev: "?ev i a s = computeSolution rollout problem f inp a sol" if "i < ?T" "usable s" for i a s
    by (rule evaluate_task_clones) (use that F us in auto)
  have st: "lineSearch_start cfg ?ev abandoned numThreads (si_controller inp) workers sol = Inr (env, s0)" using F by blast
  obtain r upd m where r: "computeSolution rollout problem f inp 0 sol = Inr r" and m: "maxNumOfSearches cfg = Inr m"
    and env: "env = \<lparr>ls_settings = cfg, ls_evaluate = ?ev, ls_abandoned = abandoned, baselineMerit = pi_merit (sol_performanceIndex r),
                unoptimizedControllerUpdateIS = upd\<rparr>"
    and s0: "s0 = \<lparr>bestStepSize = 0, bestSolution = r, alphaExpNext = 0, alphaProcessed = replicate m False,
                workersSolution = workers[0 := sol], rolloutsAborted = False, ls_pcs = replicate ?T Fetch\<rparr>"
    using st w0 ev[of 0 "workers ! 0" 0] us
    by (auto simp: lineSearch_start_def result_simps swap_SolutionRef_eq split: sum.splits ocs2_error.splits)
  have nm: "n \<le> m" using F m by auto
  have ur: "usable r" by (rule computed.result_ok[OF r])
  have E: "env_ok env ?out ?T n"
    unfolding env_ok_def
  proof (intro conjI allI impI)
    fix i e s assume "i < ?T" "e < n" "usable s"
    then show "ls_evaluate env i (slen env e) s = ?out e" using ev by (simp add: env tried_def)
  next
    fix e q assume "e < n" "?out e = Inr q"
    then show "usable q" unfolding tried_def by (auto intro: computed.result_ok)
  qed (use F in \<open>auto simp: env\<close>)
  have wsz: "\<forall>i < length workers. usable (workers[0 := sol] ! i)"
    using all_nth_update[where P = usable, of workers sol 0] F us by simp
  have "ls_inv env ?out ?T n r s0"
    unfolding ls_inv_def sizes_inv_def tickets_inv_def best_inv_def commit_inv_def end_inv_def s0 processed_def
    using F nm ur wsz by auto
  moreover have "ls_measure n s0 = 2 * ?T + 4 * n"
    by (simp add: ls_measure_def s0 sum_list_replicate)
  ultimately show ?thesis using r E by (intro exI[of _ r]) (simp add: env s0)
qed

text \<open>
  C20. The parallel line search is sequential Armijo backtracking. In every state that the interleaved tasks can
  reach, either some task can move on or all have finished; and when all have finished, the best step length and
  the best solution are those of one task that tries the admitted step lengths from the largest on and stops at
  the first whose merit satisfies the Armijo condition, or else step length zero and the baseline solution.
\<close>

theorem line_search_is_backtracking:
  assumes "search_fits cfg n k numThreads rollout problem f inp abandoned workers sol env s0" "(ls_step env)\<^sup>*\<^sup>* s0 s"
  shows "(\<not> ls_finished s \<longrightarrow> (\<exists>s'. ls_step env s s')) \<and>
         (ls_finished s \<longrightarrow> (\<exists>baseline. computeSolution rollout problem f inp 0 sol = Inr baseline \<and>
            (bestStepSize s, bestSolution s) = backtrack env (tried rollout problem f inp cfg sol) [0 ..< n] (0, baseline)))"
proof -
  from search_start[OF assms(1)] obtain baseline where b: "computeSolution rollout problem f inp 0 sol = Inr baseline"
    "env_ok env (tried rollout problem f inp cfg sol) (max 1 numThreads) n"
    "ls_inv env (tried rollout problem f inp cfg sol) (max 1 numThreads) n baseline s0" by blast
  have I: "ls_inv env (tried rollout problem f inp cfg sol) (max 1 numThreads) n baseline s"
    by (rule inv_reachable[OF b(2,3) assms(2)])
  have T: "0 < max 1 numThreads" by simp
  from step_possible[OF b(2) I] finished_result[OF b(2) I T] b(1) show ?thesis by metis
qed

text \<open>
  C21. The line search ends: whatever the interleaving, the tasks take together at most two steps per task and four
  per admitted step length, and an execution that cannot go on has finished.
\<close>

theorem line_search_terminates:
  assumes "search_fits cfg n k numThreads rollout problem f inp abandoned workers sol env s0" "(ls_step env ^^ j) s0 s"
  shows "j \<le> 2 * max 1 numThreads + 4 * n \<and> (ls_finished s \<or> (\<exists>s'. ls_step env s s'))"
proof -
  from search_start[OF assms(1)] obtain baseline where b: "env_ok env (tried rollout problem f inp cfg sol) (max 1 numThreads) n"
    "ls_inv env (tried rollout problem f inp cfg sol) (max 1 numThreads) n baseline s0" "ls_measure n s0 = 2 * max 1 numThreads + 4 * n" by blast
  have "ls_inv env (tried rollout problem f inp cfg sol) (max 1 numThreads) n baseline s"
    by (rule inv_reachable[OF b(1,2) relpowp_imp_rtranclp[OF assms(2)]])
  then show ?thesis using steps_bounded[OF b(1) assms(2)] step_possible[OF b(1)] b(3) by fastforce
qed

section \<open>A concrete search\<close>

text \<open>
  The state ends where the bias of the controller says and is itself the final cost, so that every step along
  the increment \<open>- 1\<close> lowers the merit by its length.
\<close>

definition descent_problem :: optimal_control_problem where
  "descent_problem = new_OptimalControlProblem\<lparr>targetTrajectoriesPtr := Some origin_targets,
     finalCostPtr := \<lparr>col_terms = [\<lparr>k_isActive = (\<lambda>_. True), k_getValue = (\<lambda>_ x _. Inr (x ! 0)),
        k_getQuadraticApproximation = (\<lambda>_ _ _. Inr (Zero_ScalarQuadratic 1 0))\<rparr>], termNameMap = Map.empty\<rparr>\<rparr>"

definition bias_rollout :: rollout_fun where
  "bias_rollout t0 x0 tf c m =
     (case c of Some (Linear l) \<Rightarrow>
        Inr (hd (lc_biasArray l), \<lparr>roTime = [t0, tf], roPostEvents = [], roState = [x0, hd (lc_biasArray l)], roInput = [[0], [0]]\<rparr>, m)
      | _ \<Rightarrow> Inl (Runtime_Error ''no controller''))"

definition descent_controller :: linear_controller where
  "descent_controller = \<lparr>lc_timeStamp = [0, 1], lc_biasArray = [[0], [0]], lc_deltaBiasArray = [[- 1], [- 1]], lc_gainArray = [[[0]], [[0]]]\<rparr>"

definition descent_input :: search_input where
  "descent_input = \<lparr>si_timePeriod = (0, 1), si_initState = [0], si_controller = descent_controller, si_dualSolution = scratch_dual,
     si_modeSchedule = default_ModeSchedule\<rparr>"

definition blank_solution :: search_solution where
  "blank_solution = \<lparr>sol_avgTimeStep = 0, sol_dualSolution = scratch_dual,
     sol_primalSolution = new_PrimalSolution\<lparr>ps_controllerPtr := Some (Linear (LinearController [] [] []))\<rparr>,
     sol_problemMetrics = \<lparr>pm_final = new_Metrics, pm_preJumps = [], pm_intermediates = []\<rparr>, sol_performanceIndex = new_PerformanceIndex\<rparr>"

definition descent_result :: "(performance_index \<Rightarrow> scalar) \<Rightarrow> scalar \<Rightarrow> search_solution" where
  "descent_result f a = \<lparr>sol_avgTimeStep = 1 / 2,
     sol_dualSolution = scratch_dual\<lparr>ds_timeTrajectory := [0, 1], ds_intermediates := [default_MultiplierCollection, default_MultiplierCollection]\<rparr>,
     sol_primalSolution = \<lparr>ps_timeTrajectory = [0, 1], ps_stateTrajectory = [[0], [- a]], ps_inputTrajectory = [[0], [0]], ps_postEventIndices = [],
       ps_modeSchedule = default_ModeSchedule,
       ps_controllerPtr = Some (Linear \<lparr>lc_timeStamp = [0, 1], lc_biasArray = [[- a], [- a]], lc_deltaBiasArray = [], lc_gainArray = [[[0]], [[0]]]\<rparr>)\<rparr>,
     sol_problemMetrics = \<lparr>pm_final = new_Metrics\<lparr>cost := - a\<rparr>, pm_preJumps = [], pm_intermediates = [new_Metrics, new_Metrics]\<rparr>,
     sol_performanceIndex = PerformanceIndex (f (PerformanceIndex 0 (- a) 0 0 0 0 0 0)) (- a) 0 0 0 0 0 0\<rparr>"

lemma alc_empty:
  "alc_initializeLagrangian (new_Collection :: 'x augmented_lagrangian collection) t = Inr []"
  "alc_getValue (new_Collection :: 'x augmented_lagrangian collection) t p [] = Inr []"
  by (simp_all add: alc_initializeLagrangian_def alc_getValue_def new_Collection_def)

lemma descent_metrics:
  "ocp_computeIntermediateMetrics descent_problem t x u default_MultiplierCollection [] = Inr new_Metrics"
  "ocp_computeFinalMetrics descent_problem t x default_MultiplierCollection = Inr (new_Metrics\<lparr>cost := x ! 0\<rparr>)"
  by (simp_all add: descent_problem_def new_OptimalControlProblem_def empty_Collection_def default_MultiplierCollection_def alc_empty
      ocp_computeIntermediateMetrics_def ocp_IntermediateMetrics_def ocp_computeFinalMetrics_def ocp_FinalMetrics_def computeCost_def
      computeFinalCost_def targets_of_problem_def values_unless_empty_def new_Metrics_def StateCostCollection_getValue_def
      StateInputCostCollection_getValue_def cost_collection_value_def new_Collection_def alc_getValue_def)

lemma descent_dual:
  assumes "ps_timeTrajectory ps = [0, 1]" "ps_postEventIndices ps = []"
  shows "initializeDualSolution descent_problem ps scratch_dual scratch_dual =
    Inr (scratch_dual\<lparr>ds_timeTrajectory := [0, 1], ds_intermediates := [default_MultiplierCollection, default_MultiplierCollection]\<rparr>)"
  using assms
  by (simp add: initializeDualSolution_def scratch_dual_def findIntersectionToExtendableInterval_def clear_DualSolution_def
      clear_MultiplierCollection_def default_MultiplierCollection_def dual_final_def dual_preJumps_def dual_intermediates_def
      empty_MultiplierCollection_def initializeFinalMultiplierCollection_def initializeIntermediateMultiplierCollection_def
      descent_problem_def new_OptimalControlProblem_def alc_empty vec_front_def Let_def)

lemma descent_rollout_metrics:
  assumes "ps_timeTrajectory ps = [0, 1]" "ps_stateTrajectory ps = [[0], [y]]" "ps_inputTrajectory ps = [[0], [0]]" "ps_postEventIndices ps = []"
  shows "computeRolloutMetrics descent_problem ps
      (scratch_dual\<lparr>ds_timeTrajectory := [0, 1], ds_intermediates := [default_MultiplierCollection, default_MultiplierCollection]\<rparr>)
      \<lparr>pm_final = new_Metrics, pm_preJumps = [], pm_intermediates = []\<rparr> =
    Inr \<lparr>pm_final = new_Metrics\<lparr>cost := y\<rparr>, pm_preJumps = [], pm_intermediates = [new_Metrics, new_Metrics]\<rparr>"
  using assms
  by (simp add: computeRolloutMetrics_def metrics_step_def upt_rec clear_ProblemMetrics_def descent_metrics scratch_dual_def)

lemma descent_performance:
  "computeRolloutPerformanceIndex [0, 1] \<lparr>pm_final = new_Metrics\<lparr>cost := y\<rparr>, pm_preJumps = [], pm_intermediates = [new_Metrics, new_Metrics]\<rparr> =
   Inr (PerformanceIndex 0 y 0 0 0 0 0 0)"
  by (simp add: computeRolloutPerformanceIndex_def trapezoidalIntegration_def upt_rec toPerformanceIndex_def new_Metrics_def
      performance_index_defs getEqConstraintsSSE_def getEqConstraintsSSE_array_def getIneqConstraintsSSE_array_def sumPenalties_def)

lemma descent_evaluated: "computeSolution bias_rollout descent_problem f descent_input a blank_solution = Inr (descent_result f a)"
proof -
  have t: "ds_timeTrajectory scratch_dual = []" by (simp add: scratch_dual_def)
  let ?ps = "sol_primalSolution (descent_result f a)"
  have r: "rolloutTrajectory bias_rollout 0 [0] 1
      (new_PrimalSolution\<lparr>ps_modeSchedule := default_ModeSchedule,
         ps_controllerPtr := Some (Linear \<lparr>lc_timeStamp = [0, 1], lc_biasArray = [[- a], [- a]], lc_deltaBiasArray = [], lc_gainArray = [[[0]], [[0]]]\<rparr>)\<rparr>)
      = Inr (1 / 2, ?ps)"
    by (simp add: rolloutTrajectory_def bias_rollout_def new_PrimalSolution_def descent_result_def)
  have i: "incrementController a descent_controller (LinearController [] [] []) =
      Inr \<lparr>lc_timeStamp = [0, 1], lc_biasArray = [[- a], [- a]], lc_deltaBiasArray = [], lc_gainArray = [[[0]], [[0]]]\<rparr>"
    by (simp add: incrementController_def descent_controller_def lc_size_def lc_clear_def LinearController_def upt_rec vec_add_def vadd_def vscale_def)
  have ps: "ps_timeTrajectory ?ps = [0, 1]" "ps_stateTrajectory ?ps = [[0], [- a]]" "ps_inputTrajectory ?ps = [[0], [0]]" "ps_postEventIndices ?ps = []"
    by (simp_all add: descent_result_def)
  show ?thesis
    using r descent_dual[OF ps(1,4)] descent_rollout_metrics[OF ps] descent_performance[of "- a"] ps(1)
    by (simp add: computeSolution_def descent_input_def blank_solution_def getLinearController_def i adjusted_dual_def t Let_def)
      (simp add: descent_result_def set_merit_def)
qed

lemma double_bounds: "double_min \<le> 1 / 1024" "0 \<le> double_max"
  by (simp_all add: double_min_def double_max_def)

lemma exact_count:
  assumes "settings_ok cfg" "admitted cfg k" "\<not> admitted cfg (Suc k)"
  shows "admitted cfg e = (e < Suc k)"
  using assms admitted_down[OF assms(1), of k e] admitted_down[OF assms(1), of e "Suc k"] by (metis less_Suc_eq linorder_neqE_nat)

lemma default_settings_ok: "settings_ok default_line_search_settings"
  using double_bounds(1) by (simp add: settings_ok_def default_line_search_settings_def)

lemma default_admitted: "admitted default_line_search_settings e = (e < 5)"
proof -
  have "admitted default_line_search_settings 4"
    by (simp add: admitted_def step_length_def default_line_search_settings_def almost_ge_def power_divide)
  moreover have "\<not> admitted default_line_search_settings (Suc 4)"
    using double_bounds(1)
    by (simp add: admitted_def step_length_def default_line_search_settings_def almost_ge_def almost_eq_prec_def double_epsilon_def power_divide)
  ultimately show ?thesis using exact_count[OF default_settings_ok, of 4 e] by simp
qed

text \<open>The number of searches, for a contraction rate of one half.\<close>

lemma log_half_between:
  assumes "(1 / 2) ^ Suc k < x" "x \<le> (1 / 2) ^ k"
  shows "real k \<le> ln x / ln (1 / 2)" "ln x / ln (1 / 2) < real (Suc k)"
proof -
  have x: "0 < x" using assms(1) by (smt (verit) zero_less_power half_gt_zero_iff)
  have neg: "ln (1 / 2 :: real) < 0" by (simp add: ln_div)
  have "ln x \<le> real k * ln (1 / 2)" using assms(2) x ln_le_cancel_iff[of x "(1 / 2) ^ k"] by (simp add: ln_realpow)
  then show "real k \<le> ln x / ln (1 / 2)" using neg by (simp add: neg_le_divide_eq)
  have "real (Suc k) * ln (1 / 2) < ln x"
    using assms(1) x ln_less_cancel_iff[of "(1 / 2) ^ Suc k" x] ln_realpow[of "1 / 2" "Suc k"] by (simp del: power_Suc)
  then show "ln x / ln (1 / 2) < real (Suc k)" using neg by (simp add: neg_divide_less_eq)
qed

lemma searches_of_half:
  assumes "contractionRate cfg = 1 / 2" "minStepLength cfg < maxStepLength cfg" "\<not> almost_eq (minStepLength cfg) (maxStepLength cfg)"
    and "(1 / 2) ^ Suc k < minStepLength cfg / maxStepLength cfg + limitEpsilon" "minStepLength cfg / maxStepLength cfg + limitEpsilon \<le> (1 / 2) ^ k"
    and "k < 1000"
  shows "maxNumOfSearches cfg = Inr (Suc k)"
proof -
  let ?x = "minStepLength cfg / maxStepLength cfg + limitEpsilon"
  have x: "0 < ?x" using assms(4) by (smt (verit) zero_less_power half_gt_zero_iff)
  note b = log_half_between[OF assms(4,5)]
  have "\<lfloor>ln ?x / ln (1 / 2) + 1\<rfloor> = int (Suc k)" using b by (intro floor_unique) simp_all
  then have "size_of_scalar (ln ?x / ln (1 / 2) + 1) = Inr (Suc k)"
    using b assms(6) by (simp add: size_of_scalar_def)
  then show ?thesis using assms(2,3) x unfolding maxNumOfSearches_def Let_def assms(1) by simp
qed

lemma default_searches: "maxNumOfSearches default_line_search_settings = Inr 5"
proof -
  have "maxNumOfSearches default_line_search_settings = Inr (Suc 4)"
    using double_bounds(1)
    by (intro searches_of_half) (simp_all add: default_line_search_settings_def limitEpsilon_def almost_eq_def almost_eq_prec_def double_epsilon_def power_divide)
  then show ?thesis by simp
qed

lemma descent_fits:
  "\<exists>env s0. search_fits default_line_search_settings 5 2 2 bias_rollout descent_problem pi_cost descent_input id
     [blank_solution, blank_solution, blank_solution] blank_solution env s0 \<and>
   baselineMerit env = 0 \<and> unoptimizedControllerUpdateIS env = 1 \<and> ls_settings env = default_line_search_settings"
proof -
  have is1: "computeControllerUpdateIS descent_controller = Inr 1"
    by (simp add: computeControllerUpdateIS_def descent_controller_def trapezoidalIntegration_def squaredNorm_def upt_rec)
  have u: "usable blank_solution" by (simp add: usable_def blank_solution_def)
  have arm: "0 \<le> armijoCoefficient default_line_search_settings" by (simp add: default_line_search_settings_def)
  have pos: "0 \<le> armijoCoefficient default_line_search_settings * step_length default_line_search_settings e" for e
    using step_length_pos[OF default_settings_ok, of e] arm by simp
  have w: "\<forall>i < length [blank_solution, blank_solution, blank_solution]. usable ([blank_solution, blank_solution, blank_solution] ! i)"
    using u by (auto simp: less_Suc_eq)
  let ?ev = "evaluate_task (replicate 2 bias_rollout) (replicate 2 descent_problem) pi_cost descent_input"
  let ?env = "\<lparr>ls_settings = default_line_search_settings, ls_evaluate = ?ev, ls_abandoned = id, baselineMerit = 0, unoptimizedControllerUpdateIS = 1\<rparr>"
  have "?ev 0 0 blank_solution = Inr (descent_result pi_cost 0)"
    by (simp add: evaluate_task_def descent_evaluated)
  then have "\<exists>s0. lineSearch_start default_line_search_settings ?ev id 2 (si_controller descent_input) [blank_solution, blank_solution, blank_solution] blank_solution = Inr (?env, s0)"
    by (simp add: lineSearch_start_def is1 descent_input_def swap_SolutionRef_eq default_searches) (simp add: descent_result_def)
  then obtain s0 where "lineSearch_start default_line_search_settings ?ev id 2 (si_controller descent_input) [blank_solution, blank_solution, blank_solution] blank_solution = Inr (?env, s0)" ..
  then have "search_fits default_line_search_settings 5 2 2 bias_rollout descent_problem pi_cost descent_input id
     [blank_solution, blank_solution, blank_solution] blank_solution ?env s0"
    unfolding search_fits_def
    using default_settings_ok default_admitted default_searches u w pos double_bounds(2)
    by (auto simp: tried_def descent_evaluated intro: order_trans[of _ 0])
  then show ?thesis by (intro exI[of _ ?env] exI[of _ s0]) simp
qed

theorem line_search_is_backtracking_witness:
  "\<exists>env s0. search_fits default_line_search_settings 5 2 2 bias_rollout descent_problem pi_cost descent_input id
     [blank_solution, blank_solution, blank_solution] blank_solution env s0 \<and>
   (\<forall>s. (ls_step env)\<^sup>*\<^sup>* s0 s \<longrightarrow> ls_finished s \<longrightarrow> bestStepSize s = 1 \<and> bestSolution s = descent_result pi_cost 1)"
proof -
  from descent_fits obtain env s0 where f: "search_fits default_line_search_settings 5 2 2 bias_rollout descent_problem pi_cost descent_input id
     [blank_solution, blank_solution, blank_solution] blank_solution env s0"
    and env: "baselineMerit env = 0" "unoptimizedControllerUpdateIS env = 1" "ls_settings env = default_line_search_settings" by blast
  have "backtrack env (tried bias_rollout descent_problem pi_cost descent_input default_line_search_settings blank_solution) [0 ..< 5] b = (1, descent_result pi_cost 1)" for b
    by (simp add: upt_rec tried_def descent_evaluated armijoCondition_def env default_line_search_settings_def step_length_def)
      (simp add: descent_result_def)
  with line_search_is_backtracking[OF f] f show ?thesis by (intro exI[of _ env] exI[of _ s0]) (metis prod.inject)
qed

theorem line_search_terminates_witness:
  "\<exists>env s0. search_fits default_line_search_settings 5 2 2 bias_rollout descent_problem pi_cost descent_input id
     [blank_solution, blank_solution, blank_solution] blank_solution env s0 \<and>
   (\<forall>j s. (ls_step env ^^ j) s0 s \<longrightarrow> j \<le> 24)"
proof -
  from descent_fits obtain env s0 where f: "search_fits default_line_search_settings 5 2 2 bias_rollout descent_problem pi_cost descent_input id
     [blank_solution, blank_solution, blank_solution] blank_solution env s0" by blast
  with line_search_terminates[OF f] show ?thesis by (intro exI[of _ env] exI[of _ s0]) auto
qed

section \<open>Too few flags\<close>

definition sixteenth_settings :: line_search_settings where
  "sixteenth_settings = default_line_search_settings\<lparr>minStepLength := 1 / 16\<rparr>"

text \<open>A merit that no step improves, and one task that runs alone.\<close>

definition flat_env :: line_search_env where
  "flat_env = \<lparr>ls_settings = sixteenth_settings, ls_evaluate = (\<lambda>_ a s. computeSolution bias_rollout descent_problem (\<lambda>_. 0) descent_input a blank_solution),
     ls_abandoned = id, baselineMerit = 0, unoptimizedControllerUpdateIS = 1\<rparr>"

definition flat_state :: "nat \<Rightarrow> ls_pc \<Rightarrow> search_solution \<Rightarrow> line_search_state" where
  "flat_state e pc w = \<lparr>bestStepSize = 0, bestSolution = descent_result (\<lambda>_. 0) 0, alphaExpNext = e,
     alphaProcessed = replicate (min e 4) True @ replicate (4 - e) False, workersSolution = [w], rolloutsAborted = False, ls_pcs = [pc]\<rparr>"

lemma flat_round:
  assumes "e < 4"
  shows "(ls_step flat_env)\<^sup>*\<^sup>* (flat_state e Fetch w) (flat_state (Suc e) Fetch (descent_result (\<lambda>_. 0) (step_length sixteenth_settings e)))"
proof -
  have adm: "almost_ge (step_length sixteenth_settings e) (minStepLength sixteenth_settings) double_epsilon"
  proof -
    have "(1 / 2 :: real) ^ 4 < (1 / 2) ^ e" using assms by (intro power_strict_decreasing) auto
    then show ?thesis by (simp add: almost_ge_def step_length_def sixteenth_settings_def default_line_search_settings_def power_divide)
  qed
  have pos: "0 < step_length sixteenth_settings e"
    by (simp add: step_length_def sixteenth_settings_def default_line_search_settings_def)
  let ?r = "descent_result (\<lambda>_. 0) (step_length sixteenth_settings e)"
  have arm: "\<not> armijoCondition flat_env e ?r"
    using pos by (simp add: armijoCondition_def flat_env_def descent_result_def) (simp add: sixteenth_settings_def default_line_search_settings_def)
  define a where "a = flat_state e Fetch w"
  define b where "b = a\<lparr>alphaExpNext := Suc e, ls_pcs := [Check e]\<rparr>"
  define c where "c = a\<lparr>alphaExpNext := Suc e, ls_pcs := [Compute e]\<rparr>"
  define d where "d = a\<lparr>alphaExpNext := Suc e, ls_pcs := [Commit e], workersSolution := [?r]\<rparr>"
  have "ls_step flat_env a b"
    by (rule ls_step.move[where i = 0 and interrupted = False]) (simp_all add: a_def b_def flat_state_def set_pc_def)
  moreover have "ls_step flat_env b c"
    by (rule ls_step.move[where i = 0 and interrupted = False])
      (use adm pos in \<open>simp_all add: a_def b_def c_def flat_state_def set_pc_def flat_env_def\<close>)
  moreover have "ls_step flat_env c d"
    by (rule ls_step.move[where i = 0 and interrupted = False])
      (simp_all add: a_def c_def d_def flat_state_def set_pc_def flat_env_def evaluated_def descent_evaluated)
  moreover have "ls_step flat_env d (flat_state (Suc e) Fetch ?r)"
  proof (rule ls_step.move[where i = 0 and interrupted = False])
    have flags: "(replicate e True @ replicate (4 - e) False)[e := True] = True # replicate e True @ replicate (3 - e) False"
    proof -
      have "e = 0 \<or> e = 1 \<or> e = 2 \<or> e = 3" using assms by arith
      then show ?thesis by (auto simp: eval_nat_numeral)
    qed
    show "task_step flat_env False 0 (ls_pcs d ! 0) d = Inr (flat_state (Suc e) Fetch ?r)"
      using arm assms by (simp add: a_def d_def flat_state_def set_pc_def commit_result_def vec_set_def flags Let_def)
  qed (simp_all add: a_def d_def flat_state_def)
  ultimately show ?thesis unfolding a_def[symmetric] by (meson rtranclp.rtrancl_into_rtrancl rtranclp.rtrancl_refl)
qed

text \<open>
  C22. \<open>maxNumOfSearches\<close> can be one too small: for step lengths 1, 1/2, ... down to a minimum of 1/16 it allots 4
  flags, but the loop admits the 5 exponents 0 to 4 (the margin that is added to the ratio makes the quotient of the
  logarithms smaller, not larger). When no step is accepted, even a single task reaches a state in which it
  commits exponent 4 and writes outside \<open>alphaProcessed_\<close>.
\<close>

theorem alphaProcessed_overrun:
  "maxNumOfSearches sixteenth_settings = Inr 4 \<and> admitted sixteenth_settings 4 \<and>
   (\<exists>s. (ls_step flat_env)\<^sup>*\<^sup>* (flat_state 0 Fetch blank_solution) s \<and> ls_pcs s = [Commit 4] \<and>
      (\<forall>b. task_step flat_env b 0 (Commit 4) s = Inl Undefined))"
proof (intro conjI)
  have "maxNumOfSearches sixteenth_settings = Inr (Suc 3)"
    using double_bounds(1)
    by (intro searches_of_half) (simp_all add: sixteenth_settings_def default_line_search_settings_def limitEpsilon_def almost_eq_def
        almost_eq_prec_def double_epsilon_def power_divide)
  then show "maxNumOfSearches sixteenth_settings = Inr 4" by simp
  have adm: "almost_ge (step_length sixteenth_settings 4) (minStepLength sixteenth_settings) double_epsilon"
    by (simp add: step_length_def sixteenth_settings_def default_line_search_settings_def almost_ge_def almost_eq_prec_def
        double_epsilon_def power_divide)
  then show "admitted sixteenth_settings 4" by (simp add: admitted_def)
  let ?w = "\<lambda>e. descent_result (\<lambda>_. 0) (step_length sixteenth_settings e)"
  have pos: "0 < step_length sixteenth_settings 4" and arm: "\<not> armijoCondition flat_env 4 (?w 4)"
    by (simp_all add: armijoCondition_def flat_env_def descent_result_def step_length_def sixteenth_settings_def default_line_search_settings_def)
  have r0: "(ls_step flat_env)\<^sup>*\<^sup>* (flat_state 0 Fetch blank_solution) (flat_state 4 Fetch (?w 3))"
    using flat_round[of 0 blank_solution] flat_round[of 1 "?w 0"] flat_round[of 2 "?w 1"] flat_round[of 3 "?w 2"]
    by (simp add: eval_nat_numeral)
  define a where "a = flat_state 4 Fetch (?w 3)"
  define b where "b = a\<lparr>alphaExpNext := 5, ls_pcs := [Check 4]\<rparr>"
  define c where "c = a\<lparr>alphaExpNext := 5, ls_pcs := [Compute 4]\<rparr>"
  define d where "d = a\<lparr>alphaExpNext := 5, ls_pcs := [Commit 4], workersSolution := [?w 4]\<rparr>"
  from r0 have "(ls_step flat_env)\<^sup>*\<^sup>* (flat_state 0 Fetch blank_solution) a" by (simp add: a_def)
  moreover have "ls_step flat_env a b"
    by (rule ls_step.move[where i = 0 and interrupted = False]) (simp_all add: a_def b_def flat_state_def set_pc_def)
  moreover have "ls_step flat_env b c"
    by (rule ls_step.move[where i = 0 and interrupted = False])
      (use adm pos in \<open>simp_all add: a_def b_def c_def flat_state_def set_pc_def flat_env_def\<close>)
  moreover have "ls_step flat_env c d"
    by (rule ls_step.move[where i = 0 and interrupted = False])
      (simp_all add: a_def c_def d_def flat_state_def set_pc_def flat_env_def evaluated_def descent_evaluated)
  ultimately have "(ls_step flat_env)\<^sup>*\<^sup>* (flat_state 0 Fetch blank_solution) d" by (meson rtranclp.rtrancl_into_rtrancl)
  moreover have "task_step flat_env x 0 (Commit 4) d = Inl Undefined" for x
    using arm by (simp add: a_def d_def flat_state_def commit_result_def vec_set_def Let_def)
  moreover have "ls_pcs d = [Commit 4]" by (simp add: d_def)
  ultimately show "\<exists>s. (ls_step flat_env)\<^sup>*\<^sup>* (flat_state 0 Fetch blank_solution) s \<and> ls_pcs s = [Commit 4] \<and>
      (\<forall>b. task_step flat_env b 0 (Commit 4) s = Inl Undefined)" by blast
qed

end
