(* ===== verification/Levenberg_Marquardt.thy ===== *)
theory Levenberg_Marquardt
  imports Line_Search
begin

text \<open>
  \<open>mpc/ocs2_ddp/src/search_strategy/LevenbergMarquardtStrategy.cpp\<close>: the step that is tried, the ratio of the actual to
  the predicted reduction, the adaptation of the Riccati multiple, and the decision on the step. The properties: the
  bounds that the adaptation keeps, what an accepted step guarantees, when the strategy gives up, and that the terms it
  adds to the Riccati recursion are those of a penalty on the next state.
\<close>

section \<open>Settings and state\<close>

record lm_settings =
  minAcceptedPho :: scalar
  riccatiMultipleDefaultRatio :: scalar
  riccatiMultipleDefaultFactor :: scalar
  maxNumSuccessiveRejections :: nat

definition default_lm_settings :: lm_settings where
  "default_lm_settings =
     \<lparr>minAcceptedPho = 1 / 4, riccatiMultipleDefaultRatio = 2, riccatiMultipleDefaultFactor = 1 / 10 ^ 6,
      maxNumSuccessiveRejections = 5\<rparr>"

record lm_module =
  riccatiMultiple :: scalar
  riccatiMultipleAdaptiveRatio :: scalar
  numSuccessiveRejections :: nat

definition lm_reset :: lm_module where
  "lm_reset = \<lparr>riccatiMultiple = 0, riccatiMultipleAdaptiveRatio = 1, numSuccessiveRejections = 0\<rparr>"

section \<open>Run\<close>

definition reductionToPredictedReduction :: "search_settings \<Rightarrow> scalar \<Rightarrow> scalar \<Rightarrow> scalar" where
  "reductionToPredictedReduction base actualReduction expectedReduction =
     (if \<bar>actualReduction\<bar> < minRelCost base \<or> expectedReduction \<le> minRelCost base then 1
      else if actualReduction < 0 then 0
      else actualReduction / expectedReduction)"

definition lm_adapt :: "lm_settings \<Rightarrow> scalar \<Rightarrow> lm_module \<Rightarrow> lm_module" where
  "lm_adapt cfg pho m =
     (if pho < 1 / 4 then
        let ratio = max 1 (riccatiMultipleAdaptiveRatio m) * riccatiMultipleDefaultRatio cfg
        in m\<lparr>riccatiMultipleAdaptiveRatio := ratio,
             riccatiMultiple := max (ratio * riccatiMultiple m) (riccatiMultipleDefaultFactor cfg)\<rparr>
      else if pho > 3 / 4 then
        let ratio = min 1 (riccatiMultipleAdaptiveRatio m) / riccatiMultipleDefaultRatio cfg
        in m\<lparr>riccatiMultipleAdaptiveRatio := ratio,
             riccatiMultiple := (if ratio * riccatiMultiple m > riccatiMultipleDefaultFactor cfg then ratio * riccatiMultiple m else 0)\<rparr>
      else m\<lparr>riccatiMultipleAdaptiveRatio := 1\<rparr>)"

text \<open>
  The evaluation of the step is the one of the line search; \<open>abandoned\<close> is what an exception leaves of the solution.
\<close>

definition lm_evaluate ::
  "(scalar \<Rightarrow> search_solution \<Rightarrow> search_solution result) \<Rightarrow> (search_solution \<Rightarrow> search_solution) \<Rightarrow> scalar \<Rightarrow> search_solution \<Rightarrow> search_solution result" where
  "lm_evaluate compute abandoned expectedCost sol =
     (let expectedReduction = pi_merit (sol_performanceIndex sol) - expectedCost;
          stepLength = (if almost_eq expectedReduction 0 then 0 else 1)
      in case compute stepLength sol of
           Inr r \<Rightarrow> Inr r
         | Inl (Runtime_Error _) \<Rightarrow> Inr (failed_solution (abandoned sol))
         | Inl err \<Rightarrow> Inl err)"

text \<open>The adapted state stays when the strategy gives up: the exception leaves the object as it is.\<close>

definition lm_decide :: "lm_settings \<Rightarrow> scalar \<Rightarrow> lm_module \<Rightarrow> bool result \<times> lm_module" where
  "lm_decide cfg pho m =
     (if maxNumSuccessiveRejections cfg < numSuccessiveRejections m then
        (Inl (Runtime_Error ''The maximum number of successive solution rejections has been reached!''), m)
      else if minAcceptedPho cfg \<le> pho then (Inr True, m\<lparr>numSuccessiveRejections := 0\<rparr>)
      else (Inr False, m\<lparr>numSuccessiveRejections := numSuccessiveRejections m + 1\<rparr>))"

text \<open>The ratio of the actual to the predicted reduction, from the merits before and after.\<close>

definition lm_pho :: "search_settings \<Rightarrow> scalar \<Rightarrow> search_solution \<Rightarrow> search_solution \<Rightarrow> scalar" where
  "lm_pho base expectedCost sol r =
     (let prevMerit = pi_merit (sol_performanceIndex sol) in
      reductionToPredictedReduction base (prevMerit - pi_merit (sol_performanceIndex r)) (prevMerit - expectedCost))"

definition lm_run ::
  "search_settings \<Rightarrow> lm_settings \<Rightarrow> (scalar \<Rightarrow> search_solution \<Rightarrow> search_solution result) \<Rightarrow> (search_solution \<Rightarrow> search_solution) \<Rightarrow>
   scalar \<Rightarrow> search_solution \<Rightarrow> lm_module \<Rightarrow> (bool result \<times> search_solution \<times> lm_module) result" where
  "lm_run base cfg compute abandoned expectedCost sol m =
     bind_result (lm_evaluate compute abandoned expectedCost sol) (\<lambda>r.
     let pho = lm_pho base expectedCost sol r;
         decided = lm_decide cfg pho (lm_adapt cfg pho m)
     in Inr (fst decided, r, snd decided))"

text \<open>The run of the strategy's own rollout and problem.\<close>

definition LevenbergMarquardtStrategy_run ::
  "search_settings \<Rightarrow> lm_settings \<Rightarrow> rollout_fun \<Rightarrow> optimal_control_problem \<Rightarrow> (performance_index \<Rightarrow> scalar) \<Rightarrow> (search_solution \<Rightarrow> search_solution) \<Rightarrow>
   search_input \<Rightarrow> scalar \<Rightarrow> search_solution \<Rightarrow> lm_module \<Rightarrow> (bool result \<times> search_solution \<times> lm_module) result" where
  "LevenbergMarquardtStrategy_run base cfg rollout problem meritFunc abandoned inp expectedCost sol m =
     lm_run base cfg (computeSolution rollout problem meritFunc inp) abandoned expectedCost sol m"

section \<open>Convergence and the Riccati recursion\<close>

definition lm_checkConvergence :: "search_settings \<Rightarrow> lm_module \<Rightarrow> bool \<Rightarrow> performance_index \<Rightarrow> performance_index \<Rightarrow> bool" where
  "lm_checkConvergence base m unreliableControllerIncrement previous current =
     ((numSuccessiveRejections m = 0 \<and> \<not> unreliableControllerIncrement \<and> \<bar>total_cost current - total_cost previous\<bar> \<le> minRelCost base) \<and>
      pi_equalityConstraintsSSE current \<le> constraintTolerance base)"

definition lm_computeRiccatiModification :: "lm_module \<Rightarrow> model_data \<Rightarrow> (dmatrix \<times> vector_t \<times> dmatrix) result" where
  "lm_computeRiccatiModification m md =
     (let A = vl_dfdx (md_dynamics md); B = vl_dfdu (md_dynamics md); scaled = mscale (riccatiMultiple m) (tr B) in
      bind_result (mat_vmult scaled (md_dynamicsBias md)) (\<lambda>deltaGv.
      bind_result (mat_mult scaled A) (\<lambda>deltaGm.
      Inr (zero_mat (nat (md_stateDim md)) (nat (md_stateDim md)), deltaGv, deltaGm))))"

definition lm_augmentHamiltonianHessian :: "lm_module \<Rightarrow> model_data \<Rightarrow> dmatrix \<Rightarrow> dmatrix result" where
  "lm_augmentHamiltonianHessian m md Hm =
     (let B = vl_dfdu (md_dynamics md) in
      bind_result (mat_mult (mscale (riccatiMultiple m) (tr B)) B) (mat_add Hm))"

section \<open>Facts about the state\<close>

definition lm_settings_ok :: "lm_settings \<Rightarrow> bool" where
  "lm_settings_ok cfg = (1 \<le> riccatiMultipleDefaultRatio cfg \<and> 0 < riccatiMultipleDefaultFactor cfg)"

definition lm_inv :: "lm_settings \<Rightarrow> lm_module \<Rightarrow> bool" where
  "lm_inv cfg m =
     ((riccatiMultiple m = 0 \<or> riccatiMultipleDefaultFactor cfg \<le> riccatiMultiple m) \<and> 0 < riccatiMultipleAdaptiveRatio m \<and>
      numSuccessiveRejections m \<le> maxNumSuccessiveRejections cfg + 1)"

lemma lm_inv_reset: "lm_inv cfg lm_reset"
  by (simp add: lm_inv_def lm_reset_def)

lemma lm_inv_adapt: "lm_settings_ok cfg \<Longrightarrow> lm_inv cfg m \<Longrightarrow> lm_inv cfg (lm_adapt cfg pho m)"
  by (auto simp: lm_inv_def lm_adapt_def lm_settings_ok_def Let_def max_def min_def)

lemma lm_inv_decide: "lm_inv cfg m \<Longrightarrow> lm_inv cfg (snd (lm_decide cfg pho m))"
  by (auto simp: lm_inv_def lm_decide_def)

lemma lm_adapt_keeps [simp]: "numSuccessiveRejections (lm_adapt cfg pho m) = numSuccessiveRejections m"
  by (simp add: lm_adapt_def Let_def)

text \<open>The states that a sequence of runs and resets reaches, whatever is evaluated.\<close>

inductive lm_reachable :: "search_settings \<Rightarrow> lm_settings \<Rightarrow> lm_module \<Rightarrow> bool" for base cfg where
  start: "lm_reachable base cfg lm_reset"
| run: "lm_reachable base cfg m \<Longrightarrow> lm_run base cfg compute abandoned expectedCost sol m = Inr (accepted, r, m') \<Longrightarrow> lm_reachable base cfg m'"

lemma lm_run_eq:
  "(lm_run base cfg compute abandoned expectedCost sol m = Inr (accepted, r, m')) =
   (lm_evaluate compute abandoned expectedCost sol = Inr r \<and>
    lm_decide cfg (lm_pho base expectedCost sol r) (lm_adapt cfg (lm_pho base expectedCost sol r) m) = (accepted, m'))"
  by (auto simp: lm_run_def result_simps Let_def prod_eq_iff)

lemma lm_reachable_inv: "lm_reachable base cfg m \<Longrightarrow> lm_settings_ok cfg \<Longrightarrow> lm_inv cfg m"
proof (induction rule: lm_reachable.induct)
  case start
  then show ?case by (simp add: lm_inv_reset)
next
  case (run m compute abandoned expectedCost sol accepted r m')
  then have "lm_inv cfg (lm_adapt cfg pho m)" for pho by (simp add: lm_inv_adapt)
  then show ?case using lm_inv_decide run.hyps(2) unfolding lm_run_eq by (metis snd_conv)
qed

text \<open>
  C24. Whatever the evaluations return, the state that runs reach from \<open>reset\<close> keeps its bounds: the Riccati multiple is zero or
  at least its default factor, the adaptive ratio is positive, and the counter of rejections never exceeds the maximum by more
  than one. When it does exceed it, a run throws, even if its step is one to accept, and leaves the counter where it is: only
  \<open>reset\<close> helps.
\<close>

theorem lm_state_bounded:
  assumes "lm_settings_ok cfg" "lm_reachable base cfg m"
  shows "(riccatiMultiple m = 0 \<or> riccatiMultipleDefaultFactor cfg \<le> riccatiMultiple m) \<and> 0 < riccatiMultipleAdaptiveRatio m \<and>
    numSuccessiveRejections m \<le> maxNumSuccessiveRejections cfg + 1 \<and>
    (numSuccessiveRejections m = maxNumSuccessiveRejections cfg + 1 \<longrightarrow>
       (\<forall>compute abandoned expectedCost sol accepted r m'. lm_run base cfg compute abandoned expectedCost sol m = Inr (accepted, r, m') \<longrightarrow>
          (\<exists>msg. accepted = Inl (Runtime_Error msg)) \<and> numSuccessiveRejections m' = maxNumSuccessiveRejections cfg + 1))"
  using lm_reachable_inv[OF assms(2,1)] by (auto simp: lm_inv_def lm_run_eq lm_decide_def)

text \<open>
  C25. A step that is accepted with a positive \<open>minAcceptedPho\<close> lowers the merit by at least that share of the predicted
  reduction, unless the change is below \<open>minRelCost\<close> or so is the predicted reduction.
\<close>

theorem lm_accepted_descent:
  assumes "lm_run base cfg compute abandoned expectedCost sol m = Inr (Inr True, r, m')" "0 < minAcceptedPho cfg" "0 \<le> minRelCost base"
    and "minRelCost base \<le> \<bar>pi_merit (sol_performanceIndex sol) - pi_merit (sol_performanceIndex r)\<bar>"
    and "minRelCost base < pi_merit (sol_performanceIndex sol) - expectedCost"
  shows "pi_merit (sol_performanceIndex r) \<le>
      pi_merit (sol_performanceIndex sol) - minAcceptedPho cfg * (pi_merit (sol_performanceIndex sol) - expectedCost) \<and>
    pi_merit (sol_performanceIndex r) < pi_merit (sol_performanceIndex sol) \<and> numSuccessiveRejections m' = 0"
proof -
  let ?expected = "pi_merit (sol_performanceIndex sol) - expectedCost"
  from assms(1) have "minAcceptedPho cfg \<le> lm_pho base expectedCost sol r" "numSuccessiveRejections m' = 0"
    by (auto simp: lm_run_eq lm_decide_def split: if_splits)
  moreover from this(1) assms(2,4,5)
  have "lm_pho base expectedCost sol r = (pi_merit (sol_performanceIndex sol) - pi_merit (sol_performanceIndex r)) / ?expected"
    by (auto simp: lm_pho_def reductionToPredictedReduction_def Let_def split: if_splits)
  moreover have "0 < ?expected" using assms(3,5) by simp
  ultimately have "minAcceptedPho cfg * ?expected \<le> pi_merit (sol_performanceIndex sol) - pi_merit (sol_performanceIndex r)"
    by (simp add: pos_le_divide_eq)
  moreover have "0 < minAcceptedPho cfg * ?expected" using assms(2) \<open>0 < ?expected\<close> by simp
  ultimately show ?thesis using \<open>numSuccessiveRejections m' = 0\<close> by linarith
qed

text \<open>
  The exception to it: when the predicted reduction is at most \<open>minRelCost\<close>, the ratio is 1 whatever happened, so a rollout
  that threw is accepted, and the solution is left with the largest \<open>double\<close> as its merit and its cost.
\<close>

theorem lm_accepts_failed_rollout:
  assumes "\<And>a. compute a sol = Inl (Runtime_Error msg)" "pi_merit (sol_performanceIndex sol) - expectedCost \<le> minRelCost base"
    and "numSuccessiveRejections m \<le> maxNumSuccessiveRejections cfg" "minAcceptedPho cfg \<le> 1"
  shows "\<exists>r m'. lm_run base cfg compute abandoned expectedCost sol m = Inr (Inr True, r, m') \<and>
    pi_merit (sol_performanceIndex r) = double_max \<and> pi_cost (sol_performanceIndex r) = double_max \<and> numSuccessiveRejections m' = 0"
  using assms by (auto simp: lm_run_eq lm_evaluate_def Let_def lm_pho_def reductionToPredictedReduction_def lm_decide_def failed_solution_def)

section \<open>The terms of the Riccati recursion\<close>

lemma dot_scaled_gram:
  assumes "length u = m_cols B" "length v = m_rows B"
  shows "dot u (mv (mscale r (tr B)) v) = r * dot (mv B u) v"
  using assms dot_tr_left[of v B u] dot_comm[of v "mv B u"] by (simp add: mv_mscale dot_vscale_right)

lemma dot_square_vadd: "length u = length v \<Longrightarrow> dot (vadd u v) (vadd u v) = dot u u + 2 * dot u v + dot v v"
  using dot_comm[of u v] by (simp add: dot_vadd_left dot_vadd_right)

text \<open>
  \<open>computeRiccatiModification\<close> and \<open>augmentHamiltonianHessian\<close> of the Levenberg-Marquardt strategy together add to the cost
  the input-dependent part of \<open>riccatiMultiple / 2\<close> times the squared norm of the next state \<open>A x + B u + Hv\<close>; the rest of it
  does not depend on the input.
\<close>

theorem lm_modification_is_tikhonov:
  assumes "linear_dims nx nx nu (md_dynamics md)" "length (md_dynamicsBias md) = nx" "md_stateDim md = int nx"
    and "m_rows Hm = nu" "m_cols Hm = nu" "length x = nx" "length u = nu"
  shows "\<exists>gv gm Ha. lm_computeRiccatiModification m md = Inr (zero_mat nx nx, gv, gm) \<and> lm_augmentHamiltonianHessian m md Hm = Inr Ha \<and>
    (let free = vadd (mv (vl_dfdx (md_dynamics md)) x) (md_dynamicsBias md); full = vadd (mv (vl_dfdu (md_dynamics md)) u) free;
         r = riccatiMultiple m
     in form Hm u / 2 + r / 2 * dot full full = form Ha u / 2 + dot u (vadd gv (mv gm x)) + r / 2 * dot free free)"
proof -
  define A B h r where "A = vl_dfdx (md_dynamics md)" "B = vl_dfdu (md_dynamics md)" "h = md_dynamicsBias md" "r = riccatiMultiple m"
  note defs = A_B_h_r_def
  have dims: "m_rows A = nx" "m_cols A = nx" "m_rows B = nx" "m_cols B = nu" "length h = nx"
    using assms(1,2) by (simp_all add: linear_dims_def defs)
  let ?S = "mscale r (tr B)"
  have c: "lm_computeRiccatiModification m md = Inr (zero_mat nx nx, mv ?S h, mm ?S A)"
    using dims assms(3) by (simp add: lm_computeRiccatiModification_def Let_def defs[symmetric] mat_checked)
  have a: "lm_augmentHamiltonianHessian m md Hm = Inr (madd Hm (mm ?S B))"
    using dims assms(4,5) by (simp add: lm_augmentHamiltonianHessian_def Let_def defs[symmetric] mat_checked)
  have f: "form (madd Hm (mm ?S B)) u = form Hm u + r * dot (mv B u) (mv B u)"
    using dims assms by (simp add: form_madd, simp add: form_def mv_mm dot_scaled_gram)
  have g: "dot u (vadd (mv ?S h) (mv (mm ?S A) x)) = r * dot (mv B u) (vadd (mv A x) h)"
    using dims assms by (simp add: dot_vadd_right mv_mm dot_scaled_gram algebra_simps)
  have s: "dot (vadd (mv B u) (vadd (mv A x) h)) (vadd (mv B u) (vadd (mv A x) h)) =
      dot (mv B u) (mv B u) + 2 * dot (mv B u) (vadd (mv A x) h) + dot (vadd (mv A x) h) (vadd (mv A x) h)"
    using dims by (intro dot_square_vadd) simp
  show ?thesis unfolding defs[symmetric] Let_def c a
    by (rule exI[of _ "mv ?S h"], rule exI[of _ "mm ?S A"], rule exI[of _ "madd Hm (mm ?S B)"]) (simp add: f g s algebra_simps)
qed

section \<open>Instances\<close>

definition merit_solution :: "scalar \<Rightarrow> search_solution" where
  "merit_solution x = \<lparr>sol_avgTimeStep = 0, sol_dualSolution = scratch_dual, sol_primalSolution = new_PrimalSolution,
     sol_problemMetrics = \<lparr>pm_final = new_Metrics, pm_preJumps = [], pm_intermediates = []\<rparr>,
     sol_performanceIndex = PerformanceIndex x x 0 0 0 0 0 0\<rparr>"

lemma merit_solution_merit [simp]: "pi_merit (sol_performanceIndex (merit_solution x)) = x"
  by (simp add: merit_solution_def)

text \<open>No rejection is allowed: the first one uses the counter up.\<close>

lemma lm_state_bounded_witness:
  "\<exists>m accepted r m'. lm_reachable default_search_settings (default_lm_settings\<lparr>maxNumSuccessiveRejections := 0\<rparr>) m \<and>
     lm_run default_search_settings (default_lm_settings\<lparr>maxNumSuccessiveRejections := 0\<rparr>) (\<lambda>a s. Inr (merit_solution 2)) id 0 (merit_solution 10) m =
       Inr (accepted, r, m') \<and> (\<exists>msg. accepted = Inl (Runtime_Error msg))"
proof -
  let ?cfg = "default_lm_settings\<lparr>maxNumSuccessiveRejections := 0\<rparr>" and ?base = default_search_settings
  let ?m = "snd (lm_decide ?cfg 0 (lm_adapt ?cfg 0 lm_reset))"
  have "lm_run ?base ?cfg (\<lambda>a s. Inr (merit_solution 20)) id 0 (merit_solution 10) lm_reset = Inr (Inr False, merit_solution 20, ?m)"
    by (simp add: lm_run_eq lm_evaluate_def lm_pho_def reductionToPredictedReduction_def lm_decide_def default_search_settings_def
        default_lm_settings_def lm_reset_def)
  then have r: "lm_reachable ?base ?cfg ?m" by (rule lm_reachable.run[OF lm_reachable.start])
  have n: "numSuccessiveRejections ?m = maxNumSuccessiveRejections ?cfg + 1"
    by (simp add: lm_decide_def lm_reset_def default_lm_settings_def)
  obtain accepted r m' where run: "lm_run ?base ?cfg (\<lambda>a s. Inr (merit_solution 2)) id 0 (merit_solution 10) ?m = Inr (accepted, r, m')"
    by (simp add: lm_run_def lm_evaluate_def Let_def)
  from lm_state_bounded[OF _ r] n run have "\<exists>msg. accepted = Inl (Runtime_Error msg)"
    by (simp add: lm_settings_ok_def default_lm_settings_def)
  with r run show ?thesis by blast
qed

lemma lm_accepted_descent_witness:
  "\<exists>m'. lm_run default_search_settings default_lm_settings (\<lambda>a s. Inr (merit_solution 2)) id 0 (merit_solution 10) lm_reset =
     Inr (Inr True, merit_solution 2, m') \<and> (2 :: real) \<le> 10 - (1 / 4) * 10 \<and> numSuccessiveRejections m' = 0"
proof -
  obtain m' where run: "lm_run default_search_settings default_lm_settings (\<lambda>a s. Inr (merit_solution 2)) id 0 (merit_solution 10) lm_reset =
      Inr (Inr True, merit_solution 2, m')"
    by (simp add: lm_run_eq lm_evaluate_def lm_pho_def reductionToPredictedReduction_def lm_decide_def default_search_settings_def
        default_lm_settings_def lm_reset_def Let_def)
  from lm_accepted_descent[OF this] run show ?thesis by (simp add: default_lm_settings_def default_search_settings_def)
qed

lemma lm_accepts_failed_rollout_witness:
  "\<exists>r m'. lm_run default_search_settings default_lm_settings (\<lambda>a s. Inl (Runtime_Error ''diverged'')) id 10 (merit_solution 10) lm_reset =
     Inr (Inr True, r, m') \<and> pi_merit (sol_performanceIndex r) = double_max"
  using lm_accepts_failed_rollout[of "\<lambda>a s. Inl (Runtime_Error ''diverged'')" "merit_solution 10" "''diverged''" 10 default_search_settings
      lm_reset default_lm_settings id]
  by (auto simp: default_search_settings_def default_lm_settings_def lm_reset_def)

lemma lm_modification_witness:
  "\<exists>gv gm Ha. lm_augmentHamiltonianHessian (lm_reset\<lparr>riccatiMultiple := 2\<rparr>) (scalar_model 1\<lparr>md_dynamicsBias := [3]\<rparr>) (Mat 1 1 [[1]]) = Inr Ha \<and>
     lm_computeRiccatiModification (lm_reset\<lparr>riccatiMultiple := 2\<rparr>) (scalar_model 1\<lparr>md_dynamicsBias := [3]\<rparr>) = Inr (zero_mat 1 1, gv, gm)"
  using lm_modification_is_tikhonov[of 1 1 "scalar_model 1\<lparr>md_dynamicsBias := [3]\<rparr>" "Mat 1 1 [[1]]" "[1]" "[1]" "lm_reset\<lparr>riccatiMultiple := 2\<rparr>"]
  by (auto simp: scalar_model_def linear_dims_def)

end
