(* ===== verification/Riccati_Equations.thy ===== *)
theory Riccati_Equations
  imports Linear_Algebra
begin

text \<open>
  \<open>mpc/ocs2_ddp/riccati_equations\<close>: the modification terms, the transversality conditions of a jump, and the
  difference equations of iLQR and of its risk-sensitive variant (\<open>DiscreteTimeRiccatiEquations.cpp\<close>). The value function
  after a step is \<open>s + Sv' x + x' Sm x / 2\<close>. The properties: one application of the equations gives the cost of the policy
  that it returns, and the least cost when the Hessian of the Hamiltonian is the identity, as the projection makes it; a jump
  adds its cost exactly; the risk-sensitive variant reads its own output.
\<close>

section \<open>Equations\<close>

record riccati_modification =
  rm_time :: scalar
  rm_deltaQm :: dmatrix
  rm_deltaGm :: dmatrix
  rm_deltaGv :: vector_t
  rm_hamiltonianHessian :: dmatrix
  rm_constraintRangeProjector :: dmatrix
  rm_constraintNullProjector :: dmatrix

definition new_RiccatiModification :: riccati_modification where
  "new_RiccatiModification = \<lparr>rm_time = 0, rm_deltaQm = empty_mat, rm_deltaGm = empty_mat, rm_deltaGv = [], rm_hamiltonianHessian = empty_mat,
     rm_constraintRangeProjector = empty_mat, rm_constraintNullProjector = empty_mat\<rparr>"

text \<open>\<open>Sm\<close>, \<open>Sv\<close> and \<open>s\<close>.\<close>

type_synonym riccati_value = "dmatrix \<times> vector_t \<times> scalar"

definition riccatiTransversalityConditions :: "model_data \<Rightarrow> riccati_value \<Rightarrow> riccati_value result" where
  "riccatiTransversalityConditions jump nxt =
     (case nxt of (Sm, Sv, s) \<Rightarrow>
      let A = vl_dfdx (md_dynamics jump); Hv = md_dynamicsBias jump; c = md_cost jump in
      bind_result (mat_mult (tr Sm) A) (\<lambda>SmTransAm.
      bind_result (mat_mult (tr SmTransAm) A) (\<lambda>ASA.
      bind_result (mat_add (dfdxx c) ASA) (\<lambda>SmPre.
      bind_result (mat_vmult Sm Hv) (\<lambda>SmHv.
      bind_result (vec_add Sv SmHv) (\<lambda>w.
      bind_result (mat_vmult (tr A) w) (\<lambda>Aw.
      bind_result (vec_add (dfdx c) Aw) (\<lambda>SvPre.
      bind_result (vec_add Sv (vscale (1 / 2) SmHv)) (\<lambda>w2.
      bind_result (vec_dot Hv w2) (\<lambda>d.
      Inr (SmPre, SvPre, s + appr_f c + d)))))))))))"

text \<open>
  \<open>computeMapILQR\<close> returns the projected feedback, the projected feedforward, and the value of the current time. The products
  that the cache object keeps are only read within the call.
\<close>

definition computeMapILQR ::
  "bool \<Rightarrow> model_data \<Rightarrow> riccati_modification \<Rightarrow> riccati_value \<Rightarrow> (dmatrix \<times> vector_t \<times> riccati_value) result" where
  "computeMapILQR reducedFormRiccati md rm nxt =
     (case nxt of (SmNext, SvNext, sNext) \<Rightarrow>
      let A = vl_dfdx (md_dynamics md); B = vl_dfdu (md_dynamics md); Hv = md_dynamicsBias md; c = md_cost md in
      bind_result (mat_vmult SmNext Hv) (\<lambda>SmHv.
      bind_result (mat_mult SmNext A) (\<lambda>SmA.
      bind_result (mat_mult SmNext B) (\<lambda>SmB.
      bind_result (vec_add SvNext SmHv) (\<lambda>SvSmHv.
      bind_result (bind_result (mat_mult (tr B) SmA) (mat_add (dfdux c))) (\<lambda>Gm.
      bind_result (bind_result (mat_vmult (tr B) SvSmHv) (vec_add (dfdu c))) (\<lambda>Gv.
      bind_result (mat_add (mneg Gm) (mneg (rm_deltaGm rm))) (\<lambda>Km.
      bind_result (vec_add (vneg Gv) (vneg (rm_deltaGv rm))) (\<lambda>Lv.
      bind_result (mat_mult (tr Km) Gm) (\<lambda>KG.
      bind_result (bind_result (mat_mult (tr SmA) A) (\<lambda>ASA. bind_result (mat_add (dfdxx c) (rm_deltaQm rm)) (\<lambda>Q. mat_add Q ASA))) (\<lambda>Sm.
      bind_result (bind_result (mat_vmult (tr A) SvSmHv) (vec_add (dfdx c))) (\<lambda>Sv.
      bind_result (bind_result (mat_vmult (tr Gm) Lv) (vec_add Sv)) (\<lambda>Sv.
      bind_result (vec_dot Hv SvSmHv) (\<lambda>d1.
      bind_result (vec_dot Hv SmHv) (\<lambda>d2.
      bind_result (vec_dot Lv Gv) (\<lambda>d3.
      let s = sNext + appr_f c + d1 - 1 / 2 * d2 in
      if reducedFormRiccati then
        bind_result (mat_add Sm KG) (\<lambda>Sm. Inr (Km, Lv, Sm, Sv, s + 1 / 2 * d3))
      else
        bind_result (bind_result (mat_mult (tr SmB) B) (mat_add (dfduu c))) (\<lambda>Hm.
        bind_result (mat_mult Hm Km) (\<lambda>HK.
        bind_result (mat_vmult Hm Lv) (\<lambda>HL.
        bind_result (bind_result (mat_add KG (tr KG)) (mat_add Sm)) (\<lambda>Sm.
        bind_result (bind_result (mat_mult (tr Km) HK) (mat_add Sm)) (\<lambda>Sm.
        bind_result (bind_result (mat_vmult (tr Km) Gv) (vec_add Sv)) (\<lambda>Sv.
        bind_result (bind_result (mat_vmult (tr HK) Lv) (vec_add Sv)) (\<lambda>Sv.
        bind_result (vec_dot Lv HL) (\<lambda>d4.
        Inr (Km, Lv, Sm, Sv, s + d3 + 1 / 2 * d4)))))))))))))))))))))))))"

text \<open>
  The risk-sensitive variant. The \<open>LDLT\<close> factorisation gives the diagonal and the inverse; a diagonal entry that is not
  positive has no logarithm. \<open>SvOld\<close> is what the output argument \<open>Sv\<close> held before the call.
\<close>

record ldlt_solver =
  ldlt_vectorD :: "dmatrix \<Rightarrow> vector_t"
  ldlt_inverse :: "dmatrix \<Rightarrow> dmatrix"

definition computeMapILEG ::
  "ldlt_solver \<Rightarrow> bool \<Rightarrow> scalar \<Rightarrow> model_data \<Rightarrow> riccati_modification \<Rightarrow> vector_t \<Rightarrow> riccati_value \<Rightarrow> (dmatrix \<times> vector_t \<times> riccati_value) result" where
  "computeMapILEG ldlt reducedFormRiccati riskSensitiveCoeff md rm SvOld nxt =
     (case nxt of (SmNext, SvNext, sNext) \<Rightarrow>
      bind_result (mat_vmult (md_dynamicsCovariance md) SvNext) (\<lambda>SigmaSv.
      bind_result (bind_result (mat_mult SmNext (md_dynamicsCovariance md)) (\<lambda>P. mat_add (identity (nat (md_stateDim md))) (mneg P))) (\<lambda>M.
      bind_result (if list_all (\<lambda>d. 0 < d) (ldlt_vectorD ldlt M) then Inr (sum_list (map ln (ldlt_vectorD ldlt M))) else Inl Undefined) (\<lambda>det.
      let Minv = ldlt_inverse ldlt M in
      bind_result (mat_mult Minv SmNext) (\<lambda>SmStochastic.
      bind_result (mat_vmult Minv SvNext) (\<lambda>SvStochastic.
      bind_result (vec_dot SvOld SigmaSv) (\<lambda>d.
      bind_result (if riskSensitiveCoeff = 0 then Inl Undefined else Inr (1 / 2 / riskSensitiveCoeff)) (\<lambda>h.
      computeMapILQR reducedFormRiccati md rm
        (SmStochastic, SvStochastic, sNext + riskSensitiveCoeff * d - h * det)))))))))"

record riccati_settings =
  reducedFormRiccati :: bool
  isRiskSensitive :: bool
  riskSensitiveCoeff :: scalar

definition computeMap ::
  "ldlt_solver \<Rightarrow> riccati_settings \<Rightarrow> model_data \<Rightarrow> riccati_modification \<Rightarrow> vector_t \<Rightarrow> riccati_value \<Rightarrow> (dmatrix \<times> vector_t \<times> riccati_value) result" where
  "computeMap ldlt cfg md rm SvOld nxt =
     (if isRiskSensitive cfg then computeMapILEG ldlt (reducedFormRiccati cfg) (riskSensitiveCoeff cfg) md rm SvOld nxt
      else computeMapILQR (reducedFormRiccati cfg) md rm nxt)"

section \<open>Values\<close>

definition triple_value :: "riccati_value \<Rightarrow> vector_t \<Rightarrow> scalar" where
  "triple_value V x = (case V of (Sm, Sv, s) \<Rightarrow> s + dot Sv x + form Sm x / 2)"

definition next_state :: "model_data \<Rightarrow> vector_t \<Rightarrow> vector_t \<Rightarrow> vector_t" where
  "next_state md x u = vadd (vadd (mv (vl_dfdx (md_dynamics md)) x) (md_dynamicsBias md)) (mv (vl_dfdu (md_dynamics md)) u)"

text \<open>The cost of an input: that of the step, and that of the rest.\<close>

definition step_value :: "model_data \<Rightarrow> riccati_value \<Rightarrow> vector_t \<Rightarrow> vector_t \<Rightarrow> scalar" where
  "step_value md nxt x u = quadratic_value (md_cost md) x u + triple_value nxt (next_state md x u)"

definition value_dims :: "nat \<Rightarrow> riccati_value \<Rightarrow> bool" where
  "value_dims nx V = (case V of (Sm, Sv, s) \<Rightarrow> m_rows Sm = nx \<and> m_cols Sm = nx \<and> length Sv = nx \<and> symmetric Sm)"

definition step_dims :: "nat \<Rightarrow> nat \<Rightarrow> model_data \<Rightarrow> bool" where
  "step_dims nx nv md =
     (quadratic_dims nx nv (md_cost md) \<and> m_rows (vl_dfdx (md_dynamics md)) = nx \<and> m_cols (vl_dfdx (md_dynamics md)) = nx \<and>
      m_rows (vl_dfdu (md_dynamics md)) = nx \<and> m_cols (vl_dfdu (md_dynamics md)) = nv \<and> length (md_dynamicsBias md) = nx)"

definition modification_dims :: "nat \<Rightarrow> nat \<Rightarrow> riccati_modification \<Rightarrow> bool" where
  "modification_dims nx nv rm =
     (m_rows (rm_deltaQm rm) = nx \<and> m_cols (rm_deltaQm rm) = nx \<and> m_rows (rm_deltaGm rm) = nv \<and> m_cols (rm_deltaGm rm) = nx \<and>
      length (rm_deltaGv rm) = nv)"

lemma mv_tr_symmetric: "symmetric S \<Longrightarrow> mv (tr S) x = mv S x"
  by (intro nth_equalityI) (simp_all add: symmetric_def)

lemma form_congruence:
  assumes "symmetric S" "m_rows A = m_rows S" "length x = m_cols A"
  shows "form (mm (tr (mm S A)) A) x = form S (mv A x)"
proof -
  have "m_cols S = m_rows S" using assms(1) by (simp add: symmetric_def)
  then show ?thesis using assms dot_comm[of "mv A x" "mv S (mv A x)"]
    by (simp add: form_def mv_mm mv_tr_mm dot_tr_left mv_tr_symmetric[OF assms(1)])
qed

lemma form_vadd:
  assumes "symmetric S" "length x = m_rows S" "length y = m_rows S"
  shows "form S (vadd x y) = form S x + 2 * dot y (mv S x) + form S y"
proof -
  have "m_cols S = m_rows S" using assms(1) by (simp add: symmetric_def)
  then show ?thesis using assms symmetric_dot[OF assms(1), of x y]
    by (simp add: form_def mv_vadd dot_vadd_left dot_vadd_right)
qed

lemma triple_value_vadd:
  assumes "value_dims nx (S, v, s)" "length x = nx" "length y = nx"
  shows "triple_value (S, v, s) (vadd x y) = triple_value (S, v, s) x + dot y (vadd v (mv S x)) + form S y / 2"
  using assms by (simp add: triple_value_def value_dims_def form_vadd dot_vadd_right dot_comm[of v y] field_simps)

section \<open>One step\<close>

text \<open>The gradient of the Hamiltonian with respect to the input is \<open>Gm x + Gv\<close>, its Hessian \<open>Hm\<close>.\<close>

definition gm_of :: "model_data \<Rightarrow> riccati_value \<Rightarrow> dmatrix" where
  "gm_of md nxt = (case nxt of (S, v, s) \<Rightarrow> madd (dfdux (md_cost md)) (mm (tr (vl_dfdu (md_dynamics md))) (mm S (vl_dfdx (md_dynamics md)))))"

definition gv_of :: "model_data \<Rightarrow> riccati_value \<Rightarrow> vector_t" where
  "gv_of md nxt = (case nxt of (S, v, s) \<Rightarrow>
     vadd (dfdu (md_cost md)) (mv (tr (vl_dfdu (md_dynamics md))) (vadd v (mv S (md_dynamicsBias md)))))"

definition hm_of :: "model_data \<Rightarrow> riccati_value \<Rightarrow> dmatrix" where
  "hm_of md nxt = (case nxt of (S, v, s) \<Rightarrow> madd (dfduu (md_cost md)) (mm (tr (mm S (vl_dfdu (md_dynamics md)))) (vl_dfdu (md_dynamics md))))"

text \<open>The cost without an input.\<close>

definition free_value :: "model_data \<Rightarrow> riccati_value \<Rightarrow> vector_t \<Rightarrow> scalar" where
  "free_value md nxt x =
     appr_f (md_cost md) + dot (dfdx (md_cost md)) x + form (dfdxx (md_cost md)) x / 2 +
     triple_value nxt (vadd (mv (vl_dfdx (md_dynamics md)) x) (md_dynamicsBias md))"

lemma step_value_expand:
  assumes d: "step_dims nx nv md" and V: "value_dims nx nxt" and x: "length x = nx" and u: "length u = nv"
  shows "step_value md nxt x u = free_value md nxt x + dot u (vadd (mv (gm_of md nxt) x) (gv_of md nxt)) + form (hm_of md nxt) u / 2"
proof -
  obtain S v s where nxt: "nxt = (S, v, s)" by (cases nxt)
  define A B h where "A = vl_dfdx (md_dynamics md)" "B = vl_dfdu (md_dynamics md)" "h = md_dynamicsBias md"
  note fold = A_B_h_def[symmetric]
  have dims: "m_rows A = nx" "m_cols A = nx" "m_rows B = nx" "m_cols B = nv" "length h = nx" "m_rows S = nx" "m_cols S = nx" "length v = nx"
      "quadratic_dims nx nv (md_cost md)"
    using d V by (simp_all add: step_dims_def value_dims_def nxt A_B_h_def)
  note q = dims(9)[unfolded quadratic_dims_def]
  have S: "symmetric S" using V by (simp add: value_dims_def nxt)
  let ?y = "vadd (mv A x) h" and ?w = "mv B u"
  have "form (mm (tr (mm S B)) B) u = form S ?w" using dims S u by (simp add: form_congruence)
  then have hm: "form (hm_of md nxt) u = form (dfduu (md_cost md)) u + form S ?w"
    using dims q u by (simp add: hm_of_def nxt fold form_madd)
  have "dot u (vadd (mv (gm_of md nxt) x) (gv_of md nxt)) =
      dot u (mv (dfdux (md_cost md)) x) + dot (dfdu (md_cost md)) u + dot ?w (vadd v (mv S ?y))"
    using dims q u x dot_comm[of u "dfdu (md_cost md)"] dot_comm[of v ?w] dot_comm[of "mv S h" ?w] dot_comm[of "mv S (mv A x)" ?w]
    by (simp add: gm_of_def gv_of_def nxt fold mv_madd mv_mm dot_vadd_right dot_tr_left mv_vadd)
  moreover have "step_value md nxt x u = quadratic_value (md_cost md) x u + triple_value nxt ?y + dot ?w (vadd v (mv S ?y)) + form S ?w / 2"
    using triple_value_vadd[of nx S v s ?y ?w] V dims by (simp add: step_value_def next_state_def fold nxt)
  ultimately show ?thesis using hm by (simp add: quadratic_value_def free_value_def form_def fold)
qed

text \<open>The quadratic that both forms of the equations start from.\<close>

lemma free_value_triple:
  assumes d: "step_dims nx nv md" and V: "value_dims nx (S, v, s)" and x: "length x = nx"
    and Q: "m_rows D = nx" "m_cols D = nx"
  defines "A \<equiv> vl_dfdx (md_dynamics md)" and "h \<equiv> md_dynamicsBias md" and "c \<equiv> md_cost md"
  shows "free_value md (S, v, s) x + form D x / 2 =
    triple_value (madd (madd (dfdxx c) D) (mm (tr (mm S A)) A), vadd (dfdx c) (mv (tr A) (vadd v (mv S h))),
                  s + appr_f c + dot h (vadd v (mv S h)) - 1 / 2 * dot h (mv S h)) x"
proof -
  have dims: "m_rows A = nx" "m_cols A = nx" "length h = nx" "m_rows S = nx" "m_cols S = nx" "length v = nx" "quadratic_dims nx nv c"
    using d V by (simp_all add: step_dims_def value_dims_def A_def h_def c_def)
  note q = dims(7)[unfolded quadratic_dims_def]
  have S: "symmetric S" using V by (simp add: value_dims_def)
  have "form (mm (tr (mm S A)) A) x = form S (mv A x)" using dims S x by (simp add: form_congruence)
  then have f: "form (madd (madd (dfdxx c) D) (mm (tr (mm S A)) A)) x = form (dfdxx c) x + form D x + form S (mv A x)"
    using dims q Q x by (simp add: form_madd)
  have "triple_value (S, v, s) (vadd (mv A x) h) = s + dot v (mv A x) + form S (mv A x) / 2 + dot h (vadd v (mv S (mv A x))) + form S h / 2"
    using triple_value_vadd[of nx S v s "mv A x" h] V dims by (simp add: triple_value_def)
  moreover have "dot (mv (tr A) (vadd v (mv S h))) x = dot v (mv A x) + dot h (mv S (mv A x))"
    using dims x symmetric_dot[OF S, of h "mv A x"] dot_comm[of "mv S h" "mv A x"]
    by (simp add: dot_mv_tr dot_vadd_left)
  ultimately show ?thesis
    using f dims q x by (simp add: free_value_def triple_value_def A_def[symmetric] h_def[symmetric] c_def[symmetric] dot_vadd_left
        dot_vadd_right form_def field_simps)
qed

section \<open>The equations as a whole\<close>

lemma computeMapILQR_eq:
  assumes d: "step_dims nx nv md" and V: "value_dims nx (S, v, s)" and m: "modification_dims nx nv rm"
  defines "A \<equiv> vl_dfdx (md_dynamics md)" and "h \<equiv> md_dynamicsBias md" and "c \<equiv> md_cost md"
    and "G \<equiv> gm_of md (S, v, s)" and "g \<equiv> gv_of md (S, v, s)" and "H \<equiv> hm_of md (S, v, s)"
  defines "K \<equiv> madd (mneg G) (mneg (rm_deltaGm rm))" and "L \<equiv> vadd (vneg g) (vneg (rm_deltaGv rm))"
  defines "S0 \<equiv> madd (madd (dfdxx c) (rm_deltaQm rm)) (mm (tr (mm S A)) A)" and "v0 \<equiv> vadd (dfdx c) (mv (tr A) (vadd v (mv S h)))"
    and "s0 \<equiv> s + appr_f c + dot h (vadd v (mv S h)) - 1 / 2 * dot h (mv S h)"
  shows "computeMapILQR reduced md rm (S, v, s) = Inr (K, L,
    if reduced then (madd S0 (mm (tr K) G), vadd v0 (mv (tr G) L), s0 + 1 / 2 * dot L g)
    else (madd (madd S0 (madd (mm (tr K) G) (tr (mm (tr K) G)))) (mm (tr K) (mm H K)),
          vadd (vadd (vadd v0 (mv (tr G) L)) (mv (tr K) g)) (mv (tr (mm H K)) L), s0 + dot L g + 1 / 2 * dot L (mv H L)))"
  using assms(1-3)
  by (simp add: computeMapILQR_def Let_def mat_checked step_dims_def value_dims_def modification_dims_def quadratic_dims_def
      A_def h_def c_def G_def g_def H_def K_def L_def S0_def v0_def s0_def gm_of_def gv_of_def hm_of_def)

lemma step_ops_dims:
  assumes "step_dims nx nv md" "value_dims nx nxt"
  shows "m_rows (gm_of md nxt) = nv" "m_cols (gm_of md nxt) = nx" "length (gv_of md nxt) = nv" "m_rows (hm_of md nxt) = nv" "m_cols (hm_of md nxt) = nv"
  using assms by (auto simp: step_dims_def value_dims_def quadratic_dims_def gm_of_def gv_of_def hm_of_def split: prod.splits)

lemma symmetric_congruence:
  assumes "symmetric S" "m_rows B = m_rows S"
  shows "symmetric (mm (tr (mm S B)) B)"
proof -
  define n m where "n = m_rows S" "m = m_cols B"
  have dims: "m_rows B = n" "m_cols B = m" "m_rows S = n" "m_cols S = n"
    using assms by (simp_all add: n_m_def symmetric_def)
  have "m_at (mm (tr (mm S B)) B) i j = m_at (mm (tr (mm S B)) B) j i" if ij: "i < m" "j < m" for i j
  proof -
    have "m_at (mm (tr (mm S B)) B) i j = (\<Sum>k < n. \<Sum>l < n. m_at S k l * m_at B l i * m_at B k j)" if "i < m" "j < m" for i j
      using that dims by (simp add: mm_def sum_distrib_right)
    moreover have "(\<Sum>k < n. \<Sum>l < n. m_at S k l * m_at B l i * m_at B k j) = (\<Sum>l < n. \<Sum>k < n. m_at S k l * m_at B l i * m_at B k j)"
      by (rule sum.swap)
    moreover have "\<dots> = (\<Sum>l < n. \<Sum>k < n. m_at S l k * m_at B k j * m_at B l i)"
      by (intro sum.cong refl) (use dims assms(1) in \<open>simp add: symmetric_def algebra_simps\<close>)
    ultimately show ?thesis using ij by simp
  qed
  then show ?thesis using dims by (simp add: symmetric_def)
qed

lemma symmetric_madd: "symmetric A \<Longrightarrow> symmetric B \<Longrightarrow> m_rows A = m_rows B \<Longrightarrow> symmetric (madd A B)"
  by (simp add: symmetric_def madd_def)

lemma symmetric_hm_of:
  assumes "step_dims nx nv md" "value_dims nx nxt" "symmetric (dfduu (md_cost md))"
  shows "symmetric (hm_of md nxt)"
  using assms by (auto simp: step_dims_def value_dims_def quadratic_dims_def hm_of_def intro!: symmetric_madd symmetric_congruence split: prod.splits)

text \<open>The product of the feedback, the negative of \<open>Gm\<close>, with \<open>Gm\<close>.\<close>

lemma symmetric_feedback:
  assumes "m_rows G = r" "m_cols G = c"
  shows "symmetric (mm (tr (madd (mneg G) (mneg (zero_mat r c)))) G)"
  using assms by (simp add: symmetric_def mm_def madd_def mneg_def zero_mat_def mult.commute)

lemma triple_value_madd:
  assumes "m_rows S = n" "m_cols S = n" "m_rows T = n" "m_cols T = n" "length v = n" "length w = n" "length x = n"
  shows "triple_value (madd S T, vadd v w, s + t) x = triple_value (S, v, s) x + triple_value (T, w, t) x"
  using assms by (simp add: triple_value_def form_madd dot_vadd_left field_simps)

lemma form_mm_tr: "m_cols G = length x \<Longrightarrow> m_cols K = length x \<Longrightarrow> m_rows G = m_rows K \<Longrightarrow> form (mm (tr K) G) x = dot (mv K x) (mv G x)"
  using dot_tr_left[of "mv G x" K x] dot_comm[of "mv K x" "mv G x"] by (simp add: form_def mv_mm)

lemma form_tr: "m_rows A = m_cols A \<Longrightarrow> length x = m_rows A \<Longrightarrow> form (tr A) x = form A x"
  using dot_tr_left[of x A x] by (simp add: form_def)

text \<open>
  C26. The full form of the difference equations: the value that \<open>computeMapILQR\<close> returns is, at every state, the cost of the
  input \<open>Km x + Lv\<close> that it returns, the step's and then the next value's, together with the quadratic term of \<open>deltaQm\<close>.
\<close>

theorem riccati_full_is_policy_value:
  assumes d: "step_dims nx nv md" and V: "value_dims nx nxt" and m: "modification_dims nx nv rm"
    and R: "symmetric (dfduu (md_cost md))"
  shows "\<exists>K L V. computeMapILQR False md rm nxt = Inr (K, L, V) \<and>
    (\<forall>x. length x = nx \<longrightarrow> triple_value V x = step_value md nxt x (vadd (mv K x) L) + form (rm_deltaQm rm) x / 2)"
proof -
  obtain S v s where nxt: "nxt = (S, v, s)" by (cases nxt)
  note V' = V[unfolded nxt]
  define G g H where "G = gm_of md nxt" "g = gv_of md nxt" "H = hm_of md nxt"
  note ops = step_ops_dims[OF d V, folded G_g_H_def]
  have H: "symmetric H" using symmetric_hm_of[OF d V R] by (simp add: G_g_H_def)
  define K L where "K = madd (mneg G) (mneg (rm_deltaGm rm))" "L = vadd (vneg g) (vneg (rm_deltaGv rm))"
  have KL: "m_rows K = nv" "m_cols K = nx" "length L = nv" using ops by (simp_all add: K_L_def)
  define A h c where "A = vl_dfdx (md_dynamics md)" "h = md_dynamicsBias md" "c = md_cost md"
  define S0 v0 s0 where "S0 = madd (madd (dfdxx c) (rm_deltaQm rm)) (mm (tr (mm S A)) A)"
    "v0 = vadd (dfdx c) (mv (tr A) (vadd v (mv S h)))" "s0 = s + appr_f c + dot h (vadd v (mv S h)) - 1 / 2 * dot h (mv S h)"
  note eq = computeMapILQR_eq[OF d V' m, of False, folded nxt, folded G_g_H_def, folded K_L_def A_h_c_def, folded S0_v0_s0_def, unfolded if_False]
  note dims = d[unfolded step_dims_def quadratic_dims_def] V'[unfolded value_dims_def] m[unfolded modification_dims_def] ops KL
  have S0: "m_rows S0 = nx" "m_cols S0 = nx" "length v0 = nx" using dims by (simp_all add: S0_v0_s0_def A_h_c_def)
  show ?thesis unfolding eq
  proof (rule exI, rule exI, rule exI, rule conjI[OF refl], intro allI impI)
    fix x :: vector_t assume x: "length x = nx"
    let ?u = "vadd (mv K x) L"
    have base: "triple_value (S0, v0, s0) x = free_value md nxt x + form (rm_deltaQm rm) x / 2"
      using free_value_triple[OF d V' x, of "rm_deltaQm rm", folded nxt, folded A_h_c_def, folded S0_v0_s0_def] dims by simp
    have f: "form (mm (tr K) (mm H K)) x = form H (mv K x)"
      using dims x form_mm_tr[of "mm H K" x K] by (simp add: form_def mv_mm)
    have HKL: "dot (mv (tr (mm H K)) L) x = dot L (mv H (mv K x))" using dims x by (simp add: dot_mv_tr mv_mm)
    have c: "dot L g = dot g L" "dot (mv K x) g = dot g (mv K x)" using dims by (simp_all add: dot_comm)
    have H: "form H ?u = form H (mv K x) + 2 * dot L (mv H (mv K x)) + form H L" using H dims by (simp add: form_vadd)
    have G: "dot ?u (vadd (mv G x) g) = dot (mv K x) (mv G x) + dot (mv K x) g + dot L (mv G x) + dot L g"
      using dims by (simp add: dot_vadd_left dot_vadd_right)
    have "triple_value (madd (madd S0 (madd (mm (tr K) G) (tr (mm (tr K) G)))) (mm (tr K) (mm H K)),
        vadd (vadd (vadd v0 (mv (tr G) L)) (mv (tr K) g)) (mv (tr (mm H K)) L), s0 + dot L g + 1 / 2 * dot L (mv H L)) x =
      triple_value (S0, v0, s0) x + dot ?u (vadd (mv G x) g) + form H ?u / 2"
      unfolding G H using S0 dims x f HKL c
      by (simp add: triple_value_def form_madd form_mm_tr form_tr dot_vadd_left dot_mv_tr form_def[of H L] field_simps)
    then show "triple_value (madd (madd S0 (madd (mm (tr K) G) (tr (mm (tr K) G)))) (mm (tr K) (mm H K)),
        vadd (vadd (vadd v0 (mv (tr G) L)) (mv (tr K) g)) (mv (tr (mm H K)) L), s0 + dot L g + 1 / 2 * dot L (mv H L)) x =
      step_value md nxt x ?u + form (rm_deltaQm rm) x / 2"
      unfolding base using step_value_expand[OF d V x, of ?u, folded G_g_H_def] dims by simp
  qed
qed

lemma neg_terms: "length g = n \<Longrightarrow> vadd (vneg g) (vneg (zero_vec n)) = vneg g" "m_rows G = r \<Longrightarrow> m_cols G = c \<Longrightarrow> length x = c \<Longrightarrow> mv (madd (mneg G) (mneg (zero_mat r c))) x = vneg (mv G x)"
  by (intro nth_equalityI; simp add: zero_vec_def madd_def mneg_def zero_mat_def sum_negf)+

lemma dot_vneg: "dot (vneg u) v = - dot u v" "length u = length v \<Longrightarrow> dot u (vneg v) = - dot u v"
  by (simp_all add: dot_def sum_negf)

text \<open>
  The reduced form, with no correction of the gains and with a Hamiltonian whose Hessian is the identity: the value that
  \<open>computeMapILQR\<close> returns is the least cost over all inputs, and half the squared distance from the input \<open>Km x + Lv\<close> is
  what any other input costs more.
\<close>

lemma riccati_reduced_optimal:
  assumes d: "step_dims nx nv md" and V: "value_dims nx nxt" and m: "modification_dims nx nv rm"
    and zero: "rm_deltaGm rm = zero_mat nv nx" "rm_deltaGv rm = zero_vec nv"
    and I: "\<And>u. length u = nv \<Longrightarrow> form (hm_of md nxt) u = dot u u"
  shows "\<exists>K L V. computeMapILQR True md rm nxt = Inr (K, L, V) \<and> m_rows K = nv \<and> m_cols K = nx \<and> length L = nv \<and>
    (symmetric (dfdxx (md_cost md)) \<and> symmetric (rm_deltaQm rm) \<longrightarrow> value_dims nx V) \<and>
    (\<forall>x u. length x = nx \<longrightarrow> length u = nv \<longrightarrow>
       (let e = vadd u (vneg (vadd (mv K x) L)) in
        step_value md nxt x u + form (rm_deltaQm rm) x / 2 = triple_value V x + dot e e / 2))"
proof -
  obtain S v s where nxt: "nxt = (S, v, s)" by (cases nxt)
  note V' = V[unfolded nxt]
  define G g where "G = gm_of md nxt" "g = gv_of md nxt"
  note ops = step_ops_dims[OF d V, folded G_g_def]
  define K L where "K = madd (mneg G) (mneg (rm_deltaGm rm))" "L = vadd (vneg g) (vneg (rm_deltaGv rm))"
  have KL: "m_rows K = nv" "m_cols K = nx" "L = vneg g" "\<And>x. length x = nx \<Longrightarrow> mv K x = vneg (mv G x)"
    using ops neg_terms(1)[of g nv] neg_terms(2)[of G nv nx] by (simp_all add: K_L_def zero)
  define A h c where "A = vl_dfdx (md_dynamics md)" "h = md_dynamicsBias md" "c = md_cost md"
  define S0 v0 s0 where "S0 = madd (madd (dfdxx c) (rm_deltaQm rm)) (mm (tr (mm S A)) A)"
    "v0 = vadd (dfdx c) (mv (tr A) (vadd v (mv S h)))" "s0 = s + appr_f c + dot h (vadd v (mv S h)) - 1 / 2 * dot h (mv S h)"
  note eq = computeMapILQR_eq[OF d V' m, of True, folded nxt, folded G_g_def, folded K_L_def A_h_c_def, folded S0_v0_s0_def, unfolded if_True]
  note dims = d[unfolded step_dims_def quadratic_dims_def] V'[unfolded value_dims_def] m[unfolded modification_dims_def] ops
  have S0: "m_rows S0 = nx" "m_cols S0 = nx" "length v0 = nx" using dims by (simp_all add: S0_v0_s0_def A_h_c_def)
  have KL_dims: "m_rows K = nv" "m_cols K = nx" "length L = nv" using KL ops by simp_all
  have sym: "value_dims nx (madd S0 (mm (tr K) G), vadd v0 (mv (tr G) L), s0 + 1 / 2 * dot L g)"
    if "symmetric (dfdxx (md_cost md))" "symmetric (rm_deltaQm rm)"
  proof -
    have "symmetric S0" using that dims by (auto simp: S0_v0_s0_def A_h_c_def intro!: symmetric_madd symmetric_congruence)
    moreover have "symmetric (mm (tr K) G)" using symmetric_feedback[OF ops(1,2)] by (simp add: K_L_def zero)
    ultimately show ?thesis using S0 KL_dims by (simp add: value_dims_def symmetric_madd)
  qed
  have opt: "let e = vadd u (vneg (vadd (mv K x) L)) in step_value md nxt x u + form (rm_deltaQm rm) x / 2 =
        triple_value (madd S0 (mm (tr K) G), vadd v0 (mv (tr G) L), s0 + 1 / 2 * dot L g) x + dot e e / 2"
    if x: "length x = nx" and u: "length u = nv" for x u :: vector_t
  proof -
    let ?p = "vadd (mv G x) g"
    have base: "triple_value (S0, v0, s0) x = free_value md nxt x + form (rm_deltaQm rm) x / 2"
      using free_value_triple[OF d V' x, of "rm_deltaQm rm", folded nxt, folded A_h_c_def, folded S0_v0_s0_def] dims by simp
    have e: "vadd u (vneg (vadd (mv K x) L)) = vadd u ?p"
      using dims KL x u by (intro nth_equalityI) (simp_all del: mv_nth)
    have "dot (mv G x) g = dot g (mv G x)" using dims by (simp add: dot_comm)
    then have "triple_value (madd S0 (mm (tr K) G), vadd v0 (mv (tr G) L), s0 + 1 / 2 * dot L g) x = triple_value (S0, v0, s0) x - dot ?p ?p / 2"
      using S0 dims KL x by (simp add: triple_value_def form_madd form_mm_tr dot_vadd_left dot_vadd_right dot_mv_tr dot_vneg field_simps)
    moreover have "dot (vadd u ?p) (vadd u ?p) = dot u u + 2 * dot u ?p + dot ?p ?p"
      using dims u dot_comm[of ?p u] by (simp add: dot_vadd_left[of u ?p] dot_vadd_right[of u ?p u] dot_vadd_right[of u ?p ?p])
    moreover have "step_value md nxt x u = free_value md nxt x + dot u ?p + dot u u / 2"
      using step_value_expand[OF d V x u, folded G_g_def] I[OF u] by simp
    ultimately show ?thesis unfolding Let_def e using base by (simp add: add_divide_distrib)
  qed
  show ?thesis unfolding eq
    by (rule exI, rule exI, rule exI, rule conjI[OF refl], intro conjI KL_dims) (use sym opt in blast)+
qed

text \<open>
  \<open>riccatiTransversalityConditions\<close>: the value before a jump is the cost of the jump and the value of the state after it.
\<close>

lemma transversality_is_jump_value:
  assumes d: "step_dims nx nv jump" and V: "value_dims nx nxt"
  shows "\<exists>V. riccatiTransversalityConditions jump nxt = Inr V \<and> (symmetric (dfdxx (md_cost jump)) \<longrightarrow> value_dims nx V) \<and>
    (\<forall>x. length x = nx \<longrightarrow> triple_value V x =
       appr_f (md_cost jump) + dot (dfdx (md_cost jump)) x + form (dfdxx (md_cost jump)) x / 2 +
       triple_value nxt (vadd (mv (vl_dfdx (md_dynamics jump)) x) (md_dynamicsBias jump)))"
proof -
  obtain S v s where nxt: "nxt = (S, v, s)" by (cases nxt)
  note V' = V[unfolded nxt]
  define A h c where "A = vl_dfdx (md_dynamics jump)" "h = md_dynamicsBias jump" "c = md_cost jump"
  note dims = d[unfolded step_dims_def quadratic_dims_def, folded A_h_c_def] V'[unfolded value_dims_def]
  have eq: "riccatiTransversalityConditions jump nxt = Inr (madd (dfdxx c) (mm (tr (mm (tr S) A)) A),
      vadd (dfdx c) (mv (tr A) (vadd v (mv S h))), s + appr_f c + dot h (vadd v (vscale (1 / 2) (mv S h))))"
    using dims by (simp add: riccatiTransversalityConditions_def Let_def mat_checked nxt A_h_c_def[symmetric])
  have "triple_value (madd (dfdxx c) (mm (tr (mm (tr S) A)) A), vadd (dfdx c) (mv (tr A) (vadd v (mv S h))),
      s + appr_f c + dot h (vadd v (vscale (1 / 2) (mv S h)))) x = free_value jump nxt x" if x: "length x = nx" for x
  proof -
    have "mm (tr S) A = mm S A"
      using dims by (intro mat_eqI) (auto simp: mm_def symmetric_def intro!: sum.cong)
    then have "form (mm (tr (mm (tr S) A)) A) x = form (mm (tr (mm S A)) A) x" by simp
    moreover have "form (zero_mat nx nx) x = 0" using x dot_comm[of x "zero_vec nx"] by (simp add: form_def mv_zero_mat dot_zero_left)
    ultimately show ?thesis
      using free_value_triple[OF d V' x, of "zero_mat nx nx", folded A_h_c_def] dims x
      by (simp add: nxt triple_value_def form_madd dot_vadd_right dot_vscale_right field_simps)
  qed
  moreover have "value_dims nx (madd (dfdxx c) (mm (tr (mm (tr S) A)) A), vadd (dfdx c) (mv (tr A) (vadd v (mv S h))),
      s + appr_f c + dot h (vadd v (vscale (1 / 2) (mv S h))))" if "symmetric (dfdxx c)"
  proof -
    have "symmetric (tr S)" using dims by (simp add: symmetric_def)
    then have "symmetric (mm (tr (mm (tr S) A)) A)" using dims by (intro symmetric_congruence) simp_all
    then show ?thesis using that dims by (simp add: value_dims_def symmetric_madd)
  qed
  ultimately show ?thesis unfolding eq by (auto simp: free_value_def A_h_c_def)
qed

text \<open>
  The risk-sensitive variant computes the next scalar with \<open>Sv\<close>, its output argument, where the next vector \<open>SvNext\<close> is
  meant. On a fresh trajectory that argument is the empty vector, and the call fails for every system with a state; when it has
  the right size, the scalar of the result depends on what it held.
\<close>

theorem risk_sensitive_reads_output:
  assumes "isRiskSensitive cfg"
    and "step_dims nx nv md" "value_dims nx nxt" "m_rows (md_dynamicsCovariance md) = nx" "m_cols (md_dynamicsCovariance md) = nx" "0 < nx"
  shows "(\<exists>e. computeMap ldlt cfg md rm [] nxt = Inl e) \<and>
    (\<forall>old1 old2 K1 L1 S1 v1 s1 K2 L2 S2 v2 s2. length old1 = nx \<longrightarrow> length old2 = nx \<longrightarrow>
       computeMap ldlt cfg md rm old1 nxt = Inr (K1, L1, S1, v1, s1) \<longrightarrow> computeMap ldlt cfg md rm old2 nxt = Inr (K2, L2, S2, v2, s2) \<longrightarrow>
       s1 - s2 = riskSensitiveCoeff cfg *
         (dot old1 (mv (md_dynamicsCovariance md) (fst (snd nxt))) - dot old2 (mv (md_dynamicsCovariance md) (fst (snd nxt)))))"
proof -
  obtain S v s where nxt: "nxt = (S, v, s)" by (cases nxt)
  define Sigma where "Sigma = md_dynamicsCovariance md"
  have dims: "m_rows S = nx" "m_cols S = nx" "length v = nx" "m_rows Sigma = nx" "m_cols Sigma = nx"
    using assms by (simp_all add: value_dims_def nxt Sigma_def)
  have shift: "computeMapILQR r md rm (T, w, a) = Inr (K1, L1, S1, v1, s1) \<Longrightarrow> computeMapILQR r md rm (T, w, b) = Inr (K2, L2, S2, v2, s2) \<Longrightarrow>
      s1 - s2 = a - b" for r T w a b K1 L1 S1 v1 s1 K2 L2 S2 v2 s2
    by (cases r) (auto simp: computeMapILQR_def result_simps Let_def)
  have "\<exists>e. computeMap ldlt cfg md rm [] nxt = Inl e"
  proof (cases "computeMap ldlt cfg md rm [] nxt")
    case (Inr r)
    have "mv Sigma v \<noteq> []" using dims assms(6) by (simp flip: length_greater_0_conv)
    with Inr show ?thesis
      using assms(1) dims
      by (auto simp: computeMap_def computeMapILEG_def nxt Sigma_def[symmetric] mat_checked result_simps Let_def vec_dot_def split: if_splits)
  qed blast
  moreover have "s1 - s2 = riskSensitiveCoeff cfg * (dot old1 (mv Sigma v) - dot old2 (mv Sigma v))"
    if len: "length old1 = nx" "length old2 = nx" and r1: "computeMap ldlt cfg md rm old1 nxt = Inr (K1, L1, S1, v1, s1)"
      and r2: "computeMap ldlt cfg md rm old2 nxt = Inr (K2, L2, S2, v2, s2)" for old1 old2 K1 L1 S1 v1 s1 K2 L2 S2 v2 s2
  proof -
    from r1 obtain M T w where M: "mat_add (identity (nat (md_stateDim md))) (mneg (mm S Sigma)) = Inr M"
      "mat_mult (ldlt_inverse ldlt M) S = Inr T" "mat_vmult (ldlt_inverse ldlt M) v = Inr w"
      and 1: "computeMapILQR (reducedFormRiccati cfg) md rm (T, w, s + riskSensitiveCoeff cfg * dot old1 (mv Sigma v) -
        1 / 2 / riskSensitiveCoeff cfg * sum_list (map ln (ldlt_vectorD ldlt M))) = Inr (K1, L1, S1, v1, s1)"
      using assms(1) dims len
      by (auto simp: computeMap_def computeMapILEG_def nxt Sigma_def[symmetric] mat_checked result_simps Let_def split: if_splits)
    from r2 have 2: "computeMapILQR (reducedFormRiccati cfg) md rm (T, w, s + riskSensitiveCoeff cfg * dot old2 (mv Sigma v) -
        1 / 2 / riskSensitiveCoeff cfg * sum_list (map ln (ldlt_vectorD ldlt M))) = Inr (K2, L2, S2, v2, s2)"
      using assms(1) dims len M
      by (auto simp: computeMap_def computeMapILEG_def nxt Sigma_def[symmetric] mat_checked result_simps Let_def split: if_splits)
    from shift[OF 1 2] show ?thesis by (simp add: right_diff_distrib)
  qed
  ultimately show ?thesis by (simp add: nxt Sigma_def[symmetric])
qed

section \<open>Instances\<close>

definition scalar_modification :: riccati_modification where
  "scalar_modification = new_RiccatiModification\<lparr>rm_deltaQm := Mat 1 1 [[1]], rm_deltaGm := Mat 1 1 [[2]], rm_deltaGv := [1]\<rparr>"

lemma scalar_dims:
  "step_dims 1 1 (scalar_model q\<lparr>md_dynamicsBias := [h]\<rparr>)" "value_dims 1 (Mat 1 1 [[a]], [b], c)"
  "modification_dims 1 1 scalar_modification" "symmetric (dfduu (md_cost (scalar_model q)))"
  by (simp_all add: step_dims_def value_dims_def modification_dims_def quadratic_dims_def scalar_model_def scalar_modification_def symmetric_def)

lemma riccati_full_witness:
  "\<exists>K L V. computeMapILQR False (scalar_model 1\<lparr>md_dynamicsBias := [3]\<rparr>) scalar_modification (Mat 1 1 [[2]], [1], 5) = Inr (K, L, V) \<and>
     triple_value V [4] = step_value (scalar_model 1\<lparr>md_dynamicsBias := [3]\<rparr>) (Mat 1 1 [[2]], [1], 5) [4] (vadd (mv K [4]) L) +
       form (rm_deltaQm scalar_modification) [4] / 2"
proof -
  have "symmetric (dfduu (md_cost (scalar_model 1\<lparr>md_dynamicsBias := [3]\<rparr>)))" using scalar_dims(4) by simp
  from riccati_full_is_policy_value[OF scalar_dims(1,2,3) this]
  show ?thesis by fastforce
qed

lemma risk_sensitive_witness:
  "\<exists>e. computeMap \<lparr>ldlt_vectorD = \<lambda>A. [1], ldlt_inverse = \<lambda>A. A\<rparr> \<lparr>reducedFormRiccati = True, isRiskSensitive = True, riskSensitiveCoeff = 1\<rparr>
     (scalar_model 1\<lparr>md_dynamicsBias := [3], md_dynamicsCovariance := Mat 1 1 [[1]]\<rparr>) scalar_modification [] (Mat 1 1 [[2]], [1], 5) = Inl e"
proof -
  let ?md = "scalar_model 1\<lparr>md_dynamicsBias := [3], md_dynamicsCovariance := Mat 1 1 [[1]]\<rparr>"
  have "step_dims 1 1 ?md" using scalar_dims(1)[of 3 1] by (simp add: step_dims_def)
  then show ?thesis
    using risk_sensitive_reads_output[of "\<lparr>reducedFormRiccati = True, isRiskSensitive = True, riskSensitiveCoeff = 1\<rparr>" 1 1 ?md
        "(Mat 1 1 [[2]], [1], 5)" "\<lparr>ldlt_vectorD = \<lambda>A. [1], ldlt_inverse = \<lambda>A. A\<rparr>" scalar_modification] scalar_dims(2)[of 2 1 5]
    by simp
qed

end
