(* ===== verification/Riccati_Projection.thy ===== *)
theory Riccati_Projection
  imports Riccati_Equations Levenberg_Marquardt
begin

text \<open>
  The part of \<open>GaussNewtonDDP.cpp\<close> that prepares one node for the Riccati recursion (\<open>computeProjections\<close>,
  \<open>computeProjectionAndRiccatiModification\<close>), with the search strategy that it calls. The property: a node of iLQR with a
  line search is one exact step of dynamic programming for the constrained problem.
\<close>

section \<open>The search strategy\<close>

datatype strategy_state = Line_Search_State line_search_settings | Levenberg_State lm_settings lm_module

record riccati_env =
  re_factorizations :: factorizations
  re_eigen :: eigen_solver
  re_cholesky :: incomplete_cholesky
  re_ldlt :: ldlt_solver
  re_strategy :: strategy_state
  re_riccati :: riccati_settings
  re_checkNumericalStability :: bool

fun strategy_computeRiccatiModification :: "riccati_env \<Rightarrow> strategy_state \<Rightarrow> model_data \<Rightarrow> (dmatrix \<times> vector_t \<times> dmatrix) result" where
  "strategy_computeRiccatiModification env (Line_Search_State cfg) md = ls_computeRiccatiModification (re_eigen env) (re_cholesky env) cfg md"
| "strategy_computeRiccatiModification env (Levenberg_State cfg m) md = lm_computeRiccatiModification m md"

fun strategy_augmentHamiltonianHessian :: "strategy_state \<Rightarrow> model_data \<Rightarrow> dmatrix \<Rightarrow> dmatrix result" where
  "strategy_augmentHamiltonianHessian (Line_Search_State cfg) md Hm = Inr Hm"
| "strategy_augmentHamiltonianHessian (Levenberg_State cfg m) md Hm = lm_augmentHamiltonianHessian m md Hm"

section \<open>Projections\<close>

definition ilqr_computeHamiltonianHessian :: "riccati_env \<Rightarrow> model_data \<Rightarrow> dmatrix \<Rightarrow> dmatrix result" where
  "ilqr_computeHamiltonianHessian env md Sm =
     bind_result (mat_mult (tr (vl_dfdu (md_dynamics md))) Sm) (\<lambda>BmTransSm.
     bind_result (bind_result (mat_mult BmTransSm (vl_dfdu (md_dynamics md))) (mat_add (dfduu (md_cost md)))) (\<lambda>Hm.
     strategy_augmentHamiltonianHessian (re_strategy env) md Hm))"

definition slq_computeHamiltonianHessian :: "riccati_env \<Rightarrow> model_data \<Rightarrow> dmatrix \<Rightarrow> dmatrix result" where
  "slq_computeHamiltonianHessian env md Sm = strategy_augmentHamiltonianHessian (re_strategy env) md (dfduu (md_cost md))"

text \<open>\<open>isApprox\<close>: the distance in the Frobenius norm, relative to the smaller of the two.\<close>

definition frobenius2 :: "dmatrix \<Rightarrow> scalar" where
  "frobenius2 A = (\<Sum>i < m_rows A. \<Sum>j < m_cols A. m_at A i j * m_at A i j)"

definition isApprox :: "dmatrix \<Rightarrow> dmatrix \<Rightarrow> scalar \<Rightarrow> bool result" where
  "isApprox A B prec =
     bind_result (mat_add A (mneg B)) (\<lambda>D. Inr (frobenius2 D \<le> prec * prec * min (frobenius2 A) (frobenius2 B)))"

definition computeProjections :: "riccati_env \<Rightarrow> dmatrix \<Rightarrow> dmatrix \<Rightarrow> (dmatrix \<times> dmatrix) result" where
  "computeProjections env Hm Dm =
     (let HmInvUmUmT = computeInverseMatrixUUT (re_factorizations env) Hm in
      bind_result (if m_rows Dm = 0 then Inr (zero_mat (m_cols Dm) 0, HmInvUmUmT)
                   else bind_result (computeConstraintProjection (re_factorizations env) Dm HmInvUmUmT) (\<lambda>(dagger, uut, null). Inr (dagger, null)))
        (\<lambda>(rangeP, nullP).
      bind_result (if re_checkNumericalStability env then
                     bind_result (bind_result (mat_mult (tr nullP) Hm) (\<lambda>NH. mat_mult NH nullP)) (\<lambda>HmProjected.
                     bind_result (require (m_rows Dm \<le> m_rows Hm) Assertion_Failed) (\<lambda>_.
                     bind_result (isApprox HmProjected (identity (m_rows Hm - m_rows Dm)) (1 / 10 ^ 6)) (\<lambda>ok.
                     require ok (Runtime_Error ''HmProjected should be identity!''))))
                   else Inr ()) (\<lambda>_. Inr (rangeP, nullP))))"

text \<open>The Hessian of the Hamiltonian is a virtual function; \<open>pd\<close> is what the projected model data held before.\<close>

definition computeProjectionAndRiccatiModification ::
  "riccati_env \<Rightarrow> (riccati_env \<Rightarrow> model_data \<Rightarrow> dmatrix \<Rightarrow> dmatrix result) \<Rightarrow> model_data \<Rightarrow> dmatrix \<Rightarrow> model_data \<Rightarrow>
   (model_data \<times> riccati_modification) result" where
  "computeProjectionAndRiccatiModification env hessian md Sm pd =
     bind_result (hessian env md Sm) (\<lambda>Hm.
     bind_result (computeProjections env Hm (vl_dfdu (md_stateInputEqConstraint md))) (\<lambda>(rangeP, nullP).
     bind_result (projectLQ md rangeP nullP pd) (\<lambda>pd.
     bind_result (strategy_computeRiccatiModification env (re_strategy env) pd) (\<lambda>(deltaQm, deltaGv, deltaGm).
     Inr (pd, \<lparr>rm_time = md_time md, rm_deltaQm = deltaQm, rm_deltaGm = deltaGm, rm_deltaGv = deltaGv, rm_hamiltonianHessian = Hm,
               rm_constraintRangeProjector = rangeP, rm_constraintNullProjector = nullP\<rparr>)))))"

section \<open>Facts\<close>

text \<open>The decomposition \<open>U U'\<close> of the inverse of a Hessian, and the factorisations that a constraint asks for.\<close>

definition uut_ok :: "factorizations \<Rightarrow> dmatrix \<Rightarrow> bool" where
  "uut_ok fz H =
     (let U = computeInverseMatrixUUT fz H; n = m_rows H in
      m_rows U = n \<and> m_cols U = n \<and> mm (tr U) (mm H U) = identity n \<and> mm U (mm (tr U) H) = identity n)"

definition constraint_ok :: "factorizations \<Rightarrow> dmatrix \<Rightarrow> dmatrix \<Rightarrow> bool" where
  "constraint_ok fz D U =
     (m_rows D = 0 \<or>
      qr_ok fz (mm (tr U) (tr D)) \<and> (\<forall>i < m_rows D. weakEpsilon \<le> \<bar>m_at (qr_R fz (mm (tr U) (tr D))) i i\<bar>) \<and>
      (\<forall>T. m_rows T = m_rows D \<and> m_cols T = m_rows D \<longrightarrow> solve_upper_ok fz T))"

lemma isApprox_refl: "mat_wf A \<Longrightarrow> A = B \<Longrightarrow> isApprox A B prec = Inr True"
  by (auto simp: isApprox_def mat_checked frobenius2_def madd_def mneg_def sum_nonneg)

lemma mm_assoc:
  assumes "m_cols A = m_rows B" "m_cols B = m_rows C"
  shows "mm (mm A B) C = mm A (mm B C)"
proof (rule mat_eqI)
  fix i j assume "i < m_rows (mm (mm A B) C)" "j < m_cols (mm (mm A B) C)"
  then have ij: "i < m_rows A" "j < m_cols C" by simp_all
  have "(\<Sum>k < m_cols B. (\<Sum>l < m_cols A. m_at A i l * m_at B l k) * m_at C k j) =
      (\<Sum>k < m_cols B. \<Sum>l < m_cols A. m_at A i l * (m_at B l k * m_at C k j))"
    by (simp add: sum_distrib_right mult.assoc)
  also have "\<dots> = (\<Sum>l < m_cols A. \<Sum>k < m_cols B. m_at A i l * (m_at B l k * m_at C k j))" by (rule sum.swap)
  finally show "m_at (mm (mm A B) C) i j = m_at (mm A (mm B C)) i j"
    using ij assms by (simp add: mm_def sum_distrib_left)
qed simp_all

lemma mm_identity:
  assumes "mat_wf A" "n = m_cols A"
  shows "mm A (identity n) = A"
proof (rule mat_eqI)
  fix i j assume "i < m_rows (mm A (identity n))" "j < m_cols (mm A (identity n))"
  then have ij: "i < m_rows A" "j < m_cols A" by (simp_all add: assms(2))
  then have "(\<Sum>k < m_cols A. m_at A i k * m_at (identity n) k j) = (\<Sum>k < m_cols A. if k = j then m_at A i k else 0)"
    by (intro sum.cong) (auto simp: identity_def assms(2))
  then show "m_at (mm A (identity n)) i j = m_at A i j" using ij by (simp add: mm_def assms(2) sum.delta)
qed (simp_all add: assms)

lemma mat_wf_identity [simp]: "mat_wf (identity n)"
  by (simp add: identity_def)

lemma form_mv:
  "m_rows H = m_cols H \<Longrightarrow> m_rows N = m_rows H \<Longrightarrow> length v = m_cols N \<Longrightarrow> form H (mv N v) = dot v (mv (tr N) (mv H (mv N v)))"
  using dot_tr_left[of "mv H (mv N v)" N v] dot_comm[of "mv N v" "mv H (mv N v)"] by (simp add: form_def)

text \<open>What the two projectors give at a Hessian \<open>H\<close>, with or without a constraint.\<close>

definition null_space_ok :: "dmatrix \<Rightarrow> dmatrix \<Rightarrow> dmatrix \<Rightarrow> nat \<Rightarrow> nat \<Rightarrow> bool" where
  "null_space_ok H D N nu nc =
     ((\<forall>v. length v = nu - nc \<longrightarrow> form H (mv N v) = dot v v) \<and> mm (mm (tr N) H) N = identity (nu - nc) \<and>
      (\<forall>u. length u = nu \<longrightarrow> mv D u = zero_vec nc \<longrightarrow> (\<exists>v. length v = nu - nc \<and> mv N v = u)))"

lemma null_space_product:
  assumes H: "m_rows H = nu" "m_cols H = nu" and U: "m_rows U = nu" "m_cols U = nu" "mm (tr U) (mm H U) = identity nu" "mm U (mm (tr U) H) = identity nu"
    and D: "m_rows D = nc" "m_cols D = nu" and Q: "spans_kernel D U Q nu (nu - nc)"
  shows "null_space_ok H D (mm U Q) nu nc"
proof -
  note q = Q[unfolded spans_kernel_def]
  have "mm (mm (tr (mm U Q)) H) (mm U Q) = mm (tr Q) (mm (mm (tr U) (mm H U)) Q)"
    using H U(1,2) q by (simp add: tr_mm mm_assoc)
  also have "\<dots> = mm (mm (tr Q) (identity nu)) Q" unfolding U(3) using q by (simp add: mm_assoc)
  also have "\<dots> = identity (nu - nc)" using q by (simp add: mm_identity)
  finally have NHN: "mm (mm (tr (mm U Q)) H) (mm U Q) = identity (nu - nc)" .
  have "form H (mv (mm U Q) v) = dot v v" if "length v = nu - nc" for v
  proof -
    have "form H (mv (mm U Q) v) = dot v (mv (mm (mm (tr (mm U Q)) H) (mm U Q)) v)"
      using H U(1,2) q that form_mv[of H "mm U Q" v] by (simp add: mv_mm mv_tr_mm)
    then show ?thesis using that by (simp add: NHN)
  qed
  moreover have "\<exists>v. length v = nu - nc \<and> mv (mm U Q) v = u" if u: "length u = nu" "mv D u = zero_vec nc" for u
  proof -
    define y where "y = mv (mm (tr U) H) u"
    have y: "length y = nu" "mv U y = u" using U u H mv_mm[of U "mm (tr U) H" u] by (simp_all add: y_def)
    then have "mv Q (mv (tr Q) y) = y" using q u D by auto
    then show ?thesis using y q U(1,2) by (intro exI[of _ "mv (tr Q) y"]) (simp add: mv_mm)
  qed
  ultimately show ?thesis using NHN by (simp add: null_space_ok_def)
qed

lemma computeProjections_ok:
  assumes H: "m_rows H = nu" "m_cols H = nu" and D: "m_rows D = nc" "m_cols D = nu" "nc \<le> nu"
    and uut: "uut_ok (re_factorizations env) H" and c: "constraint_ok (re_factorizations env) D (computeInverseMatrixUUT (re_factorizations env) H)"
  shows "\<exists>rangeP N. computeProjections env H D = Inr (rangeP, N) \<and> projectors_ok nc nu D rangeP N \<and> null_space_ok H D N nu nc"
proof -
  define U where "U = computeInverseMatrixUUT (re_factorizations env) H"
  have U: "m_rows U = nu" "m_cols U = nu" "mm (tr U) (mm H U) = identity nu" "mm U (mm (tr U) H) = identity nu"
    using uut H by (simp_all add: uut_ok_def Let_def U_def)
  have "\<exists>rangeP N. (if m_rows D = 0 then Inr (zero_mat (m_cols D) 0, U)
      else bind_result (computeConstraintProjection (re_factorizations env) D U) (\<lambda>(dagger, uut, null). Inr (dagger, null))) = Inr (rangeP, N) \<and>
      projectors_ok nc nu D rangeP N \<and> null_space_ok H D N nu nc"
  proof (cases "nc = 0")
    case True
    have "form H (mv U v) = dot v v" if "length v = nu" for v
      using U H that form_mv[of H U v] mv_mm[of "tr U" "mm H U" v] by (simp add: mv_mm)
    moreover have "\<exists>v. length v = nu \<and> mv U v = u" if u: "length u = nu" for u
      using U H u mv_mm[of U "mm (tr U) H" u] by (intro exI[of _ "mv (mm (tr U) H) u"]) simp
    moreover have "mm (mm (tr U) H) U = identity nu" using U H by (simp add: mm_assoc)
    ultimately have "null_space_ok H D U nu nc" using True by (simp add: null_space_ok_def)
    moreover have "projectors_ok nc nu D (zero_mat (m_cols D) 0) U"
      using True D U by (auto simp: projectors_ok_def zero_vec_def mv_def)
    ultimately show ?thesis using True D by simp
  next
    case False
    from computeConstraintProjection_projectors[OF D(1,2,3) U(1,2), of "re_factorizations env"] c False D(1)
    obtain dagger uut null Qu where r: "computeConstraintProjection (re_factorizations env) D U = Inr (dagger, uut, null)"
        "projectors_ok nc nu D dagger null" "null = mm U Qu" "spans_kernel D U Qu nu (nu - nc)"
      by (auto simp: constraint_ok_def U_def[symmetric])
    then show ?thesis using null_space_product[OF H U D(1,2) r(4)] False D(1) by simp
  qed
  then obtain rangeP N where r: "(if m_rows D = 0 then Inr (zero_mat (m_cols D) 0, U)
      else bind_result (computeConstraintProjection (re_factorizations env) D U) (\<lambda>(dagger, uut, null). Inr (dagger, null))) = Inr (rangeP, N)"
      "projectors_ok nc nu D rangeP N" "null_space_ok H D N nu nc" by blast
  have "m_rows N = nu" "m_cols N = nu - nc" using r(2) by (simp_all add: projectors_ok_def)
  then have "computeProjections env H D = Inr (rangeP, N)"
    using r(3) H D isApprox_refl[of "identity (nu - nc)" "identity (nu - nc)" "1 / 10 ^ 6"]
    unfolding computeProjections_def Let_def U_def[symmetric] r(1)
    by (simp add: mat_checked null_space_ok_def require_def)
  then show ?thesis using r(2,3) by blast
qed

section \<open>The projected model\<close>

lemma symmetric_shifted:
  assumes "symmetric Q" "symmetric R" "m_rows Q = n" "m_rows P = m" "m_cols P = n" "m_rows X = m" "m_cols X = n" "m_rows R = m"
  shows "symmetric (madd (madd Q (mm (tr P) X)) (mm (tr X) (madd P (mm R X))))"
proof -
  have RX: "mm R X = mk_mat m n (\<lambda>k j. \<Sum>l < m. m_at R k l * m_at X l j)" using assms by (simp add: mm_def symmetric_def)
  have "m_at (madd (madd Q (mm (tr P) X)) (mm (tr X) (madd P (mm R X)))) i j =
      m_at Q i j + ((\<Sum>k < m. m_at P k i * m_at X k j) + (\<Sum>k < m. m_at X k i * m_at P k j)) + m_at (mm (tr (mm R X)) X) j i"
    if "i < n" "j < n" for i j
    using that assms by (simp add: madd_def mm_def sum.distrib algebra_simps symmetric_def)
  moreover have "symmetric (mm (tr (mm R X)) X)" using assms by (intro symmetric_congruence) auto
  moreover have "(\<Sum>k < m. m_at P k i * m_at X k j) + (\<Sum>k < m. m_at X k i * m_at P k j) =
      (\<Sum>k < m. m_at P k j * m_at X k i) + (\<Sum>k < m. m_at X k j * m_at P k i)" for i j
    by (simp add: mult.commute)
  ultimately show ?thesis using assms by (simp add: symmetric_def)
qed

lemma change_quadratic_forms:
  assumes "changeOfInputVariables_quadratic a Pu Px u0 = Inr b" "quadratic_dims nx nu a" "change_dims nx nu nv Pu Px u0"
  shows "dfduu b = mm (tr Pu) (mm (dfduu a) Pu)" "symmetric (dfdxx a) \<Longrightarrow> symmetric (dfduu a) \<Longrightarrow> symmetric (dfdxx b)"
  using assms symmetric_shifted[of "dfdxx a" "dfduu a" nx "dfdux a" nu Px]
  by (auto simp: changeOfInputVariables_quadratic_def Let_def when_add_mat_def when_add_vec_def result_simps quadratic_dims_def change_dims_def mat_checked
      split: if_splits)

lemma change_linear_forms:
  assumes "changeOfInputVariables_linear a Pu Px u0 = Inr b" "linear_dims nw nx nu a" "change_dims nx nu nv Pu Px u0"
  shows "vl_dfdu b = mm (vl_dfdu a) Pu" "vl_f b = (if u0 \<noteq> [] then vadd (vl_f a) (mv (vl_dfdu a) u0) else vl_f a)"
  using assms
  by (auto simp: changeOfInputVariables_linear_def when_add_mat_def when_add_vec_def result_simps linear_dims_def change_dims_def mat_checked
      split: if_splits)

definition constrained_dims :: "nat \<Rightarrow> nat \<Rightarrow> nat \<Rightarrow> model_data \<Rightarrow> bool" where
  "constrained_dims nc nx nu md =
     (quadratic_dims nx nu (md_cost md) \<and> symmetric (dfduu (md_cost md)) \<and> symmetric (dfdxx (md_cost md)) \<and>
      linear_dims nx nx nu (md_dynamics md) \<and> linear_dims nc nx nu (md_stateInputEqConstraint md) \<and> length (md_dynamicsBias md) = nx \<and>
      md_stateDim md = int nx \<and> md_inputDim md = int nu \<and> nc \<le> nu)"

lemma projectLQ_forms:
  assumes d: "constrained_dims nc nx nu md" and P: "projectors_ok nc nu (vl_dfdu (md_stateInputEqConstraint md)) rangeP N"
    and r: "projectLQ md rangeP N pd = Inr r"
  shows "dfduu (md_cost r) = mm (tr N) (mm (dfduu (md_cost md)) N)" "vl_dfdu (md_dynamics r) = mm (vl_dfdu (md_dynamics md)) N"
    "symmetric (dfdxx (md_cost r))" "md_stateDim r = md_stateDim md"
    "vl_f (md_dynamics r) = (if nc = 0 then vl_f (md_dynamics md)
       else vadd (vl_f (md_dynamics md)) (mv (vl_dfdu (md_dynamics md)) (vneg (mv rangeP (vl_f (md_stateInputEqConstraint md))))))"
proof -
  let ?c = "md_stateInputEqConstraint md"
  note dims = d[unfolded constrained_dims_def linear_dims_def] P[unfolded projectors_ok_def]
  have q: "quadratic_dims nx nu (md_cost md)" "linear_dims nx nx nu (md_dynamics md)" "symmetric (dfdxx (md_cost md))" "symmetric (dfduu (md_cost md))"
    using d by (simp_all add: constrained_dims_def)
  show "md_stateDim r = md_stateDim md" using r by (auto simp: projectLQ_def Let_def result_simps split: if_splits)
  have "\<exists>Px u0. change_dims nx nu (nu - nc) N Px u0 \<and> changeOfInputVariables_linear (md_dynamics md) N Px u0 = Inr (md_dynamics r) \<and>
      changeOfInputVariables_quadratic (md_cost md) N Px u0 = Inr (md_cost r) \<and>
      u0 = (if nc = 0 then [] else vneg (mv rangeP (vl_f ?c)))"
  proof (cases "nc = 0")
    case True
    moreover have "change_dims nx nu (nu - nc) N empty_mat []" using dims by (simp add: change_dims_def m_size_empty)
    ultimately show ?thesis using r dims
      by (intro exI[of _ empty_mat] exI[of _ "[]"]) (auto simp: projectLQ_def Let_def result_simps split: if_splits)
  next
    case False
    moreover have "change_dims nx nu (nu - nc) N (mneg (mm rangeP (vl_dfdx ?c))) (vneg (mv rangeP (vl_f ?c)))"
      using dims by (simp add: change_dims_def)
    ultimately show ?thesis using r dims
      by (intro exI[of _ "mneg (mm rangeP (vl_dfdx ?c))"] exI[of _ "vneg (mv rangeP (vl_f ?c))"])
        (auto simp: projectLQ_def Let_def result_simps mat_checked split: if_splits)
  qed
  then obtain Px u0 where c: "change_dims nx nu (nu - nc) N Px u0" "changeOfInputVariables_linear (md_dynamics md) N Px u0 = Inr (md_dynamics r)"
      "changeOfInputVariables_quadratic (md_cost md) N Px u0 = Inr (md_cost r)" "u0 = (if nc = 0 then [] else vneg (mv rangeP (vl_f ?c)))" by blast
  have ne: "0 < nc \<Longrightarrow> mv rangeP (vl_f ?c) \<noteq> []" using dims by (auto simp: list_eq_iff_nth_eq)
  show "dfduu (md_cost r) = mm (tr N) (mm (dfduu (md_cost md)) N)" "symmetric (dfdxx (md_cost r))"
    using change_quadratic_forms[OF c(3) q(1) c(1)] q by simp_all
  show "vl_dfdu (md_dynamics r) = mm (vl_dfdu (md_dynamics md)) N" using change_linear_forms[OF c(2) q(2) c(1)] by simp
  show "vl_f (md_dynamics r) = (if nc = 0 then vl_f (md_dynamics md)
       else vadd (vl_f (md_dynamics md)) (mv (vl_dfdu (md_dynamics md)) (vneg (mv rangeP (vl_f ?c)))))"
    using change_linear_forms(2)[OF c(2) q(2) c(1)] c(4) ne by (auto simp: vneg_def)
qed

section \<open>The correction of a symmetric matrix\<close>

definition correction_ok :: "eigen_solver \<Rightarrow> incomplete_cholesky \<Rightarrow> hessian_strategy \<Rightarrow> nat \<Rightarrow> bool" where
  "correction_ok es ic strategy n =
     ((\<forall>B. m_rows B = n \<and> m_cols B = n \<longrightarrow> cholesky_ok ic B) \<and>
      (strategy = EIGENVALUE_MODIFICATION \<longrightarrow> (\<forall>A. mat_wf A \<and> symmetric A \<and> m_rows A = n \<longrightarrow> eigen_ok es A)))"

lemma symmetric_add_diagonal: "symmetric A \<Longrightarrow> symmetric (add_diagonal c A)"
  by (simp add: symmetric_def add_diagonal_def)

lemma symmetric_gram: "symmetric (mm L (tr L))"
  by (simp add: symmetric_def mm_def mult.commute)

lemma symmetric_spectral:
  assumes "m_rows V = n" "m_cols V = n" "length l = n"
  shows "symmetric (mm V (diag_mm l (tr V)))"
  using assms by (simp add: symmetric_def mm_def diag_mm_def algebra_simps)

lemma shiftHessian_symmetric:
  assumes "shiftHessian es ic strategy A c = Inr S" "symmetric A" "mat_wf A" "correction_ok es ic strategy (m_rows A)"
  shows "symmetric S"
proof (cases strategy)
  case DIAGONAL_SHIFT
  then show ?thesis using assms by (auto simp: shiftHessian_def symmetric_add_diagonal split: if_splits)
next
  case CHOLESKY_MODIFICATION
  then have "makePsdCholesky ic c A = Inr S" using assms by (simp add: shiftHessian_def split: if_splits)
  then show ?thesis
    by (auto simp: makePsdCholesky_def Let_def result_simps mat_mult_def intro!: symmetric_add_diagonal symmetric_gram split: if_splits prod.splits)
next
  case EIGENVALUE_MODIFICATION
  then have "makePsdEigenvalue es c A = Inr S" using assms by (simp add: shiftHessian_def split: if_splits)
  moreover have "eigen_ok es A" using assms(2-4) EIGENVALUE_MODIFICATION by (simp add: correction_ok_def)
  ultimately show ?thesis using assms(2)
    by (auto simp: makePsdEigenvalue_def Let_def result_simps eigen_ok_def mat_checked symmetric_def[of A]
        intro!: symmetric_spectral symmetric_symmetrized split: if_splits)
next
  case GERSHGORIN_MODIFICATION
  then have "makePsdGershgorin c A = Inr S" using assms by (simp add: shiftHessian_def split: if_splits)
  then show ?thesis using makePsdGershgorin_bound[of A c] assms(2) by (auto simp: symmetric_def)
qed

lemma ls_modification_ok:
  assumes q: "quadratic_dims nx nv (md_cost md)" "symmetric (dfdxx (md_cost md))" and d: "md_stateDim md = int nx" "m_cols (vl_dfdu (md_dynamics md)) = nv"
    and c: "correction_ok es ic (hessianCorrectionStrategy cfg) nx"
  shows "\<exists>deltaQm. ls_computeRiccatiModification es ic cfg md = Inr (deltaQm, zero_vec nv, zero_mat nv nx) \<and>
    m_rows deltaQm = nx \<and> m_cols deltaQm = nx \<and> symmetric deltaQm"
proof -
  let ?strategy = "hessianCorrectionStrategy cfg"
  define P Q M where "P = dfdux (md_cost md)" "Q = dfdxx (md_cost md)" "M = madd Q (mneg (mm (tr P) P))"
  note defs = P_Q_M_def
  have dims: "m_rows Q = nx" "m_cols Q = nx" "m_rows P = nv" "m_cols P = nx" using q by (simp_all add: quadratic_dims_def defs)
  then have M: "m_rows M = nx" "m_cols M = nx" "mat_wf M" "symmetric M"
    using q(2) by (simp_all add: defs symmetric_def madd_def mneg_def mm_def mult.commute)
  have e: "?strategy = EIGENVALUE_MODIFICATION \<Longrightarrow> symmetric M \<and> eigen_ok es M" using c M by (simp add: correction_ok_def)
  from shiftHessian_correct[of M ic ?strategy es "hessianCorrectionMultiple cfg"] M c e
  obtain S where S: "shiftHessian es ic ?strategy M (hessianCorrectionMultiple cfg) = Inr S" "m_rows S = nx" "m_cols S = nx"
    by (auto simp: correction_ok_def)
  have "symmetric S" using shiftHessian_symmetric[OF S(1) M(4,3)] c M by simp
  then have "symmetric (madd S (mneg M))" using M S by (simp add: symmetric_def madd_def mneg_def)
  moreover have "ls_computeRiccatiModification es ic cfg md = Inr (madd S (mneg M), zero_vec nv, zero_mat nv nx)"
    using dims S M d by (simp add: ls_computeRiccatiModification_def Let_def defs(1,2)[symmetric] mat_checked defs(3)[symmetric])
  ultimately show ?thesis using S M by simp
qed

section \<open>One node of iLQR\<close>

definition ilqr_hessian :: "model_data \<Rightarrow> riccati_value \<Rightarrow> dmatrix" where
  "ilqr_hessian md nxt =
     madd (dfduu (md_cost md)) (mm (mm (tr (vl_dfdu (md_dynamics md))) (fst nxt)) (vl_dfdu (md_dynamics md)))"

lemma vneg_zero: "length u = n \<Longrightarrow> vadd (vneg u) u = zero_vec n"
  by (intro nth_equalityI) (simp_all add: zero_vec_def)

lemma projected_step:
  assumes d: "constrained_dims nc nx nu md" and P: "projectors_ok nc nu (vl_dfdu (md_stateInputEqConstraint md)) rangeP N"
    and r: "projectLQ md rangeP N pd = Inr r" and V: "value_dims nx nxt"
  shows "step_dims nx (nu - nc) r"
    and "\<And>v. length v = nu - nc \<Longrightarrow> form (hm_of r nxt) v = form (ilqr_hessian md nxt) (mv N v)"
    and "\<And>x v. length x = nx \<Longrightarrow> length v = nu - nc \<Longrightarrow>
      step_value r nxt x v = step_value md nxt x (projected_input md rangeP N x v) \<and>
      linear_value (md_stateInputEqConstraint md) x (projected_input md rangeP N x v) = zero_vec nc"
proof -
  define A B h R where "A = vl_dfdx (md_dynamics md)" "B = vl_dfdu (md_dynamics md)" "h = md_dynamicsBias md" "R = dfduu (md_cost md)"
  note dims = d[unfolded constrained_dims_def] P[unfolded projectors_ok_def] V[unfolded value_dims_def]
  from projectLQ_exact[of nx nu md nc rangeP N pd] dims P r
  have e: "quadratic_dims nx (nu - nc) (md_cost r)" "linear_dims nx nx (nu - nc) (md_dynamics r)"
    "\<And>x v. length x = nx \<Longrightarrow> length v = nu - nc \<Longrightarrow> quadratic_value (md_cost r) x v = quadratic_value (md_cost md) x (projected_input md rangeP N x v)"
    "\<And>x v. length x = nx \<Longrightarrow> length v = nu - nc \<Longrightarrow> linear_value (md_dynamics r) x v = linear_value (md_dynamics md) x (projected_input md rangeP N x v)"
    "\<And>x v. length x = nx \<Longrightarrow> length v = nu - nc \<Longrightarrow> linear_value (md_stateInputEqConstraint md) x (projected_input md rangeP N x v) = zero_vec nc"
    "md_dynamicsBias r = (if nc = 0 then h else vadd h (mv B (vneg (mv rangeP (vl_f (md_stateInputEqConstraint md))))))"
    by (auto simp: A_B_h_R_def)
  have lin: "linear_dims nx nx nu (md_dynamics md)" "length h = nx" "m_rows B = nx" "m_cols B = nu" "m_rows A = nx" "m_cols A = nx"
      "length (vl_f (md_dynamics md)) = nx" "m_rows R = nu" "m_cols R = nu"
    using dims by (simp_all add: linear_dims_def quadratic_dims_def A_B_h_R_def)
  note lr = e(2)[unfolded linear_dims_def]
  show "step_dims nx (nu - nc) r"
    unfolding step_dims_def e(6) using e(1) lr lin by auto
  note forms = projectLQ_forms[OF d P r, folded A_B_h_R_def]
  obtain S w s where nxt: "nxt = (S, w, s)" by (cases nxt)
  have S: "symmetric S" "m_rows S = nx" "m_cols S = nx" using dims by (simp_all add: nxt)
  show "form (hm_of r nxt) v = form (ilqr_hessian md nxt) (mv N v)" if v: "length v = nu - nc" for v
  proof -
    have N: "m_rows N = nu" "m_cols N = nu - nc" using dims by simp_all
    have "form (hm_of r nxt) v = form (mm (tr N) (mm R N)) v + form S (mv (mm B N) v)"
      using N lin S v forms(1,2) by (simp add: hm_of_def nxt form_madd form_congruence)
    also have "form (mm (tr N) (mm R N)) v = form R (mv N v)"
      using N lin v form_mv[of R N v] by (simp add: form_def mv_mm)
    also have "form S (mv (mm B N) v) = form (mm (mm (tr B) S) B) (mv N v)"
      using N lin S v form_mv[of S B "mv N v"] by (simp add: form_def mv_mm)
    finally show ?thesis using N lin S by (simp add: ilqr_hessian_def nxt form_madd A_B_h_R_def[symmetric])
  qed
  show "step_value r nxt x v = step_value md nxt x (projected_input md rangeP N x v) \<and>
      linear_value (md_stateInputEqConstraint md) x (projected_input md rangeP N x v) = zero_vec nc"
    if x: "length x = nx" and v: "length v = nu - nc" for x v
  proof -
    let ?u = "projected_input md rangeP N x v"
    have "next_state r x v = next_state md x ?u"
    proof (rule nth_equalityI)
      show "length (next_state r x v) = length (next_state md x ?u)" using lin lr by (simp add: next_state_def A_B_h_R_def)
      fix i assume "i < length (next_state r x v)"
      then have i: "i < nx" using lr by (simp add: next_state_def)
      have "linear_value (md_dynamics r) x v ! i = linear_value (md_dynamics md) x ?u ! i" using e(4)[OF x v] by simp
      then show "next_state r x v ! i = next_state md x ?u ! i"
        using i lin lr forms(5) e(6) by (auto simp: next_state_def linear_value_def A_B_h_R_def[symmetric] simp del: mv_nth split: if_splits)
    qed
    then show ?thesis using e(3,5)[OF x v] by (simp add: step_value_def)
  qed
qed

lemma projected_input_complete:
  assumes d: "constrained_dims nc nx nu md" and P: "projectors_ok nc nu (vl_dfdu (md_stateInputEqConstraint md)) rangeP N"
    and N: "null_space_ok H (vl_dfdu (md_stateInputEqConstraint md)) N nu nc" and x: "length x = nx" and u: "length u = nu"
    and c: "linear_value (md_stateInputEqConstraint md) x u = zero_vec nc"
  shows "\<exists>v. length v = nu - nc \<and> projected_input md rangeP N x v = u"
proof -
  let ?D = "vl_dfdu (md_stateInputEqConstraint md)"
  define u0 where "u0 = projected_input md rangeP N x (zero_vec (nu - nc))"
  note dims = d[unfolded constrained_dims_def linear_dims_def] P[unfolded projectors_ok_def]
  have N0: "mv N (zero_vec (nu - nc)) = zero_vec nu" using dims by (simp add: mv_zero_vec)
  have lin: "projected_input md rangeP N x v = vadd (mv N v) u0 \<and> length u0 = nu" if "length v = nu - nc" for v
    unfolding u0_def projected_input_def changed_input_def N0
    using dims by (auto intro!: nth_equalityI simp: zero_vec_def simp del: mv_nth)
  have "mv N v' = vadd u (vneg u0) \<Longrightarrow> length v' = nu - nc \<Longrightarrow> projected_input md rangeP N x v' = u" for v'
    using lin[of v'] u by (auto intro!: nth_equalityI)
  moreover have "\<exists>v. length v = nu - nc \<and> mv N v = vadd u (vneg u0)"
  proof -
    have l0: "length u0 = nu" using lin[of "zero_vec (nu - nc)"] by simp
    have q: "quadratic_dims nx nu (md_cost md)" "symmetric (dfduu (md_cost md))" "linear_dims nx nx nu (md_dynamics md)"
      "linear_dims nc nx nu (md_stateInputEqConstraint md)" "length (md_dynamicsBias md) = nx" "md_stateDim md = int nx" "md_inputDim md = int nu"
      using d by (simp_all add: constrained_dims_def)
    have "linear_value (md_stateInputEqConstraint md) x u0 = zero_vec nc"
      using projectLQ_exact[OF q P, of md] x by (auto simp: u0_def)
    have "mv ?D (vadd u (vneg u0)) = zero_vec nc"
    proof (rule nth_equalityI)
      fix i assume "i < length (mv ?D (vadd u (vneg u0)))"
      then have i: "i < nc" using dims by simp
      have "linear_value (md_stateInputEqConstraint md) x u ! i = linear_value (md_stateInputEqConstraint md) x u0 ! i"
        using c \<open>linear_value (md_stateInputEqConstraint md) x u0 = zero_vec nc\<close> by simp
      then have "mv ?D u ! i = mv ?D u0 ! i" using dims i by (simp add: linear_value_def del: mv_nth)
      then show "mv ?D (vadd u (vneg u0)) ! i = zero_vec nc ! i"
        using dims i l0 u by (simp add: mv_vadd mv_vneg zero_vec_def del: mv_nth)
    qed (use dims in simp)
    then show ?thesis using N l0 u by (auto simp: null_space_ok_def)
  qed
  ultimately show ?thesis by blast
qed

text \<open>
  A node of iLQR with a line search is one exact step of dynamic programming on the constrained problem. Let the
  factorisations be right at the Hessian of the Hamiltonian, the constraint far from rank deficient, and the next value
  symmetric. Then \<open>computeProjectionAndRiccatiModification\<close> and the reduced \<open>computeMap\<close> succeed; the inputs of the projected
  model are exactly the inputs that satisfy the constraint; and the cost of any of them, the step's and that of the rest,
  plus the quadratic term of \<open>deltaQm\<close>, is the value that is returned plus half the squared distance of the projected input
  from the policy that is returned. The value is symmetric again.
\<close>

lemma ilqr_node_is_bellman:
  assumes d: "constrained_dims nc nx nu md" and V: "value_dims nx nxt"
    and env: "re_strategy env = Line_Search_State cfg" "reducedFormRiccati (re_riccati env)" "\<not> isRiskSensitive (re_riccati env)"
    and uut: "uut_ok (re_factorizations env) (ilqr_hessian md nxt)"
    and c: "constraint_ok (re_factorizations env) (vl_dfdu (md_stateInputEqConstraint md))
              (computeInverseMatrixUUT (re_factorizations env) (ilqr_hessian md nxt))"
    and ok: "correction_ok (re_eigen env) (re_cholesky env) (hessianCorrectionStrategy cfg) nx"
  shows "\<exists>pd rm K L V. computeProjectionAndRiccatiModification env ilqr_computeHamiltonianHessian md (fst nxt) old = Inr (pd, rm) \<and>
    computeMap (re_ldlt env) (re_riccati env) pd rm oldSv nxt = Inr (K, L, V) \<and> value_dims nx V \<and>
    m_rows K = nu - nc \<and> m_cols K = nx \<and> length L = nu - nc \<and> step_dims nx (nu - nc) pd \<and> modification_dims nx (nu - nc) rm \<and>
    projectors_ok nc nu (vl_dfdu (md_stateInputEqConstraint md)) (rm_constraintRangeProjector rm) (rm_constraintNullProjector rm) \<and>
    projectLQ md (rm_constraintRangeProjector rm) (rm_constraintNullProjector rm) old = Inr pd \<and>
    (\<forall>x u. length x = nx \<longrightarrow> length u = nu \<longrightarrow>
       (linear_value (md_stateInputEqConstraint md) x u = zero_vec nc) =
       (\<exists>v. length v = nu - nc \<and> projected_input md (rm_constraintRangeProjector rm) (rm_constraintNullProjector rm) x v = u)) \<and>
    (\<forall>x v. length x = nx \<longrightarrow> length v = nu - nc \<longrightarrow>
       (let e = vadd v (vneg (vadd (mv K x) L)) in
        step_value md nxt x (projected_input md (rm_constraintRangeProjector rm) (rm_constraintNullProjector rm) x v) +
          form (rm_deltaQm rm) x / 2 = triple_value V x + dot e e / 2))"
proof -
  define H D where "H = ilqr_hessian md nxt" "D = vl_dfdu (md_stateInputEqConstraint md)"
  obtain S w s where nxt: "nxt = (S, w, s)" by (cases nxt)
  note dims = d[unfolded constrained_dims_def linear_dims_def quadratic_dims_def] V[unfolded value_dims_def nxt, simplified]
  have H: "ilqr_computeHamiltonianHessian env md (fst nxt) = Inr H" "m_rows H = nu" "m_cols H = nu"
    using dims env(1) by (simp_all add: ilqr_computeHamiltonianHessian_def ilqr_hessian_def nxt H_D_def mat_checked)
  have D: "m_rows D = nc" "m_cols D = nu" "nc \<le> nu" using dims by (simp_all add: H_D_def)
  from computeProjections_ok[OF H(2,3) D, of env] uut c obtain rangeP N where
    P: "computeProjections env H D = Inr (rangeP, N)" "projectors_ok nc nu D rangeP N" "null_space_ok H D N nu nc"
    by (auto simp: H_D_def)
  have q: "quadratic_dims nx nu (md_cost md)" "symmetric (dfduu (md_cost md))" "linear_dims nx nx nu (md_dynamics md)"
      "linear_dims nc nx nu (md_stateInputEqConstraint md)" "length (md_dynamicsBias md) = nx" "md_stateDim md = int nx" "md_inputDim md = int nu"
    using d by (simp_all add: constrained_dims_def)
  from projectLQ_exact[OF q P(2)[unfolded H_D_def(2)], of old] obtain pd where pd: "projectLQ md rangeP N old = Inr pd" by blast
  note step = projected_step[OF d P(2)[unfolded H_D_def(2)] pd V]
  note forms = projectLQ_forms[OF d P(2)[unfolded H_D_def(2)] pd]
  have "quadratic_dims nx (nu - nc) (md_cost pd)" "m_cols (vl_dfdu (md_dynamics pd)) = nu - nc" using step(1) by (simp_all add: step_dims_def)
  from ls_modification_ok[OF this(1) forms(3) _ this(2) ok] forms(4) q(6) obtain dQ where
    dQ: "ls_computeRiccatiModification (re_eigen env) (re_cholesky env) cfg pd = Inr (dQ, zero_vec (nu - nc), zero_mat (nu - nc) nx)"
      "m_rows dQ = nx" "m_cols dQ = nx" "symmetric dQ" by auto
  define rm where "rm = \<lparr>rm_time = md_time md, rm_deltaQm = dQ, rm_deltaGm = zero_mat (nu - nc) nx, rm_deltaGv = zero_vec (nu - nc),
      rm_hamiltonianHessian = H, rm_constraintRangeProjector = rangeP, rm_constraintNullProjector = N\<rparr>"
  have rm: "computeProjectionAndRiccatiModification env ilqr_computeHamiltonianHessian md (fst nxt) old = Inr (pd, rm)"
    using H(1) P(1) pd dQ(1) env(1) by (simp add: computeProjectionAndRiccatiModification_def H_D_def(2) rm_def)
  have mod: "modification_dims nx (nu - nc) rm" using dQ by (simp add: modification_dims_def rm_def)
  have I: "form (hm_of pd nxt) v = dot v v" if "length v = nu - nc" for v
    using step(2)[OF that] P(3) that by (simp add: null_space_ok_def H_D_def)
  have zero: "rm_deltaGm rm = zero_mat (nu - nc) nx" "rm_deltaGv rm = zero_vec (nu - nc)" "symmetric (rm_deltaQm rm)"
    using dQ(4) by (simp_all add: rm_def)
  from riccati_reduced_optimal[OF step(1) V mod zero(1,2) I] forms(3) zero(3) obtain K L V' where
    m: "computeMapILQR True pd rm nxt = Inr (K, L, V')" "value_dims nx V'" "m_rows K = nu - nc" "m_cols K = nx" "length L = nu - nc"
      "\<And>x v. length x = nx \<Longrightarrow> length v = nu - nc \<Longrightarrow> (let e = vadd v (vneg (vadd (mv K x) L)) in
        step_value pd nxt x v + form (rm_deltaQm rm) x / 2 = triple_value V' x + dot e e / 2)"
    by blast
  have map: "computeMap (re_ldlt env) (re_riccati env) pd rm oldSv nxt = Inr (K, L, V')"
    using m(1) env(2,3) by (simp add: computeMap_def)
  have "(linear_value (md_stateInputEqConstraint md) x u = zero_vec nc) = (\<exists>v. length v = nu - nc \<and> projected_input md rangeP N x v = u)"
    if "length x = nx" "length u = nu" for x u
    using projected_input_complete[OF d P(2)[unfolded H_D_def(2)] P(3)[unfolded H_D_def(2)] that] step(3)[OF that(1)] by auto
  moreover have "let e = vadd v (vneg (vadd (mv K x) L)) in step_value md nxt x (projected_input md rangeP N x v) + form (rm_deltaQm rm) x / 2 = triple_value V' x + dot e e / 2"
    if "length x = nx" "length v = nu - nc" for x v
    using m(6)[OF that] step(3)[OF that] by simp
  moreover have "rm_constraintRangeProjector rm = rangeP" "rm_constraintNullProjector rm = N" by (simp_all add: rm_def)
  ultimately show ?thesis using rm map m(2-5) P(2)[unfolded H_D_def(2)] pd step(1) mod by (intro exI[of _ pd] exI[of _ rm] exI[of _ K] exI[of _ L] exI[of _ V']) simp
qed

text \<open>One state and two inputs, of which the constraint \<open>u0 + x + 3 = 0\<close> determines the first.\<close>

definition example_env :: riccati_env where
  "example_env = \<lparr>re_factorizations = example_factorizations\<lparr>llt_matrixU := \<lambda>A. Mat 2 2 [[1 / 2, 0], [0, 1 / 2]]\<rparr>,
     re_eigen = \<lparr>es_eigenvalues = \<lambda>A. [], es_eigenvectors = \<lambda>A. A, es_inverse = \<lambda>A. A\<rparr>,
     re_cholesky = (\<lambda>B. (replicate (m_rows B) 1, mk_mat (m_rows B) (m_rows B) (m_at B), id)),
     re_ldlt = \<lparr>ldlt_vectorD = \<lambda>A. [1], ldlt_inverse = \<lambda>A. A\<rparr>, re_strategy = Line_Search_State default_line_search_settings,
     re_riccati = \<lparr>reducedFormRiccati = True, isRiskSensitive = False, riskSensitiveCoeff = 0\<rparr>, re_checkNumericalStability = True\<rparr>"

definition example_node :: model_data where
  "example_node = new_ModelData\<lparr>md_stateDim := 1, md_inputDim := 2, md_dynamicsBias := [1],
     md_dynamics := \<lparr>vl_dfdx = Mat 1 1 [[1]], vl_dfdu = Mat 1 2 [[0, 0]], vl_f = [0]\<rparr>,
     md_cost := \<lparr>dfdxx = Mat 1 1 [[2]], dfdux = Mat 2 1 [[0], [1]], dfduu = Mat 2 2 [[1 / 4, 0], [0, 1 / 4]], dfdx = [1], dfdu = [1, 0], appr_f = 5\<rparr>,
     md_stateInputEqConstraint := \<lparr>vl_dfdx = Mat 1 1 [[1]], vl_dfdu = Mat 1 2 [[1, 0]], vl_f = [3]\<rparr>\<rparr>"

lemma example_dims: "constrained_dims 1 1 2 example_node" "value_dims 1 (Mat 1 1 [[a]], [b], c)"
  by (simp_all add: constrained_dims_def example_node_def quadratic_dims_def linear_dims_def value_dims_def symmetric_def m_at_def
      numeral_2_eq_2 All_less_Suc)

lemma example_hessian: "value_dims 1 V \<Longrightarrow> ilqr_hessian example_node V = Mat 2 2 [[1 / 4, 0], [0, 1 / 4]]"
  by (cases V) (simp add: ilqr_hessian_def example_node_def mm_def tr_def madd_def mk_mat_def m_at_def numeral_2_eq_2 value_dims_def)

lemma example_inverse: "computeInverseMatrixUUT (re_factorizations example_env) (Mat 2 2 [[1 / 4, 0], [0, 1 / 4]]) = Mat 2 2 [[2, 0], [0, 2]]"
  by (simp add: computeInverseMatrixUUT_def example_env_def example_factorizations_def identity_def mk_mat_def m_at_def numeral_2_eq_2)

lemma example_contracts:
  "uut_ok (re_factorizations example_env) (Mat 2 2 [[1 / 4, 0], [0, 1 / 4]])"
  "constraint_ok (re_factorizations example_env) (Mat 1 2 [[1, 0]]) (Mat 2 2 [[2, 0], [0, 2]])"
  "correction_ok (re_eigen example_env) (re_cholesky example_env) DIAGONAL_SHIFT 1"
proof -
  show "uut_ok (re_factorizations example_env) (Mat 2 2 [[1 / 4, 0], [0, 1 / 4]])"
    unfolding uut_ok_def example_inverse Let_def
    by (simp add: mm_def tr_def mk_mat_def m_at_def numeral_2_eq_2 lessThan_Suc identity_def)
  have W: "mm (tr (Mat 2 2 [[2, 0], [0, 2]])) (tr (Mat 1 2 [[1, 0]])) = Mat 2 1 [[2], [0]]"
    by (simp add: mm_def tr_def mk_mat_def m_at_def numeral_2_eq_2 lessThan_Suc)
  have "qr_ok (re_factorizations example_env) (Mat 2 1 [[2], [0]])"
    by (simp add: qr_ok_def example_env_def example_factorizations_def numeral_2_eq_2 All_less_Suc lessThan_Suc identity_def mk_mat_def m_at_def)
  moreover have "solve_upper_ok (re_factorizations example_env) T" if "m_rows T = 1" "m_cols T = 1" for T
    using that by (auto simp: solve_upper_ok_def example_env_def example_factorizations_def identity_def mm_def Let_def intro!: mat_eqI)
  ultimately show "constraint_ok (re_factorizations example_env) (Mat 1 2 [[1, 0]]) (Mat 2 2 [[2, 0], [0, 2]])"
    unfolding constraint_ok_def W by (simp add: example_env_def example_factorizations_def m_at_def weakEpsilon_def)
  show "correction_ok (re_eigen example_env) (re_cholesky example_env) DIAGONAL_SHIFT 1"
    by (simp add: correction_ok_def cholesky_ok_def example_env_def)
qed

lemma ilqr_node_witness:
  "\<exists>pd rm K L V. computeProjectionAndRiccatiModification example_env ilqr_computeHamiltonianHessian example_node (Mat 1 1 [[2]]) new_ModelData = Inr (pd, rm) \<and>
     computeMap (re_ldlt example_env) (re_riccati example_env) pd rm [] (Mat 1 1 [[2]], [1], 5) = Inr (K, L, V) \<and> value_dims 1 V"
proof -
  have env: "re_strategy example_env = Line_Search_State default_line_search_settings" "reducedFormRiccati (re_riccati example_env)"
    "\<not> isRiskSensitive (re_riccati example_env)" by (simp_all add: example_env_def)
  have D: "vl_dfdu (md_stateInputEqConstraint example_node) = Mat 1 2 [[1, 0]]" by (simp add: example_node_def)
  have cfg: "hessianCorrectionStrategy default_line_search_settings = DIAGONAL_SHIFT" by (simp add: default_line_search_settings_def)
  from ilqr_node_is_bellman[OF example_dims(1) example_dims(2)[of 2 1 5] env, unfolded example_hessian[OF example_dims(2)] example_inverse D cfg,
      OF example_contracts]
  show ?thesis by fastforce
qed

end
