(* ===== verification/Sensitivity_Integrator.thy ===== *)
theory Sensitivity_Integrator
  imports Linear_Algebra
begin

text \<open>
  \<open>core/ocs2_core/src/integration/SensitivityIntegrator\<close>: the explicit schemes that discretise the dynamics and, with them,
  their linear approximation. The dynamics are a record of their two methods. The property: for dynamics that are affine in
  the state and the input, at every time with other coefficients, the linear approximation of every scheme is exact.
\<close>

section \<open>Schemes\<close>

datatype sensitivity_type = SI_EULER | SI_RK2 | SI_RK4

record flow_ops =
  fo_computeFlowMap :: "scalar \<Rightarrow> vector_t \<Rightarrow> vector_t \<Rightarrow> vector_t result"
  fo_linearApproximation :: "scalar \<Rightarrow> vector_t \<Rightarrow> vector_t \<Rightarrow> vector_linear result"

text \<open>\<open>x + h * k\<close>, and the accumulation of \<open>h * A * B\<close>.\<close>

definition axpy :: "scalar \<Rightarrow> vector_t \<Rightarrow> vector_t \<Rightarrow> vector_t result" where
  "axpy h k x = vec_add x (vscale h k)"

definition acc_mult :: "scalar \<Rightarrow> dmatrix \<Rightarrow> dmatrix \<Rightarrow> dmatrix \<Rightarrow> dmatrix result" where
  "acc_mult h A B C = bind_result (mat_mult (mscale h A) B) (mat_add C)"

definition eulerDiscretization :: "flow_ops \<Rightarrow> scalar \<Rightarrow> vector_t \<Rightarrow> vector_t \<Rightarrow> scalar \<Rightarrow> vector_t result" where
  "eulerDiscretization sys t x u dt = bind_result (fo_computeFlowMap sys t x u) (\<lambda>k. axpy dt k x)"

definition eulerSensitivityDiscretization :: "flow_ops \<Rightarrow> scalar \<Rightarrow> vector_t \<Rightarrow> vector_t \<Rightarrow> scalar \<Rightarrow> vector_linear result" where
  "eulerSensitivityDiscretization sys t x u dt =
     bind_result (fo_linearApproximation sys t x u) (\<lambda>k.
     bind_result (axpy dt (vl_f k) x) (\<lambda>f.
     Inr \<lparr>vl_dfdx = add_diagonal 1 (mscale dt (vl_dfdx k)), vl_dfdu = mscale dt (vl_dfdu k), vl_f = f\<rparr>))"

definition rk2Discretization :: "flow_ops \<Rightarrow> scalar \<Rightarrow> vector_t \<Rightarrow> vector_t \<Rightarrow> scalar \<Rightarrow> vector_t result" where
  "rk2Discretization sys t x u dt =
     (let dt_halve = dt / 2 in
      bind_result (fo_computeFlowMap sys t x u) (\<lambda>k1.
      bind_result (axpy dt k1 x) (\<lambda>tmp.
      bind_result (fo_computeFlowMap sys (t + dt) tmp u) (\<lambda>k2.
      bind_result (axpy dt_halve k1 x) (axpy dt_halve k2)))))"

definition rk2SensitivityDiscretization :: "flow_ops \<Rightarrow> scalar \<Rightarrow> vector_t \<Rightarrow> vector_t \<Rightarrow> scalar \<Rightarrow> vector_linear result" where
  "rk2SensitivityDiscretization sys t x u dt =
     (let dt_halve = dt / 2 in
      bind_result (fo_linearApproximation sys t x u) (\<lambda>k1.
      bind_result (axpy dt (vl_f k1) x) (\<lambda>tmp.
      bind_result (fo_linearApproximation sys (t + dt) tmp u) (\<lambda>k2.
      bind_result (acc_mult dt (vl_dfdx k2) (vl_dfdu k1) (vl_dfdu k2)) (\<lambda>u2.
      bind_result (acc_mult dt (vl_dfdx k2) (vl_dfdx k1) (vl_dfdx k2)) (\<lambda>x2.
      bind_result (mat_add (mscale dt_halve (vl_dfdx k1)) (mscale dt_halve x2)) (\<lambda>dfdx.
      bind_result (mat_add (mscale dt_halve (vl_dfdu k1)) (mscale dt_halve u2)) (\<lambda>dfdu.
      bind_result (bind_result (axpy dt_halve (vl_f k1) x) (axpy dt_halve (vl_f k2))) (\<lambda>f.
      Inr \<lparr>vl_dfdx = add_diagonal 1 dfdx, vl_dfdu = dfdu, vl_f = f\<rparr>)))))))))"

definition rk4Discretization :: "flow_ops \<Rightarrow> scalar \<Rightarrow> vector_t \<Rightarrow> vector_t \<Rightarrow> scalar \<Rightarrow> vector_t result" where
  "rk4Discretization sys t x u dt =
     (let dt_halve = dt / 2; dt_sixth = dt / 6; dt_third = dt / 3 in
      bind_result (fo_computeFlowMap sys t x u) (\<lambda>k1.
      bind_result (axpy dt_halve k1 x) (\<lambda>tmp.
      bind_result (fo_computeFlowMap sys (t + dt_halve) tmp u) (\<lambda>k2.
      bind_result (axpy dt_halve k2 x) (\<lambda>tmp.
      bind_result (fo_computeFlowMap sys (t + dt_halve) tmp u) (\<lambda>k3.
      bind_result (axpy dt k3 x) (\<lambda>tmp.
      bind_result (fo_computeFlowMap sys (t + dt) tmp u) (\<lambda>k4.
      bind_result (bind_result (bind_result (axpy dt_sixth k1 x) (axpy dt_third k2)) (axpy dt_third k3)) (axpy dt_sixth k4)))))))))"

definition rk4_sum :: "scalar \<Rightarrow> dmatrix \<Rightarrow> dmatrix \<Rightarrow> dmatrix \<Rightarrow> dmatrix \<Rightarrow> dmatrix result" where
  "rk4_sum dt A1 A2 A3 A4 =
     (let dt_sixth = dt / 6; dt_third = dt / 3 in
      bind_result (mat_add (mscale dt_sixth A1) (mscale dt_third A2)) (\<lambda>S.
      bind_result (mat_add S (mscale dt_third A3)) (\<lambda>S. mat_add S (mscale dt_sixth A4))))"

definition rk4SensitivityDiscretization :: "flow_ops \<Rightarrow> scalar \<Rightarrow> vector_t \<Rightarrow> vector_t \<Rightarrow> scalar \<Rightarrow> vector_linear result" where
  "rk4SensitivityDiscretization sys t x u dt =
     (let dt_halve = dt / 2; dt_sixth = dt / 6; dt_third = dt / 3 in
      bind_result (fo_linearApproximation sys t x u) (\<lambda>k1.
      bind_result (axpy dt_halve (vl_f k1) x) (\<lambda>tmpV.
      bind_result (fo_linearApproximation sys (t + dt_halve) tmpV u) (\<lambda>k2.
      bind_result (axpy dt_halve (vl_f k2) x) (\<lambda>tmpV.
      bind_result (fo_linearApproximation sys (t + dt_halve) tmpV u) (\<lambda>k3.
      bind_result (axpy dt (vl_f k3) x) (\<lambda>tmpV.
      bind_result (fo_linearApproximation sys (t + dt) tmpV u) (\<lambda>k4.
      bind_result (acc_mult dt_halve (vl_dfdx k2) (vl_dfdu k1) (vl_dfdu k2)) (\<lambda>u2.
      bind_result (acc_mult dt_halve (vl_dfdx k3) u2 (vl_dfdu k3)) (\<lambda>u3.
      bind_result (acc_mult dt (vl_dfdx k4) u3 (vl_dfdu k4)) (\<lambda>u4.
      bind_result (acc_mult dt_halve (vl_dfdx k2) (vl_dfdx k1) (vl_dfdx k2)) (\<lambda>x2.
      bind_result (acc_mult dt_halve (vl_dfdx k3) x2 (vl_dfdx k3)) (\<lambda>x3.
      bind_result (acc_mult dt (vl_dfdx k4) x3 (vl_dfdx k4)) (\<lambda>x4.
      bind_result (rk4_sum dt (vl_dfdx k1) x2 x3 x4) (\<lambda>dfdx.
      bind_result (rk4_sum dt (vl_dfdu k1) u2 u3 u4) (\<lambda>dfdu.
      bind_result (bind_result (bind_result (bind_result (axpy dt_sixth (vl_f k1) x) (axpy dt_third (vl_f k2)))
                     (axpy dt_third (vl_f k3))) (axpy dt_sixth (vl_f k4))) (\<lambda>f.
      Inr \<lparr>vl_dfdx = add_diagonal 1 dfdx, vl_dfdu = dfdu, vl_f = f\<rparr>)))))))))))))))))"

fun selectDynamicsDiscretization :: "sensitivity_type \<Rightarrow> flow_ops \<Rightarrow> scalar \<Rightarrow> vector_t \<Rightarrow> vector_t \<Rightarrow> scalar \<Rightarrow> vector_t result" where
  "selectDynamicsDiscretization SI_EULER = eulerDiscretization"
| "selectDynamicsDiscretization SI_RK2 = rk2Discretization"
| "selectDynamicsDiscretization SI_RK4 = rk4Discretization"

fun selectDynamicsSensitivityDiscretization ::
  "sensitivity_type \<Rightarrow> flow_ops \<Rightarrow> scalar \<Rightarrow> vector_t \<Rightarrow> vector_t \<Rightarrow> scalar \<Rightarrow> vector_linear result" where
  "selectDynamicsSensitivityDiscretization SI_EULER = eulerSensitivityDiscretization"
| "selectDynamicsSensitivityDiscretization SI_RK2 = rk2SensitivityDiscretization"
| "selectDynamicsSensitivityDiscretization SI_RK4 = rk4SensitivityDiscretization"

fun toString_sensitivity :: "sensitivity_type \<Rightarrow> string" where
  "toString_sensitivity SI_EULER = ''EULER''"
| "toString_sensitivity SI_RK2 = ''RK2''"
| "toString_sensitivity SI_RK4 = ''RK4''"

definition fromString_sensitivity :: "string \<Rightarrow> sensitivity_type result" where
  "fromString_sensitivity name =
     (if name = ''EULER'' then Inr SI_EULER else if name = ''RK2'' then Inr SI_RK2 else if name = ''RK4'' then Inr SI_RK4
      else Inl (Runtime_Error ''unordered_map::at''))"

section \<open>Affine dynamics\<close>

definition affine_ops :: "(scalar \<Rightarrow> dmatrix) \<Rightarrow> (scalar \<Rightarrow> dmatrix) \<Rightarrow> (scalar \<Rightarrow> vector_t) \<Rightarrow> flow_ops" where
  "affine_ops A B c =
     (let flow = (\<lambda>t x u. bind_result (mat_vmult (A t) x) (\<lambda>a. bind_result (mat_vmult (B t) u) (\<lambda>b. bind_result (vec_add (c t) a) (\<lambda>s. vec_add s b))))
      in \<lparr>fo_computeFlowMap = flow,
          fo_linearApproximation = (\<lambda>t x u. bind_result (flow t x u) (\<lambda>f. Inr \<lparr>vl_dfdx = A t, vl_dfdu = B t, vl_f = f\<rparr>))\<rparr>)"

definition affine_dims :: "nat \<Rightarrow> nat \<Rightarrow> (scalar \<Rightarrow> dmatrix) \<Rightarrow> (scalar \<Rightarrow> dmatrix) \<Rightarrow> (scalar \<Rightarrow> vector_t) \<Rightarrow> bool" where
  "affine_dims nx nu A B c =
     (\<forall>t. m_rows (A t) = nx \<and> m_cols (A t) = nx \<and> m_rows (B t) = nx \<and> m_cols (B t) = nu \<and> length (c t) = nx)"

definition affine_flow :: "(scalar \<Rightarrow> dmatrix) \<Rightarrow> (scalar \<Rightarrow> dmatrix) \<Rightarrow> (scalar \<Rightarrow> vector_t) \<Rightarrow> scalar \<Rightarrow> vector_t \<Rightarrow> vector_t \<Rightarrow> vector_t" where
  "affine_flow A B c t x u = vadd (vadd (c t) (mv (A t) x)) (mv (B t) u)"

lemma affine_ops_eq:
  assumes "affine_dims nx nu A B c" "length x = nx" "length u = nu"
  shows "fo_computeFlowMap (affine_ops A B c) t x u = Inr (affine_flow A B c t x u)"
    "fo_linearApproximation (affine_ops A B c) t x u = Inr \<lparr>vl_dfdx = A t, vl_dfdu = B t, vl_f = affine_flow A B c t x u\<rparr>"
  using assms by (simp_all add: affine_ops_def affine_dims_def affine_flow_def mat_checked)

lemma affine_flow_length [simp]: "affine_dims nx nu A B c \<Longrightarrow> length (affine_flow A B c t x u) = nx"
  by (simp add: affine_flow_def affine_dims_def)

text \<open>The difference of two flows, and the product that a scheme accumulates.\<close>

lemma affine_flow_diff:
  assumes "affine_dims nx nu A B c" "length x = nx" "length d = nx" "length u = nu" "length e = nu"
  shows "affine_flow A B c t (vadd x d) (vadd u e) = vadd (affine_flow A B c t x u) (vadd (mv (A t) d) (mv (B t) e))"
  using assms by (intro nth_equalityI) (simp_all add: affine_flow_def affine_dims_def mv_vadd del: mv_nth)

lemma acc_mult_eq: "m_cols A = m_rows B \<Longrightarrow> m_rows C = m_rows A \<Longrightarrow> m_cols C = m_cols B \<Longrightarrow> acc_mult h A B C = Inr (madd C (mm (mscale h A) B))"
  by (simp add: acc_mult_def mat_checked)

lemma axpy_eq: "length x = length k \<Longrightarrow> axpy h k x = Inr (vadd x (vscale h k))"
  by (simp add: axpy_def mat_checked)

lemma mv_acc: "m_cols A = m_rows B \<Longrightarrow> m_rows C = m_rows A \<Longrightarrow> m_cols C = m_cols B \<Longrightarrow> mv (madd C (mm (mscale h A) B)) d = vadd (mv C d) (vscale h (mv A (mv B d)))"
  by (simp add: mv_madd mv_mm mv_mscale)

lemma mv_add_diagonal: "m_rows A = m_cols A \<Longrightarrow> length d = m_rows A \<Longrightarrow> mv (add_diagonal 1 A) d = vadd (mv A d) d"
proof (intro nth_equalityI)
  fix i assume "m_rows A = m_cols A" "length d = m_rows A" "i < length (mv (add_diagonal 1 A) d)"
  then have i: "i < m_rows A" "m_rows A = m_cols A" "length d = m_rows A" by simp_all
  have "(\<Sum>j < m_cols A. m_at (add_diagonal 1 A) i j * d ! j) = (\<Sum>j < m_cols A. m_at A i j * d ! j + (if j = i then d ! j else 0))"
    using i by (intro sum.cong) (auto simp: add_diagonal_def algebra_simps)
  then show "mv (add_diagonal 1 A) d ! i = vadd (mv A d) d ! i" using i by (simp add: sum.distrib sum.delta)
qed simp

lemma rk_stage:
  assumes a: "affine_dims nx nu A B c" and l: "length x = nx" "length d = nx" "length u = nu" "length e = nu" "length F = nx"
    and X: "m_rows X = nx" "m_cols X = nx" "m_rows U = nx" "m_cols U = nu"
  shows "affine_flow A B c t (vadd (vadd x d) (vscale h (vadd F (vadd (mv X d) (mv U e))))) (vadd u e) =
    vadd (affine_flow A B c t (vadd x (vscale h F)) u)
      (vadd (mv (madd (A t) (mm (mscale h (A t)) X)) d) (mv (madd (B t) (mm (mscale h (A t)) U)) e))"
proof -
  note dims = a[unfolded affine_dims_def, rule_format, of t]
  have "vadd (vadd x d) (vscale h (vadd F (vadd (mv X d) (mv U e)))) =
      vadd (vadd x (vscale h F)) (vadd d (vscale h (vadd (mv X d) (mv U e))))"
    using l X by (intro nth_equalityI) (simp_all add: algebra_simps del: mv_nth)
  moreover have "vadd (mv (A t) (vadd d (vscale h (vadd (mv X d) (mv U e))))) (mv (B t) e) =
      vadd (mv (madd (A t) (mm (mscale h (A t)) X)) d) (mv (madd (B t) (mm (mscale h (A t)) U)) e)"
    using l X dims by (intro nth_equalityI) (simp_all add: mv_acc mv_vadd mv_vscale algebra_simps del: mv_nth)
  ultimately show ?thesis using affine_flow_diff[OF a, of "vadd x (vscale h F)" "vadd d (vscale h (vadd (mv X d) (mv U e)))" u e t] l X by simp
qed

lemma euler_exact:
  assumes a: "affine_dims nx nu A B c" and l: "length x = nx" "length u = nu"
  shows "\<exists>L. eulerSensitivityDiscretization (affine_ops A B c) t x u dt = Inr L \<and> linear_dims nx nx nu L \<and>
    (\<forall>d e. length d = nx \<longrightarrow> length e = nu \<longrightarrow>
       eulerDiscretization (affine_ops A B c) t (vadd x d) (vadd u e) dt = Inr (linear_value L d e))"
proof -
  note dims = a[unfolded affine_dims_def, rule_format]
  define F where "F = affine_flow A B c t x u"
  have F: "length F = nx" using a by (simp add: F_def)
  define L where "L = \<lparr>vl_dfdx = add_diagonal 1 (mscale dt (A t)), vl_dfdu = mscale dt (B t), vl_f = vadd x (vscale dt F)\<rparr>"
  have "eulerSensitivityDiscretization (affine_ops A B c) t x u dt = Inr L"
    using l F by (simp add: eulerSensitivityDiscretization_def affine_ops_eq[OF a] axpy_eq F_def[symmetric] L_def)
  moreover have "linear_dims nx nx nu L" using dims l by (simp add: linear_dims_def L_def)
  moreover have "eulerDiscretization (affine_ops A B c) t (vadd x d) (vadd u e) dt = Inr (linear_value L d e)"
    if d: "length d = nx" "length e = nu" for d e
  proof -
    have "eulerDiscretization (affine_ops A B c) t (vadd x d) (vadd u e) dt = Inr (vadd (vadd x d) (vscale dt (vadd F (vadd (mv (A t) d) (mv (B t) e)))))"
      using l F d dims by (simp add: eulerDiscretization_def affine_ops_eq[OF a] axpy_eq affine_flow_diff[OF a] F_def[symmetric])
    moreover have "vadd (vadd x d) (vscale dt (vadd F (vadd (mv (A t) d) (mv (B t) e)))) = linear_value L d e"
      using l F d dims by (intro nth_equalityI) (simp_all add: linear_value_def L_def mv_add_diagonal mv_mscale algebra_simps del: mv_nth)
    ultimately show ?thesis by simp
  qed
  ultimately show ?thesis by blast
qed

lemma rk2_exact:
  assumes a: "affine_dims nx nu A B c" and l: "length x = nx" "length u = nu"
  shows "\<exists>L. rk2SensitivityDiscretization (affine_ops A B c) t x u dt = Inr L \<and> linear_dims nx nx nu L \<and>
    (\<forall>d e. length d = nx \<longrightarrow> length e = nu \<longrightarrow>
       rk2Discretization (affine_ops A B c) t (vadd x d) (vadd u e) dt = Inr (linear_value L d e))"
proof -
  note dims = a[unfolded affine_dims_def, rule_format]
  let ?F = "affine_flow A B c"
  define F1 F2 where "F1 = ?F t x u" "F2 = ?F (t + dt) (vadd x (vscale dt F1)) u"
  define X2 U2 where "X2 = madd (A (t + dt)) (mm (mscale dt (A (t + dt))) (A t))" "U2 = madd (B (t + dt)) (mm (mscale dt (A (t + dt))) (B t))"
  note defs = F1_F2_def X2_U2_def
  have len: "length F1 = nx" "length F2 = nx" "m_rows X2 = nx" "m_cols X2 = nx" "m_rows U2 = nx" "m_cols U2 = nu"
    using a dims by (simp_all add: defs)
  define L where "L = \<lparr>vl_dfdx = add_diagonal 1 (madd (mscale (dt / 2) (A t)) (mscale (dt / 2) X2)),
      vl_dfdu = madd (mscale (dt / 2) (B t)) (mscale (dt / 2) U2), vl_f = vadd (vadd x (vscale (dt / 2) F1)) (vscale (dt / 2) F2)\<rparr>"
  have "rk2SensitivityDiscretization (affine_ops A B c) t x u dt = Inr L"
    using l len dims
    by (simp add: rk2SensitivityDiscretization_def Let_def affine_ops_eq[OF a] axpy_eq acc_mult_eq mat_checked defs[symmetric] L_def)
  moreover have "linear_dims nx nx nu L" using dims l len by (simp add: linear_dims_def L_def)
  moreover have "rk2Discretization (affine_ops A B c) t (vadd x d) (vadd u e) dt = Inr (linear_value L d e)"
    if d: "length d = nx" "length e = nu" for d e
  proof -
    define D1 D2 where "D1 = vadd F1 (vadd (mv (A t) d) (mv (B t) e))" "D2 = vadd F2 (vadd (mv X2 d) (mv U2 e))"
    have 1: "?F t (vadd x d) (vadd u e) = D1" using affine_flow_diff[OF a l(1) d(1) l(2) d(2)] by (simp add: D1_D2_def defs)
    have 2: "?F (t + dt) (vadd (vadd x d) (vscale dt D1)) (vadd u e) = D2"
      using rk_stage[OF a l(1) d(1) l(2) d(2) len(1), of "A t" "B t" "t + dt" dt] dims by (simp add: defs D1_D2_def)
    have "length D1 = nx" "length D2 = nx" using len by (simp_all add: D1_D2_def)
    then have "rk2Discretization (affine_ops A B c) t (vadd x d) (vadd u e) dt =
        Inr (vadd (vadd (vadd x d) (vscale (dt / 2) D1)) (vscale (dt / 2) D2))"
      using l d by (simp add: rk2Discretization_def Let_def affine_ops_eq[OF a] axpy_eq 1 2)
    moreover have "vadd (vadd (vadd x d) (vscale (dt / 2) D1)) (vscale (dt / 2) D2) = linear_value L d e"
      using l len d dims by (intro nth_equalityI) (simp_all add: linear_value_def L_def D1_D2_def mv_add_diagonal mv_mscale mv_madd algebra_simps del: mv_nth)
    ultimately show ?thesis by simp
  qed
  ultimately show ?thesis by blast
qed

lemma rk4_exact:
  assumes a: "affine_dims nx nu A B c" and l: "length x = nx" "length u = nu"
  shows "\<exists>L. rk4SensitivityDiscretization (affine_ops A B c) t x u dt = Inr L \<and> linear_dims nx nx nu L \<and>
    (\<forall>d e. length d = nx \<longrightarrow> length e = nu \<longrightarrow>
       rk4Discretization (affine_ops A B c) t (vadd x d) (vadd u e) dt = Inr (linear_value L d e))"
proof -
  note dims = a[unfolded affine_dims_def, rule_format]
  let ?F = "affine_flow A B c" and ?h = "dt / 2"
  define F1 F2 F3 F4 where "F1 = ?F t x u" "F2 = ?F (t + ?h) (vadd x (vscale ?h F1)) u" "F3 = ?F (t + ?h) (vadd x (vscale ?h F2)) u"
    "F4 = ?F (t + dt) (vadd x (vscale dt F3)) u"
  define X2 where "X2 = madd (A (t + ?h)) (mm (mscale ?h (A (t + ?h))) (A t))"
  define U2 where "U2 = madd (B (t + ?h)) (mm (mscale ?h (A (t + ?h))) (B t))"
  define X3 where "X3 = madd (A (t + ?h)) (mm (mscale ?h (A (t + ?h))) X2)"
  define U3 where "U3 = madd (B (t + ?h)) (mm (mscale ?h (A (t + ?h))) U2)"
  define X4 where "X4 = madd (A (t + dt)) (mm (mscale dt (A (t + dt))) X3)"
  define U4 where "U4 = madd (B (t + dt)) (mm (mscale dt (A (t + dt))) U3)"
  note xu = X2_def U2_def X3_def U3_def X4_def U4_def
  have lenF: "length F1 = nx" "length F2 = nx" "length F3 = nx" "length F4 = nx" using a by (simp_all add: F1_F2_F3_F4_def)
  have len: "m_rows X2 = nx" "m_cols X2 = nx" "m_rows U2 = nx" "m_cols U2 = nu" "m_rows X3 = nx" "m_cols X3 = nx" "m_rows U3 = nx" "m_cols U3 = nu"
      "m_rows X4 = nx" "m_cols X4 = nx" "m_rows U4 = nx" "m_cols U4 = nu" using dims by (simp_all add: xu)
  define sum where "sum = (\<lambda>M1 M2 M3 M4. madd (madd (madd (mscale (dt / 6) M1) (mscale (dt / 3) M2)) (mscale (dt / 3) M3)) (mscale (dt / 6) M4))"
  define L where "L = \<lparr>vl_dfdx = add_diagonal 1 (sum (A t) X2 X3 X4), vl_dfdu = sum (B t) U2 U3 U4,
      vl_f = vadd (vadd (vadd (vadd x (vscale (dt / 6) F1)) (vscale (dt / 3) F2)) (vscale (dt / 3) F3)) (vscale (dt / 6) F4)\<rparr>"
  have "rk4SensitivityDiscretization (affine_ops A B c) t x u dt = Inr L"
    using l lenF len dims
    by (simp add: rk4SensitivityDiscretization_def rk4_sum_def Let_def affine_ops_eq[OF a] axpy_eq acc_mult_eq mat_checked
        F1_F2_F3_F4_def[symmetric] xu[symmetric] L_def sum_def)
  moreover have "linear_dims nx nx nu L" using dims l len by (simp add: linear_dims_def L_def sum_def)
  moreover have "rk4Discretization (affine_ops A B c) t (vadd x d) (vadd u e) dt = Inr (linear_value L d e)"
    if d: "length d = nx" "length e = nu" for d e
  proof -
    define D1 where "D1 = vadd F1 (vadd (mv (A t) d) (mv (B t) e))"
    define D2 where "D2 = vadd F2 (vadd (mv X2 d) (mv U2 e))"
    define D3 where "D3 = vadd F3 (vadd (mv X3 d) (mv U3 e))"
    define D4 where "D4 = vadd F4 (vadd (mv X4 d) (mv U4 e))"
    note stage = rk_stage[OF a l(1) d(1) l(2) d(2)]
    have 1: "?F t (vadd x d) (vadd u e) = D1" using affine_flow_diff[OF a l(1) d(1) l(2) d(2)] by (simp add: D1_def F1_F2_F3_F4_def)
    have 2: "?F (t + ?h) (vadd (vadd x d) (vscale ?h D1)) (vadd u e) = D2"
      unfolding D1_def D2_def F1_F2_F3_F4_def(2) xu(1,2) using dims lenF by (intro stage) simp_all
    have 3: "?F (t + ?h) (vadd (vadd x d) (vscale ?h D2)) (vadd u e) = D3"
      unfolding D2_def D3_def F1_F2_F3_F4_def(3) xu(3,4) using len lenF by (intro stage) simp_all
    have 4: "?F (t + dt) (vadd (vadd x d) (vscale dt D3)) (vadd u e) = D4"
      unfolding D3_def D4_def F1_F2_F3_F4_def(4) xu(5,6) using len lenF by (intro stage) simp_all
    have "length D1 = nx" "length D2 = nx" "length D3 = nx" "length D4 = nx" using lenF by (simp_all add: D1_def D2_def D3_def D4_def)
    then have "rk4Discretization (affine_ops A B c) t (vadd x d) (vadd u e) dt =
        Inr (vadd (vadd (vadd (vadd (vadd x d) (vscale (dt / 6) D1)) (vscale (dt / 3) D2)) (vscale (dt / 3) D3)) (vscale (dt / 6) D4))"
      using l d by (simp add: rk4Discretization_def Let_def affine_ops_eq[OF a] axpy_eq 1 2 3 4)
    moreover have "vadd (vadd (vadd (vadd (vadd x d) (vscale (dt / 6) D1)) (vscale (dt / 3) D2)) (vscale (dt / 3) D3)) (vscale (dt / 6) D4) = linear_value L d e"
      using l len lenF d dims
      by (intro nth_equalityI)
        (simp_all add: linear_value_def L_def sum_def D1_def D2_def D3_def D4_def mv_add_diagonal mv_mscale mv_madd algebra_simps del: mv_nth)
    ultimately show ?thesis by simp
  qed
  ultimately show ?thesis by blast
qed

text \<open>
  C27. The linear approximation of each scheme, for dynamics that are affine in the state and the input with coefficients that
  depend on time: it has the dimensions of the system, and the scheme at a state and an input that differ by \<open>d\<close> and \<open>e\<close> gives
  exactly its value at \<open>d\<close> and \<open>e\<close>. At zero, this says that its constant part is the discretised state.
\<close>

theorem sensitivity_exact_for_affine:
  assumes a: "affine_dims nx nu A B c" and l: "length x = nx" "length u = nu"
  shows "\<exists>L. selectDynamicsSensitivityDiscretization ty (affine_ops A B c) t x u dt = Inr L \<and> linear_dims nx nx nu L \<and>
    (\<forall>d e. length d = nx \<longrightarrow> length e = nu \<longrightarrow>
       selectDynamicsDiscretization ty (affine_ops A B c) t (vadd x d) (vadd u e) dt = Inr (linear_value L d e))"
  using euler_exact[OF assms] rk2_exact[OF assms] rk4_exact[OF assms] by (cases ty) simp_all

text \<open>A system whose gain grows with time.\<close>

lemma sensitivity_exact_witness:
  "\<exists>L. selectDynamicsSensitivityDiscretization SI_RK4 (affine_ops (\<lambda>t. Mat 1 1 [[t]]) (\<lambda>t. Mat 1 1 [[1]]) (\<lambda>t. [2])) 0 [1] [3] 1 = Inr L \<and>
     selectDynamicsDiscretization SI_RK4 (affine_ops (\<lambda>t. Mat 1 1 [[t]]) (\<lambda>t. Mat 1 1 [[1]]) (\<lambda>t. [2])) 0 (vadd [1] [5]) (vadd [3] [7]) 1 = Inr (linear_value L [5] [7])"
proof -
  have "affine_dims 1 1 (\<lambda>t. Mat 1 1 [[t]]) (\<lambda>t. Mat 1 1 [[1]]) (\<lambda>t. [2])" by (simp add: affine_dims_def)
  from sensitivity_exact_for_affine[OF this, of "[1]" "[3]" SI_RK4 0 1] show ?thesis by (auto simp del: selectDynamicsSensitivityDiscretization.simps)
qed

end
