(* ===== verification/Model_Checks.thy ===== *)
theory Model_Checks
  imports Riccati_Projection
begin

text \<open>
  The numerical checks of the data of a node: \<open>checkBeingPSD\<close> (\<open>core/ocs2_core/src/Types.cpp\<close>) and the checks of
  \<open>core/ocs2_core/src/model_data/ModelData.cpp\<close>. They return a description of the errors, empty for none. The eigenvalues,
  the reciprocal condition number, the rank and the text of a number are parameters; every number of the model is finite. The
  property: a cost that passes the check is a convex function of the state and the input, up to the machine precision.
\<close>

section \<open>Checks\<close>

record numerics_ops =
  no_symmetricEigenvalues :: "dmatrix \<Rightarrow> vector_t"
  no_ldlt_rcond :: "dmatrix \<Rightarrow> scalar"
  no_rank :: "dmatrix \<Rightarrow> nat"
  no_to_string :: "scalar \<Rightarrow> string"
  no_factorizations :: factorizations

definition line :: "string \<Rightarrow> string" where
  "line s = s @ [CHR 0x0A]"

definition checkBeingPSD :: "numerics_ops \<Rightarrow> dmatrix \<Rightarrow> string \<Rightarrow> string result" where
  "checkBeingPSD no data dataName =
     (if m_size data = 0 then Inr []
      else if m_rows data \<noteq> m_cols data then Inr (line (dataName @ '' is not a square matrix.''))
      else bind_result (isApprox data (tr data) (1 / 10 ^ 6)) (\<lambda>selfAdjoint.
           let minEigenvalue = Min (set (no_symmetricEigenvalues no data)) in
           Inr ((if selfAdjoint then [] else line (dataName @ '' is not self-adjoint.'')) @
                (if minEigenvalue < - double_epsilon
                 then line (dataName @ '' is not PSD. It's smallest eigenvalue is '' @ no_to_string no minEigenvalue @ ''.'') else []))))"

definition checkBeingPSD_quadratic :: "numerics_ops \<Rightarrow> scalar_quadratic \<Rightarrow> string \<Rightarrow> string result" where
  "checkBeingPSD_quadratic no data dataName =
     bind_result (checkBeingPSD no (dfdxx data) (dataName @ '' second derivative w.r.t. state'')) (\<lambda>a.
     bind_result (checkBeingPSD no (dfduu data) (dataName @ '' second derivative w.r.t. input'')) (\<lambda>b. Inr (a @ b)))"

definition schurComplementOfCostHessianIsPsd :: "numerics_ops \<Rightarrow> scalar_quadratic \<Rightarrow> string result" where
  "schurComplementOfCostHessianIsPsd no c =
     (if 0 < m_size (dfdxx c) \<and> 0 < m_size (dfduu c) then
        let U = computeInverseMatrixUUT (no_factorizations no) (dfduu c) in
        bind_result (mat_mult (tr U) (dfdux c)) (\<lambda>UT_P.
        bind_result (bind_result (mat_mult (tr UT_P) UT_P) (\<lambda>PP. mat_add (dfdxx c) (mneg PP))) (\<lambda>S.
        checkBeingPSD no S ''Schur complement of cost second derivative w.r.t. input''))
      else Inr ''Either cost.dfdxx or cost.dfduu are not set!'')"

definition checkCostProperties :: "numerics_ops \<Rightarrow> model_data \<Rightarrow> string result" where
  "checkCostProperties no md =
     bind_result (checkBeingPSD_quadratic no (md_cost md) ''cost'') (\<lambda>e.
     if 0 < m_size (dfduu (md_cost md)) then
       let rcond = no_ldlt_rcond no (dfduu (md_cost md)) in
       if rcond < double_epsilon then
         Inr (e @ line (''Cost second derivative w.r.t. input is not invertible. It's reciprocal condition number is '' @ no_to_string no rcond @ ''.''))
       else bind_result (schurComplementOfCostHessianIsPsd no (md_cost md)) (\<lambda>s. Inr (e @ s))
     else Inr e)"

text \<open>Every entry is finite.\<close>

definition checkDynamicsProperties :: "model_data \<Rightarrow> string" where
  "checkDynamicsProperties md = []"

fun controllability_blocks :: "dmatrix \<Rightarrow> dmatrix \<Rightarrow> nat \<Rightarrow> dmatrix list result" where
  "controllability_blocks A B 0 = Inr []"
| "controllability_blocks A B (Suc n) = bind_result (mat_mult A B) (\<lambda>AB. bind_result (controllability_blocks A AB n) (\<lambda>bs. Inr (AB # bs)))"

definition hcat :: "nat \<Rightarrow> nat \<Rightarrow> dmatrix list \<Rightarrow> dmatrix" where
  "hcat rows width bs = mk_mat rows (width * length bs) (\<lambda>i j. m_at (bs ! (j div width)) i (j mod width))"

definition checkControllability :: "numerics_ops \<Rightarrow> vector_linear \<Rightarrow> string result" where
  "checkControllability no dyn =
     (let stateDim = m_rows (vl_dfdu dyn); inputDim = m_cols (vl_dfdu dyn) in
      bind_result (if stateDim = 0 then Inr [] else bind_result (controllability_blocks (vl_dfdx dyn) (vl_dfdu dyn) (stateDim - 1)) (\<lambda>bs. Inr (vl_dfdu dyn # bs))) (\<lambda>bs.
      let ctrlMatrixRank = no_rank no (hcat stateDim inputDim bs) in
      Inr (if ctrlMatrixRank < stateDim
           then line (''Uncontrollable system: controllability matrix rank should be '' @ show_int (int stateDim) @ '' as opposed to '' @ show_int (int ctrlMatrixRank))
           else [])))"

definition checkConstraintProperties :: "numerics_ops \<Rightarrow> model_data \<Rightarrow> string" where
  "checkConstraintProperties no md =
     (let c = md_stateInputEqConstraint md; numConstraints = length (vl_f c); inputDim = m_cols (vl_dfdu c); DmRank = no_rank no (vl_dfdu c) in
      if 0 < numConstraints then
        (if inputDim < numConstraints
         then line (''Number of active state-input equality constraints (a.k.a. '' @ show_int (int numConstraints) @
                    '') should be less-equal to the input dimension (a.k.a. '' @ show_int (int inputDim) @ '').'') else []) @
        (if DmRank \<noteq> numConstraints
         then line (''Input-state constraint derivative w.r.t. input is not full-row rank. It's rank is '' @ show_int (int DmRank) @
                    '' while the expected rank is '' @ show_int (int numConstraints) @ ''.'') else [])
      else [])"

section \<open>Soundness of the check of the cost\<close>

definition eigenvalues_ok :: "numerics_ops \<Rightarrow> dmatrix \<Rightarrow> bool" where
  "eigenvalues_ok no A = (symmetric A \<longrightarrow> bounded_below (Min (set (no_symmetricEigenvalues no A))) A)"

lemma bounded_below_mono: "bounded_below c A \<Longrightarrow> d \<le> c \<Longrightarrow> bounded_below d A"
  unfolding bounded_below_def by (meson dot_self_nonneg mult_right_mono order_trans)

lemma checkBeingPSD_sound:
  assumes "checkBeingPSD no A name = Inr []" "symmetric A" "eigenvalues_ok no A"
  shows "bounded_below (- double_epsilon) A"
proof (cases "m_size A = 0")
  case True
  then have "m_rows A = 0" using assms(2) by (auto simp: m_size_def symmetric_def)
  then show ?thesis by (simp add: bounded_below_def form_def dot_def)
next
  case False
  then have "- double_epsilon \<le> Min (set (no_symmetricEigenvalues no A))"
    using assms(1,2) by (auto simp: checkBeingPSD_def result_simps Let_def line_def symmetric_def split: if_splits)
  then show ?thesis using assms(2,3) bounded_below_mono by (auto simp: eigenvalues_ok_def)
qed

text \<open>
  A cost that \<open>checkCostProperties\<close> passes without an error, with symmetric Hessians, eigenvalues that bound the quadratic
  form from below, and the decomposition of the inverse of its input Hessian: its second-order part is, at every state and
  input together, at least minus the machine precision times the squared norm of the state.
\<close>

theorem checked_cost_is_convex:
  assumes q: "quadratic_dims nx nu (md_cost md)" "symmetric (dfdxx (md_cost md))" "symmetric (dfduu (md_cost md))" "0 < nx" "0 < nu"
    and pass: "checkCostProperties no md = Inr []"
    and eig: "\<And>A. m_rows A = nx \<Longrightarrow> eigenvalues_ok no A" and uut: "uut_ok (no_factorizations no) (dfduu (md_cost md))"
    and x: "length x = nx" and u: "length u = nu"
  shows "- double_epsilon * dot x x \<le> form (dfdxx (md_cost md)) x + 2 * dot u (mv (dfdux (md_cost md)) x) + form (dfduu (md_cost md)) u"
proof -
  define Q P R U where "Q = dfdxx (md_cost md)" "P = dfdux (md_cost md)" "R = dfduu (md_cost md)" "U = computeInverseMatrixUUT (no_factorizations no) R"
  note fold = Q_P_R_U_def[symmetric]
  have dims: "m_rows Q = nx" "m_cols Q = nx" "m_rows P = nu" "m_cols P = nx" "m_rows R = nu" "m_cols R = nu"
    using q by (simp_all add: quadratic_dims_def fold)
  have U: "m_rows U = nu" "m_cols U = nu" "mm (tr U) (mm R U) = identity nu" "mm U (mm (tr U) R) = identity nu"
    using uut dims by (simp_all add: uut_ok_def Let_def fold)
  define W where "W = mm (tr U) P"
  define S where "S = madd Q (mneg (mm (tr W) W))"
  have W: "m_rows W = nu" "m_cols W = nx" and S: "m_rows S = nx" "m_cols S = nx" using U dims by (simp_all add: W_def S_def)
  have "symmetric (mm (tr W) W)" by (simp add: symmetric_def mm_def mult.commute)
  then have "symmetric S" using q(2) W dims by (simp add: S_def fold symmetric_def madd_def mneg_def)
  moreover have "checkBeingPSD no S ''Schur complement of cost second derivative w.r.t. input'' = Inr []"
    using pass U dims W q(4,5)
    by (auto simp: checkCostProperties_def schurComplementOfCostHessianIsPsd_def Let_def fold mat_checked W_def[symmetric] S_def[symmetric] m_size_def
        result_simps line_def split: if_splits)
  ultimately have "bounded_below (- double_epsilon) S" using checkBeingPSD_sound eig S(1) by blast
  then have low: "- double_epsilon * dot x x \<le> form Q x - dot (mv W x) (mv W x)"
    using x S W dims by (simp add: bounded_below_def S_def form_madd form_mneg form_gram)
  define y where "y = mv (mm (tr U) R) u"
  have y: "length y = nu" "u = mv U y" using U dims u mv_mm[of U "mm (tr U) R" u] by (simp_all add: y_def)
  have Ru: "form R u = dot y y"
    using y U dims form_mv[of R U y] mv_mm[of "tr U" "mm R U" y] by (simp add: mv_mm)
  have Pu: "dot u (mv P x) = dot y (mv W x)" using y U dims x dot_tr_left[of "mv P x" U y] dot_comm[of "mv U y" "mv P x"] by (simp add: W_def mv_mm)
  have "0 \<le> dot (vadd y (mv W x)) (vadd y (mv W x))" by (rule dot_self_nonneg)
  also have "\<dots> = dot y y + 2 * dot y (mv W x) + dot (mv W x) (mv W x)"
    using y(1) W dot_comm[of "mv W x" y] by (simp add: dot_vadd_left dot_vadd_right)
  finally show ?thesis using low Ru Pu by (simp add: fold)
qed

definition scalar_numerics :: numerics_ops where
  "scalar_numerics = \<lparr>no_symmetricEigenvalues = (\<lambda>A. [m_at A 0 0]), no_ldlt_rcond = (\<lambda>A. 1), no_rank = (\<lambda>A. 1), no_to_string = (\<lambda>x. []),
     no_factorizations = \<lparr>llt_matrixU = id, qr_Q = id, qr_R = id, solve_upper = (\<lambda>T B. mk_mat 1 1 (\<lambda>i j. 1 / m_at T 0 0))\<rparr>\<rparr>"

lemma checked_cost_witness:
  "checkCostProperties scalar_numerics (scalar_model 2) = Inr [] \<and>
   - double_epsilon * dot [3] [3] \<le> form (dfdxx (md_cost (scalar_model 2))) [3] + 2 * dot [4] (mv (dfdux (md_cost (scalar_model 2))) [3]) +
     form (dfduu (md_cost (scalar_model 2))) [4]"
proof -
  have U: "computeInverseMatrixUUT (no_factorizations scalar_numerics) (Mat 1 1 [[1]]) = Mat 1 1 [[1]]"
    by (simp add: computeInverseMatrixUUT_def scalar_numerics_def mk_mat_def m_at_def)
  have pass: "checkCostProperties scalar_numerics (scalar_model 2) = Inr []"
    using U
    by (simp add: checkCostProperties_def checkBeingPSD_quadratic_def checkBeingPSD_def schurComplementOfCostHessianIsPsd_def scalar_model_def m_size_def
        Let_def mat_checked isApprox_def frobenius2_def, simp add: scalar_numerics_def double_epsilon_def line_def m_at_def mk_mat_def mm_def tr_def madd_def mneg_def)
  have eig: "eigenvalues_ok scalar_numerics A" if r: "m_rows A = 1" for A
    unfolding eigenvalues_ok_def
  proof
    assume "symmetric A"
    then have "m_cols A = 1" using r by (simp add: symmetric_def)
    then show "bounded_below (Min (set (no_symmetricEigenvalues scalar_numerics A))) A"
      using r by (auto simp: bounded_below_def scalar_numerics_def form_def dot_def mv_def mult.assoc)
  qed
  have uut: "uut_ok (no_factorizations scalar_numerics) (dfduu (md_cost (scalar_model 2)))"
    unfolding uut_ok_def Let_def
    using U by (simp add: scalar_model_def mm_def tr_def mk_mat_def m_at_def identity_def)
  have "quadratic_dims 1 1 (md_cost (scalar_model 2))" "symmetric (dfdxx (md_cost (scalar_model 2)))" "symmetric (dfduu (md_cost (scalar_model 2)))"
    by (simp_all add: scalar_model_def quadratic_dims_def symmetric_def)
  from checked_cost_is_convex[OF this _ _ pass eig uut, of "[3]" "[4]"] pass show ?thesis by simp
qed

end
