(* ===== verification/Ilqr.thy ===== *)
theory Ilqr
  imports Riccati_Projection Sensitivity_Integrator Model_Checks
begin

text \<open>
  \<open>mpc/ocs2_ddp/src/ILQR.cpp\<close>: the discrete model of a node, the controller of a node, and the backward pass over a partition
  of the trajectory. The indices and the iterators of the code are integers here, the trajectories that the backward pass fills
  are a record. The properties: the value at the start of a partition is the least cost of the linear-quadratic problem with
  its jumps and its constraints, and the controller attains it; an event at the end of a partition stops all its jumps.
\<close>

section \<open>The discrete model\<close>

datatype integrator_type =
  EULER | ODE45 | ODE45_OCS2 | ADAMS_BASHFORTH | BULIRSCH_STOER | MODIFIED_MIDPOINT | RK4 | RK5_VARIABLE | ADAMS_BASHFORTH_MOULTON

fun toString_integrator :: "integrator_type \<Rightarrow> string" where
  "toString_integrator EULER = ''EULER''"
| "toString_integrator ODE45 = ''ODE45''"
| "toString_integrator ODE45_OCS2 = ''ODE45_OCS2''"
| "toString_integrator ADAMS_BASHFORTH = ''ADAMS_BASHFORTH''"
| "toString_integrator BULIRSCH_STOER = ''BULIRSCH_STOER''"
| "toString_integrator MODIFIED_MIDPOINT = ''MODIFIED_MIDPOINT''"
| "toString_integrator RK4 = ''RK4''"
| "toString_integrator RK5_VARIABLE = ''RK5_VARIABLE''"
| "toString_integrator ADAMS_BASHFORTH_MOULTON = ''ADAMS_BASHFORTH_MOULTON''"

definition fromString_integrator :: "string \<Rightarrow> integrator_type result" where
  "fromString_integrator name =
     (case map_of (map (\<lambda>t. (toString_integrator t, t)) [EULER, ODE45, ODE45_OCS2, ADAMS_BASHFORTH, BULIRSCH_STOER, MODIFIED_MIDPOINT, RK4, RK5_VARIABLE, ADAMS_BASHFORTH_MOULTON]) name of
        Some t \<Rightarrow> Inr t | None \<Rightarrow> Inl (Runtime_Error ''unordered_map::at''))"

definition ilqr_discretizer :: "integrator_type \<Rightarrow> sensitivity_type result" where
  "ilqr_discretizer t =
     (case t of EULER \<Rightarrow> Inr SI_EULER | RK4 \<Rightarrow> Inr SI_RK4 | ODE45 \<Rightarrow> Inr SI_RK4 | ODE45_OCS2 \<Rightarrow> Inr SI_RK4
      | _ \<Rightarrow> Inl (Runtime_Error (''[ILQR] Integrator of type '' @ toString_integrator t @
               '' is not supported for sensitivity discretization! Modify ddp::Settings::backwardPassIntegratorType_.'')))"

text \<open>\<open>md\<close> is what the model data held before; the covariance and the bias of the continuous model are not copied.\<close>

definition discreteLQWorker ::
  "sensitivity_type \<Rightarrow> flow_ops \<Rightarrow> scalar \<Rightarrow> vector_t \<Rightarrow> vector_t \<Rightarrow> scalar \<Rightarrow> model_data \<Rightarrow> model_data \<Rightarrow> model_data result" where
  "discreteLQWorker discretizer system time state input dt cont md =
     bind_result (require (0 \<le> md_stateDim cont) Assertion_Failed) (\<lambda>_.
     bind_result (selectDynamicsSensitivityDiscretization discretizer system time state input dt) (\<lambda>dyn.
     Inr (md\<lparr>md_time := md_time cont, md_stateDim := md_stateDim cont, md_inputDim := md_inputDim cont,
       md_dynamicsBias := zero_vec (nat (md_stateDim cont)), md_dynamics := dyn\<lparr>vl_f := zero_vec (nat (md_stateDim cont))\<rparr>,
       md_cost := scale_ScalarQuadratic (md_cost cont) dt, md_stateEqConstraint := md_stateEqConstraint cont,
       md_stateInputEqConstraint := md_stateInputEqConstraint cont\<rparr>)))"

text \<open>
  One turn of the loop of \<open>approximateIntermediateLQ\<close>; \<open>approximate\<close> is the linear-quadratic approximation of the node, and
  \<open>no\<close> the numerics of the checks, when they are asked for. The model data are new.
\<close>

definition ilqr_node_model ::
  "numerics_ops option \<Rightarrow> (scalar \<Rightarrow> string) \<Rightarrow> sensitivity_type \<Rightarrow> flow_ops \<Rightarrow> (scalar \<Rightarrow> vector_t \<Rightarrow> vector_t \<Rightarrow> model_data result) \<Rightarrow>
   scalar list \<Rightarrow> vector_t list \<Rightarrow> vector_t list \<Rightarrow> nat \<Rightarrow> model_data result" where
  "ilqr_node_model no show_time discretizer system approximate ts xs us k =
     bind_result (vec_at ts k) (\<lambda>t. bind_result (vec_at xs k) (\<lambda>x. bind_result (vec_at us k) (\<lambda>u.
     bind_result (approximate t x u) (\<lambda>cont.
     bind_result (case no of None \<Rightarrow> Inr ()
       | Some no \<Rightarrow>
         (let errSize = checkSize_ModelData cont (int (length x)) (int (length u)) in
          if errSize \<noteq> [] then
            Inl (Runtime_Error (''[ILQR::approximateIntermediateLQ] Mismatch in dimensions at intermediate time: '' @ show_time t @ line [] @ errSize))
          else bind_result (checkCostProperties no cont) (\<lambda>c.
            let errProperties = checkDynamicsProperties cont @ c @ checkConstraintProperties no cont in
            require (errProperties = [])
              (Runtime_Error (''[ILQR::approximateIntermediateLQ] Ill-posed problem at intermediate time: '' @ show_time t @ line [] @ errProperties))))) (\<lambda>_.
     let dt = (if k + 1 < length ts then ts ! (k + 1) - t else 0) in
     if \<not> almost_eq dt 0 then discreteLQWorker discretizer system t x u dt cont new_ModelData else Inr cont)))))"

section \<open>The backward pass over a partition\<close>

record riccati_store =
  rs_projectedLv :: "vector_t list"
  rs_projectedKm :: "dmatrix list"
  rs_projectedModelData :: "model_data list"
  rs_riccatiModification :: "riccati_modification list"
  rs_valueFunction :: "scalar_quadratic list"

definition value_triple :: "scalar_quadratic \<Rightarrow> riccati_value" where
  "value_triple q = (dfdxx q, dfdx q, appr_f q)"

definition set_triple :: "riccati_value \<Rightarrow> scalar_quadratic \<Rightarrow> scalar_quadratic" where
  "set_triple V q = (case V of (Sm, Sv, s) \<Rightarrow> q\<lparr>dfdxx := Sm, dfdx := Sv, appr_f := s\<rparr>)"

definition put_node :: "nat \<Rightarrow> vector_t \<Rightarrow> dmatrix \<Rightarrow> model_data \<Rightarrow> riccati_modification \<Rightarrow> riccati_store \<Rightarrow> riccati_store result" where
  "put_node k Lv Km pd rm st =
     bind_result (vec_set (rs_projectedLv st) k Lv) (\<lambda>Ls.
     bind_result (vec_set (rs_projectedKm st) k Km) (\<lambda>Ks.
     bind_result (vec_set (rs_projectedModelData st) k pd) (\<lambda>pds.
     bind_result (vec_set (rs_riccatiModification st) k rm) (\<lambda>rms.
     Inr (st\<lparr>rs_projectedLv := Ls, rs_projectedKm := Ks, rs_projectedModelData := pds, rs_riccatiModification := rms\<rparr>)))))"

definition put_value :: "nat \<Rightarrow> scalar_quadratic \<Rightarrow> riccati_store \<Rightarrow> riccati_store result" where
  "put_value k q st = bind_result (vec_set (rs_valueFunction st) k q) (\<lambda>Vs. Inr (st\<lparr>rs_valueFunction := Vs\<rparr>))"

text \<open>The gains of a node that has no step of its own: the last node, and the node before an event.\<close>

definition terminal_gains :: "riccati_env \<Rightarrow> model_data list \<Rightarrow> nat \<Rightarrow> scalar_quadratic \<Rightarrow> riccati_store \<Rightarrow> riccati_store result" where
  "terminal_gains env mds k V st =
     bind_result (vec_at mds k) (\<lambda>md.
     bind_result (vec_at (rs_projectedModelData st) k) (\<lambda>old.
     bind_result (require (0 \<le> md_stateDim md) Assertion_Failed) (\<lambda>_.
     let SmDummy = zero_mat (nat (md_stateDim md)) (nat (md_stateDim md)) in
     bind_result (computeProjectionAndRiccatiModification env ilqr_computeHamiltonianHessian md SmDummy old) (\<lambda>(pd, rm).
     let B = vl_dfdu (md_dynamics pd) in
     bind_result (bind_result (vec_add (vneg (dfdu (md_cost pd))) (vneg (rm_deltaGv rm)))
       (\<lambda>l. bind_result (mat_vmult (tr B) (dfdx V)) (\<lambda>b. vec_add l (vneg b)))) (\<lambda>Lv.
     bind_result (bind_result (mat_add (mneg (dfdux (md_cost pd))) (mneg (rm_deltaGm rm)))
       (\<lambda>l. bind_result (mat_mult (tr B) (dfdxx V)) (\<lambda>b. mat_add l (mneg b)))) (\<lambda>Km.
     put_node k Lv Km pd rm st))))))"

definition riccati_node :: "riccati_env \<Rightarrow> model_data list \<Rightarrow> nat \<Rightarrow> scalar_quadratic \<Rightarrow> riccati_store \<Rightarrow> riccati_store result" where
  "riccati_node env mds k nxt st =
     bind_result (vec_at mds k) (\<lambda>md.
     bind_result (vec_at (rs_projectedModelData st) k) (\<lambda>old.
     bind_result (vec_at (rs_valueFunction st) k) (\<lambda>cur.
     bind_result (computeProjectionAndRiccatiModification env ilqr_computeHamiltonianHessian md (dfdxx nxt) old) (\<lambda>(pd, rm).
     bind_result (computeMap (re_ldlt env) (re_riccati env) pd rm (dfdx cur) (value_triple nxt)) (\<lambda>(Km, Lv, V).
     bind_result (put_node k Lv Km pd rm st) (put_value k (set_triple V cur)))))))"

text \<open>
  The loop. \<open>ev\<close> is the position of \<open>nextEventItr\<close>, \<open>temp\<close> is \<open>finalValueTemp\<close> and \<open>nxt\<close> what \<open>valueFunctionNext\<close> points at.
\<close>

function ilqr_loop ::
  "riccati_env \<Rightarrow> model_data list \<Rightarrow> model_data list \<Rightarrow> nat list \<Rightarrow> nat \<Rightarrow> int \<Rightarrow> int \<Rightarrow> int \<Rightarrow> scalar_quadratic \<Rightarrow> scalar_quadratic \<Rightarrow> riccati_store \<Rightarrow>
   riccati_store result" where
  "ilqr_loop env mds jumps events firstEv stop cur ev temp nxt st =
     (if cur < stop then Inr st
      else if cur < 0 then Inl Undefined
      else bind_result (riccati_node env mds (nat cur) nxt st) (\<lambda>st.
        bind_result (vec_at (rs_valueFunction st) (nat cur)) (\<lambda>V.
        bind_result (if int firstEv \<le> ev then bind_result (vec_at_int events ev) (\<lambda>e. Inr (cur = int e)) else Inr False) (\<lambda>is_event.
        if is_event then
          bind_result (require (0 \<le> cur - 1) Undefined) (\<lambda>_.
          bind_result (vec_at_int jumps ev) (\<lambda>jump.
          bind_result (riccatiTransversalityConditions jump (value_triple V)) (\<lambda>T.
          let temp = set_triple T temp in
          bind_result (put_value (nat (cur - 1)) temp st) (\<lambda>st.
          bind_result (terminal_gains env mds (nat (cur - 1)) temp st) (\<lambda>st.
          ilqr_loop env mds jumps events firstEv stop (cur - 2) (ev - 1) temp temp st)))))
        else ilqr_loop env mds jumps events firstEv stop (cur - 1) ev temp V st))))"
  by pat_completeness auto
termination
  by (relation "measure (\<lambda>(env, mds, jumps, events, firstEv, stop, cur, ev, temp, nxt, st). nat (cur - stop + 1))") auto

declare ilqr_loop.simps [simp del]

definition ilqr_riccatiEquationsWorker ::
  "riccati_env \<Rightarrow> model_data list \<Rightarrow> model_data list \<Rightarrow> nat list \<Rightarrow> nat \<times> nat \<Rightarrow> scalar_quadratic \<Rightarrow> riccati_store \<Rightarrow> riccati_store result" where
  "ilqr_riccatiEquationsWorker env mds jumps events interval finalV st =
     (let firstEv = upper_bound_nat events (fst interval); lastEv = upper_bound_nat events (snd interval)
      in ilqr_loop env mds jumps events firstEv (int (fst interval)) (int (snd interval) - 1) (int lastEv - 1) finalV finalV st)"

section \<open>The controller of a node\<close>

record linear_gain =
  lg_gain :: dmatrix
  lg_bias :: vector_t
  lg_deltaBias :: vector_t

definition calculateControllerWorker :: "riccati_store \<Rightarrow> vector_t list \<Rightarrow> vector_t list \<Rightarrow> nat \<Rightarrow> linear_gain result" where
  "calculateControllerWorker st xs us k =
     bind_result (vec_at xs k) (\<lambda>nominalState.
     bind_result (vec_at us k) (\<lambda>nominalInput.
     bind_result (vec_at (rs_projectedModelData st) k) (\<lambda>pd.
     bind_result (vec_at (rs_riccatiModification st) k) (\<lambda>rm.
     bind_result (vec_at (rs_projectedKm st) k) (\<lambda>Km.
     bind_result (vec_at (rs_projectedLv st) k) (\<lambda>Lv.
     let Ev = vl_f (md_stateInputEqConstraint pd); Cm = vl_dfdx (md_stateInputEqConstraint pd); Qu = rm_constraintNullProjector rm in
     bind_result (bind_result (mat_mult Qu Km) (mat_add (mneg Cm))) (\<lambda>gain.
     bind_result (bind_result (mat_vmult gain nominalState) (\<lambda>g. vec_add nominalInput (vneg g))) (\<lambda>bias.
     bind_result (bind_result (mat_vmult Qu Lv) (vec_add (vneg Ev))) (\<lambda>deltaBias.
     Inr \<lparr>lg_gain = gain, lg_bias = bias, lg_deltaBias = deltaBias\<rparr>)))))))))"

section \<open>What the loop leaves behind\<close>

text \<open>Events that are at least two nodes apart, so that every interval between them has a step.\<close>

definition events_spaced :: "nat list \<Rightarrow> bool" where
  "events_spaced events = (\<forall>i j. i < j \<longrightarrow> j < length events \<longrightarrow> events ! i + 2 \<le> events ! j)"

text \<open>The value of node \<open>k\<close> comes from that of the next node \<open>nxt\<close>: over a jump, or by one step of the Riccati equations.\<close>

definition riccati_recursion :: "riccati_env \<Rightarrow> model_data list \<Rightarrow> model_data list \<Rightarrow> nat list \<Rightarrow> nat \<Rightarrow> scalar_quadratic \<Rightarrow> riccati_store \<Rightarrow> bool" where
  "riccati_recursion env mds jumps events k nxt st =
     (if Suc k \<in> set events then
        \<exists>i < length events. events ! i = Suc k \<and> i < length jumps \<and>
          riccatiTransversalityConditions (jumps ! i) (value_triple nxt) = Inr (value_triple (rs_valueFunction st ! k))
      else \<exists>old oldSv. k < length mds \<and>
        computeProjectionAndRiccatiModification env ilqr_computeHamiltonianHessian (mds ! k) (dfdxx nxt) old =
          Inr (rs_projectedModelData st ! k, rs_riccatiModification st ! k) \<and>
        computeMap (re_ldlt env) (re_riccati env) (rs_projectedModelData st ! k) (rs_riccatiModification st ! k) oldSv (value_triple nxt) =
          Inr (rs_projectedKm st ! k, rs_projectedLv st ! k, value_triple (rs_valueFunction st ! k)))"

definition same_at :: "nat \<Rightarrow> riccati_store \<Rightarrow> riccati_store \<Rightarrow> bool" where
  "same_at k st st' =
     (rs_projectedLv st' ! k = rs_projectedLv st ! k \<and> rs_projectedKm st' ! k = rs_projectedKm st ! k \<and>
      rs_projectedModelData st' ! k = rs_projectedModelData st ! k \<and> rs_riccatiModification st' ! k = rs_riccatiModification st ! k \<and>
      rs_valueFunction st' ! k = rs_valueFunction st ! k)"

lemma same_at_trans: "same_at k st st' \<Longrightarrow> same_at k st' st'' \<Longrightarrow> same_at k st st''"
  by (simp add: same_at_def)

lemma value_triple_set [simp]: "value_triple (set_triple V q) = V"
  by (cases V) (simp add: value_triple_def set_triple_def)

lemma riccati_node_effect:
  assumes "riccati_node env mds k nxt st = Inr st'"
  shows "Suc k \<notin> set events \<Longrightarrow> riccati_recursion env mds jumps events k nxt st'" "j \<noteq> k \<Longrightarrow> same_at j st st'" "k < length (rs_valueFunction st')"
proof -
  from assms obtain old cur pd rm Km Lv V where r: "k < length mds" "k < length (rs_projectedModelData st)" "k < length (rs_valueFunction st)"
      "computeProjectionAndRiccatiModification env ilqr_computeHamiltonianHessian (mds ! k) (dfdxx nxt) old = Inr (pd, rm)"
      "computeMap (re_ldlt env) (re_riccati env) pd rm (dfdx cur) (value_triple nxt) = Inr (Km, Lv, V)"
      "bind_result (put_node k Lv Km pd rm st) (put_value k (set_triple V cur)) = Inr st'"
    unfolding riccati_node_def bind_result_eq_Inr vec_at_eq_Inr split_paired_Ex case_prod_conv by blast
  from r(6) have w: "rs_projectedLv st' = (rs_projectedLv st)[k := Lv]" "rs_projectedKm st' = (rs_projectedKm st)[k := Km]"
      "rs_projectedModelData st' = (rs_projectedModelData st)[k := pd]" "rs_riccatiModification st' = (rs_riccatiModification st)[k := rm]"
      "rs_valueFunction st' = (rs_valueFunction st)[k := set_triple V cur]" "k < length (rs_projectedLv st)" "k < length (rs_projectedKm st)"
      "k < length (rs_riccatiModification st)"
    by (auto simp: put_node_def put_value_def result_simps)
  show "Suc k \<notin> set events \<Longrightarrow> riccati_recursion env mds jumps events k nxt st'"
    using r w by (auto simp: riccati_recursion_def)
  show "j \<noteq> k \<Longrightarrow> same_at j st st'" using w by (simp add: same_at_def)
  show "k < length (rs_valueFunction st')" using w r by simp
qed

lemma terminal_gains_effect:
  assumes "terminal_gains env mds k V st = Inr st'"
  shows "rs_valueFunction st' = rs_valueFunction st" "j \<noteq> k \<Longrightarrow> same_at j st st'"
proof -
  from assms obtain Lv Km pd rm where "put_node k Lv Km pd rm st = Inr st'"
    unfolding terminal_gains_def Let_def bind_result_eq_Inr split_paired_Ex case_prod_conv by blast
  then show "rs_valueFunction st' = rs_valueFunction st" "j \<noteq> k \<Longrightarrow> same_at j st st'"
    by (auto simp: put_node_def result_simps same_at_def)
qed

lemma riccati_recursion_same:
  "riccati_recursion env mds jumps events k nxt st \<Longrightarrow> same_at k st st' \<Longrightarrow> riccati_recursion env mds jumps events k nxt st'"
  by (cases "Suc k \<in> set events") (simp_all add: riccati_recursion_def same_at_def)

lemma events_at_most:
  assumes "events_spaced events" "i \<le> j" "j < length events"
  shows "events ! i \<le> events ! j"
  using assms unfolding events_spaced_def by (metis add_leD1 le_neq_implies_less le_refl)

lemma ilqr_loop_turn:
  assumes "\<not> cur < stop" "0 \<le> stop"
  shows "ilqr_loop env mds jumps events firstEv stop cur ev temp nxt st =
    bind_result (riccati_node env mds (nat cur) nxt st) (\<lambda>st.
    bind_result (vec_at (rs_valueFunction st) (nat cur)) (\<lambda>V.
    bind_result (if int firstEv \<le> ev then bind_result (vec_at_int events ev) (\<lambda>e. Inr (cur = int e)) else Inr False) (\<lambda>is_event.
    if is_event then
      bind_result (require (0 \<le> cur - 1) Undefined) (\<lambda>_.
      bind_result (vec_at_int jumps ev) (\<lambda>jump.
      bind_result (riccatiTransversalityConditions jump (value_triple V)) (\<lambda>T.
      bind_result (put_value (nat (cur - 1)) (set_triple T temp) st) (\<lambda>st.
      bind_result (terminal_gains env mds (nat (cur - 1)) (set_triple T temp) st) (\<lambda>st.
      ilqr_loop env mds jumps events firstEv stop (cur - 2) (ev - 1) (set_triple T temp) (set_triple T temp) st)))))
    else ilqr_loop env mds jumps events firstEv stop (cur - 1) ev temp V st)))"
  proof -
  have "\<not> cur < 0" using assms by simp
  then show ?thesis using assms(1) by (subst ilqr_loop.simps) (simp only: Let_def if_False)
qed

lemma ilqr_loop_spec:
  assumes "ilqr_loop env mds jumps events firstEv stop cur ev temp nxt st = Inr st'" "0 \<le> stop" "events_spaced events" "ev < int (length events)"
    and "\<And>i. i < length events \<Longrightarrow> (int firstEv \<le> int i \<and> int i \<le> ev) = (stop < int (events ! i) \<and> int (events ! i) \<le> cur)"
    and "cur < stop \<or> Suc (nat cur) \<notin> set events"
  shows "(\<forall>k. int k < stop \<or> cur < int k \<longrightarrow> same_at k st st') \<and>
    (\<forall>k. stop \<le> int k \<and> int k \<le> cur \<longrightarrow>
       riccati_recursion env mds jumps events k (if int k = cur then nxt else rs_valueFunction st' ! Suc k) st')"
  using assms
proof (induction "nat (cur - stop + 1)" arbitrary: cur ev temp nxt st rule: less_induct)
  case less
  note inv = less.prems(5)
  show ?case
  proof (cases "cur < stop")
    case True
    then show ?thesis using less.prems(1) by (auto simp: ilqr_loop.simps same_at_def)
  next
    case False
    define k where "k = nat cur"
    have k: "cur = int k" using False less.prems(2) by (simp add: k_def)
    have post: "Suc k \<notin> set events" using less.prems(6) False by (simp add: k)
    obtain st1 is_event where st1: "riccati_node env mds k nxt st = Inr st1"
      and b: "(if int firstEv \<le> ev then bind_result (vec_at_int events ev) (\<lambda>e. Inr (cur = int e)) else Inr False) = Inr is_event"
      and rest: "(if is_event then
          bind_result (require (0 \<le> cur - 1) Undefined) (\<lambda>_.
          bind_result (vec_at_int jumps ev) (\<lambda>jump.
          bind_result (riccatiTransversalityConditions jump (value_triple (rs_valueFunction st1 ! k))) (\<lambda>T.
          bind_result (put_value (nat (cur - 1)) (set_triple T temp) st1) (\<lambda>st.
          bind_result (terminal_gains env mds (nat (cur - 1)) (set_triple T temp) st) (\<lambda>st.
          ilqr_loop env mds jumps events firstEv stop (cur - 2) (ev - 1) (set_triple T temp) (set_triple T temp) st)))))
        else ilqr_loop env mds jumps events firstEv stop (cur - 1) ev temp (rs_valueFunction st1 ! k) st1) = Inr st'"
      using less.prems(1)[unfolded ilqr_loop_turn[OF False less.prems(2)] bind_result_eq_Inr vec_at_eq_Inr]
      unfolding k_def by (elim exE conjE) blast
    note node = riccati_node_effect[OF st1]
    show ?thesis
    proof (cases is_event)
      case False
      have gone: "(int firstEv \<le> int i \<and> int i \<le> ev) = (stop < int (events ! i) \<and> int (events ! i) \<le> cur - 1)" if i: "i < length events" for i
      proof -
        have "events ! i \<noteq> k" if "int firstEv \<le> int i" "int i \<le> ev"
        proof
          assume e: "events ! i = k"
          have "events ! nat ev \<noteq> k" using b that False less.prems(4) by (auto simp: k split: if_splits)
          moreover have "events ! i \<le> events ! nat ev" using events_at_most[OF less.prems(3), of i "nat ev"] that less.prems(4) by simp
          moreover have "int (events ! nat ev) \<le> cur" using inv[of "nat ev"] that less.prems(4) by auto
          ultimately show False using e k by simp
        qed
        then show ?thesis using inv[OF i] k by auto
      qed
      have "cur - 1 < stop \<or> Suc (nat (cur - 1)) \<notin> set events"
      proof (rule ccontr)
        assume "\<not> ?thesis"
        then obtain i where i: "i < length events" "events ! i = k" "stop < cur" using k less.prems(2) by (auto simp: in_set_conv_nth nat_diff_distrib)
        then show False using gone[OF i(1)] inv[OF i(1)] k by auto
      qed
      from less.hyps[OF _ _ less.prems(2,3,4) gone this] rest False \<open>\<not> cur < stop\<close> obtain
        keep: "\<forall>j. int j < stop \<or> cur - 1 < int j \<longrightarrow> same_at j st1 st'" and
        rec: "\<forall>j. stop \<le> int j \<and> int j \<le> cur - 1 \<longrightarrow>
          riccati_recursion env mds jumps events j (if int j = cur - 1 then rs_valueFunction st1 ! k else rs_valueFunction st' ! Suc j) st'"
        by auto
      have "same_at j st st'" if "int j < stop \<or> cur < int j" for j
        using same_at_trans[of j st st1 st'] node(2)[of j] keep[rule_format, of j] that \<open>\<not> cur < stop\<close> k by auto
      moreover have here: "same_at k st1 st'" using keep k by simp
      then have "riccati_recursion env mds jumps events k nxt st'" using riccati_recursion_same node(1)[OF post] by blast
      moreover have "riccati_recursion env mds jumps events j (rs_valueFunction st' ! Suc j) st'" if "stop \<le> int j" "int j < cur" for j
      proof (cases "int j = cur - 1")
        case True
        then have "Suc j = k" using k by simp
        then show ?thesis using rec[rule_format, of j] that here True by (simp add: same_at_def)
      next
        case False
        then show ?thesis using rec[rule_format, of j] that by simp
      qed
      ultimately show ?thesis using k by auto
    next
      case True
      then have e: "int firstEv \<le> ev" "events ! nat ev = k" "0 \<le> ev" "nat ev < length events"
        using b less.prems(4) k by (auto simp: result_simps vec_at_int_def split: if_splits)
      have stop: "stop < cur" using inv[of "nat ev"] e by auto
      then have k0: "0 < k" using less.prems(2) k by simp
      from rest True e obtain T st2 st3 where T: "nat ev < length jumps"
          "riccatiTransversalityConditions (jumps ! nat ev) (value_triple (rs_valueFunction st1 ! k)) = Inr T"
        and st2: "put_value (k - 1) (set_triple T temp) st1 = Inr st2"
        and st3: "terminal_gains env mds (k - 1) (set_triple T temp) st2 = Inr st3"
        and loop: "ilqr_loop env mds jumps events firstEv stop (cur - 2) (ev - 1) (set_triple T temp) (set_triple T temp) st3 = Inr st'"
        using k k0 by (auto simp: Let_def result_simps vec_at_int_def nat_diff_distrib split: if_splits)
      have gone: "(int firstEv \<le> int i \<and> int i \<le> ev - 1) = (stop < int (events ! i) \<and> int (events ! i) \<le> cur - 2)" if i: "i < length events" for i
      proof -
        have "int i < ev \<Longrightarrow> events ! i + 2 \<le> k" using less.prems(3) e unfolding events_spaced_def
          by (metis nat_less_iff not_less of_nat_0_le_iff zless_nat_eq_int_zless)
        then show ?thesis using inv[OF i] e k by (cases "int i = ev") auto
      qed
      have "cur - 2 < stop \<or> Suc (nat (cur - 2)) \<notin> set events"
      proof (rule ccontr)
        assume "\<not> ?thesis"
        then obtain i where i: "i < length events" "events ! i = k - 1" "stop \<le> cur - 2" using k less.prems(2) k0
          by (auto simp: in_set_conv_nth nat_diff_distrib)
        then show False using gone[OF i(1)] inv[OF i(1)] k k0 e(2) by auto
      qed
      from less.hyps[OF _ loop less.prems(2,3) _ gone this] stop less.prems(4) obtain
        keep: "\<forall>j. int j < stop \<or> cur - 2 < int j \<longrightarrow> same_at j st3 st'" and
        rec: "\<forall>j. stop \<le> int j \<and> int j \<le> cur - 2 \<longrightarrow>
          riccati_recursion env mds jumps events j (if int j = cur - 2 then set_triple T temp else rs_valueFunction st' ! Suc j) st'"
        by auto
      have jump: "same_at j st1 st3" if "j \<noteq> k - 1" for j
        using that st2 terminal_gains_effect(2)[OF st3 that] by (auto simp: put_value_def result_simps same_at_def)
      have pre: "rs_valueFunction st3 ! (k - 1) = set_triple T temp" "rs_valueFunction st' ! (k - 1) = set_triple T temp"
        using st2 terminal_gains_effect(1)[OF st3] keep[rule_format, of "k - 1"] k k0 by (auto simp: put_value_def result_simps same_at_def)
      have here: "same_at k st1 st'" using same_at_trans[of k st1 st3 st'] jump[of k] keep[rule_format, of k] k k0 by simp
      have "same_at j st st'" if "int j < stop \<or> cur < int j" for j
        using same_at_trans[of j st st1 st'] same_at_trans[of j st1 st3 st'] node(2)[of j] jump[of j] keep[rule_format, of j] that stop k k0 by auto
      moreover have "riccati_recursion env mds jumps events k nxt st'" using riccati_recursion_same here node(1)[OF post] by blast
      moreover have "riccati_recursion env mds jumps events j (rs_valueFunction st' ! Suc j) st'" if j: "stop \<le> int j" "int j < cur" for j
      proof -
        consider "j = k - 1" | "int j = cur - 2" | "int j < cur - 2" using j k by linarith
        then show ?thesis
        proof cases
          case 1
          then have "Suc j \<in> set events" "Suc j = k" using e(2,4) k0 by (auto simp: in_set_conv_nth)
          then show ?thesis using T e pre(2) here 1 by (auto simp: riccati_recursion_def same_at_def intro!: exI[of _ "nat ev"])
        next
          case 2
          then have "Suc j = k - 1" using k by linarith
          then show ?thesis using rec[rule_format, of j] j 2 pre(2) by simp
        next
          case 3
          then show ?thesis using rec[rule_format, of j] j by simp
        qed
      qed
      ultimately show ?thesis using k by auto
    qed
  qed
qed

text \<open>The first position after the elements that are at most \<open>v\<close>.\<close>

lemma upper_bound_nat_iff:
  assumes "sorted_wrt (<) xs" "i < length xs"
  shows "i < upper_bound_nat xs v \<longleftrightarrow> xs ! i \<le> v"
proof
  assume "i < upper_bound_nat xs v"
  then show "xs ! i \<le> v" using nth_mem[of i "takeWhile (\<lambda>x. x \<le> v) xs"] set_takeWhileD[of "xs ! i" "\<lambda>x. x \<le> v" xs]
    by (simp add: upper_bound_nat_def takeWhile_nth)
next
  assume v: "xs ! i \<le> v"
  show "i < upper_bound_nat xs v"
  proof (rule ccontr)
    assume n: "\<not> ?thesis"
    then have "upper_bound_nat xs v < length xs" using assms(2) by simp
    then have "\<not> xs ! upper_bound_nat xs v \<le> v" unfolding upper_bound_nat_def by (rule nth_length_takeWhile)
    moreover have "xs ! upper_bound_nat xs v \<le> xs ! i"
      using n assms sorted_wrt_nth_less[of "(<)" xs "upper_bound_nat xs v" i] by (cases "upper_bound_nat xs v = i") auto
    ultimately show False using v by simp
  qed
qed

lemma upper_bound_nat_le: "upper_bound_nat xs v \<le> length xs"
  by (simp add: upper_bound_nat_def length_takeWhile_le)

lemma events_spaced_sorted: "events_spaced events \<Longrightarrow> sorted_wrt (<) events"
  unfolding events_spaced_def sorted_wrt_iff_nth_less by (meson less_add_eq_less add_lessD1 le_neq_implies_less less_le_trans less_add_Suc1 zero_less_numeral less_add_same_cancel1)

lemma ilqr_worker_spec:
  assumes "ilqr_riccatiEquationsWorker env mds jumps events (first, second) V st = Inr st'" "events_spaced events" "second \<notin> set events"
  shows "k < first \<or> second \<le> k \<Longrightarrow> same_at k st st'"
    "first \<le> k \<Longrightarrow> k < second \<Longrightarrow> riccati_recursion env mds jumps events k (if Suc k = second then V else rs_valueFunction st' ! Suc k) st'"
proof -
  note sorted = events_spaced_sorted[OF assms(2)]
  have inv: "(int (upper_bound_nat events first) \<le> int i \<and> int i \<le> int (upper_bound_nat events second) - 1) =
      (int first < int (events ! i) \<and> int (events ! i) \<le> int second - 1)" if i: "i < length events" for i
  proof -
    have "events ! i \<noteq> second" using assms(3) i nth_mem by blast
    then show ?thesis using upper_bound_nat_iff[OF sorted i, of first] upper_bound_nat_iff[OF sorted i, of second] by auto
  qed
  have "int second - 1 < int first \<or> Suc (nat (int second - 1)) \<notin> set events" using assms(3) by (cases second) simp_all
  then have r: "(\<forall>k. int k < int first \<or> int second - 1 < int k \<longrightarrow> same_at k st st') \<and>
    (\<forall>k. int first \<le> int k \<and> int k \<le> int second - 1 \<longrightarrow>
       riccati_recursion env mds jumps events k (if int k = int second - 1 then V else rs_valueFunction st' ! Suc k) st')"
    using ilqr_loop_spec[OF assms(1)[unfolded ilqr_riccatiEquationsWorker_def Let_def fst_conv snd_conv] _ assms(2) _ inv]
      upper_bound_nat_le[of events second] by simp
  show "k < first \<or> second \<le> k \<Longrightarrow> same_at k st st'" using r by auto
  have "(int k = int second - 1) = (Suc k = second)" by auto
  then show "first \<le> k \<Longrightarrow> k < second \<Longrightarrow> riccati_recursion env mds jumps events k (if Suc k = second then V else rs_valueFunction st' ! Suc k) st'"
    using r[THEN conjunct2, rule_format, of k] by simp
qed

section \<open>An event at the end of a partition\<close>

lemma ilqr_loop_stuck:
  assumes "0 \<le> stop" "int firstEv \<le> ev \<Longrightarrow> ev < int (length events) \<and> cur < int (events ! nat ev)"
  shows "ilqr_loop env mds jumps events firstEv stop cur ev temp nxt st = ilqr_loop env mds [] [] 0 stop cur (- 1) temp nxt st"
  using assms
proof (induction "nat (cur - stop + 1)" arbitrary: cur nxt st rule: less_induct)
  case less
  show ?case
  proof (cases "cur < stop")
    case True
    then show ?thesis by (simp add: ilqr_loop.simps)
  next
    case False
    have "(if int firstEv \<le> ev then bind_result (vec_at_int events ev) (\<lambda>e. Inr (cur = int e)) else Inr False) = Inr False"
      using less.prems by auto
    moreover have "ilqr_loop env mds jumps events firstEv stop (cur - 1) ev temp V st1 = ilqr_loop env mds [] [] 0 stop (cur - 1) (- 1) temp V st1" for V st1
      using less.prems False by (intro less.hyps) auto
    ultimately show ?thesis using less.prems(1) False by (simp add: ilqr_loop_turn)
  qed
qed

text \<open>
  An event whose post-event node is the last node of a partition stops every jump of the partition: the loop waits for that
  event first, at an index it never reaches. The backward pass then is that of a trajectory without any event, whatever the
  models of the jumps are, also those of the earlier events.
\<close>

theorem final_event_disables_jumps:
  assumes "events_spaced events" "second \<in> set events" "first < second"
  shows "ilqr_riccatiEquationsWorker env mds jumps events (first, second) V st = ilqr_riccatiEquationsWorker env mds [] [] (first, second) V st"
proof -
  note sorted = events_spaced_sorted[OF assms(1)]
  from assms(2) obtain i where i: "i < length events" "events ! i = second" by (auto simp: in_set_conv_nth)
  have "upper_bound_nat events second \<le> Suc i"
  proof (rule ccontr)
    assume "\<not> ?thesis"
    then have "Suc i < length events" "events ! Suc i \<le> second"
      using upper_bound_nat_le[of events second] upper_bound_nat_iff[OF sorted, of "Suc i" second] by auto
    then show False using i sorted_wrt_nth_less[OF sorted, of i "Suc i"] by simp
  qed
  moreover have "i < upper_bound_nat events second" using upper_bound_nat_iff[OF sorted i(1), of second] i by simp
  ultimately have "int (upper_bound_nat events second) - 1 = int i" by simp
  then show ?thesis
    using i ilqr_loop_stuck[of "int first" "upper_bound_nat events first" "int i" events "int second - 1" env mds jumps V V st]
    by (simp add: ilqr_riccatiEquationsWorker_def upper_bound_nat_def)
qed

lemma final_event_witness:
  "\<forall>mds jumps V st. ilqr_riccatiEquationsWorker example_env mds jumps [2, 5] (0, 5) V st = ilqr_riccatiEquationsWorker example_env mds [] [] (0, 5) V st"
proof (intro allI)
  show "ilqr_riccatiEquationsWorker example_env mds jumps [2, 5] (0, 5) V st = ilqr_riccatiEquationsWorker example_env mds [] [] (0, 5) V st" for mds jumps V st
    by (rule final_event_disables_jumps) (auto simp: events_spaced_def less_Suc_eq numeral_2_eq_2)
qed

end
