(* ===== verification/Ilqr_Optimal.thy ===== *)
theory Ilqr_Optimal
  imports Ilqr
begin

text \<open>
  The meaning of the backward pass of iLQR: over a partition of the trajectory it solves the linear-quadratic problem with its
  jumps and its constraints. The states and the inputs are deviations from the nominal trajectory.
\<close>

section \<open>The linear-quadratic problem of a partition\<close>

record lq_problem =
  lq_models :: "model_data list"
  lq_jumps :: "model_data list"
  lq_events :: "nat list"
  lq_deltaQm :: "nat \<Rightarrow> dmatrix"
  lq_final :: riccati_value

definition lq_jump :: "lq_problem \<Rightarrow> nat \<Rightarrow> model_data" where
  "lq_jump lq k = lq_jumps lq ! length (takeWhile (\<lambda>e. e \<noteq> Suc k) (lq_events lq))"

definition lq_stage_cost :: "lq_problem \<Rightarrow> nat \<Rightarrow> vector_t \<Rightarrow> vector_t \<Rightarrow> scalar" where
  "lq_stage_cost lq k x u =
     (if Suc k \<in> set (lq_events lq) then
        let c = md_cost (lq_jump lq k) in appr_f c + dot (dfdx c) x + form (dfdxx c) x / 2
      else quadratic_value (md_cost (lq_models lq ! k)) x u + form (lq_deltaQm lq k) x / 2)"

definition lq_stage_next :: "lq_problem \<Rightarrow> nat \<Rightarrow> vector_t \<Rightarrow> vector_t \<Rightarrow> vector_t" where
  "lq_stage_next lq k x u =
     (if Suc k \<in> set (lq_events lq) then
        let j = lq_jump lq k in vadd (mv (vl_dfdx (md_dynamics j)) x) (md_dynamicsBias j)
      else next_state (lq_models lq ! k) x u)"

definition lq_admissible :: "lq_problem \<Rightarrow> nat \<Rightarrow> vector_t \<Rightarrow> vector_t \<Rightarrow> bool" where
  "lq_admissible lq k x u =
     (Suc k \<in> set (lq_events lq) \<or>
      int (length u) = md_inputDim (lq_models lq ! k) \<and>
      (\<forall>e \<in> set (linear_value (md_stateInputEqConstraint (lq_models lq ! k)) x u). e = 0))"

fun lq_cost :: "lq_problem \<Rightarrow> nat \<Rightarrow> vector_t list \<Rightarrow> vector_t \<Rightarrow> scalar" where
  "lq_cost lq k [] x = triple_value (lq_final lq) x"
| "lq_cost lq k (u # us) x = lq_stage_cost lq k x u + lq_cost lq (Suc k) us (lq_stage_next lq k x u)"

fun lq_feasible :: "lq_problem \<Rightarrow> nat \<Rightarrow> vector_t list \<Rightarrow> vector_t \<Rightarrow> bool" where
  "lq_feasible lq k [] x = True"
| "lq_feasible lq k (u # us) x = (lq_admissible lq k x u \<and> lq_feasible lq (Suc k) us (lq_stage_next lq k x u))"

text \<open>The inputs of the controller along its own trajectory.\<close>

definition controller_input :: "riccati_store \<Rightarrow> vector_t list \<Rightarrow> vector_t list \<Rightarrow> nat \<Rightarrow> vector_t \<Rightarrow> vector_t" where
  "controller_input st xs us k x =
     (case calculateControllerWorker st xs us k of Inl e \<Rightarrow> [] | Inr g \<Rightarrow> vadd (mv (lg_gain g) x) (lg_deltaBias g))"

fun policy_inputs :: "lq_problem \<Rightarrow> (nat \<Rightarrow> vector_t \<Rightarrow> vector_t) \<Rightarrow> nat \<Rightarrow> nat \<Rightarrow> vector_t \<Rightarrow> vector_t list" where
  "policy_inputs lq p k 0 x = []"
| "policy_inputs lq p k (Suc n) x = p k x # policy_inputs lq p (Suc k) n (lq_stage_next lq k x (p k x))"

section \<open>The controller of a node\<close>

lemma projectLQ_constraint:
  assumes "projectLQ md rangeP nullP old = Inr pd"
  shows "md_stateInputEqConstraint pd =
    (if vl_f (md_stateInputEqConstraint md) = []
     then \<lparr>vl_dfdx = zero_mat (nat (md_inputDim md)) (nat (md_stateDim md)), vl_dfdu = zero_mat (nat (md_inputDim md)) (nat (md_inputDim md)),
           vl_f = zero_vec (nat (md_inputDim md))\<rparr>
     else \<lparr>vl_dfdx = mm rangeP (vl_dfdx (md_stateInputEqConstraint md)), vl_dfdu = mm rangeP (vl_dfdu (md_stateInputEqConstraint md)),
           vl_f = mv rangeP (vl_f (md_stateInputEqConstraint md))\<rparr>)"
  using assms by (auto simp: projectLQ_def Let_def result_simps mat_mult_def mat_vmult_def split: if_splits)

lemma controller_is_projected_policy:
  assumes d: "constrained_dims nc nx nu md" and P: "projectors_ok nc nu (vl_dfdu (md_stateInputEqConstraint md)) rangeP N"
    and pd: "projectLQ md rangeP N old = Inr pd"
    and K: "m_rows K = nu - nc" "m_cols K = nx" "length L = nu - nc"
    and st: "k < length (rs_projectedModelData st)" "rs_projectedModelData st ! k = pd" "k < length (rs_riccatiModification st)"
      "rm_constraintNullProjector (rs_riccatiModification st ! k) = N" "k < length (rs_projectedKm st)" "rs_projectedKm st ! k = K"
      "k < length (rs_projectedLv st)" "rs_projectedLv st ! k = L"
    and nominal: "k < length xs" "length (xs ! k) = nx" "k < length us" "length (us ! k) = nu"
    and x: "length x = nx"
  shows "controller_input st xs us k x = projected_input md rangeP N x (vadd (mv K x) L)"
proof -
  note dims = d[unfolded constrained_dims_def linear_dims_def] P[unfolded projectors_ok_def]
  define C E where "C = vl_dfdx (md_stateInputEqConstraint pd)" "E = vl_f (md_stateInputEqConstraint pd)"
  have CE: "m_rows C = nu" "m_cols C = nx" "length E = nu"
    using dims projectLQ_constraint[OF pd] by (auto simp: C_E_def)
  have "controller_input st xs us k x = vadd (mv (madd (mneg C) (mm N K)) x) (vadd (vneg E) (mv N L))"
    using st nominal dims K CE by (simp add: controller_input_def calculateControllerWorker_def C_E_def[symmetric] mat_checked)
  also have "\<dots> = vadd (mv N (vadd (mv K x) L)) (vadd (vneg (mv C x)) (vneg E))"
    using dims K CE x by (intro nth_equalityI) (simp_all add: mv_madd mv_mneg mv_mm mv_vadd del: mv_nth)
  also have "\<dots> = projected_input md rangeP N x (vadd (mv K x) L)"
  proof (cases "nc = 0")
    case True
    then have f: "vl_f (md_stateInputEqConstraint md) = []" using dims by simp
    then have "vneg (mv C x) = zero_vec nu" "vneg E = zero_vec nu"
      using projectLQ_constraint[OF pd] dims x by (auto simp: C_E_def mv_zero_mat zero_vec_def vneg_def intro!: nth_equalityI)
    then show ?thesis using f dims by (simp add: projected_input_def changed_input_def m_size_empty)
  next
    case False
    then have f: "vl_f (md_stateInputEqConstraint md) \<noteq> []" "C = mm rangeP (vl_dfdx (md_stateInputEqConstraint md))"
        "E = mv rangeP (vl_f (md_stateInputEqConstraint md))"
      using projectLQ_constraint[OF pd] dims by (auto simp: C_E_def)
    have "E \<noteq> []" using CE False dims by auto
    have "(if 0 < m_size (mneg C) then mv (mneg C) x else zero_vec nu) = vneg (mv C x)"
    proof (cases "0 < m_size (mneg C)")
      case z: False
      then have "nx = 0" using CE False dims by (auto simp: m_size_def)
      then show ?thesis using z CE by (intro nth_equalityI) (simp_all add: zero_vec_def)
    qed (simp add: mv_mneg)
    moreover have "projected_input md rangeP N x w = vadd (mv N w) (vadd (if 0 < m_size (mneg C) then mv (mneg C) x else zero_vec nu) (vneg E))" for w
      using f \<open>E \<noteq> []\<close> dims by (simp add: projected_input_def changed_input_def f(2,3)[symmetric] vneg_def)
    ultimately show ?thesis by simp
  qed
  finally show ?thesis .
qed

section \<open>One node\<close>

text \<open>What the factorisations of a node must deliver, at the value \<open>nxt\<close> of the next node.\<close>

definition node_ok :: "riccati_env \<Rightarrow> line_search_settings \<Rightarrow> nat \<Rightarrow> model_data \<Rightarrow> riccati_value \<Rightarrow> bool" where
  "node_ok env cfg nx md nxt =
     (\<exists>nc nu. constrained_dims nc nx nu md \<and> uut_ok (re_factorizations env) (ilqr_hessian md nxt) \<and>
        constraint_ok (re_factorizations env) (vl_dfdu (md_stateInputEqConstraint md))
          (computeInverseMatrixUUT (re_factorizations env) (ilqr_hessian md nxt)) \<and>
        correction_ok (re_eigen env) (re_cholesky env) (hessianCorrectionStrategy cfg) nx)"

definition env_ok :: "riccati_env \<Rightarrow> line_search_settings \<Rightarrow> bool" where
  "env_ok env cfg = (re_strategy env = Line_Search_State cfg \<and> reducedFormRiccati (re_riccati env) \<and> \<not> isRiskSensitive (re_riccati env))"

definition store_sized :: "nat \<Rightarrow> riccati_store \<Rightarrow> bool" where
  "store_sized n st =
     (length (rs_projectedLv st) = n \<and> length (rs_projectedKm st) = n \<and> length (rs_projectedModelData st) = n \<and>
      length (rs_riccatiModification st) = n \<and> length (rs_valueFunction st) = n)"

text \<open>One step of dynamic programming at node \<open>k\<close>, with the input that the controller takes.\<close>

definition bellman_step :: "lq_problem \<Rightarrow> nat \<Rightarrow> nat \<Rightarrow> (vector_t \<Rightarrow> vector_t) \<Rightarrow> riccati_value \<Rightarrow> riccati_value \<Rightarrow> bool" where
  "bellman_step lq nx k p V nxt =
     (value_dims nx V \<and>
      (\<forall>x u. length x = nx \<longrightarrow> lq_admissible lq k x u \<longrightarrow>
         length (lq_stage_next lq k x u) = nx \<and> triple_value V x \<le> lq_stage_cost lq k x u + triple_value nxt (lq_stage_next lq k x u)) \<and>
      (\<forall>x. length x = nx \<longrightarrow> lq_admissible lq k x (p x) \<and>
         triple_value V x = lq_stage_cost lq k x (p x) + triple_value nxt (lq_stage_next lq k x (p x))))"

lemma zero_vec_iff: "(v = zero_vec n) = (length v = n \<and> (\<forall>e \<in> set v. e = 0))"
  by (auto simp: zero_vec_def replicate_length_same)

lemma regular_bellman:
  assumes e: "env_ok env cfg" and n: "node_ok env cfg nx (mds ! k) (value_triple nxt)" and V: "value_dims nx (value_triple nxt)"
    and r: "riccati_recursion env mds jumps events k nxt st" "Suc k \<notin> set events"
    and st: "store_sized n st" "k < n" and nominal: "k < length xs" "length (xs ! k) = nx" "k < length us" "int (length (us ! k)) = md_inputDim (mds ! k)"
    and lq: "lq_models lq = mds" "lq_jumps lq = jumps" "lq_events lq = events" "lq_deltaQm lq k = rm_deltaQm (rs_riccatiModification st ! k)"
  shows "bellman_step lq nx k (controller_input st xs us k) (value_triple (rs_valueFunction st ! k)) (value_triple nxt)"
proof -
  let ?md = "mds ! k" and ?rm = "rs_riccatiModification st ! k" and ?pd = "rs_projectedModelData st ! k" and ?V = "value_triple (rs_valueFunction st ! k)"
  let ?range = "rm_constraintRangeProjector ?rm" and ?null = "rm_constraintNullProjector ?rm"
  from n obtain nc nu where d: "constrained_dims nc nx nu ?md"
      "uut_ok (re_factorizations env) (ilqr_hessian ?md (value_triple nxt))"
      "constraint_ok (re_factorizations env) (vl_dfdu (md_stateInputEqConstraint ?md))
         (computeInverseMatrixUUT (re_factorizations env) (ilqr_hessian ?md (value_triple nxt)))"
      "correction_ok (re_eigen env) (re_cholesky env) (hessianCorrectionStrategy cfg) nx" by (auto simp: node_ok_def)
  from r obtain old oldSv where c: "computeProjectionAndRiccatiModification env ilqr_computeHamiltonianHessian ?md (fst (value_triple nxt)) old = Inr (?pd, ?rm)"
      "computeMap (re_ldlt env) (re_riccati env) ?pd ?rm oldSv (value_triple nxt) = Inr (rs_projectedKm st ! k, rs_projectedLv st ! k, ?V)"
    by (auto simp: riccati_recursion_def value_triple_def)
  define K L where "K = rs_projectedKm st ! k" "L = rs_projectedLv st ! k"
  from ilqr_node_is_bellman[OF d(1) V, of env cfg old oldSv] e d(2-4) c
  have b: "value_dims nx ?V" "m_rows K = nu - nc" "m_cols K = nx" "length L = nu - nc"
      "projectors_ok nc nu (vl_dfdu (md_stateInputEqConstraint ?md)) ?range ?null" "projectLQ ?md ?range ?null old = Inr ?pd"
    and inputs: "\<And>x u. length x = nx \<Longrightarrow> length u = nu \<Longrightarrow> (linear_value (md_stateInputEqConstraint ?md) x u = zero_vec nc) =
       (\<exists>v. length v = nu - nc \<and> projected_input ?md ?range ?null x v = u)"
    and vals: "\<And>x v. length x = nx \<Longrightarrow> length v = nu - nc \<Longrightarrow>
       (let e = vadd v (vneg (vadd (mv K x) L)) in
        step_value ?md (value_triple nxt) x (projected_input ?md ?range ?null x v) + form (rm_deltaQm ?rm) x / 2 = triple_value ?V x + dot e e / 2)"
    by (auto simp: env_ok_def K_L_def)
  have nu: "md_inputDim ?md = int nu" and lin: "linear_dims nx nx nu (md_dynamics ?md)" "linear_dims nc nx nu (md_stateInputEqConstraint ?md)"
      "length (md_dynamicsBias ?md) = nx" using d(1) by (simp_all add: constrained_dims_def)
  have adm: "lq_admissible lq k x u = (length u = nu \<and> linear_value (md_stateInputEqConstraint ?md) x u = zero_vec nc)" for x u
    using r(2) lq nu lin by (auto simp: lq_admissible_def zero_vec_iff linear_value_def linear_dims_def)
  have nxt: "lq_stage_next lq k x u = next_state ?md x u" and cost:
      "lq_stage_cost lq k x u + triple_value (value_triple nxt) (next_state ?md x u) = step_value ?md (value_triple nxt) x u + form (rm_deltaQm ?rm) x / 2" for x u
    using r(2) lq by (simp_all add: lq_stage_next_def lq_stage_cost_def step_value_def)
  have len: "length (next_state ?md x u) = nx" for x u using lin by (simp add: next_state_def linear_dims_def)
  have ctrl: "controller_input st xs us k x = projected_input ?md ?range ?null x (vadd (mv K x) L)" if "length x = nx" for x
    using controller_is_projected_policy[OF d(1) b(5,6,2,3,4)] st nominal nu that by (simp add: store_sized_def K_L_def)
  have low: "triple_value ?V x \<le> lq_stage_cost lq k x u + triple_value (value_triple nxt) (lq_stage_next lq k x u)"
    if x: "length x = nx" and a: "lq_admissible lq k x u" for x u
  proof -
    from a inputs[OF x, of u] obtain v where v: "length v = nu - nc" "projected_input ?md ?range ?null x v = u" by (auto simp: adm)
    show ?thesis using vals[OF x v(1)] v(2) dot_self_nonneg by (simp add: Let_def nxt cost)
  qed
  have eq: "lq_admissible lq k x (controller_input st xs us k x) \<and>
      triple_value ?V x = lq_stage_cost lq k x (controller_input st xs us k x) + triple_value (value_triple nxt) (lq_stage_next lq k x (controller_input st xs us k x))"
    if x: "length x = nx" for x
  proof -
    define w where "w = vadd (mv K x) L"
    have w: "length w = nu - nc" using b by (simp add: w_def)
    have "vadd w (vneg w) = zero_vec (nu - nc)" using w by (intro nth_equalityI) (simp_all add: zero_vec_def)
    then have "step_value ?md (value_triple nxt) x (projected_input ?md ?range ?null x w) + form (rm_deltaQm ?rm) x / 2 = triple_value ?V x"
      using vals[OF x w, folded w_def] by (simp add: Let_def dot_zero_left)
    moreover have "length (projected_input ?md ?range ?null x w) = nu" using b(5) by (simp add: projected_input_def changed_input_def projectors_ok_def)
    ultimately show ?thesis using ctrl[OF x, folded w_def] w inputs[OF x] by (auto simp: adm nxt cost)
  qed
  show ?thesis unfolding bellman_step_def using b(1) low eq len by (simp add: nxt)
qed

section \<open>One jump\<close>

lemma lq_jump_eq:
  assumes "events_spaced (lq_events lq)" "i < length (lq_events lq)" "lq_events lq ! i = Suc k"
  shows "lq_jump lq k = lq_jumps lq ! i"
proof -
  let ?n = "length (takeWhile (\<lambda>e. e \<noteq> Suc k) (lq_events lq))"
  have le: "?n \<le> i" using assms(2,3) by (metis (mono_tags, lifting) le_less_linear set_takeWhileD takeWhile_nth nth_mem)
  then have "lq_events lq ! ?n = Suc k" using assms(2) nth_length_takeWhile[of "\<lambda>e. e \<noteq> Suc k" "lq_events lq"] by simp
  then have "?n = i" using le assms unfolding events_spaced_def by (metis add_le_same_cancel1 le_neq_implies_less not_numeral_le_zero)
  then show ?thesis by (simp add: lq_jump_def)
qed

lemma jump_bellman:
  assumes V: "value_dims nx (value_triple nxt)" and j: "step_dims nx nv (lq_jump lq k)" "symmetric (dfdxx (md_cost (lq_jump lq k)))"
    and r: "riccati_recursion env mds (lq_jumps lq) (lq_events lq) k nxt st" "Suc k \<in> set (lq_events lq)" and sp: "events_spaced (lq_events lq)"
  shows "bellman_step lq nx k p (value_triple (rs_valueFunction st ! k)) (value_triple nxt)"
proof -
  from r obtain i where i: "i < length (lq_events lq)" "lq_events lq ! i = Suc k"
      "riccatiTransversalityConditions (lq_jumps lq ! i) (value_triple nxt) = Inr (value_triple (rs_valueFunction st ! k))"
    by (auto simp: riccati_recursion_def)
  note jump = lq_jump_eq[OF sp i(1,2)]
  have "length (vadd (mv (vl_dfdx (md_dynamics (lq_jump lq k))) x) (md_dynamicsBias (lq_jump lq k))) = nx" for x
    using j(1) by (simp add: step_dims_def)
  then show ?thesis
    using transversality_is_jump_value[OF j(1) V] j(2) i(3) r(2)
    by (auto simp: bellman_step_def lq_admissible_def lq_stage_cost_def lq_stage_next_def jump Let_def)
qed

section \<open>The partition\<close>

lemma policy_inputs_length [simp]: "length (policy_inputs lq p k n x) = n"
  by (induction n arbitrary: k x) simp_all

lemma bellman_chain:
  assumes steps: "\<And>j. k \<le> j \<Longrightarrow> j < k + n \<Longrightarrow> bellman_step lq nx j (p j) (V j) (V (Suc j))" and last: "V (k + n) = lq_final lq"
    and x: "length x = nx"
  shows "(\<forall>us. length us = n \<longrightarrow> lq_feasible lq k us x \<longrightarrow> triple_value (V k) x \<le> lq_cost lq k us x) \<and>
    lq_feasible lq k (policy_inputs lq p k n x) x \<and> lq_cost lq k (policy_inputs lq p k n x) x = triple_value (V k) x"
  using assms
proof (induction n arbitrary: k x)
  case (Suc n)
  have b: "bellman_step lq nx k (p k) (V k) (V (Suc k))" using Suc.prems(1)[of k] by simp
  have rec: "(\<forall>us. length us = n \<longrightarrow> lq_feasible lq (Suc k) us y \<longrightarrow> triple_value (V (Suc k)) y \<le> lq_cost lq (Suc k) us y) \<and>
      lq_feasible lq (Suc k) (policy_inputs lq p (Suc k) n y) y \<and> lq_cost lq (Suc k) (policy_inputs lq p (Suc k) n y) y = triple_value (V (Suc k)) y"
    if "length y = nx" for y using Suc.prems that by (intro Suc.IH) simp_all
  have "triple_value (V k) x \<le> lq_cost lq k us x" if us: "length us = Suc n" "lq_feasible lq k us x" for us
  proof -
    obtain u vs where us': "us = u # vs" using us(1) by (cases us) simp_all
    then have "length (lq_stage_next lq k x u) = nx" "triple_value (V k) x \<le> lq_stage_cost lq k x u + triple_value (V (Suc k)) (lq_stage_next lq k x u)"
      using b us Suc.prems(3) by (auto simp: bellman_step_def)
    then show ?thesis using rec us us' by fastforce
  qed
  moreover have "lq_admissible lq k x (p k x)" "length (lq_stage_next lq k x (p k x)) = nx"
      "triple_value (V k) x = lq_stage_cost lq k x (p k x) + triple_value (V (Suc k)) (lq_stage_next lq k x (p k x))"
    using b Suc.prems(3) by (auto simp: bellman_step_def)
  ultimately show ?case using rec by simp
qed simp

text \<open>
  C28. The backward pass of iLQR over a partition without a final event solves the linear-quadratic problem of the partition. Let
  the line search be the strategy, the events at least two nodes apart, and the factorisations right at every node, at the value
  that the pass found for the next one, which is symmetric. Then the value at the first node is, at every state, a lower bound of the cost of every
  input sequence that satisfies the constraints, over all steps and jumps, with the modification terms and the final value; and
  the inputs of \<open>calculateControllerWorker\<close> satisfy the constraints and attain it.
\<close>

theorem ilqr_backward_pass_optimal:
  assumes run: "ilqr_riccatiEquationsWorker env mds jumps events (first, second) V st = Inr st'"
    and part: "events_spaced events" "first < second" "second \<notin> set events" "value_dims nx (value_triple V)"
    and env: "env_ok env cfg"
    and sized: "store_sized n st'" "second \<le> n"
    and lq: "lq = \<lparr>lq_models = mds, lq_jumps = jumps, lq_events = events, lq_deltaQm = \<lambda>k. rm_deltaQm (rs_riccatiModification st' ! k), lq_final = value_triple V\<rparr>"
    and nodes: "\<And>k nxt. first \<le> k \<Longrightarrow> k < second \<Longrightarrow> Suc k \<notin> set events \<Longrightarrow>
        nxt = value_triple (if Suc k = second then V else rs_valueFunction st' ! Suc k) \<Longrightarrow> value_dims nx nxt \<Longrightarrow>
        node_ok env cfg nx (mds ! k) nxt \<and>
        k < length xs \<and> length (xs ! k) = nx \<and> k < length us \<and> int (length (us ! k)) = md_inputDim (mds ! k)"
    and jump: "\<And>k. first \<le> k \<Longrightarrow> k < second \<Longrightarrow> Suc k \<in> set events \<Longrightarrow> step_dims nx nv (lq_jump lq k) \<and> symmetric (dfdxx (md_cost (lq_jump lq k)))"
    and x: "length x = nx"
  shows "(\<forall>vs. length vs = second - first \<longrightarrow> lq_feasible lq first vs x \<longrightarrow>
      triple_value (value_triple (rs_valueFunction st' ! first)) x \<le> lq_cost lq first vs x) \<and>
    (let vs = policy_inputs lq (controller_input st' xs us) first (second - first) x in
     lq_feasible lq first vs x \<and> lq_cost lq first vs x = triple_value (value_triple (rs_valueFunction st' ! first)) x)"
proof -
  define W where "W k = (if k = second then V else rs_valueFunction st' ! k)" for k
  have step: "bellman_step lq nx k (controller_input st' xs us k) (value_triple (rs_valueFunction st' ! k)) (value_triple (W (Suc k)))"
    if k: "first \<le> k" "k < second" and dims: "value_dims nx (value_triple (W (Suc k)))" for k
  proof (cases "Suc k \<in> set events")
    case True
    then show ?thesis using jump_bellman[OF dims, of nv lq k env mds st'] jump[OF k True] ilqr_worker_spec(2)[OF run part(1,3) k] part(1)
      by (simp add: lq W_def)
  next
    case False
    then show ?thesis using regular_bellman[OF env _ dims ilqr_worker_spec(2)[OF run part(1,3) k, folded W_def] False sized(1), of xs us lq]
        nodes[OF k False refl] dims k sized(2)
      by (simp add: lq W_def)
  qed
  have dims: "first \<le> k \<Longrightarrow> k \<le> second \<Longrightarrow> value_dims nx (value_triple (W k))" for k
  proof (induction "second - k" arbitrary: k)
    case 0
    then show ?case using part(4) by (simp add: W_def)
  next
    case (Suc d)
    then have "k < second" by simp
    moreover have "value_dims nx (value_triple (W (Suc k)))" using Suc by (intro Suc.hyps(1)) simp_all
    ultimately show ?case using step[of k] Suc.prems by (simp add: bellman_step_def W_def)
  qed
  have "bellman_step lq nx k (controller_input st' xs us k) (value_triple (W k)) (value_triple (W (Suc k)))" if "first \<le> k" "k < first + (second - first)" for k
    using step[of k] dims[of "Suc k"] that part(2) by (simp add: W_def)
  from bellman_chain[of first "second - first" lq nx "controller_input st' xs us" "\<lambda>k. value_triple (W k)", OF this _ x] part(2)
  show ?thesis by (simp add: Let_def W_def lq)
qed

section \<open>The pass succeeds\<close>

lemma riccati_node_succeeds:
  assumes e: "env_ok env cfg" and n: "node_ok env cfg nx (mds ! k) (value_triple nxt)" and V: "value_dims nx (value_triple nxt)"
    and st: "store_sized m st" "k < m" "k < length mds"
  shows "\<exists>st'. riccati_node env mds k nxt st = Inr st' \<and> store_sized m st' \<and> value_dims nx (value_triple (rs_valueFunction st' ! k))"
proof -
  from n obtain nc nu where d: "constrained_dims nc nx nu (mds ! k)"
      "uut_ok (re_factorizations env) (ilqr_hessian (mds ! k) (value_triple nxt))"
      "constraint_ok (re_factorizations env) (vl_dfdu (md_stateInputEqConstraint (mds ! k)))
         (computeInverseMatrixUUT (re_factorizations env) (ilqr_hessian (mds ! k) (value_triple nxt)))"
      "correction_ok (re_eigen env) (re_cholesky env) (hessianCorrectionStrategy cfg) nx" by (auto simp: node_ok_def)
  from ilqr_node_is_bellman[OF d(1) V, of env cfg "rs_projectedModelData st ! k" "dfdx (rs_valueFunction st ! k)"] e d(2-4)
  obtain pd rm K L W where c: "computeProjectionAndRiccatiModification env ilqr_computeHamiltonianHessian (mds ! k) (dfdxx nxt) (rs_projectedModelData st ! k) = Inr (pd, rm)"
      "computeMap (re_ldlt env) (re_riccati env) pd rm (dfdx (rs_valueFunction st ! k)) (value_triple nxt) = Inr (K, L, W)" "value_dims nx W"
    by (auto simp: env_ok_def value_triple_def)
  then show ?thesis using st by (simp add: riccati_node_def put_node_def put_value_def store_sized_def)
qed

lemma terminal_gains_succeeds:
  assumes e: "env_ok env cfg" and n: "\<And>V. value_dims nx V \<Longrightarrow> node_ok env cfg nx (mds ! k) V" and V: "value_dims nx (value_triple V)"
    and st: "store_sized m st" "k < m" "k < length mds"
  shows "\<exists>st'. terminal_gains env mds k V st = Inr st' \<and> store_sized m st'"
proof -
  define Z where "Z = (zero_mat nx nx, zero_vec nx, 0 :: scalar)"
  have Z: "value_dims nx Z" by (simp add: Z_def value_dims_def symmetric_def zero_mat_def)
  from n[OF Z] obtain nc nu where d: "constrained_dims nc nx nu (mds ! k)"
      "uut_ok (re_factorizations env) (ilqr_hessian (mds ! k) Z)"
      "constraint_ok (re_factorizations env) (vl_dfdu (md_stateInputEqConstraint (mds ! k)))
         (computeInverseMatrixUUT (re_factorizations env) (ilqr_hessian (mds ! k) Z))"
      "correction_ok (re_eigen env) (re_cholesky env) (hessianCorrectionStrategy cfg) nx" by (auto simp: node_ok_def)
  from ilqr_node_is_bellman[OF d(1) Z, of env cfg "rs_projectedModelData st ! k" "[]"] e d(2-4)
  obtain pd rm where c: "computeProjectionAndRiccatiModification env ilqr_computeHamiltonianHessian (mds ! k) (zero_mat nx nx) (rs_projectedModelData st ! k) = Inr (pd, rm)"
      "step_dims nx (nu - nc) pd" "modification_dims nx (nu - nc) rm"
    by (auto simp: env_ok_def Z_def)
  moreover have "md_stateDim (mds ! k) = int nx" using d(1) by (simp add: constrained_dims_def)
  ultimately show ?thesis using st V
    by (simp add: terminal_gains_def put_node_def store_sized_def Let_def mat_checked step_dims_def quadratic_dims_def modification_dims_def value_dims_def
        value_triple_def)
qed

lemma ilqr_loop_succeeds:
  assumes "env_ok env cfg" "0 \<le> stop" "cur < int m" "m \<le> length mds" "ev < int (length events)" "length jumps = length events"
    and "\<And>k V. k < m \<Longrightarrow> value_dims nx V \<Longrightarrow> node_ok env cfg nx (mds ! k) V"
    and "\<And>j. j \<in> set jumps \<Longrightarrow> step_dims nx nv j \<and> symmetric (dfdxx (md_cost j))" "0 \<notin> set events"
    and "value_dims nx (value_triple nxt)" "store_sized m st"
  shows "\<exists>st'. ilqr_loop env mds jumps events firstEv stop cur ev temp nxt st = Inr st' \<and> store_sized m st'"
  using assms
proof (induction "nat (cur - stop + 1)" arbitrary: cur ev temp nxt st rule: less_induct)
  case less
  note p = less.prems
  show ?case
  proof (cases "cur < stop")
    case True
    then show ?thesis using p(11) by (simp add: ilqr_loop.simps)
  next
    case False
    define k where "k = nat cur"
    have k: "cur = int k" "k < m" using False p(2,3) by (simp_all add: k_def)
    then have km: "k < length mds" "k < length (rs_valueFunction st')" if "store_sized m st'" for st' using p(4) that by (simp_all add: store_sized_def)
    from riccati_node_succeeds[OF p(1) p(7)[OF k(2) p(10)] p(10,11) k(2) km(1)[OF p(11)]] obtain st1 where
      st1: "riccati_node env mds k nxt st = Inr st1" "store_sized m st1" "value_dims nx (value_triple (rs_valueFunction st1 ! k))" by blast
    have step: "\<exists>st'. ilqr_loop env mds jumps events firstEv stop cur' ev' temp' nxt' st2 = Inr st' \<and> store_sized m st'"
      if "cur' < cur" "ev' \<le> ev" "value_dims nx (value_triple nxt')" "store_sized m st2" for cur' ev' temp' nxt' st2
      using that p False by (intro less.hyps) auto
    obtain is_event where b: "(if int firstEv \<le> ev then bind_result (vec_at_int events ev) (\<lambda>e. Inr (cur = int e)) else Inr False) = Inr is_event"
      using p(5) by (cases "int firstEv \<le> ev") auto
    note turn = ilqr_loop_turn[OF False p(2), of env mds jumps events firstEv ev temp nxt st, unfolded b]
    show ?thesis
    proof (cases is_event)
      case False
      then show ?thesis using turn st1 km(2)[OF st1(2)] k(1) step[of "cur - 1" ev "rs_valueFunction st1 ! k" st1 temp] by simp
    next
      case True
      then have e: "0 \<le> ev" "nat ev < length events" "events ! nat ev = k"
        using b p(5) k(1) by (auto simp: result_simps vec_at_int_def split: if_splits)
      then have "k \<in> set events" using nth_mem by blast
      then have k0: "0 < k" using p(9) by (metis neq0_conv)
      have "step_dims nx nv (jumps ! nat ev) \<and> symmetric (dfdxx (md_cost (jumps ! nat ev)))"
        by (rule p(8)) (simp add: p(6) e(2))
      with transversality_is_jump_value[of nx nv "jumps ! nat ev", OF _ st1(3)] obtain T where
        T: "riccatiTransversalityConditions (jumps ! nat ev) (value_triple (rs_valueFunction st1 ! k)) = Inr T" "value_dims nx T" by blast
      define st2 where "st2 = st1\<lparr>rs_valueFunction := (rs_valueFunction st1)[k - 1 := set_triple T temp]\<rparr>"
      have st2: "put_value (k - 1) (set_triple T temp) st1 = Inr st2" "store_sized m st2"
        using st1(2) k(2) by (simp_all add: put_value_def st2_def store_sized_def)
      have "\<exists>st3. terminal_gains env mds (k - 1) (set_triple T temp) st2 = Inr st3 \<and> store_sized m st3"
        using p(4,7) k(2) T(2) st2(2) by (intro terminal_gains_succeeds[OF p(1)]) auto
      then obtain st3 where st3: "terminal_gains env mds (k - 1) (set_triple T temp) st2 = Inr st3" "store_sized m st3" by blast
      have "nat (cur - 1) = k - 1" "nat cur = k" "0 \<le> cur - 1" using k(1) k0 by simp_all
      then show ?thesis using True turn st1(1) km(2)[OF st1(2)] e p(6) T st2(1) st3 step[of "cur - 2" "ev - 1" "set_triple T temp" st3 "set_triple T temp"]
        by simp
    qed
  qed
qed

section \<open>An example\<close>

text \<open>Three nodes of the example, the second of which is before an event.\<close>

definition example_store :: riccati_store where
  "example_store = \<lparr>rs_projectedLv = replicate 3 [], rs_projectedKm = replicate 3 empty_mat, rs_projectedModelData = replicate 3 new_ModelData,
     rs_riccatiModification = replicate 3 new_RiccatiModification, rs_valueFunction = replicate 3 new_ScalarQuadratic\<rparr>"

definition example_jump :: model_data where
  "example_jump = new_ModelData\<lparr>md_dynamicsBias := [2], md_dynamics := \<lparr>vl_dfdx = Mat 1 1 [[3]], vl_dfdu = Mat 1 0 [[]], vl_f = [0]\<rparr>,
     md_cost := \<lparr>dfdxx = Mat 1 1 [[1]], dfdux = Mat 0 1 [], dfduu = Mat 0 0 [], dfdx = [1], dfdu = [], appr_f = 4\<rparr>\<rparr>"

definition example_final :: scalar_quadratic where
  "example_final = new_ScalarQuadratic\<lparr>dfdxx := Mat 1 1 [[2]], dfdx := [1], appr_f := 5\<rparr>"

lemma example_node_ok:
  assumes "value_dims 1 V"
  shows "node_ok example_env default_line_search_settings 1 example_node V"
proof -
  have D: "vl_dfdu (md_stateInputEqConstraint example_node) = Mat 1 2 [[1, 0]]" by (simp add: example_node_def)
  have cfg: "hessianCorrectionStrategy default_line_search_settings = DIAGONAL_SHIFT" by (simp add: default_line_search_settings_def)
  show ?thesis unfolding node_ok_def example_hessian[OF assms] example_inverse D cfg using example_dims(1) example_contracts by blast
qed

lemma example_jump_ok: "step_dims 1 0 example_jump \<and> symmetric (dfdxx (md_cost example_jump))"
  by (simp add: example_jump_def step_dims_def quadratic_dims_def symmetric_def)

lemma ilqr_backward_pass_witness:
  "\<exists>st' lq. ilqr_riccatiEquationsWorker example_env (replicate 3 example_node) [example_jump] [2] (0, 3) example_final example_store = Inr st' \<and>
     (let vs = policy_inputs lq (controller_input st' (replicate 3 [0]) (replicate 3 [0, 0])) 0 3 [1] in
      lq_feasible lq 0 vs [1] \<and> lq_cost lq 0 vs [1] = triple_value (value_triple (rs_valueFunction st' ! 0)) [1])"
proof -
  have env: "env_ok example_env default_line_search_settings" by (simp add: env_ok_def example_env_def)
  have sized: "store_sized 3 example_store" by (simp add: store_sized_def example_store_def)
  have V: "value_dims 1 (value_triple example_final)"
    using example_dims(2)[of 2 1 5] by (simp add: value_triple_def example_final_def)
  have ub: "upper_bound_nat [2] 0 = 0" "upper_bound_nat [2] 3 = 1" by (simp_all add: upper_bound_nat_def)
  have "\<exists>st'. ilqr_riccatiEquationsWorker example_env (replicate 3 example_node) [example_jump] [2] (0, 3) example_final example_store = Inr st' \<and> store_sized 3 st'"
    unfolding ilqr_riccatiEquationsWorker_def Let_def fst_conv snd_conv ub
    by (rule ilqr_loop_succeeds[OF env _ _ _ _ _ _ _ _ V sized, where nv = 0]) (use example_node_ok example_jump_ok in auto)
  then obtain st' where st': "ilqr_riccatiEquationsWorker example_env (replicate 3 example_node) [example_jump] [2] (0, 3) example_final example_store = Inr st'"
      "store_sized 3 st'" by blast
  define lq where "lq = \<lparr>lq_models = replicate 3 example_node, lq_jumps = [example_jump], lq_events = [2],
      lq_deltaQm = \<lambda>k. rm_deltaQm (rs_riccatiModification st' ! k), lq_final = value_triple example_final\<rparr>"
  have "events_spaced [2]" by (simp add: events_spaced_def)
  moreover have "lq_jump lq k = example_jump" if "Suc k \<in> set [2]" for k using that by (auto simp: lq_jump_def lq_def)
  ultimately show ?thesis
    using ilqr_backward_pass_optimal[OF st'(1) _ _ _ V env st'(2) _ lq_def, where x = "[1]" and xs = "replicate 3 [0]" and us = "replicate 3 [0, 0]" and nv = 0]
      example_node_ok example_jump_ok st'(1)
    by (intro exI[of _ st'] exI[of _ lq]) (simp add: example_node_def)
qed

end
