(* ===== verification/Gauss_Newton_Data.thy ===== *)
theory Gauss_Newton_Data
  imports Ilqr
begin

text \<open>
  The data of \<open>GaussNewtonDDP\<close>: the settings (\<open>DDP_Settings\<close>), the containers of the primal and the dual data
  (\<open>DDP_Data.h\<close>), the penalty of the merit function, the policy that is handed out, and the value function at a time and a
  state. The properties: how the penalty evolves over the iterations; the policy that is handed out is a consistent prefix of
  the optimised one; the value function is centred exactly.
\<close>

section \<open>Settings\<close>

datatype ddp_algorithm = SLQ_Algorithm | ILQR_Algorithm

fun toAlgorithmName :: "ddp_algorithm \<Rightarrow> string" where
  "toAlgorithmName SLQ_Algorithm = ''SLQ''"
| "toAlgorithmName ILQR_Algorithm = ''ILQR''"

definition fromAlgorithmName :: "string \<Rightarrow> ddp_algorithm result" where
  "fromAlgorithmName name =
     (let up = map toupper name in
      if up = ''SLQ'' then Inr SLQ_Algorithm else if up = ''ILQR'' then Inr ILQR_Algorithm else Inl (Runtime_Error ''unordered_map::at''))"

record ddp_settings =
  dd_algorithm :: ddp_algorithm
  dd_nThreads :: nat
  dd_threadPriority :: int
  dd_maxNumIterations :: nat
  dd_minRelCost :: scalar
  dd_constraintTolerance :: scalar
  dd_displayInfo :: bool
  dd_displayShortSummary :: bool
  dd_checkNumericalStability :: bool
  dd_debugPrintRollout :: bool
  dd_absTolODE :: scalar
  dd_relTolODE :: scalar
  dd_maxNumStepsPerSecond :: nat
  dd_timeStep :: scalar
  dd_backwardPassIntegratorType :: integrator_type
  dd_constraintPenaltyInitialValue :: scalar
  dd_constraintPenaltyIncreaseRate :: scalar
  dd_preComputeRiccatiTerms :: bool
  dd_useFeedbackPolicy :: bool
  dd_riskSensitiveCoeff :: scalar
  dd_strategy :: search_type
  dd_lineSearch :: line_search_settings
  dd_levenbergMarquardt :: lm_settings

definition default_ddp_settings :: ddp_settings where
  "default_ddp_settings =
     \<lparr>dd_algorithm = SLQ_Algorithm, dd_nThreads = 1, dd_threadPriority = 99, dd_maxNumIterations = 15, dd_minRelCost = 1 / 10 ^ 3,
      dd_constraintTolerance = 1 / 10 ^ 3, dd_displayInfo = False, dd_displayShortSummary = False, dd_checkNumericalStability = True,
      dd_debugPrintRollout = False, dd_absTolODE = 1 / 10 ^ 9, dd_relTolODE = 1 / 10 ^ 6, dd_maxNumStepsPerSecond = 10000,
      dd_timeStep = 1 / 10 ^ 2, dd_backwardPassIntegratorType = ODE45, dd_constraintPenaltyInitialValue = 2,
      dd_constraintPenaltyIncreaseRate = 2, dd_preComputeRiccatiTerms = True, dd_useFeedbackPolicy = False, dd_riskSensitiveCoeff = 0,
      dd_strategy = LINE_SEARCH, dd_lineSearch = default_line_search_settings, dd_levenbergMarquardt = default_lm_settings\<rparr>"

definition basicStrategySettings :: "ddp_settings \<Rightarrow> search_settings" where
  "basicStrategySettings cfg =
     \<lparr>displayInfo = dd_displayInfo cfg, debugPrintRollout = dd_debugPrintRollout cfg, minRelCost = dd_minRelCost cfg,
      constraintTolerance = dd_constraintTolerance cfg\<rparr>"

text \<open>What the constructors check.\<close>

definition check_problem :: "optimal_control_problem \<Rightarrow> unit result" where
  "check_problem p =
     (if \<not> empty_Collection (stateEqualityConstraintPtr p) then Inl (Runtime_Error
        (''[GaussNewtonDDP] DDP does not support intermediate state-only equality constraints (a.k.a. stateEqualityConstraintPtr), instead '' @
         ''use the Lagrangian method!''))
      else if \<not> empty_Collection (preJumpEqualityConstraintPtr p) then Inl (Runtime_Error
        (''[GaussNewtonDDP] DDP does not support prejump equality constraints (a.k.a. preJumpEqualityConstraintPtr), instead use the '' @
         ''Lagrangian method!''))
      else if \<not> empty_Collection (finalEqualityConstraintPtr p) then Inl (Runtime_Error
        (''[GaussNewtonDDP] DDP does not support final equality constraints (a.k.a. finalEqualityConstraintPtr), instead use the Lagrangian '' @
         ''method!''))
      else Inr ())"

section \<open>Containers\<close>

record primal_data =
  pd_primalSolution :: primal_solution
  pd_problemMetrics :: problem_metrics
  pd_modelDataFinalTime :: model_data
  pd_modelDataEventTimes :: "model_data list"
  pd_modelDataTrajectory :: "model_data list"

definition swap_PrimalData :: "primal_data \<Rightarrow> primal_data \<Rightarrow> primal_data \<times> primal_data" where
  "swap_PrimalData a b =
     (let (p, q) = swap_PrimalSolution (pd_primalSolution a) (pd_primalSolution b);
          (m, n) = swap_ProblemMetrics (pd_problemMetrics a) (pd_problemMetrics b) in
      (a\<lparr>pd_primalSolution := p, pd_problemMetrics := m, pd_modelDataFinalTime := pd_modelDataFinalTime b,
         pd_modelDataEventTimes := pd_modelDataEventTimes b, pd_modelDataTrajectory := pd_modelDataTrajectory b\<rparr>,
       b\<lparr>pd_primalSolution := q, pd_problemMetrics := n, pd_modelDataFinalTime := pd_modelDataFinalTime a,
         pd_modelDataEventTimes := pd_modelDataEventTimes a, pd_modelDataTrajectory := pd_modelDataTrajectory a\<rparr>))"

text \<open>The model data of the final time stay.\<close>

definition clear_PrimalData :: "primal_data \<Rightarrow> primal_data" where
  "clear_PrimalData d =
     d\<lparr>pd_primalSolution := clear_PrimalSolution (pd_primalSolution d), pd_problemMetrics := clear_ProblemMetrics (pd_problemMetrics d),
       pd_modelDataEventTimes := [], pd_modelDataTrajectory := []\<rparr>"

record dual_data =
  dc_dualSolution :: dual_solution
  dc_projectedModelDataTrajectory :: "model_data list"
  dc_riccatiModificationTrajectory :: "riccati_modification list"
  dc_valueFunctionTrajectory :: "scalar_quadratic list"

definition swap_DualData :: "dual_data \<Rightarrow> dual_data \<Rightarrow> dual_data \<times> dual_data" where
  "swap_DualData a b =
     (let (d, e) = swap_DualSolution (dc_dualSolution a) (dc_dualSolution b) in
      (a\<lparr>dc_dualSolution := d, dc_projectedModelDataTrajectory := dc_projectedModelDataTrajectory b,
         dc_riccatiModificationTrajectory := dc_riccatiModificationTrajectory b, dc_valueFunctionTrajectory := dc_valueFunctionTrajectory b\<rparr>,
       b\<lparr>dc_dualSolution := e, dc_projectedModelDataTrajectory := dc_projectedModelDataTrajectory a,
         dc_riccatiModificationTrajectory := dc_riccatiModificationTrajectory a, dc_valueFunctionTrajectory := dc_valueFunctionTrajectory a\<rparr>))"

definition clear_DualData :: "dual_data \<Rightarrow> dual_data" where
  "clear_DualData d =
     d\<lparr>dc_dualSolution := clear_DualSolution (dc_dualSolution d), dc_projectedModelDataTrajectory := [],
       dc_riccatiModificationTrajectory := [], dc_valueFunctionTrajectory := []\<rparr>"

lemma swap_PrimalData_eq: "swap_PrimalData a b = (b, a)" for a b :: primal_data
  by (simp add: swap_PrimalData_def swap_PrimalSolution_def swap_ProblemMetrics_def)

lemma swap_DualData_eq: "swap_DualData a b = (b, a)" for a b :: dual_data
  by (simp add: swap_DualData_def swap_DualSolution_def)

section \<open>The penalty of the merit function\<close>

record penalty_coefficients =
  penaltyTol :: scalar
  penaltyCoeff :: scalar

definition initializeConstraintPenalties :: "ddp_settings \<Rightarrow> penalty_coefficients result" where
  "initializeConstraintPenalties cfg =
     bind_result (require (1 < dd_constraintPenaltyInitialValue cfg) Assertion_Failed) (\<lambda>_.
     bind_result (require (1 < dd_constraintPenaltyIncreaseRate cfg) Assertion_Failed) (\<lambda>_.
     Inr \<lparr>penaltyTol = 1 / (dd_constraintPenaltyInitialValue cfg powr (1 / 10)), penaltyCoeff = dd_constraintPenaltyInitialValue cfg\<rparr>))"

definition updateConstraintPenalties :: "ddp_settings \<Rightarrow> scalar \<Rightarrow> penalty_coefficients \<Rightarrow> penalty_coefficients" where
  "updateConstraintPenalties cfg equalityConstraintsSSE c =
     (let c = (if equalityConstraintsSSE < penaltyTol c
               then c\<lparr>penaltyTol := penaltyTol c / penaltyCoeff c powr (9 / 10)\<rparr>
               else let p = penaltyCoeff c * dd_constraintPenaltyIncreaseRate cfg
                    in c\<lparr>penaltyCoeff := p, penaltyTol := penaltyTol c / p powr (1 / 10)\<rparr>)
      in c\<lparr>penaltyTol := max (penaltyTol c) (dd_constraintTolerance cfg)\<rparr>)"

definition calculateRolloutMerit :: "penalty_coefficients \<Rightarrow> performance_index \<Rightarrow> scalar" where
  "calculateRolloutMerit c p =
     pi_cost p + penaltyCoeff c * sqrt (pi_equalityConstraintsSSE p) + pi_equalityLagrangian p + pi_inequalityLagrangian p"

text \<open>The coefficients after a sequence of iterations with the given errors of the equality constraints.\<close>

definition penalties_after :: "ddp_settings \<Rightarrow> scalar list \<Rightarrow> penalty_coefficients \<Rightarrow> penalty_coefficients" where
  "penalties_after cfg errors c = fold (updateConstraintPenalties cfg) errors c"

lemma penalty_step:
  fixes cfg :: ddp_settings and c :: penalty_coefficients and e :: scalar
  assumes "1 < dd_constraintPenaltyIncreaseRate cfg" "1 < penaltyCoeff c" "0 < penaltyTol c"
  defines "c' \<equiv> updateConstraintPenalties cfg e c"
  shows "penaltyCoeff c' = penaltyCoeff c * dd_constraintPenaltyIncreaseRate cfg ^ (if e < penaltyTol c then 0 else 1)"
    "dd_constraintTolerance cfg \<le> penaltyTol c'" "penaltyTol c' < max (penaltyTol c) (dd_constraintTolerance cfg) \<or> penaltyTol c' = dd_constraintTolerance cfg"
    "0 < penaltyTol c'"
proof -
  have p: "1 < penaltyCoeff c * dd_constraintPenaltyIncreaseRate cfg" using assms(1,2) by (simp add: less_1_mult)
  have shrink: "penaltyTol c / q powr r < penaltyTol c \<and> 0 < penaltyTol c / q powr r" if "1 < q" "0 < r" for q r :: real
    using that assms(3) by (simp add: divide_less_eq gr_one_powr)
  show "penaltyCoeff c' = penaltyCoeff c * dd_constraintPenaltyIncreaseRate cfg ^ (if e < penaltyTol c then 0 else 1)"
    by (simp add: c'_def updateConstraintPenalties_def Let_def)
  show "dd_constraintTolerance cfg \<le> penaltyTol c'" "penaltyTol c' < max (penaltyTol c) (dd_constraintTolerance cfg) \<or> penaltyTol c' = dd_constraintTolerance cfg"
      "0 < penaltyTol c'"
    using shrink[OF assms(2), of "9 / 10"] shrink[OF p, of "1 / 10"]
    by (auto simp: c'_def updateConstraintPenalties_def Let_def max_def)
qed

section \<open>The policy that is handed out\<close>

text \<open>One point beyond the requested time is included. A negative index is compared as a large \<open>size_t\<close>.\<close>

definition getRequestedDataLength :: "scalar list \<Rightarrow> scalar \<Rightarrow> nat" where
  "getRequestedDataLength ts time = (let index = upperBoundIndex ts time in index + (if index \<noteq> length ts then 1 else 0))"

definition getRequestedEventDataLength :: "nat list \<Rightarrow> int \<Rightarrow> nat" where
  "getRequestedEventDataLength postEventIndices finalIndex =
     (if finalIndex < 0 then length postEventIndices else upper_bound_nat postEventIndices (nat finalIndex))"

definition getPrimalSolution :: "ddp_settings \<Rightarrow> scalar \<Rightarrow> primal_solution \<Rightarrow> primal_solution \<Rightarrow> primal_solution result" where
  "getPrimalSolution cfg finalTime opt out =
     (let n = getRequestedDataLength (ps_timeTrajectory opt) finalTime;
          ne = getRequestedEventDataLength (ps_postEventIndices opt) (int n - 1) in
      bind_result (vec_range (ps_timeTrajectory opt) 0 n) (\<lambda>ts.
      bind_result (vec_range (ps_stateTrajectory opt) 0 n) (\<lambda>xs.
      bind_result (vec_range (ps_inputTrajectory opt) 0 n) (\<lambda>us.
      bind_result (vec_range (ps_postEventIndices opt) 0 ne) (\<lambda>evs.
      bind_result (if dd_useFeedbackPolicy cfg then
                     bind_result (getLinearController opt) (\<lambda>c.
                     bind_result (concatenate (Linear (LinearController [] [] [])) (Linear c) 0 (int (getRequestedDataLength (lc_timeStamp c) finalTime))) (\<lambda>r.
                     Inr r))
                   else Inr (Feedforward \<lparr>ff_timeStamp = ts, ff_uffArray = us\<rparr>)) (\<lambda>ctrl.
      Inr (out\<lparr>ps_timeTrajectory := ts, ps_stateTrajectory := xs, ps_inputTrajectory := us, ps_postEventIndices := evs,
               ps_controllerPtr := Some ctrl, ps_modeSchedule := ps_modeSchedule opt\<rparr>)))))))"

lemma requested_length:
  assumes "sorted ts"
  shows "getRequestedDataLength ts t \<le> length ts"
    and "ts \<noteq> [] \<Longrightarrow> take (getRequestedDataLength ts t) ts \<noteq> [] \<and>
      (t < last ts \<longrightarrow> t < last (take (getRequestedDataLength ts t) ts)) \<and> (last ts \<le> t \<longrightarrow> getRequestedDataLength ts t = length ts)"
proof -
  have le: "upperBoundIndex ts t \<le> length ts" by (simp add: upperBoundIndex_def length_takeWhile_le)
  then show "getRequestedDataLength ts t \<le> length ts" by (simp add: getRequestedDataLength_def Let_def)
  show "take (getRequestedDataLength ts t) ts \<noteq> [] \<and>
      (t < last ts \<longrightarrow> t < last (take (getRequestedDataLength ts t) ts)) \<and> (last ts \<le> t \<longrightarrow> getRequestedDataLength ts t = length ts)" if ne: "ts \<noteq> []"
  proof (cases "upperBoundIndex ts t = length ts")
    case True
    then have "last ts \<le> t" using ne upper.find_before[OF assms, of "length ts - 1" t] by (simp add: last_conv_nth)
    then show ?thesis using True ne by (simp add: getRequestedDataLength_def Let_def)
  next
    case False
    then have i: "upperBoundIndex ts t < length ts" using le by simp
    then have "t < ts ! upperBoundIndex ts t" using upper.find_after[OF assms, of t "upperBoundIndex ts t"] by simp
    moreover have "ts ! upperBoundIndex ts t \<le> last ts" using assms i ne by (simp add: last_conv_nth sorted_nth_mono)
    moreover have "last (take (Suc (upperBoundIndex ts t)) ts) = ts ! upperBoundIndex ts t" using i by (simp add: take_Suc_conv_app_nth)
    ultimately show ?thesis using i ne by (auto simp: getRequestedDataLength_def Let_def)
  qed
qed

text \<open>A controller cut behind the requested time gives the same inputs up to that time.\<close>

lemma cut_controller:
  assumes "controller_ok (Linear c)" "lc_timeStamp c \<noteq> []" and n: "n = getRequestedDataLength (lc_timeStamp c) finalTime"
  shows "\<exists>r. concatenate (Linear (LinearController [] [] [])) (Linear c) 0 (int n) = Inr (Linear r) \<and> lc_timeStamp r = take n (lc_timeStamp c) \<and>
    controller_ok (Linear r) \<and> (\<forall>t x. t \<le> finalTime \<longrightarrow> computeInput (Linear r) t x = computeInput (Linear c) t x)"
proof -
  note req = requested_length[of "lc_timeStamp c" finalTime]
  have ok: "sorted (lc_timeStamp c)" "length (lc_biasArray c) = length (lc_timeStamp c)" "length (lc_gainArray c) = length (lc_timeStamp c)"
    using assms(1) by simp_all
  have len: "n \<le> length (lc_timeStamp c)" "take n (lc_timeStamp c) \<noteq> []" using req ok assms(2) n by simp_all
  define r where "r = \<lparr>lc_timeStamp = take n (lc_timeStamp c), lc_biasArray = take n (lc_biasArray c),
      lc_deltaBiasArray = (if int n < int (length (lc_deltaBiasArray c)) then take n (lc_deltaBiasArray c) else []),
      lc_gainArray = take n (lc_gainArray c)\<rparr>"
  have conc: "concatenate (Linear (LinearController [] [] [])) (Linear c) 0 (int n) = Inr (Linear r)"
    using len ok by (simp add: lc_concatenate_def LinearController_def vec_range_int_def r_def)
  have r_ok: "controller_ok (Linear r)" using ok by (simp add: r_def sorted_wrt_take)
  have "computeInput (Linear r) t x = computeInput (Linear c) t x" if t: "t \<le> finalTime" for t x
  proof (cases "n = length (lc_timeStamp c)")
    case True
    then show ?thesis using ok by (simp add: r_def lc_computeInput_eq)
  next
    case False
    define b where "b = \<lparr>lc_timeStamp = drop n (lc_timeStamp c), lc_biasArray = drop n (lc_biasArray c), lc_deltaBiasArray = [],
        lc_gainArray = drop n (lc_gainArray c)\<rparr>"
    have b_ok: "controller_ok (Linear b)" using ok by (simp add: b_def sorted_wrt_drop)
    have last: "t \<le> last (take n (lc_timeStamp c))" using req ok assms(2) t n False by fastforce
    define q where "q = c\<lparr>lc_deltaBiasArray := []\<rparr>"
    have "take n (lc_timeStamp c) @ drop n (lc_timeStamp c) = lc_timeStamp c" by simp
    then have "last (take n (lc_timeStamp c)) \<le> hd (drop n (lc_timeStamp c))" "drop n (lc_timeStamp c) \<noteq> []"
      using ok(1) len False by (simp_all add: last_conv_nth hd_drop_conv_nth min_def sorted_nth_mono)
    then have "concatenate (Linear (r\<lparr>lc_deltaBiasArray := []\<rparr>)) (Linear b) 0 (size_controller (Linear b)) = Inr (Linear q)"
      using ok len by (simp add: lc_concatenate_def r_def b_def q_def lc_size_def vec_front_nonempty vec_range_int_def)
    from computeInput_append_left[OF _ b_ok this, of t x] last len r_ok
    have "computeInput (Linear q) t x = computeInput (Linear (r\<lparr>lc_deltaBiasArray := []\<rparr>)) t x" by (simp add: r_def)
    then show ?thesis using ok r_ok by (simp add: q_def lc_computeInput_eq)
  qed
  then show ?thesis using conc r_ok by (auto simp: r_def)
qed

lemma takeWhile_sorted_filter: "sorted_wrt (<) xs \<Longrightarrow> takeWhile (\<lambda>e. e \<le> v) xs = filter (\<lambda>e. e \<le> v) xs" for xs :: "nat list"
proof (induction xs)
  case (Cons a xs)
  then have "\<not> a \<le> v \<Longrightarrow> filter (\<lambda>e. e \<le> v) xs = []" by (fastforce simp: filter_empty_conv)
  then show ?case using Cons by simp
qed simp

text \<open>
  C29. The policy that is handed out covers the requested time when the optimised one does: every trajectory is the same prefix of
  the optimised one, which ends after the requested time or is all of it, the events are those of its nodes, and the controller
  gives, up to the requested time, the inputs of the optimised controller, or of the optimised input trajectory.
\<close>

theorem policy_is_consistent_prefix:
  assumes opt: "sorted (ps_timeTrajectory opt)" "ps_timeTrajectory opt \<noteq> []" "length (ps_stateTrajectory opt) = length (ps_timeTrajectory opt)"
      "length (ps_inputTrajectory opt) = length (ps_timeTrajectory opt)" "sorted_wrt (<) (ps_postEventIndices opt)"
    and ctrl: "ps_controllerPtr opt = Some (Linear c)" "controller_ok (Linear c)" "lc_timeStamp c \<noteq> []"
  shows "\<exists>n p ctrl. getPrimalSolution cfg finalTime opt out = Inr p \<and> 0 < n \<and> n \<le> length (ps_timeTrajectory opt) \<and>
    ps_timeTrajectory p = take n (ps_timeTrajectory opt) \<and> ps_stateTrajectory p = take n (ps_stateTrajectory opt) \<and>
    ps_inputTrajectory p = take n (ps_inputTrajectory opt) \<and> ps_postEventIndices p = filter (\<lambda>e. e < n) (ps_postEventIndices opt) \<and>
    ps_modeSchedule p = ps_modeSchedule opt \<and> (n = length (ps_timeTrajectory opt) \<or> finalTime < last (ps_timeTrajectory p)) \<and>
    ps_controllerPtr p = Some ctrl \<and> controller_ok ctrl \<and>
    (\<forall>t x. t \<le> finalTime \<longrightarrow> computeInput ctrl t x =
       (if dd_useFeedbackPolicy cfg then computeInput (Linear c) t x else interpolate_vector t (ps_timeTrajectory opt) (ps_inputTrajectory opt)))"
proof -
  let ?ts = "ps_timeTrajectory opt"
  define n where "n = getRequestedDataLength ?ts finalTime"
  note req = requested_length[OF opt(1), of finalTime, folded n_def]
  have n: "0 < n" "n \<le> length ?ts" "n = length ?ts \<or> finalTime < last (take n ?ts)" using req opt(2) by fastforce+
  have ne: "getRequestedEventDataLength (ps_postEventIndices opt) (int n - 1) = upper_bound_nat (ps_postEventIndices opt) (n - 1)"
    using n by (simp add: getRequestedEventDataLength_def nat_diff_distrib)
  have evs: "take (upper_bound_nat (ps_postEventIndices opt) (n - Suc 0)) (ps_postEventIndices opt) = filter (\<lambda>e. e < n) (ps_postEventIndices opt)"
  proof -
    have "take (upper_bound_nat (ps_postEventIndices opt) (n - Suc 0)) (ps_postEventIndices opt) = takeWhile (\<lambda>e. e \<le> n - Suc 0) (ps_postEventIndices opt)"
      unfolding upper_bound_nat_def by (rule takeWhile_eq_take[symmetric])
    also have "\<dots> = filter (\<lambda>e. e < n) (ps_postEventIndices opt)" unfolding takeWhile_sorted_filter[OF opt(5)]
      using n(1) by (intro filter_cong) auto
    finally show ?thesis .
  qed
  define handed where "handed k ctrl = out\<lparr>ps_timeTrajectory := take k ?ts, ps_stateTrajectory := take k (ps_stateTrajectory opt),
      ps_inputTrajectory := take k (ps_inputTrajectory opt), ps_postEventIndices := filter (\<lambda>e. e < k) (ps_postEventIndices opt),
      ps_controllerPtr := Some ctrl, ps_modeSchedule := ps_modeSchedule opt\<rparr>" for k ctrl
  show ?thesis
  proof (cases "dd_useFeedbackPolicy cfg")
    case True
    define m where "m = getRequestedDataLength (lc_timeStamp c) finalTime"
    from cut_controller[OF ctrl(2,3) m_def] obtain r where "concatenate (Linear (LinearController [] [] [])) (Linear c) 0 (int m) = Inr (Linear r)" "controller_ok (Linear r)"
        "\<And>t x. t \<le> finalTime \<Longrightarrow> computeInput (Linear r) t x = computeInput (Linear c) t x" by blast
    note r = this
    have "getPrimalSolution cfg finalTime opt out = Inr (handed n (Linear r))"
      using r(1) True ctrl(1) opt(3,4) n(2) ne upper_bound_nat_le[of "ps_postEventIndices opt" "n - Suc 0"]
      by (simp add: getPrimalSolution_def Let_def n_def[symmetric] getLinearController_def m_def[symmetric] handed_def evs del: concatenate.simps)
    then show ?thesis using n r(2,3) True
      by (intro exI[of _ n] exI[of _ "handed n (Linear r)"] exI[of _ "Linear r"]) (simp add: handed_def)
  next
    case False
    have "interpolate_vector t (take n ?ts) (take n (ps_inputTrajectory opt)) = interpolate_vector t ?ts (ps_inputTrajectory opt)" if "t \<le> finalTime" for t
    proof (cases "n = length ?ts")
      case cut: False
      then have "t \<le> last (take n ?ts)" "take n ?ts \<noteq> []" using n that by auto
      then show ?thesis using vectors.at_append_left[of "take n ?ts" "drop n ?ts" "take n (ps_inputTrajectory opt)" "drop n (ps_inputTrajectory opt)" t] opt n
        by (simp add: interpolate_vector_def)
    qed (simp add: opt)
    note same = this
    define ff where "ff = Feedforward \<lparr>ff_timeStamp = take n ?ts, ff_uffArray = take n (ps_inputTrajectory opt)\<rparr>"
    have "getPrimalSolution cfg finalTime opt out = Inr (handed n ff)"
      using False opt n(2) ne upper_bound_nat_le[of "ps_postEventIndices opt" "n - Suc 0"]
      by (simp add: getPrimalSolution_def Let_def n_def[symmetric] handed_def evs ff_def)
    moreover have "controller_ok ff" "computeInput ff t x = interpolate_vector t (take n ?ts) (take n (ps_inputTrajectory opt))" for t x
      using opt by (simp_all add: ff_def sorted_wrt_take ff_computeInput_def)
    ultimately show ?thesis using n same False
      by (intro exI[of _ n] exI[of _ "handed n ff"] exI[of _ ff]) (simp add: handed_def)
  qed
qed

definition example_solution :: primal_solution where
  "example_solution = new_PrimalSolution\<lparr>ps_timeTrajectory := [0, 1, 2], ps_stateTrajectory := [[0], [1], [2]], ps_inputTrajectory := [[5], [6], [7]],
     ps_postEventIndices := [2], ps_controllerPtr := Some (Linear (LinearController [0, 1, 2] [[5], [6], [7]] [[[0]], [[0]], [[0]]]))\<rparr>"

lemma policy_is_consistent_prefix_witness:
  "\<exists>n p ctrl. getPrimalSolution default_ddp_settings (1 / 2) example_solution new_PrimalSolution = Inr p \<and> n \<le> 3 \<and>
     ps_timeTrajectory p = take n [0, 1, 2] \<and> ps_controllerPtr p = Some ctrl \<and>
     (\<forall>t x. t \<le> 1 / 2 \<longrightarrow> computeInput ctrl t x = interpolate_vector t [0, 1, 2] [[5], [6], [7]])"
proof -
  have ex: "ps_timeTrajectory example_solution = [0, 1, 2]" "ps_stateTrajectory example_solution = [[0], [1], [2]]"
      "ps_inputTrajectory example_solution = [[5], [6], [7]]" "ps_postEventIndices example_solution = [2]"
      "ps_controllerPtr example_solution = Some (Linear (LinearController [0, 1, 2] [[5], [6], [7]] [[[0]], [[0]], [[0]]]))"
    by (simp_all add: example_solution_def)
  have opt: "sorted (ps_timeTrajectory example_solution)" "ps_timeTrajectory example_solution \<noteq> []"
      "length (ps_stateTrajectory example_solution) = length (ps_timeTrajectory example_solution)"
      "length (ps_inputTrajectory example_solution) = length (ps_timeTrajectory example_solution)" "sorted_wrt (<) (ps_postEventIndices example_solution)"
    by (simp_all add: ex)
  have ctrl: "controller_ok (Linear (LinearController [0, 1, 2] [[5], [6], [7]] [[[0]], [[0]], [[0]]]))"
      "lc_timeStamp (LinearController [0, 1, 2] [[5], [6], [7]] [[[0]], [[0]], [[0]]]) \<noteq> []" by (simp_all add: LinearController_def)
  have off: "dd_useFeedbackPolicy default_ddp_settings = False" by (simp add: default_ddp_settings_def)
  from policy_is_consistent_prefix[OF opt ex(5) ctrl, of default_ddp_settings "1 / 2" new_PrimalSolution, unfolded off if_False]
  obtain n p k where r: "getPrimalSolution default_ddp_settings (1 / 2) example_solution new_PrimalSolution = Inr p"
      "n \<le> length (ps_timeTrajectory example_solution)" "ps_timeTrajectory p = take n (ps_timeTrajectory example_solution)" "ps_controllerPtr p = Some k"
      "\<And>t x. t \<le> 1 / 2 \<Longrightarrow> computeInput k t x = interpolate_vector t (ps_timeTrajectory example_solution) (ps_inputTrajectory example_solution)"
    by blast
  then show ?thesis unfolding ex by (intro exI[of _ n] exI[of _ p] exI[of _ k]) simp
qed

section \<open>The value function\<close>

definition areSameSize_dmatrix :: "dmatrix \<Rightarrow> dmatrix \<Rightarrow> bool" where
  "areSameSize_dmatrix lhs rhs = (m_rows lhs = m_rows rhs \<and> m_cols lhs = m_cols rhs)"

definition combine_dmatrix :: "scalar \<Rightarrow> dmatrix \<Rightarrow> dmatrix \<Rightarrow> dmatrix" where
  "combine_dmatrix alpha lhs rhs = madd (mscale alpha lhs) (mscale (1 - alpha) rhs)"

definition getValueFunctionImpl :: "scalar \<Rightarrow> vector_t \<Rightarrow> primal_solution \<Rightarrow> scalar_quadratic list \<Rightarrow> scalar_quadratic result" where
  "getValueFunctionImpl time state ps values =
     bind_result (timeSegment time (ps_timeTrajectory ps)) (\<lambda>ia.
     bind_result (interpolate areSameSize_scalar combine_scalar ia values appr_f) (\<lambda>f.
     bind_result (interpolate areSameSize_vector combine_vector ia values dfdx) (\<lambda>g.
     bind_result (interpolate areSameSize_dmatrix combine_dmatrix ia values dfdxx) (\<lambda>S.
     bind_result (interpolate areSameSize_vector combine_vector ia (ps_stateTrajectory ps) (\<lambda>x. x)) (\<lambda>xNominal.
     bind_result (vec_add state (vneg xNominal)) (\<lambda>deltaX.
     bind_result (mat_vmult S deltaX) (\<lambda>SmDeltaX.
     bind_result (bind_result (vec_add (vscale (1 / 2) SmDeltaX) g) (vec_dot deltaX)) (\<lambda>d.
     bind_result (vec_add g SmDeltaX) (\<lambda>g.
     Inr (new_ScalarQuadratic\<lparr>appr_f := f + d, dfdx := g, dfdxx := S\<rparr>))))))))))"

text \<open>The cached primal and dual data, of the previous iteration.\<close>

definition getValueFunctionFromCache :: "primal_data \<Rightarrow> dual_data \<Rightarrow> scalar \<Rightarrow> vector_t \<Rightarrow> scalar_quadratic result" where
  "getValueFunctionFromCache cachedPrimal cachedDual time state =
     getValueFunctionImpl time state (pd_primalSolution cachedPrimal) (dc_valueFunctionTrajectory cachedDual)"

lemma form_mscale: "m_rows A = length x \<Longrightarrow> form (mscale c A) x = c * form A x"
  by (simp add: form_def mv_mscale dot_vscale_right)

lemma combine_vector_eq: "length l = length r \<Longrightarrow> combine_vector a l r = vadd (vscale a l) (vscale (1 - a) r)"
  by (intro nth_equalityI) (simp_all add: combine_vector_def combine_scalar_def vscale_def mult.commute)

lemma combine_triple:
  assumes "value_dims nx (S, v, s)" "value_dims nx (T, w, t)" "length y = nx"
  shows "triple_value (combine_dmatrix a S T, combine_vector a v w, combine_scalar a s t) y = a * triple_value (S, v, s) y + (1 - a) * triple_value (T, w, t) y"
  using assms
  by (simp add: value_dims_def triple_value_def combine_dmatrix_def combine_vector_eq combine_scalar_def form_madd form_mscale dot_algebra dot_comm[of _ y] field_simps)

lemma combine_dims:
  assumes "value_dims nx (S, v, s)" "value_dims nx (T, w, t)"
  shows "value_dims nx (combine_dmatrix a S T, combine_vector a v w, u)"
  using assms by (simp add: value_dims_def combine_dmatrix_def combine_vector_eq symmetric_def madd_def mscale_def)

text \<open>
  The value function at a time and a state is centred at that state. For a trajectory with increasing times and symmetric
  values, the query succeeds, and the function that it returns is, at every deviation from the state, the interpolation of the
  value functions of the two neighbouring nodes at the deviation from the interpolated nominal state.
\<close>

theorem value_function_query:
  assumes ps: "sorted (ps_timeTrajectory ps)" "2 \<le> length (ps_timeTrajectory ps)" "length (ps_stateTrajectory ps) = length (ps_timeTrajectory ps)"
      "\<forall>x \<in> set (ps_stateTrajectory ps). length x = nx"
    and vs: "length values = length (ps_timeTrajectory ps)" "\<forall>q \<in> set values. value_dims nx (value_triple q)" and x: "length state = nx"
  shows "\<exists>i alpha V. timeSegment time (ps_timeTrajectory ps) = Inr (int i, alpha) \<and> getValueFunctionImpl time state ps values = Inr V \<and>
    value_dims nx (value_triple V) \<and>
    (\<forall>y. length y = nx \<longrightarrow>
       (let z = vadd (vadd state (vneg (combine_vector alpha (ps_stateTrajectory ps ! i) (ps_stateTrajectory ps ! Suc i)))) y in
        triple_value (value_triple V) y =
          alpha * triple_value (value_triple (values ! i)) z + (1 - alpha) * triple_value (value_triple (values ! Suc i)) z))"
proof -
  from timeSegment_range[OF ps(1), of time] ps(2) obtain j alpha where j: "timeSegment time (ps_timeTrajectory ps) = Inr (j, alpha)" "0 \<le> j"
      "nat j + 1 < length (ps_timeTrajectory ps)" by auto
  define i where "i = nat j"
  have i: "timeSegment time (ps_timeTrajectory ps) = Inr (int i, alpha)" "Suc i < length (ps_timeTrajectory ps)" "nat (int i + 1) = Suc i"
    using j by (simp_all add: i_def nat_add_distrib)
  obtain S v s where A: "value_triple (values ! i) = (S, v, s)" by (cases "value_triple (values ! i)")
  obtain T w t where B: "value_triple (values ! Suc i) = (T, w, t)" by (cases "value_triple (values ! Suc i)")
  have dims: "value_dims nx (S, v, s)" "value_dims nx (T, w, t)" "length (ps_stateTrajectory ps ! i) = nx" "length (ps_stateTrajectory ps ! Suc i) = nx"
    using vs ps(3,4) i(2) A[symmetric] B[symmetric] by simp_all
  note fields = A[unfolded value_triple_def, simplified] B[unfolded value_triple_def, simplified]
  define xn where "xn = combine_vector alpha (ps_stateTrajectory ps ! i) (ps_stateTrajectory ps ! Suc i)"
  define d where "d = vadd state (vneg xn)"
  define C c where "C = combine_dmatrix alpha S T" "c = combine_vector alpha v w"
  have C: "value_dims nx (C, c, u)" for u using combine_dims[OF dims(1,2)] by (simp add: C_c_def)
  have xn: "length xn = nx" "length d = nx" using dims x by (simp_all add: xn_def d_def combine_vector_eq)
  define V where "V = new_ScalarQuadratic\<lparr>appr_f := combine_scalar alpha s t + dot d (vadd (vscale (1 / 2) (mv C d)) c), dfdx := vadd c (mv C d), dfdxx := C\<rparr>"
  have idx: "vec_at_int xs (int i) = Inr (xs ! i)" "vec_at_int xs (int i + 1) = Inr (xs ! Suc i)" if "length xs = length (ps_timeTrajectory ps)" for xs :: "'z list"
    using that i by simp_all
  have "getValueFunctionImpl time state ps values = Inr V"
    using i(2) ps(3) vs(1) fields dims C[of 0, unfolded value_dims_def] x xn
    by (simp add: getValueFunctionImpl_def i(1) interpolate_def idx areSameSize_scalar_def areSameSize_vector_def areSameSize_dmatrix_def value_dims_def
        xn_def[symmetric] d_def[symmetric] C_c_def[symmetric] mat_checked V_def Let_def i(3))
  moreover have "value_dims nx (value_triple V)" using C[of 0] by (simp add: V_def value_triple_def value_dims_def)
  moreover have "triple_value (value_triple V) y = alpha * triple_value (S, v, s) (vadd d y) + (1 - alpha) * triple_value (T, w, t) (vadd d y)"
    if y: "length y = nx" for y
  proof -
    have "triple_value (value_triple V) y = triple_value (C, c, combine_scalar alpha s t) (vadd d y)"
      using triple_value_vadd[OF C[of "combine_scalar alpha s t"] xn(2) y] C[of 0] y xn(2)
      by (simp add: V_def value_triple_def triple_value_def value_dims_def dot_vadd_right dot_vadd_left dot_vscale_right form_def dot_comm[of c] dot_comm[of "mv C d" y])
    also have "\<dots> = alpha * triple_value (S, v, s) (vadd d y) + (1 - alpha) * triple_value (T, w, t) (vadd d y)"
      unfolding C_c_def using xn(2) by (intro combine_triple[OF dims(1,2)]) simp
    finally show ?thesis .
  qed
  ultimately show ?thesis using i(1) by (intro exI[of _ i] exI[of _ alpha] exI[of _ V]) (simp add: A B d_def xn_def Let_def)
qed

lemma value_function_query_witness:
  "\<exists>V. getValueFunctionImpl (1 / 2) [4] example_solution (replicate 3 (new_ScalarQuadratic\<lparr>dfdxx := Mat 1 1 [[2]], dfdx := [1], appr_f := 5\<rparr>)) = Inr V \<and>
     value_dims 1 (value_triple V)"
  using value_function_query[of example_solution 1 "replicate 3 (new_ScalarQuadratic\<lparr>dfdxx := Mat 1 1 [[2]], dfdx := [1], appr_f := 5\<rparr>)" "[4]" "1 / 2"]
  by (auto simp: example_solution_def value_triple_def value_dims_def symmetric_def)

end
