(* ===== verification/Gauss_Newton_Pass.thy ===== *)
theory Gauss_Newton_Pass
  imports Gauss_Newton_Data
begin

text \<open>
  The three passes of one iteration of \<open>GaussNewtonDDP\<close>: the linear-quadratic approximation of the events and of the final
  time (\<open>approximateOptimalControlProblem\<close>), the Riccati equations over the partitions of the trajectory
  (\<open>solveSequentialRiccatiEquationsImpl\<close>) with the part of iLQR around it, and the controller (\<open>calculateController\<close>).
\<close>

section \<open>The environment\<close>

text \<open>The settings, the problem and the rollouts of the solver, and the numerics that are parameters.\<close>

record ddp_env =
  de_settings :: ddp_settings
  de_problem :: optimal_control_problem
  de_rollout :: rollout_fun
  de_rolloutSettings :: rollout_settings
  de_initializer :: initializer
  de_numerics :: numerics_ops
  de_eigen :: eigen_solver
  de_cholesky :: incomplete_cholesky
  de_junk :: scalar
  de_show :: "scalar \<Rightarrow> string"

section \<open>Approximation of the problem\<close>

definition shift_state_hessian :: "ddp_env \<Rightarrow> model_data \<Rightarrow> model_data result" where
  "shift_state_hessian env md =
     (let ls = dd_lineSearch (de_settings env) in
      if dd_strategy (de_settings env) = LINE_SEARCH then
        bind_result (shiftHessian (de_eigen env) (de_cholesky env) (hessianCorrectionStrategy ls) (dfdxx (md_cost md)) (hessianCorrectionMultiple ls))
          (\<lambda>S. Inr (md\<lparr>md_cost := (md_cost md)\<lparr>dfdxx := S\<rparr>\<rparr>))
      else Inr md)"

definition check_event_model :: "ddp_env \<Rightarrow> scalar \<Rightarrow> vector_t \<Rightarrow> model_data \<Rightarrow> unit result" where
  "check_event_model env time state md =
     (if dd_checkNumericalStability (de_settings env) then
        let errSize = checkSize_ModelData md (int (length state)) 0 in
        if errSize \<noteq> [] then
          Inl (Runtime_Error (''[GaussNewtonDDP::approximateOptimalControlProblem] Mismatch in dimensions at intermediate time: '' @ de_show env time @ line [] @ errSize))
        else bind_result (checkCostProperties (de_numerics env) md) (\<lambda>c.
          let errProperties = checkDynamicsProperties md @ c @ checkConstraintProperties (de_numerics env) md in
          require (errProperties = [])
            (Runtime_Error (''[GaussNewtonDDP::approximateOptimalControlProblem] Ill-posed problem at event time: '' @ de_show env time @ line [] @ errProperties)))
      else Inr ())"

text \<open>The event \<open>i\<close>; a post-event index of zero has no node before it.\<close>

definition event_model :: "ddp_env \<Rightarrow> primal_solution \<Rightarrow> dual_solution \<Rightarrow> nat \<Rightarrow> model_data result" where
  "event_model env ps ds i =
     bind_result (vec_at (ps_postEventIndices ps) i) (\<lambda>p.
     bind_result (vec_at_int (ps_timeTrajectory ps) (int p - 1)) (\<lambda>time.
     bind_result (vec_at_int (ps_stateTrajectory ps) (int p - 1)) (\<lambda>state.
     bind_result (vec_at (ds_preJumps ds) i) (\<lambda>multiplier.
     bind_result (approximatePreJumpLQ (de_junk env) (de_problem env) time state multiplier new_ModelData) (\<lambda>md.
     bind_result (check_event_model env time state md) (\<lambda>_. shift_state_hessian env md))))))"

definition final_model :: "ddp_env \<Rightarrow> primal_solution \<Rightarrow> dual_solution \<Rightarrow> model_data \<Rightarrow> model_data result" where
  "final_model env ps ds old =
     (if ps_timeTrajectory ps = [] then Inr old
      else bind_result (vec_back (ps_stateTrajectory ps)) (\<lambda>state.
        let time = last (ps_timeTrajectory ps) in
        bind_result (approximateFinalLQ (de_junk env) (de_problem env) time state (ds_final ds) new_ModelData) (\<lambda>md.
        bind_result (if dd_checkNumericalStability (de_settings env) then
            bind_result (checkCostProperties (de_numerics env) md) (\<lambda>c.
            let err = c @ checkConstraintProperties (de_numerics env) md in
            require (err = []) (Runtime_Error (''[GaussNewtonDDP::approximateOptimalControlProblem] Ill-posed problem at final time: '' @ de_show env time @ line [] @ err)))
          else Inr ()) (\<lambda>_. shift_state_hessian env md))))"

text \<open>\<open>intermediate\<close> is the virtual \<open>approximateIntermediateLQ\<close>, which returns the trajectory of the model data.\<close>

definition approximateOptimalControlProblem ::
  "ddp_env \<Rightarrow> (dual_solution \<Rightarrow> primal_data \<Rightarrow> model_data list result) \<Rightarrow> dual_data \<Rightarrow> primal_data \<Rightarrow> primal_data result" where
  "approximateOptimalControlProblem env intermediate dd pd =
     bind_result (intermediate (dc_dualSolution dd) pd) (\<lambda>mds.
     bind_result (map_result (event_model env (pd_primalSolution pd) (dc_dualSolution dd)) [0 ..< length (ps_postEventIndices (pd_primalSolution pd))]) (\<lambda>events.
     bind_result (final_model env (pd_primalSolution pd) (dc_dualSolution dd) (pd_modelDataFinalTime pd)) (\<lambda>final.
     Inr (pd\<lparr>pd_modelDataTrajectory := mds, pd_modelDataEventTimes := events, pd_modelDataFinalTime := final\<rparr>))))"

text \<open>The intermediate nodes of iLQR. The flow map itself is not read by the sensitivity discretisation.\<close>

definition ilqr_approximateIntermediateLQ ::
  "ddp_env \<Rightarrow> sensitivity_type \<Rightarrow> (scalar \<Rightarrow> vector_t \<Rightarrow> vector_t \<Rightarrow> vector_t result) \<Rightarrow> dual_solution \<Rightarrow> primal_data \<Rightarrow> model_data list result" where
  "ilqr_approximateIntermediateLQ env discretizer flowMap ds pd =
     (let ps = pd_primalSolution pd; no = (if dd_checkNumericalStability (de_settings env) then Some (de_numerics env) else None) in
      map_result (\<lambda>k.
        bind_result (vec_at (ds_intermediates ds) k) (\<lambda>multiplier.
        bind_result (dynamics_of_problem (de_problem env)) (\<lambda>d.
        ilqr_node_model no (de_show env) discretizer \<lparr>fo_computeFlowMap = flowMap, fo_linearApproximation = dyn_linearApproximation d\<rparr>
          (\<lambda>t x u. approximateIntermediateLQ (de_junk env) (de_problem env) t x u multiplier new_ModelData)
          (ps_timeTrajectory ps) (ps_stateTrajectory ps) (ps_inputTrajectory ps) k)))
        [0 ..< length (ps_timeTrajectory ps)])"

section \<open>The Riccati pass\<close>

definition segment_line :: "ddp_env \<Rightarrow> scalar list \<Rightarrow> scalar_quadratic list \<Rightarrow> nat \<Rightarrow> string" where
  "segment_line env ts values k =
     line (''>>> time: '' @ de_show env (ts ! k)) @ line (''|| Sm ||:'' @ [CHR 0x09] @ de_show env (sqrt (frobenius2 (dfdxx (values ! k))))) @
     line (''|| Sv ||:'' @ [CHR 0x09] @ de_show env (sqrt (squaredNorm (dfdx (values ! k))))) @
     line (''   s    :'' @ [CHR 0x09] @ de_show env (appr_f (values ! k)))"

definition check_value :: "ddp_env \<Rightarrow> scalar list \<Rightarrow> vector_t list \<Rightarrow> scalar_quadratic list \<Rightarrow> nat \<Rightarrow> unit \<Rightarrow> unit result" where
  "check_value env ts xs values k u =
     bind_result (vec_at xs k) (\<lambda>x.
     bind_result (vec_at values k) (\<lambda>V.
     let err = checkSize_ScalarQuadratic (int (length x)) 0 V ''ValueFunction'' in
     if err \<noteq> [] then Inl (Runtime_Error err)
     else bind_result (checkBeingPSD_quadratic (de_numerics env) V ''ValueFunction'') (\<lambda>err.
       require (err = []) (Runtime_Error (line (''at time '' @ de_show env (ts ! k) @ '':'') @ err @
         line ''The error takes place in the following segment of trajectory:'' @
         concat (map (segment_line env ts values) [k ..< min (k + 10) (length ts)]))))))"

text \<open>
  The tasks, one per partition. \<open>worker\<close> is the virtual \<open>riccatiEquationsWorker\<close>; the first iteration of all has one task, the
  later ones take the final values of the partitions from the cache. A trajectory without an interval to partition, or without
  a node, is outside of what the code handles.
\<close>

definition final_values ::
  "(scalar \<Rightarrow> vector_t \<Rightarrow> scalar_quadratic result) \<Rightarrow> scalar list \<Rightarrow> vector_t list \<Rightarrow> (nat \<times> nat) list \<Rightarrow> scalar_quadratic \<Rightarrow> scalar_quadratic list result" where
  "final_values cache ts xs ivs finalV =
     (if ivs = [] then Inl Undefined
      else bind_result (map_result (\<lambda>iv.
             bind_result (vec_at xs (fst iv)) (\<lambda>x. bind_result (vec_at ts (fst iv)) (\<lambda>t. cache t x))) (tl ivs)) (\<lambda>fs.
           Inr (fs @ [finalV])))"

type_synonym riccati_task = "(nat \<times> nat) \<times> scalar_quadratic"

definition riccati_tasks ::
  "ddp_settings \<Rightarrow> nat \<Rightarrow> (scalar \<Rightarrow> vector_t \<Rightarrow> scalar_quadratic result) \<Rightarrow> scalar list \<Rightarrow> vector_t list \<Rightarrow> scalar_quadratic \<Rightarrow> riccati_task list result" where
  "riccati_tasks cfg totalNumIterations cache ts xs finalV =
     (if totalNumIterations = 0 then Inr [((0, length ts - 1), finalV)]
      else bind_result (computePartitionIntervals ts (int (dd_nThreads cfg))) (\<lambda>ivs.
           bind_result (final_values cache ts xs ivs finalV) (\<lambda>fs. Inr (zip ivs fs))))"

definition run_tasks ::
  "(nat \<times> nat \<Rightarrow> scalar_quadratic \<Rightarrow> riccati_store \<Rightarrow> riccati_store result) \<Rightarrow> riccati_task list \<Rightarrow> riccati_store \<Rightarrow> riccati_store result" where
  "run_tasks worker tasks st = fold_result (\<lambda>(iv, V). worker iv V) tasks st"

definition solveSequentialRiccatiEquationsImpl ::
  "ddp_env \<Rightarrow> nat \<Rightarrow> (nat \<times> nat \<Rightarrow> scalar_quadratic \<Rightarrow> riccati_store \<Rightarrow> riccati_store result) \<Rightarrow> (scalar \<Rightarrow> vector_t \<Rightarrow> scalar_quadratic result) \<Rightarrow>
   primal_solution \<Rightarrow> scalar_quadratic \<Rightarrow> riccati_store \<Rightarrow> riccati_store result" where
  "solveSequentialRiccatiEquationsImpl env totalNumIterations worker cache ps finalV st =
     (let ts = ps_timeTrajectory ps; xs = ps_stateTrajectory ps; N = length ts in
      if N = 0 then Inl Undefined
      else let st = st\<lparr>rs_valueFunction := (replicate N new_ScalarQuadratic)[N - 1 := finalV]\<rparr> in
        bind_result (riccati_tasks (de_settings env) totalNumIterations cache ts xs finalV) (\<lambda>tasks.
        bind_result (run_tasks worker tasks st) (\<lambda>st.
        bind_result (if dd_checkNumericalStability (de_settings env) then
            fold_result (check_value env ts xs (rs_valueFunction st)) (rev [0 ..< N]) () else Inr ()) (\<lambda>_.
        Inr st))))"

definition vec_resize :: "nat \<Rightarrow> 'a \<Rightarrow> 'a list \<Rightarrow> 'a list" where
  "vec_resize n d xs = take n xs @ replicate (n - length xs) d"

text \<open>iLQR resizes the trajectories and computes the gains of the last node first. There is one model data per node.\<close>

definition ilqr_solveSequentialRiccatiEquations ::
  "ddp_env \<Rightarrow> riccati_env \<Rightarrow> nat \<Rightarrow> (scalar \<Rightarrow> vector_t \<Rightarrow> scalar_quadratic result) \<Rightarrow> primal_data \<Rightarrow> scalar_quadratic \<Rightarrow> riccati_store \<Rightarrow> riccati_store result" where
  "ilqr_solveSequentialRiccatiEquations env renv totalNumIterations cache pd finalV st =
     (let N = length (ps_timeTrajectory (pd_primalSolution pd)); mds = pd_modelDataTrajectory pd;
          st = st\<lparr>rs_projectedLv := vec_resize N [] (rs_projectedLv st), rs_projectedKm := vec_resize N empty_mat (rs_projectedKm st),
                  rs_riccatiModification := vec_resize N new_RiccatiModification (rs_riccatiModification st),
                  rs_projectedModelData := vec_resize N new_ModelData (rs_projectedModelData st)\<rparr> in
      if N = 0 then Inl Undefined
      else bind_result (terminal_gains renv mds (N - 1) finalV st) (\<lambda>st.
        solveSequentialRiccatiEquationsImpl env totalNumIterations
          (ilqr_riccatiEquationsWorker renv mds (pd_modelDataEventTimes pd) (ps_postEventIndices (pd_primalSolution pd)))
          cache (pd_primalSolution pd) finalV st))"

section \<open>The controller\<close>

text \<open>
  \<open>worker\<close> is the virtual \<open>calculateControllerWorker\<close>. The last node has no step of its own, unless it is a post-event node,
  and takes the gains of the node before. Every entry is finite.
\<close>

definition calculateController :: "(nat \<Rightarrow> linear_gain result) \<Rightarrow> primal_solution \<Rightarrow> linear_controller result" where
  "calculateController worker ps =
     (let ts = ps_timeTrajectory ps; N = length ts in
      bind_result (map_result worker [0 ..< N]) (\<lambda>gs.
      let finalTimeIsNotAnEvent = (ps_postEventIndices ps = [] \<or> last (ps_postEventIndices ps) \<noteq> N - 1);
          gs = (if finalTimeIsNotAnEvent \<and> 2 \<le> N then gs[N - 1 := gs ! (N - 2)] else gs)
      in Inr \<lparr>lc_timeStamp = ts, lc_biasArray = map lg_bias gs, lc_deltaBiasArray = map lg_deltaBias gs, lc_gainArray = map (\<lambda>g. m_data (lg_gain g)) gs\<rparr>))"

end
