(* ===== verification/Parallel_Riccati.thy ===== *)
theory Parallel_Riccati
  imports Gauss_Newton_Pass Ilqr_Optimal
begin

text \<open>
  The tasks of the parallel Riccati pass. A worker of a partition is local: it reads and writes only the entries of its own
  partition. Tasks of disjoint partitions therefore commute. iLQR's worker is such a worker.
\<close>

section \<open>Stores that agree on a partition\<close>

definition same_lengths :: "riccati_store \<Rightarrow> riccati_store \<Rightarrow> bool" where
  "same_lengths st st' =
     (length (rs_projectedLv st') = length (rs_projectedLv st) \<and> length (rs_projectedKm st') = length (rs_projectedKm st) \<and>
      length (rs_projectedModelData st') = length (rs_projectedModelData st) \<and>
      length (rs_riccatiModification st') = length (rs_riccatiModification st) \<and> length (rs_valueFunction st') = length (rs_valueFunction st))"

definition agree :: "nat \<Rightarrow> nat \<Rightarrow> riccati_store \<Rightarrow> riccati_store \<Rightarrow> bool" where
  "agree a b st st' = (same_lengths st st' \<and> (\<forall>k. a \<le> k \<longrightarrow> k < b \<longrightarrow> same_at k st st'))"

lemma same_lengths_refl [simp]: "same_lengths st st"
  by (simp add: same_lengths_def)

lemma same_lengths_sym: "same_lengths st st' \<Longrightarrow> same_lengths st' st"
  by (simp add: same_lengths_def)

lemma same_lengths_trans: "same_lengths st st' \<Longrightarrow> same_lengths st' st'' \<Longrightarrow> same_lengths st st''"
  by (simp add: same_lengths_def)

lemma same_at_refl [simp]: "same_at k st st"
  by (simp add: same_at_def)

lemma same_at_sym: "same_at k st st' \<Longrightarrow> same_at k st' st"
  by (simp add: same_at_def)

lemma agree_sym: "agree a b st st' \<Longrightarrow> agree a b st' st"
  by (simp add: agree_def same_lengths_sym same_at_sym)

lemma agree_trans: "agree a b st st' \<Longrightarrow> agree a b st' st'' \<Longrightarrow> agree a b st st''"
  using same_lengths_trans same_at_trans unfolding agree_def by blast

lemma store_eqI:
  fixes st st' :: riccati_store
  assumes "same_lengths st st'" "\<And>k. same_at k st st'"
  shows "st = st'"
  using assms by (intro riccati_store.equality nth_equalityI) (simp_all add: same_lengths_def same_at_def)

section \<open>Local workers\<close>

type_synonym riccati_worker = "nat \<times> nat \<Rightarrow> scalar_quadratic \<Rightarrow> riccati_store \<Rightarrow> riccati_store result"

locale local_worker =
  fixes worker :: "'p \<Rightarrow> riccati_worker" and valid :: "'p \<Rightarrow> bool"
  assumes frame: "valid p \<Longrightarrow> worker p (a, b) V st = Inr st' \<Longrightarrow> same_lengths st st' \<and> (\<forall>k. k < a \<or> b \<le> k \<longrightarrow> same_at k st st')"
    and agreement: "valid p \<Longrightarrow> agree a b st st2 \<Longrightarrow> worker p (a, b) V st = Inr st' \<Longrightarrow> \<exists>st2'. worker p (a, b) V st2 = Inr st2' \<and> agree a b st' st2'"
begin

text \<open>What a task leaves in its partition, whatever the others do.\<close>

lemma tasks_result:
  assumes p: "valid p" and "run_tasks (worker p) tasks st = Inr st'"
    and "pairwise (\<lambda>s t. snd (fst s) \<le> fst (fst t) \<or> snd (fst t) \<le> fst (fst s)) (set tasks)" "distinct tasks"
  shows "same_lengths st st' \<and> (\<forall>k. (\<forall>t \<in> set tasks. k < fst (fst t) \<or> snd (fst t) \<le> k) \<longrightarrow> same_at k st st') \<and>
    (\<forall>t \<in> set tasks. \<exists>r. worker p (fst t) (snd t) st = Inr r \<and> agree (fst (fst t)) (snd (fst t)) r st')"
  using assms(2-)
proof (induction tasks arbitrary: st)
  case Nil
  then show ?case by (simp add: run_tasks_def)
next
  case (Cons t tasks)
  obtain a b V where t: "t = ((a, b), V)" by (metis surj_pair)
  from Cons.prems(1) obtain st1 where st1: "worker p (a, b) V st = Inr st1" "run_tasks (worker p) tasks st1 = Inr st'"
    by (auto simp: run_tasks_def result_simps t)
  note f = frame[OF p st1(1)]
  have apart: "snd (fst s) \<le> a \<or> b \<le> fst (fst s)" if "s \<in> set tasks" for s
    using Cons.prems(2,3) that by (auto simp: pairwise_def t)
  from Cons.IH[OF st1(2)] Cons.prems(2,3) have ih: "same_lengths st1 st'"
      "\<And>k. (\<forall>s \<in> set tasks. k < fst (fst s) \<or> snd (fst s) \<le> k) \<Longrightarrow> same_at k st1 st'"
      "\<And>s. s \<in> set tasks \<Longrightarrow> \<exists>r. worker p (fst s) (snd s) st1 = Inr r \<and> agree (fst (fst s)) (snd (fst s)) r st'"
    by (auto simp: pairwise_insert)
  have "same_at k st1 st'" if "a \<le> k" "k < b" for k
    using that apart by (intro ih(2)) fastforce
  then have first: "agree a b st1 st'" using ih(1) by (simp add: agree_def)
  have others: "\<exists>r. worker p (fst s) (snd s) st = Inr r \<and> agree (fst (fst s)) (snd (fst s)) r st'" if s: "s \<in> set tasks" for s
  proof -
    obtain c d W where s': "s = ((c, d), W)" by (metis surj_pair)
    from ih(3)[OF s] obtain r where r: "worker p (c, d) W st1 = Inr r" "agree c d r st'" by (auto simp: s')
    have "same_at k st st1" if "c \<le> k" "k < d" for k using f apart[OF s] that by (auto simp: s')
    then have "agree c d st1 st" using f by (simp add: agree_def same_lengths_sym same_at_sym)
    from agreement[OF p this r(1)] obtain r' where "worker p (c, d) W st = Inr r'" "agree c d r r'" by blast
    then show ?thesis using agree_trans[OF agree_sym[of c d r r'] r(2)] by (simp add: s')
  qed
  have "same_at k st st'" if "\<forall>s \<in> set (t # tasks). k < fst (fst s) \<or> snd (fst s) \<le> k" for k
    using that f ih(2)[of k] same_at_trans[of k st st1 st'] by (auto simp: t)
  then show ?case using same_lengths_trans f ih(1) st1(1) first others by (auto simp: t)
qed

lemma tasks_succeed:
  assumes p: "valid p" and "\<And>t. t \<in> set tasks \<Longrightarrow> \<exists>r. worker p (fst t) (snd t) st = Inr r"
    and "pairwise (\<lambda>s t. snd (fst s) \<le> fst (fst t) \<or> snd (fst t) \<le> fst (fst s)) (set tasks)" "distinct tasks"
  shows "\<exists>st'. run_tasks (worker p) tasks st = Inr st'"
  using assms(2-)
proof (induction tasks arbitrary: st)
  case Nil
  then show ?case by (simp add: run_tasks_def)
next
  case (Cons t tasks)
  obtain a b V where t: "t = ((a, b), V)" by (metis surj_pair)
  from Cons.prems(1)[of t] obtain st1 where st1: "worker p (a, b) V st = Inr st1" by (auto simp: t)
  note f = frame[OF p st1]
  have "\<exists>r. worker p (fst s) (snd s) st1 = Inr r" if s: "s \<in> set tasks" for s
  proof -
    obtain c d W where s': "s = ((c, d), W)" by (metis surj_pair)
    from Cons.prems(1)[of s] s obtain r where r: "worker p (c, d) W st = Inr r" by (auto simp: s')
    have "d \<le> a \<or> b \<le> c" using Cons.prems(2,3) s by (auto simp: pairwise_def t s')
    then have "agree c d st st1" using f by (auto simp: agree_def)
    from agreement[OF p this r] show ?thesis by (auto simp: s')
  qed
  then have "\<exists>st'. run_tasks (worker p) tasks st1 = Inr st'" using Cons.prems(2,3) by (intro Cons.IH) (auto simp: pairwise_insert)
  then show ?case using st1 by (auto simp: run_tasks_def t)
qed

lemma tasks_any_order:
  assumes p: "valid p" and run: "run_tasks (worker p) tasks st = Inr st'" and perm: "set tasks' = set tasks" "distinct tasks" "distinct tasks'"
    and apart: "pairwise (\<lambda>s t. snd (fst s) \<le> fst (fst t) \<or> snd (fst t) \<le> fst (fst s)) (set tasks)"
  shows "run_tasks (worker p) tasks' st = Inr st'"
proof -
  note r = tasks_result[OF p run apart perm(2)]
  have "\<exists>st2. run_tasks (worker p) tasks' st = Inr st2" using r perm apart by (intro tasks_succeed[OF p]) auto
  then obtain st2 where st2: "run_tasks (worker p) tasks' st = Inr st2" by blast
  have "pairwise (\<lambda>s t. snd (fst s) \<le> fst (fst t) \<or> snd (fst t) \<le> fst (fst s)) (set tasks')" using apart perm(1) by simp
  note r2 = tasks_result[OF p st2 this perm(3)]
  have "same_at k st' st2" for k
  proof (cases "\<forall>t \<in> set tasks. k < fst (fst t) \<or> snd (fst t) \<le> k")
    case True
    then have "same_at k st st'" "same_at k st st2" using r r2 perm(1) by auto
    then show ?thesis using same_at_trans same_at_sym by blast
  next
    case False
    then obtain t where t: "t \<in> set tasks" "fst (fst t) \<le> k" "k < snd (fst t)" by auto
    then obtain u v where "worker p (fst t) (snd t) st = Inr u" "agree (fst (fst t)) (snd (fst t)) u st'"
        "worker p (fst t) (snd t) st = Inr v" "agree (fst (fst t)) (snd (fst t)) v st2"
      using r r2 perm(1) by blast
    then show ?thesis using t same_at_trans same_at_sym unfolding agree_def by (metis Inr_inject)
  qed
  then have "st' = st2" using r r2 same_lengths_trans same_lengths_sym by (intro store_eqI) blast+
  then show ?thesis using st2 by simp
qed

end

section \<open>The worker of iLQR is local\<close>

lemma riccati_node_local:
  assumes "riccati_node env mds k nxt st = Inr st'"
  shows "same_lengths st st'" "agree a b st st2 \<Longrightarrow> a \<le> k \<Longrightarrow> k < b \<Longrightarrow> \<exists>st2'. riccati_node env mds k nxt st2 = Inr st2' \<and> agree a b st' st2'"
proof -
  from assms obtain old cur pd rm Km Lv V where r: "k < length mds" "k < length (rs_projectedModelData st)" "rs_projectedModelData st ! k = old"
      "k < length (rs_valueFunction st)" "rs_valueFunction st ! k = cur"
      "computeProjectionAndRiccatiModification env ilqr_computeHamiltonianHessian (mds ! k) (dfdxx nxt) old = Inr (pd, rm)"
      "computeMap (re_ldlt env) (re_riccati env) pd rm (dfdx cur) (value_triple nxt) = Inr (Km, Lv, V)"
      "bind_result (put_node k Lv Km pd rm st) (put_value k (set_triple V cur)) = Inr st'"
    unfolding riccati_node_def bind_result_eq_Inr vec_at_eq_Inr split_paired_Ex case_prod_conv by blast
  from r(8) have w: "k < length (rs_projectedLv st)" "k < length (rs_projectedKm st)" "k < length (rs_riccatiModification st)"
      "st' = st\<lparr>rs_projectedLv := (rs_projectedLv st)[k := Lv], rs_projectedKm := (rs_projectedKm st)[k := Km],
        rs_projectedModelData := (rs_projectedModelData st)[k := pd], rs_riccatiModification := (rs_riccatiModification st)[k := rm],
        rs_valueFunction := (rs_valueFunction st)[k := set_triple V cur]\<rparr>"
    by (auto simp: put_node_def put_value_def result_simps)
  show "same_lengths st st'" using w(4) by (simp add: same_lengths_def)
  assume ag: "agree a b st st2" and k: "a \<le> k" "k < b"
  define st2' where "st2' = st2\<lparr>rs_projectedLv := (rs_projectedLv st2)[k := Lv], rs_projectedKm := (rs_projectedKm st2)[k := Km],
        rs_projectedModelData := (rs_projectedModelData st2)[k := pd], rs_riccatiModification := (rs_riccatiModification st2)[k := rm],
        rs_valueFunction := (rs_valueFunction st2)[k := set_triple V cur]\<rparr>"
  have l: "same_lengths st st2" and s: "\<And>j. a \<le> j \<Longrightarrow> j < b \<Longrightarrow> same_at j st st2" using ag by (simp_all add: agree_def)
  have len: "k < length (rs_projectedModelData st2)" "k < length (rs_valueFunction st2)" "k < length (rs_projectedLv st2)" "k < length (rs_projectedKm st2)"
      "k < length (rs_riccatiModification st2)" using l r(2,4) w(1-3) by (simp_all add: same_lengths_def)
  have "rs_projectedModelData st2 ! k = old" "rs_valueFunction st2 ! k = cur" using s[OF k] r(3,5) by (simp_all add: same_at_def)
  then have "riccati_node env mds k nxt st2 = Inr st2'"
    using r(1,6,7) len by (simp add: riccati_node_def put_node_def put_value_def st2'_def)
  moreover have "same_at j st' st2'" if "a \<le> j" "j < b" for j
    using s[OF that] l r(2,4) w(1-3) unfolding w(4) st2'_def
    by (cases "j = k") (simp_all add: same_at_def same_lengths_def)
  then have "agree a b st' st2'" using l unfolding w(4) st2'_def by (simp add: agree_def same_lengths_def)
  ultimately show "\<exists>st2'. riccati_node env mds k nxt st2 = Inr st2' \<and> agree a b st' st2'" by blast
qed

lemma terminal_gains_local:
  assumes "terminal_gains env mds k V st = Inr st'"
  shows "same_lengths st st'" "agree a b st st2 \<Longrightarrow> a \<le> k \<Longrightarrow> k < b \<Longrightarrow> \<exists>st2'. terminal_gains env mds k V st2 = Inr st2' \<and> agree a b st' st2'"
proof -
  from assms obtain old where old: "k < length (rs_projectedModelData st)" "rs_projectedModelData st ! k = old"
    unfolding terminal_gains_def bind_result_eq_Inr vec_at_eq_Inr by blast
  have "\<exists>Lv Km pd rm. put_node k Lv Km pd rm st = Inr st' \<and>
      (\<forall>st2. k < length (rs_projectedModelData st2) \<and> rs_projectedModelData st2 ! k = old \<longrightarrow> terminal_gains env mds k V st2 = put_node k Lv Km pd rm st2)"
    using assms old unfolding terminal_gains_def Let_def bind_result_eq_Inr vec_at_eq_Inr split_paired_Ex case_prod_conv
    by (elim exE conjE) (intro exI conjI, assumption, simp)
  then obtain Lv Km pd rm where r: "put_node k Lv Km pd rm st = Inr st'"
      "\<And>st2. k < length (rs_projectedModelData st2) \<Longrightarrow> rs_projectedModelData st2 ! k = old \<Longrightarrow> terminal_gains env mds k V st2 = put_node k Lv Km pd rm st2"
    by blast
  from r(1) have w: "k < length (rs_projectedLv st)" "k < length (rs_projectedKm st)" "k < length (rs_riccatiModification st)"
      "st' = st\<lparr>rs_projectedLv := (rs_projectedLv st)[k := Lv], rs_projectedKm := (rs_projectedKm st)[k := Km],
        rs_projectedModelData := (rs_projectedModelData st)[k := pd], rs_riccatiModification := (rs_riccatiModification st)[k := rm]\<rparr>"
    by (auto simp: put_node_def result_simps)
  show "same_lengths st st'" using w(4) by (simp add: same_lengths_def)
  assume ag: "agree a b st st2" and k: "a \<le> k" "k < b"
  have l: "same_lengths st st2" and s: "\<And>j. a \<le> j \<Longrightarrow> j < b \<Longrightarrow> same_at j st st2" using ag by (simp_all add: agree_def)
  define st2' where "st2' = st2\<lparr>rs_projectedLv := (rs_projectedLv st2)[k := Lv], rs_projectedKm := (rs_projectedKm st2)[k := Km],
        rs_projectedModelData := (rs_projectedModelData st2)[k := pd], rs_riccatiModification := (rs_riccatiModification st2)[k := rm]\<rparr>"
  have "terminal_gains env mds k V st2 = put_node k Lv Km pd rm st2"
    using l s[OF k] old by (intro r(2)) (simp_all add: same_lengths_def same_at_def)
  also have "\<dots> = Inr st2'" using l w(1-3) old(1) by (simp add: put_node_def st2'_def same_lengths_def)
  finally have "terminal_gains env mds k V st2 = Inr st2'" .
  moreover have "same_at j st' st2'" if "a \<le> j" "j < b" for j
    using s[OF that] l old(1) w(1-3) unfolding w(4) st2'_def
    by (cases "j = k") (simp_all add: same_at_def same_lengths_def)
  then have "agree a b st' st2'" using l unfolding w(4) st2'_def by (simp add: agree_def same_lengths_def)
  ultimately show "\<exists>st2'. terminal_gains env mds k V st2 = Inr st2' \<and> agree a b st' st2'" by blast
qed

lemma put_value_local:
  assumes "put_value k q st = Inr st'"
  shows "same_lengths st st'" "j \<noteq> k \<Longrightarrow> same_at j st st'"
    "agree a b st st2 \<Longrightarrow> a \<le> k \<Longrightarrow> k < b \<Longrightarrow> \<exists>st2'. put_value k q st2 = Inr st2' \<and> agree a b st' st2'"
proof -
  from assms have w: "k < length (rs_valueFunction st)" "st' = st\<lparr>rs_valueFunction := (rs_valueFunction st)[k := q]\<rparr>"
    by (auto simp: put_value_def result_simps)
  show "same_lengths st st'" "j \<noteq> k \<Longrightarrow> same_at j st st'" using w by (simp_all add: same_lengths_def same_at_def)
  assume ag: "agree a b st st2" and k: "a \<le> k" "k < b"
  have l: "same_lengths st st2" and s: "\<And>j. a \<le> j \<Longrightarrow> j < b \<Longrightarrow> same_at j st st2" using ag by (simp_all add: agree_def)
  have "same_at j st' (st2\<lparr>rs_valueFunction := (rs_valueFunction st2)[k := q]\<rparr>)" if "a \<le> j" "j < b" for j
    using s[OF that] l w by (cases "j = k") (simp_all add: same_at_def same_lengths_def)
  then show "\<exists>st2'. put_value k q st2 = Inr st2' \<and> agree a b st' st2'"
    using l w by (auto simp: put_value_def agree_def same_lengths_def)
qed

lemma ilqr_loop_local:
  assumes "ilqr_loop env mds jumps events firstEv (int a) cur ev temp nxt st = Inr st'" "cur < int b"
    and "\<And>i. firstEv \<le> i \<Longrightarrow> i < length events \<Longrightarrow> a < events ! i"
  shows "same_lengths st st' \<and> (\<forall>k. k < a \<or> b \<le> k \<longrightarrow> same_at k st st') \<and>
    (\<forall>st2. agree a b st st2 \<longrightarrow> (\<exists>st2'. ilqr_loop env mds jumps events firstEv (int a) cur ev temp nxt st2 = Inr st2' \<and> agree a b st' st2'))"
  using assms
proof (induction "nat (cur - int a + 1)" arbitrary: cur ev temp nxt st rule: less_induct)
  case less
  show ?case
  proof (cases "cur < int a")
    case True
    then show ?thesis using less.prems(1) by (auto simp: ilqr_loop.simps)
  next
    case False
    define k where "k = nat cur"
    have k: "cur = int k" "a \<le> k" "k < b" using False less.prems(2) by (simp_all add: k_def)
    have a0: "0 \<le> int a" by simp
    note turn = ilqr_loop_turn[OF False a0]
    obtain st1 is_event where st1: "riccati_node env mds k nxt st = Inr st1"
      and b: "(if int firstEv \<le> ev then bind_result (vec_at_int events ev) (\<lambda>e. Inr (cur = int e)) else Inr False) = Inr is_event"
      and len: "k < length (rs_valueFunction st1)"
      and rest: "(if is_event then
          bind_result (require (0 \<le> cur - 1) Undefined) (\<lambda>_.
          bind_result (vec_at_int jumps ev) (\<lambda>jump.
          bind_result (riccatiTransversalityConditions jump (value_triple (rs_valueFunction st1 ! k))) (\<lambda>T.
          bind_result (put_value (nat (cur - 1)) (set_triple T temp) st1) (\<lambda>st.
          bind_result (terminal_gains env mds (nat (cur - 1)) (set_triple T temp) st) (\<lambda>st.
          ilqr_loop env mds jumps events firstEv (int a) (cur - 2) (ev - 1) (set_triple T temp) (set_triple T temp) st)))))
        else ilqr_loop env mds jumps events firstEv (int a) (cur - 1) ev temp (rs_valueFunction st1 ! k) st1) = Inr st'"
      using less.prems(1)[unfolded turn bind_result_eq_Inr vec_at_eq_Inr] unfolding k_def by (elim exE conjE) blast
    note node = riccati_node_local[OF st1]
    have outside: "same_at j st st1" if "j < a \<or> b \<le> j" for j using riccati_node_effect(2)[OF st1, of j] that k by auto
    show ?thesis
    proof (cases is_event)
      case False
      with rest have loop: "ilqr_loop env mds jumps events firstEv (int a) (cur - 1) ev temp (rs_valueFunction st1 ! k) st1 = Inr st'" by simp
      have ih: "same_lengths st1 st' \<and> (\<forall>k. k < a \<or> b \<le> k \<longrightarrow> same_at k st1 st') \<and>
          (\<forall>st2. agree a b st1 st2 \<longrightarrow> (\<exists>st2'. ilqr_loop env mds jumps events firstEv (int a) (cur - 1) ev temp (rs_valueFunction st1 ! k) st2 = Inr st2' \<and> agree a b st' st2'))"
        using less.prems(2,3) k by (intro less.hyps[OF _ loop]) auto
      have "\<exists>st2'. ilqr_loop env mds jumps events firstEv (int a) cur ev temp nxt st2 = Inr st2' \<and> agree a b st' st2'" if ag: "agree a b st st2" for st2
      proof -
        from node(2)[OF ag k(2,3)] obtain st3 where st3: "riccati_node env mds k nxt st2 = Inr st3" "agree a b st1 st3" by blast
        then have "rs_valueFunction st3 ! k = rs_valueFunction st1 ! k" "k < length (rs_valueFunction st3)"
          using k len by (simp_all add: agree_def same_at_def same_lengths_def)
        then show ?thesis using ih st3 b False unfolding turn k_def[symmetric] by simp
      qed
      then show ?thesis using ih node(1) same_lengths_trans outside same_at_trans by blast
    next
      case True
      then have e: "int firstEv \<le> ev" "events ! nat ev = k" "0 \<le> ev" "nat ev < length events"
        using b k by (auto simp: result_simps vec_at_int_def split: if_splits)
      have ka: "a < k" using less.prems(3)[of "nat ev"] e by auto
      then have k1: "nat (cur - 1) = k - 1" "0 \<le> cur - 1" "a \<le> k - 1" "k - 1 < b" using k by simp_all
      from rest True e obtain jump T st2 st3 where T: "vec_at_int jumps ev = Inr jump"
          "riccatiTransversalityConditions jump (value_triple (rs_valueFunction st1 ! k)) = Inr T"
        and st2: "put_value (k - 1) (set_triple T temp) st1 = Inr st2"
        and st3: "terminal_gains env mds (k - 1) (set_triple T temp) st2 = Inr st3"
        and loop: "ilqr_loop env mds jumps events firstEv (int a) (cur - 2) (ev - 1) (set_triple T temp) (set_triple T temp) st3 = Inr st'"
        unfolding k1(1) by (auto simp: bind_result_eq_Inr)
      have ih: "same_lengths st3 st' \<and> (\<forall>k. k < a \<or> b \<le> k \<longrightarrow> same_at k st3 st') \<and>
          (\<forall>st2. agree a b st3 st2 \<longrightarrow> (\<exists>st2'. ilqr_loop env mds jumps events firstEv (int a) (cur - 2) (ev - 1) (set_triple T temp) (set_triple T temp) st2 = Inr st2' \<and>
             agree a b st' st2'))"
        using less.prems(2,3) k by (intro less.hyps[OF _ loop]) auto
      have far: "same_at j st1 st3" if "j < a \<or> b \<le> j" for j
        using put_value_local(2)[OF st2, of j] terminal_gains_effect(2)[OF st3, of j] that k1(3,4) same_at_trans[of j st1 st2 st3] by auto
      have "same_lengths st1 st3" using put_value_local(1)[OF st2] terminal_gains_local(1)[OF st3] same_lengths_trans by blast
      moreover have "\<exists>st2'. ilqr_loop env mds jumps events firstEv (int a) cur ev temp nxt sx = Inr st2' \<and> agree a b st' st2'" if ag: "agree a b st sx" for sx
      proof -
        from node(2)[OF ag k(2,3)] obtain s1 where s1: "riccati_node env mds k nxt sx = Inr s1" "agree a b st1 s1" by blast
        then have v: "rs_valueFunction s1 ! k = rs_valueFunction st1 ! k" "k < length (rs_valueFunction s1)"
          using k len by (simp_all add: agree_def same_at_def same_lengths_def)
        from put_value_local(3)[OF st2 s1(2) k1(3,4)] obtain s2 where s2: "put_value (k - 1) (set_triple T temp) s1 = Inr s2" "agree a b st2 s2" by blast
        from terminal_gains_local(2)[OF st3 s2(2) k1(3,4)] obtain s3 where s3: "terminal_gains env mds (k - 1) (set_triple T temp) s2 = Inr s3" "agree a b st3 s3" by blast
        show ?thesis using ih s1(1) v s2(1) s3 T b True k1(2) unfolding turn k_def[symmetric] k1(1) by simp
      qed
      ultimately show ?thesis using ih node(1) same_lengths_trans outside far same_at_trans by meson
    qed
  qed
qed

lemma ilqr_worker_local:
  assumes "sorted_wrt (<) events" "ilqr_riccatiEquationsWorker renv mds jumps events (a, b) V st = Inr st'"
  shows "same_lengths st st' \<and> (\<forall>k. k < a \<or> b \<le> k \<longrightarrow> same_at k st st') \<and>
    (\<forall>st2. agree a b st st2 \<longrightarrow> (\<exists>st2'. ilqr_riccatiEquationsWorker renv mds jumps events (a, b) V st2 = Inr st2' \<and> agree a b st' st2'))"
proof -
  have "a < events ! i" if "upper_bound_nat events a \<le> i" "i < length events" for i
    using that upper_bound_nat_iff[OF assms(1), of i a] by auto
  from ilqr_loop_local[OF assms(2)[unfolded ilqr_riccatiEquationsWorker_def Let_def fst_conv snd_conv] _ this, of b] show ?thesis
    by (simp add: ilqr_riccatiEquationsWorker_def)
qed

interpretation ilqr_tasks: local_worker
  "\<lambda>(renv, mds, jumps, events). ilqr_riccatiEquationsWorker renv mds jumps events" "\<lambda>(_, _, _, events). sorted_wrt (<) events"
  by unfold_locales (use ilqr_worker_local in \<open>force+\<close>)

section \<open>The tasks of a pass\<close>

lemma chain_apart: "chain a ivs b \<Longrightarrow> distinct ivs \<and> pairwise (\<lambda>s t. snd s \<le> fst t \<or> snd t \<le> fst s) (set ivs)"
proof (induction ivs arbitrary: a)
  case (Cons iv ivs)
  then have c: "fst iv = a" "a < snd iv" "chain (snd iv) ivs b" by auto
  have "snd iv \<le> fst j" if "j \<in> set ivs" for j using chain_inside[OF c(3) that] by simp
  then show ?case using Cons.IH[OF c(3)] c(1,2) by (fastforce simp: pairwise_insert)
qed simp

lemma zip_apart:
  assumes "distinct ivs" "pairwise (\<lambda>s t. snd s \<le> fst t \<or> snd t \<le> fst s) (set ivs)"
  shows "distinct (zip ivs fs) \<and> pairwise (\<lambda>s t. snd (fst s) \<le> fst (fst t) \<or> snd (fst t) \<le> fst (fst s)) (set (zip ivs fs))"
proof -
  have "snd (fst s) \<le> fst (fst t) \<or> snd (fst t) \<le> fst (fst s)" if st: "s \<in> set (zip ivs fs)" "t \<in> set (zip ivs fs)" "s \<noteq> t" for s t
  proof -
    from st(1,2) obtain i j where i: "i < length ivs" "i < length fs" "s = (ivs ! i, fs ! i)" and j: "j < length ivs" "j < length fs" "t = (ivs ! j, fs ! j)"
      by (auto simp: in_set_zip)
    then have "ivs ! i \<noteq> ivs ! j" using st(3) assms(1) nth_eq_iff_index_eq by metis
    then show ?thesis using assms(2) i j unfolding pairwise_def by simp
  qed
  then show ?thesis using distinct_zipI1[OF assms(1)] by (auto simp: pairwise_def)
qed

lemma riccati_tasks_apart:
  assumes "sorted ts" "ts \<noteq> []" "0 < dd_nThreads cfg" "riccati_tasks cfg n cache ts xs finalV = Inr tasks"
  shows "distinct tasks" "pairwise (\<lambda>s t. snd (fst s) \<le> fst (fst t) \<or> snd (fst t) \<le> fst (fst s)) (set tasks)"
proof -
  from partitions_cover[of ts "int (dd_nThreads cfg)"] assms(1-3) obtain ivs where
    ivs: "computePartitionIntervals ts (int (dd_nThreads cfg)) = Inr ivs" "chain 0 ivs (length ts - 1)" by auto
  note z = zip_apart[OF chain_apart[THEN conjunct1, OF ivs(2)] chain_apart[THEN conjunct2, OF ivs(2)]]
  from assms(4) ivs(1) consider "tasks = [((0, length ts - 1), finalV)]" | fs where "tasks = zip ivs fs"
    by (auto simp: riccati_tasks_def result_simps split: if_splits)
  then have "distinct tasks \<and> pairwise (\<lambda>s t. snd (fst s) \<le> fst (fst t) \<or> snd (fst t) \<le> fst (fst s)) (set tasks)"
  proof cases
    case 1
    then show ?thesis by (simp add: pairwise_def)
  next
    case 2
    show ?thesis unfolding 2 by (rule z)
  qed
  then show "distinct tasks" "pairwise (\<lambda>s t. snd (fst s) \<le> fst (fst t) \<or> snd (fst t) \<le> fst (fst s)) (set tasks)" by simp_all
qed

text \<open>
  C30. The parallel Riccati pass of iLQR does not depend on the order in which the workers pick up the partitions. Let the times of
  the trajectory be sorted, let the post-event indices be strictly sorted, and let the tasks be those that
  \<open>solveSequentialRiccatiEquationsImpl\<close> makes for any number of threads. When one order of the tasks ends without an exception,
  every other order does and leaves the same trajectories; and in its partition each task leaves what it leaves
  when it runs alone on the initial trajectories, so no task reads what another one writes.
\<close>

theorem riccati_tasks_any_order:
  assumes "sorted ts" "ts \<noteq> []" "0 < dd_nThreads cfg" and events: "sorted_wrt (<) events"
    and tasks: "riccati_tasks cfg n cache ts xs finalV = Inr tasks" "mset tasks' = mset tasks"
    and run: "run_tasks (ilqr_riccatiEquationsWorker renv mds jumps events) tasks st = Inr st'"
  shows "run_tasks (ilqr_riccatiEquationsWorker renv mds jumps events) tasks' st = Inr st' \<and>
    (\<forall>((first, second), V) \<in> set tasks. \<exists>alone. ilqr_riccatiEquationsWorker renv mds jumps events (first, second) V st = Inr alone \<and>
       (\<forall>k. first \<le> k \<longrightarrow> k < second \<longrightarrow> same_at k alone st'))"
proof
  note apart = riccati_tasks_apart[OF assms(1-3) tasks(1)]
  have "set tasks' = set tasks" "distinct tasks'" using tasks(2) apart(1) mset_eq_setD mset_eq_imp_distinct_iff by metis+
  then show "run_tasks (ilqr_riccatiEquationsWorker renv mds jumps events) tasks' st = Inr st'"
    using ilqr_tasks.tasks_any_order[of "(renv, mds, jumps, events)" tasks st st' tasks'] events run apart by simp
  show "\<forall>((first, second), V) \<in> set tasks. \<exists>alone. ilqr_riccatiEquationsWorker renv mds jumps events (first, second) V st = Inr alone \<and>
       (\<forall>k. first \<le> k \<longrightarrow> k < second \<longrightarrow> same_at k alone st')"
    using ilqr_tasks.tasks_result[of "(renv, mds, jumps, events)" tasks st st'] events run apart by (auto simp: agree_def)
qed

lemma riccati_tasks_witness:
  "\<exists>tasks st'. riccati_tasks (default_ddp_settings\<lparr>dd_nThreads := 2\<rparr>) 1 (\<lambda>_ _. Inr example_final) [0, 2, 3] (replicate 3 [0]) example_final = Inr tasks \<and>
     map fst tasks = [(0, 1), (1, 2)] \<and>
     run_tasks (ilqr_riccatiEquationsWorker example_env (replicate 3 example_node) [example_jump] [1]) (rev tasks) example_store = Inr st'"
proof -
  let ?cfg = "default_ddp_settings\<lparr>dd_nThreads := 2\<rparr>" and ?tasks = "[((0, 1), example_final), ((1, 2), example_final)] :: riccati_task list"
  let ?worker = "ilqr_riccatiEquationsWorker example_env (replicate 3 example_node) [example_jump] [1]"
  have tasks: "riccati_tasks ?cfg 1 (\<lambda>_ _. Inr example_final) [0, 2, 3] (replicate 3 [0]) example_final = Inr ?tasks"
    by code_simp
  have env: "env_ok example_env default_line_search_settings" by (simp add: env_ok_def example_env_def)
  have sized: "store_sized 3 example_store" by (simp add: store_sized_def example_store_def)
  have V: "value_dims 1 (value_triple example_final)"
    using example_dims(2)[of 2 1 5] by (simp add: value_triple_def example_final_def)
  have loop: "\<exists>st'. ilqr_loop example_env (replicate 3 example_node) [example_jump] [1] firstEv (int a) (int b - 1) ev example_final example_final example_store = Inr st'"
    if "b \<le> 3" "ev < 1" for firstEv a b ev
    using ilqr_loop_succeeds[OF env _ _ _ _ _ _ _ _ V sized, where nv = 0 and stop = "int a" and cur = "int b - 1" and ev = ev and mds = "replicate 3 example_node"
        and jumps = "[example_jump]" and events = "[1]" and firstEv = firstEv and temp = example_final] example_node_ok example_jump_ok that by simp blast
  have ok: "\<exists>st'. ?worker (a, b) example_final example_store = Inr st'" if "b \<le> 3" for a b
  proof -
    have "int (upper_bound_nat [1] b) - 1 < 1" by (simp add: upper_bound_nat_def)
    from loop[OF that this] show ?thesis by (simp add: ilqr_riccatiEquationsWorker_def)
  qed
  have "pairwise (\<lambda>s t. snd (fst s) \<le> fst (fst t) \<or> snd (fst t) \<le> fst (fst s)) (set ?tasks)" by (auto simp: pairwise_def)
  moreover have "\<exists>r. ?worker (fst t) (snd t) example_store = Inr r" if "t \<in> set ?tasks" for t
    using that ok[of 1 0] ok[of 2 1] by auto
  ultimately have "\<exists>st'. run_tasks ?worker ?tasks example_store = Inr st'"
    using ilqr_tasks.tasks_succeed[of "(example_env, replicate 3 example_node, [example_jump], [1])" ?tasks example_store] by simp
  then obtain st' where st': "run_tasks ?worker ?tasks example_store = Inr st'" by blast
  have "run_tasks ?worker (rev ?tasks) example_store = Inr st'"
    using riccati_tasks_any_order[OF _ _ _ _ tasks _ st', of "rev ?tasks"] by (simp add: default_ddp_settings_def)
  then show ?thesis using tasks by (intro exI[of _ ?tasks] exI[of _ st']) simp
qed

end
