(* ===== verification/Gauss_Newton_Run.thy ===== *)
theory Gauss_Newton_Run
  imports Parallel_Riccati
begin

text \<open>
  The run of \<open>GaussNewtonDDP\<close>: the initial rollout and the initial dual solution, the iterations and the swaps of the nominal, the
  cached and the optimised data between them, the test of convergence, and \<open>reset\<close>. The virtual functions of the subclass
  and of the search strategy are arguments. The loop of \<open>runImpl\<close> is a partial function: not to return is the value \<open>None\<close>.
\<close>

section \<open>Interfaces and state\<close>

text \<open>
  A search strategy. The run returns what the strategy leaves in the solution and in its own members, and whether it
  accepted the step or threw.
\<close>

record 's search_ops =
  so_run :: "ddp_env \<Rightarrow> search_input \<Rightarrow> scalar \<Rightarrow> (performance_index \<Rightarrow> scalar) \<Rightarrow> search_solution \<Rightarrow> 's \<Rightarrow> (bool result \<times> search_solution \<times> 's) result"
  so_checkConvergence :: "'s \<Rightarrow> bool \<Rightarrow> performance_index \<Rightarrow> performance_index \<Rightarrow> bool"
  so_reset :: "'s \<Rightarrow> 's"

text \<open>What a subclass of \<open>GaussNewtonDDP\<close> overrides.\<close>

type_synonym value_cache = "scalar \<Rightarrow> vector_t \<Rightarrow> scalar_quadratic result"

record 's gn_virtuals =
  gv_approximateIntermediateLQ :: "ddp_env \<Rightarrow> dual_solution \<Rightarrow> primal_data \<Rightarrow> model_data list result"
  gv_solveSequentialRiccatiEquations :: "ddp_env \<Rightarrow> 's \<Rightarrow> nat \<Rightarrow> value_cache \<Rightarrow> primal_data \<Rightarrow> scalar_quadratic \<Rightarrow> riccati_store \<Rightarrow> riccati_store result"
  gv_calculateControllerWorker :: "riccati_store \<Rightarrow> vector_t list \<Rightarrow> vector_t list \<Rightarrow> nat \<Rightarrow> linear_gain result"
  gv_search :: "'s search_ops"

record 's gn_state =
  gn_search :: 's
  gn_nominalDual :: dual_data
  gn_nominalPrimal :: primal_data
  gn_cachedDual :: dual_data
  gn_cachedPrimal :: primal_data
  gn_projectedLv :: "vector_t list"
  gn_projectedKm :: "dmatrix list"
  gn_optimizedDual :: dual_solution
  gn_optimizedPrimal :: primal_solution
  gn_optimizedMetrics :: problem_metrics
  gn_unoptimizedController :: linear_controller
  gn_performanceIndex :: performance_index
  gn_performanceIndexHistory :: "performance_index list"
  gn_penalties :: penalty_coefficients
  gn_avgTimeStepFP :: scalar
  gn_avgTimeStepBP :: scalar
  gn_totalNumIterations :: nat
  gn_initTime :: scalar
  gn_initState :: vector_t
  gn_finalTime :: scalar

text \<open>The trajectories that the Riccati pass writes: members of the dual data and of the subclass.\<close>

definition riccati_store_of :: "'s gn_state \<Rightarrow> riccati_store" where
  "riccati_store_of s =
     \<lparr>rs_projectedLv = gn_projectedLv s, rs_projectedKm = gn_projectedKm s, rs_projectedModelData = dc_projectedModelDataTrajectory (gn_nominalDual s),
      rs_riccatiModification = dc_riccatiModificationTrajectory (gn_nominalDual s), rs_valueFunction = dc_valueFunctionTrajectory (gn_nominalDual s)\<rparr>"

definition set_riccati_store :: "riccati_store \<Rightarrow> 's gn_state \<Rightarrow> 's gn_state" where
  "set_riccati_store st s =
     s\<lparr>gn_projectedLv := rs_projectedLv st, gn_projectedKm := rs_projectedKm st,
       gn_nominalDual := (gn_nominalDual s)\<lparr>dc_projectedModelDataTrajectory := rs_projectedModelData st,
         dc_riccatiModificationTrajectory := rs_riccatiModification st, dc_valueFunctionTrajectory := rs_valueFunction st\<rparr>\<rparr>"

definition gn_reset :: "'s gn_virtuals \<Rightarrow> 's gn_state \<Rightarrow> 's gn_state" where
  "gn_reset virt s =
     s\<lparr>gn_search := so_reset (gv_search virt) (gn_search s), gn_nominalDual := clear_DualData (gn_nominalDual s), gn_nominalPrimal := clear_PrimalData (gn_nominalPrimal s),
       gn_cachedDual := clear_DualData (gn_cachedDual s), gn_cachedPrimal := clear_PrimalData (gn_cachedPrimal s),
       gn_optimizedDual := clear_DualSolution (gn_optimizedDual s), gn_optimizedPrimal := clear_PrimalSolution (gn_optimizedPrimal s),
       gn_optimizedMetrics := clear_ProblemMetrics (gn_optimizedMetrics s), gn_avgTimeStepFP := 0, gn_avgTimeStepBP := 0,
       gn_totalNumIterations := 0, gn_performanceIndexHistory := []\<rparr>"

section \<open>The initial trajectories\<close>

text \<open>The flag, the input solution, which is adjusted in place and loses its controller, and the output solution.\<close>

definition rolloutInitialController ::
  "ddp_env \<Rightarrow> mode_schedule \<Rightarrow> scalar \<Rightarrow> vector_t \<Rightarrow> scalar \<Rightarrow> primal_solution \<Rightarrow> primal_solution \<Rightarrow> (bool \<times> primal_solution \<times> primal_solution) result" where
  "rolloutInitialController env schedule initTime initState finalTime inp out =
     (case ps_controllerPtr inp of
        None \<Rightarrow> Inl Undefined
      | Some ctrl \<Rightarrow>
          if empty_controller ctrl then Inr (False, inp, out)
          else bind_result (getLinearController inp) (\<lambda>c.
            bind_result (trajectorySpread_controller (ps_modeSchedule inp) schedule c) (\<lambda>(status, c).
            let inp = inp\<lparr>ps_controllerPtr := Some (Linear c)\<rparr> in
            if lc_empty c then Inr (False, inp, out)
            else bind_result (vec_back (lc_timeStamp c)) (\<lambda>back.
              let tf = max initTime (min back finalTime) in
              if initTime < tf then
                let ctrlOut = ps_controllerPtr out; out = out\<lparr>ps_controllerPtr := ps_controllerPtr inp\<rparr>; inp = inp\<lparr>ps_controllerPtr := ctrlOut\<rparr> in
                bind_result (rolloutTrajectory (de_rollout env) initTime initState tf out) (\<lambda>(avg, out). Inr (True, inp, out))
              else Inr (False, inp, out)))))"

definition extractInitialTrajectories ::
  "mode_schedule \<Rightarrow> scalar \<Rightarrow> scalar \<Rightarrow> primal_solution \<Rightarrow> primal_solution \<Rightarrow> (bool \<times> primal_solution \<times> primal_solution) result" where
  "extractInitialTrajectories schedule initTime finalTime inp out =
     (if ps_timeTrajectory inp = [] then Inr (False, inp, out)
      else bind_result (trajectorySpread_primal (ps_modeSchedule inp) schedule inp) (\<lambda>(status, inp).
        if ps_timeTrajectory inp = [] then Inr (False, inp, out)
        else let tf = max initTime (min (last (ps_timeTrajectory inp)) finalTime) in
          if initTime < tf then bind_result (extractPrimalSolution (initTime, tf) inp out) (\<lambda>out. Inr (True, inp, out))
          else Inr (False, inp, out)))"

text \<open>
  A last node that is just past an event is taken out, since the initializer starts there anew, with the state after the event
  and a little later in time; its index stays.
\<close>

definition vec_pop_back :: "'a list \<Rightarrow> 'a list result" where
  "vec_pop_back xs = (if xs = [] then Inl Undefined else Inr (butlast xs))"

definition pop_post_event_node :: "scalar \<Rightarrow> scalar \<Rightarrow> primal_solution \<Rightarrow> (scalar \<times> primal_solution) result" where
  "pop_post_event_node initTime finalTime ps =
     (if ps_postEventIndices ps \<noteq> [] \<and> ps_timeTrajectory ps \<noteq> [] \<and> last (ps_postEventIndices ps) = length (ps_timeTrajectory ps) - 1 then
        bind_result (vec_pop_back (ps_timeTrajectory ps)) (\<lambda>ts.
        bind_result (vec_pop_back (ps_stateTrajectory ps)) (\<lambda>xs.
        bind_result (vec_pop_back (ps_inputTrajectory ps)) (\<lambda>us.
        Inr (min (initTime + weakEpsilon) finalTime, ps\<lparr>ps_timeTrajectory := ts, ps_stateTrajectory := xs, ps_inputTrajectory := us\<rparr>))))
      else Inr (initTime, ps))"

definition rolloutInitializer :: "ddp_env \<Rightarrow> scalar \<Rightarrow> vector_t \<Rightarrow> scalar \<Rightarrow> primal_solution \<Rightarrow> primal_solution result" where
  "rolloutInitializer env initTime initState finalTime ps =
     (let ts = ps_timeTrajectory ps; xs = ps_stateTrajectory ps in
      if ts = [] \<or> last ts < finalTime then
        bind_result (pop_post_event_node (if ts = [] then initTime else last ts) finalTime ps) (\<lambda>(t0, ps).
        bind_result (initializer_run (de_rolloutSettings env) (de_initializer env) t0 (if xs = [] then initState else last xs) finalTime (ps_modeSchedule ps)) (\<lambda>(x, d).
        Inr (ps\<lparr>ps_timeTrajectory := ps_timeTrajectory ps @ roTime d,
                ps_postEventIndices := ps_postEventIndices ps @ map (\<lambda>i. i + length (ps_stateTrajectory ps)) (roPostEvents d),
                ps_stateTrajectory := ps_stateTrajectory ps @ roState d, ps_inputTrajectory := ps_inputTrajectory ps @ roInput d\<rparr>)))
      else Inr ps)"

text \<open>Exceptions of the standard library are caught and prefixed.\<close>

definition unstable_rollout :: "'a result \<Rightarrow> 'a result" where
  "unstable_rollout r =
     (case r of Inl (Runtime_Error what) \<Rightarrow> Inl (Runtime_Error (''[GaussNewtonDDP::initializePrimalSolution] the initial rollout is unstable!'' @ line [] @ what)) | _ \<Rightarrow> r)"

text \<open>The primal solution of the nominal data is cleared before; the flag is false when it is purely from the initializer.\<close>

definition initial_primal ::
  "ddp_env \<Rightarrow> mode_schedule \<Rightarrow> scalar \<Rightarrow> vector_t \<Rightarrow> scalar \<Rightarrow> primal_solution \<Rightarrow> primal_solution \<Rightarrow> (bool \<times> primal_solution \<times> primal_solution) result" where
  "initial_primal env schedule initTime initState finalTime optimized cleared =
     unstable_rollout
       (bind_result (rolloutInitialController env schedule initTime initState finalTime optimized (cleared\<lparr>ps_modeSchedule := schedule\<rparr>)) (\<lambda>(ok, opt, out).
        bind_result (if ok then Inr (True, opt, out) else extractInitialTrajectories schedule initTime finalTime opt out) (\<lambda>(ok, opt, out).
        bind_result (rolloutInitializer env initTime initState finalTime out) (\<lambda>out.
        Inr (ok, opt, out)))))"

definition initializePrimalSolution :: "ddp_env \<Rightarrow> mode_schedule \<Rightarrow> 's gn_state \<Rightarrow> (bool \<times> 's gn_state) result" where
  "initializePrimalSolution env schedule s =
     (let nominal = clear_PrimalData (gn_nominalPrimal s) in
      bind_result (initial_primal env schedule (gn_initTime s) (gn_initState s) (gn_finalTime s) (gn_optimizedPrimal s) (pd_primalSolution nominal)) (\<lambda>(ok, opt, out).
      Inr (ok, s\<lparr>gn_optimizedPrimal := opt, gn_nominalPrimal := nominal\<lparr>pd_primalSolution := out\<rparr>\<rparr>)))"

text \<open>The performance index of a trajectory, with the merit of the current penalty.\<close>

definition with_merit :: "penalty_coefficients \<Rightarrow> performance_index \<Rightarrow> performance_index" where
  "with_merit c p = set_merit (calculateRolloutMerit c p) p"

definition initializeDualSolutionAndMetrics :: "ddp_env \<Rightarrow> 's gn_state \<Rightarrow> 's gn_state result" where
  "initializeDualSolutionAndMetrics env s =
     (let ps = pd_primalSolution (gn_nominalPrimal s) in
      bind_result (if ds_timeTrajectory (gn_optimizedDual s) = [] then Inr (gn_optimizedDual s)
                   else bind_result (trajectorySpread_dual (ps_modeSchedule (gn_optimizedPrimal s)) (ps_modeSchedule ps) (gn_optimizedDual s)) (\<lambda>(status, d). Inr d)) (\<lambda>optDual.
      bind_result (initializeDualSolution (de_problem env) ps optDual (dc_dualSolution (gn_nominalDual s))) (\<lambda>ds.
      bind_result (computeRolloutMetrics (de_problem env) ps ds (pd_problemMetrics (gn_nominalPrimal s))) (\<lambda>pm.
      bind_result (computeRolloutPerformanceIndex (ps_timeTrajectory ps) pm) (\<lambda>perf.
      Inr (s\<lparr>gn_optimizedDual := optDual, gn_nominalDual := (gn_nominalDual s)\<lparr>dc_dualSolution := ds\<rparr>,
             gn_nominalPrimal := (gn_nominalPrimal s)\<lparr>pd_problemMetrics := pm\<rparr>, gn_performanceIndex := with_merit (gn_penalties s) perf\<rparr>))))))"

section \<open>One iteration\<close>

text \<open>The uninitialised average time step is only read after a step was accepted.\<close>

definition solution_ref :: "ddp_env \<Rightarrow> 's gn_state \<Rightarrow> search_solution" where
  "solution_ref env s =
     \<lparr>sol_avgTimeStep = de_junk env, sol_dualSolution = gn_optimizedDual s, sol_primalSolution = gn_optimizedPrimal s,
      sol_problemMetrics = gn_optimizedMetrics s, sol_performanceIndex = gn_performanceIndex s\<rparr>"

definition accept_step :: "ddp_env \<Rightarrow> search_solution \<Rightarrow> 's gn_state \<Rightarrow> 's gn_state result" where
  "accept_step env r s =
     bind_result (updateDualSolution (de_problem env) (sol_primalSolution r) (sol_problemMetrics r) (sol_dualSolution r)) (\<lambda>(pm, ds).
     bind_result (computeRolloutPerformanceIndex (ps_timeTrajectory (sol_primalSolution r)) pm) (\<lambda>perf.
     Inr (s\<lparr>gn_avgTimeStepFP := 9 / 10 * gn_avgTimeStepFP s + 1 / 10 * sol_avgTimeStep r, gn_optimizedDual := ds,
            gn_optimizedPrimal := sol_primalSolution r, gn_optimizedMetrics := pm, gn_performanceIndex := with_merit (gn_penalties s) perf\<rparr>)))"

definition reject_step :: "'s gn_state \<Rightarrow> 's gn_state result" where
  "reject_step s =
     bind_result (vec_back (gn_performanceIndexHistory s)) (\<lambda>perf.
     Inr (s\<lparr>gn_optimizedDual := dc_dualSolution (gn_nominalDual s), gn_optimizedPrimal := pd_primalSolution (gn_nominalPrimal s),
            gn_optimizedMetrics := pd_problemMetrics (gn_nominalPrimal s), gn_performanceIndex := perf\<rparr>))"

definition takePrimalDualStep :: "ddp_env \<Rightarrow> 's gn_virtuals \<Rightarrow> mode_schedule \<Rightarrow> scalar \<Rightarrow> 's gn_state \<Rightarrow> 's gn_state result" where
  "takePrimalDualStep env virt schedule lqModelExpectedCost s =
     (let inp = \<lparr>si_timePeriod = (gn_initTime s, gn_finalTime s), si_initState = gn_initState s, si_controller = gn_unoptimizedController s,
                 si_dualSolution = dc_dualSolution (gn_nominalDual s), si_modeSchedule = schedule\<rparr> in
      bind_result (so_run (gv_search virt) env inp lqModelExpectedCost (calculateRolloutMerit (gn_penalties s)) (solution_ref env s) (gn_search s)) (\<lambda>(success, r, m).
      bind_result success (\<lambda>accepted.
      if accepted then accept_step env r (s\<lparr>gn_search := m\<rparr>) else reject_step (s\<lparr>gn_search := m\<rparr>))))"

text \<open>The passes of an iteration, up to the count of the iteration.\<close>

definition gn_iteration :: "ddp_env \<Rightarrow> 's gn_virtuals \<Rightarrow> mode_schedule \<Rightarrow> bool \<Rightarrow> 's gn_state \<Rightarrow> 's gn_state result" where
  "gn_iteration env virt schedule initialSolutionExists s =
     bind_result (approximateOptimalControlProblem env (gv_approximateIntermediateLQ virt env) (gn_nominalDual s) (gn_nominalPrimal s)) (\<lambda>pd.
     let s = s\<lparr>gn_nominalPrimal := pd\<rparr>; ps = pd_primalSolution pd; cache = getValueFunctionFromCache (gn_cachedPrimal s) (gn_cachedDual s) in
     bind_result (gv_solveSequentialRiccatiEquations virt env (gn_search s) (gn_totalNumIterations s) cache pd (md_cost (pd_modelDataFinalTime pd)) (riccati_store_of s)) (\<lambda>st.
     let s = (set_riccati_store st s)\<lparr>gn_avgTimeStepBP := (gn_finalTime s - gn_initTime s) / real (length (ps_timeTrajectory ps))\<rparr> in
     bind_result (calculateController (gv_calculateControllerWorker virt st (ps_stateTrajectory ps) (ps_inputTrajectory ps)) ps) (\<lambda>ctrl.
     let s = s\<lparr>gn_unoptimizedController := ctrl\<rparr> in
     bind_result (if initialSolutionExists then bind_result (vec_front (rs_valueFunction st)) (\<lambda>V. Inr (appr_f V)) else Inr (pi_merit (gn_performanceIndex s))) (\<lambda>lq.
     bind_result (takePrimalDualStep env virt schedule lq s) (\<lambda>s.
     Inr (s\<lparr>gn_totalNumIterations := gn_totalNumIterations s + 1, gn_performanceIndexHistory := gn_performanceIndexHistory s @ [gn_performanceIndex s]\<rparr>))))))"

text \<open>The last two entries of the history.\<close>

definition gn_converged :: "'s gn_virtuals \<Rightarrow> bool \<Rightarrow> 's gn_state \<Rightarrow> bool result" where
  "gn_converged virt initialSolutionExists s =
     (let h = gn_performanceIndexHistory s in
      bind_result (vec_at_int h (int (length h) - 2)) (\<lambda>previous.
      bind_result (vec_back h) (\<lambda>current.
      Inr (so_checkConvergence (gv_search virt) (gn_search s) (\<not> initialSolutionExists) previous current))))"

text \<open>Before the next iteration: the penalties, the nominal data to the cache, the optimised solution to the nominal data.\<close>

definition gn_handover :: "ddp_env \<Rightarrow> 's gn_state \<Rightarrow> 's gn_state" where
  "gn_handover env s =
     (let (nd, cd) = swap_DualData (gn_nominalDual s) (gn_cachedDual s);
          (np, cp) = swap_PrimalData (gn_nominalPrimal s) (gn_cachedPrimal s);
          (od, d) = swap_DualSolution (gn_optimizedDual s) (dc_dualSolution nd);
          (op, p) = swap_PrimalSolution (gn_optimizedPrimal s) (pd_primalSolution np);
          (om, m) = swap_ProblemMetrics (gn_optimizedMetrics s) (pd_problemMetrics np) in
      s\<lparr>gn_penalties := updateConstraintPenalties (de_settings env) (pi_equalityConstraintsSSE (gn_performanceIndex s)) (gn_penalties s),
        gn_nominalDual := nd\<lparr>dc_dualSolution := d\<rparr>, gn_nominalPrimal := np\<lparr>pd_primalSolution := p, pd_problemMetrics := m\<rparr>,
        gn_cachedDual := cd, gn_cachedPrimal := cp, gn_optimizedDual := od, gn_optimizedPrimal := op, gn_optimizedMetrics := om\<rparr>)"

section \<open>The run\<close>

text \<open>\<open>size_t\<close> counters are far from their bound. The test of the limit is an equation, as in the source.\<close>

definition gn_turn :: "ddp_env \<Rightarrow> 's gn_virtuals \<Rightarrow> mode_schedule \<Rightarrow> nat \<Rightarrow> bool \<Rightarrow> 's gn_state \<Rightarrow> (bool \<times> bool \<times> 's gn_state) result" where
  "gn_turn env virt schedule initIteration initialSolutionExists s =
     bind_result (gn_iteration env virt schedule initialSolutionExists s) (\<lambda>s.
     bind_result (gn_converged virt initialSolutionExists s) (\<lambda>isConverged.
     Inr (isConverged, isConverged \<or> gn_totalNumIterations s - initIteration = dd_maxNumIterations (de_settings env), s)))"

partial_function (option) gn_loop ::
  "ddp_env \<Rightarrow> 's gn_virtuals \<Rightarrow> mode_schedule \<Rightarrow> nat \<Rightarrow> bool \<Rightarrow> 's gn_state \<Rightarrow> (bool \<times> 's gn_state) result option" where
  "gn_loop env virt schedule initIteration initialSolutionExists s =
     (case gn_turn env virt schedule initIteration initialSolutionExists s of
        Inl e \<Rightarrow> Some (Inl e)
      | Inr (isConverged, stop, s) \<Rightarrow>
          if stop then Some (Inr (isConverged, s)) else gn_loop env virt schedule initIteration True (gn_handover env s))"

definition gn_setup :: "ddp_env \<Rightarrow> mode_schedule \<Rightarrow> scalar \<Rightarrow> vector_t \<Rightarrow> scalar \<Rightarrow> 's gn_state \<Rightarrow> (bool \<times> 's gn_state) result" where
  "gn_setup env schedule initTime initState finalTime s =
     bind_result (initializeConstraintPenalties (de_settings env)) (\<lambda>penalties.
     let (nd, cd) = swap_DualData (gn_nominalDual s) (gn_cachedDual s);
         (np, cp) = swap_PrimalData (gn_nominalPrimal s) (gn_cachedPrimal s);
         s = s\<lparr>gn_initTime := initTime, gn_initState := initState, gn_finalTime := finalTime, gn_performanceIndexHistory := [], gn_penalties := penalties,
               gn_nominalDual := nd, gn_cachedDual := cd, gn_nominalPrimal := np, gn_cachedPrimal := cp\<rparr> in
     bind_result (initializePrimalSolution env schedule s) (\<lambda>(ok, s).
     bind_result (initializeDualSolutionAndMetrics env s) (\<lambda>s.
     Inr (ok, s\<lparr>gn_performanceIndexHistory := [gn_performanceIndex s]\<rparr>))))"

text \<open>The target trajectories and the mode schedule are those of the reference manager.\<close>

definition gn_runImpl ::
  "ddp_env \<Rightarrow> 's gn_virtuals \<Rightarrow> target_trajectories \<Rightarrow> mode_schedule \<Rightarrow> scalar \<Rightarrow> vector_t \<Rightarrow> scalar \<Rightarrow> 's gn_state \<Rightarrow> (bool \<times> 's gn_state) result option" where
  "gn_runImpl env virt targets schedule initTime initState finalTime s =
     (let env = env\<lparr>de_problem := (de_problem env)\<lparr>targetTrajectoriesPtr := Some targets\<rparr>\<rparr> in
      case gn_setup env schedule initTime initState finalTime s of
        Inl e \<Rightarrow> Some (Inl e)
      | Inr (ok, s') \<Rightarrow> gn_loop env virt schedule (gn_totalNumIterations s) ok s')"

definition gn_runImpl_controller ::
  "ddp_env \<Rightarrow> 's gn_virtuals \<Rightarrow> target_trajectories \<Rightarrow> mode_schedule \<Rightarrow> scalar \<Rightarrow> vector_t \<Rightarrow> scalar \<Rightarrow> controller option \<Rightarrow> 's gn_state \<Rightarrow> (bool \<times> 's gn_state) result option" where
  "gn_runImpl_controller env virt targets schedule initTime initState finalTime external s =
     (case external of
        None \<Rightarrow> gn_runImpl env virt targets schedule initTime initState finalTime s
      | Some (Linear c) \<Rightarrow>
          gn_runImpl env virt targets schedule initTime initState finalTime (s\<lparr>gn_optimizedPrimal := (gn_optimizedPrimal s)\<lparr>ps_controllerPtr := Some (Linear c)\<rparr>\<rparr>)
      | Some _ \<Rightarrow> Some (Inl (Runtime_Error ''[GaussNewtonDDP::run] controller must be a LinearController type!'')))"

definition gn_runImpl_primal ::
  "ddp_env \<Rightarrow> 's gn_virtuals \<Rightarrow> target_trajectories \<Rightarrow> mode_schedule \<Rightarrow> scalar \<Rightarrow> vector_t \<Rightarrow> scalar \<Rightarrow> primal_solution \<Rightarrow> 's gn_state \<Rightarrow> (bool \<times> 's gn_state) result option" where
  "gn_runImpl_primal env virt targets schedule initTime initState finalTime ps s =
     (if (case ps_controllerPtr ps of None \<Rightarrow> False | Some c \<Rightarrow> \<not> empty_controller c) then
        gn_runImpl_controller env virt targets schedule initTime initState finalTime (ps_controllerPtr ps)
          (s\<lparr>gn_optimizedPrimal := (gn_optimizedPrimal s)\<lparr>ps_modeSchedule := ps_modeSchedule ps\<rparr>\<rparr>)
      else case ps_controllerPtr (gn_optimizedPrimal s) of
             None \<Rightarrow> Some (Inl Undefined)
           | Some c \<Rightarrow>
               gn_runImpl env virt targets schedule initTime initState finalTime
                 (s\<lparr>gn_optimizedPrimal := (gn_optimizedPrimal s)\<lparr>ps_controllerPtr := Some (clear_controller c), ps_modeSchedule := ps_modeSchedule ps,
                     ps_timeTrajectory := ps_timeTrajectory ps, ps_postEventIndices := ps_postEventIndices ps,
                     ps_stateTrajectory := ps_stateTrajectory ps, ps_inputTrajectory := ps_inputTrajectory ps\<rparr>\<rparr>))"

section \<open>The subclass iLQR and its search strategy\<close>

text \<open>
  What a run of the line search returns depends on the interleaving of its tasks, so it is an argument here; that every
  interleaving ends with the backtracking step is a property of its own. Its \<open>reset\<close> does nothing.
\<close>

type_synonym line_search_fun =
  "ddp_env \<Rightarrow> line_search_settings \<Rightarrow> search_input \<Rightarrow> (performance_index \<Rightarrow> scalar) \<Rightarrow> search_solution \<Rightarrow> (bool result \<times> search_solution) result"

definition strategy_run ::
  "line_search_fun \<Rightarrow> (search_solution \<Rightarrow> search_solution) \<Rightarrow> ddp_env \<Rightarrow> search_input \<Rightarrow> scalar \<Rightarrow> (performance_index \<Rightarrow> scalar) \<Rightarrow> search_solution \<Rightarrow>
   strategy_state \<Rightarrow> (bool result \<times> search_solution \<times> strategy_state) result" where
  "strategy_run line_search abandoned env inp expectedCost meritFunc sol m =
     (case m of
        Line_Search_State cfg \<Rightarrow> bind_result (line_search env cfg inp meritFunc sol) (\<lambda>(success, r). Inr (success, r, Line_Search_State cfg))
      | Levenberg_State cfg lm \<Rightarrow>
          bind_result (LevenbergMarquardtStrategy_run (basicStrategySettings (de_settings env)) cfg (de_rollout env) (de_problem env) meritFunc abandoned inp expectedCost sol lm)
            (\<lambda>(success, r, lm). Inr (success, r, Levenberg_State cfg lm)))"

definition strategy_checkConvergence :: "search_settings \<Rightarrow> strategy_state \<Rightarrow> bool \<Rightarrow> performance_index \<Rightarrow> performance_index \<Rightarrow> bool" where
  "strategy_checkConvergence base m unreliable previous current =
     (case m of Line_Search_State cfg \<Rightarrow> ls_checkConvergence base previous current
      | Levenberg_State cfg lm \<Rightarrow> lm_checkConvergence base lm unreliable previous current)"

definition strategy_reset :: "strategy_state \<Rightarrow> strategy_state" where
  "strategy_reset m = (case m of Line_Search_State cfg \<Rightarrow> Line_Search_State cfg | Levenberg_State cfg lm \<Rightarrow> Levenberg_State cfg lm_reset)"

definition ilqr_virtuals ::
  "sensitivity_type \<Rightarrow> (scalar \<Rightarrow> vector_t \<Rightarrow> vector_t \<Rightarrow> vector_t result) \<Rightarrow> riccati_env \<Rightarrow> line_search_fun \<Rightarrow> (search_solution \<Rightarrow> search_solution) \<Rightarrow>
   search_settings \<Rightarrow> strategy_state gn_virtuals" where
  "ilqr_virtuals discretizer flowMap renv line_search abandoned base =
     \<lparr>gv_approximateIntermediateLQ = (\<lambda>env. ilqr_approximateIntermediateLQ env discretizer flowMap),
      gv_solveSequentialRiccatiEquations = (\<lambda>env m. ilqr_solveSequentialRiccatiEquations env (renv\<lparr>re_strategy := m\<rparr>)),
      gv_calculateControllerWorker = calculateControllerWorker,
      gv_search = \<lparr>so_run = strategy_run line_search abandoned, so_checkConvergence = strategy_checkConvergence base, so_reset = strategy_reset\<rparr>\<rparr>"

end
