(* ===== verification/Gauss_Newton_Correct.thy ===== *)
theory Gauss_Newton_Correct
  imports Gauss_Newton_Run
begin

text \<open>
  Properties of the run of \<open>GaussNewtonDDP\<close>: it ends within the allowed iterations; the cache that the parallel Riccati pass
  reads holds trajectories of one iteration; a rejected step leaves the solution of the iteration before.
\<close>

section \<open>What the steps leave alone\<close>

lemma swap_parts:
  "swap_DualSolution d e = (e, d)" "swap_PrimalSolution p q = (q, p)" "swap_ProblemMetrics m n = (n, m)"
  for d e :: dual_solution and p q :: primal_solution and m n :: problem_metrics
  by (simp_all add: swap_DualSolution_def swap_PrimalSolution_def swap_ProblemMetrics_def)

lemma gn_handover_eq:
  "gn_handover env s =
     s\<lparr>gn_penalties := updateConstraintPenalties (de_settings env) (pi_equalityConstraintsSSE (gn_performanceIndex s)) (gn_penalties s),
       gn_nominalDual := (gn_cachedDual s)\<lparr>dc_dualSolution := gn_optimizedDual s\<rparr>,
       gn_nominalPrimal := (gn_cachedPrimal s)\<lparr>pd_primalSolution := gn_optimizedPrimal s, pd_problemMetrics := gn_optimizedMetrics s\<rparr>,
       gn_cachedDual := gn_nominalDual s, gn_cachedPrimal := gn_nominalPrimal s, gn_optimizedDual := dc_dualSolution (gn_cachedDual s),
       gn_optimizedPrimal := pd_primalSolution (gn_cachedPrimal s), gn_optimizedMetrics := pd_problemMetrics (gn_cachedPrimal s)\<rparr>"
  by (simp add: gn_handover_def swap_DualData_eq swap_PrimalData_eq swap_parts)

text \<open>A step changes the optimised data, the performance index, the average and the search strategy.\<close>

definition step_frame :: "'s gn_state \<Rightarrow> 's gn_state \<Rightarrow> bool" where
  "step_frame s s' =
     (\<exists>m d p pm perf avg. s' = s\<lparr>gn_search := m, gn_optimizedDual := d, gn_optimizedPrimal := p, gn_optimizedMetrics := pm, gn_performanceIndex := perf,
        gn_avgTimeStepFP := avg\<rparr>)"

lemma takePrimalDualStep_frame:
  assumes "takePrimalDualStep env virt schedule lq s = Inr s'"
  shows "step_frame s s'"
proof -
  from assms obtain accepted r m where
    "(if accepted then accept_step env r (s\<lparr>gn_search := m\<rparr>) else reject_step (s\<lparr>gn_search := m\<rparr>)) = Inr s'"
    unfolding takePrimalDualStep_def Let_def bind_result_eq_Inr split_paired_Ex case_prod_conv by blast
  then consider d p pm perf avg where "s' = s\<lparr>gn_search := m, gn_avgTimeStepFP := avg, gn_optimizedDual := d, gn_optimizedPrimal := p, gn_optimizedMetrics := pm, gn_performanceIndex := perf\<rparr>"
    | d p pm perf where "s' = s\<lparr>gn_search := m, gn_optimizedDual := d, gn_optimizedPrimal := p, gn_optimizedMetrics := pm, gn_performanceIndex := perf\<rparr>"
    by (cases accepted) (auto simp: accept_step_def reject_step_def result_simps)
  then show ?thesis
  proof cases
    case 1
    then show ?thesis unfolding step_frame_def by (intro exI[of _ m] exI[of _ d] exI[of _ p] exI[of _ pm] exI[of _ perf] exI[of _ avg]) simp
  next
    case 2
    then show ?thesis unfolding step_frame_def
      by (intro exI[of _ m] exI[of _ d] exI[of _ p] exI[of _ pm] exI[of _ perf] exI[of _ "gn_avgTimeStepFP s"]) (cases s, simp)
  qed
qed

lemma gn_iteration_parts:
  assumes "gn_iteration env virt schedule ex s = Inr s'"
  obtains pd st ctrl lq s1 s2 where
    "approximateOptimalControlProblem env (gv_approximateIntermediateLQ virt env) (gn_nominalDual s) (gn_nominalPrimal s) = Inr pd"
    "gv_solveSequentialRiccatiEquations virt env (gn_search s) (gn_totalNumIterations s) (getValueFunctionFromCache (gn_cachedPrimal s) (gn_cachedDual s)) pd
       (md_cost (pd_modelDataFinalTime pd)) (riccati_store_of s) = Inr st"
    "s1 = (set_riccati_store st (s\<lparr>gn_nominalPrimal := pd\<rparr>))\<lparr>gn_avgTimeStepBP := (gn_finalTime s - gn_initTime s) / real (length (ps_timeTrajectory (pd_primalSolution pd))),
       gn_unoptimizedController := ctrl\<rparr>"
    "takePrimalDualStep env virt schedule lq s1 = Inr s2" "step_frame s1 s2"
    "s' = s2\<lparr>gn_totalNumIterations := gn_totalNumIterations s2 + 1, gn_performanceIndexHistory := gn_performanceIndexHistory s2 @ [gn_performanceIndex s2]\<rparr>"
proof -
  note that' = that
  from assms obtain pd st ctrl lq s2 where r:
      "approximateOptimalControlProblem env (gv_approximateIntermediateLQ virt env) (gn_nominalDual s) (gn_nominalPrimal s) = Inr pd"
      "gv_solveSequentialRiccatiEquations virt env (gn_search s) (gn_totalNumIterations s) (getValueFunctionFromCache (gn_cachedPrimal s) (gn_cachedDual s)) pd
         (md_cost (pd_modelDataFinalTime pd)) (riccati_store_of s) = Inr st"
      "takePrimalDualStep env virt schedule lq ((set_riccati_store st (s\<lparr>gn_nominalPrimal := pd\<rparr>))\<lparr>gn_avgTimeStepBP := (gn_finalTime s - gn_initTime s) /
         real (length (ps_timeTrajectory (pd_primalSolution pd))), gn_unoptimizedController := ctrl\<rparr>) = Inr s2"
      "s' = s2\<lparr>gn_totalNumIterations := gn_totalNumIterations s2 + 1, gn_performanceIndexHistory := gn_performanceIndexHistory s2 @ [gn_performanceIndex s2]\<rparr>"
    unfolding gn_iteration_def Let_def bind_result_eq_Inr by (auto simp: riccati_store_of_def)
  then show ?thesis using that takePrimalDualStep_frame[OF r(3)] by blast
qed


lemma gn_iteration_counts:
  assumes "gn_iteration env virt schedule ex s = Inr s'"
  shows "gn_totalNumIterations s' = Suc (gn_totalNumIterations s)" "gn_performanceIndexHistory s' = gn_performanceIndexHistory s @ [gn_performanceIndex s']"
    "gn_penalties s' = gn_penalties s" "gn_cachedDual s' = gn_cachedDual s" "gn_cachedPrimal s' = gn_cachedPrimal s"
proof -
  have "gn_totalNumIterations s' = Suc (gn_totalNumIterations s) \<and> gn_performanceIndexHistory s' = gn_performanceIndexHistory s @ [gn_performanceIndex s'] \<and>
      gn_penalties s' = gn_penalties s \<and> gn_cachedDual s' = gn_cachedDual s \<and> gn_cachedPrimal s' = gn_cachedPrimal s"
  proof (rule gn_iteration_parts[OF assms])
    fix pd st ctrl lq s1 s2
    assume s1: "s1 = (set_riccati_store st (s\<lparr>gn_nominalPrimal := pd\<rparr>))\<lparr>gn_avgTimeStepBP := (gn_finalTime s - gn_initTime s) / real (length (ps_timeTrajectory (pd_primalSolution pd))),
       gn_unoptimizedController := ctrl\<rparr>"
      and fr: "step_frame s1 s2"
      and s': "s' = s2\<lparr>gn_totalNumIterations := gn_totalNumIterations s2 + 1, gn_performanceIndexHistory := gn_performanceIndexHistory s2 @ [gn_performanceIndex s2]\<rparr>"
    from fr obtain m d p pm perf a where s2: "s2 = s1\<lparr>gn_search := m, gn_optimizedDual := d, gn_optimizedPrimal := p, gn_optimizedMetrics := pm,
        gn_performanceIndex := perf, gn_avgTimeStepFP := a\<rparr>" unfolding step_frame_def by (elim exE)
    show ?thesis unfolding s' s2 s1 by (simp add: set_riccati_store_def)
  qed
  then show "gn_totalNumIterations s' = Suc (gn_totalNumIterations s)" "gn_performanceIndexHistory s' = gn_performanceIndexHistory s @ [gn_performanceIndex s']"
      "gn_penalties s' = gn_penalties s" "gn_cachedDual s' = gn_cachedDual s" "gn_cachedPrimal s' = gn_cachedPrimal s"
    by simp_all
qed

lemma gn_turn_eq:
  "(gn_turn env virt schedule init ex s = Inr (c, stop, s')) =
   (gn_iteration env virt schedule ex s = Inr s' \<and> gn_converged virt ex s' = Inr c \<and> stop = (c \<or> gn_totalNumIterations s' - init = dd_maxNumIterations (de_settings env)))"
  by (auto simp: gn_turn_def result_simps)

lemma gn_handover_counts [simp]:
  "gn_totalNumIterations (gn_handover env s) = gn_totalNumIterations s" "gn_performanceIndexHistory (gn_handover env s) = gn_performanceIndexHistory s"
  "gn_penalties (gn_handover env s) = updateConstraintPenalties (de_settings env) (pi_equalityConstraintsSSE (gn_performanceIndex s)) (gn_penalties s)"
  by (simp_all add: gn_handover_eq)

section \<open>The loop ends\<close>

lemma gn_loop_returns:
  assumes "init \<le> gn_totalNumIterations s" "gn_totalNumIterations s - init < dd_maxNumIterations (de_settings env)"
  shows "\<exists>r. gn_loop env virt schedule init ex s = Some r"
  using assms
proof (induction "dd_maxNumIterations (de_settings env) - (gn_totalNumIterations s - init)" arbitrary: s ex rule: less_induct)
  case less
  show ?case
  proof (cases "gn_turn env virt schedule init ex s")
    case (Inl e)
    then show ?thesis by (simp add: gn_loop.simps)
  next
    case (Inr t)
    obtain c stop s' where t: "t = (c, stop, s')" by (metis prod_cases3)
    note turn = Inr[unfolded t gn_turn_eq]
    show ?thesis
    proof (cases stop)
      case True
      then show ?thesis using Inr t by (simp add: gn_loop.simps)
    next
      case False
      then have "\<exists>r. gn_loop env virt schedule init True (gn_handover env s') = Some r"
        using turn gn_iteration_counts(1)[of env virt schedule ex s s'] less.prems by (intro less.hyps) auto
      then show ?thesis using Inr t False by (subst gn_loop.simps) simp
    qed
  qed
qed

text \<open>How the state where the loop ends is related to the state where it began.\<close>

definition loop_result :: "ddp_env \<Rightarrow> nat \<Rightarrow> 's gn_state \<Rightarrow> bool \<Rightarrow> 's gn_state \<Rightarrow> bool" where
  "loop_result env init s c s' =
     (\<exists>new. new \<noteq> [] \<and> gn_performanceIndexHistory s' = gn_performanceIndexHistory s @ new \<and> gn_totalNumIterations s' = gn_totalNumIterations s + length new \<and>
        last new = gn_performanceIndex s' \<and>
        gn_penalties s' = penalties_after (de_settings env) (map pi_equalityConstraintsSSE (butlast new)) (gn_penalties s) \<and>
        (c \<or> gn_totalNumIterations s' - init = dd_maxNumIterations (de_settings env)) \<and>
        (gn_totalNumIterations s - init < dd_maxNumIterations (de_settings env) \<longrightarrow> gn_totalNumIterations s' - init \<le> dd_maxNumIterations (de_settings env)))"

lemma gn_loop_result:
  assumes "gn_loop env virt schedule init ex s = Some y"
  shows "init \<le> gn_totalNumIterations s \<longrightarrow> (\<forall>c s'. y = Inr (c, s') \<longrightarrow> loop_result env init s c s')"
proof -
  let ?P = "\<lambda>env (virt :: 'a gn_virtuals) schedule init ex s y. init \<le> gn_totalNumIterations s \<longrightarrow> (\<forall>c s'. y = Inr (c, s') \<longrightarrow> loop_result env init s c s')"
  show ?thesis
  proof (rule gn_loop.raw_induct[where P = ?P, OF _ assms])
    fix loop env and virt :: "'a gn_virtuals" and schedule init ex s and y :: "(bool \<times> 'a gn_state) result"
    assume IH: "\<And>env virt schedule init ex s y. loop env virt schedule init ex s = Some y \<Longrightarrow> ?P env virt schedule init ex s y"
      and body: "(case gn_turn env virt schedule init ex s of Inl e \<Rightarrow> Some (Inl e)
        | Inr (isConverged, stop, s) \<Rightarrow> if stop then Some (Inr (isConverged, s)) else loop env virt schedule init True (gn_handover env s)) = Some y"
    show "?P env virt schedule init ex s y"
  proof (intro impI allI)
    fix c s' assume le: "init \<le> gn_totalNumIterations s" and y: "y = Inr (c, s')"
    from body y obtain c1 stop s1 where turn: "gn_turn env virt schedule init ex s = Inr (c1, stop, s1)"
      and rest: "(if stop then Some (Inr (c1, s1)) else loop env virt schedule init True (gn_handover env s1)) = Some (Inr (c, s'))"
      by (auto split: sum.splits prod.splits)
    note t = turn[unfolded gn_turn_eq] and counts = gn_iteration_counts[OF turn[unfolded gn_turn_eq, THEN conjunct1]]
    show "loop_result env init s c s'"
    proof (cases stop)
      case True
      then show ?thesis using rest t counts unfolding loop_result_def by (intro exI[of _ "[gn_performanceIndex s1]"]) (auto simp: penalties_after_def)
    next
      case False
      then have "loop env virt schedule init True (gn_handover env s1) = Some (Inr (c, s'))" using rest by simp
      from IH[OF this] have "loop_result env init (gn_handover env s1) c s'" using le counts(1) by simp
      then obtain new where new: "new \<noteq> []" "gn_performanceIndexHistory s' = gn_performanceIndexHistory s1 @ new"
          "gn_totalNumIterations s' = gn_totalNumIterations s1 + length new" "last new = gn_performanceIndex s'"
          "gn_penalties s' = penalties_after (de_settings env) (map pi_equalityConstraintsSSE (butlast new)) (gn_penalties (gn_handover env s1))"
          "c \<or> gn_totalNumIterations s' - init = dd_maxNumIterations (de_settings env)"
          "gn_totalNumIterations s1 - init < dd_maxNumIterations (de_settings env) \<longrightarrow> gn_totalNumIterations s' - init \<le> dd_maxNumIterations (de_settings env)"
        by (auto simp: loop_result_def)
      show ?thesis unfolding loop_result_def
        by (rule exI[of _ "gn_performanceIndex s1 # new"]) (use new counts t False le in \<open>auto simp: penalties_after_def\<close>)
    qed
    qed
  qed
qed


lemma initial_penalties:
  "initializeConstraintPenalties cfg = Inr p \<Longrightarrow>
   1 < dd_constraintPenaltyIncreaseRate cfg \<and> penaltyCoeff p = dd_constraintPenaltyInitialValue cfg \<and> 1 < penaltyCoeff p \<and> 0 < penaltyTol p"
  by (auto simp: initializeConstraintPenalties_def result_simps)

lemma penalties_after_bounds:
  assumes "1 < dd_constraintPenaltyIncreaseRate cfg" "1 < penaltyCoeff c" "0 < penaltyTol c"
  shows "penaltyCoeff c \<le> penaltyCoeff (penalties_after cfg errors c) \<and>
    penaltyCoeff (penalties_after cfg errors c) \<le> penaltyCoeff c * dd_constraintPenaltyIncreaseRate cfg ^ length errors"
  using assms
proof (induction errors arbitrary: c)
  case Nil
  then show ?case by (simp add: penalties_after_def)
next
  case (Cons e es)
  let ?r = "dd_constraintPenaltyIncreaseRate cfg" and ?c = "updateConstraintPenalties cfg e c"
  note step = penalty_step[OF Cons.prems, of e]
  have c: "penaltyCoeff c \<le> penaltyCoeff ?c" "penaltyCoeff ?c \<le> penaltyCoeff c * ?r" using step(1) Cons.prems(1,2) by auto
  then have ih: "penaltyCoeff ?c \<le> penaltyCoeff (penalties_after cfg es ?c)" "penaltyCoeff (penalties_after cfg es ?c) \<le> penaltyCoeff ?c * ?r ^ length es"
    using Cons.IH[OF Cons.prems(1), of ?c] step(4) Cons.prems(2) by auto
  have "penaltyCoeff ?c * ?r ^ length es \<le> penaltyCoeff c * ?r * ?r ^ length es"
    using c(2) Cons.prems(1) by (intro mult_right_mono) simp_all
  then show ?case using c(1) ih by (simp add: penalties_after_def)
qed

lemma gn_setup_counts:
  assumes "gn_setup env schedule t0 x0 tf s = Inr (ok, s')"
  shows "gn_totalNumIterations s' = gn_totalNumIterations s \<and> length (gn_performanceIndexHistory s') = 1 \<and>
    initializeConstraintPenalties (de_settings env) = Inr (gn_penalties s') \<and> gn_cachedDual s' = gn_nominalDual s \<and> gn_cachedPrimal s' = gn_nominalPrimal s"
  using assms by (auto simp: gn_setup_def initializePrimalSolution_def initializeDualSolutionAndMetrics_def Let_def result_simps swap_DualData_eq swap_PrimalData_eq)

text \<open>
  C31. A run of the solver ends within the allowed number of iterations, which is at least one, with a result or an exception, whatever the
  problem, the subclass and the search strategy do. When it ends without an exception it has done at least one iteration, it
  has an entry of the history for the initial rollout and for each iteration, the last of them the index that it reports, it
  stopped because the strategy found it converged or because the iterations are used up, and the penalty of the merit lies between
  its initial value and that value times the rate to the number of updates. A limit of zero iterations is no limit: the
  run then ends only when converged.
\<close>

theorem gn_run_ends:
  "let run = gn_runImpl env virt targets schedule initTime initState finalTime s; limit = dd_maxNumIterations (de_settings env) in
   (1 \<le> limit \<longrightarrow> (\<exists>r. run = Some r)) \<and>
   (\<forall>converged s'. run = Some (Inr (converged, s')) \<longrightarrow>
      (\<exists>n. 1 \<le> n \<and> (1 \<le> limit \<longrightarrow> n \<le> limit) \<and> (converged \<or> n = limit) \<and> gn_totalNumIterations s' = gn_totalNumIterations s + n \<and>
         length (gn_performanceIndexHistory s') = n + 1 \<and> last (gn_performanceIndexHistory s') = gn_performanceIndex s' \<and>
         dd_constraintPenaltyInitialValue (de_settings env) \<le> penaltyCoeff (gn_penalties s') \<and>
         penaltyCoeff (gn_penalties s') \<le> dd_constraintPenaltyInitialValue (de_settings env) * dd_constraintPenaltyIncreaseRate (de_settings env) ^ (n - 1)))"
  unfolding Let_def
proof (intro conjI impI allI)
  define run where "run = gn_runImpl env virt targets schedule initTime initState finalTime s"
  define limit where "limit = dd_maxNumIterations (de_settings env)"
  define env' where "env' = env\<lparr>de_problem := (de_problem env)\<lparr>targetTrajectoriesPtr := Some targets\<rparr>\<rparr>"
  have settings: "de_settings env' = de_settings env" by (simp add: env'_def)
  have run: "run = (case gn_setup env' schedule initTime initState finalTime s of Inl e \<Rightarrow> Some (Inl e)
      | Inr (ok, s') \<Rightarrow> gn_loop env' virt schedule (gn_totalNumIterations s) ok s')"
    unfolding run_def gn_runImpl_def Let_def env'_def ..
  show "\<exists>r. gn_runImpl env virt targets schedule initTime initState finalTime s = Some r" if "1 \<le> dd_maxNumIterations (de_settings env)"
  proof (cases "gn_setup env' schedule initTime initState finalTime s")
    case (Inr p)
    obtain ok s' where p: "p = (ok, s')" by (cases p)
    then show ?thesis using Inr gn_setup_counts[OF Inr[unfolded p]] gn_loop_returns[of "gn_totalNumIterations s" s' env' virt schedule ok] that
      by (simp add: run[unfolded run_def] settings)
  qed (simp add: run[unfolded run_def])
  fix converged s' assume "gn_runImpl env virt targets schedule initTime initState finalTime s = Some (Inr (converged, s'))"
  then have r: "run = Some (Inr (converged, s'))" by (simp add: run_def)
  then obtain ok s1 where s1: "gn_setup env' schedule initTime initState finalTime s = Inr (ok, s1)"
      "gn_loop env' virt schedule (gn_totalNumIterations s) ok s1 = Some (Inr (converged, s'))"
    by (auto simp: run split: sum.splits)
  note begun = gn_setup_counts[OF s1(1)]
  from gn_loop_result[OF s1(2)] begun obtain new where new: "new \<noteq> []" "gn_performanceIndexHistory s' = gn_performanceIndexHistory s1 @ new"
      "gn_totalNumIterations s' = gn_totalNumIterations s1 + length new" "last new = gn_performanceIndex s'"
      "gn_penalties s' = penalties_after (de_settings env) (map pi_equalityConstraintsSSE (butlast new)) (gn_penalties s1)"
      "converged \<or> gn_totalNumIterations s' - gn_totalNumIterations s = limit"
      "gn_totalNumIterations s1 - gn_totalNumIterations s < limit \<longrightarrow> gn_totalNumIterations s' - gn_totalNumIterations s \<le> limit"
    by (auto simp: loop_result_def settings limit_def)
  have "1 < dd_constraintPenaltyIncreaseRate (de_settings env)" "penaltyCoeff (gn_penalties s1) = dd_constraintPenaltyInitialValue (de_settings env)"
      "1 < penaltyCoeff (gn_penalties s1)" "0 < penaltyTol (gn_penalties s1)"
    using initial_penalties[of "de_settings env" "gn_penalties s1"] begun by (simp_all add: settings)
  note bounds = penalties_after_bounds[OF this(1,3,4), of "map pi_equalityConstraintsSSE (butlast new)"] this(2)
  show "\<exists>n. 1 \<le> n \<and> (1 \<le> dd_maxNumIterations (de_settings env) \<longrightarrow> n \<le> dd_maxNumIterations (de_settings env)) \<and> (converged \<or> n = dd_maxNumIterations (de_settings env)) \<and>
         gn_totalNumIterations s' = gn_totalNumIterations s + n \<and>
         length (gn_performanceIndexHistory s') = n + 1 \<and> last (gn_performanceIndexHistory s') = gn_performanceIndex s' \<and>
         dd_constraintPenaltyInitialValue (de_settings env) \<le> penaltyCoeff (gn_penalties s') \<and>
         penaltyCoeff (gn_penalties s') \<le> dd_constraintPenaltyInitialValue (de_settings env) * dd_constraintPenaltyIncreaseRate (de_settings env) ^ (n - 1)"
    using new begun bounds unfolding limit_def by (intro exI[of _ "length new"]) (auto simp: Suc_le_eq)
qed


section \<open>The cache\<close>

text \<open>
  The model data, the value functions, the projected models and the Riccati modifications have as many entries as the trajectory
  has nodes, so that a node that is found in the trajectory is an index of each of them.
\<close>

definition data_consistent :: "primal_data \<Rightarrow> dual_data \<Rightarrow> bool" where
  "data_consistent pd dd =
     (let n = length (ps_timeTrajectory (pd_primalSolution pd)) in
      length (pd_modelDataTrajectory pd) = n \<and> length (dc_valueFunctionTrajectory dd) = n \<and> length (dc_projectedModelDataTrajectory dd) = n \<and>
      length (dc_riccatiModificationTrajectory dd) = n)"

text \<open>The states that runs and resets reach from a solver that has done nothing, for any problem, horizon and input.\<close>

inductive gn_reachable :: "'s gn_virtuals \<Rightarrow> 's gn_state \<Rightarrow> bool" for virt where
  fresh: "gn_totalNumIterations s = 0 \<Longrightarrow> gn_reachable virt s"
| reset: "gn_reachable virt s \<Longrightarrow> gn_reachable virt (gn_reset virt s)"
| run: "gn_reachable virt s \<Longrightarrow> gn_runImpl env virt targets schedule t0 x0 tf s = Some (Inr (c, s')) \<Longrightarrow> gn_reachable virt s'"
| run_controller: "gn_reachable virt s \<Longrightarrow> gn_runImpl_controller env virt targets schedule t0 x0 tf ext s = Some (Inr (c, s')) \<Longrightarrow> gn_reachable virt s'"
| run_primal: "gn_reachable virt s \<Longrightarrow> gn_runImpl_primal env virt targets schedule t0 x0 tf ps s = Some (Inr (c, s')) \<Longrightarrow> gn_reachable virt s'"

text \<open>The states of a run before each of its iterations.\<close>

inductive gn_turns :: "ddp_env \<Rightarrow> 's gn_virtuals \<Rightarrow> mode_schedule \<Rightarrow> nat \<Rightarrow> bool \<times> 's gn_state \<Rightarrow> bool \<times> 's gn_state \<Rightarrow> bool"
  for env virt schedule init start where
  first: "gn_turns env virt schedule init start start"
| turn: "gn_turns env virt schedule init start (ex, s) \<Longrightarrow> gn_turn env virt schedule init ex s = Inr (c, False, s') \<Longrightarrow>
         gn_turns env virt schedule init start (True, gn_handover env s')"

locale gauss_newton_subclass =
  fixes virt :: "'s gn_virtuals"
  assumes models: "gv_approximateIntermediateLQ virt env ds pd = Inr mds \<Longrightarrow> length mds = length (ps_timeTrajectory (pd_primalSolution pd))"
    and riccati: "gv_solveSequentialRiccatiEquations virt env m n cache pd V st = Inr st' \<Longrightarrow>
      length (rs_valueFunction st') = length (ps_timeTrajectory (pd_primalSolution pd)) \<and> length (rs_projectedModelData st') = length (ps_timeTrajectory (pd_primalSolution pd)) \<and>
      length (rs_riccatiModification st') = length (ps_timeTrajectory (pd_primalSolution pd))"
begin

lemma iteration_consistent:
  assumes "gn_iteration env virt schedule ex s = Inr s'"
  shows "data_consistent (gn_nominalPrimal s') (gn_nominalDual s')"
proof (rule gn_iteration_parts[OF assms])
  fix pd st ctrl lq s1 s2
  assume pd: "approximateOptimalControlProblem env (gv_approximateIntermediateLQ virt env) (gn_nominalDual s) (gn_nominalPrimal s) = Inr pd"
    and st: "gv_solveSequentialRiccatiEquations virt env (gn_search s) (gn_totalNumIterations s) (getValueFunctionFromCache (gn_cachedPrimal s) (gn_cachedDual s)) pd
       (md_cost (pd_modelDataFinalTime pd)) (riccati_store_of s) = Inr st"
    and s1: "s1 = (set_riccati_store st (s\<lparr>gn_nominalPrimal := pd\<rparr>))\<lparr>gn_avgTimeStepBP := (gn_finalTime s - gn_initTime s) / real (length (ps_timeTrajectory (pd_primalSolution pd))),
       gn_unoptimizedController := ctrl\<rparr>"
    and fr: "step_frame s1 s2"
    and s': "s' = s2\<lparr>gn_totalNumIterations := gn_totalNumIterations s2 + 1, gn_performanceIndexHistory := gn_performanceIndexHistory s2 @ [gn_performanceIndex s2]\<rparr>"
  from fr obtain m d p pm perf a where s2: "s2 = s1\<lparr>gn_search := m, gn_optimizedDual := d, gn_optimizedPrimal := p, gn_optimizedMetrics := pm,
      gn_performanceIndex := perf, gn_avgTimeStepFP := a\<rparr>" unfolding step_frame_def by (elim exE)
  from pd obtain mds events final where mds: "gv_approximateIntermediateLQ virt env (dc_dualSolution (gn_nominalDual s)) (gn_nominalPrimal s) = Inr mds"
      "pd = (gn_nominalPrimal s)\<lparr>pd_modelDataTrajectory := mds, pd_modelDataEventTimes := events, pd_modelDataFinalTime := final\<rparr>"
    unfolding approximateOptimalControlProblem_def bind_result_eq_Inr by auto
  have "length (pd_modelDataTrajectory pd) = length (ps_timeTrajectory (pd_primalSolution pd))" using models[OF mds(1)] mds(2) by simp
  then show ?thesis using riccati[OF st] unfolding s' s2 s1 by (simp add: data_consistent_def set_riccati_store_def)
qed

lemma turn_consistent:
  "gn_turn env virt schedule init ex s = Inr (c, stop, s') \<Longrightarrow> data_consistent (gn_nominalPrimal s') (gn_nominalDual s')"
  unfolding gn_turn_eq using iteration_consistent by blast

lemma loop_consistent:
  assumes "gn_loop env v schedule init ex s = Some y"
  shows "v = virt \<longrightarrow> (\<forall>c s'. y = Inr (c, s') \<longrightarrow> data_consistent (gn_nominalPrimal s') (gn_nominalDual s'))"
proof -
  let ?P = "\<lambda>(env :: ddp_env) v (schedule :: mode_schedule) (init :: nat) (ex :: bool) (s :: 's gn_state) y.
    v = virt \<longrightarrow> (\<forall>c s'. y = Inr (c, s') \<longrightarrow> data_consistent (gn_nominalPrimal s') (gn_nominalDual s'))"
  show ?thesis
  proof (rule gn_loop.raw_induct[where P = ?P, OF _ assms])
    fix loop env v schedule init ex s and y :: "(bool \<times> 's gn_state) result"
    assume IH: "\<And>env v schedule init ex s y. loop env v schedule init ex s = Some y \<Longrightarrow> ?P env v schedule init ex s y"
      and body: "(case gn_turn env v schedule init ex s of Inl e \<Rightarrow> Some (Inl e)
        | Inr (isConverged, stop, s) \<Rightarrow> if stop then Some (Inr (isConverged, s)) else loop env v schedule init True (gn_handover env s)) = Some y"
    show "?P env v schedule init ex s y"
    proof (intro impI allI)
      fix c s' assume v: "v = virt" and y: "y = Inr (c, s')"
      from body y obtain c1 stop s1 where t: "gn_turn env virt schedule init ex s = Inr (c1, stop, s1)"
        and rest: "(if stop then Some (Inr (c1, s1)) else loop env v schedule init True (gn_handover env s1)) = Some (Inr (c, s'))"
        unfolding v by (auto split: sum.splits prod.splits)
      show "data_consistent (gn_nominalPrimal s') (gn_nominalDual s')"
      proof (cases stop)
        case True
        then show ?thesis using rest turn_consistent[OF t] by simp
      next
        case False
        then have "loop env v schedule init True (gn_handover env s1) = Some (Inr (c, s'))" using rest by simp
        from IH[OF this] v show ?thesis by simp
      qed
    qed
  qed
qed

lemma run_consistent:
  assumes "gn_runImpl env virt targets schedule t0 x0 tf s = Some (Inr (c, s'))"
  shows "data_consistent (gn_nominalPrimal s') (gn_nominalDual s')"
  using assms loop_consistent by (auto simp: gn_runImpl_def Let_def split: sum.splits)

lemma reachable_consistent:
  "gn_reachable virt s \<Longrightarrow> 0 < gn_totalNumIterations s \<Longrightarrow> data_consistent (gn_nominalPrimal s) (gn_nominalDual s)"
proof (induction rule: gn_reachable.induct)
  case (run_controller s env targets schedule t0 x0 tf ext c s')
  then show ?case using run_consistent by (auto simp: gn_runImpl_controller_def split: option.splits controller.splits)
next
  case (run_primal s env targets schedule t0 x0 tf ps c s')
  then show ?case using run_consistent by (auto simp: gn_runImpl_primal_def gn_runImpl_controller_def split: if_splits option.splits controller.splits)
qed (auto simp: gn_reset_def run_consistent)

lemma cache_consistent:
  assumes "gn_reachable virt s" "gn_setup env schedule t0 x0 tf s = Inr start" "gn_turns env virt schedule init start turn" "0 < gn_totalNumIterations (snd turn)"
  shows "data_consistent (gn_cachedPrimal (snd turn)) (gn_cachedDual (snd turn))"
  using assms(3,4)
proof (induction rule: gn_turns.induct)
  case first
  obtain ok s1 where "start = (ok, s1)" by (cases start)
  then show ?case using gn_setup_counts[of env schedule t0 x0 tf s ok s1] assms(1,2) first reachable_consistent by simp
next
  case (turn ex s c s')
  then show ?case using turn_consistent by (simp add: gn_handover_eq)
qed

end

section \<open>The subclass iLQR\<close>

lemma ilqr_loop_lengths:
  "ilqr_loop env mds jumps events firstEv stop cur ev temp nxt st = Inr st' \<Longrightarrow> 0 \<le> stop \<Longrightarrow> same_lengths st st'"
proof (induction "nat (cur - stop + 1)" arbitrary: cur ev temp nxt st rule: less_induct)
  case less
  show ?case
  proof (cases "cur < stop")
    case True
    then show ?thesis using less.prems(1) by (simp add: ilqr_loop.simps)
  next
    case False
    note turn = ilqr_loop_turn[OF False less.prems(2)]
    obtain st1 is_event where st1: "riccati_node env mds (nat cur) nxt st = Inr st1"
      and rest: "(if is_event then
          bind_result (require (0 \<le> cur - 1) Undefined) (\<lambda>_.
          bind_result (vec_at_int jumps ev) (\<lambda>jump.
          bind_result (riccatiTransversalityConditions jump (value_triple (rs_valueFunction st1 ! nat cur))) (\<lambda>T.
          bind_result (put_value (nat (cur - 1)) (set_triple T temp) st1) (\<lambda>st.
          bind_result (terminal_gains env mds (nat (cur - 1)) (set_triple T temp) st) (\<lambda>st.
          ilqr_loop env mds jumps events firstEv stop (cur - 2) (ev - 1) (set_triple T temp) (set_triple T temp) st)))))
        else ilqr_loop env mds jumps events firstEv stop (cur - 1) ev temp (rs_valueFunction st1 ! nat cur) st1) = Inr st'"
      using less.prems(1)[unfolded turn bind_result_eq_Inr vec_at_eq_Inr] by (elim exE conjE) blast
    note node = riccati_node_local(1)[OF st1]
    show ?thesis
    proof (cases is_event)
      case True
      then obtain T st2 st3 where st2: "put_value (nat (cur - 1)) (set_triple T temp) st1 = Inr st2"
        and st3: "terminal_gains env mds (nat (cur - 1)) (set_triple T temp) st2 = Inr st3"
        and loop: "ilqr_loop env mds jumps events firstEv stop (cur - 2) (ev - 1) (set_triple T temp) (set_triple T temp) st3 = Inr st'"
        using rest by (auto simp: bind_result_eq_Inr)
      have "same_lengths st3 st'" using False less.prems(2) by (intro less.hyps[OF _ loop]) auto
      then show ?thesis using node put_value_local(1)[OF st2] terminal_gains_local(1)[OF st3] same_lengths_trans by blast
    next
      case no: False
      then have loop: "ilqr_loop env mds jumps events firstEv stop (cur - 1) ev temp (rs_valueFunction st1 ! nat cur) st1 = Inr st'" using rest by simp
      have "same_lengths st1 st'" using False less.prems(2) by (intro less.hyps[OF _ loop]) auto
      then show ?thesis using node same_lengths_trans by blast
    qed
  qed
qed

lemma run_tasks_lengths:
  assumes "\<And>iv V st st'. worker iv V st = Inr st' \<Longrightarrow> same_lengths st st'" "run_tasks worker tasks st = Inr st'"
  shows "same_lengths st st'"
  using assms(2)
proof (induction tasks arbitrary: st)
  case Nil
  then show ?case by (simp add: run_tasks_def)
next
  case (Cons t tasks)
  then show ?case using assms(1) same_lengths_trans by (fastforce simp: run_tasks_def result_simps split: prod.splits)
qed

lemma ilqr_pass_lengths:
  assumes "ilqr_solveSequentialRiccatiEquations env renv n cache pd V st = Inr st'"
  shows "length (rs_valueFunction st') = length (ps_timeTrajectory (pd_primalSolution pd)) \<and>
    length (rs_projectedModelData st') = length (ps_timeTrajectory (pd_primalSolution pd)) \<and>
    length (rs_riccatiModification st') = length (ps_timeTrajectory (pd_primalSolution pd))"
proof -
  define N where "N = length (ps_timeTrajectory (pd_primalSolution pd))"
  let ?worker = "ilqr_riccatiEquationsWorker renv (pd_modelDataTrajectory pd) (pd_modelDataEventTimes pd) (ps_postEventIndices (pd_primalSolution pd))"
  define st0 where "st0 = st\<lparr>rs_projectedLv := vec_resize N [] (rs_projectedLv st), rs_projectedKm := vec_resize N empty_mat (rs_projectedKm st),
      rs_riccatiModification := vec_resize N new_RiccatiModification (rs_riccatiModification st), rs_projectedModelData := vec_resize N new_ModelData (rs_projectedModelData st)\<rparr>"
  have l0: "length (rs_projectedModelData st0) = N" "length (rs_riccatiModification st0) = N" by (simp_all add: st0_def vec_resize_def)
  from assms obtain st1 where st1: "terminal_gains renv (pd_modelDataTrajectory pd) (N - 1) V st0 = Inr st1"
      "solveSequentialRiccatiEquationsImpl env n ?worker cache (pd_primalSolution pd) V st1 = Inr st'"
    by (auto simp: ilqr_solveSequentialRiccatiEquations_def Let_def result_simps N_def[symmetric] st0_def split: if_splits)
  from st1(2) obtain tasks where tasks: "run_tasks ?worker tasks (st1\<lparr>rs_valueFunction := (replicate N new_ScalarQuadratic)[N - 1 := V]\<rparr>) = Inr st'"
    by (auto simp: solveSequentialRiccatiEquationsImpl_def Let_def result_simps N_def[symmetric] split: if_splits)
  have "same_lengths st st'" if "?worker iv V st = Inr st'" for iv V st st'
    using that ilqr_loop_lengths unfolding ilqr_riccatiEquationsWorker_def Let_def by (metis of_nat_0_le_iff)
  from run_tasks_lengths[OF this tasks] terminal_gains_local(1)[OF st1(1)] l0 show ?thesis
    by (simp add: same_lengths_def N_def)
qed

lemma ilqr_models_length:
  "ilqr_approximateIntermediateLQ env discretizer flowMap ds pd = Inr mds \<Longrightarrow> length mds = length (ps_timeTrajectory (pd_primalSolution pd))"
  unfolding ilqr_approximateIntermediateLQ_def Let_def by (drule map_result_Inr) simp

interpretation ilqr: gauss_newton_subclass "ilqr_virtuals discretizer flowMap renv line_search abandoned base"
  for discretizer flowMap renv line_search abandoned base
  by unfold_locales (auto simp: ilqr_virtuals_def ilqr_models_length dest: ilqr_pass_lengths)

text \<open>
  C32. The cache from which the parallel Riccati pass takes the final values of its partitions has one entry of every kind per node of
  its trajectory. Take any solver whose subclass fills one entry per node of the trajectory, as iLQR does, and any sequence of runs and
  resets that end without an exception. At the beginning of every iteration of a further run, unless it is the first iteration of
  all, in which the cache is not read, the cached trajectory, model data, value functions, projected models and Riccati modifications
  have the same length: the lookup of a partition boundary in the cached times is never out of range in the others.
\<close>

theorem cache_is_consistent:
  assumes "gauss_newton_subclass virt" "gn_reachable virt s"
    and "gn_setup env schedule initTime initState finalTime s = Inr start" "gn_turns env virt schedule (gn_totalNumIterations s) start (ex, s')"
    and "0 < gn_totalNumIterations s'"
  shows "data_consistent (gn_cachedPrimal s') (gn_cachedDual s')"
  using gauss_newton_subclass.cache_consistent[OF assms(1-4)] assms(5) by simp

section \<open>Example\<close>

text \<open>
  A solver for a problem without any term, over an empty horizon. Its subclass solves the Riccati equations with the zero
  function, and its search strategy rejects every step and finds the second iteration converged.
\<close>

definition idle_env :: ddp_env where
  "idle_env =
     \<lparr>de_settings = default_ddp_settings\<lparr>dd_checkNumericalStability := False, dd_strategy := LEVENBERG_MARQUARDT\<rparr>, de_problem = empty_terms_problem,
      de_rollout = (\<lambda>_ _ _ _ _. Inl Undefined),
      de_rolloutSettings = \<lparr>absTolODE = 1, timeStep = 1, checkNumericalStability_flag = False, reconstructInputTrajectory = True,
        maxSingleEventIterations = 10, useTrajectorySpreadingController = False\<rparr>,
      de_initializer = (\<lambda>t x t'. ([], x)), de_numerics = undefined, de_eigen = undefined, de_cholesky = undefined, de_junk = 0, de_show = (\<lambda>_. [])\<rparr>"

definition idle_virtuals :: "nat gn_virtuals" where
  "idle_virtuals =
     \<lparr>gv_approximateIntermediateLQ = (\<lambda>_ _ pd. Inr (replicate (length (ps_timeTrajectory (pd_primalSolution pd))) new_ModelData)),
      gv_solveSequentialRiccatiEquations = (\<lambda>_ _ _ _ pd V st.
        let n = length (ps_timeTrajectory (pd_primalSolution pd)) in
        Inr (st\<lparr>rs_projectedModelData := replicate n new_ModelData, rs_riccatiModification := replicate n new_RiccatiModification,
                rs_valueFunction := replicate n new_ScalarQuadratic\<rparr>)),
      gv_calculateControllerWorker = (\<lambda>_ _ _ _. Inr \<lparr>lg_gain = empty_mat, lg_bias = [], lg_deltaBias = []\<rparr>),
      gv_search = \<lparr>so_run = (\<lambda>_ _ _ _ sol m. Inr (Inr False, sol, m + 1)), so_checkConvergence = (\<lambda>m unreliable _ _. \<not> unreliable), so_reset = (\<lambda>_. 0)\<rparr>\<rparr>"

definition idle_primal :: primal_data where
  "idle_primal = \<lparr>pd_primalSolution = new_PrimalSolution, pd_problemMetrics = undefined, pd_modelDataFinalTime = new_ModelData,
     pd_modelDataEventTimes = [], pd_modelDataTrajectory = []\<rparr>"

definition idle_dual :: dual_data where
  "idle_dual = \<lparr>dc_dualSolution = scratch_dual, dc_projectedModelDataTrajectory = [], dc_riccatiModificationTrajectory = [], dc_valueFunctionTrajectory = []\<rparr>"

definition idle_state :: "nat gn_state" where
  "idle_state =
     \<lparr>gn_search = 0, gn_nominalDual = idle_dual, gn_nominalPrimal = idle_primal, gn_cachedDual = idle_dual, gn_cachedPrimal = idle_primal,
      gn_projectedLv = [], gn_projectedKm = [], gn_optimizedDual = scratch_dual,
      gn_optimizedPrimal = new_PrimalSolution\<lparr>ps_controllerPtr := Some (Linear (LinearController [] [] []))\<rparr>, gn_optimizedMetrics = undefined,
      gn_unoptimizedController = LinearController [] [] [], gn_performanceIndex = 0, gn_performanceIndexHistory = [],
      gn_penalties = \<lparr>penaltyTol = 0, penaltyCoeff = 0\<rparr>, gn_avgTimeStepFP = 0, gn_avgTimeStepBP = 0, gn_totalNumIterations = 0,
      gn_initTime = 0, gn_initState = [], gn_finalTime = 0\<rparr>"

definition idle_trajectory :: primal_solution where
  "idle_trajectory = new_PrimalSolution\<lparr>ps_timeTrajectory := [0], ps_stateTrajectory := [[]], ps_inputTrajectory := [[]]\<rparr>"

lemma idle_initial:
  assumes "ps_controllerPtr opt = Some (Linear (LinearController [] [] []))" "ps_timeTrajectory opt = []"
  shows "initial_primal idle_env default_ModeSchedule 0 [] 0 opt ((clear_PrimalSolution new_PrimalSolution)\<lparr>ps_modeSchedule := default_ModeSchedule\<rparr>) =
     Inr (False, opt, idle_trajectory)"
  using assms
  by (simp add: initial_primal_def idle_trajectory_def new_PrimalSolution_def LinearController_def lc_empty_def unstable_rollout_def extractInitialTrajectories_def rolloutInitialController_def
    rolloutInitializer_def pop_post_event_node_def initializer_run_def idle_env_def clear_PrimalSolution_def findActiveModesTimeInterval_def upperBoundIndex_def empty_rollout_def trunc_quotient_def initializer_step_def
    limitEpsilon_def weakEpsilon_def default_ModeSchedule_def)

lemmas idle_terms = empty_terms_problem_def new_OptimalControlProblem_def new_Collection_def

definition idle_dual_solution :: dual_solution where
  "idle_dual_solution = \<lparr>ds_timeTrajectory = [0], ds_postEventIndices = [], ds_final = no_multipliers, ds_preJumps = [], ds_intermediates = [no_multipliers]\<rparr>"

lemma idle_initializeDualSolution:
  "initializeDualSolution empty_terms_problem idle_trajectory scratch_dual d = Inr idle_dual_solution"
  by (simp add: initializeDualSolution_def idle_trajectory_def new_PrimalSolution_def dual_final_def dual_preJumps_def dual_intermediates_def scratch_dual_def
     empty_MultiplierCollection_def default_MultiplierCollection_def initializeFinalMultiplierCollection_def initializeIntermediateMultiplierCollection_def
     alc_initializeLagrangian_def idle_terms findIntersectionToExtendableInterval_def clear_DualSolution_def clear_MultiplierCollection_def no_multipliers_def
     idle_dual_solution_def)

definition idle_metrics :: problem_metrics where
  "idle_metrics = \<lparr>pm_final = new_Metrics, pm_preJumps = [], pm_intermediates = [new_Metrics]\<rparr>"

lemma idle_computeRolloutMetrics: "computeRolloutMetrics empty_terms_problem idle_trajectory idle_dual_solution pm = Inr idle_metrics"
  by (simp add: computeRolloutMetrics_def idle_trajectory_def new_PrimalSolution_def metrics_step_def idle_dual_solution_def empty_terms_metrics
      clear_ProblemMetrics_def idle_metrics_def)

lemma idle_performance: "computeRolloutPerformanceIndex [0] idle_metrics = Inr (toPerformanceIndex new_Metrics)"
  by (simp add: computeRolloutPerformanceIndex_def idle_metrics_def trapezoidalIntegration_def)

definition idle_index :: "performance_index" where
  "idle_index = with_merit \<lparr>penaltyTol = 1 / 2 powr (1 / 10), penaltyCoeff = 2\<rparr> (toPerformanceIndex new_Metrics)"

lemma idle_setup:
  "gn_setup idle_env default_ModeSchedule 0 [] 0 idle_state =
     Inr (False, idle_state\<lparr>gn_nominalDual := idle_dual\<lparr>dc_dualSolution := idle_dual_solution\<rparr>,
       gn_nominalPrimal := idle_primal\<lparr>pd_primalSolution := idle_trajectory, pd_problemMetrics := idle_metrics\<rparr>,
       gn_performanceIndex := idle_index, gn_performanceIndexHistory := [idle_index], gn_penalties := \<lparr>penaltyTol = 1 / 2 powr (1 / 10), penaltyCoeff = 2\<rparr>\<rparr>)"
proof -
  have p: "initializeConstraintPenalties (de_settings idle_env) = Inr \<lparr>penaltyTol = 1 / 2 powr (1 / 10), penaltyCoeff = 2\<rparr>"
    by (simp add: initializeConstraintPenalties_def idle_env_def default_ddp_settings_def)
  have c: "clear_PrimalData idle_primal = idle_primal\<lparr>pd_primalSolution := clear_PrimalSolution new_PrimalSolution, pd_problemMetrics := clear_ProblemMetrics undefined\<rparr>"
    by (simp add: clear_PrimalData_def idle_primal_def)
  have e: "de_problem idle_env = empty_terms_problem" by (simp add: idle_env_def)
  have i: "initial_primal idle_env default_ModeSchedule 0 [] 0 (gn_optimizedPrimal idle_state) (clear_PrimalSolution new_PrimalSolution) =
      Inr (False, gn_optimizedPrimal idle_state, idle_trajectory)"
    using idle_initial[of "gn_optimizedPrimal idle_state"] by (simp add: idle_state_def initial_primal_def new_PrimalSolution_def)
  have t: "ps_timeTrajectory idle_trajectory = [0]" by (simp add: idle_trajectory_def)
  have n: "gn_nominalPrimal idle_state = idle_primal" "gn_cachedPrimal idle_state = idle_primal" "gn_nominalDual idle_state = idle_dual" "gn_cachedDual idle_state = idle_dual"
      "gn_optimizedDual idle_state = scratch_dual" "ds_timeTrajectory scratch_dual = []"
    by (simp_all add: idle_state_def scratch_dual_def)
  have s: "idle_state\<lparr>gn_initTime := 0, gn_initState := [], gn_finalTime := 0, gn_optimizedDual := scratch_dual, gn_optimizedPrimal := gn_optimizedPrimal idle_state\<rparr> = idle_state"
    by (simp add: idle_state_def)
  show ?thesis
    by (simp add: gn_setup_def initializePrimalSolution_def p swap_DualData_eq swap_PrimalData_eq n c i e t Let_def initializeDualSolutionAndMetrics_def
       idle_initializeDualSolution idle_computeRolloutMetrics idle_performance idle_index_def)
       (simp add: idle_state_def)
qed


lemma idle_approximation:
  assumes "pd_primalSolution pd = idle_trajectory" "dc_dualSolution dd = idle_dual_solution"
  shows "\<exists>M. approximateOptimalControlProblem idle_env (gv_approximateIntermediateLQ idle_virtuals idle_env) dd pd =
     Inr (pd\<lparr>pd_modelDataTrajectory := [new_ModelData], pd_modelDataEventTimes := [], pd_modelDataFinalTime := M\<rparr>)"
proof -
  have "succeeds (approximateFinalLQ 0 empty_terms_problem 0 [] no_multipliers new_ModelData)"
    by (simp add: approximateFinalLQ_def idle_terms no_multipliers_def StateConstraintCollection_getLinearApproximation_def collection_linear_def approximateFinalCost_def
        targets_of_problem_def StateCostCollection_getQuadraticApproximation_def add_unless_empty_def add_state_lagrangian_def empty_Collection_def first_active_def Let_def)
  then have "\<exists>M. final_model idle_env idle_trajectory idle_dual_solution old = Inr M" for old
    by (auto simp: succeeds_iff final_model_def idle_env_def idle_trajectory_def new_PrimalSolution_def default_ddp_settings_def shift_state_hessian_def Let_def
        idle_dual_solution_def)
  then obtain M where "final_model idle_env idle_trajectory idle_dual_solution (pd_modelDataFinalTime pd) = Inr M" by blast
  then show ?thesis using assms
    by (intro exI[of _ M]) (simp add: approximateOptimalControlProblem_def idle_virtuals_def, simp add: idle_trajectory_def new_PrimalSolution_def)
qed


definition idle_ready :: "nat gn_state \<Rightarrow> bool" where
  "idle_ready s = (pd_primalSolution (gn_nominalPrimal s) = idle_trajectory \<and> dc_dualSolution (gn_nominalDual s) = idle_dual_solution \<and> gn_performanceIndexHistory s \<noteq> [])"

lemma idle_iteration:
  assumes "idle_ready s"
  shows "\<exists>s'. gn_turn idle_env idle_virtuals default_ModeSchedule init ex s = Inr (ex, ex \<or> gn_totalNumIterations s' - init = 15, s') \<and> idle_ready (gn_handover idle_env s')"
proof -
  have r: "pd_primalSolution (gn_nominalPrimal s) = idle_trajectory" "dc_dualSolution (gn_nominalDual s) = idle_dual_solution" "gn_performanceIndexHistory s \<noteq> []"
    using assms by (simp_all add: idle_ready_def)
  from idle_approximation[OF r(1,2)] obtain M where
    lq: "approximateOptimalControlProblem idle_env (gv_approximateIntermediateLQ idle_virtuals idle_env) (gn_nominalDual s) (gn_nominalPrimal s) =
      Inr ((gn_nominalPrimal s)\<lparr>pd_modelDataTrajectory := [new_ModelData], pd_modelDataEventTimes := [], pd_modelDataFinalTime := M\<rparr>)" by blast
  have t: "length (ps_timeTrajectory idle_trajectory) = 1" "ps_postEventIndices idle_trajectory = []" by (simp_all add: idle_trajectory_def new_PrimalSolution_def)
  have "\<exists>s'. gn_iteration idle_env idle_virtuals default_ModeSchedule ex s = Inr s' \<and> idle_ready (gn_handover idle_env s') \<and> 2 \<le> length (gn_performanceIndexHistory s')"
    using r by (simp add: gn_iteration_def lq, simp add: idle_virtuals_def t calculateController_def takePrimalDualStep_def set_riccati_store_def reject_step_def idle_ready_def gn_handover_eq Let_def)
       (auto simp: Let_def Suc_le_eq)
  then obtain s' where s': "gn_iteration idle_env idle_virtuals default_ModeSchedule ex s = Inr s'" "idle_ready (gn_handover idle_env s')"
      "2 \<le> length (gn_performanceIndexHistory s')" by blast
  moreover from s'(3) have "gn_performanceIndexHistory s' \<noteq> []" by auto
  ultimately have "gn_converged idle_virtuals ex s' = Inr ex"
    by (auto simp: gn_converged_def idle_virtuals_def vec_at_int_def Let_def nat_diff_distrib)
  then show ?thesis using s' by (simp add: gn_turn_def idle_env_def default_ddp_settings_def)
qed

theorem gn_run_ends_witness:
  "\<exists>s'. gn_runImpl idle_env idle_virtuals origin_targets default_ModeSchedule 0 [] 0 idle_state = Some (Inr (True, s')) \<and> gn_totalNumIterations s' = 2 \<and>
     length (gn_performanceIndexHistory s') = 3"
proof -
  have env: "idle_env\<lparr>de_problem := (de_problem idle_env)\<lparr>targetTrajectoriesPtr := Some origin_targets\<rparr>\<rparr> = idle_env"
    by (simp add: idle_env_def empty_terms_problem_def new_OptimalControlProblem_def)
  from idle_setup obtain s1 where s1: "gn_setup idle_env default_ModeSchedule 0 [] 0 idle_state = Inr (False, s1)" "idle_ready s1"
    by (simp add: idle_ready_def)
  from idle_iteration[OF s1(2), of 0 False] gn_setup_counts[OF s1(1)] obtain s2 where
    s2: "gn_turn idle_env idle_virtuals default_ModeSchedule 0 False s1 = Inr (False, gn_totalNumIterations s2 = 15, s2)" "idle_ready (gn_handover idle_env s2)"
    by auto
  have c: "gn_totalNumIterations s2 = 1" using gn_iteration_counts(1)[of idle_env idle_virtuals default_ModeSchedule False s1 s2] s2(1) gn_setup_counts[OF s1(1)]
    by (simp add: gn_turn_eq idle_state_def)
  from idle_iteration[OF s2(2), of 0 True] obtain s3 where
    s3: "gn_turn idle_env idle_virtuals default_ModeSchedule 0 True (gn_handover idle_env s2) = Inr (True, True, s3)" by auto
  have "gn_totalNumIterations idle_state = 0" by (simp add: idle_state_def)
  then have run: "gn_runImpl idle_env idle_virtuals origin_targets default_ModeSchedule 0 [] 0 idle_state = Some (Inr (True, s3))"
    using s1(1) s2(1) s3 c unfolding gn_runImpl_def Let_def env by (simp add: gn_loop.simps)
  from gn_run_ends[of idle_env idle_virtuals origin_targets default_ModeSchedule 0 "[]" 0 idle_state, unfolded Let_def run]
  have "length (gn_performanceIndexHistory s3) = gn_totalNumIterations s3 + 1" by (auto simp: idle_state_def)
  moreover have "gn_totalNumIterations s3 = 2"
    using gn_iteration_counts(1)[of idle_env idle_virtuals default_ModeSchedule True "gn_handover idle_env s2" s3] s3 c by (simp add: gn_turn_eq)
  ultimately show ?thesis using run by simp
qed


lemma idle_subclass: "gauss_newton_subclass idle_virtuals"
  by unfold_locales (auto simp: idle_virtuals_def Let_def)

theorem cache_is_consistent_witness:
  "\<exists>start s'. gn_setup idle_env default_ModeSchedule 0 [] 0 idle_state = Inr start \<and>
     gn_turns idle_env idle_virtuals default_ModeSchedule 0 start (True, s') \<and> gn_totalNumIterations s' = 1 \<and> data_consistent (gn_cachedPrimal s') (gn_cachedDual s')"
proof -
  have fresh: "gn_totalNumIterations idle_state = 0" by (simp add: idle_state_def)
  then have reachable: "gn_reachable idle_virtuals idle_state" by (rule gn_reachable.fresh)
  from idle_setup obtain s1 where s1: "gn_setup idle_env default_ModeSchedule 0 [] 0 idle_state = Inr (False, s1)" "idle_ready s1"
    by (simp add: idle_ready_def)
  from idle_iteration[OF s1(2), of 0 False] obtain s2 where
    s2: "gn_turn idle_env idle_virtuals default_ModeSchedule 0 False s1 = Inr (False, gn_totalNumIterations s2 = 15, s2)"
    by auto
  have c: "gn_totalNumIterations s2 = 1" using gn_iteration_counts(1)[of idle_env idle_virtuals default_ModeSchedule False s1 s2] s2 gn_setup_counts[OF s1(1)]
    by (simp add: gn_turn_eq fresh)
  have turns: "gn_turns idle_env idle_virtuals default_ModeSchedule 0 (False, s1) (True, gn_handover idle_env s2)"
    by (rule gn_turns.turn[OF gn_turns.first, where c = False]) (use s2 c in simp)
  from cache_is_consistent[OF idle_subclass reachable s1(1)] turns fresh c
  have "data_consistent (gn_cachedPrimal (gn_handover idle_env s2)) (gn_cachedDual (gn_handover idle_env s2))" by simp
  then show ?thesis using s1(1) turns c by (intro exI[of _ "(False, s1)"] exI[of _ "gn_handover idle_env s2"]) simp
qed

end
