(* ===== verification/Initial_Dual.thy ===== *)
theory Initial_Dual
  imports Gauss_Newton_Correct
begin

text \<open>
  What happens to the dual solution when \<open>GaussNewtonDDP\<close> starts from the trajectories of its last solution.
\<close>

lemma extract_keeps_schedule:
  "extractPrimalSolution period inp out = Inr r \<Longrightarrow> ps_modeSchedule r = ps_modeSchedule inp"
  by (auto simp: extractPrimalSolution_def append_final_event_def result_simps Let_def split: if_splits)

lemma rolloutInitializer_keeps_schedule: "rolloutInitializer env t0 x0 tf ps = Inr r \<Longrightarrow> ps_modeSchedule r = ps_modeSchedule ps"
  by (auto simp: rolloutInitializer_def pop_post_event_node_def result_simps Let_def split: if_splits)

lemma extracted_schedules:
  assumes "extractInitialTrajectories schedule t0 tf inp out = Inr (True, inp', out')"
  shows "ps_modeSchedule inp' = schedule \<and> ps_modeSchedule out' = schedule"
  using assms extract_keeps_schedule
  by (fastforce simp: extractInitialTrajectories_def trajectorySpread_primal_def result_simps Let_def split: if_splits)

text \<open>
  C33. When the solver has no controller to start from and takes over the trajectories of its last solution, the dual solution is not
  adjusted to the new mode schedule: the adjustment of the trajectories has already overwritten the old schedule of the optimised
  solution, so the spreading of the dual solution is computed from the new schedule to itself.
\<close>

theorem dual_spread_from_new_schedule:
  assumes "ps_controllerPtr (gn_optimizedPrimal s) = Some c" "empty_controller c"
    and "initializePrimalSolution env schedule s = Inr (True, s')" "ds_timeTrajectory (gn_optimizedDual s) \<noteq> []"
    and "initializeDualSolutionAndMetrics env' s' = Inr s''"
  shows "\<exists>status. trajectorySpread_dual schedule schedule (gn_optimizedDual s) = Inr (status, gn_optimizedDual s'')"
proof -
  let ?out = "(pd_primalSolution (clear_PrimalData (gn_nominalPrimal s)))\<lparr>ps_modeSchedule := schedule\<rparr>"
  have "rolloutInitialController env schedule (gn_initTime s) (gn_initState s) (gn_finalTime s) (gn_optimizedPrimal s) ?out = Inr (False, gn_optimizedPrimal s, ?out)"
    using assms(1,2) by (simp add: rolloutInitialController_def)
  then obtain opt out ps where e: "extractInitialTrajectories schedule (gn_initTime s) (gn_finalTime s) (gn_optimizedPrimal s) ?out = Inr (True, opt, out)"
      "rolloutInitializer env (gn_initTime s) (gn_initState s) (gn_finalTime s) out = Inr ps" and s': "gn_optimizedPrimal s' = opt" "pd_primalSolution (gn_nominalPrimal s') = ps"
      "gn_optimizedDual s' = gn_optimizedDual s"
    using assms(3) by (auto simp: initializePrimalSolution_def initial_primal_def unstable_rollout_def result_simps Let_def split: sum.splits ocs2_error.splits)
  have "ps_modeSchedule opt = schedule" "ps_modeSchedule ps = schedule"
    using extracted_schedules[OF e(1)] rolloutInitializer_keeps_schedule[OF e(2)] by simp_all
  then show ?thesis using assms(4,5) s' by (auto simp: initializeDualSolutionAndMetrics_def result_simps Let_def)
qed

text \<open>A solution with an event at time one, whose multipliers are those of its modes; the event moves to one half.\<close>

definition mode_multipliers :: "scalar \<Rightarrow> multiplier_collection" where
  "mode_multipliers m = no_multipliers\<lparr>stateEq := [Multiplier m []]\<rparr>"

definition moved_solution :: primal_solution where
  "moved_solution = \<lparr>ps_timeTrajectory = [0, 1 / 4, 3 / 4, 1, 1 + weakEpsilon, 3], ps_stateTrajectory = [[0], [0], [0], [1], [1], [3]], ps_inputTrajectory = replicate 6 [],
     ps_postEventIndices = [4], ps_modeSchedule = \<lparr>eventTimes = [1], modeSequence = [0, 1]\<rparr>, ps_controllerPtr = Some (Linear (LinearController [] [] []))\<rparr>"

definition moved_dual :: dual_solution where
  "moved_dual = \<lparr>ds_timeTrajectory = [0, 1 / 4, 3 / 4, 1, 1 + weakEpsilon, 3], ds_postEventIndices = [4], ds_final = no_multipliers, ds_preJumps = [no_multipliers],
     ds_intermediates = map mode_multipliers [0, 0, 0, 0, 1, 1]\<rparr>"

definition moved_schedule :: mode_schedule where
  "moved_schedule = \<lparr>eventTimes = [1 / 2], modeSequence = [0, 1]\<rparr>"

definition moved_state :: "nat gn_state" where
  "moved_state = idle_state\<lparr>gn_optimizedPrimal := moved_solution, gn_optimizedDual := moved_dual, gn_initState := [0], gn_finalTime := 3\<rparr>"

definition moved_primal :: primal_solution where
  "moved_primal = \<lparr>ps_timeTrajectory = [0, 1 / 2, 1 / 2 + weakEpsilon, 1, 1 + weakEpsilon, 3], ps_stateTrajectory = [[0], [0], [1], [1], [1], [3]], ps_inputTrajectory = replicate 6 [],
     ps_postEventIndices = [2], ps_modeSchedule = moved_schedule, ps_controllerPtr = None\<rparr>"

definition kept_dual :: dual_solution where
  "kept_dual = moved_dual\<lparr>ds_timeTrajectory := ps_timeTrajectory moved_primal, ds_postEventIndices := [2]\<rparr>"

lemma moved_spread_primal:
  "trajectorySpread_primal (ps_modeSchedule moved_solution) moved_schedule moved_solution = Inr ((False, True), moved_primal\<lparr>ps_controllerPtr := ps_controllerPtr moved_solution\<rparr>)"
  by code_simp

lemma moved_extraction:
  "extractPrimalSolution (0, 3) (moved_primal\<lparr>ps_controllerPtr := c\<rparr>) ((clear_PrimalSolution new_PrimalSolution)\<lparr>ps_modeSchedule := moved_schedule\<rparr>) = Inr moved_primal"
proof -
  have e: "0 < weakEpsilon" "weakEpsilon < 1 / 4" by (simp_all add: weakEpsilon_def)
  have "timeSegment 0 (ps_timeTrajectory moved_primal) = Inr (0, 1)"
    using e by (intro timeSegment_before) (simp_all add: moved_primal_def)
  moreover have "\<not> almost_eq 1 0" by (rule not_almost_eqI) (simp_all add: double_min_def divide_le_eq)
  moreover have "timeSegment 3 (ps_timeTrajectory moved_primal) = Inr (4, 0)"
    using e timeSegment_inside[of "ps_timeTrajectory moved_primal" 4 3] by (simp add: moved_primal_def)
  ultimately show ?thesis
    by (simp add: extractPrimalSolution_def upper_index_alpha_def, simp add: moved_primal_def eval_nat_numeral copySegment_def interpolate_def vec_range_int_def
       append_final_event_def areSameSize_scalar_def areSameSize_vector_def combine_scalar_def combine_vector_def clear_PrimalSolution_def new_PrimalSolution_def)
qed

lemma moved_spread:
  "trajectorySpread_dual moved_schedule moved_schedule moved_dual = Inr ((False, False), kept_dual)"
  "\<exists>status d. trajectorySpread_dual (ps_modeSchedule moved_solution) moved_schedule moved_dual = Inr (status, d) \<and>
     ds_intermediates d = map mode_multipliers [0, 0, 1, 1, 1, 1]"
proof -
  show "trajectorySpread_dual moved_schedule moved_schedule moved_dual = Inr ((False, False), kept_dual)" by code_simp
  have "trajectorySpread_dual (ps_modeSchedule moved_solution) moved_schedule moved_dual =
      Inr ((False, True), kept_dual\<lparr>ds_intermediates := map mode_multipliers [0, 0, 1, 1, 1, 1]\<rparr>)" by code_simp
  then show "\<exists>status d. trajectorySpread_dual (ps_modeSchedule moved_solution) moved_schedule moved_dual = Inr (status, d) \<and>
     ds_intermediates d = map mode_multipliers [0, 0, 1, 1, 1, 1]" by (intro exI conjI) (assumption, simp)
qed

lemma no_terms_metrics:
  "ocp_computeIntermediateMetrics empty_terms_problem t x u m [] = Inr new_Metrics"
  "ocp_computePreJumpMetrics empty_terms_problem t x m [] = Inr new_Metrics"
  "ocp_computeFinalMetrics empty_terms_problem t x m = Inr new_Metrics"
  by (simp_all add: empty_terms_problem_def new_OptimalControlProblem_def new_Collection_def empty_Collection_def
      ocp_computeIntermediateMetrics_def ocp_IntermediateMetrics_def ocp_computePreJumpMetrics_def ocp_PreJumpMetrics_def
      ocp_computeFinalMetrics_def ocp_FinalMetrics_def computeCost_def computeEventCost_def computeFinalCost_def targets_of_problem_def
      values_unless_empty_def new_Metrics_def alc_getValue_def StateCostCollection_getValue_def StateInputCostCollection_getValue_def
      cost_collection_value_def)

lemma moved_initializeDualSolution: "initializeDualSolution empty_terms_problem moved_primal kept_dual d = Inr kept_dual"
proof -
  have "initializeDualSolution empty_terms_problem moved_primal kept_dual idle_dual_solution = Inr kept_dual" by code_simp
  then show ?thesis by (metis initializeDualSolution_const)
qed

lemma moved_metrics:
  "\<exists>pm perf. computeRolloutMetrics empty_terms_problem moved_primal kept_dual pm0 = Inr pm \<and>
     computeRolloutPerformanceIndex (ps_timeTrajectory moved_primal) pm = Inr perf"
proof -
  define pm where "pm = \<lparr>pm_final = new_Metrics, pm_preJumps = [new_Metrics], pm_intermediates = replicate 6 new_Metrics\<rparr>"
  have "computeRolloutMetrics empty_terms_problem moved_primal kept_dual pm0 = Inr pm"
    by (simp add: computeRolloutMetrics_def moved_primal_def kept_dual_def moved_dual_def metrics_step_def no_terms_metrics eval_nat_numeral
        clear_ProblemMetrics_def pm_def)
  moreover have "\<exists>perf. computeRolloutPerformanceIndex (ps_timeTrajectory moved_primal) pm = Inr perf"
    by (simp add: computeRolloutPerformanceIndex_def pm_def moved_primal_def trapezoidalIntegration_def)
  ultimately show ?thesis by blast
qed

lemma dual_spread_from_new_schedule_witness:
  "\<exists>s' s'' status d. initializePrimalSolution idle_env moved_schedule moved_state = Inr (True, s') \<and> initializeDualSolutionAndMetrics idle_env s' = Inr s'' \<and>
     ds_intermediates (gn_optimizedDual s'') = map mode_multipliers [0, 0, 0, 0, 1, 1] \<and>
     trajectorySpread_dual (ps_modeSchedule moved_solution) moved_schedule moved_dual = Inr (status, d) \<and> ds_intermediates d = map mode_multipliers [0, 0, 1, 1, 1, 1]"
proof -
  have st: "gn_optimizedPrimal moved_state = moved_solution" "gn_initTime moved_state = 0" "gn_initState moved_state = [0]" "gn_finalTime moved_state = 3"
      "gn_optimizedDual moved_state = moved_dual" "pd_primalSolution (clear_PrimalData (gn_nominalPrimal moved_state)) = clear_PrimalSolution new_PrimalSolution"
    by (simp_all add: moved_state_def idle_state_def clear_PrimalData_def idle_primal_def)
  have ctrl: "ps_controllerPtr moved_solution = Some (Linear (LinearController [] [] []))" "empty_controller (Linear (LinearController [] [] []))"
    by (simp_all add: moved_solution_def LinearController_def lc_empty_def)
  let ?opt = "moved_primal\<lparr>ps_controllerPtr := ps_controllerPtr moved_solution\<rparr>"
  have "extractInitialTrajectories moved_schedule 0 3 moved_solution ((clear_PrimalSolution new_PrimalSolution)\<lparr>ps_modeSchedule := moved_schedule\<rparr>) = Inr (True, ?opt, moved_primal)"
    using moved_spread_primal moved_extraction
    by (simp add: extractInitialTrajectories_def moved_primal_def, simp add: moved_solution_def)
  moreover have "rolloutInitializer idle_env 0 [0] 3 moved_primal = Inr moved_primal" by (simp add: rolloutInitializer_def moved_primal_def)
  ultimately obtain s' where s': "initializePrimalSolution idle_env moved_schedule moved_state = Inr (True, s')" "gn_optimizedPrimal s' = ?opt"
      "pd_primalSolution (gn_nominalPrimal s') = moved_primal" "gn_optimizedDual s' = moved_dual"
    using ctrl st by (simp add: initializePrimalSolution_def initial_primal_def rolloutInitialController_def unstable_rollout_def Let_def)
  from moved_metrics obtain pm perf where m: "computeRolloutMetrics empty_terms_problem moved_primal kept_dual (pd_problemMetrics (gn_nominalPrimal s')) = Inr pm"
      "computeRolloutPerformanceIndex (ps_timeTrajectory moved_primal) pm = Inr perf" by blast
  have sch: "ps_modeSchedule moved_primal = moved_schedule" "ds_timeTrajectory moved_dual \<noteq> []" "de_problem idle_env = empty_terms_problem"
    by (simp_all add: moved_primal_def moved_dual_def idle_env_def)
  then obtain s'' where s'': "initializeDualSolutionAndMetrics idle_env s' = Inr s''"
    using s' moved_spread(1) moved_initializeDualSolution m by (simp add: initializeDualSolutionAndMetrics_def Let_def)
  from dual_spread_from_new_schedule[OF _ ctrl(2) s'(1) _ s''] moved_spread(1) st(1,5) ctrl(1) sch(2)
  have "gn_optimizedDual s'' = kept_dual" by auto
  then have "ds_intermediates (gn_optimizedDual s'') = map mode_multipliers [0, 0, 0, 0, 1, 1]" by (simp add: kept_dual_def moved_dual_def)
  then show ?thesis using s'(1) s'' moved_spread(2) by blast
qed

end
