(* ===== verification/Thread_Pool.thy ===== *)
theory Thread_Pool
  imports Ocs2_Prelude "HOL-Library.Multiset"
begin

text \<open>
  \<open>ocs2_core/thread_support/ThreadPool\<close>: the workers, the queue with its condition variable, \<open>run\<close>, \<open>runParallel\<close> and the
  destructor, as a transition system of one client and \<open>n\<close> workers. Every region under the lock, every notification and every
  execution of a task is one step; a task is a number and ends. The properties: no notification is lost, so every client ends; a
  task is executed once; a call that throws leaves tasks behind.
\<close>

section \<open>State\<close>

text \<open>\<open>Check\<close> is before the test of the predicate under the lock, \<open>Waiting\<close> inside the wait of the condition variable.\<close>

datatype worker_pc = Check | Waiting | Run nat | Exited

text \<open>
  The client runs the calls \<open>runParallel(task, N)\<close> of a list one after the other and then destroys the pool. \<open>Launch\<close> and \<open>Notify\<close>
  carry the helpers still to be launched, \<open>Await\<close> the futures still to be read.
\<close>

datatype client_pc = Idle | Launch nat | Notify nat | Own | Await "nat list" | NotifyAll | Join | Destroyed

record pool_state =
  tp_stop :: bool
  tp_queue :: "nat list"
  tp_workers :: "worker_pc list"
  tp_client :: client_pc
  tp_calls :: "nat list"
  tp_tasks :: "nat list"  \<comment> \<open>the tasks of the current call\<close>
  tp_nextTask :: nat
  tp_executed :: "(nat \<times> nat) list"  \<comment> \<open>tasks with the index they were called with\<close>
  tp_returned :: "(nat list \<times> bool) list"  \<comment> \<open>the tasks of each call and whether it returned normally\<close>

definition ThreadPool :: "nat \<Rightarrow> nat list \<Rightarrow> pool_state" where
  "ThreadPool nThreads calls =
     \<lparr>tp_stop = False, tp_queue = [], tp_workers = replicate nThreads Check, tp_client = Idle, tp_calls = calls, tp_tasks = [],
      tp_nextTask = 0, tp_executed = [], tp_returned = []\<rparr>"

definition numThreads :: "pool_state \<Rightarrow> nat" where
  "numThreads s = length (tp_workers s)"

definition pool_ready :: "pool_state \<Rightarrow> nat \<Rightarrow> bool" where
  "pool_ready s t = (t \<in> fst ` set (tp_executed s))"

section \<open>Steps\<close>

text \<open>One turn of \<open>worker\<close>; a worker that waits or has left its loop does not move on its own.\<close>

definition set_worker :: "nat \<Rightarrow> worker_pc \<Rightarrow> pool_state \<Rightarrow> pool_state" where
  "set_worker i pc s = s\<lparr>tp_workers := (tp_workers s)[i := pc]\<rparr>"

fun worker_turn :: "nat \<Rightarrow> worker_pc \<Rightarrow> pool_state \<Rightarrow> pool_state option" where
  "worker_turn i Check s =
     (if tp_stop s then Some (set_worker i Exited s)
      else case tp_queue s of
             [] \<Rightarrow> Some (set_worker i Waiting s)
           | t # q \<Rightarrow> Some (set_worker i (Run t) (s\<lparr>tp_queue := q\<rparr>)))"
| "worker_turn i (Run t) s = Some (set_worker i Check (s\<lparr>tp_executed := tp_executed s @ [(t, i)]\<rparr>))"
| "worker_turn i Waiting s = None"
| "worker_turn i Exited s = None"

text \<open>A call returns or throws; the tasks that it launched stay where they are.\<close>

definition end_call :: "bool \<Rightarrow> pool_state \<Rightarrow> pool_state" where
  "end_call normal s = s\<lparr>tp_client := Idle, tp_returned := tp_returned s @ [(tp_tasks s, normal)]\<rparr>"

text \<open>A new task with its future.\<close>

definition new_task :: "pool_state \<Rightarrow> pool_state" where
  "new_task s = s\<lparr>tp_tasks := tp_tasks s @ [tp_nextTask s], tp_nextTask := tp_nextTask s + 1\<rparr>"

text \<open>\<open>run\<close>: without workers the task is executed at once with index zero, otherwise it is pushed.\<close>

definition pool_run :: "nat \<Rightarrow> pool_state \<Rightarrow> pool_state" where
  "pool_run r s =
     (let t = tp_nextTask s in
      if tp_workers s = [] then (new_task s)\<lparr>tp_executed := tp_executed s @ [(t, 0)], tp_client := Launch r\<rparr>
      else (new_task s)\<lparr>tp_queue := tp_queue s @ [t], tp_client := Notify r\<rparr>)"

text \<open>
  The client of \<open>runParallel\<close> and of the destructor. \<open>throws\<close> tells which tasks end with an exception. \<open>None\<close> means that the client is
  blocked: in \<open>get\<close> of a future, or in \<open>join\<close>. A notification of one worker is a step of its own below.
\<close>

fun client_turn :: "(nat \<Rightarrow> bool) \<Rightarrow> client_pc \<Rightarrow> pool_state \<Rightarrow> pool_state option" where
  "client_turn throws Idle s =
     (case tp_calls s of
        [] \<Rightarrow> Some (s\<lparr>tp_stop := True, tp_client := NotifyAll\<rparr>)
      | N # calls \<Rightarrow> Some (s\<lparr>tp_calls := calls, tp_tasks := [], tp_client := Launch (N - 1)\<rparr>))"
| "client_turn throws (Launch (Suc r)) s = Some (pool_run r s)"
| "client_turn throws (Launch 0) s = Some (s\<lparr>tp_client := Own\<rparr>)"
| "client_turn throws (Notify r) s = None"
| "client_turn throws Own s =
     (let t = tp_nextTask s; helpers = tp_tasks s; s = (new_task s)\<lparr>tp_executed := tp_executed s @ [(t, numThreads s)]\<rparr> in
      Some (if throws t then end_call False s else s\<lparr>tp_client := Await helpers\<rparr>))"
| "client_turn throws (Await []) s = Some (end_call True s)"
| "client_turn throws (Await (f # fs)) s =
     (if \<not> pool_ready s f then None else Some (if throws f then end_call False s else s\<lparr>tp_client := Await fs\<rparr>))"
| "client_turn throws NotifyAll s = Some (s\<lparr>tp_workers := map (\<lambda>pc. if pc = Waiting then Check else pc) (tp_workers s), tp_client := Join\<rparr>)"
| "client_turn throws Join s = (if \<forall>pc \<in> set (tp_workers s). pc = Exited then Some (s\<lparr>tp_client := Destroyed\<rparr>) else None)"
| "client_turn throws Destroyed s = None"

text \<open>\<open>notify_one\<close> wakes one of the waiting workers, any of them, and does nothing when none waits.\<close>

inductive pool_step :: "(nat \<Rightarrow> bool) \<Rightarrow> pool_state \<Rightarrow> pool_state \<Rightarrow> bool" for throws where
  worker: "i < length (tp_workers s) \<Longrightarrow> worker_turn i (tp_workers s ! i) s = Some s' \<Longrightarrow> pool_step throws s s'"
| client: "client_turn throws (tp_client s) s = Some s' \<Longrightarrow> pool_step throws s s'"
| notify: "tp_client s = Notify r \<Longrightarrow> i < length (tp_workers s) \<Longrightarrow> tp_workers s ! i = Waiting \<Longrightarrow>
           pool_step throws s (set_worker i Check (s\<lparr>tp_client := Launch r\<rparr>))"
| notify_nobody: "tp_client s = Notify r \<Longrightarrow> Waiting \<notin> set (tp_workers s) \<Longrightarrow> pool_step throws s (s\<lparr>tp_client := Launch r\<rparr>)"

text \<open>A condition variable may wake without a notification.\<close>

inductive spurious_wakeup :: "pool_state \<Rightarrow> pool_state \<Rightarrow> bool" where
  wakeup: "i < length (tp_workers s) \<Longrightarrow> tp_workers s ! i = Waiting \<Longrightarrow> spurious_wakeup s (set_worker i Check s)"

inductive pool_reachable :: "nat \<Rightarrow> nat list \<Rightarrow> (nat \<Rightarrow> bool) \<Rightarrow> pool_state \<Rightarrow> bool" for nThreads calls throws where
  start: "pool_reachable nThreads calls throws (ThreadPool nThreads calls)"
| step: "pool_reachable nThreads calls throws s \<Longrightarrow> pool_step throws s s' \<Longrightarrow> pool_reachable nThreads calls throws s'"
| wake: "pool_reachable nThreads calls throws s \<Longrightarrow> spurious_wakeup s s' \<Longrightarrow> pool_reachable nThreads calls throws s'"

section \<open>Every step is progress\<close>

fun worker_weight :: "worker_pc \<Rightarrow> nat" where
  "worker_weight Check = 1"
| "worker_weight Waiting = 0"
| "worker_weight (Run t) = 2"
| "worker_weight Exited = 0"

definition call_weight :: "nat \<Rightarrow> nat" where
  "call_weight N = 7 * N + 4"

fun client_weight :: "nat \<Rightarrow> nat \<Rightarrow> client_pc \<Rightarrow> nat" where
  "client_weight n helpers Idle = n + 4"
| "client_weight n helpers (Launch r) = n + 4 + 7 * r + helpers + 3"
| "client_weight n helpers (Notify r) = n + 4 + 7 * r + helpers + 5"
| "client_weight n helpers Own = n + 4 + helpers + 2"
| "client_weight n helpers (Await fs) = n + 4 + length fs + 1"
| "client_weight n helpers NotifyAll = n + 2"
| "client_weight n helpers Join = 1"
| "client_weight n helpers Destroyed = 0"

definition pool_weight :: "pool_state \<Rightarrow> nat" where
  "pool_weight s = sum_list (map call_weight (tp_calls s)) + client_weight (length (tp_workers s)) (length (tp_tasks s)) (tp_client s) +
     3 * length (tp_queue s) + sum_list (map worker_weight (tp_workers s))"

lemma sum_list_map_update:
  fixes f :: "'a \<Rightarrow> nat"
  assumes "i < length xs"
  shows "sum_list (map f (xs[i := y])) + f (xs ! i) = sum_list (map f xs) + f y"
  using assms by (induction xs arbitrary: i) (auto split: nat.splits)

lemma worker_turn_weight:
  assumes "i < length (tp_workers s)" "worker_turn i (tp_workers s ! i) s = Some s'"
  shows "pool_weight s' < pool_weight s"
proof -
  note u = sum_list_map_update[OF assms(1), of worker_weight]
  show ?thesis using assms(2) u[of Check] u[of Waiting] u[of Exited] u[of "Run (hd (tp_queue s))"]
    by (cases "tp_workers s ! i") (auto simp: pool_weight_def set_worker_def split: if_splits list.splits)
qed

lemma awake_weight: "sum_list (map worker_weight (map (\<lambda>pc. if pc = Waiting then Check else pc) ws)) \<le> sum_list (map worker_weight ws) + length ws"
  by (induction ws) auto

lemma client_turn_weight:
  assumes "client_turn throws (tp_client s) s = Some s'"
  shows "pool_weight s' < pool_weight s"
  using assms awake_weight[of "tp_workers s"]
  by (cases "(throws, tp_client s, s)" rule: client_turn.cases)
     (auto simp: pool_weight_def call_weight_def end_call_def pool_run_def new_task_def Let_def o_def split: if_splits list.splits)

lemma set_worker_simps [simp]:
  "tp_workers (set_worker i pc s) = (tp_workers s)[i := pc]" "tp_queue (set_worker i pc s) = tp_queue s" "tp_client (set_worker i pc s) = tp_client s"
  "tp_stop (set_worker i pc s) = tp_stop s" "tp_calls (set_worker i pc s) = tp_calls s" "tp_tasks (set_worker i pc s) = tp_tasks s"
  "tp_nextTask (set_worker i pc s) = tp_nextTask s" "tp_executed (set_worker i pc s) = tp_executed s" "tp_returned (set_worker i pc s) = tp_returned s"
  by (simp_all add: set_worker_def)

lemma pool_step_weight:
  assumes "pool_step throws s s'"
  shows "pool_weight s' < pool_weight s"
  using assms
proof cases
  case (worker i)
  then show ?thesis by (rule worker_turn_weight)
next
  case client
  then show ?thesis by (rule client_turn_weight)
next
  case (notify r i)
  then show ?thesis using sum_list_map_update[OF notify(3), of worker_weight Check] by (simp add: pool_weight_def)
qed (simp add: pool_weight_def)

section \<open>No notification is lost\<close>

definition awake :: "pool_state \<Rightarrow> bool" where
  "awake s = (\<exists>pc \<in> set (tp_workers s). pc = Check \<or> (\<exists>t. pc = Run t))"

text \<open>Where a task that was launched can be.\<close>

definition placed :: "pool_state \<Rightarrow> nat \<Rightarrow> bool" where
  "placed s t = (t \<in> set (tp_queue s) \<or> Run t \<in> set (tp_workers s) \<or> pool_ready s t)"

definition pool_inv :: "nat \<Rightarrow> pool_state \<Rightarrow> bool" where
  "pool_inv n s =
     (length (tp_workers s) = n \<and>
      (tp_stop s = (tp_client s \<in> {NotifyAll, Join, Destroyed})) \<and>
      (\<not> tp_stop s \<longrightarrow> Exited \<notin> set (tp_workers s)) \<and>
      (tp_queue s \<noteq> [] \<longrightarrow> n \<noteq> 0) \<and>
      (tp_queue s \<noteq> [] \<and> \<not> tp_stop s \<longrightarrow> (\<exists>r. tp_client s = Notify r) \<or> awake s) \<and>
      (tp_client s \<in> {Join, Destroyed} \<longrightarrow> Waiting \<notin> set (tp_workers s)) \<and>
      (tp_client s = Destroyed \<longrightarrow> set (tp_workers s) \<subseteq> {Exited}) \<and>
      (\<forall>t \<in> set (tp_tasks s). placed s t) \<and>
      (\<forall>fs. tp_client s = Await fs \<longrightarrow> set fs \<subseteq> set (tp_tasks s)))"

lemma set_update_keeps: "x \<in> set xs \<Longrightarrow> x \<noteq> xs ! i \<Longrightarrow> x \<in> set (xs[i := y])"
  by (metis in_set_conv_nth length_list_update nth_list_update_neq)

lemma in_set_updateD: "x \<in> set (xs[i := y]) \<Longrightarrow> x = y \<or> x \<in> set xs"
  using set_update_subset_insert by fastforce

lemma placed_worker:
  assumes "i < length (tp_workers s)" "tp_workers s ! i = Check \<or> tp_workers s ! i = Waiting" "placed s t"
  shows "placed (set_worker i pc s) t"
  using assms set_update_keeps[of "Run t" "tp_workers s" i pc] by (auto simp: placed_def pool_ready_def)

lemma worker_turn_inv:
  assumes inv: "pool_inv n s" and i: "i < length (tp_workers s)" and turn: "worker_turn i (tp_workers s ! i) s = Some s'"
  shows "pool_inv n s'"
proof (cases "tp_workers s ! i")
  case Check
  have here: "Check \<in> set (tp_workers s)" using Check i nth_mem by metis
  show ?thesis
  proof (cases "tp_stop s")
    case True
    then have s': "s' = set_worker i Exited s" using turn Check by simp
    have "placed s' t" if "placed s t" for t using placed_worker[OF i _ that] Check s' by simp
    moreover have "Waiting \<notin> set (tp_workers s')" if "Waiting \<notin> set (tp_workers s)" using that in_set_updateD s' by fastforce
    moreover have "tp_client s \<noteq> Destroyed" using here inv by (auto simp: pool_inv_def)
    ultimately show ?thesis using inv True s' by (auto simp: pool_inv_def)
  next
    case run: False
    show ?thesis
    proof (cases "tp_queue s")
      case Nil
      then have s': "s' = set_worker i Waiting s" using turn Check run by simp
      have "placed s' t" if "placed s t" for t using placed_worker[OF i _ that] Check s' by simp
      moreover have "Exited \<notin> set (tp_workers s')" using inv run in_set_updateD s' by (fastforce simp: pool_inv_def)
      ultimately show ?thesis using inv run Nil s' by (auto simp: pool_inv_def)
    next
      case (Cons t q)
      then have s': "s' = set_worker i (Run t) (s\<lparr>tp_queue := q\<rparr>)" using turn Check run by simp
      have w: "Run t \<in> set (tp_workers s')" using i set_update_memI s' by fastforce
      have "placed s' u" if "placed s u" for u
        using that w set_update_keeps[of "Run u" "tp_workers s" i "Run t"] Check Cons s' by (auto simp: placed_def pool_ready_def)
      moreover have "Exited \<notin> set (tp_workers s')" using inv run in_set_updateD s' by (fastforce simp: pool_inv_def)
      moreover have "awake s'" using w by (auto simp: awake_def)
      moreover have "n \<noteq> 0" using inv i by (auto simp: pool_inv_def)
      ultimately show ?thesis using inv run s' by (auto simp: pool_inv_def)
    qed
  qed
next
  case (Run t)
  then have s': "s' = set_worker i Check (s\<lparr>tp_executed := tp_executed s @ [(t, i)]\<rparr>)" using turn by simp
  have w: "Check \<in> set (tp_workers s')" using i set_update_memI s' by fastforce
  have "placed s' u" if "placed s u" for u
    using that set_update_keeps[of "Run u" "tp_workers s" i Check] Run s' by (cases "u = t") (auto simp: placed_def pool_ready_def)
  moreover have "Exited \<notin> set (tp_workers s')" if "Exited \<notin> set (tp_workers s)" using that in_set_updateD s' by fastforce
  moreover have "Waiting \<notin> set (tp_workers s')" if "Waiting \<notin> set (tp_workers s)" using that in_set_updateD s' by fastforce
  moreover have "awake s'" using w by (auto simp: awake_def)
  moreover have "tp_client s \<noteq> Destroyed" using inv Run i nth_mem[OF i] by (auto simp: pool_inv_def)
  ultimately show ?thesis using inv s' by (auto simp: pool_inv_def)
qed (use turn in simp_all)

lemma wake_inv:
  assumes inv: "pool_inv n s" and i: "i < length (tp_workers s)" "tp_workers s ! i = Waiting" and c: "c = tp_client s \<or> (\<exists>r. tp_client s = Notify r \<and> c = Launch r)"
  shows "pool_inv n (set_worker i Check (s\<lparr>tp_client := c\<rparr>))"
proof -
  let ?s = "set_worker i Check (s\<lparr>tp_client := c\<rparr>)"
  have here: "Waiting \<in> set (tp_workers s)" using i nth_mem by metis
  then have j: "tp_client s \<notin> {Join, Destroyed}" "c \<notin> {Join, Destroyed}" using inv c by (auto simp: pool_inv_def)
  have "placed ?s t" if "placed s t" for t using placed_worker[of i "s\<lparr>tp_client := c\<rparr>" t Check] i that by (simp add: placed_def pool_ready_def)
  moreover have "Exited \<notin> set (tp_workers ?s)" if "Exited \<notin> set (tp_workers s)" using that in_set_updateD by fastforce
  moreover have "awake ?s" using i set_update_memI by (fastforce simp: awake_def)
  ultimately show ?thesis using inv c j by (auto simp: pool_inv_def)
qed

lemma spurious_inv: "pool_inv n s \<Longrightarrow> spurious_wakeup s s' \<Longrightarrow> pool_inv n s'"
proof -
  assume inv: "pool_inv n s" and w: "spurious_wakeup s s'"
  from w obtain i where i: "i < length (tp_workers s)" "tp_workers s ! i = Waiting" "s' = set_worker i Check s" by cases
  show ?thesis using wake_inv[OF inv i(1,2), of "tp_client s"] i(3) by simp
qed

lemma idle_worker_awake:
  assumes "tp_workers s \<noteq> []" "Waiting \<notin> set (tp_workers s)" "Exited \<notin> set (tp_workers s)"
  shows "awake s"
proof -
  obtain w ws where "tp_workers s = w # ws" using assms(1) by (cases "tp_workers s") auto
  then show ?thesis using assms(2,3) by (cases w) (auto simp: awake_def)
qed

lemma notify_nobody_inv:
  assumes inv: "pool_inv n s" and "tp_client s = Notify r" and "Waiting \<notin> set (tp_workers s)"
  shows "pool_inv n (s\<lparr>tp_client := Launch r\<rparr>)"
  using assms idle_worker_awake[of s] by (auto simp: pool_inv_def placed_def pool_ready_def awake_def)

lemma wake_all_run: "Run t \<in> set ws \<Longrightarrow> Run t \<in> (\<lambda>pc. if pc = Waiting then Check else pc) ` set ws"
  by force

lemma client_turn_inv:
  assumes inv: "pool_inv n s" and turn: "client_turn throws (tp_client s) s = Some s'"
  shows "pool_inv n s'"
proof (cases "tp_client s")
  case Idle
  then show ?thesis using inv turn
    by (auto simp: pool_inv_def placed_def pool_ready_def awake_def split: list.splits)
next
  case (Launch r)
  then show ?thesis using inv turn
    by (cases r) (auto simp: pool_inv_def pool_run_def new_task_def Let_def placed_def pool_ready_def awake_def split: if_splits)
next
  case Own
  then show ?thesis using inv turn
    by (auto simp: pool_inv_def end_call_def new_task_def Let_def placed_def pool_ready_def awake_def split: if_splits)
next
  case (Await fs)
  then show ?thesis using inv turn
    by (cases fs) (auto simp: pool_inv_def end_call_def placed_def pool_ready_def awake_def split: if_splits)
next
  case NotifyAll
  then show ?thesis using inv turn wake_all_run[of _ "tp_workers s"] by (auto simp: pool_inv_def placed_def pool_ready_def)
next
  case Join
  then show ?thesis using inv turn by (auto simp: pool_inv_def placed_def pool_ready_def split: if_splits)
qed (use turn in simp_all)


lemma pool_step_inv:
  assumes inv: "pool_inv n s" and step: "pool_step throws s s'"
  shows "pool_inv n s'"
  using step
proof cases
  case (worker i)
  then show ?thesis using worker_turn_inv[OF inv] by blast
next
  case client
  then show ?thesis using client_turn_inv[OF inv] by blast
next
  case (notify r i)
  then show ?thesis using wake_inv[OF inv, of i "Launch r"] by blast
next
  case (notify_nobody r)
  then show ?thesis using notify_nobody_inv[OF inv] by blast
qed

lemma start_inv: "pool_inv n (ThreadPool n calls)"
  by (simp add: pool_inv_def ThreadPool_def)

lemma reachable_inv: "pool_reachable n calls throws s \<Longrightarrow> pool_inv n s"
  by (induction rule: pool_reachable.induct) (auto intro: start_inv pool_step_inv spurious_inv)

section \<open>Nobody is blocked for ever\<close>

lemma awake_steps:
  assumes "awake s"
  shows "\<exists>s'. pool_step throws s s'"
proof -
  obtain i where i: "i < length (tp_workers s)" "tp_workers s ! i = Check \<or> (\<exists>t. tp_workers s ! i = Run t)"
    using assms by (auto simp: awake_def in_set_conv_nth)
  then have "worker_turn i (tp_workers s ! i) s \<noteq> None" by (auto split: list.splits)
  then show ?thesis using i pool_step.worker by blast
qed

lemma running_awake: "Run t \<in> set (tp_workers s) \<Longrightarrow> awake s"
  by (auto simp: awake_def)

lemma pool_progress:
  assumes inv: "pool_inv n s" and "tp_client s \<noteq> Destroyed"
  shows "\<exists>s'. pool_step throws s s'"
proof (cases "client_turn throws (tp_client s) s")
  case (Some s')
  then show ?thesis using pool_step.client by blast
next
  case None
  show ?thesis
  proof (cases "tp_client s")
    case (Notify r)
    then show ?thesis
      using pool_step.notify[of s r] pool_step.notify_nobody[of s r] by (metis in_set_conv_nth)
  next
    case (Await fs)
    then obtain f gs where fs: "fs = f # gs" "\<not> pool_ready s f" using None by (cases fs) (auto split: if_splits)
    then have "f \<in> set (tp_tasks s)" using inv Await by (auto simp: pool_inv_def)
    then have "awake s" using inv fs Await running_awake by (fastforce simp: pool_inv_def placed_def)
    then show ?thesis by (rule awake_steps)
  next
    case Join
    then obtain pc where "pc \<in> set (tp_workers s)" "pc \<noteq> Exited" using None by (auto split: if_splits)
    moreover have "pc \<noteq> Waiting" using inv Join \<open>pc \<in> set (tp_workers s)\<close> by (auto simp: pool_inv_def)
    ultimately have "pc = Check \<or> (\<exists>t. pc = Run t)" by (cases rule: worker_pc.exhaust[of pc]) auto
    then have "awake s" using \<open>pc \<in> set (tp_workers s)\<close> by (auto simp: awake_def)
    then show ?thesis by (rule awake_steps)
  next
    case (Launch r)
    then show ?thesis using None by (cases r) auto
  qed (use None assms(2) in \<open>auto simp: Let_def split: list.splits if_splits\<close>)
qed


text \<open>
  A whole run of the program, as an infinite sequence that repeats its last state when nothing can move any more. The scheduler may
  choose any order of the steps.
\<close>

definition pool_execution :: "nat \<Rightarrow> nat list \<Rightarrow> (nat \<Rightarrow> bool) \<Rightarrow> (nat \<Rightarrow> pool_state) \<Rightarrow> bool" where
  "pool_execution nThreads calls throws e =
     (e 0 = ThreadPool nThreads calls \<and>
      (\<forall>k. pool_step throws (e k) (e (Suc k)) \<or> spurious_wakeup (e k) (e (Suc k)) \<or>
           (e (Suc k) = e k \<and> (\<nexists>s'. pool_step throws (e k) s'))))"

definition pool_finished :: "nat \<Rightarrow> pool_state \<Rightarrow> bool" where
  "pool_finished nCalls s =
     (tp_client s = Destroyed \<and> set (tp_workers s) \<subseteq> {Exited} \<and> length (tp_returned s) = nCalls)"

lemma execution_reachable: "pool_execution n calls throws e \<Longrightarrow> pool_reachable n calls throws (e k)"
proof (induction k)
  case (Suc k)
  then show ?case unfolding pool_execution_def
    by (metis pool_reachable.step pool_reachable.wake)
qed (auto simp: pool_execution_def intro: pool_reachable.start)

lemma execution_stops:
  assumes e: "pool_execution n calls throws e" and calm: "\<forall>k \<ge> K. \<not> spurious_wakeup (e k) (e (Suc k))"
  shows "\<exists>k. tp_client (e k) = Destroyed"
proof (rule ccontr)
  assume busy: "\<nexists>k. tp_client (e k) = Destroyed"
  have down: "pool_weight (e (K + j)) + j \<le> pool_weight (e K)" for j
  proof (induction j)
    case (Suc j)
    obtain s' where "pool_step throws (e (K + j)) s'"
      using pool_progress reachable_inv[OF execution_reachable[OF e]] busy by metis
    then have "pool_step throws (e (K + j)) (e (Suc (K + j)))" using e calm by (auto simp: pool_execution_def)
    then show ?case using pool_step_weight Suc by fastforce
  qed simp
  show False using down[of "Suc (pool_weight (e K))"] by simp
qed

section \<open>Every task is accounted for\<close>

definition running_task :: "worker_pc \<Rightarrow> nat list" where
  "running_task pc = (case pc of Run t \<Rightarrow> [t] | _ \<Rightarrow> [])"

definition pool_tasks :: "pool_state \<Rightarrow> nat multiset" where
  "pool_tasks s = mset (tp_queue s) + mset (concat (map running_task (tp_workers s))) + mset (map fst (tp_executed s))"

text \<open>How many tasks the current call has in the end.\<close>

fun current_call :: "nat \<Rightarrow> client_pc \<Rightarrow> nat list" where
  "current_call launched (Launch r) = [launched + r + 1]"
| "current_call launched (Notify r) = [launched + r + 1]"
| "current_call launched Own = [launched + 1]"
| "current_call launched (Await fs) = [launched]"
| "current_call launched _ = []"

definition calls_complete :: "nat set \<Rightarrow> (nat list \<times> bool) list \<Rightarrow> bool" where
  "calls_complete ended rs = list_all (\<lambda>r. snd r \<longrightarrow> set (fst r) \<subseteq> ended) rs"

lemma calls_complete_append [simp]:
  "calls_complete ended (rs @ [(ts, normal)]) = (calls_complete ended rs \<and> (normal \<longrightarrow> set ts \<subseteq> ended))"
  by (simp add: calls_complete_def)

lemma calls_complete_more [simp]: "calls_complete ended rs \<Longrightarrow> calls_complete (insert t ended) rs"
  by (fastforce simp: calls_complete_def list_all_iff)

lemma calls_completeD: "calls_complete ended rs \<Longrightarrow> (ts, True) \<in> set rs \<Longrightarrow> set ts \<subseteq> ended"
  by (fastforce simp: calls_complete_def list_all_iff)

definition pool_account :: "nat list \<Rightarrow> pool_state \<Rightarrow> bool" where
  "pool_account calls s =
     (pool_tasks s = mset [0..<tp_nextTask s] \<and>
      list_all (\<lambda>i. i \<le> numThreads s) (map snd (tp_executed s)) \<and>
      calls_complete (set (map fst (tp_executed s))) (tp_returned s) \<and>
      (\<forall>fs. tp_client s = Await fs \<longrightarrow> set (tp_tasks s) \<subseteq> set fs \<union> set (map fst (tp_executed s))) \<and>
      (tp_client s \<in> {NotifyAll, Join, Destroyed} \<longrightarrow> tp_calls s = []) \<and>
      list_all distinct (tp_tasks s # map fst (tp_returned s)) \<and>
      list_all (\<lambda>t. t < tp_nextTask s) (tp_tasks s) \<and>
      map (length \<circ> fst) (tp_returned s) @ current_call (length (tp_tasks s)) (tp_client s) @ map (max 1) (tp_calls s) = map (max 1) calls)"

lemma less_nextE [intro]: "list_all (\<lambda>t. t < n) ts \<Longrightarrow> list_all (\<lambda>t. t < Suc n) ts"
  by (auto simp: list_all_iff)

lemma next_fresh [simp]: "list_all (\<lambda>t. t < (n :: nat)) ts \<Longrightarrow> n \<notin> set ts"
  by (induction ts) auto

lemma max_one: "max (Suc 0) N = Suc (N - Suc 0)"
  by simp

lemma next_task: "mset_set {0..<Suc n} = add_mset n (mset_set {0..<n})"
  by (simp add: atLeast0_lessThan_Suc)

lemma concat_map_update:
  assumes "i < length xs"
  shows "mset (concat (map f (xs[i := y]))) + mset (f (xs ! i)) = mset (concat (map f xs)) + mset (f y)"
  using assms by (induction xs arbitrary: i) (auto split: nat.splits simp: ac_simps)

lemma wake_all_running: "map (running_task \<circ> (\<lambda>pc. if pc = Waiting then Check else pc)) ws = map running_task ws"
  by (auto simp: running_task_def)

lemma worker_turn_account:
  assumes acc: "pool_account calls s" and i: "i < length (tp_workers s)" and turn: "worker_turn i (tp_workers s ! i) s = Some s'"
  shows "pool_account calls s'"
proof -
  note u = concat_map_update[OF i, of running_task]
  have "pool_tasks s' = pool_tasks s" using turn u[of Exited] u[of Waiting] u[of Check] u[of "Run (hd (tp_queue s))"]
    by (cases "tp_workers s ! i") (auto simp: pool_tasks_def running_task_def split: if_splits list.splits)
  moreover have "pool_account calls s'" if "pool_tasks s' = pool_tasks s" using that acc turn i
    by (cases "tp_workers s ! i") (auto simp: pool_account_def numThreads_def split: if_splits list.splits)
  ultimately show ?thesis by blast
qed

lemma wake_account:
  assumes acc: "pool_account calls s" and i: "i < length (tp_workers s)" "tp_workers s ! i = Waiting" and c: "c = tp_client s \<or> (\<exists>r. tp_client s = Notify r \<and> c = Launch r)"
  shows "pool_account calls (set_worker i Check (s\<lparr>tp_client := c\<rparr>))"
proof -
  have "pool_tasks (set_worker i Check (s\<lparr>tp_client := c\<rparr>)) = pool_tasks s"
    using concat_map_update[OF i(1), of running_task Check] i(2) by (simp add: pool_tasks_def running_task_def)
  then show ?thesis using acc c by (auto simp: pool_account_def pool_ready_def numThreads_def)
qed

lemma client_turn_account:
  assumes acc: "pool_account calls s" and turn: "client_turn throws (tp_client s) s = Some s'"
  shows "pool_account calls s'"
proof (cases "tp_client s")
  case Idle
  then show ?thesis using acc turn by (auto simp: pool_account_def pool_tasks_def pool_ready_def numThreads_def max_one next_task split: list.splits)
next
  case (Launch r)
  then show ?thesis using acc turn
    by (cases r) (auto simp: pool_account_def pool_tasks_def pool_ready_def numThreads_def max_one next_task pool_run_def new_task_def Let_def split: if_splits)
next
  case Own
  then show ?thesis using acc turn
    by (auto simp: pool_account_def pool_tasks_def pool_ready_def numThreads_def max_one next_task end_call_def new_task_def Let_def split: if_splits)
next
  case (Await fs)
  show ?thesis
  proof (cases fs)
    case Nil
    then show ?thesis using acc turn Await
      by (auto simp: pool_account_def pool_tasks_def numThreads_def end_call_def)
  next
    case (Cons f gs)
    then have f: "f \<in> fst ` set (tp_executed s)" using turn Await by (auto simp: pool_ready_def split: if_splits)
    moreover have "set (tp_tasks s) \<subseteq> set fs \<union> fst ` set (tp_executed s)" using acc Await by (auto simp: pool_account_def)
    ultimately have "set (tp_tasks s) \<subseteq> set gs \<union> fst ` set (tp_executed s)" using Cons by auto
    then show ?thesis using acc turn Await Cons
      by (simp add: pool_account_def pool_tasks_def numThreads_def end_call_def split: if_splits) auto
  qed
next
  case NotifyAll
  then show ?thesis using acc turn
    by (auto simp: wake_all_running pool_account_def pool_tasks_def pool_ready_def numThreads_def max_one next_task)
next
  case Join
  then show ?thesis using acc turn by (auto simp: pool_account_def pool_tasks_def pool_ready_def numThreads_def max_one next_task split: if_splits)
qed (use turn in simp_all)

lemma pool_step_account:
  assumes acc: "pool_account calls s" and step: "pool_step throws s s'"
  shows "pool_account calls s'"
  using step
proof cases
  case (worker i)
  then show ?thesis using worker_turn_account[OF acc] by blast
next
  case client
  then show ?thesis using client_turn_account[OF acc] by blast
next
  case (notify r i)
  then show ?thesis using wake_account[OF acc, of i "Launch r"] by blast
next
  case (notify_nobody r)
  then show ?thesis using acc by (auto simp: pool_account_def pool_tasks_def pool_ready_def numThreads_def max_one next_task)
qed

lemma start_account: "pool_account calls (ThreadPool n calls)"
proof -
  have "concat (map running_task (replicate n Check)) = []" by (induction n) (auto simp: running_task_def)
  then show ?thesis by (simp add: pool_account_def ThreadPool_def pool_tasks_def calls_complete_def)
qed

lemma spurious_account: "pool_account calls s \<Longrightarrow> spurious_wakeup s s' \<Longrightarrow> pool_account calls s'"
proof -
  assume acc: "pool_account calls s" and w: "spurious_wakeup s s'"
  from w obtain i where i: "i < length (tp_workers s)" "tp_workers s ! i = Waiting" "s' = set_worker i Check s" by cases
  show ?thesis using wake_account[OF acc i(1,2), of "tp_client s"] i(3) by simp
qed

lemma reachable_account: "pool_reachable n calls throws s \<Longrightarrow> pool_account calls s"
  by (induction rule: pool_reachable.induct) (auto intro: start_account pool_step_account spurious_account)


lemma executed_distinct: "pool_tasks s = mset [0..<k] \<Longrightarrow> distinct (map fst (tp_executed s))"
proof -
  assume "pool_tasks s = mset [0..<k]"
  then have "mset (map fst (tp_executed s) @ concat (map running_task (tp_workers s)) @ tp_queue s) = mset [0..<k]"
    by (simp add: pool_tasks_def ac_simps)
  then have "distinct (map fst (tp_executed s) @ concat (map running_task (tp_workers s)) @ tp_queue s)"
    by (metis distinct_upt mset_eq_imp_distinct_iff)
  then show ?thesis by simp
qed

lemma filter_key: "(t, i) \<in> set xs \<Longrightarrow> distinct (map fst xs) \<Longrightarrow> filter (\<lambda>x. fst x = t) xs = [(t, i)]"
proof (induction xs)
  case (Cons x xs)
  show ?case
  proof (cases "fst x = t")
    case True
    then have none: "filter (\<lambda>y. fst y = t) xs = []" using Cons.prems(2) by (auto simp: filter_empty_conv image_iff)
    have "(t, i) \<notin> set xs" using none by (auto simp: filter_empty_conv)
    then show ?thesis using True none Cons.prems(1) by simp
  next
    case False
    then show ?thesis using Cons by auto
  qed
qed simp

section \<open>Properties\<close>

lemma finished_stays:
  assumes "tp_client s = Destroyed" "set (tp_workers s) \<subseteq> {Exited}"
  shows "\<not> pool_step throws s s'" "\<not> spurious_wakeup s s'"
proof -
  have "tp_workers s ! i = Exited" if "i < length (tp_workers s)" for i using assms(2) that nth_mem by blast
  then show "\<not> pool_step throws s s'" "\<not> spurious_wakeup s s'"
    using assms(1) by (auto elim!: pool_step.cases spurious_wakeup.cases)
qed

lemma destroyed_finished:
  assumes "pool_reachable n calls throws s" "tp_client s = Destroyed"
  shows "pool_finished (length calls) s"
proof -
  have inv: "pool_inv n s" "pool_account calls s" using assms(1) reachable_inv reachable_account by blast+
  then have "map (length \<circ> fst) (tp_returned s) = map (max 1) calls" using assms(2) by (auto simp: pool_account_def)
  then have "length (tp_returned s) = length calls" by (rule map_eq_imp_length_eq)
  then show ?thesis using inv assms(2) by (simp add: pool_finished_def pool_inv_def)
qed

text \<open>
  C34. No notification is lost. With any number of workers, any list of calls of \<open>runParallel\<close>, any tasks that throw and any order of
  the steps, an execution in which the condition variable wakes without a notification only finitely often ends: every call has
  returned or thrown, the destructor has joined every worker, and nothing moves any more. No fairness is assumed.
\<close>

theorem thread_pool_ends:
  assumes "pool_execution n calls throws e"
    and "\<forall>k \<ge> K. \<not> spurious_wakeup (e k) (e (Suc k))"
  shows "\<exists>k. \<forall>j \<ge> k. pool_finished (length calls) (e j)"
proof -
  obtain k where k: "tp_client (e k) = Destroyed" using execution_stops[OF assms] by blast
  then have fin: "pool_finished (length calls) (e k)" using destroyed_finished execution_reachable[OF assms(1)] by blast
  have "e (k + j) = e k" for j
  proof (induction j)
    case (Suc j)
    then show ?case using assms(1) fin finished_stays[of "e k"] by (auto simp: pool_execution_def pool_finished_def) (metis Suc)+
  qed simp
  then show ?thesis using fin by (metis le_iff_add)
qed

text \<open>A schedule names who moves, the client or a worker; the executions of the examples follow schedules.\<close>

fun scheduled :: "(nat \<Rightarrow> bool) \<Rightarrow> nat option \<Rightarrow> pool_state \<Rightarrow> pool_state option" where
  "scheduled throws None s =
     (case tp_client s of
        Notify r \<Rightarrow> if Waiting \<in> set (tp_workers s) then None else Some (s\<lparr>tp_client := Launch r\<rparr>)
      | c \<Rightarrow> client_turn throws c s)"
| "scheduled throws (Some i) s = (if i < length (tp_workers s) then worker_turn i (tp_workers s ! i) s else None)"

lemma scheduled_step: "scheduled throws c s = Some s' \<Longrightarrow> pool_step throws s s'"
  by (cases c) (auto intro: pool_step.worker pool_step.notify_nobody pool_step.client split: client_pc.splits if_splits)

fun follow :: "(nat \<Rightarrow> bool) \<Rightarrow> nat option list \<Rightarrow> pool_state \<Rightarrow> nat \<Rightarrow> pool_state" where
  "follow throws cs s 0 = s"
| "follow throws [] s (Suc k) = s"
| "follow throws (c # cs) s (Suc k) = follow throws cs (the (scheduled throws c s)) k"

fun ends_with :: "(nat \<Rightarrow> bool) \<Rightarrow> nat option list \<Rightarrow> pool_state \<Rightarrow> bool" where
  "ends_with throws [] s = (tp_client s = Destroyed \<and> set (tp_workers s) \<subseteq> {Exited})"
| "ends_with throws (c # cs) s = (case scheduled throws c s of None \<Rightarrow> False | Some s' \<Rightarrow> ends_with throws cs s')"

lemma spurious_weight: "spurious_wakeup s s' \<Longrightarrow> pool_weight s < pool_weight s'"
proof -
  assume "spurious_wakeup s s'"
  then obtain i where "i < length (tp_workers s)" "tp_workers s ! i = Waiting" "s' = set_worker i Check s" by cases
  then show ?thesis using sum_list_map_update[of i "tp_workers s" worker_weight Check] by (simp add: pool_weight_def)
qed

lemma follow_moves:
  assumes "ends_with throws cs s"
  shows "(pool_step throws (follow throws cs s k) (follow throws cs s (Suc k)) \<or>
          (follow throws cs s (Suc k) = follow throws cs s k \<and> (\<nexists>s'. pool_step throws (follow throws cs s k) s'))) \<and>
         \<not> spurious_wakeup (follow throws cs s k) (follow throws cs s (Suc k))"
  using assms
proof (induction throws cs s k rule: follow.induct)
  case (1 throws cs s)
  show ?case
  proof (cases cs)
    case Nil
    then show ?thesis using 1 finished_stays[of s] by auto
  next
    case (Cons c ds)
    then obtain s' where "scheduled throws c s = Some s'" using 1 by (auto split: option.splits)
    then have "pool_step throws s s'" by (rule scheduled_step)
    moreover from this have "\<not> spurious_wakeup s s'" using pool_step_weight spurious_weight less_asym by blast
    ultimately show ?thesis using Cons \<open>scheduled throws c s = Some s'\<close> by simp
  qed
next
  case (2 throws s k)
  then show ?case using finished_stays[of s] by auto
next
  case (3 throws c cs s k)
  then show ?case by (auto split: option.splits)
qed

lemma follow_execution:
  assumes "ends_with throws cs (ThreadPool n calls)"
  shows "pool_execution n calls throws (follow throws cs (ThreadPool n calls))"
    and "\<forall>k \<ge> 0. \<not> spurious_wakeup (follow throws cs (ThreadPool n calls) k) (follow throws cs (ThreadPool n calls) (Suc k))"
  using follow_moves[OF assms] by (auto simp: pool_execution_def)

text \<open>One worker and one call of two tasks.\<close>

definition example_schedule :: "nat option list" where
  "example_schedule = [None, None, Some 0, None, None, Some 0, None, None, None, None, None, Some 0, None]"

lemma example_schedule_ends: "ends_with (\<lambda>t. False) example_schedule (ThreadPool 1 [2])"
  by (simp add: example_schedule_def ThreadPool_def set_worker_def pool_run_def new_task_def end_call_def pool_ready_def Let_def)


text \<open>The hypotheses hold for the execution of the schedule.\<close>

lemma thread_pool_ends_witness:
  "\<exists>k. \<forall>j \<ge> k. pool_finished 1 (follow (\<lambda>t. False) example_schedule (ThreadPool 1 [2]) j)"
  using thread_pool_ends[OF follow_execution[OF example_schedule_ends]] by simp

text \<open>
  C35. A call of \<open>runParallel(task, N)\<close> that returned normally has run the task \<open>max 1 N\<close> times: its tasks are that many and distinct, and
  each was executed exactly once, with a worker index of at most the number of threads, which is the index of the calling thread.
\<close>

theorem runParallel_runs_every_task:
  assumes "pool_reachable n calls throws s"
    and "r < length (tp_returned s)" and "tp_returned s ! r = (ts, True)"
  shows "distinct ts \<and> length ts = max 1 (calls ! r) \<and>
         (\<forall>t \<in> set ts. \<exists>i \<le> n. filter (\<lambda>x. fst x = t) (tp_executed s) = [(t, i)])"
proof -
  have acc: "pool_account calls s" and n: "numThreads s = n"
    using reachable_account[OF assms(1)] reachable_inv[OF assms(1)] by (auto simp: pool_inv_def numThreads_def)
  have "\<exists>rest. map (max 1) calls = map (length \<circ> fst) (tp_returned s) @ rest"
    using acc unfolding pool_account_def by metis
  then obtain rest where rest: "map (max 1) calls = map (length \<circ> fst) (tp_returned s) @ rest" by blast
  then have "map (max 1) calls ! r = length ts" using assms(2,3) by (simp add: nth_append)
  moreover have "r < length calls" using arg_cong[OF rest, of length] assms(2) by simp
  ultimately have "length ts = max 1 (calls ! r)" by simp
  moreover have "distinct ts" using acc nth_mem[OF assms(2)] assms(3) by (auto simp: pool_account_def list_all_iff)
  moreover have "\<exists>i \<le> n. filter (\<lambda>x. fst x = t) (tp_executed s) = [(t, i)]" if "t \<in> set ts" for t
  proof -
    have "calls_complete (set (map fst (tp_executed s))) (tp_returned s)" using acc unfolding pool_account_def by blast
    then have "t \<in> fst ` set (tp_executed s)" using calls_completeD nth_mem[OF assms(2)] assms(3) that by fastforce
    then obtain i where i: "(t, i) \<in> set (tp_executed s)" by auto
    moreover have "distinct (map fst (tp_executed s))"
      using acc by (intro executed_distinct) (simp add: pool_account_def)
    ultimately have "filter (\<lambda>x. fst x = t) (tp_executed s) = [(t, i)]" by (rule filter_key)
    moreover have "i \<le> n" using acc i n by (force simp: pool_account_def list_all_iff)
    ultimately show ?thesis by blast
  qed
  ultimately show ?thesis by simp
qed


lemma follow_reachable:
  assumes "ends_with throws cs (ThreadPool n calls)"
  shows "pool_reachable n calls throws (follow throws cs (ThreadPool n calls) k)"
  by (rule execution_reachable[OF follow_execution(1)[OF assms]])

text \<open>At the end of the schedule the call has returned; the worker has run task 0 and the client task 1.\<close>

lemma example_schedule_result:
  "tp_returned (follow (\<lambda>t. False) example_schedule (ThreadPool 1 [2]) 13) = [([0, 1], True)]"
  "tp_executed (follow (\<lambda>t. False) example_schedule (ThreadPool 1 [2]) 13) = [(0, 0), (1, 1)]"
  by (simp_all add: example_schedule_def ThreadPool_def set_worker_def pool_run_def new_task_def end_call_def pool_ready_def
      numThreads_def Let_def eval_nat_numeral)

lemma runParallel_runs_every_task_witness:
  "(\<exists>i. i \<le> 1 \<and> filter (\<lambda>x. fst x = 0) (tp_executed (follow (\<lambda>t. False) example_schedule (ThreadPool 1 [2]) 13)) = [(0, i)]) \<and>
   (\<exists>i. i \<le> 1 \<and> filter (\<lambda>x. fst x = 1) (tp_executed (follow (\<lambda>t. False) example_schedule (ThreadPool 1 [2]) 13)) = [(1, i)])"
  using runParallel_runs_every_task[OF follow_reachable[OF example_schedule_ends, of 13], of 0 "[0, 1]"] example_schedule_result(1)
  by simp

text \<open>The launching of the helpers while no worker moves.\<close>

lemma launched_first:
  assumes "0 < n" "k \<le> N - 1"
  shows "\<exists>s. pool_reachable n [N] throws s \<and> tp_client s = Launch (N - 1 - k) \<and> tp_queue s = [0..<k] \<and> tp_tasks s = [0..<k] \<and>
             tp_nextTask s = k \<and> tp_executed s = [] \<and> tp_returned s = [] \<and> tp_workers s = replicate n Check"
  using assms(2)
proof (induction k)
  case 0
  let ?s = "(ThreadPool n [N])\<lparr>tp_calls := [], tp_tasks := [], tp_client := Launch (N - 1)\<rparr>"
  have "pool_step throws (ThreadPool n [N]) ?s" by (rule pool_step.client) (simp add: ThreadPool_def)
  then have "pool_reachable n [N] throws ?s" using pool_reachable.start pool_reachable.step by blast
  then show ?case by (intro exI[of _ ?s]) (simp add: ThreadPool_def)
next
  case (Suc k)
  then obtain s where s: "pool_reachable n [N] throws s" "tp_client s = Launch (Suc (N - 1 - Suc k))" "tp_queue s = [0..<k]" "tp_tasks s = [0..<k]"
    "tp_nextTask s = k" "tp_executed s = []" "tp_returned s = []" "tp_workers s = replicate n Check" by (force simp: Suc_diff_Suc)
  let ?t = "pool_run (N - 1 - Suc k) s"
  have ne: "replicate n Check \<noteq> []" using assms(1) by simp
  have t: "?t = (new_task s)\<lparr>tp_queue := [0..<Suc k], tp_client := Notify (N - 1 - Suc k)\<rparr>"
    using s ne by (simp only: pool_run_def Let_def) simp
  have "pool_step throws s ?t" by (rule pool_step.client) (simp add: s(2))
  moreover have "pool_step throws ?t (?t\<lparr>tp_client := Launch (N - 1 - Suc k)\<rparr>)"
    by (rule pool_step.notify_nobody[of _ "N - 1 - Suc k"]) (simp_all only: t, simp_all add: new_task_def s(8))
  ultimately have "pool_reachable n [N] throws (?t\<lparr>tp_client := Launch (N - 1 - Suc k)\<rparr>)" using s(1) pool_reachable.step by blast
  then show ?case by (intro exI[of _ "?t\<lparr>tp_client := Launch (N - 1 - Suc k)\<rparr>"] conjI) (simp_all only: t, simp_all add: new_task_def s)
qed

text \<open>
  C36. \<open>runParallel\<close> is said to return when all tasks are completed, and it captures its callers' variables by reference. When the
  execution in the calling thread throws, it does not: with any number of workers it can leave with every helper still in the queue,
  to be executed later.
\<close>

theorem throwing_call_leaves_helpers:
  assumes "0 < n" and "1 < N" and "throws (N - 1)"
  shows "\<exists>s. pool_reachable n [N] throws s \<and> tp_client s = Idle \<and> tp_returned s = [([0..<N], False)] \<and> tp_queue s = [0..<N - 1]"
proof -
  obtain s where s: "pool_reachable n [N] throws s" "tp_client s = Launch 0" "tp_queue s = [0..<N - 1]" "tp_tasks s = [0..<N - 1]"
    "tp_nextTask s = N - 1" "tp_returned s = []" using launched_first[OF assms(1) order_refl, of N throws] by auto
  define own where "own = s\<lparr>tp_client := Own\<rparr>"
  define left where "left = end_call False ((new_task own)\<lparr>tp_executed := tp_executed own @ [(N - 1, numThreads own)]\<rparr>)"
  have "pool_step throws s own" by (rule pool_step.client) (simp add: s(2) own_def)
  moreover have "pool_step throws own left"
    by (rule pool_step.client) (use assms(3) in \<open>simp add: own_def left_def Let_def s new_task_def end_call_def\<close>)
  ultimately have "pool_reachable n [N] throws left" using s(1) pool_reachable.step by blast
  moreover have "[0..<N - 1] @ [N - 1] = [0..<N]" using assms(2) by (metis Suc_diff_1 less_trans upt_Suc_append zero_le zero_less_one)
  ultimately show ?thesis
    by (intro exI[of _ left]) (simp add: left_def own_def end_call_def new_task_def s)
qed

lemma throwing_call_leaves_helpers_witness:
  "\<exists>s. pool_reachable 2 [3] (\<lambda>t. t = 2) s \<and> tp_client s = Idle \<and> tp_returned s = [([0, 1, 2], False)] \<and> tp_queue s = [0, 1]"
  using throwing_call_leaves_helpers[of 2 3 "\<lambda>t. t = 2"] by (simp add: upt_rec numeral_2_eq_2 numeral_3_eq_3)

end
