(* ===== verification/Eigen_Blocks.thy ===== *)
theory Eigen_Blocks
  imports Linear_Algebra Constraint_Terms
begin

text \<open>
  Blocks of a matrix and segments of a vector in the style of Eigen: \<open>block(r, c, h, w) = B\<close>, \<open>segment(r, n) = v\<close>, and the comma
  initialiser, which asserts that the pieces fill what it writes. The facts: what the product of such a matrix with a vector is.
\<close>

section \<open>Operations\<close>

definition set_block :: "dmatrix \<Rightarrow> nat \<Rightarrow> nat \<Rightarrow> dmatrix \<Rightarrow> dmatrix result" where
  "set_block A r c B =
     (if r + m_rows B \<le> m_rows A \<and> c + m_cols B \<le> m_cols A then
        Inr (mk_mat (m_rows A) (m_cols A)
               (\<lambda>i j. if r \<le> i \<and> i < r + m_rows B \<and> c \<le> j \<and> j < c + m_cols B then m_at B (i - r) (j - c) else m_at A i j))
      else Inl Assertion_Failed)"

text \<open>\<open>A.block(r, c, h, w) << \<dots>\<close>, where the pieces have to have the size of the block.\<close>

definition fill_block :: "dmatrix \<Rightarrow> nat \<Rightarrow> nat \<Rightarrow> nat \<Rightarrow> nat \<Rightarrow> dmatrix \<Rightarrow> dmatrix result" where
  "fill_block A r c h w B = (if m_rows B = h \<and> m_cols B = w then set_block A r c B else Inl Assertion_Failed)"

definition fill_segment :: "vector_t \<Rightarrow> nat \<Rightarrow> nat \<Rightarrow> vector_t \<Rightarrow> vector_t result" where
  "fill_segment v r n s = (if length s = n then set_segment v r s else Inl Assertion_Failed)"

definition beside_pure :: "dmatrix \<Rightarrow> dmatrix \<Rightarrow> dmatrix" where
  "beside_pure A B = mk_mat (m_rows A) (m_cols A + m_cols B) (\<lambda>i j. if j < m_cols A then m_at A i j else m_at B i (j - m_cols A))"

definition above_pure :: "dmatrix \<Rightarrow> dmatrix \<Rightarrow> dmatrix" where
  "above_pure A B = mk_mat (m_rows A + m_rows B) (m_cols A) (\<lambda>i j. if i < m_rows A then m_at A i j else m_at B (i - m_rows A) j)"

text \<open>Two pieces of a comma initialiser beside each other, and one line of it above the next.\<close>

definition beside :: "dmatrix \<Rightarrow> dmatrix \<Rightarrow> dmatrix result" where
  "beside A B = (if m_rows A = m_rows B then Inr (beside_pure A B) else Inl Assertion_Failed)"

definition above :: "dmatrix \<Rightarrow> dmatrix \<Rightarrow> dmatrix result" where
  "above A B = (if m_cols A = m_cols B then Inr (above_pure A B) else Inl Assertion_Failed)"

section \<open>Dimensions\<close>

lemma block_dims [simp, mat_dims]:
  "m_rows (beside_pure A B) = m_rows A" "m_cols (beside_pure A B) = m_cols A + m_cols B"
  "m_rows (above_pure A B) = m_rows A + m_rows B" "m_cols (above_pure A B) = m_cols A"
  "m_rows (identity n) = n" "m_cols (identity n) = n"
  by (simp_all add: beside_pure_def above_pure_def identity_def)

lemma block_checked [result_simps]:
  "m_rows A = m_rows B \<Longrightarrow> beside A B = Inr (beside_pure A B)"
  "m_cols A = m_cols B \<Longrightarrow> above A B = Inr (above_pure A B)"
  "m_rows B = h \<Longrightarrow> m_cols B = w \<Longrightarrow> fill_block A r c h w B = set_block A r c B"
  "length s = n \<Longrightarrow> fill_segment v r n s = set_segment v r s"
  by (simp_all add: beside_def above_def fill_block_def fill_segment_def)

section \<open>Products\<close>

lemma sum_append:
  fixes f :: "nat \<Rightarrow> scalar"
  shows "(\<Sum>j < m + n. f j) = (\<Sum>j < m. f j) + (\<Sum>j < n. f (m + j))"
  by (induction n) simp_all

lemma dot_append: "length u = length x \<Longrightarrow> dot (u @ v) (x @ y) = dot u x + dot v y"
  by (simp add: dot_def sum_append nth_append)

lemma vadd_append: "length u = length x \<Longrightarrow> vadd (u @ v) (x @ y) = vadd u x @ vadd v y"
  by (rule nth_equalityI) (auto simp: nth_append)

lemma vadd_zero_right [simp]: "length u = n \<Longrightarrow> vadd u (zero_vec n) = u"
  by (intro nth_equalityI) (simp_all add: zero_vec_def)

lemma vadd_zero_left [simp]: "length u = n \<Longrightarrow> vadd (zero_vec n) u = u"
  by (intro nth_equalityI) (simp_all add: zero_vec_def)

lemma zero_vec_append: "zero_vec (m + n) = zero_vec m @ zero_vec n"
  by (simp add: zero_vec_def replicate_add)

lemma mv_beside: "m_rows A = m_rows B \<Longrightarrow> length u = m_cols A \<Longrightarrow> mv (beside_pure A B) (u @ v) = vadd (mv A u) (mv B v)"
  by (intro nth_equalityI) (simp_all add: beside_pure_def sum_append nth_append)

lemma mv_above: "m_cols A = m_cols B \<Longrightarrow> mv (above_pure A B) u = mv A u @ mv B u"
  by (intro nth_equalityI) (auto simp: above_pure_def nth_append)

lemma vneg_zero_vec [simp]: "vneg (zero_vec n) = zero_vec n"
  by (simp add: vneg_def zero_vec_def)

text \<open>The rows from \<open>r\<close> on are zero; a block that is written there acts on its own columns only.\<close>

definition zero_below :: "dmatrix \<Rightarrow> nat \<Rightarrow> bool" where
  "zero_below A r = (\<forall>i j. r \<le> i \<longrightarrow> i < m_rows A \<longrightarrow> j < m_cols A \<longrightarrow> m_at A i j = 0)"

lemma zero_below_mv: "zero_below A r \<Longrightarrow> r \<le> m_rows A \<Longrightarrow> mv A w = take r (mv A w) @ zero_vec (m_rows A - r)"
  by (rule nth_equalityI) (auto simp: nth_append zero_below_def zero_vec_def)

lemma set_block_ok:
  assumes "r + m_rows B \<le> m_rows A" "c + m_cols B \<le> m_cols A"
  obtains A' where "set_block A r c B = Inr A'" "m_rows A' = m_rows A" "m_cols A' = m_cols A"
    "\<And>i j. i < m_rows A \<Longrightarrow> j < m_cols A \<Longrightarrow>
       m_at A' i j = (if r \<le> i \<and> i < r + m_rows B \<and> c \<le> j \<and> j < c + m_cols B then m_at B (i - r) (j - c) else m_at A i j)"
  using assms by (auto simp: set_block_def)

lemma set_block_mv:
  assumes set: "set_block A r c B = Inr A'" and zero: "zero_below A r"
    and w: "w = pre @ x @ post" "length pre = c" "length x = m_cols B" "length w = m_cols A"
  shows "m_rows A' = m_rows A \<and> m_cols A' = m_cols A \<and> zero_below A' (r + m_rows B) \<and> r + m_rows B \<le> m_rows A \<and>
         mv A' w = take r (mv A w) @ mv B x @ zero_vec (m_rows A - (r + m_rows B))"
proof -
  have fits: "r + m_rows B \<le> m_rows A" "c + m_cols B \<le> m_cols A" and
    A': "A' = mk_mat (m_rows A) (m_cols A)
               (\<lambda>i j. if r \<le> i \<and> i < r + m_rows B \<and> c \<le> j \<and> j < c + m_cols B then m_at B (i - r) (j - c) else m_at A i j)"
    using set by (auto simp: set_block_def split: if_splits)
  have cols: "m_cols A = c + (m_cols B + length post)" using w by simp
  have row: "mv A' w ! i = (if i < r then mv A w ! i else if i < r + m_rows B then mv B x ! (i - r) else 0)" if i: "i < m_rows A" for i
  proof -
    have "(\<Sum>j < m_cols A. m_at A' i j * w ! j) =
          (\<Sum>j < c. m_at A' i j * w ! j) + ((\<Sum>j < m_cols B. m_at A' i (c + j) * w ! (c + j)) +
          (\<Sum>j < length post. m_at A' i (c + (m_cols B + j)) * w ! (c + (m_cols B + j))))"
      by (simp add: cols sum_append)
    moreover have "r \<le> i \<Longrightarrow> (\<Sum>j < c. m_at A' i j * w ! j) = 0"
      using zero i cols by (intro sum.neutral) (auto simp: A' zero_below_def)
    moreover have "r \<le> i \<Longrightarrow> (\<Sum>j < length post. m_at A' i (c + (m_cols B + j)) * w ! (c + (m_cols B + j))) = 0"
      using zero i cols by (intro sum.neutral) (auto simp: A' zero_below_def)
    moreover have "r \<le> i \<Longrightarrow> i < r + m_rows B \<Longrightarrow>
        (\<Sum>j < m_cols B. m_at A' i (c + j) * w ! (c + j)) = (\<Sum>j < m_cols B. m_at B (i - r) j * x ! j)"
      using i w cols by (intro sum.cong) (auto simp: A' nth_append)
    moreover have "r + m_rows B \<le> i \<Longrightarrow> (\<Sum>j < m_cols B. m_at A' i (c + j) * w ! (c + j)) = 0"
      using zero i cols by (intro sum.neutral) (auto simp: A' zero_below_def)
    moreover have "i < r \<Longrightarrow> (\<Sum>j < m_cols A. m_at A' i j * w ! j) = (\<Sum>j < m_cols A. m_at A i j * w ! j)"
      using i by (intro sum.cong) (auto simp: A')
    ultimately show ?thesis using i fits by (auto simp: A')
  qed
  have "mv A' w = take r (mv A w) @ mv B x @ zero_vec (m_rows A - (r + m_rows B))"
  proof (rule nth_equalityI)
    show "length (mv A' w) = length (take r (mv A w) @ mv B x @ zero_vec (m_rows A - (r + m_rows B)))" using fits by (simp add: A')
    fix i assume "i < length (mv A' w)"
    then have i: "i < m_rows A" by (simp add: A')
    show "mv A' w ! i = (take r (mv A w) @ mv B x @ zero_vec (m_rows A - (r + m_rows B))) ! i"
      using row[OF i] i fits by (auto simp: nth_append zero_vec_def)
  qed
  moreover have "zero_below A' (r + m_rows B)" using zero by (auto simp: A' zero_below_def)
  ultimately show ?thesis using fits by (simp add: A')
qed

lemma set_block_succeeds: "r + m_rows B \<le> m_rows A \<Longrightarrow> c + m_cols B \<le> m_cols A \<Longrightarrow> \<exists>A'. set_block A r c B = Inr A'"
  by (simp add: set_block_def)

end
