(* ===== verification/Qp_Solver.thy ===== *)
theory Qp_Solver
  imports Eigen_Blocks Model_Checks
begin

text \<open>
  \<open>mpc/ocs2_qp_solver/src/QpSolver.cpp\<close>: a discrete linear-quadratic problem as one dense equality-constrained QP in the decision
  vector \<open>w = [dx0; du0; dx1; du1; \<dots>; dxN]\<close>, and its solution by the LU factorisation of the KKT matrix, which is a parameter.
\<close>

section \<open>Stages\<close>

record lq_stage =
  st_cost :: scalar_quadratic
  st_dynamics :: vector_linear
  st_constraints :: vector_linear

definition getNumStatesInputsConstraints :: "lq_stage list \<Rightarrow> (nat list \<times> nat list \<times> nat list) result" where
  "getNumStatesInputsConstraints lqp =
     (if lqp = [] then Inr ([], [], [])
      else let N = length lqp - 1 in
        if N = 0 then Inl Undefined  \<comment> \<open>\<open>linearQuadraticApproximation[N - 1]\<close>\<close>
        else let stages = take N lqp in
          Inr (map (\<lambda>s. m_cols (vl_dfdx (st_dynamics s))) stages @ [m_rows (vl_dfdx (st_dynamics (lqp ! (N - 1))))],
               map (\<lambda>s. m_cols (vl_dfdu (st_dynamics s))) stages,
               map (\<lambda>s. length (vl_f (st_constraints s))) stages @ [length (vl_f (st_constraints (lqp ! N)))]))"

definition getNumDecisionVariables :: "nat list \<Rightarrow> nat list \<Rightarrow> nat" where
  "getNumDecisionVariables numStates numInputs = sum_list numStates + sum_list numInputs"

definition getNumConstraints :: "nat list \<Rightarrow> nat list \<Rightarrow> nat" where
  "getNumConstraints numStates numConstraints = sum_list numStates + sum_list numConstraints"

section \<open>Constraints\<close>

text \<open>The matrix, the vector, and the position of the next block.\<close>

type_synonym constraint_state = "dmatrix \<times> vector_t \<times> nat \<times> nat"

definition add_stage_constraints :: "vector_linear \<Rightarrow> nat \<Rightarrow> nat \<Rightarrow> constraint_state \<Rightarrow> constraint_state result" where
  "add_stage_constraints g nx nu acc =
     (case acc of (A, b, row, col) \<Rightarrow>
        let nc = length (vl_f g) in
        if 0 < nc then
          bind_result (beside (vl_dfdx g) (vl_dfdu g)) (\<lambda>CD.
          bind_result (fill_block A row col nc (nx + nu) CD) (\<lambda>A.
          bind_result (fill_segment b row nc (vl_f g)) (\<lambda>b. Inr (A, b, row + nc, col))))
        else Inr (A, b, row, col))"

definition add_stage_dynamics :: "vector_linear \<Rightarrow> constraint_state \<Rightarrow> constraint_state result" where
  "add_stage_dynamics dyn acc =
     (case acc of (A, b, row, col) \<Rightarrow>
        let nu = m_cols (vl_dfdu dyn); nx = m_cols (vl_dfdx dyn); nxNext = m_rows (vl_dfdx dyn) in
        bind_result (bind_result (beside (vl_dfdx dyn) (vl_dfdu dyn)) (\<lambda>AB. beside AB (mneg (identity nxNext)))) (\<lambda>ABI.
        bind_result (fill_block A row col nxNext (nx + nu + nxNext) ABI) (\<lambda>A.
        bind_result (fill_segment b row nxNext (vl_f dyn)) (\<lambda>b. Inr (A, b, row + nxNext, col + (nx + nu))))))"

definition constraint_stage :: "lq_stage \<Rightarrow> constraint_state \<Rightarrow> constraint_state result" where
  "constraint_stage s acc =
     bind_result (add_stage_constraints (st_constraints s) (m_cols (vl_dfdx (st_dynamics s))) (m_cols (vl_dfdu (st_dynamics s))) acc)
       (add_stage_dynamics (st_dynamics s))"

definition final_constraints :: "vector_linear \<Rightarrow> dmatrix \<Rightarrow> vector_t \<Rightarrow> (dmatrix \<times> vector_t) result" where
  "final_constraints g A b =
     (let nc = length (vl_f g); w = m_cols (vl_dfdx g) in
      if 0 < nc then
        if m_rows A < nc \<or> m_cols A < w \<or> m_rows (vl_dfdx g) \<noteq> nc then Inl Assertion_Failed
        else bind_result (set_block A (m_rows A - nc) (m_cols A - w) (vl_dfdx g)) (\<lambda>A.
             bind_result (set_segment b (length b - nc) (vl_f g)) (\<lambda>b. Inr (A, b)))
      else Inr (A, b))"

definition getConstraintMatrices :: "lq_stage list \<Rightarrow> vector_t \<Rightarrow> nat \<Rightarrow> nat \<Rightarrow> vector_linear result" where
  "getConstraintMatrices lqp dx0 numConstraints numDecisionVariables =
     (if lqp = [] then Inr new_VectorLinear
      else let N = length lqp - 1; nx0 = length dx0 in
        bind_result (set_block (zero_mat numConstraints numDecisionVariables) 0 0 (mneg (identity nx0))) (\<lambda>A.
        bind_result (set_segment (zero_vec numConstraints) 0 dx0) (\<lambda>b.
        bind_result (fold_result constraint_stage (take N lqp) (A, b, nx0, 0)) (\<lambda>(A, b, row, col).
        bind_result (final_constraints (st_constraints (lqp ! N)) A b) (\<lambda>(A, b).
        Inr \<lparr>vl_dfdx = A, vl_dfdu = empty_mat, vl_f = b\<rparr>)))))"

section \<open>Cost\<close>

type_synonym cost_state = "dmatrix \<times> vector_t \<times> scalar \<times> nat"

definition stage_hessian :: "scalar_quadratic \<Rightarrow> dmatrix result" where
  "stage_hessian c =
     bind_result (beside (dfdxx c) (tr (dfdux c))) (\<lambda>upper.
     bind_result (beside (dfdux c) (dfduu c)) (\<lambda>lower. above upper lower))"

definition cost_stage :: "lq_stage \<Rightarrow> cost_state \<Rightarrow> cost_state result" where
  "cost_stage s acc =
     (case acc of (H, g, c, row) \<Rightarrow>
        let qpCost = st_cost s; nx = m_cols (dfdux qpCost); nu = m_rows (dfdux qpCost) in
        bind_result (stage_hessian qpCost) (\<lambda>B.
        bind_result (fill_block H row row (nx + nu) (nx + nu) B) (\<lambda>H.
        bind_result (fill_segment g row (nx + nu) (dfdx qpCost @ dfdu qpCost)) (\<lambda>g.
        Inr (H, g, c + appr_f qpCost, row + (nx + nu))))))"

definition getCostMatrices :: "lq_stage list \<Rightarrow> nat \<Rightarrow> scalar_quadratic result" where
  "getCostMatrices lqp numDecisionVariables =
     (if lqp = [] then Inr new_ScalarQuadratic
      else let N = length lqp - 1; qpCost = st_cost (lqp ! N); nx = length (dfdx qpCost) in
        bind_result (fold_result cost_stage (take N lqp) (zero_mat numDecisionVariables numDecisionVariables, zero_vec numDecisionVariables, 0, 0))
          (\<lambda>(H, g, c, row).
        bind_result (fill_block H row row nx nx (dfdxx qpCost)) (\<lambda>H.
        bind_result (fill_segment g row nx (dfdx qpCost)) (\<lambda>g.
        Inr (new_ScalarQuadratic\<lparr>dfdxx := H, dfdx := g, appr_f := c + appr_f qpCost\<rparr>)))))"

definition getDenseQp :: "lq_stage list \<Rightarrow> vector_t \<Rightarrow> (scalar_quadratic \<times> vector_linear) result" where
  "getDenseQp lqp dx0 =
     bind_result (getNumStatesInputsConstraints lqp) (\<lambda>(numStates, numInputs, numConstraints).
     let n = getNumDecisionVariables numStates numInputs; m = getNumConstraints numStates numConstraints in
     bind_result (getCostMatrices lqp n) (\<lambda>qpCost.
     bind_result (getConstraintMatrices lqp dx0 m n) (\<lambda>constraints. Inr (qpCost, constraints))))"

section \<open>Solution\<close>

record lu_solver =
  lu_rank :: "dmatrix \<Rightarrow> nat"
  lu_solve :: "dmatrix \<Rightarrow> vector_t \<Rightarrow> vector_t"

definition solveDenseQp :: "lu_solver \<Rightarrow> scalar_quadratic \<Rightarrow> vector_linear \<Rightarrow> (vector_t \<times> vector_t) result" where
  "solveDenseQp lu qpCost constraints =
     (let A = vl_dfdx constraints; m = m_rows A; n = m_cols A in
      bind_result (bind_result (beside (dfdxx qpCost) (tr A)) (\<lambda>upper. bind_result (beside A (zero_mat m m)) (above upper))) (\<lambda>kkt.
      bind_result (require (m_rows kkt = n + m \<and> m_cols kkt = n + m) Assertion_Failed) (\<lambda>_.
      bind_result (fill_segment (zero_vec (n + m)) 0 (n + m) (vneg (dfdx qpCost) @ vneg (vl_f constraints))) (\<lambda>rhs.
      if lu_rank lu kkt \<noteq> n + m then Inl (Runtime_Error ''KKT matrix is not full rank'')
      else let sol = lu_solve lu kkt rhs in
        bind_result (eigen_segment sol 0 n) (\<lambda>w.
        bind_result (require (m \<le> length sol) Assertion_Failed) (\<lambda>_. Inr (w, drop (length sol - m) sol)))))))"

fun split_solution :: "nat list \<Rightarrow> nat list \<Rightarrow> vector_t \<Rightarrow> nat \<Rightarrow> (vector_t list \<times> vector_t list) result" where
  "split_solution (nx # numStates) (nu # numInputs) w index =
     bind_result (eigen_segment w index nx) (\<lambda>x.
     bind_result (eigen_segment w (index + nx) nu) (\<lambda>u.
     bind_result (split_solution numStates numInputs w (index + nx + nu)) (\<lambda>(xs, us). Inr (x # xs, u # us))))"
| "split_solution (nx # numStates) [] w index = bind_result (eigen_segment w index nx) (\<lambda>x. Inr ([x], []))"
| "split_solution [] _ w index = Inl Undefined"

definition getStateAndInputTrajectory :: "nat list \<Rightarrow> nat list \<Rightarrow> vector_t \<Rightarrow> (vector_t list \<times> vector_t list) result" where
  "getStateAndInputTrajectory numStates numInputs w =
     (if length numStates \<noteq> length numInputs + 1 then Inl Assertion_Failed else split_solution numStates numInputs w 0)"

definition solveLinearQuadraticProblem :: "lu_solver \<Rightarrow> lq_stage list \<Rightarrow> vector_t \<Rightarrow> (vector_t list \<times> vector_t list) result" where
  "solveLinearQuadraticProblem lu lqp dx0 =
     bind_result (getNumStatesInputsConstraints lqp) (\<lambda>(numStates, numInputs, numConstraints).
     let n = getNumDecisionVariables numStates numInputs; m = getNumConstraints numStates numConstraints in
     bind_result (getConstraintMatrices lqp dx0 m n) (\<lambda>constraints.
     bind_result (getCostMatrices lqp n) (\<lambda>qpCost.
     bind_result (solveDenseQp lu qpCost constraints) (\<lambda>(primal, dual).
     getStateAndInputTrajectory numStates numInputs primal))))"

section \<open>The problem that the QP stands for\<close>

text \<open>The dimensions of the stages fit: the first has \<open>nx\<close> states, and each hands on to the next.\<close>

fun stages_dims :: "nat \<Rightarrow> lq_stage list \<Rightarrow> bool" where
  "stages_dims nx [] = False"
| "stages_dims nx [s] =
     (length (dfdx (st_cost s)) = nx \<and> m_rows (dfdxx (st_cost s)) = nx \<and> m_cols (dfdxx (st_cost s)) = nx \<and>
      (vl_f (st_constraints s) \<noteq> [] \<longrightarrow>
         m_rows (vl_dfdx (st_constraints s)) = length (vl_f (st_constraints s)) \<and> m_cols (vl_dfdx (st_constraints s)) = nx))"
| "stages_dims nx (s # t # ss) =
     (let dyn = st_dynamics s; nu = m_cols (vl_dfdu dyn); nxNext = m_rows (vl_dfdx dyn) in
      quadratic_dims nx nu (st_cost s) \<and> linear_dims nxNext nx nu dyn \<and>
      (vl_f (st_constraints s) \<noteq> [] \<longrightarrow> linear_dims (length (vl_f (st_constraints s))) nx nu (st_constraints s)) \<and>
      stages_dims nxNext (t # ss))"

text \<open>A trajectory of the right size, and its decision vector.\<close>

fun trajectory_dims :: "nat \<Rightarrow> lq_stage list \<Rightarrow> vector_t list \<Rightarrow> vector_t list \<Rightarrow> bool" where
  "trajectory_dims nx [s] [x] [] = (length x = nx)"
| "trajectory_dims nx (s # t # ss) (x # xs) (u # us) =
     (length x = nx \<and> length u = m_cols (vl_dfdu (st_dynamics s)) \<and> trajectory_dims (m_rows (vl_dfdx (st_dynamics s))) (t # ss) xs us)"
| "trajectory_dims nx _ _ _ = False"

fun decision_vector :: "vector_t list \<Rightarrow> vector_t list \<Rightarrow> vector_t" where
  "decision_vector (x # xs) (u # us) = x @ u @ decision_vector xs us"
| "decision_vector (x # xs) [] = x"
| "decision_vector [] us = []"

text \<open>The cost of a trajectory, and whether it satisfies the dynamics and the constraints.\<close>

fun stages_cost :: "lq_stage list \<Rightarrow> vector_t list \<Rightarrow> vector_t list \<Rightarrow> scalar" where
  "stages_cost [s] (x # xs) us = appr_f (st_cost s) + dot (dfdx (st_cost s)) x + 1 / 2 * dot x (mv (dfdxx (st_cost s)) x)"
| "stages_cost (s # t # ss) (x # xs) (u # us) = quadratic_value (st_cost s) x u + stages_cost (t # ss) xs us"
| "stages_cost _ _ _ = 0"

fun stages_feasible :: "lq_stage list \<Rightarrow> vector_t list \<Rightarrow> vector_t list \<Rightarrow> bool" where
  "stages_feasible [s] (x # xs) us =
     (vl_f (st_constraints s) = [] \<or>
      vadd (vl_f (st_constraints s)) (mv (vl_dfdx (st_constraints s)) x) = zero_vec (length (vl_f (st_constraints s))))"
| "stages_feasible (s # t # ss) (x # x' # xs) (u # us) =
     ((vl_f (st_constraints s) = [] \<or> linear_value (st_constraints s) x u = zero_vec (length (vl_f (st_constraints s)))) \<and>
      x' = linear_value (st_dynamics s) x u \<and> stages_feasible (t # ss) (x' # xs) us)"
| "stages_feasible _ _ _ = False"

end
