(* ===== verification/Qp_Matrices.thy ===== *)
theory Qp_Matrices
  imports Qp_Solver
begin

text \<open>
  What the matrices of the QP are: the residual of its constraints at a decision vector is that of the stages at the trajectory,
  stacked, and its quadratic cost is the sum of the stage costs. The loops are followed with a partly built matrix, whose rows below
  the current one are still zero.
\<close>

section \<open>Partly built matrices and vectors\<close>

definition rows_built :: "dmatrix \<Rightarrow> vector_t \<Rightarrow> nat \<Rightarrow> vector_t \<Rightarrow> bool" where
  "rows_built A w row res =
     (length w = m_cols A \<and> zero_below A row \<and> row \<le> m_rows A \<and> length res = row \<and> mv A w = res @ zero_vec (m_rows A - row))"

definition segment_built :: "nat \<Rightarrow> vector_t \<Rightarrow> nat \<Rightarrow> vector_t \<Rightarrow> bool" where
  "segment_built n b row res = (length res = row \<and> row \<le> n \<and> b = res @ zero_vec (n - row))"

lemma rows_built_zero: "length w = n \<Longrightarrow> rows_built (zero_mat m n) w 0 []"
  by (simp add: rows_built_def zero_below_def mv_zero_mat) (simp add: zero_mat_def)

lemma segment_built_zero: "segment_built n (zero_vec n) 0 []"
  by (simp add: segment_built_def)

lemma rows_built_block:
  assumes built: "rows_built A w row res" and fits: "row + m_rows B \<le> m_rows A"
    and w: "w = pre @ x @ post" "length pre = col" "length x = m_cols B"
  obtains A' where "set_block A row col B = Inr A'" "m_rows A' = m_rows A" "m_cols A' = m_cols A"
    "rows_built A' w (row + m_rows B) (res @ mv B x)"
proof -
  have len: "length w = m_cols A" "zero_below A row" "length res = row" "mv A w = res @ zero_vec (m_rows A - row)"
    using built by (auto simp: rows_built_def)
  have "col + m_cols B \<le> m_cols A" using w len(1) by auto
  then obtain A' where A': "set_block A row col B = Inr A'" using set_block_succeeds fits by blast
  note f = set_block_mv[OF A' len(2) w len(1)]
  have "take row (mv A w) = res" using len(3,4) by simp
  then have "rows_built A' w (row + m_rows B) (res @ mv B x)" using f len by (simp add: rows_built_def)
  then show ?thesis using that A' f by blast
qed

lemma segment_built_set:
  assumes "segment_built n b row res" "row + length s \<le> n"
  obtains b' where "set_segment b row s = Inr b'" "segment_built n b' (row + length s) (res @ s)"
proof -
  have b: "b = res @ zero_vec (n - row)" "length res = row" "length b = n" using assms by (auto simp: segment_built_def)
  have "drop (row + length s) b = zero_vec (n - (row + length s))" using b by (simp add: zero_vec_def)
  then show ?thesis using that[of "res @ s @ zero_vec (n - (row + length s))"] assms(2) b by (simp add: set_segment_def segment_built_def)
qed

lemma rows_built_full: "rows_built A w (m_rows A) res \<Longrightarrow> mv A w = res"
  by (simp add: rows_built_def zero_vec_def)

lemma segment_built_full: "segment_built n b n res \<Longrightarrow> b = res"
  by (simp add: segment_built_def zero_vec_def)

section \<open>Constraints\<close>

fun stage_products :: "lq_stage list \<Rightarrow> vector_t list \<Rightarrow> vector_t list \<Rightarrow> vector_t" where
  "stage_products [s] (x # xs) us = (if vl_f (st_constraints s) = [] then [] else mv (vl_dfdx (st_constraints s)) x)"
| "stage_products (s # t # ss) (x # x' # xs) (u # us) =
     (if vl_f (st_constraints s) = [] then [] else vadd (mv (vl_dfdx (st_constraints s)) x) (mv (vl_dfdu (st_constraints s)) u)) @
     vadd (vadd (mv (vl_dfdx (st_dynamics s)) x) (mv (vl_dfdu (st_dynamics s)) u)) (vneg x') @ stage_products (t # ss) (x' # xs) us"
| "stage_products _ _ _ = []"

fun stage_offsets :: "lq_stage list \<Rightarrow> vector_t" where
  "stage_offsets [s] = vl_f (st_constraints s)"
| "stage_offsets (s # t # ss) = vl_f (st_constraints s) @ vl_f (st_dynamics s) @ stage_offsets (t # ss)"
| "stage_offsets [] = []"

definition constraint_run :: "lq_stage list \<Rightarrow> constraint_state \<Rightarrow> (dmatrix \<times> vector_t) result" where
  "constraint_run ss acc =
     bind_result (fold_result constraint_stage (butlast ss) acc) (\<lambda>(A, b, row, col). final_constraints (st_constraints (last ss)) A b)"

lemma constraint_run_Cons: "constraint_run (s # t # ss) acc = bind_result (constraint_stage s acc) (constraint_run (t # ss))"
  by (cases "constraint_stage s acc") (simp_all add: constraint_run_def)

lemma decision_vector_Cons: "decision_vector (x # x' # xs) (u # us) = x @ u @ x' @ drop (length x') (decision_vector (x' # xs) us)"
  by (cases us) simp_all

lemma decision_vector_first: "decision_vector (x' # xs) us = x' @ drop (length x') (decision_vector (x' # xs) us)"
  by (cases us) simp_all

lemma add_stage_constraints_built:
  assumes A: "rows_built A w row p" and b: "segment_built (m_rows A) b row q" and g: "linear_dims (length (vl_f g)) nx nu g \<or> vl_f g = []"
    and fits: "row + length (vl_f g) \<le> m_rows A"
    and w: "w = pre @ x @ u @ post" "length pre = col" "length x = nx" "length u = nu"
  obtains A' b' where "add_stage_constraints g nx nu (A, b, row, col) = Inr (A', b', row + length (vl_f g), col)"
    "m_rows A' = m_rows A" "m_cols A' = m_cols A"
    "rows_built A' w (row + length (vl_f g)) (p @ (if vl_f g = [] then [] else vadd (mv (vl_dfdx g) x) (mv (vl_dfdu g) u)))"
    "segment_built (m_rows A) b' (row + length (vl_f g)) (q @ vl_f g)"
proof (cases "vl_f g = []")
  case True
  then show ?thesis using that[of A b] A b by (simp add: add_stage_constraints_def)
next
  case False
  let ?B = "beside_pure (vl_dfdx g) (vl_dfdu g)"
  have d: "m_rows (vl_dfdx g) = length (vl_f g)" "m_cols (vl_dfdx g) = nx" "m_rows (vl_dfdu g) = length (vl_f g)" "m_cols (vl_dfdu g) = nu"
    using g False by (auto simp: linear_dims_def)
  obtain A' where A': "set_block A row col ?B = Inr A'" "m_rows A' = m_rows A" "m_cols A' = m_cols A"
      "rows_built A' w (row + m_rows ?B) (p @ mv ?B (x @ u))"
    by (rule rows_built_block[OF A, of ?B pre "x @ u" post col]) (use fits d w in simp_all)
  obtain b' where b': "set_segment b row (vl_f g) = Inr b'" "segment_built (m_rows A) b' (row + length (vl_f g)) (q @ vl_f g)"
    by (rule segment_built_set[OF b fits])
  show ?thesis
    by (rule that[of A' b']) (use A' b' d False w mv_beside[of "vl_dfdx g" "vl_dfdu g" x u] in
        \<open>simp_all add: add_stage_constraints_def result_simps\<close>)
qed

lemma add_stage_dynamics_built:
  assumes A: "rows_built A w row p" and b: "segment_built (m_rows A) b row q" and g: "linear_dims nxNext nx nu g"
    and fits: "row + nxNext \<le> m_rows A"
    and w: "w = pre @ x @ u @ x' @ post" "length pre = col" "length x = nx" "length u = nu" "length x' = nxNext"
  obtains A' b' where "add_stage_dynamics g (A, b, row, col) = Inr (A', b', row + nxNext, col + (nx + nu))"
    "m_rows A' = m_rows A" "m_cols A' = m_cols A"
    "rows_built A' w (row + nxNext) (p @ vadd (vadd (mv (vl_dfdx g) x) (mv (vl_dfdu g) u)) (vneg x'))"
    "segment_built (m_rows A) b' (row + nxNext) (q @ vl_f g)"
proof -
  let ?AB = "beside_pure (vl_dfdx g) (vl_dfdu g)"
  let ?B = "beside_pure ?AB (mneg (identity nxNext))"
  have d: "length (vl_f g) = nxNext" "m_rows (vl_dfdx g) = nxNext" "m_cols (vl_dfdx g) = nx" "m_rows (vl_dfdu g) = nxNext" "m_cols (vl_dfdu g) = nu"
    using g by (auto simp: linear_dims_def)
  obtain A' where A': "set_block A row col ?B = Inr A'" "m_rows A' = m_rows A" "m_cols A' = m_cols A"
      "rows_built A' w (row + m_rows ?B) (p @ mv ?B ((x @ u) @ x'))"
    by (rule rows_built_block[OF A, of ?B pre "(x @ u) @ x'" post col]) (use fits d w in simp_all)
  obtain b' where b': "set_segment b row (vl_f g) = Inr b'" "segment_built (m_rows A) b' (row + length (vl_f g)) (q @ vl_f g)"
    by (rule segment_built_set[OF b, of "vl_f g"]) (use fits d in simp)
  have "mv ?B ((x @ u) @ x') = vadd (vadd (mv (vl_dfdx g) x) (mv (vl_dfdu g) u)) (vneg x')"
    using d w mv_beside[of ?AB "mneg (identity nxNext)" "x @ u" x'] mv_beside[of "vl_dfdx g" "vl_dfdu g" x u]
    by (simp add: mv_mneg mv_identity)
  then show ?thesis
    using that[of A' b'] A' b' d by (simp add: add_stage_dynamics_def result_simps)
qed

lemma final_constraints_built:
  assumes A: "rows_built A w row p" and b: "segment_built (m_rows A) b row q"
    and g: "vl_f g \<noteq> [] \<longrightarrow> m_rows (vl_dfdx g) = length (vl_f g) \<and> m_cols (vl_dfdx g) = length x"
    and rows: "row + length (vl_f g) = m_rows A" and w: "w = pre @ x"
  obtains A' b' where "final_constraints g A b = Inr (A', b')" "m_rows A' = m_rows A" "m_cols A' = m_cols A"
    "mv A' w = p @ (if vl_f g = [] then [] else mv (vl_dfdx g) x)" "b' = q @ vl_f g"
proof (cases "vl_f g = []")
  case True
  then show ?thesis using that[of A b] rows rows_built_full[of A w p] segment_built_full[of "m_rows A" b q] A b
    by (simp add: final_constraints_def)
next
  case False
  have cols: "m_cols A = length pre + length x" using A w by (simp add: rows_built_def)
  have d: "m_rows (vl_dfdx g) = length (vl_f g)" "m_cols (vl_dfdx g) = length x" using g False by auto
  obtain A' where A': "set_block A row (length pre) (vl_dfdx g) = Inr A'" "m_rows A' = m_rows A" "m_cols A' = m_cols A"
      "rows_built A' w (row + m_rows (vl_dfdx g)) (p @ mv (vl_dfdx g) x)"
    by (rule rows_built_block[OF A, of "vl_dfdx g" pre x "[]" "length pre"]) (use rows d w in simp_all)
  obtain b' where b': "set_segment b row (vl_f g) = Inr b'" "segment_built (m_rows A) b' (row + length (vl_f g)) (q @ vl_f g)"
    by (rule segment_built_set[OF b, of "vl_f g"]) (use rows in simp)
  have at: "m_rows A - length (vl_f g) = row" "m_cols A - length x = length pre" "length b = m_rows A"
    using rows cols b by (auto simp: segment_built_def)
  show ?thesis
    by (rule that[of A' b']) (use A' b' d at False rows cols rows_built_full[of A' w] segment_built_full[of "m_rows A" b'] in
        \<open>simp_all add: final_constraints_def Let_def\<close>)
qed

lemma constraint_run_built:
  assumes "stages_dims nx ss" "trajectory_dims nx ss xs us"
    and "rows_built A w row p" "segment_built (m_rows A) b row q" "row + length (stage_offsets ss) = m_rows A"
    and "w = pre @ decision_vector xs us" "length pre = col"
  shows "\<exists>A' b'. constraint_run ss (A, b, row, col) = Inr (A', b') \<and> m_rows A' = m_rows A \<and> m_cols A' = m_cols A \<and>
           mv A' w = p @ stage_products ss xs us \<and> b' = q @ stage_offsets ss"
  using assms
proof (induction ss arbitrary: nx xs us A b row col p q pre rule: stage_offsets.induct)
  case (1 s)
  then obtain x where xs: "xs = [x]" "us = []" "length x = nx" by (cases "(nx, [s], xs, us)" rule: trajectory_dims.cases) auto
  obtain A' b' where "final_constraints (st_constraints s) A b = Inr (A', b')" "m_rows A' = m_rows A" "m_cols A' = m_cols A"
    "mv A' w = p @ (if vl_f (st_constraints s) = [] then [] else mv (vl_dfdx (st_constraints s)) x)" "b' = q @ vl_f (st_constraints s)"
    by (rule final_constraints_built[OF "1.prems"(3,4), of "st_constraints s" x pre]) (use 1 xs in simp_all)
  then show ?case using xs by (simp add: constraint_run_def)
next
  case (2 s t ss)
  let ?g = "st_constraints s" and ?d = "st_dynamics s"
  define nu where "nu = m_cols (vl_dfdu ?d)"
  define nxNext where "nxNext = m_rows (vl_dfdx ?d)"
  obtain x xr u ur where xu: "xs = x # xr" "us = u # ur" "length x = nx" "length u = nu" "trajectory_dims nxNext (t # ss) xr ur"
    using "2.prems"(2) by (cases "(nx, s # t # ss, xs, us)" rule: trajectory_dims.cases) (auto simp: nu_def nxNext_def)
  then obtain x' xr' where xr: "xr = x' # xr'" "length x' = nxNext"
    by (cases "(nxNext, t # ss, xr, ur)" rule: trajectory_dims.cases) auto
  define post where "post = drop (length x') (decision_vector (x' # xr') ur)"
  have w: "w = pre @ x @ u @ x' @ post" "w = (pre @ x @ u) @ decision_vector xr ur"
    using "2.prems"(6) xu xr decision_vector_first[of x' xr' ur] by (simp_all add: post_def)
  have dims: "m_cols (vl_dfdx ?d) = nx" "linear_dims nxNext nx nu ?d" "linear_dims (length (vl_f ?g)) nx nu ?g \<or> vl_f ?g = []" "stages_dims nxNext (t # ss)"
    using "2.prems"(1) by (auto simp: Let_def nu_def nxNext_def linear_dims_def)
  have f: "length (vl_f ?d) = nxNext" using dims(2) by (simp add: linear_dims_def)
  obtain A1 b1 where c: "add_stage_constraints ?g nx nu (A, b, row, col) = Inr (A1, b1, row + length (vl_f ?g), col)"
    "m_rows A1 = m_rows A" "m_cols A1 = m_cols A"
    "rows_built A1 w (row + length (vl_f ?g)) (p @ (if vl_f ?g = [] then [] else vadd (mv (vl_dfdx ?g) x) (mv (vl_dfdu ?g) u)))"
    "segment_built (m_rows A) b1 (row + length (vl_f ?g)) (q @ vl_f ?g)"
    by (rule add_stage_constraints_built[OF "2.prems"(3,4) dims(3) _ w(1) "2.prems"(7) xu(3,4)]) (use "2.prems"(5) in simp_all)
  obtain A2 b2 where e: "add_stage_dynamics ?d (A1, b1, row + length (vl_f ?g), col) =
      Inr (A2, b2, row + length (vl_f ?g) + nxNext, col + (nx + nu))" "m_rows A2 = m_rows A1" "m_cols A2 = m_cols A1"
    "rows_built A2 w (row + length (vl_f ?g) + nxNext)
       ((p @ (if vl_f ?g = [] then [] else vadd (mv (vl_dfdx ?g) x) (mv (vl_dfdu ?g) u))) @
        vadd (vadd (mv (vl_dfdx ?d) x) (mv (vl_dfdu ?d) u)) (vneg x'))"
    "segment_built (m_rows A1) b2 (row + length (vl_f ?g) + nxNext) ((q @ vl_f ?g) @ vl_f ?d)"
    by (rule add_stage_dynamics_built[OF c(4) _ dims(2) _ w(1) "2.prems"(7) xu(3,4) xr(2), of b1 "q @ vl_f ?g"])
      (use c "2.prems"(5) f in simp_all)
  have step: "constraint_stage s (A, b, row, col) = Inr (A2, b2, row + length (vl_f ?g) + nxNext, col + (nx + nu))"
    using c(1) e(1) dims(1) by (simp add: constraint_stage_def nu_def)
  have "\<exists>A' b'. constraint_run (t # ss) (A2, b2, row + length (vl_f ?g) + nxNext, col + (nx + nu)) = Inr (A', b') \<and>
     m_rows A' = m_rows A2 \<and> m_cols A' = m_cols A2 \<and>
     mv A' w = ((p @ (if vl_f ?g = [] then [] else vadd (mv (vl_dfdx ?g) x) (mv (vl_dfdu ?g) u))) @
        vadd (vadd (mv (vl_dfdx ?d) x) (mv (vl_dfdu ?d) u)) (vneg x')) @ stage_products (t # ss) xr ur \<and>
     b' = ((q @ vl_f ?g) @ vl_f ?d) @ stage_offsets (t # ss)"
    by (rule "2.IH"[OF dims(4) xu(5) e(4) _ _ w(2)]) (use e c "2.prems"(5,7) f xu in simp_all)
  then show ?case using step c e xu xr by (simp add: constraint_run_Cons)
qed simp

section \<open>Cost\<close>

fun hessian_products :: "lq_stage list \<Rightarrow> vector_t list \<Rightarrow> vector_t list \<Rightarrow> vector_t" where
  "hessian_products [s] (x # xs) us = mv (dfdxx (st_cost s)) x"
| "hessian_products (s # t # ss) (x # xs) (u # us) =
     vadd (mv (dfdxx (st_cost s)) x) (mv (tr (dfdux (st_cost s))) u) @ vadd (mv (dfdux (st_cost s)) x) (mv (dfduu (st_cost s)) u) @
     hessian_products (t # ss) xs us"
| "hessian_products _ _ _ = []"

fun stage_gradients :: "lq_stage list \<Rightarrow> vector_t" where
  "stage_gradients [s] = dfdx (st_cost s)"
| "stage_gradients (s # t # ss) = dfdx (st_cost s) @ dfdu (st_cost s) @ stage_gradients (t # ss)"
| "stage_gradients [] = []"

definition cost_run :: "lq_stage list \<Rightarrow> cost_state \<Rightarrow> scalar_quadratic result" where
  "cost_run ss acc =
     (let c = st_cost (last ss); nx = length (dfdx c) in
      bind_result (fold_result cost_stage (butlast ss) acc) (\<lambda>(H, g, k, row).
      bind_result (fill_block H row row nx nx (dfdxx c)) (\<lambda>H.
      bind_result (fill_segment g row nx (dfdx c)) (\<lambda>g.
      Inr (new_ScalarQuadratic\<lparr>dfdxx := H, dfdx := g, appr_f := k + appr_f c\<rparr>)))))"

lemma cost_run_Cons: "cost_run (s # t # ss) acc = bind_result (cost_stage s acc) (cost_run (t # ss))"
  by (cases "cost_stage s acc") (simp_all add: cost_run_def Let_def)

lemma cost_stage_built:
  assumes H: "rows_built H w row p" and g: "segment_built (m_rows H) b row q" and d: "quadratic_dims nx nu (st_cost s)"
    and fits: "row + (nx + nu) \<le> m_rows H" and w: "w = pre @ x @ u @ post" "length pre = row" "length x = nx" "length u = nu"
  obtains H' b' where "cost_stage s (H, b, k, row) = Inr (H', b', k + appr_f (st_cost s), row + (nx + nu))"
    "m_rows H' = m_rows H" "m_cols H' = m_cols H"
    "rows_built H' w (row + (nx + nu)) (p @ vadd (mv (dfdxx (st_cost s)) x) (mv (tr (dfdux (st_cost s))) u) @
                                          vadd (mv (dfdux (st_cost s)) x) (mv (dfduu (st_cost s)) u))"
    "segment_built (m_rows H) b' (row + (nx + nu)) (q @ dfdx (st_cost s) @ dfdu (st_cost s))"
proof -
  let ?c = "st_cost s"
  let ?U = "beside_pure (dfdxx ?c) (tr (dfdux ?c))" and ?L = "beside_pure (dfdux ?c) (dfduu ?c)"
  let ?B = "above_pure ?U ?L"
  have e: "length (dfdx ?c) = nx" "length (dfdu ?c) = nu" "m_rows (dfdxx ?c) = nx" "m_cols (dfdxx ?c) = nx"
    "m_rows (dfdux ?c) = nu" "m_cols (dfdux ?c) = nx" "m_rows (dfduu ?c) = nu" "m_cols (dfduu ?c) = nu"
    using d by (auto simp: quadratic_dims_def)
  have B: "stage_hessian ?c = Inr ?B" using e by (simp add: stage_hessian_def result_simps)
  obtain H' where H': "set_block H row row ?B = Inr H'" "m_rows H' = m_rows H" "m_cols H' = m_cols H"
    "rows_built H' w (row + m_rows ?B) (p @ mv ?B (x @ u))"
    by (rule rows_built_block[OF H, of ?B pre "x @ u" post row]) (use fits e w in simp_all)
  obtain b' where b': "set_segment b row (dfdx ?c @ dfdu ?c) = Inr b'"
      "segment_built (m_rows H) b' (row + length (dfdx ?c @ dfdu ?c)) (q @ dfdx ?c @ dfdu ?c)"
    by (rule segment_built_set[OF g, of "dfdx ?c @ dfdu ?c"]) (use fits e in simp)
  have "mv ?B (x @ u) = vadd (mv (dfdxx ?c) x) (mv (tr (dfdux ?c)) u) @ vadd (mv (dfdux ?c) x) (mv (dfduu ?c) u)"
    using e w by (simp add: mv_above mv_beside)
  then show ?thesis using that[of H' b'] H' b' B e by (simp add: cost_stage_def result_simps)
qed

lemma cost_run_built:
  assumes "stages_dims nx ss" "trajectory_dims nx ss xs us"
    and "rows_built H w row p" "segment_built (m_rows H) b row q" "row + length (stage_gradients ss) = m_rows H"
    and "w = pre @ decision_vector xs us" "length pre = row"
  shows "\<exists>c. cost_run ss (H, b, k, row) = Inr c \<and> m_rows (dfdxx c) = m_rows H \<and> m_cols (dfdxx c) = m_cols H \<and>
           mv (dfdxx c) w = p @ hessian_products ss xs us \<and> dfdx c = q @ stage_gradients ss \<and>
           appr_f c = k + sum_list (map (\<lambda>s. appr_f (st_cost s)) ss)"
  using assms
proof (induction ss arbitrary: nx xs us H b row p q pre k rule: stage_gradients.induct)
  case (1 s)
  then obtain x where xs: "xs = [x]" "us = []" "length x = nx" by (cases "(nx, [s], xs, us)" rule: trajectory_dims.cases) auto
  let ?c = "st_cost s"
  have e: "length (dfdx ?c) = nx" "m_rows (dfdxx ?c) = nx" "m_cols (dfdxx ?c) = nx" "row + nx = m_rows H" using 1 by auto
  obtain H' where H': "set_block H row row (dfdxx ?c) = Inr H'" "m_rows H' = m_rows H" "m_cols H' = m_cols H"
    "rows_built H' w (row + m_rows (dfdxx ?c)) (p @ mv (dfdxx ?c) x)"
    by (rule rows_built_block[OF "1.prems"(3), of "dfdxx ?c" pre x "[]" row]) (use 1 e xs in simp_all)
  obtain b' where b': "set_segment b row (dfdx ?c) = Inr b'" "segment_built (m_rows H) b' (row + length (dfdx ?c)) (q @ dfdx ?c)"
    by (rule segment_built_set[OF "1.prems"(4), of "dfdx ?c"]) (use e in simp)
  have "mv H' w = p @ mv (dfdxx ?c) x" "b' = q @ dfdx ?c"
    using H' b' e rows_built_full[of H' w] segment_built_full[of "m_rows H" b'] by simp_all
  then show ?case using xs H' b' e by (simp add: cost_run_def result_simps Let_def)
next
  case (2 s t ss)
  let ?c = "st_cost s"
  define nu where "nu = m_cols (vl_dfdu (st_dynamics s))"
  define nxNext where "nxNext = m_rows (vl_dfdx (st_dynamics s))"
  obtain x xr u ur where xu: "xs = x # xr" "us = u # ur" "length x = nx" "length u = nu" "trajectory_dims nxNext (t # ss) xr ur"
    using "2.prems"(2) by (cases "(nx, s # t # ss, xs, us)" rule: trajectory_dims.cases) (auto simp: nu_def nxNext_def)
  have w: "w = pre @ x @ u @ decision_vector xr ur" "w = (pre @ x @ u) @ decision_vector xr ur" using "2.prems"(6) xu by simp_all
  have dims: "quadratic_dims nx nu ?c" "stages_dims nxNext (t # ss)" "length (dfdx ?c) = nx" "length (dfdu ?c) = nu"
    using "2.prems"(1) by (auto simp: Let_def nu_def nxNext_def quadratic_dims_def)
  obtain H1 b1 where c: "cost_stage s (H, b, k, row) = Inr (H1, b1, k + appr_f ?c, row + (nx + nu))" "m_rows H1 = m_rows H" "m_cols H1 = m_cols H"
    "rows_built H1 w (row + (nx + nu)) (p @ vadd (mv (dfdxx ?c) x) (mv (tr (dfdux ?c)) u) @ vadd (mv (dfdux ?c) x) (mv (dfduu ?c) u))"
    "segment_built (m_rows H) b1 (row + (nx + nu)) (q @ dfdx ?c @ dfdu ?c)"
    by (rule cost_stage_built[OF "2.prems"(3,4) dims(1) _ w(1) "2.prems"(7) xu(3,4), of k]) (use "2.prems"(5) dims in simp_all)
  have "\<exists>c. cost_run (t # ss) (H1, b1, k + appr_f ?c, row + (nx + nu)) = Inr c \<and> m_rows (dfdxx c) = m_rows H1 \<and> m_cols (dfdxx c) = m_cols H1 \<and>
       mv (dfdxx c) w = (p @ vadd (mv (dfdxx ?c) x) (mv (tr (dfdux ?c)) u) @ vadd (mv (dfdux ?c) x) (mv (dfduu ?c) u)) @ hessian_products (t # ss) xr ur \<and>
       dfdx c = (q @ dfdx ?c @ dfdu ?c) @ stage_gradients (t # ss) \<and>
       appr_f c = (k + appr_f ?c) + sum_list (map (\<lambda>s. appr_f (st_cost s)) (t # ss))"
    by (rule "2.IH"[OF dims(2) xu(5) c(4) _ _ w(2)]) (use c "2.prems"(5,7) dims xu in simp_all)
  then show ?case using c xu by (simp add: cost_run_Cons add.assoc)
qed simp

section \<open>The whole QP\<close>

lemma butlast_take: "xs \<noteq> [] \<Longrightarrow> take (length xs - 1) xs = butlast xs"
  by (simp add: butlast_conv_take)

lemma last_at: "xs \<noteq> [] \<Longrightarrow> xs ! (length xs - 1) = last xs"
  by (simp add: last_conv_nth)

lemma getConstraintMatrices_run:
  assumes "lqp \<noteq> []"
  shows "getConstraintMatrices lqp dx0 m n =
     bind_result (set_block (zero_mat m n) 0 0 (mneg (identity (length dx0)))) (\<lambda>A.
     bind_result (set_segment (zero_vec m) 0 dx0) (\<lambda>b.
     bind_result (constraint_run lqp (A, b, length dx0, 0)) (\<lambda>(A, b). Inr \<lparr>vl_dfdx = A, vl_dfdu = empty_mat, vl_f = b\<rparr>)))"
  using assms butlast_take[OF assms] last_at[OF assms]
  by (simp add: getConstraintMatrices_def constraint_run_def bind_result_def Let_def split: sum.splits)

lemma getCostMatrices_run: "lqp \<noteq> [] \<Longrightarrow> getCostMatrices lqp n = cost_run lqp (zero_mat n n, zero_vec n, 0, 0)"
  using butlast_take[of lqp] last_at[of lqp] by (simp add: getCostMatrices_def cost_run_def)

lemma getConstraintMatrices_built:
  assumes dims: "stages_dims (length dx0) lqp" "trajectory_dims (length dx0) lqp xs us"
    and m: "m = length dx0 + length (stage_offsets lqp)" and n: "n = length (decision_vector xs us)"
  shows "\<exists>A. getConstraintMatrices lqp dx0 m n = Inr \<lparr>vl_dfdx = A, vl_dfdu = empty_mat, vl_f = dx0 @ stage_offsets lqp\<rparr> \<and>
           m_rows A = m \<and> m_cols A = n \<and> mv A (decision_vector xs us) = vneg (hd xs) @ stage_products lqp xs us"
proof -
  have ne: "lqp \<noteq> []" using dims(1) by (cases lqp) auto
  obtain x xr where xs: "xs = x # xr" "length x = length dx0" using dims(2) by (cases "(length dx0, lqp, xs, us)" rule: trajectory_dims.cases) auto
  define w where "w = decision_vector xs us"
  have w: "w = [] @ x @ drop (length x) w" using decision_vector_first[of x xr us] xs by (simp add: w_def)
  let ?I = "mneg (identity (length dx0))"
  obtain A where A: "set_block (zero_mat m n) 0 0 ?I = Inr A" "m_rows A = m" "m_cols A = n" "rows_built A w (length dx0) (mv ?I x)"
    by (rule rows_built_block[where B = ?I and col = 0, OF rows_built_zero[of w n m] _ w]) (use xs m n in \<open>simp_all add: w_def\<close>)
  obtain b where b: "set_segment (zero_vec m) 0 dx0 = Inr b" "segment_built m b (length dx0) dx0"
    by (rule segment_built_set[OF segment_built_zero[of m], of dx0]) (use m in simp_all)
  have "\<exists>A' b'. constraint_run lqp (A, b, length dx0, 0) = Inr (A', b') \<and> m_rows A' = m_rows A \<and> m_cols A' = m_cols A \<and>
      mv A' w = mv ?I x @ stage_products lqp xs us \<and> b' = dx0 @ stage_offsets lqp"
    by (rule constraint_run_built[OF dims A(4), where pre = "[]"]) (use b(2) in \<open>simp_all only: A(2) m w_def append_Nil list.size\<close>)
  then obtain A' b' where r: "constraint_run lqp (A, b, length dx0, 0) = Inr (A', b')" "m_rows A' = m" "m_cols A' = n"
    "mv A' w = mv ?I x @ stage_products lqp xs us" "b' = dx0 @ stage_offsets lqp" using A(2,3) by metis
  have "mv ?I x = vneg x" using xs by (simp add: mv_mneg mv_identity)
  then show ?thesis using getConstraintMatrices_run[OF ne, of dx0 m n] A(1) b(1) r xs(1) w_def by simp
qed

lemma getCostMatrices_built:
  assumes dims: "stages_dims nx lqp" "trajectory_dims nx lqp xs us" and n: "n = length (stage_gradients lqp)" "n = length (decision_vector xs us)"
  shows "\<exists>c. getCostMatrices lqp n = Inr c \<and> m_rows (dfdxx c) = n \<and> m_cols (dfdxx c) = n \<and>
           mv (dfdxx c) (decision_vector xs us) = hessian_products lqp xs us \<and> dfdx c = stage_gradients lqp \<and>
           appr_f c = sum_list (map (\<lambda>s. appr_f (st_cost s)) lqp)"
proof -
  have ne: "lqp \<noteq> []" using dims(1) by (cases lqp) auto
  show ?thesis
    using cost_run_built[OF dims rows_built_zero[of _ n n], of "decision_vector xs us" "zero_vec n" "[]" "[]" 0] n segment_built_zero[of n]
    by (simp add: getCostMatrices_run[OF ne])
qed

end
