(* ===== verification/Qp_Correct.thy ===== *)
theory Qp_Correct
  imports Qp_Matrices
begin

text \<open>
  The QP is the discrete optimal control problem: its equality constraints hold at a decision vector if and only if the trajectory
  starts at \<open>dx0\<close> and satisfies the dynamics and the constraints of the stages, and its cost is theirs. The solution that
  \<open>solveLinearQuadraticProblem\<close> returns is a trajectory of least cost among the feasible ones.
\<close>

section \<open>Sizes\<close>

fun states_of :: "nat \<Rightarrow> lq_stage list \<Rightarrow> nat list" where
  "states_of nx (s # t # ss) = nx # states_of (m_rows (vl_dfdx (st_dynamics s))) (t # ss)"
| "states_of nx _ = [nx]"

fun inputs_of :: "lq_stage list \<Rightarrow> nat list" where
  "inputs_of (s # t # ss) = m_cols (vl_dfdu (st_dynamics s)) # inputs_of (t # ss)"
| "inputs_of _ = []"

lemma states_of_code:
  "stages_dims nx ss \<Longrightarrow> 1 < length ss \<Longrightarrow>
   map (\<lambda>s. m_cols (vl_dfdx (st_dynamics s))) (butlast ss) @ [m_rows (vl_dfdx (st_dynamics (ss ! (length ss - 2))))] = states_of nx ss"
proof (induction nx ss rule: stages_dims.induct)
  case (3 nx s t ss)
  then show ?case by (cases ss) (auto simp: Let_def linear_dims_def)
qed simp_all

lemma inputs_of_code: "map (\<lambda>s. m_cols (vl_dfdu (st_dynamics s))) (butlast ss) = inputs_of ss"
  by (induction ss rule: inputs_of.induct) simp_all

lemma sizes_code:
  assumes "stages_dims nx ss" "1 < length ss"
  shows "getNumStatesInputsConstraints ss = Inr (states_of nx ss, inputs_of ss, map (\<lambda>s. length (vl_f (st_constraints s))) ss)"
proof -
  have ne: "ss \<noteq> []" using assms(2) by auto
  have "map (\<lambda>s. length (vl_f (st_constraints s))) (butlast ss) @ [length (vl_f (st_constraints (last ss)))] =
        map (\<lambda>s. length (vl_f (st_constraints s))) (butlast ss @ [last ss])" by simp
  also have "\<dots> = map (\<lambda>s. length (vl_f (st_constraints s))) ss" by (simp only: append_butlast_last_id[OF ne])
  finally show ?thesis
    using states_of_code[OF assms] inputs_of_code[of ss] assms(2) ne butlast_take[OF ne] last_at[OF ne]
    by (simp add: getNumStatesInputsConstraints_def Let_def numeral_2_eq_2)
qed

lemma offsets_size: "stages_dims nx ss \<Longrightarrow>
  nx + length (stage_offsets ss) = sum_list (states_of nx ss) + sum_list (map (\<lambda>s. length (vl_f (st_constraints s))) ss)"
  by (induction nx ss rule: stages_dims.induct) (auto simp: Let_def linear_dims_def)

lemma gradients_size: "stages_dims nx ss \<Longrightarrow> length (stage_gradients ss) = sum_list (states_of nx ss) + sum_list (inputs_of ss)"
  by (induction nx ss rule: stages_dims.induct) (auto simp: Let_def quadratic_dims_def)

lemma trajectory_size: "trajectory_dims nx ss xs us \<Longrightarrow> length (decision_vector xs us) = sum_list (states_of nx ss) + sum_list (inputs_of ss)"
  by (induction nx ss xs us rule: trajectory_dims.induct) auto

text \<open>Every vector of the right length is the decision vector of a trajectory, which the code reads off.\<close>

lemma split_solution_inverse:
  assumes "stages_dims nx ss" "length v = sum_list (states_of nx ss) + sum_list (inputs_of ss)"
  shows "\<exists>xs us. split_solution (states_of nx ss) (inputs_of ss) (pre @ v) (length pre) = Inr (xs, us) \<and>
           trajectory_dims nx ss xs us \<and> decision_vector xs us = v"
  using assms
proof (induction nx ss arbitrary: v pre rule: stages_dims.induct)
  case (2 nx s)
  then show ?case by (simp add: eigen_segment_def)
next
  case (3 nx s t ss)
  let ?nu = "m_cols (vl_dfdu (st_dynamics s))" and ?nxNext = "m_rows (vl_dfdx (st_dynamics s))"
  define x where "x = take nx v"
  define u where "u = take ?nu (drop nx v)"
  define r where "r = drop (nx + ?nu) v"
  have v: "v = x @ u @ r" unfolding x_def u_def r_def by (metis append_take_drop_id drop_drop add.commute)
  have len: "length x = nx" "length u = ?nu" "length r = sum_list (states_of ?nxNext (t # ss)) + sum_list (inputs_of (t # ss))"
    using "3.prems"(2) by (simp_all add: x_def u_def r_def)
  have sub: "stages_dims ?nxNext (t # ss)" using "3.prems"(1) by (simp add: Let_def)
  obtain xs us where IH: "split_solution (states_of ?nxNext (t # ss)) (inputs_of (t # ss)) ((pre @ x @ u) @ r) (length (pre @ x @ u)) = Inr (xs, us)"
    "trajectory_dims ?nxNext (t # ss) xs us" "decision_vector xs us = r"
    using "3.IH"[OF refl refl refl sub len(3), of "pre @ x @ u"] by blast
  have "eigen_segment (pre @ v) (length pre) nx = Inr x" "eigen_segment (pre @ v) (length pre + nx) ?nu = Inr u"
    using len v by (simp_all add: eigen_segment_def)
  then show ?case using IH len v by (auto simp: add.assoc intro!: exI[of _ "x # xs"] exI[of _ "u # us"])
qed simp

text \<open>With the end node alone the number of its states is read from the stage before the first one.\<close>

lemma single_stage_undefined: "solveLinearQuadraticProblem lu [s] dx0 = Inl Undefined"
  by (simp add: solveLinearQuadraticProblem_def getNumStatesInputsConstraints_def)

section \<open>Feasibility and cost\<close>

lemma vadd_zero_iff: "length a = length b \<Longrightarrow> vadd a b = zero_vec (length b) \<longleftrightarrow> a = vneg b"
  by (auto simp: list_eq_iff_nth_eq zero_vec_def add_eq_0_iff)

lemma vneg_vneg [simp]: "vneg (vneg v) = v"
  by (simp add: vneg_def o_def)

lemma vneg_inject [simp]: "vneg u = vneg v \<longleftrightarrow> u = v"
  by (metis vneg_vneg)

lemma vneg_append: "vneg (u @ v) = vneg u @ vneg v"
  by (simp add: vneg_def)

lemma vadd_commute: "length u = length v \<Longrightarrow> vadd u v = vadd v u"
  by (intro nth_equalityI) simp_all

lemma step_iff:
  assumes "length a = length b" "length x = length b"
  shows "vadd a (vneg x) = vneg b \<longleftrightarrow> x = vadd b a"
  using assms by (auto simp: list_eq_iff_nth_eq algebra_simps)

lemma products_size: "stages_dims nx ss \<Longrightarrow> trajectory_dims nx ss xs us \<Longrightarrow> length (stage_products ss xs us) = length (stage_offsets ss)"
proof (induction ss arbitrary: nx xs us rule: stage_offsets.induct)
  case (1 s)
  then show ?case by (cases "(nx, [s], xs, us)" rule: trajectory_dims.cases) auto
next
  case (2 s t ss)
  then obtain x xr u ur where "xs = x # xr" "us = u # ur" "trajectory_dims (m_rows (vl_dfdx (st_dynamics s))) (t # ss) xr ur"
    by (cases "(nx, s # t # ss, xs, us)" rule: trajectory_dims.cases) auto
  moreover from this(3) obtain x' xr' where "xr = x' # xr'" by (cases xr) auto
  ultimately show ?case using 2 by (auto simp: Let_def linear_dims_def)
qed simp

lemma products_feasible:
  "stages_dims nx ss \<Longrightarrow> trajectory_dims nx ss xs us \<Longrightarrow>
   stage_products ss xs us = vneg (stage_offsets ss) \<longleftrightarrow> stages_feasible ss xs us"
proof (induction ss arbitrary: nx xs us rule: stage_offsets.induct)
  case (1 s)
  then obtain x where x: "xs = [x]" "us = []" by (cases "(nx, [s], xs, us)" rule: trajectory_dims.cases) auto
  let ?g = "st_constraints s"
  show ?case
  proof (cases "vl_f ?g = []")
    case False
    then have "length (mv (vl_dfdx ?g) x) = length (vl_f ?g)" using 1 by simp
    then show ?thesis using x False vadd_zero_iff[of "mv (vl_dfdx ?g) x" "vl_f ?g"] vadd_commute[of "vl_f ?g" "mv (vl_dfdx ?g) x"] by simp
  qed (use x in \<open>simp add: vneg_def\<close>)
next
  case (2 s t ss)
  let ?g = "st_constraints s" and ?d = "st_dynamics s"
  obtain x xr u ur where xu: "xs = x # xr" "us = u # ur" "trajectory_dims (m_rows (vl_dfdx ?d)) (t # ss) xr ur"
    using "2.prems"(2) by (cases "(nx, s # t # ss, xs, us)" rule: trajectory_dims.cases) auto
  then obtain x' xr' where xr: "xr = x' # xr'" "length x' = m_rows (vl_dfdx ?d)"
    by (cases "(m_rows (vl_dfdx ?d), t # ss, xr, ur)" rule: trajectory_dims.cases) auto
  have d: "linear_dims (m_rows (vl_dfdx ?d)) nx (m_cols (vl_dfdu ?d)) ?d" "stages_dims (m_rows (vl_dfdx ?d)) (t # ss)"
    "vl_f ?g \<noteq> [] \<longrightarrow> linear_dims (length (vl_f ?g)) nx (m_cols (vl_dfdu ?d)) ?g" using "2.prems"(1) by (auto simp: Let_def)
  define cp where "cp = (if vl_f ?g = [] then [] else vadd (mv (vl_dfdx ?g) x) (mv (vl_dfdu ?g) u))"
  define dp where "dp = vadd (mv (vl_dfdx ?d) x) (mv (vl_dfdu ?d) u)"
  have len: "length cp = length (vl_f ?g)" "length dp = length (vl_f ?d)" "length x' = length (vl_f ?d)"
    using d xr by (auto simp: cp_def dp_def linear_dims_def)
  have "cp = vneg (vl_f ?g) \<longleftrightarrow> vl_f ?g = [] \<or> linear_value ?g x u = zero_vec (length (vl_f ?g))"
    using len(1) vadd_zero_iff[of cp "vl_f ?g"] vadd_commute[of "vl_f ?g" cp] by (auto simp: cp_def linear_value_def vneg_def)
  moreover have "vadd dp (vneg x') = vneg (vl_f ?d) \<longleftrightarrow> x' = linear_value ?d x u"
    using step_iff[OF len(2,3)] by (simp add: dp_def linear_value_def)
  moreover have "stage_products (t # ss) xr ur = vneg (stage_offsets (t # ss)) \<longleftrightarrow> stages_feasible (t # ss) xr ur"
    using "2.IH"[OF d(2) xu(3)] .
  ultimately show ?case using xu xr len by (simp add: vneg_append cp_def[symmetric] dp_def[symmetric])
qed simp

lemma stages_cost_sum:
  "stages_dims nx ss \<Longrightarrow> trajectory_dims nx ss xs us \<Longrightarrow>
   stages_cost ss xs us = sum_list (map (\<lambda>s. appr_f (st_cost s)) ss) + dot (stage_gradients ss) (decision_vector xs us) +
     1 / 2 * dot (decision_vector xs us) (hessian_products ss xs us)"
proof (induction ss arbitrary: nx xs us rule: stage_offsets.induct)
  case (1 s)
  then show ?case by (cases "(nx, [s], xs, us)" rule: trajectory_dims.cases) auto
next
  case (2 s t ss)
  let ?c = "st_cost s"
  obtain x xr u ur where xu: "xs = x # xr" "us = u # ur" "length x = nx" "length u = m_cols (vl_dfdu (st_dynamics s))"
    "trajectory_dims (m_rows (vl_dfdx (st_dynamics s))) (t # ss) xr ur"
    using "2.prems"(2) by (cases "(nx, s # t # ss, xs, us)" rule: trajectory_dims.cases) auto
  have d: "quadratic_dims nx (length u) ?c" "stages_dims (m_rows (vl_dfdx (st_dynamics s))) (t # ss)"
    using "2.prems"(1) xu by (auto simp: Let_def)
  then have "dot x (mv (tr (dfdux ?c)) u) = dot u (mv (dfdux ?c) x)" using xu by (intro dot_tr_left) (simp_all add: quadratic_dims_def)
  then show ?case using "2.IH"[OF d(2) xu(5)] d(1) xu
    by (simp add: dot_append dot_vadd_right quadratic_dims_def quadratic_value_def algebra_simps)
qed simp

section \<open>The QP is the problem\<close>

definition qp_value :: "scalar_quadratic \<Rightarrow> vector_t \<Rightarrow> scalar" where
  "qp_value c w = appr_f c + dot (dfdx c) w + 1 / 2 * dot w (mv (dfdxx c) w)"

lemma dense_qp_at:
  assumes "stages_dims (length dx0) ss" "1 < length ss" "trajectory_dims (length dx0) ss xs us"
  shows "\<exists>c A. getDenseQp ss dx0 = Inr (c, \<lparr>vl_dfdx = A, vl_dfdu = empty_mat, vl_f = dx0 @ stage_offsets ss\<rparr>) \<and>
           m_rows A = length dx0 + length (stage_offsets ss) \<and> m_cols A = length (decision_vector xs us) \<and>
           m_rows (dfdxx c) = m_cols A \<and> m_cols (dfdxx c) = m_cols A \<and> length (dfdx c) = m_cols A \<and>
           mv A (decision_vector xs us) = vneg (hd xs) @ stage_products ss xs us \<and>
           mv (dfdxx c) (decision_vector xs us) = hessian_products ss xs us \<and>
           qp_value c (decision_vector xs us) = stages_cost ss xs us"
proof -
  define n where "n = length (decision_vector xs us)"
  define m where "m = length dx0 + length (stage_offsets ss)"
  have size: "n = sum_list (states_of (length dx0) ss) + sum_list (inputs_of ss)" "n = length (stage_gradients ss)"
    "m = sum_list (states_of (length dx0) ss) + sum_list (map (\<lambda>s. length (vl_f (st_constraints s))) ss)"
    using trajectory_size[OF assms(3)] gradients_size[OF assms(1)] offsets_size[OF assms(1)] by (simp_all add: n_def m_def)
  obtain A where A: "getConstraintMatrices ss dx0 m n = Inr \<lparr>vl_dfdx = A, vl_dfdu = empty_mat, vl_f = dx0 @ stage_offsets ss\<rparr>"
    "m_rows A = m" "m_cols A = n" "mv A (decision_vector xs us) = vneg (hd xs) @ stage_products ss xs us"
    using getConstraintMatrices_built[OF assms(1,3) m_def n_def] by blast
  obtain c where c: "getCostMatrices ss n = Inr c" "m_rows (dfdxx c) = n" "m_cols (dfdxx c) = n"
    "mv (dfdxx c) (decision_vector xs us) = hessian_products ss xs us" "dfdx c = stage_gradients ss"
    "appr_f c = sum_list (map (\<lambda>s. appr_f (st_cost s)) ss)"
    using getCostMatrices_built[OF assms(1,3) size(2) n_def] by blast
  have "getDenseQp ss dx0 = Inr (c, \<lparr>vl_dfdx = A, vl_dfdu = empty_mat, vl_f = dx0 @ stage_offsets ss\<rparr>)"
    using A(1) c(1) by (simp add: getDenseQp_def sizes_code[OF assms(1,2)] getNumDecisionVariables_def getNumConstraints_def flip: size(1,3))
  moreover have "qp_value c (decision_vector xs us) = stages_cost ss xs us"
    using stages_cost_sum[OF assms(1,3)] c by (simp add: qp_value_def)
  ultimately show ?thesis using A c size by (auto simp: m_def n_def)
qed

lemma constraints_at:
  assumes "stages_dims (length dx0) ss" "trajectory_dims (length dx0) ss xs us"
    and "mv A (decision_vector xs us) = vneg (hd xs) @ stage_products ss xs us"
  shows "mv A (decision_vector xs us) = vneg (dx0 @ stage_offsets ss) \<longleftrightarrow> hd xs = dx0 \<and> stages_feasible ss xs us"
proof -
  have "length (hd xs) = length dx0" using assms(2) by (cases "(length dx0, ss, xs, us)" rule: trajectory_dims.cases) auto
  then show ?thesis using products_feasible[OF assms(1,2)] assms(3) by (auto simp: vneg_append)
qed

text \<open>
  C38. The dense QP of a problem with at least one stage stands for the problem. For every trajectory of the right size, the equality
  constraints of the QP hold at its decision vector exactly if the trajectory starts at \<open>dx0\<close>, follows the dynamics and satisfies the
  constraints of every stage, and the cost of the QP is the sum of the stage costs.
\<close>

theorem dense_qp_is_problem:
  assumes "stages_dims (length dx0) lqp" and "1 < length lqp" and "trajectory_dims (length dx0) lqp xs us"
  shows "\<exists>c g. getDenseQp lqp dx0 = Inr (c, g) \<and>
           (vadd (mv (vl_dfdx g) (decision_vector xs us)) (vl_f g) = zero_vec (length (vl_f g)) \<longleftrightarrow> hd xs = dx0 \<and> stages_feasible lqp xs us) \<and>
           appr_f c + dot (dfdx c) (decision_vector xs us) + 1 / 2 * dot (decision_vector xs us) (mv (dfdxx c) (decision_vector xs us)) =
             stages_cost lqp xs us"
proof -
  obtain c A where q: "getDenseQp lqp dx0 = Inr (c, \<lparr>vl_dfdx = A, vl_dfdu = empty_mat, vl_f = dx0 @ stage_offsets lqp\<rparr>)"
    "m_rows A = length dx0 + length (stage_offsets lqp)" "mv A (decision_vector xs us) = vneg (hd xs) @ stage_products lqp xs us"
    "qp_value c (decision_vector xs us) = stages_cost lqp xs us"
    using dense_qp_at[OF assms] by blast
  have "length (vneg (hd xs) @ stage_products lqp xs us) = m_rows A" using q(3) by (metis vec_dims_ops(1))
  with q show ?thesis
    using constraints_at[OF assms(1,3) q(3)] vadd_zero_iff[of "mv A (decision_vector xs us)" "dx0 @ stage_offsets lqp"]
    by (simp add: qp_value_def)
qed

section \<open>Optimality\<close>

text \<open>The Hessians of a stage are symmetric and its quadratic form is not negative.\<close>

definition stage_convex :: "lq_stage \<Rightarrow> bool" where
  "stage_convex s =
     (let c = st_cost s in symmetric (dfdxx c) \<and> symmetric (dfduu c) \<and>
      (\<forall>x u. length x = m_rows (dfdxx c) \<longrightarrow> length u = m_rows (dfduu c) \<longrightarrow>
         0 \<le> dot x (mv (dfdxx c) x) + 2 * dot u (mv (dfdux c) x) + dot u (mv (dfduu c) u)))"

definition final_convex :: "lq_stage \<Rightarrow> bool" where
  "final_convex s =
     (let c = st_cost s in symmetric (dfdxx c) \<and> (\<forall>x. length x = m_rows (dfdxx c) \<longrightarrow> 0 \<le> dot x (mv (dfdxx c) x)))"

definition problem_convex :: "lq_stage list \<Rightarrow> bool" where
  "problem_convex ss = ((\<forall>s \<in> set (butlast ss). stage_convex s) \<and> final_convex (last ss))"

lemma hessian_symmetric:
  "stages_dims nx ss \<Longrightarrow> problem_convex ss \<Longrightarrow> trajectory_dims nx ss xs us \<Longrightarrow> trajectory_dims nx ss ys vs \<Longrightarrow>
   dot (decision_vector xs us) (hessian_products ss ys vs) = dot (decision_vector ys vs) (hessian_products ss xs us)"
proof (induction ss arbitrary: nx xs us ys vs rule: stage_offsets.induct)
  case (1 s)
  obtain x y where "xs = [x]" "us = []" "ys = [y]" "vs = []" "length x = nx" "length y = nx"
    using "1.prems"(3,4) by (cases "(nx, [s], xs, us)" rule: trajectory_dims.cases; cases "(nx, [s], ys, vs)" rule: trajectory_dims.cases) auto
  then show ?case using 1 symmetric_dot[of "dfdxx (st_cost s)" x y] by (simp add: problem_convex_def final_convex_def Let_def)
next
  case (2 s t ss)
  let ?c = "st_cost s" and ?n = "m_rows (vl_dfdx (st_dynamics s))"
  obtain x xr u ur where xu: "xs = x # xr" "us = u # ur" "length x = nx" "length u = m_cols (vl_dfdu (st_dynamics s))" "trajectory_dims ?n (t # ss) xr ur"
    using "2.prems"(3) by (cases "(nx, s # t # ss, xs, us)" rule: trajectory_dims.cases) auto
  obtain y yr v vr where yv: "ys = y # yr" "vs = v # vr" "length y = nx" "length v = m_cols (vl_dfdu (st_dynamics s))" "trajectory_dims ?n (t # ss) yr vr"
    using "2.prems"(4) by (cases "(nx, s # t # ss, ys, vs)" rule: trajectory_dims.cases) auto
  have d: "quadratic_dims nx (length u) ?c" "stages_dims ?n (t # ss)" "problem_convex (t # ss)" "stage_convex s"
    using "2.prems"(1,2) xu by (auto simp: Let_def problem_convex_def)
  note e = d(1)[unfolded quadratic_dims_def]
  have "dot x (mv (dfdxx ?c) y) = dot y (mv (dfdxx ?c) x)" "dot u (mv (dfduu ?c) v) = dot v (mv (dfduu ?c) u)"
    using d(4) e xu yv by (simp_all add: stage_convex_def Let_def symmetric_dot)
  moreover have "dot x (mv (tr (dfdux ?c)) v) = dot v (mv (dfdux ?c) x)" "dot y (mv (tr (dfdux ?c)) u) = dot u (mv (dfdux ?c) y)"
    using e xu yv by (simp_all add: dot_tr_left)
  ultimately show ?case using "2.IH"[OF d(2,3) xu(5) yv(5)] e xu yv
    by (simp add: dot_append dot_vadd_right)
qed simp

lemma hessian_psd:
  "stages_dims nx ss \<Longrightarrow> problem_convex ss \<Longrightarrow> trajectory_dims nx ss xs us \<Longrightarrow> 0 \<le> dot (decision_vector xs us) (hessian_products ss xs us)"
proof (induction ss arbitrary: nx xs us rule: stage_offsets.induct)
  case (1 s)
  then show ?case by (cases "(nx, [s], xs, us)" rule: trajectory_dims.cases) (auto simp: problem_convex_def final_convex_def Let_def)
next
  case (2 s t ss)
  let ?c = "st_cost s" and ?n = "m_rows (vl_dfdx (st_dynamics s))"
  obtain x xr u ur where xu: "xs = x # xr" "us = u # ur" "length x = nx" "length u = m_cols (vl_dfdu (st_dynamics s))" "trajectory_dims ?n (t # ss) xr ur"
    using "2.prems"(3) by (cases "(nx, s # t # ss, xs, us)" rule: trajectory_dims.cases) auto
  have d: "quadratic_dims nx (length u) ?c" "stages_dims ?n (t # ss)" "problem_convex (t # ss)" "stage_convex s"
    using "2.prems"(1,2) xu by (auto simp: Let_def problem_convex_def)
  note e = d(1)[unfolded quadratic_dims_def]
  have "0 \<le> dot x (mv (dfdxx ?c) x) + 2 * dot u (mv (dfdux ?c) x) + dot u (mv (dfduu ?c) u)"
    using d(4) e xu by (simp add: stage_convex_def Let_def)
  moreover have "dot x (mv (tr (dfdux ?c)) u) = dot u (mv (dfdux ?c) x)" using e xu by (simp add: dot_tr_left)
  ultimately show ?case using "2.IH"[OF d(2,3) xu(5)] e xu by (simp add: dot_append dot_vadd_right)
qed simp

text \<open>What is asked of the LU solver: on a matrix of full rank it solves the system.\<close>

definition lu_ok :: "lu_solver \<Rightarrow> bool" where
  "lu_ok lu =
     (\<forall>K r. m_rows K = m_cols K \<longrightarrow> length r = m_rows K \<longrightarrow> lu_rank lu K = m_rows K \<longrightarrow>
        length (lu_solve lu K r) = m_rows K \<and> mv K (lu_solve lu K r) = r)"

lemma solveDenseQp_kkt:
  assumes lu: "lu_ok lu" and d: "m_rows (dfdxx c) = m_cols A" "m_cols (dfdxx c) = m_cols A" "length (dfdx c) = m_cols A" "length b = m_rows A"
  shows "(\<exists>w l. solveDenseQp lu c \<lparr>vl_dfdx = A, vl_dfdu = B, vl_f = b\<rparr> = Inr (w, l) \<and> length w = m_cols A \<and> length l = m_rows A \<and>
            vadd (mv (dfdxx c) w) (mv (tr A) l) = vneg (dfdx c) \<and> mv A w = vneg b) \<or>
         solveDenseQp lu c \<lparr>vl_dfdx = A, vl_dfdu = B, vl_f = b\<rparr> = Inl (Runtime_Error ''KKT matrix is not full rank'')"
proof -
  let ?n = "m_cols A" and ?m = "m_rows A"
  let ?U = "beside_pure (dfdxx c) (tr A)" and ?L = "beside_pure A (zero_mat ?m ?m)"
  let ?K = "above_pure ?U ?L"
  let ?r = "vneg (dfdx c) @ vneg b"
  have rhs: "fill_segment (zero_vec (?n + ?m)) 0 (?n + ?m) ?r = Inr ?r" using d by (simp add: fill_segment_def set_segment_def)
  show ?thesis
  proof (cases "lu_rank lu ?K = ?n + ?m")
    case True
    define sol where "sol = lu_solve lu ?K ?r"
    have sol: "length sol = ?n + ?m" "mv ?K sol = ?r" using lu True d by (auto simp: lu_ok_def sol_def)
    define w where "w = take ?n sol"
    define l where "l = drop ?n sol"
    have wl: "sol = w @ l" "length w = ?n" "length l = ?m" using sol by (simp_all add: w_def l_def)
    have "vadd (mv (dfdxx c) w) (mv (tr A) l) @ vadd (mv A w) (zero_vec ?m) = ?r"
      using sol(2) d wl mv_above[of ?U ?L "w @ l"] mv_beside[of "dfdxx c" "tr A" w l] mv_beside[of A "zero_mat ?m ?m" w l]
      by (simp add: mv_zero_mat)
    then have "vadd (mv (dfdxx c) w) (mv (tr A) l) = vneg (dfdx c)" "mv A w = vneg b" using d by simp_all
    moreover have "solveDenseQp lu c \<lparr>vl_dfdx = A, vl_dfdu = B, vl_f = b\<rparr> = Inr (w, l)"
      using True d rhs wl sol by (simp add: solveDenseQp_def result_simps Let_def sol_def[symmetric] eigen_segment_def)
    ultimately show ?thesis using wl by blast
  next
    case False
    then show ?thesis using d rhs by (simp add: solveDenseQp_def result_simps Let_def)
  qed
qed

lemma kkt_optimal:
  assumes d: "m_rows (dfdxx c) = m_cols A" "m_cols (dfdxx c) = m_cols A" "length (dfdx c) = m_cols A"
    and len: "length w = m_cols A" "length v = m_cols A" "length l = m_rows A"
    and kkt: "vadd (mv (dfdxx c) w) (mv (tr A) l) = vneg (dfdx c)" and same: "mv A v = mv A w"
    and sym: "dot w (mv (dfdxx c) (vadd v (vneg w))) = dot (vadd v (vneg w)) (mv (dfdxx c) w)"
    and psd: "0 \<le> dot (vadd v (vneg w)) (mv (dfdxx c) (vadd v (vneg w)))"
  shows "qp_value c w \<le> qp_value c v"
proof -
  define e where "e = vadd v (vneg w)"
  let ?H = "dfdxx c"
  have e: "length e = m_cols A" "v = vadd w e" using len by (auto simp: e_def intro!: nth_equalityI)
  have "vadd (mv A w) (mv A e) = mv A w" using same e len by (simp add: mv_vadd)
  then have "mv A e = zero_vec (m_rows A)" by (auto simp: list_eq_iff_nth_eq zero_vec_def)
  then have Ae: "dot e (mv (tr A) l) = 0" using e len by (simp add: dot_tr_left dot_comm[of l] dot_zero_left)
  have "dot e (vadd (mv ?H w) (mv (tr A) l)) = dot e (vneg (dfdx c))" using kkt by simp
  then have "dot e (mv ?H w) = - dot e (dfdx c)"
    using d e Ae by (simp add: dot_vadd_right) (simp add: dot_def sum_negf)
  moreover have "qp_value c v = qp_value c w + dot e (dfdx c) + dot e (mv ?H w) + 1 / 2 * dot e (mv ?H e)"
    using d e len sym[folded e_def] by (simp add: qp_value_def mv_vadd dot_vadd_left dot_vadd_right dot_comm[of "dfdx c" e] e_def[symmetric])
  ultimately show ?thesis using psd by (simp add: e_def[symmetric])
qed

lemma solve_from_dense:
  assumes "stages_dims nx lqp" "1 < length lqp" "getDenseQp lqp dx0 = Inr (c, g)"
  shows "solveLinearQuadraticProblem lu lqp dx0 =
    bind_result (solveDenseQp lu c g) (\<lambda>(primal, dual). getStateAndInputTrajectory (states_of nx lqp) (inputs_of lqp) primal)"
  using assms(3) by (auto simp: getDenseQp_def solveLinearQuadraticProblem_def sizes_code[OF assms(1,2)] Let_def result_simps)

lemma states_inputs_length: "stages_dims nx ss \<Longrightarrow> length (states_of nx ss) = length (inputs_of ss) + 1"
  by (induction nx ss rule: stages_dims.induct) (auto simp: Let_def)

text \<open>
  C37. For a convex problem with at least one stage, \<open>solveLinearQuadraticProblem\<close> either reports that the KKT matrix is singular or
  returns a trajectory that starts at \<open>dx0\<close>, follows the dynamics, satisfies all constraints, and has the least cost of all such
  trajectories.
\<close>

theorem qp_solution_optimal:
  assumes "stages_dims (length dx0) lqp" and "1 < length lqp" and "problem_convex lqp" and "lu_ok lu"
  shows "solveLinearQuadraticProblem lu lqp dx0 = Inl (Runtime_Error ''KKT matrix is not full rank'') \<or>
         (\<exists>xs us. solveLinearQuadraticProblem lu lqp dx0 = Inr (xs, us) \<and>
            trajectory_dims (length dx0) lqp xs us \<and> hd xs = dx0 \<and> stages_feasible lqp xs us \<and>
            (\<forall>ys vs. trajectory_dims (length dx0) lqp ys vs \<longrightarrow> hd ys = dx0 \<longrightarrow> stages_feasible lqp ys vs \<longrightarrow>
               stages_cost lqp xs us \<le> stages_cost lqp ys vs))"
proof -
  let ?n = "sum_list (states_of (length dx0) lqp) + sum_list (inputs_of lqp)"
  note split = split_solution_inverse[OF assms(1), of _ "[]", simplified]
  obtain zs rs where "trajectory_dims (length dx0) lqp zs rs" using split[of "zero_vec ?n"] by auto
  from dense_qp_at[OF assms(1,2) this] trajectory_size[OF this]
  obtain c A where q: "getDenseQp lqp dx0 = Inr (c, \<lparr>vl_dfdx = A, vl_dfdu = empty_mat, vl_f = dx0 @ stage_offsets lqp\<rparr>)"
    "m_rows A = length dx0 + length (stage_offsets lqp)" "m_cols A = ?n"
    "m_rows (dfdxx c) = m_cols A" "m_cols (dfdxx c) = m_cols A" "length (dfdx c) = m_cols A" by auto
  have at: "mv A (decision_vector xs us) = vneg (hd xs) @ stage_products lqp xs us" "mv (dfdxx c) (decision_vector xs us) = hessian_products lqp xs us"
    "qp_value c (decision_vector xs us) = stages_cost lqp xs us" if "trajectory_dims (length dx0) lqp xs us" for xs us
    using dense_qp_at[OF assms(1,2) that] q(1) by auto
  have run: "solveLinearQuadraticProblem lu lqp dx0 =
      bind_result (solveDenseQp lu c \<lparr>vl_dfdx = A, vl_dfdu = empty_mat, vl_f = dx0 @ stage_offsets lqp\<rparr>)
        (\<lambda>(primal, dual). getStateAndInputTrajectory (states_of (length dx0) lqp) (inputs_of lqp) primal)"
    by (rule solve_from_dense[OF assms(1,2) q(1)])
  consider (solved) w l where "solveDenseQp lu c \<lparr>vl_dfdx = A, vl_dfdu = empty_mat, vl_f = dx0 @ stage_offsets lqp\<rparr> = Inr (w, l)"
      "length w = m_cols A" "length l = m_rows A" "vadd (mv (dfdxx c) w) (mv (tr A) l) = vneg (dfdx c)" "mv A w = vneg (dx0 @ stage_offsets lqp)"
    | (singular) "solveDenseQp lu c \<lparr>vl_dfdx = A, vl_dfdu = empty_mat, vl_f = dx0 @ stage_offsets lqp\<rparr> = Inl (Runtime_Error ''KKT matrix is not full rank'')"
    using solveDenseQp_kkt[OF assms(4) q(4-6), of "dx0 @ stage_offsets lqp" empty_mat] q(2) by auto
  then show ?thesis
  proof cases
    case solved
    obtain xs us where xu: "split_solution (states_of (length dx0) lqp) (inputs_of lqp) w 0 = Inr (xs, us)"
      "trajectory_dims (length dx0) lqp xs us" "decision_vector xs us = w" using split[of w] solved(2) q(3) by auto
    have feasible: "hd xs = dx0 \<and> stages_feasible lqp xs us" using constraints_at[OF assms(1) xu(2) at(1)[OF xu(2)]] solved(5) xu(3) by simp
    have least: "stages_cost lqp xs us \<le> stages_cost lqp ys vs"
      if y: "trajectory_dims (length dx0) lqp ys vs" "hd ys = dx0" "stages_feasible lqp ys vs" for ys vs
    proof -
      let ?v = "decision_vector ys vs" and ?e = "vadd (decision_vector ys vs) (vneg w)"
      have len: "length ?v = m_cols A" using trajectory_size[OF y(1)] q(3) by simp
      obtain es fs where e: "trajectory_dims (length dx0) lqp es fs" "decision_vector es fs = ?e" using split[of ?e] len q(3) by auto
      have "mv A ?v = mv A w" using constraints_at[OF assms(1) y(1) at(1)[OF y(1)]] y(2,3) solved(5) by simp
      moreover have "dot w (mv (dfdxx c) ?e) = dot ?e (mv (dfdxx c) w)"
        using hessian_symmetric[OF assms(1,3) xu(2) e(1)] at(2)[OF xu(2)] at(2)[OF e(1)] xu(3) e(2) by simp
      moreover have "0 \<le> dot ?e (mv (dfdxx c) ?e)" using hessian_psd[OF assms(1,3) e(1)] at(2)[OF e(1)] e(2) by simp
      ultimately have "qp_value c w \<le> qp_value c ?v"
        by (intro kkt_optimal[OF q(4-6) solved(2) len solved(3,4)])
      then show ?thesis using at(3)[OF xu(2)] at(3)[OF y(1)] xu(3) by simp
    qed
    have "length (states_of (length dx0) lqp) = length (inputs_of lqp) + 1" by (rule states_inputs_length[OF assms(1)])
    then have "solveLinearQuadraticProblem lu lqp dx0 = Inr (xs, us)" using run solved(1) xu(1) by (simp add: getStateAndInputTrajectory_def)
    then show ?thesis using xu(2) feasible least by blast
  next
    case singular
    then show ?thesis using run by simp
  qed
qed

text \<open>One step of \<open>x' = x + u\<close> from one, with the cost \<open>(x\<^sup>2 + u\<^sup>2 + x'\<^sup>2) / 2\<close>.\<close>

definition example_qp :: "lq_stage list" where
  "example_qp =
     [\<lparr>st_cost = \<lparr>dfdxx = Mat 1 1 [[1]], dfdux = Mat 1 1 [[0]], dfduu = Mat 1 1 [[1]], dfdx = [0], dfdu = [0], appr_f = 0\<rparr>,
       st_dynamics = \<lparr>vl_dfdx = Mat 1 1 [[1]], vl_dfdu = Mat 1 1 [[1]], vl_f = [0]\<rparr>, st_constraints = new_VectorLinear\<rparr>,
      \<lparr>st_cost = new_ScalarQuadratic\<lparr>dfdxx := Mat 1 1 [[1]], dfdx := [0]\<rparr>, st_dynamics = new_VectorLinear, st_constraints = new_VectorLinear\<rparr>]"

definition example_kkt :: dmatrix where
  "example_kkt = Mat 5 5 [[1, 0, 0, -1, 1], [0, 1, 0, 0, 1], [0, 0, 1, 0, -1], [-1, 0, 0, 0, 0], [1, 1, -1, 0, 0]]"

definition example_lu :: lu_solver where
  "example_lu =
     \<lparr>lu_rank = (\<lambda>K. if K = example_kkt then 5 else Suc (m_rows K)),
      lu_solve = (\<lambda>K r. mv (Mat 5 5 [[0, 0, 0, -1, 0], [0, 1 / 2, 1 / 2, 1 / 2, 1 / 2], [0, 1 / 2, 1 / 2, -1 / 2, -1 / 2], [-1, 1 / 2, -1 / 2, -3 / 2, -1 / 2], [0, 1 / 2, -1 / 2, -1 / 2, -1 / 2]]) r)\<rparr>"

lemmas example_eval = mk_mat_def m_at_def eval_nat_numeral

lemma example_lu_ok: "lu_ok example_lu"
proof -
  have inv: "mm example_kkt (Mat 5 5 [[0, 0, 0, -1, 0], [0, 1 / 2, 1 / 2, 1 / 2, 1 / 2], [0, 1 / 2, 1 / 2, -1 / 2, -1 / 2], [-1, 1 / 2, -1 / 2, -3 / 2, -1 / 2], [0, 1 / 2, -1 / 2, -1 / 2, -1 / 2]]) = identity 5"
    by (simp add: mm_def identity_def example_kkt_def example_eval upt_rec)
  have "mv example_kkt (mv (Mat 5 5 [[0, 0, 0, -1, 0], [0, 1 / 2, 1 / 2, 1 / 2, 1 / 2], [0, 1 / 2, 1 / 2, -1 / 2, -1 / 2], [-1, 1 / 2, -1 / 2, -3 / 2, -1 / 2], [0, 1 / 2, -1 / 2, -1 / 2, -1 / 2]]) r) = r" if "length r = 5" for r
    using mv_mm[of example_kkt "Mat 5 5 [[0, 0, 0, -1, 0], [0, 1 / 2, 1 / 2, 1 / 2, 1 / 2], [0, 1 / 2, 1 / 2, -1 / 2, -1 / 2], [-1, 1 / 2, -1 / 2, -3 / 2, -1 / 2], [0, 1 / 2, -1 / 2, -1 / 2, -1 / 2]]" r] inv that by (simp add: example_kkt_def mv_identity)
  then show ?thesis by (auto simp: lu_ok_def example_lu_def example_kkt_def)
qed

lemma example_qp_dims: "stages_dims 1 example_qp" "problem_convex example_qp"
  by (simp_all add: example_qp_def new_VectorLinear_def new_ScalarQuadratic_def quadratic_dims_def linear_dims_def problem_convex_def
      stage_convex_def final_convex_def symmetric_def dot_def mv_def example_eval)

lemma example_qp_solution: "solveLinearQuadraticProblem example_lu example_qp [1] = Inr ([[1], [1 / 2]], [[- 1 / 2]])"
  by code_simp

lemma dense_qp_is_problem_witness:
  "\<exists>c g. getDenseQp example_qp [1] = Inr (c, g) \<and>
     (vadd (mv (vl_dfdx g) [1, - 1 / 2, 1 / 2]) (vl_f g) = zero_vec (length (vl_f g)) \<longleftrightarrow>
        hd [[1], [1 / 2]] = [1 :: scalar] \<and> stages_feasible example_qp [[1], [1 / 2]] [[- 1 / 2]]) \<and>
     appr_f c + dot (dfdx c) [1, - 1 / 2, 1 / 2] + 1 / 2 * dot [1, - 1 / 2, 1 / 2] (mv (dfdxx c) [1, - 1 / 2, 1 / 2]) =
       stages_cost example_qp [[1], [1 / 2]] [[- 1 / 2]]"
  using dense_qp_is_problem[of "[1]" example_qp "[[1], [1 / 2]]" "[[- 1 / 2]]"] example_qp_dims(1)
  by (simp add: example_qp_def new_VectorLinear_def)

lemma example_qp_other: "trajectory_dims 1 example_qp [[1], [1]] [[0]]" "stages_feasible example_qp [[1], [1]] [[0]]"
  by (simp_all add: example_qp_def new_VectorLinear_def linear_value_def mv_def vadd_def m_at_def)

lemma qp_solution_optimal_witness: "stages_cost example_qp [[1], [1 / 2]] [[- 1 / 2]] \<le> stages_cost example_qp [[1], [1]] [[0]]"
proof -
  have "1 < length example_qp" by (simp add: example_qp_def)
  from qp_solution_optimal[of "[1]", OF _ this example_qp_dims(2) example_lu_ok] show ?thesis
    using example_qp_dims(1) example_qp_solution example_qp_other by auto
qed

end
