(* ===== verification/Qp_Transcription.thy ===== *)
theory Qp_Transcription
  imports Qp_Correct Sensitivity_Integrator
begin

text \<open>
  \<open>mpc/ocs2_qp_solver/src/{QpDiscreteTranscription,QpTrajectories,Ocs2QpSolver}.cpp\<close>: the linear-quadratic approximation of an optimal
  control problem along a trajectory, discretised by an Euler step per node, and one full step of the QP solver.
\<close>

section \<open>Trajectories\<close>

record continuous_trajectory =
  ct_time :: "scalar list"
  ct_state :: "vector_t list"
  ct_input :: "vector_t list"

definition add_entries :: "vector_t list \<Rightarrow> vector_t list \<Rightarrow> vector_t list result" where
  "add_entries xs ys = map_result (\<lambda>k. bind_result (vec_at ys k) (vec_add (xs ! k))) [0 ..< length xs]"

definition plus_trajectory :: "continuous_trajectory \<Rightarrow> continuous_trajectory \<Rightarrow> continuous_trajectory result" where
  "plus_trajectory lhs rhs =
     bind_result (add_entries (ct_input lhs) (ct_input rhs)) (\<lambda>us.
     bind_result (add_entries (ct_state lhs) (ct_state rhs)) (\<lambda>xs. Inr (lhs\<lparr>ct_state := xs, ct_input := us\<rparr>)))"

section \<open>Transcription\<close>

definition approximateDynamics :: "model_data \<Rightarrow> vector_t \<Rightarrow> scalar \<Rightarrow> vector_linear result" where
  "approximateDynamics md x dt =
     (let d = md_dynamics md in
      bind_result (vec_add (vscale dt (vl_f d)) x) (\<lambda>f.
      Inr \<lparr>vl_dfdx = add_diagonal 1 (mscale dt (vl_dfdx d)), vl_dfdu = mscale dt (vl_dfdu d), vl_f = f\<rparr>))"

text \<open>At the initial time the state is given, and its constraints are left out.\<close>

definition approximateConstraints :: "model_data \<Rightarrow> bool \<Rightarrow> vector_linear result" where
  "approximateConstraints md isInitialTime =
     (if isInitialTime then Inr (md_stateInputEqConstraint md)
      else let xu = md_stateInputEqConstraint md; x = md_stateEqConstraint md;
               nxu = length (vl_f xu); nx = length (vl_f x) in
        bind_result (require (m_rows (vl_dfdx xu) = nxu \<and> m_rows (vl_dfdu xu) = nxu \<and>
                              m_rows (vl_dfdx x) = nx \<and> m_cols (vl_dfdx x) = m_cols (vl_dfdx xu)) Assertion_Failed) (\<lambda>_.
        Inr \<lparr>vl_dfdx = above_pure (vl_dfdx xu) (vl_dfdx x), vl_dfdu = above_pure (vl_dfdu xu) (zero_mat nx (m_cols (vl_dfdu xu))),
             vl_f = vl_f xu @ vl_f x\<rparr>))"

definition ill_posed :: "numerics_ops \<Rightarrow> string \<Rightarrow> scalar \<Rightarrow> string \<Rightarrow> unit result" where
  "ill_posed no what t err = require (err = []) (Runtime_Error (what @ no_to_string no t @ [CHR 0x0A] @ err))"

definition approximateStage ::
  "scalar \<Rightarrow> numerics_ops \<Rightarrow> optimal_control_problem \<Rightarrow> scalar \<times> vector_t \<times> vector_t \<Rightarrow> scalar \<times> vector_t \<Rightarrow> bool \<Rightarrow> lq_stage result" where
  "approximateStage junk no p = (\<lambda>(t, x, u) (tNext, xNext) isInitialTime.
     bind_result (approximateIntermediateLQ junk p t x u no_multipliers new_ModelData) (\<lambda>md.
     bind_result (ill_posed no ''[[qp_solver::approximateStage] Ill-posed problem at intermediate time: '' t
                    (checkSize_ModelData md (int (length x)) (int (length u)))) (\<lambda>_.
     bind_result (checkCostProperties no md) (\<lambda>costErrors.
     bind_result (ill_posed no ''[qp_solver::approximateStage] Ill-posed problem at intermediate time: '' t
                    (checkDynamicsProperties md @ costErrors @ checkConstraintProperties no md)) (\<lambda>_.
     let dt = tNext - t in
     bind_result (approximateDynamics md x dt) (\<lambda>d.
     bind_result (vec_add (vl_f d) (vneg xNext)) (\<lambda>f.
     bind_result (approximateConstraints md isInitialTime) (\<lambda>g.
     Inr \<lparr>st_cost = scale_ScalarQuadratic (md_cost md) dt, st_dynamics = d\<lparr>vl_f := f\<rparr>, st_constraints = g\<rparr>))))))))"

definition check_lagrangians :: "optimal_control_problem \<Rightarrow> unit result" where
  "check_lagrangians p =
     bind_result (require (empty_Collection (equalityLagrangianPtr p) \<and> empty_Collection (stateEqualityLagrangianPtr p))
       (Runtime_Error ''[getLinearQuadraticApproximation] equalityLagrangianPtr and stateEqualityLagrangianPtr should be empty!'')) (\<lambda>_.
     bind_result (require (empty_Collection (inequalityLagrangianPtr p) \<and> empty_Collection (stateInequalityLagrangianPtr p))
       (Runtime_Error ''[getLinearQuadraticApproximation] inequalityLagrangianPtr and stateInequalityLagrangianPtr should be empty!'')) (\<lambda>_.
     require (empty_Collection (finalEqualityLagrangianPtr p) \<and> empty_Collection (finalInequalityLagrangianPtr p))
       (Runtime_Error ''[getLinearQuadraticApproximation] finalEqualityLagrangianPtr and finalInequalityLagrangianPtr should be empty!'')))"

definition approximate_node :: "scalar \<Rightarrow> numerics_ops \<Rightarrow> optimal_control_problem \<Rightarrow> continuous_trajectory \<Rightarrow> nat \<Rightarrow> lq_stage result" where
  "approximate_node junk no p traj k =
     bind_result (vec_at (ct_time traj) k) (\<lambda>t. bind_result (vec_at (ct_state traj) k) (\<lambda>x. bind_result (vec_at (ct_input traj) k) (\<lambda>u.
     bind_result (vec_at (ct_time traj) (k + 1)) (\<lambda>tNext. bind_result (vec_at (ct_state traj) (k + 1)) (\<lambda>xNext.
     approximateStage junk no p (t, x, u) (tNext, xNext) (k = 0))))))"

definition approximate_end :: "scalar \<Rightarrow> numerics_ops \<Rightarrow> optimal_control_problem \<Rightarrow> scalar \<Rightarrow> vector_t \<Rightarrow> lq_stage result" where
  "approximate_end junk no p t x =
     bind_result (approximateFinalLQ junk p t x no_multipliers new_ModelData) (\<lambda>md.
     bind_result (ill_posed no ''[qp_solver::getLinearQuadraticApproximation] Ill-posed problem at final time: '' t
                    (checkSize_ModelData md (int (length x)) 0)) (\<lambda>_.
     bind_result (checkCostProperties no md) (\<lambda>costErrors.
     bind_result (ill_posed no ''[qp_solver::getLinearQuadraticApproximation] Ill-posed problem at final time: '' t
                    (costErrors @ checkConstraintProperties no md)) (\<lambda>_.
     Inr \<lparr>st_cost = md_cost md, st_dynamics = new_VectorLinear, st_constraints = md_stateEqConstraint md\<rparr>))))"

definition getLinearQuadraticApproximation ::
  "scalar \<Rightarrow> numerics_ops \<Rightarrow> optimal_control_problem \<Rightarrow> continuous_trajectory \<Rightarrow> lq_stage list result" where
  "getLinearQuadraticApproximation junk no p traj =
     bind_result (check_lagrangians p) (\<lambda>_.
     if ct_time traj = [] then Inr []
     else let N = length (ct_time traj) - 1 in
       bind_result (map_result (approximate_node junk no p traj) [0 ..< N]) (\<lambda>stages.
       bind_result (vec_at (ct_time traj) N) (\<lambda>t. bind_result (vec_at (ct_state traj) N) (\<lambda>x.
       bind_result (approximate_end junk no p t x) (\<lambda>last_stage. Inr (stages @ [last_stage]))))))"

definition solveLinearQuadraticOptimalControlProblem ::
  "scalar \<Rightarrow> numerics_ops \<Rightarrow> lu_solver \<Rightarrow> optimal_control_problem \<Rightarrow> continuous_trajectory \<Rightarrow> vector_t \<Rightarrow> continuous_trajectory result" where
  "solveLinearQuadraticOptimalControlProblem junk no lu p nominal initialState =
     bind_result (getLinearQuadraticApproximation junk no p nominal) (\<lambda>lqp.
     bind_result (vec_front (ct_state nominal)) (\<lambda>x0.
     bind_result (vec_add initialState (vneg x0)) (\<lambda>dx0.
     bind_result (solveLinearQuadraticProblem lu lqp dx0) (\<lambda>(xs, us).
     plus_trajectory nominal \<lparr>ct_time = ct_time nominal, ct_state = xs, ct_input = us\<rparr>))))"

section \<open>The stages fit\<close>

lemma stack_linear_dims:
  assumes "stack_linear withInput b (a, i) = Inr (a', j)"
  shows "length (vl_f a') = length (vl_f a) \<and> m_rows (vl_dfdx a') = m_rows (vl_dfdx a) \<and> m_cols (vl_dfdx a') = m_cols (vl_dfdx a) \<and>
         m_rows (vl_dfdu a') = m_rows (vl_dfdu a) \<and> m_cols (vl_dfdu a') = m_cols (vl_dfdu a)"
  using assms by (auto simp: stack_linear_def Let_def result_simps set_segment_def set_middleRows_def split: if_splits)

lemma stack_fold_dims:
  assumes "fold_result (\<lambda>k s. if c_isActive k t then bind_result (c_getLinearApproximation k t p) (\<lambda>b. stack_linear withInput b s) else Inr s) ks (a, i) =
    Inr (a', j)"
  shows "length (vl_f a') = length (vl_f a) \<and> m_rows (vl_dfdx a') = m_rows (vl_dfdx a) \<and> m_cols (vl_dfdx a') = m_cols (vl_dfdx a) \<and>
         m_rows (vl_dfdu a') = m_rows (vl_dfdu a) \<and> m_cols (vl_dfdu a') = m_cols (vl_dfdu a)"
  using assms
proof (induction ks arbitrary: a i)
  case (Cons k ks)
  show ?case
  proof (cases "c_isActive k t")
    case True
    then obtain b a1 i1 where step: "stack_linear withInput b (a, i) = Inr (a1, i1)" and
      "fold_result (\<lambda>k s. if c_isActive k t then bind_result (c_getLinearApproximation k t p) (\<lambda>b. stack_linear withInput b s) else Inr s) ks (a1, i1) = Inr (a', j)"
      using Cons.prems by (auto simp: bind_result_eq_Inr)
    then show ?thesis using Cons.IH[of a1 i1] stack_linear_dims[OF step] by simp
  next
    case False
    then show ?thesis using Cons by simp
  qed
qed simp

lemma collection_linear_dims:
  assumes "collection_linear junk withInput nx nu c t p = Inr g"
  shows "m_rows (vl_dfdx g) = length (vl_f g) \<and> m_cols (vl_dfdx g) = nx \<and> (0 \<le> nu \<longrightarrow> m_rows (vl_dfdu g) = length (vl_f g) \<and> m_cols (vl_dfdu g) = nat nu)"
proof -
  let ?a = "resize_VectorLinear junk (collection_num c t) nx nu \<lparr>vl_dfdx = empty_mat, vl_dfdu = empty_mat, vl_f = []\<rparr>"
  obtain j where "fold_result (\<lambda>k s. if c_isActive k t then bind_result (c_getLinearApproximation k t p) (\<lambda>b. stack_linear withInput b s) else Inr s)
      (col_terms c) (?a, 0) = Inr (g, j)" using assms by (auto simp: collection_linear_def Let_def bind_result_eq_Inr)
  then show ?thesis using stack_fold_dims by (fastforce simp: resize_VectorLinear_def resized_mat_def resized_vec_def)
qed

lemma intermediate_constraint_dims:
  assumes "approximateIntermediateLQ junk p t x u ms data = Inr md"
  shows "linear_dims (length (vl_f (md_stateInputEqConstraint md))) (length x) (length u) (md_stateInputEqConstraint md)"
    and "m_rows (vl_dfdx (md_stateEqConstraint md)) = length (vl_f (md_stateEqConstraint md))" and "m_cols (vl_dfdx (md_stateEqConstraint md)) = length x"
proof -
  obtain xeq xueq where "md_stateEqConstraint md = xeq" "md_stateInputEqConstraint md = xueq"
    "StateConstraintCollection_getLinearApproximation junk (stateEqualityConstraintPtr p) t x = Inr xeq"
    "StateInputConstraintCollection_getLinearApproximation junk (equalityConstraintPtr p) t x u = Inr xueq"
    using assms by (auto simp: approximateIntermediateLQ_def result_simps)
  then show "linear_dims (length (vl_f (md_stateInputEqConstraint md))) (length x) (length u) (md_stateInputEqConstraint md)"
    "m_rows (vl_dfdx (md_stateEqConstraint md)) = length (vl_f (md_stateEqConstraint md))" "m_cols (vl_dfdx (md_stateEqConstraint md)) = length x"
    using collection_linear_dims[of junk False "length x" "- 1" "stateEqualityConstraintPtr p" t x xeq]
      collection_linear_dims[of junk True "length x" "int (length u)" "equalityConstraintPtr p" t "(x, u)" xueq]
    by (simp_all add: StateConstraintCollection_getLinearApproximation_def StateInputConstraintCollection_getLinearApproximation_def linear_dims_def)
qed

definition stage_fits :: "nat \<Rightarrow> nat \<Rightarrow> lq_stage \<Rightarrow> bool" where
  "stage_fits nx nu s =
     (quadratic_dims nx nu (st_cost s) \<and> linear_dims nx nx nu (st_dynamics s) \<and>
      linear_dims (length (vl_f (st_constraints s))) nx nu (st_constraints s))"

lemma checked_dims:
  assumes "checkSize_ModelData md (int nx) (int nu) = []" "length (vl_f (md_dynamics md)) = nx" "0 < nx" "0 < nu"
  shows "quadratic_dims nx nu (md_cost md)" and "linear_dims nx nx nu (md_dynamics md)"
  using assms checkSize_quadratic_dims[of nx nu "md_cost md" "''cost''"]
  by (auto simp: checkSize_ModelData_def checkSize_VectorLinear_def linear_dims_def split: if_splits)

text \<open>A stage is the scaled model of its node.\<close>

definition stage_of :: "model_data \<Rightarrow> vector_t \<Rightarrow> vector_t \<Rightarrow> scalar \<Rightarrow> bool \<Rightarrow> lq_stage \<Rightarrow> bool" where
  "stage_of md x xNext dt isInitialTime s =
     (length xNext = length x \<and> length (vl_f (md_dynamics md)) = length x \<and>
      st_cost s = scale_ScalarQuadratic (md_cost md) dt \<and>
      st_dynamics s = \<lparr>vl_dfdx = add_diagonal 1 (mscale dt (vl_dfdx (md_dynamics md))), vl_dfdu = mscale dt (vl_dfdu (md_dynamics md)),
                       vl_f = vadd (vadd (vscale dt (vl_f (md_dynamics md))) x) (vneg xNext)\<rparr> \<and>
      approximateConstraints md isInitialTime = Inr (st_constraints s))"

lemma approximateStage_stage_of:
  assumes "approximateStage junk no p (t, x, u) (tNext, xNext) isInitialTime = Inr s"
  obtains md where "approximateIntermediateLQ junk p t x u no_multipliers new_ModelData = Inr md"
    "checkSize_ModelData md (int (length x)) (int (length u)) = []" "stage_of md x xNext (tNext - t) isInitialTime s"
  using assms
  by (auto simp: approximateStage_def ill_posed_def approximateDynamics_def vec_add_def stage_of_def Let_def bind_result_eq_Inr split: if_splits)

lemma approximateConstraints_dims:
  assumes "approximateConstraints md isInitialTime = Inr g" "linear_dims (length (vl_f (md_stateInputEqConstraint md))) nx nu (md_stateInputEqConstraint md)"
  shows "linear_dims (length (vl_f g)) nx nu g"
  using assms by (auto simp: approximateConstraints_def Let_def bind_result_eq_Inr linear_dims_def split: if_splits)

lemma stage_of_fits:
  assumes md: "approximateIntermediateLQ junk p t x u ms data = Inr md" "checkSize_ModelData md (int (length x)) (int (length u)) = []"
    and s: "stage_of md x xNext dt isInitialTime s" and pos: "x \<noteq> []" "u \<noteq> []"
  shows "stage_fits (length x) (length u) s"
proof -
  note c = intermediate_constraint_dims[OF md(1)]
  have d: "quadratic_dims (length x) (length u) (md_cost md)" "linear_dims (length x) (length x) (length u) (md_dynamics md)"
    using checked_dims[OF md(2)] s pos by (auto simp: stage_of_def)
  have "linear_dims (length (vl_f (st_constraints s))) (length x) (length u) (st_constraints s)"
    using s approximateConstraints_dims[OF _ c(1), of isInitialTime "st_constraints s"] by (simp add: stage_of_def)
  then show ?thesis using d s
    by (auto simp: stage_fits_def stage_of_def quadratic_dims_def linear_dims_def scale_ScalarQuadratic_def add_diagonal_def)
qed

definition end_fits :: "nat \<Rightarrow> lq_stage \<Rightarrow> bool" where
  "end_fits nx e = stages_dims nx [e]"

lemma approximate_end_fits:
  assumes "approximate_end junk no p t x = Inr e"
  shows "end_fits (length x) e"
proof -
  obtain md xeq where md: "approximateFinalLQ junk p t x no_multipliers new_ModelData = Inr md" "checkSize_ModelData md (int (length x)) 0 = []"
    "e = \<lparr>st_cost = md_cost md, st_dynamics = new_VectorLinear, st_constraints = md_stateEqConstraint md\<rparr>"
    using assms by (auto simp: approximate_end_def ill_posed_def bind_result_eq_Inr)
  have "StateConstraintCollection_getLinearApproximation junk (finalEqualityConstraintPtr p) t x = Inr (md_stateEqConstraint md)"
    using md(1) by (auto simp: approximateFinalLQ_def bind_result_eq_Inr)
  then have "m_rows (vl_dfdx (md_stateEqConstraint md)) = length (vl_f (md_stateEqConstraint md)) \<and> m_cols (vl_dfdx (md_stateEqConstraint md)) = length x"
    using collection_linear_dims[of junk False "length x" "- 1"] by (simp add: StateConstraintCollection_getLinearApproximation_def)
  moreover have "length (dfdx (md_cost md)) = length x \<and> m_rows (dfdxx (md_cost md)) = length x \<and> m_cols (dfdxx (md_cost md)) = length x"
    using md(2) by (auto simp: checkSize_ModelData_def checkSize_ScalarQuadratic_def split: if_splits)
  ultimately show ?thesis using md(3) by (simp add: end_fits_def)
qed

lemma stages_dims_all: "\<forall>s \<in> set ss. \<exists>nu. stage_fits nx nu s \<Longrightarrow> end_fits nx e \<Longrightarrow> stages_dims nx (ss @ [e])"
proof (induction ss)
  case (Cons s ss)
  then obtain nu where s: "stage_fits nx nu s" by auto
  have "stages_dims nx (ss @ [e])" using Cons by simp
  then show ?case using s by (cases ss) (auto simp: stage_fits_def Let_def linear_dims_def)
qed (simp add: end_fits_def)

lemma approximation_parts:
  assumes "getLinearQuadraticApproximation junk no p traj = Inr lqp" "ct_time traj \<noteq> []"
  obtains ss e where "lqp = ss @ [e]" "length ss = length (ct_time traj) - 1"
    "\<And>k. k < length (ct_time traj) - 1 \<Longrightarrow> approximate_node junk no p traj k = Inr (ss ! k)"
    "length (ct_time traj) - 1 < length (ct_state traj)"
    "approximate_end junk no p (ct_time traj ! (length (ct_time traj) - 1)) (ct_state traj ! (length (ct_time traj) - 1)) = Inr e"
proof -
  let ?N = "length (ct_time traj) - 1"
  obtain ss e x where r: "map_result (approximate_node junk no p traj) [0 ..< ?N] = Inr ss" "vec_at (ct_state traj) ?N = Inr x"
      "approximate_end junk no p (ct_time traj ! ?N) x = Inr e" "lqp = ss @ [e]"
    using assms by (auto simp: getLinearQuadraticApproximation_def Let_def bind_result_eq_Inr vec_at_eq_Inr split: if_splits)
  have "length ss = ?N" using map_result_Inr[OF r(1)] by simp
  moreover have "approximate_node junk no p traj k = Inr (ss ! k)" if "k < ?N" for k
    using r(1) that by (auto simp: map_result_nth_iff)
  ultimately show ?thesis using that r by (auto simp: vec_at_eq_Inr)
qed

lemma approximate_node_stage_of:
  assumes "approximate_node junk no p traj k = Inr s"
  obtains md where "k + 1 < length (ct_time traj)" "k + 1 < length (ct_state traj)" "k < length (ct_input traj)"
    "approximateIntermediateLQ junk p (ct_time traj ! k) (ct_state traj ! k) (ct_input traj ! k) no_multipliers new_ModelData = Inr md"
    "checkSize_ModelData md (int (length (ct_state traj ! k))) (int (length (ct_input traj ! k))) = []"
    "stage_of md (ct_state traj ! k) (ct_state traj ! (k + 1)) (ct_time traj ! (k + 1) - ct_time traj ! k) (k = 0) s"
  using assms by (auto simp: approximate_node_def bind_result_eq_Inr vec_at_eq_Inr elim!: approximateStage_stage_of)


text \<open>
  C39. The stages of a transcription fit: when \<open>getLinearQuadraticApproximation\<close> returns for a trajectory without empty states and
  inputs, there is a stage for every time, and the sizes of all cost, dynamics and constraint terms are those that the assembly of the
  QP assumes, with the number of states of the first state.
\<close>

theorem transcription_fits:
  assumes "getLinearQuadraticApproximation junk no p traj = Inr lqp"
    and "ct_time traj \<noteq> []" and "[] \<notin> set (ct_state traj)" and "[] \<notin> set (ct_input traj)"
  shows "length lqp = length (ct_time traj) \<and> stages_dims (length (hd (ct_state traj))) lqp"
proof -
  obtain ss e where parts: "lqp = ss @ [e]" "length ss = length (ct_time traj) - 1"
    "\<And>k. k < length (ct_time traj) - 1 \<Longrightarrow> approximate_node junk no p traj k = Inr (ss ! k)"
    "length (ct_time traj) - 1 < length (ct_state traj)"
    "approximate_end junk no p (ct_time traj ! (length (ct_time traj) - 1)) (ct_state traj ! (length (ct_time traj) - 1)) = Inr e"
    using approximation_parts[OF assms(1,2)] by blast
  define nx where "nx = length (hd (ct_state traj))"
  have same: "length (ct_state traj ! k) = nx" if "k \<le> length (ct_time traj) - 1" for k
    using that
  proof (induction k)
    case 0
    have "ct_state traj \<noteq> []" using parts(4) by auto
    then show ?case by (simp add: nx_def hd_conv_nth)
  next
    case (Suc k)
    obtain md where "stage_of md (ct_state traj ! k) (ct_state traj ! (k + 1)) (ct_time traj ! (k + 1) - ct_time traj ! k) (k = 0) (ss ! k)"
      by (rule approximate_node_stage_of[OF parts(3)[of k]]) (use Suc in auto)
    then show ?case using Suc by (simp add: stage_of_def)
  qed
  have "\<exists>nu. stage_fits nx nu (ss ! k)" if "k < length ss" for k
  proof -
    have k: "k < length (ct_time traj) - 1" using that parts(2) by simp
    obtain md where md: "k < length (ct_state traj)" "k < length (ct_input traj)"
      "approximateIntermediateLQ junk p (ct_time traj ! k) (ct_state traj ! k) (ct_input traj ! k) no_multipliers new_ModelData = Inr md"
      "checkSize_ModelData md (int (length (ct_state traj ! k))) (int (length (ct_input traj ! k))) = []"
      "stage_of md (ct_state traj ! k) (ct_state traj ! (k + 1)) (ct_time traj ! (k + 1) - ct_time traj ! k) (k = 0) (ss ! k)"
      by (rule approximate_node_stage_of[OF parts(3)[OF k]]) auto
    have "ct_state traj ! k \<noteq> []" "ct_input traj ! k \<noteq> []" using assms(3,4) md(1,2) nth_mem by metis+
    then show ?thesis using stage_of_fits[OF md(3-5)] same[of k] k by auto
  qed
  then have "\<forall>s \<in> set ss. \<exists>nu. stage_fits nx nu s" by (metis in_set_conv_nth)
  moreover have "end_fits nx e" using approximate_end_fits[OF parts(5)] same[of "length (ct_time traj) - 1"] by simp
  ultimately have "stages_dims nx lqp" using stages_dims_all parts(1) by simp
  moreover have "length lqp = length (ct_time traj)" using parts(1,2) assms(2) by (cases "ct_time traj") auto
  ultimately show ?thesis by (simp add: nx_def)
qed

section \<open>Euler steps\<close>

lemma scaled_cost: "quadratic_dims nx nu a \<Longrightarrow> length x = nx \<Longrightarrow> length u = nu \<Longrightarrow> quadratic_value (scale_ScalarQuadratic a c) x u = c * quadratic_value a x u"
  by (simp add: quadratic_value_def scale_ScalarQuadratic_def quadratic_dims_def mv_mscale dot_vscale_left dot_vscale_right algebra_simps)

lemma stage_euler:
  assumes s: "stage_of md x xNext dt ini s" and d: "linear_dims (length x) (length x) (length u) (md_dynamics md)"
    and len: "length dx = length x" "length du = length u"
  shows "linear_value (st_dynamics s) dx du = vadd (vadd (vadd x dx) (vscale dt (linear_value (md_dynamics md) dx du))) (vneg xNext)"
proof -
  let ?A = "vl_dfdx (md_dynamics md)" and ?B = "vl_dfdu (md_dynamics md)"
  have "mv (add_diagonal 1 (mscale dt ?A)) dx = vadd (vscale dt (mv ?A dx)) dx"
    using d len mv_add_diagonal[of "mscale dt ?A" dx] by (simp add: linear_dims_def mv_mscale)
  then have "linear_value (st_dynamics s) dx du =
      vadd (vadd (vadd (vscale dt (vl_f (md_dynamics md))) x) (vneg xNext)) (vadd (vadd (vscale dt (mv ?A dx)) dx) (vscale dt (mv ?B du)))"
    using s by (simp add: stage_of_def linear_value_def mv_mscale)
  also have "\<dots> = vadd (vadd (vadd x dx) (vscale dt (linear_value (md_dynamics md) dx du))) (vneg xNext)"
    using s d len by (intro nth_equalityI) (simp_all add: stage_of_def linear_value_def linear_dims_def algebra_simps)
  finally show ?thesis .
qed

lemma constraints_value:
  assumes g: "approximateConstraints md ini = Inr g" and xu: "linear_dims (length (vl_f (md_stateInputEqConstraint md))) nx nu (md_stateInputEqConstraint md)"
    and x: "m_rows (vl_dfdx (md_stateEqConstraint md)) = length (vl_f (md_stateEqConstraint md))" "m_cols (vl_dfdx (md_stateEqConstraint md)) = nx"
  shows "linear_value g dx du =
    (if ini then linear_value (md_stateInputEqConstraint md) dx du
     else linear_value (md_stateInputEqConstraint md) dx du @ vadd (vl_f (md_stateEqConstraint md)) (mv (vl_dfdx (md_stateEqConstraint md)) dx))"
proof (cases ini)
  case False
  let ?xu = "md_stateInputEqConstraint md" and ?x = "md_stateEqConstraint md"
  have "g = \<lparr>vl_dfdx = above_pure (vl_dfdx ?xu) (vl_dfdx ?x), vl_dfdu = above_pure (vl_dfdu ?xu) (zero_mat (length (vl_f ?x)) (m_cols (vl_dfdu ?xu))),
      vl_f = vl_f ?xu @ vl_f ?x\<rparr>"
    using g False by (auto simp: approximateConstraints_def Let_def bind_result_eq_Inr)
  then show ?thesis using False xu x by (simp add: linear_value_def linear_dims_def mv_above mv_zero_mat vadd_append)
qed (use g in \<open>simp add: approximateConstraints_def\<close>)

text \<open>
  C40. The stages of a transcription are Euler steps of the linear-quadratic model. At every node but the last and for all deviations of
  its state and input, the dynamics of the stage are the Euler step of the linearised dynamics from the deviated state, relative to the
  next nominal state; the cost is the approximated cost times the step; and the constraints are the linearised equality constraints,
  those on the state alone only after the initial time.
\<close>

theorem transcription_is_euler:
  assumes "getLinearQuadraticApproximation junk no p traj = Inr lqp" and "k + 1 < length (ct_time traj)"
    and "ct_state traj ! k \<noteq> []" and "ct_input traj ! k \<noteq> []"
    and "length dx = length (ct_state traj ! k)" and "length du = length (ct_input traj ! k)"
  shows "\<exists>md. approximateIntermediateLQ junk p (ct_time traj ! k) (ct_state traj ! k) (ct_input traj ! k) no_multipliers new_ModelData = Inr md \<and>
     linear_value (st_dynamics (lqp ! k)) dx du =
       vadd (vadd (vadd (ct_state traj ! k) dx) (vscale (ct_time traj ! (k + 1) - ct_time traj ! k) (linear_value (md_dynamics md) dx du)))
         (vneg (ct_state traj ! (k + 1))) \<and>
     quadratic_value (st_cost (lqp ! k)) dx du = (ct_time traj ! (k + 1) - ct_time traj ! k) * quadratic_value (md_cost md) dx du \<and>
     linear_value (st_constraints (lqp ! k)) dx du =
       linear_value (md_stateInputEqConstraint md) dx du @
       (if k = 0 then [] else vadd (vl_f (md_stateEqConstraint md)) (mv (vl_dfdx (md_stateEqConstraint md)) dx))"
proof -
  have ne: "ct_time traj \<noteq> []" using assms(2) by auto
  obtain ss e where parts: "lqp = ss @ [e]" "length ss = length (ct_time traj) - 1"
    "\<And>k. k < length (ct_time traj) - 1 \<Longrightarrow> approximate_node junk no p traj k = Inr (ss ! k)"
    using approximation_parts[OF assms(1) ne] by blast
  have k: "k < length (ct_time traj) - 1" "lqp ! k = ss ! k" using assms(2) parts(1,2) by (simp_all add: nth_append)
  obtain md where md: "approximateIntermediateLQ junk p (ct_time traj ! k) (ct_state traj ! k) (ct_input traj ! k) no_multipliers new_ModelData = Inr md"
    "checkSize_ModelData md (int (length (ct_state traj ! k))) (int (length (ct_input traj ! k))) = []"
    "stage_of md (ct_state traj ! k) (ct_state traj ! (k + 1)) (ct_time traj ! (k + 1) - ct_time traj ! k) (k = 0) (lqp ! k)"
    by (rule approximate_node_stage_of[OF parts(3)[OF k(1)]]) (use k(2) in auto)
  note c = intermediate_constraint_dims[OF md(1)]
  have d: "quadratic_dims (length (ct_state traj ! k)) (length (ct_input traj ! k)) (md_cost md)"
    "linear_dims (length (ct_state traj ! k)) (length (ct_state traj ! k)) (length (ct_input traj ! k)) (md_dynamics md)"
    using checked_dims[OF md(2)] md(3) assms(3,4) by (auto simp: stage_of_def)
  show ?thesis
  proof (intro exI[of _ md] conjI)
    show "linear_value (st_dynamics (lqp ! k)) dx du =
       vadd (vadd (vadd (ct_state traj ! k) dx) (vscale (ct_time traj ! (k + 1) - ct_time traj ! k) (linear_value (md_dynamics md) dx du)))
         (vneg (ct_state traj ! (k + 1)))" by (rule stage_euler[OF md(3) d(2) assms(5,6)])
    show "quadratic_value (st_cost (lqp ! k)) dx du = (ct_time traj ! (k + 1) - ct_time traj ! k) * quadratic_value (md_cost md) dx du"
      using md(3) scaled_cost[OF d(1) assms(5,6)] by (simp add: stage_of_def)
    show "linear_value (st_constraints (lqp ! k)) dx du = linear_value (md_stateInputEqConstraint md) dx du @
       (if k = 0 then [] else vadd (vl_f (md_stateEqConstraint md)) (mv (vl_dfdx (md_stateEqConstraint md)) dx))"
    proof -
      have "approximateConstraints md (k = 0) = Inr (st_constraints (lqp ! k))" using md(3) by (simp only: stage_of_def)
      from constraints_value[OF this c, of dx du] show ?thesis by (cases "k = 0") simp_all
    qed
  qed (rule md(1))
qed

text \<open>\<open>x' = u\<close> with the cost \<open>(x\<^sup>2 + u\<^sup>2) / 2\<close> and the final cost \<open>x\<^sup>2 / 2\<close>, along a trajectory of two nodes.\<close>

definition unit_cost :: state_input_cost where
  "unit_cost = \<lparr>k_isActive = (\<lambda>_. True), k_getValue = (\<lambda>_ p _. Inr (1 / 2 * (dot (fst p) (fst p) + dot (snd p) (snd p)))),
     k_getQuadraticApproximation = (\<lambda>_ p _. Inr \<lparr>dfdxx = Mat 1 1 [[1]], dfdux = Mat 1 1 [[0]], dfduu = Mat 1 1 [[1]], dfdx = fst p, dfdu = snd p,
       appr_f = 1 / 2 * (dot (fst p) (fst p) + dot (snd p) (snd p))\<rparr>)\<rparr>"

definition unit_final_cost :: state_cost where
  "unit_final_cost = \<lparr>k_isActive = (\<lambda>_. True), k_getValue = (\<lambda>_ x _. Inr (1 / 2 * dot x x)),
     k_getQuadraticApproximation = (\<lambda>_ x _. Inr (new_ScalarQuadratic\<lparr>dfdxx := Mat 1 1 [[1]], dfdx := x, appr_f := 1 / 2 * dot x x\<rparr>))\<rparr>"

definition example_ocp :: optimal_control_problem where
  "example_ocp = new_OptimalControlProblem\<lparr>costPtr := \<lparr>col_terms = [unit_cost], termNameMap = Map.empty\<rparr>,
     finalCostPtr := \<lparr>col_terms = [unit_final_cost], termNameMap = Map.empty\<rparr>,
     dynamicsPtr := Some \<lparr>dynamicsCovariance = (\<lambda>_ _ _. Inr (Mat 1 1 [[0]])),
       dyn_linearApproximation = (\<lambda>_ x u. Inr \<lparr>vl_dfdx = Mat 1 1 [[0]], vl_dfdu = Mat 1 1 [[1]], vl_f = u\<rparr>),
       jumpMapLinearApproximation = (\<lambda>_ x. Inr \<lparr>vl_dfdx = Mat 1 1 [[1]], vl_dfdu = Mat 1 0 [[]], vl_f = x\<rparr>)\<rparr>,
     targetTrajectoriesPtr := Some origin_targets\<rparr>"

definition example_nominal :: continuous_trajectory where
  "example_nominal = \<lparr>ct_time = [0, 1], ct_state = [[1], [1]], ct_input = [[0]]\<rparr>"

lemmas example_ocp_defs = example_ocp_def new_OptimalControlProblem_def new_Collection_def empty_Collection_def no_multipliers_def
  unit_cost_def unit_final_cost_def

definition no_constraints :: "int \<Rightarrow> vector_linear" where
  "no_constraints nu = resize_VectorLinear 0 0 1 nu \<lparr>vl_dfdx = empty_mat, vl_dfdu = empty_mat, vl_f = []\<rparr>"

definition example_md :: "scalar \<Rightarrow> scalar \<Rightarrow> scalar \<Rightarrow> model_data" where
  "example_md t x u = new_ModelData
     \<lparr>md_time := t, md_stateDim := 1, md_inputDim := 1, md_dynamicsCovariance := Mat 1 1 [[0]],
      md_dynamics := \<lparr>vl_dfdx = Mat 1 1 [[0]], vl_dfdu = Mat 1 1 [[1]], vl_f = [u]\<rparr>, md_dynamicsBias := zero_vec 1,
      md_cost := \<lparr>dfdxx = Mat 1 1 [[1]], dfdux = Mat 1 1 [[0]], dfduu = Mat 1 1 [[1]], dfdx = [x], dfdu = [u], appr_f = (dot [x] [x] + dot [u] [u]) / 2\<rparr>,
      md_stateEqConstraint := no_constraints (- 1), md_stateInputEqConstraint := no_constraints 1\<rparr>"

lemma example_intermediate: "approximateIntermediateLQ 0 example_ocp t [x] [u] no_multipliers new_ModelData = Inr (example_md t x u)"
  by (simp add: approximateIntermediateLQ_def dynamics_of_problem_def approximateCost_def targets_of_problem_def example_ocp_defs add_unless_empty_def
      StateInputCostCollection_getQuadraticApproximation_def accumulate_active_def first_active_def StateConstraintCollection_getLinearApproximation_def
      StateInputConstraintCollection_getLinearApproximation_def collection_linear_def Let_def add_state_lagrangian_def add_input_lagrangian_def
      collection_num_def example_md_def no_constraints_def)

lemma no_constraints_dims: "vl_f (no_constraints nu) = []" "m_cols (vl_dfdx (no_constraints nu)) = 1" "m_rows (vl_dfdx (no_constraints nu)) = 0"
  "m_rows (vl_dfdu (no_constraints nu)) = 0" "m_cols (vl_dfdu (no_constraints 1)) = 1"
  by (simp_all add: no_constraints_def resize_VectorLinear_def resized_vec_def resized_mat_def)

lemma example_checks:
  "checkSize_ModelData (example_md t x u) 1 1 = []" "checkDynamicsProperties (example_md t x u) = []"
  "checkCostProperties scalar_numerics (example_md t x u) = Inr []" "checkConstraintProperties scalar_numerics (example_md t x u) = []"
proof -
  show "checkSize_ModelData (example_md t x u) 1 1 = []"
    by (simp add: checkSize_ModelData_def example_md_def checkSize_VectorLinear_def checkSize_ScalarQuadratic_def no_constraints_dims)
  have U: "computeInverseMatrixUUT (no_factorizations scalar_numerics) (Mat 1 1 [[1]]) = Mat 1 1 [[1]]"
    by (simp add: computeInverseMatrixUUT_def scalar_numerics_def mk_mat_def m_at_def)
  show "checkCostProperties scalar_numerics (example_md t x u) = Inr []"
    using U
    by (simp add: checkCostProperties_def checkBeingPSD_quadratic_def checkBeingPSD_def schurComplementOfCostHessianIsPsd_def example_md_def m_size_def
        Let_def mat_checked isApprox_def frobenius2_def, simp add: scalar_numerics_def double_epsilon_def line_def m_at_def mk_mat_def mm_def tr_def madd_def mneg_def)
  show "checkDynamicsProperties (example_md t x u) = []" by (simp add: checkDynamicsProperties_def)
  show "checkConstraintProperties scalar_numerics (example_md t x u) = []"
    by (simp add: checkConstraintProperties_def example_md_def no_constraints_dims)
qed

lemma example_end: "\<exists>e. approximate_end 0 scalar_numerics example_ocp t [x] = Inr e"
proof -
  have "approximateFinalLQ 0 example_ocp t [x] no_multipliers new_ModelData = Inr (new_ModelData
     \<lparr>md_time := t, md_stateDim := 1, md_inputDim := 0, md_dynamicsBias := [], md_dynamics := new_VectorLinear,
      md_stateEqConstraint := no_constraints (- 1), md_cost := new_ScalarQuadratic\<lparr>dfdxx := Mat 1 1 [[1]], dfdx := [x], appr_f := dot [x] [x] / 2\<rparr>\<rparr>)"
    by (simp add: approximateFinalLQ_def dynamics_of_problem_def approximateFinalCost_def targets_of_problem_def example_ocp_defs add_unless_empty_def
        StateCostCollection_getQuadraticApproximation_def accumulate_active_def first_active_def StateConstraintCollection_getLinearApproximation_def
        collection_linear_def Let_def add_state_lagrangian_def add_state_part_def collection_num_def no_constraints_def new_ScalarQuadratic_def)
  then show ?thesis
    by (simp add: approximate_end_def ill_posed_def checkSize_ModelData_def checkSize_VectorLinear_def checkSize_ScalarQuadratic_def no_constraints_dims
        new_ModelData_def new_VectorLinear_def new_ScalarQuadratic_def checkCostProperties_def checkBeingPSD_quadratic_def checkBeingPSD_def
        checkConstraintProperties_def m_size_def Let_def isApprox_def frobenius2_def mat_checked,
        simp add: scalar_numerics_def double_epsilon_def m_at_def mk_mat_def tr_def madd_def mneg_def)
qed

lemma example_approximation:
  obtains lqp where "getLinearQuadraticApproximation 0 scalar_numerics example_ocp example_nominal = Inr lqp"
proof -
  have "\<exists>s. approximate_node 0 scalar_numerics example_ocp example_nominal 0 = Inr s"
    by (simp add: approximate_node_def example_nominal_def approximateStage_def example_intermediate ill_posed_def example_checks
        approximateDynamics_def vec_add_def Let_def, simp add: example_md_def approximateConstraints_def)
  moreover obtain e where "approximate_end 0 scalar_numerics example_ocp 1 [1] = Inr e" using example_end by blast
  moreover have "check_lagrangians example_ocp = Inr ()" by (simp add: check_lagrangians_def example_ocp_defs)
  ultimately show ?thesis using that by (auto simp: getLinearQuadraticApproximation_def Let_def) (auto simp: example_nominal_def)
qed

lemma transcription_fits_witness:
  "\<exists>lqp. getLinearQuadraticApproximation 0 scalar_numerics example_ocp example_nominal = Inr lqp \<and> length lqp = 2 \<and> stages_dims 1 lqp"
proof -
  obtain lqp where "getLinearQuadraticApproximation 0 scalar_numerics example_ocp example_nominal = Inr lqp" by (rule example_approximation)
  with transcription_fits[OF this] show ?thesis by (simp add: example_nominal_def)
qed

lemma transcription_is_euler_witness:
  "\<exists>lqp. getLinearQuadraticApproximation 0 scalar_numerics example_ocp example_nominal = Inr lqp \<and>
     linear_value (st_dynamics (lqp ! 0)) [1] [2] = [2 + 1 * 2 - 1] \<and> quadratic_value (st_cost (lqp ! 0)) [1] [2] = 4"
proof -
  obtain lqp where lqp: "getLinearQuadraticApproximation 0 scalar_numerics example_ocp example_nominal = Inr lqp" by (rule example_approximation)
  from transcription_is_euler[OF lqp, of 0 "[1]" "[2]"] show ?thesis
    using lqp by (auto simp: example_nominal_def example_intermediate)
      (simp_all add: example_md_def linear_value_def quadratic_value_def mv_def vadd_def vscale_def vneg_def dot_def m_at_def)
qed

end
