(* ===== verification/Spec2Isabelle.thy ===== *)
theory Spec2Isabelle
  imports
    Lookup
    Linear_Interpolation
    Mode_Schedule
    Target_Trajectories
    Time_Discretization
    Trajectory_Spreading
    Spreading_Correct
    Spreading_Modes
    Controllers
    Root_Finder
    Rollout
    State_Triggered_Rollout
    Model_Data
    Solutions
    Performance_Index
    Value_Buffer
    Solver_Base
    Mrt_Base
    Mpc_Mrt_Interface
    Ros_Messages
    Mpc_Ros
    Term_Collection
    Penalties
    Eigen_Algebra
    Approximation_Types
    Multidimensional_Penalty
    Constraint_Terms
    Augmented_Lagrangian
    Cost_Terms
    Optimal_Control_Problem
    Ocp_Helpers
    DDP_Helpers
    Search_Strategy
    Linear_Algebra
    Line_Search
    Line_Search_Correct
    Levenberg_Marquardt
    Riccati_Equations
    Riccati_Projection
    Sensitivity_Integrator Model_Checks Ilqr Ilqr_Optimal Gauss_Newton_Data Gauss_Newton_Pass Parallel_Riccati Gauss_Newton_Run Gauss_Newton_Correct Initial_Dual Thread_Pool
    Qp_Solver Qp_Matrices Qp_Correct Qp_Transcription
begin

text \<open>
  A verification library for OCS2, the toolbox for optimal control of switched systems.
\<close>

end
